(* ===== verification/Prelude.thy ===== *)
theory Prelude
  imports Main "HOL-Library.Char_ord" "HOL-Library.List_Lexorder"
begin

text \<open>
  What every component of the development shares: the collections of proof hints, the
  JavaScript string and array operations the sources call (\<^verbatim>\<open>startsWith\<close>, \<^verbatim>\<open>split\<close>,
  \<^verbatim>\<open>join\<close>, template printing of numbers, \<^verbatim>\<open>toLowerCase\<close>), and the generic list lemmas.

  A JavaScript string is a HOL string, a list of code units. HOL characters have 8 bits, so the
  model covers strings over the code units U+0000 to U+00FF; nothing in the modelled code looks
  at a code unit above that range. Times, counters and identifiers are JavaScript numbers that
  the sources use as integers, so they are \<^typ>\<open>nat\<close> or \<^typ>\<open>int\<close> here.
\<close>

named_theorems js_defs \<open>definitions of the JavaScript library operations\<close>
named_theorems policy_defs \<open>definitions of the policy engine's operations\<close>
named_theorems turn_defs \<open>definitions of the turn runtime's operations\<close>
named_theorems task_defs \<open>definitions of the task graph's operations\<close>
named_theorems cron_defs \<open>definitions of the scheduler's operations\<close>

subsection \<open>Strings\<close>

definition startsWith :: "string \<Rightarrow> string \<Rightarrow> bool" where
  [js_defs]: "startsWith s p \<longleftrightarrow> take (length p) s = p"

definition endsWith :: "string \<Rightarrow> string \<Rightarrow> bool" where
  [js_defs]: "endsWith s p \<longleftrightarrow> length p \<le> length s \<and> drop (length s - length p) s = p"

fun includesStr :: "string \<Rightarrow> string \<Rightarrow> bool" where
  "includesStr [] p = (p = [])"
| "includesStr (c # cs) p = (startsWith (c # cs) p \<or> includesStr cs p)"

text \<open>\<^verbatim>\<open>s.split(c)\<close> for a one-character separator: always at least one piece.\<close>

fun splitChar :: "char \<Rightarrow> string \<Rightarrow> string list" where
  "splitChar c [] = [[]]"
| "splitChar c (x # xs) =
     (if x = c then [] # splitChar c xs
      else (case splitChar c xs of [] \<Rightarrow> [[x]] | p # ps \<Rightarrow> (x # p) # ps))"

fun joinWith :: "string \<Rightarrow> string list \<Rightarrow> string" where
  "joinWith sep [] = []"
| "joinWith sep [x] = x"
| "joinWith sep (x # y # zs) = x @ sep @ joinWith sep (y # zs)"

definition lowerChar :: "char \<Rightarrow> char" where
  [js_defs]: "lowerChar c =
     (let n = of_char c :: nat in
      if (65 \<le> n \<and> n \<le> 90) \<or> (192 \<le> n \<and> n \<le> 222 \<and> n \<noteq> 215) then char_of (n + 32) else c)"

definition toLowerCase :: "string \<Rightarrow> string" where
  [js_defs]: "toLowerCase s = map lowerChar s"

text \<open>\<^verbatim>\<open>trim()\<close> and the white space it removes.\<close>

definition isSpace :: "char \<Rightarrow> bool" where
  "isSpace c \<longleftrightarrow> (of_char c :: nat) \<in> {9, 10, 11, 12, 13, 32, 160}"

definition trim :: "string \<Rightarrow> string" where
  "trim s = rev (dropWhile isSpace (rev (dropWhile isSpace s)))"

definition isDigit :: "char \<Rightarrow> bool" where
  [js_defs]: "isDigit c \<longleftrightarrow> 48 \<le> (of_char c :: nat) \<and> (of_char c :: nat) \<le> 57"

definition digitChar :: "nat \<Rightarrow> char" where
  [js_defs]: "digitChar d = char_of (48 + d)"

fun natStr :: "nat \<Rightarrow> string" where
  "natStr n = (if n < 10 then [digitChar n] else natStr (n div 10) @ [digitChar (n mod 10)])"

declare natStr.simps [simp del]

definition digitsVal :: "string \<Rightarrow> nat" where
  [js_defs]: "digitsVal s = foldl (\<lambda>a c. 10 * a + (of_char c - 48)) 0 s"

definition intStr :: "int \<Rightarrow> string" where
  [js_defs]: "intStr i = (if i < 0 then CHR ''-'' # natStr (nat (- i)) else natStr (nat i))"

lemma startsWith_iff: "startsWith s p \<longleftrightarrow> (\<exists>r. s = p @ r)"
  by (metis append_eq_conv_conj append_take_drop_id startsWith_def)

lemma startsWith_append [simp]: "startsWith (p @ r) p"
  by (simp add: startsWith_def)

lemma startsWith_refl [simp]: "startsWith s s"
  by (simp add: startsWith_def)

lemma startsWith_Nil [simp]: "startsWith s []"
  by (simp add: startsWith_def)

lemma endsWith_iff: "endsWith s p \<longleftrightarrow> (\<exists>r. s = r @ p)"
proof
  assume "endsWith s p"
  then have "s = take (length s - length p) s @ p"
    unfolding endsWith_def by (metis append_take_drop_id)
  then show "\<exists>r. s = r @ p" ..
qed (auto simp: endsWith_def)

lemma endsWith_snoc [simp]: "endsWith (xs @ [x]) [y] \<longleftrightarrow> x = y"
  by (auto simp: endsWith_def)

lemma splitChar_not_Nil [simp]: "splitChar c s \<noteq> []"
  by (cases s) (auto split: list.splits)

lemma joinWith_Cons: "joinWith sep (x # xs) = (if xs = [] then x else x @ sep @ joinWith sep xs)"
  by (cases xs) auto

lemma join_splitChar: "joinWith [c] (splitChar c s) = s"
proof (induction s)
  case Nil
  then show ?case by simp
next
  case (Cons x s)
  then show ?case by (cases "splitChar c s") (auto simp: joinWith_Cons)
qed

lemma splitChar_no_sep: "p \<in> set (splitChar c s) \<Longrightarrow> c \<notin> set p"
proof (induction s arbitrary: p)
  case Nil
  then show ?case by simp
next
  case (Cons x s)
  then show ?case by (cases "splitChar c s") (auto split: if_splits)
qed

lemma splitChar_plain: "c \<notin> set s \<Longrightarrow> splitChar c s = [s]"
  by (induction s) auto

lemma splitChar_first: "c \<notin> set s \<Longrightarrow> splitChar c (s @ c # t) = s # splitChar c t"
  by (induction s) auto

lemma splitChar_join: "ps \<noteq> [] \<Longrightarrow> (\<And>p. p \<in> set ps \<Longrightarrow> c \<notin> set p) \<Longrightarrow> splitChar c (joinWith [c] ps) = ps"
proof (induction ps)
  case (Cons p ps)
  then show ?case by (cases "ps = []") (auto simp: joinWith_Cons splitChar_plain splitChar_first)
qed simp

lemma trim_id: "s \<noteq> [] \<Longrightarrow> \<not> isSpace (hd s) \<Longrightarrow> \<not> isSpace (last s) \<Longrightarrow> trim s = s"
proof -
  assume s: "s \<noteq> []" "\<not> isSpace (hd s)" "\<not> isSpace (last s)"
  from s(1,2) have "dropWhile isSpace s = s" by (cases s) auto
  moreover from s(1,3) have "dropWhile isSpace (rev s) = rev s" by (cases s rule: rev_cases) auto
  ultimately show ?thesis by (simp add: trim_def)
qed

lemma of_char_digitChar: "d < 10 \<Longrightarrow> (of_char (digitChar d) :: nat) = 48 + d"
  by (simp add: digitChar_def)

lemma digitsVal_snoc: "digitsVal (xs @ [x]) = 10 * digitsVal xs + (of_char x - 48)"
  by (simp add: digitsVal_def)

lemma natStr_not_Nil [simp]: "natStr n \<noteq> []"
  by (subst natStr.simps) simp

lemma natStr_digits: "c \<in> set (natStr n) \<Longrightarrow> isDigit c"
proof (induction n rule: natStr.induct)
  case (1 n)
  then show ?case
    by (subst (asm) natStr.simps)
      (auto simp: isDigit_def of_char_digitChar split: if_splits)
qed

lemma digitsVal_natStr [simp]: "digitsVal (natStr n) = n"
proof (induction n rule: natStr.induct)
  case (1 n)
  show ?case
  proof (cases "n < 10")
    case True
    then show ?thesis
      by (subst natStr.simps) (simp add: digitsVal_def of_char_digitChar)
  next
    case False
    with 1 have "digitsVal (natStr (n div 10)) = n div 10" by simp
    with False show ?thesis
      by (subst natStr.simps) (simp add: digitsVal_snoc of_char_digitChar)
  qed
qed

lemma natStr_inject [simp]: "natStr m = natStr n \<longleftrightarrow> m = n"
  by (metis digitsVal_natStr)

subsection \<open>Arrays and sets\<close>

text \<open>
  \<^verbatim>\<open>[...new Set(xs)]\<close>: the first occurrence of each element, in order.
\<close>

fun uniqAcc :: "'a list \<Rightarrow> 'a list \<Rightarrow> 'a list" where
  "uniqAcc seen [] = []"
| "uniqAcc seen (x # xs) = (if x \<in> set seen then uniqAcc seen xs else x # uniqAcc (x # seen) xs)"

definition uniq :: "'a list \<Rightarrow> 'a list" where
  [js_defs]: "uniq xs = uniqAcc [] xs"

lemma uniqAcc_set: "set (uniqAcc seen xs) = set xs - set seen"
  by (induction seen xs rule: uniqAcc.induct) auto

lemma uniqAcc_distinct: "distinct (uniqAcc seen xs)"
  by (induction seen xs rule: uniqAcc.induct) (auto simp: uniqAcc_set)

lemma uniq_set [simp]: "set (uniq xs) = set xs"
  by (simp add: uniq_def uniqAcc_set)

lemma uniq_distinct [simp]: "distinct (uniq xs)"
  by (simp add: uniq_def uniqAcc_distinct)

text \<open>The first element that satisfies a test, as \<^verbatim>\<open>xs.find(f)\<close>.\<close>

lemma find_SomeD: "find P xs = Some x \<Longrightarrow> x \<in> set xs \<and> P x"
  by (induction xs) (auto split: if_splits)

lemma find_None_iff_ball: "find P xs = None \<longleftrightarrow> (\<forall>x\<in>set xs. \<not> P x)"
  by (induction xs) auto

subsection \<open>Property lookup on a plain object\<close>

text \<open>
  \<^verbatim>\<open>table[key]\<close> on an object literal finds an own property or, failing that, one that the
  object inherits from \<^verbatim>\<open>Object.prototype\<close>; every inherited one is a truthy value.
\<close>

datatype 'a jsProp = Own 'a | Inherited string

definition OBJECT_PROTOTYPE_KEYS :: "string list" where
  "OBJECT_PROTOTYPE_KEYS =
     [''constructor'', ''__defineGetter__'', ''__defineSetter__'', ''hasOwnProperty'',
      ''__lookupGetter__'', ''__lookupSetter__'', ''isPrototypeOf'', ''propertyIsEnumerable'',
      ''toString'', ''valueOf'', ''__proto__'', ''toLocaleString'']"

definition objectGet :: "(string \<times> 'a) list \<Rightarrow> string \<Rightarrow> 'a jsProp option" where
  [js_defs]: "objectGet table key =
     (case map_of table key of
        Some v \<Rightarrow> Some (Own v)
      | None \<Rightarrow> if key \<in> set OBJECT_PROTOTYPE_KEYS then Some (Inherited key) else None)"

end
