(* ===== verification/Protocol_Domain.thy ===== *)
theory Protocol_Domain
  imports Prelude
begin

text \<open>
  The shared vocabulary of \<^verbatim>\<open>packages/protocol/src/domain.ts\<close>: permission profiles and their
  aliases, isolation modes, actors, the turn states with their table of legal transitions, and the
  termination reasons. Profiles and isolation modes are ordered by the ranks that
  \<^verbatim>\<open>packages/policy/src/managed.ts\<close> gives them (the \<^verbatim>\<open>linorder\<close> instances below), so
  that "the least of two" is the library's \<^const>\<open>min\<close>.
\<close>

subsection \<open>Profiles and isolation\<close>

datatype permissionProfile = P_plan | P_ask | P_auto_accept_edits | P_yolo

fun profileName :: "permissionProfile \<Rightarrow> string" where
  "profileName P_plan = ''plan''"
| "profileName P_ask = ''ask''"
| "profileName P_auto_accept_edits = ''auto-accept-edits''"
| "profileName P_yolo = ''yolo''"

definition PROFILE_ALIASES :: "(string \<times> permissionProfile) list" where
  "PROFILE_ALIASES =
     [(''default'', P_ask), (''manual'', P_ask), (''acceptEdits'', P_auto_accept_edits),
      (''bypassPermissions'', P_yolo)]"

text \<open>
  An alias is looked up with \<^verbatim>\<open>PROFILE_ALIASES[input]\<close>, so an input that names a property of
  \<^verbatim>\<open>Object.prototype\<close> yields that (truthy) inherited value and is returned as it is.
\<close>

definition resolveProfile :: "string \<Rightarrow> permissionProfile jsProp option" where
  "resolveProfile input =
     (case objectGet PROFILE_ALIASES input of
        Some alias \<Rightarrow> Some alias
      | None \<Rightarrow>
          map_option Own
            (find (\<lambda>p. profileName p = input) [P_plan, P_ask, P_auto_accept_edits, P_yolo]))"

datatype isolationMode = I_read_only | I_workspace_write | I_disabled

fun isolationName :: "isolationMode \<Rightarrow> string" where
  "isolationName I_read_only = ''read-only''"
| "isolationName I_workspace_write = ''workspace-write''"
| "isolationName I_disabled = ''disabled''"

fun DEFAULT_ISOLATION :: "permissionProfile \<Rightarrow> isolationMode" where
  "DEFAULT_ISOLATION P_plan = I_read_only"
| "DEFAULT_ISOLATION P_ask = I_workspace_write"
| "DEFAULT_ISOLATION P_auto_accept_edits = I_workspace_write"
| "DEFAULT_ISOLATION P_yolo = I_disabled"

fun DEFAULT_NETWORK_ALLOWED :: "permissionProfile \<Rightarrow> bool" where
  "DEFAULT_NETWORK_ALLOWED P_plan = False"
| "DEFAULT_NETWORK_ALLOWED P_ask = False"
| "DEFAULT_NETWORK_ALLOWED P_auto_accept_edits = False"
| "DEFAULT_NETWORK_ALLOWED P_yolo = True"

fun PROFILE_RANK :: "permissionProfile \<Rightarrow> nat" where
  "PROFILE_RANK P_plan = 0"
| "PROFILE_RANK P_ask = 1"
| "PROFILE_RANK P_auto_accept_edits = 2"
| "PROFILE_RANK P_yolo = 3"

fun ISOLATION_RANK :: "isolationMode \<Rightarrow> nat" where
  "ISOLATION_RANK I_read_only = 0"
| "ISOLATION_RANK I_workspace_write = 1"
| "ISOLATION_RANK I_disabled = 2"

lemma PROFILE_RANK_inject [simp]: "PROFILE_RANK a = PROFILE_RANK b \<longleftrightarrow> a = b"
  by (cases a; cases b) auto

lemma ISOLATION_RANK_inject [simp]: "ISOLATION_RANK a = ISOLATION_RANK b \<longleftrightarrow> a = b"
  by (cases a; cases b) auto

instantiation permissionProfile :: linorder
begin
definition less_eq_permissionProfile :: "permissionProfile \<Rightarrow> permissionProfile \<Rightarrow> bool" where
  "less_eq_permissionProfile a b \<longleftrightarrow> PROFILE_RANK a \<le> PROFILE_RANK b"
definition less_permissionProfile :: "permissionProfile \<Rightarrow> permissionProfile \<Rightarrow> bool" where
  "less_permissionProfile a b \<longleftrightarrow> PROFILE_RANK a < PROFILE_RANK b"
instance
  by standard (auto simp: less_eq_permissionProfile_def less_permissionProfile_def)
end

instantiation isolationMode :: linorder
begin
definition less_eq_isolationMode :: "isolationMode \<Rightarrow> isolationMode \<Rightarrow> bool" where
  "less_eq_isolationMode a b \<longleftrightarrow> ISOLATION_RANK a \<le> ISOLATION_RANK b"
definition less_isolationMode :: "isolationMode \<Rightarrow> isolationMode \<Rightarrow> bool" where
  "less_isolationMode a b \<longleftrightarrow> ISOLATION_RANK a < ISOLATION_RANK b"
instance
  by standard (auto simp: less_eq_isolationMode_def less_isolationMode_def)
end

subsection \<open>Actors\<close>

datatype actorKind =
    A_user | A_model | A_subagent | A_teammate | A_hook | A_cron | A_background | A_system | A_mcp

record actor =
  actorKind :: actorKind
  actorId :: string
  actorLabel :: "string option"

subsection \<open>The turn state machine\<close>

datatype turnState =
    S_preparing | S_model_streaming | S_awaiting_approval | S_executing | S_waiting_background
  | S_compacting | S_recovering | S_steering
  | S_completed | S_cancelled | S_failed | S_blocked | S_budget_exhausted

definition TERMINAL_TURN_STATES :: "turnState list" where
  "TERMINAL_TURN_STATES = [S_completed, S_cancelled, S_failed, S_blocked, S_budget_exhausted]"

definition isTerminalTurnState :: "turnState \<Rightarrow> bool" where
  [turn_defs]: "isTerminalTurnState s \<longleftrightarrow> s \<in> set TERMINAL_TURN_STATES"

fun TURN_TRANSITIONS :: "turnState \<Rightarrow> turnState list" where
  "TURN_TRANSITIONS S_preparing =
     [S_model_streaming, S_compacting, S_failed, S_cancelled, S_blocked, S_budget_exhausted]"
| "TURN_TRANSITIONS S_model_streaming =
     [S_executing, S_awaiting_approval, S_completed, S_compacting, S_recovering, S_steering,
      S_failed, S_cancelled, S_budget_exhausted]"
| "TURN_TRANSITIONS S_awaiting_approval =
     [S_executing, S_model_streaming, S_cancelled, S_failed, S_blocked]"
| "TURN_TRANSITIONS S_executing =
     [S_model_streaming, S_awaiting_approval, S_waiting_background, S_executing, S_recovering,
      S_steering, S_completed, S_failed, S_cancelled, S_budget_exhausted]"
| "TURN_TRANSITIONS S_waiting_background =
     [S_executing, S_model_streaming, S_completed, S_cancelled, S_failed, S_blocked]"
| "TURN_TRANSITIONS S_compacting = [S_model_streaming, S_preparing, S_failed, S_cancelled]"
| "TURN_TRANSITIONS S_recovering =
     [S_model_streaming, S_executing, S_compacting, S_failed, S_cancelled, S_blocked]"
| "TURN_TRANSITIONS S_steering = [S_model_streaming, S_executing, S_cancelled, S_failed]"
| "TURN_TRANSITIONS S_completed = []"
| "TURN_TRANSITIONS S_cancelled = []"
| "TURN_TRANSITIONS S_failed = []"
| "TURN_TRANSITIONS S_blocked = []"
| "TURN_TRANSITIONS S_budget_exhausted = []"

definition canTransition :: "turnState \<Rightarrow> turnState \<Rightarrow> bool" where
  [turn_defs]: "canTransition fr to \<longleftrightarrow> to \<in> set (TURN_TRANSITIONS fr)"

datatype terminationReason =
    R_natural_completion | R_user_cancelled | R_turn_limit | R_model_call_limit
  | R_tool_call_limit | R_token_limit | R_time_limit | R_cost_limit | R_retry_limit
  | R_blocking_limit | R_no_progress | R_repeated_identical_calls | R_oscillation
  | R_diminishing_returns | R_runaway_children | R_resource_denial_of_service | R_hook_stop
  | R_policy_denied | R_provider_error | R_tool_error | R_internal_error

lemma isTerminal_simps [simp]:
  "\<not> isTerminalTurnState S_preparing" "\<not> isTerminalTurnState S_model_streaming"
  "\<not> isTerminalTurnState S_awaiting_approval" "\<not> isTerminalTurnState S_executing"
  "\<not> isTerminalTurnState S_waiting_background" "\<not> isTerminalTurnState S_compacting"
  "\<not> isTerminalTurnState S_recovering" "\<not> isTerminalTurnState S_steering"
  "isTerminalTurnState S_completed" "isTerminalTurnState S_cancelled"
  "isTerminalTurnState S_failed" "isTerminalTurnState S_blocked"
  "isTerminalTurnState S_budget_exhausted"
  by (simp_all add: isTerminalTurnState_def TERMINAL_TURN_STATES_def)

text \<open>A state has no way out exactly when it is terminal.\<close>

lemma terminal_iff_no_transition: "isTerminalTurnState s \<longleftrightarrow> TURN_TRANSITIONS s = []"
  by (cases s) simp_all

lemma cancel_always_legal: "\<not> isTerminalTurnState s \<Longrightarrow> canTransition s S_cancelled"
  by (cases s) (simp_all add: canTransition_def)

section \<open>Errors\<close>

text \<open>
  \<^verbatim>\<open>packages/protocol/src/errors.ts\<close>: the typed error that every component throws, and the
  rule that says when a retry may be transparent. The class is the record of its fields; a raise
  in the code is an \<^verbatim>\<open>Inl\<close> in the model.
\<close>

datatype errorOrigin =
    O_provider | O_network | O_tool | O_policy | O_sandbox | O_hook | O_mcp | O_storage | O_config
  | O_budget | O_user | O_internal

datatype sideEffectCertainty =
    X_none | X_not_started | X_known_complete | X_known_failed | X_indeterminate

record harnessErrorData =
  heOrigin :: errorOrigin
  heCategory :: string
  heMessage :: string
  heRetryable :: bool
  heUserActionRequired :: bool
  heSideEffectCertainty :: sideEffectCertainty
  heVisibleOutputEmitted :: bool
  heRequestId :: "string option"
  heRetryAfterMs :: "nat option"

definition harnessError :: "errorOrigin \<Rightarrow> string \<Rightarrow> string \<Rightarrow> harnessErrorData" where
  "harnessError origin category message = \<lparr>heOrigin = origin, heCategory = category,
     heMessage = message, heRetryable = False, heUserActionRequired = False,
     heSideEffectCertainty = X_none, heVisibleOutputEmitted = False, heRequestId = None,
     heRetryAfterMs = None\<rparr>"

definition canRetryTransparently :: "harnessErrorData \<Rightarrow> bool" where
  "canRetryTransparently e \<longleftrightarrow>
     heRetryable e \<and> \<not> heUserActionRequired e \<and> \<not> heVisibleOutputEmitted e \<and>
     (heSideEffectCertainty e = X_none \<or> heSideEffectCertainty e = X_not_started)"

end
