(* ===== verification/Policy_Action.thy ===== *)
theory Policy_Action
  imports Protocol_Domain
begin

text \<open>
  \<^verbatim>\<open>packages/policy/src/action.ts\<close>: the normalized action, its canonical JSON and digest, the
  classification into side effects and writes, and the canonicality check that stands in front of
  the policy engine.

  The hash of \<^verbatim>\<open>node:crypto\<close> and Unicode NFC normalization are the two library calls the
  model keeps as parameters, in the record \<^verbatim>\<open>platform\<close>. What the development assumes of
  the hash, where it assumes anything, is that it does not collide.
\<close>

record platform =
  sha256hex :: "string \<Rightarrow> string"
  nfc :: "string \<Rightarrow> string"

subsection \<open>Actions\<close>

datatype actionKind =
  K_file_read | K_file_write | K_file_edit | K_patch | K_shell | K_git_read | K_git_write
  | K_network | K_mcp

fun kindName :: "actionKind \<Rightarrow> string" where
  "kindName K_file_read = ''file-read''"
| "kindName K_file_write = ''file-write''"
| "kindName K_file_edit = ''file-edit''"
| "kindName K_patch = ''patch''"
| "kindName K_shell = ''shell''"
| "kindName K_git_read = ''git-read''"
| "kindName K_git_write = ''git-write''"
| "kindName K_network = ''network''"
| "kindName K_mcp = ''mcp''"

definition MUTATION_KINDS :: "actionKind list" where
  "MUTATION_KINDS = [K_file_write, K_file_edit, K_patch, K_shell, K_git_write]"

definition WORKSPACE_FILE_KINDS :: "actionKind list" where
  "WORKSPACE_FILE_KINDS = [K_file_write, K_file_edit, K_patch]"

datatype gitReadOp = G_status | G_diff | G_log | G_show | G_blame | G_ls_files

fun gitReadName :: "gitReadOp \<Rightarrow> string" where
  "gitReadName G_status = ''status''"
| "gitReadName G_diff = ''diff''"
| "gitReadName G_log = ''log''"
| "gitReadName G_show = ''show''"
| "gitReadName G_blame = ''blame''"
| "gitReadName G_ls_files = ''ls-files''"

text \<open>
  One constructor per interface of the union, its arguments in the order of the interface's
  fields: \<open>FileWrite path createsExecutable contentDigest\<close>,
  \<open>FileEdit path createsExecutable editsDigest\<close>,
  \<open>Patch paths createsExecutable patchDigest\<close>, \<open>Shell command argv cwd\<close>,
  \<open>GitRead repoRoot operation\<close>, \<open>GitWrite repoRoot operation destructive argv\<close>,
  \<open>Network method url host port scheme\<close>, \<open>Mcp server tool sideEffect argumentsDigest\<close>.
\<close>

datatype normalizedAction =
    FileRead string
  | FileWrite string bool string
  | FileEdit string bool string
  | Patch "string list" bool string
  | Shell string "string list" string
  | GitRead string gitReadOp
  | GitWrite string string bool "string list"
  | Network string string string nat string
  | Mcp string string bool string

fun actKind :: "normalizedAction \<Rightarrow> actionKind" where
  "actKind (FileRead _) = K_file_read"
| "actKind (FileWrite _ _ _) = K_file_write"
| "actKind (FileEdit _ _ _) = K_file_edit"
| "actKind (Patch _ _ _) = K_patch"
| "actKind (Shell _ _ _) = K_shell"
| "actKind (GitRead _ _) = K_git_read"
| "actKind (GitWrite _ _ _ _) = K_git_write"
| "actKind (Network _ _ _ _ _) = K_network"
| "actKind (Mcp _ _ _ _) = K_mcp"

subsection \<open>Canonical JSON\<close>

text \<open>
  JavaScript values as far as \<^verbatim>\<open>canonicalJson\<close> sees them; numbers are integers. An object is
  its list of own enumerable entries.
\<close>

datatype jsValue =
    JsUndefined
  | JsNull
  | JsBool bool
  | JsNum int
  | JsStr string
  | JsArr "jsValue list"
  | JsObj "(string \<times> jsValue) list"

definition hexDigit :: "nat \<Rightarrow> char" where
  "hexDigit d = (if d < 10 then char_of (48 + d) else char_of (87 + d))"

definition BACKSLASH :: char where
  "BACKSLASH = CHR 0x5C"

definition DQUOTE :: char where
  "DQUOTE = CHR 0x22"

text \<open>How \<^verbatim>\<open>JSON.stringify\<close> writes one code unit of a string.\<close>

definition jsonChar :: "char \<Rightarrow> string" where
  "jsonChar c =
     (if c = DQUOTE then [BACKSLASH, DQUOTE]
      else if c = BACKSLASH then [BACKSLASH, BACKSLASH]
      else if c = CHR 0x08 then [BACKSLASH, CHR ''b'']
      else if c = CHR 0x0C then [BACKSLASH, CHR ''f'']
      else if c = CHR 0x0A then [BACKSLASH, CHR ''n'']
      else if c = CHR 0x0D then [BACKSLASH, CHR ''r'']
      else if c = CHR 0x09 then [BACKSLASH, CHR ''t'']
      else if (of_char c :: nat) < 32
        then [BACKSLASH, CHR ''u'', CHR ''0'', CHR ''0'',
              hexDigit (of_char c div 16), hexDigit (of_char c mod 16)]
      else [c])"

definition jsonStr :: "string \<Rightarrow> string" where
  "jsonStr s = DQUOTE # concat (map jsonChar s) @ [DQUOTE]"

text \<open>
  \<^verbatim>\<open>canonicalJson\<close>: entries whose value is undefined are dropped, the others sorted by key in
  code-unit order (the order of \<^verbatim>\<open>List_Lexorder\<close> on strings); \<^verbatim>\<open>sort\<close> is
  stable. The object case prints each entry before sorting, which comes to the same because the
  sort compares keys only.
\<close>

fun canonicalJson :: "jsValue \<Rightarrow> string" where
  "canonicalJson JsUndefined = ''null''"
| "canonicalJson JsNull = ''null''"
| "canonicalJson (JsBool b) = (if b then ''true'' else ''false'')"
| "canonicalJson (JsNum i) = intStr i"
| "canonicalJson (JsStr s) = jsonStr s"
| "canonicalJson (JsArr vs) = ''['' @ joinWith '','' (map canonicalJson vs) @ '']''"
| "canonicalJson (JsObj es) =
     ''{'' @ joinWith '',''
       (map (\<lambda>(k, t). jsonStr k @ '':'' @ t)
         (sort_key fst
           (map (\<lambda>(k, v). (k, canonicalJson v)) (filter (\<lambda>(k, v). v \<noteq> JsUndefined) es)))) @ ''}''"

text \<open>The action as the JavaScript object it is: the fields of its interface, in order.\<close>

fun actionValue :: "normalizedAction \<Rightarrow> jsValue" where
  "actionValue (FileRead path) =
     JsObj [(''kind'', JsStr ''file-read''), (''path'', JsStr path)]"
| "actionValue (FileWrite path ex dg) =
     JsObj [(''kind'', JsStr ''file-write''), (''path'', JsStr path),
            (''createsExecutable'', JsBool ex), (''contentDigest'', JsStr dg)]"
| "actionValue (FileEdit path ex dg) =
     JsObj [(''kind'', JsStr ''file-edit''), (''path'', JsStr path),
            (''createsExecutable'', JsBool ex), (''editsDigest'', JsStr dg)]"
| "actionValue (Patch paths ex dg) =
     JsObj [(''kind'', JsStr ''patch''), (''paths'', JsArr (map JsStr paths)),
            (''createsExecutable'', JsBool ex), (''patchDigest'', JsStr dg)]"
| "actionValue (Shell command argv cwd) =
     JsObj [(''kind'', JsStr ''shell''), (''command'', JsStr command),
            (''argv'', JsArr (map JsStr argv)), (''cwd'', JsStr cwd)]"
| "actionValue (GitRead root opn) =
     JsObj [(''kind'', JsStr ''git-read''), (''repoRoot'', JsStr root),
            (''operation'', JsStr (gitReadName opn))]"
| "actionValue (GitWrite root opn destructive argv) =
     JsObj [(''kind'', JsStr ''git-write''), (''repoRoot'', JsStr root),
            (''operation'', JsStr opn), (''destructive'', JsBool destructive),
            (''argv'', JsArr (map JsStr argv))]"
| "actionValue (Network method url host port scheme) =
     JsObj [(''kind'', JsStr ''network''), (''method'', JsStr method), (''url'', JsStr url),
            (''host'', JsStr host), (''port'', JsNum (int port)), (''scheme'', JsStr scheme)]"
| "actionValue (Mcp server tool sideEffect dg) =
     JsObj [(''kind'', JsStr ''mcp''), (''server'', JsStr server), (''tool'', JsStr tool),
            (''sideEffect'', JsBool sideEffect), (''argumentsDigest'', JsStr dg)]"

definition actionDigest :: "platform \<Rightarrow> normalizedAction \<Rightarrow> string" where
  [policy_defs]: "actionDigest pf a = sha256hex pf (canonicalJson (actionValue a))"

subsection \<open>Classification\<close>

fun actionPaths :: "normalizedAction \<Rightarrow> string list" where
  "actionPaths (FileRead path) = [path]"
| "actionPaths (FileWrite path _ _) = [path]"
| "actionPaths (FileEdit path _ _) = [path]"
| "actionPaths (Patch paths _ _) = paths"
| "actionPaths (Shell _ _ cwd) = [cwd]"
| "actionPaths (GitRead root _) = [root]"
| "actionPaths (GitWrite root _ _ _) = [root]"
| "actionPaths (Network _ _ _ _ _) = []"
| "actionPaths (Mcp _ _ _ _) = []"

fun isWriteAction :: "normalizedAction \<Rightarrow> bool" where
  "isWriteAction (FileWrite _ _ _) = True"
| "isWriteAction (FileEdit _ _ _) = True"
| "isWriteAction (Patch _ _ _) = True"
| "isWriteAction (GitWrite _ _ _ _) = True"
| "isWriteAction (Shell _ _ _) = False"
| "isWriteAction (FileRead _) = False"
| "isWriteAction (GitRead _ _) = False"
| "isWriteAction (Network _ _ _ _ _) = False"
| "isWriteAction (Mcp _ _ _ _) = False"

definition isSideEffect :: "normalizedAction \<Rightarrow> bool" where
  [policy_defs]: "isSideEffect a =
     (case a of
        Mcp _ _ sideEffect _ \<Rightarrow> sideEffect
      | Network _ _ _ _ _ \<Rightarrow> True
      | _ \<Rightarrow> actKind a \<in> set MUTATION_KINDS)"

subsection \<open>Input validation\<close>

definition hex64 :: "string \<Rightarrow> bool" where
  "hex64 s \<longleftrightarrow> length s = 64 \<and> list_all (\<lambda>c. isDigit c \<or> (97 \<le> (of_char c :: nat) \<and> (of_char c :: nat) \<le> 102)) s"

definition checkPath :: "platform \<Rightarrow> string \<Rightarrow> string option" where
  "checkPath pf path =
     (if length path = 0 then Some ''empty path''
      else if \<not> startsWith path ''/'' then Some ''not an absolute path''
      else if nfc pf path \<noteq> path then Some ''not Unicode NFC normalized''
      else if includesStr path [CHR 0x00] then Some ''contains a NUL byte''
      else
        let segments = splitChar CHR ''/'' path in
        if ''..'' \<in> set segments
          then Some (''contains a '' @ [CHR 0x27] @ ''..'' @ [CHR 0x27] @ '' segment (not canonicalized)'')
        else if ''.'' \<in> set (tl segments)
          then Some (''contains a '' @ [CHR 0x27] @ ''.'' @ [CHR 0x27] @ '' segment'')
        else if 1 < length path \<and> endsWith path ''/'' then Some ''has a trailing slash''
        else if includesStr path ''//'' then Some ''contains an empty segment''
        else None)"

record canonicalityFailure =
  failPath :: string
  failWhy :: string

fun pathFailures :: "platform \<Rightarrow> string list \<Rightarrow> canonicalityFailure list" where
  "pathFailures pf [] = []"
| "pathFailures pf (p # ps) =
     (case checkPath pf p of
        None \<Rightarrow> pathFailures pf ps
      | Some why \<Rightarrow> \<lparr>failPath = p, failWhy = why\<rparr> # pathFailures pf ps)"

text \<open>The checks after the path loop, one branch of the code per action kind.\<close>

fun kindFailures :: "normalizedAction \<Rightarrow> canonicalityFailure list" where
  "kindFailures (FileWrite path _ dg) =
     (if hex64 dg then []
      else [\<lparr>failPath = path, failWhy = ''contentDigest is not a sha256 hex digest''\<rparr>])"
| "kindFailures (FileEdit path _ dg) =
     (if hex64 dg then []
      else [\<lparr>failPath = path, failWhy = ''editsDigest is not a sha256 hex digest''\<rparr>])"
| "kindFailures (Patch paths _ dg) =
     (if hex64 dg then []
      else [\<lparr>failPath = (case paths of [] \<Rightarrow> [] | p # _ \<Rightarrow> p),
             failWhy = ''patchDigest is not a sha256 hex digest''\<rparr>]) @
     (if paths = []
      then [\<lparr>failPath = [], failWhy = ''a patch action must name at least one path''\<rparr>] else [])"
| "kindFailures (Shell _ argv cwd) =
     (if argv = []
      then [\<lparr>failPath = cwd, failWhy = ''a shell action must have a parsed argv''\<rparr>] else [])"
| "kindFailures (Network _ url host _ _) =
     (if length host = 0 then [\<lparr>failPath = url, failWhy = ''network host is empty''\<rparr>] else []) @
     (if host \<noteq> toLowerCase host
      then [\<lparr>failPath = url, failWhy = ''network host is not lowercased''\<rparr>] else [])"
| "kindFailures (Mcp _ _ _ dg) =
     (if hex64 dg then []
      else [\<lparr>failPath = [], failWhy = ''argumentsDigest is not a sha256 hex digest''\<rparr>])"
| "kindFailures _ = []"

definition checkCanonicalAction :: "platform \<Rightarrow> normalizedAction \<Rightarrow> canonicalityFailure list" where
  [policy_defs]: "checkCanonicalAction pf a = pathFailures pf (actionPaths a) @ kindFailures a"

fun describeAction :: "normalizedAction \<Rightarrow> string" where
  "describeAction (FileRead path) = ''read '' @ path"
| "describeAction (FileWrite path ex _) =
     ''write '' @ path @ (if ex then '' (executable)'' else [])"
| "describeAction (FileEdit path ex _) =
     ''edit '' @ path @ (if ex then '' (executable)'' else [])"
| "describeAction (Patch paths _ _) =
     ''patch '' @ natStr (length paths) @ '' file(s): '' @ joinWith '', '' paths"
| "describeAction (Shell command _ cwd) =
     ''run '' @ [CHR 0x60] @ command @ [CHR 0x60] @ '' in '' @ cwd"
| "describeAction (GitRead root opn) = ''git '' @ gitReadName opn @ '' in '' @ root"
| "describeAction (GitWrite root opn destructive _) =
     ''git '' @ opn @ (if destructive then '' (destructive)'' else []) @ '' in '' @ root"
| "describeAction (Network method url _ _ _) = method @ '' '' @ url"
| "describeAction (Mcp server tool sideEffect _) =
     ''mcp '' @ server @ ''/'' @ tool @ (if sideEffect then '' (side effect)'' else [])"

end
