(* ===== verification/Policy_Paths.thy ===== *)
theory Policy_Paths
  imports Policy_Action
begin

text \<open>
  \<^verbatim>\<open>packages/policy/src/paths.ts\<close>: the protected-path list, the glob engine that recognises
  its paths, lexical containment and the classification of a path.

  The source turns a glob into a regular expression and lets the JavaScript engine match it. The
  model's \<^verbatim>\<open>globToRegExp\<close> yields the same expression as a list of its atoms (the type
  \<^verbatim>\<open>rx\<close>), and \<^verbatim>\<open>rxMatch\<close> is the engine's anchored match of such a list. The theorem
  \<^verbatim>\<open>rxMatch_lang\<close> shows that the matcher decides the language of the expression. A
  regular-expression dot does not match a line terminator; of the four that JavaScript has, line
  feed and carriage return are in the range of the model's characters.
\<close>

subsection \<open>Protected paths\<close>

datatype protectedClass =
    C_git_internal | C_credential_file | C_user_credential_store | C_system_path
  | C_daemon_socket | C_metadata_endpoint

fun className :: "protectedClass \<Rightarrow> string" where
  "className C_git_internal = ''git-internal''"
| "className C_credential_file = ''credential-file''"
| "className C_user_credential_store = ''user-credential-store''"
| "className C_system_path = ''system-path''"
| "className C_daemon_socket = ''daemon-socket''"
| "className C_metadata_endpoint = ''metadata-endpoint''"

datatype accessKind = Read | Write

record protectedPathRule =
  ppId :: string
  ppClass :: protectedClass
  ppPatterns :: "string list"
  ppAppliesTo :: "accessKind list"
  ppWorkspaceExempt :: bool
  ppWhy :: string

record protectedMatch =
  pmRuleId :: string
  pmClass :: protectedClass
  pmPattern :: string
  pmTarget :: string
  pmWhy :: string

definition RW :: "accessKind list" where
  "RW = [Read, Write]"

definition W :: "accessKind list" where
  "W = [Write]"

text \<open>
  The list of \<^verbatim>\<open>PROTECTED_PATH_RULES\<close>, entry by entry. (The explanation of
  \<^verbatim>\<open>system-proc\<close> has a typographic apostrophe, written here as the ASCII one.)
\<close>

definition PROTECTED_PATH_RULES :: "protectedPathRule list" where
  "PROTECTED_PATH_RULES = [
     \<lparr>ppId = ''git-internal'', ppClass = C_git_internal,
      ppPatterns = [''**/.git'', ''**/.git/**''],
      ppAppliesTo = W, ppWorkspaceExempt = False,
      ppWhy = ''repository .git/** writes are reachable only through the dedicated validated Git tool''\<rparr>,
     \<lparr>ppId = ''dotenv'', ppClass = C_credential_file,
      ppPatterns = [''**/.env'', ''**/.env.*''],
      ppAppliesTo = RW, ppWorkspaceExempt = False,
      ppWhy = ''environment files routinely hold live credentials''\<rparr>,
     \<lparr>ppId = ''private-key-material'', ppClass = C_credential_file,
      ppPatterns = [''**/*.pem'', ''**/*.key'', ''**/*.p12''],
      ppAppliesTo = RW, ppWorkspaceExempt = False,
      ppWhy = ''private key material''\<rparr>,
     \<lparr>ppId = ''package-registry-credentials'', ppClass = C_credential_file,
      ppPatterns = [''**/.npmrc'', ''**/.pypirc''],
      ppAppliesTo = RW, ppWorkspaceExempt = False,
      ppWhy = ''package registry tokens''\<rparr>,
     \<lparr>ppId = ''netrc'', ppClass = C_credential_file,
      ppPatterns = [''**/.netrc'', ''**/_netrc''],
      ppAppliesTo = RW, ppWorkspaceExempt = False,
      ppWhy = ''machine credentials for arbitrary hosts''\<rparr>,
     \<lparr>ppId = ''git-credentials'', ppClass = C_credential_file,
      ppPatterns = [''**/.git-credentials'', ''**/.git/credentials'',
                    ''**/.config/git/credentials''],
      ppAppliesTo = RW, ppWorkspaceExempt = False,
      ppWhy = ''Git credential files hold plaintext forge tokens''\<rparr>,
     \<lparr>ppId = ''ssh'', ppClass = C_user_credential_store,
      ppPatterns = [''~/.ssh'', ''~/.ssh/**''],
      ppAppliesTo = RW, ppWorkspaceExempt = False,
      ppWhy = ''SSH private keys and known-hosts''\<rparr>,
     \<lparr>ppId = ''aws'', ppClass = C_user_credential_store,
      ppPatterns = [''~/.aws'', ''~/.aws/**''],
      ppAppliesTo = RW, ppWorkspaceExempt = False,
      ppWhy = ''AWS access keys''\<rparr>,
     \<lparr>ppId = ''gcloud'', ppClass = C_user_credential_store,
      ppPatterns = [''~/.config/gcloud'', ''~/.config/gcloud/**''],
      ppAppliesTo = RW, ppWorkspaceExempt = False,
      ppWhy = ''Google Cloud application-default credentials''\<rparr>,
     \<lparr>ppId = ''kube'', ppClass = C_user_credential_store,
      ppPatterns = [''~/.kube'', ''~/.kube/**''],
      ppAppliesTo = RW, ppWorkspaceExempt = False,
      ppWhy = ''Kubernetes cluster credentials''\<rparr>,
     \<lparr>ppId = ''docker-config'', ppClass = C_user_credential_store,
      ppPatterns = [''~/.docker/config.json''],
      ppAppliesTo = RW, ppWorkspaceExempt = False,
      ppWhy = ''Docker registry auth''\<rparr>,
     \<lparr>ppId = ''gh-hosts'', ppClass = C_user_credential_store,
      ppPatterns = [''~/.config/gh/hosts.yml''],
      ppAppliesTo = RW, ppWorkspaceExempt = False,
      ppWhy = ''GitHub CLI OAuth token''\<rparr>,
     \<lparr>ppId = ''xdg-credential-stores'', ppClass = C_user_credential_store,
      ppPatterns = [''~/.config/containers/auth.json'', ''~/.local/share/keyrings/**'',
                    ''~/.gnupg'', ''~/.gnupg/**''],
      ppAppliesTo = RW, ppWorkspaceExempt = False,
      ppWhy = ''equivalent XDG credential stores''\<rparr>,
     \<lparr>ppId = ''system-etc'', ppClass = C_system_path,
      ppPatterns = [''/etc'', ''/etc/**''],
      ppAppliesTo = RW, ppWorkspaceExempt = True,
      ppWhy = ''system configuration, including shadow and PAM''\<rparr>,
     \<lparr>ppId = ''system-proc'', ppClass = C_system_path,
      ppPatterns = [''/proc'', ''/proc/**''],
      ppAppliesTo = RW, ppWorkspaceExempt = True,
      ppWhy = ''kernel and process introspection, including other processes'' @ [CHR 0x27] @ '' environments''\<rparr>,
     \<lparr>ppId = ''system-sys'', ppClass = C_system_path,
      ppPatterns = [''/sys'', ''/sys/**''],
      ppAppliesTo = RW, ppWorkspaceExempt = True,
      ppWhy = ''kernel object tree''\<rparr>,
     \<lparr>ppId = ''system-dev'', ppClass = C_system_path,
      ppPatterns = [''/dev'', ''/dev/**''],
      ppAppliesTo = RW, ppWorkspaceExempt = True,
      ppWhy = ''raw devices''\<rparr>,
     \<lparr>ppId = ''system-boot'', ppClass = C_system_path,
      ppPatterns = [''/boot'', ''/boot/**''],
      ppAppliesTo = RW, ppWorkspaceExempt = True,
      ppWhy = ''boot loader and kernel images''\<rparr>,
     \<lparr>ppId = ''system-root-home'', ppClass = C_system_path,
      ppPatterns = [''/root'', ''/root/**''],
      ppAppliesTo = RW, ppWorkspaceExempt = True,
      ppWhy = ''the root account'' @ [CHR 0x27] @ ''s home directory''\<rparr>,
     \<lparr>ppId = ''daemon-sockets'', ppClass = C_daemon_socket,
      ppPatterns = [''/var/run/docker.sock'', ''/run/docker.sock'', ''/var/run/containerd/**'',
                    ''/run/containerd/**'', ''/run/podman/**'', ''/var/run/podman/**'',
                    ''/run/crio/**'', ''/run/user/*/podman/**'', ''/run/systemd/private''],
      ppAppliesTo = RW, ppWorkspaceExempt = False,
      ppWhy = ''a container/daemon socket is root-equivalent: it can mount the host and escape any sandbox''\<rparr>]"

definition METADATA_HOSTS :: "string list" where
  "METADATA_HOSTS = [''169.254.169.254'', ''metadata.google.internal'', ''metadata.goog'',
                    ''100.100.100.100'', ''fd00:ec2::254'', ''[fd00:ec2::254]'']"

text \<open>\<^verbatim>\<open>LINK_LOCAL_V4\<close>: \<^verbatim>\<open>169.254.\<close>, one to three digits, a dot, one to three digits.\<close>

definition digits1to3 :: "string \<Rightarrow> bool" where
  "digits1to3 s \<longleftrightarrow> 1 \<le> length s \<and> length s \<le> 3 \<and> list_all isDigit s"

definition linkLocalV4 :: "string \<Rightarrow> bool" where
  "linkLocalV4 h \<longleftrightarrow>
     (case splitChar CHR ''.'' h of
        [a, b, c, d] \<Rightarrow> a = ''169'' \<and> b = ''254'' \<and> digits1to3 c \<and> digits1to3 d
      | _ \<Rightarrow> False)"

definition isMetadataHost :: "string \<Rightarrow> bool" where
  "isMetadataHost host =
     (let h = toLowerCase host in h \<in> set METADATA_HOSTS \<or> linkLocalV4 h)"

subsection \<open>Globs\<close>

datatype flavor = PathFlavor | TextFlavor

text \<open>
  The atoms: an escaped literal, \<^verbatim>\<open>[^/]\<close>, \<^verbatim>\<open>[^/]*\<close>, \<^verbatim>\<open>.\<close>, \<^verbatim>\<open>.*\<close>,
  \<^verbatim>\<open>(?:[^/]*/)*\<close> and \<^verbatim>\<open>(?:/.*)?\<close>.
\<close>

datatype rx = Lit char | NotSlash | NotSlashStar | Dot | DotStar | DirsStar | OptTail

definition SLASH :: char where
  "SLASH = CHR ''/''"

fun globGo :: "flavor \<Rightarrow> rx list \<Rightarrow> string \<Rightarrow> rx list" where
  "globGo flavor source [] = source"
| "globGo flavor source (c # r) =
     (if c = CHR ''*'' then
        (case r of
           d # r2 \<Rightarrow>
             if d = CHR ''*'' then
               (case r2 of
                  e # r3 \<Rightarrow>
                    if e = SLASH
                    then globGo flavor
                           (source @ [if flavor = PathFlavor then DirsStar else DotStar]) r3
                    else globGo flavor (source @ [DotStar]) r2
                | [] \<Rightarrow>
                    if flavor = PathFlavor \<and> source \<noteq> [] \<and> last source = Lit SLASH
                    then butlast source @ [OptTail]
                    else source @ [DotStar])
             else globGo flavor (source @ [if flavor = PathFlavor then NotSlashStar else DotStar]) r
         | [] \<Rightarrow> source @ [if flavor = PathFlavor then NotSlashStar else DotStar])
      else if c = CHR ''?'' then
        globGo flavor (source @ [if flavor = PathFlavor then NotSlash else Dot]) r
      else globGo flavor (source @ [Lit c]) r)"

definition globToRegExp :: "string \<Rightarrow> flavor \<Rightarrow> rx list" where
  "globToRegExp pattern flavor = globGo flavor [] pattern"

definition dotChar :: "char \<Rightarrow> bool" where
  "dotChar c \<longleftrightarrow> c \<noteq> CHR 0x0A \<and> c \<noteq> CHR 0x0D"

text \<open>What follows the first slash.\<close>

fun afterSlash :: "string \<Rightarrow> string option" where
  "afterSlash [] = None"
| "afterSlash (c # cs) = (if c = SLASH then Some cs else afterSlash cs)"

lemma afterSlash_length: "afterSlash s = Some t \<Longrightarrow> length t < length s"
  by (induction s) (auto split: if_splits)

text \<open>
  The anchored match: a greedy loop that may stop at any point is a choice between going on with
  the rest of the expression and consuming one more character (or one more directory).
\<close>

function rxMatch :: "rx list \<Rightarrow> string \<Rightarrow> bool" where
  "rxMatch [] s = (s = [])"
| "rxMatch (Lit c # ts) s = (case s of [] \<Rightarrow> False | x # xs \<Rightarrow> x = c \<and> rxMatch ts xs)"
| "rxMatch (NotSlash # ts) s = (case s of [] \<Rightarrow> False | x # xs \<Rightarrow> x \<noteq> SLASH \<and> rxMatch ts xs)"
| "rxMatch (Dot # ts) s = (case s of [] \<Rightarrow> False | x # xs \<Rightarrow> dotChar x \<and> rxMatch ts xs)"
| "rxMatch (NotSlashStar # ts) s =
     (rxMatch ts s \<or>
      (case s of [] \<Rightarrow> False | x # xs \<Rightarrow> x \<noteq> SLASH \<and> rxMatch (NotSlashStar # ts) xs))"
| "rxMatch (DotStar # ts) s =
     (rxMatch ts s \<or>
      (case s of [] \<Rightarrow> False | x # xs \<Rightarrow> dotChar x \<and> rxMatch (DotStar # ts) xs))"
| "rxMatch (DirsStar # ts) s =
     (rxMatch ts s \<or>
      (case afterSlash s of None \<Rightarrow> False | Some r \<Rightarrow> rxMatch (DirsStar # ts) r))"
| "rxMatch (OptTail # ts) s =
     (rxMatch ts s \<or>
      (case s of [] \<Rightarrow> False | x # xs \<Rightarrow> x = SLASH \<and> rxMatch (DotStar # ts) xs))"
  by pat_completeness auto
termination
  by (relation "measures [\<lambda>(ts, s). length s, \<lambda>(ts, s). length ts]")
    (auto dest: afterSlash_length)

definition matchGlob :: "string \<Rightarrow> string \<Rightarrow> bool" where
  [policy_defs]: "matchGlob pattern v = rxMatch (globToRegExp pattern PathFlavor) v"

definition matchTextGlob :: "string \<Rightarrow> string \<Rightarrow> bool" where
  [policy_defs]: "matchTextGlob pattern v = rxMatch (globToRegExp pattern TextFlavor) v"

definition expandHome :: "string \<Rightarrow> string \<Rightarrow> string" where
  [policy_defs]: "expandHome pattern homeDir =
     (if pattern = ''~'' then homeDir
      else if startsWith pattern ''~/'' then homeDir @ drop 1 pattern
      else pattern)"

subsection \<open>Containment and classification\<close>

definition isWithin :: "string \<Rightarrow> string \<Rightarrow> bool" where
  [policy_defs]: "isWithin root path =
     (if path = root then True
      else
        let prefix = (if endsWith root ''/'' then root else root @ ''/'')
        in startsWith path prefix)"

record protectedLookupContext =
  plWorkspaceRoot :: string
  plHomeDir :: string

definition classifyPath ::
  "string \<Rightarrow> accessKind \<Rightarrow> protectedLookupContext \<Rightarrow> protectedMatch list" where
  [policy_defs]: "classifyPath path access ctx =
     (let inWorkspace = isWithin (plWorkspaceRoot ctx) path in
      List.map_filter
        (\<lambda>rule.
           if access \<notin> set (ppAppliesTo rule) then None
           else if ppWorkspaceExempt rule \<and> inWorkspace then None
           else map_option
             (\<lambda>expanded. \<lparr>pmRuleId = ppId rule, pmClass = ppClass rule, pmPattern = expanded,
                pmTarget = path, pmWhy = ppWhy rule\<rparr>)
             (find (\<lambda>expanded. matchGlob expanded path)
               (map (\<lambda>pattern. expandHome pattern (plHomeDir ctx)) (ppPatterns rule))))
        PROTECTED_PATH_RULES)"

definition EXECUTABLE_PATTERNS :: "string list" where
  "EXECUTABLE_PATTERNS =
     [''**/*.sh'', ''**/*.bash'', ''**/*.zsh'', ''**/*.fish'', ''**/*.ps1'', ''**/*.bat'',
      ''**/*.cmd'', ''**/*.exe'', ''**/*.run'', ''**/*.appimage'']"

definition GIT_HOOK_PATTERNS :: "string list" where
  "GIT_HOOK_PATTERNS =
     [''**/.git/hooks/**'', ''**/.husky/**'', ''**/.pre-commit-config.yaml'', ''**/.githooks/**'']"

definition PACKAGE_PATTERNS :: "string list" where
  "PACKAGE_PATTERNS =
     [''**/package.json'', ''**/package-lock.json'', ''**/pnpm-lock.yaml'',
      ''**/pnpm-workspace.yaml'', ''**/yarn.lock'', ''**/npm-shrinkwrap.json'', ''**/setup.py'',
      ''**/pyproject.toml'', ''**/requirements.txt'', ''**/Pipfile'', ''**/Cargo.toml'',
      ''**/Gemfile'', ''**/*.gemspec'', ''**/Makefile'', ''**/GNUmakefile'', ''**/build.gradle'',
      ''**/pom.xml'']"

datatype sensitiveReason = SE_executable | SE_git_hook | SE_package_manifest

fun sensitiveName :: "sensitiveReason \<Rightarrow> string" where
  "sensitiveName SE_executable = ''executable''"
| "sensitiveName SE_git_hook = ''git-hook''"
| "sensitiveName SE_package_manifest = ''package-manifest''"

definition sensitiveEditReason :: "string \<Rightarrow> bool \<Rightarrow> sensitiveReason option" where
  [policy_defs]: "sensitiveEditReason path executable =
     (if executable then Some SE_executable
      else if list_ex (\<lambda>p. matchGlob p path) GIT_HOOK_PATTERNS then Some SE_git_hook
      else if list_ex (\<lambda>p. matchGlob p path) PACKAGE_PATTERNS then Some SE_package_manifest
      else if list_ex (\<lambda>p. matchGlob p path) EXECUTABLE_PATTERNS then Some SE_executable
      else None)"

end
