(* ===== verification/Policy_Glob.thy ===== *)
theory Policy_Glob
  imports Policy_Paths
begin

text \<open>
  The glob engine against its reference: \<^verbatim>\<open>rxMatch\<close> decides the language of the regular
  expression, and the pattern shapes that the protected-path list and the administrators' rules
  are written in mean what the comments of \<^verbatim>\<open>paths.ts\<close> say, on text without line
  terminators.
\<close>

subsection \<open>The language of an expression\<close>

fun rxLang :: "rx \<Rightarrow> string set" where
  "rxLang (Lit c) = {[c]}"
| "rxLang NotSlash = {[c] | c. c \<noteq> SLASH}"
| "rxLang NotSlashStar = {s. SLASH \<notin> set s}"
| "rxLang Dot = {[c] | c. dotChar c}"
| "rxLang DotStar = {s. \<forall>c \<in> set s. dotChar c}"
| "rxLang DirsStar = {s. s = [] \<or> last s = SLASH}"
| "rxLang OptTail = {[]} \<union> {SLASH # s | s. \<forall>c \<in> set s. dotChar c}"

fun rxLangs :: "rx list \<Rightarrow> string set" where
  "rxLangs [] = {[]}"
| "rxLangs (t # ts) = {u @ v | u v. u \<in> rxLang t \<and> v \<in> rxLangs ts}"

lemma rxLangs_append: "s \<in> rxLangs (xs @ ys) \<longleftrightarrow> (\<exists>u v. s = u @ v \<and> u \<in> rxLangs xs \<and> v \<in> rxLangs ys)"
proof (induction xs arbitrary: s)
  case Nil
  then show ?case by simp
next
  case (Cons x xs)
  show ?case
  proof
    assume "s \<in> rxLangs ((x # xs) @ ys)"
    then obtain u v w where "s = (u @ v) @ w" "u \<in> rxLang x" "v \<in> rxLangs xs" "w \<in> rxLangs ys"
      using Cons.IH by auto
    then show "\<exists>u v. s = u @ v \<and> u \<in> rxLangs (x # xs) \<and> v \<in> rxLangs ys"
      by (intro exI [of _ "u @ v"] exI [of _ w]) auto
  next
    assume "\<exists>u v. s = u @ v \<and> u \<in> rxLangs (x # xs) \<and> v \<in> rxLangs ys"
    then obtain u v w where s: "s = u @ (v @ w)" "u \<in> rxLang x" "v \<in> rxLangs xs" "w \<in> rxLangs ys"
      by auto
    then have "v @ w \<in> rxLangs (xs @ ys)" using Cons.IH by auto
    with s show "s \<in> rxLangs ((x # xs) @ ys)" by auto
  qed
qed

lemma afterSlash_Some_iff: "afterSlash s = Some r \<longleftrightarrow> (\<exists>p. s = p @ SLASH # r \<and> SLASH \<notin> set p)"
proof (induction s)
  case Nil
  then show ?case by simp
next
  case (Cons c s)
  show ?case
  proof (cases "c = SLASH")
    case True
    then show ?thesis by (auto simp: Cons_eq_append_conv)
  next
    case False
    with Cons show ?thesis by (auto simp: Cons_eq_append_conv)
  qed
qed

lemma afterSlash_None_iff: "afterSlash s = None \<longleftrightarrow> SLASH \<notin> set s"
  by (induction s) auto

lemma single_split:
  "(\<exists>u v. s = u @ v \<and> (\<exists>c. u = [c] \<and> P c) \<and> v \<in> L) \<longleftrightarrow>
   (case s of [] \<Rightarrow> False | x # xs \<Rightarrow> P x \<and> xs \<in> L)"
  by (cases s) (auto intro: exI [of _ "[_]"])

lemma star_split:
  "(\<exists>u v. s = u @ v \<and> (\<forall>c\<in>set u. P c) \<and> v \<in> L) \<longleftrightarrow>
   s \<in> L \<or> (case s of [] \<Rightarrow> False | x # xs \<Rightarrow> P x \<and> (\<exists>u v. xs = u @ v \<and> (\<forall>c\<in>set u. P c) \<and> v \<in> L))"
proof (cases s)
  case Nil
  then show ?thesis by auto
next
  case (Cons x xs)
  have "(\<exists>u v. x # xs = u @ v \<and> (\<forall>c\<in>set u. P c) \<and> v \<in> L) \<longleftrightarrow>
      x # xs \<in> L \<or> (P x \<and> (\<exists>u v. xs = u @ v \<and> (\<forall>c\<in>set u. P c) \<and> v \<in> L))"
    unfolding Cons_eq_append_conv
    by (smt (verit, ccfv_threshold) append_Nil list.set_intros(1) list.set_intros(2) set_ConsD ball_empty empty_set)
  with Cons show ?thesis by simp
qed

lemma opt_split:
  "(\<exists>u v. s = u @ v \<and> (u = [] \<or> (\<exists>r. u = SLASH # r \<and> (\<forall>c\<in>set r. P c))) \<and> v \<in> L) \<longleftrightarrow>
   s \<in> L \<or> (case s of [] \<Rightarrow> False
             | x # xs \<Rightarrow> x = SLASH \<and> (\<exists>u v. xs = u @ v \<and> (\<forall>c\<in>set u. P c) \<and> v \<in> L))"
  (is "?l = ?r")
proof
  assume ?l
  then obtain u v where "s = u @ v" "u = [] \<or> (\<exists>r. u = SLASH # r \<and> (\<forall>c\<in>set r. P c))" "v \<in> L"
    by blast
  then consider "s \<in> L" | r where "s = SLASH # (r @ v)" "\<forall>c\<in>set r. P c" "v \<in> L" by auto
  then show ?r
  proof cases
    case 2
    then have "\<exists>u w. r @ v = u @ w \<and> (\<forall>c\<in>set u. P c) \<and> w \<in> L" by blast
    with 2(1) show ?thesis by simp
  qed simp
next
  assume ?r
  then consider "s \<in> L" | u v where "s = (SLASH # u) @ v" "\<forall>c\<in>set u. P c" "v \<in> L"
    by (auto split: list.splits)
  then show ?l
  proof cases
    case 1
    then show ?thesis by (intro exI [of _ "[]"] exI [of _ s]) simp
  next
    case 2
    then show ?thesis by blast
  qed
qed

lemma dirs_split:
  "(\<exists>u v. s = u @ v \<and> (u = [] \<or> last u = SLASH) \<and> v \<in> L) \<longleftrightarrow>
   s \<in> L \<or> (case afterSlash s of None \<Rightarrow> False
             | Some r \<Rightarrow> \<exists>u v. r = u @ v \<and> (u = [] \<or> last u = SLASH) \<and> v \<in> L)"
  (is "?l = ?r")
proof
  assume ?l
  then obtain u v where uv: "s = u @ v" "u = [] \<or> last u = SLASH" "v \<in> L" by blast
  show ?r
  proof (cases "u = []")
    case True
    with uv show ?thesis by simp
  next
    case False
    with uv have "SLASH \<in> set u" by (metis last_in_set)
    then obtain p q where u: "u = p @ SLASH # q" "SLASH \<notin> set p" by (meson split_list_first)
    then have "afterSlash s = Some (q @ v)" using uv by (auto simp: afterSlash_Some_iff)
    moreover have "q = [] \<or> last q = SLASH" using uv(2) u False by (auto split: if_splits)
    ultimately show ?thesis using uv(3) by auto
  qed
next
  assume ?r
  then consider "s \<in> L"
    | r u v where "afterSlash s = Some r" "r = u @ v" "u = [] \<or> last u = SLASH" "v \<in> L"
    by (auto split: option.splits)
  then show ?l
  proof cases
    case 1
    then show ?thesis by (intro exI [of _ "[]"] exI [of _ s]) simp
  next
    case 2
    then obtain p where "s = (p @ SLASH # u) @ v" by (auto simp: afterSlash_Some_iff)
    moreover have "last (p @ SLASH # u) = SLASH" using 2(3) by auto
    ultimately show ?thesis using 2(4) by blast
  qed
qed

theorem rxMatch_lang: "rxMatch ts s \<longleftrightarrow> s \<in> rxLangs ts"
proof (induction ts s rule: rxMatch.induct)
  case (1 s)
  then show ?case by simp
next
  case (2 c ts s)
  then show ?case by (cases s) auto
next
  case (3 ts s)
  with single_split [of s "\<lambda>c. c \<noteq> SLASH"] show ?case by (auto split: list.splits)
next
  case (4 ts s)
  with single_split [of s dotChar] show ?case by (auto split: list.splits)
next
  case (5 ts s)
  have "s \<in> rxLangs (NotSlashStar # ts) \<longleftrightarrow>
      (\<exists>u v. s = u @ v \<and> (\<forall>c\<in>set u. c \<noteq> SLASH) \<and> v \<in> rxLangs ts)" for s
    by auto
  with 5 star_split [of s "\<lambda>c. c \<noteq> SLASH"] show ?case by (auto split: list.splits)
next
  case (6 ts s)
  have "s \<in> rxLangs (DotStar # ts) \<longleftrightarrow>
      (\<exists>u v. s = u @ v \<and> (\<forall>c\<in>set u. dotChar c) \<and> v \<in> rxLangs ts)" for s
    by auto
  with 6 star_split [of s dotChar] show ?case by (auto split: list.splits)
next
  case (7 ts s)
  have "s \<in> rxLangs (DirsStar # ts) \<longleftrightarrow>
      (\<exists>u v. s = u @ v \<and> (u = [] \<or> last u = SLASH) \<and> v \<in> rxLangs ts)" for s
    by auto
  with 7 dirs_split [of s] show ?case by (auto split: option.splits)
next
  case (8 ts s)
  have "s \<in> rxLangs (OptTail # ts) \<longleftrightarrow>
      (\<exists>u v. s = u @ v \<and> (u = [] \<or> (\<exists>r. u = SLASH # r \<and> (\<forall>c\<in>set r. dotChar c))) \<and> v \<in> rxLangs ts)" for s
    by auto
  with 8 opt_split [of s dotChar] show ?case by (auto split: list.splits)
qed

subsection \<open>The pattern shapes in use\<close>

definition plainText :: "string \<Rightarrow> bool" where
  "plainText p \<longleftrightarrow> CHR ''*'' \<notin> set p \<and> CHR ''?'' \<notin> set p"

definition oneLine :: "string \<Rightarrow> bool" where
  "oneLine s \<longleftrightarrow> (\<forall>c \<in> set s. dotChar c)"

lemma rxLangs_Lit: "rxLangs (map Lit p) = {p}"
  by (induction p) auto

lemma rxMatch_append_Lit:
  "rxMatch (map Lit p @ ts) s \<longleftrightarrow> (\<exists>v. s = p @ v \<and> rxMatch ts v)"
  by (auto simp: rxMatch_lang rxLangs_append rxLangs_Lit)

lemma globGo_plain:
  "plainText p \<Longrightarrow> globGo flavor source (p @ r) = globGo flavor (source @ map Lit p) r"
  by (induction p arbitrary: source) (auto simp: plainText_def)

lemma matchGlob_plain:
  assumes "plainText p"
  shows "matchGlob p v \<longleftrightarrow> v = p"
  using globGo_plain [OF assms, of PathFlavor "[]" "[]"] rxMatch_append_Lit [of p "[]"]
  by (auto simp: matchGlob_def globToRegExp_def)

lemma matchGlob_anywhere:
  assumes "plainText p"
  shows "matchGlob (''**/'' @ p) v \<longleftrightarrow> (\<exists>d. v = d @ p \<and> (d = [] \<or> last d = SLASH))"
proof -
  have "globToRegExp (''**/'' @ p) PathFlavor = DirsStar # map Lit p"
    using globGo_plain [OF assms, of PathFlavor "[DirsStar]" "[]"]
    by (simp add: globToRegExp_def SLASH_def)
  then show ?thesis
    by (auto simp: matchGlob_def rxMatch_lang rxLangs_Lit simp del: rxMatch.simps)
qed

lemma matchGlob_subtree:
  assumes "plainText d"
  shows "matchGlob (d @ ''/**'') v \<longleftrightarrow> v = d \<or> (\<exists>t. v = d @ ''/'' @ t \<and> oneLine t)"
proof -
  have "plainText (d @ ''/'')" using assms by (simp add: plainText_def)
  from globGo_plain [OF this, of PathFlavor "[]" "''**''"]
  have "globToRegExp (d @ ''/**'') PathFlavor = map Lit d @ [OptTail]"
    by (simp add: globToRegExp_def SLASH_def)
  then have "matchGlob (d @ ''/**'') v \<longleftrightarrow> (\<exists>w. v = d @ w \<and> rxMatch [OptTail] w)"
    by (simp only: matchGlob_def rxMatch_append_Lit)
  also have "(\<lambda>w. rxMatch [OptTail] w) = (\<lambda>w. w = [] \<or> (\<exists>t. w = ''/'' @ t \<and> oneLine t))"
    by (auto simp: rxMatch_lang oneLine_def SLASH_def simp del: rxMatch.simps)
  finally show ?thesis by auto
qed

lemma matchTextGlob_prefix:
  assumes "plainText p"
  shows "matchTextGlob (p @ ''*'') v \<longleftrightarrow> (\<exists>t. v = p @ t \<and> oneLine t)"
proof -
  have "globToRegExp (p @ ''*'') TextFlavor = map Lit p @ [DotStar]"
    using globGo_plain [OF assms, of TextFlavor "[]" "''*''"] by (simp add: globToRegExp_def)
  then have "matchTextGlob (p @ ''*'') v \<longleftrightarrow> (\<exists>w. v = p @ w \<and> rxMatch [DotStar] w)"
    by (simp only: matchTextGlob_def rxMatch_append_Lit)
  also have "(\<lambda>w. rxMatch [DotStar] w) = (\<lambda>w. oneLine w)"
    by (auto simp: rxMatch_lang oneLine_def simp del: rxMatch.simps)
  finally show ?thesis .
qed

end
