(* ===== verification/Policy_Rules.thy ===== *)
theory Policy_Rules
  imports Policy_Glob
begin

text \<open>
  The action matcher (\<^verbatim>\<open>matcher.ts\<close>), the ordinary rules and their deny-first merge
  (\<^verbatim>\<open>rules.ts\<close>) and the approval grants (\<^verbatim>\<open>grants.ts\<close>) of \<^verbatim>\<open>packages/policy\<close>.

  The four-valued outcomes of the sources, with their three-valued part, are the types
  \<^verbatim>\<open>outcome\<close> and \<^verbatim>\<open>effect\<close>; effects are ordered by the sources' RESTRICTIVENESS table.
\<close>

subsection \<open>Effects and their order\<close>

datatype effect = Allow | Ask | Deny

datatype outcome = Eff effect | Passthrough

fun effectName :: "effect \<Rightarrow> string" where
  "effectName Allow = ''allow''"
| "effectName Ask = ''ask''"
| "effectName Deny = ''deny''"

fun RESTRICTIVENESS :: "effect \<Rightarrow> nat" where
  "RESTRICTIVENESS Allow = 0"
| "RESTRICTIVENESS Ask = 1"
| "RESTRICTIVENESS Deny = 2"

lemma RESTRICTIVENESS_inject [simp]: "RESTRICTIVENESS a = RESTRICTIVENESS b \<longleftrightarrow> a = b"
  by (cases a; cases b) auto

instantiation effect :: linorder
begin
definition less_eq_effect :: "effect \<Rightarrow> effect \<Rightarrow> bool" where
  "less_eq_effect a b \<longleftrightarrow> RESTRICTIVENESS a \<le> RESTRICTIVENESS b"
definition less_effect :: "effect \<Rightarrow> effect \<Rightarrow> bool" where
  "less_effect a b \<longleftrightarrow> RESTRICTIVENESS a < RESTRICTIVENESS b"
instance
  by standard (auto simp: less_eq_effect_def less_effect_def)
end

lemma effect_order_simps [simp]:
  "Allow < Ask" "Allow < Deny" "Ask < Deny" "Allow \<le> e" "e \<le> Deny"
  "\<not> e < Allow" "\<not> Deny < e" "\<not> Deny \<le> Ask" "\<not> Ask \<le> Allow" "\<not> Deny \<le> Allow"
  by (cases e; simp add: less_effect_def less_eq_effect_def)+

lemma effect_le_Allow [simp]: "e \<le> Allow \<longleftrightarrow> e = Allow"
  by (cases e) auto

lemma Deny_le_effect [simp]: "Deny \<le> e \<longleftrightarrow> e = Deny"
  by (cases e) auto

lemma max_effect_simps [simp]:
  "max Allow e = e" "max e Allow = e" "max Deny e = Deny" "max e Deny = Deny" "max Ask Ask = Ask"
  by (simp_all add: max_def)

lemma RESTRICTIVENESS_less: "RESTRICTIVENESS a < RESTRICTIVENESS b \<longleftrightarrow> a < b"
  by (simp add: less_effect_def)

lemma RESTRICTIVENESS_le: "RESTRICTIVENESS a \<le> RESTRICTIVENESS b \<longleftrightarrow> a \<le> b"
  by (simp add: less_eq_effect_def)

subsection \<open>Matchers\<close>

record actionMatcher =
  amKinds :: "actionKind list option"
  amPaths :: "string list option"
  amCommands :: "string list option"
  amCommandLines :: "string list option"
  amHosts :: "string list option"
  amMcpServers :: "string list option"
  amMcpTools :: "string list option"
  amDigest :: "string option"

definition emptyMatcher :: actionMatcher where
  "emptyMatcher = \<lparr>amKinds = None, amPaths = None, amCommands = None, amCommandLines = None,
     amHosts = None, amMcpServers = None, amMcpTools = None, amDigest = None\<rparr>"

definition anyPathGlob :: "string list \<Rightarrow> string list \<Rightarrow> bool" where
  [policy_defs]: "anyPathGlob patterns vs =
     list_ex (\<lambda>pattern. list_ex (\<lambda>v. matchGlob pattern v) vs) patterns"

definition anyTextGlob :: "string list \<Rightarrow> string list \<Rightarrow> bool" where
  [policy_defs]: "anyTextGlob patterns vs =
     list_ex (\<lambda>pattern. list_ex (\<lambda>v. matchTextGlob pattern v) vs) patterns"

definition isEmptyMatcher :: "actionMatcher \<Rightarrow> bool" where
  [policy_defs]: "isEmptyMatcher m \<longleftrightarrow>
     amKinds m = None \<and> amPaths m = None \<and> amCommands m = None \<and> amCommandLines m = None \<and>
     amHosts m = None \<and> amMcpServers m = None \<and> amMcpTools m = None \<and> amDigest m = None"

text \<open>Each field that is present has to agree; a field that is absent has no say.\<close>

definition present :: "'a option \<Rightarrow> ('a \<Rightarrow> bool) \<Rightarrow> bool" where
  [policy_defs]: "present x f = (case x of None \<Rightarrow> True | Some v \<Rightarrow> f v)"

definition argv0 :: "normalizedAction \<Rightarrow> string option" where
  [policy_defs]: "argv0 a =
     (case a of
        Shell _ argv _ \<Rightarrow> (case argv of [] \<Rightarrow> None | x # _ \<Rightarrow> Some x)
      | GitWrite _ _ _ _ \<Rightarrow> Some ''git''
      | GitRead _ _ \<Rightarrow> Some ''git''
      | _ \<Rightarrow> None)"

definition matchesAction ::
  "actionMatcher \<Rightarrow> normalizedAction \<Rightarrow> string \<Rightarrow> string \<Rightarrow> bool" where
  [policy_defs]: "matchesAction m a homeDir digest =
     (if isEmptyMatcher m then False
      else
        present (amDigest m) (\<lambda>d. d = digest) \<and>
        present (amKinds m) (\<lambda>ks. actKind a \<in> set ks) \<and>
        present (amPaths m) (\<lambda>ps.
          let paths = actionPaths a; patterns = map (\<lambda>p. expandHome p homeDir) ps
          in paths \<noteq> [] \<and> anyPathGlob patterns paths) \<and>
        present (amCommands m) (\<lambda>cs.
          case argv0 a of None \<Rightarrow> False | Some x \<Rightarrow> anyTextGlob cs [x]) \<and>
        present (amCommandLines m) (\<lambda>cs.
          case a of Shell command _ _ \<Rightarrow> anyTextGlob cs [command] | _ \<Rightarrow> False) \<and>
        present (amHosts m) (\<lambda>hs.
          case a of Network _ _ host _ _ \<Rightarrow> anyTextGlob hs [host] | _ \<Rightarrow> False) \<and>
        present (amMcpServers m) (\<lambda>ss.
          case a of Mcp server _ _ _ \<Rightarrow> anyTextGlob ss [server] | _ \<Rightarrow> False) \<and>
        present (amMcpTools m) (\<lambda>ts.
          case a of Mcp _ tool _ _ \<Rightarrow> anyTextGlob ts [tool] | _ \<Rightarrow> False))"

subsection \<open>Rules\<close>

datatype ruleScope = SC_project | SC_user | SC_local | SC_session

fun scopeName :: "ruleScope \<Rightarrow> string" where
  "scopeName SC_project = ''project''"
| "scopeName SC_user = ''user''"
| "scopeName SC_local = ''local''"
| "scopeName SC_session = ''session''"

record policyRule =
  ruleId :: string
  ruleScope :: ruleScope
  ruleEffect :: outcome
  ruleMatch :: actionMatcher
  ruleReason :: string

definition SCOPES_THAT_MAY_ALLOW :: "ruleScope list" where
  "SCOPES_THAT_MAY_ALLOW = [SC_user, SC_local, SC_session]"

definition mayAllow :: "ruleScope \<Rightarrow> bool" where
  [policy_defs]: "mayAllow scope \<longleftrightarrow> scope \<in> set SCOPES_THAT_MAY_ALLOW"

record ruleMatchRec =
  rmRule :: policyRule
  rmEffect :: outcome
  rmDowngradedFrom :: "outcome option"

record ruleMerge =
  mergeEffect :: "effect option"
  mergeWinner :: "ruleMatchRec option"
  mergeMatches :: "ruleMatchRec list"

fun ruleMatches :: "policyRule list \<Rightarrow> normalizedAction \<Rightarrow> string \<Rightarrow> string \<Rightarrow> ruleMatchRec list" where
  "ruleMatches [] a homeDir digest = []"
| "ruleMatches (rule # rules) a homeDir digest =
     (if \<not> matchesAction (ruleMatch rule) a homeDir digest then ruleMatches rules a homeDir digest
      else if ruleEffect rule = Eff Allow \<and> \<not> mayAllow (ruleScope rule)
      then \<lparr>rmRule = rule, rmEffect = Passthrough, rmDowngradedFrom = Some (Eff Allow)\<rparr>
             # ruleMatches rules a homeDir digest
      else \<lparr>rmRule = rule, rmEffect = ruleEffect rule, rmDowngradedFrom = None\<rparr>
             # ruleMatches rules a homeDir digest)"

text \<open>One turn of the loop that keeps the most restrictive match, the earliest among equals.\<close>

definition betterMatch :: "ruleMatchRec option \<Rightarrow> ruleMatchRec \<Rightarrow> ruleMatchRec option" where
  "betterMatch winner m =
     (case rmEffect m of
        Passthrough \<Rightarrow> winner
      | Eff candidate \<Rightarrow>
          (case winner of
             None \<Rightarrow> Some m
           | Some w \<Rightarrow>
               (case rmEffect w of
                  Passthrough \<Rightarrow> Some m
                | Eff current \<Rightarrow>
                    if RESTRICTIVENESS candidate > RESTRICTIVENESS current then Some m else winner)))"

definition mergeRules ::
  "policyRule list \<Rightarrow> normalizedAction \<Rightarrow> string \<Rightarrow> string \<Rightarrow> ruleMerge" where
  [policy_defs]: "mergeRules rules a homeDir digest =
     (let ms = ruleMatches rules a homeDir digest;
          winner = foldl betterMatch None ms;
          effect = (case winner of
                      None \<Rightarrow> None
                    | Some w \<Rightarrow> (case rmEffect w of Passthrough \<Rightarrow> None | Eff e \<Rightarrow> Some e))
      in \<lparr>mergeEffect = effect, mergeWinner = (if effect = None then None else winner),
          mergeMatches = ms\<rparr>)"

subsection \<open>Grants\<close>

datatype grantScope = GS_once | GS_session | GS_rule

fun grantScopeName :: "grantScope \<Rightarrow> string" where
  "grantScopeName GS_once = ''once''"
| "grantScopeName GS_session = ''session''"
| "grantScopeName GS_rule = ''rule''"

record grant =
  grantId :: string
  grantScope :: grantScope
  grantDigest :: "string option"
  grantMatch :: "actionMatcher option"
  grantedAt :: int
  expiresAt :: "int option"
  revokedAt :: "int option"
  usedAt :: "int option"
  grantedBy :: string
  grantReason :: string

datatype grantRejection =
  RJ_expired | RJ_revoked | RJ_already_used | RJ_no_match | RJ_scope_not_allowed_here

fun rejectionName :: "grantRejection \<Rightarrow> string" where
  "rejectionName RJ_expired = ''expired''"
| "rejectionName RJ_revoked = ''revoked''"
| "rejectionName RJ_already_used = ''already-used''"
| "rejectionName RJ_no_match = ''no-match''"
| "rejectionName RJ_scope_not_allowed_here = ''scope-not-allowed-here''"

record grantLookup =
  glGrant :: "grant option"
  glRejected :: "(grant \<times> grantRejection) list"

text \<open>None: the grant is live; otherwise the reason it is not.\<close>

definition isGrantLive :: "grant \<Rightarrow> int \<Rightarrow> grantRejection option" where
  [policy_defs]: "isGrantLive g now =
     (if (case revokedAt g of None \<Rightarrow> False | Some t \<Rightarrow> t \<le> now) then Some RJ_revoked
      else if (case expiresAt g of None \<Rightarrow> False | Some t \<Rightarrow> now \<ge> t) then Some RJ_expired
      else if grantScope g = GS_once \<and> usedAt g \<noteq> None then Some RJ_already_used
      else None)"

record grantLookupOptions =
  goExactOnly :: bool
  goNow :: int
  goHomeDir :: string

definition grantMatches :: "grant \<Rightarrow> normalizedAction \<Rightarrow> string \<Rightarrow> string \<Rightarrow> bool" where
  [policy_defs]: "grantMatches g a homeDir digest =
     (if grantScope g = GS_rule
      then (case grantMatch g of None \<Rightarrow> False | Some m \<Rightarrow> matchesAction m a homeDir digest)
      else grantDigest g = Some digest)"

fun findGrantGo ::
  "(grant \<times> grantRejection) list \<Rightarrow> grant list \<Rightarrow> normalizedAction \<Rightarrow> string \<Rightarrow> grantLookupOptions
     \<Rightarrow> grantLookup" where
  "findGrantGo rejected [] a digest opts = \<lparr>glGrant = None, glRejected = rejected\<rparr>"
| "findGrantGo rejected (g # gs) a digest opts =
     (if \<not> grantMatches g a (goHomeDir opts) digest then findGrantGo rejected gs a digest opts
      else if goExactOnly opts \<and> grantScope g = GS_rule
      then findGrantGo (rejected @ [(g, RJ_scope_not_allowed_here)]) gs a digest opts
      else (case isGrantLive g (goNow opts) of
              Some dead \<Rightarrow> findGrantGo (rejected @ [(g, dead)]) gs a digest opts
            | None \<Rightarrow> \<lparr>glGrant = Some g, glRejected = rejected\<rparr>))"

definition findGrant ::
  "grant list \<Rightarrow> normalizedAction \<Rightarrow> string \<Rightarrow> grantLookupOptions \<Rightarrow> grantLookup" where
  [policy_defs]: "findGrant grants a digest opts = findGrantGo [] grants a digest opts"

definition consumeGrant :: "grant list \<Rightarrow> string \<Rightarrow> int \<Rightarrow> grant list" where
  "consumeGrant grants i now =
     map (\<lambda>g. if grantId g = i \<and> grantScope g = GS_once then g\<lparr>usedAt := Some now\<rparr> else g) grants"

definition revokeGrant :: "grant list \<Rightarrow> string \<Rightarrow> int \<Rightarrow> grant list" where
  "revokeGrant grants i now =
     map (\<lambda>g. if grantId g = i then g\<lparr>revokedAt := Some now\<rparr> else g) grants"

datatype ruleGrantProblem =
    RG_not_a_rule_grant | RG_empty_matcher | RG_missing_kinds | RG_path_outside_workspace
  | RG_path_is_protected | RG_unbounded_path_glob

record ruleGrantValidation =
  rgOk :: bool
  rgProblems :: "ruleGrantProblem list"

text \<open>\<^verbatim>\<open>pattern.search(/[*?]/)\<close>: everything before the first wildcard.\<close>

definition literalPrefix :: "string \<Rightarrow> string" where
  "literalPrefix pattern = takeWhile (\<lambda>c. c \<noteq> CHR ''*'' \<and> c \<noteq> CHR ''?'') pattern"

definition patternProblems :: "string \<Rightarrow> protectedLookupContext \<Rightarrow> ruleGrantProblem list" where
  "patternProblems pattern ctx =
     (if \<not> startsWith pattern ''/'' then [RG_unbounded_path_glob]
      else
        let literal = literalPrefix pattern;
            anchor = (if endsWith literal ''/'' then butlast literal else literal)
        in if length anchor = 0 \<or> \<not> isWithin (plWorkspaceRoot ctx) anchor
           then [RG_path_outside_workspace]
           else if classifyPath anchor Write ctx \<noteq> [] \<or> classifyPath anchor Read ctx \<noteq> []
           then [RG_path_is_protected]
           else [])"

definition validateRuleGrant :: "grant \<Rightarrow> protectedLookupContext \<Rightarrow> ruleGrantValidation" where
  "validateRuleGrant g ctx =
     (case (grantScope g, grantMatch g) of
        (GS_rule, Some m) \<Rightarrow>
          let problems =
            (if isEmptyMatcher m then [RG_empty_matcher] else []) @
            (case amKinds m of
               None \<Rightarrow> [RG_missing_kinds]
             | Some ks \<Rightarrow> if ks = [] then [RG_missing_kinds] else []) @
            concat (map (\<lambda>p. patternProblems p ctx) (case amPaths m of None \<Rightarrow> [] | Some ps \<Rightarrow> ps))
          in \<lparr>rgOk = (problems = []), rgProblems = problems\<rparr>
      | _ \<Rightarrow> \<lparr>rgOk = False, rgProblems = [RG_not_a_rule_grant]\<rparr>)"

end
