(* ===== verification/Policy_Authority.thy ===== *)
theory Policy_Authority
  imports Policy_Rules
begin

text \<open>
  The managed ceiling (\<^verbatim>\<open>managed.ts\<close>) and authority with its intersection
  (\<^verbatim>\<open>authority.ts\<close>): what a child agent, a background job or a scheduled run may do.

  The locale \<^verbatim>\<open>authority_ceiling\<close> is the interface the callers of the intersection rely on
  (subagents, the scheduler): the result is never above the parent. It is interpreted on
  \<^verbatim>\<open>intersect\<close> and \<^verbatim>\<open>isAtMost\<close> themselves.
\<close>

subsection \<open>The managed ceiling\<close>

datatype managedEffect = M_deny | M_ask

record managedRule =
  mrId :: string
  mrEffect :: managedEffect
  mrMatch :: actionMatcher
  mrReason :: string

record managedPolicy =
  mpVersion :: int
  mpRules :: "managedRule list"
  mpMaxProfile :: permissionProfile
  mpMaxIsolation :: isolationMode
  mpNetworkAllowed :: bool
  mpMaxChildDepth :: int

definition leastProfile :: "permissionProfile \<Rightarrow> permissionProfile \<Rightarrow> permissionProfile" where
  "leastProfile a b = (if PROFILE_RANK a \<le> PROFILE_RANK b then a else b)"

definition strictestIsolation :: "isolationMode \<Rightarrow> isolationMode \<Rightarrow> isolationMode" where
  "strictestIsolation a b = (if ISOLATION_RANK a \<le> ISOLATION_RANK b then a else b)"

definition NO_MANAGED_RESTRICTIONS :: managedPolicy where
  "NO_MANAGED_RESTRICTIONS = \<lparr>mpVersion = 1, mpRules = [], mpMaxProfile = P_yolo,
     mpMaxIsolation = I_disabled, mpNetworkAllowed = True, mpMaxChildDepth = 2\<rparr>"

definition CREDENTIAL_STORE_PATTERNS :: "string list" where
  "CREDENTIAL_STORE_PATTERNS =
     concat (map ppPatterns
       (filter (\<lambda>rule. ppClass rule = C_user_credential_store \<or> ppClass rule = C_daemon_socket)
         PROTECTED_PATH_RULES))"

definition RECOMMENDED_MANAGED_POLICY :: managedPolicy where
  "RECOMMENDED_MANAGED_POLICY = \<lparr>mpVersion = 1,
     mpRules =
       [\<lparr>mrId = ''managed.credential-stores'', mrEffect = M_deny,
         mrMatch = emptyMatcher\<lparr>amPaths := Some CREDENTIAL_STORE_PATTERNS\<rparr>,
         mrReason = ''credential stores and daemon sockets are never reachable, in any profile''\<rparr>,
        \<lparr>mrId = ''managed.cloud-metadata'', mrEffect = M_deny,
         mrMatch = emptyMatcher\<lparr>amHosts := Some (METADATA_HOSTS @ [''169.254.*''])\<rparr>,
         mrReason = ''the cloud instance-metadata endpoint hands out instance credentials''\<rparr>],
     mpMaxProfile = P_yolo, mpMaxIsolation = I_disabled, mpNetworkAllowed = True,
     mpMaxChildDepth = 2\<rparr>"

fun dedupRules :: "string list \<Rightarrow> managedRule list \<Rightarrow> managedRule list" where
  "dedupRules seen [] = []"
| "dedupRules seen (r # rs) =
     (if mrId r \<in> set seen then dedupRules seen rs else r # dedupRules (mrId r # seen) rs)"

definition intersectManaged :: "managedPolicy \<Rightarrow> managedPolicy \<Rightarrow> managedPolicy" where
  "intersectManaged a b = \<lparr>
     mpVersion = max (mpVersion a) (mpVersion b),
     mpRules = dedupRules [] (mpRules a @ mpRules b),
     mpMaxProfile = leastProfile (mpMaxProfile a) (mpMaxProfile b),
     mpMaxIsolation = strictestIsolation (mpMaxIsolation a) (mpMaxIsolation b),
     mpNetworkAllowed = (mpNetworkAllowed a \<and> mpNetworkAllowed b),
     mpMaxChildDepth = min (mpMaxChildDepth a) (mpMaxChildDepth b)\<rparr>"

lemma leastProfile_min: "leastProfile a b = min a b"
  by (simp add: leastProfile_def min_def less_eq_permissionProfile_def)

lemma strictestIsolation_min: "strictestIsolation a b = min a b"
  by (simp add: strictestIsolation_def min_def less_eq_isolationMode_def)

subsection \<open>Authority\<close>

record authority =
  auProfile :: permissionProfile
  auIsolation :: isolationMode
  auNetworkAllowed :: bool
  auWorkspaceRoots :: "string list"
  auRules :: "policyRule list"
  auGrants :: "grant list"
  auMaxChildDepth :: int

definition defaultAuthority :: "permissionProfile \<Rightarrow> string \<Rightarrow> managedPolicy \<Rightarrow> authority" where
  "defaultAuthority profile workspaceRoot managed =
     (let capped = leastProfile profile (mpMaxProfile managed) in
      \<lparr>auProfile = capped,
       auIsolation = strictestIsolation (DEFAULT_ISOLATION capped) (mpMaxIsolation managed),
       auNetworkAllowed = (DEFAULT_NETWORK_ALLOWED capped \<and> mpNetworkAllowed managed),
       auWorkspaceRoots = [workspaceRoot], auRules = [], auGrants = [],
       auMaxChildDepth = mpMaxChildDepth managed\<rparr>)"

definition restrictiveRule :: "policyRule \<Rightarrow> bool" where
  "restrictiveRule rule \<longleftrightarrow> ruleEffect rule = Eff Deny \<or> ruleEffect rule = Eff Ask"

definition allowIds :: "policyRule list \<Rightarrow> string list" where
  "allowIds rules = map ruleId (filter (\<lambda>r. ruleEffect r = Eff Allow) rules)"

definition intersect :: "authority \<Rightarrow> authority \<Rightarrow> managedPolicy \<Rightarrow> authority" where
  "intersect requested parentCeiling managed =
     (let profile = leastProfile (leastProfile (auProfile requested) (auProfile parentCeiling))
                      (mpMaxProfile managed);
          isolation = strictestIsolation
                        (strictestIsolation (auIsolation requested) (auIsolation parentCeiling))
                        (mpMaxIsolation managed);
          parentAllowIds = allowIds (auRules parentCeiling);
          parentGrantIds = map grantId (auGrants parentCeiling);
          rules = auRules parentCeiling @
            filter (\<lambda>rule. restrictiveRule rule \<or>
                (ruleEffect rule = Eff Allow \<and> ruleId rule \<in> set parentAllowIds \<and>
                 \<not> list_ex (\<lambda>p. ruleId p = ruleId rule) (auRules parentCeiling)))
              (auRules requested);
          requestedRoots = (if auWorkspaceRoots requested = [] then auWorkspaceRoots parentCeiling
                            else auWorkspaceRoots requested);
          workspaceRoots =
            filter (\<lambda>root. list_ex (\<lambda>parentRoot. isWithin parentRoot root)
              (auWorkspaceRoots parentCeiling)) requestedRoots
      in \<lparr>auProfile = profile, auIsolation = isolation,
          auNetworkAllowed = (auNetworkAllowed requested \<and> auNetworkAllowed parentCeiling \<and>
                              mpNetworkAllowed managed),
          auWorkspaceRoots = workspaceRoots, auRules = rules,
          auGrants = filter (\<lambda>g. grantId g \<in> set parentGrantIds) (auGrants requested),
          auMaxChildDepth =
            max 0 (min (min (auMaxChildDepth requested) (auMaxChildDepth parentCeiling - 1))
                       (mpMaxChildDepth managed))\<rparr>)"

record authorityViolation =
  avField :: string
  avDetail :: string

definition authorityViolations :: "authority \<Rightarrow> authority \<Rightarrow> authorityViolation list" where
  "authorityViolations child parent =
     (if PROFILE_RANK (auProfile child) > PROFILE_RANK (auProfile parent)
      then [\<lparr>avField = ''profile'', avDetail = profileName (auProfile child) @
              '' is more permissive than '' @ profileName (auProfile parent)\<rparr>] else []) @
     (if ISOLATION_RANK (auIsolation child) > ISOLATION_RANK (auIsolation parent)
      then [\<lparr>avField = ''isolation'', avDetail = isolationName (auIsolation child) @
              '' is weaker than '' @ isolationName (auIsolation parent)\<rparr>] else []) @
     (if auNetworkAllowed child \<and> \<not> auNetworkAllowed parent
      then [\<lparr>avField = ''networkAllowed'', avDetail = ''child has network, parent does not''\<rparr>]
      else []) @
     concat (map (\<lambda>root.
       if \<not> list_ex (\<lambda>parentRoot. isWithin parentRoot root) (auWorkspaceRoots parent)
       then [\<lparr>avField = ''workspaceRoots'', avDetail = root @ '' is outside every parent root''\<rparr>]
       else []) (auWorkspaceRoots child)) @
     concat (map (\<lambda>rule.
       if ruleEffect rule = Eff Allow \<and> ruleId rule \<notin> set (allowIds (auRules parent))
       then [\<lparr>avField = ''rules'',
              avDetail = ''allow-rule '' @ ruleId rule @ '' is not held by the parent''\<rparr>]
       else []) (auRules child)) @
     concat (map (\<lambda>g.
       if grantId g \<notin> set (map grantId (auGrants parent))
       then [\<lparr>avField = ''grants'',
              avDetail = ''grant '' @ grantId g @ '' is not held by the parent''\<rparr>]
       else []) (auGrants child)) @
     (if auMaxChildDepth child > auMaxChildDepth parent
      then [\<lparr>avField = ''maxChildDepth'', avDetail = ''child may recurse deeper than its parent''\<rparr>]
      else [])"

definition isAtMost :: "authority \<Rightarrow> authority \<Rightarrow> bool" where
  "isAtMost child parent \<longleftrightarrow> authorityViolations child parent = []"

text \<open>The violation list says, field by field, what being at most the parent means.\<close>

lemma isAtMost_iff:
  "isAtMost child parent \<longleftrightarrow>
     auProfile child \<le> auProfile parent \<and> auIsolation child \<le> auIsolation parent \<and>
     (auNetworkAllowed child \<longrightarrow> auNetworkAllowed parent) \<and>
     (\<forall>root \<in> set (auWorkspaceRoots child). \<exists>p \<in> set (auWorkspaceRoots parent). isWithin p root) \<and>
     (\<forall>rule \<in> set (auRules child). ruleEffect rule = Eff Allow \<longrightarrow>
        ruleId rule \<in> set (allowIds (auRules parent))) \<and>
     (\<forall>g \<in> set (auGrants child). grantId g \<in> grantId ` set (auGrants parent)) \<and>
     auMaxChildDepth child \<le> auMaxChildDepth parent"
proof -
  have one: "(if b then [x] else []) = [] \<longleftrightarrow> \<not> b" for b and x :: authorityViolation
    by simp
  have each: "concat (map (\<lambda>x. if P x then [f x] else []) xs) = [] \<longleftrightarrow> (\<forall>x \<in> set xs. \<not> P x)"
    for P and f :: "'z \<Rightarrow> authorityViolation" and xs
    by (induction xs) auto
  show ?thesis
    unfolding isAtMost_def authorityViolations_def append_is_Nil_conv one each
      less_eq_permissionProfile_def less_eq_isolationMode_def list_ex_iff not_less not_not
      set_map de_Morgan_conj imp_conv_disj
    by (simp only: not_not not_less)
qed

subsection \<open>Containment is a partial order on canonical paths\<close>

lemma isWithin_refl [simp]: "isWithin p p"
  by (simp add: isWithin_def)

lemma isWithin_iff:
  "isWithin root path \<longleftrightarrow>
     path = root \<or> (\<exists>t. path = (if endsWith root ''/'' then root else root @ ''/'') @ t)"
  by (auto simp: isWithin_def Let_def startsWith_iff)

lemma isWithin_trans:
  assumes "isWithin a b" and "isWithin b c"
  shows "isWithin a c"
proof (cases "b = a \<or> c = b")
  case True
  with assms show ?thesis by auto
next
  case False
  let ?dir = "\<lambda>p. if endsWith p ''/'' then p else p @ ''/''"
  obtain s t where s: "b = ?dir a @ s" and t: "c = ?dir b @ t"
    using assms False by (auto simp: isWithin_iff)
  obtain x where "?dir b = b @ x" by (cases "endsWith b ''/''") auto
  with s t have "c = ?dir a @ (s @ x @ t)" by simp
  then show ?thesis unfolding isWithin_iff by blast
qed

subsection \<open>The interface of the intersection\<close>

locale authority_ceiling =
  fixes cap :: "'a \<Rightarrow> 'a \<Rightarrow> 'm \<Rightarrow> 'a"
    and atMost :: "'a \<Rightarrow> 'a \<Rightarrow> bool"
    and ok :: "'a \<Rightarrow> bool"
  assumes cap_le: "ok p \<Longrightarrow> atMost (cap r p m) p"
    and cap_ok: "ok (cap r p m)"
    and atMost_refl: "atMost p p"
    and atMost_trans: "atMost a b \<Longrightarrow> atMost b c \<Longrightarrow> atMost a c"
begin

text \<open>A chain of delegations: each child asks for something and is capped by its parent.\<close>

fun delegate :: "'m \<Rightarrow> 'a list \<Rightarrow> 'a \<Rightarrow> 'a" where
  "delegate m [] p = p"
| "delegate m (r # rs) p = delegate m rs (cap r p m)"

lemma delegate_le: "ok p \<Longrightarrow> atMost (delegate m rs p) p"
proof (induction rs arbitrary: p)
  case Nil
  then show ?case by (simp add: atMost_refl)
next
  case (Cons r rs)
  from cap_le [OF Cons.prems] Cons.IH [OF cap_ok] show ?case
    unfolding delegate.simps by (blast intro: atMost_trans)
qed

end

text \<open>A ceiling is well formed when its depth budget is not negative.\<close>

definition depthOk :: "authority \<Rightarrow> bool" where
  "depthOk a \<longleftrightarrow> 0 \<le> auMaxChildDepth a"

lemma intersect_depthOk: "depthOk (intersect r p m)"
  by (simp add: depthOk_def intersect_def Let_def)

lemma intersect_le_parent:
  assumes "depthOk p"
  shows "isAtMost (intersect r p m) p"
  using assms unfolding isAtMost_iff
  by (auto simp: intersect_def Let_def leastProfile_min strictestIsolation_min depthOk_def
      list_ex_iff allowIds_def restrictiveRule_def min.coboundedI1 min.coboundedI2)

lemma isAtMost_refl: "isAtMost a a"
  by (force simp: isAtMost_iff allowIds_def)

lemma allowIds_mono:
  "(\<forall>rule \<in> set xs. ruleEffect rule = Eff Allow \<longrightarrow> ruleId rule \<in> set (allowIds ys)) \<Longrightarrow>
    i \<in> set (allowIds xs) \<Longrightarrow> i \<in> set (allowIds ys)"
  by (auto simp: allowIds_def)

lemma isAtMost_trans:
  assumes ab: "isAtMost a b" and bc: "isAtMost b c"
  shows "isAtMost a c"
proof -
  have roots: "\<exists>q \<in> set (auWorkspaceRoots c). isWithin q root"
    if "root \<in> set (auWorkspaceRoots a)" for root
    using ab bc that isWithin_trans unfolding isAtMost_iff by metis
  have rules: "ruleId rule \<in> set (allowIds (auRules c))"
    if "rule \<in> set (auRules a)" "ruleEffect rule = Eff Allow" for rule
    using ab bc that allowIds_mono unfolding isAtMost_iff by metis
  have grants: "grantId g \<in> grantId ` set (auGrants c)" if "g \<in> set (auGrants a)" for g
  proof -
    from ab that obtain h where "h \<in> set (auGrants b)" "grantId g = grantId h"
      unfolding isAtMost_iff by blast
    with bc show ?thesis unfolding isAtMost_iff by auto
  qed
  show ?thesis
    using ab bc roots rules grants unfolding isAtMost_iff by (auto intro: order_trans)
qed

interpretation ceiling: authority_ceiling intersect isAtMost depthOk
  by unfold_locales
    (auto intro: intersect_le_parent intersect_depthOk isAtMost_refl isAtMost_trans)

end
