(* ===== verification/Policy_Engine.thy ===== *)
theory Policy_Engine
  imports Policy_Authority
begin

text \<open>
  \<^verbatim>\<open>packages/policy/src/engine.ts\<close>, the permission engine, and \<^verbatim>\<open>context.ts\<close>, which
  builds its input. \<^verbatim>\<open>evaluate\<close> is the composition of the seven stages in the order of the
  code; each stage is a definition that takes the verdict so far and returns the new verdict with
  the trace entries the stage pushes.
\<close>

subsection \<open>Decisions and their context\<close>

datatype decisionStage =
    ST_input_validation | ST_profile | ST_protected_path | ST_rule | ST_grant | ST_hook | ST_managed
  | ST_user_passthrough

record decisionSource =
  srcStage :: decisionStage
  srcId :: string

text \<open>The effect of a step is an outcome, or None for \<^verbatim>\<open>'no-opinion'\<close>.\<close>

record decisionStep =
  stepStage :: decisionStage
  stepId :: string
  stepEffect :: "outcome option"
  stepNote :: string

record policyDecision =
  pdOutcome :: outcome
  pdReason :: string
  pdSource :: decisionSource
  pdActionDigest :: string
  pdDescription :: string
  pdProtectedMatches :: "protectedMatch list"
  pdTrace :: "decisionStep list"

record policyContext =
  cxProfile :: permissionProfile
  cxManagedPolicy :: managedPolicy
  cxRules :: "policyRule list"
  cxGrants :: "grant list"
  cxWorkspaceRoot :: string
  cxHomeDir :: string
  cxNow :: int
  cxActor :: actor
  cxHookOutcome :: "outcome option"

record policyContextInput =
  ciProfile :: permissionProfile
  ciManagedPolicy :: managedPolicy
  ciWorkspaceRoot :: string
  ciHomeDir :: string
  ciNow :: int
  ciActor :: actor
  ciRules :: "policyRule list option"
  ciGrants :: "grant list option"
  ciHookOutcome :: "outcome option"

definition makePolicyContext :: "policyContextInput \<Rightarrow> policyContext" where
  "makePolicyContext i = \<lparr>cxProfile = ciProfile i, cxManagedPolicy = ciManagedPolicy i,
     cxRules = (case ciRules i of None \<Rightarrow> [] | Some rs \<Rightarrow> rs),
     cxGrants = (case ciGrants i of None \<Rightarrow> [] | Some gs \<Rightarrow> gs),
     cxWorkspaceRoot = ciWorkspaceRoot i, cxHomeDir = ciHomeDir i, cxNow = ciNow i,
     cxActor = ciActor i, cxHookOutcome = ciHookOutcome i\<rparr>"

definition contentDigest :: "platform \<Rightarrow> string \<Rightarrow> string" where
  "contentDigest pf content = sha256hex pf content"

record verdict =
  vEffect :: effect
  vSealed :: bool
  vExactGrantOnly :: bool
  vSource :: decisionSource
  vReason :: string

abbreviation mkVerdict :: "effect \<Rightarrow> bool \<Rightarrow> bool \<Rightarrow> decisionStage \<Rightarrow> string \<Rightarrow> string \<Rightarrow> verdict" where
  "mkVerdict e sealed exact stage i reason \<equiv>
     \<lparr>vEffect = e, vSealed = sealed, vExactGrantOnly = exact,
      vSource = \<lparr>srcStage = stage, srcId = i\<rparr>, vReason = reason\<rparr>"

abbreviation mkStep :: "decisionStage \<Rightarrow> string \<Rightarrow> outcome option \<Rightarrow> string \<Rightarrow> decisionStep" where
  "mkStep stage i e note \<equiv> \<lparr>stepStage = stage, stepId = i, stepEffect = e, stepNote = note\<rparr>"

definition quoted :: "string \<Rightarrow> string" where
  "quoted s = CHR 0x27 # s @ [CHR 0x27]"

subsection \<open>Stage 1: the profile\<close>

text \<open>None: the edit is allowed; otherwise why the profile still asks.\<close>

definition createsExecutable :: "normalizedAction \<Rightarrow> bool" where
  "createsExecutable a =
     (case a of FileWrite _ x _ \<Rightarrow> x | FileEdit _ x _ \<Rightarrow> x | Patch _ x _ \<Rightarrow> x | _ \<Rightarrow> False)"

definition autoAcceptEditsAllows :: "normalizedAction \<Rightarrow> policyContext \<Rightarrow> string option" where
  [policy_defs]: "autoAcceptEditsAllows a ctx =
     (case a of
        Shell _ _ _ \<Rightarrow>
          Some ''shell commands always ask in auto-accept-edits, including mkdir, mv and cp''
      | Network _ _ _ _ _ \<Rightarrow> Some ''network access always asks in auto-accept-edits''
      | GitWrite _ _ destructive _ \<Rightarrow>
          Some (if destructive then ''destructive Git always asks''
                else ''Git writes always ask in auto-accept-edits'')
      | Mcp _ _ _ _ \<Rightarrow> Some ''MCP side effects always ask in auto-accept-edits''
      | _ \<Rightarrow>
          let paths = actionPaths a in
          (case find (\<lambda>p. \<not> isWithin (cxWorkspaceRoot ctx) p) paths of
             Some p \<Rightarrow> Some (p @ '' is outside the workspace root; external paths ask'')
           | None \<Rightarrow>
               (case find (\<lambda>p. sensitiveEditReason p (createsExecutable a) \<noteq> None) paths of
                  None \<Rightarrow> None
                | Some p \<Rightarrow>
                    map_option
                      (\<lambda>r. p @ '' is a '' @ sensitiveName r @ ''; it still asks in auto-accept-edits'')
                      (sensitiveEditReason p (createsExecutable a)))))"

definition profileStage :: "normalizedAction \<Rightarrow> policyContext \<Rightarrow> verdict" where
  [policy_defs]: "profileStage a ctx =
     (let profile = cxProfile ctx; i = ''profile:'' @ profileName profile in
      if actorKind (cxActor ctx) = A_user then
        mkVerdict Allow False False ST_profile i
          ''direct user action; the profile prompt gate applies to the agent, not the user''
      else if \<not> isSideEffect a then
        mkVerdict Allow False False ST_profile i
          ''read/search/analysis is available in every profile''
      else if profile = P_plan then
        mkVerdict Deny True False ST_profile i
          (quoted (kindName (actKind a)) @
           '' is unavailable in plan: plan exposes read, search and analysis only'')
      else if profile = P_yolo then
        mkVerdict Allow False False ST_profile i
          ''yolo: no interactive prompts; the managed ceiling still applies''
      else if profile = P_auto_accept_edits then
        (case autoAcceptEditsAllows a ctx of
           None \<Rightarrow> mkVerdict Allow False False ST_profile i
                     ''dedicated workspace file tool inside the workspace root''
         | Some why \<Rightarrow> mkVerdict Ask False False ST_profile i why)
      else mkVerdict Ask False False ST_profile i
             ''ask: every side effect prompts with its exact normalized parameters'')"

subsection \<open>Stage 2: protected paths\<close>

definition protectedMatches :: "normalizedAction \<Rightarrow> policyContext \<Rightarrow> protectedMatch list" where
  [policy_defs]: "protectedMatches a ctx =
     (let metadata =
        (case a of
           Network _ url host _ _ \<Rightarrow>
             if isMetadataHost host
             then [\<lparr>pmRuleId = ''cloud-metadata-endpoint'', pmClass = C_metadata_endpoint,
                    pmPattern = host, pmTarget = url,
                    pmWhy = ''the cloud instance-metadata endpoint hands out instance credentials''\<rparr>]
             else []
         | _ \<Rightarrow> [])
      in case a of
           GitRead _ _ \<Rightarrow> metadata
         | GitWrite _ _ _ _ \<Rightarrow> metadata
         | _ \<Rightarrow>
             metadata @
             concat (map
               (\<lambda>path. classifyPath path (if isWriteAction a then Write else Read)
                  \<lparr>plWorkspaceRoot = cxWorkspaceRoot ctx, plHomeDir = cxHomeDir ctx\<rparr>)
               (actionPaths a)))"

definition protectedStage :: "permissionProfile \<Rightarrow> protectedMatch \<Rightarrow> string \<Rightarrow> verdict" where
  [policy_defs]: "protectedStage profile first summary =
     (if profile = P_plan then
        mkVerdict Deny True False ST_protected_path (pmRuleId first)
          (''plan denies protected access: '' @ summary)
      else if profile = P_yolo then
        mkVerdict Allow False False ST_protected_path (pmRuleId first)
          (''yolo: '' @ summary @ '' is reachable unless managed policy denies it'')
      else
        mkVerdict Ask True True ST_protected_path (pmRuleId first)
          (summary @ '' requires an exact approval for this specific action''))"

definition matchSummary :: "protectedMatch list \<Rightarrow> string" where
  "matchSummary ms =
     joinWith '', '' (map (\<lambda>m. pmRuleId m @ '' ('' @ className (pmClass m) @ '')'') ms)"

definition stage2 ::
  "normalizedAction \<Rightarrow> policyContext \<Rightarrow> verdict \<Rightarrow> verdict \<times> decisionStep list" where
  [policy_defs]: "stage2 a ctx v =
     (case protectedMatches a ctx of
        [] \<Rightarrow> (v, [])
      | first # rest \<Rightarrow>
          let summary = matchSummary (first # rest);
              protectedVerdict = protectedStage (cxProfile ctx) first summary;
              v' = (if cxProfile ctx = P_yolo \<or>
                       RESTRICTIVENESS (vEffect protectedVerdict) \<ge> RESTRICTIVENESS (vEffect v)
                    then protectedVerdict
                    else v\<lparr>vSealed := True\<rparr>)
          in (v', [mkStep ST_protected_path (pmRuleId first) (Some (Eff (vEffect v')))
                     (summary @ '': '' @ pmWhy first)]))"

subsection \<open>Stage 3: rules\<close>

definition downgradeSteps :: "ruleMatchRec list \<Rightarrow> decisionStep list" where
  "downgradeSteps ms =
     map (\<lambda>m. mkStep ST_rule (ruleId (rmRule m)) None
            (''scope '' @ quoted (scopeName (ruleScope (rmRule m))) @
             '' may not allow; repository content cannot add authority''))
       (filter (\<lambda>m. rmDowngradedFrom m \<noteq> None) ms)"

definition stage3 ::
  "normalizedAction \<Rightarrow> policyContext \<Rightarrow> string \<Rightarrow> verdict \<Rightarrow> verdict \<times> decisionStep list" where
  [policy_defs]: "stage3 a ctx digest v =
     (let merged = mergeRules (cxRules ctx) a (cxHomeDir ctx) digest;
          down = downgradeSteps (mergeMatches merged) in
      case (mergeEffect merged, mergeWinner merged) of
        (Some e, Some winner) \<Rightarrow>
          let rule = rmRule winner in
          if RESTRICTIVENESS e > RESTRICTIVENESS (vEffect v) then
            (mkVerdict e (e = Deny) (vExactGrantOnly v) ST_rule (ruleId rule) (ruleReason rule),
             down @ [mkStep ST_rule (ruleId rule) (Some (Eff e)) (ruleReason rule)])
          else if vSealed v \<or> vExactGrantOnly v then
            (v, down @ [mkStep ST_rule (ruleId rule) None
               (if vExactGrantOnly v
                then ''protected path: only an exact approval can loosen this, not a rule''
                else ''verdict is sealed; a rule cannot loosen it'')])
          else if e = Allow \<and> vEffect v = Ask then
            (mkVerdict Allow False False ST_rule (ruleId rule) (ruleReason rule),
             down @ [mkStep ST_rule (ruleId rule) (Some (Eff Allow)) (ruleReason rule)])
          else
            (v, down @ [mkStep ST_rule (ruleId rule) None
               ''the profile verdict is already at least this restrictive''])
      | _ \<Rightarrow> (v, down))"

subsection \<open>Stage 4: grants\<close>

definition stage4 ::
  "normalizedAction \<Rightarrow> policyContext \<Rightarrow> string \<Rightarrow> verdict \<Rightarrow> verdict \<times> decisionStep list" where
  [policy_defs]: "stage4 a ctx digest v =
     (if vEffect v = Ask then
        let lookup = findGrant (cxGrants ctx) a digest
              \<lparr>goExactOnly = vExactGrantOnly v, goNow = cxNow ctx, goHomeDir = cxHomeDir ctx\<rparr>;
            rej = map (\<lambda>(g, r). mkStep ST_grant (grantId g) None
                         (''matched but unusable: '' @ rejectionName r)) (glRejected lookup)
        in (case glGrant lookup of
              None \<Rightarrow> (v, rej)
            | Some g \<Rightarrow>
                (mkVerdict Allow False False ST_grant (grantId g)
                   (''granted ('' @ grantScopeName (grantScope g) @ ''): '' @ grantReason g),
                 rej @ [mkStep ST_grant (grantId g) (Some (Eff Allow))
                   (''scope '' @ grantScopeName (grantScope g) @ '', granted by '' @ grantedBy g)]))
      else if cxGrants ctx \<noteq> [] then
        (v, [mkStep ST_grant ''grants'' None
           (if vEffect v = Deny then ''a grant cannot authorize a denied action''
            else ''no approval needed'')])
      else (v, []))"

subsection \<open>Stage 5: hooks\<close>

definition stage5 :: "policyContext \<Rightarrow> verdict \<Rightarrow> verdict \<times> decisionStep list" where
  [policy_defs]: "stage5 ctx v =
     (case cxHookOutcome ctx of
        None \<Rightarrow> (v, [])
      | Some Passthrough \<Rightarrow> (v, [])
      | Some (Eff hook) \<Rightarrow>
          if hook = Allow then
            (v, [mkStep ST_hook ''hook'' None
                  ''a hook allow never elevates permission; policy decides''])
          else if RESTRICTIVENESS hook > RESTRICTIVENESS (vEffect v) then
            (mkVerdict hook (hook = Deny) (vExactGrantOnly v) ST_hook ''hook''
               (''a hook restricted this action to '' @ quoted (effectName hook)),
             [mkStep ST_hook ''hook'' (Some (Eff hook)) ''hook restricted the action''])
          else
            (v, [mkStep ST_hook ''hook'' None ''policy is already at least this restrictive'']))"

subsection \<open>Stage 6: the managed ceiling\<close>

text \<open>The loop over the managed rules; a deny ends it.\<close>

fun managedLoop ::
  "managedRule list \<Rightarrow> normalizedAction \<Rightarrow> string \<Rightarrow> string \<Rightarrow> verdict \<Rightarrow> bool \<Rightarrow> decisionStep list
     \<Rightarrow> verdict \<times> bool \<times> decisionStep list" where
  "managedLoop [] a homeDir digest v forcedAsk trace = (v, forcedAsk, trace)"
| "managedLoop (rule # rules) a homeDir digest v forcedAsk trace =
     (if \<not> matchesAction (mrMatch rule) a homeDir digest
      then managedLoop rules a homeDir digest v forcedAsk trace
      else if mrEffect rule = M_deny then
        (mkVerdict Deny True False ST_managed (mrId rule) (mrReason rule), forcedAsk,
         trace @ [mkStep ST_managed (mrId rule) (Some (Eff Deny)) (mrReason rule)])
      else if vEffect v = Allow then
        managedLoop rules a homeDir digest
          (mkVerdict Ask False True ST_managed (mrId rule) (mrReason rule)) True
          (trace @ [mkStep ST_managed (mrId rule) (Some (Eff Ask)) (mrReason rule)])
      else managedLoop rules a homeDir digest v forcedAsk trace)"

definition networkOff :: "normalizedAction \<Rightarrow> policyContext \<Rightarrow> bool" where
  [policy_defs]: "networkOff a ctx \<longleftrightarrow>
     actKind a = K_network \<and> \<not> mpNetworkAllowed (cxManagedPolicy ctx)"

definition stage6 ::
  "normalizedAction \<Rightarrow> policyContext \<Rightarrow> string \<Rightarrow> verdict \<Rightarrow> verdict \<times> bool \<times> decisionStep list" where
  [policy_defs]: "stage6 a ctx digest v =
     (let v1 = (if networkOff a ctx
                then mkVerdict Deny True False ST_managed ''managed.network-disabled''
                       ''managed policy disables network access entirely''
                else v);
          t1 = (if networkOff a ctx
                then [mkStep ST_managed ''managed.network-disabled'' (Some (Eff Deny))
                        ''managed ceiling: network is off'']
                else [])
      in managedLoop (mpRules (cxManagedPolicy ctx)) a (cxHomeDir ctx) digest v1 False t1)"

subsection \<open>The pipeline\<close>

definition failureDetail :: "canonicalityFailure list \<Rightarrow> string" where
  "failureDetail fs =
     joinWith ''; ''
       (map (\<lambda>f. (if failPath f = [] then ''<none>'' else failPath f) @ '': '' @ failWhy f) fs)"

text \<open>The verdict after the stages 1 to 6, with the managed flag and the trace.\<close>

definition runStages ::
  "platform \<Rightarrow> normalizedAction \<Rightarrow> policyContext \<Rightarrow> verdict \<times> bool \<times> decisionStep list" where
  [policy_defs]: "runStages pf a ctx =
     (let digest = actionDigest pf a;
          v1 = profileStage a ctx;
          t1 = [mkStep ST_profile (srcId (vSource v1)) (Some (Eff (vEffect v1))) (vReason v1)];
          (v2, t2) = stage2 a ctx v1;
          (v3, t3) = stage3 a ctx digest v2;
          (v4, t4) = stage4 a ctx digest v3;
          (v5, t5) = stage5 ctx v4;
          (v6, forcedAsk, t6) = stage6 a ctx digest v5
      in (v6, forcedAsk, t1 @ t2 @ t3 @ t4 @ t5 @ t6))"

definition evaluate :: "platform \<Rightarrow> normalizedAction \<Rightarrow> policyContext \<Rightarrow> policyDecision" where
  [policy_defs]: "evaluate pf a ctx =
     (let digest = actionDigest pf a;
          description = describeAction a;
          canonicality = checkCanonicalAction pf a in
      if canonicality \<noteq> [] then
        let detail = failureDetail canonicality in
        \<lparr>pdOutcome = Eff Deny, pdReason = ''action is not canonical ('' @ detail @ '')'',
         pdSource = \<lparr>srcStage = ST_input_validation, srcId = ''canonical-action''\<rparr>,
         pdActionDigest = digest, pdDescription = description, pdProtectedMatches = [],
         pdTrace = [mkStep ST_input_validation ''canonical-action'' (Some (Eff Deny)) detail]\<rparr>
      else
        let t0 = mkStep ST_input_validation ''canonical-action'' None ''action is canonical'';
            (v, managedForcedAsk, trace) = runStages pf a ctx in
        if actorKind (cxActor ctx) = A_user \<and> vEffect v = Allow \<and> \<not> vSealed v \<and>
           \<not> managedForcedAsk \<and> srcStage (vSource v) = ST_profile then
          \<lparr>pdOutcome = Passthrough, pdReason = ''direct user action'',
           pdSource = \<lparr>srcStage = ST_user_passthrough, srcId = actorId (cxActor ctx)\<rparr>,
           pdActionDigest = digest, pdDescription = description,
           pdProtectedMatches = protectedMatches a ctx,
           pdTrace = t0 # trace @
             [mkStep ST_user_passthrough (actorId (cxActor ctx)) (Some Passthrough)
               ''direct user action: no model-approval gate; isolation, audit and redaction still apply'']\<rparr>
        else
          \<lparr>pdOutcome = Eff (vEffect v), pdReason = vReason v, pdSource = vSource v,
           pdActionDigest = digest, pdDescription = description,
           pdProtectedMatches = protectedMatches a ctx, pdTrace = t0 # trace\<rparr>)"

end
