(* ===== verification/Policy_Guarantees.thy ===== *)
theory Policy_Guarantees
  imports Policy_Engine
begin

text \<open>
  What the permission engine promises. The lemmas about the stages say how each one moves the
  effect of a verdict; the abstract specification is \<^verbatim>\<open>evaluate_effect\<close>: after the grants, the
  effect can only rise, to the floor that the hook sets and then to the floor of the managed
  ceiling.
\<close>

subsection \<open>The merge of rules is a join\<close>

fun joinEffect :: "effect option \<Rightarrow> outcome \<Rightarrow> effect option" where
  "joinEffect acc Passthrough = acc"
| "joinEffect None (Eff e) = Some e"
| "joinEffect (Some a) (Eff e) = Some (max a e)"

definition winnerEffect :: "ruleMatchRec option \<Rightarrow> effect option" where
  "winnerEffect w =
     (case w of None \<Rightarrow> None | Some m \<Rightarrow> (case rmEffect m of Passthrough \<Rightarrow> None | Eff e \<Rightarrow> Some e))"

lemma winnerEffect_better: "winnerEffect (betterMatch w m) = joinEffect (winnerEffect w) (rmEffect m)"
  by (auto simp: winnerEffect_def betterMatch_def RESTRICTIVENESS_less max_def
      split: outcome.splits option.splits)

lemma winnerEffect_foldl:
  "winnerEffect (foldl betterMatch w ms) = foldl joinEffect (winnerEffect w) (map rmEffect ms)"
  by (induction ms arbitrary: w) (simp_all add: winnerEffect_better)

lemma mergeEffect_foldl:
  "mergeEffect (mergeRules rules a h d) = foldl joinEffect None (map rmEffect (ruleMatches rules a h d))"
  using winnerEffect_foldl [of None "ruleMatches rules a h d"]
  by (simp add: mergeRules_def Let_def winnerEffect_def)

lemma joinEffect_swap: "joinEffect (joinEffect acc x) y = joinEffect (joinEffect acc y) x"
  by (cases acc; cases x; cases y) (simp_all add: max.commute max.left_commute)

lemma foldl_joinEffect_out:
  "foldl joinEffect (joinEffect acc x) xs = joinEffect (foldl joinEffect acc xs) x"
proof (induction xs arbitrary: acc)
  case (Cons y ys)
  then show ?case by (simp add: joinEffect_swap [of acc x y])
qed simp

lemma ruleMatches_append:
  "ruleMatches (xs @ ys) a h d = ruleMatches xs a h d @ ruleMatches ys a h d"
  by (induction xs) simp_all

text \<open>Where in the list a rule stands makes no difference to the merged effect.\<close>

lemma mergeEffect_insert:
  "mergeEffect (mergeRules (xs @ r # ys) a h d) =
     foldl joinEffect (mergeEffect (mergeRules (xs @ ys) a h d)) (map rmEffect (ruleMatches [r] a h d))"
  by (auto simp: mergeEffect_foldl ruleMatches_append foldl_joinEffect_out split: if_splits)

lemma foldl_betterMatch_in:
  "foldl betterMatch w ms = Some m \<Longrightarrow> Some m = w \<or> m \<in> set ms"
proof (induction ms arbitrary: w)
  case (Cons x ms)
  from Cons.IH [of "betterMatch w x"] Cons.prems
  have "Some m = betterMatch w x \<or> m \<in> set ms" by simp
  moreover have "betterMatch w x = w \<or> betterMatch w x = Some x"
    by (auto simp: betterMatch_def split: outcome.splits option.splits)
  ultimately show ?case by auto
qed simp

lemma ruleMatches_in:
  "m \<in> set (ruleMatches rules a h d) \<Longrightarrow>
     rmRule m \<in> set rules \<and> matchesAction (ruleMatch (rmRule m)) a h d \<and>
     (rmEffect m = Eff Allow \<longrightarrow> mayAllow (ruleScope (rmRule m)) \<and> ruleEffect (rmRule m) = Eff Allow)"
  by (induction rules) (auto split: if_splits)

text \<open>A merged allow comes from an allow rule of a scope that may allow.\<close>

lemma merge_allow:
  assumes "mergeEffect (mergeRules rules a h d) = Some Allow"
  shows "\<exists>rule \<in> set rules. ruleEffect rule = Eff Allow \<and> mayAllow (ruleScope rule) \<and>
           matchesAction (ruleMatch rule) a h d"
proof -
  obtain w where w: "foldl betterMatch None (ruleMatches rules a h d) = Some w" "rmEffect w = Eff Allow"
    using assms by (auto simp: mergeRules_def Let_def split: option.splits outcome.splits)
  with foldl_betterMatch_in have "w \<in> set (ruleMatches rules a h d)" by fastforce
  with w(2) ruleMatches_in show ?thesis by blast
qed

subsection \<open>The stages\<close>

text \<open>The merge names a winner exactly when it has an effect.\<close>

lemma merge_winner_iff:
  "mergeEffect (mergeRules rules a h d) = Some e \<Longrightarrow>
     \<exists>w. mergeWinner (mergeRules rules a h d) = Some w"
  by (auto simp: mergeRules_def Let_def split: option.splits outcome.splits)

lemma stage3_none: "mergeEffect (mergeRules (cxRules ctx) a (cxHomeDir ctx) d) = None \<Longrightarrow>
    fst (stage3 a ctx d v) = v"
  by (simp add: stage3_def Let_def)

lemma stage3_some:
  assumes "mergeEffect (mergeRules (cxRules ctx) a (cxHomeDir ctx) d) = Some e"
  obtains w :: ruleMatchRec where
    "fst (stage3 a ctx d v) =
       (if vEffect v < e then mkVerdict e (e = Deny) (vExactGrantOnly v) ST_rule
          (ruleId (rmRule w)) (ruleReason (rmRule w))
        else if \<not> vSealed v \<and> \<not> vExactGrantOnly v \<and> e = Allow \<and> vEffect v = Ask
        then mkVerdict Allow False False ST_rule (ruleId (rmRule w)) (ruleReason (rmRule w))
        else v)"
proof -
  obtain w where "mergeWinner (mergeRules (cxRules ctx) a (cxHomeDir ctx) d) = Some w"
    using merge_winner_iff [OF assms] by blast
  with assms that [of w] show ?thesis
    by (simp add: stage3_def Let_def RESTRICTIVENESS_less)
qed

subsection \<open>Levels: the abstract state of the pipeline\<close>

text \<open>
  Before the grants a verdict of the code stands for one of four levels in a linear order: between
  ask and deny there is the ask that only an exact approval can satisfy.
\<close>

datatype level = L_allow | L_ask | L_exact | L_deny

fun levelRank :: "level \<Rightarrow> nat" where
  "levelRank L_allow = 0"
| "levelRank L_ask = 1"
| "levelRank L_exact = 2"
| "levelRank L_deny = 3"

lemma levelRank_inject [simp]: "levelRank a = levelRank b \<longleftrightarrow> a = b"
  by (cases a; cases b) auto

instantiation level :: linorder
begin
definition less_eq_level :: "level \<Rightarrow> level \<Rightarrow> bool" where
  "less_eq_level a b \<longleftrightarrow> levelRank a \<le> levelRank b"
definition less_level :: "level \<Rightarrow> level \<Rightarrow> bool" where
  "less_level a b \<longleftrightarrow> levelRank a < levelRank b"
instance
  by standard (auto simp: less_eq_level_def less_level_def)
end

definition verdictLevel :: "verdict \<Rightarrow> level" where
  "verdictLevel v =
     (case vEffect v of
        Allow \<Rightarrow> L_allow | Deny \<Rightarrow> L_deny | Ask \<Rightarrow> (if vExactGrantOnly v then L_exact else L_ask))"

text \<open>The flags agree with the level: an allow is never exact-only, and exactness seals an ask.\<close>

definition wfVerdict :: "verdict \<Rightarrow> bool" where
  "wfVerdict v \<longleftrightarrow>
     (vExactGrantOnly v \<longrightarrow> vEffect v \<noteq> Allow) \<and> (vEffect v = Ask \<longrightarrow> vSealed v = vExactGrantOnly v)"

definition startLevel :: "normalizedAction \<Rightarrow> policyContext \<Rightarrow> level" where
  "startLevel a ctx =
     (if protectedMatches a ctx \<noteq> [] then
        (case cxProfile ctx of P_plan \<Rightarrow> L_deny | P_yolo \<Rightarrow> L_allow | _ \<Rightarrow> L_exact)
      else if actorKind (cxActor ctx) = A_user \<or> \<not> isSideEffect a then L_allow
      else (case cxProfile ctx of
              P_plan \<Rightarrow> L_deny
            | P_yolo \<Rightarrow> L_allow
            | P_auto_accept_edits \<Rightarrow> (if autoAcceptEditsAllows a ctx = None then L_allow else L_ask)
            | P_ask \<Rightarrow> L_ask))"

fun applyRules :: "effect option \<Rightarrow> level \<Rightarrow> level" where
  "applyRules None l = l"
| "applyRules (Some Allow) l = (if l = L_ask then L_allow else l)"
| "applyRules (Some Ask) l = max l L_ask"
| "applyRules (Some Deny) l = L_deny"

fun applyGrants :: "bool \<Rightarrow> bool \<Rightarrow> level \<Rightarrow> effect" where
  "applyGrants anyGrant exactGrant L_allow = Allow"
| "applyGrants anyGrant exactGrant L_ask = (if anyGrant then Allow else Ask)"
| "applyGrants anyGrant exactGrant L_exact = (if exactGrant then Allow else Ask)"
| "applyGrants anyGrant exactGrant L_deny = Deny"

lemma stage12_level:
  "verdictLevel (fst (stage2 a ctx (profileStage a ctx))) = startLevel a ctx \<and>
   wfVerdict (fst (stage2 a ctx (profileStage a ctx)))"
proof (cases "protectedMatches a ctx")
  case Nil
  then show ?thesis
    by (cases "cxProfile ctx")
      (auto simp: stage2_def profileStage_def startLevel_def verdictLevel_def wfVerdict_def Let_def
        split: option.splits)
next
  case (Cons m ms)
  have "cxProfile ctx = P_plan \<or> cxProfile ctx = P_yolo \<or> vEffect (profileStage a ctx) \<noteq> Deny"
    by (cases "cxProfile ctx") (auto simp: profileStage_def Let_def split: option.splits)
  then show ?thesis
    using Cons
    by (cases "cxProfile ctx"; cases "vEffect (profileStage a ctx)")
      (auto simp: stage2_def protectedStage_def startLevel_def verdictLevel_def wfVerdict_def Let_def)
qed

lemma stage3_level:
  fixes a d and v :: verdict and ctx :: policyContext
  assumes "wfVerdict v"
  defines "m \<equiv> mergeEffect (mergeRules (cxRules ctx) a (cxHomeDir ctx) d)"
  shows "verdictLevel (fst (stage3 a ctx d v)) = applyRules m (verdictLevel v) \<and>
         wfVerdict (fst (stage3 a ctx d v))"
proof (cases m)
  case None
  with assms show ?thesis by (simp add: stage3_none)
next
  case (Some e)
  then obtain w :: ruleMatchRec where "fst (stage3 a ctx d v) =
       (if vEffect v < e then mkVerdict e (e = Deny) (vExactGrantOnly v) ST_rule
          (ruleId (rmRule w)) (ruleReason (rmRule w))
        else if \<not> vSealed v \<and> \<not> vExactGrantOnly v \<and> e = Allow \<and> vEffect v = Ask
        then mkVerdict Allow False False ST_rule (ruleId (rmRule w)) (ruleReason (rmRule w))
        else v)"
    unfolding m_def by (rule stage3_some)
  with Some assms(1) show ?thesis
    by (cases e; cases "vEffect v")
      (auto simp: verdictLevel_def wfVerdict_def max_def less_eq_level_def)
qed

definition anyGrant :: "normalizedAction \<Rightarrow> policyContext \<Rightarrow> string \<Rightarrow> bool" where
  "anyGrant a ctx d \<longleftrightarrow>
     glGrant (findGrant (cxGrants ctx) a d \<lparr>goExactOnly = False, goNow = cxNow ctx,
                goHomeDir = cxHomeDir ctx\<rparr>) \<noteq> None"

definition exactGrant :: "normalizedAction \<Rightarrow> policyContext \<Rightarrow> string \<Rightarrow> bool" where
  "exactGrant a ctx d \<longleftrightarrow>
     glGrant (findGrant (cxGrants ctx) a d \<lparr>goExactOnly = True, goNow = cxNow ctx,
                goHomeDir = cxHomeDir ctx\<rparr>) \<noteq> None"

lemma stage4_effect:
  "vEffect (fst (stage4 a ctx d v)) =
     applyGrants (anyGrant a ctx d) (exactGrant a ctx d) (verdictLevel v)"
  by (cases "vEffect v"; cases "vExactGrantOnly v")
    (auto simp: stage4_def Let_def verdictLevel_def anyGrant_def exactGrant_def split: option.splits)

definition hookFloor :: "policyContext \<Rightarrow> effect" where
  "hookFloor ctx = (case cxHookOutcome ctx of Some (Eff e) \<Rightarrow> e | _ \<Rightarrow> Allow)"

lemma stage5_effect: "vEffect (fst (stage5 ctx v)) = max (vEffect v) (hookFloor ctx)"
proof (cases "cxHookOutcome ctx")
  case (Some x)
  then show ?thesis
    by (cases x) (auto simp: stage5_def hookFloor_def RESTRICTIVENESS_less max_def not_less
        intro: order.antisym)
qed (simp add: stage5_def hookFloor_def)

definition managedFloor :: "normalizedAction \<Rightarrow> policyContext \<Rightarrow> string \<Rightarrow> effect" where
  "managedFloor a ctx d =
     (let ms = filter (\<lambda>r. matchesAction (mrMatch r) a (cxHomeDir ctx) d) (mpRules (cxManagedPolicy ctx))
      in if networkOff a ctx \<or> list_ex (\<lambda>r. mrEffect r = M_deny) ms then Deny
         else if ms \<noteq> [] then Ask else Allow)"

lemma managedLoop_effect:
  "vEffect (fst (managedLoop rules a h d v f t)) =
     max (vEffect v)
       (let ms = filter (\<lambda>r. matchesAction (mrMatch r) a h d) rules
        in if list_ex (\<lambda>r. mrEffect r = M_deny) ms then Deny else if ms \<noteq> [] then Ask else Allow)"
proof (induction rules a h d v f t rule: managedLoop.induct)
  case (2 rule rules a h d v f t)
  have "mrEffect rule = M_ask" if "mrEffect rule \<noteq> M_deny"
    using that by (cases "mrEffect rule") auto
  with 2 show ?case
    by (cases "vEffect v") (auto simp: Let_def max_def)
qed simp

lemma stage6_effect: "vEffect (fst (stage6 a ctx d v)) = max (vEffect v) (managedFloor a ctx d)"
  by (auto simp: stage6_def managedLoop_effect managedFloor_def Let_def max_def)

subsection \<open>The abstract specification\<close>

text \<open>The effect once profile, protected paths, rules and grants have spoken.\<close>

definition grantedEffect :: "platform \<Rightarrow> normalizedAction \<Rightarrow> policyContext \<Rightarrow> effect" where
  "grantedEffect pf a ctx =
     (let d = actionDigest pf a in
      applyGrants (anyGrant a ctx d) (exactGrant a ctx d)
        (applyRules (mergeEffect (mergeRules (cxRules ctx) a (cxHomeDir ctx) d)) (startLevel a ctx)))"

definition specEffect :: "platform \<Rightarrow> normalizedAction \<Rightarrow> policyContext \<Rightarrow> effect" where
  "specEffect pf a ctx =
     (if checkCanonicalAction pf a \<noteq> [] then Deny
      else max (max (grantedEffect pf a ctx) (hookFloor ctx))
             (managedFloor a ctx (actionDigest pf a)))"

fun outcomeEffect :: "outcome \<Rightarrow> effect" where
  "outcomeEffect (Eff e) = e"
| "outcomeEffect Passthrough = Allow"

lemma runStages_verdict:
  "fst (runStages pf a ctx) =
     fst (stage6 a ctx (actionDigest pf a)
       (fst (stage5 ctx (fst (stage4 a ctx (actionDigest pf a)
         (fst (stage3 a ctx (actionDigest pf a) (fst (stage2 a ctx (profileStage a ctx))))))))))"
  by (simp add: runStages_def Let_def split: prod.splits)

lemma evaluate_outcome:
  "outcomeEffect (pdOutcome (evaluate pf a ctx)) =
     (if checkCanonicalAction pf a \<noteq> [] then Deny else vEffect (fst (runStages pf a ctx)))"
  by (auto simp: evaluate_def Let_def split: prod.splits)

text \<open>The pipeline of the code implements the specification.\<close>

lemma evaluate_spec: "outcomeEffect (pdOutcome (evaluate pf a ctx)) = specEffect pf a ctx"
  using stage12_level [of a ctx] stage3_level [of "fst (stage2 a ctx (profileStage a ctx))"]
  by (simp add: evaluate_outcome runStages_verdict stage6_effect stage5_effect stage4_effect
      specEffect_def grantedEffect_def Let_def)

text \<open>Every part of the specification is monotone.\<close>

lemma applyRules_mono: "l \<le> l' \<Longrightarrow> applyRules m l \<le> applyRules m l'"
  by (cases m; cases l; cases l'; cases "the m")
    (auto simp: less_eq_level_def max_def)

lemma applyGrants_mono:
  assumes "l \<le> l'" "exact \<Longrightarrow> any"
  shows "applyGrants any exact l \<le> applyGrants any exact l'"
  using assms by (cases l; cases l') (auto simp: less_eq_level_def)

lemma applyRules_join:
  "x \<noteq> Eff Allow \<Longrightarrow> applyRules m l \<le> applyRules (joinEffect m x) l"
proof (cases x)
  case (Eff e)
  assume "x \<noteq> Eff Allow"
  with Eff show ?thesis
    by (cases e; cases m; cases l; cases "the m")
      (auto simp: less_eq_level_def max_def less_eq_effect_def)
qed simp

end
