(* ===== verification/Policy_Digest.thy ===== *)
theory Policy_Digest
  imports Policy_Action
begin

text \<open>
  Why an approval that binds to \<^verbatim>\<open>actionDigest\<close> binds to the whole action: the canonical JSON
  of an action determines the action. Printing is shown to be prefix-free (a printed value
  followed by a delimiter can be read in one way only), by induction on the value.
\<close>

subsection \<open>Strings\<close>

definition hexVal :: "char \<Rightarrow> nat" where
  "hexVal c = (if (of_char c :: nat) < 58 then of_char c - 48 else of_char c - 87)"

lemma hexVal_hexDigit [simp]: "d < 16 \<Longrightarrow> hexVal (hexDigit d) = d"
  by (auto simp: hexVal_def hexDigit_def)

text \<open>The reader of one escaped code unit.\<close>

definition readChar :: "string \<Rightarrow> char \<times> string" where
  "readChar s =
     (case s of
        [] \<Rightarrow> (CHR 0x00, [])
      | c # r \<Rightarrow>
          if c \<noteq> BACKSLASH then (c, r)
          else (case r of
              [] \<Rightarrow> (CHR 0x00, [])
            | x # r' \<Rightarrow>
                if x = CHR ''b'' then (CHR 0x08, r')
                else if x = CHR ''f'' then (CHR 0x0C, r')
                else if x = CHR ''n'' then (CHR 0x0A, r')
                else if x = CHR ''r'' then (CHR 0x0D, r')
                else if x = CHR ''t'' then (CHR 0x09, r')
                else if x = CHR ''u''
                  then (char_of (16 * hexVal (r' ! 2) + hexVal (r' ! 3)), drop 4 r')
                else (x, r')))"

lemma readChar_jsonChar: "readChar (jsonChar c @ u) = (c, u)"
proof -
  have ctl: "readChar ([BACKSLASH, CHR ''u'', CHR ''0'', CHR ''0'',
      hexDigit (of_char c div 16), hexDigit (of_char c mod 16)] @ u) = (c, u)"
    if "(of_char c :: nat) < 32"
  proof -
    have "(of_char c :: nat) div 16 < 16" using that by simp
    then have "16 * hexVal (hexDigit (of_char c div 16)) + hexVal (hexDigit (of_char c mod 16))
        = (of_char c :: nat)"
      by simp
    then show ?thesis
      by (simp add: readChar_def BACKSLASH_def)
  qed
  show ?thesis
    unfolding jsonChar_def using ctl
    by (auto simp: readChar_def BACKSLASH_def DQUOTE_def)
qed

lemma jsonChar_prefix: "jsonChar c @ u = jsonChar d @ v \<Longrightarrow> c = d \<and> u = v"
  by (metis prod.inject readChar_jsonChar)

lemma jsonChar_head: "\<exists>x xs. jsonChar c = x # xs \<and> x \<noteq> DQUOTE"
  by (auto simp: jsonChar_def BACKSLASH_def DQUOTE_def)

lemma jsonBody_prefix:
  "concat (map jsonChar a) @ DQUOTE # u = concat (map jsonChar b) @ DQUOTE # v
    \<Longrightarrow> a = b \<and> u = v"
proof (induction a arbitrary: b)
  case Nil
  show ?case
  proof (cases b)
    case Nil
    with Nil.prems show ?thesis by simp
  next
    case (Cons d ds)
    with Nil.prems jsonChar_head [of d] show ?thesis by auto
  qed
next
  case (Cons c a)
  show ?case
  proof (cases b)
    case Nil
    with Cons.prems jsonChar_head [of c] show ?thesis by auto
  next
    case (Cons d ds)
    with Cons.prems have
      "jsonChar c @ (concat (map jsonChar a) @ DQUOTE # u)
        = jsonChar d @ (concat (map jsonChar ds) @ DQUOTE # v)"
      by simp
    from jsonChar_prefix [OF this] Cons.IH [of ds] \<open>b = d # ds\<close> show ?thesis by simp
  qed
qed

lemma jsonStr_prefix: "jsonStr a @ u = jsonStr b @ v \<Longrightarrow> a = b \<and> u = v"
  by (auto simp: jsonStr_def dest: jsonBody_prefix)

subsection \<open>Numbers\<close>

text \<open>What may follow a printed value inside a canonical text.\<close>

definition delimited :: "string \<Rightarrow> bool" where
  "delimited r \<longleftrightarrow> (case r of [] \<Rightarrow> True | c # _ \<Rightarrow> c \<in> {CHR '','', CHR '']'', CHR ''}''})"

lemma delimited_no_digit: "delimited r \<Longrightarrow> takeWhile isDigit r = []"
  by (cases r) (auto simp: delimited_def isDigit_def)

lemma natStr_prefix:
  assumes eq: "natStr m @ r = natStr n @ s" and "delimited r" and "delimited s"
  shows "m = n \<and> r = s"
proof -
  have tw: "takeWhile isDigit (natStr k @ t) = natStr k" if "delimited t" for k t
    using that natStr_digits
    by (metis append_Nil2 delimited_no_digit takeWhile_append2)
  from eq tw [OF assms(2)] tw [OF assms(3)] have "natStr m = natStr n" by metis
  with eq show ?thesis by simp
qed

lemma digitChar_cases: "x \<in> set (natStr n) \<Longrightarrow> 48 \<le> (of_char x :: nat) \<and> (of_char x :: nat) \<le> 57"
  using natStr_digits by (auto simp: isDigit_def)

lemma natStr_head: "\<exists>x xs. natStr n = x # xs \<and> isDigit x"
  by (metis list.exhaust list.set_intros(1) natStr_digits natStr_not_Nil)

lemma intStr_prefix:
  assumes eq: "intStr i @ r = intStr j @ s" and "delimited r" and "delimited s"
  shows "i = j \<and> r = s"
proof -
  have no: "\<not> isDigit CHR ''-''" by (simp add: isDigit_def)
  have sign: "i < 0 \<longleftrightarrow> j < 0"
    using eq natStr_head [of "nat i"] natStr_head [of "nat j"] no
    by (auto simp: intStr_def split: if_splits)
  then have "natStr (nat (if i < 0 then - i else i)) @ r = natStr (nat (if j < 0 then - j else j)) @ s"
    using eq by (auto simp: intStr_def split: if_splits)
  from natStr_prefix [OF this assms(2,3)] sign show ?thesis
    by (auto split: if_splits)
qed

subsection \<open>Values\<close>

text \<open>A value in normal form: nothing undefined, the keys of every object in order.\<close>

fun normalValue :: "jsValue \<Rightarrow> bool" where
  "normalValue JsUndefined = False"
| "normalValue (JsArr vs) = list_all normalValue vs"
| "normalValue (JsObj es) = (sorted (map fst es) \<and> list_all (\<lambda>(k, v). normalValue v) es)"
| "normalValue _ = True"

lemma normalValue_obj:
  assumes "normalValue (JsObj es)"
  shows "canonicalJson (JsObj es) =
    ''{'' @ joinWith '','' (map (\<lambda>(k, v). jsonStr k @ '':'' @ canonicalJson v) es) @ ''}''"
proof -
  have "filter (\<lambda>(k, v). v \<noteq> JsUndefined) es = es"
    using assms by (auto simp: filter_id_conv list_all_iff)
  moreover have "sorted (map fst (map (\<lambda>(k, v). (k, canonicalJson v)) es))"
    using assms by (simp add: case_prod_beta' comp_def)
  ultimately show ?thesis
    by (simp add: sort_key_id_if_sorted case_prod_beta' comp_def)
qed

text \<open>The first character of a printed value tells which constructor it has.\<close>

definition charTag :: "char \<Rightarrow> nat" where
  "charTag c =
     (if c = CHR ''n'' then 0 else if c \<in> {CHR ''t'', CHR ''f''} then 1
      else if isDigit c \<or> c = CHR ''-'' then 2 else if c = DQUOTE then 3
      else if c = CHR ''['' then 4 else if c = CHR ''{'' then 5 else 6)"

fun valueTag :: "jsValue \<Rightarrow> nat" where
  "valueTag JsUndefined = 0"
| "valueTag JsNull = 0"
| "valueTag (JsBool _) = 1"
| "valueTag (JsNum _) = 2"
| "valueTag (JsStr _) = 3"
| "valueTag (JsArr _) = 4"
| "valueTag (JsObj _) = 5"

lemma charTag_digit: "isDigit c \<Longrightarrow> charTag c = 2"
  by (auto simp: charTag_def isDigit_def)

lemma canonicalJson_head: "\<exists>c cs. canonicalJson v = c # cs \<and> charTag c = valueTag v"
proof (cases v)
  case (JsNum i)
  show ?thesis
  proof (cases "i < 0")
    case True
    with JsNum show ?thesis by (simp add: intStr_def charTag_def)
  next
    case False
    with JsNum natStr_head [of "nat i"] charTag_digit show ?thesis by (auto simp: intStr_def)
  qed
qed (auto simp: charTag_def jsonStr_def DQUOTE_def isDigit_def)

lemma same_tag: "canonicalJson v @ r = canonicalJson w @ s \<Longrightarrow> valueTag v = valueTag w"
  by (metis append_Cons canonicalJson_head list.inject)

lemma canonicalJson_no_close:
  "\<exists>c cs. canonicalJson v = c # cs \<and> c \<noteq> CHR '']'' \<and> c \<noteq> CHR ''}''"
proof -
  obtain c cs where c: "canonicalJson v = c # cs" "charTag c = valueTag v"
    using canonicalJson_head by blast
  have "charTag CHR '']'' = 6" "charTag CHR ''}'' = 6"
    by (simp_all add: charTag_def isDigit_def DQUOTE_def)
  moreover have "valueTag v \<noteq> 6" by (cases v) auto
  ultimately show ?thesis using c by metis
qed

lemma joined_prefix:
  assumes items: "\<And>x y u v. x \<in> set xs \<Longrightarrow> y \<in> set ys \<Longrightarrow> f x @ u = f y @ v \<Longrightarrow>
      delimited u \<Longrightarrow> delimited v \<Longrightarrow> x = y \<and> u = v"
    and heads: "\<And>x. x \<in> set xs \<union> set ys \<Longrightarrow> \<exists>c cs. f x = c # cs \<and> c \<noteq> close"
    and close: "close \<in> {CHR '']'', CHR ''}''}"
    and eq: "joinWith '','' (map f xs) @ close # r = joinWith '','' (map f ys) @ close # s"
  shows "xs = ys \<and> r = s"
  using items heads eq
proof (induction xs arbitrary: ys)
  case Nil
  then show ?case
    by (cases ys) (fastforce simp: joinWith_Cons split: if_splits)+
next
  case (Cons x xs)
  obtain y ys' where ys: "ys = y # ys'"
    using Cons.prems(2) [of x] Cons.prems(3) by (cases ys) (auto simp: joinWith_Cons split: if_splits)
  let ?rest = "\<lambda>zs t. (if zs = [] then [] else '','' @ joinWith '','' (map f zs)) @ close # t"
  have "f x @ ?rest xs r = f y @ ?rest ys' s"
    using Cons.prems(3) ys by (auto simp: joinWith_Cons split: if_splits)
  moreover have "delimited (?rest zs t)" for zs t
    using close by (auto simp: delimited_def)
  ultimately have "x = y" and rest: "?rest xs r = ?rest ys' s"
    using Cons.prems(1) [of x y] ys by (metis list.set_intros(1))+
  have tl_eq: "joinWith '','' (map f xs) @ close # r = joinWith '','' (map f ys') @ close # s"
    using rest close by (auto split: if_splits)
  have "xs = ys' \<and> r = s"
    by (rule Cons.IH [OF _ _ tl_eq]) (use Cons.prems(1,2) ys in auto)
  with \<open>x = y\<close> ys show ?case by simp
qed

lemma canonicalJson_prefix:
  "normalValue v \<Longrightarrow> normalValue w \<Longrightarrow> canonicalJson v @ r = canonicalJson w @ s \<Longrightarrow>
    delimited r \<Longrightarrow> delimited s \<Longrightarrow> v = w \<and> r = s"
proof (induction v arbitrary: w r s)
  case JsUndefined
  then show ?case by simp
next
  case JsNull
  with same_tag [OF JsNull(3)] show ?case by (cases w) auto
next
  case (JsBool b)
  with same_tag [OF JsBool(3)] show ?case by (cases w) (auto split: if_splits)
next
  case (JsNum i)
  then obtain j where "w = JsNum j"
    using same_tag [OF JsNum.prems(3)] by (cases w) auto
  with JsNum.prems intStr_prefix [of i r j s] show ?case by simp
next
  case (JsStr a)
  then obtain b where "w = JsStr b"
    using same_tag [OF JsStr.prems(3)] by (cases w) auto
  with JsStr.prems jsonStr_prefix [of a r b s] show ?case by simp
next
  case (JsArr vs)
  then obtain ws where w: "w = JsArr ws"
    using same_tag [OF JsArr.prems(3)] by (cases w) auto
  have "vs = ws \<and> r = s"
  proof (rule joined_prefix [where f = canonicalJson and close = "CHR '']''"])
    show "x = y \<and> u = v" if "x \<in> set vs" "y \<in> set ws" "canonicalJson x @ u = canonicalJson y @ v"
      "delimited u" "delimited v" for x y u v
      using that JsArr.IH JsArr.prems(1,2) w by (auto simp: list_all_iff)
    show "\<exists>c cs. canonicalJson x = c # cs \<and> c \<noteq> CHR '']''" for x
      using canonicalJson_no_close [of x] by blast
    show "joinWith '','' (map canonicalJson vs) @ CHR '']'' # r
        = joinWith '','' (map canonicalJson ws) @ CHR '']'' # s"
      using JsArr.prems(3) w by simp
  qed simp
  with w show ?case by simp
next
  case (JsObj es)
  then obtain fs where w: "w = JsObj fs"
    using same_tag [OF JsObj.prems(3)] by (cases w) auto
  let ?f = "\<lambda>(k, v). jsonStr k @ '':'' @ canonicalJson v"
  have "es = fs \<and> r = s"
  proof (rule joined_prefix [where f = ?f and close = "CHR ''}''"])
    show "x = y \<and> u = v" if "x \<in> set es" "y \<in> set fs" "?f x @ u = ?f y @ v"
      "delimited u" "delimited v" for x y u v
    proof -
      obtain k a l b where xy: "x = (k, a)" "y = (l, b)" by (cases x; cases y)
      with that(3) have "jsonStr k @ (CHR '':'' # canonicalJson a @ u)
          = jsonStr l @ (CHR '':'' # canonicalJson b @ v)" by simp
      from jsonStr_prefix [OF this]
      have "k = l" and eq: "canonicalJson a @ u = canonicalJson b @ v" by auto
      have "normalValue a" "normalValue b"
        using that(1,2) JsObj.prems(1,2) w xy by (auto simp: list_all_iff)
      from JsObj.IH [of x a, OF _ _ this eq that(4,5)] that(1) xy \<open>k = l\<close>
      show ?thesis by simp
    qed
    show "\<exists>c cs. ?f x = c # cs \<and> c \<noteq> CHR ''}''" for x
      by (cases x) (simp add: jsonStr_def DQUOTE_def)
    show "joinWith '','' (map ?f es) @ CHR ''}'' # r = joinWith '','' (map ?f fs) @ CHR ''}'' # s"
      using JsObj.prems(3) normalValue_obj [OF JsObj.prems(1)] normalValue_obj [of fs]
        JsObj.prems(2) w by simp
  qed simp
  with w show ?case by simp
qed

subsection \<open>Actions\<close>

text \<open>The entries of an action's object in key order, as the canonical text prints them.\<close>

definition sortedEntries :: "normalizedAction \<Rightarrow> (string \<times> jsValue) list" where
  "sortedEntries a = (case actionValue a of JsObj es \<Rightarrow> sort_key fst es | _ \<Rightarrow> [])"

lemma canonicalJson_sort:
  assumes "list_all (\<lambda>(k, v). v \<noteq> JsUndefined) es"
  shows "canonicalJson (JsObj (sort_key fst es)) = canonicalJson (JsObj es)"
proof -
  have filt: "filter (\<lambda>(k, v). v \<noteq> JsUndefined) xs = xs" if "set xs = set es" for xs
    using assms that by (auto simp: filter_id_conv list_all_iff)
  have "sort_key fst (map (\<lambda>(k, v). (k, canonicalJson v)) (sort_key fst es))
      = sort_key fst (map (\<lambda>(k, v). (k, canonicalJson v)) es)"
  proof -
    have m: "sort_key fst (map (\<lambda>(k, v). (k, canonicalJson v)) xs)
        = map (\<lambda>(k, v). (k, canonicalJson v)) (sort_key fst xs)" for xs
    proof -
      have ins: "insort_key fst (case x of (k, v) \<Rightarrow> (k, canonicalJson v))
          (map (\<lambda>(k, v). (k, canonicalJson v)) ys)
          = map (\<lambda>(k, v). (k, canonicalJson v)) (insort_key fst x ys)" for x ys
        by (induction ys) (auto split: prod.splits)
      show ?thesis by (induction xs) (simp_all add: ins)
    qed
    show ?thesis by (simp add: m sort_key_id_if_sorted)
  qed
  then show ?thesis by (simp add: filt)
qed

lemma actionValue_sorted: "canonicalJson (actionValue a) = canonicalJson (JsObj (sortedEntries a))"
proof -
  obtain es where es: "actionValue a = JsObj es" "list_all (\<lambda>(k, v). v \<noteq> JsUndefined) es"
    by (cases a) simp_all
  with canonicalJson_sort [of es] show ?thesis by (simp add: sortedEntries_def)
qed

lemma sortedEntries_normal: "normalValue (JsObj (sortedEntries a))"
proof -
  obtain es where es: "actionValue a = JsObj es" "list_all (\<lambda>(k, v). normalValue v) es"
    by (cases a) (simp_all add: list_all_iff)
  then show ?thesis by (simp add: sortedEntries_def list_all_iff)
qed

definition fieldOf :: "normalizedAction \<Rightarrow> string \<Rightarrow> jsValue option" where
  "fieldOf a k = (case actionValue a of JsObj es \<Rightarrow> map_of es k | _ \<Rightarrow> None)"

lemma gitReadName_inject: "gitReadName m = gitReadName n \<Longrightarrow> m = n"
  by (cases m; cases n) simp_all

lemma map_JsStr_inject: "map JsStr xs = map JsStr ys \<Longrightarrow> xs = ys"
  by (metis injI jsValue.inject(3) map_injective)

lemma kindName_inject: "kindName m = kindName n \<Longrightarrow> m = n"
  by (cases m; cases n) simp_all

lemma fieldOf_kind: "fieldOf a ''kind'' = Some (JsStr (kindName (actKind a)))"
  by (cases a) (simp_all add: fieldOf_def)

lemma fieldOf_inject:
  assumes "fieldOf a = fieldOf b"
  shows "a = b"
proof -
  have look: "fieldOf a k = fieldOf b k" for k using assms by simp
  have kind: "actKind a = actKind b"
    using look [of "''kind''"] kindName_inject by (simp add: fieldOf_kind)
  show ?thesis
  proof (cases a)
    case (FileRead p)
    with kind look [of "''path''"] show ?thesis by (cases b) (simp_all add: fieldOf_def)
  next
    case (FileWrite p x d)
    with kind look [of "''path''"] look [of "''createsExecutable''"] look [of "''contentDigest''"]
    show ?thesis by (cases b) (simp_all add: fieldOf_def)
  next
    case (FileEdit p x d)
    with kind look [of "''path''"] look [of "''createsExecutable''"] look [of "''editsDigest''"]
    show ?thesis by (cases b) (simp_all add: fieldOf_def)
  next
    case (Patch ps x d)
    with kind look [of "''paths''"] look [of "''createsExecutable''"] look [of "''patchDigest''"]
    show ?thesis by (cases b) (simp_all add: fieldOf_def map_JsStr_inject)
  next
    case (Shell c v w)
    with kind look [of "''command''"] look [of "''argv''"] look [of "''cwd''"]
    show ?thesis by (cases b) (simp_all add: fieldOf_def map_JsStr_inject)
  next
    case (GitRead r m)
    with kind look [of "''repoRoot''"] look [of "''operation''"]
    show ?thesis by (cases b) (simp_all add: fieldOf_def gitReadName_inject)
  next
    case (GitWrite r m d v)
    with kind look [of "''repoRoot''"] look [of "''operation''"] look [of "''destructive''"]
      look [of "''argv''"]
    show ?thesis by (cases b) (simp_all add: fieldOf_def map_JsStr_inject)
  next
    case (Network m u h n s)
    with kind look [of "''method''"] look [of "''url''"] look [of "''host''"] look [of "''port''"]
      look [of "''scheme''"]
    show ?thesis by (cases b) (simp_all add: fieldOf_def)
  next
    case (Mcp s n x d)
    with kind look [of "''server''"] look [of "''tool''"] look [of "''sideEffect''"]
      look [of "''argumentsDigest''"]
    show ?thesis by (cases b) (simp_all add: fieldOf_def)
  qed
qed

lemma sortedEntries_inject:
  assumes "sortedEntries a = sortedEntries b"
  shows "a = b"
proof -
  obtain es fs where ab: "actionValue a = JsObj es" "actionValue b = JsObj fs"
    by (cases a; cases b) simp_all
  have dist: "distinct (map fst (case actionValue x of JsObj xs \<Rightarrow> xs | _ \<Rightarrow> []))" for x
    by (cases x) simp_all
  have "sort_key fst es = sort_key fst fs"
    using assms ab by (simp add: sortedEntries_def)
  then have "set es = set fs" by (metis set_sort)
  then have "map_of es = map_of fs"
    using dist [of a] dist [of b] ab by (simp add: map_of_inject_set)
  then show ?thesis
    using ab by (intro fieldOf_inject) (simp add: fieldOf_def fun_eq_iff)
qed

theorem canonicalJson_action_inject:
  assumes "canonicalJson (actionValue a) = canonicalJson (actionValue b)"
  shows "a = b"
proof -
  have "JsObj (sortedEntries a) = JsObj (sortedEntries b)"
    using canonicalJson_prefix [OF sortedEntries_normal sortedEntries_normal, of a "[]" b "[]"] assms
    by (simp add: delimited_def del: canonicalJson.simps flip: actionValue_sorted)
  then show ?thesis by (simp add: sortedEntries_inject)
qed

end
