(* ===== verification/Policy_Theorems.thy ===== *)
theory Policy_Theorems
  imports Policy_Guarantees Policy_Digest
begin

text \<open>
  The properties of the permission engine, with a concrete instance of each. They rest on the
  specification \<^verbatim>\<open>specEffect\<close> of \<^verbatim>\<open>Policy_Guarantees\<close>, on the injectivity of the canonical
  printing (\<^verbatim>\<open>Policy_Digest\<close>) and on the interpretation \<^verbatim>\<open>ceiling\<close> of \<^verbatim>\<open>Policy_Authority\<close>.
\<close>

subsection \<open>Sample data\<close>

definition samplePlatform :: platform where
  "samplePlatform = \<lparr>sha256hex = (\<lambda>s. s), nfc = (\<lambda>s. s)\<rparr>"

definition sampleContext :: policyContext where
  "sampleContext = \<lparr>cxProfile = P_ask, cxManagedPolicy = NO_MANAGED_RESTRICTIONS, cxRules = [],
     cxGrants = [], cxWorkspaceRoot = ''/w'', cxHomeDir = ''/h'', cxNow = 10,
     cxActor = \<lparr>actorKind = A_model, actorId = ''m'', actorLabel = None\<rparr>, cxHookOutcome = None\<rparr>"

definition sampleShell :: normalizedAction where
  "sampleShell = Shell ''ls'' [''ls''] ''/w''"

definition shellMatcher :: actionMatcher where
  "shellMatcher = emptyMatcher\<lparr>amKinds := Some [K_shell]\<rparr>"

definition sampleRule :: "ruleScope \<Rightarrow> outcome \<Rightarrow> policyRule" where
  "sampleRule sc e = \<lparr>ruleId = ''r'', ruleScope = sc, ruleEffect = e, ruleMatch = shellMatcher,
     ruleReason = []\<rparr>"

definition sampleManaged :: managedPolicy where
  "sampleManaged = NO_MANAGED_RESTRICTIONS\<lparr>mpRules :=
     [\<lparr>mrId = ''m'', mrEffect = M_deny, mrMatch = shellMatcher, mrReason = []\<rparr>]\<rparr>"

lemma shellMatcher_matches [simp]: "matchesAction shellMatcher a h d \<longleftrightarrow> actKind a = K_shell"
  by (simp add: matchesAction_def shellMatcher_def emptyMatcher_def isEmptyMatcher_def present_def)

lemma sampleShell_simps [simp]:
  "actKind sampleShell = K_shell" "isSideEffect sampleShell"
  "checkCanonicalAction samplePlatform sampleShell = []"
  by (simp_all add: sampleShell_def isSideEffect_def MUTATION_KINDS_def checkCanonicalAction_def
      checkPath_def samplePlatform_def startsWith_def endsWith_def)

subsection \<open>Small facts about effects\<close>

lemma outcomeEffect_Deny [simp]: "outcomeEffect o1 = Deny \<longleftrightarrow> o1 = Eff Deny"
  by (cases o1) auto

lemma evaluate_deny_iff: "pdOutcome (evaluate pf a ctx) = Eff Deny \<longleftrightarrow> specEffect pf a ctx = Deny"
  by (simp flip: outcomeEffect_Deny add: evaluate_spec)

lemma max_Allow_iff [simp]: "max (x::effect) y = Allow \<longleftrightarrow> x = Allow \<and> y = Allow"
  by (cases x; cases y) (auto simp: max_def)

text \<open>The parts of the context that the path tests read.\<close>

lemma protectedMatches_update [simp]:
  "protectedMatches a (ctx\<lparr>cxProfile := p\<rparr>) = protectedMatches a ctx"
  "protectedMatches a (ctx\<lparr>cxRules := rs\<rparr>) = protectedMatches a ctx"
  "protectedMatches a (ctx\<lparr>cxGrants := gs\<rparr>) = protectedMatches a ctx"
  "protectedMatches a (ctx\<lparr>cxHookOutcome := h\<rparr>) = protectedMatches a ctx"
  "protectedMatches a (ctx\<lparr>cxManagedPolicy := m\<rparr>) = protectedMatches a ctx"
  by (cases a; simp add: protectedMatches_def)+

lemma autoAcceptEditsAllows_update [simp]:
  "autoAcceptEditsAllows a (ctx\<lparr>cxProfile := p\<rparr>) = autoAcceptEditsAllows a ctx"
  "autoAcceptEditsAllows a (ctx\<lparr>cxRules := rs\<rparr>) = autoAcceptEditsAllows a ctx"
  "autoAcceptEditsAllows a (ctx\<lparr>cxGrants := gs\<rparr>) = autoAcceptEditsAllows a ctx"
  "autoAcceptEditsAllows a (ctx\<lparr>cxHookOutcome := h\<rparr>) = autoAcceptEditsAllows a ctx"
  "autoAcceptEditsAllows a (ctx\<lparr>cxManagedPolicy := m\<rparr>) = autoAcceptEditsAllows a ctx"
  by (cases a; simp add: autoAcceptEditsAllows_def)+

subsection \<open>The decision\<close>

text \<open>
  C2: The seven-stage pipeline of the engine computes, on every action and context, the effect that
  the abstract specification gives: a non-canonical action is denied; otherwise profile and
  protected paths fix a level, the merged rules and then a live grant move it, and the hook and the
  managed ceiling can only raise the result.
\<close>

theorem evaluate_refines_spec:
  "outcomeEffect (pdOutcome (evaluate pf a ctx)) = specEffect pf a ctx"
  by (rule evaluate_spec)

text \<open>
  C5: The managed ceiling has the last word: an action that a managed deny rule matches, or a network
  action while managed policy switches the network off, is denied whatever the profile, the rules,
  the grants, the hooks and the actor are.
\<close>

theorem managed_deny_dominates:
  assumes "(\<exists>r \<in> set (mpRules (cxManagedPolicy ctx)). mrEffect r = M_deny \<and>
              matchesAction (mrMatch r) a (cxHomeDir ctx) (actionDigest pf a)) \<or> networkOff a ctx"
  shows "pdOutcome (evaluate pf a ctx) = Eff Deny"
proof -
  have "managedFloor a ctx (actionDigest pf a) = Deny"
    using assms by (auto simp: managedFloor_def Let_def list_ex_iff)
  then show ?thesis by (simp add: evaluate_deny_iff specEffect_def)
qed

lemma managed_deny_dominates_witness:
  "pdOutcome (evaluate samplePlatform sampleShell
     (sampleContext\<lparr>cxProfile := P_yolo, cxManagedPolicy := sampleManaged\<rparr>)) = Eff Deny"
  by (rule managed_deny_dominates) (simp add: sampleManaged_def)

text \<open>
  C39: Under the plan profile the agent has no side effects: every side-effecting action of an actor
  other than the user is denied, and so is every access to a protected path, the user's included.
  No rule, grant or hook changes that.
\<close>

theorem plan_is_read_only:
  assumes "cxProfile ctx = P_plan"
    and "(actorKind (cxActor ctx) \<noteq> A_user \<and> isSideEffect a) \<or> protectedMatches a ctx \<noteq> []"
  shows "pdOutcome (evaluate pf a ctx) = Eff Deny"
proof -
  have "startLevel a ctx = L_deny" using assms by (auto simp: startLevel_def)
  moreover have "applyRules m L_deny = L_deny" for m
    by (cases m; cases "the m") (auto simp: max_def less_eq_level_def)
  ultimately have "grantedEffect pf a ctx = Deny" by (simp add: grantedEffect_def Let_def)
  then show ?thesis by (simp add: evaluate_deny_iff specEffect_def)
qed

lemma plan_is_read_only_witness:
  "pdOutcome (evaluate samplePlatform sampleShell
     (sampleContext\<lparr>cxProfile := P_plan, cxRules := [sampleRule SC_user (Eff Allow)]\<rparr>)) = Eff Deny"
  by (rule plan_is_read_only) (simp_all add: sampleContext_def)

lemma findGrantGo_spec:
  "glGrant (findGrantGo rej gs a d opts) =
     find (\<lambda>g. grantMatches g a (goHomeDir opts) d \<and> \<not> (goExactOnly opts \<and> grantScope g = GS_rule) \<and>
               isGrantLive g (goNow opts) = None) gs"
  by (induction gs arbitrary: rej) (auto split: option.splits)

lemma findGrant_spec:
  "glGrant (findGrant gs a d opts) =
     find (\<lambda>g. grantMatches g a (goHomeDir opts) d \<and> \<not> (goExactOnly opts \<and> grantScope g = GS_rule) \<and>
               isGrantLive g (goNow opts) = None) gs"
  by (simp add: findGrant_def findGrantGo_spec)

lemma find_not_None_iff: "(\<exists>y. find P xs = Some y) \<longleftrightarrow> (\<exists>x\<in>set xs. P x)"
  by (metis find_None_iff_ball not_None_eq)

lemma anyGrant_iff:
  "anyGrant a ctx d \<longleftrightarrow>
     (\<exists>g \<in> set (cxGrants ctx). grantMatches g a (cxHomeDir ctx) d \<and> isGrantLive g (cxNow ctx) = None)"
  by (simp add: anyGrant_def findGrant_spec find_not_None_iff)

lemma exactGrant_iff:
  "exactGrant a ctx d \<longleftrightarrow>
     (\<exists>g \<in> set (cxGrants ctx). grantMatches g a (cxHomeDir ctx) d \<and> grantScope g \<noteq> GS_rule \<and>
        isGrantLive g (cxNow ctx) = None)"
  by (simp add: exactGrant_def findGrant_spec find_not_None_iff)

lemma applyGrants_Allow:
  "applyGrants any exact (applyRules m l) = Allow \<longleftrightarrow>
     (l = L_allow \<and> m \<noteq> Some Ask \<and> m \<noteq> Some Deny) \<or> (l = L_ask \<and> m = Some Allow) \<or>
     (any \<and> m \<noteq> Some Deny \<and> (l = L_ask \<or> (l = L_allow \<and> m = Some Ask))) \<or>
     (exact \<and> l = L_exact \<and> m \<noteq> Some Deny)"
  by (cases m; cases "the m"; cases l) (auto simp: max_def less_eq_level_def)

text \<open>
  C6: Authority has a source. When the engine lets an agent (any actor but the user) perform a side
  effect, the action is canonical, the profile is not plan, and one of these holds: the profile is
  yolo; the profile is auto-accept-edits, the action passes its test and touches nothing protected;
  an allow rule of a scope that may allow (never the project's) matches and nothing protected is
  touched; or a live grant matches, which for a protected path is a grant for the exact digest.
\<close>

theorem agent_allow_has_authority:
  assumes "outcomeEffect (pdOutcome (evaluate pf a ctx)) = Allow"
    and "actorKind (cxActor ctx) \<noteq> A_user" and "isSideEffect a"
  shows "checkCanonicalAction pf a = [] \<and> cxProfile ctx \<noteq> P_plan \<and>
    (cxProfile ctx = P_yolo \<or>
     (cxProfile ctx = P_auto_accept_edits \<and> autoAcceptEditsAllows a ctx = None \<and>
        protectedMatches a ctx = []) \<or>
     ((\<exists>rule \<in> set (cxRules ctx). ruleEffect rule = Eff Allow \<and> mayAllow (ruleScope rule) \<and>
         matchesAction (ruleMatch rule) a (cxHomeDir ctx) (actionDigest pf a)) \<and>
        protectedMatches a ctx = []) \<or>
     (\<exists>g \<in> set (cxGrants ctx). grantMatches g a (cxHomeDir ctx) (actionDigest pf a) \<and>
        isGrantLive g (cxNow ctx) = None \<and>
        (protectedMatches a ctx = [] \<or> grantScope g \<noteq> GS_rule)))"
proof -
  let ?d = "actionDigest pf a"
  have canon: "checkCanonicalAction pf a = []" and granted: "grantedEffect pf a ctx = Allow"
    using assms(1) by (auto simp: evaluate_spec specEffect_def split: if_splits)
  let ?m = "mergeEffect (mergeRules (cxRules ctx) a (cxHomeDir ctx) ?d)"
  have cases: "(startLevel a ctx = L_allow) \<or> (startLevel a ctx = L_ask \<and> ?m = Some Allow) \<or>
      (anyGrant a ctx ?d \<and> startLevel a ctx = L_ask) \<or>
      (exactGrant a ctx ?d \<and> startLevel a ctx = L_exact)"
    using granted by (auto simp: grantedEffect_def Let_def applyGrants_Allow)
  have lvl: "startLevel a ctx = L_ask \<Longrightarrow> protectedMatches a ctx = [] \<and> cxProfile ctx \<noteq> P_plan"
    "startLevel a ctx = L_exact \<Longrightarrow> cxProfile ctx \<noteq> P_plan"
    "startLevel a ctx = L_allow \<Longrightarrow> cxProfile ctx = P_yolo \<or> (cxProfile ctx = P_auto_accept_edits \<and>
       autoAcceptEditsAllows a ctx = None \<and> protectedMatches a ctx = [])"
    using assms(2,3) by (auto simp: startLevel_def split: permissionProfile.splits if_splits)
  from cases show ?thesis
  proof (elim disjE conjE)
    assume "startLevel a ctx = L_allow"
    with lvl(3) canon show ?thesis by auto
  next
    assume "startLevel a ctx = L_ask" "?m = Some Allow"
    with lvl(1) canon merge_allow show ?thesis by blast
  next
    assume "anyGrant a ctx ?d" "startLevel a ctx = L_ask"
    with lvl(1) canon anyGrant_iff show ?thesis by blast
  next
    assume "exactGrant a ctx ?d" "startLevel a ctx = L_exact"
    with lvl(2) canon exactGrant_iff show ?thesis by blast
  qed
qed

lemma sampleShell_unprotected [simp]:
  "protectedMatches sampleShell sampleContext = []"
proof -
  have "classifyPath ''/w'' Read \<lparr>plWorkspaceRoot = ''/w'', plHomeDir = ''/h''\<rparr> = []"
    by code_simp
  then show ?thesis
    by (simp add: protectedMatches_def sampleShell_def sampleContext_def)
qed

lemma sample_allowed:
  "outcomeEffect (pdOutcome (evaluate samplePlatform sampleShell
     (sampleContext\<lparr>cxProfile := P_ask, cxRules := [sampleRule SC_user (Eff Allow)],
        cxGrants := []\<rparr>))) = Allow"
proof -
  let ?ctx = "sampleContext\<lparr>cxProfile := P_ask, cxRules := [sampleRule SC_user (Eff Allow)],
        cxGrants := []\<rparr>"
  have "startLevel sampleShell ?ctx = L_ask"
    by (simp add: startLevel_def) (simp add: sampleContext_def)
  moreover have "mergeEffect (mergeRules (cxRules ?ctx) sampleShell h d) = Some Allow" for h d
    by (simp add: mergeRules_def sampleRule_def mayAllow_def SCOPES_THAT_MAY_ALLOW_def
        betterMatch_def)
  moreover have "hookFloor ?ctx = Allow" "managedFloor sampleShell ?ctx d = Allow" for d
    by (simp_all add: hookFloor_def managedFloor_def sampleContext_def networkOff_def
        NO_MANAGED_RESTRICTIONS_def)
  ultimately show ?thesis
    by (simp add: evaluate_spec specEffect_def grantedEffect_def Let_def)
qed

lemma agent_allow_has_authority_witness:
  "\<exists>rule \<in> set (cxRules (sampleContext\<lparr>cxProfile := P_ask,
       cxRules := [sampleRule SC_user (Eff Allow)], cxGrants := []\<rparr>)). mayAllow (ruleScope rule)"
  using agent_allow_has_authority [OF sample_allowed] by (simp add: sampleContext_def)

lemma joinEffect_project:
  assumes "ruleScope r = SC_project"
  shows "map rmEffect (ruleMatches [r] a h d) \<in> {[], [Passthrough], [Eff Ask], [Eff Deny]}"
proof (cases "ruleEffect r")
  case (Eff e)
  with assms show ?thesis
    by (cases e) (auto simp: mayAllow_def SCOPES_THAT_MAY_ALLOW_def)
qed (use assms in auto)

lemma grantedEffect_rule_mono:
  assumes "applyRules (mergeEffect (mergeRules rs a (cxHomeDir ctx) (actionDigest pf a))) (startLevel a ctx)
     \<le> applyRules (mergeEffect (mergeRules rs' a (cxHomeDir ctx) (actionDigest pf a))) (startLevel a ctx)"
  shows "specEffect pf a (ctx\<lparr>cxRules := rs\<rparr>) \<le> specEffect pf a (ctx\<lparr>cxRules := rs'\<rparr>)"
proof -
  have same: "startLevel a (ctx\<lparr>cxRules := x\<rparr>) = startLevel a ctx"
    "hookFloor (ctx\<lparr>cxRules := x\<rparr>) = hookFloor ctx"
    "managedFloor a (ctx\<lparr>cxRules := x\<rparr>) d = managedFloor a ctx d"
    "anyGrant a (ctx\<lparr>cxRules := x\<rparr>) d = anyGrant a ctx d"
    "exactGrant a (ctx\<lparr>cxRules := x\<rparr>) d = exactGrant a ctx d" for x d
    by (auto simp: startLevel_def hookFloor_def managedFloor_def networkOff_def anyGrant_def exactGrant_def)
  have exact: "exactGrant a ctx d \<Longrightarrow> anyGrant a ctx d" for d
    by (auto simp: exactGrant_iff anyGrant_iff)
  from applyGrants_mono [OF assms exact] show ?thesis
    by (simp add: specEffect_def same grantedEffect_def Let_def max.coboundedI1 max.coboundedI2)
qed

text \<open>
  Repository content cannot add authority: whatever a project-scoped rule says and wherever it
  stands in the list, the decision with it is at least as restrictive as the decision without it.
\<close>

theorem project_rule_never_loosens:
  assumes "ruleScope r = SC_project"
  shows "outcomeEffect (pdOutcome (evaluate pf a (ctx\<lparr>cxRules := xs @ ys\<rparr>)))
         \<le> outcomeEffect (pdOutcome (evaluate pf a (ctx\<lparr>cxRules := xs @ r # ys\<rparr>)))"
  unfolding evaluate_spec
proof (rule grantedEffect_rule_mono)
  let ?m = "\<lambda>rs. mergeEffect (mergeRules rs a (cxHomeDir ctx) (actionDigest pf a))"
  obtain x where "x \<noteq> Eff Allow" "?m (xs @ r # ys) = joinEffect (?m (xs @ ys)) x"
    using joinEffect_project [OF assms, of a "cxHomeDir ctx" "actionDigest pf a"]
    by (fastforce simp: mergeEffect_insert [of xs r ys] simp del: ruleMatches.simps
        intro: that [of Passthrough])
  then show "applyRules (?m (xs @ ys)) (startLevel a ctx) \<le> applyRules (?m (xs @ r # ys)) (startLevel a ctx)"
    by (simp add: applyRules_join)
qed

lemma project_rule_never_loosens_witness:
  "outcomeEffect (pdOutcome (evaluate samplePlatform sampleShell (sampleContext\<lparr>cxRules := [] @ []\<rparr>)))
   \<le> outcomeEffect (pdOutcome (evaluate samplePlatform sampleShell
        (sampleContext\<lparr>cxRules := [] @ sampleRule SC_project (Eff Allow) # []\<rparr>)))"
  by (rule project_rule_never_loosens) (simp add: sampleRule_def)

text \<open>
  The profiles are ordered: on the same action and context, a profile of lower rank (plan, ask,
  auto-accept-edits, yolo in this order) never decides more permissively than one of higher rank,
  with all rules, grants, hooks and the managed ceiling in play.
\<close>

theorem lower_profile_never_looser:
  assumes "PROFILE_RANK p \<le> PROFILE_RANK q"
  shows "outcomeEffect (pdOutcome (evaluate pf a (ctx\<lparr>cxProfile := q\<rparr>)))
         \<le> outcomeEffect (pdOutcome (evaluate pf a (ctx\<lparr>cxProfile := p\<rparr>)))"
proof -
  have same: "hookFloor (ctx\<lparr>cxProfile := x\<rparr>) = hookFloor ctx"
    "managedFloor a (ctx\<lparr>cxProfile := x\<rparr>) d = managedFloor a ctx d"
    "anyGrant a (ctx\<lparr>cxProfile := x\<rparr>) d = anyGrant a ctx d"
    "exactGrant a (ctx\<lparr>cxProfile := x\<rparr>) d = exactGrant a ctx d" for x d
    by (simp_all add: hookFloor_def managedFloor_def networkOff_def anyGrant_def exactGrant_def)
  have start: "startLevel a (ctx\<lparr>cxProfile := q\<rparr>) \<le> startLevel a (ctx\<lparr>cxProfile := p\<rparr>)"
    using assms by (cases p; cases q) (auto simp: startLevel_def less_eq_level_def)
  have exact: "exactGrant a ctx d \<Longrightarrow> anyGrant a ctx d" for d
    by (auto simp: exactGrant_iff anyGrant_iff)
  from applyGrants_mono [OF applyRules_mono [OF start] exact] show ?thesis
    by (simp add: evaluate_spec specEffect_def same grantedEffect_def Let_def
        max.coboundedI1 max.coboundedI2)
qed

lemma lower_profile_never_looser_witness:
  "outcomeEffect (pdOutcome (evaluate samplePlatform sampleShell (sampleContext\<lparr>cxProfile := P_yolo\<rparr>)))
   \<le> outcomeEffect (pdOutcome (evaluate samplePlatform sampleShell (sampleContext\<lparr>cxProfile := P_ask\<rparr>)))"
  by (rule lower_profile_never_looser) simp

text \<open>
  A hook can restrict and never elevate: the decision with a hook outcome is exactly the more
  restrictive of the decision without it and the hook's outcome, an allow or a passthrough of the
  hook counting as nothing.
\<close>

theorem hook_only_restricts:
  "outcomeEffect (pdOutcome (evaluate pf a (ctx\<lparr>cxHookOutcome := Some h\<rparr>))) =
     max (outcomeEffect (pdOutcome (evaluate pf a (ctx\<lparr>cxHookOutcome := None\<rparr>)))) (outcomeEffect h)"
proof -
  have same: "startLevel a (ctx\<lparr>cxHookOutcome := x\<rparr>) = startLevel a ctx"
    "managedFloor a (ctx\<lparr>cxHookOutcome := x\<rparr>) d = managedFloor a ctx d"
    "anyGrant a (ctx\<lparr>cxHookOutcome := x\<rparr>) d = anyGrant a ctx d"
    "exactGrant a (ctx\<lparr>cxHookOutcome := x\<rparr>) d = exactGrant a ctx d" for x d
    by (auto simp: startLevel_def managedFloor_def networkOff_def anyGrant_def exactGrant_def)
  have "hookFloor (ctx\<lparr>cxHookOutcome := Some h\<rparr>) = outcomeEffect h"
    "hookFloor (ctx\<lparr>cxHookOutcome := None\<rparr>) = Allow"
    by (cases h; simp add: hookFloor_def)+
  then show ?thesis
    by (simp add: evaluate_spec specEffect_def same grantedEffect_def Let_def max.assoc
        max.commute max.left_commute)
qed

end
