(* ===== verification/Policy_Exactness.thy ===== *)
theory Policy_Exactness
  imports Policy_Authority "HOL-Library.Sublist" Policy_Theorems
begin

text \<open>
  Canonical paths as lists of segments: what \<^verbatim>\<open>checkPath\<close> accepts, and what the lexical
  \<^verbatim>\<open>isWithin\<close> means on the paths it accepts.
\<close>

subsection \<open>Splitting at slashes\<close>

lemma last_splitChar: "last (splitChar c s) = [] \<longleftrightarrow> s = [] \<or> last s = c"
proof (induction s)
  case (Cons x s)
  obtain p ps where split: "splitChar c s = p # ps" using splitChar_not_Nil by (metis list.exhaust)
  have "s = []" if "ps = []" "p = []" using join_splitChar [of c s] split that by simp
  moreover have "last s \<noteq> c" if "ps = []" "s \<noteq> []"
    using join_splitChar [of c s] splitChar_no_sep [of p c s] split that last_in_set [of s] by auto
  ultimately show ?case using Cons split by auto
qed simp

lemma splitChar_hd_Nil: "splitChar c s = [] # ps \<and> ps \<noteq> [] \<longleftrightarrow> (\<exists>r. s = c # r \<and> ps = splitChar c r)"
  by (cases s) (auto split: list.splits)

lemma includes_double:
  "includesStr s [c, c] \<longleftrightarrow> [] \<in> set (butlast (tl (splitChar c s)))"
proof (induction s)
  case (Cons x s)
  obtain p ps where split: "splitChar c s = p # ps" by (cases "splitChar c s") auto
  have start: "startsWith s [c] \<longleftrightarrow> p = [] \<and> ps \<noteq> []"
    using splitChar_hd_Nil [of c s ps] split by (auto simp: startsWith_iff)
  have "startsWith (x # s) [c, c] \<longleftrightarrow> x = c \<and> startsWith s [c]"
    by (auto simp: startsWith_def)
  with Cons start split show ?case by auto
qed simp

lemma splitChar_append: "splitChar c (s @ c # t) = splitChar c s @ splitChar c t"
proof (induction s)
  case (Cons x s)
  obtain p ps where "splitChar c s = p # ps" by (cases "splitChar c s") auto
  with Cons show ?case by simp
qed simp

lemma joinWith_append:
  "xs \<noteq> [] \<Longrightarrow> ys \<noteq> [] \<Longrightarrow> joinWith sep (xs @ ys) = joinWith sep xs @ sep @ joinWith sep ys"
  by (induction xs) (auto simp: joinWith_Cons)

lemma includesStr_single: "includesStr s [c] \<longleftrightarrow> c \<in> set s"
  by (induction s) (auto simp: startsWith_def)

subsection \<open>Canonical paths\<close>

definition pathSegments :: "string \<Rightarrow> string list" where
  "pathSegments p = (if p = ''/'' then [] else tl (splitChar CHR ''/'' p))"

definition goodSegment :: "string \<Rightarrow> bool" where
  "goodSegment s \<longleftrightarrow> s \<noteq> [] \<and> s \<noteq> ''.'' \<and> s \<noteq> ''..'' \<and> CHR ''/'' \<notin> set s"

lemma slash_split: "startsWith p ''/'' \<longleftrightarrow> (\<exists>r. p = CHR ''/'' # r)"
  by (auto simp: startsWith_iff)

lemma pathSegments_Cons:
  "r \<noteq> [] \<Longrightarrow> pathSegments (CHR ''/'' # r) = splitChar CHR ''/'' r"
  by (simp add: pathSegments_def)

lemma list_last_butlast: "xs \<noteq> [] \<Longrightarrow> (\<forall>x \<in> set xs. P x) \<longleftrightarrow> P (last xs) \<and> (\<forall>x \<in> set (butlast xs). P x)"
  by (metis Un_iff append_butlast_last_id in_set_conv_decomp_last last_in_set set_append in_set_butlastD
      list.set_intros(1) set_ConsD empty_iff list.set(1))

text \<open>
  The canonicality check accepts exactly the absolute paths whose segments between slashes are all
  proper names (none is empty, \<^verbatim>\<open>.\<close> or \<^verbatim>\<open>..\<close>), that are NFC-normalized and hold no NUL; the
  root directory alone has no segment at all.
\<close>

theorem checkPath_accepts_iff:
  "checkPath pf p = None \<longleftrightarrow>
     startsWith p ''/'' \<and> list_all goodSegment (pathSegments p) \<and>
     nfc pf p = p \<and> CHR 0x00 \<notin> set p"
proof (cases "\<exists>r. p = CHR ''/'' # r \<and> r \<noteq> []")
  case False
  then have "p = ''/'' \<or> \<not> startsWith p ''/''" by (auto simp: slash_split)
  then show ?thesis
    by (auto simp: checkPath_def pathSegments_def includesStr_single startsWith_def)
next
  case True
  then obtain r where p: "p = CHR ''/'' # r" "r \<noteq> []" by blast
  let ?ss = "splitChar CHR ''/'' r"
  have double: "includesStr p ''//'' \<longleftrightarrow> [] \<in> set (butlast ?ss)"
    using includes_double [of p "CHR ''/''"] p by simp
  have trail: "endsWith p ''/'' \<longleftrightarrow> last ?ss = []"
    using p last_splitChar [of "CHR ''/''" r]
    by (metis append_butlast_last_id endsWith_snoc last_ConsR list.distinct(1))
  have "list_all goodSegment ?ss \<longleftrightarrow>
      [] \<notin> set ?ss \<and> ''.'' \<notin> set ?ss \<and> ''..'' \<notin> set ?ss"
    using splitChar_no_sep [of _ "CHR ''/''" r] by (auto simp: goodSegment_def list_all_iff)
  moreover have "[] \<notin> set ?ss \<longleftrightarrow> last ?ss \<noteq> [] \<and> [] \<notin> set (butlast ?ss)"
    using list_last_butlast [of ?ss "\<lambda>s. s \<noteq> []"] by auto
  moreover have "length p > 1" "length p \<noteq> 0" "startsWith p ''/''" "pathSegments p = ?ss"
    "splitChar CHR ''/'' p = [] # ?ss"
    using p by (simp_all add: pathSegments_Cons startsWith_def)
  ultimately show ?thesis
    unfolding checkPath_def Let_def double trail includesStr_single by simp
qed

lemma canonical_join:
  assumes "startsWith p ''/''"
  shows "p = ''/'' @ joinWith ''/'' (pathSegments p)"
proof (cases "p = ''/''")
  case False
  then obtain r where "p = CHR ''/'' # r" "r \<noteq> []" using assms by (auto simp: slash_split)
  then show ?thesis by (simp add: pathSegments_Cons join_splitChar)
qed (simp add: pathSegments_def)

text \<open>
  On canonical paths the lexical containment test is containment of directories: a path is within a
  root exactly when the root's segments are a prefix of the path's. A sibling whose name merely
  starts with the root's name is outside.
\<close>

theorem isWithin_segments:
  assumes "checkPath pf root = None" and "checkPath pf p = None"
  shows "isWithin root p \<longleftrightarrow> prefix (pathSegments root) (pathSegments p)"
proof (cases "root = ''/''")
  case True
  with assms(2) show ?thesis
    by (auto simp: pathSegments_def isWithin_def checkPath_accepts_iff endsWith_def)
next
  case False
  obtain r where r: "root = CHR ''/'' # r" "r \<noteq> []"
    using assms(1) False by (auto simp: checkPath_accepts_iff slash_split)
  have noslash: "\<not> endsWith root ''/''"
    using assms(1) r by (simp add: checkPath_def Let_def split: if_splits)
  have root: "startsWith root ''/''" and p: "startsWith p ''/''"
    using assms by (auto simp: checkPath_accepts_iff)
  have within: "isWithin root p \<longleftrightarrow> p = root \<or> (\<exists>t. p = root @ ''/'' @ t)"
    using noslash by (simp add: isWithin_iff)
  show ?thesis
  proof
    assume "isWithin root p"
    with within r show "prefix (pathSegments root) (pathSegments p)"
      by (auto simp: pathSegments_Cons splitChar_append)
  next
    assume "prefix (pathSegments root) (pathSegments p)"
    then obtain rest where rest: "pathSegments p = pathSegments root @ rest"
      by (auto simp: prefix_def)
    show "isWithin root p"
    proof (cases "rest = []")
      case True
      with rest root p show ?thesis by (metis append_Nil2 canonical_join isWithin_refl)
    next
      case False
      have "pathSegments root \<noteq> []" using r by (simp add: pathSegments_Cons)
      with False rest root p have "p = root @ ''/'' @ joinWith ''/'' rest"
        by (metis append.assoc canonical_join joinWith_append)
      with within show ?thesis by blast
    qed
  qed
qed

lemma isWithin_segments_witness:
  "isWithin ''/w'' ''/w/a'' \<longleftrightarrow> prefix (pathSegments ''/w'') (pathSegments ''/w/a'')"
  by (rule isWithin_segments [of "\<lparr>sha256hex = (\<lambda>s. s), nfc = (\<lambda>s. s)\<rparr>"])
    (simp_all add: checkPath_def startsWith_def endsWith_def)

section \<open>Exact grants and containment\<close>

text \<open>
  Properties of grants, protected stores, delegated authority and the managed ceiling.
\<close>

subsection \<open>Grants\<close>

text \<open>
  An exact grant authorises one action: if a grant that is not a rule grant matches two actions by
  their digests, and the hash does not collide on their two serializations, they are the same action.
  Every field counts: the canonical JSON of an action determines it.
\<close>

theorem exact_grant_names_one_action:
  assumes "inj_on (sha256hex pf) {canonicalJson (actionValue a), canonicalJson (actionValue b)}"
    and "grantScope g \<noteq> GS_rule"
    and "grantMatches g a h (actionDigest pf a)" and "grantMatches g b h' (actionDigest pf b)"
  shows "a = b"
proof -
  have "sha256hex pf (canonicalJson (actionValue a)) = sha256hex pf (canonicalJson (actionValue b))"
    using assms(2-) by (simp add: grantMatches_def actionDigest_def)
  from inj_onD [OF assms(1) this] have "canonicalJson (actionValue a) = canonicalJson (actionValue b)"
    by blast
  then show ?thesis by (rule canonicalJson_action_inject)
qed

definition sampleGrant :: "grantScope \<Rightarrow> string \<Rightarrow> grant" where
  "sampleGrant sc d = \<lparr>grantId = ''g'', grantScope = sc, grantDigest = Some d, grantMatch = None,
     grantedAt = 0, expiresAt = None, revokedAt = None, usedAt = None, grantedBy = ''u'',
     grantReason = []\<rparr>"

lemma exact_grant_names_one_action_witness: "sampleShell = Shell ''ls'' [''ls''] ''/w''"
proof (rule exact_grant_names_one_action [of samplePlatform _ _
      "sampleGrant GS_once (actionDigest samplePlatform sampleShell)" "[]" "[]"])
  show "inj_on (sha256hex samplePlatform) {canonicalJson (actionValue sampleShell),
      canonicalJson (actionValue (Shell ''ls'' [''ls''] ''/w''))}"
    by (simp add: samplePlatform_def inj_on_def del: canonicalJson.simps actionValue.simps)
qed (simp_all add: sampleGrant_def grantMatches_def flip: sampleShell_def)

text \<open>
  A spent grant stays spent. After a once-grant is consumed no lookup returns it again, for any
  action, digest, time or option; after a grant is revoked no lookup from the revocation time on
  returns it, whatever its scope.
\<close>

theorem spent_grant_is_dead:
  assumes "glGrant (findGrant (consumeGrant gs i t) a d opts) = Some g"
    and "glGrant (findGrant (revokeGrant gs j t) a d opts) = Some k" and "t \<le> goNow opts"
  shows "\<not> (grantId g = i \<and> grantScope g = GS_once) \<and> grantId k \<noteq> j"
proof -
  have g: "g \<in> set (consumeGrant gs i t)" "isGrantLive g (goNow opts) = None"
    using find_SomeD [OF assms(1)[unfolded findGrant_spec]] by auto
  from g(1) obtain x where "g = (if grantId x = i \<and> grantScope x = GS_once then x\<lparr>usedAt := Some t\<rparr> else x)"
    unfolding consumeGrant_def set_map image_iff by blast
  with g(2) have "\<not> (grantId g = i \<and> grantScope g = GS_once)"
    by (cases "grantId x = i \<and> grantScope x = GS_once") (simp_all add: isGrantLive_def split: if_splits)
  moreover have k: "k \<in> set (revokeGrant gs j t)" "isGrantLive k (goNow opts) = None"
    using find_SomeD [OF assms(2)[unfolded findGrant_spec]] by auto
  from k(1) obtain y where "k = (if grantId y = j then y\<lparr>revokedAt := Some t\<rparr> else y)"
    unfolding revokeGrant_def set_map image_iff by blast
  with k(2) assms(3) have "grantId k \<noteq> j"
    by (cases "grantId y = j") (simp_all add: isGrantLive_def split: if_splits)
  ultimately show ?thesis by blast
qed

lemma spent_grant_is_dead_witness:
  "\<not> (grantId (sampleGrant GS_session ''d'') = ''x'' \<and> grantScope (sampleGrant GS_session ''d'') = GS_once)
   \<and> grantId (sampleGrant GS_session ''d'') \<noteq> ''y''"
proof (rule spent_grant_is_dead)
  let ?gs = "[sampleGrant GS_session ''d'']"
  let ?opts = "\<lparr>goExactOnly = True, goNow = 5, goHomeDir = []\<rparr>"
  show "glGrant (findGrant (consumeGrant ?gs ''x'' 0) sampleShell ''d'' ?opts) =
      Some (sampleGrant GS_session ''d'')"
    by (simp add: findGrant_def consumeGrant_def sampleGrant_def grantMatches_def isGrantLive_def)
  show "glGrant (findGrant (revokeGrant ?gs ''y'' 0) sampleShell ''d'' ?opts) =
      Some (sampleGrant GS_session ''d'')"
    by (simp add: findGrant_def revokeGrant_def sampleGrant_def grantMatches_def isGrantLive_def)
qed simp

subsection \<open>Protected stores\<close>

lemma classifyPath_not_Nil:
  assumes "rule \<in> set PROTECTED_PATH_RULES" "access \<in> set (ppAppliesTo rule)"
    "\<not> ppWorkspaceExempt rule" "pattern \<in> set (ppPatterns rule)"
    "matchGlob (expandHome pattern (plHomeDir ctx)) path"
  shows "classifyPath path access ctx \<noteq> []"
proof -
  have "find (\<lambda>expanded. matchGlob expanded path)
      (map (\<lambda>pattern. expandHome pattern (plHomeDir ctx)) (ppPatterns rule)) \<noteq> None"
    using assms(4,5) by (auto simp: find_None_iff_ball simp del: not_None_eq)
  then obtain y where "find (\<lambda>expanded. matchGlob expanded path)
      (map (\<lambda>pattern. expandHome pattern (plHomeDir ctx)) (ppPatterns rule)) = Some y" by blast
  with assms(1-3) show ?thesis
    by (force simp: classifyPath_def Let_def List.map_filter_def filter_empty_conv)
qed

definition HOME_STORES :: "string list" where
  "HOME_STORES = [''.ssh'', ''.aws'', ''.config/gcloud'', ''.kube'', ''.gnupg'']"

lemma home_store_rule:
  assumes "dir \<in> set HOME_STORES"
  shows "\<exists>rule \<in> set PROTECTED_PATH_RULES. ppAppliesTo rule = RW \<and> \<not> ppWorkspaceExempt rule \<and>
           ''~/'' @ dir @ ''/**'' \<in> set (ppPatterns rule)"
  using assms unfolding HOME_STORES_def PROTECTED_PATH_RULES_def by auto

lemma home_store_protected:
  assumes "dir \<in> set HOME_STORES" "plainText (plHomeDir ctx)" "oneLine t"
    and "path = plHomeDir ctx @ ''/'' @ dir \<or> path = plHomeDir ctx @ ''/'' @ dir @ ''/'' @ t"
  shows "classifyPath path access ctx \<noteq> []"
proof -
  obtain rule where rule: "rule \<in> set PROTECTED_PATH_RULES" "ppAppliesTo rule = RW"
    "\<not> ppWorkspaceExempt rule" "''~/'' @ dir @ ''/**'' \<in> set (ppPatterns rule)"
    using home_store_rule [OF assms(1)] by blast
  have "plainText (plHomeDir ctx @ ''/'' @ dir)"
    using assms(1,2) by (auto simp: plainText_def HOME_STORES_def)
  from matchGlob_subtree [OF this, of path] assms(3,4)
  have "matchGlob (expandHome (''~/'' @ dir @ ''/**'') (plHomeDir ctx)) path"
    by (auto simp: expandHome_def startsWith_def)
  moreover have "access \<in> set (ppAppliesTo rule)"
    using rule(2) by (cases access) (simp_all add: RW_def)
  ultimately show ?thesis using rule classifyPath_not_Nil by blast
qed

text \<open>
  The credential stores in the home directory need an exact approval: outside yolo, an action other
  than a Git one that touches a store's directory or anything under it (on one line) is allowed
  only by a live grant for the exact digest of that action, whoever acts and whatever the rules say.
\<close>

theorem credential_store_needs_exact_grant:
  assumes "outcomeEffect (pdOutcome (evaluate pf a ctx)) = Allow" and "cxProfile ctx \<noteq> P_yolo"
    and "path \<in> set (actionPaths a)" and "actKind a \<noteq> K_git_read" and "actKind a \<noteq> K_git_write"
    and "dir \<in> set HOME_STORES" and "plainText (cxHomeDir ctx)" and "oneLine t"
    and "path = cxHomeDir ctx @ ''/'' @ dir \<or> path = cxHomeDir ctx @ ''/'' @ dir @ ''/'' @ t"
  shows "\<exists>g \<in> set (cxGrants ctx). grantScope g \<noteq> GS_rule \<and>
           grantDigest g = Some (actionDigest pf a) \<and> isGrantLive g (cxNow ctx) = None"
proof -
  let ?pl = "\<lparr>plWorkspaceRoot = cxWorkspaceRoot ctx, plHomeDir = cxHomeDir ctx\<rparr>"
  have "classifyPath path access ?pl \<noteq> []" for access
    using home_store_protected [of dir ?pl t path access] assms by simp
  then have "protectedMatches a ctx \<noteq> []"
    using assms(3-5) by (cases a) (auto simp: protectedMatches_def Let_def)
  then have start: "startLevel a ctx = L_exact \<or> startLevel a ctx = L_deny"
    using assms(2) by (auto simp: startLevel_def split: permissionProfile.splits)
  have "grantedEffect pf a ctx = Allow"
    using assms(1) by (auto simp: evaluate_spec specEffect_def split: if_splits)
  with start have "exactGrant a ctx (actionDigest pf a)"
    by (auto simp: grantedEffect_def Let_def applyGrants_Allow)
  then show ?thesis by (auto simp: exactGrant_iff grantMatches_def)
qed

definition sampleStoreRead :: normalizedAction where
  "sampleStoreRead = FileRead ''/h/.ssh/id''"

definition sampleStoreContext :: policyContext where
  "sampleStoreContext = sampleContext\<lparr>cxGrants :=
     [sampleGrant GS_once (actionDigest samplePlatform sampleStoreRead)]\<rparr>"

lemma sampleStore_allowed:
  "outcomeEffect (pdOutcome (evaluate samplePlatform sampleStoreRead sampleStoreContext)) = Allow"
proof -
  have "classifyPath ''/h/.ssh/id'' Read \<lparr>plWorkspaceRoot = ''/w'', plHomeDir = ''/h''\<rparr> \<noteq> []"
    by (rule home_store_protected [where dir = "''.ssh''" and t = "''id''"])
      (simp_all add: HOME_STORES_def plainText_def oneLine_def dotChar_def)
  then have "startLevel sampleStoreRead sampleStoreContext = L_exact"
    by (simp add: startLevel_def protectedMatches_def sampleStoreRead_def sampleStoreContext_def
        sampleContext_def)
  moreover have "exactGrant sampleStoreRead sampleStoreContext (actionDigest samplePlatform sampleStoreRead)"
    by (simp add: exactGrant_iff sampleStoreContext_def sampleGrant_def grantMatches_def
        isGrantLive_def)
  moreover have "checkCanonicalAction samplePlatform sampleStoreRead = []"
    by (simp add: checkCanonicalAction_def sampleStoreRead_def checkPath_def samplePlatform_def
        startsWith_def endsWith_def)
  moreover have "hookFloor sampleStoreContext = Allow" "managedFloor sampleStoreRead sampleStoreContext d = Allow"
    "mergeEffect (mergeRules (cxRules sampleStoreContext) sampleStoreRead h d) = None" for h d
    by (simp_all add: hookFloor_def managedFloor_def sampleStoreContext_def sampleContext_def
        networkOff_def NO_MANAGED_RESTRICTIONS_def mergeRules_def)
  ultimately show ?thesis
    by (simp add: evaluate_spec specEffect_def grantedEffect_def Let_def)
qed

lemma credential_store_needs_exact_grant_witness:
  "\<exists>g \<in> set (cxGrants sampleStoreContext). grantScope g \<noteq> GS_rule \<and>
     grantDigest g = Some (actionDigest samplePlatform sampleStoreRead) \<and>
     isGrantLive g (cxNow sampleStoreContext) = None"
  by (rule credential_store_needs_exact_grant [OF sampleStore_allowed,
        where path = "''/h/.ssh/id''" and dir = "''.ssh''" and t = "''id''"])
    (simp_all add: sampleStoreContext_def sampleContext_def sampleStoreRead_def HOME_STORES_def
      plainText_def oneLine_def dotChar_def)

subsection \<open>Delegation\<close>

lemma delegate_foldl: "ceiling.delegate m rs p = foldl (\<lambda>parent r. intersect r parent m) p rs"
  by (induction rs arbitrary: p) simp_all

lemma intersect_managed:
  "auProfile (intersect r p m) \<le> mpMaxProfile m \<and> auIsolation (intersect r p m) \<le> mpMaxIsolation m \<and>
   (auNetworkAllowed (intersect r p m) \<longrightarrow> mpNetworkAllowed m) \<and>
   auMaxChildDepth (intersect r p m) \<le> max 0 (auMaxChildDepth p - 1)"
  by (simp add: intersect_def Let_def leastProfile_min strictestIsolation_min min.coboundedI2)

lemma foldl_intersect_depth:
  "auMaxChildDepth (foldl (\<lambda>parent r. intersect r parent m) p rs)
     \<le> max 0 (auMaxChildDepth p - int (length rs))" if "0 \<le> auMaxChildDepth p"
  using that
proof (induction rs arbitrary: p)
  case (Cons r rs)
  have "0 \<le> auMaxChildDepth (intersect r p m)"
    using intersect_depthOk [of r p m] by (simp add: depthOk_def)
  from Cons.IH [OF this] intersect_managed [of r p m] show ?case
    by (auto simp: max_def split: if_splits)
qed simp

text \<open>
  Delegation never gains authority: along any chain of children, each asking for whatever it likes
  and capped by its parent and the managed policy, the last child is at most the first ceiling in
  every field (profile, isolation, network, roots, allow rules, grants, depth), within the managed
  maxima, and the depth budget falls by one for each generation until it is used up.
\<close>

theorem delegation_never_gains:
  assumes "depthOk p" and "rs \<noteq> []"
  shows "isAtMost (foldl (\<lambda>parent r. intersect r parent m) p rs) p \<and>
    auProfile (foldl (\<lambda>parent r. intersect r parent m) p rs) \<le> mpMaxProfile m \<and>
    auIsolation (foldl (\<lambda>parent r. intersect r parent m) p rs) \<le> mpMaxIsolation m \<and>
    (auNetworkAllowed (foldl (\<lambda>parent r. intersect r parent m) p rs) \<longrightarrow> mpNetworkAllowed m) \<and>
    auMaxChildDepth (foldl (\<lambda>parent r. intersect r parent m) p rs)
      \<le> max 0 (auMaxChildDepth p - int (length rs))"
proof -
  obtain qs q where "rs = qs @ [q]" using assms(2) by (metis rev_exhaust)
  then have last: "foldl (\<lambda>parent r. intersect r parent m) p rs =
      intersect q (foldl (\<lambda>parent r. intersect r parent m) p qs) m" by simp
  show ?thesis
    using ceiling.delegate_le [OF assms(1), of m rs] foldl_intersect_depth [of p m rs] assms(1)
      intersect_managed [of q "foldl (\<lambda>parent r. intersect r parent m) p qs" m]
    unfolding delegate_foldl depthOk_def by (auto simp: last)
qed

lemma delegation_never_gains_witness:
  "isAtMost (foldl (\<lambda>parent r. intersect r parent NO_MANAGED_RESTRICTIONS)
     (defaultAuthority P_ask ''/w'' NO_MANAGED_RESTRICTIONS)
     [defaultAuthority P_yolo ''/'' NO_MANAGED_RESTRICTIONS])
   (defaultAuthority P_ask ''/w'' NO_MANAGED_RESTRICTIONS)"
  by (rule conjunct1 [OF delegation_never_gains])
    (simp_all add: depthOk_def defaultAuthority_def NO_MANAGED_RESTRICTIONS_def Let_def)

subsection \<open>Two managed ceilings\<close>

lemma dedupRules_distinct:
  "distinct (map mrId rs) \<Longrightarrow> set (map mrId rs) \<inter> set seen = {} \<Longrightarrow> dedupRules seen rs = rs"
  by (induction rs arbitrary: seen) auto

lemma intersectManaged_rules:
  "distinct (map mrId (mpRules a @ mpRules b)) \<Longrightarrow>
    mpRules (intersectManaged a b) = mpRules a @ mpRules b"
  by (simp only: intersectManaged_def managedPolicy.simps dedupRules_distinct list.set Int_empty_right)

lemma managedFloor_intersect:
  assumes "distinct (map mrId (mpRules m @ mpRules n))"
  shows "managedFloor a (ctx\<lparr>cxManagedPolicy := intersectManaged m n\<rparr>) d =
    max (managedFloor a (ctx\<lparr>cxManagedPolicy := m\<rparr>) d) (managedFloor a (ctx\<lparr>cxManagedPolicy := n\<rparr>) d)"
proof -
  let ?F = "\<lambda>x. filter (\<lambda>r. matchesAction (mrMatch r) a (cxHomeDir ctx) d) (mpRules x)"
  let ?D = "\<lambda>x. networkOff a (ctx\<lparr>cxManagedPolicy := x\<rparr>) \<or> list_ex (\<lambda>r. mrEffect r = M_deny) (?F x)"
  have floor: "managedFloor a (ctx\<lparr>cxManagedPolicy := x\<rparr>) d =
      (if ?D x then Deny else if ?F x = [] then Allow else Ask)" for x
    by (simp add: managedFloor_def Let_def)
  have F: "?F (intersectManaged m n) = ?F m @ ?F n"
    by (simp add: intersectManaged_rules [OF assms])
  moreover have "networkOff a (ctx\<lparr>cxManagedPolicy := intersectManaged m n\<rparr>) \<longleftrightarrow>
      networkOff a (ctx\<lparr>cxManagedPolicy := m\<rparr>) \<or> networkOff a (ctx\<lparr>cxManagedPolicy := n\<rparr>)"
    by (auto simp: networkOff_def intersectManaged_def)
  ultimately have D: "?D (intersectManaged m n) \<longleftrightarrow> ?D m \<or> ?D n" by auto
  show ?thesis
    unfolding floor unfolding D unfolding F by (cases "?D m"; cases "?D n"; cases "?F m"; cases "?F n") simp_all
qed

text \<open>
  Two managed ceilings combine to the stricter one: when no rule id occurs twice, the decision under
  their intersection is the more restrictive of the decisions under each.
\<close>

theorem managed_intersection_is_join:
  assumes "distinct (map mrId (mpRules m @ mpRules n))"
  shows "outcomeEffect (pdOutcome (evaluate pf a (ctx\<lparr>cxManagedPolicy := intersectManaged m n\<rparr>))) =
     max (outcomeEffect (pdOutcome (evaluate pf a (ctx\<lparr>cxManagedPolicy := m\<rparr>))))
         (outcomeEffect (pdOutcome (evaluate pf a (ctx\<lparr>cxManagedPolicy := n\<rparr>))))"
proof -
  have same: "startLevel a (ctx\<lparr>cxManagedPolicy := x\<rparr>) = startLevel a ctx"
    "hookFloor (ctx\<lparr>cxManagedPolicy := x\<rparr>) = hookFloor ctx"
    "anyGrant a (ctx\<lparr>cxManagedPolicy := x\<rparr>) d = anyGrant a ctx d"
    "exactGrant a (ctx\<lparr>cxManagedPolicy := x\<rparr>) d = exactGrant a ctx d" for x d
    by (auto simp: startLevel_def hookFloor_def anyGrant_def exactGrant_def)
  show ?thesis
    by (simp add: evaluate_spec specEffect_def grantedEffect_def Let_def same
        managedFloor_intersect [OF assms] max.assoc max.commute max.left_commute)
qed

lemma managed_intersection_is_join_witness:
  "outcomeEffect (pdOutcome (evaluate samplePlatform sampleShell
      (sampleContext\<lparr>cxManagedPolicy := intersectManaged NO_MANAGED_RESTRICTIONS sampleManaged\<rparr>))) =
   max (outcomeEffect (pdOutcome (evaluate samplePlatform sampleShell
          (sampleContext\<lparr>cxManagedPolicy := NO_MANAGED_RESTRICTIONS\<rparr>))))
       (outcomeEffect (pdOutcome (evaluate samplePlatform sampleShell
          (sampleContext\<lparr>cxManagedPolicy := sampleManaged\<rparr>))))"
  by (rule managed_intersection_is_join)
    (simp add: NO_MANAGED_RESTRICTIONS_def sampleManaged_def)

text \<open>
  Without that condition a deny is lost: the second ceiling's rule is dropped when its id occurs in
  the first, even though the two rules say different things.
\<close>

lemma managed_intersection_drops_deny:
  "mpRules (intersectManaged
     (NO_MANAGED_RESTRICTIONS\<lparr>mpRules := [\<lparr>mrId = ''m'', mrEffect = M_ask, mrMatch = emptyMatcher, mrReason = []\<rparr>]\<rparr>)
     sampleManaged) =
   [\<lparr>mrId = ''m'', mrEffect = M_ask, mrMatch = emptyMatcher, mrReason = []\<rparr>]"
  by (simp add: intersectManaged_def sampleManaged_def)

end
