(* ===== verification/Task_Deps.thy ===== *)
theory Task_Deps
  imports Protocol_Domain
begin

text \<open>
  \<^verbatim>\<open>packages/tasks/src/state-machine.ts\<close>: the life cycle of a durable task as a table of
  transitions.
\<close>

datatype taskStatus =
    T_pending | T_blocked | T_claimed | T_in_progress | T_completed | T_released | T_deleted

fun statusName :: "taskStatus \<Rightarrow> string" where
  "statusName T_pending = ''pending''"
| "statusName T_blocked = ''blocked''"
| "statusName T_claimed = ''claimed''"
| "statusName T_in_progress = ''in-progress''"
| "statusName T_completed = ''completed''"
| "statusName T_released = ''released''"
| "statusName T_deleted = ''deleted''"

fun TASK_TRANSITIONS :: "taskStatus \<Rightarrow> taskStatus list" where
  "TASK_TRANSITIONS T_pending = [T_claimed, T_blocked, T_deleted]"
| "TASK_TRANSITIONS T_blocked = [T_pending, T_deleted]"
| "TASK_TRANSITIONS T_claimed = [T_in_progress, T_released, T_blocked, T_deleted]"
| "TASK_TRANSITIONS T_in_progress = [T_completed, T_released, T_blocked, T_deleted]"
| "TASK_TRANSITIONS T_completed = [T_deleted]"
| "TASK_TRANSITIONS T_released = [T_claimed, T_blocked, T_deleted]"
| "TASK_TRANSITIONS T_deleted = []"

definition taskCanTransition :: "taskStatus \<Rightarrow> taskStatus \<Rightarrow> bool" where
  [task_defs]: "taskCanTransition fr to \<longleftrightarrow> to \<in> set (TASK_TRANSITIONS fr)"

definition OWNED_STATUSES :: "taskStatus list" where
  [task_defs]: "OWNED_STATUSES = [T_claimed, T_in_progress]"

definition isOwned :: "taskStatus \<Rightarrow> bool" where
  [task_defs]: "isOwned s \<longleftrightarrow> s \<in> set OWNED_STATUSES"

definition CLAIMABLE_STATUSES :: "taskStatus list" where
  [task_defs]: "CLAIMABLE_STATUSES = [T_pending, T_released]"

definition isClaimable :: "taskStatus \<Rightarrow> bool" where
  [task_defs]: "isClaimable s \<longleftrightarrow> s \<in> set CLAIMABLE_STATUSES"

definition isTerminalTask :: "taskStatus \<Rightarrow> bool" where
  [task_defs]: "isTerminalTask s \<longleftrightarrow> s = T_deleted"

text \<open>Deletion is the one terminal state, and it is one step away from every other.\<close>

lemma task_terminal_iff: "isTerminalTask s \<longleftrightarrow> TASK_TRANSITIONS s = []"
  by (cases s) (simp_all add: isTerminalTask_def)

lemma task_delete_legal: "\<not> isTerminalTask s \<Longrightarrow> taskCanTransition s T_deleted"
  by (cases s) (simp_all add: task_defs)

lemma claimable_iff_can_claim: "isClaimable s \<longleftrightarrow> taskCanTransition s T_claimed"
  by (cases s) (simp_all add: task_defs)

lemma owned_iff_can_release: "isOwned s \<longleftrightarrow> taskCanTransition s T_released"
  by (cases s) (simp_all add: task_defs)

section \<open>Dependencies\<close>

text \<open>
  \<^verbatim>\<open>packages/tasks/src/dependencies.ts\<close>: reasoning about the dependency graph on plain edge
  lists. The search of \<^verbatim>\<open>reachable\<close> keeps the sources' stack (its top is the head of the
  list) and seen set; it is shown to decide the transitive closure of the edges.
\<close>

record depEdge =
  blockerId :: nat
  blockedId :: nat

definition edge :: "nat \<Rightarrow> nat \<Rightarrow> depEdge" where
  "edge b d = \<lparr>blockerId = b, blockedId = d\<rparr>"

definition blockersOf :: "depEdge list \<Rightarrow> nat \<Rightarrow> nat list" where
  "blockersOf edges i = map blockerId (filter (\<lambda>e. blockedId e = i) edges)"

definition blocksOf :: "depEdge list \<Rightarrow> nat \<Rightarrow> nat list" where
  "blocksOf edges i = map blockedId (filter (\<lambda>e. blockerId e = i) edges)"

text \<open>The adjacency map, built edge by edge.\<close>

definition addSuccessor :: "(nat \<rightharpoonup> nat list) \<Rightarrow> depEdge \<Rightarrow> (nat \<rightharpoonup> nat list)" where
  "addSuccessor adj e =
     adj(blockerId e \<mapsto> (case adj (blockerId e) of None \<Rightarrow> [] | Some l \<Rightarrow> l) @ [blockedId e])"

definition successors :: "depEdge list \<Rightarrow> (nat \<rightharpoonup> nat list)" where
  "successors edges = foldl addSuccessor Map.empty edges"

definition nextOf :: "depEdge list \<Rightarrow> nat \<Rightarrow> nat list" where
  "nextOf edges n = (case successors edges n of None \<Rightarrow> [] | Some l \<Rightarrow> l)"

definition edgeRel :: "depEdge list \<Rightarrow> (nat \<times> nat) set" where
  "edgeRel edges = (\<lambda>e. (blockerId e, blockedId e)) ` set edges"

lemma foldl_addSuccessor:
  "(case foldl addSuccessor adj edges n of None \<Rightarrow> [] | Some l \<Rightarrow> l) =
     (case adj n of None \<Rightarrow> [] | Some l \<Rightarrow> l) @ blocksOf edges n"
  by (induction edges arbitrary: adj)
    (auto simp: blocksOf_def addSuccessor_def split: option.splits)

lemma nextOf_blocksOf: "nextOf edges n = blocksOf edges n"
  using foldl_addSuccessor [of Map.empty edges n] by (simp add: nextOf_def successors_def)

lemma nextOf_edgeRel: "m \<in> set (nextOf edges n) \<longleftrightarrow> (n, m) \<in> edgeRel edges"
  by (auto simp: nextOf_blocksOf blocksOf_def edgeRel_def)

definition edgeNodes :: "depEdge list \<Rightarrow> nat set" where
  "edgeNodes edges = blockerId ` set edges \<union> blockedId ` set edges"

lemma nextOf_nodes: "set (nextOf edges n) \<subseteq> edgeNodes edges"
  by (auto simp: nextOf_blocksOf blocksOf_def edgeNodes_def)

lemma finite_edgeNodes [simp]: "finite (edgeNodes edges)"
  by (simp add: edgeNodes_def)

function reachGo :: "depEdge list \<Rightarrow> nat \<Rightarrow> nat list \<Rightarrow> nat list \<Rightarrow> bool" where
  "reachGo edges target seen [] = False"
| "reachGo edges target seen (node # stack) =
     (if node \<in> set seen then reachGo edges target seen stack
      else if target \<in> set (nextOf edges node) then True
      else reachGo edges target (node # seen) (rev (nextOf edges node) @ stack))"
  by pat_completeness auto
termination
proof (relation "measures [\<lambda>(edges, t, seen, stack). card ((edgeNodes edges \<union> set stack) - set seen),
    \<lambda>(edges, t, seen, stack). length stack]", goal_cases)
  case (2 edges target seen node stack)
  have "card (edgeNodes edges \<union> set stack - set seen)
      \<le> card (edgeNodes edges \<union> set (node # stack) - set seen)"
    by (intro card_mono) auto
  then show ?case by auto
next
  case (3 edges target seen node stack)
  let ?old = "edgeNodes edges \<union> set (node # stack) - set seen"
  let ?new = "edgeNodes edges \<union> set (rev (nextOf edges node) @ stack) - set (node # seen)"
  have "?new \<subset> ?old" using 3 nextOf_nodes [of edges node] by auto
  then have "card ?new < card ?old" by (intro psubset_card_mono) auto
  then show ?case by auto
qed auto

declare reachGo.simps(2) [simp del]

definition reachable :: "depEdge list \<Rightarrow> nat \<Rightarrow> nat \<Rightarrow> bool" where
  "reachable edges start target = reachGo edges target [] [start]"

definition wouldCreateCycle :: "depEdge list \<Rightarrow> nat \<Rightarrow> nat \<Rightarrow> bool" where
  "wouldCreateCycle edges blocker blocked =
     (if blocker = blocked then True else reachable edges blocked blocker)"

definition allBlockersCompleted :: "depEdge list \<Rightarrow> nat \<Rightarrow> (nat \<Rightarrow> bool) \<Rightarrow> bool" where
  "allBlockersCompleted edges i isCompleted = list_all isCompleted (blockersOf edges i)"

definition newlyUnblocked ::
  "depEdge list \<Rightarrow> nat \<Rightarrow> (nat \<Rightarrow> bool) \<Rightarrow> (nat \<Rightarrow> bool) \<Rightarrow> nat list" where
  "newlyUnblocked edges completedId isBlocked isCompleted =
     sort (uniq (filter (\<lambda>i. isBlocked i \<and> allBlockersCompleted edges i isCompleted)
       (blocksOf edges completedId)))"

subsection \<open>The search decides reachability\<close>

lemma reachGo_sound:
  "reachGo edges target seen stack \<Longrightarrow> \<exists>s \<in> set stack. (s, target) \<in> (edgeRel edges)\<^sup>+"
proof (induction edges target seen stack rule: reachGo.induct)
  case (2 edges target seen node stack)
  show ?case
  proof (cases "node \<in> set seen")
    case True
    with 2 show ?thesis by (auto simp: reachGo.simps(2))
  next
    case False
    show ?thesis
    proof (cases "target \<in> set (nextOf edges node)")
      case True
      then show ?thesis by (auto simp: nextOf_edgeRel)
    next
      case notin: False
      with False 2 obtain s where s: "s \<in> set (rev (nextOf edges node) @ stack)"
        "(s, target) \<in> (edgeRel edges)\<^sup>+" by (auto simp: reachGo.simps(2))
      then show ?thesis by (auto simp: nextOf_edgeRel intro: trancl_into_trancl2)
    qed
  qed
qed simp

lemma reachGo_complete:
  assumes "\<not> reachGo edges target seen stack"
    and "\<And>x y. x \<in> set seen \<Longrightarrow> (x, y) \<in> edgeRel edges \<Longrightarrow> y \<in> set seen \<union> set stack \<and> y \<noteq> target"
  shows "\<exists>S. set seen \<union> set stack \<subseteq> S \<and> (\<forall>x \<in> S. \<forall>y. (x, y) \<in> edgeRel edges \<longrightarrow> y \<in> S \<and> y \<noteq> target)"
  using assms
proof (induction edges target seen stack rule: reachGo.induct)
  case (1 edges target seen)
  then show ?case by (intro exI [of _ "set seen"]) auto
next
  case (2 edges target seen node stack)
  show ?case
  proof (cases "node \<in> set seen")
    case True
    have same: "set seen \<union> set (node # stack) = set seen \<union> set stack" using True by auto
    have go: "\<not> reachGo edges target seen stack" using 2(3) True by (simp add: reachGo.simps(2))
    show ?thesis unfolding same using 2(1) [OF True go] 2(4) unfolding same by blast
  next
    case False
    with 2(3) have no: "target \<notin> set (nextOf edges node)"
      and go: "\<not> reachGo edges target (node # seen) (rev (nextOf edges node) @ stack)"
      by (auto simp: reachGo.simps(2) split: if_splits)
    have step: "y \<in> set (node # seen) \<union> set (rev (nextOf edges node) @ stack) \<and> y \<noteq> target"
      if x: "x \<in> set (node # seen)" and xy: "(x, y) \<in> edgeRel edges" for x y
    proof (cases "x = node")
      case True
      with xy have "y \<in> set (nextOf edges node)" by (simp add: nextOf_edgeRel)
      with no show ?thesis by auto
    next
      case False
      with x xy 2(4) [of x y] show ?thesis by auto
    qed
    have "\<exists>S. set (node # seen) \<union> set (rev (nextOf edges node) @ stack) \<subseteq> S \<and>
        (\<forall>x \<in> S. \<forall>y. (x, y) \<in> edgeRel edges \<longrightarrow> y \<in> S \<and> y \<noteq> target)"
      by (rule 2(2) [OF False no go], rule step)
    then obtain S where
      sub: "set (node # seen) \<union> set (rev (nextOf edges node) @ stack) \<subseteq> S" and
      closed: "\<forall>x \<in> S. \<forall>y. (x, y) \<in> edgeRel edges \<longrightarrow> y \<in> S \<and> y \<noteq> target"
      by (elim exE conjE)
    from sub have "set seen \<union> set (node # stack) \<subseteq> S" by simp
    with closed show ?thesis by blast
  qed
qed

lemma reachable_iff: "reachable edges start target \<longleftrightarrow> (start, target) \<in> (edgeRel edges)\<^sup>+"
proof
  assume "reachable edges start target"
  then show "(start, target) \<in> (edgeRel edges)\<^sup>+"
    unfolding reachable_def by (auto dest: reachGo_sound)
next
  assume path: "(start, target) \<in> (edgeRel edges)\<^sup>+"
  show "reachable edges start target"
  proof (rule ccontr)
    assume "\<not> reachable edges start target"
    then obtain S where S: "start \<in> S"
      "\<And>x y. x \<in> S \<Longrightarrow> (x, y) \<in> edgeRel edges \<Longrightarrow> y \<in> S \<and> y \<noteq> target"
      unfolding reachable_def using reachGo_complete [of edges target "[]" "[start]"] by auto
    have "(start, t) \<in> (edgeRel edges)\<^sup>+ \<Longrightarrow> t \<in> S \<and> t \<noteq> target" for t
      by (induction rule: trancl_induct) (use S in blast)+
    with path show False by blast
  qed
qed

lemma acyclic_edge_insert:
  assumes "acyclic (edgeRel edges)"
  shows "wouldCreateCycle edges b d \<longleftrightarrow> \<not> acyclic (insert (b, d) (edgeRel edges))"
  using assms by (auto simp: wouldCreateCycle_def reachable_iff acyclic_insert rtrancl_eq_or_trancl)

lemma newlyUnblocked_set:
  "set (newlyUnblocked edges c isBlocked isCompleted) =
     {i. (c, i) \<in> edgeRel edges \<and> isBlocked i \<and> (\<forall>b. (b, i) \<in> edgeRel edges \<longrightarrow> isCompleted b)}"
proof -
  have "i \<in> set (blocksOf edges c) \<longleftrightarrow> (c, i) \<in> edgeRel edges"
    "b \<in> set (blockersOf edges i) \<longleftrightarrow> (b, i) \<in> edgeRel edges" for i b
    by (auto simp: blocksOf_def blockersOf_def edgeRel_def)
  then show ?thesis
    by (auto simp: newlyUnblocked_def allBlockersCompleted_def list_all_iff)
qed

lemma newlyUnblocked_sorted:
  "sorted (newlyUnblocked edges c isBlocked isCompleted) \<and>
   distinct (newlyUnblocked edges c isBlocked isCompleted)"
  by (simp add: newlyUnblocked_def)

end
