(* ===== verification/Event_Log.thy ===== *)
theory Event_Log
  imports Prelude
begin

text \<open>
  The contract of an event-sourced store, as the task store and the scheduler's job store keep it:
  there is an append-only log and a projection of it; every write appends one entry and applies
  that same entry to the projection. What the clients rely on is proved here once: the projection is
  always the replay of the log, so rebuilding it changes nothing.
\<close>

fun replay :: "('e \<Rightarrow> 's \<Rightarrow> 's option) \<Rightarrow> 'e list \<Rightarrow> 's \<Rightarrow> 's option" where
  "replay apply_event [] s = Some s"
| "replay apply_event (e # es) s =
     (case apply_event e s of None \<Rightarrow> None | Some s' \<Rightarrow> replay apply_event es s')"

lemma replay_append:
  "replay f (xs @ ys) s = (case replay f xs s of None \<Rightarrow> None | Some s' \<Rightarrow> replay f ys s')"
  by (induction xs arbitrary: s) (auto split: option.splits)

lemma replay_total: "replay (\<lambda>e s. Some (g e s)) es s = Some (foldl (\<lambda>s e. g e s) s es)"
  by (induction es arbitrary: s) simp_all

locale event_store =
  fixes log :: "'db \<Rightarrow> 'e list"
    and state :: "'db \<Rightarrow> 's"
    and apply_event :: "'e \<Rightarrow> 's \<Rightarrow> 's option"
    and empty :: 's
    and emit :: "'x \<Rightarrow> 'db \<Rightarrow> 'db option"
  assumes emit_both: "emit x db = Some db' \<Longrightarrow>
    \<exists>e. log db' = log db @ [e] \<and> apply_event e (state db) = Some (state db')"
begin

definition consistent :: "'db \<Rightarrow> bool" where
  "consistent db \<longleftrightarrow> replay apply_event (log db) empty = Some (state db)"

lemma emit_consistent: "consistent db \<Longrightarrow> emit x db = Some db' \<Longrightarrow> consistent db'"
  using emit_both [of x db db'] by (auto simp: consistent_def replay_append)

lemma emits_consistent:
  assumes "consistent db"
  shows "foldl (\<lambda>acc x. case acc of None \<Rightarrow> None | Some d \<Rightarrow> emit x d) (Some db) xs = Some db' \<Longrightarrow>
    consistent db' \<and> (\<exists>es. log db' = log db @ es)"
proof (induction xs arbitrary: db' rule: rev_induct)
  case Nil
  with assms show ?case by simp
next
  case (snoc x xs)
  then obtain d where d: "foldl (\<lambda>acc x. case acc of None \<Rightarrow> None | Some d \<Rightarrow> emit x d) (Some db) xs = Some d"
    "emit x d = Some db'" by (auto split: option.splits)
  with snoc.IH emit_consistent emit_both show ?case by (metis append.assoc)
qed

end

end
