(* ===== verification/Task_Store.thy ===== *)
theory Task_Store
  imports Task_Deps Policy_Action Event_Log "HOL-Library.Product_Lexorder"
begin

text \<open>
  \<^verbatim>\<open>packages/storage/src/task-store.ts\<close>: the append-only task log and its projection. A
  table is the list of its rows, a transaction is a function from the database to an error or a
  result with the new database, and \<^verbatim>\<open>transact\<close> keeps the old database when the function
  fails. The status column holds a \<^typ>\<open>taskStatus\<close>: every writer emits one. The clock is
  a function of the number of events recorded so far.
\<close>

subsection \<open>Rows\<close>

record storedTask =
  stId :: nat
  stSubject :: string
  stDescription :: string
  stActiveForm :: string
  stOwner :: "string option"
  stStatus :: taskStatus
  stMetadata :: "(string \<times> jsValue) list"
  stVersion :: nat
  stCreatedAt :: int
  stUpdatedAt :: int
  stCreatedBy :: actor

datatype taskEventInput =
    TaskCreated nat actor string string string taskStatus "(string \<times> jsValue) list" "nat list"
  | TaskClaimed nat actor string
  | TaskReleased nat actor
  | TaskStatusChanged nat actor taskStatus
  | TaskDeleted nat actor
  | TaskMetadataUpdated nat actor "(string \<times> jsValue) list"
  | TaskDependencyAdded nat actor nat nat

record taskEventRecord =
  teSeq :: nat
  teEvent :: taskEventInput
  teTimestamp :: int

record taskProjection =
  tpNodes :: "storedTask list"
  tpDeps :: "depEdge list"

record taskDb =
  dbProjection :: taskProjection
  dbLog :: "taskEventRecord list"
  dbNextId :: nat

definition emptyProjection :: taskProjection where
  "emptyProjection = \<lparr>tpNodes = [], tpDeps = []\<rparr>"

definition freshDb :: taskDb where
  "freshDb = \<lparr>dbProjection = emptyProjection, dbLog = [], dbNextId = 1\<rparr>"

subsection \<open>Reads\<close>

definition nodeOf :: "taskProjection \<Rightarrow> nat \<Rightarrow> storedTask option" where
  "nodeOf p i = find (\<lambda>r. stId r = i) (tpNodes p)"

definition getTask :: "taskDb \<Rightarrow> nat \<Rightarrow> storedTask option" where
  [task_defs]: "getTask db i = nodeOf (dbProjection db) i"

definition listTasks :: "taskDb \<Rightarrow> bool \<Rightarrow> storedTask list" where
  "listTasks db includeDeleted =
     sort_key stId
       (if includeDeleted then tpNodes (dbProjection db)
        else filter (\<lambda>r. stStatus r \<noteq> T_deleted) (tpNodes (dbProjection db)))"

definition listDeps :: "taskDb \<Rightarrow> depEdge list" where
  "listDeps db = sort_key (\<lambda>e. (blockerId e, blockedId e)) (tpDeps (dbProjection db))"

definition highWater :: "taskDb \<Rightarrow> nat" where
  [task_defs]: "highWater db = dbNextId db"

subsection \<open>The projection reducer\<close>

text \<open>An UPDATE touches the rows with the id, of which there may be none.\<close>

definition updateNode :: "nat \<Rightarrow> (storedTask \<Rightarrow> storedTask) \<Rightarrow> storedTask list \<Rightarrow> storedTask list" where
  "updateNode i f rows = map (\<lambda>r. if stId r = i then f r else r) rows"

definition touch :: "int \<Rightarrow> storedTask \<Rightarrow> storedTask" where
  "touch now r = r\<lparr>stVersion := stVersion r + 1, stUpdatedAt := now\<rparr>"

definition insertDep :: "nat \<Rightarrow> nat \<Rightarrow> depEdge list \<Rightarrow> depEdge list" where
  "insertDep b d deps = (if edge b d \<in> set deps then deps else deps @ [edge b d])"

text \<open>None: the insert violates the primary key and the statement throws.\<close>

fun projectEvent :: "int \<Rightarrow> taskEventInput \<Rightarrow> taskProjection \<Rightarrow> taskProjection option" where
  "projectEvent now (TaskCreated i actor subject description activeForm status metadata blockedBy) p =
     (if nodeOf p i \<noteq> None then None
      else Some \<lparr>tpNodes = tpNodes p @
             [\<lparr>stId = i, stSubject = subject, stDescription = description, stActiveForm = activeForm,
               stOwner = None, stStatus = status, stMetadata = metadata, stVersion = 1,
               stCreatedAt = now, stUpdatedAt = now, stCreatedBy = actor\<rparr>],
           tpDeps = foldl (\<lambda>deps b. insertDep b i deps) (tpDeps p) blockedBy\<rparr>)"
| "projectEvent now (TaskClaimed i actor owner) p =
     Some (p\<lparr>tpNodes := updateNode i
       (\<lambda>r. touch now (r\<lparr>stOwner := Some owner, stStatus := T_claimed\<rparr>)) (tpNodes p)\<rparr>)"
| "projectEvent now (TaskReleased i actor) p =
     Some (p\<lparr>tpNodes := updateNode i
       (\<lambda>r. touch now (r\<lparr>stOwner := None, stStatus := T_released\<rparr>)) (tpNodes p)\<rparr>)"
| "projectEvent now (TaskStatusChanged i actor status) p =
     Some (p\<lparr>tpNodes := updateNode i (\<lambda>r. touch now (r\<lparr>stStatus := status\<rparr>)) (tpNodes p)\<rparr>)"
| "projectEvent now (TaskDeleted i actor) p =
     Some (p\<lparr>tpNodes := updateNode i
       (\<lambda>r. touch now (r\<lparr>stOwner := None, stStatus := T_deleted\<rparr>)) (tpNodes p)\<rparr>)"
| "projectEvent now (TaskMetadataUpdated i actor metadata) p =
     Some (p\<lparr>tpNodes := updateNode i (\<lambda>r. touch now (r\<lparr>stMetadata := metadata\<rparr>)) (tpNodes p)\<rparr>)"
| "projectEvent now (TaskDependencyAdded i actor b d) p =
     Some \<lparr>tpNodes = updateNode d (touch now) (tpNodes p), tpDeps = insertDep b d (tpDeps p)\<rparr>"

definition projectRecord :: "taskEventRecord \<Rightarrow> taskProjection \<Rightarrow> taskProjection option" where
  "projectRecord r p = projectEvent (teTimestamp r) (teEvent r) p"

subsection \<open>The transaction context\<close>

definition applyEvent ::
  "int \<Rightarrow> taskEventInput \<Rightarrow> taskDb \<Rightarrow> (taskEventRecord \<times> taskDb) option" where
  "applyEvent now event db =
     (let rec = \<lparr>teSeq = length (dbLog db) + 1, teEvent = event, teTimestamp = now\<rparr> in
      case projectEvent now event (dbProjection db) of
        None \<Rightarrow> None
      | Some p \<Rightarrow> Some (rec, db\<lparr>dbProjection := p, dbLog := dbLog db @ [rec]\<rparr>))"

definition allocateId :: "taskDb \<Rightarrow> nat \<times> taskDb" where
  "allocateId db = (dbNextId db, db\<lparr>dbNextId := dbNextId db + 1\<rparr>)"

definition rebuildProjection :: "taskDb \<Rightarrow> (nat \<times> taskDb) option" where
  "rebuildProjection db =
     (case replay projectRecord (dbLog db) emptyProjection of
        None \<Rightarrow> None
      | Some p \<Rightarrow> Some (length (dbLog db), db\<lparr>dbProjection := p\<rparr>))"

subsection \<open>The store keeps its log and its projection together\<close>

definition emitDb :: "int \<times> taskEventInput \<Rightarrow> taskDb \<Rightarrow> taskDb option" where
  "emitDb x db = map_option snd (applyEvent (fst x) (snd x) db)"

interpretation task_log: event_store dbLog dbProjection projectRecord emptyProjection emitDb
proof
  fix x db db'
  assume "emitDb x db = Some db'"
  then show "\<exists>e. dbLog db' = dbLog db @ [e] \<and> projectRecord e (dbProjection db) = Some (dbProjection db')"
    by (auto simp: emitDb_def applyEvent_def projectRecord_def Let_def split: option.splits)
qed

abbreviation logConsistent :: "taskDb \<Rightarrow> bool" where
  "logConsistent \<equiv> task_log.consistent"

lemma rebuild_consistent:
  "logConsistent db \<Longrightarrow> rebuildProjection db = Some (length (dbLog db), db)"
  by (simp add: task_log.consistent_def rebuildProjection_def)

lemma set_insertDep [simp]: "set (insertDep b d deps) = insert (edge b d) (set deps)"
  by (auto simp: insertDep_def)

lemma set_foldl_insertDep:
  "set (foldl (\<lambda>deps b. insertDep b i deps) deps bs) = set deps \<union> (\<lambda>b. edge b i) ` set bs"
  by (induction bs arbitrary: deps) auto

lemma edgeRel_listDeps: "edgeRel (listDeps db) = edgeRel (tpDeps (dbProjection db))"
  by (simp add: listDeps_def edgeRel_def)

lemma nodeOf_Some: "nodeOf p i = Some r \<Longrightarrow> stId r = i \<and> r \<in> set (tpNodes p)"
  unfolding nodeOf_def by (drule find_SomeD) simp

end
