(* ===== verification/Task_Graph.thy ===== *)
theory Task_Graph
  imports Task_Store
begin

text \<open>
  \<^verbatim>\<open>packages/tasks/src/task-graph.ts\<close>: the durable task graph. An operation reads, decides
  and emits inside one transaction; a raise rolls it back. After the commit the listeners see the
  committed records in order: \<^verbatim>\<open>tgNotified\<close> is the list of all records a listener that
  subscribed at the start has seen.
\<close>

subsection \<open>Failures and transactions\<close>

datatype graphFailure =
    GF_harness harnessErrorData
  | GF_zod string
  | GF_storage string

type_synonym 'a tx = "taskDb \<Rightarrow> graphFailure + 'a \<times> taskDb"

definition returnTx :: "'a \<Rightarrow> 'a tx" where
  [task_defs]: "returnTx x db = Inr (x, db)"

definition throwTx :: "graphFailure \<Rightarrow> 'a tx" where
  [task_defs]: "throwTx e db = Inl e"

definition bindTx :: "'a tx \<Rightarrow> ('a \<Rightarrow> 'b tx) \<Rightarrow> 'b tx" where
  [task_defs]: "bindTx m f db = (case m db of Inl e \<Rightarrow> Inl e | Inr (x, db') \<Rightarrow> f x db')"

definition readTx :: "(taskDb \<Rightarrow> 'a) \<Rightarrow> 'a tx" where
  [task_defs]: "readTx f db = Inr (f db, db)"

definition emitTx :: "(nat \<Rightarrow> int) \<Rightarrow> taskEventInput \<Rightarrow> taskEventRecord tx" where
  [task_defs]: "emitTx clock event db =
     (case applyEvent (clock (length (dbLog db))) event db of
        None \<Rightarrow> Inl (GF_storage ''UNIQUE constraint failed: task_nodes.id'')
      | Some (rec, db') \<Rightarrow> Inr (rec, db'))"

definition allocateTx :: "nat tx" where
  [task_defs]: "allocateTx db = Inr (allocateId db)"

record taskGraph =
  tgDb :: taskDb
  tgNotified :: "taskEventRecord list"

definition freshGraph :: taskGraph where
  "freshGraph = \<lparr>tgDb = freshDb, tgNotified = []\<rparr>"

definition transact ::
  "('a \<times> taskEventRecord list) tx \<Rightarrow> taskGraph \<Rightarrow> (graphFailure + 'a) \<times> taskGraph" where
  [task_defs]: "transact f g =
     (case f (tgDb g) of
        Inl e \<Rightarrow> (Inl e, g)
      | Inr ((x, records), db) \<Rightarrow>
          (Inr x, g\<lparr>tgDb := db, tgNotified := tgNotified g @ records\<rparr>))"

definition taskError :: "errorOrigin \<Rightarrow> string \<Rightarrow> string \<Rightarrow> graphFailure" where
  "taskError origin category message = GF_harness (harnessError origin category message)"

definition missingReference :: "nat \<Rightarrow> graphFailure" where
  "missingReference i =
     taskError O_user ''tasks.missing_reference'' (''task '' @ natStr i @ '' does not exist'')"

definition illegalTransition :: "taskStatus \<Rightarrow> taskStatus \<Rightarrow> graphFailure" where
  "illegalTransition fr to =
     taskError O_user ''tasks.illegal_transition''
       (''illegal task transition: '' @ statusName fr @ '' -> '' @ statusName to)"

definition cycleRejected :: "depEdge list \<Rightarrow> graphFailure" where
  "cycleRejected edges =
     taskError O_user ''tasks.cycle''
       (''dependency would create a cycle among tasks: '' @
        joinWith '', '' (map (\<lambda>e. natStr (blockerId e) @ ''->'' @ natStr (blockedId e)) edges))"

definition invariantFailure :: "string \<Rightarrow> graphFailure" where
  "invariantFailure message = taskError O_internal ''tasks.invariant'' message"

subsection \<open>Tasks as callers see them\<close>

record task =
  tkId :: nat
  tkSubject :: string
  tkDescription :: string
  tkActiveForm :: string
  tkOwner :: "string option"
  tkStatus :: taskStatus
  tkBlocks :: "nat list"
  tkBlockedBy :: "nat list"
  tkMetadata :: "(string \<times> jsValue) list"
  tkCreatedAt :: int
  tkUpdatedAt :: int
  tkCreatedBy :: actor

record createTaskInput =
  inSubject :: string
  inDescription :: "string option"
  inActiveForm :: string
  inBlockedBy :: "nat list option"
  inMetadata :: "(string \<times> jsValue) list option"

datatype claimResult = ClaimOk task | ClaimRefused string

definition isSatisfied :: "taskStatus option \<Rightarrow> bool" where
  [task_defs]: "isSatisfied s \<longleftrightarrow> s = Some T_completed \<or> s = Some T_deleted"

definition statusOf :: "taskDb \<Rightarrow> nat \<Rightarrow> taskStatus option" where
  [task_defs]: "statusOf db i = map_option stStatus (getTask db i)"

definition toTask :: "storedTask \<Rightarrow> depEdge list \<Rightarrow> task" where
  "toTask s edges = \<lparr>tkId = stId s, tkSubject = stSubject s, tkDescription = stDescription s,
     tkActiveForm = stActiveForm s, tkOwner = stOwner s, tkStatus = stStatus s,
     tkBlocks = blocksOf edges (stId s), tkBlockedBy = blockersOf edges (stId s),
     tkMetadata = stMetadata s, tkCreatedAt = stCreatedAt s, tkUpdatedAt = stUpdatedAt s,
     tkCreatedBy = stCreatedBy s\<rparr>"

definition taskGet :: "taskGraph \<Rightarrow> nat \<Rightarrow> task option" where
  "taskGet g i = map_option (\<lambda>s. toTask s (listDeps (tgDb g))) (getTask (tgDb g) i)"

definition taskList :: "taskGraph \<Rightarrow> bool \<Rightarrow> task list" where
  "taskList g includeDeleted =
     map (\<lambda>s. toTask s (listDeps (tgDb g))) (listTasks (tgDb g) includeDeleted)"

definition readback :: "nat \<Rightarrow> string \<Rightarrow> task tx" where
  [task_defs]: "readback i message db =
     (case getTask db i of
        None \<Rightarrow> Inl (invariantFailure message)
      | Some s \<Rightarrow> Inr (toTask s (listDeps db), db))"

definition vanished :: "nat \<Rightarrow> string" where
  "vanished i = ''task '' @ natStr i @ '' vanished mid-transaction''"

subsection \<open>Create and link\<close>

definition parseCreate :: "createTaskInput \<Rightarrow> graphFailure option" where
  "parseCreate input =
     (if inSubject input = [] then Some (GF_zod ''subject'')
      else if inActiveForm input = [] then Some (GF_zod ''activeForm'')
      else None)"

definition orDefault :: "'a \<Rightarrow> 'a option \<Rightarrow> 'a" where
  "orDefault d x = (case x of None \<Rightarrow> d | Some v \<Rightarrow> v)"

definition liveTask :: "taskDb \<Rightarrow> nat \<Rightarrow> bool" where
  [task_defs]: "liveTask db i \<longleftrightarrow> (case statusOf db i of None \<Rightarrow> False | Some s \<Rightarrow> s \<noteq> T_deleted)"

definition createTx ::
  "(nat \<Rightarrow> int) \<Rightarrow> createTaskInput \<Rightarrow> actor \<Rightarrow> (task \<times> taskEventRecord list) tx" where
  "createTx clock input actor db =
     (let blockedBy = uniq (orDefault [] (inBlockedBy input)) in
      case find (\<lambda>b. \<not> liveTask db b) blockedBy of
        Some b \<Rightarrow> Inl (missingReference b)
      | None \<Rightarrow>
          bindTx allocateTx (\<lambda>i db1.
            if list_ex (\<lambda>b. wouldCreateCycle (listDeps db1) b i) blockedBy
            then Inl (cycleRejected (listDeps db1 @ map (\<lambda>b. edge b i) blockedBy))
            else
              let satisfied = list_all (\<lambda>b. isSatisfied (statusOf db1 b)) blockedBy;
                  status = (if blockedBy = [] \<or> satisfied then T_pending else T_blocked)
              in bindTx (emitTx clock (TaskCreated i actor (inSubject input)
                          (orDefault [] (inDescription input)) (inActiveForm input) status
                          (orDefault [] (inMetadata input)) blockedBy))
                   (\<lambda>rec. bindTx (readback i ''created task is missing from its own projection'')
                      (\<lambda>t. returnTx (t, [rec]))) db1) db)"

definition create ::
  "(nat \<Rightarrow> int) \<Rightarrow> createTaskInput \<Rightarrow> actor \<Rightarrow> taskGraph \<Rightarrow> (graphFailure + task) \<times> taskGraph" where
  "create clock input actor g =
     (case parseCreate input of
        Some e \<Rightarrow> (Inl e, g)
      | None \<Rightarrow> transact (createTx clock input actor) g)"

definition transitionTx :: "(nat \<Rightarrow> int) \<Rightarrow> nat \<Rightarrow> taskStatus \<Rightarrow> actor \<Rightarrow> taskEventRecord tx" where
  [task_defs]: "transitionTx clock i to actor = emitTx clock (TaskStatusChanged i actor to)"

definition addDependencyTx ::
  "(nat \<Rightarrow> int) \<Rightarrow> nat \<Rightarrow> nat \<Rightarrow> actor \<Rightarrow> (task \<times> taskEventRecord list) tx" where
  "addDependencyTx clock b d actor db =
     (case (getTask db b, getTask db d) of
        (None, _) \<Rightarrow> Inl (missingReference b)
      | (Some blocker, blockedOpt) \<Rightarrow>
          if stStatus blocker = T_deleted then Inl (missingReference b)
          else (case blockedOpt of
            None \<Rightarrow> Inl (missingReference d)
          | Some blocked \<Rightarrow>
              if stStatus blocked = T_deleted then Inl (missingReference d)
              else if wouldCreateCycle (listDeps db) b d
              then Inl (cycleRejected (listDeps db @ [edge b d]))
              else
                bindTx (emitTx clock (TaskDependencyAdded d actor b d))
                  (\<lambda>rec. bindTx
                     (if (stStatus blocked = T_pending \<or> stStatus blocked = T_released) \<and>
                         \<not> isSatisfied (Some (stStatus blocker))
                      then bindTx (transitionTx clock d T_blocked actor) (\<lambda>r2. returnTx [rec, r2])
                      else returnTx [rec])
                     (\<lambda>records. bindTx (readback d ''task vanished during dependency add'')
                        (\<lambda>t. returnTx (t, records)))) db))"

definition addDependency ::
  "(nat \<Rightarrow> int) \<Rightarrow> nat \<Rightarrow> nat \<Rightarrow> actor \<Rightarrow> taskGraph \<Rightarrow> (graphFailure + task) \<times> taskGraph" where
  "addDependency clock b d actor g = transact (addDependencyTx clock b d actor) g"

subsection \<open>Claiming\<close>

definition parseOwner :: "string \<Rightarrow> bool" where
  "parseOwner owner \<longleftrightarrow> 1 \<le> length owner \<and> length owner \<le> 200"

definition claimTx ::
  "(nat \<Rightarrow> int) \<Rightarrow> nat \<Rightarrow> string \<Rightarrow> actor \<Rightarrow> (claimResult \<times> taskEventRecord list) tx" where
  "claimTx clock i owner actor db =
     (case getTask db i of
        None \<Rightarrow> Inr ((ClaimRefused (''task '' @ natStr i @ '' does not exist''), []), db)
      | Some stored \<Rightarrow>
          (case stOwner stored of
             Some other \<Rightarrow>
               Inr ((ClaimRefused (''task '' @ natStr i @ '' is already owned by '' @ other), []), db)
           | None \<Rightarrow>
               if \<not> isClaimable (stStatus stored)
               then Inr ((ClaimRefused (''task '' @ natStr i @ '' is '' @
                            statusName (stStatus stored) @ '', not claimable''), []), db)
               else
                 bindTx (emitTx clock (TaskClaimed i actor owner))
                   (\<lambda>rec. bindTx (readback i ''claimed task vanished'')
                      (\<lambda>t. returnTx (ClaimOk t, [rec]))) db))"

definition claim ::
  "(nat \<Rightarrow> int) \<Rightarrow> nat \<Rightarrow> string \<Rightarrow> actor \<Rightarrow> taskGraph
     \<Rightarrow> (graphFailure + claimResult) \<times> taskGraph" where
  "claim clock i owner actor g =
     (if parseOwner owner then transact (claimTx clock i owner actor) g
      else (Inl (GF_zod ''owner''), g))"

subsection \<open>Lifecycle\<close>

definition startTx :: "(nat \<Rightarrow> int) \<Rightarrow> nat \<Rightarrow> actor \<Rightarrow> (task \<times> taskEventRecord list) tx" where
  "startTx clock i actor db =
     (case getTask db i of
        None \<Rightarrow> Inl (missingReference i)
      | Some stored \<Rightarrow>
          if \<not> taskCanTransition (stStatus stored) T_in_progress
          then Inl (illegalTransition (stStatus stored) T_in_progress)
          else if \<not> allBlockersCompleted (listDeps db) i (\<lambda>b. isSatisfied (statusOf db b))
          then Inl (taskError O_user ''tasks.blocked''
                 (''task '' @ natStr i @ '' cannot start: dependencies incomplete''))
          else
            bindTx (transitionTx clock i T_in_progress actor)
              (\<lambda>rec. bindTx (readback i (vanished i)) (\<lambda>t. returnTx (t, [rec]))) db)"

definition start ::
  "(nat \<Rightarrow> int) \<Rightarrow> nat \<Rightarrow> actor \<Rightarrow> taskGraph \<Rightarrow> (graphFailure + task) \<times> taskGraph" where
  "start clock i actor g = transact (startTx clock i actor) g"

definition releaseTx :: "(nat \<Rightarrow> int) \<Rightarrow> nat \<Rightarrow> actor \<Rightarrow> (task \<times> taskEventRecord list) tx" where
  "releaseTx clock i actor db =
     (case getTask db i of
        None \<Rightarrow> Inl (missingReference i)
      | Some stored \<Rightarrow>
          if \<not> isOwned (stStatus stored) then Inl (illegalTransition (stStatus stored) T_released)
          else
            bindTx (emitTx clock (TaskReleased i actor))
              (\<lambda>rec. bindTx (readback i (vanished i)) (\<lambda>t. returnTx (t, [rec]))) db)"

definition release ::
  "(nat \<Rightarrow> int) \<Rightarrow> nat \<Rightarrow> actor \<Rightarrow> taskGraph \<Rightarrow> (graphFailure + task) \<times> taskGraph" where
  "release clock i actor g = transact (releaseTx clock i actor) g"

definition recoverOwnerLoss ::
  "(nat \<Rightarrow> int) \<Rightarrow> nat \<Rightarrow> actor \<Rightarrow> taskGraph \<Rightarrow> (graphFailure + task) \<times> taskGraph" where
  "recoverOwnerLoss clock i actor g = release clock i actor g"

text \<open>The loop over the tasks that became runnable, each put back to pending.\<close>

fun unblockEach ::
  "(nat \<Rightarrow> int) \<Rightarrow> actor \<Rightarrow> nat list \<Rightarrow> taskEventRecord list \<Rightarrow> task list
     \<Rightarrow> (task list \<times> taskEventRecord list) tx" where
  "unblockEach clock actor [] records unblocked db = Inr ((unblocked, records), db)"
| "unblockEach clock actor (i # is) records unblocked db =
     bindTx (transitionTx clock i T_pending actor)
       (\<lambda>rec. bindTx (readback i (vanished i))
          (\<lambda>t. unblockEach clock actor is (records @ [rec]) (unblocked @ [t]))) db"

definition unblockDownstream ::
  "(nat \<Rightarrow> int) \<Rightarrow> nat \<Rightarrow> actor \<Rightarrow> taskEventRecord list \<Rightarrow> (task list \<times> taskEventRecord list) tx" where
  "unblockDownstream clock i actor records db =
     unblockEach clock actor
       (newlyUnblocked (listDeps db) i (\<lambda>t. statusOf db t = Some T_blocked)
          (\<lambda>t. isSatisfied (statusOf db t)))
       records [] db"

definition completeTx ::
  "(nat \<Rightarrow> int) \<Rightarrow> nat \<Rightarrow> actor \<Rightarrow> ((task \<times> task list) \<times> taskEventRecord list) tx" where
  "completeTx clock i actor db =
     (case getTask db i of
        None \<Rightarrow> Inl (missingReference i)
      | Some stored \<Rightarrow>
          if \<not> taskCanTransition (stStatus stored) T_completed
          then Inl (illegalTransition (stStatus stored) T_completed)
          else
            bindTx (transitionTx clock i T_completed actor)
              (\<lambda>rec. bindTx (unblockDownstream clock i actor [rec])
                 (\<lambda>(unblocked, records). bindTx (readback i (vanished i))
                    (\<lambda>t. returnTx ((t, unblocked), records)))) db)"

definition complete ::
  "(nat \<Rightarrow> int) \<Rightarrow> nat \<Rightarrow> actor \<Rightarrow> taskGraph \<Rightarrow> (graphFailure + task \<times> task list) \<times> taskGraph" where
  "complete clock i actor g = transact (completeTx clock i actor) g"

definition deleteTx ::
  "(nat \<Rightarrow> int) \<Rightarrow> nat \<Rightarrow> actor \<Rightarrow> ((task \<times> task list) \<times> taskEventRecord list) tx" where
  "deleteTx clock i actor db =
     (case getTask db i of
        None \<Rightarrow> Inl (missingReference i)
      | Some stored \<Rightarrow>
          if stStatus stored = T_deleted then Inl (illegalTransition T_deleted T_deleted)
          else
            bindTx (emitTx clock (TaskDeleted i actor))
              (\<lambda>rec. bindTx (unblockDownstream clock i actor [rec])
                 (\<lambda>(unblocked, records). bindTx (readback i (vanished i))
                    (\<lambda>t. returnTx ((t, unblocked), records)))) db)"

definition deleteTask ::
  "(nat \<Rightarrow> int) \<Rightarrow> nat \<Rightarrow> actor \<Rightarrow> taskGraph \<Rightarrow> (graphFailure + task \<times> task list) \<times> taskGraph" where
  "deleteTask clock i actor g = transact (deleteTx clock i actor) g"

definition setMetadataTx ::
  "(nat \<Rightarrow> int) \<Rightarrow> nat \<Rightarrow> (string \<times> jsValue) list \<Rightarrow> actor \<Rightarrow> (task \<times> taskEventRecord list) tx" where
  "setMetadataTx clock i metadata actor db =
     (case getTask db i of
        None \<Rightarrow> Inl (missingReference i)
      | Some stored \<Rightarrow>
          if stStatus stored = T_deleted then Inl (illegalTransition T_deleted T_deleted)
          else
            bindTx (emitTx clock (TaskMetadataUpdated i actor metadata))
              (\<lambda>rec. bindTx (readback i (vanished i)) (\<lambda>t. returnTx (t, [rec]))) db)"

definition setMetadata ::
  "(nat \<Rightarrow> int) \<Rightarrow> nat \<Rightarrow> (string \<times> jsValue) list \<Rightarrow> actor \<Rightarrow> taskGraph
     \<Rightarrow> (graphFailure + task) \<times> taskGraph" where
  "setMetadata clock i metadata actor g = transact (setMetadataTx clock i metadata actor) g"

definition rebuildGraph :: "taskGraph \<Rightarrow> (graphFailure + nat) \<times> taskGraph" where
  "rebuildGraph g =
     (case rebuildProjection (tgDb g) of
        None \<Rightarrow> (Inl (GF_storage ''UNIQUE constraint failed: task_nodes.id''), g)
      | Some (n, db) \<Rightarrow> (Inr n, g\<lparr>tgDb := db\<rparr>))"

end
