(* ===== verification/Task_Abstract.thy ===== *)
theory Task_Abstract
  imports Task_Deps
begin

text \<open>
  The abstract task graph: a status and an owner for each task and a set of edges. Its steps say
  what the operations promise, without rows, logs or transactions; the invariants of the task system
  are proved here by rule induction, and \<^verbatim>\<open>Task_Refinement\<close> shows that the code's operations
  are such steps.
\<close>

record absGraph =
  agStatus :: "nat \<rightharpoonup> taskStatus"
  agOwner :: "nat \<rightharpoonup> string"
  agEdges :: "(nat \<times> nat) set"

definition sat :: "taskStatus option \<Rightarrow> bool" where
  "sat s \<longleftrightarrow> s = Some T_completed \<or> s = Some T_deleted"

definition live :: "absGraph \<Rightarrow> nat \<Rightarrow> bool" where
  "live A i \<longleftrightarrow> agStatus A i \<noteq> None \<and> agStatus A i \<noteq> Some T_deleted"

definition ready :: "absGraph \<Rightarrow> nat \<Rightarrow> bool" where
  "ready A i \<longleftrightarrow> (\<forall>b. (b, i) \<in> agEdges A \<longrightarrow> sat (agStatus A b))"

text \<open>After a task finished: every blocked successor with no open blocker left becomes pending.\<close>

definition unblock :: "nat \<Rightarrow> absGraph \<Rightarrow> absGraph" where
  "unblock i A = A\<lparr>agStatus := (\<lambda>j.
     if (i, j) \<in> agEdges A \<and> agStatus A j = Some T_blocked \<and> ready A j then Some T_pending
     else agStatus A j)\<rparr>"

inductive abs_step :: "absGraph \<Rightarrow> absGraph \<Rightarrow> bool" where
  created: "agStatus A i = None \<Longrightarrow> \<forall>b \<in> bs. live A b \<Longrightarrow> finite bs \<Longrightarrow>
    abs_step A (A\<lparr>agStatus := (agStatus A)(i \<mapsto>
                    if \<forall>b \<in> bs. sat (agStatus A b) then T_pending else T_blocked),
                  agOwner := (agOwner A)(i := None),
                  agEdges := agEdges A \<union> bs \<times> {i}\<rparr>)"
| linked: "live A b \<Longrightarrow> live A d \<Longrightarrow> b \<noteq> d \<Longrightarrow> (d, b) \<notin> (agEdges A)\<^sup>+ \<Longrightarrow>
    abs_step A (A\<lparr>agEdges := insert (b, d) (agEdges A),
                  agStatus := (if agStatus A d \<in> {Some T_pending, Some T_released} \<and>
                                  \<not> sat (agStatus A b)
                               then (agStatus A)(d \<mapsto> T_blocked) else agStatus A)\<rparr>)"
| claimed: "agStatus A i \<in> {Some T_pending, Some T_released} \<Longrightarrow> agOwner A i = None \<Longrightarrow>
    abs_step A (A\<lparr>agStatus := (agStatus A)(i \<mapsto> T_claimed), agOwner := (agOwner A)(i \<mapsto> w)\<rparr>)"
| started: "agStatus A i = Some T_claimed \<Longrightarrow> ready A i \<Longrightarrow>
    abs_step A (A\<lparr>agStatus := (agStatus A)(i \<mapsto> T_in_progress)\<rparr>)"
| released: "agStatus A i \<in> {Some T_claimed, Some T_in_progress} \<Longrightarrow>
    abs_step A (A\<lparr>agStatus := (agStatus A)(i \<mapsto> T_released), agOwner := (agOwner A)(i := None)\<rparr>)"
| completed: "agStatus A i = Some T_in_progress \<Longrightarrow>
    abs_step A (unblock i (A\<lparr>agStatus := (agStatus A)(i \<mapsto> T_completed)\<rparr>))"
| deleted: "live A i \<Longrightarrow>
    abs_step A (unblock i (A\<lparr>agStatus := (agStatus A)(i \<mapsto> T_deleted),
                             agOwner := (agOwner A)(i := None)\<rparr>))"

inductive_cases abs_stepE [elim]: "abs_step A B"

text \<open>The invariants.\<close>

definition edgesOk :: "absGraph \<Rightarrow> bool" where
  "edgesOk A \<longleftrightarrow> finite (dom (agStatus A)) \<and> agEdges A \<subseteq> dom (agStatus A) \<times> dom (agStatus A) \<and>
     acyclic (agEdges A)"

definition blockedOk :: "absGraph \<Rightarrow> bool" where
  "blockedOk A \<longleftrightarrow> (\<forall>i. agStatus A i = Some T_blocked \<longrightarrow> \<not> ready A i)"

definition ownersOk :: "absGraph \<Rightarrow> bool" where
  "ownersOk A \<longleftrightarrow> (\<forall>i. agOwner A i \<noteq> None \<longleftrightarrow>
     agStatus A i \<in> {Some T_claimed, Some T_in_progress, Some T_completed})"

definition absOk :: "absGraph \<Rightarrow> bool" where
  "absOk A \<longleftrightarrow> edgesOk A \<and> blockedOk A \<and> ownersOk A"

lemma trancl_into_fresh:
  assumes "(x, y) \<in> (E \<union> B \<times> {i})\<^sup>+" and "i \<notin> Domain E" and "i \<notin> B"
  shows "(x, y) \<in> E\<^sup>+ \<or> y = i"
  using assms(1)
proof (induction rule: trancl_induct)
  case (step y z)
  with assms(2,3) have "y \<noteq> i" by auto
  with step show ?case by (auto intro: trancl.trancl_into_trancl)
qed auto

lemma acyclic_fresh_target:
  assumes "acyclic E" and "i \<notin> Domain E" and "i \<notin> B"
  shows "acyclic (E \<union> B \<times> {i})"
proof (rule acyclicI, rule allI, rule notI)
  fix x assume cyc: "(x, x) \<in> (E \<union> B \<times> {i})\<^sup>+"
  from trancl_into_fresh [OF cyc assms(2,3)] assms(1) have "x = i" by (auto simp: acyclic_def)
  from tranclD [OF cyc] this assms(2,3) show False by auto
qed

lemma edgesOk_unblock: "edgesOk A \<Longrightarrow> edgesOk (unblock i A)"
proof -
  have "dom (agStatus (unblock i A)) = dom (agStatus A)"
    by (auto simp: unblock_def dom_def)
  moreover have "agEdges (unblock i A) = agEdges A" by (simp add: unblock_def)
  ultimately show "edgesOk A \<Longrightarrow> edgesOk (unblock i A)" by (simp add: edgesOk_def)
qed

lemma abs_step_edges: "abs_step A B \<Longrightarrow> edgesOk A \<Longrightarrow> edgesOk B"
proof (induction rule: abs_step.induct)
  case (created A i bs)
  then have "i \<notin> Domain (agEdges A)" "i \<notin> bs" by (auto simp: edgesOk_def live_def)
  with created acyclic_fresh_target [of "agEdges A" i bs] show ?case
    by (auto simp: edgesOk_def live_def)
next
  case (linked A b d)
  then have "(d, b) \<notin> (agEdges A)\<^sup>*" by (auto simp: rtrancl_eq_or_trancl)
  moreover have "b \<in> dom (agStatus A)" "d \<in> dom (agStatus A)"
    using linked by (auto simp: live_def)
  ultimately show ?case
    using linked.prems by (simp add: edgesOk_def acyclic_insert insert_absorb)
next
  case (completed A i)
  then show ?case by (intro edgesOk_unblock) (auto simp: edgesOk_def insert_absorb)
next
  case (deleted A i)
  then show ?case by (intro edgesOk_unblock) (auto simp: edgesOk_def live_def insert_absorb)
qed (auto simp: edgesOk_def insert_absorb)

lemma ownersOk_unblock:
  assumes "ownersOk A"
  shows "ownersOk (unblock i A)"
  unfolding ownersOk_def
proof
  fix j
  have "agOwner A j \<noteq> None \<longleftrightarrow>
      agStatus A j \<in> {Some T_claimed, Some T_in_progress, Some T_completed}"
    using assms by (simp add: ownersOk_def)
  then show "agOwner (unblock i A) j \<noteq> None \<longleftrightarrow>
      agStatus (unblock i A) j \<in> {Some T_claimed, Some T_in_progress, Some T_completed}"
    by (auto simp: unblock_def)
qed

lemma abs_step_owners: "abs_step A B \<Longrightarrow> ownersOk A \<Longrightarrow> ownersOk B"
proof (induction rule: abs_step.induct)
  case (created A i bs)
  then show ?case by (auto simp: ownersOk_def)
next
  case (linked A b d)
  then show ?case by (auto simp: ownersOk_def)
next
  case (completed A i)
  then show ?case by (intro ownersOk_unblock) (auto simp: ownersOk_def)
next
  case (deleted A i)
  then show ?case by (intro ownersOk_unblock) (auto simp: ownersOk_def)
qed (auto simp: ownersOk_def)

text \<open>A blocked task keeps an open blocker as long as no blocker of it closes.\<close>

lemma unblock_blockedOk:
  assumes "\<And>j. agStatus A j = Some T_blocked \<Longrightarrow> (i, j) \<notin> agEdges A \<Longrightarrow> \<not> ready A j"
  shows "blockedOk (unblock i A)"
  unfolding blockedOk_def
proof (intro allI impI)
  fix j assume j: "agStatus (unblock i A) j = Some T_blocked"
  then have "agStatus A j = Some T_blocked" and "\<not> ((i, j) \<in> agEdges A \<and> ready A j)"
    by (auto simp: unblock_def split: if_splits)
  with assms have "\<not> ready A j" by blast
  then obtain b where "(b, j) \<in> agEdges A" "\<not> sat (agStatus A b)" by (auto simp: ready_def)
  then have "(b, j) \<in> agEdges (unblock i A)" "\<not> sat (agStatus (unblock i A) b)"
    by (auto simp: unblock_def sat_def)
  then show "\<not> ready (unblock i A) j" by (auto simp: ready_def)
qed

lemma blockedOk_close:
  assumes "blockedOk A" and "s \<noteq> T_blocked"
  shows "blockedOk (unblock i (A\<lparr>agStatus := (agStatus A)(i \<mapsto> s), agOwner := w\<rparr>))"
proof (rule unblock_blockedOk)
  let ?B = "A\<lparr>agStatus := (agStatus A)(i \<mapsto> s), agOwner := w\<rparr>"
  fix j assume j: "agStatus ?B j = Some T_blocked" "(i, j) \<notin> agEdges ?B"
  then have "agStatus A j = Some T_blocked" using assms(2) by (auto split: if_splits)
  with assms(1) obtain b where "(b, j) \<in> agEdges A" "\<not> sat (agStatus A b)"
    by (auto simp: blockedOk_def ready_def)
  with j(2) have "(b, j) \<in> agEdges ?B" "\<not> sat (agStatus ?B b)" by auto
  then show "\<not> ready ?B j" by (auto simp: ready_def)
qed

text \<open>Changing one status to an open one that is not blocked keeps the invariant.\<close>

lemma blockedOk_open:
  assumes "blockedOk A" and "s \<noteq> T_blocked" and "\<not> sat (Some s)"
  shows "blockedOk (A\<lparr>agStatus := (agStatus A)(i \<mapsto> s), agOwner := w\<rparr>)"
  using assms unfolding blockedOk_def ready_def by (auto split: if_splits)

lemma abs_step_blocked: "abs_step A B \<Longrightarrow> edgesOk A \<Longrightarrow> blockedOk A \<Longrightarrow> blockedOk B"
proof (induction rule: abs_step.induct)
  case (created A i bs)
  let ?B = "A\<lparr>agStatus := (agStatus A)(i \<mapsto>
                 if \<forall>b \<in> bs. sat (agStatus A b) then T_pending else T_blocked),
               agOwner := (agOwner A)(i := None), agEdges := agEdges A \<union> bs \<times> {i}\<rparr>"
  have sat: "sat (agStatus ?B b) \<longleftrightarrow> sat (agStatus A b)" if "agStatus A b \<noteq> None" for b
    using that created by auto
  show ?case unfolding blockedOk_def
  proof (intro allI impI)
    fix j assume j: "agStatus ?B j = Some T_blocked"
    obtain b where "(b, j) \<in> agEdges ?B" "agStatus A b \<noteq> None" "\<not> sat (agStatus A b)"
    proof (cases "j = i")
      case True
      with j created that show ?thesis by (auto simp: live_def split: if_splits)
    next
      case False
      with j created.prems(2) obtain b where "(b, j) \<in> agEdges A" "\<not> sat (agStatus A b)"
        by (auto simp: blockedOk_def ready_def)
      moreover from this(1) created.prems(1) have "b \<in> dom (agStatus A)"
        by (auto simp: edgesOk_def)
      ultimately show ?thesis using that [of b] by auto
    qed
    with sat [of b] show "\<not> ready ?B j" unfolding ready_def by blast
  qed
next
  case (linked A b d)
  let ?B = "A\<lparr>agEdges := insert (b, d) (agEdges A),
              agStatus := (if agStatus A d \<in> {Some T_pending, Some T_released} \<and> \<not> sat (agStatus A b)
                           then (agStatus A)(d \<mapsto> T_blocked) else agStatus A)\<rparr>"
  have sat: "sat (agStatus ?B k) \<longleftrightarrow> sat (agStatus A k)" for k by (auto simp: sat_def)
  show ?case unfolding blockedOk_def
  proof (intro allI impI)
    fix j assume j: "agStatus ?B j = Some T_blocked"
    show "\<not> ready ?B j"
    proof (cases "agStatus A j = Some T_blocked")
      case True
      with linked.prems have "\<not> ready A j" by (simp add: blockedOk_def)
      then show ?thesis unfolding ready_def sat by auto
    next
      case False
      with j have "j = d \<and> \<not> sat (agStatus A b)" by (simp split: if_splits)
      then show ?thesis unfolding ready_def sat by auto
    qed
  qed
next
  case (claimed A i w)
  then show ?case by (intro blockedOk_open) (auto simp: sat_def)
next
  case (started A i)
  then show ?case using blockedOk_open [of A T_in_progress "agOwner A" i] by (auto simp: sat_def)
next
  case (released A i)
  then show ?case by (intro blockedOk_open) (auto simp: sat_def)
next
  case (completed A i)
  then show ?case using blockedOk_close [of A T_completed i "agOwner A"] by simp
next
  case (deleted A i)
  then show ?case using blockedOk_close [of A T_deleted i "(agOwner A)(i := None)"] by simp
qed

lemma abs_step_ok: "abs_step A B \<Longrightarrow> absOk A \<Longrightarrow> absOk B"
  by (auto simp: absOk_def intro: abs_step_edges abs_step_owners abs_step_blocked)

text \<open>
  There is always work to do: in a graph with an unfinished task, some unfinished task has every
  blocker finished and is not blocked.
\<close>

lemma some_task_can_move:
  assumes "absOk A" and "agStatus A i \<noteq> None" and "\<not> sat (agStatus A i)"
  shows "\<exists>j. agStatus A j \<noteq> None \<and> \<not> sat (agStatus A j) \<and> ready A j \<and> agStatus A j \<noteq> Some T_blocked"
proof -
  have fin: "finite (agEdges A)"
    using assms(1) finite_subset unfolding absOk_def edgesOk_def by blast
  then have wf: "wf (agEdges A)"
    using assms(1) finite_acyclic_wf unfolding absOk_def edgesOk_def by blast
  let ?Q = "{j. agStatus A j \<noteq> None \<and> \<not> sat (agStatus A j)}"
  have "i \<in> ?Q" using assms by simp
  with wf obtain j where j: "j \<in> ?Q" "\<And>b. (b, j) \<in> agEdges A \<Longrightarrow> b \<notin> ?Q"
    by (rule wfE_min) blast
  have "ready A j"
    unfolding ready_def
  proof (intro allI impI)
    fix b assume b: "(b, j) \<in> agEdges A"
    with assms(1) have "agStatus A b \<noteq> None" by (auto simp: absOk_def edgesOk_def)
    with j(2) [OF b] show "sat (agStatus A b)" by simp
  qed
  with assms(1) have "agStatus A j \<noteq> Some T_blocked" by (auto simp: absOk_def blockedOk_def)
  with j(1) \<open>ready A j\<close> show ?thesis by blast
qed

end
