(* ===== verification/Task_Refinement.thy ===== *)
theory Task_Refinement
  imports Task_Graph Task_Abstract
begin

text \<open>
  The code's task graph implements the abstract one: what each event does to the abstraction, then
  one simulation lemma for each operation, and the invariants of the reachable graphs.
\<close>

subsection \<open>The abstraction\<close>

definition absProj :: "taskProjection \<Rightarrow> absGraph" where
  "absProj p = \<lparr>agStatus = (\<lambda>i. map_option stStatus (nodeOf p i)),
     agOwner = (\<lambda>i. case nodeOf p i of None \<Rightarrow> None | Some r \<Rightarrow> stOwner r),
     agEdges = edgeRel (tpDeps p)\<rparr>"

abbreviation absDb :: "taskDb \<Rightarrow> absGraph" where
  "absDb db \<equiv> absProj (dbProjection db)"

lemma absDb_status [simp]: "agStatus (absDb db) = statusOf db"
  by (auto simp: absProj_def statusOf_def getTask_def)

lemma absDb_edges [simp]: "agEdges (absDb db) = edgeRel (listDeps db)"
  by (simp add: absProj_def edgeRel_listDeps)

definition setStatus :: "nat \<Rightarrow> taskStatus \<Rightarrow> (nat \<rightharpoonup> taskStatus) \<Rightarrow> (nat \<rightharpoonup> taskStatus)" where
  "setStatus i s m = (if m i = None then m else m(i \<mapsto> s))"

definition setOwner ::
  "nat \<Rightarrow> string option \<Rightarrow> (nat \<rightharpoonup> taskStatus) \<Rightarrow> (nat \<rightharpoonup> string) \<Rightarrow> (nat \<rightharpoonup> string)" where
  "setOwner i w m own = (if m i = None then own else own(i := w))"

fun absEvent :: "taskEventInput \<Rightarrow> absGraph \<Rightarrow> absGraph" where
  "absEvent (TaskCreated i _ _ _ _ s _ bs) A =
     A\<lparr>agStatus := (agStatus A)(i \<mapsto> s), agOwner := (agOwner A)(i := None),
       agEdges := agEdges A \<union> set bs \<times> {i}\<rparr>"
| "absEvent (TaskClaimed i _ w) A =
     A\<lparr>agStatus := setStatus i T_claimed (agStatus A),
       agOwner := setOwner i (Some w) (agStatus A) (agOwner A)\<rparr>"
| "absEvent (TaskReleased i _) A =
     A\<lparr>agStatus := setStatus i T_released (agStatus A),
       agOwner := setOwner i None (agStatus A) (agOwner A)\<rparr>"
| "absEvent (TaskStatusChanged i _ s) A = A\<lparr>agStatus := setStatus i s (agStatus A)\<rparr>"
| "absEvent (TaskDeleted i _) A =
     A\<lparr>agStatus := setStatus i T_deleted (agStatus A),
       agOwner := setOwner i None (agStatus A) (agOwner A)\<rparr>"
| "absEvent (TaskMetadataUpdated _ _ _) A = A"
| "absEvent (TaskDependencyAdded _ _ b d) A = A\<lparr>agEdges := insert (b, d) (agEdges A)\<rparr>"

lemma find_updateNode:
  assumes "\<And>r. stId (f r) = stId r"
  shows "find (\<lambda>r. stId r = j) (updateNode i f rows) =
     (if i = j then map_option f (find (\<lambda>r. stId r = j) rows) else find (\<lambda>r. stId r = j) rows)"
  using assms by (induction rows) (auto simp: updateNode_def)

lemma nodeOf_updateNode:
  assumes "\<And>r. stId (f r) = stId r"
  shows "nodeOf (p\<lparr>tpNodes := updateNode i f (tpNodes p)\<rparr>) j =
     (if i = j then map_option f (nodeOf p j) else nodeOf p j)"
  by (simp add: nodeOf_def find_updateNode [OF assms])

lemma find_append: "find P (xs @ ys) = (case find P xs of None \<Rightarrow> find P ys | Some x \<Rightarrow> Some x)"
  by (induction xs) auto

lemma touch_simps [simp]:
  "stId (touch now r) = stId r" "stStatus (touch now r) = stStatus r"
  "stOwner (touch now r) = stOwner r"
  by (simp_all add: touch_def)

lemma absProj_updateNode:
  assumes "\<And>r. stId (f r) = stId r" and "\<And>r. stStatus (f r) = g (stStatus r)"
    and "\<And>r. stOwner (f r) = h (stOwner r)"
  shows "absProj (p\<lparr>tpNodes := updateNode i f (tpNodes p)\<rparr>) =
    (absProj p)\<lparr>agStatus := (\<lambda>j. if i = j then map_option g (agStatus (absProj p) j) else agStatus (absProj p) j),
      agOwner := (\<lambda>j. if i = j \<and> agStatus (absProj p) j \<noteq> None then h (agOwner (absProj p) j)
                      else agOwner (absProj p) j)\<rparr>"
  using nodeOf_updateNode [OF assms(1)] assms(2,3)
  by (auto simp: absProj_def fun_eq_iff split: option.splits)

text \<open>The projection of an event does to the abstraction what \<^verbatim>\<open>absEvent\<close> says.\<close>

lemma projectEvent_abs:
  assumes "projectEvent now ev p = Some p'"
  shows "absProj p' = absEvent ev (absProj p)"
proof (cases ev)
  case (TaskCreated i actor subject description activeForm s m bs)
  with assms have none: "nodeOf p i = None" and p': "p' = \<lparr>tpNodes = tpNodes p @
      [\<lparr>stId = i, stSubject = subject, stDescription = description, stActiveForm = activeForm,
        stOwner = None, stStatus = s, stMetadata = m, stVersion = 1,
        stCreatedAt = now, stUpdatedAt = now, stCreatedBy = actor\<rparr>],
      tpDeps = foldl (\<lambda>deps b. insertDep b i deps) (tpDeps p) bs\<rparr>"
    by (auto split: if_splits)
  have "edgeRel (tpDeps p') = edgeRel (tpDeps p) \<union> set bs \<times> {i}"
    by (auto simp: p' edgeRel_def set_foldl_insertDep edge_def image_Un image_image)
  with TaskCreated none show ?thesis
    by (auto simp: absProj_def p' nodeOf_def find_append fun_eq_iff split: option.splits)
next
  case (TaskDependencyAdded i actor b d)
  with assms have p': "p' = (p\<lparr>tpNodes := updateNode d (touch now) (tpNodes p)\<rparr>)\<lparr>tpDeps := insertDep b d (tpDeps p)\<rparr>"
    by (cases p) simp
  have deps: "absProj (q\<lparr>tpDeps := insertDep b d (tpDeps p)\<rparr>) =
      (absProj q)\<lparr>agEdges := insert (b, d) (edgeRel (tpDeps p))\<rparr>" for q
    by (simp add: absProj_def nodeOf_def edgeRel_def edge_def)
  have "absProj (p\<lparr>tpNodes := updateNode d (touch now) (tpNodes p)\<rparr>) = absProj p"
    by (subst absProj_updateNode [where g = id and h = id])
      (simp_all add: absProj_def fun_eq_iff option.map_id)
  moreover have "agEdges (absProj p) = edgeRel (tpDeps p)" by (simp add: absProj_def)
  ultimately show ?thesis
    unfolding p' deps TaskDependencyAdded by simp
next
  case (TaskClaimed i actor w)
  with assms show ?thesis
    by (auto simp: absProj_updateNode [where g = "\<lambda>_. T_claimed" and h = "\<lambda>_. Some w"] setStatus_def
        setOwner_def fun_eq_iff)
next
  case (TaskReleased i actor)
  with assms show ?thesis
    by (auto simp: absProj_updateNode [where g = "\<lambda>_. T_released" and h = "\<lambda>_. None"] setStatus_def
        setOwner_def fun_eq_iff)
next
  case (TaskDeleted i actor)
  with assms show ?thesis
    by (auto simp: absProj_updateNode [where g = "\<lambda>_. T_deleted" and h = "\<lambda>_. None"] setStatus_def
        setOwner_def fun_eq_iff)
next
  case (TaskStatusChanged i actor s)
  with assms show ?thesis
    by (auto simp: absProj_updateNode [where g = "\<lambda>_. s" and h = id] setStatus_def fun_eq_iff)
next
  case (TaskMetadataUpdated i actor m)
  with assms show ?thesis
    by (auto simp: absProj_updateNode [where g = id and h = id] fun_eq_iff option.map_id)
qed

subsection \<open>Emitting\<close>

text \<open>What every transaction does to log, projection and ids, whatever else it does.\<close>

definition extends :: "taskDb \<Rightarrow> taskEventRecord list \<Rightarrow> taskDb \<Rightarrow> bool" where
  "extends db recs db' \<longleftrightarrow> dbLog db' = dbLog db @ recs \<and> dbNextId db \<le> dbNextId db' \<and>
     replay projectRecord recs (dbProjection db) = Some (dbProjection db')"

lemma extends_refl: "extends db [] db"
  by (simp add: extends_def)

lemma extends_trans: "extends a xs b \<Longrightarrow> extends b ys c \<Longrightarrow> extends a (xs @ ys) c"
  by (auto simp: extends_def replay_append)

lemma extends_consistent: "extends db recs db' \<Longrightarrow> logConsistent db \<Longrightarrow> logConsistent db'"
  by (simp add: extends_def task_log.consistent_def replay_append)

lemma emitTx_Inr:
  "emitTx clock ev db = Inr (rec, db') \<Longrightarrow>
     extends db [rec] db' \<and> dbNextId db' = dbNextId db \<and> absDb db' = absEvent ev (absDb db)"
  by (auto simp: emitTx_def applyEvent_def Let_def extends_def projectRecord_def
      split: option.splits dest: projectEvent_abs)

lemma bindTx_Inr:
  "bindTx m f db = Inr (y, db') \<longleftrightarrow> (\<exists>x db1. m db = Inr (x, db1) \<and> f x db1 = Inr (y, db'))"
  by (auto simp: bindTx_def split: sum.splits)

lemma returnTx_Inr: "returnTx x db = Inr (y, db') \<longleftrightarrow> y = x \<and> db' = db"
  by (auto simp: returnTx_def)

lemma readback_Inr: "readback i m db = Inr (t, db') \<Longrightarrow>
    db' = db \<and> (\<exists>s. getTask db i = Some s \<and> t = toTask s (listDeps db))"
  by (auto simp: readback_def split: option.splits)

lemmas tx_elims = bindTx_Inr returnTx_Inr

subsection \<open>Simulation\<close>

text \<open>Ids stay below the high-water mark.\<close>

definition idsOk :: "taskDb \<Rightarrow> bool" where
  "idsOk db \<longleftrightarrow> (\<forall>i. statusOf db i \<noteq> None \<longrightarrow> i < dbNextId db)"

text \<open>
  \<^verbatim>\<open>simulates f\<close>: a committed run of the transaction extends the log by the records it
  returns, keeps the ids below the mark, and is a step of the abstract graph or leaves it alone.
\<close>

definition simulates :: "('a \<times> taskEventRecord list) tx \<Rightarrow> bool" where
  "simulates f \<longleftrightarrow> (\<forall>db x recs db'. f db = Inr ((x, recs), db') \<longrightarrow> idsOk db \<longrightarrow>
     absOk (absDb db) \<longrightarrow>
     extends db recs db' \<and> idsOk db' \<and> (absDb db' = absDb db \<or> abs_step (absDb db) (absDb db')))"

lemma simulatesI:
  assumes "\<And>db x recs db'. f db = Inr ((x, recs), db') \<Longrightarrow> idsOk db \<Longrightarrow> absOk (absDb db) \<Longrightarrow>
     extends db recs db' \<and> idsOk db' \<and> (absDb db' = absDb db \<or> abs_step (absDb db) (absDb db'))"
  shows "simulates f"
  using assms unfolding simulates_def by blast

lemma statusOf_abs: "statusOf db i = agStatus (absDb db) i"
  by simp

lemma ownerOf_abs: "getTask db i = Some s \<Longrightarrow> agOwner (absDb db) i = stOwner s"
  by (simp add: absProj_def getTask_def)

lemma status_getTask: "getTask db i = Some s \<Longrightarrow> statusOf db i = Some (stStatus s)"
  by (simp add: statusOf_def)

lemma idsOk_dom: "dom (statusOf db') \<subseteq> dom (statusOf db) \<Longrightarrow> dbNextId db \<le> dbNextId db' \<Longrightarrow>
    idsOk db \<Longrightarrow> idsOk db'"
  unfolding idsOk_def by (meson domIff le_trans not_le_imp_less order_le_less_trans subsetD leD linorder_not_less)

lemma setStatus_dom [simp]: "dom (setStatus i s m) = dom m"
  by (auto simp: setStatus_def)

lemma isSatisfied_sat [simp]: "isSatisfied s = sat s"
  by (simp add: isSatisfied_def sat_def)

lemma liveTask_live: "liveTask db i \<longleftrightarrow> live (absDb db) i"
  by (auto simp: liveTask_def live_def split: option.splits)

lemma ready_iff: "ready (absDb db) i \<longleftrightarrow>
    allBlockersCompleted (listDeps db) i (\<lambda>b. isSatisfied (statusOf db b))"
  by (auto simp: ready_def allBlockersCompleted_def blockersOf_def edgeRel_def list_all_iff)

lemma emit_simulates:
  assumes "emitTx clock ev db = Inr (rec, db')" and "idsOk db"
    and "dom (agStatus (absEvent ev (absDb db))) \<subseteq> dom (statusOf db)"
    and "absEvent ev (absDb db) = absDb db \<or> abs_step (absDb db) (absEvent ev (absDb db))"
  shows "extends db [rec] db' \<and> idsOk db' \<and> (absDb db' = absDb db \<or> abs_step (absDb db) (absDb db'))"
proof -
  from emitTx_Inr [OF assms(1)] have e: "extends db [rec] db'" "absDb db' = absEvent ev (absDb db)"
    by auto
  then have "dom (statusOf db') \<subseteq> dom (statusOf db)" using assms(3) by (metis statusOf_abs ext)
  with e assms(2) have "idsOk db'" by (auto intro: idsOk_dom simp: extends_def)
  with e assms(4) show ?thesis by auto
qed

lemma setStatus_Some [simp]: "m i = Some s' \<Longrightarrow> setStatus i s m = m(i \<mapsto> s)"
  by (simp add: setStatus_def)

lemma setOwner_Some [simp]: "m i = Some s' \<Longrightarrow> setOwner i w m own = own(i := w)"
  by (simp add: setOwner_def)

lemma claim_simulates: "simulates (claimTx clock i owner actor)"
proof (rule simulatesI)
  fix db x recs db'
  assume run: "claimTx clock i owner actor db = Inr ((x, recs), db')" and ids: "idsOk db"
    and "absOk (absDb db)"
  show "extends db recs db' \<and> idsOk db' \<and> (absDb db' = absDb db \<or> abs_step (absDb db) (absDb db'))"
  proof (cases "recs = []")
    case True
    with run have "db' = db"
      by (auto simp: claimTx_def tx_elims split: option.splits if_splits)
    with True ids show ?thesis by (simp add: extends_refl)
  next
    case False
    with run obtain s rec where s: "getTask db i = Some s" "stOwner s = None" "isClaimable (stStatus s)"
      and e: "emitTx clock (TaskClaimed i actor owner) db = Inr (rec, db')" "recs = [rec]"
      by (auto simp: claimTx_def tx_elims split: option.splits if_splits dest!: readback_Inr)
    from s have st: "agStatus (absDb db) i \<in> {Some T_pending, Some T_released}"
      by (auto simp: status_getTask isClaimable_def CLAIMABLE_STATUSES_def)
    have own: "agOwner (absDb db) i = None" using s by (simp add: ownerOf_abs)
    show ?thesis unfolding e(2)
      using abs_step.claimed [OF st own, of owner] status_getTask [OF s(1)]
      by (intro emit_simulates [OF e(1) ids]) auto
  qed
qed

lemma start_simulates: "simulates (startTx clock i actor)"
proof (rule simulatesI)
  fix db x recs db'
  assume run: "startTx clock i actor db = Inr ((x, recs), db')" and ids: "idsOk db"
    and "absOk (absDb db)"
  from run obtain s rec where s: "getTask db i = Some s" "taskCanTransition (stStatus s) T_in_progress"
      "allBlockersCompleted (listDeps db) i (\<lambda>b. isSatisfied (statusOf db b))"
    and e: "emitTx clock (TaskStatusChanged i actor T_in_progress) db = Inr (rec, db')" "recs = [rec]"
    by (auto simp: startTx_def transitionTx_def tx_elims simp del: isSatisfied_sat
        split: option.splits if_splits dest!: readback_Inr)
  from s(1,2) have st: "agStatus (absDb db) i = Some T_claimed"
    by (cases "stStatus s") (simp_all add: status_getTask taskCanTransition_def)
  have "ready (absDb db) i" using s(3) by (simp add: ready_iff)
  then show "extends db recs db' \<and> idsOk db' \<and> (absDb db' = absDb db \<or> abs_step (absDb db) (absDb db'))"
    unfolding e(2) using abs_step.started [OF st] status_getTask [OF s(1)]
    by (intro emit_simulates [OF e(1) ids]) auto
qed

lemma release_simulates: "simulates (releaseTx clock i actor)"
proof (rule simulatesI)
  fix db x recs db'
  assume run: "releaseTx clock i actor db = Inr ((x, recs), db')" and ids: "idsOk db"
    and "absOk (absDb db)"
  from run obtain s rec where s: "getTask db i = Some s" "isOwned (stStatus s)"
    and e: "emitTx clock (TaskReleased i actor) db = Inr (rec, db')" "recs = [rec]"
    by (auto simp: releaseTx_def tx_elims split: option.splits if_splits dest!: readback_Inr)
  from s have st: "agStatus (absDb db) i \<in> {Some T_claimed, Some T_in_progress}"
    by (auto simp: status_getTask isOwned_def OWNED_STATUSES_def)
  show "extends db recs db' \<and> idsOk db' \<and> (absDb db' = absDb db \<or> abs_step (absDb db) (absDb db'))"
    unfolding e(2) using abs_step.released [OF st] status_getTask [OF s(1)]
    by (intro emit_simulates [OF e(1) ids]) auto
qed

lemma setMetadata_simulates: "simulates (setMetadataTx clock i m actor)"
proof (rule simulatesI)
  fix db x recs db'
  assume run: "setMetadataTx clock i m actor db = Inr ((x, recs), db')" and ids: "idsOk db"
    and "absOk (absDb db)"
  from run obtain rec where
      e: "emitTx clock (TaskMetadataUpdated i actor m) db = Inr (rec, db')" "recs = [rec]"
    by (auto simp: setMetadataTx_def tx_elims split: option.splits if_splits dest!: readback_Inr)
  show "extends db recs db' \<and> idsOk db' \<and> (absDb db' = absDb db \<or> abs_step (absDb db) (absDb db'))"
    unfolding e(2) by (intro emit_simulates [OF e(1) ids]) auto
qed

text \<open>Finishing a task: the loop sets each of the given blocked tasks to pending.\<close>

lemma unblockEach_Inr:
  assumes "unblockEach clock actor is records ts db = Inr ((ts', recs), db')"
    and "\<And>i. i \<in> set is \<Longrightarrow> statusOf db i \<noteq> None"
  shows "\<exists>es. recs = records @ es \<and> extends db es db' \<and> dom (statusOf db') = dom (statusOf db) \<and>
     absDb db' = (absDb db)\<lparr>agStatus := (\<lambda>j. if j \<in> set is then Some T_pending else statusOf db j)\<rparr>"
  using assms
proof (induction "is" arbitrary: records ts db)
  case Nil
  then show ?case by (auto simp: extends_refl)
next
  case (Cons i "is")
  from Cons.prems(1) obtain rec db1 t where
    e: "emitTx clock (TaskStatusChanged i actor T_pending) db = Inr (rec, db1)" and
    rest: "unblockEach clock actor is (records @ [rec]) (ts @ [t]) db1 = Inr ((ts', recs), db')"
    by (auto simp: tx_elims transitionTx_def dest!: readback_Inr)
  from Cons.prems(2) obtain s where "statusOf db i = Some s" by fastforce
  with emitTx_Inr [OF e] have db1: "extends db [rec] db1"
      "absDb db1 = (absDb db)\<lparr>agStatus := (statusOf db)(i \<mapsto> T_pending)\<rparr>" by auto
  have st1: "statusOf db1 = (statusOf db)(i \<mapsto> T_pending)"
    by (metis db1(2) absDb_status absGraph.select_convs(1) absGraph.surjective absGraph.update_convs(1))
  have "statusOf db1 k \<noteq> None" if "k \<in> set is" for k
    using Cons.prems(2) [of k] that by (simp add: st1)
  from Cons.IH [OF rest this] obtain es where
    es: "recs = (records @ [rec]) @ es" "extends db1 es db'" "dom (statusOf db') = dom (statusOf db1)"
      "absDb db' = (absDb db1)\<lparr>agStatus := (\<lambda>j. if j \<in> set is then Some T_pending else statusOf db1 j)\<rparr>"
    by blast
  show ?case
  proof (intro exI [of _ "rec # es"] conjI)
    show "extends db (rec # es) db'" using extends_trans [OF db1(1) es(2)] by simp
    show "dom (statusOf db') = dom (statusOf db)"
      using es(3) st1 \<open>statusOf db i = Some s\<close> by auto
    show "absDb db' = (absDb db)\<lparr>agStatus := (\<lambda>j. if j \<in> set (i # is) then Some T_pending else statusOf db j)\<rparr>"
      by (auto simp: es(4) db1(2) st1 fun_eq_iff)
  qed (use es(1) in simp)
qed

lemma unblockDownstream_Inr:
  assumes "unblockDownstream clock i actor records db = Inr ((ts, recs), db')"
  shows "\<exists>es. recs = records @ es \<and> extends db es db' \<and> dom (statusOf db') = dom (statusOf db) \<and>
     absDb db' = unblock i (absDb db)"
proof -
  let ?is = "newlyUnblocked (listDeps db) i (\<lambda>t. statusOf db t = Some T_blocked)
      (\<lambda>t. isSatisfied (statusOf db t))"
  have mem: "j \<in> set ?is \<longleftrightarrow> (i, j) \<in> agEdges (absDb db) \<and> agStatus (absDb db) j = Some T_blocked \<and>
      ready (absDb db) j" for j
    by (auto simp: newlyUnblocked_set ready_def)
  have "unblockEach clock actor ?is records [] db = Inr ((ts, recs), db')"
    using assms by (simp add: unblockDownstream_def)
  from unblockEach_Inr [OF this] mem obtain es where "recs = records @ es" "extends db es db'"
    "dom (statusOf db') = dom (statusOf db)"
    "absDb db' = (absDb db)\<lparr>agStatus := (\<lambda>j. if j \<in> set ?is then Some T_pending else statusOf db j)\<rparr>"
    by auto
  moreover have "(absDb db)\<lparr>agStatus := (\<lambda>j. if j \<in> set ?is then Some T_pending else statusOf db j)\<rparr> =
      unblock i (absDb db)"
    unfolding mem unblock_def by (simp cong: if_cong)
  ultimately show ?thesis by metis
qed

lemma complete_simulates: "simulates (completeTx clock i actor)"
proof (rule simulatesI)
  fix db x recs db'
  assume run: "completeTx clock i actor db = Inr ((x, recs), db')" and ids: "idsOk db"
    and "absOk (absDb db)"
  from run obtain s rec db1 ts where s: "getTask db i = Some s" "taskCanTransition (stStatus s) T_completed"
    and e: "emitTx clock (TaskStatusChanged i actor T_completed) db = Inr (rec, db1)"
    and u: "unblockDownstream clock i actor [rec] db1 = Inr ((ts, recs), db')"
    by (auto simp: completeTx_def transitionTx_def tx_elims
        split: option.splits if_splits dest!: readback_Inr)
  from s have st: "agStatus (absDb db) i = Some T_in_progress"
    by (cases "stStatus s") (simp_all add: status_getTask taskCanTransition_def)
  from emitTx_Inr [OF e] status_getTask [OF s(1)] have db1: "extends db [rec] db1"
    "absDb db1 = (absDb db)\<lparr>agStatus := (agStatus (absDb db))(i \<mapsto> T_completed)\<rparr>" by auto
  from unblockDownstream_Inr [OF u] obtain es where es: "recs = [rec] @ es" "extends db1 es db'"
    "dom (statusOf db') = dom (statusOf db1)" "absDb db' = unblock i (absDb db1)" by blast
  have "dom (statusOf db1) = dom (statusOf db)"
    using db1(2) st by (metis absDb_status absGraph.select_convs(1) absGraph.surjective
        absGraph.update_convs(1) dom_fun_upd domIff insert_absorb option.distinct(1))
  then have "idsOk db'" using es(3) ids idsOk_dom [of db' db] extends_trans [OF db1(1) es(2)]
    by (simp add: extends_def)
  then show "extends db recs db' \<and> idsOk db' \<and> (absDb db' = absDb db \<or> abs_step (absDb db) (absDb db'))"
    using extends_trans [OF db1(1) es(2)] es(1) abs_step.completed [OF st] unfolding es(4) db1(2)
    by simp
qed

lemma delete_simulates: "simulates (deleteTx clock i actor)"
proof (rule simulatesI)
  fix db x recs db'
  assume run: "deleteTx clock i actor db = Inr ((x, recs), db')" and ids: "idsOk db"
    and "absOk (absDb db)"
  from run obtain s rec db1 ts where s: "getTask db i = Some s" "stStatus s \<noteq> T_deleted"
    and e: "emitTx clock (TaskDeleted i actor) db = Inr (rec, db1)"
    and u: "unblockDownstream clock i actor [rec] db1 = Inr ((ts, recs), db')"
    by (auto simp: deleteTx_def tx_elims split: option.splits if_splits dest!: readback_Inr)
  from s have st: "live (absDb db) i" by (simp add: live_def status_getTask)
  from emitTx_Inr [OF e] status_getTask [OF s(1)] have db1: "extends db [rec] db1"
    "absDb db1 = (absDb db)\<lparr>agStatus := (agStatus (absDb db))(i \<mapsto> T_deleted),
       agOwner := (agOwner (absDb db))(i := None)\<rparr>" by auto
  from unblockDownstream_Inr [OF u] obtain es where es: "recs = [rec] @ es" "extends db1 es db'"
    "dom (statusOf db') = dom (statusOf db1)" "absDb db' = unblock i (absDb db1)" by blast
  have "agStatus (absDb db1) = (statusOf db)(i \<mapsto> T_deleted)" unfolding db1(2) by simp
  then have "dom (statusOf db1) = dom (statusOf db)"
    using status_getTask [OF s(1)] by auto
  then have "idsOk db'" using es(3) ids idsOk_dom [of db' db] extends_trans [OF db1(1) es(2)]
    by (simp add: extends_def)
  then show "extends db recs db' \<and> idsOk db' \<and> (absDb db' = absDb db \<or> abs_step (absDb db) (absDb db'))"
    using extends_trans [OF db1(1) es(2)] es(1) abs_step.deleted [OF st] unfolding es(4) db1(2)
    by simp
qed

lemma absGraph_idle: "A\<lparr>agEdges := e, agStatus := agStatus A\<rparr> = A\<lparr>agEdges := e\<rparr>"
  by (cases A) simp

lemma addDependency_simulates: "simulates (addDependencyTx clock b d actor)"
proof (rule simulatesI)
  fix db x recs db'
  assume run: "addDependencyTx clock b d actor db = Inr ((x, recs), db')" and ids: "idsOk db"
    and ok: "absOk (absDb db)"
  let ?re = "\<lambda>s t. (stStatus t = T_pending \<or> stStatus t = T_released) \<and> \<not> isSatisfied (Some (stStatus s))"
  from run obtain s t rec db1 where s: "getTask db b = Some s" "stStatus s \<noteq> T_deleted"
    and t: "getTask db d = Some t" "stStatus t \<noteq> T_deleted"
    and cyc: "\<not> wouldCreateCycle (listDeps db) b d"
    and e: "emitTx clock (TaskDependencyAdded d actor b d) db = Inr (rec, db1)"
    and rest: "(if ?re s t then \<exists>r2. emitTx clock (TaskStatusChanged d actor T_blocked) db1 = Inr (r2, db') \<and>
                  recs = [rec, r2] else db' = db1 \<and> recs = [rec])"
    by (auto simp: addDependencyTx_def transitionTx_def tx_elims simp del: isSatisfied_sat
        split: option.splits if_splits dest!: readback_Inr)
  from emitTx_Inr [OF e] have db1: "extends db [rec] db1" "dbNextId db1 = dbNextId db"
    "absDb db1 = (absDb db)\<lparr>agEdges := insert (b, d) (agEdges (absDb db))\<rparr>" by auto
  have st1: "statusOf db1 = statusOf db" using db1(3) by (metis absDb_status absGraph.select_convs(1)
        absGraph.surjective absGraph.update_convs(3))
  have live: "live (absDb db) b" "live (absDb db) d"
    using s t by (simp_all add: live_def status_getTask)
  have "b \<noteq> d" "(d, b) \<notin> (agEdges (absDb db))\<^sup>+"
    using cyc by (auto simp: wouldCreateCycle_def reachable_iff split: if_splits)
  note step = abs_step.linked [OF live this]
  have cond: "?re s t \<longleftrightarrow> agStatus (absDb db) d \<in> {Some T_pending, Some T_released} \<and>
      \<not> sat (agStatus (absDb db) b)"
    using s t by (auto simp: status_getTask)
  show "extends db recs db' \<and> idsOk db' \<and> (absDb db' = absDb db \<or> abs_step (absDb db) (absDb db'))"
  proof (cases "?re s t")
    case True
    with rest obtain r2 where e2: "emitTx clock (TaskStatusChanged d actor T_blocked) db1 = Inr (r2, db')"
      "recs = [rec, r2]" by auto
    from emitTx_Inr [OF e2(1)] status_getTask [OF t(1)] have db2: "extends db1 [r2] db'"
      "absDb db' = (absDb db1)\<lparr>agStatus := (statusOf db)(d \<mapsto> T_blocked)\<rparr>" by (auto simp: st1)
    have "agStatus (absDb db') = (statusOf db)(d \<mapsto> T_blocked)" unfolding db2(2) by simp
    then have "dom (statusOf db') = dom (statusOf db)" using status_getTask [OF t(1)] by auto
    then have "idsOk db'" using ids idsOk_dom [of db' db] extends_trans [OF db1(1) db2(1)]
      by (simp add: extends_def)
    moreover have "abs_step (absDb db) (absDb db')"
      using step True cond unfolding db2(2) db1(3) by simp
    ultimately show ?thesis using extends_trans [OF db1(1) db2(1)] e2(2) by simp
  next
    case False
    with rest have "db' = db1" "recs = [rec]" by auto
    moreover have "idsOk db1" using ids db1(2) by (simp add: idsOk_def st1)
    moreover have "abs_step (absDb db) (absDb db1)"
    proof -
      have "\<not> (agStatus (absDb db) d \<in> {Some T_pending, Some T_released} \<and> \<not> sat (agStatus (absDb db) b))"
        using False cond by blast
      then show ?thesis using step unfolding db1(3) by (simp only: if_False absGraph_idle)
    qed
    ultimately show ?thesis using db1(1) by simp
  qed
qed

lemma create_simulates: "simulates (createTx clock input actor)"
proof (rule simulatesI)
  fix db x recs db'
  assume run: "createTx clock input actor db = Inr ((x, recs), db')" and ids: "idsOk db"
    and ok: "absOk (absDb db)"
  define bs where "bs = uniq (orDefault [] (inBlockedBy input))"
  define i where "i = dbNextId db"
  define db1 where "db1 = db\<lparr>dbNextId := Suc i\<rparr>"
  define st where "st = (if bs = [] \<or> list_all (\<lambda>b. isSatisfied (statusOf db1 b)) bs then T_pending else T_blocked)"
  from run obtain rec subj descr act meta s0 where
    lives: "find (\<lambda>b. \<not> liveTask db b) bs = None" and s0: "s0 = st" and
    e0: "emitTx clock (TaskCreated i actor subj descr act s0 meta bs) db1 = Inr (rec, db')" "recs = [rec]"
    by (auto simp: createTx_def tx_elims allocateTx_def allocateId_def Let_def bs_def [symmetric]
        i_def [symmetric] db1_def [symmetric] st_def simp del: isSatisfied_sat
        split: option.splits if_splits dest!: readback_Inr)
  note e = e0 [unfolded s0]
  have same: "absDb db1 = absDb db" "statusOf db1 = statusOf db" "dbNextId db1 = dbNextId db + 1"
    "dbLog db1 = dbLog db" "dbProjection db1 = dbProjection db"
    by (simp_all add: db1_def i_def statusOf_def getTask_def fun_eq_iff)
  have st: "st = (if \<forall>b \<in> set bs. sat (agStatus (absDb db) b) then T_pending else T_blocked)"
    by (auto simp: st_def same(2) list_all_iff)
  have fresh: "agStatus (absDb db) i = None"
    using ids unfolding idsOk_def i_def by (metis absDb_status nat_less_le)
  have live: "\<forall>b \<in> set bs. live (absDb db) b"
    using lives by (auto simp: find_None_iff_ball liveTask_live)
  from emitTx_Inr [OF e(1)] have db': "extends db1 [rec] db'" "dbNextId db' = dbNextId db + 1"
    "absDb db' = (absDb db)\<lparr>agStatus := (statusOf db)(i \<mapsto> st), agOwner := (agOwner (absDb db))(i := None),
       agEdges := edgeRel (listDeps db) \<union> set bs \<times> {i}\<rparr>"
    by (simp_all add: same)
  have "extends db [rec] db'" using db'(1) same by (simp add: extends_def)
  moreover have "agStatus (absDb db') = (statusOf db)(i \<mapsto> st)" unfolding db'(3) by simp
  then have "idsOk db'" using ids db'(2) by (auto simp: idsOk_def i_def less_Suc_eq)
  moreover have "abs_step (absDb db) (absDb db')"
    using abs_step.created [OF fresh live] unfolding db'(3) st by simp
  ultimately show "extends db recs db' \<and> idsOk db' \<and> (absDb db' = absDb db \<or> abs_step (absDb db) (absDb db'))"
    using e(2) by simp
qed

lemmas simulations = create_simulates addDependency_simulates claim_simulates start_simulates
  release_simulates complete_simulates delete_simulates setMetadata_simulates

end
