(* ===== verification/Task_Theorems.thy ===== *)
theory Task_Theorems
  imports Task_Refinement
begin

text \<open>
  The properties of the durable task graph. The graphs that any sequence of operations can produce are
  the inductive set \<^verbatim>\<open>graph_reach\<close>; each of them satisfies \<^verbatim>\<open>graphOk\<close>.
\<close>

subsection \<open>Reachable graphs\<close>

inductive graph_step :: "(nat \<Rightarrow> int) \<Rightarrow> taskGraph \<Rightarrow> taskGraph \<Rightarrow> bool" for clock where
  "graph_step clock g (snd (create clock input actor g))"
| "graph_step clock g (snd (addDependency clock b d actor g))"
| "graph_step clock g (snd (claim clock i owner actor g))"
| "graph_step clock g (snd (start clock i actor g))"
| "graph_step clock g (snd (release clock i actor g))"
| "graph_step clock g (snd (recoverOwnerLoss clock i actor g))"
| "graph_step clock g (snd (complete clock i actor g))"
| "graph_step clock g (snd (deleteTask clock i actor g))"
| "graph_step clock g (snd (setMetadata clock i m actor g))"
| "graph_step clock g (snd (rebuildGraph g))"

inductive graph_reach :: "(nat \<Rightarrow> int) \<Rightarrow> taskGraph \<Rightarrow> bool" for clock where
  reach_fresh: "graph_reach clock freshGraph"
| reach_step: "graph_reach clock g \<Longrightarrow> graph_step clock g g' \<Longrightarrow> graph_reach clock g'"

definition graphOk :: "taskGraph \<Rightarrow> bool" where
  "graphOk g \<longleftrightarrow> logConsistent (tgDb g) \<and> idsOk (tgDb g) \<and> absOk (absDb (tgDb g)) \<and>
     tgNotified g = dbLog (tgDb g)"

lemma transact_ok:
  assumes "simulates f" and ok: "graphOk g"
  shows "graphOk (snd (transact f g)) \<and> dbNextId (tgDb g) \<le> dbNextId (tgDb (snd (transact f g)))"
proof (cases "f (tgDb g)")
  case (Inl e)
  with ok show ?thesis by (simp add: transact_def)
next
  case (Inr y)
  then obtain x recs db where y: "f (tgDb g) = Inr ((x, recs), db)" by (cases y) auto
  with assms have s: "extends (tgDb g) recs db" "idsOk db"
    "absDb db = absDb (tgDb g) \<or> abs_step (absDb (tgDb g)) (absDb db)"
    unfolding simulates_def graphOk_def by blast+
  from s(3) ok abs_step_ok have "absOk (absDb db)" unfolding graphOk_def by metis
  moreover have "logConsistent db" using extends_consistent [OF s(1)] ok by (simp add: graphOk_def)
  moreover have "dbLog db = dbLog (tgDb g) @ recs" "dbNextId (tgDb g) \<le> dbNextId db"
    using s(1) by (simp_all add: extends_def)
  ultimately show ?thesis using s(2) ok y by (simp add: graphOk_def transact_def)
qed

lemma graph_step_ok:
  assumes "graph_step clock g g'" and "graphOk g"
  shows "graphOk g' \<and> dbNextId (tgDb g) \<le> dbNextId (tgDb g')"
  using assms(1)
proof cases
  case (1 input actor)
  then show ?thesis using assms(2) transact_ok [OF create_simulates assms(2)]
    by (cases "parseCreate input") (simp_all add: create_def)
next
  case (3 i owner actor)
  then show ?thesis using assms(2) transact_ok [OF claim_simulates assms(2)]
    by (simp add: claim_def)
next
  case 10
  then show ?thesis using assms(2) rebuild_consistent [of "tgDb g"]
    by (simp add: rebuildGraph_def graphOk_def)
qed (simp_all add: simulations [THEN transact_ok, OF assms(2)] addDependency_def start_def
    release_def recoverOwnerLoss_def complete_def deleteTask_def setMetadata_def)

lemma fresh_ok: "graphOk freshGraph"
proof -
  have "absDb freshDb = \<lparr>agStatus = Map.empty, agOwner = Map.empty, agEdges = {}\<rparr>"
    by (simp add: absProj_def freshDb_def emptyProjection_def nodeOf_def edgeRel_def)
  then have "absOk (absDb freshDb)"
    by (simp add: absOk_def edgesOk_def blockedOk_def ownersOk_def acyclic_def)
  moreover have "statusOf freshDb i = None" for i
    by (simp add: statusOf_def getTask_def freshDb_def emptyProjection_def nodeOf_def)
  ultimately show ?thesis
    by (simp add: graphOk_def freshGraph_def idsOk_def task_log.consistent_def)
      (simp add: freshDb_def)
qed

lemma reach_ok: "graph_reach clock g \<Longrightarrow> graphOk g"
  by (induction rule: graph_reach.induct) (auto intro: fresh_ok dest: graph_step_ok)

lemma transact_Inl: "fst (transact f g) = Inl e \<Longrightarrow> snd (transact f g) = g"
  by (auto simp: transact_def split: sum.splits prod.splits)

subsection \<open>Sample data\<close>

definition sampleActor :: actor where
  "sampleActor = \<lparr>actorKind = A_user, actorId = ''u'', actorLabel = None\<rparr>"

definition sampleClock :: "nat \<Rightarrow> int" where
  "sampleClock n = int n"

definition sampleInput :: "nat list \<Rightarrow> createTaskInput" where
  "sampleInput bs = \<lparr>inSubject = ''s'', inDescription = None, inActiveForm = ''a'',
     inBlockedBy = Some bs, inMetadata = None\<rparr>"

text \<open>Task 1, then task 2 blocked by it.\<close>

definition sampleGraph :: taskGraph where
  "sampleGraph = snd (create sampleClock (sampleInput [1]) sampleActor
     (snd (create sampleClock (sampleInput []) sampleActor freshGraph)))"

definition claimedGraph :: taskGraph where
  "claimedGraph = snd (claim sampleClock 1 ''w'' sampleActor sampleGraph)"

definition startedGraph :: taskGraph where
  "startedGraph = snd (start sampleClock 1 sampleActor claimedGraph)"

lemma sample_reach: "graph_reach sampleClock sampleGraph"
  unfolding sampleGraph_def
  by (rule reach_step [OF reach_step [OF reach_fresh graph_step.intros(1)] graph_step.intros(1)])

subsection \<open>Invariants\<close>

text \<open>
  C9: In every graph that operations can produce, the dependencies are acyclic; a blocked task has a
  blocker that is not yet finished, so nothing stays blocked for no reason; and a task has an owner
  exactly when it is claimed, in progress or completed.
\<close>

theorem task_graph_invariant:
  assumes "graph_reach clock g"
  shows "acyclic (edgeRel (listDeps (tgDb g))) \<and>
    (\<forall>i. statusOf (tgDb g) i = Some T_blocked \<longrightarrow>
       (\<exists>b. (b, i) \<in> edgeRel (listDeps (tgDb g)) \<and> \<not> isSatisfied (statusOf (tgDb g) b))) \<and>
    (\<forall>i s. getTask (tgDb g) i = Some s \<longrightarrow>
       (stOwner s \<noteq> None \<longleftrightarrow> stStatus s \<in> {T_claimed, T_in_progress, T_completed}))"
proof (intro conjI allI impI)
  have ok: "absOk (absDb (tgDb g))" using reach_ok [OF assms] by (simp add: graphOk_def)
  then show "acyclic (edgeRel (listDeps (tgDb g)))" by (simp add: absOk_def edgesOk_def)
  show "\<exists>b. (b, i) \<in> edgeRel (listDeps (tgDb g)) \<and> \<not> isSatisfied (statusOf (tgDb g) b)"
    if "statusOf (tgDb g) i = Some T_blocked" for i
    using ok that by (auto simp: absOk_def blockedOk_def ready_def)
  show "stOwner s \<noteq> None \<longleftrightarrow> stStatus s \<in> {T_claimed, T_in_progress, T_completed}"
    if "getTask (tgDb g) i = Some s" for i s
  proof -
    have "agOwner (absDb (tgDb g)) i \<noteq> None \<longleftrightarrow>
        agStatus (absDb (tgDb g)) i \<in> {Some T_claimed, Some T_in_progress, Some T_completed}"
      using ok unfolding absOk_def ownersOk_def by blast
    then show ?thesis unfolding ownerOf_abs [OF that] by (simp add: status_getTask [OF that])
  qed
qed

lemma task_graph_invariant_witness: "acyclic (edgeRel (listDeps (tgDb sampleGraph)))"
  using task_graph_invariant [OF sample_reach] by blast

text \<open>
  C40: The task graph never deadlocks: whenever some task is unfinished (neither completed nor deleted),
  there is an unfinished task that is not blocked and all of whose blockers are finished, so it can
  be claimed, started or completed next.
\<close>

theorem task_graph_progress:
  assumes "graph_reach clock g" and "getTask (tgDb g) i = Some s"
    and "\<not> isSatisfied (Some (stStatus s))"
  shows "\<exists>j t. getTask (tgDb g) j = Some t \<and>
    stStatus t \<in> {T_pending, T_released, T_claimed, T_in_progress} \<and>
    allBlockersCompleted (listDeps (tgDb g)) j (\<lambda>b. isSatisfied (statusOf (tgDb g) b))"
proof -
  have "absOk (absDb (tgDb g))" using reach_ok [OF assms(1)] by (simp add: graphOk_def)
  moreover have "agStatus (absDb (tgDb g)) i = Some (stStatus s)"
    by (simp add: status_getTask [OF assms(2)])
  ultimately obtain j where j: "statusOf (tgDb g) j \<noteq> None" "\<not> sat (statusOf (tgDb g) j)"
    "ready (absDb (tgDb g)) j" "statusOf (tgDb g) j \<noteq> Some T_blocked"
    using some_task_can_move [of "absDb (tgDb g)" i] assms(3) by auto
  then obtain t where t: "getTask (tgDb g) j = Some t" "statusOf (tgDb g) j = Some (stStatus t)"
    by (auto simp: statusOf_def)
  with j have "stStatus t \<in> {T_pending, T_released, T_claimed, T_in_progress}"
    by (cases "stStatus t") (auto simp: sat_def)
  with t j(3) show ?thesis unfolding ready_iff by blast
qed

definition sampleStored :: storedTask where
  "sampleStored = \<lparr>stId = 1, stSubject = ''s'', stDescription = [], stActiveForm = ''a'',
     stOwner = None, stStatus = T_pending, stMetadata = [], stVersion = 1, stCreatedAt = 0,
     stUpdatedAt = 0, stCreatedBy = sampleActor\<rparr>"

lemma sample_stored: "getTask (tgDb sampleGraph) 1 = Some sampleStored"
  by code_simp

lemma task_graph_progress_witness:
  "\<exists>j t. getTask (tgDb sampleGraph) j = Some t \<and>
    stStatus t \<in> {T_pending, T_released, T_claimed, T_in_progress} \<and>
    allBlockersCompleted (listDeps (tgDb sampleGraph)) j
      (\<lambda>b. isSatisfied (statusOf (tgDb sampleGraph) b))"
  by (rule task_graph_progress [OF sample_reach sample_stored])
    (simp add: sampleStored_def sat_def)

text \<open>
  C15: Rebuilding the projection from the log after a crash changes nothing: on every graph that
  operations can produce, the replay of the whole log succeeds and gives the very same database,
  and a listener has seen exactly the committed log, in order.
\<close>

theorem rebuild_changes_nothing:
  assumes "graph_reach clock g"
  shows "rebuildGraph g = (Inr (length (dbLog (tgDb g))), g) \<and> tgNotified g = dbLog (tgDb g)"
  using reach_ok [OF assms] rebuild_consistent [of "tgDb g"]
  by (simp add: graphOk_def rebuildGraph_def)

lemma rebuild_changes_nothing_witness:
  "rebuildGraph sampleGraph = (Inr (length (dbLog (tgDb sampleGraph))), sampleGraph)"
  using rebuild_changes_nothing [OF sample_reach] by blast

lemma graph_steps_mark:
  "(graph_step clock)\<^sup>*\<^sup>* g g' \<Longrightarrow> graphOk g \<Longrightarrow> graphOk g' \<and> dbNextId (tgDb g) \<le> dbNextId (tgDb g')"
proof (induction rule: rtranclp_induct)
  case (step y z)
  then show ?case using graph_step_ok [of clock y z] by auto
qed simp

lemma create_id:
  assumes "fst (create clock input actor g) = Inr t" and "graphOk g"
  shows "tkId t = dbNextId (tgDb g) \<and> dbNextId (tgDb (snd (create clock input actor g))) = dbNextId (tgDb g) + 1"
proof -
  from assms(1) obtain recs db where run: "createTx clock input actor (tgDb g) = Inr ((t, recs), db)"
    and g': "tgDb (snd (create clock input actor g)) = db"
    by (auto simp: create_def transact_def split: option.splits sum.splits prod.splits)
  then obtain rec subj descr act st meta bs s where
    e: "emitTx clock (TaskCreated (dbNextId (tgDb g)) actor subj descr act st meta bs)
          ((tgDb g)\<lparr>dbNextId := Suc (dbNextId (tgDb g))\<rparr>) = Inr (rec, db)"
    and s: "getTask db (dbNextId (tgDb g)) = Some s" "t = toTask s (listDeps db)"
    by (auto simp: createTx_def tx_elims allocateTx_def allocateId_def Let_def
        split: option.splits if_splits dest!: readback_Inr)
  have "stId s = dbNextId (tgDb g)" using nodeOf_Some s(1) by (fastforce simp: getTask_def)
  with s(2) emitTx_Inr [OF e] g' show ?thesis by (simp add: toTask_def)
qed

text \<open>
  Ids only climb and are never reused: a task created later, after any operations at all (deletions
  and rebuilds included), gets a larger id than a task created earlier.
\<close>

theorem task_ids_climb:
  assumes "graph_reach clock g" and "fst (create clock input actor g) = Inr t"
    and "(graph_step clock)\<^sup>*\<^sup>* (snd (create clock input actor g)) g'"
    and "fst (create clock input' actor' g') = Inr t'"
  shows "tkId t < tkId t'"
proof -
  have g: "graphOk g" using reach_ok [OF assms(1)] .
  have g1: "graphOk (snd (create clock input actor g))"
    using graph_step_ok [OF graph_step.intros(1) g] by blast
  from graph_steps_mark [OF assms(3) g1] create_id [OF assms(2) g] create_id [OF assms(4)]
  show ?thesis by auto
qed

definition sampleTask1 :: task where
  "sampleTask1 = toTask sampleStored []"

definition sampleTask2 :: task where
  "sampleTask2 = toTask (sampleStored\<lparr>stId := 2, stCreatedAt := 1, stUpdatedAt := 1\<rparr>) []"

lemma task_ids_climb_witness: "tkId sampleTask1 < tkId sampleTask2"
proof (rule task_ids_climb [OF reach_fresh, of sampleClock "sampleInput []" sampleActor _ _ "sampleInput []" sampleActor])
  show "fst (create sampleClock (sampleInput []) sampleActor freshGraph) = Inr sampleTask1" by code_simp
  show "(graph_step sampleClock)\<^sup>*\<^sup>* (snd (create sampleClock (sampleInput []) sampleActor freshGraph))
      (snd (create sampleClock (sampleInput []) sampleActor freshGraph))" by simp
  show "fst (create sampleClock (sampleInput []) sampleActor
      (snd (create sampleClock (sampleInput []) sampleActor freshGraph))) = Inr sampleTask2" by code_simp
qed

subsection \<open>Operations\<close>

lemma claim_refused:
  assumes "getTask (tgDb g) i = Some s" and "stOwner s = Some w" and "parseOwner w'"
  shows "\<exists>m. claim clock i w' a g = (Inr (ClaimRefused m), g)"
  using assms by (simp add: claim_def transact_def claimTx_def)

text \<open>
  Claiming is exclusive: a claim succeeds exactly when the task exists, is unowned and pending or
  released; the winner owns it, and until it gives the task up every further claim of it, by anyone,
  is refused and changes nothing.
\<close>

theorem claim_is_exclusive:
  assumes "parseOwner w" and "parseOwner w'"
  shows "((\<exists>t. fst (claim clock i w a g) = Inr (ClaimOk t)) \<longleftrightarrow>
      (\<exists>s. getTask (tgDb g) i = Some s \<and> stOwner s = None \<and> isClaimable (stStatus s))) \<and>
    (\<forall>t. fst (claim clock i w a g) = Inr (ClaimOk t) \<longrightarrow>
      tkOwner t = Some w \<and> tkStatus t = T_claimed \<and>
      (\<exists>m. claim clock' i w' a' (snd (claim clock i w a g)) =
         (Inr (ClaimRefused m), snd (claim clock i w a g))))"
proof (cases "\<exists>s. getTask (tgDb g) i = Some s \<and> stOwner s = None \<and> isClaimable (stStatus s)")
  case False
  then have "fst (claim clock i w a g) \<noteq> Inr (ClaimOk t)" for t
    using assms(1)
    by (auto simp: claim_def transact_def claimTx_def split: option.splits sum.splits prod.splits if_splits)
  with False show ?thesis by blast
next
  case True
  then obtain s where s: "getTask (tgDb g) i = Some s" "stOwner s = None" "isClaimable (stStatus s)"
    by blast
  let ?now = "clock (length (dbLog (tgDb g)))"
  let ?p = "(dbProjection (tgDb g))\<lparr>tpNodes := updateNode i
      (\<lambda>r. touch ?now (r\<lparr>stOwner := Some w, stStatus := T_claimed\<rparr>)) (tpNodes (dbProjection (tgDb g)))\<rparr>"
  let ?rec = "\<lparr>teSeq = length (dbLog (tgDb g)) + 1, teEvent = TaskClaimed i a w, teTimestamp = ?now\<rparr>"
  let ?db = "(tgDb g)\<lparr>dbProjection := ?p, dbLog := dbLog (tgDb g) @ [?rec]\<rparr>"
  let ?s = "touch ?now (s\<lparr>stOwner := Some w, stStatus := T_claimed\<rparr>)"
  have got: "getTask ?db i = Some ?s"
    using s(1) by (simp add: getTask_def nodeOf_updateNode)
  have run: "claim clock i w a g =
      (Inr (ClaimOk (toTask ?s (listDeps ?db))), g\<lparr>tgDb := ?db, tgNotified := tgNotified g @ [?rec]\<rparr>)"
    using assms(1) s got
    by (simp add: claim_def transact_def claimTx_def bindTx_def emitTx_def applyEvent_def Let_def
        readback_def returnTx_def)
  have "\<exists>m. claim clock' i w' a' (snd (claim clock i w a g)) =
      (Inr (ClaimRefused m), snd (claim clock i w a g))"
    unfolding run by (rule claim_refused [of _ i ?s w, OF _ _ assms(2)])
      (simp_all add: getTask_def nodeOf_updateNode s(1) [unfolded getTask_def])
  then show ?thesis using s by (auto simp: run toTask_def)
qed

lemma claim_is_exclusive_witness:
  "\<exists>m. claim sampleClock 1 ''x'' sampleActor claimedGraph = (Inr (ClaimRefused m), claimedGraph)"
proof -
  have "\<exists>s. getTask (tgDb sampleGraph) 1 = Some s \<and> stOwner s = None \<and> isClaimable (stStatus s)"
    using sample_stored by (simp add: sampleStored_def task_defs)
  with claim_is_exclusive [of "''w''" "''x''" sampleClock 1 sampleActor sampleGraph sampleClock sampleActor]
  show ?thesis by (auto simp: parseOwner_def claimedGraph_def)
qed

lemma unblockEach_tasks:
  "unblockEach clock actor is records ts db = Inr ((ts', recs), db') \<Longrightarrow>
     map tkId ts' = map tkId ts @ is"
proof (induction "is" arbitrary: records ts db)
  case (Cons i "is")
  then obtain rec db1 s where "getTask db1 i = Some s"
    "unblockEach clock actor is (records @ [rec]) (ts @ [toTask s (listDeps db1)]) db1 = Inr ((ts', recs), db')"
    by (auto simp: tx_elims dest!: readback_Inr)
  moreover from this(1) have "stId s = i" using nodeOf_Some by (fastforce simp: getTask_def)
  ultimately show ?case using Cons.IH by (fastforce simp: toTask_def)
qed simp

text \<open>
  Completing a task reports exactly the work it unblocks: the reported tasks, in ascending order
  and without repetition, are the blocked successors whose other blockers are all finished; each of
  them is pending afterwards, the completed task is completed, and no other status changes.
\<close>

theorem complete_reports_unblocked:
  assumes "fst (complete clock i actor g) = Inr (t, ts)"
  shows "sorted (map tkId ts) \<and> distinct (map tkId ts) \<and>
    set (map tkId ts) = {j. j \<noteq> i \<and> (i, j) \<in> edgeRel (listDeps (tgDb g)) \<and>
      statusOf (tgDb g) j = Some T_blocked \<and>
      (\<forall>b. (b, j) \<in> edgeRel (listDeps (tgDb g)) \<longrightarrow> b = i \<or> isSatisfied (statusOf (tgDb g) b))} \<and>
    statusOf (tgDb g) i = Some T_in_progress \<and>
    (\<forall>j. statusOf (tgDb (snd (complete clock i actor g))) j =
       (if j = i then Some T_completed
        else if j \<in> set (map tkId ts) then Some T_pending else statusOf (tgDb g) j))"
proof -
  from assms obtain recs db where run: "completeTx clock i actor (tgDb g) = Inr (((t, ts), recs), db)"
    and g': "tgDb (snd (complete clock i actor g)) = db"
    by (auto simp: complete_def transact_def split: sum.splits prod.splits)
  then obtain s rec db1 where s: "getTask (tgDb g) i = Some s" "taskCanTransition (stStatus s) T_completed"
    and e: "emitTx clock (TaskStatusChanged i actor T_completed) (tgDb g) = Inr (rec, db1)"
    and u: "unblockDownstream clock i actor [rec] db1 = Inr ((ts, recs), db)"
    by (auto simp: completeTx_def transitionTx_def tx_elims
        split: option.splits if_splits dest!: readback_Inr)
  have st: "statusOf (tgDb g) i = Some T_in_progress"
    using s by (cases "stStatus s") (simp_all add: status_getTask taskCanTransition_def)
  from emitTx_Inr [OF e] st have A1: "absDb db1 = (absDb (tgDb g))\<lparr>agStatus := (statusOf (tgDb g))(i \<mapsto> T_completed)\<rparr>"
    by simp
  have st1: "statusOf db1 = (statusOf (tgDb g))(i \<mapsto> T_completed)"
    and ed1: "edgeRel (listDeps db1) = edgeRel (listDeps (tgDb g))"
    using arg_cong [OF A1, of agStatus] arg_cong [OF A1, of agEdges] by simp_all
  let ?is = "newlyUnblocked (listDeps db1) i (\<lambda>t. statusOf db1 t = Some T_blocked)
      (\<lambda>t. isSatisfied (statusOf db1 t))"
  have loop: "unblockEach clock actor ?is [rec] [] db1 = Inr ((ts, recs), db)"
    using u by (simp add: unblockDownstream_def)
  have ids: "map tkId ts = ?is" using unblockEach_tasks [OF loop] by simp
  have mem: "set ?is = {j. j \<noteq> i \<and> (i, j) \<in> edgeRel (listDeps (tgDb g)) \<and>
      statusOf (tgDb g) j = Some T_blocked \<and>
      (\<forall>b. (b, j) \<in> edgeRel (listDeps (tgDb g)) \<longrightarrow> b = i \<or> isSatisfied (statusOf (tgDb g) b))}"
    unfolding newlyUnblocked_set ed1 st1 by (auto simp: sat_def)
  have "statusOf db1 j \<noteq> None" if "j \<in> set ?is" for j
    using that unfolding newlyUnblocked_set by auto
  from unblockEach_Inr [OF loop this]
  have A2: "absDb db = (absDb db1)\<lparr>agStatus := (\<lambda>j. if j \<in> set ?is then Some T_pending else statusOf db1 j)\<rparr>"
    by blast
  have "statusOf db = (\<lambda>j. if j \<in> set ?is then Some T_pending else statusOf db1 j)"
    using arg_cong [OF A2, of agStatus] by simp
  moreover have "i \<notin> set ?is" unfolding mem by simp
  ultimately have after: "statusOf db j = (if j = i then Some T_completed
      else if j \<in> set ?is then Some T_pending else statusOf (tgDb g) j)" for j
    by (simp add: st1)
  show ?thesis
    unfolding g' ids
    by (rule conjI [OF newlyUnblocked_sorted [THEN conjunct1]
          conjI [OF newlyUnblocked_sorted [THEN conjunct2] conjI [OF mem conjI [OF st allI [OF after]]]]])
qed

definition sampleDone :: task where
  "sampleDone = (toTask (sampleStored\<lparr>stOwner := Some ''w'', stStatus := T_completed, stVersion := 4,
     stUpdatedAt := 4\<rparr>) [edge 1 2])"

definition sampleFreed :: task where
  "sampleFreed = (toTask (sampleStored\<lparr>stId := 2, stVersion := 2, stCreatedAt := 1, stUpdatedAt := 5\<rparr>)
     [edge 1 2])"

lemma complete_reports_unblocked_witness:
  "set (map tkId [sampleFreed]) = {j. j \<noteq> 1 \<and> (1, j) \<in> edgeRel (listDeps (tgDb startedGraph)) \<and>
      statusOf (tgDb startedGraph) j = Some T_blocked \<and>
      (\<forall>b. (b, j) \<in> edgeRel (listDeps (tgDb startedGraph)) \<longrightarrow>
         b = 1 \<or> isSatisfied (statusOf (tgDb startedGraph) b))}"
proof -
  have "fst (complete sampleClock 1 sampleActor startedGraph) = Inr (sampleDone, [sampleFreed])"
    by code_simp
  from complete_reports_unblocked [OF this] show ?thesis by blast
qed

text \<open>
  Work starts only when it may: a successful start finds the task claimed and every one of its
  blockers completed or deleted, and leaves it in progress; otherwise the call fails with the typed
  error and the graph is untouched.
\<close>

theorem start_waits_for_blockers:
  assumes "getTask (tgDb g) i = Some s"
  shows "(if stStatus s = T_claimed \<and>
             allBlockersCompleted (listDeps (tgDb g)) i (\<lambda>b. isSatisfied (statusOf (tgDb g) b))
          then (\<exists>t. fst (start clock i actor g) = Inr t \<and> tkId t = i \<and> tkStatus t = T_in_progress)
          else (\<exists>e. start clock i actor g = (Inl e, g)))"
proof -
  have tc: "taskCanTransition x T_in_progress \<longleftrightarrow> x = T_claimed" for x
    by (cases x) (simp_all add: taskCanTransition_def)
  let ?now = "clock (length (dbLog (tgDb g)))"
  let ?p = "(dbProjection (tgDb g))\<lparr>tpNodes := updateNode i
      (\<lambda>r. touch ?now (r\<lparr>stStatus := T_in_progress\<rparr>)) (tpNodes (dbProjection (tgDb g)))\<rparr>"
  have "nodeOf ?p i = Some (touch ?now (s\<lparr>stStatus := T_in_progress\<rparr>))"
    using assms by (simp add: getTask_def nodeOf_updateNode)
  moreover have "stId s = i" using nodeOf_Some assms by (fastforce simp: getTask_def)
  ultimately show ?thesis
    using assms tc
    by (simp add: start_def transact_def startTx_def transitionTx_def bindTx_def emitTx_def
        applyEvent_def Let_def readback_def returnTx_def getTask_def toTask_def)
qed

lemma start_waits_for_blockers_witness:
  "\<exists>e. start sampleClock 1 sampleActor sampleGraph = (Inl e, sampleGraph)"
  using start_waits_for_blockers [OF sample_stored, of sampleClock sampleActor]
  by (simp add: sampleStored_def)

end
