(* ===== verification/Task_Todo.thy ===== *)
theory Task_Todo
  imports Prelude
begin

text \<open>
  \<^verbatim>\<open>packages/tasks/src/todo.ts\<close>: the turn-local checklist. A call that throws returns its
  error beside the state it leaves behind: a bulk replace whose input fails half-way keeps the old
  entries but has already used up ids.
\<close>

datatype todoStatus = D_pending | D_in_progress | D_completed

record todoInput =
  tiContent :: string
  tiActiveForm :: string
  tiStatus :: "todoStatus option"

record todo =
  tdId :: nat
  tdContent :: string
  tdActiveForm :: string
  tdStatus :: todoStatus
  tdOrder :: nat

record todoProjection =
  tpItems :: "todo list"
  tpActiveLabel :: "string option"
  tpPending :: nat
  tpInProgress :: nat
  tpCompleted :: nat

record todoList =
  tlItems :: "todo list"
  tlNextId :: nat

definition emptyTodos :: todoList where
  "emptyTodos = \<lparr>tlItems = [], tlNextId = 1\<rparr>"

datatype todoError = TE_invalid | TE_missing nat | TE_reorder

definition parseTodo :: "todoInput \<Rightarrow> bool" where
  "parseTodo i \<longleftrightarrow> tiContent i \<noteq> [] \<and> tiActiveForm i \<noteq> []"

definition makeTodo :: "todoInput \<Rightarrow> nat \<Rightarrow> nat \<Rightarrow> todo" where
  "makeTodo i ident order = \<lparr>tdId = ident, tdContent = tiContent i, tdActiveForm = tiActiveForm i,
     tdStatus = (case tiStatus i of None \<Rightarrow> D_pending | Some s \<Rightarrow> s), tdOrder = order\<rparr>"

text \<open>The map over the inputs; each parse comes before the id is taken.\<close>

fun setGo :: "todoInput list \<Rightarrow> nat \<Rightarrow> nat \<Rightarrow> todo list \<Rightarrow> (todoError + todo list) \<times> nat" where
  "setGo [] index nextId acc = (Inr acc, nextId)"
| "setGo (i # is) index nextId acc =
     (if parseTodo i then setGo is (index + 1) (nextId + 1) (acc @ [makeTodo i nextId index])
      else (Inl TE_invalid, nextId))"

definition setTodos :: "todoInput list \<Rightarrow> todoList \<Rightarrow> (todoError + unit) \<times> todoList" where
  "setTodos inputs l =
     (case setGo inputs 0 (tlNextId l) [] of
        (Inl e, n) \<Rightarrow> (Inl e, l\<lparr>tlNextId := n\<rparr>)
      | (Inr items, n) \<Rightarrow> (Inr (), \<lparr>tlItems = items, tlNextId = n\<rparr>))"

definition addTodo :: "todoInput \<Rightarrow> todoList \<Rightarrow> (todoError + nat) \<times> todoList" where
  "addTodo i l =
     (if parseTodo i
      then (Inr (tlNextId l),
            \<lparr>tlItems = tlItems l @ [makeTodo i (tlNextId l) (length (tlItems l))],
             tlNextId = tlNextId l + 1\<rparr>)
      else (Inl TE_invalid, l))"

definition replaceTodo :: "todo \<Rightarrow> todoList \<Rightarrow> todoList" where
  "replaceTodo next l = l\<lparr>tlItems := map (\<lambda>t. if tdId t = tdId next then next else t) (tlItems l)\<rparr>"

definition updateStatus :: "nat \<Rightarrow> todoStatus \<Rightarrow> todoList \<Rightarrow> (todoError + unit) \<times> todoList" where
  "updateStatus i status l =
     (case find (\<lambda>t. tdId t = i) (tlItems l) of
        None \<Rightarrow> (Inl (TE_missing i), l)
      | Some item \<Rightarrow> (Inr (), replaceTodo (item\<lparr>tdStatus := status\<rparr>) l))"

text \<open>The map that puts the requested order in place; \<^verbatim>\<open>new Map\<close> keeps the last entry of a key.\<close>

fun reorderGo :: "(nat \<rightharpoonup> todo) \<Rightarrow> nat list \<Rightarrow> nat \<Rightarrow> todoError + todo list" where
  "reorderGo byId [] index = Inr []"
| "reorderGo byId (i # is) index =
     (case byId i of
        None \<Rightarrow> Inl (TE_missing i)
      | Some item \<Rightarrow>
          (case reorderGo byId is (index + 1) of
             Inl e \<Rightarrow> Inl e
           | Inr items \<Rightarrow> Inr (item\<lparr>tdOrder := index\<rparr> # items)))"

definition reorder :: "nat list \<Rightarrow> todoList \<Rightarrow> (todoError + unit) \<times> todoList" where
  "reorder ids l =
     (let current = uniq (map tdId (tlItems l)); requested = uniq ids in
      if length requested \<noteq> length ids \<or> length requested \<noteq> length current \<or>
         list_ex (\<lambda>i. i \<notin> set requested) current
      then (Inl TE_reorder, l)
      else (case reorderGo (map_of (rev (map (\<lambda>t. (tdId t, t)) (tlItems l)))) ids 0 of
              Inl e \<Rightarrow> (Inl e, l)
            | Inr items \<Rightarrow> (Inr (), l\<lparr>tlItems := items\<rparr>)))"

definition listTodos :: "todoList \<Rightarrow> todo list" where
  "listTodos l = sort_key tdOrder (tlItems l)"

definition projection :: "todoList \<Rightarrow> todoProjection" where
  "projection l =
     (let items = listTodos l in
      \<lparr>tpItems = items,
       tpActiveLabel = map_option tdActiveForm (find (\<lambda>t. tdStatus t = D_in_progress) items),
       tpPending = length (filter (\<lambda>t. tdStatus t = D_pending) items),
       tpInProgress = length (filter (\<lambda>t. tdStatus t = D_in_progress) items),
       tpCompleted = length (filter (\<lambda>t. tdStatus t = D_completed) items)\<rparr>)"

definition snapshot :: "todoList \<Rightarrow> todo list" where
  "snapshot l = listTodos l"

definition fromSnapshot :: "todo list \<Rightarrow> todoList" where
  "fromSnapshot items =
     \<lparr>tlItems = map (\<lambda>(t, index). t\<lparr>tdOrder := index\<rparr>) (zip items [0..<length items]),
      tlNextId = foldl (\<lambda>m t. max m (tdId t)) 0 items + 1\<rparr>"

subsection \<open>Well-formed lists\<close>

definition wfTodos :: "todoList \<Rightarrow> bool" where
  "wfTodos l \<longleftrightarrow> distinct (map tdId (tlItems l)) \<and> (\<forall>t \<in> set (tlItems l). tdId t < tlNextId l) \<and>
     map tdOrder (tlItems l) = [0..<length (tlItems l)]"

lemma setGo_items:
  "setGo is index n acc = (Inr items, m) \<Longrightarrow>
     m = n + length is \<and> map tdId items = map tdId acc @ [n..<m] \<and>
     map tdOrder items = map tdOrder acc @ [index..<index + length is] \<and>
     length items = length acc + length is"
proof (induction "is" arbitrary: index n acc)
  case (Cons i "is")
  then have "setGo is (Suc index) (Suc n) (acc @ [makeTodo i n index]) = (Inr items, m)"
    by (simp split: if_splits)
  from Cons.IH [OF this] show ?case
    by (simp add: makeTodo_def upt_conv_Cons del: upt_Suc)
qed simp

lemma setGo_next: "setGo is index n acc = (r, m) \<Longrightarrow> n \<le> m"
  by (induction "is" arbitrary: index n acc) (fastforce split: if_splits)+

lemma setTodos_wf: "wfTodos l \<Longrightarrow> wfTodos (snd (setTodos inputs l))"
proof -
  assume wf: "wfTodos l"
  obtain r m where go: "setGo inputs 0 (tlNextId l) [] = (r, m)" by fastforce
  show ?thesis
  proof (cases r)
    case (Inl e)
    with wf go setGo_next [OF go] show ?thesis by (auto simp: setTodos_def wfTodos_def)
  next
    case (Inr items)
    with setGo_items [of inputs 0 "tlNextId l" "[]" items m] go
    have items: "map tdId items = [tlNextId l..<m]" "map tdOrder items = [0..<length items]" by auto
    have "tdId t < m" if "t \<in> set items" for t
    proof -
      from that have "tdId t \<in> set (map tdId items)" by simp
      then show ?thesis unfolding items(1) by simp
    qed
    with Inr go items show ?thesis by (simp add: setTodos_def wfTodos_def)
  qed
qed

lemma addTodo_wf: "wfTodos l \<Longrightarrow> wfTodos (snd (addTodo i l))"
  by (force simp: addTodo_def wfTodos_def makeTodo_def)

lemma updateStatus_wf:
  assumes "wfTodos l"
  shows "wfTodos (snd (updateStatus i s l))"
proof (cases "find (\<lambda>t. tdId t = i) (tlItems l)")
  case None
  with assms show ?thesis by (simp add: updateStatus_def)
next
  case (Some item)
  let ?r = "item\<lparr>tdStatus := s\<rparr>"
  let ?f = "\<lambda>t. if tdId t = tdId ?r then ?r else t"
  have "item \<in> set (tlItems l)" "tdId item = i" using find_SomeD [OF Some] by auto
  have same: "t = item" if "t \<in> set (tlItems l)" "tdId t = tdId item" for t
    using that assms \<open>item \<in> set (tlItems l)\<close> by (auto simp: wfTodos_def distinct_map inj_on_def)
  have "map tdId (map ?f (tlItems l)) = map tdId (tlItems l)" by auto
  moreover have "map tdOrder (map ?f (tlItems l)) = map tdOrder (tlItems l)" using same by auto
  moreover have "tdId t < tlNextId l" if "t \<in> set (map ?f (tlItems l))" for t
    using that assms \<open>item \<in> set (tlItems l)\<close> by (auto simp: wfTodos_def split: if_splits)
  moreover have "snd (updateStatus i s l) = l\<lparr>tlItems := map ?f (tlItems l)\<rparr>"
    using Some by (simp add: updateStatus_def replaceTodo_def)
  ultimately show ?thesis
    using assms unfolding wfTodos_def by (simp del: map_map)
qed

lemma reorderGo_Inr:
  "reorderGo m is index = Inr items \<Longrightarrow>
     (\<And>i t. m i = Some t \<Longrightarrow> tdId t = i) \<Longrightarrow>
     map tdId items = is \<and> map tdOrder items = [index..<index + length is] \<and>
     (\<forall>t \<in> set items. \<exists>u o'. m (tdId t) = Some u \<and> t = u\<lparr>tdOrder := o'\<rparr>)"
proof (induction "is" arbitrary: index items)
  case (Cons i "is")
  then obtain item rest where r: "m i = Some item" "reorderGo m is (index + 1) = Inr rest"
    "items = item\<lparr>tdOrder := index\<rparr> # rest"
    by (auto split: option.splits sum.splits)
  from Cons.IH [OF r(2) Cons.prems(2)] r(1,3) Cons.prems(2) [OF r(1)] show ?case
    by (auto simp: upt_conv_Cons simp del: upt_Suc)
qed simp

lemma reorder_wf_ids:
  assumes "wfTodos l" and "fst (reorder ids l) = Inr ()"
  shows "wfTodos (snd (reorder ids l)) \<and> map tdId (listTodos (snd (reorder ids l))) = ids"
proof -
  let ?m = "map_of (rev (map (\<lambda>t. (tdId t, t)) (tlItems l)))"
  have m: "tdId t = i" if "?m i = Some t" for i t
    using map_of_SomeD [OF that] by auto
  from assms(2) obtain items where go: "reorderGo ?m ids 0 = Inr items"
    and l': "snd (reorder ids l) = l\<lparr>tlItems := items\<rparr>"
    and lens: "length (uniq ids) = length ids" "length (uniq ids) = length (uniq (map tdId (tlItems l)))"
    and sub: "\<forall>i \<in> set (map tdId (tlItems l)). i \<in> set ids"
    by (auto simp: reorder_def Let_def list_ex_iff split: if_splits sum.splits)
  from reorderGo_Inr [OF go m] have items: "map tdId items = ids" "map tdOrder items = [0..<length ids]"
    by auto
  have dist: "distinct ids" using lens(1) uniq_set uniq_distinct by (metis card_distinct distinct_card)
  have "card (set ids) = card (set (map tdId (tlItems l)))"
    using lens by (metis distinct_card uniq_distinct uniq_set)
  with sub have ids: "set ids = set (map tdId (tlItems l))"
    by (metis List.finite_set card_subset_eq subsetI)
  have len: "length items = length ids" using items(1) by (metis length_map)
  have "tdId t < tlNextId l" if "t \<in> set items" for t
  proof -
    have "tdId t \<in> set ids" using that items(1) by (metis image_eqI list.set_map)
    then show ?thesis using assms(1) unfolding ids wfTodos_def by auto
  qed
  then have "wfTodos (l\<lparr>tlItems := items\<rparr>)"
    using dist items len by (simp add: wfTodos_def)
  moreover have "sort_key tdOrder items = items"
    using items(2) by (simp add: sort_key_id_if_sorted)
  ultimately show ?thesis using l' items(1) by (simp add: listTodos_def)
qed

lemma fromSnapshot_wf:
  assumes "distinct (map tdId items)"
  shows "wfTodos (fromSnapshot items)"
proof -
  have ids: "map tdId (tlItems (fromSnapshot items)) = map tdId items"
    by (auto simp: fromSnapshot_def intro!: nth_equalityI)
  have orders: "map tdOrder (tlItems (fromSnapshot items)) = [0..<length items]"
    by (auto simp: fromSnapshot_def intro!: nth_equalityI)
  have max: "m \<le> foldl (\<lambda>m t. max m (tdId t)) m ts \<and>
      (\<forall>t \<in> set ts. tdId t \<le> foldl (\<lambda>m t. max m (tdId t)) m ts)" for m and ts :: "todo list"
    by (induction ts arbitrary: m) (auto, meson max.bounded_iff, meson max.bounded_iff)
  have "tdId t < tlNextId (fromSnapshot items)" if "t \<in> set (tlItems (fromSnapshot items))" for t
  proof -
    have "tdId t \<in> set (map tdId items)" using that ids by (metis image_eqI list.set_map)
    then obtain u where "u \<in> set items" "tdId u = tdId t" by auto
    with max [where m = 0 and ts = items] show ?thesis by (auto simp: fromSnapshot_def less_Suc_eq_le)
  qed
  moreover have "length (tlItems (fromSnapshot items)) = length items" by (simp add: fromSnapshot_def)
  ultimately show ?thesis using assms ids orders by (simp add: wfTodos_def)
qed

lemma wf_list: "wfTodos l \<Longrightarrow> listTodos l = tlItems l"
  by (simp add: listTodos_def wfTodos_def sort_key_id_if_sorted)

text \<open>
  A todo list survives compaction: restoring the snapshot of a well-formed list gives back the same
  entries, ids and order included, and the restored list is well formed, so ids it hands out later
  are new.
\<close>

theorem todo_snapshot_roundtrip:
  assumes "wfTodos l"
  shows "listTodos (fromSnapshot (snapshot l)) = listTodos l \<and> wfTodos (fromSnapshot (snapshot l))"
proof -
  have items: "snapshot l = tlItems l" by (simp add: snapshot_def wf_list [OF assms])
  have wf: "wfTodos (fromSnapshot (tlItems l))"
    using assms by (intro fromSnapshot_wf) (simp add: wfTodos_def)
  have "tlItems l ! k = (tlItems l ! k)\<lparr>tdOrder := k\<rparr>" if "k < length (tlItems l)" for k
  proof -
    have "map tdOrder (tlItems l) ! k = k" using assms that by (simp add: wfTodos_def)
    then have "tdOrder (tlItems l ! k) = k" using that by simp
    then show ?thesis by (cases "tlItems l ! k") simp
  qed
  then have "tlItems (fromSnapshot (tlItems l)) = tlItems l"
    by (auto simp: fromSnapshot_def intro!: nth_equalityI)
  with wf items show ?thesis by (simp add: wf_list [OF wf] wf_list [OF assms])
qed

definition sampleTodo :: todoInput where
  "sampleTodo = \<lparr>tiContent = ''c'', tiActiveForm = ''a'', tiStatus = None\<rparr>"

lemma todo_snapshot_roundtrip_witness:
  "listTodos (fromSnapshot (snapshot (snd (addTodo sampleTodo emptyTodos)))) =
     listTodos (snd (addTodo sampleTodo emptyTodos))"
  using todo_snapshot_roundtrip [OF addTodo_wf [of emptyTodos sampleTodo]]
  by (simp add: emptyTodos_def wfTodos_def)

text \<open>
  Reordering is all or nothing: on a well-formed list it succeeds exactly when the request names
  every entry once, the list then stands in the requested order with the same ids, and otherwise
  nothing changes.
\<close>

theorem todo_reorder_exact:
  assumes "wfTodos l"
  shows "(if distinct ids \<and> set ids = tdId ` set (tlItems l)
          then fst (reorder ids l) = Inr () \<and> map tdId (listTodos (snd (reorder ids l))) = ids \<and>
               wfTodos (snd (reorder ids l))
          else reorder ids l = (Inl TE_reorder, l))"
proof -
  have du: "length (uniq xs) = length xs \<longleftrightarrow> distinct xs" for xs :: "nat list"
    by (metis card_distinct distinct_card uniq_distinct uniq_set)
  have len: "length (uniq xs) = card (set xs)" for xs :: "nat list"
    by (metis distinct_card uniq_distinct uniq_set)
  let ?cur = "map tdId (tlItems l)"
  let ?bad = "length (uniq ids) \<noteq> length ids \<or> length (uniq ids) \<noteq> length (uniq ?cur) \<or>
      list_ex (\<lambda>i. i \<notin> set (uniq ids)) (uniq ?cur)"
  have good: "\<not> ?bad \<longleftrightarrow> distinct ids \<and> set ids = set ?cur"
  proof -
    have "set ids = set ?cur" if "card (set ids) = card (set ?cur)" "set ?cur \<subseteq> set ids"
      using that by (metis List.finite_set card_subset_eq)
    then show ?thesis unfolding du unfolding len by (auto simp: list_ex_iff)
  qed
  have total: "\<exists>items. reorderGo m is n = Inr items" if "\<forall>i \<in> set is. m i \<noteq> None" for m n and "is" :: "nat list"
    using that
  proof (induction "is" arbitrary: n)
    case (Cons a "is")
    then obtain x items where "m a = Some x" "reorderGo m is (n + 1) = Inr items" by fastforce
    then show ?case by simp
  qed simp
  show ?thesis
  proof (cases ?bad)
    case True
    then have "reorder ids l = (Inl TE_reorder, l)" unfolding reorder_def Let_def by (simp only: if_True)
    with True good show ?thesis by auto
  next
    case False
    with good have ok: "distinct ids" "set ids = set ?cur" by blast+
    have "\<forall>i \<in> set ids. map_of (rev (map (\<lambda>t. (tdId t, t)) (tlItems l))) i \<noteq> None"
      unfolding ok(2) by (auto simp: map_of_eq_None_iff image_image)
    from total [OF this, of 0] obtain items where
      "reorderGo (map_of (rev (map (\<lambda>t. (tdId t, t)) (tlItems l)))) ids 0 = Inr items" by blast
    with False have "fst (reorder ids l) = Inr ()" unfolding reorder_def Let_def
      by (simp only: if_False sum.case fst_conv)
    with reorder_wf_ids [OF assms this] ok show ?thesis by simp
  qed
qed

lemma todo_reorder_exact_witness:
  "reorder [2] (snd (addTodo sampleTodo emptyTodos)) = (Inl TE_reorder, snd (addTodo sampleTodo emptyTodos))"
proof -
  have "wfTodos (snd (addTodo sampleTodo emptyTodos))"
    by (rule addTodo_wf) (simp add: emptyTodos_def wfTodos_def)
  from todo_reorder_exact [OF this, of "[2]"] show ?thesis
    by (simp add: addTodo_def emptyTodos_def sampleTodo_def parseTodo_def makeTodo_def)
qed

end
