(* ===== verification/Turn_Machine.thy ===== *)
theory Turn_Machine
  imports Protocol_Domain "HOL-Library.Sublist"
begin

text \<open>
  \<^verbatim>\<open>packages/runtime/src/turn-machine.ts\<close>: the turn state machine as an object. A call
  that throws is an \<^verbatim>\<open>Inl\<close> and leaves the machine as it was.
\<close>

record turnMachine =
  tmState :: turnState
  tmReason :: "terminationReason option"
  tmHistory :: "turnState list"

definition newMachine :: "turnState \<Rightarrow> turnMachine" where
  [turn_defs]: "newMachine restored = \<lparr>tmState = restored, tmReason = None, tmHistory = [restored]\<rparr>"

definition machineTerminal :: "turnMachine \<Rightarrow> bool" where
  [turn_defs]: "machineTerminal m = isTerminalTurnState (tmState m)"

datatype machineError = AlreadyTerminal turnState turnState | IllegalTransition turnState turnState

definition transition :: "turnState \<Rightarrow> turnMachine \<Rightarrow> machineError + turnMachine" where
  [turn_defs]: "transition to m =
     (if isTerminalTurnState (tmState m) then Inl (AlreadyTerminal (tmState m) to)
      else if \<not> canTransition (tmState m) to then Inl (IllegalTransition (tmState m) to)
      else Inr (m\<lparr>tmState := to, tmHistory := tmHistory m @ [to]\<rparr>))"

definition terminate ::
  "turnState \<Rightarrow> terminationReason \<Rightarrow> turnMachine \<Rightarrow> machineError + turnMachine" where
  [turn_defs]: "terminate state reason m =
     (case transition state m of Inl e \<Rightarrow> Inl e | Inr m' \<Rightarrow> Inr (m'\<lparr>tmReason := Some reason\<rparr>))"

subsection \<open>The machines a turn can reach\<close>

text \<open>\<^verbatim>\<open>terminate\<close> takes terminal states only; its parameter type says so in the source.\<close>

inductive machine_step :: "turnMachine \<Rightarrow> turnMachine \<Rightarrow> bool" where
  moved: "transition to m = Inr m' \<Longrightarrow> \<not> isTerminalTurnState to \<Longrightarrow> machine_step m m'"
| ended: "terminate to reason m = Inr m' \<Longrightarrow> isTerminalTurnState to \<Longrightarrow> machine_step m m'"

inductive_cases machine_stepE [elim]: "machine_step m m'"

inductive machine_reach :: "turnState \<Rightarrow> turnMachine \<Rightarrow> bool" for start where
  "machine_reach start (newMachine start)"
| "machine_reach start m \<Longrightarrow> machine_step m m' \<Longrightarrow> machine_reach start m'"

fun legalPath :: "turnState list \<Rightarrow> bool" where
  "legalPath (s # t # ts) = (canTransition s t \<and> legalPath (t # ts))"
| "legalPath _ = True"

lemma legalPath_snoc: "xs \<noteq> [] \<Longrightarrow> legalPath (xs @ [t]) \<longleftrightarrow> legalPath xs \<and> canTransition (last xs) t"
  by (induction xs rule: legalPath.induct) auto

lemma transition_Inr:
  "transition to m = Inr m' \<longleftrightarrow> \<not> isTerminalTurnState (tmState m) \<and> canTransition (tmState m) to \<and>
     m' = m\<lparr>tmState := to, tmHistory := tmHistory m @ [to]\<rparr>"
  by (auto simp: transition_def)

lemma terminate_Inr:
  "terminate to reason m = Inr m' \<longleftrightarrow> \<not> isTerminalTurnState (tmState m) \<and> canTransition (tmState m) to \<and>
     m' = m\<lparr>tmState := to, tmHistory := tmHistory m @ [to], tmReason := Some reason\<rparr>"
  by (auto simp: terminate_def transition_Inr split: sum.splits)
    (auto simp: transition_def split: if_splits)

lemma machine_step_form:
  assumes "machine_step m m'"
  obtains to where "\<not> isTerminalTurnState (tmState m)" "canTransition (tmState m) to"
    "tmState m' = to" "tmHistory m' = tmHistory m @ [to]"
    "isTerminalTurnState to \<longrightarrow> tmReason m' \<noteq> None"
    "\<not> isTerminalTurnState to \<longrightarrow> tmReason m' = tmReason m"
  using assms by cases (auto simp: transition_Inr terminate_Inr intro: that)

text \<open>
  The history of a turn is a path of the transition table from its start state to its current one;
  it passes through no terminal state before the end; a turn that moved into a terminal state names
  its reason, and only such a turn has one; and from there no further step is possible.
\<close>

theorem turn_history_is_path:
  assumes "machine_reach start m" and "\<not> isTerminalTurnState start"
  shows "legalPath (tmHistory m) \<and> hd (tmHistory m) = start \<and> last (tmHistory m) = tmState m \<and>
    list_all (\<lambda>s. \<not> isTerminalTurnState s) (butlast (tmHistory m)) \<and>
    (isTerminalTurnState (tmState m) \<longleftrightarrow> tmReason m \<noteq> None) \<and>
    (isTerminalTurnState (tmState m) \<longrightarrow> (\<forall>m'. \<not> machine_step m m'))"
proof -
  have "tmHistory m \<noteq> [] \<and> legalPath (tmHistory m) \<and> hd (tmHistory m) = start \<and>
      last (tmHistory m) = tmState m \<and> list_all (\<lambda>s. \<not> isTerminalTurnState s) (butlast (tmHistory m)) \<and>
      (isTerminalTurnState (tmState m) \<longleftrightarrow> tmReason m \<noteq> None)"
    using assms
  proof (induction rule: machine_reach.induct)
    case 1
    then show ?case by (simp add: newMachine_def)
  next
    case (2 m m')
    from 2(2) obtain to where m': "\<not> isTerminalTurnState (tmState m)" "canTransition (tmState m) to"
      "tmState m' = to" "tmHistory m' = tmHistory m @ [to]"
      "isTerminalTurnState to \<longrightarrow> tmReason m' \<noteq> None"
      "\<not> isTerminalTurnState to \<longrightarrow> tmReason m' = tmReason m"
      by (rule machine_step_form)
    from 2 m'(1) have "list_all (\<lambda>s. \<not> isTerminalTurnState s) (tmHistory m)"
      by (metis append_butlast_last_id list.pred_inject list_all_append)
    with 2 m' show ?case by (auto simp: legalPath_snoc)
  qed
  moreover have "\<not> machine_step m m'" if "isTerminalTurnState (tmState m)" for m'
    using that by (auto simp: transition_Inr terminate_Inr)
  ultimately show ?thesis by blast
qed

lemma turn_history_is_path_witness:
  "\<exists>m. machine_reach S_preparing m \<and> tmState m = S_cancelled \<and> legalPath (tmHistory m) \<and>
     tmReason m \<noteq> None"
proof -
  let ?m = "(newMachine S_preparing)\<lparr>tmState := S_cancelled,
    tmHistory := [S_preparing, S_cancelled], tmReason := Some R_user_cancelled\<rparr>"
  have "machine_step (newMachine S_preparing) ?m"
    by (rule ended [of S_cancelled R_user_cancelled]) (simp_all add: terminate_Inr newMachine_def canTransition_def)
  then have reach: "machine_reach S_preparing ?m"
    by (rule machine_reach.intros(2) [OF machine_reach.intros(1)])
  from turn_history_is_path [OF reach] reach show ?thesis by (intro exI [of _ ?m]) simp
qed

section \<open>Budgets and loops\<close>

text \<open>
  \<^verbatim>\<open>packages/runtime/src/budget.ts\<close>: the budgets of a turn and the detectors of a stuck loop.
  Every method takes the tracker and returns its verdict with the new tracker; the time is the
  argument \<^verbatim>\<open>now\<close>. A verdict is None to continue, or the reason to stop.
\<close>

record budgetLimits =
  blMaxTurns :: int
  blMaxModelCalls :: int
  blMaxToolCalls :: int
  blMaxWallMs :: int
  blMaxRetries :: int
  blMaxNoProgressRounds :: int
  blMaxRepeated :: int

definition DEFAULT_BUDGET :: budgetLimits where
  "DEFAULT_BUDGET = \<lparr>blMaxTurns = 200, blMaxModelCalls = 100, blMaxToolCalls = 1000,
     blMaxWallMs = 8 * 60 * 60 * 1000, blMaxRetries = 10, blMaxNoProgressRounds = 3,
     blMaxRepeated = 3\<rparr>"

definition OSCILLATION_CYCLES :: nat where
  [turn_defs]: "OSCILLATION_CYCLES = 3"

definition MAX_CYCLE_LEN :: nat where
  [turn_defs]: "MAX_CYCLE_LEN = 3"

record budgetTracker =
  btModelCalls :: int
  btToolCalls :: int
  btRetries :: int
  btNoProgress :: int
  btLastSignature :: "string option"
  btRepeated :: int
  btRecent :: "string list"
  btStartMs :: int

type_synonym budgetVerdict = "terminationReason option"

record budgetSnapshot =
  bsModelCalls :: int
  bsToolCalls :: int
  bsElapsedMs :: int
  bsRetries :: int

definition newTracker :: "int \<Rightarrow> budgetTracker" where
  "newTracker now = \<lparr>btModelCalls = 0, btToolCalls = 0, btRetries = 0, btNoProgress = 0,
     btLastSignature = None, btRepeated = 0, btRecent = [], btStartMs = now\<rparr>"

definition trackerSnapshot :: "int \<Rightarrow> budgetTracker \<Rightarrow> budgetSnapshot" where
  "trackerSnapshot now t = \<lparr>bsModelCalls = btModelCalls t, bsToolCalls = btToolCalls t,
     bsElapsedMs = now - btStartMs t, bsRetries = btRetries t\<rparr>"

definition beforeModelCall ::
  "budgetLimits \<Rightarrow> int \<Rightarrow> budgetTracker \<Rightarrow> budgetVerdict \<times> budgetTracker" where
  [turn_defs]: "beforeModelCall lim now t =
     (if now - btStartMs t \<ge> blMaxWallMs lim then (Some R_time_limit, t)
      else if btModelCalls t \<ge> blMaxModelCalls lim then (Some R_model_call_limit, t)
      else (None, t\<lparr>btModelCalls := btModelCalls t + 1\<rparr>))"

definition beforeToolCall ::
  "budgetLimits \<Rightarrow> budgetTracker \<Rightarrow> budgetVerdict \<times> budgetTracker" where
  [turn_defs]: "beforeToolCall lim t =
     (if btToolCalls t \<ge> blMaxToolCalls lim then (Some R_tool_call_limit, t)
      else (None, t\<lparr>btToolCalls := btToolCalls t + 1\<rparr>))"

definition recordRetry :: "budgetLimits \<Rightarrow> budgetTracker \<Rightarrow> budgetVerdict \<times> budgetTracker" where
  [turn_defs]: "recordRetry lim t =
     (let t' = t\<lparr>btRetries := btRetries t + 1\<rparr> in
      if btRetries t' > blMaxRetries lim then (Some R_retry_limit, t') else (None, t'))"

definition afterModelRound ::
  "budgetLimits \<Rightarrow> bool \<Rightarrow> budgetTracker \<Rightarrow> budgetVerdict \<times> budgetTracker" where
  [turn_defs]: "afterModelRound lim madeProgress t =
     (if madeProgress then (None, t\<lparr>btNoProgress := 0\<rparr>)
      else
        let t' = t\<lparr>btNoProgress := btNoProgress t + 1\<rparr> in
        if btNoProgress t' \<ge> blMaxNoProgressRounds lim then (Some R_no_progress, t') else (None, t'))"

text \<open>One turn of the loop over the cycle lengths.\<close>

definition cyclesOf :: "nat \<Rightarrow> string list \<Rightarrow> bool" where
  [turn_defs]: "cyclesOf k s =
     (let need = k * OSCILLATION_CYCLES in
      if length s < need then False
      else
        let window = drop (length s - need) s; cycle = take k window in
        if card (set cycle) < 2 then False
        else list_all (\<lambda>i. window ! i = cycle ! (i mod k)) [0..<length window])"

definition oscillating :: "budgetTracker \<Rightarrow> bool" where
  [turn_defs]: "oscillating t = list_ex (\<lambda>k. cyclesOf k (btRecent t)) [2..<MAX_CYCLE_LEN + 1]"

definition observeToolCall ::
  "budgetLimits \<Rightarrow> string \<Rightarrow> string \<Rightarrow> budgetTracker \<Rightarrow> budgetVerdict \<times> budgetTracker" where
  [turn_defs]: "observeToolCall lim toolName argumentsJson t =
     (let signature = toolName @ CHR 0x00 # argumentsJson;
          same = btLastSignature t = Some signature;
          t1 = (if same then t\<lparr>btRepeated := btRepeated t + 1\<rparr>
                else t\<lparr>btLastSignature := Some signature, btRepeated := 1\<rparr>)
      in if same \<and> btRepeated t1 \<ge> blMaxRepeated lim then (Some R_repeated_identical_calls, t1)
         else
           let pushed = btRecent t1 @ [signature];
               recent = (if length pushed > MAX_CYCLE_LEN * OSCILLATION_CYCLES then tl pushed else pushed);
               t2 = t1\<lparr>btRecent := recent\<rparr>
           in if oscillating t2 then (Some R_oscillation, t2) else (None, t2))"

subsection \<open>Counters stay within the limits\<close>

text \<open>The calls the engine makes on a tracker, with their verdicts.\<close>

datatype budgetCall =
    BC_model int | BC_tool | BC_retry | BC_round bool | BC_observe string string

fun applyCall :: "budgetLimits \<Rightarrow> budgetCall \<Rightarrow> budgetTracker \<Rightarrow> budgetVerdict \<times> budgetTracker" where
  "applyCall lim (BC_model now) t = beforeModelCall lim now t"
| "applyCall lim BC_tool t = beforeToolCall lim t"
| "applyCall lim BC_retry t = recordRetry lim t"
| "applyCall lim (BC_round p) t = afterModelRound lim p t"
| "applyCall lim (BC_observe n a) t = observeToolCall lim n a t"

fun runCalls :: "budgetLimits \<Rightarrow> budgetCall list \<Rightarrow> budgetTracker \<Rightarrow> budgetVerdict list \<times> budgetTracker" where
  "runCalls lim [] t = ([], t)"
| "runCalls lim (c # cs) t =
     (let (v, t1) = applyCall lim c t; (vs, t2) = runCalls lim cs t1 in (v # vs, t2))"

fun isModelCall :: "budgetCall \<Rightarrow> bool" where
  "isModelCall (BC_model _) = True"
| "isModelCall _ = False"

fun isToolCall :: "budgetCall \<Rightarrow> bool" where
  "isToolCall BC_tool = True"
| "isToolCall _ = False"

definition granted :: "(budgetCall \<Rightarrow> bool) \<Rightarrow> budgetCall list \<Rightarrow> budgetVerdict list \<Rightarrow> nat" where
  "granted P cs vs = length (filter (\<lambda>(c, v). P c \<and> v = None) (zip cs vs))"

lemma applyCall_counters:
  "applyCall lim c t = (v, t') \<Longrightarrow>
     btModelCalls t' = btModelCalls t + (if isModelCall c \<and> v = None then 1 else 0) \<and>
     btToolCalls t' = btToolCalls t + (if isToolCall c \<and> v = None then 1 else 0) \<and>
     btModelCalls t' \<le> max (btModelCalls t) (blMaxModelCalls lim) \<and>
     btToolCalls t' \<le> max (btToolCalls t) (blMaxToolCalls lim)"
  by (cases c)
    (auto simp: beforeModelCall_def beforeToolCall_def recordRetry_def afterModelRound_def
      observeToolCall_def Let_def split: if_splits)

lemma runCalls_counters:
  "runCalls lim cs t = (vs, t') \<Longrightarrow>
     btModelCalls t' = btModelCalls t + int (granted isModelCall cs vs) \<and>
     btToolCalls t' = btToolCalls t + int (granted isToolCall cs vs) \<and>
     btModelCalls t' \<le> max (btModelCalls t) (blMaxModelCalls lim) \<and>
     btToolCalls t' \<le> max (btToolCalls t) (blMaxToolCalls lim)"
proof (induction cs arbitrary: t vs)
  case (Cons c cs)
  then obtain v t1 us where s: "applyCall lim c t = (v, t1)" "runCalls lim cs t1 = (us, t')" "vs = v # us"
    by (auto split: prod.splits)
  from Cons.IH [OF s(2)] applyCall_counters [OF s(1)] s(3) show ?case
    by (auto simp: granted_def)
qed (simp add: granted_def)

text \<open>
  In any sequence of calls on a fresh tracker the number of model calls let through is at most the
  model-call limit and the number of tool calls let through at most the tool-call limit (never
  negative), and the counters say exactly how many were let through.
\<close>

theorem budget_limits_hold:
  "granted isModelCall cs (fst (runCalls lim cs (newTracker now))) \<le> nat (blMaxModelCalls lim) \<and>
   granted isToolCall cs (fst (runCalls lim cs (newTracker now))) \<le> nat (blMaxToolCalls lim) \<and>
   btModelCalls (snd (runCalls lim cs (newTracker now))) =
     int (granted isModelCall cs (fst (runCalls lim cs (newTracker now)))) \<and>
   btToolCalls (snd (runCalls lim cs (newTracker now))) =
     int (granted isToolCall cs (fst (runCalls lim cs (newTracker now))))"
  using runCalls_counters [of lim cs "newTracker now" "fst (runCalls lim cs (newTracker now))"
      "snd (runCalls lim cs (newTracker now))"]
  by (auto simp: newTracker_def)

subsection \<open>The loop detectors against their specification\<close>

text \<open>How often the last call of a history has been repeated.\<close>

definition runLength :: "string list \<Rightarrow> nat" where
  "runLength h = length (takeWhile (\<lambda>x. x = last h) (rev h))"

text \<open>The history ends in three repetitions of a cycle of two or three calls, not all equal.\<close>

definition cyclic :: "string list \<Rightarrow> bool" where
  "cyclic h \<longleftrightarrow> (\<exists>c. length c \<in> {2, 3} \<and> card (set c) \<ge> 2 \<and> suffix (c @ c @ c) h)"

definition tracks :: "string list \<Rightarrow> budgetTracker \<Rightarrow> bool" where
  "tracks h t \<longleftrightarrow>
     btLastSignature t = (if h = [] then None else Some (last h)) \<and>
     btRepeated t = int (runLength h) \<and> btRecent t = drop (length h - 9) h"

lemma runLength_snoc:
  "runLength (h @ [s]) = (if h \<noteq> [] \<and> last h = s then runLength h + 1 else 1)"
proof (cases "h = []")
  case False
  then show ?thesis
    by (cases "rev h") (auto simp: runLength_def last_rev [symmetric] hd_rev)
qed (simp add: runLength_def)

lemma mod_window:
  assumes "length w = k * 3" and "0 < k" and "\<forall>i < k * 3. w ! i = c ! (i mod k)" and "length c = k"
  shows "w = c @ c @ c"
proof (rule nth_equalityI)
  fix i assume "i < length w"
  then have i: "i < k * 3" using assms(1) by simp
  have "(c @ c @ c) ! i = c ! (i mod k)"
  proof (cases "i < k")
    case True
    then show ?thesis using assms(4) by (simp add: nth_append)
  next
    case ge: False
    show ?thesis
    proof (cases "i < k + k")
      case True
      then have "i mod k = i - k" using ge by (simp add: mod_if)
      then show ?thesis using True ge assms(4) by (simp add: nth_append)
    next
      case False
      then have "i mod k = i - k - k" using i by (simp add: mod_if)
      then show ?thesis using False ge assms(4) by (simp add: nth_append)
    qed
  qed
  then show "w ! i = (c @ c @ c) ! i" using assms(3) i by simp
qed (use assms in simp)

lemma window_mod:
  assumes "length c = k" and "0 < k" and "i < k * 3"
  shows "(c @ c @ c) ! i = c ! (i mod k)"
proof -
  have "i mod k = (if i < k then i else if i < k + k then i - k else i - k - k)"
    using assms(2,3) by (auto simp: mod_if)
  then show ?thesis using assms by (auto simp: nth_append)
qed

lemma cyclesOf_iff:
  assumes "0 < k"
  shows "cyclesOf k s \<longleftrightarrow> (\<exists>c. length c = k \<and> card (set c) \<ge> 2 \<and> suffix (c @ c @ c) s)"
proof
  assume *: "cyclesOf k s"
  let ?w = "drop (length s - k * 3) s"
  from * have len: "length ?w = k * 3" and two: "card (set (take k ?w)) \<ge> 2"
    and all: "\<forall>i < length ?w. ?w ! i = take k ?w ! (i mod k)"
    by (auto simp: cyclesOf_def OSCILLATION_CYCLES_def Let_def list_all_iff split: if_splits)
  have "?w = take k ?w @ take k ?w @ take k ?w"
    by (rule mod_window [OF len assms]) (use all len in auto)
  then have "suffix (take k ?w @ take k ?w @ take k ?w) s" by (metis suffix_drop)
  moreover have "length (take k ?w) = k" using len by simp
  ultimately show "\<exists>c. length c = k \<and> card (set c) \<ge> 2 \<and> suffix (c @ c @ c) s" using two by blast
next
  assume "\<exists>c. length c = k \<and> card (set c) \<ge> 2 \<and> suffix (c @ c @ c) s"
  then obtain c p where c: "length c = k" "card (set c) \<ge> 2" "s = p @ c @ c @ c"
    by (auto simp: suffix_def)
  then have "drop (length s - k * 3) s = c @ c @ c" by simp
  with c assms window_mod [OF c(1) assms] show "cyclesOf k s"
    by (auto simp: cyclesOf_def OSCILLATION_CYCLES_def Let_def list_all_iff)
qed

lemma suffix_drop_iff: "length xs \<le> n \<Longrightarrow> suffix xs (drop (length h - n) h) \<longleftrightarrow> suffix xs h"
proof
  assume "suffix xs (drop (length h - n) h)"
  then show "suffix xs h" by (meson suffix_drop suffix_order.trans)
next
  assume "length xs \<le> n" "suffix xs h"
  then obtain p where "h = p @ xs" by (auto simp: suffix_def)
  with \<open>length xs \<le> n\<close> show "suffix xs (drop (length h - n) h)"
    by (auto simp: suffix_def intro!: exI [of _ "drop (length h - n) p"])
qed

lemma oscillating_iff: "btRecent t = drop (length h - 9) h \<Longrightarrow> oscillating t \<longleftrightarrow> cyclic h"
proof -
  assume r: "btRecent t = drop (length h - 9) h"
  have "oscillating t \<longleftrightarrow> cyclesOf 2 (btRecent t) \<or> cyclesOf 3 (btRecent t)"
    by (simp add: oscillating_def MAX_CYCLE_LEN_def upt_conv_Cons)
  also have "\<dots> \<longleftrightarrow> cyclic h"
    unfolding cyclic_def r by (auto simp: cyclesOf_iff suffix_drop_iff)
  finally show ?thesis .
qed

lemma observe_step:
  fixes name args :: string
  assumes "tracks h t"
  defines "s \<equiv> name @ CHR 0x00 # args"
  shows "(if runLength (h @ [s]) \<ge> 2 \<and> int (runLength (h @ [s])) \<ge> blMaxRepeated lim
          then fst (observeToolCall lim name args t) = Some R_repeated_identical_calls
          else fst (observeToolCall lim name args t) =
                 (if cyclic (h @ [s]) then Some R_oscillation else None) \<and>
               tracks (h @ [s]) (snd (observeToolCall lim name args t)))"
proof -
  define same where "same \<longleftrightarrow> h \<noteq> [] \<and> last h = s"
  have last: "btLastSignature t = Some s \<longleftrightarrow> same"
    using assms(1) by (auto simp: tracks_def same_def)
  have ge: "runLength (h @ [s]) \<ge> 2 \<longleftrightarrow> same"
  proof -
    have "0 < runLength h" if "h \<noteq> []"
      using that by (cases "rev h") (auto simp: runLength_def hd_rev [symmetric])
    then show ?thesis by (auto simp: runLength_snoc same_def)
  qed
  have rep: "btRepeated t + 1 = int (runLength (h @ [s]))" if same
    using that assms(1) by (simp add: tracks_def runLength_snoc same_def)
  define recent where "recent = (if length (btRecent t @ [s]) > 9 then tl (btRecent t @ [s])
      else btRecent t @ [s])"
  have r: "recent = drop (length (h @ [s]) - 9) (h @ [s])"
  proof (cases "length h < 9")
    case True
    then show ?thesis using assms(1) by (simp add: recent_def tracks_def)
  next
    case False
    have b: "btRecent t = drop (length h - 9) h" using assms(1) by (simp add: tracks_def)
    have "length (btRecent t) = 9" unfolding b using False by simp
    then have "recent = tl (btRecent t) @ [s]" unfolding recent_def by (cases "btRecent t") auto
    also have "tl (btRecent t) = drop (Suc (length h - 9)) h" unfolding b by (simp add: drop_Suc tl_drop)
    moreover have "Suc (length h - 9) = length h - 8" using False by simp
    ultimately show ?thesis using False by simp
  qed
  define t2 where "t2 = t\<lparr>btLastSignature := Some s,
      btRepeated := (if same then btRepeated t + 1 else 1), btRecent := recent\<rparr>"
  have tr: "tracks (h @ [s]) t2"
    using assms(1) r rep by (auto simp: t2_def tracks_def runLength_snoc same_def)
  have osc: "oscillating t2 \<longleftrightarrow> cyclic (h @ [s])"
    by (rule oscillating_iff) (simp add: t2_def r)
  have "observeToolCall lim name args t =
      (if same \<and> btRepeated t + 1 \<ge> blMaxRepeated lim
       then (Some R_repeated_identical_calls, t\<lparr>btRepeated := btRepeated t + 1\<rparr>)
       else (if oscillating t2 then Some R_oscillation else None, t2))"
  proof (cases same)
    case True
    then have "t\<lparr>btLastSignature := Some s\<rparr> = t" using last by (cases t) simp
    then have "t2 = t\<lparr>btRepeated := btRepeated t + 1, btRecent := recent\<rparr>"
      unfolding t2_def using True by (cases t) simp
    with True last show ?thesis
      unfolding observeToolCall_def s_def [symmetric] Let_def MAX_CYCLE_LEN_def OSCILLATION_CYCLES_def
      by (simp add: recent_def)
  next
    case False
    with last show ?thesis
      unfolding observeToolCall_def s_def [symmetric] Let_def MAX_CYCLE_LEN_def OSCILLATION_CYCLES_def
      by (simp add: recent_def t2_def)
  qed
  then show ?thesis using ge rep osc tr by auto
qed

text \<open>Observing calls one after the other, as long as none of them stops the turn.\<close>

fun observeAll :: "budgetLimits \<Rightarrow> (string \<times> string) list \<Rightarrow> budgetTracker \<Rightarrow> budgetTracker option" where
  "observeAll lim [] t = Some t"
| "observeAll lim ((name, args) # cs) t =
     (case observeToolCall lim name args t of
        (None, t') \<Rightarrow> observeAll lim cs t'
      | (Some _, _) \<Rightarrow> None)"

definition signatureOf :: "string \<times> string \<Rightarrow> string" where
  "signatureOf c = fst c @ CHR 0x00 # snd c"

lemma observeAll_tracks:
  "observeAll lim cs t = Some t' \<Longrightarrow> tracks h t \<Longrightarrow> tracks (h @ map signatureOf cs) t'"
proof (induction cs arbitrary: h t)
  case (Cons c cs)
  obtain name args where c: "c = (name, args)" by fastforce
  with Cons.prems(1) obtain t1 where t1: "observeToolCall lim name args t = (None, t1)"
    "observeAll lim cs t1 = Some t'" by (auto split: prod.splits option.splits)
  from observe_step [OF Cons.prems(2), of name args lim] t1(1)
  have "tracks (h @ [signatureOf c]) t1"
    by (auto simp: c signatureOf_def split: if_splits)
  from Cons.IH [OF t1(2) this] show ?case by simp
qed simp

text \<open>
  The loop detectors see exactly the loops: after any calls that were let through, the next call is
  stopped as repeated when the history with it ends in at least two and at least the limit of
  identical calls; otherwise it is stopped as an oscillation exactly when that history ends in three
  repetitions of a cycle of two or three calls that are not all equal; and otherwise it goes through.
  Keeping only the last nine signatures loses nothing.
\<close>

theorem loop_detectors_exact:
  assumes "observeAll lim calls (newTracker now) = Some t"
  shows "let h = map signatureOf (calls @ [(name, args)]) in
    fst (observeToolCall lim name args t) =
    (if runLength h \<ge> 2 \<and> int (runLength h) \<ge> blMaxRepeated lim then Some R_repeated_identical_calls
     else if cyclic h then Some R_oscillation
     else None)"
proof -
  have "tracks [] (newTracker now)" by (simp add: tracks_def newTracker_def runLength_def)
  from observeAll_tracks [OF assms(1) this] have "tracks (map signatureOf calls) t" by simp
  from observe_step [OF this, of name args lim] show ?thesis
    by (auto simp: Let_def signatureOf_def split: if_splits)
qed

definition sampleCalls :: "(string \<times> string) list" where
  "sampleCalls = [(''a'', ''1''), (''b'', ''1''), (''a'', ''1''), (''b'', ''1''), (''a'', ''1'')]"

lemma loop_detectors_exact_witness:
  "fst (observeToolCall DEFAULT_BUDGET ''b'' ''1'' (the (observeAll DEFAULT_BUDGET sampleCalls (newTracker 0))))
     = Some R_oscillation"
proof -
  have "observeAll DEFAULT_BUDGET sampleCalls (newTracker 0) =
      Some (the (observeAll DEFAULT_BUDGET sampleCalls (newTracker 0)))" by code_simp
  note exact = loop_detectors_exact [OF this, of "''b''" "''1''"]
  have "runLength (map signatureOf (sampleCalls @ [(''b'', ''1'')])) = 1" by code_simp
  moreover have "cyclic (map signatureOf (sampleCalls @ [(''b'', ''1'')]))"
    unfolding cyclic_def by (rule exI [of _ "[signatureOf (''a'', ''1''), signatureOf (''b'', ''1'')]"])
      (simp add: sampleCalls_def signatureOf_def)
  ultimately show ?thesis using exact by (simp add: Let_def)
qed

end
