(* ===== verification/Turn_Normalizer.thy ===== *)
theory Turn_Normalizer
  imports Protocol_Domain Policy_Action
begin

text \<open>
  \<^verbatim>\<open>packages/provider-core/src/events.ts\<close> and \<^verbatim>\<open>usage.ts\<close>, and
  \<^verbatim>\<open>packages/runtime/src/normalizer.ts\<close>: the normalized stream of a model round, token usage
  with its unknowns, and the fold of a stream into the outcome of the round.
\<close>

datatype finishReason = F_stop | F_tool_calls | F_length | F_content_filter | F_unknown

record normalizedUsage =
  nuInput :: "int option"
  nuOutput :: "int option"
  nuTotal :: "int option"
  nuReasoning :: "int option"
  nuCached :: "int option"

definition UNKNOWN_USAGE :: normalizedUsage where
  "UNKNOWN_USAGE = \<lparr>nuInput = None, nuOutput = None, nuTotal = None, nuReasoning = None,
     nuCached = None\<rparr>"

definition addCount :: "int option \<Rightarrow> int option \<Rightarrow> int option" where
  "addCount x y =
     (if x = None \<and> y = None then None
      else Some ((case x of None \<Rightarrow> 0 | Some v \<Rightarrow> v) + (case y of None \<Rightarrow> 0 | Some v \<Rightarrow> v)))"

definition addUsage :: "normalizedUsage \<Rightarrow> normalizedUsage \<Rightarrow> normalizedUsage" where
  "addUsage a b = \<lparr>nuInput = addCount (nuInput a) (nuInput b),
     nuOutput = addCount (nuOutput a) (nuOutput b), nuTotal = addCount (nuTotal a) (nuTotal b),
     nuReasoning = addCount (nuReasoning a) (nuReasoning b),
     nuCached = addCount (nuCached a) (nuCached b)\<rparr>"

text \<open>The constructors take the fields of the event in the order of the source.\<close>

datatype streamEvent =
    RequestId string
  | TextDelta string string
  | TextDone string string
  | SummaryDelta string string
  | SummaryDone string string
  | ReasoningStatus "int option"
  | ToolCallBegin string string string
  | ToolCallComplete string string string string "(string \<times> jsValue) list"
  | UsageEvent normalizedUsage
  | ErrorEvent harnessErrorData
  | DoneEvent finishReason

record toolCall =
  tcItemId :: string
  tcCallId :: string
  tcToolName :: string
  tcArgumentsJson :: string
  tcArguments :: "(string \<times> jsValue) list"

record normalizedRound =
  nrText :: string
  nrSummary :: "string option"
  nrReasoningOccurred :: bool
  nrToolCalls :: "toolCall list"
  nrUsage :: "normalizedUsage option"
  nrRequestId :: "string option"
  nrFinish :: "finishReason option"
  nrErrors :: "harnessErrorData list"

record roundNormalizer =
  rnText :: string
  rnSummary :: string
  rnSummarySeen :: bool
  rnReasoningOccurred :: bool
  rnToolCalls :: "toolCall list"
  rnUsage :: "normalizedUsage option"
  rnRequestId :: "string option"
  rnFinish :: "finishReason option"
  rnErrors :: "harnessErrorData list"

definition newNormalizer :: roundNormalizer where
  "newNormalizer = \<lparr>rnText = [], rnSummary = [], rnSummarySeen = False, rnReasoningOccurred = False,
     rnToolCalls = [], rnUsage = None, rnRequestId = None, rnFinish = None, rnErrors = []\<rparr>"

fun accept :: "streamEvent \<Rightarrow> roundNormalizer \<Rightarrow> roundNormalizer" where
  "accept (RequestId r) n = n\<lparr>rnRequestId := Some r\<rparr>"
| "accept (TextDelta _ d) n = n\<lparr>rnText := rnText n @ d\<rparr>"
| "accept (TextDone _ t) n = n\<lparr>rnText := t\<rparr>"
| "accept (SummaryDelta _ d) n = n\<lparr>rnSummary := rnSummary n @ d, rnSummarySeen := True\<rparr>"
| "accept (SummaryDone _ s) n = n\<lparr>rnSummary := s, rnSummarySeen := True\<rparr>"
| "accept (ReasoningStatus _) n = n\<lparr>rnReasoningOccurred := True\<rparr>"
| "accept (ToolCallBegin _ _ _) n = n"
| "accept (ToolCallComplete i c t j a) n =
     n\<lparr>rnToolCalls := rnToolCalls n @ [\<lparr>tcItemId = i, tcCallId = c, tcToolName = t,
         tcArgumentsJson = j, tcArguments = a\<rparr>]\<rparr>"
| "accept (UsageEvent u) n = n\<lparr>rnUsage := Some u\<rparr>"
| "accept (DoneEvent f) n = n\<lparr>rnFinish := Some f\<rparr>"
| "accept (ErrorEvent e) n = n\<lparr>rnErrors := rnErrors n @ [e]\<rparr>"

definition finish :: "roundNormalizer \<Rightarrow> normalizedRound" where
  "finish n = \<lparr>nrText = rnText n, nrSummary = (if rnSummarySeen n then Some (rnSummary n) else None),
     nrReasoningOccurred = (rnReasoningOccurred n \<or> rnSummarySeen n), nrToolCalls = rnToolCalls n,
     nrUsage = rnUsage n, nrRequestId = rnRequestId n, nrFinish = rnFinish n, nrErrors = rnErrors n\<rparr>"

definition normalizeRound :: "streamEvent list \<Rightarrow> normalizedRound" where
  "normalizeRound events = finish (fold accept events newNormalizer)"

subsection \<open>What a round contains, read off the stream\<close>

fun callOf :: "streamEvent \<Rightarrow> toolCall option" where
  "callOf (ToolCallComplete i c t j a) = Some \<lparr>tcItemId = i, tcCallId = c, tcToolName = t,
     tcArgumentsJson = j, tcArguments = a\<rparr>"
| "callOf _ = None"

fun errorOf :: "streamEvent \<Rightarrow> harnessErrorData option" where
  "errorOf (ErrorEvent e) = Some e"
| "errorOf _ = None"

fun isTextDone :: "streamEvent \<Rightarrow> bool" where
  "isTextDone (TextDone _ _) = True"
| "isTextDone _ = False"

fun textOf :: "streamEvent \<Rightarrow> string" where
  "textOf (TextDelta _ d) = d"
| "textOf (TextDone _ t) = t"
| "textOf _ = []"

fun showsReasoning :: "streamEvent \<Rightarrow> bool" where
  "showsReasoning (SummaryDelta _ _) = True"
| "showsReasoning (SummaryDone _ _) = True"
| "showsReasoning _ = False"

text \<open>The events from the last authoritative text on, or all of them.\<close>

definition sinceTextDone :: "streamEvent list \<Rightarrow> streamEvent list" where
  "sinceTextDone es =
     (let tail = rev (takeWhile (\<lambda>e. \<not> isTextDone e) (rev es)) in
      if list_ex isTextDone es then drop (length es - length tail - 1) es else es)"

lemma sinceTextDone_snoc:
  "sinceTextDone (es @ [e]) = (if isTextDone e then [e] else sinceTextDone es @ [e])"
  by (auto simp: sinceTextDone_def Let_def Suc_diff_le length_takeWhile_le)

lemma fold_accept:
  "rnToolCalls (fold accept es newNormalizer) = List.map_filter callOf es \<and>
   rnErrors (fold accept es newNormalizer) = List.map_filter errorOf es \<and>
   rnText (fold accept es newNormalizer) = concat (map textOf (sinceTextDone es)) \<and>
   (rnSummarySeen (fold accept es newNormalizer) \<longleftrightarrow> list_ex showsReasoning es)"
proof (induction es rule: rev_induct)
  case Nil
  then show ?case by (simp add: newNormalizer_def sinceTextDone_def)
next
  case (snoc e es)
  then show ?case by (cases e) (simp_all add: sinceTextDone_snoc List.map_filter_def)
qed

text \<open>
  A round holds exactly what the stream said: its tool calls are the completed calls of the stream
  in order (a call that only began is no call), its errors all stream errors in order, its text the
  last authoritative text with the deltas after it, and it has a reasoning summary exactly when the
  stream carried summary text; a bare reasoning status never becomes one.
\<close>

theorem round_faithful:
  "nrToolCalls (normalizeRound es) = List.map_filter callOf es \<and>
   nrErrors (normalizeRound es) = List.map_filter errorOf es \<and>
   nrText (normalizeRound es) = concat (map textOf (sinceTextDone es)) \<and>
   (nrSummary (normalizeRound es) \<noteq> None \<longleftrightarrow> list_ex showsReasoning es)"
  using fold_accept [of es] by (simp add: normalizeRound_def finish_def)

text \<open>
  Token usage adds up as a commutative monoid with the unknown usage as its unit: an unknown count
  stays unknown only as long as every summand is unknown, so totals do not depend on the order in
  which rounds are added.
\<close>

theorem usage_monoid:
  "addUsage a b = addUsage b a \<and> addUsage (addUsage a b) c = addUsage a (addUsage b c) \<and>
   addUsage a UNKNOWN_USAGE = a"
proof -
  have comm: "addCount (f a) (f b) = addCount (f b) (f a)" for f :: "normalizedUsage \<Rightarrow> int option" by (auto simp: addCount_def)
  have assoc: "addCount (addCount x y) z = addCount x (addCount y z)" for x y z
    by (cases x; cases y; cases z) (simp_all add: addCount_def)
  have unit: "addCount x None = x" for x by (cases x) (simp_all add: addCount_def)
  have "addUsage a b = addUsage b a"
    by (simp add: addUsage_def comm [of nuInput] comm [of nuOutput] comm [of nuTotal]
        comm [of nuReasoning] comm [of nuCached])
  moreover have "addUsage (addUsage a b) c = addUsage a (addUsage b c)"
    by (simp add: addUsage_def assoc)
  moreover have "addUsage a UNKNOWN_USAGE = a" by (simp add: addUsage_def UNKNOWN_USAGE_def unit)
  ultimately show ?thesis by blast
qed

end
