(* ===== verification/Turn_Retry.thy ===== *)
theory Turn_Retry
  imports Protocol_Domain Complex_Main
begin

text \<open>
  \<^verbatim>\<open>packages/provider-core/src/retry.ts\<close>: bounded retry with full jitter. A draw of the
  random source is a rational number; a draw outside the half-open unit interval raises the
  \<^verbatim>\<open>RangeError\<close> of the source. (Rounding of the floating-point product can move a delay by
  one below an integer, never above the bound.)
\<close>

record retryPolicy =
  rpMaxAttempts :: int
  rpMaxElapsedMs :: int
  rpBaseDelayMs :: int
  rpMaxDelayMs :: int
  rpHonorServerHint :: bool

definition DEFAULT_RETRY_POLICY :: retryPolicy where
  "DEFAULT_RETRY_POLICY = \<lparr>rpMaxAttempts = 10, rpMaxElapsedMs = 5 * 60 * 1000, rpBaseDelayMs = 500,
     rpMaxDelayMs = 30000, rpHonorServerHint = True\<rparr>"

definition backoffBoundMs :: "retryPolicy \<Rightarrow> int \<Rightarrow> int" where
  "backoffBoundMs policy attempt =
     min (rpMaxDelayMs policy) (rpBaseDelayMs policy * 2 ^ nat (max 0 attempt))"

datatype retryError = RngOutOfRange

definition fullJitterDelayMs :: "retryPolicy \<Rightarrow> int \<Rightarrow> rat \<Rightarrow> retryError + int" where
  "fullJitterDelayMs policy attempt r =
     (let bound = backoffBoundMs policy attempt in
      if r < 0 \<or> r \<ge> 1 then Inl RngOutOfRange
      else Inr \<lfloor>r * (of_int bound + 1)\<rfloor>)"

record retryState =
  rsAttempt :: int
  rsElapsedMs :: int

datatype retryRefusal =
    Q_not_retryable | Q_user_action_required | Q_visible_output_emitted | Q_side_effect_uncertain
  | Q_attempts_exhausted | Q_time_exhausted

datatype retryDecision = Retry int | NoRetry retryRefusal

definition decideRetry ::
  "harnessErrorData \<Rightarrow> retryState \<Rightarrow> rat \<Rightarrow> retryPolicy \<Rightarrow> retryError + retryDecision" where
  "decideRetry e st r policy =
     (if \<not> heRetryable e then Inr (NoRetry Q_not_retryable)
      else if heUserActionRequired e then Inr (NoRetry Q_user_action_required)
      else if heVisibleOutputEmitted e then Inr (NoRetry Q_visible_output_emitted)
      else if heSideEffectCertainty e \<noteq> X_none \<and> heSideEffectCertainty e \<noteq> X_not_started
        then Inr (NoRetry Q_side_effect_uncertain)
      else if rsAttempt st \<ge> rpMaxAttempts policy then Inr (NoRetry Q_attempts_exhausted)
      else if rsElapsedMs st \<ge> rpMaxElapsedMs policy then Inr (NoRetry Q_time_exhausted)
      else case fullJitterDelayMs policy (rsAttempt st - 1) r of
             Inl err \<Rightarrow> Inl err
           | Inr jittered \<Rightarrow>
               let delayMs = (case (rpHonorServerHint policy, heRetryAfterMs e) of
                                (True, Some hint) \<Rightarrow> int hint
                              | _ \<Rightarrow> jittered)
               in if rsElapsedMs st + delayMs > rpMaxElapsedMs policy
                  then Inr (NoRetry Q_time_exhausted)
                  else Inr (Retry delayMs))"

lemma jitter_bounds:
  assumes "fullJitterDelayMs policy attempt r = Inr d" and "0 \<le> rpBaseDelayMs policy" "0 \<le> rpMaxDelayMs policy"
  shows "0 \<le> d \<and> d \<le> backoffBoundMs policy attempt"
proof -
  let ?b = "backoffBoundMs policy attempt"
  from assms(1) have r: "0 \<le> r" "r < 1" and d: "d = \<lfloor>r * (of_int ?b + 1)\<rfloor>"
    by (auto simp: fullJitterDelayMs_def Let_def not_less split: if_splits)
  have b: "0 \<le> ?b" using assms(2,3) by (simp add: backoffBoundMs_def)
  have "r * (of_int ?b + 1) < 1 * (of_int ?b + 1)"
    using r b by (intro mult_strict_right_mono) (auto simp: add_pos_nonneg add_nonneg_pos)
  then have "d < ?b + 1" unfolding d floor_less_iff by simp
  moreover have "0 \<le> r * (of_int ?b + 1)" using r b by simp
  then have "0 \<le> d" unfolding d by simp
  ultimately show ?thesis by simp
qed

text \<open>
  A retry is decided only when it is transparent and within every budget: the error allows a
  transparent retry, fewer than the maximal number of attempts have been made, and waiting does not
  go beyond the elapsed-time limit; the delay is the server's hint where that is honoured, and
  otherwise lies between zero and the exponential bound, which never exceeds the cap.
\<close>

theorem retry_decision_sound:
  assumes "decideRetry e st r policy = Inr (Retry d)"
    and "0 \<le> rpBaseDelayMs policy" and "0 \<le> rpMaxDelayMs policy"
  shows "canRetryTransparently e \<and> rsAttempt st < rpMaxAttempts policy \<and>
    rsElapsedMs st + d \<le> rpMaxElapsedMs policy \<and> 0 \<le> d \<and>
    (if rpHonorServerHint policy \<and> heRetryAfterMs e \<noteq> None then Some (nat d) = heRetryAfterMs e
     else d \<le> backoffBoundMs policy (rsAttempt st - 1) \<and> d \<le> rpMaxDelayMs policy)"
proof -
  have le: "backoffBoundMs policy k \<le> rpMaxDelayMs policy" for k by (simp add: backoffBoundMs_def)
  from assms(1) obtain j where j: "fullJitterDelayMs policy (rsAttempt st - 1) r = Inr j"
    and d: "d = (case (rpHonorServerHint policy, heRetryAfterMs e) of (True, Some h) \<Rightarrow> int h | _ \<Rightarrow> j)"
    by (auto simp: decideRetry_def Let_def split: if_splits sum.splits)
  from assms(1) have "canRetryTransparently e" "rsAttempt st < rpMaxAttempts policy"
    "rsElapsedMs st + d \<le> rpMaxElapsedMs policy"
    by (auto simp: decideRetry_def canRetryTransparently_def Let_def split: if_splits sum.splits)
  with jitter_bounds [OF j assms(2,3)] le [of "rsAttempt st - 1"] d show ?thesis
    by (cases "rpHonorServerHint policy"; cases "heRetryAfterMs e") auto
qed

definition sampleFault :: harnessErrorData where
  "sampleFault = (harnessError O_provider ''provider.unavailable'' [])\<lparr>heRetryable := True\<rparr>"

lemma sample_retry:
  "decideRetry sampleFault \<lparr>rsAttempt = 1, rsElapsedMs = 0\<rparr> (1 / 2) DEFAULT_RETRY_POLICY = Inr (Retry 250)"
proof -
  have "\<lfloor>501 / (2 :: rat)\<rfloor> = 250" by (simp add: floor_eq_iff)
  then show ?thesis
    by (simp add: decideRetry_def sampleFault_def harnessError_def DEFAULT_RETRY_POLICY_def
        fullJitterDelayMs_def backoffBoundMs_def)
qed

lemma retry_decision_sound_witness:
  "canRetryTransparently sampleFault \<and> (250::int) \<le> rpMaxDelayMs DEFAULT_RETRY_POLICY"
  using retry_decision_sound [OF sample_retry]
  by (simp add: DEFAULT_RETRY_POLICY_def sampleFault_def harnessError_def)

end
