(* ===== verification/Protocol_Events.thy ===== *)
theory Protocol_Events
  imports Protocol_Domain Policy_Action
begin

text \<open>
  \<^verbatim>\<open>packages/protocol/src/events.ts\<close> and the items of \<^verbatim>\<open>domain.ts\<close>: the payloads of the
  durable log and the envelope they travel in. Identifiers are strings, a nullable field is an
  option, and a datatype has one constructor for each variant of the source's union, with the
  variant's fields in the order of the source.
\<close>

subsection \<open>Side effects\<close>

datatype sideEffectState =
    E_not_started | E_in_flight | E_known_complete | E_known_failed | E_indeterminate

datatype sideEffectKind =
    K_file_write | K_file_edit | K_patch | K_shell | K_git | K_network | K_mcp | K_other

record sideEffectIntent =
  siSideEffectId :: string
  siIdempotencyKey :: string
  siKind :: sideEffectKind
  siDestructive :: bool
  siNormalizedAction :: string

subsection \<open>Items\<close>

datatype approvalScope = Sc_once | Sc_session | Sc_rule

datatype policyOutcome = Po_allow | Po_deny | Po_ask | Po_passthrough

datatype compactionTrigger = Ct_proactive | Ct_reactive_overflow | Ct_manual

datatype itemBody =
    UserMessage string
  | AssistantMessage string bool
  | ReasoningSummary string bool
  | ReasoningOccurred "int option"
  | ToolCallItem string string string "(string \<times> jsValue) list option"
  | ToolResult string string bool string "string option" bool int "string option"
  | ApprovalItem "string option" policyOutcome "approvalScope option" string actor
  | ErrorItem string string bool "string option"
  | UsageItem "int option" "int option" "int option" "int option" "int option"
  | CompactionItem compactionTrigger string string nat nat
  | UserShell string "int option" string bool

record item =
  itId :: string
  itTurnId :: string
  itThreadId :: string
  itSeq :: nat
  itCreatedAt :: int
  itBody :: itemBody

subsection \<open>Payloads and events\<close>

datatype riskLevel = Risk_low | Risk_medium | Risk_high

datatype hookOutcome = Ho_continue | Ho_block | Ho_context | Ho_modify | Ho_stop

datatype eventPayload =
    ThreadCreated string "string option" "string option"
  | ThreadForked string nat
  | ThreadRenamed string
  | ThreadArchived
  | CwdChanged string string
  | TurnStarted string
  | TurnStateChanged turnState turnState
  | TurnEnded turnState terminationReason
  | ItemAppended item
  | ItemUpdated item
  | ModelRequestStarted string string string
  | ModelRequestCompleted "string option" string
  | ModelRequestFailed "string option" string bool string
  | SideEffectIntended sideEffectIntent
  | SideEffectStarted string
  | SideEffectSettled string sideEffectState "string option"
  | PolicyDecided "string option" string policyOutcome string string
  | ApprovalRequested "string option" string riskLevel
  | ApprovalResolved "string option" bool "approvalScope option"
  | HookFired string string hookOutcome int
  | BudgetWarning string int int
  | CancelledPayload string
  | UnknownPayload string jsValue

text \<open>What a caller of \<^verbatim>\<open>append\<close> hands over (\<^verbatim>\<open>causationId\<close> is always the default).\<close>

record appendInput =
  aiThreadId :: string
  aiTurnId :: "string option"
  aiItemId :: "string option"
  aiActor :: actor
  aiCorrelationId :: string
  aiPermissionProfile :: permissionProfile
  aiPayload :: eventPayload

record harnessEvent =
  evId :: string
  evSchemaVersion :: nat
  evSeq :: nat
  evTimestamp :: int
  evThreadId :: string
  evTurnId :: "string option"
  evItemId :: "string option"
  evActor :: actor
  evCorrelationId :: string
  evPermissionProfile :: permissionProfile
  evPayload :: eventPayload

definition SCHEMA_VERSION :: nat where
  "SCHEMA_VERSION = 1"

end
