(* ===== verification/Turn_Effects.thy ===== *)
theory Turn_Effects
  imports Turn_Machine Turn_Normalizer Turn_Retry Protocol_Events
begin

text \<open>
  \<^verbatim>\<open>packages/runtime/src/turn-engine.ts\<close>: the agent loop of one turn. The engine touches the
  world only through injected interfaces, so the model is parametric in them: a record of functions
  on an abstract world, each of which may throw. An operation of the engine takes the state (the
  world, the machine, the budget, the conversation and the two counters that outlive an exception)
  to a result or an exception and the new state; an exception keeps the effects made before it. The
  ghost component \<^verbatim>\<open>esTrace\<close> records, in order, every payload that was appended to the sink, every
  tool call whose execution was begun and the conversation of every model request.
\<close>

subsection \<open>Data\<close>

datatype engineExn = ExnHarness harnessErrorData | ExnError string | ExnMachine machineError | ExnRange

datatype inputItem =
    MessageItem bool string
  | FunctionCall string string string
  | FunctionOutput string string string

record toolExecutionResult =
  trOk :: bool
  trModelText :: string
  trUserText :: string
  trErrorCategory :: "string option"
  trResultDigest :: "string option"
  trOutputRef :: "string option"
  trTruncated :: bool
  trDurationMs :: int

datatype evaluationStatus = V_allow | V_ask | V_deny

record toolEvaluation =
  teStatus :: evaluationStatus
  teActionDigest :: string
  teDescription :: string
  teRisk :: riskLevel
  teReason :: string
  teSource :: string

record toolIntent =
  inIdempotencyKey :: string
  inDestructive :: bool
  inKind :: sideEffectKind
  inNormalizedAction :: string

record approvalRequest =
  arTurnId :: string
  arCall :: toolCall
  arActionDigest :: string
  arDescription :: string
  arRisk :: riskLevel
  arReason :: string

datatype approvalDecision = Approved approvalScope | Denied string | Deferred string

record contextPreparation =
  cpItems :: "inputItem list"
  cpCompacted :: bool
  cpTrigger :: "compactionTrigger option"

text \<open>The object handed to a lifecycle hook.\<close>

datatype lifecycleData =
    LdCount nat
  | LdBatch nat
  | LdRefused string string
  | LdRisk string riskLevel
  | LdCompact "compactionTrigger option"
  | LdEnd turnState terminationReason

type_synonym ('w, 'a) effect_of = "'w \<Rightarrow> (engineExn + 'a) \<times> 'w"

record 'w turnHooks =
  thPreToolUse :: "string \<Rightarrow> (string \<times> jsValue) list \<Rightarrow> ('w, bool \<times> string option) effect_of"
  thPostToolUse :: "string \<Rightarrow> bool \<Rightarrow> ('w, bool) effect_of"
  thLifecycle :: "(string \<Rightarrow> lifecycleData \<Rightarrow> ('w, unit) effect_of) option"

record persistBase =
  pbThreadId :: string
  pbTurnId :: string
  pbCorrelationId :: string
  pbPermissionProfile :: permissionProfile
  pbActor :: actor

record modelRequest =
  mrModel :: string
  mrInstructions :: string
  mrInput :: "inputItem list"

text \<open>
  \<^verbatim>\<open>TurnEngineDeps\<close>. \<^verbatim>\<open>envAborted\<close> reads the abort signal; \<^verbatim>\<open>envFinishRank\<close> says in
  which order calls that overlap come to their end.
\<close>

record 'w turnEnv =
  envAppend :: "appendInput \<Rightarrow> ('w, nat) effect_of"
  envMayExecute :: "string \<Rightarrow> 'w \<Rightarrow> bool \<times> string"
  envNextId :: "string \<Rightarrow> 'w \<Rightarrow> string \<times> 'w"
  envNow :: "'w \<Rightarrow> int \<times> 'w"
  envSleep :: "int \<Rightarrow> ('w, unit) effect_of"
  envAborted :: "'w \<Rightarrow> bool"
  envStream :: "modelRequest \<Rightarrow> ('w, streamEvent list) effect_of"
  envEvaluate :: "toolCall \<Rightarrow> ('w, toolEvaluation) effect_of"
  envExecute :: "toolCall \<Rightarrow> ('w, toolExecutionResult) effect_of"
  envIntentFor :: "toolCall \<Rightarrow> ('w, toolIntent) effect_of"
  envPlanBatches :: "(toolCall list \<Rightarrow> ('w, string list list) effect_of) option"
  envFinishRank :: "'w \<Rightarrow> nat \<Rightarrow> nat"
  envBudget :: "budgetLimits option"
  envRng :: "('w \<Rightarrow> rat) option"
  envRetryPolicy :: "retryPolicy option"
  envHooks :: "'w turnHooks option"
  envApprovals :: "(approvalRequest \<Rightarrow> ('w, approvalDecision) effect_of) option"
  envContext :: "(inputItem list \<Rightarrow> persistBase \<Rightarrow> ('w, contextPreparation) effect_of) option"
  envDrain :: "('w, string list) effect_of option"

datatype traceEntry = Logged eventPayload | Executed string toolCall | Requested "inputItem list"

record engineCore =
  esMachine :: turnMachine
  esBudget :: budgetTracker
  esConversation :: "inputItem list"
  esRounds :: nat
  esFinalText :: string
  esTrace :: "traceEntry list"

type_synonym 'w engineState = "'w \<times> engineCore"

subsection \<open>Effects\<close>

type_synonym ('w, 'a) engine = "'w engineState \<Rightarrow> (engineExn + 'a) \<times> 'w engineState"

definition returnE :: "'a \<Rightarrow> ('w, 'a) engine" where
  "returnE x s = (Inr x, s)"

definition throwE :: "engineExn \<Rightarrow> ('w, 'a) engine" where
  "throwE e s = (Inl e, s)"

definition bindE :: "('w, 'a) engine \<Rightarrow> ('a \<Rightarrow> ('w, 'b) engine) \<Rightarrow> ('w, 'b) engine" where
  "bindE m f s = (case m s of (Inl e, s') \<Rightarrow> (Inl e, s') | (Inr x, s') \<Rightarrow> f x s')"

definition catchE :: "('w, 'a) engine \<Rightarrow> (engineExn \<Rightarrow> ('w, 'a) engine) \<Rightarrow> ('w, 'a) engine" where
  "catchE m h s = (case m s of (Inl e, s') \<Rightarrow> h e s' | (Inr x, s') \<Rightarrow> (Inr x, s'))"

definition whenE :: "bool \<Rightarrow> ('w, unit) engine \<Rightarrow> ('w, unit) engine" where
  "whenE b m = (if b then m else returnE ())"

text \<open>A call of an injected function.\<close>

definition callE :: "('w, 'a) effect_of \<Rightarrow> ('w, 'a) engine" where
  "callE f s = (case f (fst s) of (r, w) \<Rightarrow> (r, (w, snd s)))"

definition askE :: "('w \<Rightarrow> 'a \<times> 'w) \<Rightarrow> ('w, 'a) engine" where
  "askE f s = (case f (fst s) of (x, w) \<Rightarrow> (Inr x, (w, snd s)))"

definition peekE :: "('w \<Rightarrow> 'a) \<Rightarrow> ('w, 'a) engine" where
  "peekE f s = (Inr (f (fst s)), s)"

text \<open>Steps on the engine's own state.\<close>

definition readE :: "(engineCore \<Rightarrow> 'a) \<Rightarrow> ('w, 'a) engine" where
  "readE f s = (Inr (f (snd s)), s)"

definition modifyE :: "(engineCore \<Rightarrow> engineCore) \<Rightarrow> ('w, unit) engine" where
  "modifyE f s = (Inr (), (fst s, f (snd s)))"

definition machineE :: "(turnMachine \<Rightarrow> machineError + turnMachine) \<Rightarrow> ('w, unit) engine" where
  "machineE f s =
     (case f (esMachine (snd s)) of
        Inl e \<Rightarrow> (Inl (ExnMachine e), s)
      | Inr m \<Rightarrow> (Inr (), (fst s, (snd s)\<lparr>esMachine := m\<rparr>)))"

definition budgetE :: "(budgetTracker \<Rightarrow> budgetVerdict \<times> budgetTracker) \<Rightarrow> ('w, budgetVerdict) engine" where
  "budgetE f s = (case f (esBudget (snd s)) of (v, b) \<Rightarrow> (Inr v, (fst s, (snd s)\<lparr>esBudget := b\<rparr>)))"

definition abortedE :: "'w turnEnv \<Rightarrow> ('w, bool) engine" where
  "abortedE env = peekE (envAborted env)"

definition traceE :: "traceEntry \<Rightarrow> ('w, unit) engine" where
  "traceE e = modifyE (\<lambda>c. c\<lparr>esTrace := esTrace c @ [e]\<rparr>)"

definition pushE :: "inputItem list \<Rightarrow> ('w, unit) engine" where
  "pushE items = modifyE (\<lambda>c. c\<lparr>esConversation := esConversation c @ items\<rparr>)"

definition eventInput :: "persistBase \<Rightarrow> string option \<Rightarrow> eventPayload \<Rightarrow> appendInput" where
  "eventInput base itemId payload = \<lparr>aiThreadId = pbThreadId base, aiTurnId = Some (pbTurnId base),
     aiItemId = itemId, aiActor = pbActor base, aiCorrelationId = pbCorrelationId base,
     aiPermissionProfile = pbPermissionProfile base, aiPayload = payload\<rparr>"

definition appendE :: "'w turnEnv \<Rightarrow> persistBase \<Rightarrow> string option \<Rightarrow> eventPayload \<Rightarrow> ('w, unit) engine" where
  "appendE env base itemId payload =
     bindE (callE (envAppend env (eventInput base itemId payload)))
       (\<lambda>_. traceE (Logged payload))"

definition limitsOf :: "'w turnEnv \<Rightarrow> budgetLimits" where
  "limitsOf env = (case envBudget env of None \<Rightarrow> DEFAULT_BUDGET | Some l \<Rightarrow> l)"

text \<open>Firing a lifecycle event, when hooks are wired and have a lifecycle handler.\<close>

definition lifecycleE :: "'w turnEnv \<Rightarrow> string \<Rightarrow> lifecycleData \<Rightarrow> ('w, unit) engine" where
  "lifecycleE env event d =
     (case envHooks env of
        None \<Rightarrow> returnE ()
      | Some h \<Rightarrow> (case thLifecycle h of None \<Rightarrow> returnE () | Some f \<Rightarrow> callE (f event d)))"

end
