(* ===== verification/Turn_Tools.thy ===== *)
theory Turn_Tools
  imports Turn_Effects
begin

text \<open>
  The tool phase of \<^verbatim>\<open>packages/runtime/src/turn-engine.ts\<close>: durable items, one tool call from the
  budget to the paired result, the parallel batch and the groups of a round
  (\<^verbatim>\<open>#persistState\<close>, \<^verbatim>\<open>#recordToolDenial\<close>, \<^verbatim>\<open>#persistRoundItems\<close>, \<^verbatim>\<open>#runOneCall\<close>,
  \<^verbatim>\<open>#runParallelBatch\<close>, \<^verbatim>\<open>#runToolCalls\<close>). What the serial and the parallel path share is one
  definition.
\<close>

definition persistState :: "'w turnEnv \<Rightarrow> persistBase \<Rightarrow> ('w, unit) engine" where
  "persistState env base =
     bindE (readE esMachine) (\<lambda>m.
       let h = tmHistory m in
       whenE (length h \<ge> 2 \<and> h ! (length h - 2) \<noteq> tmState m)
         (appendE env base None (TurnStateChanged (h ! (length h - 2)) (tmState m))))"

subsection \<open>Durable items\<close>

definition appendItem :: "'w turnEnv \<Rightarrow> persistBase \<Rightarrow> itemBody \<Rightarrow> ('w, unit) engine" where
  "appendItem env base body =
     bindE (askE (envNextId env ''itm'')) (\<lambda>i.
     bindE (askE (envNow env)) (\<lambda>now.
     appendE env base (Some i) (ItemAppended \<lparr>itId = i, itTurnId = pbTurnId base,
       itThreadId = pbThreadId base, itSeq = 0, itCreatedAt = now, itBody = body\<rparr>)))"

definition roundItems :: "normalizedRound \<Rightarrow> itemBody list" where
  "roundItems r =
     (case nrSummary r of
        Some s \<Rightarrow> [ReasoningSummary s True]
      | None \<Rightarrow>
          if nrReasoningOccurred r
          then [ReasoningOccurred (case nrUsage r of None \<Rightarrow> None | Some u \<Rightarrow> nuReasoning u)] else []) @
     (if nrText r \<noteq> [] then [AssistantMessage (nrText r) True] else []) @
     map (\<lambda>c. ToolCallItem (tcCallId c) (tcToolName c) (tcArgumentsJson c) (Some (tcArguments c)))
       (nrToolCalls r) @
     (case nrUsage r of
        None \<Rightarrow> []
      | Some u \<Rightarrow> [UsageItem (nuInput u) (nuOutput u) (nuTotal u) (nuReasoning u) (nuCached u)])"

fun appendItems :: "'w turnEnv \<Rightarrow> persistBase \<Rightarrow> itemBody list \<Rightarrow> ('w, unit) engine" where
  "appendItems env base [] = returnE ()"
| "appendItems env base (b # bs) = bindE (appendItem env base b) (\<lambda>_. appendItems env base bs)"

definition persistRoundItems :: "'w turnEnv \<Rightarrow> persistBase \<Rightarrow> normalizedRound \<Rightarrow> ('w, unit) engine" where
  "persistRoundItems env base r = appendItems env base (roundItems r)"

definition recordToolDenial ::
  "'w turnEnv \<Rightarrow> persistBase \<Rightarrow> toolCall \<Rightarrow> string \<Rightarrow> string \<Rightarrow> ('w, unit) engine" where
  "recordToolDenial env base call message category =
     appendItem env base (ToolResult (tcCallId call) (tcToolName call) False message None False 0 (Some category))"

definition resultItem :: "toolCall \<Rightarrow> toolExecutionResult \<Rightarrow> itemBody" where
  "resultItem call r = ToolResult (tcCallId call) (tcToolName call) (trOk r) (trModelText r) (trOutputRef r)
     (trTruncated r) (trDurationMs r) (trErrorCategory r)"

subsection \<open>One tool call\<close>

datatype toolPhase =
    PhaseGo
  | PhaseBudget terminationReason
  | PhaseCancelled
  | PhaseHookStop
  | PhaseAwaiting approvalRequest

definition outputOf :: "toolCall \<Rightarrow> string \<Rightarrow> inputItem" where
  "outputOf call txt = FunctionOutput (tcCallId call) (tcToolName call) txt"

text \<open>Budget and loop detection: the verdict that stops the turn before the call, if any.\<close>

definition admitCall :: "'w turnEnv \<Rightarrow> toolCall \<Rightarrow> ('w, budgetVerdict) engine" where
  "admitCall env call =
     bindE (budgetE (beforeToolCall (limitsOf env))) (\<lambda>v.
       case v of
         Some reason \<Rightarrow> returnE (Some reason)
       | None \<Rightarrow> budgetE (observeToolCall (limitsOf env) (tcToolName call) (tcArgumentsJson call)))"

text \<open>The PreToolUse gate: whether the call was blocked (and answered).\<close>

definition gateCall :: "'w turnEnv \<Rightarrow> persistBase \<Rightarrow> toolCall \<Rightarrow> ('w, bool) engine" where
  "gateCall env base call =
     (case envHooks env of
        None \<Rightarrow> returnE False
      | Some h \<Rightarrow>
          bindE (callE (thPreToolUse h (tcToolName call) (tcArguments call))) (\<lambda>(blocked, reason).
          bindE (appendE env base None
             (HookFired ''PreToolUse'' (tcToolName call) (if blocked then Ho_block else Ho_continue) 0)) (\<lambda>_.
          if blocked then
            bindE (pushE [outputOf call (''(blocked by a PreToolUse hook'' @
               (case reason of None \<Rightarrow> [] | Some r \<Rightarrow> if r = [] then [] else '': '' @ r) @ '')'')])
              (\<lambda>_. returnE True)
          else returnE False)))"

definition statusOutcome :: "evaluationStatus \<Rightarrow> policyOutcome" where
  "statusOutcome v = (case v of V_allow \<Rightarrow> Po_allow | V_ask \<Rightarrow> Po_ask | V_deny \<Rightarrow> Po_deny)"

definition appendVerdict :: "'w turnEnv \<Rightarrow> persistBase \<Rightarrow> toolCall \<Rightarrow> toolEvaluation \<Rightarrow> ('w, unit) engine" where
  "appendVerdict env base call v = appendE env base None
     (PolicyDecided (Some (tcCallId call)) (teDescription v) (statusOutcome (teStatus v)) (teReason v) (teSource v))"

text \<open>The approval dialogue of an \<^verbatim>\<open>ask\<close>: None when the call may go on to execution.\<close>

definition askApproval ::
  "'w turnEnv \<Rightarrow> persistBase \<Rightarrow> toolCall \<Rightarrow> toolEvaluation \<Rightarrow> ('w, toolPhase option) engine" where
  "askApproval env base call v =
     (let request = \<lparr>arTurnId = pbTurnId base, arCall = call, arActionDigest = teActionDigest v,
            arDescription = teDescription v, arRisk = teRisk v, arReason = teReason v\<rparr> in
      bindE (machineE (transition S_awaiting_approval)) (\<lambda>_.
      bindE (persistState env base) (\<lambda>_.
      bindE (appendE env base None
        (ApprovalRequested (Some (tcCallId call)) (teDescription v) (teRisk v))) (\<lambda>_.
      bindE (lifecycleE env ''PermissionRequest'' (LdRisk (tcToolName call) (teRisk v))) (\<lambda>_.
      bindE (case envApprovals env of
               None \<Rightarrow> returnE (Deferred ''no approval channel is attached'')
             | Some gate \<Rightarrow> callE (gate request)) (\<lambda>decision.
      bindE (abortedE env) (\<lambda>aborted.
      if aborted then returnE (Some PhaseCancelled)
      else case decision of
        Deferred _ \<Rightarrow> returnE (Some (PhaseAwaiting request))
      | Approved scope \<Rightarrow>
          bindE (appendE env base None (ApprovalResolved (Some (tcCallId call)) True (Some scope))) (\<lambda>_.
          bindE (machineE (transition S_executing)) (\<lambda>_.
          bindE (persistState env base) (\<lambda>_. returnE None)))
      | Denied reason \<Rightarrow>
          bindE (appendE env base None (ApprovalResolved (Some (tcCallId call)) False None)) (\<lambda>_.
          bindE (machineE (transition S_executing)) (\<lambda>_.
          bindE (persistState env base) (\<lambda>_.
          bindE (recordToolDenial env base call (''denied by the user: '' @ reason) ''user-denied'') (\<lambda>_.
          bindE (pushE [outputOf call (''(the user denied this action: '' @ reason @
                          ''. Do not retry it; adapt or ask.)'')])
            (\<lambda>_. returnE (Some PhaseGo)))))))))))))"

text \<open>Persist the intent and consult the recovery guard: the side effect's id if it may run.\<close>

definition beginEffect :: "'w turnEnv \<Rightarrow> persistBase \<Rightarrow> toolCall \<Rightarrow> ('w, string option) engine" where
  "beginEffect env base call =
     bindE (callE (envIntentFor env call)) (\<lambda>intent.
     bindE (askE (envNextId env ''sfx'')) (\<lambda>sid.
     bindE (appendE env base None (SideEffectIntended \<lparr>siSideEffectId = sid,
        siIdempotencyKey = inIdempotencyKey intent, siKind = inKind intent,
        siDestructive = inDestructive intent, siNormalizedAction = inNormalizedAction intent\<rparr>)) (\<lambda>_.
     bindE (peekE (envMayExecute env (inIdempotencyKey intent))) (\<lambda>(allowed, reason).
     if \<not> allowed then
       bindE (appendE env base None (SideEffectSettled sid E_known_complete None)) (\<lambda>_.
       bindE (pushE [outputOf call (''(skipped: '' @ reason @ '')'')]) (\<lambda>_. returnE None))
     else bindE (appendE env base None (SideEffectStarted sid)) (\<lambda>_. returnE (Some sid))))))"

text \<open>Persist the result, fire PostToolUse and pair the output: whether the hook stopped the turn.\<close>

definition settleEffect ::
  "'w turnEnv \<Rightarrow> persistBase \<Rightarrow> toolCall \<Rightarrow> string \<Rightarrow> toolExecutionResult \<Rightarrow> ('w, bool) engine" where
  "settleEffect env base call sid r =
     bindE (appendE env base None (SideEffectSettled sid
        (if trOk r then E_known_complete else E_known_failed) (trResultDigest r))) (\<lambda>_.
     bindE (case envHooks env of
              None \<Rightarrow> returnE False
            | Some h \<Rightarrow>
                bindE (callE (thPostToolUse h (tcToolName call) (trOk r))) (\<lambda>stop.
                bindE (appendE env base None
                  (HookFired (if trOk r then ''PostToolUse'' else ''PostToolUseFailure'') (tcToolName call)
                     (if stop then Ho_stop else Ho_continue) 0)) (\<lambda>_. returnE stop))) (\<lambda>stop.
     bindE (appendItem env base (resultItem call r)) (\<lambda>_.
     bindE (pushE [outputOf call (trModelText r)]) (\<lambda>_. returnE stop))))"

text \<open>From the intent to the paired result, for a call that may be executed.\<close>

definition performCall :: "'w turnEnv \<Rightarrow> persistBase \<Rightarrow> toolCall \<Rightarrow> ('w, toolPhase) engine" where
  "performCall env base call =
     bindE (beginEffect env base call) (\<lambda>started.
       case started of
         None \<Rightarrow> returnE PhaseGo
       | Some sid \<Rightarrow>
           bindE (traceE (Executed sid call)) (\<lambda>_.
           bindE (callE (envExecute env call)) (\<lambda>r.
           bindE (settleEffect env base call sid r) (\<lambda>stop.
           bindE (abortedE env) (\<lambda>aborted.
           returnE (if aborted then PhaseCancelled else if stop then PhaseHookStop else PhaseGo))))))"

definition runOneCall :: "'w turnEnv \<Rightarrow> persistBase \<Rightarrow> toolCall \<Rightarrow> ('w, toolPhase) engine" where
  "runOneCall env base call =
     bindE (abortedE env) (\<lambda>aborted.
     if aborted then returnE PhaseCancelled
     else bindE (admitCall env call) (\<lambda>stop.
       case stop of
         Some reason \<Rightarrow> returnE (PhaseBudget reason)
       | None \<Rightarrow>
           bindE (gateCall env base call) (\<lambda>blocked.
           if blocked then returnE PhaseGo
           else bindE (callE (envEvaluate env call)) (\<lambda>v.
             bindE (appendVerdict env base call v) (\<lambda>_.
             case teStatus v of
               V_deny \<Rightarrow>
                 bindE (recordToolDenial env base call (''denied by policy: '' @ teReason v) ''policy-denied'') (\<lambda>_.
                 bindE (lifecycleE env ''PermissionDenied'' (LdRefused (tcToolName call) (teReason v))) (\<lambda>_.
                 bindE (pushE [outputOf call (''(denied by policy: '' @ teReason v @ '')'')])
                   (\<lambda>_. returnE PhaseGo)))
             | V_ask \<Rightarrow>
                 bindE (askApproval env base call v) (\<lambda>answer.
                   case answer of Some phase \<Rightarrow> returnE phase | None \<Rightarrow> performCall env base call)
             | V_allow \<Rightarrow> performCall env base call)))))"

subsection \<open>A parallel batch\<close>

text \<open>
  \<^verbatim>\<open>Promise.all\<close> over calls that overlap: each call is one atomic effect, they end in the order of
  the environment, the results stand in the order of the calls, and the first call to fail decides
  the error (the others still come to their end).
\<close>

fun settleGo ::
  "('a \<Rightarrow> ('w, 'b) effect_of) \<Rightarrow> 'a list \<Rightarrow> nat list \<Rightarrow> 'w \<Rightarrow> (nat \<times> (engineExn + 'b)) list \<times> 'w" where
  "settleGo f xs [] w = ([], w)"
| "settleGo f xs (i # is) w =
     (case f (xs ! i) w of (r, w1) \<Rightarrow> (case settleGo f xs is w1 of (rs, w2) \<Rightarrow> ((i, r) # rs, w2)))"

definition settleAll ::
  "('w \<Rightarrow> nat \<Rightarrow> nat) \<Rightarrow> ('a \<Rightarrow> ('w, 'b) effect_of) \<Rightarrow> 'a list \<Rightarrow> ('w, 'b list) effect_of" where
  "settleAll rank f xs w =
     (case settleGo f xs (sort_key (rank w) [0..<length xs]) w of
        (rs, w') \<Rightarrow>
          (case List.map_filter (\<lambda>(i, r). case r of Inl e \<Rightarrow> Some e | Inr _ \<Rightarrow> None) rs of
             e # _ \<Rightarrow> (Inl e, w')
           | [] \<Rightarrow> (Inr (map (\<lambda>i. projr (the (map_of rs i))) [0..<length xs]), w')))"

text \<open>Phase 1, in call order: the calls cleared for execution, or the stop.\<close>

fun clearCalls ::
  "'w turnEnv \<Rightarrow> persistBase \<Rightarrow> (toolCall \<times> toolEvaluation) list \<Rightarrow>
     ('w, toolPhase + (toolCall \<times> string) list) engine" where
  "clearCalls env base [] = returnE (Inr [])"
| "clearCalls env base ((call, v) # rest) =
     bindE (abortedE env) (\<lambda>aborted.
     if aborted then returnE (Inl PhaseCancelled)
     else bindE (admitCall env call) (\<lambda>stop.
       case stop of
         Some reason \<Rightarrow> returnE (Inl (PhaseBudget reason))
       | None \<Rightarrow>
           bindE (gateCall env base call) (\<lambda>blocked.
           if blocked then clearCalls env base rest
           else bindE (appendVerdict env base call v) (\<lambda>_.
                bindE (beginEffect env base call) (\<lambda>started.
                  case started of
                    None \<Rightarrow> clearCalls env base rest
                  | Some sid \<Rightarrow>
                      bindE (clearCalls env base rest) (\<lambda>r.
                      returnE (case r of Inl p \<Rightarrow> Inl p | Inr cs \<Rightarrow> Inr ((call, sid) # cs))))))))"

text \<open>Phase 2: every cleared call is begun, in order, before any result is awaited.\<close>

fun markAll :: "(toolCall \<times> string) list \<Rightarrow> ('w, unit) engine" where
  "markAll [] = returnE ()"
| "markAll ((call, sid) # cs) = bindE (traceE (Executed sid call)) (\<lambda>_. markAll cs)"

text \<open>Phase 3, in call order: whether some PostToolUse hook stopped the turn.\<close>

fun settleCalls ::
  "'w turnEnv \<Rightarrow> persistBase \<Rightarrow> ((toolCall \<times> string) \<times> toolExecutionResult) list \<Rightarrow> ('w, bool) engine" where
  "settleCalls env base [] = returnE False"
| "settleCalls env base (((call, sid), r) # rest) =
     bindE (settleEffect env base call sid r) (\<lambda>stop.
     bindE (settleCalls env base rest) (\<lambda>stops. returnE (stop \<or> stops)))"

fun runSerial :: "'w turnEnv \<Rightarrow> persistBase \<Rightarrow> toolCall list \<Rightarrow> ('w, toolPhase) engine" where
  "runSerial env base [] = returnE PhaseGo"
| "runSerial env base (c # cs) =
     bindE (runOneCall env base c) (\<lambda>phase. if phase = PhaseGo then runSerial env base cs else returnE phase)"

definition runParallelBatch :: "'w turnEnv \<Rightarrow> persistBase \<Rightarrow> toolCall list \<Rightarrow> ('w, toolPhase) engine" where
  "runParallelBatch env base calls =
     bindE (callE (settleAll (envFinishRank env) (envEvaluate env) calls)) (\<lambda>verdicts.
     if \<not> list_all (\<lambda>v. teStatus v = V_allow) verdicts then runSerial env base calls
     else bindE (clearCalls env base (zip calls verdicts)) (\<lambda>cleared.
       case cleared of
         Inl phase \<Rightarrow> returnE phase
       | Inr cs \<Rightarrow>
           bindE (markAll cs) (\<lambda>_.
           bindE (callE (settleAll (envFinishRank env) (\<lambda>c. envExecute env (fst c)) cs)) (\<lambda>results.
           bindE (settleCalls env base (zip cs results)) (\<lambda>stop.
           bindE (abortedE env) (\<lambda>aborted.
           returnE (if aborted then PhaseCancelled else if stop then PhaseHookStop else PhaseGo)))))))"

subsection \<open>The tool phase of a round\<close>

text \<open>The map from call ids keeps the last call of an id.\<close>

definition callById :: "toolCall list \<Rightarrow> string \<Rightarrow> toolCall option" where
  "callById calls i = find (\<lambda>c. tcCallId c = i) (rev calls)"

fun runGroups ::
  "'w turnEnv \<Rightarrow> persistBase \<Rightarrow> toolCall list \<Rightarrow> string list list \<Rightarrow> ('w, toolPhase) engine" where
  "runGroups env base calls [] = returnE PhaseGo"
| "runGroups env base calls (g # gs) =
     bindE (case List.map_filter (callById calls) g of
              [] \<Rightarrow> returnE PhaseGo
            | [c] \<Rightarrow> runOneCall env base c
            | cs \<Rightarrow> runParallelBatch env base cs)
       (\<lambda>phase. if phase = PhaseGo then runGroups env base calls gs else returnE phase)"

definition runToolCalls :: "'w turnEnv \<Rightarrow> persistBase \<Rightarrow> toolCall list \<Rightarrow> ('w, toolPhase) engine" where
  "runToolCalls env base calls =
     bindE (case envPlanBatches env of
              None \<Rightarrow> returnE (map (\<lambda>c. [tcCallId c]) calls)
            | Some plan \<Rightarrow> callE (plan calls))
       (runGroups env base calls)"

end
