(* ===== verification/Turn_Engine.thy ===== *)
theory Turn_Engine
  imports Turn_Tools
begin

text \<open>
  The loop of \<^verbatim>\<open>packages/runtime/src/turn-engine.ts\<close>: the endings of a turn, the model request with its
  bounded retry, one iteration as a tool part and a model part, the handler of exceptions, and the
  two entries \<^verbatim>\<open>run\<close> and \<^verbatim>\<open>resume\<close>.
\<close>

subsection \<open>Ending a turn\<close>

definition fireStop :: "'w turnEnv \<Rightarrow> turnState \<Rightarrow> terminationReason \<Rightarrow> ('w, unit) engine" where
  "fireStop env st reason =
     bindE (whenE (st \<noteq> S_completed)
             (catchE (lifecycleE env ''StopFailure'' (LdEnd st reason)) (\<lambda>_. returnE ())))
       (\<lambda>_. catchE (lifecycleE env ''Stop'' (LdEnd st reason)) (\<lambda>_. returnE ()))"

definition cancelTurn :: "'w turnEnv \<Rightarrow> persistBase \<Rightarrow> ('w, unit) engine" where
  "cancelTurn env base =
     bindE (readE (\<lambda>s. machineTerminal (esMachine s))) (\<lambda>terminal.
       whenE (\<not> terminal)
         (bindE (machineE (terminate S_cancelled R_user_cancelled)) (\<lambda>_.
          bindE (appendE env base None (CancelledPayload ''turn'')) (\<lambda>_.
          bindE (appendE env base None (TurnEnded S_cancelled R_user_cancelled)) (\<lambda>_.
          fireStop env S_cancelled R_user_cancelled)))))"

definition endTurn :: "'w turnEnv \<Rightarrow> persistBase \<Rightarrow> turnState \<Rightarrow> terminationReason \<Rightarrow> ('w, unit) engine" where
  "endTurn env base st reason =
     bindE (readE (\<lambda>s. machineTerminal (esMachine s))) (\<lambda>terminal.
     bindE (whenE (\<not> terminal) (machineE (terminate st reason))) (\<lambda>_.
     bindE (appendE env base None (TurnEnded st reason)) (\<lambda>_.
     fireStop env st reason)))"

subsection \<open>The model request with its bounded retry\<close>

lemma retry_means_attempts_left: "decideRetry e st r policy = Inr (Retry d) \<Longrightarrow> rsAttempt st < rpMaxAttempts policy"
  by (simp add: decideRetry_def split: if_splits)

definition policyOf :: "'w turnEnv \<Rightarrow> retryPolicy" where
  "policyOf env = (case envRetryPolicy env of None \<Rightarrow> DEFAULT_RETRY_POLICY | Some p \<Rightarrow> p)"

definition drawOf :: "'w turnEnv \<Rightarrow> 'w \<Rightarrow> rat" where
  "drawOf env w = (case envRng env of None \<Rightarrow> 1 / 2 | Some f \<Rightarrow> f w)"

text \<open>
  The attempts of a model request. Every attempt calls the provider, and the ghost trace records the
  conversation each of these calls was given.
\<close>

function streamGo ::
  "'w turnEnv \<Rightarrow> modelRequest \<Rightarrow> int \<Rightarrow> int \<Rightarrow> ('w, normalizedRound) engine" where
  "streamGo env request startedAt attempt (w, c0) =
     (let c = c0\<lparr>esTrace := esTrace c0 @ [Requested (mrInput request)]\<rparr> in
      case envStream env request w of
        (Inr events, w1) \<Rightarrow> (Inr (normalizeRound events), (w1, c))
      | (Inl err, w1) \<Rightarrow>
          if envAborted env w1 then (Inl err, (w1, c))
          else case err of
            ExnHarness e \<Rightarrow>
              (case envNow env w1 of (now, w2) \<Rightarrow>
                (case decideRetry e \<lparr>rsAttempt = attempt, rsElapsedMs = now - startedAt\<rparr> (drawOf env w2) (policyOf env) of
                   Inl _ \<Rightarrow> (Inl ExnRange, (w2, c))
                 | Inr (NoRetry _) \<Rightarrow> (Inl err, (w2, c))
                 | Inr (Retry delay) \<Rightarrow>
                     (case envSleep env delay w2 of
                        (Inl x, w3) \<Rightarrow> (Inl x, (w3, c))
                      | (Inr _, w3) \<Rightarrow> streamGo env request startedAt (attempt + 1) (w3, c))))
          | _ \<Rightarrow> (Inl err, (w1, c)))"
  by pat_completeness auto
termination
  by (relation "measure (\<lambda>(env, request, startedAt, attempt, s). nat (rpMaxAttempts (policyOf env) - attempt))")
    (auto dest!: retry_means_attempts_left)

declare streamGo.simps [simp del]

definition streamWithRetry :: "'w turnEnv \<Rightarrow> modelRequest \<Rightarrow> ('w, normalizedRound) engine" where
  "streamWithRetry env request =
     bindE (askE (envNow env)) (\<lambda>startedAt. streamGo env request startedAt 1)"

subsection \<open>The loop\<close>

record turnInput =
  tiModel :: string
  tiInstructions :: string

text \<open>How a turn leaves the loop: its reason, or the approval it waits for.\<close>

record turnOutcome =
  toReason :: "terminationReason option"
  toPending :: "approvalRequest option"

definition leftWith :: "terminationReason \<Rightarrow> turnOutcome" where
  "leftWith r = \<lparr>toReason = Some r, toPending = None\<rparr>"

definition enterState :: "'w turnEnv \<Rightarrow> persistBase \<Rightarrow> turnState \<Rightarrow> ('w, unit) engine" where
  "enterState env base st =
     bindE (readE (\<lambda>s. tmState (esMachine s) \<noteq> st)) (\<lambda>move.
     bindE (whenE move (machineE (transition st))) (\<lambda>_. persistState env base))"

definition endLoop ::
  "'w turnEnv \<Rightarrow> persistBase \<Rightarrow> turnState \<Rightarrow> terminationReason \<Rightarrow> ('w, 'c + turnOutcome) engine" where
  "endLoop env base st reason = bindE (endTurn env base st reason) (\<lambda>_. returnE (Inr (leftWith reason)))"

definition cancelLoop :: "'w turnEnv \<Rightarrow> persistBase \<Rightarrow> ('w, 'c + turnOutcome) engine" where
  "cancelLoop env base = bindE (cancelTurn env base) (\<lambda>_. returnE (Inr (leftWith R_user_cancelled)))"

text \<open>The tool phase: go on to the model (Inl) or leave the loop.\<close>

definition phaseEnd :: "'w turnEnv \<Rightarrow> persistBase \<Rightarrow> toolPhase \<Rightarrow> ('w, unit + turnOutcome) engine" where
  "phaseEnd env base phase =
     (case phase of
        PhaseBudget reason \<Rightarrow> endLoop env base S_budget_exhausted reason
      | PhaseCancelled \<Rightarrow> cancelLoop env base
      | PhaseHookStop \<Rightarrow> endLoop env base S_completed R_hook_stop
      | PhaseAwaiting pending \<Rightarrow> returnE (Inr \<lparr>toReason = None, toPending = Some pending\<rparr>)
      | PhaseGo \<Rightarrow>
          bindE (budgetE (afterModelRound (limitsOf env) True)) (\<lambda>health.
            case health of
              Some reason \<Rightarrow> endLoop env base S_budget_exhausted reason
            | None \<Rightarrow> returnE (Inl ())))"

definition toolPart :: "'w turnEnv \<Rightarrow> persistBase \<Rightarrow> toolCall list \<Rightarrow> ('w, unit + turnOutcome) engine" where
  "toolPart env base calls =
     (if calls = [] then returnE (Inl ())
      else
        bindE (enterState env base S_executing) (\<lambda>_.
        bindE (runToolCalls env base calls) (\<lambda>phase.
        bindE (lifecycleE env ''PostToolBatch'' (LdBatch (length calls))) (\<lambda>_.
        phaseEnd env base phase))))"

text \<open>Context management: whether the turn was aborted meanwhile.\<close>

definition prepareContext :: "'w turnEnv \<Rightarrow> persistBase \<Rightarrow> ('w, bool) engine" where
  "prepareContext env base =
     (case envContext env of
        None \<Rightarrow> returnE False
      | Some prepare \<Rightarrow>
          bindE (readE esConversation) (\<lambda>conversation.
          bindE (callE (prepare conversation base)) (\<lambda>prep.
          bindE (abortedE env) (\<lambda>aborted.
          if aborted then returnE True
          else
            bindE (modifyE (\<lambda>s. s\<lparr>esConversation := cpItems prep\<rparr>)) (\<lambda>_.
            bindE (whenE (cpCompacted prep) (lifecycleE env ''PostCompact'' (LdCompact (cpTrigger prep)))) (\<lambda>_.
            returnE False))))))"

definition finishName :: "finishReason option \<Rightarrow> string" where
  "finishName f = (case f of None \<Rightarrow> ''unknown'' | Some F_stop \<Rightarrow> ''stop'' | Some F_tool_calls \<Rightarrow> ''tool-calls''
     | Some F_length \<Rightarrow> ''length'' | Some F_content_filter \<Rightarrow> ''content-filter'' | Some F_unknown \<Rightarrow> ''unknown'')"

definition callItem :: "toolCall \<Rightarrow> inputItem" where
  "callItem c = FunctionCall (tcCallId c) (tcToolName c) (tcArgumentsJson c)"

definition requestRound :: "'w turnEnv \<Rightarrow> persistBase \<Rightarrow> turnInput \<Rightarrow> ('w, normalizedRound) engine" where
  "requestRound env base input =
     bindE (readE esRounds) (\<lambda>rounds.
     bindE (appendE env base None (ModelRequestStarted (tiModel input) ''responses'' (''round:'' @ natStr rounds))) (\<lambda>_.
     bindE (readE esConversation) (\<lambda>conversation.
     bindE (streamWithRetry env
        \<lparr>mrModel = tiModel input, mrInstructions = tiInstructions input, mrInput = conversation\<rparr>) (\<lambda>round.
     bindE (modifyE (\<lambda>s. s\<lparr>esRounds := esRounds s + 1\<rparr>)) (\<lambda>_.
     bindE (appendE env base None (ModelRequestCompleted (nrRequestId round) (finishName (nrFinish round)))) (\<lambda>_.
     bindE (persistRoundItems env base round) (\<lambda>_.
     bindE (whenE (nrText round \<noteq> []) (modifyE (\<lambda>s. s\<lparr>esFinalText := nrText round\<rparr>))) (\<lambda>_.
     returnE round))))))))"

text \<open>The model phase: the calls of the next iteration, or the end of the loop.\<close>

definition roundEnd ::
  "'w turnEnv \<Rightarrow> persistBase \<Rightarrow> normalizedRound \<Rightarrow> ('w, toolCall list + turnOutcome) engine" where
  "roundEnd env base rnd =
     (if nrToolCalls rnd = [] then endLoop env base S_completed R_natural_completion
      else
        bindE (whenE (nrText rnd \<noteq> []) (pushE [MessageItem False (nrText rnd)])) (\<lambda>_.
        bindE (pushE (map callItem (nrToolCalls rnd))) (\<lambda>_.
        returnE (Inl (nrToolCalls rnd)))))"

definition callModel ::
  "'w turnEnv \<Rightarrow> persistBase \<Rightarrow> turnInput \<Rightarrow> ('w, toolCall list + turnOutcome) engine" where
  "callModel env base input =
     bindE (enterState env base S_model_streaming) (\<lambda>_.
     bindE (prepareContext env base) (\<lambda>aborted.
     if aborted then cancelLoop env base
     else bindE (requestRound env base input) (roundEnd env base)))"

definition modelPart ::
  "'w turnEnv \<Rightarrow> persistBase \<Rightarrow> turnInput \<Rightarrow> ('w, toolCall list + turnOutcome) engine" where
  "modelPart env base input =
     bindE (askE (envNow env)) (\<lambda>now.
     bindE (budgetE (beforeModelCall (limitsOf env) now)) (\<lambda>check.
     case check of
       Some reason \<Rightarrow> endLoop env base S_budget_exhausted reason
     | None \<Rightarrow> callModel env base input))"

definition driveStep ::
  "'w turnEnv \<Rightarrow> persistBase \<Rightarrow> turnInput \<Rightarrow> toolCall list \<Rightarrow> ('w, toolCall list + turnOutcome) engine" where
  "driveStep env base input calls =
     bindE (abortedE env) (\<lambda>aborted.
     if aborted then cancelLoop env base
     else bindE (toolPart env base calls) (\<lambda>r.
       case r of Inr out \<Rightarrow> returnE (Inr out) | Inl _ \<Rightarrow> modelPart env base input))"

text \<open>
  The loop with fuel for its iterations; None means that the fuel ran out. Every iteration but the last
  makes a model call, so one more than the model-call limit is enough.
\<close>

fun driveLoop ::
  "nat \<Rightarrow> 'w turnEnv \<Rightarrow> persistBase \<Rightarrow> turnInput \<Rightarrow> toolCall list \<Rightarrow> ('w, turnOutcome option) engine" where
  "driveLoop 0 env base input calls = returnE None"
| "driveLoop (Suc fuel) env base input calls =
     bindE (driveStep env base input calls) (\<lambda>r.
       case r of Inr out \<Rightarrow> returnE (Some out) | Inl next \<Rightarrow> driveLoop fuel env base input next)"

text \<open>The text of an exception, as \<^verbatim>\<open>e.message\<close> gives it (less the draw in the range error).\<close>

definition turnStateName :: "turnState \<Rightarrow> string" where
  "turnStateName s =
     (case s of S_preparing \<Rightarrow> ''preparing'' | S_model_streaming \<Rightarrow> ''model-streaming''
      | S_awaiting_approval \<Rightarrow> ''awaiting-approval'' | S_executing \<Rightarrow> ''executing''
      | S_waiting_background \<Rightarrow> ''waiting-background'' | S_compacting \<Rightarrow> ''compacting''
      | S_recovering \<Rightarrow> ''recovering'' | S_steering \<Rightarrow> ''steering'' | S_completed \<Rightarrow> ''completed''
      | S_cancelled \<Rightarrow> ''cancelled'' | S_failed \<Rightarrow> ''failed'' | S_blocked \<Rightarrow> ''blocked''
      | S_budget_exhausted \<Rightarrow> ''budget-exhausted'')"

definition exnMessage :: "engineExn \<Rightarrow> string" where
  "exnMessage e =
     (case e of ExnHarness d \<Rightarrow> heMessage d | ExnError m \<Rightarrow> m
      | ExnMachine (AlreadyTerminal fr to) \<Rightarrow>
          ''turn is already terminal ('' @ turnStateName fr @ ''); cannot transition to '' @ turnStateName to
      | ExnMachine (IllegalTransition fr to) \<Rightarrow>
          ''illegal turn transition: '' @ turnStateName fr @ '' -> '' @ turnStateName to
      | ExnRange \<Rightarrow> ''rng() must return a float in [0, 1)'')"

definition recoverLoop :: "'w turnEnv \<Rightarrow> persistBase \<Rightarrow> engineExn \<Rightarrow> ('w, turnOutcome option) engine" where
  "recoverLoop env base e =
     bindE (abortedE env) (\<lambda>aborted.
     bindE (readE (\<lambda>s. machineTerminal (esMachine s))) (\<lambda>terminal.
     if aborted then
       bindE (whenE (\<not> terminal) (cancelTurn env base)) (\<lambda>_. returnE (Some (leftWith R_user_cancelled)))
     else
       bindE (whenE (\<not> terminal)
         (bindE (machineE (transition S_recovering)) (\<lambda>_. machineE (terminate S_failed R_internal_error)))) (\<lambda>_.
       bindE (appendE env base None (ModelRequestFailed None ''runtime.turn_error'' False (exnMessage e))) (\<lambda>_.
       bindE (appendE env base None (TurnEnded S_failed R_internal_error)) (\<lambda>_.
       bindE (fireStop env S_failed R_internal_error) (\<lambda>_.
       returnE (Some (leftWith R_internal_error))))))))"

record turnResult =
  rsTurnId :: string
  rsState :: turnState
  rsReason :: "terminationReason option"
  rsRounds :: nat
  rsFinalText :: string
  rsPendingApproval :: "approvalRequest option"

definition driveFuel :: "'w turnEnv \<Rightarrow> nat" where
  "driveFuel env = nat (blMaxModelCalls (limitsOf env)) + 1"

definition drive ::
  "'w turnEnv \<Rightarrow> persistBase \<Rightarrow> turnInput \<Rightarrow> toolCall list \<Rightarrow> ('w, turnResult option) engine" where
  "drive env base input seedCalls =
     bindE (catchE (driveLoop (driveFuel env) env base input seedCalls) (recoverLoop env base)) (\<lambda>out.
     readE (\<lambda>s. map_option (\<lambda>r. \<lparr>rsTurnId = pbTurnId base, rsState = tmState (esMachine s),
       rsReason = toReason r, rsRounds = esRounds s, rsFinalText = esFinalText s,
       rsPendingApproval = toPending r\<rparr>) out))"

subsection \<open>Running and resuming\<close>

record runTurnInput =
  rtThreadId :: string
  rtCorrelationId :: string
  rtPermissionProfile :: permissionProfile
  rtActor :: actor
  rtModel :: string
  rtInstructions :: string
  rtHistory :: "inputItem list"
  rtUserText :: string

definition startState :: "turnState \<Rightarrow> int \<Rightarrow> inputItem list \<Rightarrow> 'w \<Rightarrow> 'w engineState" where
  "startState st now conversation w = (w, \<lparr>esMachine = newMachine st, esBudget = newTracker now,
     esConversation = conversation, esRounds = 0, esFinalText = [], esTrace = []\<rparr>)"

definition baseOf :: "runTurnInput \<Rightarrow> string \<Rightarrow> persistBase" where
  "baseOf input turnId = \<lparr>pbThreadId = rtThreadId input, pbTurnId = turnId,
     pbCorrelationId = rtCorrelationId input, pbPermissionProfile = rtPermissionProfile input,
     pbActor = rtActor input\<rparr>"

definition drainNotifications :: "'w turnEnv \<Rightarrow> ('w, unit) engine" where
  "drainNotifications env =
     (case envDrain env of
        None \<Rightarrow> returnE ()
      | Some drain \<Rightarrow>
          bindE (callE drain) (\<lambda>summaries.
          bindE (pushE (map (\<lambda>t. MessageItem True (''Notification (while you were away): '' @ t)) summaries)) (\<lambda>_.
          whenE (summaries \<noteq> []) (lifecycleE env ''QueuedNotifications'' (LdCount (length summaries))))))"

definition runTurn :: "'w turnEnv \<Rightarrow> runTurnInput \<Rightarrow> 'w \<Rightarrow> (engineExn + turnResult option) \<times> 'w engineState" where
  "runTurn env input w =
     (case envNow env w of (now, w1) \<Rightarrow>
      (case envNextId env ''trn'' w1 of (turnId, w2) \<Rightarrow>
        let base = baseOf input turnId in
        bindE (appendE env base None (TurnStarted (rtUserText input))) (\<lambda>_.
        bindE (drainNotifications env) (\<lambda>_.
        drive env base \<lparr>tiModel = rtModel input, tiInstructions = rtInstructions input\<rparr> []))
        (startState S_preparing now (rtHistory input @ [MessageItem True (rtUserText input)]) w2)))"

text \<open>Resuming keeps the turn's id; \<^verbatim>\<open>history\<close> ends with the unanswered calls.\<close>

definition resumeTurn ::
  "'w turnEnv \<Rightarrow> runTurnInput \<Rightarrow> string \<Rightarrow> toolCall list \<Rightarrow> 'w \<Rightarrow> (engineExn + turnResult option) \<times> 'w engineState" where
  "resumeTurn env input turnId pendingCalls w =
     (case envNow env w of (now, w1) \<Rightarrow>
       drive env (baseOf input turnId) \<lparr>tiModel = rtModel input, tiInstructions = rtInstructions input\<rparr>
         pendingCalls (startState S_awaiting_approval now (rtHistory input) w1))"

end
