(* ===== verification/Turn_Runs.thy ===== *)
theory Turn_Runs
  imports Turn_Engine
begin

text \<open>
  Reasoning about the turn engine. \<^verbatim>\<open>runs m c r c'\<close> says that operation m can take the engine's own
  state c to c' with result r, in some world; it forgets the world, so what is proved holds whatever
  the injected functions do. Programs are taken apart by the elimination rules
  \<^verbatim>\<open>runs_elims\<close>. The operations of the tool phase only add to the trace and to the conversation, so
  each is described by what it adds.
\<close>

definition runs :: "('w, 'a) engine \<Rightarrow> engineCore \<Rightarrow> engineExn + 'a \<Rightarrow> engineCore \<Rightarrow> bool" where
  "runs m c r c' \<longleftrightarrow> (\<exists>w w'. m (w, c) = (r, (w', c')))"

lemma runsI: "m (w, c) = (r, (w', c')) \<Longrightarrow> runs m c r c'"
  by (auto simp: runs_def)

lemma runs_bindE:
  assumes "runs (bindE m f) c r c'"
  obtains (failed) e where "runs m c (Inl e) c'" "r = Inl e"
  | (went_on) x c1 where "runs m c (Inr x) c1" "runs (f x) c1 r c'"
proof -
  obtain w w' where "bindE m f (w, c) = (r, (w', c'))" using assms by (auto simp: runs_def)
  then show ?thesis
    by (cases "m (w, c)"; cases "fst (m (w, c))")
      (auto simp: bindE_def intro: runsI failed went_on)
qed

lemma runs_catchE:
  assumes "runs (catchE m h) c r c'"
  obtains (fine) x where "runs m c (Inr x) c'" "r = Inr x"
  | (caught) e c1 where "runs m c (Inl e) c1" "runs (h e) c1 r c'"
proof -
  obtain w w' where "catchE m h (w, c) = (r, (w', c'))" using assms by (auto simp: runs_def)
  then show ?thesis
    by (cases "m (w, c)"; cases "fst (m (w, c))")
      (auto simp: catchE_def intro: runsI fine caught)
qed

lemma runs_value [simp]:
  "runs (returnE x) c r c' \<longleftrightarrow> r = Inr x \<and> c' = c"
  "runs (throwE e) c r c' \<longleftrightarrow> r = Inl e \<and> c' = c"
  "runs (whenE b m) c u c' \<longleftrightarrow> (if b then runs m c u c' else u = Inr () \<and> c' = c)"
  "runs (modifyE g) c u c' \<longleftrightarrow> u = Inr () \<and> c' = g c"
  by (auto simp: runs_def returnE_def throwE_def modifyE_def whenE_def)

lemma runs_read [simp]: "runs (readE f) c r c' \<longleftrightarrow> r = Inr (f c) \<and> c' = c"
  by (auto simp: runs_def readE_def)

lemma runs_budgetE [simp]:
  "runs (budgetE f) c r c' \<longleftrightarrow>
     r = Inr (fst (f (esBudget c))) \<and> c' = c\<lparr>esBudget := snd (f (esBudget c))\<rparr>"
  by (auto simp: runs_def budgetE_def case_prod_beta)

lemma runs_machineE [simp]:
  "runs (machineE f) c r c' \<longleftrightarrow>
     (case f (esMachine c) of Inl e \<Rightarrow> r = Inl (ExnMachine e) \<and> c' = c
      | Inr m \<Rightarrow> r = Inr () \<and> c' = c\<lparr>esMachine := m\<rparr>)"
  by (auto simp: runs_def machineE_def split: sum.splits)

lemma runs_callE: "runs (callE f) c r c' \<Longrightarrow> c' = c"
  by (auto simp: runs_def callE_def case_prod_beta)

lemma runs_askE: "runs (askE f) c r c' \<Longrightarrow> c' = c \<and> (\<exists>x. r = Inr x)"
  by (auto simp: runs_def askE_def case_prod_beta)

lemma runs_peekE: "runs (peekE f) c r c' \<Longrightarrow> c' = c \<and> (\<exists>x. r = Inr x)"
  by (auto simp: runs_def peekE_def)

lemma runs_abortedE: "runs (abortedE env) c r c' \<Longrightarrow> c' = c \<and> (\<exists>x. r = Inr x)"
  unfolding abortedE_def by (rule runs_peekE)

subsection \<open>Growth of the trace and the conversation\<close>

definition grow :: "traceEntry list \<Rightarrow> inputItem list \<Rightarrow> engineCore \<Rightarrow> engineCore" where
  "grow es os c = c\<lparr>esTrace := esTrace c @ es, esConversation := esConversation c @ os\<rparr>"

lemma grow_grow [simp]: "grow es2 os2 (grow es1 os1 c) = grow (es1 @ es2) (os1 @ os2) c"
  by (cases c) (simp add: grow_def)

lemma grow_Nil [simp]: "grow [] [] c = c"
  by (cases c) (simp add: grow_def)

lemma grow_simps [simp]:
  "esTrace (grow es os c) = esTrace c @ es" "esConversation (grow es os c) = esConversation c @ os"
  "esMachine (grow es os c) = esMachine c" "esBudget (grow es os c) = esBudget c"
  "esRounds (grow es os c) = esRounds c" "esFinalText (grow es os c) = esFinalText c"
  "(grow es os c)\<lparr>esBudget := b\<rparr> = grow es os (c\<lparr>esBudget := b\<rparr>)"
  "(grow es os c)\<lparr>esMachine := m\<rparr> = grow es os (c\<lparr>esMachine := m\<rparr>)"
  by (cases c; simp add: grow_def)+

lemma grow_fold:
  "c\<lparr>esTrace := esTrace c @ es\<rparr> = grow es [] c" "c\<lparr>esConversation := esConversation c @ os\<rparr> = grow [] os c"
  by (cases c; simp add: grow_def)+

lemma runs_trace_grow [simp]: "runs (traceE e) c r c' \<longleftrightarrow> r = Inr () \<and> c' = grow [e] [] c"
  by (simp add: traceE_def grow_fold)

lemma runs_push_grow [simp]: "runs (pushE os) c r c' \<longleftrightarrow> r = Inr () \<and> c' = grow [] os c"
  by (simp add: pushE_def grow_fold)

subsection \<open>Sequences\<close>

text \<open>Steps that do not touch the world rewrite; the others are cases.\<close>

lemma bindE_assoc [simp]: "bindE (bindE m f) g = bindE m (\<lambda>x. bindE (f x) g)"
  by (auto simp: bindE_def fun_eq_iff split: sum.splits prod.splits)

lemma runs_bind_simps [simp]:
  "runs (bindE (returnE x) f) c r c' \<longleftrightarrow> runs (f x) c r c'"
  "runs (bindE (readE g) f2) c r c' \<longleftrightarrow> runs (f2 (g c)) c r c'"
  "runs (bindE (budgetE b) f3) c r c' \<longleftrightarrow> runs (f3 (fst (b (esBudget c)))) (c\<lparr>esBudget := snd (b (esBudget c))\<rparr>) r c'"
  by (auto simp: runs_def bindE_def returnE_def readE_def budgetE_def case_prod_beta)

lemma runs_bind_unit [simp]:
  "runs (bindE (pushE os) f) c r c' \<longleftrightarrow> runs (f ()) (grow [] os c) r c'"
  "runs (bindE (traceE e) f) c r c' \<longleftrightarrow> runs (f ()) (grow [e] [] c) r c'"
  "runs (bindE (modifyE g) f) c r c' \<longleftrightarrow> runs (f ()) (g c) r c'"
  "runs (bindE (whenE b m) f) c r c' \<longleftrightarrow> (if b then runs (bindE m f) c r c' else runs (f ()) c r c')"
  by (auto simp: runs_def bindE_def pushE_def traceE_def modifyE_def whenE_def returnE_def grow_fold)

lemma runs_bind_machine [simp]:
  "runs (bindE (machineE m) f) c r c' \<longleftrightarrow>
     (case m (esMachine c) of Inl e \<Rightarrow> r = Inl (ExnMachine e) \<and> c' = c
      | Inr m' \<Rightarrow> runs (f ()) (c\<lparr>esMachine := m'\<rparr>) r c')"
  by (auto simp: runs_def bindE_def machineE_def split: sum.splits)

lemma runs_callE_bind:
  assumes "runs (bindE (callE g) f) c r c'"
  obtains (failed) e where "r = Inl e" "c' = c" | (went_on) x where "runs (f x) c r c'"
  using assms by (elim runs_bindE) (auto dest: runs_callE)

lemma runs_askE_bind:
  assumes "runs (bindE (askE g) f) c r c'"
  obtains x where "runs (f x) c r c'"
  using assms by (elim runs_bindE) (auto dest: runs_askE)

lemma runs_peekE_bind:
  assumes "runs (bindE (peekE g) f) c r c'"
  obtains x where "runs (f x) c r c'"
  using assms by (elim runs_bindE) (auto dest: runs_peekE)

lemma runs_abortedE_bind:
  assumes "runs (bindE (abortedE env) f) c r c'"
  obtains x where "runs (f x) c r c'"
  using assms unfolding abortedE_def by (rule runs_peekE_bind)

lemma runs_appendE:
  assumes "runs (appendE env base i pl) c r c'"
  obtains (failed) e where "r = Inl e" "c' = c" | (stored) "r = Inr ()" "c' = grow [Logged pl] [] c"
  using assms unfolding appendE_def by (elim runs_callE_bind) auto

lemma runs_appendE_bind:
  assumes "runs (bindE (appendE env base i pl) f) c r c'"
  obtains (failed) e where "r = Inl e" "c' = c" | (went_on) "runs (f ()) (grow [Logged pl] [] c) r c'"
  using assms by (elim runs_bindE) (auto elim: runs_appendE)

lemma runs_lifecycleE: "runs (lifecycleE env ev d) c r c' \<Longrightarrow> c' = c"
  by (auto simp: lifecycleE_def dest: runs_callE split: option.splits)

lemma runs_lifecycleE_bind:
  assumes "runs (bindE (lifecycleE env ev d) f) c r c'"
  obtains (failed) e where "r = Inl e" "c' = c" | (went_on) "runs (f ()) c r c'"
  using assms by (elim runs_bindE) (auto dest: runs_lifecycleE)

lemmas runs_bind_elims = runs_callE_bind runs_askE_bind runs_peekE_bind runs_abortedE_bind
  runs_appendE_bind runs_lifecycleE_bind

lemma runs_appendItem:
  assumes "runs (appendItem env base body) c r c'"
  obtains (failed) e where "r = Inl e" "c' = c"
  | (stored) i where "r = Inr ()" "itBody i = body" "c' = grow [Logged (ItemAppended i)] [] c"
proof -
  have "(\<exists>e. r = Inl e \<and> c' = c) \<or>
      (\<exists>i. r = Inr () \<and> itBody i = body \<and> c' = grow [Logged (ItemAppended i)] [] c)"
    using assms unfolding appendItem_def
    by (elim runs_bind_elims runs_appendE) (simp, metis item.select_convs(6))
  then show ?thesis using failed stored by blast
qed

lemma runs_appendItem_bind:
  assumes "runs (bindE (appendItem env base body) f) c r c'"
  obtains (failed) e where "r = Inl e" "c' = c"
  | (went_on) i where "itBody i = body" "runs (f ()) (grow [Logged (ItemAppended i)] [] c) r c'"
  using assms by (elim runs_bindE) (auto elim: runs_appendItem)

subsection \<open>The attempts of a model request\<close>

text \<open>A request calls the provider at least once and at most as often as the retry policy has attempts.\<close>

definition maxAttempts :: "'w turnEnv \<Rightarrow> int" where
  "maxAttempts env = max 1 (rpMaxAttempts (policyOf env))"

lemma streamGo_attempts:
  "streamGo env request startedAt attempt s = (r, s') \<Longrightarrow>
     \<exists>n. snd s' = grow (replicate (Suc n) (Requested (mrInput request))) [] (snd s) \<and>
       int n \<le> max 0 (rpMaxAttempts (policyOf env) - attempt)"
proof (induction env request startedAt attempt s arbitrary: s' rule: streamGo.induct)
  case (1 env request startedAt attempt w c)
  let ?c = "grow [Requested (mrInput request)] [] c"
  have one: "\<exists>n. ?c = grow (replicate (Suc n) (Requested (mrInput request))) [] c \<and>
      int n \<le> max 0 (rpMaxAttempts (policyOf env) - attempt)"
    by (rule exI [of _ 0]) simp
  note step = "1.prems" [unfolded streamGo.simps [of env request startedAt attempt w c] Let_def grow_fold]
  have "snd s' = ?c \<or> (\<exists>e w1 now w2 delay w3. envStream env request w = (Inl (ExnHarness e), w1) \<and> \<not> envAborted env w1 \<and>
      envNow env w1 = (now, w2) \<and>
      decideRetry e \<lparr>rsAttempt = attempt, rsElapsedMs = now - startedAt\<rparr> (drawOf env w2) (policyOf env) = Inr (Retry delay) \<and>
      envSleep env delay w2 = (Inr (), w3) \<and> streamGo env request startedAt (attempt + 1) (w3, ?c) = (r, s'))"
    using step by (auto split: prod.splits sum.splits if_splits engineExn.splits retryDecision.splits)
  then show ?case
  proof (elim disjE exE conjE)
    fix e w1 now w2 delay w3
    assume *: "envStream env request w = (Inl (ExnHarness e), w1)" "\<not> envAborted env w1" "envNow env w1 = (now, w2)"
      "decideRetry e \<lparr>rsAttempt = attempt, rsElapsedMs = now - startedAt\<rparr> (drawOf env w2) (policyOf env) = Inr (Retry delay)"
      "envSleep env delay w2 = (Inr (), w3)" "streamGo env request startedAt (attempt + 1) (w3, ?c) = (r, s')"
    from retry_means_attempts_left [OF *(4)] have left: "attempt < rpMaxAttempts (policyOf env)" by simp
    have "\<exists>n. snd s' = grow (replicate (Suc n) (Requested (mrInput request))) [] ?c \<and>
        int n \<le> max 0 (rpMaxAttempts (policyOf env) - (attempt + 1))"
      using "1.IH" [OF refl *(1) [symmetric] refl *(2) refl *(3) [symmetric] *(4) refl *(5) [symmetric] refl *(6) [unfolded grow_fold [symmetric]]]
      by (simp add: grow_fold)
    then obtain n where "snd s' = grow (replicate (Suc n) (Requested (mrInput request))) [] ?c"
      "int n \<le> max 0 (rpMaxAttempts (policyOf env) - (attempt + 1))" by auto
    with left show ?thesis by (intro exI [of _ "Suc n"]) simp
  qed (use one in simp)
qed

lemma runs_streamWithRetry:
  assumes "runs (streamWithRetry env request) c r c'"
  obtains n where "c' = grow (replicate n (Requested (mrInput request))) [] c" "int n \<le> maxAttempts env"
proof -
  from assms obtain startedAt where "runs (streamGo env request startedAt 1) c r c'"
    unfolding streamWithRetry_def by (rule runs_askE_bind)
  then obtain w w' where "streamGo env request startedAt 1 (w, c) = (r, (w', c'))" by (auto simp: runs_def)
  from streamGo_attempts [OF this] obtain n where "c' = grow (replicate (Suc n) (Requested (mrInput request))) [] c"
    "int n \<le> max 0 (rpMaxAttempts (policyOf env) - 1)" by auto
  then show ?thesis by (intro that [of "Suc n"]) (auto simp: maxAttempts_def)
qed

subsection \<open>Relations that every step of a program keeps\<close>

text \<open>
  A reflexive and transitive relation between the states before and after: when the steps of a program
  keep it, so does the program. The interfaces of the world leave the engine's own state alone.
\<close>

definition keeps :: "(engineCore \<Rightarrow> engineCore \<Rightarrow> bool) \<Rightarrow> ('w, 'a) engine \<Rightarrow> bool" where
  "keeps R m \<longleftrightarrow> (\<forall>c r c'. runs m c r c' \<longrightarrow> R c c')"

lemma keepsD: "keeps R m \<Longrightarrow> runs m c r c' \<Longrightarrow> R c c'"
  by (auto simp: keeps_def)

locale engine_relation =
  fixes R :: "engineCore \<Rightarrow> engineCore \<Rightarrow> bool"
  assumes same: "R c c"
    and composed: "R a b \<Longrightarrow> R b c \<Longrightarrow> R a c"
begin

lemma keeps_bindE: "keeps R m \<Longrightarrow> (\<And>x. keeps R (f x)) \<Longrightarrow> keeps R (bindE m f)"
  unfolding keeps_def by (intro allI impI, erule runs_bindE) (simp, rule composed, blast, simp)

lemma keeps_catchE: "keeps R m \<Longrightarrow> (\<And>e. keeps R (h e)) \<Longrightarrow> keeps R (catchE m h)"
  unfolding keeps_def by (intro allI impI, erule runs_catchE) (simp, rule composed, blast, simp)

lemma keeps_pure:
  "keeps R (returnE x)" "keeps R (throwE e)" "keeps R (readE g)" "keeps R m \<Longrightarrow> keeps R (whenE b m)"
  by (auto simp: keeps_def same)

lemma keeps_world:
  "keeps R (callE f)" "keeps R (askE h)" "keeps R (peekE p)" "keeps R (abortedE env)" "keeps R (lifecycleE env ev d)"
  by (auto simp: keeps_def same dest!: runs_callE runs_askE runs_peekE runs_abortedE runs_lifecycleE)

lemmas keeps_structure = keeps_bindE keeps_catchE keeps_pure keeps_world

lemma keeps_appends:
  "(\<And>c. R c (grow [Logged pl] [] c)) \<Longrightarrow> keeps R (appendE env base i pl)"
  "(\<And>c it. itBody it = b \<Longrightarrow> R c (grow [Logged (ItemAppended it)] [] c)) \<Longrightarrow> keeps R (appendItem env base b)"
  by (auto simp: keeps_def same elim!: runs_appendE runs_appendItem)

lemma keeps_appendItems: "list_all (\<lambda>b. keeps R (appendItem env base b)) bs \<Longrightarrow> keeps R (appendItems env base bs)"
  by (induction bs) (auto intro!: keeps_structure)

lemma keeps_requests:
  assumes "\<And>c. R c (grow [Requested q] [] c)" shows "R c (grow (replicate n (Requested q)) [] c)"
proof (induction n)
  case (Suc n)
  have "R (grow (replicate n (Requested q)) [] c) (grow (replicate (Suc n) (Requested q)) [] c)"
    using assms [of "grow (replicate n (Requested q)) [] c"] by (simp add: replicate_append_same)
  with Suc show ?case by (rule composed)
qed (simp add: same)

lemma keeps_stream:
  assumes "\<And>c. R c (grow [Requested (mrInput request)] [] c)"
  shows "keeps R (streamWithRetry env request)"
  using keeps_requests [where q = "mrInput request", OF assms]
  by (auto simp: keeps_def elim!: runs_streamWithRetry)

end

end
