(* ===== verification/Turn_Discipline.thy ===== *)
theory Turn_Discipline
  imports Turn_Runs
begin

text \<open>
  The discipline of a turn's trace, and what every operation of the tool phase adds to it. A tool call
  is begun only after its intent and its start are durable and after policy allowed it or an approval
  was granted; an effect is settled only after it was begun or when the recovery guard refused it; a
  successful tool result is recorded only for a call that was begun; and an approval is resolved only
  after it was requested.
\<close>

subsection \<open>Disciplined traces\<close>

definition authorisedIn :: "traceEntry list \<Rightarrow> string \<Rightarrow> bool" where
  "authorisedIn tr cid = list_ex (\<lambda>e. case e of
       Logged (PolicyDecided (Some i) _ Po_allow _ _) \<Rightarrow> i = cid
     | Logged (ApprovalResolved (Some i) True _) \<Rightarrow> i = cid
     | _ \<Rightarrow> False) tr"

definition intendedIn :: "traceEntry list \<Rightarrow> string \<Rightarrow> bool" where
  "intendedIn tr sid = list_ex (\<lambda>e. case e of Logged (SideEffectIntended i) \<Rightarrow> siSideEffectId i = sid | _ \<Rightarrow> False) tr"

definition begunIn :: "traceEntry list \<Rightarrow> string \<Rightarrow> bool" where
  "begunIn tr sid = list_ex (\<lambda>e. case e of Executed s _ \<Rightarrow> s = sid | _ \<Rightarrow> False) tr"

definition calledIn :: "traceEntry list \<Rightarrow> string \<Rightarrow> bool" where
  "calledIn tr cid = list_ex (\<lambda>e. case e of Executed _ c \<Rightarrow> tcCallId c = cid | _ \<Rightarrow> False) tr"

definition requestedIn :: "traceEntry list \<Rightarrow> string option \<Rightarrow> bool" where
  "requestedIn tr cid = list_ex (\<lambda>e. case e of Logged (ApprovalRequested i _ _) \<Rightarrow> i = cid | _ \<Rightarrow> False) tr"

definition successOf :: "itemBody \<Rightarrow> string option" where
  "successOf b = (case b of ToolResult cid _ True _ _ _ _ _ \<Rightarrow> Some cid | _ \<Rightarrow> None)"

fun okEntry :: "traceEntry list \<Rightarrow> traceEntry \<Rightarrow> bool" where
  "okEntry tr (Executed sid c) \<longleftrightarrow>
     intendedIn tr sid \<and> Logged (SideEffectStarted sid) \<in> set tr \<and> authorisedIn tr (tcCallId c)"
| "okEntry tr (Logged (SideEffectStarted sid)) \<longleftrightarrow> intendedIn tr sid"
| "okEntry tr (Logged (SideEffectSettled sid st d)) \<longleftrightarrow>
     intendedIn tr sid \<and> (begunIn tr sid \<or> st = E_known_complete \<and> d = None)"
| "okEntry tr (Logged (ItemAppended i)) \<longleftrightarrow>
     (case successOf (itBody i) of None \<Rightarrow> True | Some cid \<Rightarrow> calledIn tr cid)"
| "okEntry tr (Logged (ApprovalResolved i g sc)) \<longleftrightarrow> requestedIn tr i"
| "okEntry tr _ \<longleftrightarrow> True"

fun discFrom :: "traceEntry list \<Rightarrow> traceEntry list \<Rightarrow> bool" where
  "discFrom tr [] = True"
| "discFrom tr (e # es) = (okEntry tr e \<and> discFrom (tr @ [e]) es)"

definition disciplined :: "traceEntry list \<Rightarrow> bool" where
  "disciplined tr = discFrom [] tr"

lemma In_append [simp]:
  "authorisedIn (xs @ ys) i \<longleftrightarrow> authorisedIn xs i \<or> authorisedIn ys i"
  "intendedIn (xs @ ys) i \<longleftrightarrow> intendedIn xs i \<or> intendedIn ys i"
  "begunIn (xs @ ys) i \<longleftrightarrow> begunIn xs i \<or> begunIn ys i"
  "calledIn (xs @ ys) i \<longleftrightarrow> calledIn xs i \<or> calledIn ys i"
  "requestedIn (xs @ ys) j \<longleftrightarrow> requestedIn xs j \<or> requestedIn ys j"
  by (simp_all add: authorisedIn_def intendedIn_def begunIn_def calledIn_def requestedIn_def)

lemma In_Cons:
  "authorisedIn (x # ys) i \<longleftrightarrow> authorisedIn [x] i \<or> authorisedIn ys i"
  "intendedIn (x # ys) i \<longleftrightarrow> intendedIn [x] i \<or> intendedIn ys i"
  "begunIn (x # ys) i \<longleftrightarrow> begunIn [x] i \<or> begunIn ys i"
  "calledIn (x # ys) i \<longleftrightarrow> calledIn [x] i \<or> calledIn ys i"
  "requestedIn (x # ys) j \<longleftrightarrow> requestedIn [x] j \<or> requestedIn ys j"
  by (simp_all add: authorisedIn_def intendedIn_def begunIn_def calledIn_def requestedIn_def)

lemmas In_defs = authorisedIn_def intendedIn_def begunIn_def calledIn_def requestedIn_def

lemma discFrom_append [simp]: "discFrom tr (xs @ ys) \<longleftrightarrow> discFrom tr xs \<and> discFrom (tr @ xs) ys"
  by (induction xs arbitrary: tr) simp_all

lemma disciplined_append: "disciplined (xs @ ys) \<longleftrightarrow> disciplined xs \<and> discFrom xs ys"
  by (simp add: disciplined_def)

subsection \<open>Kinds of entries\<close>

text \<open>Entries of the tool phase; and those among them that need nothing before them.\<close>

fun toolEntry :: "traceEntry \<Rightarrow> bool" where
  "toolEntry (Requested _) = False"
| "toolEntry (Executed _ _) = True"
| "toolEntry (Logged (TurnStarted _)) = False"
| "toolEntry (Logged (TurnEnded _ _)) = False"
| "toolEntry (Logged (ModelRequestStarted _ _ _)) = False"
| "toolEntry (Logged (ModelRequestCompleted _ _)) = False"
| "toolEntry (Logged (ModelRequestFailed _ _ _ _)) = False"
| "toolEntry (Logged (CancelledPayload _)) = False"
| "toolEntry (Logged _) = True"

fun quiet :: "traceEntry \<Rightarrow> bool" where
  "quiet (Logged (HookFired _ _ _ _)) = True"
| "quiet (Logged (PolicyDecided _ _ _ _ _)) = True"
| "quiet (Logged (TurnStateChanged _ _)) = True"
| "quiet (Logged (SideEffectIntended _)) = True"
| "quiet (Logged (ApprovalRequested _ _ _)) = True"
| "quiet (Logged (ItemAppended i)) = (successOf (itBody i) = None)"
| "quiet _ = False"

fun isExec :: "traceEntry \<Rightarrow> bool" where
  "isExec (Executed _ _) = True"
| "isExec _ = False"

definition execs :: "traceEntry list \<Rightarrow> nat" where
  "execs es = length (filter isExec es)"

lemma execs_simps [simp]:
  "execs [] = 0" "execs (e # es) = (if isExec e then 1 else 0) + execs es"
  "execs (xs @ ys) = execs xs + execs ys"
  by (simp_all add: execs_def)

lemma quiet_imp: "quiet e \<Longrightarrow> okEntry tr e \<and> toolEntry e \<and> \<not> isExec e"
  by (induction e rule: quiet.induct) auto

lemma quiet_list:
  assumes "list_all quiet es"
  shows "discFrom tr es" "list_all toolEntry es" "execs es = 0"
proof -
  from assms have "discFrom tr es \<and> list_all toolEntry es \<and> execs es = 0"
    by (induction es arbitrary: tr) (auto simp: quiet_imp)
  then show "discFrom tr es" "list_all toolEntry es" "execs es = 0" by auto
qed

subsection \<open>What the steps of a tool call add\<close>

definition grows ::
  "engineCore \<Rightarrow> engineCore \<Rightarrow> (traceEntry list \<Rightarrow> inputItem list \<Rightarrow> bool) \<Rightarrow> bool" where
  "grows c c' Q \<longleftrightarrow> (\<exists>es os. c' = grow es os c \<and> Q es os)"

lemma growsI [intro!]: "Q es os \<Longrightarrow> grows c (grow es os c) Q" "Q [] [] \<Longrightarrow> grows c c Q"
  by (auto simp: grows_def) (metis grow_Nil)

lemma growsE:
  assumes "grows c c' Q" obtains es os where "c' = grow es os c" "Q es os"
  using assms by (auto simp: grows_def)

text \<open>The trace and the conversation grow; the machine and the budget may change beside that.\<close>

definition adds ::
  "engineCore \<Rightarrow> engineCore \<Rightarrow> (traceEntry list \<Rightarrow> inputItem list \<Rightarrow> bool) \<Rightarrow> bool" where
  "adds c c' Q \<longleftrightarrow>
     (\<exists>es os. c' = (grow es os c)\<lparr>esMachine := esMachine c', esBudget := esBudget c'\<rparr> \<and> Q es os)"

lemma addsI [intro!]:
  "Q es os \<Longrightarrow> adds c (grow es os c) Q" "Q [] [] \<Longrightarrow> adds c c Q"
  "Q es os \<Longrightarrow> adds c (grow es os (c\<lparr>esMachine := m\<rparr>)) Q" "Q [] [] \<Longrightarrow> adds c (c\<lparr>esMachine := m\<rparr>) Q"
  by (cases c; force simp: adds_def grow_def)+

lemma addsE:
  assumes "adds c c' Q"
  obtains es os m b where "c' = grow es os (c\<lparr>esMachine := m, esBudget := b\<rparr>)" "Q es os"
  using assms by (cases c) (auto simp: adds_def grow_def)

lemma adds_keep:
  "adds c c' Q \<Longrightarrow> esRounds c' = esRounds c \<and> esFinalText c' = esFinalText c"
  by (auto elim!: addsE)

lemma adds_trans:
  assumes "adds c c1 Q1" and "adds c1 c2 Q2"
    and "\<And>e1 o1 e2 o2. Q1 e1 o1 \<Longrightarrow> esTrace c1 = esTrace c @ e1 \<Longrightarrow> Q2 e2 o2 \<Longrightarrow> Q (e1 @ e2) (o1 @ o2)"
  shows "adds c c2 Q"
proof -
  from assms(1) obtain e1 o1 m1 b1 where 1: "c1 = grow e1 o1 (c\<lparr>esMachine := m1, esBudget := b1\<rparr>)" "Q1 e1 o1"
    by (rule addsE)
  from assms(2) obtain e2 o2 m2 b2 where 2: "c2 = grow e2 o2 (c1\<lparr>esMachine := m2, esBudget := b2\<rparr>)" "Q2 e2 o2"
    by (rule addsE)
  have "c2 = (grow (e1 @ e2) (o1 @ o2) c)\<lparr>esMachine := m2, esBudget := b2\<rparr>"
    by (cases c) (simp add: 1 2 grow_def)
  then show ?thesis using assms(3) [OF 1(2) _ 2(2)] 1(1)
    by (auto simp: adds_def)
qed

lemma adds_mono: "adds c c' P \<Longrightarrow> (\<And>es os. P es os \<Longrightarrow> Q es os) \<Longrightarrow> adds c c' Q"
  by (auto simp: adds_def)

lemma some_output [simp]: "\<exists>t. outputOf call s = outputOf call t"
  by blast

lemma persistState_adds:
  assumes "runs (persistState env base) c r c'"
  obtains es where "c' = grow es [] c" "list_all quiet es"
    "r = Inr () \<Longrightarrow> es = (let h = tmHistory (esMachine c) in
       if length h \<ge> 2 \<and> h ! (length h - 2) \<noteq> tmState (esMachine c)
       then [Logged (TurnStateChanged (h ! (length h - 2)) (tmState (esMachine c)))] else [])"
proof -
  have "c' = c \<and> ((\<exists>e. r = Inl e) \<or> \<not> (length (tmHistory (esMachine c)) \<ge> 2 \<and>
        tmHistory (esMachine c) ! (length (tmHistory (esMachine c)) - 2) \<noteq> tmState (esMachine c))) \<or>
      c' = grow [Logged (TurnStateChanged (tmHistory (esMachine c) ! (length (tmHistory (esMachine c)) - 2))
        (tmState (esMachine c)))] [] c \<and> length (tmHistory (esMachine c)) \<ge> 2 \<and>
        tmHistory (esMachine c) ! (length (tmHistory (esMachine c)) - 2) \<noteq> tmState (esMachine c)"
    using assms unfolding persistState_def by (auto simp: Let_def elim!: runs_appendE split: if_splits)
  then show ?thesis using that [of "[]"] that [of "[Logged _]"] by (auto simp: Let_def)
qed

lemma denial_adds:
  assumes "runs (recordToolDenial env base call msg cat) c r c'"
  obtains es where "c' = grow es [] c" "list_all quiet es"
  using assms unfolding recordToolDenial_def
proof (cases rule: runs_appendItem)
  case (failed e)
  then show ?thesis using that [of "[]"] by simp
next
  case (stored i)
  then show ?thesis using that [of "[Logged (ItemAppended i)]"] by (simp add: successOf_def)
qed

lemma gateCall_adds:
  assumes "runs (gateCall env base call) c r c'"
  obtains es os where "c' = grow es os c" "list_all quiet es"
    "r = Inr True \<Longrightarrow> \<exists>t. os = [outputOf call t]" "r \<noteq> Inr True \<Longrightarrow> os = []"
proof (cases "envHooks env")
  case None
  with assms show ?thesis using that [of "[]" "[]"] by (simp add: gateCall_def)
next
  case (Some h)
  let ?e = "\<lambda>out. Logged (HookFired ''PreToolUse'' (tcToolName call) out 0)"
  from assms Some have "c' = c \<and> r \<noteq> Inr True \<or> (\<exists>x. c' = grow [?e x] [] c) \<and> r \<noteq> Inr True \<or>
      (\<exists>x t. c' = grow [?e x] [outputOf call t] c) \<and> r = Inr True"
    unfolding gateCall_def
    by (auto split: prod.splits if_splits elim!: runs_callE_bind runs_appendE_bind)
  then show ?thesis using that [of "[]" "[]"] that [of "[?e _]" "[]"] that [of "[?e _]" "[outputOf call _]"] by auto
qed

lemma appendVerdict_adds:
  assumes "runs (appendVerdict env base call v) c r c'"
  obtains es where "c' = grow es [] c" "list_all quiet es"
    "r = Inr () \<Longrightarrow> teStatus v = V_allow \<Longrightarrow> authorisedIn es (tcCallId call)"
  using assms unfolding appendVerdict_def
proof (cases rule: runs_appendE)
  case (failed e)
  then show ?thesis using that [of "[]"] by simp
next
  case stored
  then show ?thesis using that [OF stored(2)] by (simp add: authorisedIn_def statusOutcome_def)
qed

lemma In_started [simp]:
  "intendedIn [Logged (SideEffectIntended i), e] sid \<longleftrightarrow> siSideEffectId i = sid \<or> intendedIn [e] sid"
  "intendedIn [Logged (SideEffectIntended i)] sid \<longleftrightarrow> siSideEffectId i = sid"
  "begunIn [Executed s call] sid \<longleftrightarrow> s = sid" "calledIn [Executed s call] cid \<longleftrightarrow> tcCallId call = cid"
  by (simp_all add: In_defs)

lemma admitCall_adds:
  assumes "runs (admitCall env call) c r c'"
  shows "c' = c\<lparr>esBudget := esBudget c'\<rparr> \<and> btModelCalls (esBudget c') = btModelCalls (esBudget c) \<and>
    (\<exists>v. r = Inr v) \<and> btToolCalls (esBudget c') \<ge> btToolCalls (esBudget c) \<and>
    btToolCalls (esBudget c') \<le> max (btToolCalls (esBudget c)) (blMaxToolCalls (limitsOf env)) \<and>
    (r = Inr None \<longrightarrow> btToolCalls (esBudget c') = btToolCalls (esBudget c) + 1)"
  using assms unfolding admitCall_def
  by (auto simp: beforeToolCall_def observeToolCall_def Let_def split: if_splits)

text \<open>What every fragment of the tool phase satisfies after the trace tr.\<close>

definition fragment :: "traceEntry list \<Rightarrow> nat \<Rightarrow> traceEntry list \<Rightarrow> bool" where
  "fragment tr n es \<longleftrightarrow> discFrom tr es \<and> list_all toolEntry es \<and> execs es \<le> n"

lemma quiet_fragment: "list_all quiet es \<Longrightarrow> fragment tr n es"
  by (simp add: fragment_def quiet_list)

lemma fragment_append: "fragment tr n xs \<Longrightarrow> fragment (tr @ xs) m ys \<Longrightarrow> fragment tr (n + m) (xs @ ys)"
  by (simp add: fragment_def)

lemma beginEffect_grows:
  assumes "runs (beginEffect env base call) c r c'"
  shows "grows c c' (\<lambda>es os. fragment tr 0 es \<and> (r = Inr None \<longrightarrow> (\<exists>t. os = [outputOf call t])) \<and>
    (r \<noteq> Inr None \<longrightarrow> os = []) \<and>
    (\<forall>sid. r = Inr (Some sid) \<longrightarrow> intendedIn es sid \<and> Logged (SideEffectStarted sid) \<in> set es))"
  using assms unfolding beginEffect_def
  by (auto simp: fragment_def split: prod.splits if_splits
      elim!: runs_callE_bind runs_askE_bind runs_appendE_bind runs_peekE_bind)

lemma settleEffect_grows:
  assumes "runs (settleEffect env base call sid res) c r c'" and "intendedIn tr sid" "begunIn tr sid"
    and "calledIn tr (tcCallId call)"
  shows "grows c c' (\<lambda>es os. fragment tr 0 es \<and> (\<forall>x. r = Inr x \<longrightarrow> (\<exists>t. os = [outputOf call t])))"
  using assms unfolding settleEffect_def
  by (auto simp: fragment_def resultItem_def successOf_def split: option.splits bool.splits
      elim!: runs_callE_bind runs_appendE_bind runs_appendItem_bind)

text \<open>From the intent to the result, for a call with authority.\<close>

lemma performCall_grows:
  assumes "runs (performCall env base call) c r c'" and "authorisedIn (esTrace c) (tcCallId call)"
  shows "grows c c' (\<lambda>es os. fragment (esTrace c) 1 es \<and> (r = Inr PhaseGo \<longrightarrow> (\<exists>t. os = [outputOf call t]))) \<and>
    (\<forall>p. r = Inr p \<longrightarrow> p \<in> {PhaseGo, PhaseCancelled, PhaseHookStop})"
  using assms(1) unfolding performCall_def
proof (cases rule: runs_bindE)
  case (failed e)
  then show ?thesis using beginEffect_grows [OF failed(1), of "esTrace c"]
    by (auto simp: fragment_def elim!: growsE)
next
  case (went_on started c1)
  from beginEffect_grows [OF went_on(1), of "esTrace c"] obtain es os where
    c1: "c1 = grow es os c" "fragment (esTrace c) 0 es" and none: "started = None \<Longrightarrow> \<exists>t. os = [outputOf call t]"
    and some: "\<And>sid. started = Some sid \<Longrightarrow> os = [] \<and> intendedIn es sid \<and> Logged (SideEffectStarted sid) \<in> set es"
    by (auto elim!: growsE)
  show ?thesis
  proof (cases started)
    case None
    then show ?thesis using went_on(2) none c1 by (auto simp: fragment_def)
  next
    case (Some sid)
    let ?x = "Executed sid call"
    have begun: "fragment (esTrace c) 1 (es @ [?x])"
      using c1(2) some [OF Some] assms(2) by (simp add: fragment_def)
    from went_on(2) Some some [OF Some] c1(1)
    have "runs (bindE (callE (envExecute env call)) (\<lambda>res. bindE (settleEffect env base call sid res) (\<lambda>stop.
        bindE (abortedE env) (\<lambda>aborted. returnE (if aborted then PhaseCancelled else if stop then PhaseHookStop else PhaseGo)))))
        (grow (es @ [?x]) [] c) r c'" by simp
    then show ?thesis
    proof (cases rule: runs_callE_bind)
      case (failed e)
      then show ?thesis using begun by auto
    next
      case (went_on res)
      have settled: "grows (grow (es @ [?x]) [] c) c2 (\<lambda>es2 os2. fragment (esTrace c @ es @ [?x]) 0 es2 \<and>
          (\<forall>x. r2 = Inr x \<longrightarrow> (\<exists>t. os2 = [outputOf call t])))"
        if "runs (settleEffect env base call sid res) (grow (es @ [?x]) [] c) r2 c2" for r2 c2
        using that some [OF Some] by (intro settleEffect_grows) auto
      have glue: "fragment (esTrace c) 1 (es @ ?x # es2)" if "fragment (esTrace c @ es @ [?x]) 0 es2" for es2
        using begun that by (simp add: fragment_def)
      from went_on show ?thesis
      proof (cases rule: runs_bindE)
        case (failed e)
        from settled [OF failed(1)] failed(2) show ?thesis
          by (auto simp del: One_nat_def elim!: growsE intro: glue)
      next
        case (went_on stop c2)
        from went_on(2) have r: "c' = c2" "r \<in> Inr ` {PhaseGo, PhaseCancelled, PhaseHookStop}"
          by (auto elim!: runs_abortedE_bind split: if_splits)
        from settled [OF went_on(1)] obtain es2 t where
          "c2 = grow es2 [outputOf call t] (grow (es @ [?x]) [] c)" "fragment (esTrace c @ es @ [?x]) 0 es2"
          by (auto elim!: growsE)
        then have "c' = grow (es @ ?x # es2) [outputOf call t] c" "fragment (esTrace c) 1 (es @ ?x # es2)"
          using r(1) glue by simp_all
        then show ?thesis using r(2) by (auto simp del: One_nat_def)
      qed
    qed
  qed
qed

subsection \<open>The approval dialogue\<close>

lemma transition_from:
  "tmState m = S_executing \<Longrightarrow> transition S_awaiting_approval m =
     Inr (m\<lparr>tmState := S_awaiting_approval, tmHistory := tmHistory m @ [S_awaiting_approval]\<rparr>)"
  "tmState m = S_awaiting_approval \<Longrightarrow> transition S_executing m =
     Inr (m\<lparr>tmState := S_executing, tmHistory := tmHistory m @ [S_executing]\<rparr>)"
  by (simp_all add: transition_def canTransition_def)

lemma persistState_bind:
  assumes "runs (bindE (persistState env base) f) c r c'"
  obtains (failed) e es where "r = Inl e" "c' = grow es [] c" "list_all quiet es"
  | (went_on) es where "list_all quiet es" "runs (f ()) (grow es [] c) r c'"
  using assms by (elim runs_bindE; elim persistState_adds) auto

lemma denial_bind:
  assumes "runs (bindE (recordToolDenial env base call msg cat) f) c r c'"
  obtains (failed) e es where "r = Inl e" "c' = grow es [] c" "list_all quiet es"
  | (went_on) es where "list_all quiet es" "runs (f ()) (grow es [] c) r c'"
  using assms by (elim runs_bindE; elim denial_adds) auto

lemma fragment_Cons: "fragment tr 0 (e # es) \<longleftrightarrow> okEntry tr e \<and> toolEntry e \<and> \<not> isExec e \<and> fragment (tr @ [e]) 0 es"
  by (auto simp: fragment_def)

lemma fragment_split: "fragment tr 0 (xs @ ys) \<longleftrightarrow> fragment tr 0 xs \<and> fragment (tr @ xs) 0 ys"
  by (auto simp: fragment_def)

lemma fragment_Nil [simp]: "fragment tr n []"
  by (simp add: fragment_def)

definition askedWell ::
  "'w turnEnv \<Rightarrow> toolCall \<Rightarrow> engineExn + toolPhase option \<Rightarrow> turnMachine \<Rightarrow> traceEntry list \<Rightarrow> inputItem list \<Rightarrow> bool" where
  "askedWell env call r m es os \<longleftrightarrow>
     (case r of
        Inl _ \<Rightarrow> True
      | Inr None \<Rightarrow> authorisedIn es (tcCallId call) \<and> envApprovals env \<noteq> None \<and> os = [] \<and> tmState m = S_executing
      | Inr (Some PhaseGo) \<Rightarrow> (\<exists>t. os = [outputOf call t]) \<and> tmState m = S_executing
      | Inr (Some PhaseCancelled) \<Rightarrow> tmState m = S_awaiting_approval
      | Inr (Some (PhaseAwaiting q)) \<Rightarrow> arCall q = call \<and> tmState m = S_awaiting_approval
      | Inr (Some _) \<Rightarrow> False)"

lemma askApproval_adds:
  assumes "runs (askApproval env base call v) c r c'" and "tmState (esMachine c) = S_executing"
  shows "adds c c' (\<lambda>es os. fragment (esTrace c) 0 es \<and> askedWell env call r (esMachine c') es os) \<and>
    esBudget c' = esBudget c \<and> tmReason (esMachine c') = tmReason (esMachine c) \<and>
    tmState (esMachine c') \<in> {S_executing, S_awaiting_approval}"
  using assms unfolding askApproval_def Let_def
  by (auto simp: transition_from askedWell_def quiet_fragment fragment_split fragment_Cons In_defs
      split: option.splits approvalDecision.splits if_splits
      elim!: persistState_bind denial_bind runs_appendE_bind runs_lifecycleE_bind runs_callE_bind runs_abortedE_bind)

end
