(* ===== verification/Turn_Phase.thy ===== *)
theory Turn_Phase
  imports Turn_Discipline "HOL-Library.Multiset"
begin

text \<open>
  The tool phase as a whole: one call, the serial and the parallel batch, and the groups of a round all
  satisfy one contract, \<^verbatim>\<open>toolStep\<close>: they add a disciplined piece of trace, begin at most as
  many calls as the budget admitted, keep the machine between executing and awaiting approval, and,
  when the phase goes on, pair every call with exactly one output.
\<close>

subsection \<open>The contract\<close>

definition phaseState :: "toolPhase \<Rightarrow> turnState \<Rightarrow> bool" where
  "phaseState p st \<longleftrightarrow>
     (case p of
        PhaseAwaiting _ \<Rightarrow> st = S_awaiting_approval
      | PhaseCancelled \<Rightarrow> st = S_executing \<or> st = S_awaiting_approval
      | _ \<Rightarrow> st = S_executing)"

text \<open>Conditions under which no exception can arise while an approval is awaited.\<close>

definition calm :: "('w, 'a) effect_of \<Rightarrow> bool" where
  "calm f \<longleftrightarrow> (\<forall>w. \<exists>x w'. f w = (Inr x, w'))"

definition sinkOk :: "'w turnEnv \<Rightarrow> bool" where
  "sinkOk env \<longleftrightarrow> (\<forall>i. calm (envAppend env i))"

definition lifecycleOk :: "'w turnEnv \<Rightarrow> bool" where
  "lifecycleOk env \<longleftrightarrow> (case envHooks env of None \<Rightarrow> True | Some h \<Rightarrow>
     (case thLifecycle h of None \<Rightarrow> True | Some f \<Rightarrow> (\<forall>ev d. calm (f ev d))))"

definition approvalsOk :: "'w turnEnv \<Rightarrow> bool" where
  "approvalsOk env \<longleftrightarrow> (case envApprovals env of None \<Rightarrow> True | Some gate \<Rightarrow> (\<forall>q. calm (gate q)))"

definition safeEnv :: "'w turnEnv \<Rightarrow> bool" where
  "safeEnv env \<longleftrightarrow> sinkOk env \<and> lifecycleOk env \<and> approvalsOk env"

definition phaseOk :: "'w turnEnv \<Rightarrow> engineExn + toolPhase \<Rightarrow> turnState \<Rightarrow> bool" where
  "phaseOk env r st \<longleftrightarrow>
     (case r of Inl _ \<Rightarrow> safeEnv env \<longrightarrow> st = S_executing | Inr p \<Rightarrow> phaseState p st)"

lemma phaseOk_simps [simp]:
  "phaseOk env (Inl e) S_executing" "phaseOk env (Inr p) st = phaseState p st"
  by (simp_all add: phaseOk_def)

lemma calm_runs: "calm f \<Longrightarrow> runs (callE f) c r c' \<Longrightarrow> \<exists>x. r = Inr x"
  by (auto simp: calm_def runs_def callE_def case_prod_beta) (metis fst_conv)

lemma sinkOk_append: "sinkOk env \<Longrightarrow> runs (appendE env base i pl) c r c' \<Longrightarrow> r = Inr () \<and> c' = grow [Logged pl] [] c"
  unfolding appendE_def sinkOk_def by (elim runs_bindE) (auto dest: calm_runs runs_callE)

lemma lifecycleOk_runs: "lifecycleOk env \<Longrightarrow> runs (lifecycleE env ev d) c r c' \<Longrightarrow> r = Inr ()"
  by (auto simp: lifecycleOk_def lifecycleE_def split: option.splits dest!: calm_runs [rotated])

lemma safe_binds:
  "sinkOk env \<Longrightarrow> runs (bindE (appendE env base i pl) f) c r c' \<Longrightarrow> runs (f ()) (grow [Logged pl] [] c) r c'"
  "sinkOk env \<Longrightarrow> runs (bindE (persistState env base) f) c r c' \<Longrightarrow> \<exists>es. list_all quiet es \<and> runs (f ()) (grow es [] c) r c'"
  "lifecycleOk env \<Longrightarrow> runs (bindE (lifecycleE env ev d) f) c r c' \<Longrightarrow> runs (f ()) c r c'"
proof -
  assume "sinkOk env" and "runs (bindE (appendE env base i pl) f) c r c'"
  then show "runs (f ()) (grow [Logged pl] [] c) r c'" by (elim runs_bindE) (auto dest!: sinkOk_append)
next
  assume sink: "sinkOk env" and run: "runs (bindE (persistState env base) f) c r c'"
  have "r1 = Inr ()" if "runs (persistState env base) c r1 c1" for r1 c1
    using that sink unfolding persistState_def by (auto simp: Let_def dest!: sinkOk_append [rotated] split: if_splits)
  with run show "\<exists>es. list_all quiet es \<and> runs (f ()) (grow es [] c) r c'"
    by (elim runs_bindE) (auto elim: persistState_adds)
next
  assume life: "lifecycleOk env" and "runs (bindE (lifecycleE env ev d) f) c r c'"
  from this(2) show "runs (f ()) c r c'"
    by (cases rule: runs_bindE) (use life in \<open>auto dest: lifecycleOk_runs runs_lifecycleE\<close>)
qed

lemma askApproval_safe:
  assumes "safeEnv env" and "runs (askApproval env base call v) c (Inl e) c'" and "tmState (esMachine c) = S_executing"
  shows "tmState (esMachine c') = S_executing"
proof -
  note ok = assms(1) [unfolded safeEnv_def]
  have sink: "sinkOk env" and life: "lifecycleOk env" using ok by auto
  have gate: "\<exists>x. r = Inr x \<and> c2 = c1" if "runs (case envApprovals env of
      None \<Rightarrow> returnE (Deferred msg) | Some gate \<Rightarrow> callE (gate q)) c1 r c2" for r q msg c1 c2
    using that ok by (auto simp: approvalsOk_def split: option.splits dest: calm_runs [rotated] runs_callE)
  show ?thesis
    using assms(2,3) unfolding askApproval_def Let_def
    apply (simp add: transition_from)
    apply (drule safe_binds(2) [OF sink], elim exE conjE, drule safe_binds(1) [OF sink], drule safe_binds(3) [OF life])
    apply (erule runs_bindE, drule gate, simp)
    apply (drule gate, clarsimp)
    apply (erule runs_abortedE_bind)
    apply (auto simp: transition_from split: if_splits approvalDecision.splits
        elim!: denial_bind dest!: safe_binds(1) [OF sink] safe_binds(2) [OF sink])
    done
qed

definition budgetStep :: "'w turnEnv \<Rightarrow> budgetTracker \<Rightarrow> budgetTracker \<Rightarrow> bool" where
  "budgetStep env b b' \<longleftrightarrow> btModelCalls b' = btModelCalls b \<and>
     btToolCalls b' \<le> max (btToolCalls b) (blMaxToolCalls (limitsOf env))"

definition toolStep ::
  "'w turnEnv \<Rightarrow> engineExn + toolPhase \<Rightarrow> engineCore \<Rightarrow> engineCore \<Rightarrow> (inputItem list \<Rightarrow> bool) \<Rightarrow> bool" where
  "toolStep env r c c' Q \<longleftrightarrow>
     adds c c' (\<lambda>es os. discFrom (esTrace c) es \<and> list_all toolEntry es \<and>
       int (execs es) \<le> btToolCalls (esBudget c') - btToolCalls (esBudget c) \<and> (r = Inr PhaseGo \<longrightarrow> Q os)) \<and>
     budgetStep env (esBudget c) (esBudget c') \<and> tmReason (esMachine c') = tmReason (esMachine c) \<and>
     tmState (esMachine c') \<in> {S_executing, S_awaiting_approval} \<and>
     phaseOk env r (tmState (esMachine c'))"

lemma budgetStep_trans: "budgetStep env a b \<Longrightarrow> budgetStep env b c \<Longrightarrow> budgetStep env a c"
  by (auto simp: budgetStep_def)

lemma budgetStep_refl [simp]: "budgetStep env b b"
  by (simp add: budgetStep_def)

lemma toolStep_trans:
  assumes 1: "toolStep env (Inr PhaseGo) c c1 Q1" and 2: "toolStep env r c1 c2 Q2"
    and Q: "\<And>o1 o2. Q1 o1 \<Longrightarrow> Q2 o2 \<Longrightarrow> Q (o1 @ o2)"
  shows "toolStep env r c c2 Q"
proof -
  note a1 = 1 [unfolded toolStep_def, THEN conjunct1] and a2 = 2 [unfolded toolStep_def, THEN conjunct1]
  have "adds c c2 (\<lambda>es os. discFrom (esTrace c) es \<and> list_all toolEntry es \<and>
       int (execs es) \<le> btToolCalls (esBudget c2) - btToolCalls (esBudget c) \<and> (r = Inr PhaseGo \<longrightarrow> Q os))"
    by (rule adds_trans [OF a1 a2]) (simp add: Q)
  moreover have "budgetStep env (esBudget c) (esBudget c2)"
    using 1 2 budgetStep_trans unfolding toolStep_def by blast
  ultimately show ?thesis using 1 2 unfolding toolStep_def by simp
qed

lemma toolStep_mono:
  "toolStep env r c c' Q \<Longrightarrow> (\<And>os. Q os \<Longrightarrow> Q' os) \<Longrightarrow> toolStep env r c c' Q'"
  unfolding toolStep_def by (auto elim!: adds_mono)

text \<open>A step that admits one call first, and afterwards begins at most that one.\<close>

lemma fragment_toolStep:
  assumes "adds c c' (\<lambda>es os. fragment (esTrace c) n es \<and> (r = Inr PhaseGo \<longrightarrow> Q os))"
    and "int n \<le> btToolCalls (esBudget c') - btToolCalls (esBudget c)"
    and "budgetStep env (esBudget c) (esBudget c')" and "tmReason (esMachine c') = tmReason (esMachine c)"
    and "tmState (esMachine c') \<in> {S_executing, S_awaiting_approval}"
    and "phaseOk env r (tmState (esMachine c'))"
  shows "toolStep env r c c' Q"
  unfolding toolStep_def using assms
  by (auto simp: fragment_def elim!: adds_mono)

text \<open>The calls and the outputs of a conversation, by call id.\<close>

definition callIds :: "inputItem list \<Rightarrow> string list" where
  "callIds os = List.map_filter (\<lambda>i. case i of FunctionCall cid _ _ \<Rightarrow> Some cid | _ \<Rightarrow> None) os"

definition outputIds :: "inputItem list \<Rightarrow> string list" where
  "outputIds os = List.map_filter (\<lambda>i. case i of FunctionOutput cid _ _ \<Rightarrow> Some cid | _ \<Rightarrow> None) os"

definition answersWell :: "string list \<Rightarrow> inputItem list \<Rightarrow> bool" where
  "answersWell ids os \<longleftrightarrow> callIds os = [] \<and> mset (outputIds os) = mset ids"

lemma ids_append [simp]:
  "callIds (xs @ ys) = callIds xs @ callIds ys" "outputIds (xs @ ys) = outputIds xs @ outputIds ys"
  by (simp_all add: callIds_def outputIds_def map_filter_def)

lemma answersWell_append: "answersWell a xs \<Longrightarrow> answersWell b ys \<Longrightarrow> answersWell (a @ b) (xs @ ys)"
  by (simp add: answersWell_def)

lemma answersWell_output [simp]:
  "answersWell [tcCallId call] [outputOf call t]" "answersWell [] []"
  by (simp_all add: answersWell_def callIds_def outputIds_def outputOf_def map_filter_simps)

subsection \<open>One call\<close>

lemma adds_grows: "grows c c' Q \<Longrightarrow> adds c c' Q"
  by (auto elim!: growsE)

lemma performCall_adds:
  assumes "runs (performCall env base call) c1 r c'" and "authorisedIn (esTrace c1) (tcCallId call)"
  shows "adds c1 c' (\<lambda>es os. fragment (esTrace c1) 1 es \<and> (r = Inr PhaseGo \<longrightarrow> (\<exists>t. os = [outputOf call t]))) \<and>
    esBudget c' = esBudget c1 \<and> esMachine c' = esMachine c1 \<and>
    (tmState (esMachine c1) = S_executing \<longrightarrow> phaseOk env r S_executing)"
  using performCall_grows [OF assms] by (cases r) (auto simp: phaseState_def adds_grows elim!: growsE)

definition judgedCall :: "'w turnEnv \<Rightarrow> persistBase \<Rightarrow> toolCall \<Rightarrow> toolEvaluation \<Rightarrow> ('w, toolPhase) engine" where
  "judgedCall env base call v =
     (case teStatus v of
        V_deny \<Rightarrow>
          bindE (recordToolDenial env base call (''denied by policy: '' @ teReason v) ''policy-denied'') (\<lambda>_.
          bindE (lifecycleE env ''PermissionDenied'' (LdRefused (tcToolName call) (teReason v))) (\<lambda>_.
          bindE (pushE [outputOf call (''(denied by policy: '' @ teReason v @ '')'')])
            (\<lambda>_. returnE PhaseGo)))
      | V_ask \<Rightarrow>
          bindE (askApproval env base call v) (\<lambda>answer.
            case answer of Some phase \<Rightarrow> returnE phase | None \<Rightarrow> performCall env base call)
      | V_allow \<Rightarrow> performCall env base call)"

lemma judgedCall_adds:
  assumes "runs (judgedCall env base call v) c r c'"
    and "tmState (esMachine c) = S_executing"
    and "teStatus v = V_allow \<Longrightarrow> authorisedIn (esTrace c) (tcCallId call)"
  shows "adds c c' (\<lambda>es os. fragment (esTrace c) 1 es \<and> (r = Inr PhaseGo \<longrightarrow> (\<exists>t. os = [outputOf call t]))) \<and>
    esBudget c' = esBudget c \<and> tmReason (esMachine c') = tmReason (esMachine c) \<and>
    tmState (esMachine c') \<in> {S_executing, S_awaiting_approval} \<and>
    phaseOk env r (tmState (esMachine c'))"
proof (cases "teStatus v")
  case V_deny
  with assms(1,2) [unfolded judgedCall_def] show ?thesis
    by (auto simp: quiet_fragment phaseState_def elim!: denial_bind runs_lifecycleE_bind)
next
  case V_allow
  with assms [unfolded judgedCall_def] show ?thesis using performCall_adds [of env base call c r c'] by auto
next
  case V_ask
  with assms(1) [unfolded judgedCall_def] have "runs (bindE (askApproval env base call v) (\<lambda>answer.
      case answer of Some phase \<Rightarrow> returnE phase | None \<Rightarrow> performCall env base call)) c r c'" by simp
  then show ?thesis
  proof (cases rule: runs_bindE)
    case (failed e)
    from askApproval_adds [OF failed(1) assms(2)] askApproval_safe [OF _ failed(1) assms(2)] failed(2) show ?thesis
      by (auto simp: fragment_def phaseOk_def elim!: adds_mono)
  next
    case (went_on answer c1)
    note asked = askApproval_adds [OF went_on(1) assms(2)]
    show ?thesis
    proof (cases answer)
      case (Some p)
      with went_on(2) have "r = Inr p" "c' = c1" by auto
      with asked Some show ?thesis
        by (cases p) (auto simp: askedWell_def phaseState_def fragment_def elim!: adds_mono elim: addsE)
    next
      case None
      with went_on(2) have run: "runs (performCall env base call) c1 r c'" by simp
      from asked None have "authorisedIn (esTrace c1) (tcCallId call)" and st: "tmState (esMachine c1) = S_executing"
        by (auto simp: askedWell_def elim!: addsE)
      note performed = performCall_adds [OF run this(1)]
      have "adds c c' (\<lambda>es os. fragment (esTrace c) 1 es \<and> (r = Inr PhaseGo \<longrightarrow> (\<exists>t. os = [outputOf call t])))"
        using asked [THEN conjunct1] performed [THEN conjunct1]
        by (rule adds_trans) (auto simp: askedWell_def None fragment_def)
      then show ?thesis using performed asked st by (auto simp: phaseState_def)
    qed
  qed
qed

text \<open>After the budget admitted the call: a quiet piece, then at most one execution.\<close>

lemma addsB [intro]:
  "Q es os \<Longrightarrow> adds c (grow es os (c\<lparr>esBudget := b\<rparr>)) Q" "Q [] [] \<Longrightarrow> adds c (c\<lparr>esBudget := b\<rparr>) Q"
  by (cases c; force simp: adds_def grow_def)+

lemma admitted_toolStep:
  assumes adm: "runs (admitCall env call) c (Inr None) c1" and c2: "c2 = grow es0 [] c1" "list_all quiet es0"
    and st: "tmState (esMachine c) = S_executing"
    and tail: "adds c2 c' (\<lambda>es os. fragment (esTrace c2) 1 es \<and> (r = Inr PhaseGo \<longrightarrow> Q os)) \<and>
      esBudget c' = esBudget c2 \<and> tmReason (esMachine c') = tmReason (esMachine c2) \<and>
      tmState (esMachine c') \<in> {S_executing, S_awaiting_approval} \<and>
      phaseOk env r (tmState (esMachine c'))"
  shows "toolStep env r c c' Q"
proof -
  note adm' = admitCall_adds [OF adm]
  then have c1: "c1 = c\<lparr>esBudget := esBudget c1\<rparr>" by blast
  have tr: "esTrace c1 = esTrace c" "esMachine c1 = esMachine c" by (subst c1, simp)+
  have "adds c c2 (\<lambda>es os. es = es0 \<and> os = [])"
    unfolding c2(1) by (subst c1) (rule addsB, simp)
  then have "adds c c' (\<lambda>es os. fragment (esTrace c) 1 es \<and> (r = Inr PhaseGo \<longrightarrow> Q os))"
    using tail [THEN conjunct1] by (rule adds_trans) (auto simp: c2 tr fragment_def quiet_list)
  then show ?thesis
    by (rule fragment_toolStep) (use tail adm' in \<open>auto simp: c2(1) tr budgetStep_def\<close>)
qed

lemma gateCall_bind:
  assumes "runs (bindE (gateCall env base call) f) c r c'"
  obtains (failed) e es where "r = Inl e" "c' = grow es [] c" "list_all quiet es"
  | (went_on) b es os where "list_all quiet es" "runs (f b) (grow es os c) r c'"
      "b \<Longrightarrow> \<exists>t. os = [outputOf call t]" "\<not> b \<Longrightarrow> os = []"
  using assms by (elim runs_bindE; elim gateCall_adds) auto

lemma appendVerdict_bind:
  assumes "runs (bindE (appendVerdict env base call v) f) c r c'"
  obtains (failed) e es where "r = Inl e" "c' = grow es [] c" "list_all quiet es"
  | (went_on) es where "list_all quiet es" "runs (f ()) (grow es [] c) r c'"
      "teStatus v = V_allow \<Longrightarrow> authorisedIn es (tcCallId call)"
  using assms by (elim runs_bindE; elim appendVerdict_adds) auto

lemma admitCall_bind:
  assumes "runs (bindE (admitCall env call) f) c r c'"
  obtains (went_on) v c1 where "runs (admitCall env call) c (Inr v) c1" "runs (f v) c1 r c'"
  using assms by (elim runs_bindE) (auto dest: admitCall_adds)

text \<open>A step that only changed the budget.\<close>

lemma refused_toolStep:
  assumes "runs (admitCall env call) c (Inr v) c1" and "tmState (esMachine c) = S_executing"
  shows "toolStep env (Inr (PhaseBudget x)) c c1 Q"
proof -
  note adm = admitCall_adds [OF assms(1)]
  then have c1: "c1 = c\<lparr>esBudget := esBudget c1\<rparr>" by blast
  have "adds c c1 (\<lambda>es os. fragment (esTrace c) 0 es \<and> (Inr (PhaseBudget x) = Inr PhaseGo \<longrightarrow> Q os))"
    by (subst c1) (rule addsB, simp add: fragment_def)
  then show ?thesis
  proof (rule fragment_toolStep)
    have m: "esMachine c1 = esMachine c" by (subst c1) simp
    with assms(2) show "tmReason (esMachine c1) = tmReason (esMachine c)"
      and "tmState (esMachine c1) \<in> {S_executing, S_awaiting_approval}" by simp_all
    show "phaseOk env (Inr (PhaseBudget x)) (tmState (esMachine c1))"
      using m assms(2) by (auto simp: phaseState_def)
  qed (use adm in \<open>auto simp: budgetStep_def\<close>)
qed

lemma idle_toolStep:
  assumes "tmState (esMachine c) = S_executing" and "r = Inr PhaseGo \<Longrightarrow> Q []"
    and "phaseOk env r S_executing"
  shows "toolStep env r c c Q"
  unfolding toolStep_def using assms by auto

lemma runOneCall_output:
  assumes run: "runs (runOneCall env base call) c r c'" and st: "tmState (esMachine c) = S_executing"
  shows "toolStep env r c c' (\<lambda>os. \<exists>t. os = [outputOf call t])"
  using run [unfolded runOneCall_def judgedCall_def [symmetric]]
proof (cases rule: runs_abortedE_bind)
  case (1 aborted)
  show ?thesis
  proof (cases aborted)
    case True
    with 1 st show ?thesis by (auto intro!: idle_toolStep simp: phaseState_def)
  next
    case False
    with 1 obtain v c1 where adm: "runs (admitCall env call) c (Inr v) c1"
      and rest: "runs (case v of Some reason \<Rightarrow> returnE (PhaseBudget reason)
       | None \<Rightarrow> bindE (gateCall env base call) (\<lambda>blocked.
           if blocked then returnE PhaseGo
           else bindE (callE (envEvaluate env call)) (\<lambda>v.
             bindE (appendVerdict env base call v) (\<lambda>_. judgedCall env base call v)))) c1 r c'"
      by (auto elim!: admitCall_bind)
    show ?thesis
    proof (cases v)
      case (Some x)
      with rest have "r = Inr (PhaseBudget x)" "c' = c1" by auto
      with refused_toolStep [OF adm st] show ?thesis by simp
    next
      case None
      note step = admitted_toolStep [OF adm [unfolded None] _ _ st]
      have m1: "esMachine c1 = esMachine c" by (subst admitCall_adds [OF adm, THEN conjunct1]) simp
      from None rest have "runs (bindE (gateCall env base call) (\<lambda>blocked.
           if blocked then returnE PhaseGo
           else bindE (callE (envEvaluate env call)) (\<lambda>v.
             bindE (appendVerdict env base call v) (\<lambda>_. judgedCall env base call v)))) c1 r c'" by simp
      then show ?thesis
      proof (cases rule: gateCall_bind)
        case (failed e es)
        then show ?thesis using st m1 by (intro step [OF failed(2,3)]) (auto simp: fragment_def)
      next
        case (went_on b es os)
        show ?thesis
        proof (cases b)
          case True
          with went_on have "r = Inr PhaseGo" "c' = grow es os c1" "\<exists>t. os = [outputOf call t]" by auto
          then have "adds c1 c' (\<lambda>es os. fragment (esTrace c1) 1 es \<and> (r = Inr PhaseGo \<longrightarrow> (\<exists>t. os = [outputOf call t])))"
            using quiet_fragment [OF went_on(1)] by auto
          then show ?thesis using st m1 \<open>c' = _\<close> \<open>r = _\<close>
            by (intro step [OF grow_Nil [symmetric]]) (auto simp: phaseState_def)
        next
          case False
          with went_on have "runs (bindE (callE (envEvaluate env call)) (\<lambda>v.
             bindE (appendVerdict env base call v) (\<lambda>_. judgedCall env base call v))) (grow es [] c1) r c'" by auto
          then show ?thesis
          proof (cases rule: runs_callE_bind)
            case (failed e)
            then show ?thesis using st m1 by (intro step [OF failed(2) went_on(1)]) (auto simp: fragment_def)
          next
            case (went_on v)
            then show ?thesis
            proof (cases rule: appendVerdict_bind)
              case (failed e es2)
              then show ?thesis using st m1 \<open>list_all quiet es\<close>
                by (intro step [of "grow (es @ es2) [] c1" "es @ es2"]) (auto simp: fragment_def)
            next
              case (went_on es2)
              then have "runs (judgedCall env base call v) (grow (es @ es2) [] c1) r c'" by simp
              from judgedCall_adds [OF this] went_on(3) \<open>list_all quiet es\<close> went_on(1) st m1 show ?thesis
                by (intro step [of "grow (es @ es2) [] c1" "es @ es2"]) auto
            qed
          qed
        qed
      qed
    qed
  qed
qed

lemma runOneCall_step:
  "runs (runOneCall env base call) c r c' \<Longrightarrow> tmState (esMachine c) = S_executing \<Longrightarrow>
     toolStep env r c c' (answersWell [tcCallId call])"
  by (erule (1) toolStep_mono [OF runOneCall_output]) auto

end
