(* ===== verification/Turn_Batch.thy ===== *)
theory Turn_Batch
  imports Turn_Phase
begin

text \<open>
  The parallel batch and the groups of a round. Phase 1 clears calls in order, phase 2 begins every
  cleared call, phase 3 settles them in order; when the batch goes on, every call of it was answered
  once. The groups of a round compose these steps.
\<close>

subsection \<open>The parallel batch\<close>

definition clearedWell ::
  "toolCall list \<Rightarrow> traceEntry list \<Rightarrow> inputItem list \<Rightarrow> (toolCall \<times> string) list \<Rightarrow> bool" where
  "clearedWell calls es os cs \<longleftrightarrow>
     list_all (\<lambda>(call, sid). intendedIn es sid \<and> Logged (SideEffectStarted sid) \<in> set es \<and>
       authorisedIn es (tcCallId call)) cs \<and>
     callIds os = [] \<and> mset (outputIds os) + mset (map (tcCallId \<circ> fst) cs) = mset (map tcCallId calls)"

definition clearStep ::
  "'w turnEnv \<Rightarrow> toolCall list \<Rightarrow> engineExn + (toolPhase + (toolCall \<times> string) list) \<Rightarrow> engineCore \<Rightarrow> engineCore \<Rightarrow> bool" where
  "clearStep env calls r c c' \<longleftrightarrow>
     adds c c' (\<lambda>es os. fragment (esTrace c) 0 es \<and> (\<forall>cs. r = Inr (Inr cs) \<longrightarrow> clearedWell calls es os cs)) \<and>
     esMachine c' = esMachine c \<and> budgetStep env (esBudget c) (esBudget c') \<and>
     btToolCalls (esBudget c) \<le> btToolCalls (esBudget c') \<and>
     (\<forall>cs. r = Inr (Inr cs) \<longrightarrow> btToolCalls (esBudget c) + int (length cs) \<le> btToolCalls (esBudget c')) \<and>
     (\<forall>p. r = Inr (Inl p) \<longrightarrow> p = PhaseCancelled \<or> (\<exists>x. p = PhaseBudget x))"

lemma clearStep_stop:
  "clearStep env calls (Inr (Inl PhaseCancelled)) c c"
  by (auto simp: clearStep_def)

lemma clearStep_part:
  assumes adm: "runs (admitCall env call) c (Inr v) c1" and c': "c' = grow es os c1" "fragment (esTrace c) 0 es"
    and r: "\<And>cs. r \<noteq> Inr (Inr cs)" "\<And>p. r = Inr (Inl p) \<Longrightarrow> p = PhaseCancelled \<or> (\<exists>x. p = PhaseBudget x)"
  shows "clearStep env calls r c c'"
proof -
  note adm' = admitCall_adds [OF adm]
  then have c1: "c1 = c\<lparr>esBudget := esBudget c1\<rparr>" by blast
  have m: "esMachine c1 = esMachine c" by (subst c1) simp
  have "adds c c' (\<lambda>es os. fragment (esTrace c) 0 es \<and> (\<forall>cs. r = Inr (Inr cs) \<longrightarrow> clearedWell calls es os cs))"
    unfolding c'(1) by (subst c1) (rule addsB, simp add: c'(2) r(1))
  then show ?thesis using adm' m r unfolding clearStep_def budgetStep_def c'(1) by simp
qed

lemma clearStep_next:
  assumes adm: "runs (admitCall env call) c (Inr None) c1" and c2: "c2 = grow es os c1" "fragment (esTrace c) 0 es"
    and own: "own = [] \<and> (\<exists>t. os = [outputOf call t]) \<or>
      (\<exists>sid. own = [(call, sid)] \<and> os = [] \<and> intendedIn es sid \<and> Logged (SideEffectStarted sid) \<in> set es \<and>
         authorisedIn es (tcCallId call))"
    and rest: "clearStep env calls r c2 c'"
    and r': "r' = (case r of Inr (Inr cs) \<Rightarrow> Inr (Inr (own @ cs)) | _ \<Rightarrow> r)"
  shows "clearStep env (call # calls) r' c c'"
proof -
  note adm' = admitCall_adds [OF adm]
  then have c1: "c1 = c\<lparr>esBudget := esBudget c1\<rparr>" by blast
  have m: "esMachine c1 = esMachine c" "esTrace c1 = esTrace c" by (subst c1, simp)+
  have "adds c c2 (\<lambda>e2 o2. e2 = es \<and> o2 = os)"
    unfolding c2(1) by (subst c1) (rule addsB, simp)
  moreover have "adds c2 c' (\<lambda>es os. fragment (esTrace c2) 0 es \<and> (\<forall>cs. r = Inr (Inr cs) \<longrightarrow> clearedWell calls es os cs))"
    using rest by (simp add: clearStep_def)
  ultimately have "adds c c' (\<lambda>es os. fragment (esTrace c) 0 es \<and> (\<forall>cs. r' = Inr (Inr cs) \<longrightarrow> clearedWell (call # calls) es os cs))"
  proof (rule adds_trans)
    fix e1 o1 e2 o2
    assume 1: "e1 = es \<and> o1 = os" "esTrace c2 = esTrace c @ e1"
      and 2: "fragment (esTrace c2) 0 e2 \<and> (\<forall>cs. r = Inr (Inr cs) \<longrightarrow> clearedWell calls e2 o2 cs)"
    have "fragment (esTrace c) 0 (e1 @ e2)"
      using 1 2 c2(2) by (simp add: fragment_split)
    moreover have "clearedWell (call # calls) (e1 @ e2) (o1 @ o2) cs" if "r' = Inr (Inr cs)" for cs
    proof -
      from that r' obtain cs2 where "r = Inr (Inr cs2)" "cs = own @ cs2" by (auto split: sum.splits)
      with 2 have "clearedWell calls e2 o2 cs2" by simp
      with own 1 \<open>cs = own @ cs2\<close> show ?thesis
        by (auto simp: clearedWell_def list_all_iff callIds_def outputIds_def outputOf_def map_filter_simps)
    qed
    ultimately show "fragment (esTrace c) 0 (e1 @ e2) \<and>
        (\<forall>cs. r' = Inr (Inr cs) \<longrightarrow> clearedWell (call # calls) (e1 @ e2) (o1 @ o2) cs)" by blast
  qed
  moreover have "length own \<le> 1" using own by auto
  ultimately show ?thesis
    using rest adm' m unfolding clearStep_def budgetStep_def c2(1) r' by (auto split: sum.splits)
qed

lemma grow_inj: "grow es os c = grow es' os' c \<longleftrightarrow> es = es' \<and> os = os'"
  by (cases c) (auto simp: grow_def)

text \<open>One call of phase 1 after the budget admitted it: the calls it clears.\<close>

definition offerCall ::
  "'w turnEnv \<Rightarrow> persistBase \<Rightarrow> toolCall \<Rightarrow> toolEvaluation \<Rightarrow> ('w, (toolCall \<times> string) list) engine" where
  "offerCall env base call v =
     bindE (gateCall env base call) (\<lambda>blocked.
     if blocked then returnE []
     else bindE (appendVerdict env base call v) (\<lambda>_.
          bindE (beginEffect env base call) (\<lambda>started.
          returnE (case started of None \<Rightarrow> [] | Some sid \<Rightarrow> [(call, sid)]))))"

lemma bindE_return [simp]: "bindE m returnE = m"
  by (auto simp: bindE_def returnE_def fun_eq_iff split: sum.splits prod.splits)

lemma clearCalls_offer:
  "clearCalls env base ((call, v) # rest) =
     bindE (abortedE env) (\<lambda>aborted.
     if aborted then returnE (Inl PhaseCancelled)
     else bindE (admitCall env call) (\<lambda>stop.
       case stop of
         Some reason \<Rightarrow> returnE (Inl (PhaseBudget reason))
       | None \<Rightarrow> bindE (offerCall env base call v) (\<lambda>own.
           bindE (clearCalls env base rest) (\<lambda>r.
           returnE (case r of Inl p \<Rightarrow> Inl p | Inr cs \<Rightarrow> Inr (own @ cs))))))"
proof -
  have tail: "bindE m (\<lambda>r. returnE (case r of Inl p \<Rightarrow> Inl p | Inr cs \<Rightarrow> Inr cs)) = m"
    for m :: "('a, toolPhase + (toolCall \<times> string) list) engine"
    by (auto simp: bindE_def returnE_def fun_eq_iff split: sum.splits prod.splits)
  have step: "bindE (returnE x) f = f x" for x and f :: "(toolCall \<times> string) list \<Rightarrow> ('a, toolPhase + (toolCall \<times> string) list) engine"
    by (auto simp: bindE_def returnE_def fun_eq_iff)
  let ?go = "\<lambda>own. bindE (clearCalls env base rest) (\<lambda>r.
      returnE (case r of Inl p \<Rightarrow> Inl p | Inr cs \<Rightarrow> Inr (own @ cs)))"
  have went: "?go (case started of None \<Rightarrow> [] | Some sid \<Rightarrow> [(call, sid)]) =
      (case started of None \<Rightarrow> clearCalls env base rest | Some sid \<Rightarrow>
         bindE (clearCalls env base rest) (\<lambda>r. returnE (case r of Inl p \<Rightarrow> Inl p | Inr cs \<Rightarrow> Inr ((call, sid) # cs))))"
    for started by (cases started) (simp_all only: option.case append_Nil append_Cons tail)
  have "bindE (offerCall env base call v) ?go =
      bindE (gateCall env base call) (\<lambda>blocked.
           if blocked then clearCalls env base rest
           else bindE (appendVerdict env base call v) (\<lambda>_.
                bindE (beginEffect env base call) (\<lambda>started.
                  case started of
                    None \<Rightarrow> clearCalls env base rest
                  | Some sid \<Rightarrow>
                      bindE (clearCalls env base rest) (\<lambda>r.
                      returnE (case r of Inl p \<Rightarrow> Inl p | Inr cs \<Rightarrow> Inr ((call, sid) # cs))))))"
    unfolding offerCall_def bindE_assoc
    by (rule arg_cong [where f = "bindE (gateCall env base call)"], rule ext, rename_tac b, case_tac b)
      (simp_all only: if_True if_False step bindE_assoc append_Nil tail went)
  then show ?thesis unfolding clearCalls.simps by (simp only:)
qed

lemma offerCall_grows:
  assumes "runs (offerCall env base call v) c r c'" and "teStatus v = V_allow"
  shows "\<exists>es os. c' = grow es os c \<and> fragment tr 0 es \<and> (\<forall>own. r = Inr own \<longrightarrow>
      own = [] \<and> (\<exists>t. os = [outputOf call t]) \<or>
      (\<exists>sid. own = [(call, sid)] \<and> os = [] \<and> intendedIn es sid \<and> Logged (SideEffectStarted sid) \<in> set es \<and>
         authorisedIn es (tcCallId call)))"
  using assms(1) unfolding offerCall_def
proof (cases rule: gateCall_bind)
  case (failed e es)
  then show ?thesis by (auto simp: grow_inj quiet_fragment)
next
  case (went_on b es os)
  show ?thesis
  proof (cases b)
    case True
    with went_on show ?thesis by (auto simp: grow_inj quiet_fragment)
  next
    case False
    with went_on have os: "os = []" and "runs (bindE (appendVerdict env base call v) (\<lambda>_.
          bindE (beginEffect env base call) (\<lambda>started.
          returnE (case started of None \<Rightarrow> [] | Some sid \<Rightarrow> [(call, sid)])))) (grow es [] c) r c'" by auto
    from this(2) show ?thesis
    proof (cases rule: appendVerdict_bind)
      case (failed e es2)
      with went_on(1) show ?thesis by (auto simp: grow_inj intro!: quiet_fragment exI [of _ "es @ es2"])
    next
      case (went_on es2)
      with \<open>list_all quiet es\<close> have pre: "fragment tr 0 (es @ es2)" by (simp add: quiet_fragment)
      from went_on(2) show ?thesis
      proof (cases rule: runs_bindE)
        case (failed e)
        from beginEffect_grows [OF failed(1), of "tr @ es @ es2"] pre failed(2) show ?thesis
          by (auto simp: grow_inj fragment_split elim!: growsE)
      next
        case (went_on started c1)
        from beginEffect_grows [OF went_on(1), of "tr @ es @ es2"] obtain es3 os3 where
          "c1 = grow (es @ es2 @ es3) os3 c" "fragment (tr @ es @ es2) 0 es3"
          "started = None \<Longrightarrow> \<exists>t. os3 = [outputOf call t]"
          "\<And>sid. started = Some sid \<Longrightarrow> os3 = [] \<and> intendedIn es3 sid \<and> Logged (SideEffectStarted sid) \<in> set es3"
          by (auto elim!: growsE)
        with pre went_on(2) \<open>teStatus v = V_allow \<Longrightarrow> authorisedIn es2 (tcCallId call)\<close> assms(2) show ?thesis
          by (intro exI [of _ "es @ es2 @ es3"] exI [of _ os3]) (cases started; simp add: fragment_split)
      qed
    qed
  qed
qed

lemma clearCalls_step:
  assumes "runs (clearCalls env base cvs) c r c'" and "list_all (\<lambda>(call, v). teStatus v = V_allow) cvs"
  shows "clearStep env (map fst cvs) r c c'"
  using assms
proof (induction cvs arbitrary: c r)
  case Nil
  then show ?case by (auto simp: clearStep_def clearedWell_def callIds_def outputIds_def map_filter_simps)
next
  case (Cons cv cvs)
  obtain call v where cv: "cv = (call, v)" by (cases cv)
  from Cons.prems(2) cv have ok: "teStatus v = V_allow" "list_all (\<lambda>(call, v). teStatus v = V_allow) cvs" by auto
  from Cons.prems(1) [unfolded cv clearCalls_offer] show ?case
  proof (cases rule: runs_abortedE_bind)
    case (1 aborted)
    show ?thesis
    proof (cases aborted)
      case True
      with 1 show ?thesis by (auto simp: clearStep_stop)
    next
      case False
      with 1 obtain stop c1 where adm: "runs (admitCall env call) c (Inr stop) c1" and rest: "runs (case stop of
         Some reason \<Rightarrow> returnE (Inl (PhaseBudget reason))
       | None \<Rightarrow> bindE (offerCall env base call v) (\<lambda>own.
           bindE (clearCalls env base cvs) (\<lambda>r.
           returnE (case r of Inl p \<Rightarrow> Inl p | Inr cs \<Rightarrow> Inr (own @ cs))))) c1 r c'"
        by (auto elim!: admitCall_bind)
      show ?thesis
      proof (cases stop)
        case (Some x)
        with rest have "c' = grow [] [] c1" "r = Inr (Inl (PhaseBudget x))" by auto
        then show ?thesis by (intro clearStep_part [OF adm, of _ "[]" "[]"]) auto
      next
        case None
        with rest have "runs (bindE (offerCall env base call v) (\<lambda>own.
           bindE (clearCalls env base cvs) (\<lambda>r.
           returnE (case r of Inl p \<Rightarrow> Inl p | Inr cs \<Rightarrow> Inr (own @ cs))))) c1 r c'" by simp
        then show ?thesis
        proof (cases rule: runs_bindE)
          case (failed e)
          from offerCall_grows [OF failed(1) ok(1), of "esTrace c"] failed(2) show ?thesis
            by (auto intro!: clearStep_part [OF adm])
        next
          case (went_on own c2)
          from offerCall_grows [OF went_on(1) ok(1), of "esTrace c"] obtain es os where
            c2: "c2 = grow es os c1" "fragment (esTrace c) 0 es" and own: "own = [] \<and> (\<exists>t. os = [outputOf call t]) \<or>
              (\<exists>sid. own = [(call, sid)] \<and> os = [] \<and> intendedIn es sid \<and> Logged (SideEffectStarted sid) \<in> set es \<and>
              authorisedIn es (tcCallId call))" by auto
          from went_on(2) obtain r2 where "runs (clearCalls env base cvs) c2 r2 c'"
            and r: "r = (case r2 of Inr (Inr cs) \<Rightarrow> Inr (Inr (own @ cs)) | _ \<Rightarrow> r2)"
            by (elim runs_bindE) (auto split: sum.splits)
          from clearStep_next [OF adm [unfolded None] c2 own Cons.IH [OF this(1) ok(2)] r] show ?thesis by (simp add: cv)
        qed
      qed
    qed
  qed
qed

lemma runs_settleE_bind:
  assumes "runs (bindE (callE (settleAll rank f xs)) g) c r c'"
  obtains (failed) e where "r = Inl e" "c' = c"
  | (went_on) ys where "length ys = length xs" "runs (g ys) c r c'"
  using assms
proof (cases rule: runs_bindE)
  case (failed e)
  then show ?thesis using that(1) runs_callE by blast
next
  case (went_on ys c1)
  from went_on(1) have "c1 = c" by (rule runs_callE)
  from went_on(1) obtain w w' where "settleAll rank f xs w = (Inr ys, w')"
    by (auto simp: runs_def callE_def case_prod_beta) (metis prod.collapse)
  then have "length ys = length xs"
    by (auto simp: settleAll_def split: prod.splits list.splits)
  with went_on(2) \<open>c1 = c\<close> show ?thesis using that(2) by simp
qed

lemma markAll_bind [simp]:
  "runs (bindE (markAll cs) f) c r c' \<longleftrightarrow> runs (f ()) (grow (map (\<lambda>(call, sid). Executed sid call) cs) [] c) r c'"
  by (induction cs arbitrary: c) auto

lemma markAll_fragment:
  "list_all (\<lambda>(call, sid). intendedIn tr sid \<and> Logged (SideEffectStarted sid) \<in> set tr \<and> authorisedIn tr (tcCallId call)) cs \<Longrightarrow>
     fragment tr (length cs) (map (\<lambda>(call, sid). Executed sid call) cs)"
proof (induction cs arbitrary: tr)
  case (Cons x cs)
  obtain call sid where x: "x = (call, sid)" by (cases x)
  have "fragment (tr @ [Executed sid call]) (length cs) (map (\<lambda>(call, sid). Executed sid call) cs)"
    by (rule Cons.IH) (use Cons.prems in \<open>auto simp: list_all_iff\<close>)
  then show ?case using Cons.prems by (auto simp: x fragment_def)
qed simp

lemma settleCalls_grows:
  assumes "runs (settleCalls env base crs) c r c'"
    and "list_all (\<lambda>((call, sid), res). intendedIn (esTrace c) sid \<and> begunIn (esTrace c) sid \<and> calledIn (esTrace c) (tcCallId call)) crs"
  shows "grows c c' (\<lambda>es os. fragment (esTrace c) 0 es \<and> (\<forall>x. r = Inr x \<longrightarrow> answersWell (map (tcCallId \<circ> fst \<circ> fst) crs) os))"
  using assms
proof (induction crs arbitrary: c r)
  case Nil
  then show ?case by auto
next
  case (Cons cr crs)
  obtain call sid res where cr: "cr = ((call, sid), res)" by (metis prod.collapse)
  from Cons.prems(2) have pre: "intendedIn (esTrace c) sid" "begunIn (esTrace c) sid" "calledIn (esTrace c) (tcCallId call)"
    by (simp_all add: cr)
  from Cons.prems(1) [unfolded cr, simplified] show ?case
  proof (cases rule: runs_bindE)
    case (failed e)
    from settleEffect_grows [OF failed(1) pre] failed(2) show ?thesis by (auto elim!: growsE)
  next
    case (went_on stop c1)
    from settleEffect_grows [OF went_on(1) pre] obtain es t where c1: "c1 = grow es [outputOf call t] c"
      and f1: "fragment (esTrace c) 0 es" by (auto elim!: growsE)
    from went_on(2) obtain r2 where r2: "runs (settleCalls env base crs) c1 r2 c'" "(\<exists>x. r = Inr x) \<longrightarrow> (\<exists>y. r2 = Inr y)"
      by (elim runs_bindE) auto
    have "list_all (\<lambda>((call, sid), res). intendedIn (esTrace c1) sid \<and> begunIn (esTrace c1) sid \<and> calledIn (esTrace c1) (tcCallId call)) crs"
      using Cons.prems(2) c1 by (auto simp: list_all_iff)
    from Cons.IH [OF r2(1) this] obtain es2 os2 where 2: "c' = grow es2 os2 c1" "fragment (esTrace c1) 0 es2"
      "\<And>x. r2 = Inr x \<Longrightarrow> answersWell (map (tcCallId \<circ> fst \<circ> fst) crs) os2" by (auto simp: comp_def grow_inj elim!: growsE)
    have answered: "answersWell (map (tcCallId \<circ> fst \<circ> fst) (cr # crs)) (outputOf call t # os2)" if "r = Inr x" for x
    proof -
      from that r2(2) obtain y where "r2 = Inr y" by auto
      from answersWell_append [OF answersWell_output(1) 2(3) [OF this]] show ?thesis by (simp add: cr)
    qed
    have "c' = grow (es @ es2) (outputOf call t # os2) c" using 2(1) c1 by simp
    moreover have "fragment (esTrace c) 0 (es @ es2)" using f1 2(2) c1 by (simp add: fragment_split)
    ultimately show ?thesis using answered unfolding grows_def by blast
  qed
qed

lemma toolStep_stop: "toolStep env (Inr p) c c' P \<Longrightarrow> p \<noteq> PhaseGo \<Longrightarrow> toolStep env (Inr p) c c' Q"
  unfolding toolStep_def by simp

lemma toolStep_fail: "toolStep env (Inl e) c c' P \<Longrightarrow> toolStep env (Inl e) c c' Q"
  unfolding toolStep_def by simp

lemma toolStep_answers:
  "toolStep env (Inr PhaseGo) c c1 (answersWell a) \<Longrightarrow> toolStep env r c1 c2 (answersWell b) \<Longrightarrow>
     toolStep env r c c2 (answersWell (a @ b))"
  by (erule (1) toolStep_trans) (rule answersWell_append)

lemma clearStep_toolStep:
  assumes "clearStep env calls rc c c'" and "tmState (esMachine c) = S_executing"
    and "r = (case rc of Inl e \<Rightarrow> Inl e | Inr (Inl p) \<Rightarrow> Inr p | Inr (Inr _) \<Rightarrow> Inl x)"
  shows "toolStep env r c c' Q"
proof -
  have "r \<noteq> Inr PhaseGo" and ph: "\<And>p. r = Inr p \<Longrightarrow> p = PhaseCancelled \<or> (\<exists>x. p = PhaseBudget x)"
    using assms(1,3) unfolding clearStep_def by (auto split: sum.splits)
  then have "adds c c' (\<lambda>es os. fragment (esTrace c) 0 es \<and> (r = Inr PhaseGo \<longrightarrow> Q os))"
    using assms(1) unfolding clearStep_def by (auto elim!: adds_mono)
  then show ?thesis
    by (rule fragment_toolStep) (use assms(1,2) ph in \<open>(cases r; auto simp: clearStep_def phaseState_def)+\<close>)
qed

lemma clearStep_perform:
  assumes cl: "clearStep env calls (Inr (Inr cs)) c c1" and st: "tmState (esMachine c) = S_executing"
    and c': "c' = grow es2 os2 c1" "fragment (esTrace c1) (length cs) es2"
    and ans: "r = Inr PhaseGo \<Longrightarrow> answersWell (map (tcCallId \<circ> fst) cs) os2"
    and ph: "phaseOk env r S_executing"
  shows "toolStep env r c c' (answersWell (map tcCallId calls))"
proof -
  have "adds c c1 (\<lambda>es os. fragment (esTrace c) 0 es \<and> clearedWell calls es os cs)"
    using cl by (auto simp: clearStep_def)
  moreover have "adds c1 c' (\<lambda>es os. es = es2 \<and> os = os2)" using c' by auto
  ultimately have "adds c c' (\<lambda>es os. fragment (esTrace c) (length cs) es \<and>
      (r = Inr PhaseGo \<longrightarrow> answersWell (map tcCallId calls) os))"
    by (rule adds_trans) (use c'(2) ans in \<open>auto simp: fragment_def clearedWell_def answersWell_def\<close>)
  then show ?thesis
    by (rule fragment_toolStep) (use cl st c' ph in \<open>auto simp: clearStep_def\<close>)
qed

lemma runSerial_step:
  "runs (runSerial env base cs) c r c' \<Longrightarrow> tmState (esMachine c) = S_executing \<Longrightarrow>
     toolStep env r c c' (answersWell (map tcCallId cs))"
proof (induction cs arbitrary: c)
  case Nil
  then show ?case by (auto intro!: idle_toolStep simp: phaseState_def)
next
  case (Cons x cs)
  from Cons.prems(1) [unfolded runSerial.simps] show ?case
  proof (cases rule: runs_bindE)
    case (failed e)
    from toolStep_fail [OF runOneCall_step [OF failed(1) Cons.prems(2)]] failed(2) show ?thesis by simp
  next
    case (went_on p c1)
    note one = runOneCall_step [OF went_on(1) Cons.prems(2)]
    show ?thesis
    proof (cases "p = PhaseGo")
      case True
      with one have st: "tmState (esMachine c1) = S_executing" by (simp add: toolStep_def phaseState_def)
      from went_on(2) True have "runs (runSerial env base cs) c1 r c'" by simp
      from toolStep_answers [OF one [unfolded True] Cons.IH [OF this st]]
      show ?thesis by simp
    next
      case False
      with went_on(2) have "r = Inr p" "c' = c1" by auto
      with toolStep_stop [OF one False] show ?thesis by simp
    qed
  qed
qed

text \<open>Phases 2 and 3: begin every cleared call, await the results, settle them in order.\<close>

definition batchTail :: "'w turnEnv \<Rightarrow> persistBase \<Rightarrow> (toolCall \<times> string) list \<Rightarrow> ('w, toolPhase) engine" where
  "batchTail env base cs =
     bindE (markAll cs) (\<lambda>_.
     bindE (callE (settleAll (envFinishRank env) (\<lambda>c. envExecute env (fst c)) cs)) (\<lambda>results.
     bindE (settleCalls env base (zip cs results)) (\<lambda>stop.
     bindE (abortedE env) (\<lambda>aborted.
     returnE (if aborted then PhaseCancelled else if stop then PhaseHookStop else PhaseGo)))))"

lemma begun_member:
  "Executed sid call \<in> set tr \<Longrightarrow> begunIn tr sid" "Executed sid call \<in> set tr \<Longrightarrow> calledIn tr (tcCallId call)"
  by (force simp: In_defs list_ex_iff)+

lemma batchTail_grows:
  assumes run: "runs (batchTail env base cs) c r c'"
    and ok: "list_all (\<lambda>(call, sid). intendedIn (esTrace c) sid \<and>
            Logged (SideEffectStarted sid) \<in> set (esTrace c) \<and> authorisedIn (esTrace c) (tcCallId call)) cs"
  shows "\<exists>es os. c' = grow es os c \<and> fragment (esTrace c) (length cs) es \<and>
    (r = Inr PhaseGo \<longrightarrow> answersWell (map (tcCallId \<circ> fst) cs) os) \<and> phaseOk env r S_executing"
proof -
  let ?xs = "map (\<lambda>(call, sid). Executed sid call) cs" and ?c = "grow (map (\<lambda>(call, sid). Executed sid call) cs) [] c"
  note begun = markAll_fragment [OF ok]
  from run have "runs (bindE (callE (settleAll (envFinishRank env) (\<lambda>c. envExecute env (fst c)) cs)) (\<lambda>results.
     bindE (settleCalls env base (zip cs results)) (\<lambda>stop.
     bindE (abortedE env) (\<lambda>aborted.
     returnE (if aborted then PhaseCancelled else if stop then PhaseHookStop else PhaseGo))))) ?c r c'"
    unfolding batchTail_def by simp
  then show ?thesis
  proof (cases rule: runs_settleE_bind)
    case (failed e)
    with begun show ?thesis by auto
  next
    case (went_on results)
    have pre: "list_all (\<lambda>((call, sid), res). intendedIn (esTrace ?c) sid \<and> begunIn (esTrace ?c) sid \<and>
        calledIn (esTrace ?c) (tcCallId call)) (zip cs results)"
      using ok by (force simp: list_all_iff intro: begun_member dest!: set_zip_leftD)
    have ids: "map (tcCallId \<circ> fst \<circ> fst) (zip cs results) = map (tcCallId \<circ> fst) cs"
      using went_on(1) by (metis map_fst_zip map_map)
    from went_on(2) obtain r1 where r1: "runs (settleCalls env base (zip cs results)) ?c r1 c'"
      and r: "r = Inr PhaseGo \<Longrightarrow> \<exists>x. r1 = Inr x" "phaseOk env r S_executing"
      by (elim runs_bindE runs_abortedE_bind) (auto simp: phaseState_def elim!: runs_abortedE_bind)
    from settleCalls_grows [OF r1 pre] obtain es os where "c' = grow es os ?c" "fragment (esTrace ?c) 0 es"
      "\<And>x. r1 = Inr x \<Longrightarrow> answersWell (map (tcCallId \<circ> fst) cs) os" unfolding ids [symmetric] by (auto elim!: growsE)
    then have "c' = grow (?xs @ es) os c" "fragment (esTrace c) (length cs) (?xs @ es)"
      "r = Inr PhaseGo \<Longrightarrow> answersWell (map (tcCallId \<circ> fst) cs) os"
      using begun r(1) by (auto simp: fragment_def)
    then show ?thesis using r(2) by blast
  qed
qed

lemma runParallelBatch_step:
  assumes run: "runs (runParallelBatch env base calls) c r c'" and st: "tmState (esMachine c) = S_executing"
  shows "toolStep env r c c' (answersWell (map tcCallId calls))"
  using run unfolding runParallelBatch_def
proof (cases rule: runs_settleE_bind)
  case (failed e)
  with st show ?thesis by (auto intro!: idle_toolStep)
next
  case (went_on vs)
  show ?thesis
  proof (cases "list_all (\<lambda>v. teStatus v = V_allow) vs")
    case False
    with went_on(2) st runSerial_step show ?thesis by auto
  next
    case True
    then have ok: "list_all (\<lambda>(call, v). teStatus v = V_allow) (zip calls vs)"
      by (auto simp: list_all_iff dest: set_zip_rightD)
    have calls: "map fst (zip calls vs) = calls" using went_on(1) by simp
    from went_on(2) True have "runs (bindE (clearCalls env base (zip calls vs)) (\<lambda>cleared.
       case cleared of
         Inl phase \<Rightarrow> returnE phase
       | Inr cs \<Rightarrow> batchTail env base cs)) c r c'" unfolding batchTail_def by simp
    then show ?thesis
    proof (cases rule: runs_bindE)
      case (failed e)
      from clearStep_toolStep [OF clearCalls_step [OF failed(1) ok] st] failed(2) show ?thesis by simp
    next
      case (went_on cleared c1)
      note cl = clearCalls_step [OF went_on(1) ok, unfolded calls]
      show ?thesis
      proof (cases cleared)
        case (Inl p)
        with went_on(2) have "r = Inr p" "c' = c1" by auto
        with clearStep_toolStep [OF cl st] Inl show ?thesis by simp
      next
        case (Inr cs)
        with went_on(2) have tl: "runs (batchTail env base cs) c1 r c'" by simp
        from cl Inr have "clearStep env calls (Inr (Inr cs)) c c1" by simp
        moreover from this have "list_all (\<lambda>(call, sid). intendedIn (esTrace c1) sid \<and>
            Logged (SideEffectStarted sid) \<in> set (esTrace c1) \<and> authorisedIn (esTrace c1) (tcCallId call)) cs"
          by (auto simp: clearStep_def clearedWell_def list_all_iff elim!: addsE)
        from batchTail_grows [OF tl this] obtain es os where "c' = grow es os c1" "fragment (esTrace c1) (length cs) es"
          "r = Inr PhaseGo \<Longrightarrow> answersWell (map (tcCallId \<circ> fst) cs) os" "phaseOk env r S_executing"
          by blast
        ultimately show ?thesis using st by (intro clearStep_perform)
      qed
    qed
  qed
qed

subsection \<open>The groups of a round\<close>

definition groupIds :: "toolCall list \<Rightarrow> string list list \<Rightarrow> string list" where
  "groupIds calls gs = concat (map (\<lambda>g. map tcCallId (List.map_filter (callById calls) g)) gs)"

lemma runGroups_step:
  "runs (runGroups env base calls gs) c r c' \<Longrightarrow> tmState (esMachine c) = S_executing \<Longrightarrow>
     toolStep env r c c' (answersWell (groupIds calls gs))"
proof (induction gs arbitrary: c)
  case Nil
  then show ?case by (auto intro!: idle_toolStep simp: phaseState_def groupIds_def)
next
  case (Cons g gs)
  let ?cs = "List.map_filter (callById calls) g"
  have one: "toolStep env r1 c c1 (answersWell (map tcCallId ?cs))"
    if "runs (case ?cs of [] \<Rightarrow> returnE PhaseGo | [c] \<Rightarrow> runOneCall env base c | cs \<Rightarrow> runParallelBatch env base cs) c r1 c1"
    for r1 c1
    using that Cons.prems(2) runOneCall_step [of env base] runParallelBatch_step [of env base ?cs]
    by (auto intro!: idle_toolStep simp: phaseState_def split: list.splits)
  from Cons.prems(1) [unfolded runGroups.simps] show ?case
  proof (cases rule: runs_bindE)
    case (failed e)
    from toolStep_fail [OF one [OF failed(1)]] failed(2) show ?thesis by simp
  next
    case (went_on p c1)
    note step = one [OF went_on(1)]
    show ?thesis
    proof (cases "p = PhaseGo")
      case True
      with step have st: "tmState (esMachine c1) = S_executing" by (simp add: toolStep_def phaseState_def)
      from went_on(2) True have "runs (runGroups env base calls gs) c1 r c'" by simp
      from toolStep_answers [OF step [unfolded True] Cons.IH [OF this st]]
      show ?thesis by (simp add: groupIds_def)
    next
      case False
      with went_on(2) have "r = Inr p" "c' = c1" by auto
      with toolStep_stop [OF step False] show ?thesis by simp
    qed
  qed
qed

lemma runToolCalls_step:
  assumes "runs (runToolCalls env base calls) c r c'" and "tmState (esMachine c) = S_executing"
  shows "toolStep env r c c' (\<lambda>os. \<exists>gs. answersWell (groupIds calls gs) os \<and>
    (envPlanBatches env = None \<longrightarrow> gs = map (\<lambda>c. [tcCallId c]) calls) \<and>
    (\<forall>plan. envPlanBatches env = Some plan \<longrightarrow> (\<exists>w w'. plan calls w = (Inr gs, w'))))"
proof (cases "envPlanBatches env")
  case None
  with assms have "runs (runGroups env base calls (map (\<lambda>c. [tcCallId c]) calls)) c r c'"
    by (simp add: runToolCalls_def)
  from runGroups_step [OF this assms(2)] show ?thesis by (rule toolStep_mono) (auto simp: None)
next
  case (Some plan)
  with assms(1) have "runs (bindE (callE (plan calls)) (runGroups env base calls)) c r c'"
    by (simp add: runToolCalls_def)
  then show ?thesis
  proof (cases rule: runs_bindE)
    case (failed e)
    then show ?thesis using assms(2) by (auto dest!: runs_callE intro!: idle_toolStep)
  next
    case (went_on gs c1)
    from went_on(1) have "c1 = c" by (rule runs_callE)
    from went_on(1) obtain w w' where "plan calls w = (Inr gs, w')"
      by (auto simp: runs_def callE_def case_prod_beta) (metis prod.collapse)
    then show ?thesis using runGroups_step [OF went_on(2)] assms(2) \<open>c1 = c\<close> Some
      by (auto elim!: toolStep_mono)
  qed
qed

end
