(* ===== verification/Turn_Loop.thy ===== *)
theory Turn_Loop
  imports Turn_Batch
begin

text \<open>
  The loop of a turn: what each of its operations does to the trace and the budget, and from that the
  discipline of a whole turn, the bounds on its model requests and executions, and its termination.
\<close>

subsection \<open>Steps that only log\<close>

fun isRequest :: "traceEntry \<Rightarrow> bool" where
  "isRequest (Logged (ModelRequestStarted _ _ _)) = True"
| "isRequest _ = False"

definition requests :: "traceEntry list \<Rightarrow> nat" where
  "requests es = length (filter isRequest es)"

text \<open>The calls of the provider: every attempt of every request.\<close>

fun isAttempt :: "traceEntry \<Rightarrow> bool" where
  "isAttempt (Requested _) = True"
| "isAttempt _ = False"

definition attempts :: "traceEntry list \<Rightarrow> nat" where
  "attempts es = length (filter isAttempt es)"

lemma attempts_simps [simp]:
  "attempts [] = 0" "attempts (e # es) = (if isAttempt e then 1 else 0) + attempts es"
  "attempts (xs @ ys) = attempts xs + attempts ys" "attempts (replicate n (Requested q)) = n"
  by (simp_all add: attempts_def filter_replicate)

lemma requests_simps [simp]:
  "requests [] = 0" "requests (e # es) = (if isRequest e then 1 else 0) + requests es"
  "requests (xs @ ys) = requests xs + requests ys"
  by (simp_all add: requests_def)

text \<open>Entries that need nothing before them and count against no budget.\<close>

fun plain :: "traceEntry \<Rightarrow> bool" where
  "plain (Requested _) = False"
| "plain (Executed _ _) = False"
| "plain (Logged (SideEffectStarted _)) = False"
| "plain (Logged (SideEffectSettled _ _ _)) = False"
| "plain (Logged (ApprovalResolved _ _ _)) = False"
| "plain (Logged (ModelRequestStarted _ _ _)) = False"
| "plain (Logged (ItemAppended i)) = (successOf (itBody i) = None)"
| "plain (Logged _) = True"

lemma plain_imp: "plain e \<Longrightarrow> okEntry tr e \<and> \<not> isExec e \<and> \<not> isRequest e \<and> \<not> isAttempt e"
  by (cases e rule: plain.cases) auto

lemma plain_list:
  assumes "list_all plain es" shows "discFrom tr es" "execs es = 0" "requests es = 0" "attempts es = 0"
proof -
  from assms have "discFrom tr es \<and> execs es = 0 \<and> requests es = 0 \<and> attempts es = 0"
    by (induction es arbitrary: tr) (auto simp: plain_imp)
  then show "discFrom tr es" "execs es = 0" "requests es = 0" "attempts es = 0" by auto
qed

lemma quiet_plain: "quiet e \<Longrightarrow> plain e"
  by (cases e rule: quiet.cases) auto

lemma quiet_plain_list: "list_all quiet es \<Longrightarrow> list_all plain es"
  by (auto simp: list_all_iff quiet_plain)

definition plainly :: "engineCore \<Rightarrow> engineCore \<Rightarrow> bool" where
  "plainly c c' \<longleftrightarrow> (\<exists>es. esTrace c' = esTrace c @ es \<and> list_all plain es) \<and> esBudget c' = esBudget c"

lemma plainly_trans [trans]: "plainly a b \<Longrightarrow> plainly b c \<Longrightarrow> plainly a c"
  by (auto simp: plainly_def)

lemma plainly_simps [simp]:
  "plainly c c" "plainly c (c\<lparr>esMachine := m\<rparr>)" "plainly c (c\<lparr>esConversation := v\<rparr>)"
  "plainly c (c\<lparr>esRounds := n\<rparr>)" "plainly c (c\<lparr>esFinalText := t\<rparr>)"
  "list_all plain es \<Longrightarrow> plainly c (grow es os c)"
  by (auto simp: plainly_def)

text \<open>An operation all of whose runs only log.\<close>

interpretation lg: engine_relation plainly
  by unfold_locales (simp, rule plainly_trans)

abbreviation logs :: "('w, 'a) engine \<Rightarrow> bool" where
  "logs m \<equiv> keeps plainly m"

named_theorems logs_intros

declare lg.keeps_structure [logs_intros]

lemma logs_more [logs_intros]:
  "logs (machineE mm)" "logs (pushE items)" "plain (Logged pl) \<Longrightarrow> logs (appendE env base i pl)"
  "plain e \<Longrightarrow> logs (traceE e)" "logs (modifyE (\<lambda>c. c\<lparr>esConversation := v\<rparr>))"
  "logs (modifyE (\<lambda>c. c\<lparr>esFinalText := t\<rparr>))" "logs (modifyE (\<lambda>c. c\<lparr>esRounds := Suc (esRounds c)\<rparr>))"
  by (auto simp: keeps_def elim!: runs_appendE split: sum.splits)

lemma logs_persistState [logs_intros]: "logs (persistState env base)"
  by (auto simp: keeps_def quiet_plain_list elim!: persistState_adds)

lemma logs_persistRoundItems [logs_intros]: "logs (persistRoundItems env base r)"
  unfolding persistRoundItems_def
  by (rule lg.keeps_appendItems)
    (auto simp: roundItems_def successOf_def list_all_iff intro!: lg.keeps_appends(2) split: option.splits)

lemma logs_endings [logs_intros]:
  "logs (fireStop env st reason)" "logs (endTurn env base st reason)" "logs (cancelTurn env base)"
  "logs (enterState env base st)" "logs (recoverLoop env base e)" "logs (prepareContext env base)"
  "logs (endLoop env base st reason)" "logs (cancelLoop env base)" "logs (drainNotifications env)"
  unfolding fireStop_def endTurn_def cancelTurn_def enterState_def recoverLoop_def prepareContext_def
    endLoop_def cancelLoop_def drainNotifications_def
  by (auto intro!: logs_intros split: option.splits if_splits)

subsection \<open>Discipline and bounds\<close>

text \<open>
  Between two states: the trace grew by a disciplined piece, what was executed was counted, of the
  requests that were made all but k were counted, and each of them took no more attempts than the
  retry policy has.
\<close>

definition advance :: "'w turnEnv \<Rightarrow> int \<Rightarrow> engineCore \<Rightarrow> engineCore \<Rightarrow> bool" where
  "advance env k c c' \<longleftrightarrow>
     (\<exists>es. esTrace c' = esTrace c @ es \<and> discFrom (esTrace c) es \<and>
        int (execs es) \<le> btToolCalls (esBudget c') - btToolCalls (esBudget c) \<and>
        int (requests es) \<le> btModelCalls (esBudget c') - btModelCalls (esBudget c) + k \<and>
        int (attempts es) \<le> (btModelCalls (esBudget c') - btModelCalls (esBudget c) + k) * maxAttempts env) \<and>
     btToolCalls (esBudget c') \<le> max (btToolCalls (esBudget c)) (blMaxToolCalls (limitsOf env)) \<and>
     btModelCalls (esBudget c') \<le> max (btModelCalls (esBudget c)) (blMaxModelCalls (limitsOf env)) \<and>
     btModelCalls (esBudget c) \<le> btModelCalls (esBudget c')"

lemma maxAttempts_pos: "0 < maxAttempts env"
  by (simp add: maxAttempts_def)

lemma advance_trans: "advance env j a b \<Longrightarrow> advance env k b c \<Longrightarrow> advance env (j + k) a c"
  unfolding advance_def by (elim conjE exE) (rule conjI, rule_tac x = "es @ esa" in exI, auto simp: algebra_simps)

lemma advance_mono:
  assumes "advance env j a b" "j \<le> k" shows "advance env k a b"
proof -
  have "(x + j) * maxAttempts env \<le> (x + k) * maxAttempts env" for x
    using assms(2) maxAttempts_pos [of env] by (intro mult_right_mono) auto
  then show ?thesis using assms unfolding advance_def by (fastforce intro: order_trans)
qed

lemma plainly_advance: "plainly c c' \<Longrightarrow> advance env 0 c c'"
  unfolding advance_def plainly_def by (auto simp: plain_list)

lemma toolEntry_requests: "list_all toolEntry es \<Longrightarrow> requests es = 0 \<and> attempts es = 0"
proof (induction es)
  case (Cons e es)
  then show ?case by (cases e rule: isRequest.cases) auto
qed simp

lemma toolStep_advance: "toolStep env r c c' Q \<Longrightarrow> advance env 0 c c'"
  unfolding toolStep_def advance_def budgetStep_def
  by (auto simp: toolEntry_requests elim!: addsE)

lemma logs_advance: "logs m \<Longrightarrow> runs m c r c' \<Longrightarrow> advance env 0 c c'"
  by (rule plainly_advance [OF keepsD])

lemma enterState_state:
  "runs (enterState env base st) c (Inr u) c' \<Longrightarrow> tmState (esMachine c') = st"
  unfolding enterState_def
  by (auto simp: transition_Inr split: if_splits sum.splits elim!: persistState_adds)

lemma after_logs:
  assumes "runs (bindE m f) c r c'" and "logs m" and "\<And>x c1. runs m c (Inr x) c1 \<Longrightarrow> runs (f x) c1 r c' \<Longrightarrow> advance env k c1 c'"
    and "0 \<le> k"
  shows "advance env k c c'"
  using assms(1)
proof (cases rule: runs_bindE)
  case (failed e)
  from advance_mono [OF logs_advance [OF assms(2) failed(1)] assms(4)] show ?thesis .
next
  case (went_on x c1)
  from advance_trans [OF logs_advance [OF assms(2) went_on(1)] assms(3) [OF went_on]] show ?thesis by simp
qed

lemma advance_health: "advance env 0 c (c\<lparr>esBudget := (esBudget c)\<lparr>btNoProgress := n\<rparr>\<rparr>)"
  by (auto simp: advance_def)

lemma phaseEnd_advance: "runs (phaseEnd env base phase) c r c' \<Longrightarrow> advance env 0 c c'"
  using logs_advance [OF logs_endings(7)] logs_advance [OF logs_endings(8)]
  unfolding phaseEnd_def
  by (cases phase) (auto simp: afterModelRound_def plainly_advance advance_health)

lemma after_advance:
  assumes "runs (bindE m f) c r c'" and "\<And>r1 c1. runs m c r1 c1 \<Longrightarrow> advance env j c c1"
    and "\<And>x c1. runs m c (Inr x) c1 \<Longrightarrow> runs (f x) c1 r c' \<Longrightarrow> advance env k c1 c'" and "0 \<le> k"
  shows "advance env (j + k) c c'"
  using assms(1)
proof (cases rule: runs_bindE)
  case (failed e)
  from advance_mono [OF assms(2) [OF failed(1)], of "j + k"] assms(4) show ?thesis by simp
next
  case (went_on x c1)
  from advance_trans [OF assms(2) [OF went_on(1)] assms(3) [OF went_on]] show ?thesis .
qed

lemma toolPart_advance:
  assumes "runs (toolPart env base calls) c r c'" shows "advance env 0 c c'"
proof (cases "calls = []")
  case True
  with assms show ?thesis by (auto simp: toolPart_def plainly_advance)
next
  case False
  with assms have "runs (bindE (enterState env base S_executing) (\<lambda>_.
        bindE (runToolCalls env base calls) (\<lambda>phase.
        bindE (lifecycleE env ''PostToolBatch'' (LdBatch (length calls))) (\<lambda>_. phaseEnd env base phase)))) c r c'"
    by (simp add: toolPart_def)
  then show ?thesis
  proof (rule after_logs)
    fix u c1
    assume st: "runs (enterState env base S_executing) c (Inr u) c1"
      and run: "runs (bindE (runToolCalls env base calls) (\<lambda>phase.
        bindE (lifecycleE env ''PostToolBatch'' (LdBatch (length calls))) (\<lambda>_. phaseEnd env base phase))) c1 r c'"
    have "advance env (0 + 0) c1 c'"
      using run
    proof (rule after_advance)
      show "advance env 0 c1 c2" if "runs (runToolCalls env base calls) c1 r1 c2" for r1 c2
        using toolStep_advance [OF runToolCalls_step [OF that enterState_state [OF st]]] .
      show "advance env 0 c2 c'" if "runs (bindE (lifecycleE env ''PostToolBatch'' (LdBatch (length calls)))
          (\<lambda>_. phaseEnd env base phase)) c2 r c'" for phase c2
        using that by (rule after_logs) (simp_all add: logs_intros phaseEnd_advance)
    qed simp
    then show "advance env 0 c1 c'" by simp
  qed (simp_all add: logs_intros)
qed

lemma discFrom_requests: "discFrom tr (replicate n (Requested q))"
  by (induction n arbitrary: tr) auto

lemma requestRound_advance:
  assumes "runs (requestRound env base input) c r c'" shows "advance env 1 c c'"
proof -
  let ?started = "Logged (ModelRequestStarted (tiModel input) ''responses'' (''round:'' @ natStr (esRounds c)))"
  let ?request = "\<lparr>mrModel = tiModel input, mrInstructions = tiInstructions input, mrInput = esConversation c\<rparr>"
  have rest: "logs (bindE (modifyE (\<lambda>s. s\<lparr>esRounds := esRounds s + 1\<rparr>)) (\<lambda>_.
     bindE (appendE env base None (ModelRequestCompleted (nrRequestId round) (finishName (nrFinish round)))) (\<lambda>_.
     bindE (persistRoundItems env base round) (\<lambda>_.
     bindE (whenE (nrText round \<noteq> []) (modifyE (\<lambda>s. s\<lparr>esFinalText := nrText round\<rparr>))) (\<lambda>_.
     returnE round)))))" for round
    by (auto intro!: logs_intros)
  have asked: "advance env 1 c (grow (Logged (ModelRequestStarted m k rid) # replicate n (Requested q)) [] c)" if "int n \<le> maxAttempts env" for n q m k rid
    using that by (auto simp: advance_def filter_replicate requests_def execs_def intro!: discFrom_requests)
  from assms show ?thesis unfolding requestRound_def runs_bind_simps
  proof (cases rule: runs_appendE_bind)
    case (failed e)
    then show ?thesis by (auto intro: advance_mono [OF plainly_advance])
  next
    case went_on
    then have "runs (bindE (streamWithRetry env ?request) (\<lambda>round.
     bindE (modifyE (\<lambda>s. s\<lparr>esRounds := esRounds s + 1\<rparr>)) (\<lambda>_.
     bindE (appendE env base None (ModelRequestCompleted (nrRequestId round) (finishName (nrFinish round)))) (\<lambda>_.
     bindE (persistRoundItems env base round) (\<lambda>_.
     bindE (whenE (nrText round \<noteq> []) (modifyE (\<lambda>s. s\<lparr>esFinalText := nrText round\<rparr>))) (\<lambda>_.
     returnE round)))))) (grow [?started] [] c) r c'" by simp
    then show ?thesis
    proof (cases rule: runs_bindE)
      case (failed e)
      then show ?thesis by (auto elim!: runs_streamWithRetry simp: asked)
    next
      case (went_on round c1)
      from went_on(1) have "advance env 1 c c1" by (auto elim!: runs_streamWithRetry simp: asked)
      from advance_trans [OF this logs_advance [OF rest went_on(2)]] show ?thesis by simp
    qed
  qed
qed

lemma logs_roundEnd: "logs (roundEnd env base rnd)"
  unfolding roundEnd_def by (auto intro!: logs_intros)

lemma callModel_advance:
  assumes "runs (callModel env base input) c r c'" shows "advance env 1 c c'"
  using assms unfolding callModel_def
proof (elim after_logs)
  fix u c1 aborted c2
  assume run: "runs (if aborted then cancelLoop env base
     else bindE (requestRound env base input) (roundEnd env base)) c2 r c'"
  show "advance env 1 c2 c'"
  proof (cases aborted)
    case True
    with run have "advance env 0 c2 c'" by (auto intro: logs_advance logs_endings(8))
    then show ?thesis by (rule advance_mono) simp
  next
    case False
    with run have "runs (bindE (requestRound env base input) (roundEnd env base)) c2 r c'" by simp
    then have "advance env (1 + 0) c2 c'"
      by (rule after_advance) (auto intro: requestRound_advance logs_advance logs_roundEnd)
    then show ?thesis by simp
  qed
qed (simp_all add: logs_intros)

lemma modelPart_advance:
  assumes "runs (modelPart env base input) c r c'" shows "advance env 0 c c'"
  using assms unfolding modelPart_def
proof (cases rule: runs_askE_bind)
  case (1 now)
  show ?thesis
  proof (cases "fst (beforeModelCall (limitsOf env) now (esBudget c))")
    case None
    let ?c1 = "c\<lparr>esBudget := snd (beforeModelCall (limitsOf env) now (esBudget c))\<rparr>"
    have "advance env (-1) c ?c1"
      using None by (auto simp: advance_def beforeModelCall_def split: if_splits)
    moreover from 1 None have "advance env 1 ?c1 c'" by (auto intro: callModel_advance)
    ultimately show ?thesis using advance_trans by fastforce
  next
    case (Some reason)
    with 1 logs_advance [OF logs_endings(7)] show ?thesis
      by (auto simp: beforeModelCall_def split: if_splits)
  qed
qed

lemma driveStep_advance:
  assumes "runs (driveStep env base input calls) c r c'" shows "advance env 0 c c'"
  using assms unfolding driveStep_def
proof (rule after_logs)
  fix aborted c1
  assume run: "runs (if aborted then cancelLoop env base
     else bindE (toolPart env base calls) (\<lambda>r.
       case r of Inr out \<Rightarrow> returnE (Inr out) | Inl _ \<Rightarrow> modelPart env base input)) c1 r c'"
  have "advance env (0 + 0) c1 c'" if "\<not> aborted"
  proof -
    from run that have "runs (bindE (toolPart env base calls) (\<lambda>r.
       case r of Inr out \<Rightarrow> returnE (Inr out) | Inl _ \<Rightarrow> modelPart env base input)) c1 r c'" by simp
    then show ?thesis
      by (rule after_advance) (auto intro: toolPart_advance modelPart_advance plainly_advance split: sum.splits)
  qed
  then show "advance env 0 c1 c'"
    using run logs_advance [OF logs_endings(8)] by (cases aborted) auto
qed (simp_all add: logs_intros)

lemma driveLoop_advance:
  "runs (driveLoop n env base input calls) c r c' \<Longrightarrow> advance env 0 c c'"
proof (induction n arbitrary: calls c)
  case 0
  then show ?case by (simp add: plainly_advance)
next
  case (Suc n)
  from Suc.prems [unfolded driveLoop.simps] have "advance env (0 + 0) c c'"
    by (rule after_advance) (auto intro: driveStep_advance Suc.IH plainly_advance split: sum.splits)
  then show ?case by simp
qed

lemma drive_advance:
  assumes "runs (drive env base input calls) c r c'" shows "advance env 0 c c'"
proof -
  have tried: "advance env 0 c c1" if "runs (catchE (driveLoop n env base input calls) (recoverLoop env base)) c r1 c1"
    for n r1 c1
    using that
  proof (cases rule: runs_catchE)
    case (fine x)
    then show ?thesis by (simp add: driveLoop_advance)
  next
    case (caught e c2)
    from advance_trans [OF driveLoop_advance [OF caught(1)] logs_advance [OF logs_endings(5) caught(2)]]
    show ?thesis by simp
  qed
  from assms show ?thesis unfolding drive_def
    by (elim runs_bindE) (auto dest: tried)
qed

subsection \<open>Termination\<close>

text \<open>An iteration that goes on made a model call.\<close>

lemma modelPart_counts:
  assumes "runs (modelPart env base input) c (Inr (Inl calls2)) c'"
  shows "btModelCalls (esBudget c) + 1 \<le> btModelCalls (esBudget c')"
  using assms unfolding modelPart_def
proof (cases rule: runs_askE_bind)
  case (1 now)
  show ?thesis
  proof (cases "fst (beforeModelCall (limitsOf env) now (esBudget c))")
    case None
    with 1 have "runs (callModel env base input)
        (c\<lparr>esBudget := snd (beforeModelCall (limitsOf env) now (esBudget c))\<rparr>) (Inr (Inl calls2)) c'" by simp
    from callModel_advance [OF this] None show ?thesis
      by (auto simp: advance_def beforeModelCall_def split: if_splits)
  next
    case (Some reason)
    with 1 show ?thesis by (auto simp: endLoop_def elim!: runs_bindE)
  qed
qed

lemma driveStep_counts:
  assumes "runs (driveStep env base input calls) c (Inr (Inl calls2)) c'"
  shows "btModelCalls (esBudget c) + 1 \<le> btModelCalls (esBudget c')"
proof -
  from assms obtain c1 u where part: "runs (toolPart env base calls) c (Inr (Inl u)) c1"
    and model: "runs (modelPart env base input) c1 (Inr (Inl calls2)) c'"
    unfolding driveStep_def
    by (auto simp: cancelLoop_def split: if_splits sum.splits elim!: runs_abortedE_bind runs_bindE [of "toolPart env base calls"] runs_bindE [of "cancelTurn env base"])
  from toolPart_advance [OF part] modelPart_counts [OF model] show ?thesis by (simp add: advance_def)
qed

lemma driveLoop_counts:
  "runs (driveLoop n env base input calls) c (Inr None) c' \<Longrightarrow>
     btModelCalls (esBudget c) + int n \<le> btModelCalls (esBudget c')"
proof (induction n arbitrary: calls c)
  case (Suc n)
  from Suc.prems obtain calls2 c1 where "runs (driveStep env base input calls) c (Inr (Inl calls2)) c1"
    and "runs (driveLoop n env base input calls2) c1 (Inr None) c'"
    by (auto elim!: runs_bindE split: sum.splits)
  from driveStep_counts [OF this(1)] Suc.IH [OF this(2)] show ?case by simp
qed simp

lemma recoverLoop_some: "runs (recoverLoop env base e) c r c' \<Longrightarrow> r \<noteq> Inr None"
proof -
  have bind: "\<exists>x c1. runs (f x) c1 (Inr y) c'" if "runs (bindE m f) c (Inr y) c'" for m :: "('a, 'b) engine" and f c y
    using that by (rule runs_bindE) auto
  assume "runs (recoverLoop env base e) c r c'"
  then show "r \<noteq> Inr None"
    unfolding recoverLoop_def bindE_assoc by (auto dest!: bind split: if_splits sum.splits)
qed

lemma drive_returns:
  assumes "runs (drive env base input calls) c r c'" and "btModelCalls (esBudget c) = 0"
  shows "r \<noteq> Inr None"
proof
  assume r: "r = Inr None"
  with assms(1) obtain c1 where "runs (catchE (driveLoop (driveFuel env) env base input calls) (recoverLoop env base)) c (Inr None) c1"
    unfolding drive_def by (auto elim!: runs_bindE)
  then have "runs (driveLoop (driveFuel env) env base input calls) c (Inr None) c1"
    by (cases rule: runs_catchE) (auto dest: recoverLoop_some)
  from driveLoop_counts [OF this] driveLoop_advance [OF this] assms(2) show False
    by (auto simp: advance_def driveFuel_def max_def split: if_splits)
qed

subsection \<open>The two entries\<close>

lemma runTurn_runs:
  assumes "runTurn env input w = (r, (w', c'))"
  obtains tid now c1 where "runs (drainNotifications env)
      (grow [Logged (TurnStarted (rtUserText input))] [] (snd (startState S_preparing now (rtHistory input @ [MessageItem True (rtUserText input)]) w))) (Inr ()) c1"
    "runs (drive env (baseOf input tid) \<lparr>tiModel = rtModel input, tiInstructions = rtInstructions input\<rparr> []) c1 r c'"
  | (early) e now where "r = Inl e" "plainly (snd (startState S_preparing now (rtHistory input @ [MessageItem True (rtUserText input)]) w)) c'"
      "(\<exists>base i pl. runs (appendE env base i pl) (snd (startState S_preparing now (rtHistory input @ [MessageItem True (rtUserText input)]) w)) (Inl e) c') \<or>
       runs (drainNotifications env) (grow [Logged (TurnStarted (rtUserText input))] []
         (snd (startState S_preparing now (rtHistory input @ [MessageItem True (rtUserText input)]) w))) (Inl e) c'"
proof -
  obtain now w1 where now: "envNow env w = (now, w1)" by (cases "envNow env w")
  obtain tid w2 where tid: "envNextId env ''trn'' w1 = (tid, w2)" by (cases "envNextId env ''trn'' w1")
  let ?c = "snd (startState S_preparing now (rtHistory input @ [MessageItem True (rtUserText input)]) w)"
  from assms have run: "runs (bindE (appendE env (baseOf input tid) None (TurnStarted (rtUserText input))) (\<lambda>_.
        bindE (drainNotifications env) (\<lambda>_.
        drive env (baseOf input tid) \<lparr>tiModel = rtModel input, tiInstructions = rtInstructions input\<rparr> []))) ?c r c'"
    by (auto simp: runTurn_def now tid Let_def startState_def intro!: runsI [where w = w2 and w' = w'])
  then show ?thesis
  proof (cases rule: runs_bindE)
    case (failed e)
    then have "plainly ?c c'" by (auto elim!: runs_appendE)
    with early [of e now] failed show ?thesis by blast
  next
    case (went_on u c1)
    then have rest: "runs (bindE (drainNotifications env) (\<lambda>_.
        drive env (baseOf input tid) \<lparr>tiModel = rtModel input, tiInstructions = rtInstructions input\<rparr> []))
        (grow [Logged (TurnStarted (rtUserText input))] [] ?c) r c'" by (auto elim!: runs_appendE)
    let ?c1 = "grow [Logged (TurnStarted (rtUserText input))] [] ?c"
    have p: "plainly ?c ?c1" by simp
    from rest show ?thesis
    proof (cases rule: runs_bindE)
      case (failed e)
      from keepsD [OF logs_endings(9) failed(1)] p have "plainly ?c c'"
        by (rule plainly_trans [rotated])
      with early [of e now] failed show ?thesis by blast
    next
      case (went_on u c2)
      then show ?thesis using that(1) by simp
    qed
  qed
qed

lemma resumeTurn_runs:
  assumes "resumeTurn env input tid calls w = (r, (w', c'))"
  obtains now where "runs (drive env (baseOf input tid) \<lparr>tiModel = rtModel input, tiInstructions = rtInstructions input\<rparr> calls)
      (snd (startState S_awaiting_approval now (rtHistory input) w)) r c'"
proof -
  obtain now w1 where now: "envNow env w = (now, w1)" by (cases "envNow env w")
  show ?thesis by (rule that [of now], rule runsI [where w = w1 and w' = w'])
      (use assms in \<open>simp add: resumeTurn_def now startState_def\<close>)
qed

lemma plainly_budget: "plainly c c' \<Longrightarrow> esBudget c' = esBudget c"
  by (simp add: plainly_def)

lemma startState_simps [simp]:
  "esTrace (snd (startState st now conv w)) = []" "esBudget (snd (startState st now conv w)) = newTracker now"
  "esMachine (snd (startState st now conv w)) = newMachine st" "esConversation (snd (startState st now conv w)) = conv"
  by (simp_all add: startState_def)

lemma newTracker_simps [simp]: "btModelCalls (newTracker now) = 0" "btToolCalls (newTracker now) = 0"
  by (simp_all add: newTracker_def)

lemma runTurn_summary:
  assumes "runTurn env input w = (r, (w', c'))"
  shows "(\<exists>now c0. esBudget c0 = newTracker now \<and> esTrace c0 = [] \<and> advance env 0 c0 c') \<and> r \<noteq> Inr None"
  using assms
proof (cases rule: runTurn_runs)
  case (1 tid now c1)
  let ?c = "snd (startState S_preparing now (rtHistory input @ [MessageItem True (rtUserText input)]) w)"
  have p: "plainly ?c c1"
    using keepsD [OF logs_endings(9) 1(1)]
    by (rule plainly_trans [rotated]) simp
  from advance_trans [OF plainly_advance [OF p] drive_advance [OF 1(2)]] have "advance env 0 ?c c'" by simp
  moreover have "r \<noteq> Inr None" using drive_returns [OF 1(2)] plainly_budget [OF p] by simp
  ultimately show ?thesis by (intro conjI exI [of _ now] exI [of _ ?c]) simp_all
next
  case (early e now)
  then show ?thesis
    by (intro conjI exI [of _ now] exI [of _ "snd (startState S_preparing now (rtHistory input @ [MessageItem True (rtUserText input)]) w)"])
      (simp_all add: plainly_advance)
qed

lemma resumeTurn_summary:
  assumes "resumeTurn env input tid calls w = (r, (w', c'))"
  shows "(\<exists>now c0. esBudget c0 = newTracker now \<and> esTrace c0 = [] \<and> advance env 0 c0 c') \<and> r \<noteq> Inr None"
  using assms
proof (cases rule: resumeTurn_runs)
  case (1 now)
  then show ?thesis using drive_advance [OF 1] drive_returns [OF 1]
    by (intro conjI exI [of _ now] exI [of _ "snd (startState S_awaiting_approval now (rtHistory input) w)"]) simp_all
qed

abbreviation traceOf :: "'b \<times> 'w \<times> engineCore \<Rightarrow> traceEntry list" where
  "traceOf outcome \<equiv> esTrace (snd (snd outcome))"

lemma advance_fresh:
  assumes "esBudget c0 = newTracker now" "esTrace c0 = []" "advance env 0 c0 c'"
  shows "disciplined (esTrace c')" "int (requests (esTrace c')) \<le> max 0 (blMaxModelCalls (limitsOf env))"
    "int (execs (esTrace c')) \<le> max 0 (blMaxToolCalls (limitsOf env))"
    "int (attempts (esTrace c')) \<le> max 0 (blMaxModelCalls (limitsOf env)) * maxAttempts env"
proof -
  from assms(3) [unfolded advance_def, THEN conjunct1] assms(1,2)
  have es: "disciplined (esTrace c')" "int (execs (esTrace c')) \<le> btToolCalls (esBudget c')"
      "int (requests (esTrace c')) \<le> btModelCalls (esBudget c')"
      "int (attempts (esTrace c')) \<le> btModelCalls (esBudget c') * maxAttempts env"
    by (auto simp: disciplined_def)
  from assms have b: "btToolCalls (esBudget c') \<le> max 0 (blMaxToolCalls (limitsOf env))"
      "btModelCalls (esBudget c') \<le> max 0 (blMaxModelCalls (limitsOf env))"
    by (auto simp: advance_def)
  have "btModelCalls (esBudget c') * maxAttempts env \<le> max 0 (blMaxModelCalls (limitsOf env)) * maxAttempts env"
    using b(2) maxAttempts_pos [of env] by (intro mult_right_mono) auto
  with es b show "disciplined (esTrace c')" "int (requests (esTrace c')) \<le> max 0 (blMaxModelCalls (limitsOf env))"
    "int (execs (esTrace c')) \<le> max 0 (blMaxToolCalls (limitsOf env))"
    "int (attempts (esTrace c')) \<le> max 0 (blMaxModelCalls (limitsOf env)) * maxAttempts env" by auto
qed

text \<open>
  C1: Whatever the provider, the tools, the hooks, the policy and the sink do, the record of a turn is
  disciplined: a call is begun only when its intent and its start are already in the log and policy
  allowed it or an approval for it was granted; an effect is settled only after it was begun, or when
  the recovery guard skipped it; a successful result stands in the log only for a call that was begun;
  and an approval is resolved only after it was requested.
\<close>

theorem turn_discipline:
  "disciplined (traceOf (runTurn env input w)) \<and> disciplined (traceOf (resumeTurn env input tid calls w))"
proof -
  obtain r w1 c1 where 1: "runTurn env input w = (r, (w1, c1))" by (metis prod.collapse)
  obtain s w2 c2 where 2: "resumeTurn env input tid calls w = (s, (w2, c2))" by (metis prod.collapse)
  from runTurn_summary [OF 1] resumeTurn_summary [OF 2] show ?thesis
    by (auto simp: 1 2 intro: advance_fresh(1))
qed

text \<open>What a trace may hold under the limits of an engine.\<close>

definition withinBudget :: "'w turnEnv \<Rightarrow> traceEntry list \<Rightarrow> bool" where
  "withinBudget env tr \<longleftrightarrow>
     int (requests tr) \<le> max 0 (blMaxModelCalls (limitsOf env)) \<and>
     int (attempts tr) \<le> max 0 (blMaxModelCalls (limitsOf env)) * max 1 (rpMaxAttempts (policyOf env)) \<and>
     int (execs tr) \<le> max 0 (blMaxToolCalls (limitsOf env))"

text \<open>
  C17: Whatever the model asks for and in whatever batches, one run or one resumption of a turn logs at most
  maxModelCalls model requests, begins at most maxToolCalls tool calls, and calls the provider, the
  retries of every request included, at most maxModelCalls times the attempts of the retry policy; a
  negative limit admits none.
\<close>

theorem turn_within_budget:
  "withinBudget env (traceOf (runTurn env input w)) \<and> withinBudget env (traceOf (resumeTurn env input tid calls w))"
proof -
  obtain r w1 c1 where 1: "runTurn env input w = (r, (w1, c1))" by (metis prod.collapse)
  obtain s w2 c2 where 2: "resumeTurn env input tid calls w = (s, (w2, c2))" by (metis prod.collapse)
  from runTurn_summary [OF 1] resumeTurn_summary [OF 2] show ?thesis
    unfolding withinBudget_def maxAttempts_def [symmetric] by (auto simp: 1 2 dest: advance_fresh(2-4))
qed

text \<open>
  C18: Every run and every resumption of a turn comes to an end: with one more iteration than the limit
  on model calls the loop never runs out of fuel, so it returns a result or throws.
\<close>

theorem turn_terminates:
  "fst (runTurn env input w) \<noteq> Inr None \<and> fst (resumeTurn env input tid calls w) \<noteq> Inr None"
proof -
  obtain r w1 c1 where 1: "runTurn env input w = (r, (w1, c1))" by (metis prod.collapse)
  obtain s w2 c2 where 2: "resumeTurn env input tid calls w = (s, (w2, c2))" by (metis prod.collapse)
  from runTurn_summary [OF 1] resumeTurn_summary [OF 2] show ?thesis by (simp add: 1 2)
qed

end
