(* ===== verification/Turn_Ending.thy ===== *)
theory Turn_Ending
  imports Turn_Loop
begin

text \<open>
  How a turn ends. With a sink that stores what it is given, a turn that returns has either recorded one
  ending, as the last entry of its trace and in agreement with the machine and the result, or waits for
  an approval that it returns; and when moreover no approval channel and no lifecycle hook throws, every
  turn returns.
\<close>

subsection \<open>Steps that neither move the machine nor end the turn\<close>

fun isEnding :: "traceEntry \<Rightarrow> bool" where
  "isEnding (Logged (TurnEnded _ _)) = True"
| "isEnding _ = False"

definition endings :: "traceEntry list \<Rightarrow> traceEntry list" where
  "endings tr = filter isEnding tr"

lemma endings_simps [simp]:
  "endings [] = []" "endings (e # es) = (if isEnding e then e # endings es else endings es)"
  "endings (xs @ ys) = endings xs @ endings ys"
  by (simp_all add: endings_def)

lemma toolEntry_endings: "list_all toolEntry es \<Longrightarrow> endings es = []"
proof (induction es)
  case (Cons e es)
  then show ?case by (cases e rule: isEnding.cases) auto
qed simp

lemma quiet_endings: "list_all quiet es \<Longrightarrow> endings es = []"
  by (rule toolEntry_endings) (rule quiet_list)

definition steady :: "engineCore \<Rightarrow> engineCore \<Rightarrow> bool" where
  "steady c c' \<longleftrightarrow> esMachine c' = esMachine c \<and> endings (esTrace c') = endings (esTrace c)"

interpretation st: engine_relation steady
  by unfold_locales (auto simp: steady_def)

named_theorems steady_intros

declare st.keeps_structure [steady_intros]

lemma steady_more [steady_intros]:
  "keeps steady (pushE items)" "\<not> isEnding (Logged pl) \<Longrightarrow> keeps steady (appendE env base i pl)"
  "\<not> isEnding e \<Longrightarrow> keeps steady (traceE e)" "keeps steady (appendItem env base b)"
  "keeps steady (modifyE (\<lambda>c. c\<lparr>esConversation := v\<rparr>))" "keeps steady (modifyE (\<lambda>c. c\<lparr>esFinalText := t\<rparr>))"
  "keeps steady (modifyE (\<lambda>c. c\<lparr>esRounds := Suc (esRounds c)\<rparr>))"
  by (auto simp: keeps_def steady_def elim!: runs_appendE runs_appendItem)

lemma steady_stream [steady_intros]: "keeps steady (streamWithRetry env request)"
  by (rule st.keeps_stream) (simp add: steady_def)

lemma steady_model [steady_intros]:
  "keeps steady (requestRound env base input)" "keeps steady (prepareContext env base)" "keeps steady (drainNotifications env)"
  unfolding requestRound_def prepareContext_def persistRoundItems_def drainNotifications_def
  by (auto intro!: steady_intros st.keeps_appendItems simp: list_all_iff split: option.splits)

subsection \<open>Open and closed turns\<close>

definition openTurn :: "engineCore \<Rightarrow> bool" where
  "openTurn c \<longleftrightarrow> \<not> isTerminalTurnState (tmState (esMachine c)) \<and> tmReason (esMachine c) = None \<and>
     endings (esTrace c) = []"

definition closedTurn :: "turnOutcome \<Rightarrow> engineCore \<Rightarrow> bool" where
  "closedTurn out c \<longleftrightarrow>
     (case toReason out of
        None \<Rightarrow> openTurn c \<and> tmState (esMachine c) = S_awaiting_approval \<and> toPending out \<noteq> None
      | Some reason \<Rightarrow> toPending out = None \<and> isTerminalTurnState (tmState (esMachine c)) \<and>
          tmReason (esMachine c) = Some reason \<and>
          (\<exists>es. esTrace c = es @ [Logged (TurnEnded (tmState (esMachine c)) reason)] \<and> endings es = []))"

lemma steady_open: "steady c c' \<Longrightarrow> openTurn c \<Longrightarrow> openTurn c' \<and> tmState (esMachine c') = tmState (esMachine c)"
  by (simp add: steady_def openTurn_def)

lemma fireStop_runs: "runs (fireStop env st reason) c r c' \<Longrightarrow> r = Inr () \<and> c' = c"
  unfolding fireStop_def
  by (auto elim!: runs_bindE runs_catchE dest!: runs_lifecycleE split: if_splits)

lemma endTurn_runs:
  assumes "sinkOk env" and "runs (endTurn env base st reason) c r c'" and "openTurn c"
    and "isTerminalTurnState st"
  shows "(if canTransition (tmState (esMachine c)) st then r = Inr () \<and> closedTurn (leftWith reason) c' else (\<exists>e. r = Inl e) \<and> c' = c)"
  using assms(2-4) unfolding endTurn_def
  by (auto simp: machineTerminal_def openTurn_def terminate_def transition_def closedTurn_def leftWith_def
      split: if_splits dest!: safe_binds(1) [OF assms(1)] fireStop_runs)

lemma cancelTurn_runs:
  assumes "sinkOk env" and "runs (cancelTurn env base) c r c'" and "openTurn c"
  shows "r = Inr () \<and> closedTurn (leftWith R_user_cancelled) c'"
  using assms(2,3) cancel_always_legal [of "tmState (esMachine c)"] unfolding cancelTurn_def
  by (auto simp: machineTerminal_def openTurn_def terminate_def transition_def closedTurn_def leftWith_def
      split: if_splits dest!: safe_binds(1) [OF assms(1)] fireStop_runs)

lemma endLoop_runs:
  assumes "sinkOk env" and "runs (endLoop env base st reason) c r c'" and "openTurn c" and "isTerminalTurnState st"
  shows "(\<exists>out. r = Inr (Inr out) \<and> closedTurn out c') \<or>
    \<not> canTransition (tmState (esMachine c)) st \<and> (\<exists>e. r = Inl e) \<and> c' = c"
  using assms(2) unfolding endLoop_def
  by (cases rule: runs_bindE) (use endTurn_runs [OF assms(1) _ assms(3,4)] in \<open>fastforce split: if_splits\<close>)+

lemma cancelLoop_runs:
  assumes "sinkOk env" and "runs (cancelLoop env base) c r c'" and "openTurn c"
  shows "\<exists>out. r = Inr (Inr out) \<and> closedTurn out c'"
  using assms(2) unfolding cancelLoop_def
  by (cases rule: runs_bindE) (use cancelTurn_runs [OF assms(1) _ assms(3)] in fastforce)+

lemma enterState_runs:
  assumes "sinkOk env" and "runs (enterState env base st) c r c'" and "openTurn c" and "\<not> isTerminalTurnState st"
  shows "if tmState (esMachine c) = st \<or> canTransition (tmState (esMachine c)) st
    then r = Inr () \<and> openTurn c' \<and> tmState (esMachine c') = st else (\<exists>e. r = Inl e) \<and> c' = c"
proof -
  have persist: "r = Inr () \<and> (\<exists>es. c' = grow es [] c1 \<and> list_all quiet es)" if "runs (persistState env base) c1 r c'" for c1
    using that safe_binds(2) [OF assms(1), of base returnE c1 r c'] by auto
  show ?thesis
    using assms(2-4) unfolding enterState_def
    by (auto simp: openTurn_def transition_def quiet_endings split: if_splits dest!: persist)
qed

subsection \<open>The two parts of an iteration\<close>

lemma openTurn_budget [simp]: "openTurn (c\<lparr>esBudget := b\<rparr>) = openTurn c"
  by (simp add: openTurn_def)

lemma toolStep_open: "toolStep env r c c' Q \<Longrightarrow> openTurn c \<Longrightarrow> openTurn c'"
  by (auto simp: toolStep_def openTurn_def toolEntry_endings elim!: addsE)

text \<open>The states from which an exception is recorded as a failure.\<close>

definition recoverable :: "engineCore \<Rightarrow> bool" where
  "recoverable c \<longleftrightarrow> tmState (esMachine c) \<in> {S_model_streaming, S_executing}"

lemma phaseEnd_runs:
  assumes "sinkOk env" and "runs (phaseEnd env base phase) c r c'" and "openTurn c" and "phaseState phase (tmState (esMachine c))"
  shows "(\<exists>out. r = Inr (Inr out) \<and> closedTurn out c') \<or>
    r = Inr (Inl ()) \<and> openTurn c' \<and> tmState (esMachine c') = S_executing"
proof (cases phase)
  case PhaseGo
  with assms show ?thesis by (auto simp: phaseEnd_def afterModelRound_def phaseState_def)
next
  case (PhaseBudget x)
  with assms show ?thesis using endLoop_runs [OF assms(1) _ assms(3)]
    by (fastforce simp: phaseEnd_def phaseState_def canTransition_def)
next
  case PhaseCancelled
  with assms show ?thesis using cancelLoop_runs [OF assms(1) _ assms(3)] by (auto simp: phaseEnd_def)
next
  case PhaseHookStop
  with assms show ?thesis using endLoop_runs [OF assms(1) _ assms(3)]
    by (fastforce simp: phaseEnd_def phaseState_def canTransition_def)
next
  case (PhaseAwaiting q)
  with assms show ?thesis by (auto simp: phaseEnd_def phaseState_def closedTurn_def)
qed

lemma toolPart_runs:
  assumes sink: "sinkOk env" and run: "runs (toolPart env base calls) c r c'" and op: "openTurn c"
  shows "(case r of
      Inl e \<Rightarrow> openTurn c' \<and> (safeEnv env \<longrightarrow> tmState (esMachine c) \<in> {S_model_streaming, S_awaiting_approval} \<longrightarrow> recoverable c')
    | Inr (Inl _) \<Rightarrow> openTurn c' \<and> (if calls = [] then c' = c else tmState (esMachine c') = S_executing)
    | Inr (Inr out) \<Rightarrow> closedTurn out c')"
proof (cases "calls = []")
  case True
  with run op show ?thesis by (auto simp: toolPart_def)
next
  case False
  with run have "runs (bindE (enterState env base S_executing) (\<lambda>_.
        bindE (runToolCalls env base calls) (\<lambda>phase.
        bindE (lifecycleE env ''PostToolBatch'' (LdBatch (length calls))) (\<lambda>_. phaseEnd env base phase)))) c r c'"
    by (simp add: toolPart_def)
  then show ?thesis
  proof (cases rule: runs_bindE)
    case (failed e)
    with enterState_runs [OF sink failed(1) op] op show ?thesis
      by (auto simp: canTransition_def split: if_splits)
  next
    case (went_on u c1)
    from enterState_runs [OF sink went_on(1) op] have c1: "openTurn c1" "tmState (esMachine c1) = S_executing"
      by (auto split: if_splits)
    from went_on(2) show ?thesis
    proof (cases rule: runs_bindE)
      case (failed e)
      note step = runToolCalls_step [OF failed(1) c1(2)]
      from toolStep_open [OF step c1(1)] step failed(2) show ?thesis
        by (auto simp: toolStep_def phaseOk_def recoverable_def)
    next
      case (went_on phase c2)
      note step = runToolCalls_step [OF went_on(1) c1(2)]
      note c2 = toolStep_open [OF step c1(1)]
      have ph: "phaseState phase (tmState (esMachine c2))" using step by (simp add: toolStep_def)
      from went_on(2) show ?thesis
      proof (cases rule: runs_bindE)
        case (failed e)
        then have "\<not> safeEnv env" by (auto simp: safeEnv_def dest: lifecycleOk_runs)
        with failed c2 show ?thesis by (auto dest: runs_lifecycleE)
      next
        case (went_on u c3)
        from went_on(1) have "c3 = c2" by (rule runs_lifecycleE)
        with phaseEnd_runs [OF sink went_on(2)] c2 ph False show ?thesis by auto
      qed
    qed
  qed
qed

lemma modelPart_runs:
  assumes sink: "sinkOk env" and run: "runs (modelPart env base input) c r c'" and op: "openTurn c"
  shows "(case r of
      Inl e \<Rightarrow> openTurn c' \<and> (tmState (esMachine c) \<in> {S_preparing, S_executing} \<longrightarrow> recoverable c')
    | Inr (Inl calls) \<Rightarrow> openTurn c' \<and> tmState (esMachine c') = S_model_streaming \<and> calls \<noteq> []
    | Inr (Inr out) \<Rightarrow> closedTurn out c')"
  using run unfolding modelPart_def
proof (cases rule: runs_askE_bind)
  case (1 now)
  let ?c = "c\<lparr>esBudget := snd (beforeModelCall (limitsOf env) now (esBudget c))\<rparr>"
  have op': "openTurn ?c" "tmState (esMachine ?c) = tmState (esMachine c)" using op by simp_all
  show ?thesis
  proof (cases "fst (beforeModelCall (limitsOf env) now (esBudget c))")
    case (Some reason)
    with 1 have "runs (endLoop env base S_budget_exhausted reason) ?c r c'" by simp
    from endLoop_runs [OF sink this op'(1)] op show ?thesis by (auto simp: canTransition_def)
  next
    case None
    with 1 have "runs (callModel env base input) ?c r c'" by simp
    then show ?thesis unfolding callModel_def
    proof (cases rule: runs_bindE)
      case (failed e)
      from enterState_runs [OF sink failed(1) op'(1)] failed(2) op show ?thesis
        by (auto simp: canTransition_def split: if_splits)
    next
      case (went_on u c1)
      from enterState_runs [OF sink went_on(1) op'(1)] have c1: "openTurn c1" "tmState (esMachine c1) = S_model_streaming"
        by (auto split: if_splits)
      from went_on(2) show ?thesis
      proof (cases rule: runs_bindE)
        case (failed e)
        from steady_model(2) failed(1) have "steady c1 c'" by (rule keepsD)
        from steady_open [OF this c1(1)] c1(2) failed(2) show ?thesis by (simp add: recoverable_def)
      next
        case (went_on aborted c2)
        from steady_model(2) went_on(1) have "steady c1 c2" by (rule keepsD)
        from steady_open [OF this c1(1)] c1(2) have c2: "openTurn c2" "tmState (esMachine c2) = S_model_streaming" by auto
        show ?thesis
        proof (cases aborted)
          case True
          with went_on(2) cancelLoop_runs [OF sink _ c2(1)] show ?thesis by fastforce
        next
          case False
          with went_on(2) have "runs (bindE (requestRound env base input) (roundEnd env base)) c2 r c'" by simp
          then show ?thesis
          proof (cases rule: runs_bindE)
            case (failed e)
            from steady_model(1) failed(1) have "steady c2 c'" by (rule keepsD)
            from steady_open [OF this c2(1)] c2(2) failed(2) show ?thesis by (simp add: recoverable_def)
          next
            case (went_on r1 c3)
            from steady_model(1) went_on(1) have "steady c2 c3" by (rule keepsD)
            from steady_open [OF this c2(1)] c2(2) have c3: "openTurn c3" "tmState (esMachine c3) = S_model_streaming" by auto
            have grown: "openTurn (grow [] os c3)" for os using c3(1) by (simp add: openTurn_def)
            from went_on(2) endLoop_runs [OF sink _ c3(1)] c3 grown show ?thesis
              by (fastforce simp: roundEnd_def canTransition_def split: if_splits)
          qed
        qed
      qed
    qed
  qed
qed

subsection \<open>The loop\<close>

text \<open>Where an iteration may begin: a new turn without calls, or with the calls of a round or of an approval.\<close>

definition readyTurn :: "toolCall list \<Rightarrow> engineCore \<Rightarrow> bool" where
  "readyTurn calls c \<longleftrightarrow>
     (if calls = [] then tmState (esMachine c) = S_preparing
      else tmState (esMachine c) \<in> {S_model_streaming, S_awaiting_approval})"

lemma driveStep_runs:
  assumes sink: "sinkOk env" and run: "runs (driveStep env base input calls) c r c'" and op: "openTurn c"
  shows "(case r of
      Inl e \<Rightarrow> openTurn c' \<and> (safeEnv env \<longrightarrow> readyTurn calls c \<longrightarrow> recoverable c')
    | Inr (Inl calls2) \<Rightarrow> openTurn c' \<and> readyTurn calls2 c'
    | Inr (Inr out) \<Rightarrow> closedTurn out c')"
  using run unfolding driveStep_def
proof (cases rule: runs_abortedE_bind)
  case (1 aborted)
  show ?thesis
  proof (cases aborted)
    case True
    with 1 cancelLoop_runs [OF sink _ op] show ?thesis by fastforce
  next
    case False
    with 1 have "runs (bindE (toolPart env base calls) (\<lambda>r.
       case r of Inr out \<Rightarrow> returnE (Inr out) | Inl _ \<Rightarrow> modelPart env base input)) c r c'" by simp
    then show ?thesis
    proof (cases rule: runs_bindE)
      case (failed e)
      from toolPart_runs [OF sink failed(1) op] failed op show ?thesis
        by (auto simp: readyTurn_def toolPart_def split: if_splits)
    next
      case (went_on x c1)
      note part = toolPart_runs [OF sink went_on(1) op]
      show ?thesis
      proof (cases x)
        case (Inr out)
        with went_on(2) part show ?thesis by auto
      next
        case (Inl u)
        with went_on(2) have "runs (modelPart env base input) c1 r c'" by simp
        from modelPart_runs [OF sink this] Inl part show ?thesis
          by (auto simp: readyTurn_def split: sum.splits if_splits)
      qed
    qed
  qed
qed

lemma driveLoop_runs:
  assumes sink: "sinkOk env"
  shows "runs (driveLoop n env base input calls) c r c' \<Longrightarrow> openTurn c \<Longrightarrow>
    (case r of
      Inl e \<Rightarrow> openTurn c' \<and> (safeEnv env \<longrightarrow> readyTurn calls c \<longrightarrow> recoverable c')
    | Inr (Some out) \<Rightarrow> closedTurn out c'
    | Inr None \<Rightarrow> True)"
proof (induction n arbitrary: calls c)
  case (Suc n)
  from Suc.prems(1) [unfolded driveLoop.simps] show ?case
  proof (cases rule: runs_bindE)
    case (failed e)
    from driveStep_runs [OF sink failed(1) Suc.prems(2)] failed(2) show ?thesis by simp
  next
    case (went_on x c1)
    note step = driveStep_runs [OF sink went_on(1) Suc.prems(2)]
    show ?thesis
    proof (cases x)
      case (Inr out)
      with went_on(2) step show ?thesis by auto
    next
      case (Inl calls2)
      with went_on(2) step Suc.IH [of calls2 c1] show ?thesis by (auto split: sum.splits option.splits)
    qed
  qed
qed simp

lemma recoverLoop_runs:
  assumes sink: "sinkOk env" and run: "runs (recoverLoop env base e) c r c'" and op: "openTurn c"
  shows "(case r of Inl e \<Rightarrow> \<not> recoverable c | Inr None \<Rightarrow> False | Inr (Some out) \<Rightarrow> closedTurn out c')"
  using run unfolding recoverLoop_def
proof (cases rule: runs_abortedE_bind)
  case (1 aborted)
  have nt: "\<not> machineTerminal (esMachine c)" using op by (simp add: openTurn_def machineTerminal_def)
  show ?thesis
  proof (cases aborted)
    case True
    with 1 nt have "runs (bindE (cancelTurn env base) (\<lambda>_. returnE (Some (leftWith R_user_cancelled)))) c r c'" by simp
    then show ?thesis by (cases rule: runs_bindE) (use cancelTurn_runs [OF sink _ op] in auto)
  next
    case False
    show ?thesis
    proof (cases "canTransition (tmState (esMachine c)) S_recovering")
      case True
      with False 1 nt op show ?thesis
        by (auto simp: openTurn_def transition_def terminate_def canTransition_def closedTurn_def leftWith_def
            dest!: safe_binds(1) [OF sink] elim!: runs_bindE dest!: fireStop_runs)
    next
      case False
      with \<open>\<not> aborted\<close> 1 nt op show ?thesis
        by (auto simp: openTurn_def transition_def recoverable_def canTransition_def)
    qed
  qed
qed

lemma drive_runs:
  assumes sink: "sinkOk env" and run: "runs (drive env base input calls) c r c'" and op: "openTurn c"
  shows "(case r of
      Inl e \<Rightarrow> \<not> (safeEnv env \<and> readyTurn calls c)
    | Inr None \<Rightarrow> True
    | Inr (Some res) \<Rightarrow> rsState res = tmState (esMachine c') \<and>
        closedTurn \<lparr>toReason = rsReason res, toPending = rsPendingApproval res\<rparr> c')"
proof -
  have tried: "(case r1 of Inl e \<Rightarrow> \<not> (safeEnv env \<and> readyTurn calls c) | Inr None \<Rightarrow> True | Inr (Some out) \<Rightarrow> closedTurn out c1)"
    if "runs (catchE (driveLoop (driveFuel env) env base input calls) (recoverLoop env base)) c r1 c1" for r1 c1
    using that
  proof (cases rule: runs_catchE)
    case (fine x)
    with driveLoop_runs [OF sink fine(1) op] show ?thesis by simp
  next
    case (caught e c2)
    from driveLoop_runs [OF sink caught(1) op] have c2: "openTurn c2" "safeEnv env \<Longrightarrow> readyTurn calls c \<Longrightarrow> recoverable c2"
      by simp_all
    from recoverLoop_runs [OF sink caught(2) c2(1)] c2(2) show ?thesis by (auto split: sum.splits option.splits)
  qed
  from run show ?thesis unfolding drive_def
  proof (cases rule: runs_bindE)
    case (failed e)
    with tried [OF failed(1)] show ?thesis by simp
  next
    case (went_on out c1)
    with tried [OF went_on(1)] show ?thesis by (cases out) (auto simp: closedTurn_def split: option.splits)
  qed
qed

subsection \<open>The ending of a turn\<close>

text \<open>What a result says and what the trace records agree.\<close>

definition endedWell :: "(engineExn + turnResult option) \<times> 'w engineState \<Rightarrow> bool" where
  "endedWell outcome \<longleftrightarrow>
     (case fst outcome of
        Inr (Some res) \<Rightarrow>
          (case rsReason res of
             None \<Rightarrow> rsState res = S_awaiting_approval \<and> rsPendingApproval res \<noteq> None \<and> endings (traceOf outcome) = []
           | Some reason \<Rightarrow> isTerminalTurnState (rsState res) \<and> rsPendingApproval res = None \<and>
               endings (traceOf outcome) = [Logged (TurnEnded (rsState res) reason)] \<and>
               traceOf outcome \<noteq> [] \<and> last (traceOf outcome) = Logged (TurnEnded (rsState res) reason))
      | _ \<Rightarrow> True)"

lemma closed_endedWell:
  assumes "rsState res = tmState (esMachine c)" and "closedTurn \<lparr>toReason = rsReason res, toPending = rsPendingApproval res\<rparr> c"
  shows "endedWell (Inr (Some res), (w, c))"
  using assms by (auto simp: endedWell_def closedTurn_def openTurn_def split: option.splits)

lemma openTurn_start [simp]: "\<not> isTerminalTurnState st \<Longrightarrow> openTurn (snd (startState st now conv w))"
  by (simp add: openTurn_def newMachine_def)

lemma drained_open:
  assumes "runs (drainNotifications env) (grow [Logged (TurnStarted t)] [] c) r c'" and "openTurn c"
  shows "openTurn c' \<and> tmState (esMachine c') = tmState (esMachine c)"
proof -
  from keepsD [OF steady_model(3) assms(1)] assms(2) show ?thesis by (simp add: steady_def openTurn_def)
qed

lemma turns_end_well:
  assumes sink: "sinkOk env"
  shows "endedWell (runTurn env input w) \<and> endedWell (resumeTurn env input tid calls w)"
proof
  obtain r w1 c1 where 1: "runTurn env input w = (r, (w1, c1))" by (metis prod.collapse)
  from 1 show "endedWell (runTurn env input w)"
  proof (cases rule: runTurn_runs)
    case (1 t now c2)
    from drained_open [OF 1(1)] have "openTurn c2" by simp
    from drive_runs [OF sink 1(2) this] show ?thesis unfolding \<open>runTurn env input w = _\<close>
      by (cases r; cases "projr r") (auto intro: closed_endedWell simp: endedWell_def [of "(Inl _, _)"] endedWell_def [of "(Inr None, _)"])
  next
    case (early e now)
    then show ?thesis by (simp add: 1 endedWell_def)
  qed
next
  obtain r w1 c1 where 2: "resumeTurn env input tid calls w = (r, (w1, c1))" by (metis prod.collapse)
  from 2 show "endedWell (resumeTurn env input tid calls w)"
  proof (cases rule: resumeTurn_runs)
    case (1 now)
    from drive_runs [OF sink 1] show ?thesis unfolding 2
      by (cases r; cases "projr r") (auto intro: closed_endedWell simp: endedWell_def [of "(Inl _, _)"] endedWell_def [of "(Inr None, _)"])
  qed
qed

text \<open>
  C3: If the event store never fails an append, a turn that returns a result has either ended or waits.
  If it ended, it recorded exactly one ending, as the last entry of its log, with the state and the
  reason of the result, and that state is terminal; if it waits, it is in the awaiting-approval state,
  returns the approval it waits for and has recorded no ending.
\<close>

theorem turn_ending:
  assumes "sinkOk env"
  shows "endedWell (runTurn env input w) \<and> endedWell (resumeTurn env input tid calls w)"
  using assms by (rule turns_end_well)

text \<open>Notifications that can be drained.\<close>

definition drainOk :: "'w turnEnv \<Rightarrow> bool" where
  "drainOk env \<longleftrightarrow> (case envDrain env of None \<Rightarrow> True | Some d \<Rightarrow> calm d)"

lemma drain_calm:
  assumes "drainOk env" and "lifecycleOk env" and "runs (drainNotifications env) c r c'" shows "r = Inr ()"
  using assms
  by (auto simp: drainNotifications_def drainOk_def split: option.splits if_splits
      dest: lifecycleOk_runs elim!: runs_bindE dest!: calm_runs [rotated])

lemma turns_return:
  assumes safe: "safeEnv env" and drain: "drainOk env" and calls: "calls \<noteq> []"
  shows "(\<exists>res. fst (runTurn env input w) = Inr (Some res)) \<and> (\<exists>res. fst (resumeTurn env input tid calls w) = Inr (Some res))"
proof
  have sink: "sinkOk env" and life: "lifecycleOk env" using safe by (simp_all add: safeEnv_def)
  obtain r w1 c1 where 1: "runTurn env input w = (r, (w1, c1))" by (metis prod.collapse)
  from 1 show "\<exists>res. fst (runTurn env input w) = Inr (Some res)"
  proof (cases rule: runTurn_runs)
    case (1 t now c2)
    from drained_open [OF 1(1)] have "openTurn c2" "readyTurn [] c2" by (simp_all add: readyTurn_def newMachine_def)
    from drive_runs [OF sink 1(2) this(1)] this(2) safe runTurn_summary [OF \<open>runTurn env input w = _\<close>] show ?thesis
      unfolding \<open>runTurn env input w = _\<close> by (auto split: sum.splits option.splits)
  next
    case (early e now)
    then show ?thesis using drain_calm [OF drain life] sinkOk_append [OF sink] by blast
  qed
next
  have sink: "sinkOk env" using safe by (simp add: safeEnv_def)
  obtain r w1 c1 where 2: "resumeTurn env input tid calls w = (r, (w1, c1))" by (metis prod.collapse)
  from 2 show "\<exists>res. fst (resumeTurn env input tid calls w) = Inr (Some res)"
  proof (cases rule: resumeTurn_runs)
    case (1 now)
    have "readyTurn calls (snd (startState S_awaiting_approval now (rtHistory input) w))"
      using calls by (simp add: readyTurn_def newMachine_def)
    with drive_runs [OF sink 1] safe resumeTurn_summary [OF 2] show ?thesis
      unfolding 2 by (auto split: sum.splits option.splits)
  qed
qed

text \<open>The outcome is a result, and the log of the turn agrees with it.\<close>

definition returnsRecorded :: "(engineExn + turnResult option) \<times> 'w engineState \<Rightarrow> bool" where
  "returnsRecorded outcome \<longleftrightarrow>
     (\<exists>res. fst outcome = Inr (Some res) \<and>
        (case rsReason res of
           None \<Rightarrow> rsState res = S_awaiting_approval \<and> rsPendingApproval res \<noteq> None \<and> endings (traceOf outcome) = []
         | Some reason \<Rightarrow> isTerminalTurnState (rsState res) \<and>
             endings (traceOf outcome) = [Logged (TurnEnded (rsState res) reason)] \<and>
             last (traceOf outcome) = Logged (TurnEnded (rsState res) reason)))"

lemma recordedI: "fst outcome = Inr (Some res) \<Longrightarrow> endedWell outcome \<Longrightarrow> returnsRecorded outcome"
  by (auto simp: returnsRecorded_def endedWell_def split: option.splits)

text \<open>
  C7: When the event store fails no append and neither the approval channel, nor a lifecycle hook, nor
  the drain of notifications throws, every run of a turn returns a result, and so does every resumption
  with at least one pending call; and the result is recorded: the log holds exactly one ending, last and
  with the state and the reason of the result, or, for a turn that waits for an approval, none. So
  a failure of the provider, of a tool, of a policy evaluation or of another hook becomes a recorded
  ending of the turn and never an exception of the engine.
\<close>

theorem turn_returns:
  assumes "safeEnv env" and "drainOk env" and "calls \<noteq> []"
  shows "returnsRecorded (runTurn env input w) \<and> returnsRecorded (resumeTurn env input tid calls w)"
proof -
  have "sinkOk env" using assms(1) by (simp add: safeEnv_def)
  note ends = turns_end_well [OF this, of input w tid calls]
  from turns_return [OF assms, of input w tid] ends show ?thesis by (blast intro: recordedI)
qed

end
