(* ===== verification/Turn_Pairing.thy ===== *)
theory Turn_Pairing
  imports Turn_Ending
begin

text \<open>
  What the provider is shown: unless a context manager takes it apart, every function call of a request's
  conversation has exactly one function output, and every output a call, as the responses protocol
  demands of its input.
\<close>

subsection \<open>Conversations\<close>

text \<open>A conversation in which exactly the given calls still lack an output.\<close>

definition owes :: "toolCall list \<Rightarrow> inputItem list \<Rightarrow> bool" where
  "owes calls conv \<longleftrightarrow> mset (callIds conv) = mset (outputIds conv) + mset (map tcCallId calls)"

definition pairedRequests :: "traceEntry list \<Rightarrow> bool" where
  "pairedRequests tr \<longleftrightarrow> list_all (\<lambda>e. case e of Requested conv \<Rightarrow> owes [] conv | _ \<Rightarrow> True) tr"

lemma pairedRequests_simps [simp]:
  "pairedRequests []" "pairedRequests (xs @ ys) \<longleftrightarrow> pairedRequests xs \<and> pairedRequests ys"
  by (simp_all add: pairedRequests_def)

lemma pairedRequests_quiet: "list_all toolEntry es \<Longrightarrow> pairedRequests es"
  unfolding pairedRequests_def by (erule list.pred_mono_strong) (auto split: traceEntry.splits)

lemma pairedRequests_one [simp]:
  "pairedRequests [Logged pl]" "pairedRequests [Executed sid call]" "pairedRequests [Requested conv] = owes [] conv"
  by (simp_all add: pairedRequests_def)

text \<open>Steps that neither answer nor make a call and send nothing.\<close>

definition mute :: "engineCore \<Rightarrow> engineCore \<Rightarrow> bool" where
  "mute c c' \<longleftrightarrow> callIds (esConversation c') = callIds (esConversation c) \<and>
     outputIds (esConversation c') = outputIds (esConversation c) \<and>
     (pairedRequests (esTrace c) \<longrightarrow> pairedRequests (esTrace c'))"

interpretation mu: engine_relation mute
  by unfold_locales (auto simp: mute_def)

named_theorems mute_intros

declare mu.keeps_structure [mute_intros]

lemma mute_more [mute_intros]:
  "keeps mute (machineE mm)" "keeps mute (appendE env base i pl)" "keeps mute (appendItem env base b)"
  "keeps mute (modifyE (\<lambda>c. c\<lparr>esFinalText := t\<rparr>))" "keeps mute (modifyE (\<lambda>c. c\<lparr>esRounds := Suc (esRounds c)\<rparr>))"
  "keeps mute (budgetE bud)" "keeps mute (pushE (map (MessageItem u) ts))"
  by (auto simp: keeps_def mute_def callIds_def outputIds_def map_filter_def comp_def
      elim!: runs_appendE runs_appendItem split: sum.splits)

lemma mute_persistState [mute_intros]: "keeps mute (persistState env base)"
  by (auto simp: keeps_def mute_def quiet_list pairedRequests_quiet elim!: persistState_adds)

lemma mute_rest [mute_intros]:
  "keeps mute (fireStop env st reason)" "keeps mute (endTurn env base st reason)" "keeps mute (cancelTurn env base)"
  "keeps mute (enterState env base st)" "keeps mute (recoverLoop env base e)" "keeps mute (persistRoundItems env base rnd)"
  "keeps mute (endLoop env base st reason)" "keeps mute (cancelLoop env base)" "keeps mute (phaseEnd env base phase)"
  unfolding fireStop_def endTurn_def cancelTurn_def enterState_def recoverLoop_def persistRoundItems_def
    endLoop_def cancelLoop_def phaseEnd_def
  by (auto intro!: mute_intros mu.keeps_appendItems simp: list_all_iff split: option.splits toolPhase.splits)

lemma mute_drain: "keeps mute (drainNotifications env)"
proof -
  have "keeps mute (pushE (map (\<lambda>t. MessageItem True (g t)) ts))" for g ts
    by (auto simp: keeps_def mute_def callIds_def outputIds_def map_filter_def comp_def)
  then show ?thesis unfolding drainNotifications_def
    by (auto intro!: mute_intros split: option.splits)
qed

lemma mute_owes: "mute c c' \<Longrightarrow> owes calls (esConversation c') = owes calls (esConversation c)"
  by (simp add: mute_def owes_def)

lemma mute_paired: "mute c c' \<Longrightarrow> pairedRequests (esTrace c) \<Longrightarrow> pairedRequests (esTrace c')"
  by (simp add: mute_def)

subsection \<open>The groups answer the calls of the round\<close>

text \<open>What the scheduler promises: its groups hold every call of the round once.\<close>

definition planCovers :: "'w turnEnv \<Rightarrow> bool" where
  "planCovers env \<longleftrightarrow>
     (case envPlanBatches env of
        None \<Rightarrow> True
      | Some plan \<Rightarrow> (\<forall>calls w gs w'. plan calls w = (Inr gs, w') \<longrightarrow> mset (concat gs) = mset (map tcCallId calls)))"

lemma callById_known: "i \<in> set (map tcCallId calls) \<Longrightarrow> \<exists>c. callById calls i = Some c \<and> tcCallId c = i"
proof -
  assume "i \<in> set (map tcCallId calls)"
  then have "callById calls i \<noteq> None" by (auto simp: callById_def find_None_iff)
  then show ?thesis by (auto simp: callById_def find_Some_iff)
qed

lemma groupIds_known:
  assumes "set (concat gs) \<subseteq> set (map tcCallId calls)" shows "groupIds calls gs = concat gs"
proof -
  have "map tcCallId (List.map_filter (callById calls) g) = g" if "set g \<subseteq> set (map tcCallId calls)" for g
    using that
  proof (induction g)
    case (Cons i g)
    then obtain c where "callById calls i = Some c" "tcCallId c = i" using callById_known [of i calls] by auto
    with Cons show ?case by (simp add: map_filter_simps)
  qed (simp add: map_filter_simps)
  then have "map (\<lambda>g. map tcCallId (List.map_filter (callById calls) g)) gs = gs"
    using assms by (intro map_idI) auto
  then show ?thesis by (simp add: groupIds_def)
qed

lemma groupIds_cover: "mset (concat gs) = mset (map tcCallId calls) \<Longrightarrow> mset (groupIds calls gs) = mset (map tcCallId calls)"
  by (metis groupIds_known order_refl set_mset_mset)

lemma toolStep_growth:
  assumes "toolStep env r c c' Q"
  obtains es os where "esTrace c' = esTrace c @ es" "esConversation c' = esConversation c @ os"
    "list_all toolEntry es" "r = Inr PhaseGo \<Longrightarrow> Q os"
proof -
  have "adds c c' (\<lambda>es os. list_all toolEntry es \<and> (r = Inr PhaseGo \<longrightarrow> Q os))"
    using assms [unfolded toolStep_def, THEN conjunct1] by (rule adds_mono) simp
  then show ?thesis by (rule addsE) (simp add: that)
qed

lemma runToolCalls_answers:
  assumes cov: "planCovers env" and run: "runs (runToolCalls env base calls) c r c'" and st: "tmState (esMachine c) = S_executing"
  shows "(pairedRequests (esTrace c) \<longrightarrow> pairedRequests (esTrace c')) \<and>
    (r = Inr PhaseGo \<longrightarrow> owes calls (esConversation c) \<longrightarrow> owes [] (esConversation c'))"
proof -
  have ids: "mset (groupIds calls (map (\<lambda>c. [tcCallId c]) calls)) = mset (map tcCallId calls)"
    by (rule groupIds_cover) (simp add: concat_map_singleton [where f = tcCallId])
  have "toolStep env r c c' (\<lambda>os. callIds os = [] \<and> mset (outputIds os) = mset (map tcCallId calls))"
    using runToolCalls_step [OF run st]
  proof (rule toolStep_mono)
    fix os
    assume "\<exists>gs. answersWell (groupIds calls gs) os \<and>
       (envPlanBatches env = None \<longrightarrow> gs = map (\<lambda>c. [tcCallId c]) calls) \<and>
       (\<forall>plan. envPlanBatches env = Some plan \<longrightarrow> (\<exists>w w'. plan calls w = (Inr gs, w')))"
    then obtain gs where gs: "answersWell (groupIds calls gs) os \<and>
       (envPlanBatches env = None \<longrightarrow> gs = map (\<lambda>c. [tcCallId c]) calls) \<and>
       (\<forall>plan. envPlanBatches env = Some plan \<longrightarrow> (\<exists>w w'. plan calls w = (Inr gs, w')))" by (elim exE)
    have "mset (groupIds calls gs) = mset (map tcCallId calls)"
    proof (cases "envPlanBatches env")
      case None
      with gs ids show ?thesis by simp
    next
      case (Some plan)
      with gs cov have "mset (concat gs) = mset (map tcCallId calls)" unfolding planCovers_def by auto
      then show ?thesis by (rule groupIds_cover)
    qed
    with gs show "callIds os = [] \<and> mset (outputIds os) = mset (map tcCallId calls)" by (simp add: answersWell_def)
  qed
  then obtain es os where c': "esTrace c' = esTrace c @ es" "esConversation c' = esConversation c @ os"
    and es: "list_all toolEntry es"
    and os: "r = Inr PhaseGo \<Longrightarrow> callIds os = [] \<and> mset (outputIds os) = mset (map tcCallId calls)"
    by (auto elim: toolStep_growth)
  show ?thesis using pairedRequests_quiet [OF es] os unfolding c' owes_def by auto
qed

subsection \<open>The loop\<close>

lemma toolPart_paired:
  assumes cov: "planCovers env" and run: "runs (toolPart env base calls) c r c'"
    and ow: "owes calls (esConversation c)" and pr: "pairedRequests (esTrace c)"
  shows "pairedRequests (esTrace c') \<and> ((\<exists>u. r = Inr (Inl u)) \<longrightarrow> owes [] (esConversation c'))"
proof (cases "calls = []")
  case True
  with run ow pr show ?thesis by (simp add: toolPart_def)
next
  case False
  with run have "runs (bindE (enterState env base S_executing) (\<lambda>_.
        bindE (runToolCalls env base calls) (\<lambda>phase.
        bindE (lifecycleE env ''PostToolBatch'' (LdBatch (length calls))) (\<lambda>_. phaseEnd env base phase)))) c r c'"
    by (simp add: toolPart_def)
  then show ?thesis
  proof (cases rule: runs_bindE)
    case (failed e)
    with mute_paired [OF keepsD [OF mute_rest(4) failed(1)] pr] show ?thesis by simp
  next
    case (went_on u c1)
    note st = enterState_state [OF went_on(1)]
    note m1 = keepsD [OF mute_rest(4) went_on(1)]
    note c1 = mute_paired [OF m1 pr] mute_owes [OF m1, of calls]
    from went_on(2) show ?thesis
    proof (cases rule: runs_bindE)
      case (failed e)
      with runToolCalls_answers [OF cov failed(1) st] c1 show ?thesis by simp
    next
      case (went_on phase c2)
      from runToolCalls_answers [OF cov went_on(1) st] c1 ow
      have c2: "pairedRequests (esTrace c2)" "phase = PhaseGo \<Longrightarrow> owes [] (esConversation c2)" by auto
      have "keeps mute (bindE (lifecycleE env ''PostToolBatch'' (LdBatch (length calls))) (\<lambda>_. phaseEnd env base phase))"
        by (intro mute_intros)
      from keepsD [OF this went_on(2)] have m2: "mute c2 c'" .
      have "phase = PhaseGo" if "r = Inr (Inl u)" for u
        using went_on(2) that unfolding phaseEnd_def endLoop_def cancelLoop_def
        by (auto elim!: runs_bindE split: toolPhase.splits)
      with mute_paired [OF m2 c2(1)] mute_owes [OF m2, of "[]"] c2(2) show ?thesis by auto
    qed
  qed
qed

lemma requestRound_paired:
  assumes run: "runs (requestRound env base input) c r c'"
    and ow: "owes [] (esConversation c)" and pr: "pairedRequests (esTrace c)"
  shows "pairedRequests (esTrace c') \<and> callIds (esConversation c') = callIds (esConversation c) \<and>
    outputIds (esConversation c') = outputIds (esConversation c)"
proof -
  let ?started = "Logged (ModelRequestStarted (tiModel input) ''responses'' (''round:'' @ natStr (esRounds c)))"
  let ?request = "\<lparr>mrModel = tiModel input, mrInstructions = tiInstructions input, mrInput = esConversation c\<rparr>"
  have rest: "keeps mute (bindE (modifyE (\<lambda>s. s\<lparr>esRounds := Suc (esRounds s)\<rparr>)) (\<lambda>_.
     bindE (appendE env base None (ModelRequestCompleted (nrRequestId round) (finishName (nrFinish round)))) (\<lambda>_.
     bindE (persistRoundItems env base round) (\<lambda>_.
     bindE (whenE (nrText round \<noteq> []) (modifyE (\<lambda>s. s\<lparr>esFinalText := nrText round\<rparr>))) (\<lambda>_.
     returnE round)))))" for round
    by (auto intro!: mute_intros)
  have asked: "mute c (grow (Logged pl # replicate n (Requested (esConversation c))) [] c)" for n pl
    using ow by (auto simp: mute_def pairedRequests_def list_all_iff set_replicate_conv_if)
  from run have "mute c c'" unfolding requestRound_def runs_bind_simps
  proof (cases rule: runs_appendE_bind)
    case (failed e)
    then show ?thesis by (simp add: mute_def)
  next
    case went_on
    then have "runs (bindE (streamWithRetry env ?request) (\<lambda>round.
     bindE (modifyE (\<lambda>s. s\<lparr>esRounds := Suc (esRounds s)\<rparr>)) (\<lambda>_.
     bindE (appendE env base None (ModelRequestCompleted (nrRequestId round) (finishName (nrFinish round)))) (\<lambda>_.
     bindE (persistRoundItems env base round) (\<lambda>_.
     bindE (whenE (nrText round \<noteq> []) (modifyE (\<lambda>s. s\<lparr>esFinalText := nrText round\<rparr>))) (\<lambda>_.
     returnE round)))))) (grow [?started] [] c) r c'" by simp
    then show ?thesis
    proof (cases rule: runs_bindE)
      case (failed e)
      then show ?thesis by (auto elim!: runs_streamWithRetry simp: asked)
    next
      case (went_on round c1)
      from went_on(1) have "mute c c1" by (auto elim!: runs_streamWithRetry simp: asked)
      from mu.composed [OF this keepsD [OF rest went_on(2)]] show ?thesis .
    qed
  qed
  with pr show ?thesis by (auto simp: mute_def)
qed

text \<open>A context manager that takes no call without its result and no result without its call.\<close>

definition contextKeeps :: "'w turnEnv \<Rightarrow> bool" where
  "contextKeeps env \<longleftrightarrow>
     (case envContext env of
        None \<Rightarrow> True
      | Some prepare \<Rightarrow> (\<forall>conv base w prep w'. prepare conv base w = (Inr prep, w') \<longrightarrow> owes [] conv \<longrightarrow> owes [] (cpItems prep)))"

lemma prepareContext_paired:
  assumes ctx: "contextKeeps env" and run: "runs (prepareContext env base) c r c'"
    and ow: "owes [] (esConversation c)" and pr: "pairedRequests (esTrace c)"
  shows "pairedRequests (esTrace c') \<and> owes [] (esConversation c')"
proof (cases "envContext env")
  case None
  with run ow pr show ?thesis by (simp add: prepareContext_def)
next
  case (Some prepare)
  have kept: "owes [] (cpItems prep)" if "runs (callE (prepare (esConversation c) base)) c (Inr prep) c1" for prep c1
    using that ctx ow Some unfolding contextKeeps_def runs_def callE_def by (auto simp: case_prod_beta) (metis prod.collapse)
  from run have "runs (bindE (callE (prepare (esConversation c) base)) (\<lambda>prep.
          bindE (abortedE env) (\<lambda>aborted.
          if aborted then returnE True
          else
            bindE (modifyE (\<lambda>s. s\<lparr>esConversation := cpItems prep\<rparr>)) (\<lambda>_.
            bindE (whenE (cpCompacted prep) (lifecycleE env ''PostCompact'' (LdCompact (cpTrigger prep)))) (\<lambda>_.
            returnE False))))) c r c'" by (simp add: prepareContext_def Some)
  then show ?thesis
  proof (cases rule: runs_bindE)
    case (failed e)
    with ow pr show ?thesis by (auto dest: runs_callE)
  next
    case (went_on prep c1)
    from runs_callE [OF went_on(1)] kept [OF went_on(1)] went_on(2) ow pr show ?thesis
      by (auto split: if_splits elim!: runs_abortedE_bind runs_lifecycleE_bind)
  qed
qed

lemma roundEnd_paired:
  assumes run: "runs (roundEnd env base rnd) c r c'" and ow: "owes [] (esConversation c)" and pr: "pairedRequests (esTrace c)"
  shows "pairedRequests (esTrace c') \<and> (\<forall>calls. r = Inr (Inl calls) \<longrightarrow> owes calls (esConversation c'))"
proof (cases "nrToolCalls rnd = []")
  case True
  with run have fin: "runs (endLoop env base S_completed R_natural_completion) c r c'"
    by (simp add: roundEnd_def)
  from mute_paired [OF keepsD [OF mute_rest(7) fin] pr] fin show ?thesis
    by (auto simp: endLoop_def elim!: runs_bindE)
next
  case False
  have asked: "owes (nrToolCalls rnd) (esConversation c @ ts @ map callItem (nrToolCalls rnd))"
    if "ts = [] \<or> (\<exists>t. ts = [MessageItem False t])" for ts
    using ow that
    by (auto simp: owes_def callIds_def outputIds_def map_filter_def callItem_def comp_def)
  from False run pr asked [of "[]"] asked [of "[MessageItem False (nrText rnd)]"] show ?thesis
    by (auto simp: roundEnd_def split: if_splits)
qed

lemma callModel_paired:
  assumes ctx: "contextKeeps env" and run: "runs (callModel env base input) c r c'"
    and ow: "owes [] (esConversation c)" and pr: "pairedRequests (esTrace c)"
  shows "pairedRequests (esTrace c') \<and> (\<forall>calls. r = Inr (Inl calls) \<longrightarrow> owes calls (esConversation c'))"
  using run unfolding callModel_def
proof (cases rule: runs_bindE)
  case (failed e)
  with mute_paired [OF keepsD [OF mute_rest(4) failed(1)] pr] show ?thesis by simp
next
  case (went_on u c1)
  note m1 = keepsD [OF mute_rest(4) went_on(1)]
  note c1 = mute_paired [OF m1 pr] mute_owes [OF m1, of "[]", THEN iffD2, OF ow]
  from went_on(2) show ?thesis
  proof (cases rule: runs_bindE)
    case (failed e)
    with prepareContext_paired [OF ctx failed(1) c1(2,1)] show ?thesis by simp
  next
    case (went_on aborted c2)
    from prepareContext_paired [OF ctx went_on(1) c1(2,1)]
    have c2: "pairedRequests (esTrace c2)" "owes [] (esConversation c2)" by auto
    show ?thesis
    proof (cases aborted)
      case True
      with went_on(2) have fin: "runs (cancelLoop env base) c2 r c'" by simp
      from mute_paired [OF keepsD [OF mute_rest(8) fin] c2(1)] fin show ?thesis
        by (auto simp: cancelLoop_def elim!: runs_bindE)
    next
      case False
      with went_on(2) have "runs (bindE (requestRound env base input) (roundEnd env base)) c2 r c'" by simp
      then show ?thesis
      proof (cases rule: runs_bindE)
        case (failed e)
        with requestRound_paired [OF failed(1) c2(2,1)] show ?thesis by simp
      next
        case (went_on rnd c3)
        from requestRound_paired [OF went_on(1) c2(2,1)] c2(2)
        have "pairedRequests (esTrace c3)" "owes [] (esConversation c3)" by (auto simp: owes_def)
        with roundEnd_paired [OF went_on(2)] show ?thesis by simp
      qed
    qed
  qed
qed

lemma modelPart_paired:
  assumes ctx: "contextKeeps env" and run: "runs (modelPart env base input) c r c'"
    and ow: "owes [] (esConversation c)" and pr: "pairedRequests (esTrace c)"
  shows "pairedRequests (esTrace c') \<and> (\<forall>calls. r = Inr (Inl calls) \<longrightarrow> owes calls (esConversation c'))"
  using run unfolding modelPart_def
proof (cases rule: runs_askE_bind)
  case (1 now)
  let ?c = "c\<lparr>esBudget := snd (beforeModelCall (limitsOf env) now (esBudget c))\<rparr>"
  have pre: "pairedRequests (esTrace ?c)" "owes [] (esConversation ?c)" using ow pr by simp_all
  show ?thesis
  proof (cases "fst (beforeModelCall (limitsOf env) now (esBudget c))")
    case (Some reason)
    with 1 have fin: "runs (endLoop env base S_budget_exhausted reason) ?c r c'" by simp
    from mute_paired [OF keepsD [OF mute_rest(7) fin] pre(1)] fin show ?thesis
      by (auto simp: endLoop_def elim!: runs_bindE)
  next
    case None
    with 1 have "runs (callModel env base input) ?c r c'" by simp
    from callModel_paired [OF ctx this pre(2,1)] show ?thesis .
  qed
qed

lemma driveLoop_paired:
  assumes ctx: "contextKeeps env" and cov: "planCovers env"
  shows "runs (driveLoop n env base input calls) c r c' \<Longrightarrow> owes calls (esConversation c) \<Longrightarrow>
    pairedRequests (esTrace c) \<Longrightarrow> pairedRequests (esTrace c')"
proof (induction n arbitrary: calls c)
  case (Suc n)
  have step: "pairedRequests (esTrace c1) \<and> (\<forall>calls2. r1 = Inr (Inl calls2) \<longrightarrow> owes calls2 (esConversation c1))"
    if "runs (driveStep env base input calls) c r1 c1" for r1 c1
    using that unfolding driveStep_def
  proof (cases rule: runs_abortedE_bind)
    case (1 aborted)
    show ?thesis
    proof (cases aborted)
      case True
      with 1 have fin: "runs (cancelLoop env base) c r1 c1" by simp
      from mute_paired [OF keepsD [OF mute_rest(8) fin] Suc.prems(3)] fin show ?thesis
        by (auto simp: cancelLoop_def elim!: runs_bindE)
    next
      case False
      with 1 have "runs (bindE (toolPart env base calls) (\<lambda>r.
         case r of Inr out \<Rightarrow> returnE (Inr out) | Inl _ \<Rightarrow> modelPart env base input)) c r1 c1" by simp
      then show ?thesis
      proof (cases rule: runs_bindE)
        case (failed e)
        with toolPart_paired [OF cov failed(1) Suc.prems(2,3)] show ?thesis by simp
      next
        case (went_on x c2)
        note part = toolPart_paired [OF cov went_on(1) Suc.prems(2,3)]
        show ?thesis
        proof (cases x)
          case (Inl u)
          with went_on(2) have run2: "runs (modelPart env base input) c2 r1 c1" by simp
          from part Inl have "owes [] (esConversation c2)" "pairedRequests (esTrace c2)" by simp_all
          from modelPart_paired [OF ctx run2 this] show ?thesis .
        next
          case (Inr out)
          with went_on(2) part show ?thesis by auto
        qed
      qed
    qed
  qed
  from Suc.prems(1) [unfolded driveLoop.simps] show ?case
  proof (cases rule: runs_bindE)
    case (failed e)
    with step [OF failed(1)] show ?thesis by simp
  next
    case (went_on x c1)
    show ?thesis
    proof (cases x)
      case (Inl calls2)
      with went_on(2) have run2: "runs (driveLoop n env base input calls2) c1 r c'" by simp
      from step [OF went_on(1)] Inl have "owes calls2 (esConversation c1)" "pairedRequests (esTrace c1)" by simp_all
      from Suc.IH [OF run2 this] show ?thesis .
    next
      case (Inr out)
      with went_on(2) step [OF went_on(1)] show ?thesis by simp
    qed
  qed
qed simp

lemma drive_paired:
  assumes ctx: "contextKeeps env" and cov: "planCovers env" and run: "runs (drive env base input calls) c r c'"
    and pre: "owes calls (esConversation c)" "pairedRequests (esTrace c)"
  shows "pairedRequests (esTrace c')"
proof -
  have "pairedRequests (esTrace c1)"
    if "runs (catchE (driveLoop (driveFuel env) env base input calls) (recoverLoop env base)) c r1 c1" for r1 c1
    using that
  proof (cases rule: runs_catchE)
    case (fine x)
    from driveLoop_paired [OF ctx cov fine(1) pre] show ?thesis .
  next
    case (caught e c2)
    from mute_paired [OF keepsD [OF mute_rest(5) caught(2)] driveLoop_paired [OF ctx cov caught(1) pre]] show ?thesis .
  qed
  with run show ?thesis unfolding drive_def by (auto elim!: runs_bindE)
qed

text \<open>
  With a context manager that keeps the pairs, or none, and with a scheduler whose groups hold every call
  of a round once, every request of a turn, new or resumed, is paired.
\<close>

theorem turns_paired:
  assumes "contextKeeps env" and "planCovers env"
    and "owes [] (rtHistory input)" and "owes calls (rtHistory resumed)"
  shows "pairedRequests (traceOf (runTurn env input w)) \<and> pairedRequests (traceOf (resumeTurn env resumed tid calls w))"
proof
  obtain r w1 c1 where 1: "runTurn env input w = (r, (w1, c1))" by (metis prod.collapse)
  from 1 show "pairedRequests (traceOf (runTurn env input w))"
  proof (cases rule: runTurn_runs)
    case (1 t now c2)
    have hist: "owes [] (rtHistory input @ [MessageItem True (rtUserText input)])"
      using assms(3) by (simp add: owes_def callIds_def outputIds_def map_filter_def)
    note m = keepsD [OF mute_drain 1(1)]
    have "owes [] (esConversation c2)" "pairedRequests (esTrace c2)"
      using mute_owes [OF m] mute_paired [OF m] hist by simp_all
    from drive_paired [OF assms(1,2) 1(2) this] show ?thesis by (simp add: \<open>runTurn env input w = _\<close>)
  next
    case (early e now)
    have grown: "mute c (grow [Logged pl] [] c)" for c pl by (simp add: mute_def)
    from early(3) have "mute (snd (startState S_preparing now (rtHistory input @ [MessageItem True (rtUserText input)]) w)) c1"
      using keepsD [OF mute_drain] keepsD [OF mute_more(2)] mu.composed [OF grown] by blast
    from mute_paired [OF this] show ?thesis by (simp add: 1)
  qed
next
  obtain r w1 c1 where 2: "resumeTurn env resumed tid calls w = (r, (w1, c1))" by (metis prod.collapse)
  from 2 show "pairedRequests (traceOf (resumeTurn env resumed tid calls w))"
  proof (cases rule: resumeTurn_runs)
    case (1 now)
    from drive_paired [OF assms(1,2) 1] assms(4) show ?thesis by (simp add: 2)
  qed
qed

end
