(* ===== verification/Tool_Scheduler.thy ===== *)
theory Tool_Scheduler
  imports Turn_Pairing
begin

text \<open>
  \<^verbatim>\<open>packages/tools-core/src/\<close> (\<^verbatim>\<open>contract.ts\<close>, \<^verbatim>\<open>registry.ts\<close>, \<^verbatim>\<open>scheduler.ts\<close>) and the
  wiring of the scheduler to the turn engine in \<^verbatim>\<open>apps/cli/src/wiring.ts\<close>: which calls of a round
  may overlap. The engine's contract with a planner is a locale; the wired planner is its instance.
\<close>

subsection \<open>The tool contract and the registry\<close>

record toolAnnotations =
  taReadOnly :: bool
  taDestructive :: bool
  taIdempotent :: bool
  taOpenWorld :: bool

record resourceFootprint =
  fpReads :: "string list"
  fpWrites :: "string list"
  fpUnbounded :: bool

type_synonym jsObject = "(string \<times> jsValue) list"

text \<open>
  The parts of \<^verbatim>\<open>ToolDefinition\<close> that decide something: the schema parser gives the issues or the
  input, and the footprint of unvalidated arguments may throw (None).
\<close>

record 'i toolDefinition =
  tdName :: string
  tdAnnotations :: toolAnnotations
  tdAvailableIn :: "permissionProfile list"
  tdParse :: "jsValue \<Rightarrow> string list + 'i"
  tdValidate :: "('i \<Rightarrow> string option) option"
  tdFootprint :: "jsObject \<Rightarrow> resourceFootprint option"

type_synonym 'i toolRegistry = "'i toolDefinition list"

definition registryGet :: "'i toolRegistry \<Rightarrow> string \<Rightarrow> 'i toolDefinition option" where
  "registryGet r name = find (\<lambda>t. tdName t = name) r"

definition register :: "'i toolDefinition \<Rightarrow> 'i toolRegistry \<Rightarrow> harnessErrorData + 'i toolRegistry" where
  "register t r =
     (if registryGet r (tdName t) \<noteq> None
      then Inl (harnessError O_internal ''tools.duplicate_name'' (''tool \"'' @ tdName t @ ''\" is already registered''))
      else Inr (r @ [t]))"

definition availableFor :: "'i toolRegistry \<Rightarrow> permissionProfile \<Rightarrow> 'i toolDefinition list" where
  "availableFor r p = filter (\<lambda>t. p \<in> set (tdAvailableIn t)) r"

datatype validationFailure = InvalidInput string | SemanticInvalid string

definition validateCall :: "'i toolDefinition \<Rightarrow> jsValue \<Rightarrow> validationFailure + 'i" where
  "validateCall t raw =
     (case tdParse t raw of
        Inl issues \<Rightarrow> Inl (InvalidInput (joinWith ''; '' issues))
      | Inr input \<Rightarrow>
          (case (case tdValidate t of None \<Rightarrow> None | Some f \<Rightarrow> f input) of
             Some reason \<Rightarrow> Inl (SemanticInvalid reason)
           | None \<Rightarrow> Inr input))"

subsection \<open>Batches\<close>

record plannedCall =
  pcCallId :: string
  pcToolName :: string
  pcAnnotations :: toolAnnotations
  pcFootprint :: resourceFootprint

datatype batchKind = ParallelBatch | SerialBatch

record batch =
  baKind :: batchKind
  baCalls :: "plannedCall list"

definition conflicts :: "plannedCall \<Rightarrow> plannedCall \<Rightarrow> bool" where
  "conflicts a b \<longleftrightarrow>
     (let fa = pcFootprint a; fb = pcFootprint b in
      fpUnbounded fa \<or> fpUnbounded fb \<or>
      list_ex (\<lambda>w. w \<in> set (fpWrites fb)) (fpWrites fa) \<or>
      list_ex (\<lambda>r. r \<in> set (fpWrites fb)) (fpReads fa) \<or>
      list_ex (\<lambda>r. r \<in> set (fpWrites fa)) (fpReads fb))"

definition isSafeParallel :: "plannedCall \<Rightarrow> bool" where
  "isSafeParallel c \<longleftrightarrow> taReadOnly (pcAnnotations c) \<and> \<not> taDestructive (pcAnnotations c) \<and> \<not> fpUnbounded (pcFootprint c)"

definition flushBatch :: "batch list \<times> plannedCall list \<Rightarrow> batch list" where
  "flushBatch s =
     (case snd s of
        [] \<Rightarrow> fst s
      | c # cs \<Rightarrow> fst s @ [\<lparr>baKind = (if cs = [] \<and> \<not> isSafeParallel c then SerialBatch else ParallelBatch), baCalls = c # cs\<rparr>])"

definition planCall :: "int \<Rightarrow> plannedCall \<Rightarrow> batch list \<times> plannedCall list \<Rightarrow> batch list \<times> plannedCall list" where
  "planCall maxParallel call s =
     (if \<not> isSafeParallel call then (flushBatch s @ [\<lparr>baKind = SerialBatch, baCalls = [call]\<rparr>], [])
      else if list_ex (\<lambda>x. conflicts x call) (snd s) \<or> int (length (snd s)) \<ge> maxParallel
      then (flushBatch s, [call])
      else (fst s, snd s @ [call]))"

definition planBatches :: "plannedCall list \<Rightarrow> int \<Rightarrow> batch list" where
  "planBatches calls maxParallel = flushBatch (fold (planCall maxParallel) calls ([], []))"

subsection \<open>The wiring\<close>

definition conservativeCall :: "toolCall \<Rightarrow> plannedCall" where
  "conservativeCall c = \<lparr>pcCallId = tcCallId c, pcToolName = tcToolName c,
     pcAnnotations = \<lparr>taReadOnly = False, taDestructive = True, taIdempotent = False, taOpenWorld = True\<rparr>,
     pcFootprint = \<lparr>fpReads = [], fpWrites = [], fpUnbounded = True\<rparr>\<rparr>"

definition plannedOf :: "'i toolRegistry \<Rightarrow> toolCall \<Rightarrow> plannedCall" where
  "plannedOf tools c =
     (case registryGet tools (tcToolName c) of
        None \<Rightarrow> conservativeCall c
      | Some t \<Rightarrow>
          (case tdFootprint t (tcArguments c) of
             None \<Rightarrow> conservativeCall c
           | Some fp \<Rightarrow> \<lparr>pcCallId = tcCallId c, pcToolName = tcToolName c, pcAnnotations = tdAnnotations t, pcFootprint = fp\<rparr>))"

definition wiredPlan :: "'i toolRegistry \<Rightarrow> toolCall list \<Rightarrow> string list list" where
  "wiredPlan tools calls = map (\<lambda>b. map pcCallId (baCalls b)) (planBatches (map (plannedOf tools) calls) 8)"

subsection \<open>What the batches are\<close>

text \<open>Calls that may overlap: no two of them touch what either writes.\<close>

definition batchOk :: "int \<Rightarrow> batch \<Rightarrow> bool" where
  "batchOk n b \<longleftrightarrow>
     (case baKind b of
        SerialBatch \<Rightarrow> (\<exists>c. baCalls b = [c] \<and> \<not> isSafeParallel c)
      | ParallelBatch \<Rightarrow> baCalls b \<noteq> [] \<and> list_all isSafeParallel (baCalls b) \<and>
          int (length (baCalls b)) \<le> max 1 n \<and> sorted_wrt (\<lambda>x y. \<not> conflicts x y) (baCalls b))"

text \<open>Why a batch was closed before the next one.\<close>

definition boundaryOk :: "int \<Rightarrow> batch \<Rightarrow> batch \<Rightarrow> bool" where
  "boundaryOk n b b' \<longleftrightarrow> baKind b = SerialBatch \<or> baKind b' = SerialBatch \<or>
     int (length (baCalls b)) \<ge> n \<or> list_ex (\<lambda>x. conflicts x (hd (baCalls b'))) (baCalls b)"

fun boundariesOk :: "int \<Rightarrow> batch list \<Rightarrow> bool" where
  "boundariesOk n (b # b' # bs) = (boundaryOk n b b' \<and> boundariesOk n (b' # bs))"
| "boundariesOk n _ = True"

lemma boundariesOk_snoc: "boundariesOk n (bs @ [b]) \<longleftrightarrow> boundariesOk n bs \<and> (bs = [] \<or> boundaryOk n (last bs) b)"
  by (induction n bs rule: boundariesOk.induct) auto

definition batchesOk :: "int \<Rightarrow> plannedCall list \<Rightarrow> batch list \<Rightarrow> bool" where
  "batchesOk n calls bs \<longleftrightarrow> concat (map baCalls bs) = calls \<and> list_all (batchOk n) bs \<and> boundariesOk n bs"

text \<open>The state of the loop after a prefix of the calls.\<close>

abbreviation openBatch :: "plannedCall list \<Rightarrow> batch" where
  "openBatch cs \<equiv> \<lparr>baKind = ParallelBatch, baCalls = cs\<rparr>"

definition planInv :: "int \<Rightarrow> plannedCall list \<Rightarrow> batch list \<times> plannedCall list \<Rightarrow> bool" where
  "planInv n past s \<longleftrightarrow>
     (if snd s = [] then batchesOk n past (fst s) \<and> (fst s = [] \<or> baKind (last (fst s)) = SerialBatch)
      else batchesOk n past (fst s @ [openBatch (snd s)]))"

lemma flushBatch_open: "planInv n past (bs, c # cs) \<Longrightarrow> flushBatch (bs, c # cs) = bs @ [openBatch (c # cs)]"
  by (auto simp: flushBatch_def planInv_def batchesOk_def batchOk_def)

lemma flushBatch_ok: "planInv n past s \<Longrightarrow> batchesOk n past (flushBatch s)"
proof (cases s)
  case (Pair bs cs)
  assume "planInv n past s"
  with Pair show ?thesis
    by (cases cs) (auto simp: flushBatch_open planInv_def flushBatch_def [of "(_, [])"])
qed

lemma batchesOk_snoc:
  "batchesOk n (past @ baCalls b) (bs @ [b]) \<longleftrightarrow>
     concat (map baCalls bs) = past \<and> list_all (batchOk n) bs \<and> boundariesOk n bs \<and> batchOk n b \<and>
     (bs = [] \<or> boundaryOk n (last bs) b)"
  by (auto simp: batchesOk_def boundariesOk_snoc)

lemma planCall_inv:
  assumes inv: "planInv n past s" shows "planInv n (past @ [call]) (planCall n call s)"
proof -
  obtain bs cs where s: "s = (bs, cs)" by (cases s)
  note flushed = flushBatch_ok [OF inv, unfolded s batchesOk_def]
  show ?thesis
  proof (cases "isSafeParallel call")
    case False
    let ?b = "\<lparr>baKind = SerialBatch, baCalls = [call]\<rparr>"
    have "batchesOk n (past @ baCalls ?b) (flushBatch (bs, cs) @ [?b])"
      unfolding batchesOk_snoc using flushed False by (auto simp: batchOk_def boundaryOk_def)
    then show ?thesis using False by (simp add: planCall_def planInv_def s)
  next
    case safe: True
    let ?closed = "list_ex (\<lambda>x. conflicts x call) cs \<or> int (length cs) \<ge> n"
    show ?thesis
    proof (cases ?closed)
      case True
      have "boundaryOk n (last (flushBatch (bs, cs))) (openBatch [call])" if "flushBatch (bs, cs) \<noteq> []"
      proof (cases cs)
        case Nil
        with inv that True s show ?thesis by (auto simp: planInv_def flushBatch_def boundaryOk_def)
      next
        case (Cons c cs')
        with inv s have "flushBatch (bs, cs) = bs @ [openBatch cs]" by (simp add: flushBatch_open)
        with True show ?thesis by (auto simp: boundaryOk_def)
      qed
      then have "batchesOk n (past @ baCalls (openBatch [call])) (flushBatch (bs, cs) @ [openBatch [call]])"
        unfolding batchesOk_snoc using flushed safe by (auto simp: batchOk_def)
      then show ?thesis using True safe by (simp add: planCall_def planInv_def s)
    next
      case False
      have "batchesOk n (past @ [call]) (bs @ [openBatch (cs @ [call])])"
      proof (cases "cs = []")
        case True
        with inv s have "batchesOk n past bs" "bs = [] \<or> baKind (last bs) = SerialBatch" by (auto simp: planInv_def)
        then show ?thesis using batchesOk_snoc [of n past "openBatch [call]" bs] safe True
          by (auto simp: batchesOk_def batchOk_def boundaryOk_def)
      next
        case ne: False
        with inv s have "batchesOk n past (bs @ [openBatch cs])" by (simp add: planInv_def)
        then have old: "concat (map baCalls bs) @ cs = past" "list_all (batchOk n) bs" "boundariesOk n bs"
          "batchOk n (openBatch cs)" "bs = [] \<or> boundaryOk n (last bs) (openBatch cs)"
          by (auto simp: batchesOk_def boundariesOk_snoc)
        have "batchOk n (openBatch (cs @ [call]))"
          using old(4) False safe by (auto simp: batchOk_def sorted_wrt_append list_ex_iff)
        moreover have "bs = [] \<or> boundaryOk n (last bs) (openBatch (cs @ [call]))"
          using old(5) ne by (auto simp: boundaryOk_def)
        ultimately show ?thesis using old by (auto simp: batchesOk_def boundariesOk_snoc)
      qed
      then show ?thesis using False safe by (auto simp: planCall_def planInv_def s)
    qed
  qed
qed

lemma fold_planCall_inv: "planInv n past s \<Longrightarrow> planInv n (past @ calls) (fold (planCall n) calls s)"
proof (induction calls arbitrary: past s)
  case (Cons c calls)
  from Cons.IH [OF planCall_inv [OF Cons.prems]] show ?case by simp
qed simp

lemma planBatches_ok: "batchesOk n calls (planBatches calls n)"
proof -
  have "planInv n [] ([], [])" by (simp add: planInv_def batchesOk_def)
  from flushBatch_ok [OF fold_planCall_inv [OF this, of calls]] show ?thesis by (simp add: planBatches_def)
qed

text \<open>
  C32: The batches of a round are the round's calls in their original order. A serial batch is one call
  that is not a plain bounded read; the calls of a parallel batch are all bounded reads, at most
  maxParallel of them (one, when the limit is below one), and none writes what another reads or writes;
  and no batch is closed early: two parallel batches that follow each other are apart because the first
  was full or conflicts with the first call of the second.
\<close>

theorem batches_sound_and_maximal: "batchesOk n calls (planBatches calls n)"
  by (rule planBatches_ok)

subsection \<open>The engine's contract with a planner\<close>

locale call_planner =
  fixes plan :: "toolCall list \<Rightarrow> string list list"
  assumes once: "mset (concat (plan calls)) = mset (map tcCallId calls)"
begin

definition planned :: "'w turnEnv \<Rightarrow> 'w turnEnv" where
  "planned env = env\<lparr>envPlanBatches := Some (\<lambda>calls w. (Inr (plan calls), w))\<rparr>"

lemma covers: "planCovers (planned env)"
  by (simp add: planCovers_def planned_def once)

lemma requests_paired:
  assumes "contextKeeps env" and "owes [] (rtHistory input)" and "owes calls (rtHistory resumed)"
  shows "pairedRequests (traceOf (runTurn (planned env) input w)) \<and>
    pairedRequests (traceOf (resumeTurn (planned env) resumed tid calls w))"
  by (rule turns_paired [OF _ covers assms(2,3)]) (use assms(1) in \<open>simp add: planned_def contextKeeps_def\<close>)

end

lemma wiredPlan_ids: "concat (wiredPlan tools calls) = map tcCallId calls"
proof -
  have ids: "pcCallId (plannedOf tools c) = tcCallId c" for c
    by (auto simp: plannedOf_def conservativeCall_def split: option.splits)
  have "concat (wiredPlan tools calls) = map pcCallId (concat (map baCalls (planBatches (map (plannedOf tools) calls) 8)))"
    by (simp add: wiredPlan_def map_concat comp_def)
  also have "\<dots> = map pcCallId (map (plannedOf tools) calls)"
    using planBatches_ok [of 8 "map (plannedOf tools) calls"] by (simp add: batchesOk_def)
  finally show ?thesis by (simp add: ids comp_def)
qed

interpretation wired: call_planner "wiredPlan tools" for tools :: "'i toolRegistry"
  by unfold_locales (simp add: wiredPlan_ids)

text \<open>
  C4: Take the scheduler as the application wires it, no context manager or one that leaves every call
  with its result, and a history in which every call has its output (for a resumed turn, every call but
  the pending ones). Then every call of the provider, retries included, shows it a conversation in which
  each function call has exactly one output and each output its call, whether the calls ran
  serially or in parallel, were denied, blocked by a hook, skipped by the recovery guard or executed.
\<close>

theorem turn_requests_paired:
  assumes "contextKeeps env" and "owes [] (rtHistory input)" and "owes calls (rtHistory resumed)"
  shows "pairedRequests (traceOf (runTurn (env\<lparr>envPlanBatches := Some (\<lambda>calls w. (Inr (wiredPlan tools calls), w))\<rparr>) input w)) \<and>
    pairedRequests (traceOf (resumeTurn (env\<lparr>envPlanBatches := Some (\<lambda>calls w. (Inr (wiredPlan tools calls), w))\<rparr>)
      resumed tid calls w))"
  using wired.requests_paired [OF assms] unfolding wired.planned_def .

end
