(* ===== verification/Context_Budget.thy ===== *)
theory Context_Budget
  imports Turn_Effects "HOL-Library.Word"
begin

unbundle bit_operations_syntax

text \<open>
  \<^verbatim>\<open>packages/context/src/budget.ts\<close>, \<^verbatim>\<open>hash.ts\<close>, \<^verbatim>\<open>refs.ts\<close> and \<^verbatim>\<open>reduction.ts\<close>: measuring a
  conversation, and the cheap reduction before a compaction: large tool results are replaced by a
  preview and a reference, plain messages in the middle are dropped, and on demand the oldest pairs of
  a call and its result. The conversation is the one of the turn engine (\<^typ>\<open>inputItem\<close>).

  Fractions are rational numbers: the products with the doubles 0.15 and 0.85 are taken exactly. The two
  characters of the markers that lie above U+00FF, the ellipsis and the dash, are represented by one
  code unit each (their bytes in the Windows code page); no code looks at them.
\<close>

subsection \<open>Measuring\<close>

type_synonym tokenEstimator = "string \<Rightarrow> nat"

definition DEFAULT_CHARS_PER_TOKEN :: nat where
  "DEFAULT_CHARS_PER_TOKEN = 4"

definition defaultTokenEstimator :: tokenEstimator where
  "defaultTokenEstimator txt = (length txt + (DEFAULT_CHARS_PER_TOKEN - 1)) div DEFAULT_CHARS_PER_TOKEN"

definition DEFAULT_RESERVE_FRACTION :: rat where
  "DEFAULT_RESERVE_FRACTION = 15 / 100"

definition PROACTIVE_THRESHOLD_FRACTION :: rat where
  "PROACTIVE_THRESHOLD_FRACTION = 85 / 100"

fun serializeInputItem :: "inputItem \<Rightarrow> string" where
  "serializeInputItem (MessageItem user txt) = (if user then ''user'' else ''assistant'') @ '': '' @ txt"
| "serializeInputItem (FunctionCall callId name args) = ''call '' @ name @ '' '' @ callId @ '' '' @ args"
| "serializeInputItem (FunctionOutput callId name out) = ''output '' @ name @ '' '' @ callId @ '' '' @ out"

definition estimateItems :: "tokenEstimator \<Rightarrow> inputItem list \<Rightarrow> nat" where
  "estimateItems estimate items = foldl (\<lambda>total item. total + estimate (serializeInputItem item)) 0 items"

record budgetInput =
  biContextWindow :: nat
  biItems :: "inputItem list"
  biReserveFraction :: "rat option"
  biEstimate :: "tokenEstimator option"
  biFixedOverhead :: "nat option"

text \<open>\<^verbatim>\<open>utilization\<close> is None where the code has Infinity.\<close>

record budgetBreakdown =
  bbContextWindow :: nat
  bbReserveFraction :: rat
  bbReservedTokens :: nat
  bbUsable :: nat
  bbFixedOverhead :: nat
  bbUsed :: nat
  bbAvailable :: nat
  bbUtilization :: "rat option"
  bbProactiveThreshold :: rat
  bbProactiveLimit :: nat
  bbOverThreshold :: bool
  bbOverCapacity :: bool

definition orElse :: "'a option \<Rightarrow> 'a \<Rightarrow> 'a" where
  "orElse x d = (case x of None \<Rightarrow> d | Some y \<Rightarrow> y)"

lemma orElse_simps [simp]: "orElse None d = d" "orElse (Some x) d = x"
  by (simp_all add: orElse_def)

definition roundRat :: "rat \<Rightarrow> int" where
  "roundRat x = \<lfloor>x + 1 / 2\<rfloor>"

definition computeBudget :: "budgetInput \<Rightarrow> budgetBreakdown" where
  "computeBudget b =
     (let reserve = orElse (biReserveFraction b) DEFAULT_RESERVE_FRACTION;
          estimate = orElse (biEstimate b) defaultTokenEstimator;
          overhead = orElse (biFixedOverhead b) 0;
          window = biContextWindow b;
          reserved = nat (roundRat (of_nat window * reserve));
          usable = window - reserved;
          used = estimateItems estimate (biItems b) + overhead;
          limit = nat \<lfloor>of_nat usable * PROACTIVE_THRESHOLD_FRACTION\<rfloor>
      in \<lparr>bbContextWindow = window, bbReserveFraction = reserve, bbReservedTokens = reserved,
          bbUsable = usable, bbFixedOverhead = overhead, bbUsed = used, bbAvailable = usable - used,
          bbUtilization = (if usable = 0 then None else Some (of_nat used / of_nat usable)),
          bbProactiveThreshold = PROACTIVE_THRESHOLD_FRACTION, bbProactiveLimit = limit,
          bbOverThreshold = (limit \<le> used), bbOverCapacity = (usable < used)\<rparr>)"

subsection \<open>The content digest\<close>

fun hexStr :: "nat \<Rightarrow> string" where
  "hexStr n = (if n < 16 then [hexDigit n] else hexStr (n div 16) @ [hexDigit (n mod 16)])"

declare hexStr.simps [simp del]

definition padStart :: "nat \<Rightarrow> char \<Rightarrow> string \<Rightarrow> string" where
  "padStart n c s = replicate (n - length s) c @ s"

definition mixStep :: "char \<Rightarrow> 32 word \<times> 32 word \<Rightarrow> 32 word \<times> 32 word" where
  "mixStep c h = (let ch = of_nat (of_char c) in
     ((fst h XOR ch) * 2654435761, (snd h XOR ch) * 1597334677))"

definition stableHash :: "string \<Rightarrow> string" where
  "stableHash input =
     (let (h1, h2) = fold mixStep input (0xdeadbeef, 0x41c6ce57);
          h1 = (h1 XOR drop_bit 16 h1) * 2246822507;
          h1 = h1 XOR ((h2 XOR drop_bit 13 h2) * 3266489909);
          h2 = (h2 XOR drop_bit 16 h2) * 2246822507;
          h2 = h2 XOR ((h1 XOR drop_bit 13 h1) * 3266489909);
          n = 4294967296 * unat (2097151 AND h2) + unat h1
      in padStart 14 (CHR ''0'') (hexStr n))"

subsection \<open>References to offloaded results\<close>

datatype contextRefKind = Rk_tool_result | Rk_transcript

record contextRef =
  crRef :: string
  crKind :: contextRefKind
  crChars :: nat
  crEstimatedTokens :: nat
  crPreview :: string
  crPreviewTruncated :: bool

record refPreviewOptions =
  rpHeadChars :: "nat option"
  rpTailChars :: "nat option"

definition DEFAULT_HEAD :: nat where "DEFAULT_HEAD = 512"

definition DEFAULT_TAIL :: nat where "DEFAULT_TAIL = 512"

definition ELLIPSIS :: char where "ELLIPSIS = CHR 0x85"

definition EM_DASH :: char where "EM_DASH = CHR 0x97"

definition boundedPreview :: "string \<Rightarrow> refPreviewOptions \<Rightarrow> string \<times> bool" where
  "boundedPreview txt opts =
     (let headN = orElse (rpHeadChars opts) DEFAULT_HEAD; tailN = orElse (rpTailChars opts) DEFAULT_TAIL in
      if length txt \<le> headN + tailN then (txt, False)
      else
        (take headN txt @ [CHR 0x0A, ELLIPSIS] @ ''[offloaded '' @ natStr (length txt - headN - tailN)
           @ '' chars]'' @ [ELLIPSIS, CHR 0x0A] @ drop (length txt - tailN) txt, True))"

definition makeContextRef ::
  "string \<Rightarrow> string \<Rightarrow> contextRefKind \<Rightarrow> refPreviewOptions \<Rightarrow> tokenEstimator \<Rightarrow> contextRef" where
  "makeContextRef refId txt kind opts estimate =
     \<lparr>crRef = refId, crKind = kind, crChars = length txt, crEstimatedTokens = estimate txt,
      crPreview = fst (boundedPreview txt opts), crPreviewTruncated = snd (boundedPreview txt opts)\<rparr>"

definition renderOffloaded :: "contextRef \<Rightarrow> string" where
  "renderOffloaded r = crPreview r @ [CHR 0x0A] @ ''[full result offloaded '' @ [EM_DASH] @ '' ref='' @ crRef r
     @ '', '' @ natStr (crChars r) @ '' chars]''"

subsection \<open>Reduction\<close>

fun pairingGo :: "string list \<Rightarrow> inputItem list \<Rightarrow> bool" where
  "pairingGo seen [] = True"
| "pairingGo seen (FunctionCall callId name args # items) = pairingGo (callId # seen) items"
| "pairingGo seen (FunctionOutput callId name out # items) = (callId \<in> set seen \<and> pairingGo seen items)"
| "pairingGo seen (MessageItem user txt # items) = pairingGo seen items"

definition isPairingIntact :: "inputItem list \<Rightarrow> bool" where
  "isPairingIntact items = pairingGo [] items"

text \<open>
  \<^verbatim>\<open>makeRefId\<close> writes the payload to the blob store, so it acts on a state \<^typ>\<open>'s\<close>.
\<close>

record 's reductionOptions =
  roEstimate :: "tokenEstimator option"
  roMakeRefId :: "inputItem \<Rightarrow> nat \<Rightarrow> 's \<Rightarrow> string \<times> 's"
  roThreshold :: "nat option"
  roPreserveRecent :: "nat option"
  roPreview :: refPreviewOptions
  roTarget :: "nat option"

record reductionResult =
  rdItems :: "inputItem list"
  rdRefs :: "contextRef list"
  rdOffloaded :: nat
  rdPruned :: nat
  rdDroppedPairs :: nat
  rdTokensBefore :: nat
  rdTokensAfter :: nat
  rdPairingIntact :: bool

definition estimatorOf :: "'s reductionOptions \<Rightarrow> tokenEstimator" where
  "estimatorOf opts = orElse (roEstimate opts) defaultTokenEstimator"

definition offloads :: "'s reductionOptions \<Rightarrow> nat \<Rightarrow> nat \<Rightarrow> inputItem \<Rightarrow> bool" where
  "offloads opts recentStart i item =
     (i < recentStart \<and>
      (case item of FunctionOutput callId name out \<Rightarrow> orElse (roThreshold opts) 2048 < length out | _ \<Rightarrow> False))"

definition offloadItem :: "'s reductionOptions \<Rightarrow> nat \<Rightarrow> inputItem \<Rightarrow> 's \<Rightarrow> (inputItem \<times> contextRef list) \<times> 's" where
  "offloadItem opts i item s =
     (case item of
        FunctionOutput callId name out \<Rightarrow>
          (let (refId, s1) = roMakeRefId opts item i s;
               ref = makeContextRef refId out Rk_tool_result (roPreview opts) (estimatorOf opts)
           in ((FunctionOutput callId name (renderOffloaded ref), [ref]), s1))
      | _ \<Rightarrow> ((item, []), s))"

fun offloadAll ::
  "'s reductionOptions \<Rightarrow> nat \<Rightarrow> nat \<Rightarrow> inputItem list \<Rightarrow> 's \<Rightarrow> (inputItem list \<times> contextRef list) \<times> 's" where
  "offloadAll opts recentStart i [] s = (([], []), s)"
| "offloadAll opts recentStart i (item # items) s =
     (let ((item', refs), s1) =
            (if offloads opts recentStart i item then offloadItem opts i item s else ((item, []), s));
          ((items', refs'), s2) = offloadAll opts recentStart (i + 1) items s1
      in ((item' # items', refs @ refs'), s2))"

fun isMessage :: "inputItem \<Rightarrow> bool" where
  "isMessage (MessageItem user txt) = True"
| "isMessage _ = False"

definition prunable :: "nat \<Rightarrow> nat \<times> inputItem \<Rightarrow> bool" where
  "prunable recentStart x = (0 < fst x \<and> fst x < recentStart \<and> isMessage (snd x))"

text \<open>The complete pairs, in the order of their results; a call of a used id replaces the earlier one.\<close>

fun completePairs :: "(string \<Rightarrow> nat option) \<Rightarrow> (nat \<times> inputItem) list \<Rightarrow> (nat \<times> nat) list" where
  "completePairs calls [] = []"
| "completePairs calls ((i, FunctionCall callId name args) # items) = completePairs (calls(callId \<mapsto> i)) items"
| "completePairs calls ((i, FunctionOutput callId name out) # items) =
     (case calls callId of
        None \<Rightarrow> completePairs calls items
      | Some ci \<Rightarrow> (ci, i) # completePairs calls items)"
| "completePairs calls ((i, MessageItem user txt) # items) = completePairs calls items"

definition surviving :: "inputItem list \<Rightarrow> nat list \<Rightarrow> inputItem list" where
  "surviving items remove = map snd (filter (\<lambda>x. fst x \<notin> set remove) (enumerate 0 items))"

fun dropPairs :: "inputItem list \<Rightarrow> nat \<Rightarrow> tokenEstimator \<Rightarrow> (nat \<times> nat) list \<Rightarrow> nat list \<Rightarrow> nat \<Rightarrow> nat list \<times> nat" where
  "dropPairs items target estimate [] remove dropped = (remove, dropped)"
| "dropPairs items target estimate ((c, r) # pairs) remove dropped =
     (if estimateItems estimate (surviving items remove) \<le> target then (remove, dropped)
      else dropPairs items target estimate pairs (remove @ [c, r]) (dropped + 1))"

definition dropOldestPairsUntil :: "inputItem list \<Rightarrow> nat \<Rightarrow> nat \<Rightarrow> tokenEstimator \<Rightarrow> inputItem list \<times> nat" where
  "dropOldestPairsUntil items target recentStart estimate =
     (let pairs = filter (\<lambda>p. fst p < recentStart \<and> snd p < recentStart)
            (completePairs (\<lambda>_. None) (enumerate 0 items));
          (remove, dropped) = dropPairs items target estimate pairs [] 0
      in (surviving items remove, dropped))"

definition reduceContext :: "inputItem list \<Rightarrow> 's reductionOptions \<Rightarrow> 's \<Rightarrow> reductionResult \<times> 's" where
  "reduceContext items opts s =
     (let estimate = estimatorOf opts;
          recentStart = length items - orElse (roPreserveRecent opts) 4;
          ((offloaded, refs), s1) = offloadAll opts recentStart 0 items s;
          (middle, kept) = partition (prunable recentStart) (enumerate 0 offloaded);
          pruned = map snd kept;
          (working, dropped) =
            (case roTarget opts of
               None \<Rightarrow> (pruned, 0)
             | Some target \<Rightarrow> dropOldestPairsUntil pruned target recentStart estimate)
      in (\<lparr>rdItems = working, rdRefs = refs, rdOffloaded = length refs, rdPruned = length middle,
           rdDroppedPairs = dropped, rdTokensBefore = estimateItems estimate items,
           rdTokensAfter = estimateItems estimate working, rdPairingIntact = isPairingIntact working\<rparr>, s1))"

end
