(* ===== verification/Event_Store.thy ===== *)
theory Event_Store
  imports Protocol_Events Event_Log
begin

text \<open>
  \<^verbatim>\<open>packages/storage/src/event-store.ts\<close>: the append-only event log with its projections
  (threads, turns, items and the side-effect ledger), each table a list of rows in insertion order.
  The body of a SQLite transaction is a function on the store that may fail half way;
  \<^verbatim>\<open>transaction\<close> rolls back. Parameters stand for what the store is handed: the redactor, the
  verdict of the zod schema, the clock and the id source; and for the one thing SQL leaves open, the
  row that \<^verbatim>\<open>ORDER BY created_at DESC LIMIT 1\<close> picks among rows of equal time (the argument
  \<^verbatim>\<open>tie\<close>, given the ids of these rows).
\<close>

subsection \<open>Tables\<close>

record threadRow =
  thId :: string
  thName :: "string option"
  thCreatedAt :: int
  thUpdatedAt :: int
  thCanonicalRepo :: "string option"
  thCwd :: string
  thProfile :: permissionProfile
  thArchived :: bool
  thForkedFrom :: "(string \<times> nat) option"
  thLastSeq :: nat

record turnRow =
  tuId :: string
  tuThreadId :: string
  tuSeq :: nat
  tuState :: turnState
  tuReason :: "terminationReason option"
  tuStartedAt :: int
  tuEndedAt :: "int option"
  tuProfile :: permissionProfile

record itemRow =
  irId :: string
  irThreadId :: string
  irTurnId :: string
  irSeq :: nat
  irData :: itemBody
  irCreatedAt :: int

record effectRow =
  erId :: string
  erThreadId :: string
  erTurnId :: string
  erKey :: string
  erKind :: sideEffectKind
  erDestructive :: bool
  erAction :: string
  erState :: sideEffectState
  erDigest :: "string option"
  erCreatedAt :: int
  erSettledAt :: "int option"

record storeProjection =
  spThreads :: "threadRow list"
  spTurns :: "turnRow list"
  spItems :: "itemRow list"
  spEffects :: "effectRow list"

record eventStore =
  storeLog :: "harnessEvent list"
  storeProj :: storeProjection
  storeBlobs :: "(string \<times> string) list"

definition noRows :: storeProjection where
  "noRows = \<lparr>spThreads = [], spTurns = [], spItems = [], spEffects = []\<rparr>"

definition freshStore :: eventStore where
  "freshStore = \<lparr>storeLog = [], storeProj = noRows, storeBlobs = []\<rparr>"

text \<open>INSERT fails on a used primary key; UPDATE touches the rows with the key.\<close>

definition insertRow :: "('r \<Rightarrow> string) \<Rightarrow> 'r \<Rightarrow> 'r list \<Rightarrow> 'r list option" where
  [task_defs]: "insertRow key r rows = (if list_ex (\<lambda>x. key x = key r) rows then None else Some (rows @ [r]))"

definition updateRows :: "('r \<Rightarrow> string) \<Rightarrow> string option \<Rightarrow> ('r \<Rightarrow> 'r) \<Rightarrow> 'r list \<Rightarrow> 'r list" where
  [task_defs]: "updateRows key i f rows = map (\<lambda>r. if Some (key r) = i then f r else r) rows"

subsection \<open>The projection of one event\<close>

text \<open>An item row keeps everything but data and type when its id is inserted again.\<close>

definition upsertItem :: "item \<Rightarrow> itemRow list \<Rightarrow> itemRow list" where
  "upsertItem i rows =
     (if list_ex (\<lambda>r. irId r = itId i) rows
      then map (\<lambda>r. if irId r = itId i then r\<lparr>irData := itBody i\<rparr> else r) rows
      else rows @ [\<lparr>irId = itId i, irThreadId = itThreadId i, irTurnId = itTurnId i, irSeq = itSeq i,
                    irData = itBody i, irCreatedAt = itCreatedAt i\<rparr>])"

definition touchThread :: "harnessEvent \<Rightarrow> storeProjection \<Rightarrow> storeProjection" where
  "touchThread e p = p\<lparr>spThreads := updateRows thId (Some (evThreadId e))
     (\<lambda>r. r\<lparr>thLastSeq := evSeq e, thUpdatedAt := evTimestamp e\<rparr>) (spThreads p)\<rparr>"

definition insertTurn :: "harnessEvent \<Rightarrow> storeProjection \<Rightarrow> storeProjection option" where
  "insertTurn e p =
     (case evTurnId e of
        None \<Rightarrow> None
      | Some t \<Rightarrow> map_option (\<lambda>rows. p\<lparr>spTurns := rows\<rparr>)
          (insertRow tuId \<lparr>tuId = t, tuThreadId = evThreadId e, tuSeq = evSeq e, tuState = S_preparing,
             tuReason = None, tuStartedAt = evTimestamp e, tuEndedAt = None,
             tuProfile = evPermissionProfile e\<rparr> (spTurns p)))"

definition insertEffect :: "harnessEvent \<Rightarrow> sideEffectIntent \<Rightarrow> storeProjection \<Rightarrow> storeProjection option" where
  "insertEffect e intent p =
     (case evTurnId e of
        None \<Rightarrow> None
      | Some t \<Rightarrow> map_option (\<lambda>rows. p\<lparr>spEffects := rows\<rparr>)
          (insertRow erId \<lparr>erId = siSideEffectId intent, erThreadId = evThreadId e, erTurnId = t,
             erKey = siIdempotencyKey intent, erKind = siKind intent, erDestructive = siDestructive intent,
             erAction = siNormalizedAction intent, erState = E_not_started, erDigest = None,
             erCreatedAt = evTimestamp e, erSettledAt = None\<rparr> (spEffects p)))"

fun projectPayload :: "eventPayload \<Rightarrow> harnessEvent \<Rightarrow> storeProjection \<Rightarrow> storeProjection option" where
  "projectPayload (ThreadForked from at) e p = Some (p\<lparr>spThreads :=
     updateRows thId (Some (evThreadId e)) (\<lambda>r. r\<lparr>thForkedFrom := Some (from, at)\<rparr>) (spThreads p)\<rparr>)"
| "projectPayload (ThreadRenamed name) e p = Some (p\<lparr>spThreads :=
     updateRows thId (Some (evThreadId e)) (\<lambda>r. r\<lparr>thName := Some name\<rparr>) (spThreads p)\<rparr>)"
| "projectPayload ThreadArchived e p = Some (p\<lparr>spThreads :=
     updateRows thId (Some (evThreadId e)) (\<lambda>r. r\<lparr>thArchived := True\<rparr>) (spThreads p)\<rparr>)"
| "projectPayload (CwdChanged from to) e p = Some (p\<lparr>spThreads :=
     updateRows thId (Some (evThreadId e)) (\<lambda>r. r\<lparr>thCwd := to\<rparr>) (spThreads p)\<rparr>)"
| "projectPayload (TurnStarted txt) e p = insertTurn e p"
| "projectPayload (TurnStateChanged from to) e p = Some (p\<lparr>spTurns :=
     updateRows tuId (evTurnId e) (\<lambda>r. r\<lparr>tuState := to\<rparr>) (spTurns p)\<rparr>)"
| "projectPayload (TurnEnded s reason) e p = Some (p\<lparr>spTurns :=
     updateRows tuId (evTurnId e)
       (\<lambda>r. r\<lparr>tuState := s, tuReason := Some reason, tuEndedAt := Some (evTimestamp e)\<rparr>) (spTurns p)\<rparr>)"
| "projectPayload (ItemAppended i) e p = Some (p\<lparr>spItems := upsertItem i (spItems p)\<rparr>)"
| "projectPayload (ItemUpdated i) e p = Some (p\<lparr>spItems := upsertItem i (spItems p)\<rparr>)"
| "projectPayload (SideEffectIntended intent) e p = insertEffect e intent p"
| "projectPayload (SideEffectStarted sid) e p = Some (p\<lparr>spEffects :=
     updateRows erId (Some sid) (\<lambda>r. r\<lparr>erState := E_in_flight\<rparr>) (spEffects p)\<rparr>)"
| "projectPayload (SideEffectSettled sid s digest) e p = Some (p\<lparr>spEffects :=
     updateRows erId (Some sid)
       (\<lambda>r. r\<lparr>erState := s, erDigest := digest, erSettledAt := Some (evTimestamp e)\<rparr>) (spEffects p)\<rparr>)"
| "projectPayload _ e p = Some p"

definition projectStore :: "harnessEvent \<Rightarrow> storeProjection \<Rightarrow> storeProjection option" where
  "projectStore e p =
     (case evPayload e of
        ThreadCreated cwd repo name \<Rightarrow>
          map_option (\<lambda>rows. p\<lparr>spThreads := rows\<rparr>)
            (insertRow thId \<lparr>thId = evThreadId e, thName = name, thCreatedAt = evTimestamp e,
               thUpdatedAt = evTimestamp e, thCanonicalRepo = repo, thCwd = cwd,
               thProfile = evPermissionProfile e, thArchived = False, thForkedFrom = None,
               thLastSeq = evSeq e\<rparr> (spThreads p))
      | payload \<Rightarrow> map_option (touchThread e) (projectPayload payload e p))"

subsection \<open>Appending\<close>

datatype failureBoundary =
    Fb_before_event_insert | Fb_after_event_insert_before_projection | Fb_after_projection_before_commit

record storeOptions =
  soRedact :: "eventPayload \<Rightarrow> eventPayload"
  soRedactText :: "string \<Rightarrow> string"
  soSchemaOk :: "harnessEvent \<Rightarrow> bool"
  soFailAt :: "failureBoundary option"

datatype storeFailure = Sf_injected failureBoundary | Sf_schema | Sf_constraint

definition transaction ::
  "(eventStore \<Rightarrow> (storeFailure + 'a) \<times> eventStore) \<Rightarrow> eventStore \<Rightarrow> (storeFailure + 'a) \<times> eventStore" where
  "transaction body s = (case body s of (Inl e, _) \<Rightarrow> (Inl e, s) | (Inr x, s') \<Rightarrow> (Inr x, s'))"

definition threadSeqs :: "string \<Rightarrow> harnessEvent list \<Rightarrow> nat list" where
  "threadSeqs t log = map evSeq (filter (\<lambda>e. evThreadId e = t) log)"

definition nextSeq :: "string \<Rightarrow> eventStore \<Rightarrow> nat" where
  "nextSeq t s = foldr (\<lambda>n m. max (n + 1) m) (threadSeqs t (storeLog s)) 0"

definition envelope :: "storeOptions \<Rightarrow> int \<Rightarrow> string \<Rightarrow> appendInput \<Rightarrow> nat \<Rightarrow> harnessEvent" where
  "envelope opts now eid input seq = \<lparr>evId = eid, evSchemaVersion = SCHEMA_VERSION, evSeq = seq,
     evTimestamp = now, evThreadId = aiThreadId input, evTurnId = aiTurnId input,
     evItemId = aiItemId input, evActor = aiActor input, evCorrelationId = aiCorrelationId input,
     evPermissionProfile = aiPermissionProfile input, evPayload = soRedact opts (aiPayload input)\<rparr>"

text \<open>The log's own constraints: unique event ids, unique sequence numbers in a thread.\<close>

definition insertEvent :: "harnessEvent \<Rightarrow> eventStore \<Rightarrow> eventStore option" where
  "insertEvent e s =
     (if list_ex (\<lambda>x. evId x = evId e \<or> (evThreadId x = evThreadId e \<and> evSeq x = evSeq e)) (storeLog s)
      then None else Some (s\<lparr>storeLog := storeLog s @ [e]\<rparr>))"

definition appendBody ::
  "storeOptions \<Rightarrow> int \<Rightarrow> string \<Rightarrow> appendInput \<Rightarrow> eventStore \<Rightarrow> (storeFailure + harnessEvent) \<times> eventStore" where
  "appendBody opts now eid input s =
     (let event = envelope opts now eid input (nextSeq (aiThreadId input) s) in
      if \<not> soSchemaOk opts event then (Inl Sf_schema, s)
      else if soFailAt opts = Some Fb_before_event_insert then (Inl (Sf_injected Fb_before_event_insert), s)
      else case insertEvent event s of
        None \<Rightarrow> (Inl Sf_constraint, s)
      | Some s1 \<Rightarrow>
          if soFailAt opts = Some Fb_after_event_insert_before_projection
          then (Inl (Sf_injected Fb_after_event_insert_before_projection), s1)
          else case projectStore event (storeProj s1) of
            None \<Rightarrow> (Inl Sf_constraint, s1)
          | Some p \<Rightarrow>
              let s2 = s1\<lparr>storeProj := p\<rparr> in
              if soFailAt opts = Some Fb_after_projection_before_commit
              then (Inl (Sf_injected Fb_after_projection_before_commit), s2)
              else (Inr event, s2))"

definition appendEvent ::
  "storeOptions \<Rightarrow> int \<Rightarrow> string \<Rightarrow> appendInput \<Rightarrow> eventStore \<Rightarrow> (storeFailure + harnessEvent) \<times> eventStore" where
  "appendEvent opts now eid input s = transaction (appendBody opts now eid input) s"

subsection \<open>Rebuilding and reading\<close>

text \<open>Rows keep the kind and id of an actor, not its label.\<close>

definition rowToEvent :: "harnessEvent \<Rightarrow> harnessEvent" where
  "rowToEvent e = e\<lparr>evActor := (evActor e)\<lparr>actorLabel := None\<rparr>\<rparr>"

definition readAll :: "eventStore \<Rightarrow> harnessEvent list" where
  "readAll s = map rowToEvent (storeLog s)"

definition readThread :: "string \<Rightarrow> nat \<Rightarrow> eventStore \<Rightarrow> harnessEvent list" where
  "readThread t fromSeq s =
     map rowToEvent (sort_key evSeq (filter (\<lambda>e. evThreadId e = t \<and> evSeq e \<ge> fromSeq) (storeLog s)))"

definition rebuildProjections :: "eventStore \<Rightarrow> (storeFailure + nat) \<times> eventStore" where
  "rebuildProjections s =
     (let events = readAll s in
      case replay projectStore events noRows of
        None \<Rightarrow> (Inl Sf_constraint, s)
      | Some p \<Rightarrow> (Inr (length events), s\<lparr>storeProj := p\<rparr>))"

definition getThread :: "string \<Rightarrow> eventStore \<Rightarrow> threadRow option" where
  "getThread t s = find (\<lambda>r. thId r = t) (spThreads (storeProj s))"

definition listThreads :: "bool \<Rightarrow> eventStore \<Rightarrow> threadRow list" where
  "listThreads includeArchived s =
     List.map_filter (\<lambda>r. getThread (thId r) s)
       (sort_key (\<lambda>r. - thUpdatedAt r)
         (filter (\<lambda>r. includeArchived \<or> \<not> thArchived r) (spThreads (storeProj s))))"

definition pruneThreads :: "int \<Rightarrow> int \<Rightarrow> eventStore \<Rightarrow> (nat \<times> nat) \<times> eventStore" where
  "pruneThreads olderThanMs now s =
     (let p = storeProj s;
          stale = map thId (filter (\<lambda>r. thUpdatedAt r < now - olderThanMs) (spThreads p));
          keep = (\<lambda>t. t \<notin> set stale)
      in ((length stale, length (filter (\<lambda>e. \<not> keep (evThreadId e)) (storeLog s))),
          s\<lparr>storeLog := filter (\<lambda>e. keep (evThreadId e)) (storeLog s),
            storeProj := \<lparr>spThreads = filter (\<lambda>r. keep (thId r)) (spThreads p),
              spTurns = filter (\<lambda>r. keep (tuThreadId r)) (spTurns p),
              spItems = filter (\<lambda>r. keep (irThreadId r)) (spItems p),
              spEffects = filter (\<lambda>r. keep (erThreadId r)) (spEffects p)\<rparr>\<rparr>))"

definition putBlob :: "storeOptions \<Rightarrow> string \<Rightarrow> string \<Rightarrow> eventStore \<Rightarrow> eventStore" where
  "putBlob opts digest content s =
     (if map_of (storeBlobs s) digest \<noteq> None then s
      else s\<lparr>storeBlobs := storeBlobs s @ [(digest, soRedactText opts content)]\<rparr>)"

definition readBlob :: "string \<Rightarrow> eventStore \<Rightarrow> string option" where
  "readBlob digest s = map_of (storeBlobs s) digest"

subsection \<open>The side-effect ledger\<close>

definition newestRows :: "string \<Rightarrow> effectRow list \<Rightarrow> effectRow list" where
  "newestRows key rows =
     (let own = filter (\<lambda>r. erKey r = key) rows in
      filter (\<lambda>r. list_all (\<lambda>x. erCreatedAt x \<le> erCreatedAt r) own) own)"

definition ledgerState :: "(string list \<Rightarrow> nat) \<Rightarrow> string \<Rightarrow> eventStore \<Rightarrow> sideEffectState option" where
  "ledgerState tie key s =
     (case newestRows key (spEffects (storeProj s)) of
        [] \<Rightarrow> None
      | rows \<Rightarrow> Some (erState (rows ! tie (map erId rows))))"

definition mayExecute :: "(string list \<Rightarrow> nat) \<Rightarrow> string \<Rightarrow> eventStore \<Rightarrow> bool \<times> string" where
  "mayExecute tie key s =
     (case ledgerState tie key s of
        None \<Rightarrow> (True, ''no prior execution recorded'')
      | Some E_not_started \<Rightarrow> (True, ''no prior execution recorded'')
      | Some E_known_failed \<Rightarrow> (True, ''prior attempt is known to have failed; safe to retry'')
      | Some E_known_complete \<Rightarrow> (False, ''already completed; re-running would duplicate the side effect'')
      | Some E_in_flight \<Rightarrow>
          (False, ''outcome is indeterminate after interruption; requires inspection, never blind replay'')
      | Some E_indeterminate \<Rightarrow>
          (False, ''outcome is indeterminate after interruption; requires inspection, never blind replay''))"

definition promote :: "effectRow \<Rightarrow> effectRow" where
  "promote r = (if erState r = E_in_flight then r\<lparr>erState := E_indeterminate\<rparr> else r)"

definition recoverInterrupted :: "eventStore \<Rightarrow> nat \<times> eventStore" where
  "recoverInterrupted s =
     (let rows = spEffects (storeProj s) in
      (length (filter (\<lambda>r. erState r = E_in_flight) rows),
       s\<lparr>storeProj := (storeProj s)\<lparr>spEffects := map promote rows\<rparr>\<rparr>))"

definition listIndeterminate :: "string \<Rightarrow> eventStore \<Rightarrow> (string \<times> string \<times> bool) list" where
  "listIndeterminate t s =
     map (\<lambda>r. (erId r, erAction r, erDestructive r))
       (filter (\<lambda>r. erThreadId r = t \<and> erState r = E_indeterminate) (spEffects (storeProj s)))"

end
