(* ===== verification/Context_Compaction.thy ===== *)
theory Context_Compaction
  imports Context_Budget Event_Store
begin

text \<open>
  \<^verbatim>\<open>packages/context/src/compaction.ts\<close>, \<^verbatim>\<open>commands.ts\<close> and \<^verbatim>\<open>storage-boundary.ts\<close>: replacing a span
  of the conversation by a summary, after its boundary was made durable; the validation of what the
  summarizer returns; and the guard against compactions that free too little. The summarizer is a
  parameter: it may throw, and what it returns is an untyped value that is validated.
\<close>

subsection \<open>Data\<close>

datatype contextExn =
    Cx_store storeFailure
  | Cx_summarizer string
  | Cx_invalid_summary

type_synonym ('s, 'a) cx = "'s \<Rightarrow> (contextExn + 'a) \<times> 's"

definition bindC :: "('s, 'a) cx \<Rightarrow> ('a \<Rightarrow> ('s, 'b) cx) \<Rightarrow> ('s, 'b) cx" where
  "bindC m f s = (case m s of (Inl e, s') \<Rightarrow> (Inl e, s') | (Inr x, s') \<Rightarrow> f x s')"

definition returnC :: "'a \<Rightarrow> ('s, 'a) cx" where
  "returnC x s = (Inr x, s)"

record preservedContext =
  pcGoal :: string
  pcConstraints :: "string list"
  pcPlan :: "string list"
  pcTasks :: "string list"
  pcActiveFiles :: "string list"
  pcDecisions :: "string list"
  pcErrors :: "string list"
  pcObligations :: "string list"

record summaryDraft =
  sdProse :: string
  sdPreserved :: preservedContext

definition PRESERVED_FIELDS :: "string list" where
  "PRESERVED_FIELDS = [''goal'', ''constraints'', ''plan'', ''tasks'', ''activeFiles'', ''decisions'',
     ''errors'', ''obligations'']"

record summarizerInput =
  suItems :: "inputItem list"
  suBoundaryRef :: string
  suFocus :: "string option"

type_synonym 's summarizer = "summarizerInput \<Rightarrow> ('s, jsValue) cx"

record transcriptBoundary =
  tbItems :: "inputItem list"
  tbDigest :: string
  tbItemCount :: nat
  tbTokensBefore :: nat
  tbTrigger :: compactionTrigger

type_synonym 's boundaryStore = "transcriptBoundary \<Rightarrow> ('s, string) cx"

subsection \<open>Validation of a draft\<close>

fun stringOf :: "jsValue option \<Rightarrow> string option" where
  "stringOf (Some (JsStr s)) = Some s"
| "stringOf _ = None"

fun stringsOf :: "jsValue list \<Rightarrow> string list option" where
  "stringsOf [] = Some []"
| "stringsOf (v # vs) =
     (case (stringOf (Some v), stringsOf vs) of (Some s, Some ss) \<Rightarrow> Some (s # ss) | _ \<Rightarrow> None)"

fun stringListOf :: "jsValue option \<Rightarrow> string list option" where
  "stringListOf (Some (JsArr vs)) = stringsOf vs"
| "stringListOf _ = None"

definition parsePreserved :: "jsValue option \<Rightarrow> preservedContext option" where
  "parsePreserved v =
     (case v of
        Some (JsObj props) \<Rightarrow>
          (let s = (\<lambda>k. stringOf (map_of props k)); l = (\<lambda>k. stringListOf (map_of props k)) in
           case (s ''goal'', l ''constraints'', l ''plan'', l ''tasks'', l ''activeFiles'', l ''decisions'',
                 l ''errors'', l ''obligations'') of
             (Some goal, Some constraints, Some plan, Some tasks, Some files, Some decisions, Some errors,
              Some obligations) \<Rightarrow>
               if goal = [] then None
               else Some \<lparr>pcGoal = goal, pcConstraints = constraints, pcPlan = plan, pcTasks = tasks,
                      pcActiveFiles = files, pcDecisions = decisions, pcErrors = errors,
                      pcObligations = obligations\<rparr>
           | _ \<Rightarrow> None)
      | _ \<Rightarrow> None)"

definition parseDraft :: "jsValue \<Rightarrow> summaryDraft option" where
  "parseDraft v =
     (case v of
        JsObj props \<Rightarrow>
          (case (stringOf (map_of props ''prose''), parsePreserved (map_of props ''preserved'')) of
             (Some prose, Some preserved) \<Rightarrow> Some \<lparr>sdProse = prose, sdPreserved = preserved\<rparr>
           | _ \<Rightarrow> None)
      | _ \<Rightarrow> None)"

text \<open>A typed draft as the value that crosses the boundary.\<close>

definition draftValue :: "summaryDraft \<Rightarrow> jsValue" where
  "draftValue d =
     (let p = sdPreserved d; l = (\<lambda>ss. JsArr (map JsStr ss)) in
      JsObj [(''prose'', JsStr (sdProse d)),
        (''preserved'', JsObj [(''goal'', JsStr (pcGoal p)), (''constraints'', l (pcConstraints p)),
           (''plan'', l (pcPlan p)), (''tasks'', l (pcTasks p)), (''activeFiles'', l (pcActiveFiles p)),
           (''decisions'', l (pcDecisions p)), (''errors'', l (pcErrors p)),
           (''obligations'', l (pcObligations p))])])"

subsection \<open>The summary text\<close>

definition newlines :: "nat \<Rightarrow> string" where
  "newlines n = replicate n (CHR 0x0A)"

definition summaryList :: "string \<Rightarrow> string list \<Rightarrow> string" where
  "summaryList label vs =
     (if vs \<noteq> [] then ''## '' @ label @ newlines 1 @ joinWith (newlines 1) (map (\<lambda>v. ''- '' @ v) vs) else [])"

definition renderSummary :: "preservedContext \<Rightarrow> string \<Rightarrow> string" where
  "renderSummary p prose =
     joinWith (newlines 2) (filter (\<lambda>b. b \<noteq> [])
       [''# Compaction summary'',
        ''## Goal'' @ newlines 1 @ pcGoal p,
        summaryList ''Constraints'' (pcConstraints p),
        summaryList ''Plan'' (pcPlan p),
        summaryList ''Tasks'' (pcTasks p),
        summaryList ''Active files'' (pcActiveFiles p),
        summaryList ''Decisions'' (pcDecisions p),
        summaryList ''Errors'' (pcErrors p),
        summaryList ''Unfinished obligations'' (pcObligations p),
        if trim prose \<noteq> [] then ''## Notes'' @ newlines 1 @ trim prose else []])"

definition digestTranscript :: "inputItem list \<Rightarrow> string" where
  "digestTranscript items = stableHash (joinWith [CHR 0x00] (map serializeInputItem items))"

subsection \<open>Compaction\<close>

record compactionResult =
  crBoundaryRef :: string
  crSummary :: string
  crPreserved :: preservedContext
  crTokensBefore :: nat
  crTokensAfter :: nat
  crFreedTokens :: int
  crItemCount :: nat
  crTrigger :: compactionTrigger

record 's compactOptions =
  coItems :: "inputItem list"
  coSummarizer :: "'s summarizer"
  coBoundaryStore :: "'s boundaryStore"
  coTrigger :: "compactionTrigger option"
  coFocus :: "string option"
  coEstimate :: "tokenEstimator option"

definition compact :: "'s compactOptions \<Rightarrow> ('s, compactionResult) cx" where
  "compact opts =
     (let estimate = orElse (coEstimate opts) defaultTokenEstimator;
          trigger = orElse (coTrigger opts) Ct_proactive;
          before = estimateItems estimate (coItems opts);
          boundary = \<lparr>tbItems = coItems opts, tbDigest = digestTranscript (coItems opts),
            tbItemCount = length (coItems opts), tbTokensBefore = before, tbTrigger = trigger\<rparr>
      in bindC (coBoundaryStore opts boundary) (\<lambda>ref.
         bindC (coSummarizer opts \<lparr>suItems = coItems opts, suBoundaryRef = ref, suFocus = coFocus opts\<rparr>) (\<lambda>raw.
         case parseDraft raw of
           None \<Rightarrow> (\<lambda>s. (Inl Cx_invalid_summary, s))
         | Some draft \<Rightarrow>
             (let summary = renderSummary (sdPreserved draft) (sdProse draft); after = estimate summary in
              returnC \<lparr>crBoundaryRef = ref, crSummary = summary, crPreserved = sdPreserved draft,
                crTokensBefore = before, crTokensAfter = after, crFreedTokens = int before - int after,
                crItemCount = length (coItems opts), crTrigger = trigger\<rparr>))))"

text \<open>The boundary store for tests and simple use: a counter and a map.\<close>

definition memoryBoundaryWrite :: "(nat \<times> (string \<times> transcriptBoundary) list) boundaryStore" where
  "memoryBoundaryWrite b s =
     (let ref = ''bnd_'' @ padStart 6 (CHR ''0'') (natStr (fst s + 1)) in
      (Inr ref, (fst s + 1, (ref, b) # snd s)))"

subsection \<open>Progress\<close>

definition DEFAULT_MIN_FREED_FRACTION :: rat where
  "DEFAULT_MIN_FREED_FRACTION = 1 / 10"

datatype compactionOutcome =
    Compacted compactionResult
  | NoFurtherReduction string nat nat int

text \<open>\<^verbatim>\<open>toFixed\<close> of a number that is not negative, with no or one digit after the point.\<close>

definition fixed0 :: "rat \<Rightarrow> string" where
  "fixed0 x = natStr (nat (roundRat x))"

definition fixed1 :: "rat \<Rightarrow> string" where
  "fixed1 x = (let n = nat (roundRat (x * 10)) in natStr (n div 10) @ ''.'' @ natStr (n mod 10))"

definition freedFraction :: "compactionResult \<Rightarrow> rat" where
  "freedFraction r =
     (if 0 < crTokensBefore r then of_int (crFreedTokens r) / of_nat (crTokensBefore r) else 0)"

definition evaluateCompaction :: "compactionResult \<Rightarrow> rat \<Rightarrow> compactionOutcome" where
  "evaluateCompaction r minFreed =
     (if crFreedTokens r \<le> 0 \<or> freedFraction r < minFreed
      then NoFurtherReduction
        (if crFreedTokens r \<le> 0 then ''compaction did not reduce the transcript''
         else ''compaction freed '' @ fixed1 (freedFraction r * 100) @ ''% (< '' @ fixed0 (minFreed * 100) @ ''% threshold)'')
        (crTokensBefore r) (crTokensAfter r) (crFreedTokens r)
      else Compacted r)"

definition compactCommand :: "'s compactOptions \<Rightarrow> rat option \<Rightarrow> ('s, compactionOutcome) cx" where
  "compactCommand opts minFreed =
     bindC (compact opts) (\<lambda>r. returnC (evaluateCompaction r (orElse minFreed DEFAULT_MIN_FREED_FRACTION)))"

definition isDiminishingReturns :: "int \<Rightarrow> int \<Rightarrow> rat \<Rightarrow> bool" where
  "isDiminishingReturns previous current minFreed =
     (if previous \<le> 0 then True else of_int (previous - current) / of_int previous < minFreed)"

text \<open>The sign for infinity is represented by one code unit, as the other characters above U+00FF.\<close>

definition contextStatus :: "budgetBreakdown \<Rightarrow> string" where
  "contextStatus b =
     ''context: '' @ natStr (bbUsed b) @ ''/'' @ natStr (bbUsable b) @ '' tokens used ('' @
     (case bbUtilization b of None \<Rightarrow> [CHR 0xEC] | Some u \<Rightarrow> natStr (nat (roundRat (u * 100))) @ ''%'') @ ''), '' @
     natStr (bbAvailable b) @ '' available'' @
     (if bbOverCapacity b then '' '' @ [EM_DASH] @ '' OVER CAPACITY''
      else if bbOverThreshold b then '' '' @ [EM_DASH] @ '' over compaction threshold'' else [])"

definition contextCommand :: "budgetInput \<Rightarrow> budgetBreakdown \<times> string" where
  "contextCommand b = (computeBudget b, contextStatus (computeBudget b))"

record clearedState =
  clItems :: "inputItem list"
  clRefs :: "contextRef list"
  clClearedAt :: "int option"
  clBudget :: budgetBreakdown

definition clearCommand :: "nat \<Rightarrow> rat option \<Rightarrow> tokenEstimator option \<Rightarrow> int option \<Rightarrow> clearedState" where
  "clearCommand window reserve estimate clearedAt =
     \<lparr>clItems = [], clRefs = [], clClearedAt = clearedAt,
      clBudget = computeBudget \<lparr>biContextWindow = window, biItems = [], biReserveFraction = reserve,
        biEstimate = estimate, biFixedOverhead = None\<rparr>\<rparr>"

end
