(* ===== verification/Context_Manager.thy ===== *)
theory Context_Manager
  imports Context_Compaction
begin

text \<open>
  \<^verbatim>\<open>packages/context/src/storage-boundary.ts\<close> and \<^verbatim>\<open>apps/cli/src/context.ts\<close>: the context manager
  of the CLI, which the turn engine calls before each model request. Its state is the event store, the
  counters of the closure, and a world \<^typ>\<open>'w\<close> of the injected clock, ids and hook.
\<close>

record 'w contextState =
  csStore :: eventStore
  csItemSeq :: nat
  csLastUtilization :: "rat option"
  csCompactionCount :: nat
  csWorld :: 'w

record 'w contextDeps =
  cdStore :: storeOptions
  cdWindow :: nat
  cdNextId :: "string \<Rightarrow> 'w \<Rightarrow> string \<times> 'w"
  cdNow :: "'w \<Rightarrow> int \<times> 'w"
  cdActor :: actor
  cdReserve :: "rat option"
  cdSummarizer :: "'w contextState summarizer option"
  cdTasks :: "string list"
  cdThreshold :: "nat option"
  cdPreCompact :: "compactionTrigger \<Rightarrow> nat \<Rightarrow> 'w \<Rightarrow> 'w"

definition KEEP_RECENT :: nat where "KEEP_RECENT = 4"

definition DEFAULT_OFFLOAD_THRESHOLD :: nat where "DEFAULT_OFFLOAD_THRESHOLD = 4096"

subsection \<open>Durable records\<close>

definition takeIdC :: "'w contextDeps \<Rightarrow> string \<Rightarrow> ('w contextState, string) cx" where
  "takeIdC d kind s = (let (i, w) = cdNextId d kind (csWorld s) in (Inr i, s\<lparr>csWorld := w\<rparr>))"

definition takeNowC :: "'w contextDeps \<Rightarrow> ('w contextState, int) cx" where
  "takeNowC d s = (let (t, w) = cdNow d (csWorld s) in (Inr t, s\<lparr>csWorld := w\<rparr>))"

definition nextItemSeq :: "('w contextState, nat) cx" where
  "nextItemSeq s = (Inr (csItemSeq s), s\<lparr>csItemSeq := csItemSeq s + 1\<rparr>)"

definition storeAppend :: "'w contextDeps \<Rightarrow> appendInput \<Rightarrow> ('w contextState, unit) cx" where
  "storeAppend d input =
     bindC (takeIdC d ''evt'') (\<lambda>eid.
     bindC (takeNowC d) (\<lambda>now s.
       case appendEvent (cdStore d) now eid input (csStore s) of
         (Inl e, st) \<Rightarrow> (Inl (Cx_store e), s\<lparr>csStore := st\<rparr>)
       | (Inr ev, st) \<Rightarrow> (Inr (), s\<lparr>csStore := st\<rparr>)))"

definition compactionInput :: "'w contextDeps \<Rightarrow> persistBase \<Rightarrow> string \<Rightarrow> nat \<Rightarrow> int \<Rightarrow> itemBody \<Rightarrow> appendInput" where
  "compactionInput d base iid seq now body =
     \<lparr>aiThreadId = pbThreadId base, aiTurnId = Some (pbTurnId base), aiItemId = Some iid,
      aiActor = cdActor d, aiCorrelationId = pbCorrelationId base,
      aiPermissionProfile = pbPermissionProfile base,
      aiPayload = ItemAppended \<lparr>itId = iid, itTurnId = pbTurnId base, itThreadId = pbThreadId base,
        itSeq = seq, itCreatedAt = now, itBody = body\<rparr>\<rparr>"

definition markerBody :: "transcriptBoundary \<Rightarrow> itemBody" where
  "markerBody b = CompactionItem (tbTrigger b) (tbDigest b)
     (''[boundary marker for '' @ natStr (tbItemCount b) @ '' item(s)]'') (tbTokensBefore b) 0"

definition eventStoreBoundaryStore :: "'w contextDeps \<Rightarrow> persistBase \<Rightarrow> 'w contextState boundaryStore" where
  "eventStoreBoundaryStore d base b =
     bindC (takeIdC d ''itm'') (\<lambda>iid.
     bindC nextItemSeq (\<lambda>seq.
     bindC (takeNowC d) (\<lambda>now.
     bindC (storeAppend d (compactionInput d base iid seq now (markerBody b))) (\<lambda>_.
     returnC (tbDigest b)))))"

definition finalBody :: "compactionResult \<Rightarrow> itemBody" where
  "finalBody r = CompactionItem (crTrigger r) (crBoundaryRef r) (crSummary r) (crTokensBefore r) (crTokensAfter r)"

definition recordCompactionItem ::
  "'w contextDeps \<Rightarrow> persistBase \<Rightarrow> compactionResult \<Rightarrow> ('w contextState, unit) cx" where
  "recordCompactionItem d base r =
     bindC nextItemSeq (\<lambda>seq.
     bindC (takeIdC d ''itm'') (\<lambda>iid.
     bindC (takeNowC d) (\<lambda>now.
     storeAppend d (compactionInput d base iid seq now (finalBody r)))))"

subsection \<open>The deterministic summarizer\<close>

definition isPathChar :: "char \<Rightarrow> bool" where
  "isPathChar c \<longleftrightarrow> isDigit c \<or> (CHR ''A'' \<le> c \<and> c \<le> CHR ''Z'') \<or> (CHR ''a'' \<le> c \<and> c \<le> CHR ''z'')
     \<or> c \<in> set ''_./-''"

definition isAlnum :: "char \<Rightarrow> bool" where
  "isAlnum c \<longleftrightarrow> isPathChar c \<and> c \<notin> set ''_./-''"

definition opensPath :: "char \<Rightarrow> bool" where
  "opensPath c \<longleftrightarrow> isSpace c \<or> c \<in> {CHR 0x22, CHR 0x27, CHR ''('', CHR 0x60}"

definition closesPath :: "char \<Rightarrow> bool" where
  "closesPath c \<longleftrightarrow> isSpace c \<or> c \<in> {CHR 0x22, CHR 0x27, CHR 0x60, CHR '')'', CHR '':'', CHR '',''}"

text \<open>
  \<^verbatim>\<open>FILE_PATH\<close>: what may follow a path is no path character, so a match takes the whole run of path
  characters; the run ends in a dot and one to eight letters or digits, with something before the dot.
\<close>

definition isFileRun :: "string \<Rightarrow> bool" where
  "isFileRun run =
     (let ext = takeWhile isAlnum (rev run); rest = dropWhile isAlnum (rev run) in
      (case rest of dot # before \<Rightarrow> dot = CHR ''.'' \<and> before \<noteq> [] \<and> 1 \<le> length ext \<and> length ext \<le> 8
       | [] \<Rightarrow> False))"

fun matchPaths :: "bool \<Rightarrow> string \<Rightarrow> string list" where
  "matchPaths opened [] = []"
| "matchPaths opened (c # cs) =
     (let run = takeWhile isPathChar (c # cs); after = dropWhile isPathChar (c # cs) in
      (if opened \<and> isFileRun run \<and> (after = [] \<or> closesPath (after ! 0)) then [run] else []))
     @ matchPaths (opensPath c) cs"

definition itemText :: "inputItem \<Rightarrow> string" where
  "itemText i = (case i of MessageItem u txt \<Rightarrow> txt | FunctionOutput cid n out \<Rightarrow> out | FunctionCall cid n args \<Rightarrow> args)"

fun addPaths :: "string list \<Rightarrow> string list \<Rightarrow> string list" where
  "addPaths seen [] = seen"
| "addPaths seen (p # ps) =
     (if 20 \<le> length seen then seen
      else addPaths (if \<not> startsWith p ''.'' \<and> CHR ''.'' \<in> set p \<and> p \<notin> set seen then seen @ [p] else seen) ps)"

definition extractActiveFiles :: "inputItem list \<Rightarrow> string list" where
  "extractActiveFiles items = addPaths [] (concat (map (\<lambda>i. matchPaths True (itemText i)) items))"

definition assistantTexts :: "inputItem list \<Rightarrow> string list" where
  "assistantTexts items = List.map_filter (\<lambda>i. case i of MessageItem False txt \<Rightarrow> Some txt | _ \<Rightarrow> None) items"

definition userTexts :: "inputItem list \<Rightarrow> string list" where
  "userTexts items = List.map_filter (\<lambda>i. case i of MessageItem True txt \<Rightarrow> Some txt | _ \<Rightarrow> None) items"

definition lastN :: "nat \<Rightarrow> 'a list \<Rightarrow> 'a list" where
  "lastN n xs = drop (length xs - n) xs"

definition summaryGoal :: "inputItem list \<Rightarrow> string" where
  "summaryGoal items =
     (case userTexts items of
        [] \<Rightarrow> ''continue the prior work''
      | txt # _ \<Rightarrow> if trim txt = [] then ''continue the prior work'' else trim txt)"

definition deterministicDraft :: "string list \<Rightarrow> inputItem list \<Rightarrow> summaryDraft" where
  "deterministicDraft tasks items =
     \<lparr>sdProse = take 1000 (joinWith (newlines 1)
        (filter (\<lambda>t. t \<noteq> []) (map trim (lastN 2 (assistantTexts items))))),
      sdPreserved = \<lparr>pcGoal = summaryGoal items, pcConstraints = [], pcPlan = [], pcTasks = tasks,
        pcActiveFiles = extractActiveFiles items, pcDecisions = [], pcErrors = [], pcObligations = []\<rparr>\<rparr>"

definition deterministicSummarizer :: "string list \<Rightarrow> 's summarizer" where
  "deterministicSummarizer tasks input = returnC (draftValue (deterministicDraft tasks (suItems input)))"

subsection \<open>Preparing a request\<close>

definition offloadRef :: "'w contextDeps \<Rightarrow> inputItem \<Rightarrow> nat \<Rightarrow> 'w contextState \<Rightarrow> string \<times> 'w contextState" where
  "offloadRef d item i s =
     (let digest = ''blb_'' @ stableHash (itemText item) in
      (digest, s\<lparr>csStore := putBlob (cdStore d) digest (itemText item) (csStore s)\<rparr>))"

definition managerOptions :: "'w contextDeps \<Rightarrow> 'w contextState reductionOptions" where
  "managerOptions d =
     \<lparr>roEstimate = None, roMakeRefId = offloadRef d,
      roThreshold = Some (orElse (cdThreshold d) DEFAULT_OFFLOAD_THRESHOLD),
      roPreserveRecent = Some KEEP_RECENT, roPreview = \<lparr>rpHeadChars = None, rpTailChars = None\<rparr>,
      roTarget = None\<rparr>"

definition managerBudget :: "'w contextDeps \<Rightarrow> string \<Rightarrow> inputItem list \<Rightarrow> budgetBreakdown" where
  "managerBudget d instructions items =
     computeBudget \<lparr>biContextWindow = cdWindow d, biItems = items, biReserveFraction = cdReserve d,
       biEstimate = None, biFixedOverhead = Some ((length instructions + 3) div 4)\<rparr>"

definition keptItems :: "inputItem list \<Rightarrow> contextPreparation" where
  "keptItems items = \<lparr>cpItems = items, cpCompacted = False, cpTrigger = None\<rparr>"

definition summaryMessage :: "compactionResult \<Rightarrow> inputItem" where
  "summaryMessage r = MessageItem True (crSummary r)"

text \<open>The body of the \<^verbatim>\<open>try\<close>: None is the diminishing-returns fallback.\<close>

definition compactHead ::
  "'w contextDeps \<Rightarrow> persistBase \<Rightarrow> compactionTrigger \<Rightarrow> inputItem list \<Rightarrow> ('w contextState, compactionResult option) cx" where
  "compactHead d base trigger head_items =
     bindC (compact \<lparr>coItems = head_items,
         coSummarizer = (case cdSummarizer d of None \<Rightarrow> deterministicSummarizer (cdTasks d) | Some f \<Rightarrow> f),
         coBoundaryStore = eventStoreBoundaryStore d base, coTrigger = Some trigger, coFocus = None,
         coEstimate = None\<rparr>) (\<lambda>r.
     case evaluateCompaction r DEFAULT_MIN_FREED_FRACTION of
       NoFurtherReduction reason b a f \<Rightarrow> returnC None
     | Compacted r' \<Rightarrow>
         bindC (recordCompactionItem d base r) (\<lambda>_ s.
           (Inr (Some r), s\<lparr>csCompactionCount := csCompactionCount s + 1\<rparr>)))"

definition prepareItems ::
  "'w contextDeps \<Rightarrow> string \<Rightarrow> inputItem list \<Rightarrow> persistBase \<Rightarrow> 'w contextState \<Rightarrow> contextPreparation \<times> 'w contextState" where
  "prepareItems d instructions conversation base s =
     (let (reduced, s1) = reduceContext conversation (managerOptions d) s;
          items = rdItems reduced;
          budget = managerBudget d instructions items;
          s2 = s1\<lparr>csLastUtilization := bbUtilization budget\<rparr>;
          splitAt = length items - KEEP_RECENT;
          head_items = take splitAt items;
          tail_items = drop splitAt items;
          trigger = (if bbOverCapacity budget then Ct_reactive_overflow else Ct_proactive)
      in if \<not> (bbOverThreshold budget \<or> bbOverCapacity budget) then (keptItems items, s2)
         else if head_items = [] then (keptItems items, s2)
         else
           let s3 = s2\<lparr>csWorld := cdPreCompact d trigger (length head_items) (csWorld s2)\<rparr> in
           (case compactHead d base trigger head_items s3 of
              (Inl e, s4) \<Rightarrow> (keptItems items, s4)
            | (Inr None, s4) \<Rightarrow> (keptItems items, s4)
            | (Inr (Some r), s4) \<Rightarrow>
                (\<lparr>cpItems = summaryMessage r # tail_items, cpCompacted = True,
                  cpTrigger = (if crTrigger r = Ct_manual then None else Some (crTrigger r))\<rparr>, s4)))"

definition contextUtilizationPercent :: "inputItem list \<Rightarrow> nat \<Rightarrow> nat \<Rightarrow> rat option \<Rightarrow> nat" where
  "contextUtilizationPercent history window instructionChars reserve =
     (case bbUtilization (computeBudget \<lparr>biContextWindow = window, biItems = history,
             biReserveFraction = reserve, biEstimate = None,
             biFixedOverhead = Some ((instructionChars + 3) div 4)\<rparr>) of
        None \<Rightarrow> 100
      | Some u \<Rightarrow> nat (min 100 (roundRat (u * 100))))"

end
