(* ===== verification/Context_Pairing.thy ===== *)
theory Context_Pairing
  imports Context_Manager
begin

text \<open>
  What the reduction does to a conversation: its shape, the pairs of calls and results, the recent tail,
  and where the reduction to a target takes away what it is to keep.
\<close>

subsection \<open>Pairing\<close>

fun callIn :: "string \<Rightarrow> inputItem \<Rightarrow> bool" where
  "callIn c (FunctionCall c' name args) = (c = c')"
| "callIn c _ = False"

fun resultIn :: "string \<Rightarrow> inputItem \<Rightarrow> bool" where
  "resultIn c (FunctionOutput c' name out) = (c = c')"
| "resultIn c _ = False"

definition resultIds :: "inputItem list \<Rightarrow> string list" where
  "resultIds items = concat (map (\<lambda>i. case i of FunctionOutput c name out \<Rightarrow> [c] | _ \<Rightarrow> []) items)"

lemma resultIds_simps [simp]:
  "resultIds [] = []"
  "resultIds (MessageItem u txt # xs) = resultIds xs"
  "resultIds (FunctionCall c name args # xs) = resultIds xs"
  "resultIds (FunctionOutput c name out # xs) = c # resultIds xs"
  "resultIds (xs @ ys) = resultIds xs @ resultIds ys"
  by (simp_all add: resultIds_def)

lemma resultIds_iff: "c \<in> set (resultIds xs) \<longleftrightarrow> (\<exists>x \<in> set xs. resultIn c x)"
proof (induction xs)
  case (Cons x xs) then show ?case by (cases x) auto
qed simp

lemma splits_Cons:
  "(\<forall>us y vs. x # xs = us @ y # vs \<longrightarrow> Q us y) \<longleftrightarrow> Q [] x \<and> (\<forall>us y vs. xs = us @ y # vs \<longrightarrow> Q (x # us) y)"
  by (auto simp: Cons_eq_append_conv)

lemma pairingGo_iff:
  "pairingGo seen xs \<longleftrightarrow>
     (\<forall>us x vs. xs = us @ x # vs \<longrightarrow> (\<forall>c. resultIn c x \<longrightarrow> c \<in> set seen \<or> (\<exists>y \<in> set us. callIn c y)))"
proof (induction xs arbitrary: seen)
  case (Cons x xs)
  show ?case unfolding splits_Cons by (cases x) (simp_all add: Cons.IH disj_ac)
qed simp

lemma intact_iff:
  "isPairingIntact xs \<longleftrightarrow>
     (\<forall>us x vs. xs = us @ x # vs \<longrightarrow> (\<forall>c. resultIn c x \<longrightarrow> (\<exists>y \<in> set us. callIn c y)))"
  by (simp add: isPairingIntact_def pairingGo_iff)

lemma filter_eq_split:
  "filter P xs = us @ y # vs \<Longrightarrow> \<exists>as bs. xs = as @ y # bs \<and> filter P as = us \<and> P y"
proof (induction xs arbitrary: us)
  case (Cons x xs)
  show ?case
  proof (cases "P x")
    case False
    with Cons.prems Cons.IH[of us] obtain as bs where "xs = as @ y # bs \<and> filter P as = us \<and> P y" by auto
    with False show ?thesis by (intro exI[of _ "x # as"] exI[of _ bs]) simp
  next
    case True
    show ?thesis
    proof (cases us)
      case Nil with True Cons.prems show ?thesis by (intro exI[of _ "[]"] exI[of _ xs]) simp
    next
      case (Cons u us')
      with True Cons.prems Cons.IH[of us'] obtain as bs where "xs = as @ y # bs \<and> filter P as = us' \<and> P y" by auto
      with True Cons Cons.prems show ?thesis by (intro exI[of _ "x # as"] exI[of _ bs]) simp
    qed
  qed
qed simp

lemma intact_filter:
  assumes "isPairingIntact (map snd xs)"
    and "\<And>x y c. x \<in> set xs \<Longrightarrow> P x \<Longrightarrow> resultIn c (snd x) \<Longrightarrow> y \<in> set xs \<Longrightarrow> callIn c (snd y) \<Longrightarrow> P y"
  shows "isPairingIntact (map snd (filter P xs))"
  unfolding intact_iff
proof (intro allI impI)
  fix us x vs c assume eq: "map snd (filter P xs) = us @ x # vs" and r: "resultIn c x"
  from eq obtain us' y vs' where f: "filter P xs = us' @ y # vs'" and us: "us = map snd us'" and x: "x = snd y"
    by (auto simp: map_eq_append_conv map_eq_Cons_conv)
  from filter_eq_split[OF f] obtain as bs where xs: "xs = as @ y # bs" and as: "filter P as = us'" and P: "P y"
    by blast
  have "map snd xs = map snd as @ x # map snd bs" by (simp add: xs x)
  from assms(1)[unfolded intact_iff, rule_format, OF this r]
  obtain z where z: "z \<in> set as" and c: "callIn c (snd z)" by auto
  have "P z" using assms(2)[of y c z] z c P r x by (auto simp: xs)
  with z have "z \<in> set us'" unfolding as[symmetric] by simp
  with c show "\<exists>y \<in> set us. callIn c y" by (auto simp: us)
qed

subsection \<open>Offloading\<close>

fun skeleton :: "inputItem \<Rightarrow> inputItem" where
  "skeleton (FunctionOutput c name out) = FunctionOutput c name []"
| "skeleton i = i"

lemma skeleton_same [simp]:
  "isMessage (skeleton x) = isMessage x" "callIn c (skeleton x) = callIn c x" "resultIn c (skeleton x) = resultIn c x"
  "skeleton (skeleton x) = skeleton x"
  by (cases x; simp)+

lemma pairingGo_skeleton: "pairingGo seen (map skeleton xs) = pairingGo seen xs"
  by (induction seen xs rule: pairingGo.induct) simp_all

lemma intact_skeleton: "map skeleton xs = map skeleton ys \<Longrightarrow> isPairingIntact xs = isPairingIntact ys"
  unfolding isPairingIntact_def by (metis pairingGo_skeleton)

lemma resultIds_skeleton: "resultIds (map skeleton xs) = resultIds xs"
proof (induction xs)
  case (Cons x xs) then show ?case by (cases x) simp_all
qed simp

lemma offloadItem_skeleton: "skeleton (fst (fst (offloadItem opts i item s))) = skeleton item"
  by (cases item) (simp_all add: offloadItem_def Let_def split: prod.splits)

lemma offloadAll_skeleton: "map skeleton (fst (fst (offloadAll opts r i items s))) = map skeleton items"
proof (induction items arbitrary: i s)
  case (Cons item items)
  then show ?case
    using offloadItem_skeleton[of opts i item s] by (auto simp: Let_def split: prod.splits) (metis fst_conv)+
qed simp

lemma offloadAll_recent: "r \<le> i \<Longrightarrow> offloadAll opts r i items s = ((items, []), s)"
  by (induction items arbitrary: i) (simp_all add: offloads_def)

lemma offloadAll_append:
  "offloadAll opts r i (xs @ ys) s =
     (let ((xs', rs), s1) = offloadAll opts r i xs s; ((ys', rs'), s2) = offloadAll opts r (i + length xs) ys s1
      in ((xs' @ ys', rs @ rs'), s2))"
  by (induction xs arbitrary: i s) (simp_all add: Let_def split: prod.splits)

definition oldPart :: "nat \<Rightarrow> 'a list \<Rightarrow> 'a list" where
  "oldPart k items = take (length items - k) items"

lemma old_recent: "oldPart k items @ lastN k items = items" "length (oldPart k items) = length items - k"
  by (simp_all add: oldPart_def lastN_def)

definition offloadedPart :: "'s reductionOptions \<Rightarrow> nat \<Rightarrow> inputItem list \<Rightarrow> 's \<Rightarrow> inputItem list" where
  "offloadedPart opts k items s = fst (fst (offloadAll opts (length items - k) 0 (oldPart k items) s))"

lemma offloadedPart_skeleton: "map skeleton (offloadedPart opts k items s) = map skeleton (oldPart k items)"
  by (simp add: offloadedPart_def offloadAll_skeleton)

lemma offloadedPart_length [simp]: "length (offloadedPart opts k items s) = length items - k"
  using arg_cong[OF offloadedPart_skeleton, of length opts k items s] by (simp add: old_recent)

lemma offloadAll_split:
  "fst (fst (offloadAll opts (length items - k) 0 items s)) = offloadedPart opts k items s @ lastN k items"
  "snd (offloadAll opts (length items - k) 0 items s) = snd (offloadAll opts (length items - k) 0 (oldPart k items) s)"
  using offloadAll_append[of opts "length items - k" 0 "oldPart k items" "lastN k items" s]
  by (simp_all add: old_recent offloadAll_recent offloadedPart_def Let_def split: prod.splits)

subsection \<open>The shape of a reduced conversation\<close>

definition keepFirst :: "inputItem list \<Rightarrow> inputItem list" where
  "keepFirst xs = (case xs of [] \<Rightarrow> [] | x # rest \<Rightarrow> x # filter (\<lambda>i. \<not> isMessage i) rest)"

lemma prune_old:
  "map snd (filter (\<lambda>x. \<not> prunable r x) (enumerate i xs)) = filter (\<lambda>x. \<not> isMessage x) xs"
  if "0 < i" "i + length xs \<le> r"
  using that by (induction xs arbitrary: i) (auto simp: prunable_def)

lemma prune_recent: "r \<le> i \<Longrightarrow> map snd (filter (\<lambda>x. \<not> prunable r x) (enumerate i xs)) = xs"
  by (induction xs arbitrary: i) (auto simp: prunable_def)

lemma prune_shape:
  "map snd (filter (\<lambda>x. \<not> prunable (length xs) x) (enumerate 0 (xs @ ys))) = keepFirst xs @ ys"
proof (cases xs)
  case (Cons x rest)
  then show ?thesis
    by (simp add: keepFirst_def enumerate_append_eq prune_old prune_recent) (simp add: prunable_def)
qed (simp add: keepFirst_def prune_recent)

lemma reduce_shape:
  assumes "roTarget opts = None"
  shows "rdItems (fst (reduceContext items opts s)) =
    keepFirst (offloadedPart opts (orElse (roPreserveRecent opts) 4) items s) @ lastN (orElse (roPreserveRecent opts) 4) items"
proof -
  let ?k = "orElse (roPreserveRecent opts) 4"
  have "map snd (filter (\<lambda>x. \<not> prunable (length items - ?k) x)
      (enumerate 0 (fst (fst (offloadAll opts (length items - ?k) 0 items s))))) =
    keepFirst (offloadedPart opts ?k items s) @ lastN ?k items"
    using prune_shape[of "offloadedPart opts ?k items s" "lastN ?k items"] by (simp only: offloadAll_split offloadedPart_length)
  then show ?thesis
    by (auto simp: reduceContext_def Let_def assms comp_def split: prod.splits)
qed

lemma intact_prune:
  assumes "isPairingIntact xs"
  shows "isPairingIntact (map snd (filter (\<lambda>x. \<not> prunable r x) (enumerate i xs)))"
proof (rule intact_filter)
  show "isPairingIntact (map snd (enumerate i xs))" using assms by simp
next
  fix x y :: "nat \<times> inputItem" and c
  assume "callIn c (snd y)"
  then show "\<not> prunable r y" by (cases "snd y") (simp_all add: prunable_def)
qed

subsection \<open>Dropping pairs\<close>

lemma completePairs_sound:
  assumes "\<And>c i. calls c = Some i \<Longrightarrow> \<exists>x. (i, x) \<in> A \<and> callIn c x" and "set xs \<subseteq> A"
    and "(p, q) \<in> set (completePairs calls xs)"
  shows "\<exists>c x y. (p, x) \<in> A \<and> callIn c x \<and> (q, y) \<in> A \<and> resultIn c y"
  using assms
proof (induction calls xs rule: completePairs.induct)
  case (2 calls i callId name args items)
  show ?case
  proof (rule "2.IH")
    fix c j assume "(calls(callId \<mapsto> i)) c = Some j"
    then consider "c = callId" "j = i" | "calls c = Some j" by (cases "c = callId") simp_all
    then show "\<exists>x. (j, x) \<in> A \<and> callIn c x"
    proof cases
      case 1
      then show ?thesis using "2.prems"(2) by (intro exI[of _ "FunctionCall callId name args"] conjI) simp_all
    qed (rule "2.prems"(1))
  qed (use "2.prems"(2,3) in \<open>auto simp del: fun_upd_apply\<close>)
next
  case (3 calls i callId name out items)
  show ?case
  proof (cases "calls callId")
    case None then show ?thesis using 3 by auto
  next
    case (Some ci)
    with "3.prems"(1) obtain x where x: "(ci, x) \<in> A" "callIn callId x" by blast
    have y: "(i, FunctionOutput callId name out) \<in> A" "resultIn callId (FunctionOutput callId name out)"
      using "3.prems"(2) by auto
    from "3.prems"(3) Some consider "p = ci" "q = i" | "(p, q) \<in> set (completePairs calls items)" by auto
    then show ?thesis
    proof cases
      case 1 with x y show ?thesis by blast
    next
      case 2
      show ?thesis by (rule "3.IH"(2)[OF Some "3.prems"(1) _ 2]) (use "3.prems"(2) in auto)
    qed
  qed
qed auto

lemma dropPairs_closed:
  assumes "\<And>i. i \<in> set remove \<Longrightarrow> \<exists>p q. (p, q) \<in> A \<and> (i = p \<or> i = q) \<and> {p, q} \<subseteq> set remove"
    and "set pairs \<subseteq> A" and "i \<in> set (fst (dropPairs items target estimate pairs remove dropped))"
  shows "\<exists>p q. (p, q) \<in> A \<and> (i = p \<or> i = q) \<and> {p, q} \<subseteq> set (fst (dropPairs items target estimate pairs remove dropped))"
  using assms
proof (induction items target estimate pairs remove dropped rule: dropPairs.induct)
  case (2 items target estimate c r pairs remove dropped)
  show ?case
  proof (cases "estimateItems estimate (surviving items remove) \<le> target")
    case True with "2.prems" show ?thesis by simp
  next
    case False
    have "\<exists>p q. (p, q) \<in> A \<and> (i = p \<or> i = q) \<and> {p, q} \<subseteq> set (fst (dropPairs items target estimate pairs (remove @ [c, r]) (dropped + 1)))"
    proof (rule "2.IH"[OF False])
      fix j assume "j \<in> set (remove @ [c, r])"
      then show "\<exists>p q. (p, q) \<in> A \<and> (j = p \<or> j = q) \<and> {p, q} \<subseteq> set (remove @ [c, r])"
        using "2.prems"(1)[of j] "2.prems"(2) by auto
    qed (use "2.prems" False in auto)
    with False show ?thesis by simp
  qed
qed simp

lemma result_index:
  assumes "distinct (resultIds xs)" "(i, x) \<in> set (enumerate k xs)" "(j, y) \<in> set (enumerate k xs)"
    "resultIn c x" "resultIn c y"
  shows "i = j"
  using assms
proof (induction xs arbitrary: k)
  case (Cons z zs)
  have later: "c \<in> set (resultIds zs)" if "(m, w) \<in> set (enumerate (Suc k) zs)" "resultIn c w" for m w
    unfolding resultIds_iff using that by (metis in_set_enumerate_eq nth_mem snd_conv add_diff_cancel_left' in_set_zip enumerate_eq_zip)
  have first: "False" if "(m, w) \<in> set (enumerate (Suc k) zs)" "resultIn c w" "resultIn c z" for m w
    using later[OF that(1,2)] that(3) Cons.prems(1) by (cases z) simp_all
  have rest: "distinct (resultIds zs)" using Cons.prems(1) by (cases z) simp_all
  from Cons.prems(2,3) consider "i = k" "j = k" | "x = z" "(j, y) \<in> set (enumerate (Suc k) zs)"
    | "y = z" "(i, x) \<in> set (enumerate (Suc k) zs)"
    | "(i, x) \<in> set (enumerate (Suc k) zs)" "(j, y) \<in> set (enumerate (Suc k) zs)" by auto
  then show ?case
    using first Cons.prems(4,5) Cons.IH[OF rest] by cases blast+
qed simp

lemma enumerate_same_index: "(i, x) \<in> set (enumerate k xs) \<Longrightarrow> (i, y) \<in> set (enumerate k xs) \<Longrightarrow> x = y"
  by (simp add: in_set_enumerate_eq)

lemma intact_drop:
  assumes "isPairingIntact xs" "distinct (resultIds xs)"
  shows "isPairingIntact (fst (dropOldestPairsUntil xs target r estimate))"
proof -
  let ?E = "enumerate 0 xs"
  let ?A = "set (completePairs (\<lambda>_. None) ?E)"
  define ps where "ps = filter (\<lambda>p. fst p < r \<and> snd p < r) (completePairs (\<lambda>_. None) ?E)"
  define R where "R = fst (dropPairs xs target estimate ps [] 0)"
  have R: "\<exists>p q. (p, q) \<in> ?A \<and> (i = p \<or> i = q) \<and> {p, q} \<subseteq> set R" if "i \<in> set R" for i
    unfolding R_def by (rule dropPairs_closed) (use that in \<open>auto simp: R_def ps_def\<close>)
  have "isPairingIntact (map snd (filter (\<lambda>x. fst x \<notin> set R) ?E))"
  proof (rule intact_filter)
    fix x y c assume x: "x \<in> set ?E" "fst x \<notin> set R" "resultIn c (snd x)" and y: "y \<in> set ?E" "callIn c (snd y)"
    show "fst y \<notin> set R"
    proof
      assume "fst y \<in> set R"
      from R[OF this] obtain p q where pq: "(p, q) \<in> ?A" "fst y = p \<or> fst y = q" "{p, q} \<subseteq> set R" by blast
      from completePairs_sound[OF _ order.refl pq(1)] obtain d a b
        where a: "(p, a) \<in> set ?E" "callIn d a" and b: "(q, b) \<in> set ?E" "resultIn d b" by auto
      have "fst y \<noteq> q" using y b enumerate_same_index[of q "snd y" 0 xs b] by (cases y; cases b) auto
      with pq(2) have "fst y = p" by blast
      then have "snd y = a" using y a enumerate_same_index[of p "snd y" 0 xs a] by (cases y) auto
      then have "d = c" using y(2) a(2) by (cases a) auto
      then have "fst x = q" using result_index[OF assms(2), of "fst x" "snd x" 0 q b c] x b by (cases x) auto
      with x(2) pq(3) show False by simp
    qed
  qed (use assms in simp)
  then show ?thesis
    by (auto simp: dropOldestPairsUntil_def Let_def surviving_def R_def ps_def split: prod.splits)
qed

lemma resultIds_prune:
  "resultIds (map snd (filter (\<lambda>x. \<not> prunable r x) (enumerate i xs))) = resultIds xs"
proof (induction xs arbitrary: i)
  case (Cons x xs) then show ?case by (cases x) (auto simp: prunable_def)
qed simp

theorem reduction_keeps_pairing:
  assumes "isPairingIntact items" "roTarget opts = None \<or> distinct (resultIds items)"
  shows "rdPairingIntact (fst (reduceContext items opts s)) \<and> isPairingIntact (rdItems (fst (reduceContext items opts s)))"
proof -
  define r where "r = length items - orElse (roPreserveRecent opts) 4"
  define os where "os = fst (fst (offloadAll opts r 0 items s))"
  define pr where "pr = map snd (filter (\<lambda>x. \<not> prunable r x) (enumerate 0 os))"
  have sk: "map skeleton os = map skeleton items" by (simp add: os_def offloadAll_skeleton)
  have ip: "isPairingIntact pr"
    unfolding pr_def by (rule intact_prune) (use intact_skeleton[OF sk] assms(1) in simp)
  have ids: "resultIds pr = resultIds items"
    unfolding pr_def resultIds_prune using resultIds_skeleton[of os] resultIds_skeleton[of items] sk by simp
  have items: "rdItems (fst (reduceContext items opts s)) =
    (case roTarget opts of None \<Rightarrow> pr | Some target \<Rightarrow> fst (dropOldestPairsUntil pr target r (estimatorOf opts)))"
    by (auto simp: reduceContext_def Let_def pr_def os_def r_def comp_def split: prod.splits option.splits)
  have "isPairingIntact (rdItems (fst (reduceContext items opts s)))"
    unfolding items using ip ids assms(2) by (auto split: option.splits intro: intact_drop)
  moreover have "rdPairingIntact (fst (reduceContext items opts s)) = isPairingIntact (rdItems (fst (reduceContext items opts s)))"
    by (simp add: reduceContext_def Let_def split: prod.splits option.splits)
  ultimately show ?thesis by simp
qed

end
