(* ===== verification/Event_Store_Theorems.thy ===== *)
theory Event_Store_Theorems
  imports Event_Store
begin

text \<open>
  What the event store guarantees: appends are all or nothing, every thread is numbered without a
  gap, rebuilding the projections loses nothing that recovery could not find again, and what the
  recovery guard \<^verbatim>\<open>mayExecute\<close> sees after a fresh intent.
\<close>

subsection \<open>One append\<close>

lemma appendBody_Inr:
  assumes "appendBody opts now eid input s = (Inr e', s')"
  shows "e' = envelope opts now eid input (nextSeq (aiThreadId input) s) \<and>
    (\<exists>s1 p. insertEvent e' s = Some s1 \<and> projectStore e' (storeProj s1) = Some p \<and> s' = s1\<lparr>storeProj := p\<rparr>)"
proof -
  define e where "e = envelope opts now eid input (nextSeq (aiThreadId input) s)"
  show ?thesis using assms unfolding appendBody_def Let_def e_def [symmetric]
    by (simp split: if_split_asm option.split_asm)
qed

lemma appendEvent_cases:
  obtains (failed) f where "appendEvent opts now eid input s = (Inl f, s)"
  | (stored) e p where "appendEvent opts now eid input s = (Inr e, s\<lparr>storeLog := storeLog s @ [e], storeProj := p\<rparr>)"
      and "e = envelope opts now eid input (nextSeq (aiThreadId input) s)"
      and "projectStore e (storeProj s) = Some p" and "eid \<notin> evId ` set (storeLog s)"
proof -
  define e where "e = envelope opts now eid input (nextSeq (aiThreadId input) s)"
  have id: "evId e = eid" by (simp add: e_def envelope_def)
  show ?thesis
  proof (cases "appendBody opts now eid input s")
    case (Pair r s')
    show ?thesis
    proof (cases r)
      case (Inl f)
      then show ?thesis using failed [of f] Pair by (simp add: appendEvent_def transaction_def)
    next
      case (Inr e')
      note body = appendBody_Inr [of opts now eid input s e' s', folded e_def]
      have e': "e' = e" using body Pair Inr by simp
      obtain s1 p where body: "insertEvent e s = Some s1" "projectStore e (storeProj s1) = Some p"
        "s' = s1\<lparr>storeProj := p\<rparr>" using body Pair Inr unfolding e' by blast
      have s1: "s1 = s\<lparr>storeLog := storeLog s @ [e]\<rparr>" "eid \<notin> evId ` set (storeLog s)"
        using body(1) by (auto simp: insertEvent_def list_ex_iff id split: if_splits)
      from body s1 show ?thesis using stored [of e p] Pair Inr e'
        by (simp add: appendEvent_def transaction_def e_def)
    qed
  qed
qed

definition emitStore :: "storeOptions \<times> int \<times> string \<times> appendInput \<Rightarrow> eventStore \<Rightarrow> eventStore option" where
  "emitStore x s =
     (case x of (opts, now, eid, input) \<Rightarrow>
       (case appendEvent opts now eid input s of (Inl _, _) \<Rightarrow> None | (Inr _, s') \<Rightarrow> Some s'))"

interpretation thread_log: event_store storeLog storeProj projectStore noRows emitStore
proof
  fix x s s'
  assume *: "emitStore x s = Some s'"
  obtain opts now eid input where x: "x = (opts, now, eid, input)" by (metis prod_cases4)
  show "\<exists>e. storeLog s' = storeLog s @ [e] \<and> projectStore e (storeProj s) = Some (storeProj s')"
  proof (cases rule: appendEvent_cases [of opts now eid input s])
    case (failed f)
    with * show ?thesis by (simp add: x emitStore_def)
  next
    case (stored e p)
    with * have "s' = s\<lparr>storeLog := storeLog s @ [e], storeProj := p\<rparr>" by (simp add: x emitStore_def)
    with stored(3) show ?thesis by auto
  qed
qed

subsection \<open>The stores that operations produce\<close>

inductive store_step :: "eventStore \<Rightarrow> eventStore \<Rightarrow> bool" where
  append: "store_step s (snd (appendEvent opts now eid input s))"
| recover: "store_step s (snd (recoverInterrupted s))"
| rebuild: "store_step s (snd (rebuildProjections s))"
| blob: "store_step s (putBlob opts digest content s)"

inductive store_reach :: "eventStore \<Rightarrow> bool" where
  start: "store_reach freshStore"
| step: "store_reach s \<Longrightarrow> store_step s s' \<Longrightarrow> store_reach s'"
| prune: "store_reach s \<Longrightarrow> store_reach (snd (pruneThreads age now s))"

inductive unpruned_reach :: "eventStore \<Rightarrow> bool" where
  "unpruned_reach freshStore"
| "unpruned_reach s \<Longrightarrow> store_step s s' \<Longrightarrow> unpruned_reach s'"

subsection \<open>Sequence numbers\<close>

definition gapless :: "harnessEvent list \<Rightarrow> bool" where
  "gapless log \<longleftrightarrow> (\<forall>t. threadSeqs t log = [0..<length (threadSeqs t log)]) \<and> distinct (map evId log)"

lemma nextSeq_gapless:
  assumes "gapless (storeLog s)"
  shows "nextSeq t s = length (threadSeqs t (storeLog s))"
proof -
  have "foldr (\<lambda>n m. max (n + 1) m) [0..<k] a = max k a" for k a :: nat
    by (induction k arbitrary: a) auto
  then show ?thesis using assms unfolding gapless_def nextSeq_def by (metis max_0R)
qed

lemma gapless_append:
  assumes "gapless (storeLog s)"
  shows "gapless (storeLog (snd (appendEvent opts now eid input s)))"
proof (cases rule: appendEvent_cases [of opts now eid input s])
  case (failed f)
  then show ?thesis using assms by simp
next
  case (stored e p)
  have "threadSeqs t (storeLog s @ [e]) = [0..<length (threadSeqs t (storeLog s @ [e]))]" for t
  proof (cases "t = aiThreadId input")
    case True
    then show ?thesis using assms nextSeq_gapless [OF assms, of t]
      by (simp add: stored(2) threadSeqs_def envelope_def gapless_def)
  next
    case False
    then show ?thesis using assms by (simp add: stored(2) threadSeqs_def envelope_def gapless_def)
  qed
  then show ?thesis using assms stored(4)
    by (auto simp: stored(1) gapless_def) (auto simp: stored(2) envelope_def)
qed

lemma gapless_prune:
  assumes "gapless (storeLog s)"
  shows "gapless (storeLog (snd (pruneThreads age now s)))"
proof -
  let ?keep = "\<lambda>t. t \<notin> thId ` {r \<in> set (spThreads (storeProj s)). thUpdatedAt r < now - age}"
  have log: "storeLog (snd (pruneThreads age now s)) = filter (\<lambda>e. ?keep (evThreadId e)) (storeLog s)"
    by (simp add: pruneThreads_def Let_def)
  have "threadSeqs t (filter (\<lambda>e. keep (evThreadId e)) l) = (if keep t then threadSeqs t l else [])"
    for t keep and l :: "harnessEvent list"
    unfolding threadSeqs_def by (induction l) auto
  note seqs = this [of _ ?keep]
  from assms show ?thesis unfolding log gapless_def seqs
    by (auto simp: distinct_map inj_on_def)
qed

lemma store_step_log:
  assumes "store_step s s'" shows "storeLog s' = storeLog s \<or> (\<exists>opts now eid input. s' = snd (appendEvent opts now eid input s))"
  using assms by cases (auto simp: recoverInterrupted_def rebuildProjections_def putBlob_def Let_def
      split: option.splits)

lemma reach_gapless: "store_reach s \<Longrightarrow> gapless (storeLog s)"
proof (induction rule: store_reach.induct)
  case start
  show ?case by (simp add: gapless_def freshStore_def threadSeqs_def)
next
  case (step s s')
  then show ?case using store_step_log gapless_append by metis
next
  case (prune s age now)
  then show ?case by (rule_tac gapless_prune)
qed

subsection \<open>Rebuilding after recovery\<close>

definition promoteAll :: "storeProjection \<Rightarrow> storeProjection" where
  "promoteAll p = p\<lparr>spEffects := map promote (spEffects p)\<rparr>"

lemma promote_simps [simp]:
  "erId (promote r) = erId r" "erKey (promote r) = erKey r" "erCreatedAt (promote r) = erCreatedAt r"
  "promote (promote r) = promote r"
  by (simp_all add: promote_def)

lemma promote_eqD:
  "promote a = promote b \<Longrightarrow> erId a = erId b"
  "promote a = promote b \<Longrightarrow> promote (a\<lparr>erState := x\<rparr>) = promote (b\<lparr>erState := x\<rparr>)"
  "promote a = promote b \<Longrightarrow> promote (a\<lparr>erState := x, erDigest := d, erSettledAt := t\<rparr>) =
     promote (b\<lparr>erState := x, erDigest := d, erSettledAt := t\<rparr>)"
  by (cases a; cases b; simp add: promote_def split: if_splits)+

lemma promoted_ids:
  assumes "map promote rows = map promote rows'"
  shows "list_ex (\<lambda>x. erId x = i) rows = list_ex (\<lambda>x. erId x = i) rows'"
proof -
  have ex: "list_ex (\<lambda>x. erId x = i) l \<longleftrightarrow> i \<in> set (map erId l)" for l by (auto simp: list_ex_iff)
  have "map erId l = map erId (map promote l)" for l by simp
  then show ?thesis unfolding ex using assms by metis
qed

lemma insertRow_promote:
  assumes "map promote rows = map promote rows'"
  shows "map_option (map promote) (insertRow erId r rows) = map_option (map promote) (insertRow erId r rows')"
proof -
  have ids: "list_ex (\<lambda>x. erId x = i) rows = list_ex (\<lambda>x. erId x = i) rows'" for i
    using promoted_ids [OF assms] .
  show ?thesis by (simp add: insertRow_def ids assms)
qed

lemma updateRows_promote:
  assumes "map promote rows = map promote rows'"
    and "\<And>a b. promote a = promote b \<Longrightarrow> promote (f a) = promote (f b)"
  shows "map promote (updateRows erId i f rows) = map promote (updateRows erId i f rows')"
  using assms(1)
proof (induction rows arbitrary: rows')
  case (Cons r rows)
  then obtain r' rs where "rows' = r' # rs" "promote r = promote r'" "map promote rows = map promote rs"
    by (cases rows') auto
  moreover from this have "promote (f r) = promote (f r')" "erId r = erId r'"
    by (blast intro: assms(2), blast dest: promote_eqD(1))
  ultimately show ?case using Cons.IH [of rs] by (simp add: updateRows_def)
qed (simp add: updateRows_def)

text \<open>Events that are not about side effects neither read nor write the ledger.\<close>

fun aboutEffects :: "eventPayload \<Rightarrow> bool" where
  "aboutEffects (SideEffectIntended _) = True"
| "aboutEffects (SideEffectStarted _) = True"
| "aboutEffects (SideEffectSettled _ _ _) = True"
| "aboutEffects _ = False"

lemma touchThread_frame: "touchThread e (p\<lparr>spEffects := ef\<rparr>) = (touchThread e p)\<lparr>spEffects := ef\<rparr>"
  by (simp add: touchThread_def)

lemma projectPayload_frame:
  assumes "\<not> aboutEffects pl"
  shows "projectPayload pl e (p\<lparr>spEffects := ef\<rparr>) = map_option (\<lambda>q. q\<lparr>spEffects := ef\<rparr>) (projectPayload pl e p)"
  using assms by (cases p; cases pl) (simp_all add: insertTurn_def option.map_comp comp_def split: option.split)

lemma projectStore_other:
  "(\<And>a b c. evPayload e \<noteq> ThreadCreated a b c) \<Longrightarrow>
     projectStore e p = map_option (touchThread e) (projectPayload (evPayload e) e p)"
  by (cases "evPayload e") (simp_all only: projectStore_def eventPayload.case eventPayload.distinct
      eventPayload.inject simp_thms, blast)

lemma projectStore_frame:
  assumes "\<not> aboutEffects (evPayload e)"
  shows "projectStore e (p\<lparr>spEffects := ef\<rparr>) = map_option (\<lambda>q. q\<lparr>spEffects := ef\<rparr>) (projectStore e p)"
proof (cases "\<exists>a b c. evPayload e = ThreadCreated a b c")
  case True
  then obtain a b c where pl: "evPayload e = ThreadCreated a b c" by blast
  show ?thesis by (cases p) (simp add: projectStore_def pl option.map_comp comp_def)
next
  case False
  then show ?thesis
    by (simp add: projectStore_other projectPayload_frame [OF assms] option.map_comp comp_def touchThread_frame)
qed

lemma projectStore_keeps:
  assumes "\<not> aboutEffects (evPayload e)" and "projectStore e p = Some x"
  shows "spEffects x = spEffects p"
proof -
  have "projectStore e p = map_option (\<lambda>q. q\<lparr>spEffects := spEffects p\<rparr>) (projectStore e p)"
    using projectStore_frame [OF assms(1), where p = p and ef = "spEffects p"] by simp
  with assms(2) have "x = x\<lparr>spEffects := spEffects p\<rparr>" by simp
  then show ?thesis by (rule ssubst) simp
qed

lemma project_promoted:
  assumes "promoteAll p = promoteAll q"
  shows "map_option promoteAll (projectStore e p) = map_option promoteAll (projectStore e q)"
proof -
  define ef where "ef = spEffects q"
  have ef: "map promote (spEffects p) = map promote ef" and q: "q = p\<lparr>spEffects := ef\<rparr>"
    using assms by (cases p; cases q; simp add: promoteAll_def ef_def)+
  note ids = promoted_ids [OF ef]
  have frame: "map_option promoteAll (projectStore e p) = map_option promoteAll (projectStore e q)"
    if "\<not> aboutEffects (evPayload e)"
    using projectStore_keeps [OF that, of p] unfolding q projectStore_frame [OF that]
    by (cases "projectStore e p") (simp_all add: promoteAll_def ef [symmetric])
  note up = updateRows_promote [OF ef]
  show ?thesis
  proof (cases "evPayload e")
    case (SideEffectIntended intent)
    then show ?thesis unfolding q
      by (simp add: projectStore_def insertEffect_def insertRow_def ids touchThread_def
          promoteAll_def ef split: option.split)
  next
    case (SideEffectStarted sid)
    then show ?thesis unfolding q
      by (simp add: projectStore_def touchThread_def promoteAll_def up [OF promote_eqD(2)])
  next
    case (SideEffectSettled sid x d)
    then show ?thesis unfolding q
      by (simp add: projectStore_def touchThread_def promoteAll_def up [OF promote_eqD(3)])
  next
    case other: (ThreadCreated a b c)
    then show ?thesis using frame by simp
  qed (use frame in simp_all)
qed

definition recoverable :: "eventStore \<Rightarrow> bool" where
  "recoverable s \<longleftrightarrow>
     (\<exists>p. replay projectStore (storeLog s) noRows = Some p \<and> promoteAll p = promoteAll (storeProj s))"

lemma projectStore_row: "projectStore (rowToEvent e) p = projectStore e p"
proof -
  have "touchThread (rowToEvent e) = touchThread e"
    by (rule ext) (simp add: touchThread_def rowToEvent_def)
  moreover have "evPayload (rowToEvent e) = evPayload e" "evTurnId (rowToEvent e) = evTurnId e"
    "evThreadId (rowToEvent e) = evThreadId e" "evTimestamp (rowToEvent e) = evTimestamp e"
    "evSeq (rowToEvent e) = evSeq e" "evPermissionProfile (rowToEvent e) = evPermissionProfile e"
    by (simp_all add: rowToEvent_def)
  ultimately show ?thesis
    by (cases "evPayload e") (simp_all add: projectStore_def insertTurn_def insertEffect_def cong: option.case_cong)
qed

lemma replay_rows: "replay projectStore (map rowToEvent es) p = replay projectStore es p"
  by (induction es arbitrary: p) (simp_all add: projectStore_row split: option.split)

lemma rebuild_replays:
  assumes "replay projectStore (storeLog s) noRows = Some p"
  shows "rebuildProjections s = (Inr (length (storeLog s)), s\<lparr>storeProj := p\<rparr>)"
  using assms by (simp add: rebuildProjections_def readAll_def replay_rows)

lemma step_recoverable:
  assumes "store_step s s'" and "recoverable s" shows "recoverable s'"
proof -
  obtain p where p: "replay projectStore (storeLog s) noRows = Some p" "promoteAll p = promoteAll (storeProj s)"
    using assms(2) by (auto simp: recoverable_def)
  from assms(1) show ?thesis
  proof cases
    case (append opts now eid input)
    show ?thesis
    proof (cases rule: appendEvent_cases [of opts now eid input s])
      case (failed f)
      then show ?thesis using assms(2) append by simp
    next
      case (stored e q)
      from project_promoted [OF p(2), of e] obtain p' where
        "projectStore e p = Some p'" "promoteAll p' = promoteAll q"
        by (auto simp: stored(3))
      then show ?thesis using p append stored(1)
        by (auto simp: recoverable_def replay_append)
    qed
  next
    case recover
    then show ?thesis using p by (auto simp: recoverable_def recoverInterrupted_def Let_def promoteAll_def)
  next
    case rebuild
    then show ?thesis using p by (auto simp: rebuild_replays recoverable_def)
  next
    case (blob opts digest content)
    then show ?thesis using assms(2) by (simp add: recoverable_def putBlob_def)
  qed
qed

lemma reach_recoverable: "unpruned_reach s \<Longrightarrow> recoverable s"
  by (induction rule: unpruned_reach.induct)
    (auto simp: recoverable_def freshStore_def intro: step_recoverable [unfolded recoverable_def])

text \<open>The row that the guard reads is one of the newest rows with the key.\<close>

definition picks :: "(string list \<Rightarrow> nat) \<Rightarrow> bool" where
  "picks tie \<longleftrightarrow> (\<forall>ids. ids \<noteq> [] \<longrightarrow> tie ids < length ids)"

lemma newestRows_promote: "newestRows key (map promote rows) = map promote (newestRows key rows)"
  by (simp add: newestRows_def Let_def filter_map comp_def list_all_iff)

lemma ledgerState_promoted:
  assumes "picks tie"
  shows "ledgerState tie key (x\<lparr>storeProj := promoteAll (storeProj x)\<rparr>) =
    map_option (\<lambda>s. if s = E_in_flight then E_indeterminate else s) (ledgerState tie key x)"
proof (cases "newestRows key (spEffects (storeProj x)) = []")
  case True
  then show ?thesis by (simp add: ledgerState_def promoteAll_def newestRows_promote)
next
  case False
  let ?rows = "newestRows key (spEffects (storeProj x))"
  have state: "ledgerState tie key y =
      (let rows = newestRows key (spEffects (storeProj y)) in
       if rows = [] then None else Some (erState (rows ! tie (map erId rows))))" for y
    unfolding ledgerState_def Let_def by (simp split: list.split)
  have "tie (map erId ?rows) < length ?rows" using assms False by (auto simp: picks_def)
  then show ?thesis using False
    by (simp add: state promoteAll_def newestRows_promote comp_def Let_def) (simp add: promote_def)
qed

lemma mayExecute_promoted:
  assumes "picks tie" and "promoteAll (storeProj s) = promoteAll (storeProj s')"
  shows "mayExecute tie key s = mayExecute tie key s'"
proof -
  have guard: "mayExecute tie key x = mayExecute tie key (x\<lparr>storeProj := promoteAll (storeProj x)\<rparr>)" for x
    unfolding mayExecute_def ledgerState_promoted [OF assms(1)]
    by (cases "ledgerState tie key x"; cases "the (ledgerState tie key x)") auto
  show ?thesis unfolding guard [of s] guard [of s'] assms(2)
    by (simp add: mayExecute_def ledgerState_def)
qed

text \<open>
  Rebuilding the projections after any history of appends (failed and injected-fault ones included),
  crash recoveries and earlier rebuilds succeeds, keeps log, threads, turns and items as they were, and
  changes no verdict of the recovery guard; a recovery after it ends in the same store as a recovery
  without it. (What a rebuild does not keep is the promotion of interrupted effects itself, which
  is not in the log.)
\<close>

theorem rebuild_keeps_guard:
  assumes "unpruned_reach s" and "picks tie"
  shows "\<exists>p. rebuildProjections s = (Inr (length (storeLog s)), s\<lparr>storeProj := p\<rparr>) \<and>
    spThreads p = spThreads (storeProj s) \<and> spTurns p = spTurns (storeProj s) \<and>
    spItems p = spItems (storeProj s) \<and>
    (\<forall>key. mayExecute tie key (s\<lparr>storeProj := p\<rparr>) = mayExecute tie key s) \<and>
    snd (recoverInterrupted (s\<lparr>storeProj := p\<rparr>)) = snd (recoverInterrupted s)"
proof -
  obtain p where p: "replay projectStore (storeLog s) noRows = Some p" "promoteAll p = promoteAll (storeProj s)"
    using reach_recoverable [OF assms(1)] by (auto simp: recoverable_def)
  have recovered: "snd (recoverInterrupted x) = x\<lparr>storeProj := promoteAll (storeProj x)\<rparr>" for x
    by (simp add: recoverInterrupted_def promoteAll_def Let_def)
  have rest: "spThreads p = spThreads (storeProj s) \<and> spTurns p = spTurns (storeProj s) \<and> spItems p = spItems (storeProj s)"
    using p(2) by (cases p; cases "storeProj s") (simp add: promoteAll_def)
  show ?thesis
    using rebuild_replays [OF p(1)] rest mayExecute_promoted [OF assms(2), of "s\<lparr>storeProj := p\<rparr>" s] p(2)
    by (auto simp: recovered)
qed

definition sampleOptions :: storeOptions where
  "sampleOptions = \<lparr>soRedact = id, soRedactText = id, soSchemaOk = (\<lambda>_. True), soFailAt = None\<rparr>"

definition sampleInputOf :: "eventPayload \<Rightarrow> appendInput" where
  "sampleInputOf pl = \<lparr>aiThreadId = ''thr'', aiTurnId = Some ''trn'', aiItemId = None,
     aiActor = \<lparr>actorKind = A_model, actorId = ''m'', actorLabel = None\<rparr>, aiCorrelationId = ''cor'',
     aiPermissionProfile = P_ask, aiPayload = pl\<rparr>"

definition sampleIntent :: "string \<Rightarrow> sideEffectIntent" where
  "sampleIntent sid = \<lparr>siSideEffectId = sid, siIdempotencyKey = ''key'', siKind = K_shell,
     siDestructive = True, siNormalizedAction = ''rm -rf build''\<rparr>"

definition sampleAppend :: "int \<Rightarrow> string \<Rightarrow> eventPayload \<Rightarrow> eventStore \<Rightarrow> eventStore" where
  "sampleAppend now eid pl s = snd (appendEvent sampleOptions now eid (sampleInputOf pl) s)"

text \<open>A shell command was started and the process died; the store has been recovered since.\<close>

definition interruptedStore :: eventStore where
  "interruptedStore = snd (recoverInterrupted
     (sampleAppend 2 ''e2'' (SideEffectStarted ''sfx1'')
       (sampleAppend 1 ''e1'' (SideEffectIntended (sampleIntent ''sfx1'')) freshStore)))"

lemma interrupted_reach: "unpruned_reach interruptedStore"
  unfolding interruptedStore_def sampleAppend_def
  by (intro unpruned_reach.intros(2) [OF _ recover] unpruned_reach.intros(2) [OF _ append] unpruned_reach.intros(1))

lemma rebuild_keeps_guard_witness:
  "\<exists>p. rebuildProjections interruptedStore = (Inr 2, interruptedStore\<lparr>storeProj := p\<rparr>) \<and>
     fst (mayExecute (\<lambda>_. 0) ''key'' interruptedStore) = False"
proof -
  have "picks (\<lambda>_. 0)" by (simp add: picks_def)
  from rebuild_keeps_guard [OF interrupted_reach this] obtain p where
    "rebuildProjections interruptedStore = (Inr (length (storeLog interruptedStore)), interruptedStore\<lparr>storeProj := p\<rparr>)"
    by blast
  moreover have "length (storeLog interruptedStore) = 2" by code_simp
  moreover have "fst (mayExecute (\<lambda>_. 0) ''key'' interruptedStore) = False" by code_simp
  ultimately show ?thesis by auto
qed

text \<open>
  C33: A fresh intent hides the past from the recovery guard: once the intent of a new attempt has been
  stored, later in time than every earlier row with its key, the guard answers for that new row and
  allows the execution, even when an earlier attempt with the same key is known to be complete or was
  interrupted.
\<close>

theorem fresh_intent_masks_guard:
  assumes "appendEvent opts now eid input s = (Inr e, s')"
    and "soRedact opts (aiPayload input) = SideEffectIntended intent"
    and "list_all (\<lambda>r. erKey r = siIdempotencyKey intent \<longrightarrow> erCreatedAt r < now) (spEffects (storeProj s))"
    and "picks tie"
  shows "mayExecute tie (siIdempotencyKey intent) s' = (True, ''no prior execution recorded'')"
proof (cases rule: appendEvent_cases [of opts now eid input s])
  case (failed f)
  with assms(1) show ?thesis by simp
next
  case (stored e' p)
  have pl: "evPayload e' = SideEffectIntended intent" "evTimestamp e' = now"
    using stored(2) assms(2) by (simp_all add: envelope_def)
  from stored(3) pl obtain r where p: "spEffects p = spEffects (storeProj s) @ [r]"
    and r: "erKey r = siIdempotencyKey intent" "erCreatedAt r = now" "erState r = E_not_started"
    by (auto simp: projectStore_def insertEffect_def insertRow_def touchThread_def split: option.splits if_splits)
  have "newestRows (siIdempotencyKey intent) (spEffects p) = [r]"
    using assms(3) r by (auto simp: newestRows_def p list_all_iff filter_empty_conv)
  moreover have "storeProj s' = p" using assms(1) stored(1) by auto
  moreover have "tie [erId r] = 0" using assms(4) by (simp add: picks_def) (metis One_nat_def length_Cons less_one list.distinct(1) list.size(3))
  ultimately show ?thesis by (simp add: mayExecute_def ledgerState_def r)
qed

text \<open>A completed command, and the same command attempted again a millisecond later.\<close>

definition completedStore :: eventStore where
  "completedStore =
     sampleAppend 3 ''e3'' (SideEffectSettled ''sfx1'' E_known_complete None)
       (sampleAppend 2 ''e2'' (SideEffectStarted ''sfx1'')
         (sampleAppend 1 ''e1'' (SideEffectIntended (sampleIntent ''sfx1'')) freshStore))"

lemma fresh_intent_masks_guard_witness:
  "fst (mayExecute (\<lambda>_. 0) ''key'' completedStore) = False \<and>
   mayExecute (\<lambda>_. 0) ''key'' (sampleAppend 4 ''e4'' (SideEffectIntended (sampleIntent ''sfx2'')) completedStore) =
     (True, ''no prior execution recorded'')"
proof -
  let ?input = "sampleInputOf (SideEffectIntended (sampleIntent ''sfx2''))"
  have ok: "isl (fst (appendEvent sampleOptions 4 ''e4'' ?input completedStore)) = False" by code_simp
  then obtain e where e: "appendEvent sampleOptions 4 ''e4'' ?input completedStore =
      (Inr e, sampleAppend 4 ''e4'' (SideEffectIntended (sampleIntent ''sfx2'')) completedStore)"
    unfolding sampleAppend_def by (metis isl_def prod.collapse sum.collapse(2))
  have key: "siIdempotencyKey (sampleIntent ''sfx2'') = ''key''" by code_simp
  have "list_all (\<lambda>r. erKey r = siIdempotencyKey (sampleIntent ''sfx2'') \<longrightarrow> erCreatedAt r < 4)
      (spEffects (storeProj completedStore))" by code_simp
  from fresh_intent_masks_guard [OF e _ this, of "\<lambda>_. 0"] key
  have "mayExecute (\<lambda>_. 0) ''key'' (sampleAppend 4 ''e4'' (SideEffectIntended (sampleIntent ''sfx2'')) completedStore) =
     (True, ''no prior execution recorded'')"
    by (simp add: sampleOptions_def sampleInputOf_def picks_def)
  moreover have "fst (mayExecute (\<lambda>_. 0) ''key'' completedStore) = False" by code_simp
  ultimately show ?thesis by blast
qed

text \<open>
  In every thread of every store that operations can produce (pruning included) the events are
  numbered 0, 1, 2 and so on in the order of the log, without a gap or a repetition, and event ids are
  unique.
\<close>

theorem thread_log_gapless:
  assumes "store_reach s"
  shows "map evSeq (filter (\<lambda>e. evThreadId e = t) (storeLog s)) =
      [0..<length (filter (\<lambda>e. evThreadId e = t) (storeLog s))] \<and> distinct (map evId (storeLog s))"
  using reach_gapless [OF assms] by (metis gapless_def length_map threadSeqs_def)

lemma thread_log_gapless_witness:
  "map evSeq (storeLog completedStore) = [0, 1, 2] \<and> store_reach completedStore"
proof -
  have "store_reach completedStore"
    unfolding completedStore_def sampleAppend_def
    by (intro store_reach.step [OF _ append] store_reach.start)
  moreover have "filter (\<lambda>e. evThreadId e = ''thr'') (storeLog completedStore) = storeLog completedStore"
    by code_simp
  moreover have "length (storeLog completedStore) = 3" by code_simp
  ultimately show ?thesis using thread_log_gapless [of completedStore "''thr''"]
    by (simp add: upt_conv_Cons)
qed

end
