(* ===== verification/Context_Theorems.thy ===== *)
theory Context_Theorems
  imports Context_Pairing Event_Store_Theorems
begin

text \<open>
  What the context manager guarantees for the conversation it hands back: the recent tail, the pairs of
  calls and results, the durable records of a compaction and of every offloaded result; and where it fails:
  a compaction that separates results from their calls, and the prompt of a resumed thread.
\<close>

subsection \<open>The recent tail\<close>

lemma lastN_append: "n \<le> length ys \<Longrightarrow> lastN n (xs @ ys) = lastN n ys"
  by (simp add: lastN_def)

lemma lastN_length [simp]: "length (lastN n xs) = min n (length xs)"
  by (simp add: lastN_def)

lemma lastN_self [simp]: "lastN n (lastN n xs) = lastN n xs"
  by (simp add: lastN_def)

lemma lastN_all: "length xs \<le> n \<Longrightarrow> lastN n xs = xs"
  by (simp add: lastN_def)

lemma manager_target [simp]: "roTarget (managerOptions d) = None" "roPreserveRecent (managerOptions d) = Some 4"
  by (simp_all add: managerOptions_def KEEP_RECENT_def)

definition reducedItems :: "'w contextDeps \<Rightarrow> inputItem list \<Rightarrow> 'w contextState \<Rightarrow> inputItem list" where
  "reducedItems d conv s = rdItems (fst (reduceContext conv (managerOptions d) s))"

lemma reducedItems_shape:
  "reducedItems d conv s = keepFirst (offloadedPart (managerOptions d) 4 conv s) @ lastN 4 conv"
  using reduce_shape[of "managerOptions d" conv s] by (simp add: reducedItems_def)

lemma keepFirst_empty [simp]: "keepFirst xs = [] \<longleftrightarrow> xs = []"
  by (cases xs) (simp_all add: keepFirst_def)

lemma reduced_tail: "lastN 4 (reducedItems d conv s) = lastN 4 conv"
proof (cases "4 \<le> length conv")
  case True then show ?thesis by (simp add: reducedItems_shape lastN_append)
next
  case False
  then have "offloadedPart (managerOptions d) 4 conv s = []" by (simp flip: length_0_conv)
  then show ?thesis by (simp add: reducedItems_shape keepFirst_def)
qed

text \<open>The two outcomes of a preparation.\<close>

lemma prepare_cases:
  assumes "prepareItems d instructions conv base s = (prep, s')"
  obtains (kept) "prep = keptItems (reducedItems d conv s)"
  | (compacted) trigger s3 r where
      "4 < length (reducedItems d conv s)"
      "csStore s3 = csStore (snd (reduceContext conv (managerOptions d) s))"
      "trigger \<noteq> Ct_manual"
      "compactHead d base trigger (oldPart 4 (reducedItems d conv s)) s3 = (Inr (Some r), s')"
      "cpItems prep = summaryMessage r # lastN 4 conv" "cpCompacted prep"
proof -
  obtain res s1 where red: "reduceContext conv (managerOptions d) s = (res, s1)" by fastforce
  define items where "items = rdItems res"
  have items: "items = reducedItems d conv s" by (simp add: items_def reducedItems_def red)
  define budget where "budget = managerBudget d instructions items"
  define trigger where "trigger = (if bbOverCapacity budget then Ct_reactive_overflow else Ct_proactive)"
  define s2 where "s2 = s1\<lparr>csLastUtilization := bbUtilization budget\<rparr>"
  define s3 where "s3 = s2\<lparr>csWorld := cdPreCompact d trigger (length (oldPart 4 items)) (csWorld s2)\<rparr>"
  have tail: "drop (length items - 4) items = lastN 4 conv"
    using reduced_tail[of d conv s] by (simp add: items lastN_def)
  have eq: "prepareItems d instructions conv base s =
    (if \<not> (bbOverThreshold budget \<or> bbOverCapacity budget) then (keptItems items, s2)
     else if oldPart 4 items = [] then (keptItems items, s2)
     else (case compactHead d base trigger (oldPart 4 items) s3 of
              (Inl e, s4) \<Rightarrow> (keptItems items, s4)
            | (Inr None, s4) \<Rightarrow> (keptItems items, s4)
            | (Inr (Some r), s4) \<Rightarrow> (\<lparr>cpItems = summaryMessage r # lastN 4 conv, cpCompacted = True,
           cpTrigger = (if crTrigger r = Ct_manual then None else Some (crTrigger r))\<rparr>, s4)))"
    unfolding prepareItems_def red Let_def prod.case KEEP_RECENT_def items_def[symmetric] budget_def[symmetric]
      trigger_def[symmetric] tail s2_def[symmetric] oldPart_def[symmetric] s3_def ..
  show thesis
  proof (cases "\<not> (bbOverThreshold budget \<or> bbOverCapacity budget) \<or> oldPart 4 items = []")
    case True then show thesis using assms eq kept by (auto simp: items split: if_splits)
  next
    case False
    then have long: "4 < length items" by (auto simp: oldPart_def)
    obtain x s4 where c: "compactHead d base trigger (oldPart 4 items) s3 = (x, s4)" by fastforce
    consider (no) "\<And>r. x \<noteq> Inr (Some r)" | (yes) r where "x = Inr (Some r)" by blast
    then show thesis
    proof cases
      case no
      with False assms eq c have "prep = keptItems items" by (cases x) (auto split: option.splits)
      then show thesis using kept by (simp add: items)
    next
      case yes
      show thesis
        by (rule compacted[of s3 trigger r])
          (use False assms eq c long yes red in \<open>auto simp: items s3_def s2_def trigger_def\<close>)
    qed
  qed
qed

text \<open>
  Whatever the context manager does before a model request, it hands back the last four items of the
  conversation unchanged and in place; and as long as it does not compact, every tool result still follows
  its call when it did before.
\<close>
theorem prepare_keeps_recent:
  assumes "prepareItems d instructions conv base s = (prep, s')"
  shows "lastN 4 (cpItems prep) = lastN 4 conv \<and>
    (isPairingIntact conv \<longrightarrow> \<not> cpCompacted prep \<longrightarrow> isPairingIntact (cpItems prep))"
  using assms
proof (cases rule: prepare_cases)
  case kept
  then show ?thesis
    using reduction_keeps_pairing[of conv "managerOptions d" s] reduced_tail[of d conv s]
    by (simp add: keptItems_def reducedItems_def)
next
  case (compacted trigger s3 r)
  then have "4 \<le> length conv"
    using arg_cong[OF reduced_tail, of length d conv s] by simp
  with compacted show ?thesis by (simp add: lastN_append[of 4 _ "[summaryMessage r]", simplified])
qed

subsection \<open>Compaction and pairs\<close>

lemma intact_no_call: "resultIn c x \<Longrightarrow> \<not> isPairingIntact (x # xs)"
  by (cases x) (simp_all add: isPairingIntact_def)

text \<open>
  C25: When a conversation ends with the results of four or more calls, as it does after a round that ran
  four calls in parallel, a compaction sends the last four results to the model without their calls: the
  prepared conversation is not paired, although the given one was.
\<close>
theorem compaction_orphans_results:
  assumes "prepareItems d instructions conv base s = (prep, s')" "cpCompacted prep"
    and "conv = before @ results" "length results = 4" "list_all (\<lambda>x. \<exists>c. resultIn c x) results"
  shows "\<not> isPairingIntact (cpItems prep)"
  using assms(1)
proof (cases rule: prepare_cases)
  case kept then show ?thesis using assms(2) by (simp add: keptItems_def)
next
  case (compacted trigger s3 r)
  have "lastN 4 conv = results" using assms(3,4) by (simp add: lastN_def)
  moreover obtain x xs c where "results = x # xs" "resultIn c x" using assms(4,5) by (cases results) auto
  ultimately have "cpItems prep = [summaryMessage r] @ x # xs" using compacted(5) by simp
  with \<open>resultIn c x\<close> intact_no_call[of c x xs] show ?thesis
    by (simp add: summaryMessage_def isPairingIntact_def)
qed

subsection \<open>The prompt of a later turn\<close>

lemma skeleton_message: "skeleton x = MessageItem u p \<longleftrightarrow> x = MessageItem u p"
  by (cases x) simp_all

lemma keepFirst_message:
  "MessageItem u p \<in> set (keepFirst xs) \<longleftrightarrow> (\<exists>rest. xs = MessageItem u p # rest)"
  by (cases xs) (auto simp: keepFirst_def)

lemma first_message:
  assumes "keepFirst xs = ys" "map skeleton xs = map skeleton zs" "MessageItem u p \<in> set ys"
  shows "\<exists>rest. zs = MessageItem u p # rest"
proof -
  from assms keepFirst_message obtain rest where "xs = MessageItem u p # rest" by blast
  with assms(2) show ?thesis by (cases zs) (auto simp: skeleton_message dest: sym)
qed

text \<open>
  C26: In a thread with history, the user's current prompt is neither the first item nor, once four items
  have followed it, in the recent tail; the manager then removes it from what the model sees, at every
  utilization, and the model goes on without the request it is working on.
\<close>
theorem current_prompt_pruned:
  assumes "prepareItems d instructions conv base s = (prep, s')" "\<not> cpCompacted prep"
    and "conv = history @ MessageItem True prompt # later" "4 \<le> length later"
    and "\<exists>x xs. history = x # xs \<and> x \<noteq> MessageItem True prompt" "MessageItem True prompt \<notin> set later"
  shows "MessageItem True prompt \<notin> set (cpItems prep)"
  using assms(1)
proof (cases rule: prepare_cases)
  case kept
  obtain x xs where h: "history = x # xs" "x \<noteq> MessageItem True prompt" using assms(5) by blast
  have tail: "lastN 4 conv = lastN 4 later"
    using assms(3,4) lastN_append[of 4 later "history @ [MessageItem True prompt]"] by simp
  have "MessageItem True prompt \<notin> set (keepFirst (offloadedPart (managerOptions d) 4 conv s))"
  proof
    assume "MessageItem True prompt \<in> set (keepFirst (offloadedPart (managerOptions d) 4 conv s))"
    from first_message[OF refl offloadedPart_skeleton this] obtain rest
      where "oldPart 4 conv = MessageItem True prompt # rest" by blast
    moreover have "oldPart 4 conv = x # take (length conv - 5) (xs @ MessageItem True prompt # later)"
      using assms(3,4) h(1) by (simp add: oldPart_def take_Cons')
    ultimately show False using h(2) by simp
  qed
  moreover have "MessageItem True prompt \<notin> set (lastN 4 later)"
    using assms(6) by (auto simp: lastN_def dest: in_set_dropD)
  ultimately show ?thesis using kept by (simp add: keptItems_def reducedItems_shape tail)
next
  case (compacted trigger s3 r)
  then show ?thesis using assms(2) by simp
qed

subsection \<open>Durable records\<close>

lemma bindC_Inr: "bindC m f s = (Inr y, s') \<longleftrightarrow> (\<exists>x s1. m s = (Inr x, s1) \<and> f x s1 = (Inr y, s'))"
  by (auto simp: bindC_def split: prod.splits sum.splits)

lemma storeAppend_Inr:
  assumes "storeAppend d input s = (Inr u, s')"
  shows "\<exists>e. storeLog (csStore s') = storeLog (csStore s) @ [e] \<and>
    evPayload e = soRedact (cdStore d) (aiPayload input) \<and> storeBlobs (csStore s') = storeBlobs (csStore s)"
proof -
  obtain eid now w where s': "(case appendEvent (cdStore d) now eid input (csStore s) of
      (Inl e, st) \<Rightarrow> (Inl (Cx_store e), s\<lparr>csWorld := w, csStore := st\<rparr>)
    | (Inr ev, st) \<Rightarrow> (Inr (), s\<lparr>csWorld := w, csStore := st\<rparr>)) = (Inr u, s')"
    using assms by (auto simp: storeAppend_def bindC_Inr takeIdC_def takeNowC_def split: prod.splits)
  show ?thesis
    by (cases rule: appendEvent_cases[of "cdStore d" now eid input "csStore s"])
      (use s' in \<open>auto simp: envelope_def\<close>)
qed

lemma storeAppend_item:
  assumes "storeAppend d (compactionInput d base iid seq now body) s = (Inr u, s')"
  shows "\<exists>e i. storeLog (csStore s') = storeLog (csStore s) @ [e] \<and>
    evPayload e = soRedact (cdStore d) (ItemAppended i) \<and> itBody i = body"
proof -
  have "\<exists>i. aiPayload (compactionInput d base iid seq now body) = ItemAppended i \<and> itBody i = body"
    by (simp add: compactionInput_def)
  with storeAppend_Inr[OF assms] show ?thesis by fastforce
qed

lemma boundary_Inr:
  assumes "eventStoreBoundaryStore d base b s = (Inr ref, s')"
  shows "ref = tbDigest b \<and> (\<exists>e i. storeLog (csStore s') = storeLog (csStore s) @ [e] \<and>
    evPayload e = soRedact (cdStore d) (ItemAppended i) \<and> itBody i = markerBody b)"
  using assms
  by (auto simp: eventStoreBoundaryStore_def bindC_Inr takeIdC_def takeNowC_def nextItemSeq_def returnC_def
      split: prod.splits dest!: storeAppend_item)

lemma recordItem_Inr:
  assumes "recordCompactionItem d base r s = (Inr u, s')"
  shows "\<exists>e i. storeLog (csStore s') = storeLog (csStore s) @ [e] \<and>
    evPayload e = soRedact (cdStore d) (ItemAppended i) \<and> itBody i = finalBody r"
  using assms
  by (auto simp: recordCompactionItem_def bindC_Inr takeIdC_def takeNowC_def nextItemSeq_def
      split: prod.splits dest!: storeAppend_item)

lemma parse_draftValue:
  "parseDraft (draftValue d) = (if pcGoal (sdPreserved d) = [] then None else Some d)"
proof -
  have l: "stringListOf (Some (JsArr (map JsStr ss))) = Some ss" for ss by (induction ss) simp_all
  show ?thesis by (simp add: parseDraft_def draftValue_def parsePreserved_def Let_def l del: stringListOf.simps)
qed

lemma summaryGoal_not_empty: "summaryGoal items \<noteq> []"
  by (simp add: summaryGoal_def split: list.splits)

lemma compact_deterministic:
  assumes "compact \<lparr>coItems = items, coSummarizer = deterministicSummarizer tasks, coBoundaryStore = bs,
      coTrigger = Some trigger, coFocus = None, coEstimate = None\<rparr> s = (Inr r, s')"
  shows "bs \<lparr>tbItems = items, tbDigest = digestTranscript items, tbItemCount = length items,
        tbTokensBefore = estimateItems defaultTokenEstimator items, tbTrigger = trigger\<rparr> s = (Inr (crBoundaryRef r), s') \<and>
    crTrigger r = trigger \<and> crTokensBefore r = estimateItems defaultTokenEstimator items \<and>
    crTokensAfter r = defaultTokenEstimator (crSummary r) \<and>
    crFreedTokens r = int (crTokensBefore r) - int (crTokensAfter r) \<and>
    crSummary r = renderSummary (sdPreserved (deterministicDraft tasks items)) (sdProse (deterministicDraft tasks items))"
proof -
  have goal: "pcGoal (sdPreserved (deterministicDraft tasks items)) \<noteq> []"
    by (simp add: deterministicDraft_def summaryGoal_not_empty)
  show ?thesis using assms goal
    by (auto simp: compact_def Let_def bindC_Inr deterministicSummarizer_def returnC_def parse_draftValue)
qed

lemma summary_goal:
  "startsWith (renderSummary p prose) (''# Compaction summary'' @ newlines 2 @ ''## Goal'' @ newlines 1 @ pcGoal p)"
proof -
  define a where "a = ''# Compaction summary''"
  define b where "b = ''## Goal'' @ newlines 1 @ pcGoal p"
  have "a \<noteq> []" "b \<noteq> []" by (simp_all add: a_def b_def)
  then obtain rest where "renderSummary p prose = joinWith (newlines 2) (a # b # rest)"
    unfolding renderSummary_def a_def[symmetric] b_def[symmetric] by simp
  then have "\<exists>r. renderSummary p prose = (a @ newlines 2 @ b) @ r" by (cases rest) simp_all
  then show ?thesis unfolding startsWith_iff a_def b_def by simp
qed

lemma offload_log: "storeLog (csStore (snd (offloadAll (managerOptions d) k i items s))) = storeLog (csStore s)"
proof (induction items arbitrary: i s)
  case (Cons item items)
  have "storeLog (csStore (snd (offloadItem (managerOptions d) i item s))) = storeLog (csStore s)"
    by (cases item) (simp_all add: offloadItem_def managerOptions_def offloadRef_def putBlob_def Let_def)
  then show ?case
    using Cons[of "Suc i" "snd (offloadItem (managerOptions d) i item s)"] Cons[of "Suc i" s]
    by (auto simp: Let_def split: prod.splits)
qed simp

lemma reduce_state:
  "snd (reduceContext conv opts s) = snd (offloadAll opts (length conv - orElse (roPreserveRecent opts) 4) 0 conv s)"
  by (auto simp: reduceContext_def Let_def split: prod.splits option.splits)

text \<open>
  When the manager compacts with its own summarizer, exactly two events were added to the log: first the
  marker with the digest of the span that is replaced, then the compaction item with the same reference and
  the summary the model is shown. The summary opens with the goal, the first user message of the span, and
  takes at most nine tenths of the tokens of what it replaces.
\<close>
theorem compaction_recorded:
  assumes "prepareItems d instructions conv base s = (prep, s')" "cpCompacted prep" "cdSummarizer d = None"
  shows "\<exists>trigger summary m1 m2 e1 e2. let span = oldPart 4 (reducedItems d conv s);
      before = estimateItems defaultTokenEstimator span; after = defaultTokenEstimator summary;
      digest = digestTranscript span in
    storeLog (csStore s') = storeLog (csStore s) @ [e1, e2] \<and>
    evPayload e1 = soRedact (cdStore d) (ItemAppended m1) \<and>
    evPayload e2 = soRedact (cdStore d) (ItemAppended m2) \<and>
    itBody m1 = CompactionItem trigger digest (''[boundary marker for '' @ natStr (length span) @ '' item(s)]'') before 0 \<and>
    itBody m2 = CompactionItem trigger digest summary before after \<and>
    cpItems prep = MessageItem True summary # lastN 4 conv \<and>
    startsWith summary (''# Compaction summary'' @ newlines 2 @ ''## Goal'' @ newlines 1 @ summaryGoal span) \<and>
    10 * after \<le> 9 * before"
  using assms(1)
proof (cases rule: prepare_cases)
  case kept then show ?thesis using assms(2) by (simp add: keptItems_def)
next
  case (compacted trigger s3 r)
  define span where "span = oldPart 4 (reducedItems d conv s)"
  define opts where "opts = \<lparr>coItems = span, coSummarizer = deterministicSummarizer (cdTasks d),
    coBoundaryStore = eventStoreBoundaryStore d base, coTrigger = Some trigger, coFocus = None, coEstimate = None\<rparr>"
  obtain s4 s5 where c: "compact opts s3 = (Inr r, s4)" and f: "evaluateCompaction r DEFAULT_MIN_FREED_FRACTION = Compacted r"
    and rec: "recordCompactionItem d base r s4 = (Inr (), s5)" and s': "csStore s' = csStore s5"
    using compacted(4) assms(3)
    by (auto simp: compactHead_def bindC_Inr returnC_def span_def[symmetric] opts_def evaluateCompaction_def
        split: compactionOutcome.splits if_splits)
  note facts = compact_deterministic[OF c[unfolded opts_def]]
  have log3: "storeLog (csStore s3) = storeLog (csStore s)"
    by (simp add: compacted(2) reduce_state offload_log)
  from boundary_Inr[OF facts[THEN conjunct1]] obtain e1 m1 where
    one: "crBoundaryRef r = digestTranscript span" "storeLog (csStore s4) = storeLog (csStore s) @ [e1]"
      "evPayload e1 = soRedact (cdStore d) (ItemAppended m1)"
      "itBody m1 = CompactionItem trigger (digestTranscript span)
         (''[boundary marker for '' @ natStr (length span) @ '' item(s)]'') (estimateItems defaultTokenEstimator span) 0"
    by (auto simp: log3 markerBody_def)
  from recordItem_Inr[OF rec] one(2) obtain e2 m2 where
    two: "storeLog (csStore s') = storeLog (csStore s) @ [e1, e2]" "evPayload e2 = soRedact (cdStore d) (ItemAppended m2)"
      "itBody m2 = CompactionItem trigger (digestTranscript span) (crSummary r)
         (estimateItems defaultTokenEstimator span) (defaultTokenEstimator (crSummary r))"
    using facts one(1) s' by (auto simp: finalBody_def)
  have "10 * crTokensAfter r \<le> 9 * crTokensBefore r"
  proof -
    from f facts have pos: "crTokensAfter r < crTokensBefore r" and
      frac: "1 / 10 \<le> (rat_of_int (crFreedTokens r) / rat_of_nat (crTokensBefore r))"
      by (auto simp: evaluateCompaction_def freedFraction_def DEFAULT_MIN_FREED_FRACTION_def split: if_splits)
    then have "rat_of_nat (crTokensBefore r) \<le> 10 * (rat_of_nat (crTokensBefore r) - rat_of_nat (crTokensAfter r))"
      using facts by (simp add: field_simps)
    then have "rat_of_nat (10 * crTokensAfter r) \<le> rat_of_nat (9 * crTokensBefore r)" by simp
    then show ?thesis by (simp only: of_nat_le_iff)
  qed
  then show ?thesis
    using one two compacted(5) facts summary_goal[of "sdPreserved (deterministicDraft (cdTasks d) span)"]
    unfolding span_def[symmetric] Let_def
    by (intro exI[of _ trigger] exI[of _ "crSummary r"] exI[of _ m1] exI[of _ m2] exI[of _ e1] exI[of _ e2])
      (simp add: summaryMessage_def deterministicDraft_def)
qed

subsection \<open>Offloaded results\<close>

definition blobDigest :: "string \<Rightarrow> string" where
  "blobDigest out = ''blb_'' @ stableHash out"

abbreviation blobOf :: "'w contextState \<Rightarrow> string \<Rightarrow> string option" where
  "blobOf s digest \<equiv> readBlob digest (csStore s)"

definition rendered :: "string \<Rightarrow> string" where
  "rendered out = renderOffloaded (makeContextRef (blobDigest out) out Rk_tool_result
     \<lparr>rpHeadChars = None, rpTailChars = None\<rparr> defaultTokenEstimator)"

definition isLong :: "'w contextDeps \<Rightarrow> inputItem \<Rightarrow> bool" where
  "isLong d i = (\<exists>c n out. i = FunctionOutput c n out \<and> orElse (cdThreshold d) DEFAULT_OFFLOAD_THRESHOLD < length out)"

lemma offloadItem_long:
  "offloadItem (managerOptions d) i (FunctionOutput c n out) s =
     ((FunctionOutput c n (rendered out),
       [makeContextRef (blobDigest out) out Rk_tool_result \<lparr>rpHeadChars = None, rpTailChars = None\<rparr> defaultTokenEstimator]),
      s\<lparr>csStore := putBlob (cdStore d) (blobDigest out) out (csStore s)\<rparr>)"
  by (simp add: offloadItem_def managerOptions_def offloadRef_def rendered_def blobDigest_def itemText_def
      estimatorOf_def Let_def)

lemma offloads_long: "offloads (managerOptions d) r i item \<longleftrightarrow> i < r \<and> isLong d item"
  by (cases item) (simp_all add: offloads_def isLong_def managerOptions_def)

lemma putBlob_read:
  "readBlob k (putBlob opts digest out s) =
     (if readBlob k s = None \<and> k = digest then Some (soRedactText opts out) else readBlob k s)"
  by (auto simp: putBlob_def readBlob_def map_add_def split: option.splits)

lemma offloadAll_step:
  "offloadAll (managerOptions d) r i (item # items) s =
     (case item of
        FunctionOutput c n out \<Rightarrow>
          (if i < r \<and> isLong d item
           then let ((items', refs), s') = offloadAll (managerOptions d) r (i + 1) items
                      (s\<lparr>csStore := putBlob (cdStore d) (blobDigest out) out (csStore s)\<rparr>)
                in ((FunctionOutput c n (rendered out) # items',
                     makeContextRef (blobDigest out) out Rk_tool_result \<lparr>rpHeadChars = None, rpTailChars = None\<rparr>
                       defaultTokenEstimator # refs), s')
           else let ((items', refs), s') = offloadAll (managerOptions d) r (i + 1) items s in ((item # items', refs), s'))
      | _ \<Rightarrow> let ((items', refs), s') = offloadAll (managerOptions d) r (i + 1) items s in ((item # items', refs), s'))"
  by (cases item) (auto simp: offloads_long isLong_def offloadItem_long Let_def split: prod.splits)

lemma offload_keeps_blob:
  "blobOf s k = Some x \<Longrightarrow> blobOf (snd (offloadAll (managerOptions d) r i items s)) k = Some x"
proof (induction items arbitrary: i s)
  case (Cons item items)
  show ?case
    using Cons.IH[of s "Suc i"] Cons.prems
      Cons.IH[of "s\<lparr>csStore := putBlob (cdStore d) (blobDigest (itemText item)) (itemText item) (csStore s)\<rparr>" "Suc i"]
    unfolding offloadAll_step
    by (cases item) (auto simp: Let_def putBlob_read itemText_def split: prod.splits)
qed simp

lemma offload_new_blob:
  "blobOf (snd (offloadAll (managerOptions d) r i items s)) k = Some x \<Longrightarrow>
   blobOf s k = Some x \<or> (\<exists>c n out. FunctionOutput c n out \<in> set items \<and> k = blobDigest out \<and> x = soRedactText (cdStore d) out)"
proof (induction items arbitrary: i s)
  case (Cons item items)
  show ?case
  proof (cases "\<exists>c n out. item = FunctionOutput c n out \<and> i < r \<and> isLong d item")
    case True
    then obtain c n out where item: "item = FunctionOutput c n out" "i < r" "isLong d item" by blast
    let ?s = "s\<lparr>csStore := putBlob (cdStore d) (blobDigest out) out (csStore s)\<rparr>"
    have "blobOf (snd (offloadAll (managerOptions d) r (Suc i) items ?s)) k = Some x"
      using Cons.prems item unfolding offloadAll_step by (simp add: Let_def split: prod.splits)
    from Cons.IH[OF this] show ?thesis unfolding item(1) by (auto simp: putBlob_read split: if_splits)
  next
    case False
    then have "blobOf (snd (offloadAll (managerOptions d) r (Suc i) items s)) k = Some x"
      using Cons.prems unfolding offloadAll_step by (cases item) (auto simp: Let_def split: prod.splits if_splits)
    from Cons.IH[OF this] show ?thesis by auto
  qed
qed simp

lemma offload_stores:
  assumes "j < length items" "i + j < r" "items ! j = FunctionOutput c n out" "isLong d (items ! j)"
  shows "fst (fst (offloadAll (managerOptions d) r i items s)) ! j = FunctionOutput c n (rendered out) \<and>
    blobOf (snd (offloadAll (managerOptions d) r i items s)) (blobDigest out) \<noteq> None"
  using assms
proof (induction items arbitrary: i j s)
  case (Cons item items)
  show ?case
  proof (cases j)
    case 0
    let ?s = "s\<lparr>csStore := putBlob (cdStore d) (blobDigest out) out (csStore s)\<rparr>"
    obtain x where "blobOf ?s (blobDigest out) = Some x"
      by (cases "blobOf s (blobDigest out)") (simp_all add: putBlob_read)
    from offload_keeps_blob[OF this, of d r "Suc i" items] show ?thesis
      using Cons.prems 0 unfolding offloadAll_step by (auto simp: Let_def split: prod.splits)
  next
    case (Suc m)
    with Cons.prems have prems: "m < length items" "Suc i + m < r" "items ! m = FunctionOutput c n out" "isLong d (items ! m)"
      by simp_all
    show ?thesis
      using Cons.IH[OF prems, of s] Suc
        Cons.IH[OF prems, of "s\<lparr>csStore := putBlob (cdStore d) (blobDigest (itemText item)) (itemText item) (csStore s)\<rparr>"]
      unfolding offloadAll_step
      by (cases item) (auto simp: Let_def itemText_def split: prod.splits)
  qed
qed simp

subsection \<open>What a compaction leaves alone\<close>

definition keepsBlobs :: "('w contextState, 'a) cx \<Rightarrow> bool" where
  "keepsBlobs m \<longleftrightarrow> (\<forall>s. storeBlobs (csStore (snd (m s))) = storeBlobs (csStore s))"

lemma keepsBlobs_bind: "keepsBlobs m \<Longrightarrow> (\<And>x. keepsBlobs (f x)) \<Longrightarrow> keepsBlobs (bindC m f)"
proof -
  assume m: "keepsBlobs m" and f: "\<And>x. keepsBlobs (f x)"
  show "keepsBlobs (bindC m f)"
    unfolding keepsBlobs_def
  proof
    fix s
    obtain r s1 where r: "m s = (r, s1)" by fastforce
    then have "storeBlobs (csStore s1) = storeBlobs (csStore s)" using m unfolding keepsBlobs_def by (metis snd_conv)
    with r f show "storeBlobs (csStore (snd (bindC m f s))) = storeBlobs (csStore s)"
      by (cases r) (simp_all add: bindC_def keepsBlobs_def)
  qed
qed

lemma keepsBlobs_basic:
  "keepsBlobs (returnC x)" "keepsBlobs (takeIdC d kind)" "keepsBlobs (takeNowC d)" "keepsBlobs nextItemSeq"
  by (simp_all add: keepsBlobs_def returnC_def takeIdC_def takeNowC_def nextItemSeq_def split: prod.split)

lemma keepsBlobs_append: "keepsBlobs (storeAppend d input)"
proof -
  have "keepsBlobs (\<lambda>s. case appendEvent (cdStore d) now eid input (csStore s) of
      (Inl e, st) \<Rightarrow> (Inl (Cx_store e), s\<lparr>csStore := st\<rparr>) | (Inr ev, st) \<Rightarrow> (Inr (), s\<lparr>csStore := st\<rparr>))" for now eid
    unfolding keepsBlobs_def
  proof
    fix s
    show "storeBlobs (csStore (snd (case appendEvent (cdStore d) now eid input (csStore s) of
        (Inl e, st) \<Rightarrow> (Inl (Cx_store e), s\<lparr>csStore := st\<rparr>) | (Inr ev, st) \<Rightarrow> (Inr (), s\<lparr>csStore := st\<rparr>)))) =
      storeBlobs (csStore s)"
      by (cases rule: appendEvent_cases[of "cdStore d" now eid input "csStore s"]) simp_all
  qed
  then show ?thesis unfolding storeAppend_def by (intro keepsBlobs_bind keepsBlobs_basic)
qed

lemma keepsBlobs_compactHead: "cdSummarizer d = None \<Longrightarrow> keepsBlobs (compactHead d base trigger items)"
proof -
  have boundary: "keepsBlobs (eventStoreBoundaryStore d base b)" for b
    unfolding eventStoreBoundaryStore_def by (intro keepsBlobs_bind keepsBlobs_basic keepsBlobs_append)
  have item: "keepsBlobs (recordCompactionItem d base r)" for r
    unfolding recordCompactionItem_def by (intro keepsBlobs_bind keepsBlobs_basic keepsBlobs_append)
  have parsed: "keepsBlobs (case parseDraft raw of None \<Rightarrow> (\<lambda>s. (Inl Cx_invalid_summary, s)) | Some x \<Rightarrow> returnC (g x))"
    for raw and g :: "summaryDraft \<Rightarrow> compactionResult"
    by (cases "parseDraft raw") (simp_all add: keepsBlobs_basic, simp add: keepsBlobs_def)
  have outcome: "keepsBlobs (case out of NoFurtherReduction reason b a f \<Rightarrow> returnC None
      | Compacted r' \<Rightarrow> bindC (recordCompactionItem d base r) (\<lambda>_ s.
          (Inr (Some r), s\<lparr>csCompactionCount := csCompactionCount s + 1\<rparr>)))" for out r
  proof (cases out)
    case (Compacted r')
    show ?thesis
      unfolding Compacted compactionOutcome.case by (rule keepsBlobs_bind[OF item]) (simp add: keepsBlobs_def)
  qed (simp add: keepsBlobs_basic)
  assume "cdSummarizer d = None"
  then show ?thesis
    unfolding compactHead_def compact_def Let_def
    by (auto intro!: keepsBlobs_bind boundary outcome parsed keepsBlobs_basic simp: deterministicSummarizer_def)
qed

lemma prepare_blobs:
  assumes "cdSummarizer d = None" "prepareItems d instructions conv base s = (prep, s')"
  shows "storeBlobs (csStore s') = storeBlobs (csStore (snd (reduceContext conv (managerOptions d) s)))"
proof -
  obtain res s1 where red: "reduceContext conv (managerOptions d) s = (res, s1)" by fastforce
  have "\<exists>u trigger items w. s' = s1\<lparr>csLastUtilization := u\<rparr> \<or>
      s' = snd (compactHead d base trigger items (s1\<lparr>csLastUtilization := u, csWorld := w\<rparr>))"
    using assms(2) unfolding prepareItems_def red Let_def prod.case
    by (auto split: if_splits prod.splits sum.splits option.splits) (metis snd_conv)+
  then show ?thesis
    using keepsBlobs_compactHead[OF assms(1)] by (auto simp: red keepsBlobs_def)
qed

text \<open>
  Nothing is lost by offloading. When the manager replaces an old result by its preview, the blob store
  holds the whole result, as the redactor leaves it, under the reference that the preview names, provided no
  other text with that digest was stored before or is in the conversation.
\<close>
theorem offloaded_results_recoverable:
  assumes "prepareItems d instructions conv base s = (prep, s')" "cdSummarizer d = None"
    and "j + 4 < length conv" "conv ! j = FunctionOutput c n out" "isLong d (conv ! j)"
    and "readBlob (blobDigest out) (csStore s) = None"
    and "\<And>c' n' out'. FunctionOutput c' n' out' \<in> set conv \<Longrightarrow> blobDigest out' = blobDigest out \<Longrightarrow> out' = out"
  shows "readBlob (blobDigest out) (csStore s') = Some (soRedactText (cdStore d) out) \<and>
    FunctionOutput c n (rendered out) \<in> set (reducedItems d conv s)"
proof -
  define r where "r = length conv - 4"
  define all where "all = offloadAll (managerOptions d) r 0 conv s"
  have j: "j < length conv" "0 + j < r" using assms(3) by (simp_all add: r_def)
  have blobs: "readBlob k (csStore s') = blobOf (snd all) k" for k
    using prepare_blobs[OF assms(2,1)] by (simp add: reduce_state readBlob_def all_def r_def)
  note stored = offload_stores[OF j assms(4,5), of s]
  then obtain x where x: "blobOf (snd all) (blobDigest out) = Some x" by (auto simp: all_def)
  with offload_new_blob[OF x[unfolded all_def]] assms(6,7) have "x = soRedactText (cdStore d) out"
    by (fastforce simp: all_def)
  moreover have "FunctionOutput c n (rendered out) \<in> set (reducedItems d conv s)"
  proof -
    let ?old = "offloadedPart (managerOptions d) 4 conv s"
    have "fst (fst all) = ?old @ lastN 4 conv" unfolding all_def r_def by (rule offloadAll_split)
    moreover have short: "j < length ?old" using assms(3) by simp
    ultimately have "?old ! j = FunctionOutput c n (rendered out)"
      using stored[folded all_def] by (simp add: nth_append del: offloadedPart_length)
    note this short
    then have "FunctionOutput c n (rendered out) \<in> set ?old" by (metis nth_mem)
    then show ?thesis by (cases ?old) (auto simp: reducedItems_shape keepFirst_def)
  qed
  ultimately show ?thesis using x by (simp add: blobs)
qed

subsection \<open>Reduction to a target\<close>

text \<open>
  The reduction to a token target compares positions in the pruned conversation with the start of the
  recent tail in the given one. When at least two messages were pruned before it, a pair that lies in the
  recent tail counts as old and is dropped, although recent items are documented to be kept.
\<close>
theorem target_drops_recent_pair:
  assumes "list_all isMessage messages" "2 \<le> length messages" "isMessage goal"
    and "roPreserveRecent opts = Some 2" "roTarget opts = Some target"
    and "target < estimateItems (estimatorOf opts) [goal, FunctionCall c n args, FunctionOutput c n out]"
  shows "rdItems (fst (reduceContext (goal # messages @ [FunctionCall c n args, FunctionOutput c n out]) opts s)) = [goal]"
proof -
  let ?items = "goal # messages @ [FunctionCall c n args, FunctionOutput c n out]"
  have n: "length ?items - 2 = length (goal # messages)" by simp
  have "\<not> offloads opts r i x" if "isMessage x" for r i x using that by (cases x) (simp_all add: offloads_def)
  then have same: "offloadAll opts r i xs s = ((xs, []), s)" if "list_all isMessage xs" for r i xs
    using that by (induction xs arbitrary: i) simp_all
  have old: "oldPart 2 ?items = goal # messages" "lastN 2 ?items = [FunctionCall c n args, FunctionOutput c n out]"
    by (simp_all add: oldPart_def lastN_def)
  have off: "fst (fst (offloadAll opts (length ?items - 2) 0 ?items s)) = ?items"
    unfolding offloadAll_split(1)[of opts "?items" 2] offloadedPart_def old
    by (subst same) (use assms(1,3) in simp_all)
  have none: "filter (\<lambda>i. \<not> isMessage i) messages = []" using assms(1) by (simp add: filter_empty_conv list_all_iff)
  have pruned: "map snd (filter (\<lambda>x. \<not> prunable (length ?items - 2) x) (enumerate 0 ?items)) =
    [goal, FunctionCall c n args, FunctionOutput c n out]"
    using prune_shape[of "goal # messages" "[FunctionCall c n args, FunctionOutput c n out]"] none
    by (simp add: n keepFirst_def)
  have "fst (dropOldestPairsUntil [goal, FunctionCall c n args, FunctionOutput c n out] target (length ?items - 2)
      (estimatorOf opts)) = [goal]"
    using assms(2,3,6) by (cases goal) (auto simp: dropOldestPairsUntil_def surviving_def)
  then show ?thesis
    using off pruned assms(4,5) by (auto simp: reduceContext_def Let_def comp_def split: prod.splits)
qed

subsection \<open>Concrete conversations\<close>

definition sampleStore :: storeOptions where
  "sampleStore = \<lparr>soRedact = (\<lambda>p. p), soRedactText = (\<lambda>t. t), soSchemaOk = (\<lambda>_. True), soFailAt = None\<rparr>"

definition sampleDeps :: "nat \<Rightarrow> nat contextDeps" where
  "sampleDeps window = \<lparr>cdStore = sampleStore, cdWindow = window, cdNextId = (\<lambda>kind n. (natStr n, n + 1)),
     cdNow = (\<lambda>n. (0, n)), cdActor = \<lparr>actorKind = A_model, actorId = ''a'', actorLabel = None\<rparr>, cdReserve = None,
     cdSummarizer = None, cdTasks = [], cdThreshold = Some 3, cdPreCompact = (\<lambda>_ _ n. n)\<rparr>"

definition sampleContext :: "nat contextState" where
  "sampleContext = \<lparr>csStore = freshStore, csItemSeq = 0, csLastUtilization = Some 0, csCompactionCount = 0, csWorld = 0\<rparr>"

definition contextBase :: persistBase where
  "contextBase = \<lparr>pbThreadId = ''t'', pbTurnId = ''u'', pbCorrelationId = ''c'', pbPermissionProfile = P_plan,
     pbActor = \<lparr>actorKind = A_model, actorId = ''a'', actorLabel = None\<rparr>\<rparr>"

definition parallelRound :: "inputItem list" where
  "parallelRound = MessageItem True ''g'' # map (\<lambda>c. FunctionCall [c] ''read'' ''{}'') ''1234'' @
     map (\<lambda>c. FunctionOutput [c] ''read'' ''data'') ''1234''"

definition sampleHead :: "inputItem list" where "sampleHead = take 5 parallelRound"

definition sampleSummary :: string where
  "sampleSummary = renderSummary (sdPreserved (deterministicDraft [] sampleHead)) (sdProse (deterministicDraft [] sampleHead))"

lemma sample_reduced:
  "reduceContext parallelRound (managerOptions (sampleDeps w)) sampleContext =
    (\<lparr>rdItems = parallelRound, rdRefs = [], rdOffloaded = 0, rdPruned = 0, rdDroppedPairs = 0, rdTokensBefore = 38,
      rdTokensAfter = 38, rdPairingIntact = True\<rparr>, sampleContext)"
  by code_simp

lemma sample_tokens: "defaultTokenEstimator sampleSummary = 8" "estimateItems defaultTokenEstimator sampleHead = 18"
  by code_simp+

lemma parallel_tokens: "estimateItems defaultTokenEstimator parallelRound = 38"
  by code_simp

lemma sample_floors: "\<lfloor>34 / 5 :: rat\<rfloor> = 6" "\<lfloor>301 / 2 :: rat\<rfloor> = 150" "\<lfloor>1445 / 2 :: rat\<rfloor> = 722"
  by (rule floor_unique; simp)+

lemma sample_budget:
  "bbOverThreshold (managerBudget (sampleDeps 10) [] parallelRound)" "bbOverCapacity (managerBudget (sampleDeps 10) [] parallelRound)"
  "\<not> bbOverThreshold (managerBudget (sampleDeps 1000) [] parallelRound)" "\<not> bbOverCapacity (managerBudget (sampleDeps 1000) [] parallelRound)"
  by (simp_all add: managerBudget_def computeBudget_def sampleDeps_def roundRat_def DEFAULT_RESERVE_FRACTION_def
      PROACTIVE_THRESHOLD_FRACTION_def parallel_tokens Let_def sample_floors)

lemma parallel_split: "length parallelRound = 9" "take 5 parallelRound = sampleHead" "sampleHead \<noteq> []"
  by (simp_all add: parallelRound_def sampleHead_def)

lemma sample_compact:
  assumes "bs \<lparr>tbItems = sampleHead, tbDigest = digestTranscript sampleHead, tbItemCount = length sampleHead,
     tbTokensBefore = 18, tbTrigger = trigger\<rparr> s = (Inr ref, s')"
  shows "compact \<lparr>coItems = sampleHead, coSummarizer = deterministicSummarizer [], coBoundaryStore = bs,
      coTrigger = Some trigger, coFocus = None, coEstimate = None\<rparr> s =
    (Inr \<lparr>crBoundaryRef = ref, crSummary = sampleSummary, crPreserved = sdPreserved (deterministicDraft [] sampleHead),
       crTokensBefore = 18, crTokensAfter = 8, crFreedTokens = 10, crItemCount = length sampleHead, crTrigger = trigger\<rparr>, s')"
proof -
  have "pcGoal (sdPreserved (deterministicDraft [] sampleHead)) \<noteq> []"
    by (simp add: deterministicDraft_def summaryGoal_not_empty)
  then show ?thesis using assms sample_tokens
    by (simp add: compact_def Let_def bindC_def deterministicSummarizer_def returnC_def parse_draftValue
        sampleSummary_def[symmetric])
qed

lemmas sample_store_defs = eventStoreBoundaryStore_def recordCompactionItem_def takeIdC_def takeNowC_def
  nextItemSeq_def storeAppend_def bindC_def returnC_def compactionInput_def appendEvent_def transaction_def
  appendBody_def envelope_def nextSeq_def threadSeqs_def insertEvent_def projectStore_def freshStore_def noRows_def
  touchThread_def updateRows_def upsertItem_def sampleStore_def contextBase_def markerBody_def finalBody_def Let_def

lemma sample_selectors:
  "cdPreCompact (sampleDeps w) trigger n x = x" "csWorld sampleContext = 0" "cdSummarizer (sampleDeps w) = None"
  "cdStore (sampleDeps w) = sampleStore" "cdThreshold (sampleDeps w) = Some 3"
  by (simp_all add: sampleDeps_def sampleContext_def)

lemma sample_compacts:
  "cpCompacted (fst (prepareItems (sampleDeps 10) [] parallelRound contextBase sampleContext))"
proof -
  define d where "d = sampleDeps 10"
  define s3 where "s3 = sampleContext\<lparr>csLastUtilization := bbUtilization (managerBudget d [] parallelRound)\<rparr>"
  obtain s4 where b: "eventStoreBoundaryStore d contextBase \<lparr>tbItems = sampleHead, tbDigest = digestTranscript sampleHead,
     tbItemCount = length sampleHead, tbTokensBefore = 18, tbTrigger = Ct_reactive_overflow\<rparr> s3 =
       (Inr (digestTranscript sampleHead), s4)" and rec: "\<And>r. \<exists>s5. recordCompactionItem d contextBase r s4 = (Inr (), s5)"
    by (auto simp: sample_store_defs s3_def d_def sampleDeps_def sampleContext_def)
  have head: "\<exists>s5. compactHead d contextBase Ct_reactive_overflow sampleHead s3 = (Inr (Some r), s5)"
    if "r = \<lparr>crBoundaryRef = digestTranscript sampleHead, crSummary = sampleSummary, crPreserved = sdPreserved (deterministicDraft [] sampleHead),
       crTokensBefore = 18, crTokensAfter = 8, crFreedTokens = 10, crItemCount = length sampleHead, crTrigger = Ct_reactive_overflow\<rparr>" for r
    using sample_compact[of "eventStoreBoundaryStore d contextBase" Ct_reactive_overflow s3
        "digestTranscript sampleHead" s4] b rec[of r] that
    by (auto simp: compactHead_def bindC_def d_def sampleDeps_def evaluateCompaction_def freedFraction_def
        DEFAULT_MIN_FREED_FRACTION_def)
  show ?thesis
    using head[OF refl] sample_budget(1,2)
    by (auto simp: prepareItems_def sample_reduced Let_def KEEP_RECENT_def parallel_split d_def s3_def sample_selectors)
qed

lemma sample_keeps: "\<not> cpCompacted (fst (prepareItems (sampleDeps 1000) [] parallelRound contextBase sampleContext))"
  using sample_budget(3,4) by (simp add: prepareItems_def sample_reduced Let_def keptItems_def)

lemma prepare_keeps_recent_witness:
  "lastN 4 (cpItems (fst (prepareItems (sampleDeps 1000) [] parallelRound contextBase sampleContext))) = lastN 4 parallelRound \<and>
   isPairingIntact (cpItems (fst (prepareItems (sampleDeps 1000) [] parallelRound contextBase sampleContext)))"
proof -
  have "isPairingIntact parallelRound" by (simp add: isPairingIntact_def parallelRound_def)
  then show ?thesis
    using prepare_keeps_recent[OF surjective_pairing[of "prepareItems (sampleDeps 1000) [] parallelRound contextBase sampleContext"]]
      sample_keeps by blast
qed

lemma compaction_orphans_results_witness:
  "isPairingIntact parallelRound \<and>
   \<not> isPairingIntact (cpItems (fst (prepareItems (sampleDeps 10) [] parallelRound contextBase sampleContext)))"
proof
  show "isPairingIntact parallelRound" by (simp add: isPairingIntact_def parallelRound_def)
  show "\<not> isPairingIntact (cpItems (fst (prepareItems (sampleDeps 10) [] parallelRound contextBase sampleContext)))"
    by (rule compaction_orphans_results[OF surjective_pairing sample_compacts,
          of "take 5 parallelRound" "drop 5 parallelRound"]) (simp_all add: parallelRound_def)
qed

lemma compaction_recorded_witness:
  "\<exists>e1 e2. storeLog (csStore (snd (prepareItems (sampleDeps 10) [] parallelRound contextBase sampleContext))) = [e1, e2]"
proof -
  have "storeLog (csStore sampleContext) = []" by (simp add: sampleContext_def freshStore_def)
  then show ?thesis
    using compaction_recorded[OF surjective_pairing[of "prepareItems (sampleDeps 10) [] parallelRound contextBase sampleContext"]
        sample_compacts sample_selectors(3)]
    by (auto simp: Let_def)
qed

definition resumedThread :: "inputItem list" where
  "resumedThread = [MessageItem True ''first'', MessageItem False ''ok'', MessageItem True ''second'',
     FunctionCall ''1'' ''read'' ''{}'', FunctionOutput ''1'' ''read'' ''data'', FunctionCall ''2'' ''read'' ''{}'',
     FunctionOutput ''2'' ''read'' ''data'']"

lemma resumed_kept: "\<not> cpCompacted (fst (prepareItems (sampleDeps 1000) [] resumedThread contextBase sampleContext))"
  by code_simp

lemma current_prompt_pruned_witness:
  "MessageItem True ''second'' \<in> set resumedThread \<and>
   MessageItem True ''second'' \<notin> set (cpItems (fst (prepareItems (sampleDeps 1000) [] resumedThread contextBase sampleContext)))"
proof
  show "MessageItem True ''second'' \<in> set resumedThread" by (simp add: resumedThread_def)
  show "MessageItem True ''second'' \<notin> set (cpItems (fst (prepareItems (sampleDeps 1000) [] resumedThread contextBase sampleContext)))"
    by (rule current_prompt_pruned[OF surjective_pairing resumed_kept,
          of "take 2 resumedThread" "''second''" "drop 3 resumedThread"]) (simp_all add: resumedThread_def)
qed

definition oldResult :: "inputItem list" where
  "oldResult = [FunctionCall ''1'' ''read'' ''{}'', FunctionOutput ''1'' ''read'' ''data'', MessageItem False ''a'',
     MessageItem False ''b'', MessageItem False ''c'', MessageItem False ''d'']"

lemma offloaded_results_recoverable_witness:
  "readBlob (blobDigest ''data'') (csStore (snd (prepareItems (sampleDeps 1000) [] oldResult contextBase sampleContext))) = Some ''data''"
  using offloaded_results_recoverable[OF surjective_pairing[of "prepareItems (sampleDeps 1000) [] oldResult contextBase sampleContext"]
      sample_selectors(3), of 1 "''1''" "''read''" "''data''"]
  by (simp add: oldResult_def isLong_def sample_selectors sampleContext_def freshStore_def readBlob_def sampleStore_def)

lemma target_drops_recent_pair_witness:
  "rdItems (fst (reduceContext [MessageItem True ''g'', MessageItem False ''a'', MessageItem False ''b'',
      FunctionCall ''1'' ''read'' ''{}'', FunctionOutput ''1'' ''read'' ''data'']
     ((managerOptions (sampleDeps 10))\<lparr>roPreserveRecent := Some 2, roTarget := Some 5\<rparr>) sampleContext)) = [MessageItem True ''g'']"
  using target_drops_recent_pair[of "[MessageItem False ''a'', MessageItem False ''b'']" "MessageItem True ''g''"
      "(managerOptions (sampleDeps 10))\<lparr>roPreserveRecent := Some 2, roTarget := Some 5\<rparr>" 5 "''1''" "''read''" "''{}''" "''data''"
      sampleContext]
  by (simp add: estimatorOf_def managerOptions_def estimateItems_def defaultTokenEstimator_def DEFAULT_CHARS_PER_TOKEN_def)

end
