(* ===== verification/Turn_Samples.thy ===== *)
theory Turn_Samples
  imports Tool_Scheduler Context_Theorems
begin

text \<open>
  Concrete turns. A scripted provider first asks for one tool call and then answers; the environments
  differ in their policy verdict and approval channel. They show that the hypotheses of the theorems on
  turns can hold, and what the engine does when an approval channel fails.
\<close>

definition readCall :: toolCall where
  "readCall = \<lparr>tcItemId = ''i'', tcCallId = ''c1'', tcToolName = ''read'', tcArgumentsJson = ''{}'', tcArguments = []\<rparr>"

definition scriptedStream :: "nat \<Rightarrow> streamEvent list" where
  "scriptedStream n =
     (if n = 0 then [ToolCallComplete ''i'' ''c1'' ''read'' ''{}'' [], DoneEvent F_tool_calls]
      else [TextDone ''t'' ''ok'', DoneEvent F_stop])"

text \<open>The world counts the requests made.\<close>

definition sampleEnv :: "evaluationStatus \<Rightarrow> (approvalRequest \<Rightarrow> (nat, approvalDecision) effect_of) option \<Rightarrow> nat turnEnv" where
  "sampleEnv verdict gate = \<lparr>
     envAppend = \<lambda>i w. (Inr 0, w),
     envMayExecute = \<lambda>k w. (True, ''''),
     envNextId = \<lambda>p w. (p, w),
     envNow = \<lambda>w. (0, w),
     envSleep = \<lambda>d w. (Inr (), w),
     envAborted = \<lambda>w. False,
     envStream = \<lambda>q w. (Inr (scriptedStream w), w + 1),
     envEvaluate = \<lambda>c w. (Inr \<lparr>teStatus = verdict, teActionDigest = ''d'', teDescription = ''read a file'',
        teRisk = Risk_low, teReason = ''rule'', teSource = ''profile''\<rparr>, w),
     envExecute = \<lambda>c w. (Inr \<lparr>trOk = True, trModelText = ''text'', trUserText = ''text'', trErrorCategory = None,
        trResultDigest = Some ''r'', trOutputRef = None, trTruncated = False, trDurationMs = 1\<rparr>, w),
     envIntentFor = \<lambda>c w. (Inr \<lparr>inIdempotencyKey = ''k'', inDestructive = False, inKind = K_other,
        inNormalizedAction = ''a''\<rparr>, w),
     envPlanBatches = None,
     envFinishRank = \<lambda>w i. i,
     envBudget = None,
     envRng = None,
     envRetryPolicy = None,
     envHooks = None,
     envApprovals = gate,
     envContext = None,
     envDrain = None\<rparr>"

definition sampleInput :: runTurnInput where
  "sampleInput = \<lparr>rtThreadId = ''th'', rtCorrelationId = ''co'', rtPermissionProfile = P_ask,
     rtActor = \<lparr>actorKind = A_user, actorId = ''u'', actorLabel = None\<rparr>, rtModel = ''m'', rtInstructions = '''',
     rtHistory = [], rtUserText = ''go''\<rparr>"

lemma sample_ok:
  "sinkOk (sampleEnv v g)" "lifecycleOk (sampleEnv v g)" "drainOk (sampleEnv v g)"
  "planCovers (sampleEnv v g)" "contextKeeps (sampleEnv v g)"
  by (simp_all add: sampleEnv_def sinkOk_def lifecycleOk_def drainOk_def planCovers_def contextKeeps_def calm_def)

lemma sample_safe: "safeEnv (sampleEnv v None)"
  by (simp add: safeEnv_def sample_ok) (simp add: approvalsOk_def sampleEnv_def)

text \<open>A summary of an outcome: the state and the reason of its result, and the counts of its trace.\<close>

definition summaryOf :: "(engineExn + turnResult option) \<times> nat engineState \<Rightarrow>
    (turnState \<times> terminationReason option) option \<times> nat \<times> nat \<times> nat" where
  "summaryOf out =
     ((case fst out of Inr (Some res) \<Rightarrow> Some (rsState res, rsReason res) | _ \<Rightarrow> None),
      requests (traceOf out), execs (traceOf out), length (endings (traceOf out)))"

text \<open>One call allowed and executed, then an answer.\<close>

lemma sample_turn_allowed:
  "summaryOf (runTurn (sampleEnv V_allow None) sampleInput 0) = (Some (S_completed, Some R_natural_completion), 2, 1, 1)"
  by code_simp

text \<open>A turn whose call needs an approval waits, and its resumption with the call waits again.\<close>

lemma sample_waiting:
  "summaryOf (resumeTurn (sampleEnv V_ask None) (sampleInput\<lparr>rtHistory := [callItem readCall]\<rparr>) ''t'' [readCall] 1) =
     (Some (S_awaiting_approval, None), 0, 0, 0)"
  by code_simp

lemma turn_ending_witness:
  "endedWell (runTurn (sampleEnv V_allow None) sampleInput 0) \<and>
   summaryOf (runTurn (sampleEnv V_allow None) sampleInput 0) = (Some (S_completed, Some R_natural_completion), 2, 1, 1)"
  using turn_ending [OF sample_ok(1), of V_allow None sampleInput 0] sample_turn_allowed by blast

text \<open>A provider that always fails: the turn ends as failed, and says so.\<close>

definition brokenEnv :: "nat turnEnv" where
  "brokenEnv = (sampleEnv V_allow None)\<lparr>envStream := \<lambda>q w. (Inl (ExnError ''no route''), w)\<rparr>"

lemma broken_ok: "safeEnv brokenEnv" "drainOk brokenEnv"
  by (simp_all add: brokenEnv_def sampleEnv_def safeEnv_def sinkOk_def lifecycleOk_def approvalsOk_def drainOk_def calm_def)

lemma sample_turn_broken:
  "summaryOf (runTurn brokenEnv sampleInput 0) = (Some (S_failed, Some R_internal_error), 1, 0, 1)"
  by code_simp

lemma turn_returns_witness:
  "returnsRecorded (runTurn brokenEnv sampleInput 0) \<and>
   summaryOf (runTurn brokenEnv sampleInput 0) = (Some (S_failed, Some R_internal_error), 1, 0, 1) \<and>
   returnsRecorded (resumeTurn (sampleEnv V_ask None) sampleInput ''t'' [readCall] 1)"
  using turn_returns [OF broken_ok, of "[readCall]" sampleInput 0] sample_turn_broken
    turn_returns [OF sample_safe sample_ok(3), of "[readCall]" V_ask sampleInput] by blast

lemma turn_requests_paired_witness:
  "pairedRequests (traceOf (runTurn (sampleEnv V_allow None\<lparr>envPlanBatches :=
     Some (\<lambda>calls w. (Inr (wiredPlan ([] :: unit toolRegistry) calls), w))\<rparr>) sampleInput 0)) \<and>
   owes [readCall] [callItem readCall] \<and> \<not> owes [] [callItem readCall]"
proof -
  have owed: "owes [readCall] [callItem readCall]" "\<not> owes [] [callItem readCall]"
    by (simp_all add: owes_def callItem_def callIds_def outputIds_def)
  moreover have "owes [] (rtHistory sampleInput)" by (simp add: owes_def sampleInput_def callIds_def outputIds_def)
  moreover have "owes [readCall] (rtHistory (sampleInput\<lparr>rtHistory := [callItem readCall]\<rparr>))" using owed by simp
  ultimately show ?thesis
    using turn_requests_paired [OF sample_ok(5) [of V_allow None], of sampleInput "[readCall]" "sampleInput\<lparr>rtHistory := [callItem readCall]\<rparr>" "[] :: unit toolRegistry" 0]
    by blast
qed

subsection \<open>The application's context manager\<close>

text \<open>
  The manager of the \<^verbatim>\<open>context\<close> package as the engine's context manager: where it prunes and offloads but
  does not compact, it keeps every call with its result. A compaction can separate them (see
  \<^verbatim>\<open>Context_Theorems\<close>), so the pairing of requests holds for turns that do not compact.
\<close>

definition managedContext :: "'w contextDeps \<Rightarrow> string \<Rightarrow> inputItem list \<Rightarrow> persistBase \<Rightarrow> ('w contextState, contextPreparation) effect_of" where
  "managedContext d instructions conv base s = (case prepareItems d instructions conv base s of (prep, s') \<Rightarrow> (Inr prep, s'))"

lemma ids_skeleton: "callIds (map skeleton xs) = callIds xs" "outputIds (map skeleton xs) = outputIds xs"
proof (induction xs)
  case (Cons x xs)
  {
    case 1 with Cons show ?case by (cases x) (simp_all add: callIds_def map_filter_simps)
  next
    case 2 with Cons show ?case by (cases x) (simp_all add: outputIds_def map_filter_simps)
  }
qed (simp_all add: callIds_def outputIds_def map_filter_simps)

lemma ids_filter:
  "callIds (filter (\<lambda>i. \<not> isMessage i) xs) = callIds xs" "outputIds (filter (\<lambda>i. \<not> isMessage i) xs) = outputIds xs"
proof (induction xs)
  case (Cons x xs)
  {
    case 1 with Cons show ?case by (cases x) (simp_all add: callIds_def map_filter_simps)
  next
    case 2 with Cons show ?case by (cases x) (simp_all add: outputIds_def map_filter_simps)
  }
qed (simp_all add: callIds_def outputIds_def map_filter_simps)

lemma ids_keepFirst: "callIds (keepFirst xs) = callIds xs" "outputIds (keepFirst xs) = outputIds xs"
proof -
  have c: "callIds (x # ys) = callIds [x] @ callIds ys" and o: "outputIds (x # ys) = outputIds [x] @ outputIds ys" for x ys
    using ids_append [of "[x]" ys] by simp_all
  have "callIds (keepFirst xs) = callIds xs \<and> outputIds (keepFirst xs) = outputIds xs"
  proof (cases xs)
    case (Cons x ys)
    show ?thesis
      using c [of x ys] c [of x "filter (\<lambda>i. \<not> isMessage i) ys"] o [of x ys] o [of x "filter (\<lambda>i. \<not> isMessage i) ys"]
      by (simp add: Cons keepFirst_def ids_filter)
  qed (simp add: keepFirst_def)
  then show "callIds (keepFirst xs) = callIds xs" "outputIds (keepFirst xs) = outputIds xs" by simp_all
qed

lemma ids_reduced: "callIds (reducedItems d conv s) = callIds conv" "outputIds (reducedItems d conv s) = outputIds conv"
proof -
  let ?o = "offloadedPart (managerOptions d) 4 conv s"
  note same = offloadedPart_skeleton [of "managerOptions d" 4 conv s]
  have "callIds ?o = callIds (oldPart 4 conv)" "outputIds ?o = outputIds (oldPart 4 conv)"
    using ids_skeleton [of ?o] ids_skeleton [of "oldPart 4 conv"] same by simp_all
  moreover have "oldPart 4 conv @ lastN 4 conv = conv" by (rule old_recent(1))
  ultimately show "callIds (reducedItems d conv s) = callIds conv" "outputIds (reducedItems d conv s) = outputIds conv"
    unfolding reducedItems_shape ids_append ids_keepFirst by (metis ids_append(1), metis ids_append(2))
qed

lemma managed_keeps_pairs:
  assumes "\<And>conv base s. \<not> cpCompacted (fst (prepareItems d instructions conv base s))"
  shows "contextKeeps (env\<lparr>envContext := Some (managedContext d instructions)\<rparr>)"
proof -
  have "owes [] (cpItems prep)" if run: "prepareItems d instructions conv base s = (prep, s')" and ow: "owes [] conv"
    for conv base s prep s'
    using run
  proof (cases rule: prepare_cases)
    case kept
    then show ?thesis using ow by (simp add: owes_def keptItems_def ids_reduced)
  next
    case (compacted trigger s3 r)
    then show ?thesis using assms [of conv base s] run by simp
  qed
  then show ?thesis by (auto simp: contextKeeps_def managedContext_def split: prod.splits)
qed

subsection \<open>A failing approval channel\<close>

definition failingGate :: "approvalRequest \<Rightarrow> (nat, approvalDecision) effect_of" where
  "failingGate q w = (Inl (ExnError ''channel closed''), w)"

text \<open>
  When the approval channel throws, the exception does not become a failed turn: the handler moves
  the machine from awaiting-approval to recovering, which the transition table forbids, so the engine
  throws an illegal-transition error out of the run; the log holds the turn's start and the request for
  approval but no ending, and the machine still waits.
\<close>

theorem approval_failure_escapes:
  "fst (runTurn (sampleEnv V_ask (Some failingGate)) sampleInput 0) =
     Inl (ExnMachine (IllegalTransition S_awaiting_approval S_recovering)) \<and>
   endings (traceOf (runTurn (sampleEnv V_ask (Some failingGate)) sampleInput 0)) = [] \<and>
   requestedIn (traceOf (runTurn (sampleEnv V_ask (Some failingGate)) sampleInput 0)) (Some ''c1'') \<and>
   tmState (esMachine (snd (snd (runTurn (sampleEnv V_ask (Some failingGate)) sampleInput 0)))) = S_awaiting_approval"
proof -
  let ?out = "runTurn (sampleEnv V_ask (Some failingGate)) sampleInput 0"
  have "(fst ?out = Inl (ExnMachine (IllegalTransition S_awaiting_approval S_recovering)), endings (traceOf ?out),
      requestedIn (traceOf ?out) (Some ''c1''), tmState (esMachine (snd (snd ?out)))) = (True, [], True, S_awaiting_approval)"
    by code_simp
  then show ?thesis by simp
qed

end
