(* ===== verification/Cron_Expr.thy ===== *)
theory Cron_Expr
  imports Prelude
begin

text \<open>
  \<^verbatim>\<open>packages/scheduler/src/cron.ts\<close>: parsing, matching and the next firing instant of five-field
  cron expressions. Instants are epoch milliseconds. The host's time zone is a parameter, the two
  conversions between an instant and local time that the accessors of \<^verbatim>\<open>Date\<close> are defined by.
\<close>

subsection \<open>Dates\<close>

text \<open>
  \<^verbatim>\<open>zoLocal t\<close> is the local time of an instant and \<^verbatim>\<open>zoUtc l\<close> the instant that a local time
  is taken for, both in milliseconds. Where local time repeats, the latter picks one of its instants.
\<close>

record zone =
  zoLocal :: "int \<Rightarrow> int"
  zoUtc :: "int \<Rightarrow> int"

definition MINUTE_MS :: int where
  "MINUTE_MS = 60000"

definition getMinutes :: "zone \<Rightarrow> int \<Rightarrow> nat" where
  "getMinutes z t = nat (zoLocal z t div 60000 mod 60)"

definition getHours :: "zone \<Rightarrow> int \<Rightarrow> nat" where
  "getHours z t = nat (zoLocal z t div 3600000 mod 24)"

definition getDay :: "zone \<Rightarrow> int \<Rightarrow> nat" where
  "getDay z t = nat ((zoLocal z t div 86400000 + 4) mod 7)"

text \<open>The day of the month and the month of a day number (days since 1970-01-01), Gregorian.\<close>

definition civilDate :: "int \<Rightarrow> nat \<times> nat" where
  "civilDate day =
     (let n = day + 719468; doe = n mod 146097;
          yoe = (doe - doe div 1460 + doe div 36524 - doe div 146096) div 365;
          doy = doe - (365 * yoe + yoe div 4 - yoe div 100);
          mp = (5 * doy + 2) div 153
      in (nat (doy - (153 * mp + 2) div 5 + 1), nat (if mp < 10 then mp + 3 else mp - 9)))"

definition getDate :: "zone \<Rightarrow> int \<Rightarrow> nat" where
  "getDate z t = fst (civilDate (zoLocal z t div 86400000))"

definition getMonth1 :: "zone \<Rightarrow> int \<Rightarrow> nat" where
  "getMonth1 z t = snd (civilDate (zoLocal z t div 86400000))"

text \<open>\<^verbatim>\<open>setSeconds(0, 0)\<close> and \<^verbatim>\<open>setMinutes(getMinutes() + 1)\<close> go through local time.\<close>

definition startOfMinute :: "zone \<Rightarrow> int \<Rightarrow> int" where
  "startOfMinute z t = zoUtc z (zoLocal z t - zoLocal z t mod 60000)"

definition addMinute :: "zone \<Rightarrow> int \<Rightarrow> int" where
  "addMinute z t = zoUtc z (zoLocal z t + 60000)"

subsection \<open>Fields\<close>

datatype cronField = Minute | Hour | DayOfMonth | Month | DayOfWeek

record fieldSpec =
  fsName :: cronField
  fsMin :: nat
  fsMax :: nat

definition FIELD_SPECS :: "fieldSpec list" where
  [cron_defs]: "FIELD_SPECS =
     [\<lparr>fsName = Minute, fsMin = 0, fsMax = 59\<rparr>, \<lparr>fsName = Hour, fsMin = 0, fsMax = 23\<rparr>,
      \<lparr>fsName = DayOfMonth, fsMin = 1, fsMax = 31\<rparr>, \<lparr>fsName = Month, fsMin = 1, fsMax = 12\<rparr>,
      \<lparr>fsName = DayOfWeek, fsMin = 0, fsMax = 6\<rparr>]"

datatype cronErrorCode = WrongFieldCount | EmptyField | NotANumber | OutOfRange | BadRange | BadStep

text \<open>The structure of a failure; its message is not modelled.\<close>

record cronError =
  ceCode :: cronErrorCode
  ceField :: "cronField option"
  ceToken :: "string option"

record cronExpr =
  cxSource :: string
  cxMinute :: "nat set"
  cxHour :: "nat set"
  cxDayOfMonth :: "nat set"
  cxMonth :: "nat set"
  cxDayOfWeek :: "nat set"
  cxDomRestricted :: bool
  cxDowRestricted :: bool

definition cronFail :: "cronErrorCode \<Rightarrow> fieldSpec \<Rightarrow> string option \<Rightarrow> cronError + 'a" where
  "cronFail code spec token = Inl \<lparr>ceCode = code, ceField = Some (fsName spec), ceToken = token\<rparr>"

definition thenR :: "'e + 'a \<Rightarrow> ('a \<Rightarrow> 'e + 'b) \<Rightarrow> 'e + 'b" where
  "thenR r f = (case r of Inl e \<Rightarrow> Inl e | Inr x \<Rightarrow> f x)"

lemma thenR_simps [simp]: "thenR (Inl e) f = Inl e" "thenR (Inr x) f = f x"
  by (simp_all add: thenR_def)

lemma thenR_Inr: "thenR r f = Inr y \<longleftrightarrow> (\<exists>x. r = Inr x \<and> f x = Inr y)"
  by (cases r) auto

definition toInt :: "string \<Rightarrow> fieldSpec \<Rightarrow> cronError + nat" where
  "toInt token spec =
     (if token = [] \<or> \<not> list_all isDigit token then cronFail NotANumber spec (Some token) else Inr (digitsVal token))"

definition normalizeDow :: "nat \<Rightarrow> fieldSpec \<Rightarrow> nat" where
  "normalizeDow value spec = (if fsName spec = DayOfWeek \<and> value = 7 then 0 else value)"

definition assertInRange :: "nat \<Rightarrow> fieldSpec \<Rightarrow> string \<Rightarrow> cronError + unit" where
  "assertInRange value spec token =
     (if value < fsMin spec \<or> value > fsMax spec then cronFail OutOfRange spec (Some token) else Inr ())"

definition stepOf :: "string option \<Rightarrow> fieldSpec \<Rightarrow> string \<Rightarrow> cronError + nat" where
  "stepOf stepPart spec part =
     (case stepPart of
        None \<Rightarrow> Inr 1
      | Some s \<Rightarrow> thenR (toInt s spec) (\<lambda>step. if step = 0 then cronFail BadStep spec (Some part) else Inr step))"

definition rangeOf :: "string \<Rightarrow> bool \<Rightarrow> fieldSpec \<Rightarrow> string \<Rightarrow> cronError + nat \<times> nat" where
  "rangeOf rangePart stepped spec part =
     (if rangePart = ''*'' then Inr (fsMin spec, fsMax spec)
      else if CHR ''-'' \<in> set rangePart then
        (case splitChar (CHR ''-'') rangePart of
           [a, b] \<Rightarrow>
             thenR (toInt a spec) (\<lambda>va. thenR (toInt b spec) (\<lambda>vb.
               let lo = normalizeDow va spec; hi = normalizeDow vb spec in
               if lo > hi then cronFail BadRange spec (Some part) else Inr (lo, hi)))
         | _ \<Rightarrow> cronFail BadRange spec (Some part))
      else
        thenR (toInt rangePart spec) (\<lambda>v.
          let lo = normalizeDow v spec in Inr (lo, if stepped then fsMax spec else lo)))"

text \<open>\<^verbatim>\<open>for (let v = lo; v <= hi; v += step)\<close>, for a positive step.\<close>

function rangeValues :: "nat \<Rightarrow> nat \<Rightarrow> nat \<Rightarrow> nat set" where
  "rangeValues v hi step = (if v \<le> hi \<and> 0 < step then insert v (rangeValues (v + step) hi step) else {})"
  by pat_completeness auto
termination
  by (relation "measure (\<lambda>(v, hi, step). hi + 1 - v)") auto

declare rangeValues.simps [simp del]

definition parsePart :: "fieldSpec \<Rightarrow> string \<Rightarrow> cronError + nat set" where
  "parsePart spec part =
     (if part = [] then cronFail EmptyField spec None
      else
        (case splitChar (CHR ''/'') part of
           rangePart # rest \<Rightarrow>
             (if length rest > 1 then cronFail BadStep spec (Some part)
              else
                let stepPart = (case rest of [] \<Rightarrow> None | s # _ \<Rightarrow> Some s) in
                thenR (stepOf stepPart spec part) (\<lambda>step.
                thenR (rangeOf rangePart (stepPart \<noteq> None) spec part) (\<lambda>(lo, hi).
                thenR (assertInRange lo spec part) (\<lambda>_.
                thenR (assertInRange hi spec part) (\<lambda>_.
                  Inr (rangeValues lo hi step))))))
         | [] \<Rightarrow> cronFail BadStep spec (Some part)))"

fun parseParts :: "fieldSpec \<Rightarrow> string list \<Rightarrow> nat set \<Rightarrow> cronError + nat set" where
  "parseParts spec [] values = Inr values"
| "parseParts spec (p # ps) values = thenR (parsePart spec p) (\<lambda>vs. parseParts spec ps (values \<union> vs))"

definition parseField :: "string \<Rightarrow> fieldSpec \<Rightarrow> cronError + nat set \<times> bool" where
  "parseField raw spec =
     (if raw = [] then cronFail EmptyField spec None
      else thenR (parseParts spec (splitChar (CHR '','') raw) {}) (\<lambda>values. Inr (values, raw \<noteq> ''*'')))"

subsection \<open>Expressions\<close>

text \<open>\<^verbatim>\<open>split(/\s+/)\<close> after \<^verbatim>\<open>trim\<close>, without its empty pieces: the runs of other characters.\<close>

fun splitSpace :: "string \<Rightarrow> string list" where
  "splitSpace [] = [[]]"
| "splitSpace (x # xs) =
     (if isSpace x then [] # splitSpace xs
      else (case splitSpace xs of [] \<Rightarrow> [[x]] | p # ps \<Rightarrow> (x # p) # ps))"

definition cronFields :: "string \<Rightarrow> string list" where
  "cronFields s = filter (\<lambda>f. f \<noteq> []) (splitSpace (trim s))"

fun parseFields :: "(string \<times> fieldSpec) list \<Rightarrow> cronError + (nat set \<times> bool) list" where
  "parseFields [] = Inr []"
| "parseFields ((raw, spec) # rest) =
     thenR (parseField raw spec) (\<lambda>x. thenR (parseFields rest) (\<lambda>xs. Inr (x # xs)))"

definition parseCron :: "string \<Rightarrow> cronError + cronExpr" where
  "parseCron expr =
     (let fields = cronFields expr in
      if length fields \<noteq> 5 then Inl \<lparr>ceCode = WrongFieldCount, ceField = None, ceToken = None\<rparr>
      else thenR (parseFields (zip fields FIELD_SPECS)) (\<lambda>parsed.
        Inr \<lparr>cxSource = trim expr, cxMinute = fst (parsed ! 0), cxHour = fst (parsed ! 1),
          cxDayOfMonth = fst (parsed ! 2), cxMonth = fst (parsed ! 3), cxDayOfWeek = fst (parsed ! 4),
          cxDomRestricted = snd (parsed ! 2), cxDowRestricted = snd (parsed ! 4)\<rparr>))"

subsection \<open>Matching and the next instant\<close>

definition matches :: "zone \<Rightarrow> cronExpr \<Rightarrow> int \<Rightarrow> bool" where
  "matches z c t \<longleftrightarrow>
     getMinutes z t \<in> cxMinute c \<and> getHours z t \<in> cxHour c \<and> getMonth1 z t \<in> cxMonth c \<and>
     (let domMatch = getDate z t \<in> cxDayOfMonth c; dowMatch = getDay z t \<in> cxDayOfWeek c in
      if cxDomRestricted c \<and> cxDowRestricted c then domMatch \<or> dowMatch else domMatch \<and> dowMatch)"

definition MAX_SEARCH_MINUTES :: nat where
  "MAX_SEARCH_MINUTES = 5 * 366 * 24 * 60"

text \<open>The bounded search: the remaining rounds and the cursor.\<close>

fun searchFire :: "zone \<Rightarrow> cronExpr \<Rightarrow> nat \<Rightarrow> int \<Rightarrow> int option" where
  "searchFire z c 0 cursor = None"
| "searchFire z c (Suc n) cursor =
     (if matches z c cursor then Some cursor else searchFire z c n (addMinute z cursor))"

definition nextFireAfter :: "zone \<Rightarrow> cronExpr \<Rightarrow> int \<Rightarrow> cronError + int" where
  "nextFireAfter z c t =
     (case searchFire z c MAX_SEARCH_MINUTES (startOfMinute z t + MINUTE_MS) of
        Some u \<Rightarrow> Inr u
      | None \<Rightarrow> Inl \<lparr>ceCode = OutOfRange, ceField = None, ceToken = None\<rparr>)"

definition nominalIntervalMs :: "zone \<Rightarrow> cronExpr \<Rightarrow> int \<Rightarrow> cronError + int" where
  "nominalIntervalMs z c t =
     thenR (nextFireAfter z c t) (\<lambda>first. thenR (nextFireAfter z c first) (\<lambda>second. Inr (second - first)))"

end
