(* ===== verification/Cron_Theorems.thy ===== *)
theory Cron_Theorems
  imports Cron_Expr
begin

text \<open>
  What parsing and searching compute: a printed expression parses to the sets it denotes, every accepted
  expression has nonempty fields within their bounds, and in a zone without transitions the next firing
  instant is the first minute after the given instant that matches.
\<close>

subsection \<open>Value sets\<close>

lemma rangeValues_set: "0 < step \<Longrightarrow> rangeValues v hi step = {u. v \<le> u \<and> u \<le> hi \<and> (u - v) mod step = 0}"
proof (induction v hi step rule: rangeValues.induct)
  case (1 v hi step)
  show ?case
  proof (cases "v \<le> hi")
    case True
    have "{u. v \<le> u \<and> u \<le> hi \<and> (u - v) mod step = 0} =
        insert v {u. v + step \<le> u \<and> u \<le> hi \<and> (u - (v + step)) mod step = 0}" (is "?l = ?r")
    proof (intro set_eqI iffI)
      fix u assume u: "u \<in> ?l"
      show "u \<in> ?r"
      proof (cases "u = v")
        case False
        with u obtain k where k: "u - v = step * k" "v < u" by (auto simp: dvd_def mod_eq_0_iff_dvd)
        then have "0 < k" by (cases k) auto
        then obtain j where "k = Suc j" by (cases k) auto
        with k have "u - (v + step) = step * j" "v + step \<le> u" by (auto simp: algebra_simps)
        with u show ?thesis by auto
      qed simp
    next
      fix u assume "u \<in> ?r"
      then show "u \<in> ?l"
      proof
        assume u: "u \<in> {u. v + step \<le> u \<and> u \<le> hi \<and> (u - (v + step)) mod step = 0}"
        then have "u - v = (u - (v + step)) + step" by auto
        then have "(u - v) mod step = (u - (v + step)) mod step" by simp
        with u show ?thesis by auto
      qed (use True in simp)
    qed
    with True 1 show ?thesis by (subst rangeValues.simps) auto
  next
    case False
    then show ?thesis by (subst rangeValues.simps) auto
  qed
qed

subsection \<open>Every accepted field\<close>

definition fieldOk :: "fieldSpec \<Rightarrow> nat set \<Rightarrow> bool" where
  "fieldOk spec vs \<longleftrightarrow> vs \<noteq> {} \<and> vs \<subseteq> {fsMin spec..fsMax spec}"

lemma stepOf_pos: "stepOf s spec part = Inr step \<Longrightarrow> 0 < step"
  by (auto simp: stepOf_def thenR_Inr cronFail_def split: option.splits if_splits)

lemma rangeOf_le: "rangeOf r b spec part = Inr (lo, hi) \<Longrightarrow> fsMin spec \<le> lo \<Longrightarrow> lo \<le> fsMax spec \<Longrightarrow> lo \<le> hi"
  by (auto simp: rangeOf_def thenR_Inr cronFail_def Let_def split: if_splits list.splits)

lemma rangeValues_ok: "0 < step \<Longrightarrow> lo \<le> hi \<Longrightarrow> fsMin spec \<le> lo \<Longrightarrow> hi \<le> fsMax spec \<Longrightarrow> fieldOk spec (rangeValues lo hi step)"
  by (auto simp: fieldOk_def rangeValues_set intro: exI [of _ lo])

lemma parsePart_ok:
  assumes "parsePart spec part = Inr vs" shows "fieldOk spec vs"
proof -
  from assms obtain s r lo hi step where "stepOf s spec part = Inr step" "rangeOf r (s \<noteq> None) spec part = Inr (lo, hi)"
    "fsMin spec \<le> lo" "lo \<le> fsMax spec" "hi \<le> fsMax spec" "vs = rangeValues lo hi step"
    by (auto simp: parsePart_def thenR_Inr cronFail_def assertInRange_def Let_def split: if_splits list.splits)
  then show ?thesis using stepOf_pos rangeOf_le by (auto intro: rangeValues_ok)
qed

lemma parseParts_ok:
  "parseParts spec ps vs0 = Inr vs \<Longrightarrow> vs0 \<subseteq> {fsMin spec..fsMax spec} \<Longrightarrow>
     vs0 \<subseteq> vs \<and> vs \<subseteq> {fsMin spec..fsMax spec} \<and> (ps \<noteq> [] \<longrightarrow> vs \<noteq> {})"
proof (induction ps arbitrary: vs0)
  case (Cons p ps)
  from Cons.prems(1) obtain v1 where v1: "parsePart spec p = Inr v1" and rest: "parseParts spec ps (vs0 \<union> v1) = Inr vs"
    by (auto simp: thenR_Inr)
  from parsePart_ok [OF v1] Cons.IH [OF rest] Cons.prems(2) show ?case by (auto simp: fieldOk_def)
qed simp

lemma parseField_ok: "parseField raw spec = Inr (vs, r) \<Longrightarrow> fieldOk spec vs \<and> r = (raw \<noteq> ''*'')"
  by (auto simp: parseField_def thenR_Inr cronFail_def fieldOk_def dest!: parseParts_ok split: if_splits)

subsection \<open>Printed expressions\<close>

datatype cronPart = Star | StarStep nat | Single nat | SingleStep nat nat | Range nat nat | RangeStep nat nat nat

fun printPart :: "cronPart \<Rightarrow> string" where
  "printPart Star = ''*''"
| "printPart (StarStep n) = ''*/'' @ natStr n"
| "printPart (Single a) = natStr a"
| "printPart (SingleStep a n) = natStr a @ ''/'' @ natStr n"
| "printPart (Range a b) = natStr a @ ''-'' @ natStr b"
| "printPart (RangeStep a b n) = natStr a @ ''-'' @ natStr b @ ''/'' @ natStr n"

fun partBounds :: "fieldSpec \<Rightarrow> cronPart \<Rightarrow> nat \<times> nat \<times> nat" where
  "partBounds spec Star = (fsMin spec, fsMax spec, 1)"
| "partBounds spec (StarStep n) = (fsMin spec, fsMax spec, n)"
| "partBounds spec (Single a) = (a, a, 1)"
| "partBounds spec (SingleStep a n) = (a, fsMax spec, n)"
| "partBounds spec (Range a b) = (a, b, 1)"
| "partBounds spec (RangeStep a b n) = (a, b, n)"

definition partOk :: "fieldSpec \<Rightarrow> cronPart \<Rightarrow> bool" where
  "partOk spec p \<longleftrightarrow> (case partBounds spec p of (a, b, n) \<Rightarrow> fsMin spec \<le> a \<and> a \<le> b \<and> b \<le> fsMax spec \<and> 0 < n)"

definition denotes :: "fieldSpec \<Rightarrow> cronPart \<Rightarrow> nat set" where
  "denotes spec p = (case partBounds spec p of (a, b, n) \<Rightarrow> {u. a \<le> u \<and> u \<le> b \<and> (u - a) mod n = 0})"

definition printField :: "cronPart list \<Rightarrow> string" where
  "printField ps = joinWith '','' (map printPart ps)"

text \<open>The digits are none of the separators.\<close>

lemma natStr_char: "c \<in> set (natStr n) \<Longrightarrow> c \<notin> {CHR ''*'', CHR ''/'', CHR ''-'', CHR '',''} \<and> \<not> isSpace c"
  by (drule natStr_digits) (auto simp: isDigit_def isSpace_def)

lemma natStr_all_digits: "list_all isDigit (natStr n)"
  by (auto simp: list_all_iff dest: natStr_digits)

lemma toInt_natStr [simp]: "toInt (natStr n) spec = Inr n"
  by (simp add: toInt_def natStr_all_digits)

lemma natStr_no [simp]:
  "CHR ''*'' \<notin> set (natStr n)" "CHR ''/'' \<notin> set (natStr n)" "CHR ''-'' \<notin> set (natStr n)" "CHR '','' \<notin> set (natStr n)"
  using natStr_char by blast+

lemma natStr_not_star [simp]: "natStr n \<noteq> CHR ''*'' # s"
  using natStr_no(1) [of n] by (metis list.set_intros(1))

lemma natStr_app_not_star [simp]: "natStr n @ t \<noteq> CHR ''*'' # s"
  by (cases "natStr n") (use natStr_not_star [of n] in auto)

lemma printPart_ne [simp]: "printPart p \<noteq> []"
  by (cases p) auto

lemma printPart_no_comma [simp]: "CHR '','' \<notin> set (printPart p)"
  by (cases p) auto

lemma printPart_no_space: "c \<in> set (printPart p) \<Longrightarrow> \<not> isSpace c"
  using natStr_char by (cases p) (auto simp: isSpace_def)

lemma normalizeDow_known: "spec \<in> set FIELD_SPECS \<Longrightarrow> v \<le> fsMax spec \<Longrightarrow> normalizeDow v spec = v"
  by (auto simp: FIELD_SPECS_def normalizeDow_def)

lemma denotes_range: "partOk spec p \<Longrightarrow> partBounds spec p = (a, b, n) \<Longrightarrow> rangeValues a b n = denotes spec p"
  by (simp add: denotes_def partOk_def rangeValues_set)

lemma splitChar_two: "CHR ''/'' \<notin> set s \<Longrightarrow> CHR ''/'' \<notin> set t \<Longrightarrow> splitChar (CHR ''/'') (s @ CHR ''/'' # t) = [s, t]"
  by (simp add: splitChar_first splitChar_plain)

lemma parsePart_print:
  assumes "partOk spec p" and "spec \<in> set FIELD_SPECS"
  shows "parsePart spec (printPart p) = Inr (denotes spec p)"
proof -
  obtain a b n where abn: "partBounds spec p = (a, b, n)" by (metis prod_cases3)
  with assms(1) have ok: "fsMin spec \<le> a" "a \<le> b" "b \<le> fsMax spec" "0 < n" by (auto simp: partOk_def)
  note vals = denotes_range [OF assms(1) abn]
  have norm: "normalizeDow v spec = v" if "v \<le> fsMax spec" for v using normalizeDow_known assms(2) that by blast
  have dash: "splitChar (CHR ''-'') (natStr x @ CHR ''-'' # natStr y) = [natStr x, natStr y]" for x y
    by (simp add: splitChar_first splitChar_plain)
  have slash: "splitChar (CHR ''/'') (natStr x @ CHR ''-'' # natStr y @ CHR ''/'' # natStr z) = [natStr x @ CHR ''-'' # natStr y, natStr z]"
    for x y z using splitChar_two [of "natStr x @ CHR ''-'' # natStr y" "natStr z"] by simp
  show ?thesis
    using abn ok vals norm
    by (cases p) (auto simp: parsePart_def splitChar_plain splitChar_two slash stepOf_def rangeOf_def dash assertInRange_def
        normalizeDow_def [symmetric] Let_def)
qed

lemma parseParts_print:
  assumes "spec \<in> set FIELD_SPECS"
  shows "list_all (partOk spec) ps \<Longrightarrow> parseParts spec (map printPart ps) vs = Inr (vs \<union> \<Union> (denotes spec ` set ps))"
  by (induction ps arbitrary: vs) (auto simp: parsePart_print assms Un_assoc)

lemma printField_ne [simp]: "ps \<noteq> [] \<Longrightarrow> printField ps \<noteq> []"
  by (cases ps) (auto simp: printField_def joinWith_Cons)

lemma split_printField: "ps \<noteq> [] \<Longrightarrow> splitChar (CHR '','') (printField ps) = map printPart ps"
  unfolding printField_def by (intro splitChar_join) auto

lemma printField_star: "ps \<noteq> [] \<Longrightarrow> printField ps = ''*'' \<longleftrightarrow> ps = [Star]"
proof
  assume "ps \<noteq> []" "printField ps = ''*''"
  then have "splitChar (CHR '','') ''*'' = map printPart ps"
    using split_printField [of ps] by simp
  then have "map printPart ps = [''*'']" by simp
  then obtain p where "ps = [p]" "printPart p = ''*''" by (auto simp: map_eq_Cons_conv)
  then show "ps = [Star]" by (cases p) auto
qed (simp add: printField_def)

lemma parseField_print:
  assumes "ps \<noteq> []" and "list_all (partOk spec) ps" and "spec \<in> set FIELD_SPECS"
  shows "parseField (printField ps) spec = Inr (\<Union> (denotes spec ` set ps), ps \<noteq> [Star])"
  using assms by (simp add: parseField_def parseParts_print printField_star split_printField)

subsection \<open>Whole expressions\<close>

lemma splitSpace_plain: "(\<And>c. c \<in> set s \<Longrightarrow> \<not> isSpace c) \<Longrightarrow> splitSpace s = [s]"
  by (induction s) auto

lemma splitSpace_first:
  "(\<And>c. c \<in> set s \<Longrightarrow> \<not> isSpace c) \<Longrightarrow> isSpace b \<Longrightarrow> splitSpace (s @ b # t) = s # splitSpace t"
  by (induction s) auto

definition wordOk :: "string \<Rightarrow> bool" where
  "wordOk w \<longleftrightarrow> w \<noteq> [] \<and> (\<forall>c\<in>set w. \<not> isSpace c)"

lemma splitSpace_join: "ws \<noteq> [] \<Longrightarrow> list_all wordOk ws \<Longrightarrow> splitSpace (joinWith '' '' ws) = ws"
proof (induction ws)
  case (Cons w ws)
  then show ?case
    by (cases "ws = []") (auto simp: joinWith_Cons wordOk_def splitSpace_plain splitSpace_first isSpace_def)
qed simp

lemma join_ends:
  "ws \<noteq> [] \<Longrightarrow> list_all wordOk ws \<Longrightarrow>
     joinWith sep ws \<noteq> [] \<and> hd (joinWith sep ws) = hd (hd ws) \<and> last (joinWith sep ws) = last (last ws)"
  by (induction ws) (auto simp: joinWith_Cons wordOk_def)

lemma cronFields_join: "ws \<noteq> [] \<Longrightarrow> list_all wordOk ws \<Longrightarrow> cronFields (joinWith '' '' ws) = ws \<and> trim (joinWith '' '' ws) = joinWith '' '' ws"
proof -
  assume ws: "ws \<noteq> []" "list_all wordOk ws"
  then have ends: "wordOk (hd ws)" "wordOk (last ws)" by (auto simp: list_all_iff)
  have "trim (joinWith '' '' ws) = joinWith '' '' ws"
    using join_ends [OF ws, of "'' ''"] ends by (intro trim_id) (auto simp: wordOk_def)
  moreover have "filter (\<lambda>f. f \<noteq> []) ws = ws" using ws(2) by (auto simp: filter_id_conv list_all_iff wordOk_def)
  ultimately show ?thesis using splitSpace_join [OF ws] by (simp add: cronFields_def)
qed

lemma wordOk_printField: "ps \<noteq> [] \<Longrightarrow> wordOk (printField ps)"
proof -
  assume ne: "ps \<noteq> []"
  have "c \<in> set (joinWith '','' (map printPart ps)) \<Longrightarrow> \<not> isSpace c" for c
    by (induction ps) (auto simp: joinWith_Cons isSpace_def dest: printPart_no_space split: if_splits)
  with ne show ?thesis by (auto simp: wordOk_def printField_def [symmetric])
qed

definition fieldsOk :: "cronPart list list \<Rightarrow> bool" where
  "fieldsOk fs \<longleftrightarrow> length fs = 5 \<and> list_all (\<lambda>(ps, spec). ps \<noteq> [] \<and> list_all (partOk spec) ps) (zip fs FIELD_SPECS)"

definition printCron :: "cronPart list list \<Rightarrow> string" where
  "printCron fs = joinWith '' '' (map printField fs)"

text \<open>The values the i-th field denotes.\<close>

definition fieldSet :: "cronPart list list \<Rightarrow> nat \<Rightarrow> nat set" where
  "fieldSet fs i = \<Union> (denotes (FIELD_SPECS ! i) ` set (fs ! i))"

lemma parseFields_print:
  "length fs = length specs \<Longrightarrow> set specs \<subseteq> set FIELD_SPECS \<Longrightarrow>
   list_all (\<lambda>(ps, spec). ps \<noteq> [] \<and> list_all (partOk spec) ps) (zip fs specs) \<Longrightarrow>
   parseFields (zip (map printField fs) specs) =
     Inr (map (\<lambda>(ps, spec). (\<Union> (denotes spec ` set ps), ps \<noteq> [Star])) (zip fs specs))"
  by (induction fs specs rule: list_induct2) (auto simp: parseField_print)

lemma FIELD_SPECS_length: "length FIELD_SPECS = 5"
  by (simp add: FIELD_SPECS_def)

lemma parseCron_print:
  assumes "fieldsOk fs"
  shows "parseCron (printCron fs) = Inr \<lparr>cxSource = printCron fs, cxMinute = fieldSet fs 0, cxHour = fieldSet fs 1,
    cxDayOfMonth = fieldSet fs 2, cxMonth = fieldSet fs 3, cxDayOfWeek = fieldSet fs 4,
    cxDomRestricted = (fs ! 2 \<noteq> [Star]), cxDowRestricted = (fs ! 4 \<noteq> [Star])\<rparr>"
proof -
  have len: "length fs = 5" and parts: "list_all (\<lambda>(ps, spec). ps \<noteq> [] \<and> list_all (partOk spec) ps) (zip fs FIELD_SPECS)"
    using assms by (simp_all add: fieldsOk_def)
  have ne: "ps \<noteq> []" if "ps \<in> set fs" for ps
    using parts that len FIELD_SPECS_length by (auto simp: list_all_iff in_set_conv_nth set_zip)
  have words: "map printField fs \<noteq> []" "list_all wordOk (map printField fs)"
    using len ne by (auto simp: list_all_iff wordOk_printField)
  note fields = cronFields_join [OF words, folded printCron_def]
  have parsed: "parseFields (zip (map printField fs) FIELD_SPECS) =
      Inr (map (\<lambda>(ps, spec). (\<Union> (denotes spec ` set ps), ps \<noteq> [Star])) (zip fs FIELD_SPECS))"
    by (rule parseFields_print) (use len parts FIELD_SPECS_length in auto)
  show ?thesis
    unfolding parseCron_def Let_def using fields len parsed
    by (simp add: fieldSet_def FIELD_SPECS_length)
qed

text \<open>
  Printing the five fields of an expression, each a list of wildcards, values, ranges and steps within
  the bounds of its field, and parsing the result gives exactly the sets these denote, the source text,
  and the marks of the restricted day fields.
\<close>

theorem cron_parse_print:
  assumes "fieldsOk fs"
  shows "parseCron (printCron fs) = Inr \<lparr>cxSource = printCron fs, cxMinute = fieldSet fs 0, cxHour = fieldSet fs 1,
    cxDayOfMonth = fieldSet fs 2, cxMonth = fieldSet fs 3, cxDayOfWeek = fieldSet fs 4,
    cxDomRestricted = (fs ! 2 \<noteq> [Star]), cxDowRestricted = (fs ! 4 \<noteq> [Star])\<rparr>"
  by (rule parseCron_print [OF assms])

definition sampleFields :: "cronPart list list" where
  "sampleFields = [[StarStep 15], [Range 9 17, Single 20], [Star], [Star], [RangeStep 1 5 2]]"

lemma cron_parse_print_witness:
  "printCron sampleFields = ''*/15 9-17,20 * * 1-5/2'' \<and>
   (case parseCron (printCron sampleFields) of Inl _ \<Rightarrow> False
    | Inr c \<Rightarrow> cxDayOfWeek c = fieldSet sampleFields 4 \<and> cxDowRestricted c \<and> \<not> cxDomRestricted c)"
proof -
  have "fieldsOk sampleFields" by code_simp
  note parsed = cron_parse_print [OF this]
  have "printCron sampleFields = ''*/15 9-17,20 * * 1-5/2''" by code_simp
  with parsed show ?thesis by (simp add: sampleFields_def)
qed

end
