(* ===== verification/Cron_Search.thy ===== *)
theory Cron_Search
  imports Cron_Theorems
begin

text \<open>
  The next firing instant. In a zone whose local time advances with the clock (the locale's law) the
  search finds the first minute after the given instant that matches; in a zone that leaves daylight
  saving time it can go back.
\<close>

subsection \<open>Zones without transitions\<close>

locale steady_zone =
  fixes z :: zone
  assumes shifts: "zoLocal z (t + d) = zoLocal z t + d"
    and returns: "zoUtc z (zoLocal z t) = t"
begin

lemma add_minute: "addMinute z t = t + 60000"
  by (metis addMinute_def returns shifts)

lemma start_of_minute: "startOfMinute z t = t - zoLocal z t mod 60000"
proof -
  have "zoLocal z (t - zoLocal z t mod 60000) = zoLocal z t - zoLocal z t mod 60000"
    using shifts [of t "- (zoLocal z t mod 60000)"] by simp
  then show ?thesis by (metis returns startOfMinute_def)
qed

lemma matches_minute:
  assumes "zoLocal z t div 60000 = zoLocal z u div 60000" shows "matches z c t = matches z c u"
proof -
  have "zoLocal z v div 3600000 = zoLocal z v div 60000 div 60" "zoLocal z v div 86400000 = zoLocal z v div 60000 div 1440" for v
    using zdiv_zmult2_eq [of 60 "zoLocal z v" 60000] zdiv_zmult2_eq [of 1440 "zoLocal z v" 60000] by simp_all
  with assms show ?thesis
    by (simp add: matches_def getMinutes_def getHours_def getMonth1_def getDate_def getDay_def)
qed

lemma search_some:
  "searchFire z c n t = Some u \<longleftrightarrow> (\<exists>k<n. u = t + 60000 * int k \<and> matches z c u \<and> (\<forall>j<k. \<not> matches z c (t + 60000 * int j)))"
proof (induction n arbitrary: t)
  case (Suc n)
  have later: "t + 60000 * int (Suc k) = t + 60000 + 60000 * int k" for k by simp
  show ?case
    unfolding Ex_less_Suc2 All_less_Suc2 later using Suc.IH [of "t + 60000"] by (auto simp: add_minute)
qed simp

lemma search_none: "searchFire z c n t = None \<longleftrightarrow> (\<forall>k<n. \<not> matches z c (t + 60000 * int k))"
proof (induction n arbitrary: t)
  case (Suc n)
  have later: "t + 60000 * int (Suc k) = t + 60000 + 60000 * int k" for k by simp
  show ?case
    unfolding All_less_Suc2 later using Suc.IH [of "t + 60000"] by (auto simp: add_minute)
qed simp

text \<open>The minute of an instant; the search visits the first instants of the minutes that follow.\<close>

definition minuteOf :: "int \<Rightarrow> int" where
  "minuteOf t = zoLocal z t div 60000"

lemma cursor_local: "zoLocal z (startOfMinute z t + MINUTE_MS + 60000 * int k) = 60000 * (minuteOf t + 1 + int k)"
proof -
  have "zoLocal z (startOfMinute z t + MINUTE_MS + 60000 * int k)
      = zoLocal z t + (60000 * (1 + int k) - zoLocal z t mod 60000)"
    unfolding start_of_minute MINUTE_MS_def
    using shifts [of t "60000 * (1 + int k) - zoLocal z t mod 60000"] by (simp add: algebra_simps)
  moreover have "zoLocal z t - zoLocal z t mod 60000 = 60000 * minuteOf t"
    unfolding minuteOf_def by (rule minus_mod_eq_mult_div)
  ultimately show ?thesis by simp
qed

lemma cursor_minute:
  "minuteOf (startOfMinute z t + MINUTE_MS + 60000 * int k) = minuteOf t + 1 + int k"
  "zoLocal z (startOfMinute z t + MINUTE_MS + 60000 * int k) mod 60000 = 0"
proof -
  have "60000 * (minuteOf t + 1 + int k) div 60000 = minuteOf t + 1 + int k" by (rule nonzero_mult_div_cancel_left) simp
  then show "minuteOf (startOfMinute z t + MINUTE_MS + 60000 * int k) = minuteOf t + 1 + int k"
    unfolding minuteOf_def [of "startOfMinute z t + MINUTE_MS + 60000 * int k"] cursor_local .
  show "zoLocal z (startOfMinute z t + MINUTE_MS + 60000 * int k) mod 60000 = 0"
    unfolding cursor_local by (rule mod_mult_self1_is_0)
qed

lemma next_after:
  assumes "nextFireAfter z c t = Inr u"
  shows "t < u" "matches z c u" "zoLocal z u mod 60000 = 0"
    "\<And>v. minuteOf t < minuteOf v \<Longrightarrow> v < u \<Longrightarrow> \<not> matches z c v"
proof -
  let ?s = "startOfMinute z t + MINUTE_MS"
  from assms have "searchFire z c MAX_SEARCH_MINUTES ?s = Some u"
    by (auto simp: nextFireAfter_def split: option.splits)
  then obtain k where k: "u = ?s + 60000 * int k" "matches z c u" "\<And>j. j < k \<Longrightarrow> \<not> matches z c (?s + 60000 * int j)"
    unfolding search_some by blast
  have "zoLocal z t mod 60000 < 60000" by simp
  then show "t < u" using k(1) by (simp add: start_of_minute MINUTE_MS_def)
  show "matches z c u" by (rule k(2))
  show "zoLocal z u mod 60000 = 0" unfolding k(1) by (rule cursor_minute)
  fix v assume v: "minuteOf t < minuteOf v" "v < u"
  have "zoLocal z v < zoLocal z u" using shifts [of v "u - v"] v(2) by simp
  moreover have "zoLocal z w = 60000 * minuteOf w + zoLocal z w mod 60000" for w
    unfolding minuteOf_def by (rule mult_div_mod_eq [symmetric])
  moreover have "0 \<le> zoLocal z v mod 60000" by simp
  ultimately have less: "60000 * minuteOf v < 60000 * minuteOf u"
    using \<open>zoLocal z u mod 60000 = 0\<close> by (metis add_0_right add_increasing2 le_less_trans order_refl)
  from less have "minuteOf v < minuteOf u" by simp
  moreover have "minuteOf u = minuteOf t + 1 + int k" unfolding k(1) by (rule cursor_minute)
  ultimately have range: "0 \<le> minuteOf v - minuteOf t - 1" "minuteOf v - minuteOf t - 1 < int k" using v(1) by simp_all
  define j where "j = nat (minuteOf v - minuteOf t - 1)"
  have j: "j < k" "minuteOf v = minuteOf t + 1 + int j" using range by (simp_all add: j_def)
  have "minuteOf v = minuteOf (?s + 60000 * int j)" unfolding cursor_minute by (rule j(2))
  then have "matches z c v = matches z c (?s + 60000 * int j)"
    unfolding minuteOf_def by (rule matches_minute)
  with k(3) [OF j(1)] show "\<not> matches z c v" by simp
qed

end

subsection \<open>Zones of a fixed offset\<close>

definition fixedZone :: "int \<Rightarrow> zone" where
  "fixedZone off = \<lparr>zoLocal = (\<lambda>t. t + off), zoUtc = (\<lambda>l. l - off)\<rparr>"

lemma fixedZone_simps [simp]: "zoLocal (fixedZone off) t = t + off" "zoUtc (fixedZone off) l = l - off"
  by (simp_all add: fixedZone_def)

interpretation fx: steady_zone "fixedZone off" for off
  by unfold_locales simp_all

lemma searchFire_step:
  "0 < n \<Longrightarrow> searchFire z c n t = (if matches z c t then Some t else searchFire z c (n - 1) (addMinute z t))"
  by (cases n) simp_all

text \<open>
  In a zone of a fixed offset the next firing instant is strictly later than the given one, starts a
  minute, matches the expression, and is the first: no instant between the end of the given minute and it
  matches.
\<close>

theorem next_fire_exact:
  assumes "nextFireAfter (fixedZone off) c t = Inr u"
  shows "t < u \<and> matches (fixedZone off) c u \<and> (u + off) mod 60000 = 0 \<and>
    (\<forall>v. (t + off) div 60000 < (v + off) div 60000 \<longrightarrow> v < u \<longrightarrow> \<not> matches (fixedZone off) c v)"
  using fx.next_after [OF assms] by (simp add: fx.minuteOf_def)

text \<open>
  A job at 9:30 on weekdays, seen from Friday 1970-01-02 9:29:59 and from 9:30:00 of that day, an hour
  east of Greenwich.
\<close>

definition weekdayMorning :: cronExpr where
  "weekdayMorning = \<lparr>cxSource = ''30 9 * * 1-5'', cxMinute = {30}, cxHour = {9}, cxDayOfMonth = {1..31},
     cxMonth = {1..12}, cxDayOfWeek = {1..5}, cxDomRestricted = False, cxDowRestricted = True\<rparr>"

lemma next_fire_exact_witness:
  "nextFireAfter (fixedZone 3600000) weekdayMorning 116999000 = Inr 117000000 \<and>
   \<not> matches (fixedZone 3600000) weekdayMorning 116999999"
proof -
  have "matches (fixedZone 3600000) weekdayMorning 117000000" by code_simp
  then have found: "nextFireAfter (fixedZone 3600000) weekdayMorning 116999000 = Inr 117000000"
    by (simp add: nextFireAfter_def startOfMinute_def MINUTE_MS_def MAX_SEARCH_MINUTES_def searchFire_step)
  note next_fire_exact [OF this]
  moreover have "\<not> matches (fixedZone 3600000) weekdayMorning 116999999" by code_simp
  ultimately show ?thesis using found by simp
qed

subsection \<open>The end of daylight saving time\<close>

text \<open>
  A zone an hour ahead until instant 3600000 and at Greenwich time from then on: local time from 1:00 to
  2:00 repeats, and a repeated local time is taken for its first occurrence, as ECMAScript does.
\<close>

definition fallBackZone :: zone where
  "fallBackZone = \<lparr>zoLocal = (\<lambda>t. if t < 3600000 then t + 3600000 else t),
     zoUtc = (\<lambda>l. if l < 7200000 then l - 3600000 else l)\<rparr>"

definition everyMinuteOfOne :: cronExpr where
  "everyMinuteOfOne = \<lparr>cxSource = ''* 1 * * *'', cxMinute = {0..59}, cxHour = {1}, cxDayOfMonth = {1..31},
     cxMonth = {1..12}, cxDayOfWeek = {0..6}, cxDomRestricted = False, cxDowRestricted = False\<rparr>"

text \<open>
  The promise of a firing instant strictly after the given one fails in the hour that repeats when
  daylight saving time ends: from the second 1:30 the search starts over in the first 1:30 and returns
  an instant an hour earlier than the one given.
\<close>

theorem next_fire_goes_back:
  "\<exists>u. nextFireAfter fallBackZone everyMinuteOfOne 5400000 = Inr u \<and> u = 5400000 - 3540000"
proof -
  have "matches fallBackZone everyMinuteOfOne 1860000" by code_simp
  then show ?thesis
    by (simp add: nextFireAfter_def startOfMinute_def MINUTE_MS_def MAX_SEARCH_MINUTES_def searchFire_step
        fallBackZone_def [THEN arg_cong [where f = zoLocal]] fallBackZone_def [THEN arg_cong [where f = zoUtc]])
qed

end
