(* ===== verification/Cron_Job.thy ===== *)
theory Cron_Job
  imports Cron_Search Policy_Authority Protocol_Domain "HOL-Library.Word" "HOL-Library.AList"
begin

unbundle bit_operations_syntax

text \<open>
  \<^verbatim>\<open>packages/scheduler/src/job.ts\<close> and \<^verbatim>\<open>store.ts\<close>: jobs with their deterministic jitter, the records of
  the durable log and its fold into jobs. A JavaScript \<^verbatim>\<open>Map\<close> is an association list in insertion order.
\<close>

subsection \<open>Jobs\<close>

datatype jobKind = Recurring | OneShot

datatype jobStatus = JobActive | JobFired | JobMissed | JobDropped | JobExpired | JobDeleted

definition RECURRING_EXPIRY_MS :: int where
  "RECURRING_EXPIRY_MS = 7 * 24 * 60 * 60 * 1000"

definition MAX_JOBS_PER_OWNER :: nat where
  "MAX_JOBS_PER_OWNER = 50"

definition MAX_JITTER_MS :: int where
  "MAX_JITTER_MS = 15 * 60 * 1000"

record cronJob =
  cjId :: string
  cjOwner :: string
  cjThreadId :: string
  cjKind :: jobKind
  cjCronSource :: "string option"
  cjFireAt :: "int option"
  cjWorkloadTag :: string
  cjCeiling :: authority
  cjCreatedAt :: int
  cjExpiresAt :: "int option"
  cjDurable :: bool
  cjJitterMs :: int

text \<open>FNV-1a on 32-bit words; \<^verbatim>\<open>Math.imul\<close> is the product modulo \<open>2 ^ 32\<close>.\<close>

definition hashString :: "string \<Rightarrow> 32 word" where
  "hashString input = fold (\<lambda>c hash. (hash XOR of_nat (of_char c)) * 0x01000193) input 0x811c9dc5"

text \<open>
  A tenth of the interval: \<^verbatim>\<open>Math.floor\<close> of the product with the double 0.1 is the integer quotient,
  since the error of that double is below half a unit in the last place of the product.
\<close>

definition deterministicJitterMs :: "string \<Rightarrow> int option \<Rightarrow> int" where
  "deterministicJitterMs jid intervalMs =
     (case intervalMs of
        None \<Rightarrow> 0
      | Some interval \<Rightarrow>
          if interval \<le> 0 then 0
          else let cap = min (interval div 10) MAX_JITTER_MS in
            if cap \<le> 0 then 0 else uint (hashString jid) mod (cap + 1))"

lemma jitter_cases:
  "deterministicJitterMs jid i = 0 \<or>
   (\<exists>d. i = Some d \<and> 0 \<le> deterministicJitterMs jid i \<and> deterministicJitterMs jid i \<le> min (d div 10) MAX_JITTER_MS)"
proof -
  have "0 \<le> uint (hashString jid) mod (cap + 1) \<and> uint (hashString jid) mod (cap + 1) \<le> cap" if "0 < cap" for cap :: int
    using that pos_mod_bound [of "cap + 1" "uint (hashString jid)"] pos_mod_sign [of "cap + 1" "uint (hashString jid)"] by linarith
  from this [of "min (the i div 10) MAX_JITTER_MS"] show ?thesis
    unfolding deterministicJitterMs_def Let_def by (cases i) (auto simp: not_le)
qed

lemma job_jitter_bounds:
  "0 \<le> deterministicJitterMs jid i" "deterministicJitterMs jid i \<le> MAX_JITTER_MS"
  "i = Some d \<Longrightarrow> 0 < d \<Longrightarrow> 10 * deterministicJitterMs jid i \<le> d"
proof -
  have "0 \<le> MAX_JITTER_MS" by (simp add: MAX_JITTER_MS_def)
  then show "0 \<le> deterministicJitterMs jid i" "deterministicJitterMs jid i \<le> MAX_JITTER_MS"
    using jitter_cases [of jid i] by auto
  assume "i = Some d" "0 < d"
  then show "10 * deterministicJitterMs jid i \<le> d" using jitter_cases [of jid i] by auto
qed

subsection \<open>The durable log\<close>

record jobSnapshot =
  snId :: string
  snOwner :: string
  snThreadId :: string
  snKind :: jobKind
  snCronSource :: "string option"
  snFireAt :: "int option"
  snWorkloadTag :: string
  snCeiling :: authority
  snCreatedAt :: int
  snExpiresAt :: "int option"
  snJitterMs :: int

definition toSnapshot :: "cronJob \<Rightarrow> jobSnapshot" where
  "toSnapshot j = \<lparr>snId = cjId j, snOwner = cjOwner j, snThreadId = cjThreadId j, snKind = cjKind j,
     snCronSource = cjCronSource j, snFireAt = cjFireAt j, snWorkloadTag = cjWorkloadTag j, snCeiling = cjCeiling j,
     snCreatedAt = cjCreatedAt j, snExpiresAt = cjExpiresAt j, snJitterMs = cjJitterMs j\<rparr>"

definition jobOfSnapshot :: "jobSnapshot \<Rightarrow> cronJob" where
  "jobOfSnapshot s = \<lparr>cjId = snId s, cjOwner = snOwner s, cjThreadId = snThreadId s, cjKind = snKind s,
     cjCronSource = snCronSource s, cjFireAt = snFireAt s, cjWorkloadTag = snWorkloadTag s, cjCeiling = snCeiling s,
     cjCreatedAt = snCreatedAt s, cjExpiresAt = snExpiresAt s, cjDurable = True, cjJitterMs = snJitterMs s\<rparr>"

lemma snapshot_job [simp]: "jobOfSnapshot (toSnapshot j) = j\<lparr>cjDurable := True\<rparr>" "toSnapshot (jobOfSnapshot s) = s"
  by (simp_all add: jobOfSnapshot_def toSnapshot_def)

datatype schedulerRecord =
    JobCreated jobSnapshot
  | JobRemoved string
  | JobStatusSet string jobStatus
  | JobFiredAt string int
  | JobMissedAt string int

record foldedJob =
  fjSnapshot :: jobSnapshot
  fjStatus :: jobStatus
  fjFired :: "int list"
  fjMissed :: "int list"

type_synonym foldedJobs = "(string \<times> foldedJob) list"

text \<open>Mutation of the entry that a key has, if it has one.\<close>

definition mapEntry :: "string \<Rightarrow> ('a \<Rightarrow> 'a) \<Rightarrow> (string \<times> 'a) list \<Rightarrow> (string \<times> 'a) list" where
  "mapEntry k f m = (case map_of m k of None \<Rightarrow> m | Some e \<Rightarrow> AList.update k (f e) m)"

definition addInstant :: "int \<Rightarrow> int list \<Rightarrow> int list" where
  "addInstant t ts = (if t \<in> set ts then ts else ts @ [t])"

definition foldRecord :: "schedulerRecord \<Rightarrow> foldedJobs \<Rightarrow> foldedJobs" where
  "foldRecord r m =
     (case r of
        JobCreated s \<Rightarrow> AList.update (snId s) \<lparr>fjSnapshot = s, fjStatus = JobActive, fjFired = [], fjMissed = []\<rparr> m
      | JobRemoved jid \<Rightarrow> AList.delete jid m
      | JobStatusSet jid st \<Rightarrow> mapEntry jid (\<lambda>e. e\<lparr>fjStatus := st\<rparr>) m
      | JobFiredAt jid t \<Rightarrow> mapEntry jid (\<lambda>e. e\<lparr>fjFired := addInstant t (fjFired e)\<rparr>) m
      | JobMissedAt jid t \<Rightarrow> mapEntry jid (\<lambda>e. e\<lparr>fjMissed := addInstant t (fjMissed e)\<rparr>) m)"

definition foldRecords :: "schedulerRecord list \<Rightarrow> foldedJob list" where
  "foldRecords records = map snd (fold foldRecord records [])"

end
