(* ===== verification/Cron_Scheduler.thy ===== *)
theory Cron_Scheduler
  imports Cron_Job
begin

text \<open>
  \<^verbatim>\<open>packages/scheduler/src/scheduler.ts\<close>: creating, polling, deleting and resuming jobs, over a clock, an
  id source, a time zone and an append-only store that are parameters. A poll that does not return is None,
  an exception is an Inl, and what an operation changed before it threw stays changed.
\<close>

subsection \<open>State\<close>

record jobState =
  jsJob :: cronJob
  jsStatus :: jobStatus
  jsCursor :: int
  jsPending :: "int option"
  jsFired :: "int list"
  jsMissed :: "int list"

record scheduler =
  scJobs :: "(string \<times> jobState) list"
  scLog :: "schedulerRecord list"

text \<open>The store says which records it takes, given those it holds; without a store nothing is appended.\<close>

record schedEnv =
  seZone :: zone
  seStore :: "(schedulerRecord list \<Rightarrow> schedulerRecord \<Rightarrow> bool) option"

datatype schedExn = CronExn cronError | StoreExn | HarnessExn harnessErrorData

record dueResult =
  drJob :: cronJob
  drScheduledInstant :: int
  drFiredAt :: int
  drAuthority :: authority

datatype createJobInput =
    CreateRecurring (ciOwner: string) (ciThreadId: string) (ciCronExpr: string) (ciWorkloadTag: string)
      (ciCeiling: authority) (ciDurable: bool)
  | CreateOneShot (ciOwner: string) (ciThreadId: string) (ciFireAt: "int option") (ciWorkloadTag: string)
      (ciCeiling: authority) (ciDurable: bool)

text \<open>A computation on one job and the log.\<close>

type_synonym 'a jobStep =
  "jobState \<times> schedulerRecord list \<Rightarrow> ((schedExn + 'a) \<times> jobState \<times> schedulerRecord list) option"

definition returnJ :: "'a \<Rightarrow> 'a jobStep" where
  [cron_defs]: "returnJ x s = Some (Inr x, s)"

definition bindJ :: "'a jobStep \<Rightarrow> ('a \<Rightarrow> 'b jobStep) \<Rightarrow> 'b jobStep" where
  "bindJ m f s = (case m s of None \<Rightarrow> None | Some (Inl e, s') \<Rightarrow> Some (Inl e, s') | Some (Inr x, s') \<Rightarrow> f x s')"

definition modifyJ :: "(jobState \<Rightarrow> jobState) \<Rightarrow> unit jobStep" where
  [cron_defs]: "modifyJ f s = Some (Inr (), f (fst s), snd s)"

definition appendRecord :: "schedEnv \<Rightarrow> schedulerRecord \<Rightarrow> schedulerRecord list \<Rightarrow> (schedExn + unit) \<times> schedulerRecord list" where
  "appendRecord env r log =
     (case seStore env of
        None \<Rightarrow> (Inr (), log)
      | Some takes \<Rightarrow> if takes log r then (Inr (), log @ [r]) else (Inl StoreExn, log))"

definition appendJ :: "schedEnv \<Rightarrow> schedulerRecord \<Rightarrow> unit jobStep" where
  [cron_defs]: "appendJ env r s = (case appendRecord env r (snd s) of (res, log) \<Rightarrow> Some (res, fst s, log))"

definition persistStatus :: "schedEnv \<Rightarrow> jobStatus \<Rightarrow> unit jobStep" where
  [cron_defs]: "persistStatus env st s =
     (if cjDurable (jsJob (fst s)) then appendJ env (JobStatusSet (cjId (jsJob (fst s))) st) s else returnJ () s)"

subsection \<open>The live poll\<close>

definition nextFireOf :: "zone \<Rightarrow> string \<Rightarrow> int \<Rightarrow> cronError + int" where
  "nextFireOf z expr t = thenR (parseCron expr) (\<lambda>c. nextFireAfter z c t)"

text \<open>\<^verbatim>\<open>while (probe + jitter <= now)\<close>: the latest instant that is due, or None when the loop never ends.\<close>

partial_function (option) targetLoop :: "zone \<Rightarrow> string \<Rightarrow> int \<Rightarrow> int \<Rightarrow> int \<Rightarrow> int option \<Rightarrow> (cronError + int option) option" where
  "targetLoop z expr jitter now probe candidate =
     (if probe + jitter \<le> now then
        (case nextFireOf z expr probe of
           Inl e \<Rightarrow> Some (Inl e)
         | Inr p \<Rightarrow> targetLoop z expr jitter now p (Some probe))
      else Some (Inr candidate))"

declare targetLoop.simps [code]

definition laterOf :: "int option \<Rightarrow> int option \<Rightarrow> int option" where
  "laterOf candidate pending =
     (case pending of
        None \<Rightarrow> candidate
      | Some p \<Rightarrow> Some (case candidate of None \<Rightarrow> p | Some c \<Rightarrow> max c p))"

definition recurringTarget :: "schedEnv \<Rightarrow> int \<Rightarrow> int option jobStep" where
  "recurringTarget env now s =
     (let st = fst s; z = seZone env; jitter = cjJitterMs (jsJob st) in
      case cjCronSource (jsJob st) of
        None \<Rightarrow> returnJ None s
      | Some expr \<Rightarrow>
          (case nextFireOf z expr (jsCursor st) of
             Inl e \<Rightarrow> Some (Inl (CronExn e), s)
           | Inr probe \<Rightarrow>
               (case targetLoop z expr jitter now probe None of
                  None \<Rightarrow> None
                | Some (Inl e) \<Rightarrow> Some (Inl (CronExn e), s)
                | Some (Inr candidate) \<Rightarrow> returnJ (laterOf candidate (jsPending st)) s)))"

definition oneShotTarget :: "int \<Rightarrow> jobState \<Rightarrow> int option" where
  "oneShotTarget now st =
     (case cjFireAt (jsJob st) of
        None \<Rightarrow> None
      | Some fireAt \<Rightarrow>
          if jsPending st \<noteq> None then jsPending st
          else if fireAt + cjJitterMs (jsJob st) \<le> now \<and> fireAt \<notin> set (jsFired st) then Some fireAt
          else None)"

definition maybeExpire :: "schedEnv \<Rightarrow> int \<Rightarrow> bool jobStep" where
  "maybeExpire env now s =
     (let job = jsJob (fst s) in
      if cjKind job \<noteq> Recurring then returnJ False s
      else
        (case cjExpiresAt job of
           None \<Rightarrow> returnJ False s
         | Some deadline \<Rightarrow>
             if now < deadline then returnJ False s
             else bindJ (modifyJ (\<lambda>st. st\<lparr>jsStatus := JobExpired\<rparr>)) (\<lambda>_.
                  bindJ (persistStatus env JobExpired) (\<lambda>_. returnJ True)) s))"

definition fireJob :: "schedEnv \<Rightarrow> managedPolicy \<Rightarrow> int \<Rightarrow> dueResult jobStep" where
  "fireJob env managed instant s =
     (let job = jsJob (fst s) in
      bindJ (modifyJ (\<lambda>st. st\<lparr>jsCursor := max (jsCursor st) instant, jsPending := None, jsFired := jsFired st @ [instant]\<rparr>)) (\<lambda>_.
      bindJ (if cjKind job = OneShot
             then bindJ (modifyJ (\<lambda>st. st\<lparr>jsStatus := JobFired\<rparr>)) (\<lambda>_. persistStatus env JobFired)
             else if cjDurable job then appendJ env (JobFiredAt (cjId job) instant)
             else returnJ ()) (\<lambda>_.
      returnJ \<lparr>drJob = job, drScheduledInstant = instant, drFiredAt = instant + cjJitterMs job,
        drAuthority = intersect (cjCeiling job) (cjCeiling job) managed\<rparr>)) s)"

definition evaluateJob :: "schedEnv \<Rightarrow> int \<Rightarrow> bool \<Rightarrow> managedPolicy \<Rightarrow> dueResult option jobStep" where
  "evaluateJob env now busy managed s =
     (if jsStatus (fst s) \<noteq> JobActive then returnJ None s
      else bindJ (maybeExpire env now) (\<lambda>expired.
        if expired then returnJ None
        else bindJ (\<lambda>s'. if cjKind (jsJob (fst s')) = Recurring then recurringTarget env now s'
                         else returnJ (oneShotTarget now (fst s')) s') (\<lambda>target.
          case target of
            None \<Rightarrow> returnJ None
          | Some instant \<Rightarrow>
              if busy then bindJ (modifyJ (\<lambda>st. st\<lparr>jsPending := Some instant, jsCursor := max (jsCursor st) instant\<rparr>)) (\<lambda>_. returnJ None)
              else bindJ (fireJob env managed instant) (\<lambda>r. returnJ (Some r)))) s)"

text \<open>A job that throws is skipped; the poll goes on with the others.\<close>

fun dueGo :: "schedEnv \<Rightarrow> int \<Rightarrow> bool \<Rightarrow> managedPolicy \<Rightarrow> (string \<times> jobState) list \<Rightarrow> schedulerRecord list
    \<Rightarrow> (dueResult list \<times> (string \<times> jobState) list \<times> schedulerRecord list) option" where
  "dueGo env now busy managed [] log = Some ([], [], log)"
| "dueGo env now busy managed ((k, st) # rest) log =
     (case evaluateJob env now busy managed (st, log) of
        None \<Rightarrow> None
      | Some (r, st', log') \<Rightarrow>
          (case dueGo env now busy managed rest log' of
             None \<Rightarrow> None
           | Some (outs, jobs, log'') \<Rightarrow>
               Some ((case r of Inr (Some d) \<Rightarrow> d # outs | _ \<Rightarrow> outs), (k, st') # jobs, log'')))"

definition due :: "schedEnv \<Rightarrow> int \<Rightarrow> bool \<Rightarrow> managedPolicy \<Rightarrow> scheduler \<Rightarrow> (dueResult list \<times> scheduler) option" where
  "due env now busy managed sch =
     (case dueGo env now busy managed (scJobs sch) (scLog sch) of
        None \<Rightarrow> None
      | Some (outs, jobs, log) \<Rightarrow> Some (outs, \<lparr>scJobs = jobs, scLog = log\<rparr>))"

subsection \<open>Resuming after downtime\<close>

text \<open>Record one missed instant, unless it is recorded; whether it was new.\<close>

definition recordMissed :: "schedEnv \<Rightarrow> int \<Rightarrow> bool jobStep" where
  [cron_defs]: "recordMissed env instant s =
     (if instant \<in> set (jsMissed (fst s)) then returnJ False s
      else bindJ (modifyJ (\<lambda>st. st\<lparr>jsMissed := jsMissed st @ [instant]\<rparr>)) (\<lambda>_.
           bindJ (appendJ env (JobMissedAt (cjId (jsJob (fst s))) instant)) (\<lambda>_. returnJ True)) s)"

partial_function (option) missedLoop :: "schedEnv \<Rightarrow> string \<Rightarrow> int \<Rightarrow> int \<Rightarrow> nat \<Rightarrow> nat jobStep" where
  "missedLoop env expr now probe count s =
     (if probe \<le> now then
        (case recordMissed env probe s of
           None \<Rightarrow> None
         | Some (Inl e, s') \<Rightarrow> Some (Inl e, s')
         | Some (Inr isNew, s') \<Rightarrow>
             (case nextFireOf (seZone env) expr probe of
                Inl e \<Rightarrow> Some (Inl (CronExn e), s')
              | Inr p \<Rightarrow> missedLoop env expr now p (if isNew then Suc count else count) s'))
      else Some (Inr count, s))"

declare missedLoop.simps [code]

definition floorMinute :: "int \<Rightarrow> int" where
  "floorMinute ms = ms div MINUTE_MS * MINUTE_MS"

text \<open>The missed instants of a recurring job, and its cursor moved to the present minute.\<close>

definition resumeRecurring :: "schedEnv \<Rightarrow> int \<Rightarrow> nat jobStep" where
  "resumeRecurring env now s =
     (case cjCronSource (jsJob (fst s)) of
        None \<Rightarrow> returnJ 0 s
      | Some expr \<Rightarrow>
          bindJ (if cjDurable (jsJob (fst s))
                 then (\<lambda>s'. case nextFireOf (seZone env) expr (jsCursor (fst s')) of
                              Inl e \<Rightarrow> Some (Inl (CronExn e), s')
                            | Inr probe \<Rightarrow> missedLoop env expr now probe 0 s')
                 else returnJ 0) (\<lambda>count.
          bindJ (modifyJ (\<lambda>st. st\<lparr>jsCursor := max (jsCursor st) (floorMinute now)\<rparr>)) (\<lambda>_. returnJ count)) s)"

datatype resumeNote = Resumed nat | MissedOneShot | DroppedOneShot | ExpiredNow | Untouched

definition resumeOneShot :: "schedEnv \<Rightarrow> int \<Rightarrow> resumeNote jobStep" where
  "resumeOneShot env now s =
     (let st = fst s in
      case cjFireAt (jsJob st) of
        None \<Rightarrow> returnJ Untouched s
      | Some fireAt \<Rightarrow>
          if fireAt > now \<or> fireAt \<in> set (jsFired st) then returnJ Untouched s
          else if cjDurable (jsJob st)
          then bindJ (modifyJ (\<lambda>x. x\<lparr>jsStatus := JobMissed\<rparr>)) (\<lambda>_.
               bindJ (persistStatus env JobMissed) (\<lambda>_. returnJ MissedOneShot)) s
          else bindJ (modifyJ (\<lambda>x. x\<lparr>jsStatus := JobDropped\<rparr>)) (\<lambda>_. returnJ DroppedOneShot) s)"

definition resumeJob :: "schedEnv \<Rightarrow> int \<Rightarrow> resumeNote jobStep" where
  "resumeJob env now s =
     (if jsStatus (fst s) \<noteq> JobActive then returnJ Untouched s
      else bindJ (maybeExpire env now) (\<lambda>expired.
        if expired then returnJ ExpiredNow
        else (\<lambda>s'. if cjKind (jsJob (fst s')) = Recurring
                   then bindJ (resumeRecurring env now) (\<lambda>n. returnJ (Resumed n)) s'
                   else resumeOneShot env now s')) s)"

record downtimeSummary =
  dsRecurringResumed :: nat
  dsMissedInstants :: nat
  dsMissedOneShots :: "string list"
  dsDroppedOneShots :: "string list"
  dsExpired :: "string list"

definition emptySummary :: downtimeSummary where
  "emptySummary = \<lparr>dsRecurringResumed = 0, dsMissedInstants = 0, dsMissedOneShots = [], dsDroppedOneShots = [], dsExpired = []\<rparr>"

definition addNote :: "string \<Rightarrow> resumeNote \<Rightarrow> downtimeSummary \<Rightarrow> downtimeSummary" where
  "addNote jid note d =
     (case note of
        Resumed n \<Rightarrow> d\<lparr>dsRecurringResumed := Suc (dsRecurringResumed d), dsMissedInstants := dsMissedInstants d + n\<rparr>
      | MissedOneShot \<Rightarrow> d\<lparr>dsMissedOneShots := dsMissedOneShots d @ [jid]\<rparr>
      | DroppedOneShot \<Rightarrow> d\<lparr>dsDroppedOneShots := dsDroppedOneShots d @ [jid]\<rparr>
      | ExpiredNow \<Rightarrow> d\<lparr>dsExpired := dsExpired d @ [jid]\<rparr>
      | Untouched \<Rightarrow> d)"

fun resumeGo :: "schedEnv \<Rightarrow> int \<Rightarrow> (string \<times> jobState) list \<Rightarrow> downtimeSummary \<Rightarrow> schedulerRecord list
    \<Rightarrow> (downtimeSummary \<times> (string \<times> jobState) list \<times> schedulerRecord list) option" where
  "resumeGo env now [] d log = Some (d, [], log)"
| "resumeGo env now ((k, st) # rest) d log =
     (case resumeJob env now (st, log) of
        None \<Rightarrow> None
      | Some (r, st', log') \<Rightarrow>
          (case resumeGo env now rest (case r of Inr note \<Rightarrow> addNote (cjId (jsJob st)) note d | Inl _ \<Rightarrow> d) log' of
             None \<Rightarrow> None
           | Some (d', jobs, log'') \<Rightarrow> Some (d', (k, st') # jobs, log'')))"

definition resumeAfterDowntime :: "schedEnv \<Rightarrow> int \<Rightarrow> scheduler \<Rightarrow> (downtimeSummary \<times> scheduler) option" where
  "resumeAfterDowntime env now sch =
     (case resumeGo env now (scJobs sch) emptySummary (scLog sch) of
        None \<Rightarrow> None
      | Some (d, jobs, log) \<Rightarrow> Some (d, \<lparr>scJobs = jobs, scLog = log\<rparr>))"

subsection \<open>Creating, reading and deleting\<close>

definition liveJobs :: "string \<Rightarrow> scheduler \<Rightarrow> nat" where
  "liveJobs owner sch = length (filter (\<lambda>(_, st). cjOwner (jsJob st) = owner \<and> jsStatus st = JobActive) (scJobs sch))"

definition intervalOf :: "zone \<Rightarrow> string \<Rightarrow> int \<Rightarrow> int option" where
  "intervalOf z expr t =
     (case thenR (parseCron expr) (\<lambda>c. nominalIntervalMs z c t) of Inl _ \<Rightarrow> None | Inr i \<Rightarrow> Some i)"

text \<open>The job of an input, when the input is valid.\<close>

definition jobOf :: "zone \<Rightarrow> int \<Rightarrow> string \<Rightarrow> createJobInput \<Rightarrow> schedExn + cronJob" where
  "jobOf z createdAt jid input =
     (case input of
        CreateRecurring owner thread expr tag ceiling durable \<Rightarrow>
          (case parseCron expr of
             Inl e \<Rightarrow> Inl (CronExn e)
           | Inr _ \<Rightarrow> Inr \<lparr>cjId = jid, cjOwner = owner, cjThreadId = thread, cjKind = Recurring, cjCronSource = Some expr,
               cjFireAt = None, cjWorkloadTag = tag, cjCeiling = ceiling, cjCreatedAt = createdAt,
               cjExpiresAt = Some (createdAt + RECURRING_EXPIRY_MS), cjDurable = durable,
               cjJitterMs = deterministicJitterMs jid (intervalOf z expr createdAt)\<rparr>)
      | CreateOneShot owner thread fireAt tag ceiling durable \<Rightarrow>
          (case fireAt of
             None \<Rightarrow> Inl (HarnessExn (harnessError O_user ''cron.invalid_fire_time'' ''one-shot fireAt must be a finite epoch-ms instant''))
           | Some t \<Rightarrow> Inr \<lparr>cjId = jid, cjOwner = owner, cjThreadId = thread, cjKind = OneShot, cjCronSource = None,
               cjFireAt = Some t, cjWorkloadTag = tag, cjCeiling = ceiling, cjCreatedAt = createdAt,
               cjExpiresAt = None, cjDurable = durable, cjJitterMs = 0\<rparr>))"

definition createJob :: "schedEnv \<Rightarrow> int \<Rightarrow> string \<Rightarrow> createJobInput \<Rightarrow> scheduler \<Rightarrow> (schedExn + cronJob) \<times> scheduler" where
  "createJob env createdAt jid input sch =
     (if liveJobs (ciOwner input) sch \<ge> MAX_JOBS_PER_OWNER
      then (Inl (HarnessExn (harnessError O_user ''cron.limit_exceeded''
              (''owner '' @ ciOwner input @ '' already has '' @ natStr MAX_JOBS_PER_OWNER @ '' live jobs''))), sch)
      else
        (case jobOf (seZone env) createdAt jid input of
           Inl e \<Rightarrow> (Inl e, sch)
         | Inr job \<Rightarrow>
             let jobs = AList.update jid \<lparr>jsJob = job, jsStatus = JobActive, jsCursor = createdAt, jsPending = None,
                   jsFired = [], jsMissed = []\<rparr> (scJobs sch) in
             if cjDurable job
             then (case appendRecord env (JobCreated (toSnapshot job)) (scLog sch) of
                     (Inl e, log) \<Rightarrow> (Inl e, \<lparr>scJobs = jobs, scLog = log\<rparr>)
                   | (Inr _, log) \<Rightarrow> (Inr job, \<lparr>scJobs = jobs, scLog = log\<rparr>))
             else (Inr job, sch\<lparr>scJobs := jobs\<rparr>)))"

definition getJob :: "scheduler \<Rightarrow> string \<Rightarrow> cronJob option" where
  "getJob sch jid = map_option jsJob (map_of (scJobs sch) jid)"

definition jobStatusOf :: "scheduler \<Rightarrow> string \<Rightarrow> jobStatus option" where
  "jobStatusOf sch jid = map_option jsStatus (map_of (scJobs sch) jid)"

definition listJobs :: "scheduler \<Rightarrow> string option \<Rightarrow> cronJob list" where
  "listJobs sch owner =
     map (\<lambda>(_, st). jsJob st)
       (filter (\<lambda>(_, st). jsStatus st \<noteq> JobDeleted \<and> (owner = None \<or> Some (cjOwner (jsJob st)) = owner)) (scJobs sch))"

definition missedInstantsOf :: "scheduler \<Rightarrow> string \<Rightarrow> int list" where
  "missedInstantsOf sch jid = (case map_of (scJobs sch) jid of None \<Rightarrow> [] | Some st \<Rightarrow> jsMissed st)"

definition deleteJob :: "schedEnv \<Rightarrow> string \<Rightarrow> scheduler \<Rightarrow> (schedExn + bool) \<times> scheduler" where
  "deleteJob env jid sch =
     (case map_of (scJobs sch) jid of
        None \<Rightarrow> (Inr False, sch)
      | Some st \<Rightarrow>
          if jsStatus st = JobDeleted then (Inr False, sch)
          else
            let jobs = AList.update jid (st\<lparr>jsStatus := JobDeleted\<rparr>) (scJobs sch) in
            if cjDurable (jsJob st)
            then (case appendRecord env (JobRemoved jid) (scLog sch) of
                    (Inl e, log) \<Rightarrow> (Inl e, \<lparr>scJobs = jobs, scLog = log\<rparr>)
                  | (Inr _, log) \<Rightarrow> (Inr True, \<lparr>scJobs = jobs, scLog = log\<rparr>))
            else (Inr True, sch\<lparr>scJobs := jobs\<rparr>))"

subsection \<open>Restarting from the log\<close>

definition restoredJob :: "foldedJob \<Rightarrow> jobState" where
  "restoredJob f =
     \<lparr>jsJob = jobOfSnapshot (fjSnapshot f), jsStatus = fjStatus f,
      jsCursor = foldl max (snCreatedAt (fjSnapshot f)) (fjFired f @ fjMissed f), jsPending = None,
      jsFired = fjFired f, jsMissed = fjMissed f\<rparr>"

definition restoreJobs :: "schedulerRecord list \<Rightarrow> (string \<times> jobState) list" where
  "restoreJobs log =
     fold (\<lambda>f jobs. AList.update (snId (fjSnapshot f)) (restoredJob f) jobs) (foldRecords log) []"

definition newScheduler :: "schedEnv \<Rightarrow> schedulerRecord list \<Rightarrow> scheduler" where
  "newScheduler env log = \<lparr>scJobs = (if seStore env = None then [] else restoreJobs log), scLog = log\<rparr>"

end
