(* ===== verification/Cron_Runs.thy ===== *)
theory Cron_Runs
  imports Cron_Scheduler "HOL-Library.Sublist"
begin

text \<open>
  Histories of a scheduler with restarts, and the machine of a single job that they refine: whatever the
  scheduler does, each job, with its entry in the durable log and its reports, moves by the steps of
  \<^verbatim>\<open>slotStep\<close>. Invariants of a job are proved on that machine by rule induction.
\<close>

subsection \<open>The entry of one job in the log\<close>

definition slot :: "schedulerRecord list \<Rightarrow> string \<Rightarrow> foldedJob option" where
  "slot log = map_of (fold foldRecord log [])"

definition freshEntry :: "jobSnapshot \<Rightarrow> foldedJob" where
  "freshEntry s = \<lparr>fjSnapshot = s, fjStatus = JobActive, fjFired = [], fjMissed = []\<rparr>"

fun slotChange :: "schedulerRecord \<Rightarrow> string \<Rightarrow> foldedJob option \<Rightarrow> foldedJob option" where
  "slotChange (JobCreated s) k o' = (if snId s = k then Some (freshEntry s) else o')"
| "slotChange (JobRemoved j) k o' = (if j = k then None else o')"
| "slotChange (JobStatusSet j st) k o' = (if j = k then map_option (\<lambda>e. e\<lparr>fjStatus := st\<rparr>) o' else o')"
| "slotChange (JobFiredAt j t) k o' = (if j = k then map_option (\<lambda>e. e\<lparr>fjFired := addInstant t (fjFired e)\<rparr>) o' else o')"
| "slotChange (JobMissedAt j t) k o' = (if j = k then map_option (\<lambda>e. e\<lparr>fjMissed := addInstant t (fjMissed e)\<rparr>) o' else o')"

lemma map_of_mapEntry: "map_of (mapEntry j f m) k = (if j = k then map_option f (map_of m k) else map_of m k)"
  by (auto simp: mapEntry_def update_conv' split: option.split)

lemma slot_Nil [simp]: "slot [] k = None"
  by (simp add: slot_def)

lemma slot_snoc [simp]: "slot (log @ [r]) k = slotChange r k (slot log k)"
  by (cases r) (simp_all add: slot_def foldRecord_def map_of_mapEntry update_conv' delete_conv' freshEntry_def)

definition reliable :: "schedEnv \<Rightarrow> bool" where
  "reliable env \<longleftrightarrow> (\<exists>takes. seStore env = Some takes \<and> (\<forall>log r. takes log r))"

lemma reliable_append: "reliable env \<Longrightarrow> appendRecord env r log = (Inr (), log @ [r])"
  by (auto simp: reliable_def appendRecord_def)

text \<open>Without a store the log is empty. An append changes one entry, or the store is unreliable and throws.\<close>

definition storeOk :: "schedEnv \<Rightarrow> schedulerRecord list \<Rightarrow> bool" where
  "storeOk env log \<longleftrightarrow> seStore env = None \<longrightarrow> log = []"

lemma append_cases:
  assumes "appendRecord env r log = (res, log')" and "storeOk env log" and "\<And>s. r \<noteq> JobCreated s"
  shows "storeOk env log' \<and> ((res = Inr () \<and> (\<forall>k. slot log' k = slotChange r k (slot log k))) \<or>
    (res = Inl StoreExn \<and> \<not> reliable env \<and> log' = log))"
proof (cases "seStore env")
  case None
  moreover have "slotChange r k None = None" for k using assms(3) by (cases r) auto
  ultimately show ?thesis using assms(1,2) by (simp add: appendRecord_def storeOk_def)
next
  case (Some takes)
  then show ?thesis using assms(1) by (auto simp: appendRecord_def storeOk_def reliable_def split: if_splits)
qed

subsection \<open>Job steps\<close>

lemma bindJ_Some:
  "bindJ m f s = Some (r, s') \<longleftrightarrow>
     (\<exists>e. m s = Some (Inl e, s') \<and> r = Inl e) \<or> (\<exists>x s1. m s = Some (Inr x, s1) \<and> f x s1 = Some (r, s'))"
  by (auto simp: bindJ_def split: option.splits sum.splits)

lemma bindJ_modify [simp]: "bindJ (modifyJ f) g (st, log) = g () (f st, log)"
  by (simp add: bindJ_def modifyJ_def)

lemma bindJ_return [simp]: "bindJ (returnJ x) g s = g x s"
  by (simp add: bindJ_def returnJ_def)

text \<open>Append for a durable job only.\<close>

definition persistIf :: "schedEnv \<Rightarrow> bool \<Rightarrow> schedulerRecord \<Rightarrow> schedulerRecord list \<Rightarrow> (schedExn + unit) \<times> schedulerRecord list" where
  "persistIf env durable r log = (if durable then appendRecord env r log else (Inr (), log))"

lemma appendJ_Some: "appendJ env r (st, log) = Some (res, s') \<longleftrightarrow> (\<exists>log'. appendRecord env r log = (res, log') \<and> s' = (st, log'))"
  by (auto simp: appendJ_def split: prod.split)

lemma persistStatus_Some:
  "persistStatus env x (st, log) = Some (res, s') \<longleftrightarrow>
     (\<exists>log'. persistIf env (cjDurable (jsJob st)) (JobStatusSet (cjId (jsJob st)) x) log = (res, log') \<and> s' = (st, log'))"
  by (auto simp: persistStatus_def persistIf_def appendJ_Some returnJ_def)

subsection \<open>The machine of one job\<close>

text \<open>The instant a poll of an active job finds to be due.\<close>

definition targetOf :: "schedEnv \<Rightarrow> int \<Rightarrow> jobState \<Rightarrow> int \<Rightarrow> bool" where
  "targetOf env now st t \<longleftrightarrow> jsStatus st = JobActive \<and>
     (if cjKind (jsJob st) = Recurring
      then (\<exists>s. recurringTarget env now s = Some (Inr (Some t), s) \<and> fst s = st)
      else oneShotTarget now st = Some t)"

abbreviation firedState :: "jobState \<Rightarrow> int \<Rightarrow> jobState" where
  "firedState st t \<equiv> st\<lparr>jsCursor := max (jsCursor st) t, jsPending := None, jsFired := jsFired st @ [t],
     jsStatus := (if cjKind (jsJob st) = OneShot then JobFired else jsStatus st)\<rparr>"

abbreviation firedEntry :: "cronJob \<Rightarrow> int \<Rightarrow> foldedJob \<Rightarrow> foldedJob" where
  "firedEntry job t e \<equiv> (if cjKind job = OneShot then e\<lparr>fjStatus := JobFired\<rparr> else e\<lparr>fjFired := addInstant t (fjFired e)\<rparr>)"

abbreviation newState :: "cronJob \<Rightarrow> jobState" where
  "newState job \<equiv> \<lparr>jsJob = job, jsStatus = JobActive, jsCursor = cjCreatedAt job, jsPending = None, jsFired = [], jsMissed = []\<rparr>"

type_synonym slotState = "jobState option \<times> foldedJob option \<times> int list"

text \<open>
  The state of the job, its entry in the log and the instants reported for it. A step that writes the log
  may fail to, unless the store is reliable, and then reports nothing.
\<close>

inductive slotStep :: "schedEnv \<Rightarrow> string \<Rightarrow> slotState \<Rightarrow> slotState \<Rightarrow> bool" for env k where
  created: "cjId job = k \<Longrightarrow> (f = None \<and> (cjDurable job \<longrightarrow> \<not> reliable env)) \<or> (f = Some (freshEntry (toSnapshot job)) \<and> cjDurable job) \<Longrightarrow>
     slotStep env k (None, None, []) (Some (newState job), f, [])"
| coalesced: "targetOf env now st t \<Longrightarrow>
     slotStep env k (Some st, f, ts) (Some (st\<lparr>jsPending := Some t, jsCursor := max (jsCursor st) t\<rparr>), f, ts)"
| fired: "targetOf env now st t \<Longrightarrow>
     slotStep env k (Some st, f, ts)
       (Some (firedState st t), if cjDurable (jsJob st) then map_option (firedEntry (jsJob st) t) f else f, ts @ [t])"
| lost: "targetOf env now st t \<Longrightarrow> cjDurable (jsJob st) \<Longrightarrow> \<not> reliable env \<Longrightarrow>
     slotStep env k (Some st, f, ts) (Some (firedState st t), f, ts)"
| settled: "jsStatus st = JobActive \<Longrightarrow> x \<in> {JobExpired, JobMissed, JobDropped} \<Longrightarrow> (x = JobDropped \<longrightarrow> \<not> cjDurable (jsJob st)) \<Longrightarrow>
     slotStep env k (Some st, f, ts)
       (Some (st\<lparr>jsStatus := x\<rparr>), if cjDurable (jsJob st) then map_option (\<lambda>e. e\<lparr>fjStatus := x\<rparr>) f else f, ts)"
| unsettled: "jsStatus st = JobActive \<Longrightarrow> x \<in> {JobExpired, JobMissed} \<Longrightarrow> cjDurable (jsJob st) \<Longrightarrow> \<not> reliable env \<Longrightarrow>
     slotStep env k (Some st, f, ts) (Some (st\<lparr>jsStatus := x\<rparr>), f, ts)"
| missed: "t \<notin> set (jsMissed st) \<Longrightarrow> cjDurable (jsJob st) \<Longrightarrow> cjKind (jsJob st) = Recurring \<Longrightarrow>
     f' = map_option (\<lambda>e. e\<lparr>fjMissed := addInstant t (fjMissed e)\<rparr>) f \<or> (f' = f \<and> \<not> reliable env) \<Longrightarrow>
     slotStep env k (Some st, f, ts) (Some (st\<lparr>jsMissed := jsMissed st @ [t]\<rparr>), f', ts)"
| advanced: "cjKind (jsJob st) = Recurring \<Longrightarrow>
     slotStep env k (Some st, f, ts) (Some (st\<lparr>jsCursor := max (jsCursor st) t\<rparr>), f, ts)"
| deleted: "(if cjDurable (jsJob st) then f' = None \<or> (f' = f \<and> \<not> reliable env) else f' = f) \<Longrightarrow>
     slotStep env k (Some st, f, ts) (Some (st\<lparr>jsStatus := JobDeleted\<rparr>), f', ts)"
| restarted: "slotStep env k (j, f, ts) (map_option restoredJob f, f, ts)"

abbreviation slotRuns :: "schedEnv \<Rightarrow> string \<Rightarrow> slotState \<Rightarrow> slotState \<Rightarrow> bool" where
  "slotRuns env k \<equiv> (slotStep env k)\<^sup>*\<^sup>*"


subsection \<open>What an operation does to one job\<close>

text \<open>The job, its entry and its reports move by steps of the machine; no other entry of the log changes.\<close>

definition moves :: "schedEnv \<Rightarrow> jobState \<times> schedulerRecord list \<Rightarrow> jobState \<times> schedulerRecord list \<Rightarrow> int list \<Rightarrow> bool" where
  "moves env s s' new \<longleftrightarrow>
     storeOk env (snd s') \<and> jsJob (fst s') = jsJob (fst s) \<and> (jsStatus (fst s') = JobActive \<longrightarrow> jsStatus (fst s) = JobActive) \<and>
     (\<forall>k. k \<noteq> cjId (jsJob (fst s)) \<longrightarrow> slot (snd s') k = slot (snd s) k) \<and>
     (\<forall>ts. slotRuns env (cjId (jsJob (fst s))) (Some (fst s), slot (snd s) (cjId (jsJob (fst s))), ts)
        (Some (fst s'), slot (snd s') (cjId (jsJob (fst s))), ts @ new))"

lemma moves_refl: "storeOk env (snd s) \<Longrightarrow> moves env s s []"
  by (simp add: moves_def)

lemma moves_trans:
  assumes "moves env s s1 xs" and "moves env s1 s2 ys" shows "moves env s s2 (xs @ ys)"
proof -
  let ?k = "cjId (jsJob (fst s))"
  have k1: "cjId (jsJob (fst s1)) = ?k" using assms(1) by (simp add: moves_def)
  have "slotRuns env ?k (Some (fst s), slot (snd s) ?k, ts) (Some (fst s2), slot (snd s2) ?k, ts @ (xs @ ys))" for ts
  proof (rule rtranclp_trans)
    show "slotRuns env ?k (Some (fst s), slot (snd s) ?k, ts) (Some (fst s1), slot (snd s1) ?k, ts @ xs)"
      using assms(1) by (simp add: moves_def)
    show "slotRuns env ?k (Some (fst s1), slot (snd s1) ?k, ts @ xs) (Some (fst s2), slot (snd s2) ?k, ts @ (xs @ ys))"
      using assms(2) k1 append_assoc [of ts xs ys] unfolding moves_def by metis
  qed
  then show ?thesis using assms k1 by (simp add: moves_def)
qed

lemma moves_step:
  assumes "storeOk env log'" and "jsJob st' = jsJob st" and "jsStatus st' = JobActive \<longrightarrow> jsStatus st = JobActive" and "\<And>k'. k' \<noteq> cjId (jsJob st) \<Longrightarrow> slot log' k' = slot log k'"
    and "\<And>ts. slotStep env (cjId (jsJob st)) (Some st, slot log (cjId (jsJob st)), ts) (Some st', slot log' (cjId (jsJob st)), ts @ new)"
  shows "moves env (st, log) (st', log') new"
proof -
  have "slotRuns env (cjId (jsJob st)) (Some st, slot log (cjId (jsJob st)), ts) (Some st', slot log' (cjId (jsJob st)), ts @ new)" for ts
    by (rule r_into_rtranclp) (rule assms(5))
  then show ?thesis using assms(1-4) by (simp add: moves_def)
qed

definition reportOf :: "schedExn + dueResult option \<Rightarrow> int list" where
  "reportOf r = (case r of Inr (Some d) \<Rightarrow> [drScheduledInstant d] | _ \<Rightarrow> [])"

lemma persist_cases:
  assumes "persistIf env durable r log = (res, log')" and "storeOk env log" and "\<And>s. r \<noteq> JobCreated s"
  shows "storeOk env log' \<and> ((res = Inr () \<and> (\<forall>k. slot log' k = (if durable then slotChange r k (slot log k) else slot log k))) \<or>
    (res = Inl StoreExn \<and> durable \<and> \<not> reliable env \<and> log' = log))"
  using append_cases [OF _ assms(2,3)] assms(1,2) by (auto simp: persistIf_def split: if_splits)

lemma settle_moves:
  assumes "persistStatus env x (st\<lparr>jsStatus := x\<rparr>, log) = Some (res, s')" and "storeOk env log"
    and "jsStatus st = JobActive" and "x \<in> {JobExpired, JobMissed}"
  shows "moves env (st, log) s' []"
proof -
  let ?k = "cjId (jsJob st)"
  obtain log' where log': "persistIf env (cjDurable (jsJob st)) (JobStatusSet ?k x) log = (res, log')" "s' = (st\<lparr>jsStatus := x\<rparr>, log')"
    using assms(1) by (auto simp: persistStatus_Some)
  note cases = persist_cases [OF log'(1) assms(2), simplified]
  show ?thesis
    unfolding log'(2)
  proof (rule moves_step)
    show "storeOk env log'" using cases by blast
    show "jsJob (st\<lparr>jsStatus := x\<rparr>) = jsJob st" by simp
    show "jsStatus (st\<lparr>jsStatus := x\<rparr>) = JobActive \<longrightarrow> jsStatus st = JobActive" using assms by (auto simp: targetOf_def)
    show "slot log' k' = slot log k'" if "k' \<noteq> ?k" for k' using cases that by auto
    show "slotStep env ?k (Some st, slot log ?k, ts) (Some (st\<lparr>jsStatus := x\<rparr>), slot log' ?k, ts @ [])" for ts
    proof (cases "res = Inr ()")
      case True
      with cases have "slot log' ?k = (if cjDurable (jsJob st) then map_option (\<lambda>e. e\<lparr>fjStatus := x\<rparr>) (slot log ?k) else slot log ?k)"
        by auto
      then show ?thesis using settled [OF assms(3), of x env ?k "slot log ?k" ts] assms(4) by auto
    next
      case False
      with cases show ?thesis using unsettled [OF assms(3,4)] by auto
    qed
  qed
qed

lemma maybeExpire_moves:
  assumes "maybeExpire env now s = Some (res, s')" and "storeOk env (snd s)" and "jsStatus (fst s) = JobActive"
  shows "moves env s s' [] \<and> (res = Inr False \<longrightarrow> s' = s)"
proof -
  obtain st log where s: "s = (st, log)" by (cases s)
  have expired: "moves env (st, log) s' []" if "bindJ (persistStatus env JobExpired) (\<lambda>_. returnJ True) (st\<lparr>jsStatus := JobExpired\<rparr>, log) = Some (res, s')"
  proof -
    from that obtain res' where "persistStatus env JobExpired (st\<lparr>jsStatus := JobExpired\<rparr>, log) = Some (res', s')"
      by (auto simp: bindJ_Some returnJ_def)
    then show ?thesis using settle_moves assms(2,3) s by simp
  qed
  have not_false: "res \<noteq> Inr False" if "bindJ (persistStatus env JobExpired) (\<lambda>_. returnJ True) (st\<lparr>jsStatus := JobExpired\<rparr>, log) = Some (res, s')"
    using that by (auto simp: bindJ_Some returnJ_def)
  show ?thesis
    using assms expired not_false
    by (auto simp: maybeExpire_def s Let_def returnJ_def moves_refl split: if_splits option.splits)
qed

lemma fireJob_moves:
  assumes "fireJob env managed t (st, log) = Some (res, s')" and "storeOk env log" and "targetOf env now st t"
  shows "moves env (st, log) s' (reportOf (map_sum id Some res)) \<and>
    (\<forall>d. res = Inr d \<longrightarrow> d = \<lparr>drJob = jsJob st, drScheduledInstant = t, drFiredAt = t + cjJitterMs (jsJob st),
       drAuthority = intersect (cjCeiling (jsJob st)) (cjCeiling (jsJob st)) managed\<rparr>)"
proof -
  let ?k = "cjId (jsJob st)" and ?dur = "cjDurable (jsJob st)"
  let ?rec = "if cjKind (jsJob st) = OneShot then JobStatusSet ?k JobFired else JobFiredAt ?k t"
  let ?report = "\<lparr>drJob = jsJob st, drScheduledInstant = t, drFiredAt = t + cjJitterMs (jsJob st),
       drAuthority = intersect (cjCeiling (jsJob st)) (cjCeiling (jsJob st)) managed\<rparr>"
  obtain res1 log' where log': "persistIf env ?dur ?rec log = (res1, log')" "s' = (firedState st t, log')"
    "res = map_sum id (\<lambda>_. ?report) res1"
    using assms(1)
    by (auto simp: fireJob_def Let_def bindJ_Some persistStatus_Some appendJ_Some persistIf_def returnJ_def split: if_splits)
  have "?rec \<noteq> JobCreated x" for x by simp
  note cases = persist_cases [OF log'(1) assms(2) this]
  have "moves env (st, log) (firedState st t, log') (reportOf (map_sum id Some res))"
  proof (rule moves_step)
    show "storeOk env log'" using cases by blast
    show "jsJob (firedState st t) = jsJob st" by simp
    show "jsStatus (firedState st t) = JobActive \<longrightarrow> jsStatus st = JobActive" using assms by (auto simp: targetOf_def)
    show "slot log' k' = slot log k'" if "k' \<noteq> ?k" for k' using cases that by auto
    show "slotStep env ?k (Some st, slot log ?k, ts) (Some (firedState st t), slot log' ?k, ts @ reportOf (map_sum id Some res))" for ts
    proof (cases "res1 = Inr ()")
      case True
      with cases have "slot log' ?k = (if ?dur then map_option (firedEntry (jsJob st) t) (slot log ?k) else slot log ?k)" by auto
      moreover have "reportOf (map_sum id Some res) = [t]" using True log'(3) by (simp add: reportOf_def)
      ultimately show ?thesis using fired [OF assms(3), of ?k "slot log ?k" ts] by simp
    next
      case False
      with cases have failed: "res1 = Inl StoreExn" "?dur" "\<not> reliable env" "log' = log" by auto
      then have "reportOf (map_sum id Some res) = []" using log'(3) by (simp add: reportOf_def)
      with failed show ?thesis using lost [OF assms(3) failed(2,3), of ?k "slot log ?k" ts] by simp
    qed
  qed
  then show ?thesis using log' by (cases res1) auto
qed

lemma recurringTarget_state: "recurringTarget env now s = Some (r, s') \<Longrightarrow> s' = s"
  by (auto simp: recurringTarget_def Let_def returnJ_def split: option.splits sum.splits)

lemma evaluate_moves:
  assumes "evaluateJob env now busy managed (st, log) = Some (res, s')" and "storeOk env log"
  shows "moves env (st, log) s' (reportOf res) \<and>
    (\<forall>d. res = Inr (Some d) \<longrightarrow> targetOf env now st (drScheduledInstant d) \<and> \<not> busy \<and>
       d = \<lparr>drJob = jsJob st, drScheduledInstant = drScheduledInstant d, drFiredAt = drScheduledInstant d + cjJitterMs (jsJob st),
         drAuthority = intersect (cjCeiling (jsJob st)) (cjCeiling (jsJob st)) managed\<rparr>)"
proof (cases "jsStatus st = JobActive")
  case False
  with assms show ?thesis by (auto simp: evaluateJob_def returnJ_def moves_refl reportOf_def)
next
  case active: True
  let ?target = "\<lambda>s'. if cjKind (jsJob (fst s')) = Recurring then recurringTarget env now s' else returnJ (oneShotTarget now (fst s')) s'"
  let ?act = "\<lambda>target. case target of None \<Rightarrow> returnJ None
    | Some instant \<Rightarrow> if busy then bindJ (modifyJ (\<lambda>st. st\<lparr>jsPending := Some instant, jsCursor := max (jsCursor st) instant\<rparr>)) (\<lambda>_. returnJ None)
                       else bindJ (fireJob env managed instant) (\<lambda>r. returnJ (Some r))"
  from assms(1) active have eval: "bindJ (maybeExpire env now) (\<lambda>expired. if expired then returnJ None else bindJ ?target ?act) (st, log) = Some (res, s')"
    by (simp add: evaluateJob_def)
  have expire: "moves env (st, log) s1 [] \<and> (r1 = Inr False \<longrightarrow> s1 = (st, log))" if "maybeExpire env now (st, log) = Some (r1, s1)" for r1 s1
    using maybeExpire_moves [OF that] assms(2) active by simp
  consider (stop) r1 where "maybeExpire env now (st, log) = Some (r1, s')" "res = Inr None \<or> (\<exists>e. res = Inl e)"
    | (go) "bindJ ?target ?act (st, log) = Some (res, s')"
    using eval expire by (auto simp: bindJ_Some returnJ_def split: if_splits)
  then show ?thesis
  proof cases
    case stop
    with expire [OF stop(1)] show ?thesis by (auto simp: reportOf_def)
  next
    case go
    have same: "s1 = (st, log)" if "?target (st, log) = Some (r1, s1)" for r1 s1
      using that recurringTarget_state by (auto simp: returnJ_def split: if_splits)
    show ?thesis
    proof (cases "\<exists>t. ?target (st, log) = Some (Inr (Some t), (st, log))")
      case False
      with go same have "s' = (st, log)" "res = Inr None \<or> (\<exists>e. res = Inl e)"
        by (auto simp: bindJ_Some returnJ_def split: option.splits)
      then show ?thesis using assms(2) by (auto simp: moves_refl reportOf_def)
    next
      case True
      then obtain t where t: "?target (st, log) = Some (Inr (Some t), (st, log))" by (elim exE)
      then have target: "targetOf env now st t"
        using active by (auto simp: targetOf_def returnJ_def split: if_splits)
      from go t have act: "?act (Some t) (st, log) = Some (res, s')" by (simp add: bindJ_def)
      show ?thesis
      proof (cases busy)
        case True
        with act have s': "s' = (st\<lparr>jsPending := Some t, jsCursor := max (jsCursor st) t\<rparr>, log)" "res = Inr None"
          by (simp_all add: returnJ_def)
        have "moves env (st, log) s' []"
          unfolding s' by (rule moves_step) (use assms(2) coalesced [OF target] in simp_all)
        then show ?thesis using s' by (simp add: reportOf_def)
      next
        case False
        with act obtain r1 where r1: "fireJob env managed t (st, log) = Some (r1, s')" "res = map_sum id Some r1"
          by (auto simp: bindJ_Some returnJ_def)
        from fireJob_moves [OF r1(1) assms(2) target] r1(2) target False show ?thesis by (cases r1) auto
      qed
    qed
  qed
qed

subsection \<open>Resuming\<close>

lemma recordMissed_moves:
  assumes "recordMissed env t (st, log) = Some (res, s')" and "storeOk env log"
    and "cjDurable (jsJob st)" and "cjKind (jsJob st) = Recurring"
  shows "moves env (st, log) s' []"
proof (cases "t \<in> set (jsMissed st)")
  case True
  with assms show ?thesis by (auto simp: recordMissed_def returnJ_def moves_refl)
next
  case False
  let ?k = "cjId (jsJob st)" and ?st = "st\<lparr>jsMissed := jsMissed st @ [t]\<rparr>"
  obtain res1 log' where log': "appendRecord env (JobMissedAt ?k t) log = (res1, log')" "s' = (?st, log')"
    using assms(1) False by (auto simp: recordMissed_def bindJ_Some appendJ_Some returnJ_def)
  note cases = append_cases [OF log'(1) assms(2), simplified]
  show ?thesis
    unfolding log'(2)
  proof (rule moves_step)
    show "storeOk env log'" using cases by blast
    show "jsJob ?st = jsJob st" by simp
    show "jsStatus (?st) = JobActive \<longrightarrow> jsStatus st = JobActive" using assms by (auto simp: targetOf_def)
    show "slot log' k' = slot log k'" if "k' \<noteq> ?k" for k' using cases that by auto
    have "slot log' ?k = map_option (\<lambda>e. e\<lparr>fjMissed := addInstant t (fjMissed e)\<rparr>) (slot log ?k) \<or> (slot log' ?k = slot log ?k \<and> \<not> reliable env)"
      using cases by auto
    then show "slotStep env ?k (Some st, slot log ?k, ts) (Some ?st, slot log' ?k, ts @ [])" for ts
      unfolding append_Nil2 by (rule slotStep.missed [OF False assms(3,4)])
  qed
qed

lemma missedLoop_moves:
  assumes "missedLoop env expr now probe count s = Some (res, s')" and "storeOk env (snd s)"
    and "cjDurable (jsJob (fst s))" and "cjKind (jsJob (fst s)) = Recurring"
  shows "moves env s s' []"
proof -
  have "missedLoop env expr now probe count s = Some out \<Longrightarrow> storeOk env (snd s) \<and> cjDurable (jsJob (fst s)) \<and> cjKind (jsJob (fst s)) = Recurring
      \<longrightarrow> moves env s (snd out) []" for out
  proof (induction rule: missedLoop.raw_induct [rotated 1, consumes 1])
    case (1 loop env expr now probe count s out)
    show ?case
    proof (intro impI, elim conjE)
      assume ok: "storeOk env (snd s)" "cjDurable (jsJob (fst s))" "cjKind (jsJob (fst s)) = Recurring"
      have first: "moves env s s1 []" if "recordMissed env probe s = Some (r1, s1)" for r1 s1
        using recordMissed_moves [of env probe "fst s" "snd s" r1 s1] that ok by simp
      have rest: "moves env s (snd out) []"
        if "recordMissed env probe s = Some (r1, s1)" "loop env expr now p n s1 = Some out" for r1 s1 p n
      proof -
        have "moves env s1 (snd out) []"
          using "1.IH" [OF that(2)] first [OF that(1)] ok by (simp add: moves_def)
        from moves_trans [OF first [OF that(1)] this] show ?thesis by simp
      qed
      show "moves env s (snd out) []"
        using "1.hyps" first rest moves_refl [OF ok(1)] by (auto split: if_splits option.splits sum.splits)
    qed
  qed
  from this [OF assms(1)] assms(2-4) show ?thesis by simp
qed

lemma resumeRecurring_moves:
  assumes "resumeRecurring env now s = Some (res, s')" and "storeOk env (snd s)" and "cjKind (jsJob (fst s)) = Recurring"
  shows "moves env s s' []"
proof -
  let ?move = "modifyJ (\<lambda>st. st\<lparr>jsCursor := max (jsCursor st) (floorMinute now)\<rparr>)"
  have advance: "moves env s1 s2 []" if "?move s1 = Some (r, s2)" "storeOk env (snd s1)" "cjKind (jsJob (fst s1)) = Recurring" for s1 s2 r
  proof -
    obtain st log where s1: "s1 = (st, log)" by (cases s1)
    with that(1) have s2: "s2 = (st\<lparr>jsCursor := max (jsCursor st) (floorMinute now)\<rparr>, log)" by (simp add: modifyJ_def)
    show ?thesis unfolding s1 s2 by (rule moves_step) (use that s1 slotStep.advanced in simp_all)
  qed
  let ?count = "\<lambda>expr. if cjDurable (jsJob (fst s))
      then (\<lambda>s'. case nextFireOf (seZone env) expr (jsCursor (fst s')) of Inl e \<Rightarrow> Some (Inl (CronExn e), s') | Inr probe \<Rightarrow> missedLoop env expr now probe 0 s')
      else returnJ 0"
  have counted: "moves env s s1 []" if "?count expr s = Some (r, s1)" for expr r s1
    using that missedLoop_moves [of env expr now _ 0 s r s1] assms(2,3) moves_refl [OF assms(2)]
    by (auto simp: returnJ_def split: if_splits sum.splits)
  show ?thesis
  proof (cases "cjCronSource (jsJob (fst s))")
    case None
    with assms(1,2) show ?thesis by (simp add: resumeRecurring_def returnJ_def moves_refl)
  next
    case (Some expr)
    with assms(1) have run: "bindJ (?count expr) (\<lambda>count. bindJ ?move (\<lambda>_. returnJ count)) s = Some (res, s')"
      by (simp add: resumeRecurring_def)
    then consider e where "?count expr s = Some (Inl e, s')"
      | n s1 where "?count expr s = Some (Inr n, s1)" "?move s1 = Some (Inr (), s')"
      unfolding bindJ_Some by (auto simp: bindJ_Some modifyJ_def returnJ_def simp del: if_split)
    then show ?thesis
    proof cases
      case 1
      then show ?thesis by (rule counted)
    next
      case 2
      note m = counted [OF 2(1)]
      then have "moves env s1 s' []" using advance [OF 2(2)] assms(3) by (simp add: moves_def)
      from moves_trans [OF m this] show ?thesis by simp
    qed
  qed
qed

lemma resumeOneShot_moves:
  assumes "resumeOneShot env now (st, log) = Some (res, s')" and "storeOk env log" and "jsStatus st = JobActive"
  shows "moves env (st, log) s' []"
proof -
  have missed: "moves env (st, log) s' []"
    if "bindJ (persistStatus env JobMissed) (\<lambda>_. returnJ MissedOneShot) (st\<lparr>jsStatus := JobMissed\<rparr>, log) = Some (res, s')"
  proof -
    from that obtain r1 where "persistStatus env JobMissed (st\<lparr>jsStatus := JobMissed\<rparr>, log) = Some (r1, s')"
      by (auto simp: bindJ_Some returnJ_def)
    then show ?thesis using settle_moves assms(2,3) by simp
  qed
  have dropped: "moves env (st, log) (st\<lparr>jsStatus := JobDropped\<rparr>, log) []" if "\<not> cjDurable (jsJob st)"
    by (rule moves_step) (use that assms(2) settled [OF assms(3), of JobDropped] in auto)
  show ?thesis
    using assms(1,2) missed dropped moves_refl [of env "(st, log)"]
    by (auto simp: resumeOneShot_def Let_def returnJ_def split: option.splits if_splits)
qed

lemma resumeJob_moves:
  assumes "resumeJob env now s = Some (res, s')" and "storeOk env (snd s)"
  shows "moves env s s' []"
proof (cases "jsStatus (fst s) = JobActive")
  case False
  with assms show ?thesis by (simp add: resumeJob_def returnJ_def moves_refl)
next
  case True
  let ?go = "\<lambda>s'. if cjKind (jsJob (fst s')) = Recurring then bindJ (resumeRecurring env now) (\<lambda>n. returnJ (Resumed n)) s'
      else resumeOneShot env now s'"
  from assms(1) True have run: "bindJ (maybeExpire env now) (\<lambda>expired. if expired then returnJ ExpiredNow else ?go) s = Some (res, s')"
    by (simp add: resumeJob_def)
  have expire: "moves env s s1 [] \<and> (r1 = Inr False \<longrightarrow> s1 = s)" if "maybeExpire env now s = Some (r1, s1)" for r1 s1
    using maybeExpire_moves [OF that assms(2) True] .
  from run consider r1 where "maybeExpire env now s = Some (r1, s')" | "?go s = Some (res, s')"
    using expire by (auto simp: bindJ_Some returnJ_def split: if_splits)
  then show ?thesis
  proof cases
    case 1
    with expire show ?thesis by blast
  next
    case 2
    show ?thesis
    proof (cases "cjKind (jsJob (fst s)) = Recurring")
      case True
      with 2 obtain r1 where "resumeRecurring env now s = Some (r1, s')" by (auto simp: bindJ_Some returnJ_def)
      then show ?thesis using resumeRecurring_moves assms(2) True by blast
    next
      case False
      with 2 show ?thesis
        using resumeOneShot_moves [of env now "fst s" "snd s" res s'] assms(2) \<open>jsStatus (fst s) = JobActive\<close> by simp
    qed
  qed
qed

subsection \<open>Whole polls\<close>

text \<open>Every job under its own id, once.\<close>

definition keyed :: "('a \<Rightarrow> string) \<Rightarrow> (string \<times> 'a) list \<Rightarrow> bool" where
  "keyed key m \<longleftrightarrow> distinct (map fst m) \<and> (\<forall>(k, v)\<in>set m. key v = k)"

abbreviation keysOk :: "(string \<times> jobState) list \<Rightarrow> bool" where
  "keysOk \<equiv> keyed (\<lambda>st. cjId (jsJob st))"

lemma keyed_Nil [simp]: "keyed key []"
  by (simp add: keyed_def)

lemma keyed_update:
  assumes "keyed key m" and "key v = k" shows "keyed key (AList.update k v m)"
proof -
  have "key x = j" if "(j, x) \<in> set (AList.update k v m)" for j x
  proof -
    have "distinct (map fst (AList.update k v m))" using assms(1) by (simp add: keyed_def distinct_update)
    with that have "map_of (AList.update k v m) j = Some x" by simp
    then have "(if j = k then Some v else map_of m j) = Some x" by (simp add: update_conv')
    then show ?thesis using assms by (auto simp: keyed_def split: if_splits dest: map_of_SomeD)
  qed
  then show ?thesis using assms(1) by (auto simp: keyed_def distinct_update)
qed

lemma keyed_delete: "keyed key m \<Longrightarrow> keyed key (AList.delete k m)"
  by (auto simp: keyed_def AList.delete_eq distinct_map_filter)

lemma keyed_map_of: "keyed key m \<Longrightarrow> map_of m k = Some v \<Longrightarrow> key v = k"
  by (auto simp: keyed_def dest: map_of_SomeD)

definition instantsOf :: "string \<Rightarrow> dueResult list \<Rightarrow> int list" where
  "instantsOf k ds = map drScheduledInstant (filter (\<lambda>d. cjId (drJob d) = k) ds)"

lemma instantsOf_simps [simp]:
  "instantsOf k [] = []" "instantsOf k (xs @ ys) = instantsOf k xs @ instantsOf k ys"
  "instantsOf k (d # ds) = (if cjId (drJob d) = k then drScheduledInstant d # instantsOf k ds else instantsOf k ds)"
  by (simp_all add: instantsOf_def)

text \<open>The jobs move one after the other; the entries of other keys stay.\<close>

definition sweeps :: "schedEnv \<Rightarrow> (string \<times> jobState) list \<Rightarrow> schedulerRecord list \<Rightarrow> (string \<times> jobState) list \<Rightarrow> schedulerRecord list
    \<Rightarrow> (string \<Rightarrow> int list) \<Rightarrow> bool" where
  "sweeps env jobs log jobs' log' new \<longleftrightarrow>
     list_all2 (\<lambda>(k, st) (k', st'). k' = k \<and> jsJob st' = jsJob st \<and> (jsStatus st' = JobActive \<longrightarrow> jsStatus st = JobActive)) jobs jobs' \<and>
     map fst jobs' = map fst jobs \<and> keysOk jobs' \<and> storeOk env log' \<and>
     (\<forall>k. k \<notin> fst ` set jobs \<longrightarrow> slot log' k = slot log k \<and> new k = []) \<and>
     (\<forall>k ts. slotRuns env k (map_of jobs k, slot log k, ts) (map_of jobs' k, slot log' k, ts @ new k))"

lemma sweeps_Cons:
  assumes keys: "keysOk ((k, st) # rest)" and head: "moves env (st, log) (st', log1) xs"
    and tail: "sweeps env rest log1 rest' log' new"
  shows "sweeps env ((k, st) # rest) log ((k, st') # rest') log' (new(k := xs))"
proof -
  have k: "cjId (jsJob st) = k" "k \<notin> fst ` set rest" "keysOk rest" using keys by (auto simp: keyed_def)
  have rest': "map fst rest' = map fst rest" "keysOk rest'" "storeOk env log'" using tail by (simp_all add: sweeps_def)
  then have fresh: "k \<notin> fst ` set rest'" using k(2) by (metis image_set)
  then have gone: "map_of rest k = None" "map_of rest' k = None" using k(2) by (simp_all add: map_of_eq_None_iff)
  have "slotRuns env j (map_of ((k, st) # rest) j, slot log j, ts) (map_of ((k, st') # rest') j, slot log' j, ts @ (new(k := xs)) j)" for j ts
  proof (cases "j = k")
    case True
    have "slot log' k = slot log1 k" using tail k(2) by (simp add: sweeps_def)
    then show ?thesis using True head k(1) by (simp add: moves_def)
  next
    case False
    then have "slot log1 j = slot log j" using head k(1) by (simp add: moves_def)
    moreover have "slotRuns env j (map_of rest j, slot log1 j, ts) (map_of rest' j, slot log' j, ts @ new j)"
      using tail unfolding sweeps_def by blast
    ultimately show ?thesis using False by simp
  qed
  moreover have "slot log' j = slot log j \<and> (new(k := xs)) j = []" if "j \<notin> fst ` set ((k, st) # rest)" for j
    using that tail head k(1) by (simp add: sweeps_def moves_def)
  moreover have "keysOk ((k, st') # rest')" using rest' k fresh head by (simp add: keyed_def moves_def)
  moreover have "jsJob st' = jsJob st" "jsStatus st' = JobActive \<longrightarrow> jsStatus st = JobActive" using head by (simp_all add: moves_def)
  moreover have "list_all2 (\<lambda>(k, st) (k', st'). k' = k \<and> jsJob st' = jsJob st \<and> (jsStatus st' = JobActive \<longrightarrow> jsStatus st = JobActive)) rest rest'"
    using tail by (simp add: sweeps_def)
  ultimately show ?thesis using rest' by (simp add: sweeps_def)
qed

lemma dueGo_sweeps:
  "dueGo env now busy managed jobs log = Some (outs, jobs', log') \<Longrightarrow> keysOk jobs \<Longrightarrow> storeOk env log \<Longrightarrow>
     sweeps env jobs log jobs' log' (\<lambda>k. instantsOf k outs) \<and> (\<forall>d\<in>set outs. cjId (drJob d) \<in> fst ` set jobs)"
proof (induction env now busy managed jobs log arbitrary: outs jobs' log' rule: dueGo.induct)
  case (1 env now busy managed log)
  then show ?case by (simp add: sweeps_def keyed_def)
next
  case (2 env now busy managed k st rest log)
  from "2.prems"(1) obtain r st' log1 outs1 rest' where
    eval: "evaluateJob env now busy managed (st, log) = Some (r, st', log1)"
    and rest: "dueGo env now busy managed rest log1 = Some (outs1, rest', log')"
    and out: "outs = (case r of Inr (Some d) \<Rightarrow> d # outs1 | _ \<Rightarrow> outs1)" "jobs' = (k, st') # rest'"
    by (auto split: option.splits prod.splits)
  note move = evaluate_moves [OF eval "2.prems"(3)]
  have k: "cjId (jsJob st) = k" "keysOk rest" "k \<notin> fst ` set rest" using "2.prems"(2) by (auto simp: keyed_def)
  have "storeOk env log1" using move by (simp add: moves_def)
  note IH = "2.IH" [OF eval refl refl rest k(2) this]
  have new: "(\<lambda>j. instantsOf j outs) = (\<lambda>j. instantsOf j outs1)(k := reportOf r)"
  proof
    fix j
    have "instantsOf k outs1 = []" using IH k(3) by (simp add: sweeps_def)
    moreover have "cjId (drJob d) = k" if "r = Inr (Some d)" for d
      using move that k(1) by (metis dueResult.select_convs(1))
    ultimately show "instantsOf j outs = ((\<lambda>j. instantsOf j outs1)(k := reportOf r)) j"
      using out(1) by (auto simp: reportOf_def split: sum.splits option.splits)
  qed
  have "sweeps env ((k, st) # rest) log jobs' log' (\<lambda>j. instantsOf j outs)"
    unfolding new out(2) by (rule sweeps_Cons [OF "2.prems"(2) conjunct1 [OF move] conjunct1 [OF IH]])
  moreover have "\<forall>d\<in>set outs. cjId (drJob d) \<in> fst ` set ((k, st) # rest)"
  proof -
    have "cjId (drJob d) = k" if "r = Inr (Some d)" for d
      using move that k(1) by (metis dueResult.select_convs(1))
    then show ?thesis using IH out(1) by (auto split: sum.splits option.splits)
  qed
  ultimately show ?case by blast
qed

lemma resumeGo_sweeps:
  "resumeGo env now jobs d log = Some (d', jobs', log') \<Longrightarrow> keysOk jobs \<Longrightarrow> storeOk env log \<Longrightarrow>
     sweeps env jobs log jobs' log' (\<lambda>k. [])"
proof (induction env now jobs d log arbitrary: d' jobs' log' rule: resumeGo.induct)
  case (1 env now d log)
  then show ?case by (simp add: sweeps_def keyed_def)
next
  case (2 env now k st rest d log)
  from "2.prems"(1) obtain r st' log1 rest' where
    res: "resumeJob env now (st, log) = Some (r, st', log1)"
    and rest: "resumeGo env now rest (case r of Inr note \<Rightarrow> addNote (cjId (jsJob st)) note d | Inl _ \<Rightarrow> d) log1 = Some (d', rest', log')"
    and out: "jobs' = (k, st') # rest'"
    by (auto split: option.splits prod.splits)
  have move: "moves env (st, log) (st', log1) []" using resumeJob_moves [OF res] "2.prems"(3) by simp
  have k: "keysOk rest" "storeOk env log1" using "2.prems"(2) move by (auto simp: keyed_def moves_def)
  note IH = "2.IH" [OF res refl refl rest k]
  from sweeps_Cons [OF "2.prems"(2) move IH] show ?case unfolding out by (simp add: fun_upd_idem)
qed

subsection \<open>Creating, deleting and restarting\<close>

text \<open>What holds of a key that was never given to a job.\<close>

abbreviation slotOf :: "scheduler \<Rightarrow> dueResult list \<Rightarrow> string \<Rightarrow> slotState" where
  "slotOf sch ds k \<equiv> (map_of (scJobs sch) k, slot (scLog sch) k, instantsOf k ds)"

lemma jobOf_Inr:
  "jobOf z t jid input = Inr job \<Longrightarrow> cjId job = jid \<and> cjCreatedAt job = t \<and> cjOwner job = ciOwner input \<and>
     (cjKind job = OneShot \<longrightarrow> cjJitterMs job = 0)"
  by (auto simp: jobOf_def split: createJobInput.splits option.splits sum.splits)

lemma appendRecord_created:
  "appendRecord env (JobCreated s) log = (res, log') \<Longrightarrow> storeOk env log \<Longrightarrow> storeOk env log' \<and>
     (log' = log \<and> \<not> reliable env \<or> log' = log @ [JobCreated s])"
  by (auto simp: appendRecord_def storeOk_def reliable_def split: option.splits if_splits)

lemma create_steps:
  assumes create: "createJob env t jid input sch = (res, sch')" and keys: "keysOk (scJobs sch)" and store: "storeOk env (scLog sch)"
    and new: "slotOf sch ds jid = (None, None, [])"
  shows "keysOk (scJobs sch') \<and> storeOk env (scLog sch') \<and> (\<forall>k. slotRuns env k (slotOf sch ds k) (slotOf sch' ds k)) \<and>
    (\<forall>k. k \<noteq> jid \<longrightarrow> slotOf sch' ds k = slotOf sch ds k)"
proof (cases "liveJobs (ciOwner input) sch \<ge> MAX_JOBS_PER_OWNER \<or> (\<exists>e. jobOf (seZone env) t jid input = Inl e)")
  case True
  then have "sch' = sch" using create by (auto simp: createJob_def split: if_splits)
  with keys store show ?thesis by simp
next
  case False
  then obtain job where job: "jobOf (seZone env) t jid input = Inr job"
    by (cases "jobOf (seZone env) t jid input") auto
  note fields = jobOf_Inr [OF job]
  have jobs: "scJobs sch' = AList.update jid (newState job) (scJobs sch)"
    using create False job fields by (auto simp: createJob_def Let_def split: if_splits prod.splits sum.splits)
  have log: "storeOk env (scLog sch') \<and>
      (scLog sch' = scLog sch \<and> (cjDurable job \<longrightarrow> \<not> reliable env) \<or>
       scLog sch' = scLog sch @ [JobCreated (toSnapshot job)] \<and> cjDurable job)"
  proof (cases "cjDurable job")
    case True
    obtain res1 log1 where a: "appendRecord env (JobCreated (toSnapshot job)) (scLog sch) = (res1, log1)" by (cases "appendRecord env (JobCreated (toSnapshot job)) (scLog sch)")
    then have "scLog sch' = log1" using create False job True by (auto simp: createJob_def Let_def split: sum.splits)
    with appendRecord_created [OF a store] True show ?thesis by simp
  next
    case False
    then have "scLog sch' = scLog sch"
      using create job \<open>\<not> (liveJobs _ _ \<ge> _ \<or> _)\<close> by (auto simp: createJob_def Let_def)
    with store False show ?thesis by simp
  qed
  have snap: "snId (toSnapshot job) = jid" using fields by (simp add: toSnapshot_def)
  have others: "slotOf sch' ds k = slotOf sch ds k" if "k \<noteq> jid" for k
    using log snap that by (auto simp: jobs update_conv')
  have "slotStep env jid (slotOf sch ds jid) (slotOf sch' ds jid)"
  proof -
    have f: "(slot (scLog sch') jid = None \<and> (cjDurable job \<longrightarrow> \<not> reliable env)) \<or>
        (slot (scLog sch') jid = Some (freshEntry (toSnapshot job)) \<and> cjDurable job)"
      using log new snap by auto
    have "cjId job = jid" using fields by simp
    from slotStep.created [OF this f] show ?thesis using new by (simp add: jobs update_conv')
  qed
  then have "slotRuns env k (slotOf sch ds k) (slotOf sch' ds k)" for k
    using others by (cases "k = jid") (auto intro: r_into_rtranclp)
  moreover have "keysOk (scJobs sch')" unfolding jobs by (rule keyed_update [OF keys]) (simp add: fields)
  ultimately show ?thesis using log others by blast
qed

lemma delete_steps:
  assumes delete: "deleteJob env jid sch = (res, sch')" and keys: "keysOk (scJobs sch)" and store: "storeOk env (scLog sch)"
  shows "keysOk (scJobs sch') \<and> storeOk env (scLog sch') \<and> fst ` set (scJobs sch') = fst ` set (scJobs sch) \<and>
    (\<forall>k. slotRuns env k (slotOf sch ds k) (slotOf sch' ds k)) \<and>
    (\<forall>k. map_of (scJobs sch) k = None \<longrightarrow> slotOf sch' ds k = slotOf sch ds k)"
proof (cases "map_of (scJobs sch) jid = None \<or> (\<exists>st. map_of (scJobs sch) jid = Some st \<and> jsStatus st = JobDeleted)")
  case True
  then have "sch' = sch" using delete by (auto simp: deleteJob_def)
  with keys store show ?thesis by simp
next
  case False
  then obtain st where st: "map_of (scJobs sch) jid = Some st" "jsStatus st \<noteq> JobDeleted" by auto
  then have id: "cjId (jsJob st) = jid" using keys by (auto simp: keyed_def dest!: map_of_SomeD)
  let ?st = "st\<lparr>jsStatus := JobDeleted\<rparr>"
  have jobs: "scJobs sch' = AList.update jid ?st (scJobs sch)"
    using delete st by (auto simp: deleteJob_def Let_def split: if_splits prod.splits sum.splits)
  have log: "storeOk env (scLog sch') \<and> (\<forall>k. k \<noteq> jid \<longrightarrow> slot (scLog sch') k = slot (scLog sch) k) \<and>
      (if cjDurable (jsJob st) then slot (scLog sch') jid = None \<or> (slot (scLog sch') jid = slot (scLog sch) jid \<and> \<not> reliable env)
       else slot (scLog sch') jid = slot (scLog sch) jid)"
  proof (cases "cjDurable (jsJob st)")
    case True
    obtain res1 log1 where a: "appendRecord env (JobRemoved jid) (scLog sch) = (res1, log1)" by (cases "appendRecord env (JobRemoved jid) (scLog sch)")
    then have "scLog sch' = log1" using delete st True by (auto simp: deleteJob_def Let_def split: sum.splits)
    with append_cases [OF a store] True show ?thesis by auto
  next
    case False
    then have "scLog sch' = scLog sch" using delete st by (auto simp: deleteJob_def Let_def)
    with store False show ?thesis by simp
  qed
  have "slotStep env jid (slotOf sch ds jid) (slotOf sch' ds jid)"
    using slotStep.deleted [of st "slot (scLog sch') jid" "slot (scLog sch) jid" env jid "instantsOf jid ds"] log st
    by (simp add: jobs update_conv')
  moreover have others: "slotOf sch' ds k = slotOf sch ds k" if "k \<noteq> jid" for k
    using log that by (simp add: jobs update_conv')
  ultimately have "slotRuns env k (slotOf sch ds k) (slotOf sch' ds k)" for k
    by (cases "k = jid") (auto intro: r_into_rtranclp)
  moreover have "keysOk (scJobs sch')" unfolding jobs by (rule keyed_update [OF keys]) (simp add: id)
  moreover have "fst ` set (scJobs sch') = fst ` set (scJobs sch)"
    using st(1) by (auto simp: jobs dom_update dom_map_of_conv_image_fst [symmetric] update_conv' split: if_splits)
  ultimately show ?thesis using log others st by (metis option.distinct(1))
qed

abbreviation foldedOk :: "foldedJobs \<Rightarrow> bool" where
  "foldedOk \<equiv> keyed (\<lambda>f. snId (fjSnapshot f))"

lemma foldRecord_ok: "foldedOk m \<Longrightarrow> foldedOk (foldRecord r m)"
proof -
  assume m: "foldedOk m"
  have "foldedOk (mapEntry j g m)" if "\<And>e. fjSnapshot (g e) = fjSnapshot e" for j g
    using m that keyed_map_of [OF m, of j] by (auto simp: mapEntry_def intro!: keyed_update split: option.split)
  then show ?thesis using m by (cases r) (simp_all add: foldRecord_def keyed_update keyed_delete)
qed

lemma folded_ok: "foldedOk (fold foldRecord log [])"
proof -
  have "foldedOk m \<Longrightarrow> foldedOk (fold foldRecord log m)" for m
    by (induction log arbitrary: m) (simp_all add: foldRecord_ok)
  from this [OF keyed_Nil] show ?thesis .
qed

lemma slot_id: "slot log k = Some f \<Longrightarrow> snId (fjSnapshot f) = k"
  using keyed_map_of [OF folded_ok] by (simp add: slot_def)

lemma restoreJobs_slot: "map_of (restoreJobs log) k = map_option restoredJob (slot log k)"
proof -
  have "foldedOk m \<Longrightarrow> map_of (fold (\<lambda>f. AList.update (snId (fjSnapshot f)) (restoredJob f)) (map snd m) acc) k =
      (case map_of m k of Some f \<Rightarrow> Some (restoredJob f) | None \<Rightarrow> map_of acc k)" for m acc
  proof (induction m arbitrary: acc)
    case (Cons x m)
    obtain j f where x: "x = (j, f)" by (cases x)
    have j: "snId (fjSnapshot f) = j" "j \<notin> fst ` set m" "foldedOk m"
      using Cons.prems x by (auto simp: keyed_def)
    then have "map_of m j = None" by (simp add: map_of_eq_None_iff)
    from Cons.IH [OF j(3)] j(1) this show ?case
      by (auto simp: x update_conv' split: option.split)
  qed simp
  note eq = this [OF folded_ok, of log "[]"]
  show ?thesis
    by (cases "map_of (fold foldRecord log []) k") (simp_all add: eq restoreJobs_def foldRecords_def slot_def)
qed

lemma restoreJobs_keys: "keysOk (restoreJobs log)"
proof -
  have "keysOk acc \<Longrightarrow> keysOk (fold (\<lambda>f. AList.update (snId (fjSnapshot f)) (restoredJob f)) fs acc)" for fs acc
  proof (induction fs arbitrary: acc)
    case (Cons f fs)
    have "keysOk (AList.update (snId (fjSnapshot f)) (restoredJob f) acc)"
      by (rule keyed_update [OF Cons.prems]) (simp add: restoredJob_def jobOfSnapshot_def)
    from Cons.IH [OF this] show ?case by simp
  qed simp
  from this [of "[]" "foldRecords log"] show ?thesis by (simp add: restoreJobs_def keyed_def)
qed

subsection \<open>Histories\<close>

text \<open>
  The schedulers reachable from an empty log, with the ids given out so far and the reports made. Ids are
  never reused, as the id source promises. A restart builds a scheduler from the log.
\<close>

inductive schedulerRun :: "schedEnv \<Rightarrow> scheduler \<Rightarrow> string set \<Rightarrow> dueResult list \<Rightarrow> bool" for env where
  start: "schedulerRun env (newScheduler env []) {} []"
| create: "schedulerRun env sch used ds \<Longrightarrow> jid \<notin> used \<Longrightarrow> createJob env t jid input sch = (res, sch') \<Longrightarrow>
     schedulerRun env sch' (insert jid used) ds"
| poll: "schedulerRun env sch used ds \<Longrightarrow> due env now busy managed sch = Some (outs, sch') \<Longrightarrow>
     schedulerRun env sch' used (ds @ outs)"
| delete: "schedulerRun env sch used ds \<Longrightarrow> deleteJob env jid sch = (res, sch') \<Longrightarrow> schedulerRun env sch' used ds"
| resume: "schedulerRun env sch used ds \<Longrightarrow> resumeAfterDowntime env now sch = Some (summary, sch') \<Longrightarrow>
     schedulerRun env sch' used ds"
| restart: "schedulerRun env sch used ds \<Longrightarrow> schedulerRun env (newScheduler env (scLog sch)) used ds"

theorem run_slots:
  assumes "schedulerRun env sch used ds"
  shows "keysOk (scJobs sch) \<and> storeOk env (scLog sch) \<and>
    (\<forall>k. slotRuns env k (None, None, []) (slotOf sch ds k)) \<and>
    (\<forall>k. k \<notin> used \<longrightarrow> slotOf sch ds k = (None, None, []))"
  using assms
proof induction
  case start
  have "restoreJobs [] = []" by (simp add: restoreJobs_def foldRecords_def)
  then show ?case by (simp add: newScheduler_def keyed_def storeOk_def)
next
  case (create sch used ds jid t input res sch')
  then have "slotOf sch ds jid = (None, None, [])" by blast
  note step = create_steps [OF create.hyps(3) _ _ this]
  have all: "keysOk (scJobs sch') \<and> storeOk env (scLog sch') \<and> (\<forall>k. slotRuns env k (slotOf sch ds k) (slotOf sch' ds k)) \<and>
      (\<forall>k. k \<noteq> jid \<longrightarrow> slotOf sch' ds k = slotOf sch ds k)"
    by (rule step) (use create.IH in simp_all)
  have "slotRuns env k (None, None, []) (slotOf sch' ds k)" for k
    using create.IH all rtranclp_trans [of "slotStep env k"] by blast
  moreover have "slotOf sch' ds k = (None, None, [])" if "k \<notin> insert jid used" for k
    using create.IH all that by (metis insertCI)
  ultimately show ?case using all by blast
next
  case (poll sch used ds now busy managed outs sch')
  obtain jobs' log' where go: "dueGo env now busy managed (scJobs sch) (scLog sch) = Some (outs, jobs', log')"
    and sch': "sch' = \<lparr>scJobs = jobs', scLog = log'\<rparr>"
    using poll.hyps(2) by (auto simp: due_def split: option.splits prod.splits)
  have sweep: "sweeps env (scJobs sch) (scLog sch) jobs' log' (\<lambda>k. instantsOf k outs)"
    using dueGo_sweeps [OF go] poll.IH by blast
  have "slotRuns env k (slotOf sch ds k) (slotOf sch' (ds @ outs) k)" for k
    using sweep by (simp add: sweeps_def sch')
  then have "slotRuns env k (None, None, []) (slotOf sch' (ds @ outs) k)" for k
    using poll.IH rtranclp_trans [of "slotStep env k"] by blast
  moreover have "slotOf sch' (ds @ outs) k = (None, None, [])" if "k \<notin> used" for k
  proof -
    have none: "map_of (scJobs sch) k = None" "slot (scLog sch) k = None" "instantsOf k ds = []" using poll.IH that by simp_all
    then have "k \<notin> fst ` set (scJobs sch)" by (simp add: map_of_eq_None_iff)
    moreover from this have "k \<notin> fst ` set jobs'" using sweep by (metis image_set sweeps_def)
    ultimately show ?thesis using sweep none by (simp add: sweeps_def sch' map_of_eq_None_iff)
  qed
  ultimately show ?case using sweep by (simp add: sweeps_def sch')
next
  case (delete sch used ds jid res sch')
  note step = delete_steps [OF delete.hyps(2), of ds]
  have all: "keysOk (scJobs sch') \<and> storeOk env (scLog sch') \<and> (\<forall>k. slotRuns env k (slotOf sch ds k) (slotOf sch' ds k)) \<and>
      (\<forall>k. map_of (scJobs sch) k = None \<longrightarrow> slotOf sch' ds k = slotOf sch ds k)"
    using step delete.IH by simp
  have "slotRuns env k (None, None, []) (slotOf sch' ds k)" for k
    using delete.IH all rtranclp_trans [of "slotStep env k"] by blast
  moreover have "slotOf sch' ds k = (None, None, [])" if "k \<notin> used" for k
    using delete.IH all that by (metis prod.inject)
  ultimately show ?case using all by blast
next
  case (resume sch used ds now summary sch')
  obtain jobs' log' where go: "resumeGo env now (scJobs sch) emptySummary (scLog sch) = Some (summary, jobs', log')"
    and sch': "sch' = \<lparr>scJobs = jobs', scLog = log'\<rparr>"
    using resume.hyps(2) by (auto simp: resumeAfterDowntime_def split: option.splits prod.splits)
  have sweep: "sweeps env (scJobs sch) (scLog sch) jobs' log' (\<lambda>k. [])"
    using resumeGo_sweeps [OF go] resume.IH by blast
  have "slotRuns env k (slotOf sch ds k) (slotOf sch' ds k)" for k
    using sweep unfolding sweeps_def sch' by (metis append_Nil2 scheduler.select_convs)
  then have "slotRuns env k (None, None, []) (slotOf sch' ds k)" for k
    using resume.IH rtranclp_trans [of "slotStep env k"] by blast
  moreover have "slotOf sch' ds k = (None, None, [])" if "k \<notin> used" for k
  proof -
    have none: "map_of (scJobs sch) k = None" "slot (scLog sch) k = None" "instantsOf k ds = []" using resume.IH that by simp_all
    then have "k \<notin> fst ` set (scJobs sch)" by (simp add: map_of_eq_None_iff)
    moreover from this have "k \<notin> fst ` set jobs'" using sweep by (metis image_set sweeps_def)
    ultimately show ?thesis using sweep none by (simp add: sweeps_def sch' map_of_eq_None_iff)
  qed
  ultimately show ?case using sweep by (simp add: sweeps_def sch')
next
  case (restart sch used ds)
  let ?sch = "newScheduler env (scLog sch)"
  have jobs: "map_of (scJobs ?sch) k = map_option restoredJob (slot (scLog sch) k)" for k
    using restart.IH by (auto simp: newScheduler_def restoreJobs_slot storeOk_def)
  have "slotStep env k (slotOf sch ds k) (slotOf ?sch ds k)" for k
    unfolding jobs using slotStep.restarted by (simp add: newScheduler_def)
  then have "slotRuns env k (None, None, []) (slotOf ?sch ds k)" for k
    using restart.IH rtranclp.rtrancl_into_rtrancl [of "slotStep env k"] by blast
  moreover have "slotOf ?sch ds k = (None, None, [])" if "k \<notin> used" for k
    using restart.IH that unfolding jobs by (simp add: newScheduler_def)
  moreover have "keysOk (scJobs ?sch)" by (simp add: newScheduler_def restoreJobs_keys)
  ultimately show ?case using restart.IH by (simp add: newScheduler_def)
qed

end
