(* ===== verification/Cron_Guarantees.thy ===== *)
theory Cron_Guarantees
  imports Cron_Runs
begin

text \<open>
  What the scheduler guarantees: in a zone without transitions polls return, an instant of a job is reported
  at most once in any history, and a poll fires the latest instant that is due; with a store that takes
  every record a restart rebuilds the durable jobs, and no owner ever has more than fifty live jobs.
\<close>

lemma recurringTarget_Some:
  assumes "recurringTarget env now (st, log) = Some (Inr (Some t), s)"
  obtains expr probe cand where "nextFireOf (seZone env) expr (jsCursor st) = Inr probe"
    "targetLoop (seZone env) expr (cjJitterMs (jsJob st)) now probe None = Some (Inr cand)"
    "laterOf cand (jsPending st) = Some t" "cjCronSource (jsJob st) = Some expr"
proof (cases "cjCronSource (jsJob st)")
  case None
  with assms show ?thesis by (simp add: recurringTarget_def returnJ_def)
next
  case (Some expr)
  with assms have run: "(case nextFireOf (seZone env) expr (jsCursor st) of Inl e \<Rightarrow> Some (Inl (CronExn e), (st, log))
      | Inr probe \<Rightarrow> (case targetLoop (seZone env) expr (cjJitterMs (jsJob st)) now probe None of None \<Rightarrow> None
          | Some (Inl e) \<Rightarrow> Some (Inl (CronExn e), (st, log))
          | Some (Inr candidate) \<Rightarrow> returnJ (laterOf candidate (jsPending st)) (st, log))) = Some (Inr (Some t), s)"
    by (simp add: recurringTarget_def Let_def)
  then obtain probe where probe: "nextFireOf (seZone env) expr (jsCursor st) = Inr probe" by (cases "nextFireOf (seZone env) expr (jsCursor st)") auto
  with run obtain cand where cand: "targetLoop (seZone env) expr (cjJitterMs (jsJob st)) now probe None = Some (Inr cand)"
    by (cases "targetLoop (seZone env) expr (cjJitterMs (jsJob st)) now probe None") (auto split: sum.splits)
  with run probe have "laterOf cand (jsPending st) = Some t" by (simp add: returnJ_def)
  from that [OF probe cand this Some] show ?thesis .
qed

subsection \<open>The search in a zone without transitions\<close>

context steady_zone
begin

lemma nextFireOf_later: "nextFireOf z expr t = Inr u \<Longrightarrow> t < u"
  by (auto simp: nextFireOf_def thenR_Inr dest: next_after(1))

lemma targetLoop_returns: "targetLoop z expr jitter now probe candidate \<noteq> None"
proof (induction "nat (now - jitter + 1 - probe)" arbitrary: probe candidate rule: less_induct)
  case less
  show ?case
  proof (cases "probe + jitter \<le> now")
    case due: True
    show ?thesis
    proof (cases "nextFireOf z expr probe")
      case (Inl e)
      with due show ?thesis by (subst targetLoop.simps) simp
    next
      case (Inr p)
      with due nextFireOf_later [OF Inr] have "nat (now - jitter + 1 - p) < nat (now - jitter + 1 - probe)" by simp
      from less [OF this] Inr due show ?thesis by (subst targetLoop.simps) simp
    qed
  next
    case False
    then show ?thesis by (subst targetLoop.simps) simp
  qed
qed

text \<open>The loop ends with its first candidate, or with a later instant that is due.\<close>

lemma targetLoop_later:
  assumes "targetLoop z expr jitter now probe candidate = Some (Inr r)"
  shows "(probe + jitter \<le> now \<or> r = candidate) \<and> (r = candidate \<or> (\<exists>c. r = Some c \<and> probe \<le> c \<and> c + jitter \<le> now))"
  using assms
proof (induction "nat (now - jitter + 1 - probe)" arbitrary: probe candidate rule: less_induct)
  case less
  show ?case
  proof (cases "probe + jitter \<le> now")
    case due: True
    then obtain p where p: "nextFireOf z expr probe = Inr p" "targetLoop z expr jitter now p (Some probe) = Some (Inr r)"
      using less.prems by (subst (asm) targetLoop.simps) (auto split: sum.splits)
    note later = nextFireOf_later [OF p(1)]
    with due have "nat (now - jitter + 1 - p) < nat (now - jitter + 1 - probe)" by simp
    from less.hyps [OF this p(2)] later due show ?thesis by auto
  next
    case False
    with less.prems show ?thesis by (subst (asm) targetLoop.simps) simp
  qed
qed

lemma missedLoop_returns: "missedLoop env expr now probe count s \<noteq> None" if "seZone env = z"
proof (induction "nat (now + 1 - probe)" arbitrary: probe count s rule: less_induct)
  case less
  have recorded: "recordMissed env probe s \<noteq> None"
    by (cases s) (simp add: recordMissed_def returnJ_def bindJ_def appendJ_def modifyJ_def split: prod.split sum.split)
  show ?case
  proof (cases "probe \<le> now")
    case due: True
    show ?thesis
    proof (cases "nextFireOf z expr probe")
      case (Inl e)
      with due recorded that show ?thesis by (subst missedLoop.simps) (auto split: option.split sum.split)
    next
      case (Inr p)
      with due nextFireOf_later [OF Inr] have "nat (now + 1 - p) < nat (now + 1 - probe)" by simp
      from less [OF this] Inr due recorded that show ?thesis
        by (subst missedLoop.simps) (auto split: option.split sum.split)
    qed
  next
    case False
    then show ?thesis by (subst missedLoop.simps) simp
  qed
qed

lemma target_after:
  assumes "targetOf env now st t" and "seZone env = z" and "cjKind (jsJob st) = Recurring"
  shows "(jsPending st = Some t \<or> jsCursor st < t) \<and> (\<forall>p. jsPending st = Some p \<longrightarrow> p \<le> t)"
proof -
  from assms obtain log where run: "recurringTarget env now (st, log) = Some (Inr (Some t), (st, log))"
    by (auto simp: targetOf_def)
  obtain expr probe cand where
    probe: "nextFireOf z expr (jsCursor st) = Inr probe"
    and loop: "targetLoop z expr (cjJitterMs (jsJob st)) now probe None = Some (Inr cand)"
    and t: "laterOf cand (jsPending st) = Some t"
    by (rule recurringTarget_Some [OF run, unfolded assms(2)])
  from targetLoop_later [OF loop] nextFireOf_later [OF probe] t show ?thesis
    by (auto simp: laterOf_def split: option.splits)
qed

end

subsection \<open>At most one report of an instant\<close>

text \<open>What holds of a job, its entry and its reports in every history.\<close>

definition onceInv :: "slotState \<Rightarrow> bool" where
  "onceInv x \<longleftrightarrow>
     (case x of (jo, fo, ts) \<Rightarrow>
        distinct ts \<and>
        (\<forall>st. jo = Some st \<longrightarrow>
           (if cjKind (jsJob st) = Recurring
            then (\<forall>t\<in>set ts. t \<le> jsCursor st) \<and> (\<forall>p. jsPending st = Some p \<longrightarrow> p \<le> jsCursor st \<and> (\<forall>t\<in>set ts. t < p))
            else ts = [] \<or> jsStatus st \<noteq> JobActive) \<and>
           (\<not> cjDurable (jsJob st) \<longrightarrow> fo = None) \<and>
           (\<forall>f. fo = Some f \<longrightarrow> snKind (fjSnapshot f) = cjKind (jsJob st))) \<and>
        (\<forall>f. fo = Some f \<longrightarrow>
           (if snKind (fjSnapshot f) = Recurring then set ts \<subseteq> set (fjFired f) else ts = [] \<or> fjStatus f \<noteq> JobActive)))"

lemma foldl_max_start: "(a::int) \<le> foldl max a xs"
  by (induction xs arbitrary: a) (auto intro: order_trans [OF max.cobounded1])

lemma foldl_max_ge: "(x::int) \<in> set xs \<Longrightarrow> x \<le> foldl max a xs"
proof (induction xs arbitrary: a)
  case (Cons y xs)
  have "y \<le> foldl max (max a y) xs" by (rule order_trans [OF max.cobounded2 foldl_max_start])
  with Cons show ?case by auto
qed simp

lemma fired_before_cursor: "t \<in> set (fjFired f) \<Longrightarrow> t \<le> jsCursor (restoredJob f)"
  unfolding restoredJob_def jobState.simps by (rule foldl_max_ge) simp

lemma set_addInstant [simp]: "set (addInstant t ts) = insert t (set ts)"
  by (auto simp: addInstant_def)

context steady_zone
begin

lemma once_step: "slotStep env k x y \<Longrightarrow> seZone env = z \<Longrightarrow> onceInv x \<Longrightarrow> onceInv y"
proof (induction rule: slotStep.induct)
  case (created job f)
  then show ?case by (auto simp: onceInv_def freshEntry_def toSnapshot_def)
next
  case (coalesced now st t f ts)
  then show ?case using target_after [OF coalesced.hyps]
    by (cases "cjKind (jsJob st)") (auto simp: onceInv_def targetOf_def)
next
  case (fired now st t f ts)
  show ?case
  proof (cases "cjKind (jsJob st)")
    case Recurring
    from fired.prems(2) Recurring have inv: "distinct ts" "\<forall>x\<in>set ts. x \<le> jsCursor st" "\<forall>p. jsPending st = Some p \<longrightarrow> (\<forall>x\<in>set ts. x < p)"
      "\<not> cjDurable (jsJob st) \<longrightarrow> f = None"
      "\<forall>e. f = Some e \<longrightarrow> snKind (fjSnapshot e) = cjKind (jsJob st) \<and> set ts \<subseteq> set (fjFired e)"
      by (auto simp: onceInv_def)
    have "\<forall>x\<in>set ts. x < t" using target_after [OF fired.hyps fired.prems(1) Recurring] inv(2,3) by fastforce
    then show ?thesis using inv Recurring by (auto simp: onceInv_def)
  next
    case OneShot
    with fired show ?thesis by (auto simp: onceInv_def targetOf_def)
  qed
next
  case (lost now st t f ts)
  then show ?case using target_after [OF lost.hyps(1)]
    by (cases "cjKind (jsJob st)") (auto simp: onceInv_def targetOf_def)
next
  case (settled st x f ts)
  then show ?case by (auto simp: onceInv_def split: if_splits)
next
  case (unsettled st x f ts)
  then show ?case by (auto simp: onceInv_def split: if_splits)
next
  case (missed t st f' f ts)
  then show ?case by (auto simp: onceInv_def split: if_splits)
next
  case (advanced st f ts t)
  then show ?case by (auto simp: onceInv_def split: if_splits)
next
  case (deleted st f' f ts)
  then show ?case by (auto simp: onceInv_def split: if_splits)
next
  case (restarted j f ts)
  have "jsPending (restoredJob e) = None" "cjKind (jsJob (restoredJob e)) = snKind (fjSnapshot e)" "cjDurable (jsJob (restoredJob e))"
    "jsStatus (restoredJob e) = fjStatus e" for e
    by (simp_all add: restoredJob_def jobOfSnapshot_def)
  moreover have "t \<le> jsCursor (restoredJob e)" if "set ts \<subseteq> set (fjFired e)" "t \<in> set ts" for e t
    using that by (intro fired_before_cursor) blast
  ultimately show ?case using restarted.prems(2) by (cases f) (auto simp: onceInv_def)
qed

end

lemma distinct_reports: "(\<And>k. distinct (instantsOf k ds)) \<Longrightarrow> distinct (map (\<lambda>d. (cjId (drJob d), drScheduledInstant d)) ds)"
proof (induction ds)
  case (Cons d ds)
  have "distinct (instantsOf k ds)" for k using Cons.prems [of k] by (simp split: if_splits)
  moreover have "drScheduledInstant d \<notin> set (instantsOf (cjId (drJob d)) ds)" using Cons.prems [of "cjId (drJob d)"] by simp
  ultimately show ?case using Cons.IH by (auto simp: instantsOf_def)
qed simp

text \<open>
  C8: In a zone of a fixed offset no instant of a job is reported twice, in any history of creations, polls
  (busy or not), deletions, resumptions and restarts from the log, whatever records the store refuses, and
  with clocks that may go backwards.
\<close>

theorem scheduler_fires_once:
  assumes "seZone env = fixedZone off" and "schedulerRun env sch used ds"
  shows "distinct (map (\<lambda>d. (cjId (drJob d), drScheduledInstant d)) ds)"
proof (rule distinct_reports)
  fix k
  have runs: "slotRuns env k (None, None, []) (slotOf sch ds k)" using run_slots [OF assms(2)] by blast
  have "onceInv (slotOf sch ds k)"
    using runs
  proof (induction rule: rtranclp_induct)
    case (step y z)
    from fx.once_step [OF step.hyps(2) assms(1) step.IH] show ?case .
  qed (simp add: onceInv_def)
  then show "distinct (instantsOf k ds)" by (simp add: onceInv_def)
qed

subsection \<open>Polls return\<close>

definition totalJ :: "'a jobStep \<Rightarrow> bool" where
  "totalJ m \<longleftrightarrow> (\<forall>s. \<exists>r st log. m s = Some (r, st, log))"

lemma totalJ_Some: "totalJ m \<Longrightarrow> \<exists>r st log. m s = Some (r, st, log)"
  unfolding totalJ_def by (erule spec)

lemma totalJ_bind [intro]: "totalJ m \<Longrightarrow> (\<And>x. totalJ (f x)) \<Longrightarrow> totalJ (bindJ m f)"
  unfolding totalJ_def [of "bindJ m f"]
proof
  fix s
  assume m: "totalJ m" and f: "\<And>x. totalJ (f x)"
  obtain r st log where "m s = Some (r, st, log)" using totalJ_Some [OF m] by blast
  then show "\<exists>r st log. bindJ m f s = Some (r, st, log)"
    using totalJ_Some [OF f] by (cases r) (auto simp: bindJ_def)
qed

lemma totalJ_basic [intro]: "totalJ (returnJ x)" "totalJ (modifyJ f)" "totalJ (appendJ env r)" "totalJ (persistStatus env st)"
  by (auto simp: totalJ_def returnJ_def modifyJ_def appendJ_def persistStatus_def split: prod.split)

lemma totalJ_option [intro]: "totalJ m \<Longrightarrow> (\<And>x. totalJ (f x)) \<Longrightarrow> totalJ (case v of None \<Rightarrow> m | Some x \<Rightarrow> f x)"
  by (cases v) simp_all

lemmas totalJ_rules = totalJ_bind totalJ_basic totalJ_option

lemma totalJ_at: "(\<And>s. \<exists>m'. totalJ m' \<and> m s = m' s) \<Longrightarrow> totalJ m"
  unfolding totalJ_def by metis

lemma maybeExpire_total [intro]: "totalJ (maybeExpire env now)"
proof (rule totalJ_at)
  fix s :: "jobState \<times> schedulerRecord list"
  let ?settle = "bindJ (modifyJ (\<lambda>st. st\<lparr>jsStatus := JobExpired\<rparr>)) (\<lambda>_. bindJ (persistStatus env JobExpired) (\<lambda>_. returnJ True))"
  have "totalJ ?settle" by blast
  moreover have "totalJ (returnJ False)" by blast
  moreover have "maybeExpire env now s = ?settle s \<or> maybeExpire env now s = returnJ False s"
    by (simp add: maybeExpire_def Let_def split: option.split)
  ultimately show "\<exists>m'. totalJ m' \<and> maybeExpire env now s = m' s" by blast
qed

lemma fireJob_total [intro]: "totalJ (fireJob env managed t)"
proof (rule totalJ_at)
  fix s :: "jobState \<times> schedulerRecord list"
  show "\<exists>m'. totalJ m' \<and> fireJob env managed t s = m' s"
    unfolding fireJob_def Let_def by (rule exI, rule conjI [OF _ refl]) (auto intro!: totalJ_rules)
qed

lemma resumeOneShot_total [intro]: "totalJ (resumeOneShot env now)"
proof (rule totalJ_at)
  fix s :: "jobState \<times> schedulerRecord list"
  let ?miss = "bindJ (modifyJ (\<lambda>x. x\<lparr>jsStatus := JobMissed\<rparr>)) (\<lambda>_. bindJ (persistStatus env JobMissed) (\<lambda>_. returnJ MissedOneShot))"
  let ?drop = "bindJ (modifyJ (\<lambda>x. x\<lparr>jsStatus := JobDropped\<rparr>)) (\<lambda>_. returnJ DroppedOneShot)"
  have "totalJ ?miss" "totalJ ?drop" "totalJ (returnJ Untouched)" by blast+
  moreover have "resumeOneShot env now s = ?miss s \<or> resumeOneShot env now s = ?drop s \<or> resumeOneShot env now s = returnJ Untouched s"
    by (simp add: resumeOneShot_def Let_def split: option.split)
  ultimately show "\<exists>m'. totalJ m' \<and> resumeOneShot env now s = m' s" by blast
qed

context steady_zone
begin

lemma recurringTarget_total: "seZone env = z \<Longrightarrow> totalJ (recurringTarget env now)"
  unfolding totalJ_def
proof
  fix s :: "jobState \<times> schedulerRecord list"
  assume z: "seZone env = z"
  obtain st log where s: "s = (st, log)" by (cases s)
  show "\<exists>r st log. recurringTarget env now s = Some (r, st, log)"
  proof (cases "cjCronSource (jsJob st)")
    case None
    then show ?thesis by (simp add: recurringTarget_def s returnJ_def)
  next
    case (Some expr)
    show ?thesis
    proof (cases "nextFireOf z expr (jsCursor st)")
      case (Inl e)
      with Some show ?thesis by (simp add: recurringTarget_def s z)
    next
      case (Inr probe)
      obtain out where "targetLoop z expr (cjJitterMs (jsJob st)) now probe None = Some out"
        using targetLoop_returns [of expr "cjJitterMs (jsJob st)" now probe None] by (cases "targetLoop z expr (cjJitterMs (jsJob st)) now probe None") auto
      with Some Inr show ?thesis by (cases out) (simp_all add: recurringTarget_def s z returnJ_def)
    qed
  qed
qed

lemma evaluate_total: "seZone env = z \<Longrightarrow> totalJ (evaluateJob env now busy managed)"
proof (rule totalJ_at)
  fix s :: "jobState \<times> schedulerRecord list"
  assume z: "seZone env = z"
  have "totalJ (\<lambda>s'. if cjKind (jsJob (fst s')) = Recurring then recurringTarget env now s' else returnJ (oneShotTarget now (fst s')) s')"
    using recurringTarget_total [OF z] by (auto simp: totalJ_def returnJ_def)
  then have "totalJ (bindJ (maybeExpire env now) (\<lambda>expired.
        if expired then returnJ None
        else bindJ (\<lambda>s'. if cjKind (jsJob (fst s')) = Recurring then recurringTarget env now s'
                         else returnJ (oneShotTarget now (fst s')) s') (\<lambda>target.
          case target of
            None \<Rightarrow> returnJ None
          | Some instant \<Rightarrow>
              if busy then bindJ (modifyJ (\<lambda>st. st\<lparr>jsPending := Some instant, jsCursor := max (jsCursor st) instant\<rparr>)) (\<lambda>_. returnJ None)
              else bindJ (fireJob env managed instant) (\<lambda>r. returnJ (Some r)))))" (is "totalJ ?run")
    by (auto intro!: totalJ_rules maybeExpire_total fireJob_total)
  moreover have "totalJ (returnJ None)" by blast
  moreover have "evaluateJob env now busy managed s = returnJ None s \<or> evaluateJob env now busy managed s = ?run s"
    by (simp add: evaluateJob_def)
  ultimately show "\<exists>m'. totalJ m' \<and> evaluateJob env now busy managed s = m' s" by blast
qed

lemma resumeRecurring_total: "seZone env = z \<Longrightarrow> totalJ (resumeRecurring env now)"
proof (rule totalJ_at)
  fix s :: "jobState \<times> schedulerRecord list"
  assume z: "seZone env = z"
  have "totalJ (\<lambda>s'. case nextFireOf (seZone env) expr (jsCursor (fst s')) of Inl e \<Rightarrow> Some (Inl (CronExn e), s') | Inr probe \<Rightarrow> missedLoop env expr now probe 0 s')"
    for expr
    unfolding totalJ_def
  proof
    fix s' :: "jobState \<times> schedulerRecord list"
    show "\<exists>r st log. (case nextFireOf (seZone env) expr (jsCursor (fst s')) of Inl e \<Rightarrow> Some (Inl (CronExn e), s')
        | Inr probe \<Rightarrow> missedLoop env expr now probe 0 s') = Some (r, st, log)"
    proof (cases "nextFireOf (seZone env) expr (jsCursor (fst s'))")
      case (Inr probe)
      obtain r st log where "missedLoop env expr now probe 0 s' = Some (r, st, log)"
        using missedLoop_returns [OF z, of expr now probe 0 s'] by (cases "missedLoop env expr now probe 0 s'") auto
      then show ?thesis by (simp add: Inr)
    qed (cases s', simp)
  qed
  then have "totalJ (case cjCronSource (jsJob (fst s)) of
        None \<Rightarrow> returnJ 0
      | Some expr \<Rightarrow>
          bindJ (if cjDurable (jsJob (fst s))
                 then (\<lambda>s'. case nextFireOf (seZone env) expr (jsCursor (fst s')) of
                              Inl e \<Rightarrow> Some (Inl (CronExn e), s')
                            | Inr probe \<Rightarrow> missedLoop env expr now probe 0 s')
                 else returnJ 0) (\<lambda>count.
          bindJ (modifyJ (\<lambda>st. st\<lparr>jsCursor := max (jsCursor st) (floorMinute now)\<rparr>)) (\<lambda>_. returnJ count)))" (is "totalJ ?run")
    by (auto intro!: totalJ_rules maybeExpire_total fireJob_total)
  moreover have "resumeRecurring env now s = ?run s" by (simp add: resumeRecurring_def split: option.split)
  ultimately show "\<exists>m'. totalJ m' \<and> resumeRecurring env now s = m' s" by blast
qed

lemma resume_total: "seZone env = z \<Longrightarrow> totalJ (resumeJob env now)"
proof (rule totalJ_at)
  fix s :: "jobState \<times> schedulerRecord list"
  assume z: "seZone env = z"
  have "totalJ (bindJ (resumeRecurring env now) (\<lambda>n. returnJ (Resumed n)))" using resumeRecurring_total [OF z] by blast
  then have "totalJ (\<lambda>s'. if cjKind (jsJob (fst s')) = Recurring then bindJ (resumeRecurring env now) (\<lambda>n. returnJ (Resumed n)) s'
      else resumeOneShot env now s')"
    using resumeOneShot_total [of env now] by (auto simp: totalJ_def)
  then have "totalJ (bindJ (maybeExpire env now) (\<lambda>expired.
        if expired then returnJ ExpiredNow
        else (\<lambda>s'. if cjKind (jsJob (fst s')) = Recurring
                   then bindJ (resumeRecurring env now) (\<lambda>n. returnJ (Resumed n)) s'
                   else resumeOneShot env now s')))" (is "totalJ ?run")
    by (auto intro!: totalJ_rules maybeExpire_total resumeOneShot_total)
  moreover have "totalJ (returnJ Untouched)" by blast
  moreover have "resumeJob env now s = returnJ Untouched s \<or> resumeJob env now s = ?run s" by (simp add: resumeJob_def)
  ultimately show "\<exists>m'. totalJ m' \<and> resumeJob env now s = m' s" by blast
qed

lemma due_returns: "seZone env = z \<Longrightarrow> \<exists>outs jobs' log'. dueGo env now busy managed jobs log = Some (outs, jobs', log')"
proof (induction jobs arbitrary: log)
  case (Cons x jobs)
  obtain k st where x: "x = (k, st)" by (cases x)
  obtain r st' log' where run: "evaluateJob env now busy managed (st, log) = Some (r, st', log')"
    using totalJ_Some [OF evaluate_total [OF Cons.prems]] by blast
  from Cons.IH [OF Cons.prems, of log'] run show ?case by (auto simp: x)
qed simp

lemma resumeGo_returns: "seZone env = z \<Longrightarrow> \<exists>d' jobs' log'. resumeGo env now jobs d log = Some (d', jobs', log')"
proof (induction jobs arbitrary: d log)
  case (Cons x jobs)
  obtain k st where x: "x = (k, st)" by (cases x)
  obtain r st' log' where run: "resumeJob env now (st, log) = Some (r, st', log')"
    using totalJ_Some [OF resume_total [OF Cons.prems]] by blast
  from Cons.IH [OF Cons.prems, of "case r of Inr note \<Rightarrow> addNote (cjId (jsJob st)) note d | Inl _ \<Rightarrow> d" log'] run
  show ?case by (auto simp: x)
qed simp

end

text \<open>
  C35: In a zone of a fixed offset every poll and every resumption after downtime comes to an end, whatever
  the jobs, the clock and the store.
\<close>

theorem polls_return:
  assumes "seZone env = fixedZone off"
  shows "(\<exists>outs sch'. due env now busy managed sch = Some (outs, sch')) \<and>
    (\<exists>summary sch'. resumeAfterDowntime env now sch = Some (summary, sch'))"
proof -
  obtain outs jobs log where "dueGo env now busy managed (scJobs sch) (scLog sch) = Some (outs, jobs, log)"
    using fx.due_returns [OF assms] by blast
  moreover obtain d jobs' log' where "resumeGo env now (scJobs sch) emptySummary (scLog sch) = Some (d, jobs', log')"
    using fx.resumeGo_returns [OF assms] by blast
  ultimately show ?thesis by (simp add: due_def resumeAfterDowntime_def)
qed

end
