(* ===== verification/Cron_Restart.thy ===== *)
theory Cron_Restart
  imports Cron_Guarantees
begin

text \<open>
  The durable log against the jobs in memory: with a store that takes every record, the fold of the log is at
  all times the durable jobs that are not deleted. A restart therefore rebuilds them, up to the cursor and
  the deferred instant, and the cap on the live jobs of an owner survives restarts.
\<close>

subsection \<open>The entry mirrors the job\<close>

text \<open>The instants a restart knows of: those of a one-shot are not logged, its status is.\<close>

definition loggedFired :: "jobState \<Rightarrow> int list" where
  "loggedFired st = (if cjKind (jsJob st) = OneShot then [] else fold addInstant (jsFired st) [])"

definition mirror :: "jobState \<Rightarrow> foldedJob option" where
  "mirror st =
     (if cjDurable (jsJob st) \<and> jsStatus st \<noteq> JobDeleted
      then Some \<lparr>fjSnapshot = toSnapshot (jsJob st), fjStatus = jsStatus st, fjFired = loggedFired st, fjMissed = jsMissed st\<rparr>
      else None)"

definition mirrored :: "slotState \<Rightarrow> bool" where
  "mirrored x \<longleftrightarrow> (case x of (jo, fo, ts) \<Rightarrow> fo = (case jo of None \<Rightarrow> None | Some st \<Rightarrow> mirror st))"

lemma fold_addInstant_distinct: "distinct (acc @ xs) \<Longrightarrow> fold addInstant xs acc = acc @ xs"
  by (induction xs arbitrary: acc) (auto simp: addInstant_def)

lemma distinct_fold_addInstant: "distinct acc \<Longrightarrow> distinct (fold addInstant xs acc)"
  by (induction xs arbitrary: acc) (auto simp: addInstant_def)

lemma fold_addInstant_idem [simp]: "fold addInstant (fold addInstant xs []) [] = fold addInstant xs []"
  using fold_addInstant_distinct [of "[]" "fold addInstant xs []"] distinct_fold_addInstant [of "[]" xs] by simp

lemma addInstant_new: "t \<notin> set ts \<Longrightarrow> addInstant t ts = ts @ [t]"
  by (simp add: addInstant_def)

lemma restored_mirror:
  assumes "mirror st = Some f"
  shows "mirror (restoredJob f) = Some f"
proof -
  have f: "f = \<lparr>fjSnapshot = toSnapshot (jsJob st), fjStatus = jsStatus st, fjFired = loggedFired st, fjMissed = jsMissed st\<rparr>"
    "cjDurable (jsJob st)" "jsStatus st \<noteq> JobDeleted"
    using assms by (auto simp: mirror_def split: if_splits)
  moreover have "toSnapshot (jsJob st\<lparr>cjDurable := True\<rparr>) = toSnapshot (jsJob st)" by (simp add: toSnapshot_def)
  ultimately show ?thesis by (simp add: mirror_def restoredJob_def loggedFired_def)
qed

lemma mirrored_step: "slotStep env k x y \<Longrightarrow> reliable env \<Longrightarrow> mirrored x \<Longrightarrow> mirrored y"
proof (induction rule: slotStep.induct)
  case (created job f)
  then show ?case by (auto simp: mirrored_def mirror_def freshEntry_def loggedFired_def)
next
  case (coalesced now st t f ts)
  then show ?case by (simp add: mirrored_def mirror_def loggedFired_def)
next
  case (fired now st t f ts)
  then show ?case by (cases "cjKind (jsJob st)") (auto simp: mirrored_def mirror_def loggedFired_def targetOf_def)
next
  case (settled st x f ts)
  then show ?case by (auto simp: mirrored_def mirror_def loggedFired_def)
next
  case (missed t st f' f ts)
  then show ?case by (auto simp: mirrored_def mirror_def loggedFired_def addInstant_new)
next
  case (advanced st f ts t)
  then show ?case by (simp add: mirrored_def mirror_def loggedFired_def)
next
  case (deleted st f' f ts)
  then show ?case by (auto simp: mirrored_def mirror_def split: if_splits)
next
  case (restarted j f ts)
  then show ?case using restored_mirror by (auto simp: mirrored_def split: option.splits)
qed simp_all

lemma run_mirrored:
  assumes "reliable env" and "schedulerRun env sch used ds"
  shows "slot (scLog sch) k = (case map_of (scJobs sch) k of None \<Rightarrow> None | Some st \<Rightarrow> mirror st)"
proof -
  have "slotRuns env k (None, None, []) (slotOf sch ds k)" using run_slots [OF assms(2)] by blast
  then have "mirrored (slotOf sch ds k)"
  proof (induction rule: rtranclp_induct)
    case (step y z)
    from mirrored_step [OF step.hyps(2) assms(1) step.IH] show ?case .
  qed (simp add: mirrored_def)
  then show ?thesis by (simp add: mirrored_def)
qed

lemma loggedFired_kinds:
  "(case cjKind (jsJob st) of OneShot \<Rightarrow> loggedFired st = []
    | Recurring \<Rightarrow> distinct (loggedFired st) \<and> set (loggedFired st) = set (jsFired st))"
proof -
  have "set (fold addInstant xs acc) = set acc \<union> set xs" for xs acc
    by (induction xs arbitrary: acc) (auto simp: addInstant_def)
  then show ?thesis by (auto simp: loggedFired_def distinct_fold_addInstant split: jobKind.split)
qed

text \<open>
  C16: With a store that takes every record, a scheduler built anew from the log after any history has
  exactly the durable jobs that were not deleted, each with its definition, its status and its missed
  instants. A recurring job has its fired instants, each once; a one-shot comes back without the instant it
  fired at, which is not logged, its status alone says that it has fired. The cursor is not kept: it is the latest of the
  creation and the instants that came back; and a fire deferred while the runtime was busy is forgotten.
\<close>

theorem restart_reconstructs:
  assumes "reliable env" and "schedulerRun env sch used ds"
  shows "map_of (scJobs (newScheduler env (scLog sch))) k =
    (case map_of (scJobs sch) k of
       None \<Rightarrow> None
     | Some st \<Rightarrow>
         if cjDurable (jsJob st) \<and> jsStatus st \<noteq> JobDeleted
         then Some (st\<lparr>jsCursor := foldl max (cjCreatedAt (jsJob st)) (loggedFired st @ jsMissed st), jsPending := None,
                       jsFired := loggedFired st\<rparr>)
         else None) \<and>
    (case cjKind (jsJob st0) of OneShot \<Rightarrow> loggedFired st0 = []
     | Recurring \<Rightarrow> distinct (loggedFired st0) \<and> set (loggedFired st0) = set (jsFired st0))"
proof (rule conjI [OF _ loggedFired_kinds])
  obtain takes where "seStore env = Some takes" using assms(1) by (auto simp: reliable_def)
  then have restored: "map_of (scJobs (newScheduler env (scLog sch))) k = map_option restoredJob (slot (scLog sch) k)"
    by (simp add: newScheduler_def restoreJobs_slot)
  show "map_of (scJobs (newScheduler env (scLog sch))) k =
    (case map_of (scJobs sch) k of
       None \<Rightarrow> None
     | Some st \<Rightarrow>
         if cjDurable (jsJob st) \<and> jsStatus st \<noteq> JobDeleted
         then Some (st\<lparr>jsCursor := foldl max (cjCreatedAt (jsJob st)) (loggedFired st @ jsMissed st), jsPending := None,
                       jsFired := loggedFired st\<rparr>)
         else None)"
    unfolding restored run_mirrored [OF assms]
    by (auto simp: mirror_def restoredJob_def toSnapshot_def jobOfSnapshot_def split: option.split)
qed

subsection \<open>Live jobs of an owner\<close>

definition liveOf :: "string \<Rightarrow> jobState \<Rightarrow> bool" where
  "liveOf owner st \<longleftrightarrow> cjOwner (jsJob st) = owner \<and> jsStatus st = JobActive"

lemma liveJobs_filter: "liveJobs owner sch = length (filter (\<lambda>(_, st). liveOf owner st) (scJobs sch))"
  by (simp add: liveJobs_def liveOf_def)

lemma filter_length_le: "list_all2 (\<lambda>x y. P y \<longrightarrow> P x) xs ys \<Longrightarrow> length (filter P ys) \<le> length (filter P xs)"
  by (induction rule: list_all2_induct) auto

lemma live_sweep: "sweeps env jobs log jobs' log' new \<Longrightarrow>
   length (filter (\<lambda>(_, st). liveOf owner st) jobs') \<le> length (filter (\<lambda>(_, st). liveOf owner st) jobs)"
  unfolding sweeps_def by (elim conjE, intro filter_length_le) (auto elim!: list_all2_mono simp: liveOf_def)

lemma live_card: "distinct (map fst m) \<Longrightarrow> length (filter (\<lambda>(_, st). P st) m) = card {k. \<exists>st. map_of m k = Some st \<and> P st}"
proof -
  assume d: "distinct (map fst m)"
  have "length (filter (\<lambda>(_, st). P st) m) = card (set (map fst (filter (\<lambda>(_, st). P st) m)))"
    using distinct_card [OF distinct_map_filter [OF d, of "\<lambda>(_, st). P st"]] by simp
  also have "set (map fst (filter (\<lambda>(_, st). P st) m)) = {k. \<exists>st. map_of m k = Some st \<and> P st}"
    using d by (force dest: map_of_SomeD)
  finally show ?thesis .
qed

lemma live_update_new: "map_of m k = None \<Longrightarrow> length (filter P (AList.update k v m)) \<le> Suc (length (filter P m))"
  by (induction m) (auto split: if_splits)

lemma live_update_dead: "\<not> P (k, v) \<Longrightarrow> length (filter P (AList.update k v m)) \<le> length (filter P m)"
  by (induction m) (auto intro: le_SucI)

text \<open>
  With a store that takes every record, no owner ever has more than fifty live jobs, in any history with
  restarts.
\<close>

theorem live_jobs_capped:
  assumes "reliable env" and "schedulerRun env sch used ds"
  shows "liveJobs owner sch \<le> MAX_JOBS_PER_OWNER"
  using assms(2)
proof induction
  case start
  then show ?case by (simp add: newScheduler_def liveJobs_def restoreJobs_def foldRecords_def)
next
  case (create sch used ds jid t input res sch')
  have none: "map_of (scJobs sch) jid = None" using run_slots [OF create.hyps(1)] create.hyps(2) by simp
  show ?case
  proof (cases "liveJobs (ciOwner input) sch \<ge> MAX_JOBS_PER_OWNER \<or> (\<exists>e. jobOf (seZone env) t jid input = Inl e)")
    case True
    then have "sch' = sch" using create.hyps(3) by (auto simp: createJob_def split: if_splits)
    then show ?thesis using create.IH by simp
  next
    case False
    then obtain job where job: "jobOf (seZone env) t jid input = Inr job" by (cases "jobOf (seZone env) t jid input") auto
    note fields = jobOf_Inr [OF job]
    have jobs: "scJobs sch' = AList.update jid (newState job) (scJobs sch)"
      using create.hyps(3) False job fields by (auto simp: createJob_def Let_def split: if_splits prod.splits sum.splits)
    show ?thesis
    proof (cases "owner = ciOwner input")
      case True
      then show ?thesis using False live_update_new [OF none, of "\<lambda>(_, st). liveOf owner st" "newState job"]
        by (simp add: liveJobs_filter jobs)
    next
      case False
      then show ?thesis
        using create.IH fields live_update_dead [of "\<lambda>(_, st). liveOf owner st" jid "newState job" "scJobs sch"]
        by (simp add: liveJobs_filter jobs liveOf_def)
    qed
  qed
next
  case (poll sch used ds now busy managed outs sch')
  obtain jobs' log' where go: "dueGo env now busy managed (scJobs sch) (scLog sch) = Some (outs, jobs', log')"
    and sch': "sch' = \<lparr>scJobs = jobs', scLog = log'\<rparr>"
    using poll.hyps(2) by (auto simp: due_def split: option.splits prod.splits)
  have "sweeps env (scJobs sch) (scLog sch) jobs' log' (\<lambda>k. instantsOf k outs)"
    using dueGo_sweeps [OF go] run_slots [OF poll.hyps(1)] by blast
  from live_sweep [OF this, of owner] poll.IH show ?case by (simp add: liveJobs_filter sch')
next
  case (delete sch used ds jid res sch')
  have "scJobs sch' = scJobs sch \<or> (\<exists>st. scJobs sch' = AList.update jid (st\<lparr>jsStatus := JobDeleted\<rparr>) (scJobs sch))"
    using delete.hyps(2) by (auto simp: deleteJob_def Let_def split: option.splits if_splits sum.splits prod.splits)
  moreover have "length (filter (\<lambda>(_, st). liveOf owner st) (AList.update jid (st\<lparr>jsStatus := JobDeleted\<rparr>) (scJobs sch)))
      \<le> length (filter (\<lambda>(_, st). liveOf owner st) (scJobs sch))" for st
    by (rule live_update_dead) (simp add: liveOf_def)
  ultimately have "liveJobs owner sch' \<le> liveJobs owner sch" by (auto simp: liveJobs_filter)
  with delete.IH show ?case by simp
next
  case (resume sch used ds now summary sch')
  obtain jobs' log' where go: "resumeGo env now (scJobs sch) emptySummary (scLog sch) = Some (summary, jobs', log')"
    and sch': "sch' = \<lparr>scJobs = jobs', scLog = log'\<rparr>"
    using resume.hyps(2) by (auto simp: resumeAfterDowntime_def split: option.splits prod.splits)
  have "sweeps env (scJobs sch) (scLog sch) jobs' log' (\<lambda>k. [])"
    using resumeGo_sweeps [OF go] run_slots [OF resume.hyps(1)] by blast
  from live_sweep [OF this, of owner] resume.IH show ?case by (simp add: liveJobs_filter sch')
next
  case (restart sch used ds)
  let ?new = "newScheduler env (scLog sch)"
  have keys: "distinct (map fst (scJobs sch))" "distinct (map fst (scJobs ?new))"
    using run_slots [OF restart.hyps] restoreJobs_keys by (simp_all add: keyed_def newScheduler_def)
  have store: "seStore env \<noteq> None" using assms(1) by (auto simp: reliable_def)
  have "{k. \<exists>st. map_of (scJobs ?new) k = Some st \<and> liveOf owner st} \<subseteq> {k. \<exists>st. map_of (scJobs sch) k = Some st \<and> liveOf owner st}"
    using run_mirrored [OF assms(1) restart.hyps] store
    by (auto simp: newScheduler_def restoreJobs_slot mirror_def restoredJob_def liveOf_def toSnapshot_def jobOfSnapshot_def
        split: option.splits if_splits)
  moreover have "finite {k. \<exists>st. map_of (scJobs sch) k = Some st \<and> liveOf owner st}"
    by (rule finite_subset [of _ "dom (map_of (scJobs sch))"]) (auto simp: finite_dom_map_of)
  ultimately show ?case
    using restart.IH card_mono unfolding liveJobs_filter live_card [OF keys(1)] live_card [OF keys(2)] by (meson order_trans)
qed

end
