(* ===== verification/Cron_Polls.thy ===== *)
theory Cron_Polls
  imports Cron_Restart
begin

text \<open>
  What a single poll reports: the latest instant that is due, under an authority the ceiling bounds; and the
  two ways in which the scheduler fails its promises, a store that refuses a record and the hour that repeats
  when daylight saving time ends.
\<close>

subsection \<open>The latest instant that is due\<close>

context steady_zone
begin

definition aligned :: "int \<Rightarrow> bool" where
  "aligned v \<longleftrightarrow> zoLocal z v mod 60000 = 0"

lemma aligned_later:
  assumes "aligned v" and "t < v" shows "minuteOf t < minuteOf v"
proof -
  have "zoLocal z t < zoLocal z v" using shifts [of t "v - t"] assms(2) by simp
  moreover have "zoLocal z w = 60000 * minuteOf w + zoLocal z w mod 60000" for w
    unfolding minuteOf_def by (rule mult_div_mod_eq [symmetric])
  moreover have "0 \<le> zoLocal z t mod 60000" by simp
  ultimately have "60000 * minuteOf t < 60000 * minuteOf v"
    using assms(1) unfolding aligned_def by (metis add_0_right add_increasing2 le_less_trans order_refl)
  then show ?thesis by simp
qed

lemma next_fire:
  assumes "parseCron expr = Inr c" and "nextFireOf z expr t = Inr u"
  shows "t < u" "matches z c u" "aligned u" "\<And>v. aligned v \<Longrightarrow> t < v \<Longrightarrow> v < u \<Longrightarrow> \<not> matches z c v"
proof -
  have fire: "nextFireAfter z c t = Inr u" using assms by (simp add: nextFireOf_def)
  show "t < u" "matches z c u" "aligned u" using next_after [OF fire] by (simp_all add: aligned_def)
  fix v assume "aligned v" "t < v" "v < u"
  then show "\<not> matches z c v" using next_after(4) [OF fire] aligned_later by blast
qed

definition latest :: "cronExpr \<Rightarrow> int \<Rightarrow> int \<Rightarrow> int \<Rightarrow> bool" where
  "latest c jitter now t \<longleftrightarrow> matches z c t \<and> aligned t \<and> t + jitter \<le> now \<and>
     (\<forall>v. aligned v \<longrightarrow> t < v \<longrightarrow> v + jitter \<le> now \<longrightarrow> \<not> matches z c v)"

lemma targetLoop_latest:
  assumes "parseCron expr = Inr c" and "targetLoop z expr jitter now probe candidate = Some (Inr r)"
    and "matches z c probe" and "aligned probe"
  shows "if probe + jitter \<le> now then \<exists>t. r = Some t \<and> probe \<le> t \<and> latest c jitter now t else r = candidate"
  using assms(2-4)
proof (induction "nat (now - jitter + 1 - probe)" arbitrary: probe candidate rule: less_induct)
  case less
  show ?case
  proof (cases "probe + jitter \<le> now")
    case due: True
    then obtain p where p: "nextFireOf z expr probe = Inr p" "targetLoop z expr jitter now p (Some probe) = Some (Inr r)"
      using less.prems(1) by (subst (asm) targetLoop.simps) (auto split: sum.splits)
    note fire = next_fire [OF assms(1) p(1)]
    from fire(1) due have "nat (now - jitter + 1 - p) < nat (now - jitter + 1 - probe)" by simp
    note IH = less.hyps [OF this p(2) fire(2,3)]
    show ?thesis
    proof (cases "p + jitter \<le> now")
      case True
      with IH fire(1) due show ?thesis by auto
    next
      case False
      have "\<not> matches z c v" if "aligned v" "probe < v" "v + jitter \<le> now" for v
        using fire(4) [OF that(1,2)] that(3) False by simp
      with IH False due less.prems(2,3) show ?thesis by (auto simp: latest_def)
    qed
  next
    case False
    with less.prems show ?thesis by (subst (asm) targetLoop.simps) simp
  qed
qed

lemma poll_latest:
  assumes "seZone env = z" and "parseCron expr = Inr c" and "cjCronSource (jsJob st) = Some expr" and "jsPending st = None"
    and "recurringTarget env now (st, log) = Some (Inr target, s)"
  shows "case target of
      None \<Rightarrow> \<forall>v. aligned v \<longrightarrow> jsCursor st < v \<longrightarrow> v + cjJitterMs (jsJob st) \<le> now \<longrightarrow> \<not> matches z c v
    | Some t \<Rightarrow> jsCursor st < t \<and> latest c (cjJitterMs (jsJob st)) now t"
proof -
  from assms(5) have run: "(case nextFireOf z expr (jsCursor st) of Inl e \<Rightarrow> Some (Inl (CronExn e), (st, log))
      | Inr probe \<Rightarrow> (case targetLoop z expr (cjJitterMs (jsJob st)) now probe None of None \<Rightarrow> None
          | Some (Inl e) \<Rightarrow> Some (Inl (CronExn e), (st, log))
          | Some (Inr candidate) \<Rightarrow> returnJ (laterOf candidate (jsPending st)) (st, log))) = Some (Inr target, s)"
    by (simp add: recurringTarget_def Let_def assms(1,3))
  then obtain probe where probe: "nextFireOf z expr (jsCursor st) = Inr probe" by (cases "nextFireOf z expr (jsCursor st)") auto
  with run obtain cand where cand: "targetLoop z expr (cjJitterMs (jsJob st)) now probe None = Some (Inr cand)"
    by (cases "targetLoop z expr (cjJitterMs (jsJob st)) now probe None") (auto split: sum.splits)
  with run probe have target: "target = cand" by (simp add: returnJ_def laterOf_def assms(4))
  note fire = next_fire [OF assms(2) probe]
  note loop = targetLoop_latest [OF assms(2) cand fire(2,3)]
  show ?thesis
  proof (cases "probe + cjJitterMs (jsJob st) \<le> now")
    case True
    with loop target fire(1) show ?thesis by auto
  next
    case False
    have "\<not> matches z c v" if "aligned v" "jsCursor st < v" "v + cjJitterMs (jsJob st) \<le> now" for v
      using fire(4) [OF that(1,2)] that(3) False by simp
    with loop False target show ?thesis by simp
  qed
qed

end

text \<open>
  C19: In a zone of a fixed offset, a poll of an idle runtime fires an active recurring job that has no
  deferred instant exactly at the latest matching minute after its cursor whose jittered start has come,
  however many it skips, and fires nothing when there is none.
\<close>

theorem poll_fires_latest:
  assumes "seZone env = fixedZone off" and "parseCron expr = Inr c" and "cjCronSource (jsJob st) = Some expr"
    and "cjKind (jsJob st) = Recurring" and "jsStatus st = JobActive" and "jsPending st = None"
    and "cjExpiresAt (jsJob st) = Some deadline" and "now < deadline"
    and "evaluateJob env now False managed (st, log) = Some (Inr out, s')"
  shows "case out of
      None \<Rightarrow> \<forall>v. (v + off) mod 60000 = 0 \<longrightarrow> jsCursor st < v \<longrightarrow> v + cjJitterMs (jsJob st) \<le> now \<longrightarrow> \<not> matches (fixedZone off) c v
    | Some d \<Rightarrow> drJob d = jsJob st \<and> jsCursor st < drScheduledInstant d \<and> drFiredAt d \<le> now \<and>
        matches (fixedZone off) c (drScheduledInstant d) \<and> (drScheduledInstant d + off) mod 60000 = 0 \<and>
        (\<forall>v. (v + off) mod 60000 = 0 \<longrightarrow> drScheduledInstant d < v \<longrightarrow> v + cjJitterMs (jsJob st) \<le> now \<longrightarrow>
           \<not> matches (fixedZone off) c v)"
proof -
  have "maybeExpire env now (st, log) = Some (Inr False, (st, log))"
    using assms(4,7,8) by (simp add: maybeExpire_def returnJ_def)
  with assms(4,5,9) have run: "bindJ (recurringTarget env now) (\<lambda>target. case target of None \<Rightarrow> returnJ None
      | Some instant \<Rightarrow> bindJ (fireJob env managed instant) (\<lambda>r. returnJ (Some r))) (st, log) = Some (Inr out, s')"
    by (simp add: evaluateJob_def bindJ_def)
  then obtain target where target: "recurringTarget env now (st, log) = Some (Inr target, (st, log))"
    using recurringTarget_state by (auto simp: bindJ_Some)
  note exact = fx.poll_latest [OF assms(1,2,3,6) target, unfolded fx.aligned_def fx.latest_def]
  show ?thesis
  proof (cases target)
    case None
    with run target exact show ?thesis by (simp add: bindJ_def returnJ_def)
  next
    case (Some t)
    with run target obtain d where d: "fireJob env managed t (st, log) = Some (Inr d, s')" "out = Some d"
      by (auto simp: bindJ_Some bindJ_def returnJ_def split: option.splits sum.splits)
    have "drJob d = jsJob st" "drScheduledInstant d = t" "drFiredAt d = t + cjJitterMs (jsJob st)"
      using d(1) by (auto simp: fireJob_def Let_def bindJ_Some returnJ_def)
    with d(2) exact Some show ?thesis by simp
  qed
qed

section \<open>Concrete jobs\<close>

text \<open>
  Reports and their authority, concrete schedulers for the theorems on histories, and the two failures: a
  refused record, and the hour that repeats when daylight saving time ends.
\<close>

subsection \<open>Reports\<close>

lemma dueGo_reports:
  "dueGo env now busy managed jobs log = Some (outs, jobs', log') \<Longrightarrow> storeOk env log \<Longrightarrow> d \<in> set outs \<Longrightarrow>
     \<not> busy \<and> (\<exists>k st. (k, st) \<in> set jobs \<and> jsStatus st = JobActive \<and>
       d = \<lparr>drJob = jsJob st, drScheduledInstant = drScheduledInstant d, drFiredAt = drScheduledInstant d + cjJitterMs (jsJob st),
         drAuthority = intersect (cjCeiling (jsJob st)) (cjCeiling (jsJob st)) managed\<rparr>)"
proof (induction env now busy managed jobs log arbitrary: outs jobs' log' rule: dueGo.induct)
  case (2 env now busy managed k st rest log)
  from "2.prems"(1) obtain r st' log1 outs1 rest' where
    eval: "evaluateJob env now busy managed (st, log) = Some (r, st', log1)"
    and rest: "dueGo env now busy managed rest log1 = Some (outs1, rest', log')"
    and out: "outs = (case r of Inr (Some d) \<Rightarrow> d # outs1 | _ \<Rightarrow> outs1)"
    by (auto split: option.splits prod.splits)
  note move = evaluate_moves [OF eval "2.prems"(2)]
  have "storeOk env log1" using move by (simp add: moves_def)
  note IH = "2.IH" [OF eval refl refl rest this]
  show ?case
  proof (cases "d \<in> set outs1")
    case True
    with IH show ?thesis by auto
  next
    case False
    with "2.prems"(3) out have "r = Inr (Some d)" by (auto split: sum.splits option.splits)
    with move have "targetOf env now st (drScheduledInstant d)" "\<not> busy"
      "d = \<lparr>drJob = jsJob st, drScheduledInstant = drScheduledInstant d, drFiredAt = drScheduledInstant d + cjJitterMs (jsJob st),
         drAuthority = intersect (cjCeiling (jsJob st)) (cjCeiling (jsJob st)) managed\<rparr>"
      by blast+
    then show ?thesis by (auto simp: targetOf_def intro!: exI [of _ k] exI [of _ st])
  qed
qed simp

text \<open>
  A busy poll reports nothing. A report names an active job of the scheduler, starts after its jitter,
  and runs under an authority that is at most the ceiling captured at creation and within the managed
  maxima; one level of delegation is spent, although the ceiling is its own parent.
\<close>

theorem due_reports_capped:
  assumes "schedulerRun env sch used ds" and "due env now busy managed sch = Some (outs, sch')" and "d \<in> set outs"
  shows "\<not> busy \<and> (\<exists>k st. map_of (scJobs sch) k = Some st \<and> jsStatus st = JobActive \<and> drJob d = jsJob st) \<and>
    drFiredAt d = drScheduledInstant d + cjJitterMs (drJob d) \<and>
    (depthOk (cjCeiling (drJob d)) \<longrightarrow> isAtMost (drAuthority d) (cjCeiling (drJob d))) \<and>
    auProfile (drAuthority d) \<le> mpMaxProfile managed \<and> auIsolation (drAuthority d) \<le> mpMaxIsolation managed \<and>
    (auNetworkAllowed (drAuthority d) \<longrightarrow> mpNetworkAllowed managed) \<and>
    auMaxChildDepth (drAuthority d) = max 0 (min (auMaxChildDepth (cjCeiling (drJob d)) - 1) (mpMaxChildDepth managed))"
proof -
  note run = run_slots [OF assms(1)]
  obtain jobs' log' where go: "dueGo env now busy managed (scJobs sch) (scLog sch) = Some (outs, jobs', log')"
    using assms(2) by (auto simp: due_def split: option.splits prod.splits)
  from dueGo_reports [OF go _ assms(3)] run obtain k st where st: "\<not> busy" "(k, st) \<in> set (scJobs sch)" "jsStatus st = JobActive"
    and d: "d = \<lparr>drJob = jsJob st, drScheduledInstant = drScheduledInstant d, drFiredAt = drScheduledInstant d + cjJitterMs (jsJob st),
         drAuthority = intersect (cjCeiling (jsJob st)) (cjCeiling (jsJob st)) managed\<rparr>"
    by blast
  have "map_of (scJobs sch) k = Some st" using run st(2) by (simp add: keyed_def)
  moreover from d have "drJob d = jsJob st" "drFiredAt d = drScheduledInstant d + cjJitterMs (jsJob st)"
    "drAuthority d = intersect (cjCeiling (jsJob st)) (cjCeiling (jsJob st)) managed"
    by (metis dueResult.select_convs)+
  ultimately show ?thesis
    using st intersect_le_parent [of "cjCeiling (jsJob st)" "cjCeiling (jsJob st)" managed]
    by (auto simp: intersect_def Let_def leastProfile_min strictestIsolation_min min_def)
qed

subsection \<open>A refused record\<close>

text \<open>
  When the store refuses the record of a firing, the poll throws after it has marked the instant as fired
  and moved the cursor, so that the firing is never reported: neither by this poll nor, in a zone of a fixed
  offset, by any later one.
\<close>

theorem refused_record_loses_firing:
  assumes "seStore env = Some takes" and "\<not> takes log (JobFiredAt (cjId (jsJob st)) t)"
    and "cjDurable (jsJob st)" and "cjKind (jsJob st) = Recurring" and "jsStatus st = JobActive"
    and "cjExpiresAt (jsJob st) = Some deadline" and "now < deadline"
    and "recurringTarget env now (st, log) = Some (Inr (Some t), (st, log))" and "seZone env = fixedZone off"
  shows "evaluateJob env now False managed (st, log) = Some (Inl StoreExn, (firedState st t, log)) \<and>
    (\<forall>now' managed' log' d s'. evaluateJob env now' False managed' (firedState st t, log') = Some (Inr (Some d), s') \<longrightarrow>
       storeOk env log' \<longrightarrow> t < drScheduledInstant d)"
proof -
  have "maybeExpire env now (st, log) = Some (Inr False, (st, log))"
    using assms(4,6,7) by (simp add: maybeExpire_def returnJ_def)
  moreover have "fireJob env managed t (st, log) = Some (Inl StoreExn, (firedState st t, log))"
    using assms(1-4) by (simp add: fireJob_def Let_def bindJ_def modifyJ_def appendJ_def appendRecord_def)
  ultimately have "evaluateJob env now False managed (st, log) = Some (Inl StoreExn, (firedState st t, log))"
    using assms(4,5,8) by (simp add: evaluateJob_def bindJ_def)
  moreover have "t < drScheduledInstant d"
    if "evaluateJob env now' False managed' (firedState st t, log') = Some (Inr (Some d), s')" "storeOk env log'" for now' managed' log' d s'
  proof -
    have "targetOf env now' (firedState st t) (drScheduledInstant d)" using evaluate_moves [OF that] by blast
    from fx.target_after [OF this assms(9)] assms(4) show ?thesis by simp
  qed
  ultimately show ?thesis by blast
qed

subsection \<open>Concrete jobs\<close>

lemma parse_everyMinuteOfOne: "parseCron ''* 1 * * *'' = Inr everyMinuteOfOne"
proof -
  let ?fs = "[[Star], [Single 1], [Star], [Star], [Star]]"
  have "fieldsOk ?fs" by code_simp
  note parsed = parseCron_print [OF this]
  have "printCron ?fs = ''* 1 * * *''" by code_simp
  moreover have "fieldSet ?fs 0 = {0..59}" "fieldSet ?fs 1 = {1}" "fieldSet ?fs 2 = {1..31}" "fieldSet ?fs 3 = {1..12}" "fieldSet ?fs 4 = {0..6}"
    by (auto simp: fieldSet_def denotes_def FIELD_SPECS_def)
  ultimately show ?thesis using parsed by (simp add: everyMinuteOfOne_def)
qed

definition minuteInput :: "bool \<Rightarrow> createJobInput" where
  "minuteInput durable = CreateRecurring ''owner'' ''thread'' ''* 1 * * *'' ''tag'' (defaultAuthority P_ask ''/w'' NO_MANAGED_RESTRICTIONS) durable"

definition minuteJob :: "int \<Rightarrow> cronJob" where
  "minuteJob jitter = \<lparr>cjId = ''j'', cjOwner = ''owner'', cjThreadId = ''thread'', cjKind = Recurring, cjCronSource = Some ''* 1 * * *'',
     cjFireAt = None, cjWorkloadTag = ''tag'', cjCeiling = defaultAuthority P_ask ''/w'' NO_MANAGED_RESTRICTIONS,
     cjCreatedAt = 3600000, cjExpiresAt = Some 608400000, cjDurable = True, cjJitterMs = jitter\<rparr>"

text \<open>At Greenwich, from 1:00: the next firings are a minute apart.\<close>

lemma minute_next:
  "nextFireOf (fixedZone 0) ''* 1 * * *'' 3600000 = Inr 3660000" "nextFireOf (fixedZone 0) ''* 1 * * *'' 3660000 = Inr 3720000"
proof -
  have "matches (fixedZone 0) everyMinuteOfOne 3660000" "matches (fixedZone 0) everyMinuteOfOne 3720000" by code_simp+
  then show "nextFireOf (fixedZone 0) ''* 1 * * *'' 3600000 = Inr 3660000" "nextFireOf (fixedZone 0) ''* 1 * * *'' 3660000 = Inr 3720000"
    by (simp_all add: nextFireOf_def parse_everyMinuteOfOne nextFireAfter_def startOfMinute_def MINUTE_MS_def MAX_SEARCH_MINUTES_def searchFire_step)
qed

abbreviation cronEnv :: "bool \<Rightarrow> schedEnv" where
  "cronEnv takes \<equiv> \<lparr>seZone = fixedZone 0, seStore = Some (\<lambda>_ _. takes)\<rparr>"

lemma minute_target: "recurringTarget (cronEnv b) 3660000 (newState (minuteJob 0), log) = Some (Inr (Some 3660000), (newState (minuteJob 0), log))"
proof -
  have "targetLoop (fixedZone 0) ''* 1 * * *'' 0 3660000 3720000 (Some 3660000) = Some (Inr (Some 3660000))"
    by (subst targetLoop.simps) simp
  then have "targetLoop (fixedZone 0) ''* 1 * * *'' 0 3660000 3660000 None = Some (Inr (Some 3660000))"
    by (subst targetLoop.simps) (simp add: minute_next)
  then show ?thesis by (simp add: recurringTarget_def Let_def minuteJob_def minute_next returnJ_def laterOf_def)
qed

lemma refused_record_loses_firing_witness:
  "evaluateJob (cronEnv False) 3660000 False NO_MANAGED_RESTRICTIONS (newState (minuteJob 0), []) =
     Some (Inl StoreExn, (firedState (newState (minuteJob 0)) 3660000, []))"
  by (rule conjunct1 [OF refused_record_loses_firing [of "cronEnv False" "\<lambda>_ _. False" "[]" "newState (minuteJob 0)" 3660000 608400000 3660000 0]])
    (simp_all only: minute_target, simp_all add: minuteJob_def)

lemma poll_fires_latest_witness:
  "(\<exists>d s'. evaluateJob (cronEnv True) 3660000 False NO_MANAGED_RESTRICTIONS (newState (minuteJob 0), []) = Some (Inr (Some d), s') \<and>
     drScheduledInstant d = 3660000 \<and> matches (fixedZone 0) everyMinuteOfOne 3660000)"
proof -
  let ?st = "newState (minuteJob 0)"
  obtain d s' where fire: "fireJob (cronEnv True) NO_MANAGED_RESTRICTIONS 3660000 (?st, []) = Some (Inr d, s')" and instant: "drScheduledInstant d = 3660000"
    by (auto simp: fireJob_def Let_def bindJ_def modifyJ_def appendJ_def appendRecord_def returnJ_def minuteJob_def)
  have "maybeExpire (cronEnv True) 3660000 (?st, []) = Some (Inr False, (?st, []))" by (simp add: maybeExpire_def returnJ_def minuteJob_def)
  then have run: "evaluateJob (cronEnv True) 3660000 False NO_MANAGED_RESTRICTIONS (?st, []) = Some (Inr (Some d), s')"
    using fire by (simp add: evaluateJob_def bindJ_def minute_target returnJ_def) (simp add: minuteJob_def)
  have "seZone (cronEnv True) = fixedZone 0" by simp
  note fired = poll_fires_latest [OF this parse_everyMinuteOfOne _ _ _ _ _ _ run, of 608400000]
  have "matches (fixedZone 0) everyMinuteOfOne 3660000" using fired instant by (simp add: minuteJob_def)
  with run instant show ?thesis by blast
qed

subsection \<open>A history\<close>

text \<open>A durable one-shot is created and fires at its instant; a second poll reports nothing.\<close>

definition onceInput :: createJobInput where
  "onceInput = CreateOneShot ''owner'' ''thread'' (Some 3660000) ''tag'' (defaultAuthority P_ask ''/w'' NO_MANAGED_RESTRICTIONS) True"

definition onceJob :: cronJob where
  "onceJob = \<lparr>cjId = ''j'', cjOwner = ''owner'', cjThreadId = ''thread'', cjKind = OneShot, cjCronSource = None,
     cjFireAt = Some 3660000, cjWorkloadTag = ''tag'', cjCeiling = defaultAuthority P_ask ''/w'' NO_MANAGED_RESTRICTIONS,
     cjCreatedAt = 3600000, cjExpiresAt = None, cjDurable = True, cjJitterMs = 0\<rparr>"

definition afterCreate :: scheduler where
  "afterCreate = \<lparr>scJobs = [(''j'', newState onceJob)], scLog = [JobCreated (toSnapshot onceJob)]\<rparr>"

definition afterFire :: scheduler where
  "afterFire = \<lparr>scJobs = [(''j'', firedState (newState onceJob) 3660000)],
     scLog = [JobCreated (toSnapshot onceJob), JobStatusSet ''j'' JobFired]\<rparr>"

definition onceReport :: dueResult where
  "onceReport = \<lparr>drJob = onceJob, drScheduledInstant = 3660000, drFiredAt = 3660000,
     drAuthority = intersect (cjCeiling onceJob) (cjCeiling onceJob) NO_MANAGED_RESTRICTIONS\<rparr>"

lemma once_created: "createJob (cronEnv True) 3600000 ''j'' onceInput (newScheduler (cronEnv True) []) = (Inr onceJob, afterCreate)"
  by (simp add: createJob_def onceInput_def jobOf_def newScheduler_def restoreJobs_def foldRecords_def liveJobs_def MAX_JOBS_PER_OWNER_def
      onceJob_def afterCreate_def Let_def appendRecord_def)

lemma once_fired: "due (cronEnv True) 3660000 False NO_MANAGED_RESTRICTIONS afterCreate = Some ([onceReport], afterFire)"
  by (simp add: due_def afterCreate_def evaluateJob_def maybeExpire_def bindJ_def returnJ_def oneShotTarget_def onceJob_def
      fireJob_def modifyJ_def persistStatus_def appendJ_def appendRecord_def afterFire_def onceReport_def Let_def)

lemma once_again: "due (cronEnv True) 3720000 False NO_MANAGED_RESTRICTIONS afterFire = Some ([], afterFire)"
  by (simp add: due_def afterFire_def evaluateJob_def returnJ_def onceJob_def)

lemma run_created: "schedulerRun (cronEnv True) afterCreate {''j''} []"
  by (rule schedulerRun.create [OF schedulerRun.start _ once_created]) simp

lemma run_fired: "schedulerRun (cronEnv True) afterFire {''j''} [onceReport]"
  using schedulerRun.poll [OF run_created once_fired] by simp

lemma run_again: "schedulerRun (cronEnv True) afterFire {''j''} ([onceReport] @ [])"
  by (rule schedulerRun.poll [OF run_fired once_again])

lemma cronEnv_reliable: "reliable (cronEnv True)"
  by (simp add: reliable_def)

lemma scheduler_fires_once_witness:
  "schedulerRun (cronEnv True) afterFire {''j''} ([onceReport] @ []) \<and>
   distinct (map (\<lambda>d. (cjId (drJob d), drScheduledInstant d)) ([onceReport] @ []))"
  using scheduler_fires_once [OF _ run_again, of 0] run_again by simp

lemma due_reports_capped_witness:
  "jsStatus (newState onceJob) = JobActive \<and> auMaxChildDepth (drAuthority onceReport) = 1 \<and> drFiredAt onceReport = drScheduledInstant onceReport"
  using due_reports_capped [OF run_created once_fired, of onceReport]
  by (simp add: onceReport_def onceJob_def defaultAuthority_def NO_MANAGED_RESTRICTIONS_def Let_def)

lemma restart_reconstructs_witness:
  "map_of (scJobs (newScheduler (cronEnv True) (scLog afterFire))) ''j'' =
     Some (newState onceJob\<lparr>jsStatus := JobFired\<rparr>)"
  using restart_reconstructs [OF cronEnv_reliable run_fired, of "''j''"]
  by (simp add: afterFire_def onceJob_def loggedFired_def)

lemma live_jobs_capped_witness: "liveJobs ''owner'' afterCreate \<le> MAX_JOBS_PER_OWNER \<and> liveJobs ''owner'' afterCreate = 1"
  using live_jobs_capped [OF cronEnv_reliable run_created, of "''owner''"]
  by (simp add: liveJobs_def afterCreate_def onceJob_def)

lemma polls_return_witness:
  "(\<exists>outs sch'. due (cronEnv False) 0 True NO_MANAGED_RESTRICTIONS afterCreate = Some (outs, sch')) \<and>
   (\<exists>summary sch'. resumeAfterDowntime (cronEnv False) 0 afterCreate = Some (summary, sch'))"
  by (rule polls_return [of _ 0]) simp

subsection \<open>The end of daylight saving time\<close>

text \<open>The whole minutes of the repeated hour, both times.\<close>

definition repeatedHour :: "int \<Rightarrow> bool" where
  "repeatedHour t \<longleftrightarrow> 0 \<le> t \<and> t < 7200000 \<and> t mod 60000 = 0"

lemma fallBack_simps:
  "zoLocal fallBackZone t = (if t < 3600000 then t + 3600000 else t)"
  "zoUtc fallBackZone l = (if l < 7200000 then l - 3600000 else l)"
  by (simp_all add: fallBackZone_def)

lemma hour_one: "0 \<le> t \<Longrightarrow> t < 7200000 \<Longrightarrow> matches fallBackZone everyMinuteOfOne t"
proof -
  assume t: "0 \<le> t" "t < 7200000"
  let ?l = "zoLocal fallBackZone t"
  have l: "3600000 \<le> ?l" "?l < 7200000" using t by (simp_all add: fallBack_simps)
  then have "?l div 3600000 = 1" "?l div 86400000 = 0"
    using int_div_pos_eq [of ?l 3600000 1 "?l - 3600000"] by (simp_all add: div_pos_pos_trivial)
  moreover have "civilDate 0 = (1, 1)" by code_simp
  moreover have "nat (?l div 60000 mod 60) \<in> {0..59}" by simp
  ultimately show ?thesis
    by (simp add: matches_def getMinutes_def getHours_def getMonth1_def getDate_def getDay_def everyMinuteOfOne_def Let_def)
qed

text \<open>From a minute of the repeated hour the search finds one of its minutes.\<close>

lemma repeated_next:
  assumes "repeatedHour t"
  obtains u where "nextFireOf fallBackZone ''* 1 * * *'' t = Inr u" "repeatedHour u"
proof -
  let ?l = "zoLocal fallBackZone t"
  have t: "0 \<le> t" "t < 7200000" "60000 dvd t" using assms by (simp_all add: repeatedHour_def mod_eq_0_iff_dvd)
  then have "60000 dvd t + 3600000" by (intro dvd_add) simp_all
  with t have l: "60000 dvd ?l" "3600000 \<le> ?l" "?l < 7200000" by (simp_all add: fallBack_simps)
  let ?u = "?l - 3600000 + 60000"
  have "60000 dvd ?l - 3600000" using l(1) by (intro dvd_diff) simp_all
  then have "60000 dvd ?u" by (rule dvd_add) simp
  have "?u < 7200000" "0 \<le> ?u" using l by simp_all
  then have u: "repeatedHour ?u" using \<open>60000 dvd ?u\<close> by (simp add: repeatedHour_def mod_eq_0_iff_dvd)
  have "?l mod 60000 = 0" using l(1) by (simp add: mod_eq_0_iff_dvd)
  then have "startOfMinute fallBackZone t = ?l - 3600000"
    using l(3) unfolding startOfMinute_def by (simp add: fallBack_simps(2))
  moreover have "matches fallBackZone everyMinuteOfOne ?u"
    by (rule hour_one) (use \<open>0 \<le> ?u\<close> \<open>?u < 7200000\<close> in simp_all)
  ultimately have "nextFireOf fallBackZone ''* 1 * * *'' t = Inr ?u"
    by (simp add: nextFireOf_def parse_everyMinuteOfOne nextFireAfter_def MINUTE_MS_def MAX_SEARCH_MINUTES_def searchFire_step)
  from that [OF this u] show ?thesis .
qed

lemma repeated_loop:
  assumes "repeatedHour probe" and "7200000 + jitter \<le> now"
  shows "targetLoop fallBackZone ''* 1 * * *'' jitter now probe candidate = None"
proof (rule ccontr)
  assume "targetLoop fallBackZone ''* 1 * * *'' jitter now probe candidate \<noteq> None"
  then obtain out where "targetLoop fallBackZone ''* 1 * * *'' jitter now probe candidate = Some out" by blast
  then have "\<not> (repeatedHour probe \<and> fallBackZone = fallBackZone \<and> ''* 1 * * *'' = ''* 1 * * *'' \<and> 7200000 + jitter \<le> now)"
  proof (induction fallBackZone "''* 1 * * *''" jitter now probe candidate out rule: targetLoop.raw_induct [rotated 1, consumes 1])
    case (1 loop jitter now probe candidate out)
    show ?case
    proof
      assume a: "repeatedHour probe \<and> fallBackZone = fallBackZone \<and> ''* 1 * * *'' = ''* 1 * * *'' \<and> 7200000 + jitter \<le> now"
      obtain u where u: "nextFireOf fallBackZone ''* 1 * * *'' probe = Inr u" "repeatedHour u" using repeated_next a by blast
      have "probe + jitter \<le> now" using a by (simp add: repeatedHour_def)
      with "1.hyps"(2) u(1) have "loop fallBackZone ''* 1 * * *'' jitter now u (Some probe) = Some out" by simp
      from "1.hyps"(1) [OF this] u(2) a show False by simp
    qed
  qed
  with assms show False by simp
qed

text \<open>
  When daylight saving time ends a poll may never return: a job for every minute of one o'clock, created
  in the second of the two hours and polled at a quarter past two, sends the search round the repeated hour
  for ever, whatever its jitter.
\<close>

theorem poll_never_returns:
  "due \<lparr>seZone = fallBackZone, seStore = None\<rparr> 8100000 busy managed
     (snd (createJob \<lparr>seZone = fallBackZone, seStore = None\<rparr> 5400000 ''j'' (minuteInput durable) \<lparr>scJobs = [], scLog = []\<rparr>)) = None"
proof -
  let ?env = "\<lparr>seZone = fallBackZone, seStore = None\<rparr>"
  let ?jitter = "deterministicJitterMs ''j'' (intervalOf fallBackZone ''* 1 * * *'' 5400000)"
  let ?job = "\<lparr>cjId = ''j'', cjOwner = ''owner'', cjThreadId = ''thread'', cjKind = Recurring, cjCronSource = Some ''* 1 * * *'',
     cjFireAt = None, cjWorkloadTag = ''tag'', cjCeiling = defaultAuthority P_ask ''/w'' NO_MANAGED_RESTRICTIONS,
     cjCreatedAt = 5400000, cjExpiresAt = Some (5400000 + RECURRING_EXPIRY_MS), cjDurable = durable, cjJitterMs = ?jitter\<rparr>"
  have created: "scJobs (snd (createJob ?env 5400000 ''j'' (minuteInput durable) \<lparr>scJobs = [], scLog = []\<rparr>)) = [(''j'', newState ?job)]"
    by (simp add: createJob_def minuteInput_def jobOf_def parse_everyMinuteOfOne liveJobs_def MAX_JOBS_PER_OWNER_def Let_def appendRecord_def)
  have "repeatedHour 5400000" by (simp add: repeatedHour_def)
  then obtain probe where probe: "nextFireOf fallBackZone ''* 1 * * *'' 5400000 = Inr probe" "repeatedHour probe" by (rule repeated_next)
  have "7200000 + ?jitter \<le> 8100000" using job_jitter_bounds(2) [of "''j''"] by (simp add: MAX_JITTER_MS_def)
  note stuck = repeated_loop [OF probe(2) this]
  have "maybeExpire ?env 8100000 (newState ?job, log) = Some (Inr False, (newState ?job, log))" for log
    by (simp add: maybeExpire_def returnJ_def RECURRING_EXPIRY_MS_def)
  moreover have "recurringTarget ?env 8100000 (newState ?job, log) = None" for log
    using probe(1) stuck by (simp add: recurringTarget_def Let_def)
  ultimately have "evaluateJob ?env 8100000 busy managed (newState ?job, log) = None" for log
    by (simp add: evaluateJob_def bindJ_def)
  then show ?thesis by (simp add: due_def created)
qed

end
