(* ===== verification/Background_Queue.thy ===== *)
theory Background_Queue
  imports Prelude "HOL-Library.Multiset"
begin

text \<open>
  \<^verbatim>\<open>packages/background/src/notifications.ts\<close>: the four-level notification queue with its guard
  against starvation, what it delivers and when.
\<close>

subsection \<open>Notifications\<close>

datatype notificationKind =
    N_approval | N_elicitation | N_shutdown | N_security_failure | N_input_request
  | N_task_failure | N_agent_state | N_team_state | N_lost_remote
  | N_background_completion | N_cron_fire | N_progress | N_status

fun NOTIFICATION_LEVELS :: "notificationKind \<Rightarrow> nat" where
  "NOTIFICATION_LEVELS N_approval = 1"
| "NOTIFICATION_LEVELS N_elicitation = 1"
| "NOTIFICATION_LEVELS N_shutdown = 1"
| "NOTIFICATION_LEVELS N_security_failure = 1"
| "NOTIFICATION_LEVELS N_input_request = 1"
| "NOTIFICATION_LEVELS N_task_failure = 2"
| "NOTIFICATION_LEVELS N_agent_state = 2"
| "NOTIFICATION_LEVELS N_team_state = 2"
| "NOTIFICATION_LEVELS N_lost_remote = 2"
| "NOTIFICATION_LEVELS N_background_completion = 3"
| "NOTIFICATION_LEVELS N_cron_fire = 3"
| "NOTIFICATION_LEVELS N_progress = 4"
| "NOTIFICATION_LEVELS N_status = 4"

definition levelOf :: "notificationKind \<Rightarrow> nat" where
  "levelOf kind = NOTIFICATION_LEVELS kind"

record notification =
  ntId :: string
  ntKind :: notificationKind
  ntLevel :: nat
  ntSubjectId :: string
  ntMessage :: string
  ntCreatedAt :: int

definition STARVATION_THRESHOLD :: nat where
  "STARVATION_THRESHOLD = 10"

definition LEVELS :: "nat list" where
  "LEVELS = [1, 2, 3, 4]"

subsection \<open>The queue\<close>

record notificationQueue =
  nqByLevel :: "nat \<Rightarrow> notification list"
  nqConsecutiveHigh :: nat

definition emptyQueue :: notificationQueue where
  "emptyQueue = \<lparr>nqByLevel = (\<lambda>_. []), nqConsecutiveHigh = 0\<rparr>"

definition enqueue :: "notification \<Rightarrow> notificationQueue \<Rightarrow> notificationQueue" where
  "enqueue n q = q\<lparr>nqByLevel := (nqByLevel q)(ntLevel n := nqByLevel q (ntLevel n) @ [n])\<rparr>"

definition queueSize :: "notificationQueue \<Rightarrow> nat" where
  "queueSize q = fold (\<lambda>level n. n + length (nqByLevel q level)) LEVELS 0"

definition topLevel :: "notificationQueue \<Rightarrow> nat option" where
  "topLevel q = find (\<lambda>level. nqByLevel q level \<noteq> []) LEVELS"

definition topLevelAbove :: "nat \<Rightarrow> notificationQueue \<Rightarrow> nat option" where
  "topLevelAbove level q = find (\<lambda>candidate. candidate > level \<and> nqByLevel q candidate \<noteq> []) LEVELS"

definition peekLevel :: "notificationQueue \<Rightarrow> nat option" where
  "peekLevel q =
     (case topLevel q of
        None \<Rightarrow> None
      | Some highest \<Rightarrow>
          if nqConsecutiveHigh q \<ge> STARVATION_THRESHOLD
          then (case topLevelAbove highest q of Some lower \<Rightarrow> Some lower | None \<Rightarrow> Some highest)
          else Some highest)"

text \<open>\<^verbatim>\<open>shift() ?? null\<close> on the queue of a level.\<close>

definition shiftLevel :: "nat \<Rightarrow> notificationQueue \<Rightarrow> notification option \<times> notificationQueue" where
  "shiftLevel level q =
     (case nqByLevel q level of
        [] \<Rightarrow> (None, q)
      | n # rest \<Rightarrow> (Some n, q\<lparr>nqByLevel := (nqByLevel q)(level := rest)\<rparr>))"

definition deliver :: "notificationQueue \<Rightarrow> notification option \<times> notificationQueue" where
  "deliver q =
     (case topLevel q of
        None \<Rightarrow> (None, q)
      | Some highest \<Rightarrow>
          (case topLevelAbove highest q of
             Some lower \<Rightarrow>
               if nqConsecutiveHigh q \<ge> STARVATION_THRESHOLD
               then shiftLevel lower (q\<lparr>nqConsecutiveHigh := 0\<rparr>)
               else shiftLevel highest (q\<lparr>nqConsecutiveHigh := nqConsecutiveHigh q + 1\<rparr>)
           | None \<Rightarrow> shiftLevel highest (q\<lparr>nqConsecutiveHigh := 0\<rparr>)))"

subsection \<open>One delivery\<close>

text \<open>Everything that waits, and the notifications whose level is one of the four.\<close>

definition waiting :: "notificationQueue \<Rightarrow> notification multiset" where
  "waiting q = (\<Sum>level\<leftarrow>LEVELS. mset (nqByLevel q level))"

definition queueOk :: "notificationQueue \<Rightarrow> bool" where
  "queueOk q \<longleftrightarrow> (\<forall>level. \<forall>n\<in>set (nqByLevel q level). ntLevel n = level) \<and> (\<forall>level. level \<notin> set LEVELS \<longrightarrow> nqByLevel q level = [])"

lemma levelOf_level: "levelOf kind \<in> set LEVELS"
  by (cases kind) (simp_all add: levelOf_def LEVELS_def)

lemma queueSize_waiting: "queueSize q = size (waiting q)"
  by (simp add: queueSize_def waiting_def LEVELS_def)

lemma waiting_enqueue: "ntLevel n \<in> set LEVELS \<Longrightarrow> waiting (enqueue n q) = add_mset n (waiting q)"
  by (auto simp: waiting_def enqueue_def LEVELS_def)

lemma queueOk_enqueue: "queueOk q \<Longrightarrow> ntLevel n \<in> set LEVELS \<Longrightarrow> queueOk (enqueue n q)"
  by (auto simp: queueOk_def enqueue_def)

lemma queueOk_empty [simp]: "queueOk emptyQueue"
  by (simp add: queueOk_def emptyQueue_def)

text \<open>The level a delivery draws from.\<close>

lemma deliver_peek:
  "deliver q =
     (case peekLevel q of
        None \<Rightarrow> (None, q)
      | Some level \<Rightarrow> shiftLevel level (q\<lparr>nqConsecutiveHigh :=
          (case topLevelAbove (the (topLevel q)) q of None \<Rightarrow> 0
           | Some _ \<Rightarrow> if nqConsecutiveHigh q \<ge> STARVATION_THRESHOLD then 0 else nqConsecutiveHigh q + 1)\<rparr>))"
  by (simp add: deliver_def peekLevel_def split: option.split)

lemma topLevel_Some: "topLevel q = Some l \<Longrightarrow> l \<in> set LEVELS \<and> nqByLevel q l \<noteq> []"
  unfolding topLevel_def by (rule find_SomeD)

lemma topLevel_least: "topLevel q = Some l \<Longrightarrow> k \<in> set LEVELS \<Longrightarrow> k < l \<Longrightarrow> nqByLevel q k = []"
  by (auto simp: topLevel_def LEVELS_def split: if_splits)

lemma topLevelAbove_Some: "topLevelAbove l q = Some k \<Longrightarrow> k \<in> set LEVELS \<and> l < k \<and> nqByLevel q k \<noteq> []"
  unfolding topLevelAbove_def by (drule find_SomeD) simp

lemma topLevelAbove_least: "topLevelAbove l q = Some k \<Longrightarrow> j \<in> set LEVELS \<Longrightarrow> l < j \<Longrightarrow> j < k \<Longrightarrow> nqByLevel q j = []"
proof -
  assume k: "topLevelAbove l q = Some k" and j: "j \<in> set LEVELS" "l < j" "j < k"
  from j(1) consider "j = 1" | "j = 2" | "j = 3" | "j = 4" by (auto simp: LEVELS_def)
  then show ?thesis using k j(2,3) by cases (auto simp: topLevelAbove_def LEVELS_def split: if_splits)
qed

lemma topLevelAbove_None: "topLevelAbove l q = None \<Longrightarrow> j \<in> set LEVELS \<Longrightarrow> l < j \<Longrightarrow> nqByLevel q j = []"
  by (auto simp: topLevelAbove_def find_None_iff_ball)

lemma peekLevel_Some: "peekLevel q = Some l \<Longrightarrow> l \<in> set LEVELS \<and> nqByLevel q l \<noteq> []"
  by (auto simp: peekLevel_def dest!: topLevel_Some topLevelAbove_Some split: option.splits if_splits)

lemma peekLevel_None: "peekLevel q = None \<longleftrightarrow> (\<forall>l\<in>set LEVELS. nqByLevel q l = [])"
proof (cases "topLevel q")
  case None
  then have "\<forall>l\<in>set LEVELS. nqByLevel q l = []" by (simp add: topLevel_def find_None_iff_ball)
  with None show ?thesis by (simp add: peekLevel_def)
next
  case (Some l)
  then show ?thesis using topLevel_Some [OF Some] by (auto simp: peekLevel_def split: option.split)
qed

lemma deliver_None: "fst (deliver q) = None \<longleftrightarrow> waiting q = {#}"
proof (cases "peekLevel q")
  case None
  then show ?thesis using peekLevel_None [of q] by (simp add: deliver_peek waiting_def LEVELS_def)
next
  case (Some l)
  with peekLevel_Some [OF Some] have "waiting q \<noteq> {#}" by (auto simp: waiting_def LEVELS_def)
  moreover have "fst (deliver q) \<noteq> None"
    using peekLevel_Some [OF Some] Some by (auto simp: deliver_peek shiftLevel_def split: list.split)
  ultimately show ?thesis by simp
qed

lemma deliver_Some:
  assumes "deliver q = (Some n, q')"
  obtains l where "peekLevel q = Some l" "nqByLevel q l = n # nqByLevel q' l" "\<And>k. k \<noteq> l \<Longrightarrow> nqByLevel q' k = nqByLevel q k"
proof -
  from assms obtain l where l: "peekLevel q = Some l" by (cases "peekLevel q") (simp_all add: deliver_peek)
  with assms have "nqByLevel q l = n # nqByLevel q' l" "\<And>k. k \<noteq> l \<Longrightarrow> nqByLevel q' k = nqByLevel q k"
    by (auto simp: deliver_peek shiftLevel_def split: list.splits)
  with l show ?thesis by (rule that)
qed

lemma deliver_waiting:
  assumes "deliver q = (Some n, q')" shows "waiting q = add_mset n (waiting q')"
proof -
  obtain l where l: "peekLevel q = Some l" "nqByLevel q l = n # nqByLevel q' l" "\<And>k. k \<noteq> l \<Longrightarrow> nqByLevel q' k = nqByLevel q k"
    using deliver_Some [OF assms] by metis
  from peekLevel_Some [OF l(1)] have "l \<in> {1, 2, 3, 4}" by (auto simp: LEVELS_def)
  then show ?thesis using l(2,3) by (auto simp: waiting_def LEVELS_def)
qed

text \<open>\<^verbatim>\<open>drain\<close>: deliver until nothing is left.\<close>

function drain :: "notificationQueue \<Rightarrow> notification list \<times> notificationQueue" where
  "drain q =
     (case deliver q of
        (None, q') \<Rightarrow> ([], q')
      | (Some n, q') \<Rightarrow> (case drain q' of (out, q'') \<Rightarrow> (n # out, q'')))"
  by pat_completeness auto
termination
  by (relation "measure (\<lambda>q. size (waiting q))") (auto dest!: deliver_waiting [OF sym])

declare drain.simps [simp del]

subsection \<open>Draining\<close>

lemma drain_None: "fst (deliver q) = None \<Longrightarrow> drain q = ([], q)"
proof -
  assume none: "fst (deliver q) = None"
  then have "waiting q = {#}" by (simp add: deliver_None)
  then have "peekLevel q = None" using peekLevel_None [of q] by (simp add: waiting_def LEVELS_def)
  then have "deliver q = (None, q)" by (simp add: deliver_peek)
  then show ?thesis by (subst drain.simps) simp
qed

lemma drain_Some: "deliver q = (Some n, q') \<Longrightarrow> drain q = (n # fst (drain q'), snd (drain q'))"
  by (subst drain.simps) (simp add: case_prod_beta)

lemma queueOk_deliver: "deliver q = (Some n, q') \<Longrightarrow> queueOk q \<Longrightarrow> queueOk q' \<and> peekLevel q = Some (ntLevel n)"
proof -
  assume d: "deliver q = (Some n, q')" and ok: "queueOk q"
  obtain l where l: "peekLevel q = Some l" "nqByLevel q l = n # nqByLevel q' l" "\<And>k. k \<noteq> l \<Longrightarrow> nqByLevel q' k = nqByLevel q k"
    using deliver_Some [OF d] by metis
  have "ntLevel n = l" using ok l(2) by (simp add: queueOk_def)
  moreover have "\<forall>x\<in>set (nqByLevel q' k). ntLevel x = k" for k using ok l(2,3) by (cases "k = l") (auto simp: queueOk_def)
  moreover have "nqByLevel q' k = []" if "k \<notin> set LEVELS" for k
  proof -
    have "k \<noteq> l" using that peekLevel_Some [OF l(1)] by blast
    then show ?thesis using l(3) ok that by (simp add: queueOk_def)
  qed
  ultimately show ?thesis using l(1) by (simp add: queueOk_def)
qed

text \<open>
  Draining delivers every waiting notification exactly once, those of a level in the order they came,
  and leaves the queue empty.
\<close>

theorem drain_delivers_all:
  assumes "queueOk q"
  shows "mset (fst (drain q)) = waiting q \<and> waiting (snd (drain q)) = {#} \<and>
    (\<forall>level. filter (\<lambda>n. ntLevel n = level) (fst (drain q)) = nqByLevel q level)"
  using assms
proof (induction q rule: drain.induct)
  case (1 q)
  show ?case
  proof (cases "fst (deliver q)")
    case None
    then have "waiting q = {#}" "drain q = ([], q)" by (simp_all add: deliver_None drain_None)
    moreover from this have "nqByLevel q level = []" for level
      using "1.prems" by (cases "level \<in> set LEVELS") (auto simp: queueOk_def waiting_def LEVELS_def)
    ultimately show ?thesis by simp
  next
    case (Some n)
    then obtain q' where d: "deliver q = (Some n, q')" by (cases "deliver q") auto
    note ok = queueOk_deliver [OF d "1.prems"]
    note IH = "1.IH" [OF d [symmetric] refl conjunct1 [OF ok]]
    obtain l where l: "peekLevel q = Some l" "nqByLevel q l = n # nqByLevel q' l" "\<And>k. k \<noteq> l \<Longrightarrow> nqByLevel q' k = nqByLevel q k"
      using deliver_Some [OF d] by metis
    have "filter (\<lambda>n. ntLevel n = level) (fst (drain q)) = nqByLevel q level" for level
      using IH l ok by (cases "level = l") (auto simp: drain_Some [OF d])
    then show ?thesis using IH deliver_waiting [OF d] by (simp add: drain_Some [OF d])
  qed
qed

definition notice :: "string \<Rightarrow> notificationKind \<Rightarrow> notification" where
  "notice nid kind = \<lparr>ntId = nid, ntKind = kind, ntLevel = levelOf kind, ntSubjectId = ''s'', ntMessage = ''m'', ntCreatedAt = 0\<rparr>"

definition mixedQueue :: notificationQueue where
  "mixedQueue = fold enqueue [notice ''a'' N_status, notice ''b'' N_approval, notice ''c'' N_cron_fire, notice ''d'' N_approval] emptyQueue"

lemma drain_delivers_all_witness:
  "map ntId (fst (drain mixedQueue)) = [''b'', ''d'', ''c'', ''a''] \<and> waiting (snd (drain mixedQueue)) = {#}"
proof -
  have "queueOk mixedQueue"
    by (simp add: mixedQueue_def queueOk_enqueue notice_def levelOf_def LEVELS_def)
  moreover have "map ntId (fst (drain mixedQueue)) = [''b'', ''d'', ''c'', ''a'']"
    by (simp add: mixedQueue_def notice_def levelOf_def enqueue_def emptyQueue_def drain.simps deliver_def topLevel_def topLevelAbove_def
        LEVELS_def shiftLevel_def STARVATION_THRESHOLD_def)
  ultimately show ?thesis using drain_delivers_all by blast
qed

subsection \<open>Starvation\<close>

text \<open>Rounds in which one approval and one failure arrive and one notification is delivered.\<close>

fun busyRounds :: "nat \<Rightarrow> notificationQueue \<Rightarrow> notification list \<times> notificationQueue" where
  "busyRounds 0 q = ([], q)"
| "busyRounds (Suc n) q =
     (case deliver (enqueue (notice ''f'' N_task_failure) (enqueue (notice ''a'' N_approval) q)) of
        (r, q') \<Rightarrow> (case busyRounds n q' of (out, q'') \<Rightarrow> ((case r of None \<Rightarrow> out | Some x \<Rightarrow> x # out), q'')))"

lemma busy_peek: "nqByLevel q 1 \<noteq> [] \<Longrightarrow> nqByLevel q 2 \<noteq> [] \<Longrightarrow> peekLevel q = Some 1 \<or> peekLevel q = Some 2"
  by (auto simp: peekLevel_def topLevel_def topLevelAbove_def LEVELS_def)

text \<open>
  The guard against starvation serves only the level next to the highest: while approvals and failures
  keep coming, however long, no notification of the two lowest levels is ever delivered.
\<close>

theorem low_levels_starve:
  "nqByLevel (snd (busyRounds n q)) 3 = nqByLevel q 3 \<and> nqByLevel (snd (busyRounds n q)) 4 = nqByLevel q 4"
proof (induction n arbitrary: q)
  case (Suc n)
  let ?q = "enqueue (notice ''f'' N_task_failure) (enqueue (notice ''a'' N_approval) q)"
  have full: "nqByLevel ?q 1 \<noteq> []" "nqByLevel ?q 2 \<noteq> []" by (simp_all add: enqueue_def notice_def levelOf_def)
  have same: "nqByLevel ?q 3 = nqByLevel q 3" "nqByLevel ?q 4 = nqByLevel q 4" by (simp_all add: enqueue_def notice_def levelOf_def)
  obtain r q' where d: "deliver ?q = (r, q')" by (cases "deliver ?q")
  have "nqByLevel q' 3 = nqByLevel ?q 3 \<and> nqByLevel q' 4 = nqByLevel ?q 4"
    using busy_peek [OF full] d by (auto simp: deliver_peek shiftLevel_def split: list.splits)
  then show ?case using Suc.IH [of q'] same d by (simp add: case_prod_beta)
qed simp


end
