(* ===== verification/Background_Manager.thy ===== *)
theory Background_Manager
  imports Background_Queue Policy_Authority Protocol_Domain "HOL-Library.AList"
begin

text \<open>
  \<^verbatim>\<open>packages/background/src/manager.ts\<close> and \<^verbatim>\<open>category.ts\<close>: the lifecycle of background work.
  The clock and the id source are functions of a counter that every reading advances. The runner's
  callbacks are events of their own, since the production runner calls back asynchronously; what the
  manager asks of the runner, writes to the sink and resolves is recorded in traces. The sink may refuse
  a record, which is an exception that leaves the rest of an operation undone.
\<close>

subsection \<open>Tasks\<close>

datatype placement = Foreground | Background

datatype backgroundCategory = LocalShell | LocalWorkflow | DreamConsolidation

record foregroundHint =
  fhLongLived :: bool
  fhInteractive :: bool

definition classifyForeground :: "placement option \<Rightarrow> foregroundHint option \<Rightarrow> placement" where
  "classifyForeground explicit hint =
     (case explicit of
        Some p \<Rightarrow> p
      | None \<Rightarrow>
          (case hint of
             Some h \<Rightarrow> if fhLongLived h \<and> \<not> fhInteractive h then Background else Foreground
           | None \<Rightarrow> Foreground))"

datatype bgStatus = T_queued | T_running | T_awaiting_input | T_blocked | T_succeeded | T_failed | T_cancelled

definition isTerminalStatus :: "bgStatus \<Rightarrow> bool" where
  "isTerminalStatus st \<longleftrightarrow> st \<in> set [T_succeeded, T_failed, T_cancelled]"

definition OUTPUT_WARN_BYTES :: nat where
  "OUTPUT_WARN_BYTES = 10 * 1024 * 1024"

definition OUTPUT_PREVIEW_BYTES :: nat where
  "OUTPUT_PREVIEW_BYTES = 64 * 1024"

definition INPUT_WATCHDOG_MS :: int where
  "INPUT_WATCHDOG_MS = 30000"

definition BLOCKED_AFTER_MS :: int where
  "BLOCKED_AFTER_MS = 5 * 60000"

record inputRequest =
  irPrompt :: string
  irSecret :: bool

record runnerExit =
  reOk :: bool
  reCode :: "int option"
  reReason :: "string option"

record startInput =
  siCategory :: backgroundCategory
  siOwner :: actor
  siPlacement :: "placement option"
  siHint :: "foregroundHint option"
  siToolCallId :: "string option"
  siPermissionContext :: authority
  siPayload :: jsValue
  siApprovalChannel :: bool

record taskRecord =
  tkId :: string
  tkCategory :: backgroundCategory
  tkPlacement :: placement
  tkOwner :: actor
  tkToolCallId :: "string option"
  tkPermissionContext :: authority
  tkPayload :: jsValue
  tkApprovalChannel :: bool
  tkStatus :: bgStatus
  tkControl :: bool
  tkOutputBytes :: nat
  tkOutputPreview :: string
  tkOutputTruncated :: bool
  tkOutputWarned :: bool
  tkLastInputRequest :: "inputRequest option"
  tkAwaitingSince :: "int option"
  tkDetectedWaitSince :: "int option"
  tkCreatedAt :: int
  tkStartedAt :: "int option"
  tkEndedAt :: "int option"
  tkExit :: "runnerExit option"
  tkWaiters :: "nat list"

text \<open>The view of a task is the record without its private fields.\<close>

record taskView =
  tvId :: string
  tvCategory :: backgroundCategory
  tvPlacement :: placement
  tvOwner :: actor
  tvToolCallId :: "string option"
  tvPermissionContext :: authority
  tvStatus :: bgStatus
  tvOutputBytes :: nat
  tvOutputPreview :: string
  tvOutputRef :: string
  tvOutputTruncated :: bool
  tvOutputWarned :: bool
  tvLastInputRequest :: "inputRequest option"
  tvCreatedAt :: int
  tvStartedAt :: "int option"
  tvEndedAt :: "int option"
  tvExit :: "runnerExit option"

definition viewOf :: "taskRecord \<Rightarrow> taskView" where
  "viewOf t = \<lparr>tvId = tkId t, tvCategory = tkCategory t, tvPlacement = tkPlacement t, tvOwner = tkOwner t,
     tvToolCallId = tkToolCallId t, tvPermissionContext = tkPermissionContext t, tvStatus = tkStatus t,
     tvOutputBytes = tkOutputBytes t, tvOutputPreview = tkOutputPreview t, tvOutputRef = ''bgout_'' @ tkId t,
     tvOutputTruncated = tkOutputTruncated t, tvOutputWarned = tkOutputWarned t, tvLastInputRequest = tkLastInputRequest t,
     tvCreatedAt = tkCreatedAt t, tvStartedAt = tkStartedAt t, tvEndedAt = tkEndedAt t, tvExit = tkExit t\<rparr>"

subsection \<open>The manager\<close>

datatype runnerCall = RunnerStart string | RunnerInput string string | RunnerCancel string

datatype sinkRecord = SinkStart taskView | SinkCompletion taskView bool

record bgEnv =
  beClock :: "nat \<Rightarrow> int"
  beIds :: "string \<Rightarrow> nat \<Rightarrow> string"
  beLimit :: int
  beHardStop :: nat
  beSink :: "(sinkRecord list \<Rightarrow> sinkRecord \<Rightarrow> bool) option"

record manager =
  mgTasks :: "(string \<times> taskRecord) list"
  mgQueue :: "string list"
  mgNotifications :: notificationQueue
  mgTick :: nat
  mgCalls :: "runnerCall list"
  mgSunk :: "sinkRecord list"
  mgNotified :: "notification list"
  mgResolved :: "(nat \<times> taskView) list"

datatype bgError = UnknownTask string | NotAwaitingInput string | SinkRefused

text \<open>An operation that may throw, with the manager it leaves behind.\<close>

type_synonym 'a managed = "(bgError + 'a) \<times> manager"

definition newManager :: manager where
  "newManager = \<lparr>mgTasks = [], mgQueue = [], mgNotifications = emptyQueue, mgTick = 0, mgCalls = [], mgSunk = [],
     mgNotified = [], mgResolved = []\<rparr>"

definition tick :: "manager \<Rightarrow> manager" where
  "tick m = m\<lparr>mgTick := Suc (mgTick m)\<rparr>"

definition nowOf :: "bgEnv \<Rightarrow> manager \<Rightarrow> int" where
  "nowOf env m = beClock env (mgTick m)"

definition putTask :: "taskRecord \<Rightarrow> manager \<Rightarrow> manager" where
  "putTask t m = m\<lparr>mgTasks := AList.update (tkId t) t (mgTasks m)\<rparr>"

definition taskOf :: "manager \<Rightarrow> string \<Rightarrow> taskRecord option" where
  "taskOf m k = map_of (mgTasks m) k"

definition callRunner :: "runnerCall \<Rightarrow> manager \<Rightarrow> manager" where
  "callRunner c m = m\<lparr>mgCalls := mgCalls m @ [c]\<rparr>"

definition recordSink :: "bgEnv \<Rightarrow> sinkRecord \<Rightarrow> manager \<Rightarrow> unit managed" where
  "recordSink env r m =
     (case beSink env of
        None \<Rightarrow> (Inr (), m)
      | Some takes \<Rightarrow> if takes (mgSunk m) r then (Inr (), m\<lparr>mgSunk := mgSunk m @ [r]\<rparr>) else (Inl SinkRefused, m))"

definition notify :: "bgEnv \<Rightarrow> string \<Rightarrow> notificationKind \<Rightarrow> string \<Rightarrow> manager \<Rightarrow> manager" where
  "notify env subject kind msg m =
     (let nid = beIds env ''ntf'' (mgTick m); m1 = tick m;
          n = \<lparr>ntId = nid, ntKind = kind, ntLevel = levelOf kind, ntSubjectId = subject, ntMessage = msg, ntCreatedAt = nowOf env m1\<rparr>;
          m2 = tick m1
      in m2\<lparr>mgNotifications := enqueue n (mgNotifications m2), mgNotified := mgNotified m2 @ [n]\<rparr>)"

definition runningForeground :: "taskRecord \<Rightarrow> bool" where
  "runningForeground t \<longleftrightarrow> tkPlacement t = Foreground \<and> \<not> isTerminalStatus (tkStatus t) \<and> tkStatus t \<noteq> T_queued"

definition foregroundRunning :: "manager \<Rightarrow> nat" where
  "foregroundRunning m = length (filter (\<lambda>(_, t). runningForeground t) (mgTasks m))"

definition launch :: "bgEnv \<Rightarrow> taskRecord \<Rightarrow> manager \<Rightarrow> manager" where
  "launch env t m =
     (let m1 = callRunner (RunnerStart (tkId t)) m in
      tick (putTask (t\<lparr>tkStatus := T_running, tkStartedAt := Some (nowOf env m1), tkControl := True\<rparr>) m1))"

text \<open>\<^verbatim>\<open>#admitNext\<close> on the ids of the queue.\<close>

fun admitGo :: "bgEnv \<Rightarrow> string list \<Rightarrow> manager \<Rightarrow> manager" where
  "admitGo env [] m = m\<lparr>mgQueue := []\<rparr>"
| "admitGo env (k # ks) m =
     (if int (foregroundRunning m) < beLimit env
      then admitGo env ks
        (case taskOf m k of
           None \<Rightarrow> m
         | Some t \<Rightarrow> if tkStatus t = T_queued then launch env t m else m)
      else m\<lparr>mgQueue := k # ks\<rparr>)"

definition admitNext :: "bgEnv \<Rightarrow> manager \<Rightarrow> manager" where
  "admitNext env m = admitGo env (mgQueue m) m"

definition settledTask :: "bgEnv \<Rightarrow> bgStatus \<Rightarrow> runnerExit \<Rightarrow> taskRecord \<Rightarrow> manager \<Rightarrow> taskRecord" where
  "settledTask env st exit t m = t\<lparr>tkStatus := st, tkExit := Some exit, tkEndedAt := Some (nowOf env m), tkControl := False\<rparr>"

definition statusText :: "bgStatus \<Rightarrow> string" where
  "statusText st = (case st of T_queued \<Rightarrow> ''queued'' | T_running \<Rightarrow> ''running'' | T_awaiting_input \<Rightarrow> ''awaiting_input''
     | T_blocked \<Rightarrow> ''blocked'' | T_succeeded \<Rightarrow> ''succeeded'' | T_failed \<Rightarrow> ''failed'' | T_cancelled \<Rightarrow> ''cancelled'')"

definition settle :: "bgEnv \<Rightarrow> taskRecord \<Rightarrow> bgStatus \<Rightarrow> runnerExit \<Rightarrow> manager \<Rightarrow> unit managed" where
  "settle env t st exit m =
     (if isTerminalStatus (tkStatus t) then (Inr (), m)
      else
        let t1 = settledTask env st exit t m;
            m1 = tick (putTask t1 m);
            m2 = notify env (tkId t) (if st = T_succeeded then N_background_completion else N_task_failure)
                   (''task '' @ tkId t @ '' '' @ statusText st) m1
        in (case recordSink env (SinkCompletion (viewOf t1) (st = T_succeeded)) m2 of
              (Inl e, m3) \<Rightarrow> (Inl e, m3)
            | (Inr _, m3) \<Rightarrow>
                let m4 = putTask (t1\<lparr>tkWaiters := []\<rparr>) m3;
                    m5 = m4\<lparr>mgResolved := mgResolved m4 @ map (\<lambda>w. (w, viewOf t1)) (tkWaiters t1)\<rparr>
                in (Inr (), if tkPlacement t = Foreground then admitNext env m5 else m5)))"

subsection \<open>Operations\<close>

definition startBackground :: "bgEnv \<Rightarrow> startInput \<Rightarrow> manager \<Rightarrow> taskView managed" where
  "startBackground env input m =
     (let placement = classifyForeground (siPlacement input) (siHint input);
          k = beIds env ''bgt'' (mgTick m); m1 = tick m; now = nowOf env m1; m2 = tick m1;
          t = \<lparr>tkId = k, tkCategory = siCategory input, tkPlacement = placement, tkOwner = siOwner input,
               tkToolCallId = siToolCallId input, tkPermissionContext = siPermissionContext input, tkPayload = siPayload input,
               tkApprovalChannel = siApprovalChannel input, tkStatus = T_queued, tkControl = False, tkOutputBytes = 0,
               tkOutputPreview = [], tkOutputTruncated = False, tkOutputWarned = False, tkLastInputRequest = None,
               tkAwaitingSince = None, tkDetectedWaitSince = None, tkCreatedAt = now, tkStartedAt = None, tkEndedAt = None,
               tkExit = None, tkWaiters = []\<rparr>;
          m3 = putTask t m2
      in (case recordSink env (SinkStart (viewOf t)) m3 of
            (Inl e, m4) \<Rightarrow> (Inl e, m4)
          | (Inr _, m4) \<Rightarrow>
              let m5 = (if placement = Background \<or> int (foregroundRunning m4) < beLimit env
                        then launch env t m4 else m4\<lparr>mgQueue := mgQueue m4 @ [k]\<rparr>)
              in (Inr (viewOf (the (taskOf m5 k))), m5)))"

definition getBackground :: "manager \<Rightarrow> string \<Rightarrow> taskView option" where
  "getBackground m k = map_option viewOf (taskOf m k)"

definition listBackground :: "manager \<Rightarrow> taskView list" where
  "listBackground m = map (\<lambda>(_, t). viewOf t) (mgTasks m)"

definition provideInput :: "string \<Rightarrow> string \<Rightarrow> manager \<Rightarrow> unit managed" where
  "provideInput k v m =
     (case taskOf m k of
        None \<Rightarrow> (Inl (UnknownTask k), m)
      | Some t \<Rightarrow>
          if tkStatus t \<noteq> T_awaiting_input \<and> tkStatus t \<noteq> T_blocked then (Inl (NotAwaitingInput k), m)
          else
            let m1 = putTask (t\<lparr>tkStatus := T_running, tkAwaitingSince := None, tkDetectedWaitSince := None, tkLastInputRequest := None\<rparr>) m
            in (Inr (), if tkControl t then callRunner (RunnerInput k v) m1 else m1))"

definition stopTask :: "bgEnv \<Rightarrow> string \<Rightarrow> manager \<Rightarrow> unit managed" where
  "stopTask env k m =
     (case taskOf m k of
        None \<Rightarrow> (Inl (UnknownTask k), m)
      | Some t \<Rightarrow>
          if isTerminalStatus (tkStatus t) then (Inr (), m)
          else settle env t T_cancelled \<lparr>reOk = False, reCode = None, reReason = Some ''cancelled''\<rparr>
                 (if tkControl t then callRunner (RunnerCancel k) m else m))"

text \<open>Wait for a task under the number of the promise; a terminal task resolves it at once.\<close>

definition awaitTask :: "nat \<Rightarrow> string \<Rightarrow> manager \<Rightarrow> unit managed" where
  "awaitTask w k m =
     (case taskOf m k of
        None \<Rightarrow> (Inl (UnknownTask k), m)
      | Some t \<Rightarrow>
          if isTerminalStatus (tkStatus t) then (Inr (), m\<lparr>mgResolved := mgResolved m @ [(w, viewOf t)]\<rparr>)
          else (Inr (), putTask (t\<lparr>tkWaiters := tkWaiters t @ [w]\<rparr>) m))"

definition enterAwaitingInput :: "bgEnv \<Rightarrow> taskRecord \<Rightarrow> inputRequest \<Rightarrow> int \<Rightarrow> manager \<Rightarrow> manager" where
  "enterAwaitingInput env t request now m =
     (if isTerminalStatus (tkStatus t) then m
      else notify env (tkId t) N_input_request (''task '' @ tkId t @ '' requests input: '' @ irPrompt request)
        (putTask (t\<lparr>tkStatus := T_awaiting_input, tkAwaitingSince := Some now, tkDetectedWaitSince := None,
           tkLastInputRequest := Some request\<rparr>) m))"

definition elapsed :: "int option \<Rightarrow> int \<Rightarrow> int \<Rightarrow> bool" where
  "elapsed since now ms \<longleftrightarrow> (case since of None \<Rightarrow> False | Some t \<Rightarrow> now - t \<ge> ms)"

definition watchdog :: "bgEnv \<Rightarrow> int \<Rightarrow> string \<Rightarrow> manager \<Rightarrow> manager" where
  "watchdog env now k m =
     (let promote = (\<lambda>m. case taskOf m k of
            None \<Rightarrow> m
          | Some t \<Rightarrow>
              if tkStatus t = T_running \<and> elapsed (tkDetectedWaitSince t) now INPUT_WATCHDOG_MS
              then enterAwaitingInput env t \<lparr>irPrompt = ''input required (watchdog)'', irSecret = False\<rparr> now m
              else m);
          block = (\<lambda>m. case taskOf m k of
            None \<Rightarrow> m
          | Some t \<Rightarrow>
              if tkStatus t = T_awaiting_input \<and> \<not> tkApprovalChannel t \<and> elapsed (tkAwaitingSince t) now BLOCKED_AFTER_MS
              then notify env k N_status (''task '' @ k @ '' blocked: no input channel'') (putTask (t\<lparr>tkStatus := T_blocked\<rparr>) m)
              else m)
      in block (promote m))"

definition checkWatchdogs :: "bgEnv \<Rightarrow> int \<Rightarrow> manager \<Rightarrow> manager" where
  "checkWatchdogs env now m = fold (watchdog env now) (map fst (mgTasks m)) m"

subsection \<open>The runner's callbacks\<close>

definition previewed :: "string \<Rightarrow> taskRecord \<Rightarrow> taskRecord" where
  "previewed chunk t =
     (if length (tkOutputPreview t) < OUTPUT_PREVIEW_BYTES
      then
        let room = OUTPUT_PREVIEW_BYTES - length (tkOutputPreview t) in
        t\<lparr>tkOutputPreview := tkOutputPreview t @ take room chunk, tkOutputTruncated := (tkOutputTruncated t \<or> length chunk > room)\<rparr>
      else t\<lparr>tkOutputTruncated := True\<rparr>)"

definition onOutput :: "bgEnv \<Rightarrow> taskRecord \<Rightarrow> string \<Rightarrow> manager \<Rightarrow> unit managed" where
  "onOutput env t chunk m =
     (if isTerminalStatus (tkStatus t) then (Inr (), m)
      else
        let t1 = previewed chunk (t\<lparr>tkOutputBytes := tkOutputBytes t + length chunk\<rparr>);
            warn = \<not> tkOutputWarned t1 \<and> tkOutputBytes t1 \<ge> OUTPUT_WARN_BYTES;
            t2 = (if warn then t1\<lparr>tkOutputWarned := True\<rparr> else t1);
            m1 = putTask t2 m;
            m2 = (if warn then notify env (tkId t) N_status (''task '' @ tkId t @ '' output exceeded '' @ natStr OUTPUT_WARN_BYTES @ '' bytes'') m1
                  else m1)
        in if tkOutputBytes t2 \<ge> beHardStop env
           then settle env t2 T_failed \<lparr>reOk = False, reCode = None, reReason = Some ''output hard-stop limit exceeded''\<rparr>
                  (if tkControl t2 then callRunner (RunnerCancel (tkId t)) m2 else m2)
           else (Inr (), m2))"

definition onInputWaitDetected :: "bgEnv \<Rightarrow> taskRecord \<Rightarrow> manager \<Rightarrow> manager" where
  "onInputWaitDetected env t m =
     (if tkStatus t \<noteq> T_running \<or> tkDetectedWaitSince t \<noteq> None then m
      else tick (putTask (t\<lparr>tkDetectedWaitSince := Some (nowOf env m)\<rparr>) m))"

definition onExit :: "bgEnv \<Rightarrow> taskRecord \<Rightarrow> runnerExit \<Rightarrow> manager \<Rightarrow> unit managed" where
  "onExit env t exit m =
     (if isTerminalStatus (tkStatus t) then (Inr (), m)
      else settle env t (if reOk exit then T_succeeded else T_failed) exit m)"

end
