(* ===== verification/Background_Runs.thy ===== *)
theory Background_Runs
  imports Background_Manager "HOL-Library.Sublist"
begin

text \<open>
  Histories of the background manager: every operation of \<^verbatim>\<open>manager.ts\<close> and every callback of a runner as
  one event, and the invariant that each of them keeps.
\<close>

subsection \<open>Events\<close>

datatype bgEvent =
    EStart startInput
  | EProvide string string
  | EStop string
  | EAwait nat string
  | EWatch int
  | EDeliver
  | EOutput string string
  | EInputRequest string inputRequest
  | EWaitDetected string
  | EExit string runnerExit

text \<open>A runner calls back only on a task it was given.\<close>

definition onLaunched :: "string \<Rightarrow> (taskRecord \<Rightarrow> manager) \<Rightarrow> manager \<Rightarrow> manager" where
  "onLaunched k f m =
     (case taskOf m k of None \<Rightarrow> m | Some t \<Rightarrow> if tkStartedAt t = None then m else f t)"

fun bgStep :: "bgEnv \<Rightarrow> bgEvent \<Rightarrow> manager \<Rightarrow> manager" where
  "bgStep env (EStart input) m = snd (startBackground env input m)"
| "bgStep env (EProvide k v) m = snd (provideInput k v m)"
| "bgStep env (EStop k) m = snd (stopTask env k m)"
| "bgStep env (EAwait w k) m = snd (awaitTask w k m)"
| "bgStep env (EWatch now) m = checkWatchdogs env now m"
| "bgStep env EDeliver m = m\<lparr>mgNotifications := snd (deliver (mgNotifications m))\<rparr>"
| "bgStep env (EOutput k chunk) m = onLaunched k (\<lambda>t. snd (onOutput env t chunk m)) m"
| "bgStep env (EInputRequest k r) m = onLaunched k (\<lambda>t. enterAwaitingInput env t r (nowOf env m) (tick m)) m"
| "bgStep env (EWaitDetected k) m = onLaunched k (\<lambda>t. onInputWaitDetected env t m) m"
| "bgStep env (EExit k e) m = onLaunched k (\<lambda>t. snd (onExit env t e m)) m"

definition bgRun :: "bgEnv \<Rightarrow> bgEvent list \<Rightarrow> manager \<Rightarrow> manager" where
  "bgRun env events m = fold (bgStep env) events m"

subsection \<open>What the auxiliary operations leave alone\<close>

lemma tick_frame [simp]:
  "mgTasks (tick m) = mgTasks m" "mgQueue (tick m) = mgQueue m" "mgCalls (tick m) = mgCalls m"
  "mgNotified (tick m) = mgNotified m" "mgTick (tick m) = Suc (mgTick m)" "mgSunk (tick m) = mgSunk m"
  by (simp_all add: tick_def)

lemma callRunner_frame [simp]:
  "mgTasks (callRunner c m) = mgTasks m" "mgQueue (callRunner c m) = mgQueue m" "mgCalls (callRunner c m) = mgCalls m @ [c]"
  "mgNotified (callRunner c m) = mgNotified m" "mgTick (callRunner c m) = mgTick m" "mgSunk (callRunner c m) = mgSunk m"
  by (simp_all add: callRunner_def)

lemma putTask_frame [simp]:
  "mgTasks (putTask t m) = AList.update (tkId t) t (mgTasks m)" "mgQueue (putTask t m) = mgQueue m" "mgCalls (putTask t m) = mgCalls m"
  "mgNotified (putTask t m) = mgNotified m" "mgTick (putTask t m) = mgTick m" "mgSunk (putTask t m) = mgSunk m"
  by (simp_all add: putTask_def)

lemma notify_frame [simp]:
  "mgTasks (notify env s k msg m) = mgTasks m" "mgQueue (notify env s k msg m) = mgQueue m" "mgCalls (notify env s k msg m) = mgCalls m"
  "mgTick (notify env s k msg m) = mgTick m + 2" "mgSunk (notify env s k msg m) = mgSunk m"
  by (simp_all add: notify_def Let_def)

lemma notify_notified:
  "\<exists>n. mgNotified (notify env s k msg m) = mgNotified m @ [n] \<and> ntKind n = k \<and> ntSubjectId n = s"
  by (simp add: notify_def Let_def)

lemma recordSink_frame:
  assumes "recordSink env r m = (x, m')"
  shows "mgTasks m' = mgTasks m" "mgQueue m' = mgQueue m" "mgCalls m' = mgCalls m" "mgNotified m' = mgNotified m" "mgTick m' = mgTick m"
  using assms by (auto simp: recordSink_def split: option.splits if_splits)

text \<open>The sink never refuses a record.\<close>

definition reliable :: "bgEnv \<Rightarrow> bool" where
  "reliable env \<longleftrightarrow> (case beSink env of None \<Rightarrow> True | Some takes \<Rightarrow> \<forall>s r. takes s r)"

subsection \<open>Counting\<close>

definition countIf :: "('a \<Rightarrow> bool) \<Rightarrow> 'a list \<Rightarrow> nat" where
  "countIf P xs = length (filter P xs)"

lemma countIf_simps [simp]: "countIf P [] = 0" "countIf P (xs @ ys) = countIf P xs + countIf P ys"
  "countIf P [x] = (if P x then 1 else 0)"
  by (simp_all add: countIf_def)

text \<open>How often a runner was started for a task, and how many notifications of its end were issued.\<close>

definition startsOf :: "manager \<Rightarrow> string \<Rightarrow> nat" where
  "startsOf m k = countIf (\<lambda>c. c = RunnerStart k) (mgCalls m)"

definition endsOf :: "manager \<Rightarrow> string \<Rightarrow> nat" where
  "endsOf m k = countIf (\<lambda>n. ntSubjectId n = k \<and> ntKind n \<in> {N_background_completion, N_task_failure}) (mgNotified m)"

lemma counts_fields [simp]:
  "startsOf (m\<lparr>mgQueue := q\<rparr>) k = startsOf m k" "startsOf (m\<lparr>mgResolved := r\<rparr>) k = startsOf m k"
  "startsOf (m\<lparr>mgNotifications := ns\<rparr>) k = startsOf m k" "endsOf (m\<lparr>mgQueue := q\<rparr>) k = endsOf m k"
  "endsOf (m\<lparr>mgResolved := r\<rparr>) k = endsOf m k" "endsOf (m\<lparr>mgNotifications := ns\<rparr>) k = endsOf m k"
  by (simp_all add: startsOf_def endsOf_def)

lemma counts_frame [simp]:
  "startsOf (tick m) k = startsOf m k" "endsOf (tick m) k = endsOf m k"
  "startsOf (putTask t m) k = startsOf m k" "endsOf (putTask t m) k = endsOf m k"
  "endsOf (callRunner c m) k = endsOf m k" "startsOf (notify env s kind msg m) k = startsOf m k"
  "startsOf (callRunner c m) k = startsOf m k + (if c = RunnerStart k then 1 else 0)"
  by (simp_all add: startsOf_def endsOf_def)

lemma endsOf_notify [simp]:
  "endsOf (notify env s kind msg m) k = endsOf m k + (if s = k \<and> kind \<in> {N_background_completion, N_task_failure} then 1 else 0)"
proof -
  obtain n where "mgNotified (notify env s kind msg m) = mgNotified m @ [n]" "ntKind n = kind" "ntSubjectId n = s"
    using notify_notified by metis
  then show ?thesis by (simp add: endsOf_def)
qed

subsection \<open>Updating one task of a table\<close>

lemma filter_update:
  assumes "distinct (map fst al)" "map_of al k = Some t0"
  shows "length (filter P (AList.update k t al)) + (if P (k, t0) then 1 else 0) = length (filter P al) + (if P (k, t) then 1 else 0)"
  using assms
proof (induction al)
  case (Cons e al)
  show ?case
  proof (cases "fst e = k")
    case True
    then show ?thesis using Cons.prems by (cases e) auto
  next
    case False
    then show ?thesis using Cons by (cases e) auto
  qed
qed simp

lemma running_update:
  assumes "distinct (map fst (mgTasks m))" "taskOf m (tkId t) = Some t0"
  shows "foregroundRunning (putTask t m) + (if runningForeground t0 then 1 else 0)
    = foregroundRunning m + (if runningForeground t then 1 else 0)"
  using filter_update [of "mgTasks m" "tkId t" t0 "\<lambda>(_, t). runningForeground t" t] assms
  by (simp add: foregroundRunning_def taskOf_def)

lemma running_frame [simp]:
  "foregroundRunning (tick m) = foregroundRunning m" "foregroundRunning (callRunner c m) = foregroundRunning m"
  "foregroundRunning (notify env s k msg m) = foregroundRunning m" "foregroundRunning (m\<lparr>mgQueue := q\<rparr>) = foregroundRunning m"
  "foregroundRunning (m\<lparr>mgResolved := r\<rparr>) = foregroundRunning m" "foregroundRunning (m\<lparr>mgNotifications := ns\<rparr>) = foregroundRunning m"
  by (simp_all add: foregroundRunning_def)

lemma keys_update: "map_of al k = Some t0 \<Longrightarrow> map fst (AList.update k t al) = map fst al"
  by (induction al) auto

lemma fresh_update: "map_of al k = None \<Longrightarrow> AList.update k t al = al @ [(k, t)]"
  by (induction al) auto

lemma taskOf_frame [simp]:
  "taskOf (tick m) k = taskOf m k" "taskOf (callRunner c m) k = taskOf m k" "taskOf (notify env s kind msg m) k = taskOf m k"
  "taskOf (m\<lparr>mgQueue := q\<rparr>) k = taskOf m k" "taskOf (m\<lparr>mgResolved := r\<rparr>) k = taskOf m k" "taskOf (m\<lparr>mgNotifications := ns\<rparr>) k = taskOf m k"
  "taskOf (putTask t m) k = (if k = tkId t then Some t else taskOf m k)"
  by (simp_all add: taskOf_def update_conv')

lemma terminal_simps [simp]:
  "isTerminalStatus T_queued = False" "isTerminalStatus T_running = False" "isTerminalStatus T_awaiting_input = False"
  "isTerminalStatus T_blocked = False" "isTerminalStatus T_succeeded = True" "isTerminalStatus T_failed = True"
  "isTerminalStatus T_cancelled = True"
  by (simp_all add: isTerminalStatus_def)

subsection \<open>The invariant\<close>

text \<open>
  What holds of one task: it has an exit and an end exactly when its status is terminal, a runner to control
  exactly while it runs, no start while it is queued, a preview within its bound that is the whole output
  unless it is marked as truncated.
\<close>

definition taskOk :: "taskRecord \<Rightarrow> bool" where
  "taskOk t \<longleftrightarrow>
     (isTerminalStatus (tkStatus t) \<longleftrightarrow> tkExit t \<noteq> None) \<and>
     (isTerminalStatus (tkStatus t) \<longleftrightarrow> tkEndedAt t \<noteq> None) \<and>
     (tkControl t \<longleftrightarrow> tkStartedAt t \<noteq> None \<and> \<not> isTerminalStatus (tkStatus t)) \<and>
     (\<not> isTerminalStatus (tkStatus t) \<longrightarrow> (tkStatus t = T_queued \<longleftrightarrow> tkStartedAt t = None)) \<and>
     length (tkOutputPreview t) \<le> OUTPUT_PREVIEW_BYTES \<and>
     length (tkOutputPreview t) \<le> tkOutputBytes t \<and>
     (\<not> tkOutputTruncated t \<longrightarrow> tkOutputBytes t = length (tkOutputPreview t))"

definition entryOk :: "manager \<Rightarrow> string \<Rightarrow> bool" where
  "entryOk m k \<longleftrightarrow>
     (case taskOf m k of
        None \<Rightarrow> startsOf m k = 0 \<and> endsOf m k = 0
      | Some t \<Rightarrow> tkId t = k \<and> taskOk t \<and>
          startsOf m k = (if tkStartedAt t = None then 0 else 1) \<and>
          endsOf m k = (if isTerminalStatus (tkStatus t) then 1 else 0))"

definition idsUsed :: "bgEnv \<Rightarrow> manager \<Rightarrow> bool" where
  "idsUsed env m \<longleftrightarrow> set (map fst (mgTasks m)) \<subseteq> beIds env ''bgt'' ` {..<mgTick m}"

definition bgInv :: "bgEnv \<Rightarrow> manager \<Rightarrow> bool" where
  "bgInv env m \<longleftrightarrow>
     distinct (map fst (mgTasks m)) \<and> (\<forall>k. entryOk m k) \<and> int (foregroundRunning m) \<le> max 0 (beLimit env) \<and> idsUsed env m"

lemma bgInv_new [simp]: "bgInv env newManager"
  by (simp add: bgInv_def newManager_def entryOk_def taskOf_def startsOf_def endsOf_def foregroundRunning_def idsUsed_def)

lemma bgInv_distinct: "bgInv env m \<Longrightarrow> distinct (map fst (mgTasks m))"
  by (simp add: bgInv_def)

lemma bgInv_task:
  assumes "bgInv env m" "taskOf m k = Some t"
  shows "tkId t = k" "taskOk t" "startsOf m k = (if tkStartedAt t = None then 0 else 1)"
    "endsOf m k = (if isTerminalStatus (tkStatus t) then 1 else 0)"
proof -
  from assms(1) have "entryOk m k" by (simp add: bgInv_def)
  with assms(2) show "tkId t = k" "taskOk t" "startsOf m k = (if tkStartedAt t = None then 0 else 1)"
    "endsOf m k = (if isTerminalStatus (tkStatus t) then 1 else 0)"
    by (simp_all add: entryOk_def)
qed

lemma idsUsed_mono:
  assumes "map fst (mgTasks m') = map fst (mgTasks m)" "mgTick m \<le> mgTick m'" "idsUsed env m"
  shows "idsUsed env m'"
proof -
  have "{..<mgTick m} \<subseteq> {..<mgTick m'}" using assms(2) by (rule lessThan_subset_iff [THEN iffD2])
  then have "beIds env ''bgt'' ` {..<mgTick m} \<subseteq> beIds env ''bgt'' ` {..<mgTick m'}" by (rule image_mono)
  with assms(3) show ?thesis unfolding idsUsed_def assms(1) by (rule subset_trans)
qed

lemma entryOk_same:
  assumes "taskOf m' k = taskOf m k" "startsOf m' k = startsOf m k" "endsOf m' k = endsOf m k"
  shows "entryOk m' k = entryOk m k"
  unfolding entryOk_def assms ..

lemma bgInv_frame:
  assumes "bgInv env m" "mgTasks m' = mgTasks m" "mgTick m \<le> mgTick m'" "\<And>k. startsOf m' k = startsOf m k" "\<And>k. endsOf m' k = endsOf m k"
  shows "bgInv env m'"
proof -
  have "entryOk m' k = entryOk m k" for k using assms(2,4,5) by (intro entryOk_same) (simp_all add: taskOf_def)
  moreover have "foregroundRunning m' = foregroundRunning m" using assms(2) by (simp add: foregroundRunning_def)
  moreover have "idsUsed env m \<Longrightarrow> idsUsed env m'" by (rule idsUsed_mono [of m' m]) (use assms(2,3) in simp_all)
  ultimately show ?thesis using assms(1,2) by (simp add: bgInv_def)
qed

lemma bgInv_aux [simp]:
  assumes "bgInv env m"
  shows "bgInv env (tick m)" "bgInv env (m\<lparr>mgQueue := q\<rparr>)" "bgInv env (m\<lparr>mgResolved := r\<rparr>)" "bgInv env (m\<lparr>mgNotifications := ns\<rparr>)"
    "bgInv env (callRunner (RunnerInput k v) m)" "bgInv env (callRunner (RunnerCancel k) m)"
    "kind \<notin> {N_background_completion, N_task_failure} \<Longrightarrow> bgInv env (notify env s kind msg m)"
  by (rule bgInv_frame [OF assms]; simp)+

lemma bgInv_sink: "recordSink env r m = (x, m') \<Longrightarrow> bgInv env m \<Longrightarrow> bgInv env m'"
  by (erule bgInv_frame) (simp_all add: recordSink_frame startsOf_def endsOf_def)

text \<open>Writing a task that is in the table, with the counters that belong to its new state.\<close>

lemma bgInv_write:
  assumes inv: "bgInv env m" and t0: "taskOf m k = Some t0" and id: "tkId t = k" and ok: "taskOk t"
    and starts: "startsOf m' k = (if tkStartedAt t = None then 0 else 1)" "\<And>j. j \<noteq> k \<Longrightarrow> startsOf m' j = startsOf m j"
    and ends: "endsOf m' k = (if isTerminalStatus (tkStatus t) then 1 else 0)" "\<And>j. j \<noteq> k \<Longrightarrow> endsOf m' j = endsOf m j"
    and tasks: "mgTasks m' = AList.update k t (mgTasks m)" and tick: "mgTick m \<le> mgTick m'"
    and slot: "runningForeground t \<Longrightarrow> runningForeground t0 \<or> int (foregroundRunning m) < beLimit env"
  shows "bgInv env m'"
proof -
  have d: "distinct (map fst (mgTasks m))" using inv by (rule bgInv_distinct)
  have keys: "map fst (mgTasks m') = map fst (mgTasks m)" using t0 tasks by (simp add: taskOf_def keys_update)
  have same: "taskOf m' j = (if j = k then Some t else taskOf m j)" for j by (simp add: taskOf_def tasks update_conv')
  have "entryOk m' j" for j
  proof (cases "j = k")
    case True
    then show ?thesis using id ok starts(1) ends(1) by (simp add: entryOk_def same)
  next
    case False
    then have "entryOk m' j = entryOk m j" by (intro entryOk_same) (simp_all add: same starts(2) ends(2))
    then show ?thesis using inv by (simp add: bgInv_def)
  qed
  moreover have "foregroundRunning m' = foregroundRunning (putTask t m)" by (simp add: foregroundRunning_def tasks id)
  then have "int (foregroundRunning m') \<le> max 0 (beLimit env)"
    using running_update [OF d, of t t0] t0 id slot inv by (auto simp: bgInv_def split: if_splits)
  moreover have "idsUsed env m'" by (rule idsUsed_mono [OF keys tick]) (use inv in \<open>simp add: bgInv_def\<close>)
  ultimately show ?thesis using d keys by (simp add: bgInv_def)
qed

lemma bgInv_put:
  assumes "bgInv env m" "taskOf m (tkId t) = Some t0" "taskOk t" "tkStartedAt t = tkStartedAt t0"
    "isTerminalStatus (tkStatus t) = isTerminalStatus (tkStatus t0)" "runningForeground t \<Longrightarrow> runningForeground t0"
  shows "bgInv env (putTask t m)"
  by (rule bgInv_write [OF assms(1,2) refl assms(3)])
    (use assms bgInv_task [OF assms(1,2)] in auto)

subsection \<open>Every operation keeps it\<close>

lemma launch_inv:
  assumes "bgInv env m" "taskOf m k = Some t" "tkStatus t = T_queued" "tkPlacement t = Foreground \<Longrightarrow> int (foregroundRunning m) < beLimit env"
  shows "bgInv env (launch env t m)"
proof -
  note t = bgInv_task [OF assms(1,2)]
  let ?t = "t\<lparr>tkStatus := T_running, tkStartedAt := Some (nowOf env (callRunner (RunnerStart (tkId t)) m)), tkControl := True\<rparr>"
  have none: "tkStartedAt t = None" using t(2) assms(3) by (simp add: taskOk_def)
  have ok: "taskOk ?t" using t(2) assms(3) by (simp add: taskOk_def)
  have "bgInv env (putTask ?t (callRunner (RunnerStart (tkId t)) m))"
    by (rule bgInv_write [OF assms(1,2) _ ok]) (use t none assms(3,4) in \<open>auto simp: runningForeground_def\<close>)
  then show ?thesis by (simp add: launch_def Let_def)
qed

lemma admitGo_inv: "bgInv env m \<Longrightarrow> bgInv env (admitGo env ks m)"
proof (induction env ks m rule: admitGo.induct)
  case (2 env k ks m)
  show ?case
  proof (cases "int (foregroundRunning m) < beLimit env")
    case True
    then show ?thesis using 2 launch_inv [OF "2.prems"] by (auto split: option.split)
  qed (use 2 in simp)
qed simp

text \<open>
  What settling writes before it admits queued work: the settled task and nothing else of the table, the
  queue or the runner's calls. A sink that refuses ends the operation there.
\<close>

lemma settle_parts:
  assumes inv: "bgInv env m" and t0: "taskOf m k = Some t0" and id: "tkId t = k" and ok: "taskOk t"
    and live: "\<not> isTerminalStatus (tkStatus t)" "isTerminalStatus st"
    and same: "tkStartedAt t = tkStartedAt t0" "isTerminalStatus (tkStatus t0) = isTerminalStatus (tkStatus t)"
  obtains m5 t' where "bgInv env m5" "mgTasks m5 = AList.update k t' (mgTasks m)" "tkId t' = k" "tkPlacement t' = tkPlacement t"
    "tkStatus t' = st" "mgQueue m5 = mgQueue m" "mgCalls m5 = mgCalls m"
    "settle env t st exit m = (Inl SinkRefused, m5) \<and> beSink env \<noteq> None
       \<or> settle env t st exit m = (Inr (), if tkPlacement t = Foreground then admitNext env m5 else m5)"
    "reliable env \<Longrightarrow>
       settle env t st exit m = (Inr (), if tkPlacement t = Foreground then admitNext env m5 else m5)"
proof -
  note e = bgInv_task [OF inv t0]
  let ?t = "settledTask env st exit t m"
  have t: "tkId ?t = k" "tkPlacement ?t = tkPlacement t" "tkStatus ?t = st" using id by (simp_all add: settledTask_def)
  let ?kind = "if st = T_succeeded then N_background_completion else N_task_failure"
  have ok': "taskOk ?t" using ok live by (simp add: settledTask_def taskOk_def)
  define m2 where "m2 = notify env k ?kind (''task '' @ k @ '' '' @ statusText st) (tick (putTask ?t m))"
  have n: "bgInv env m2" unfolding m2_def
    by (rule bgInv_write [OF inv t0 t(1) ok'])
      (use e id live same in \<open>auto simp: settledTask_def runningForeground_def\<close>)
  define r where "r = SinkCompletion (viewOf ?t) (st = T_succeeded)"
  obtain x m3 where r3: "recordSink env r m2 = (x, m3)" by (cases "recordSink env r m2")
  note frame = recordSink_frame [OF r3]
  have i3: "bgInv env m3" using bgInv_sink [OF r3 n] .
  have tasks3: "mgTasks m3 = AList.update k ?t (mgTasks m)" "mgQueue m3 = mgQueue m" "mgCalls m3 = mgCalls m"
    using frame t(1) by (simp_all add: m2_def)
  show ?thesis
  proof (cases x)
    case (Inl err)
    then have "err = SinkRefused \<and> (\<exists>takes. beSink env = Some takes \<and> \<not> takes (mgSunk m2) r)"
      using r3 by (auto simp: recordSink_def split: option.splits if_splits)
    then obtain takes where "err = SinkRefused" "beSink env = Some takes" "\<not> takes (mgSunk m2) r" by metis
    moreover have "settle env t st exit m = (Inl err, m3)"
      unfolding settle_def Let_def id m2_def [symmetric] r_def [symmetric] using live(1) r3 Inl by simp
    ultimately show ?thesis using i3 tasks3 t by (intro that [of m3 ?t]) (auto simp: reliable_def)
  next
    case (Inr u)
    let ?w = "?t\<lparr>tkWaiters := []\<rparr>"
    define m5 where "m5 = (putTask ?w m3)\<lparr>mgResolved := mgResolved m3 @ map (\<lambda>w. (w, viewOf ?t)) (tkWaiters ?t)\<rparr>"
    have "taskOf m3 k = Some ?t" by (simp add: taskOf_def tasks3(1) update_conv')
    then have "bgInv env (putTask ?w m3)"
      by (intro bgInv_put [OF i3, of _ ?t]) (use t ok' in \<open>auto simp: taskOk_def runningForeground_def\<close>)
    then have i5: "bgInv env m5" by (simp add: m5_def)
    have tasks5: "mgTasks m5 = AList.update k ?w (mgTasks m)" "mgQueue m5 = mgQueue m" "mgCalls m5 = mgCalls m"
      using tasks3 t(1) by (simp_all add: m5_def)
    have "mgResolved (putTask ?w m3) = mgResolved m3" by (simp add: putTask_def)
    then have "settle env t st exit m = (Inr (), if tkPlacement t = Foreground then admitNext env m5 else m5)"
      unfolding settle_def Let_def id m2_def [symmetric] r_def [symmetric] using live(1) r3 Inr t(2) by (simp add: m5_def)
    then show ?thesis using i5 tasks5 t by (intro that [of m5 ?w]) simp_all
  qed
qed

lemma settle_inv:
  assumes "bgInv env m" "taskOf m k = Some t0" "tkId t = k" "taskOk t"
    "\<not> isTerminalStatus (tkStatus t)" "isTerminalStatus st"
    "tkStartedAt t = tkStartedAt t0" "isTerminalStatus (tkStatus t0) = isTerminalStatus (tkStatus t)"
  shows "bgInv env (snd (settle env t st exit m))"
proof -
  obtain m5 where i5: "bgInv env m5" and r: "settle env t st exit m = (Inl SinkRefused, m5) \<and> beSink env \<noteq> None
       \<or> settle env t st exit m = (Inr (), if tkPlacement t = Foreground then admitNext env m5 else m5)"
    using settle_parts [OF assms, of exit] by metis
  have "bgInv env (admitNext env m5)" using i5 by (simp add: admitNext_def admitGo_inv)
  with r i5 show ?thesis by auto
qed

text \<open>What starting writes before it launches or queues the new task.\<close>

lemma start_parts:
  assumes inv: "bgInv env m" and ids: "inj (beIds env ''bgt'')"
  obtains m4 t where "bgInv env m4" "mgTasks m4 = mgTasks m @ [(tkId t, t)]" "taskOf m (tkId t) = None" "tkStatus t = T_queued"
    "tkId t = beIds env ''bgt'' (mgTick m)" "mgQueue m4 = mgQueue m" "mgCalls m4 = mgCalls m"
    "startBackground env input m = (Inl SinkRefused, m4) \<and> beSink env \<noteq> None
      \<or> snd (startBackground env input m) = (if tkPlacement t = Background \<or> int (foregroundRunning m4) < beLimit env
           then launch env t m4 else m4\<lparr>mgQueue := mgQueue m4 @ [tkId t]\<rparr>)"
    "reliable env \<Longrightarrow>
       snd (startBackground env input m) = (if tkPlacement t = Background \<or> int (foregroundRunning m4) < beLimit env
           then launch env t m4 else m4\<lparr>mgQueue := mgQueue m4 @ [tkId t]\<rparr>)"
proof -
  let ?k = "beIds env ''bgt'' (mgTick m)"
  define t where "t = \<lparr>tkId = ?k, tkCategory = siCategory input, tkPlacement = classifyForeground (siPlacement input) (siHint input),
      tkOwner = siOwner input, tkToolCallId = siToolCallId input, tkPermissionContext = siPermissionContext input,
      tkPayload = siPayload input, tkApprovalChannel = siApprovalChannel input, tkStatus = T_queued, tkControl = False,
      tkOutputBytes = 0, tkOutputPreview = [], tkOutputTruncated = False, tkOutputWarned = False, tkLastInputRequest = None,
      tkAwaitingSince = None, tkDetectedWaitSince = None, tkCreatedAt = nowOf env (tick m), tkStartedAt = None, tkEndedAt = None,
      tkExit = None, tkWaiters = []\<rparr>"
  have t: "tkId t = ?k" "tkStatus t = T_queued" "tkStartedAt t = None" "taskOk t" by (simp_all add: t_def taskOk_def)
  have "?k \<notin> beIds env ''bgt'' ` {..<mgTick m}" using ids by (auto dest: injD)
  then have fresh: "map_of (mgTasks m) ?k = None" using inv by (auto simp: bgInv_def idsUsed_def map_of_eq_None_iff)
  let ?m = "putTask t (tick (tick m))"
  have tasks: "mgTasks ?m = mgTasks m @ [(?k, t)]" using fresh by (simp add: t(1) fresh_update)
  have "entryOk ?m j" for j
  proof (cases "j = ?k")
    case True
    have "entryOk m ?k" using inv by (simp add: bgInv_def)
    then show ?thesis using True t fresh by (simp add: entryOk_def taskOf_def update_conv')
  next
    case False
    then have "entryOk ?m j = entryOk m j" by (intro entryOk_same) (simp_all add: t(1))
    then show ?thesis using inv by (simp add: bgInv_def)
  qed
  moreover have "foregroundRunning ?m = foregroundRunning m" by (simp only: foregroundRunning_def tasks) (simp add: t(2) runningForeground_def)
  moreover have "idsUsed env ?m"
  proof -
    have "set (map fst (mgTasks m)) \<subseteq> beIds env ''bgt'' ` {..<mgTick m + 2}" using inv by (force simp: bgInv_def idsUsed_def)
    moreover have "?k \<in> beIds env ''bgt'' ` {..<mgTick m + 2}" by simp
    ultimately show ?thesis unfolding idsUsed_def tasks by simp
  qed
  moreover have "distinct (map fst (mgTasks ?m))" using inv fresh unfolding tasks by (simp add: bgInv_def map_of_eq_None_iff)
  ultimately have i3: "bgInv env ?m" using inv by (simp add: bgInv_def)
  obtain x m4 where r: "recordSink env (SinkStart (viewOf t)) ?m = (x, m4)" by (cases "recordSink env (SinkStart (viewOf t)) ?m")
  have i4: "bgInv env m4" using bgInv_sink [OF r i3] .
  have f4: "mgTasks m4 = mgTasks m @ [(tkId t, t)]" "mgQueue m4 = mgQueue m" "mgCalls m4 = mgCalls m"
    using recordSink_frame [OF r] tasks t(1) by simp_all
  have none: "taskOf m (tkId t) = None" using fresh by (simp add: taskOf_def t(1))
  show ?thesis
  proof (cases x)
    case (Inl err)
    then have "err = SinkRefused \<and> (\<exists>takes. beSink env = Some takes \<and> \<not> takes (mgSunk ?m) (SinkStart (viewOf t)))"
      using r by (auto simp: recordSink_def split: option.splits if_splits)
    then obtain takes where "err = SinkRefused" "beSink env = Some takes" "\<not> takes (mgSunk ?m) (SinkStart (viewOf t))" by metis
    moreover have "startBackground env input m = (Inl err, m4)" using r Inl unfolding startBackground_def Let_def t_def [symmetric] by simp
    ultimately show ?thesis using that [OF i4 f4(1) none t(2,1) f4(2,3)] by (auto simp: reliable_def)
  next
    case (Inr u)
    then have "snd (startBackground env input m) = (if tkPlacement t = Background \<or> int (foregroundRunning m4) < beLimit env
           then launch env t m4 else m4\<lparr>mgQueue := mgQueue m4 @ [tkId t]\<rparr>)"
      using r unfolding startBackground_def Let_def t_def [symmetric] by (simp add: t_def)
    then show ?thesis using that [OF i4 f4(1) none t(2,1) f4(2,3)] by simp
  qed
qed

lemma start_inv:
  assumes "bgInv env m" "inj (beIds env ''bgt'')"
  shows "bgInv env (snd (startBackground env input m))"
proof -
  obtain m4 t where i4: "bgInv env m4" and f4: "mgTasks m4 = mgTasks m @ [(tkId t, t)]" "taskOf m (tkId t) = None" "tkStatus t = T_queued"
    and r: "startBackground env input m = (Inl SinkRefused, m4) \<and> beSink env \<noteq> None
      \<or> snd (startBackground env input m) = (if tkPlacement t = Background \<or> int (foregroundRunning m4) < beLimit env
           then launch env t m4 else m4\<lparr>mgQueue := mgQueue m4 @ [tkId t]\<rparr>)"
    using start_parts [OF assms, of input] by metis
  have t4: "taskOf m4 (tkId t) = Some t" using f4(1,2) by (simp add: taskOf_def map_add_def)
  have "bgInv env (launch env t m4)" if "tkPlacement t = Background \<or> int (foregroundRunning m4) < beLimit env"
    by (rule launch_inv [OF i4 t4 f4(3)]) (use that in auto)
  then show ?thesis using r i4 by auto
qed

lemma enterAwaitingInput_inv:
  assumes "bgInv env m" "taskOf m k = Some t" "tkStatus t \<noteq> T_queued"
  shows "bgInv env (enterAwaitingInput env t r now m)"
proof (cases "isTerminalStatus (tkStatus t)")
  case True
  then show ?thesis using assms(1) by (simp add: enterAwaitingInput_def)
next
  case False
  note t = bgInv_task [OF assms(1,2)]
  show ?thesis unfolding enterAwaitingInput_def
    using assms False t by (auto intro!: bgInv_aux(7) bgInv_put [OF assms(1)] simp: taskOk_def runningForeground_def)
qed

lemma watchdog_inv: "bgInv env m \<Longrightarrow> bgInv env (watchdog env now k m)"
proof -
  assume inv: "bgInv env m"
  define m1 where "m1 = (case taskOf m k of
       None \<Rightarrow> m
     | Some t \<Rightarrow>
         if tkStatus t = T_running \<and> elapsed (tkDetectedWaitSince t) now INPUT_WATCHDOG_MS
         then enterAwaitingInput env t \<lparr>irPrompt = ''input required (watchdog)'', irSecret = False\<rparr> now m
         else m)"
  have i1: "bgInv env m1"
    using inv by (auto simp: m1_def intro!: enterAwaitingInput_inv split: option.split)
  have "bgInv env (notify env k N_status msg (putTask (t\<lparr>tkStatus := T_blocked\<rparr>) m1))"
    if "taskOf m1 k = Some t" "tkStatus t = T_awaiting_input" for t msg
    using that bgInv_task [OF i1 that(1)] by (auto intro!: bgInv_aux(7) bgInv_put [OF i1] simp: taskOk_def runningForeground_def)
  then show ?thesis using i1 by (simp add: watchdog_def Let_def m1_def [symmetric] split: option.split)
qed

lemma previewed_ok:
  assumes "taskOk t"
  shows "taskOk (previewed chunk (t\<lparr>tkOutputBytes := tkOutputBytes t + length chunk\<rparr>))"
  using assms by (auto simp: previewed_def taskOk_def Let_def)

lemma previewed_same [simp]:
  "tkId (previewed chunk t) = tkId t" "tkStatus (previewed chunk t) = tkStatus t" "tkStartedAt (previewed chunk t) = tkStartedAt t"
  "tkPlacement (previewed chunk t) = tkPlacement t" "tkControl (previewed chunk t) = tkControl t"
  "tkOutputBytes (previewed chunk t) = tkOutputBytes t" "tkOutputWarned (previewed chunk t) = tkOutputWarned t"
  by (simp_all add: previewed_def Let_def)

text \<open>The task after a chunk of output was counted, previewed and warned about.\<close>

definition counted :: "string \<Rightarrow> taskRecord \<Rightarrow> taskRecord" where
  "counted chunk t =
     (let t1 = previewed chunk (t\<lparr>tkOutputBytes := tkOutputBytes t + length chunk\<rparr>) in
      if \<not> tkOutputWarned t1 \<and> tkOutputBytes t1 \<ge> OUTPUT_WARN_BYTES then t1\<lparr>tkOutputWarned := True\<rparr> else t1)"

lemma counted_same [simp]:
  "tkId (counted chunk t) = tkId t" "tkStatus (counted chunk t) = tkStatus t" "tkStartedAt (counted chunk t) = tkStartedAt t"
  "tkPlacement (counted chunk t) = tkPlacement t"
  by (simp_all add: counted_def Let_def)

lemma counted_ok: "taskOk t \<Longrightarrow> taskOk (counted chunk t)"
proof -
  assume "taskOk t"
  let ?t = "previewed chunk (t\<lparr>tkOutputBytes := tkOutputBytes t + length chunk\<rparr>)"
  have "taskOk (?t\<lparr>tkOutputWarned := True\<rparr>) = taskOk ?t" by (simp add: taskOk_def)
  then show ?thesis using previewed_ok [OF \<open>taskOk t\<close>, of chunk] by (simp add: counted_def Let_def)
qed

lemma onOutput_counted:
  assumes "\<not> isTerminalStatus (tkStatus t)"
  shows "onOutput env t chunk m =
     (let t2 = counted chunk t; m1 = putTask t2 m;
          m2 = (if tkOutputWarned t2 \<and> \<not> tkOutputWarned t
                then notify env (tkId t) N_status (''task '' @ tkId t @ '' output exceeded '' @ natStr OUTPUT_WARN_BYTES @ '' bytes'') m1
                else m1)
      in if tkOutputBytes t2 \<ge> beHardStop env
         then settle env t2 T_failed \<lparr>reOk = False, reCode = None, reReason = Some ''output hard-stop limit exceeded''\<rparr>
                (if tkControl t2 then callRunner (RunnerCancel (tkId t)) m2 else m2)
         else (Inr (), m2))"
  using assms by (simp add: onOutput_def counted_def Let_def)

lemma onOutput_inv:
  assumes inv: "bgInv env m" and t0: "taskOf m k = Some t"
  shows "bgInv env (snd (onOutput env t chunk m))"
proof (cases "isTerminalStatus (tkStatus t)")
  case True
  then show ?thesis using inv by (simp add: onOutput_def)
next
  case False
  note e = bgInv_task [OF inv t0]
  define t2 where "t2 = counted chunk t"
  have ok2: "taskOk t2" unfolding t2_def using e(2) by (rule counted_ok)
  have s: "tkId t2 = k" "tkStatus t2 = tkStatus t" "tkStartedAt t2 = tkStartedAt t" "runningForeground t2 = runningForeground t"
    using e(1) by (simp_all add: t2_def runningForeground_def)
  have i1: "bgInv env (putTask t2 m)"
    by (rule bgInv_put [OF inv]) (use s ok2 t0 in auto)
  have n: "bgInv env (notify env (tkId t) N_status msg (putTask t2 m))" for msg using i1 by simp
  have stop: "bgInv env (snd (settle env t2 T_failed x m2))"
    "bgInv env (snd (settle env t2 T_failed x (callRunner (RunnerCancel j) m2)))"
    if "bgInv env m2" "taskOf m2 k = Some t2" for x m2 j
    by (rule settle_inv [of env _ k t2]; use that s ok2 False in simp)+
  show ?thesis using False i1 n stop s(1)
    unfolding onOutput_counted [OF False] Let_def t2_def [symmetric] by auto
qed

lemma settle_live_inv:
  assumes "bgInv env m" "taskOf m k = Some t" "\<not> isTerminalStatus (tkStatus t)" "isTerminalStatus st"
  shows "bgInv env (snd (settle env t st exit m))"
  by (rule settle_inv [OF assms(1,2) bgInv_task(1,2) [OF assms(1,2)] assms(3,4) refl refl])

theorem bgStep_inv:
  assumes inv: "bgInv env m" and ids: "inj (beIds env ''bgt'')"
  shows "bgInv env (bgStep env e m)"
proof (cases e)
  case (EStart input)
  then show ?thesis using start_inv [OF inv ids] by simp
next
  case (EProvide k v)
  have "bgInv env (putTask (t\<lparr>tkStatus := T_running, tkAwaitingSince := None, tkDetectedWaitSince := None, tkLastInputRequest := None\<rparr>) m)"
    if "taskOf m k = Some t" "tkStatus t = T_awaiting_input \<or> tkStatus t = T_blocked" for t
    using that bgInv_task [OF inv that(1)] by (auto intro!: bgInv_put [OF inv] simp: taskOk_def runningForeground_def)
  then show ?thesis using inv EProvide by (auto simp: provideInput_def Let_def split: option.split)
next
  case (EStop k)
  have "bgInv env (snd (settle env t T_cancelled x m))" "bgInv env (snd (settle env t T_cancelled x (callRunner (RunnerCancel k) m)))"
    if "taskOf m k = Some t" "\<not> isTerminalStatus (tkStatus t)" for t x
    by (rule settle_live_inv [of env _ k]; use inv that in simp)+
  then show ?thesis using inv EStop by (simp add: stopTask_def split: option.split)
next
  case (EAwait w k)
  have "bgInv env (putTask (t\<lparr>tkWaiters := tkWaiters t @ [w]\<rparr>) m)" if "taskOf m k = Some t" for t
    using that bgInv_task [OF inv that(1)] by (auto intro!: bgInv_put [OF inv] simp: taskOk_def runningForeground_def)
  then show ?thesis using inv EAwait by (simp add: awaitTask_def split: option.split)
next
  case (EWatch now)
  have "bgInv env m \<Longrightarrow> bgInv env (fold (watchdog env now) ks m)" for ks m
    by (induction ks arbitrary: m) (simp_all add: watchdog_inv)
  then show ?thesis using inv EWatch by (simp add: checkWatchdogs_def)
next
  case (EOutput k c)
  then show ?thesis using inv onOutput_inv [OF inv] by (simp add: onLaunched_def split: option.split)
next
  case (EInputRequest k r)
  have "bgInv env (enterAwaitingInput env t r (nowOf env m) (tick m))" if "taskOf m k = Some t" "tkStartedAt t \<noteq> None" for t
    by (rule enterAwaitingInput_inv [of env _ k]) (use inv that bgInv_task [OF inv that(1)] in \<open>auto simp: taskOk_def\<close>)
  then show ?thesis using inv EInputRequest by (simp add: onLaunched_def split: option.split)
next
  case (EWaitDetected k)
  have "bgInv env (putTask (t\<lparr>tkDetectedWaitSince := Some (nowOf env m)\<rparr>) m)" if "taskOf m k = Some t" for t
    using that bgInv_task [OF inv that(1)] by (auto intro!: bgInv_put [OF inv] simp: taskOk_def runningForeground_def)
  then show ?thesis using inv EWaitDetected by (simp add: onLaunched_def onInputWaitDetected_def split: option.split)
next
  case (EExit k x)
  then show ?thesis using inv settle_live_inv [OF inv] by (simp add: onLaunched_def onExit_def split: option.split)
qed (use inv in simp)

lemma bgRun_inv: "bgInv env m \<Longrightarrow> inj (beIds env ''bgt'') \<Longrightarrow> bgInv env (bgRun env es m)"
  by (induction es arbitrary: m) (simp_all add: bgRun_def bgStep_inv)

end
