(* ===== verification/Background_Theorems.thy ===== *)
theory Background_Theorems
  imports Background_Runs
begin

text \<open>
  What the background manager guarantees: each task is started and ended once, the slots for
  foreground work are never exceeded, never idle while work is queued, and given out in the order of creation;
  and what it does not guarantee when its durable sink refuses a record.
\<close>

subsection \<open>The queue of foreground work\<close>

definition isForeground :: "manager \<Rightarrow> string \<Rightarrow> bool" where
  "isForeground m k \<longleftrightarrow> (case taskOf m k of None \<Rightarrow> False | Some t \<Rightarrow> tkPlacement t = Foreground)"

definition startedIds :: "manager \<Rightarrow> string list" where
  "startedIds m = concat (map (\<lambda>c. case c of RunnerStart k \<Rightarrow> [k] | _ \<Rightarrow> []) (mgCalls m))"

definition foregroundStarts :: "manager \<Rightarrow> string list" where
  "foregroundStarts m = filter (isForeground m) (startedIds m)"

text \<open>Started and queued foreground work in the order of creation, and every queued task in the queue.\<close>

definition inOrder :: "string list \<Rightarrow> manager \<Rightarrow> bool" where
  "inOrder ks m \<longleftrightarrow> subseq (foregroundStarts m @ ks) (map fst (mgTasks m))"

definition allWait :: "string list \<Rightarrow> manager \<Rightarrow> bool" where
  "allWait ks m \<longleftrightarrow> (\<forall>k t. taskOf m k = Some t \<longrightarrow> tkStatus t = T_queued \<longrightarrow> k \<in> set ks \<and> tkPlacement t = Foreground) \<and>
     (\<forall>k\<in>set ks. isForeground m k)"

definition noIdle :: "bgEnv \<Rightarrow> manager \<Rightarrow> bool" where
  "noIdle env m \<longleftrightarrow> mgQueue m = [] \<or> beLimit env \<le> int (foregroundRunning m)"

definition queueInv :: "bgEnv \<Rightarrow> manager \<Rightarrow> bool" where
  "queueInv env m \<longleftrightarrow> inOrder (mgQueue m) m \<and> allWait (mgQueue m) m \<and> noIdle env m"

lemma startedIds_simps [simp]:
  "startedIds (tick m) = startedIds m" "startedIds (putTask t m) = startedIds m" "startedIds (notify env s kind msg m) = startedIds m"
  "startedIds (m\<lparr>mgQueue := q\<rparr>) = startedIds m" "startedIds (m\<lparr>mgResolved := r\<rparr>) = startedIds m"
  "startedIds (m\<lparr>mgNotifications := ns\<rparr>) = startedIds m"
  "startedIds (callRunner c m) = startedIds m @ (case c of RunnerStart k \<Rightarrow> [k] | _ \<Rightarrow> [])"
  by (simp_all add: startedIds_def)

lemma isForeground_same:
  assumes "\<And>k. map_option tkPlacement (taskOf m' k) = map_option tkPlacement (taskOf m k)"
  shows "isForeground m' = isForeground m"
proof
  fix k
  show "isForeground m' k = isForeground m k"
    using assms [of k] by (cases "taskOf m k"; cases "taskOf m' k") (simp_all add: isForeground_def)
qed

lemma queue_frame:
  assumes "mgTasks m' = mgTasks m" "startedIds m' = startedIds m"
  shows "inOrder ks m' = inOrder ks m" "allWait ks m' = allWait ks m" "foregroundRunning m' = foregroundRunning m"
proof -
  have same: "taskOf m' k = taskOf m k" for k using assms(1) by (simp add: taskOf_def)
  then have fg: "isForeground m' = isForeground m" by (intro isForeground_same) simp
  with assms(2) have "foregroundStarts m' = foregroundStarts m" by (simp add: foregroundStarts_def)
  then show "inOrder ks m' = inOrder ks m" "allWait ks m' = allWait ks m" "foregroundRunning m' = foregroundRunning m"
    using assms(1) same fg by (simp_all add: inOrder_def allWait_def foregroundRunning_def)
qed

lemma queue_update [simp]:
  "inOrder ks (m\<lparr>mgQueue := q\<rparr>) = inOrder ks m" "allWait ks (m\<lparr>mgQueue := q\<rparr>) = allWait ks m"
  by (rule queue_frame; simp)+

lemma queueInv_frame:
  assumes "queueInv env m" "mgTasks m' = mgTasks m" "startedIds m' = startedIds m" "mgQueue m' = mgQueue m"
  shows "queueInv env m'"
  using assms(1,4) unfolding queueInv_def noIdle_def by (simp add: queue_frame [OF assms(2,3)])

lemma queueInv_aux [simp]:
  assumes "queueInv env m"
  shows "queueInv env (tick m)" "queueInv env (m\<lparr>mgResolved := r\<rparr>)" "queueInv env (m\<lparr>mgNotifications := ns\<rparr>)"
    "queueInv env (callRunner (RunnerInput k v) m)" "queueInv env (callRunner (RunnerCancel k) m)" "queueInv env (notify env s kind msg m)"
  by (rule queueInv_frame [OF assms]; simp)+

text \<open>Writing a task that keeps its placement and does not go back into the queue.\<close>

lemma put_queue:
  assumes "taskOf m (tkId t) = Some t0" "tkPlacement t = tkPlacement t0" "tkStatus t = T_queued \<Longrightarrow> tkStatus t0 = T_queued"
  shows "inOrder ks (putTask t m) = inOrder ks m" "allWait ks m \<Longrightarrow> allWait ks (putTask t m)"
proof -
  have fg: "isForeground (putTask t m) = isForeground m" by (rule isForeground_same) (use assms(1,2) in simp)
  have "map fst (mgTasks (putTask t m)) = map fst (mgTasks m)" using assms(1) by (simp add: taskOf_def keys_update)
  then show "inOrder ks (putTask t m) = inOrder ks m" by (simp add: inOrder_def foregroundStarts_def fg)
  show "allWait ks m \<Longrightarrow> allWait ks (putTask t m)" using assms by (auto simp: allWait_def fg)
qed

lemma put_queueInv:
  assumes inv: "bgInv env m" and q: "queueInv env m" and "taskOf m (tkId t) = Some t0" "tkPlacement t = tkPlacement t0"
    "tkStatus t = T_queued \<Longrightarrow> tkStatus t0 = T_queued" "runningForeground t = runningForeground t0"
  shows "queueInv env (putTask t m)"
proof -
  have "foregroundRunning (putTask t m) = foregroundRunning m"
    using running_update [OF bgInv_distinct [OF inv] assms(3)] assms(6) by simp
  then show ?thesis using q put_queue [OF assms(3-5)] by (simp add: queueInv_def noIdle_def)
qed

subsection \<open>Starting queued work\<close>

lemma launch_frame: "mgQueue (launch env t m) = mgQueue m" "map_of (mgTasks m) (tkId t) = Some t' \<Longrightarrow> map fst (mgTasks (launch env t m)) = map fst (mgTasks m)"
  by (simp_all add: launch_def Let_def keys_update)

lemma launch_queue:
  assumes "taskOf m k = Some t" "tkId t = k" "tkPlacement t = Foreground" "inOrder (k # ks) m" "allWait (k # ks) m"
  shows "inOrder ks (launch env t m)" "allWait ks (launch env t m)"
proof -
  let ?t = "t\<lparr>tkStatus := T_running, tkStartedAt := Some (nowOf env (callRunner (RunnerStart k) m)), tkControl := True\<rparr>"
  have l: "launch env t m = tick (putTask ?t (callRunner (RunnerStart k) m))" by (simp add: launch_def Let_def assms(2))
  have t: "taskOf (launch env t m) j = (if j = k then Some ?t else taskOf m j)" for j by (simp add: l assms(2))
  have fg: "isForeground (launch env t m) = isForeground m" by (rule isForeground_same) (use assms(1) in \<open>simp add: t\<close>)
  have "foregroundStarts (launch env t m) = foregroundStarts m @ [k]"
    using assms(1,3) by (simp add: foregroundStarts_def fg) (simp add: l isForeground_def)
  then show "inOrder ks (launch env t m)" using assms(1,2,4) launch_frame(2) [of m t t] by (simp add: inOrder_def taskOf_def)
  show "allWait ks (launch env t m)" using assms(5) by (fastforce simp: allWait_def fg t)
qed

lemma inOrder_drop: "inOrder (k # ks) m \<Longrightarrow> inOrder ks m"
proof -
  have "subseq (foregroundStarts m @ ks) (foregroundStarts m @ k # ks)"
    by (rule list_emb_append_mono) (auto intro: list_emb_Cons)
  then show "inOrder (k # ks) m \<Longrightarrow> inOrder ks m" unfolding inOrder_def by (rule subseq_order.trans)
qed

lemma allWait_drop: "allWait (k # ks) m \<Longrightarrow> (\<And>t. taskOf m k = Some t \<Longrightarrow> tkStatus t \<noteq> T_queued) \<Longrightarrow> allWait ks m"
  by (auto simp: allWait_def)

lemma admitGo_queue: "bgInv env m \<Longrightarrow> inOrder ks m \<Longrightarrow> allWait ks m \<Longrightarrow> queueInv env (admitGo env ks m)"
proof (induction env ks m rule: admitGo.induct)
  case (1 env m)
  then show ?case by (simp add: queueInv_def noIdle_def)
next
  case (2 env k ks m)
  show ?case
  proof (cases "int (foregroundRunning m) < beLimit env")
    case True
    let ?m = "case taskOf m k of None \<Rightarrow> m | Some t \<Rightarrow> if tkStatus t = T_queued then launch env t m else m"
    have "bgInv env ?m \<and> inOrder ks ?m \<and> allWait ks ?m"
    proof (cases "taskOf m k")
      case None
      then show ?thesis using 2 inOrder_drop [of k ks m] allWait_drop [of k ks m] by simp
    next
      case (Some t)
      show ?thesis
      proof (cases "tkStatus t = T_queued")
        case queued: True
        have "tkPlacement t = Foreground" using "2.prems"(3) Some queued by (auto simp: allWait_def)
        then show ?thesis
          using queued Some launch_inv [OF "2.prems"(1) Some queued] True
            launch_queue [OF Some bgInv_task(1) [OF "2.prems"(1) Some] _ "2.prems"(2,3)] by simp
      next
        case False
        then show ?thesis using Some 2 inOrder_drop [of k ks m] allWait_drop [of k ks m] by simp
      qed
    qed
    then show ?thesis using True "2.IH" by simp
  next
    case False
    then show ?thesis using 2 by (simp add: queueInv_def noIdle_def)
  qed
qed

subsection \<open>Every operation keeps the queue in order\<close>

lemma startedIds_calls: "mgCalls m' = mgCalls m \<Longrightarrow> startedIds m' = startedIds m"
  by (simp add: startedIds_def)

lemma settle_queue:
  assumes inv: "bgInv env m" and q: "queueInv env m" and rel: "reliable env" and t0: "taskOf m k = Some t0"
    and id: "tkId t = k" and ok: "taskOk t" and live: "\<not> isTerminalStatus (tkStatus t)" "isTerminalStatus st"
    and same: "tkStartedAt t = tkStartedAt t0" "isTerminalStatus (tkStatus t0) = isTerminalStatus (tkStatus t)" "tkPlacement t = tkPlacement t0"
  shows "queueInv env (snd (settle env t st exit m))"
proof -
  obtain m5 t' where m5: "bgInv env m5" "mgTasks m5 = AList.update k t' (mgTasks m)" "tkId t' = k" "tkPlacement t' = tkPlacement t"
    "tkStatus t' = st" "mgQueue m5 = mgQueue m" "mgCalls m5 = mgCalls m"
    and r: "reliable env \<Longrightarrow>
       settle env t st exit m = (Inr (), if tkPlacement t = Foreground then admitNext env m5 else m5)"
    using settle_parts [OF inv t0 id ok live same(1,2), of exit] by metis
  have s: "snd (settle env t st exit m) = (if tkPlacement t = Foreground then admitNext env m5 else m5)"
    using r [OF rel] by simp
  have st: "st \<noteq> T_queued" using live(2) by auto
  have m5': "mgTasks m5 = mgTasks (putTask t' m)" "startedIds m5 = startedIds (putTask t' m)" "mgQueue m5 = mgQueue (putTask t' m)"
    using m5 startedIds_calls [OF m5(7)] by simp_all
  have put: "taskOf m (tkId t') = Some t0" "tkPlacement t' = tkPlacement t0" "tkStatus t' = T_queued \<Longrightarrow> tkStatus t0 = T_queued"
    using t0 m5 same(3) st by simp_all
  show ?thesis
  proof (cases "tkPlacement t = Foreground")
    case True
    have "inOrder (mgQueue m) m5" "allWait (mgQueue m) m5"
      using q put_queue [OF put] queue_frame [OF m5'(1,2)] by (simp_all add: queueInv_def)
    then show ?thesis using True s m5(1,6) by (simp add: admitNext_def admitGo_queue)
  next
    case False
    then have "runningForeground t' = runningForeground t0" using m5(4) same(3) by (simp add: runningForeground_def)
    then have "queueInv env (putTask t' m)" using put_queueInv [OF inv q put] by simp
    then show ?thesis using False s queueInv_frame [OF _ m5'] by simp
  qed
qed

lemma settle_live_queue:
  assumes "bgInv env m" "queueInv env m" "reliable env" "taskOf m k = Some t" "\<not> isTerminalStatus (tkStatus t)" "isTerminalStatus st"
  shows "queueInv env (snd (settle env t st exit m))"
  by (rule settle_queue [OF assms(1-4) bgInv_task(1,2) [OF assms(1,4)] assms(5,6) refl refl refl])

lemma enterAwaitingInput_queue:
  assumes "bgInv env m" "queueInv env m" "taskOf m k = Some t" "tkStatus t \<noteq> T_queued"
  shows "queueInv env (enterAwaitingInput env t r now m)"
proof (cases "isTerminalStatus (tkStatus t)")
  case True
  then show ?thesis using assms(2) by (simp add: enterAwaitingInput_def)
next
  case False
  let ?t = "t\<lparr>tkStatus := T_awaiting_input, tkAwaitingSince := Some now, tkDetectedWaitSince := None, tkLastInputRequest := Some r\<rparr>"
  have "queueInv env (putTask ?t m)"
    by (rule put_queueInv [OF assms(1,2), of _ t])
      (use assms False bgInv_task(1) [OF assms(1,3)] in \<open>simp_all add: runningForeground_def\<close>)
  then show ?thesis using False by (simp add: enterAwaitingInput_def)
qed

lemma watchdog_queue:
  assumes inv: "bgInv env m" and q: "queueInv env m"
  shows "queueInv env (watchdog env now k m)"
proof -
  define m1 where "m1 = (case taskOf m k of
       None \<Rightarrow> m
     | Some t \<Rightarrow>
         if tkStatus t = T_running \<and> elapsed (tkDetectedWaitSince t) now INPUT_WATCHDOG_MS
         then enterAwaitingInput env t \<lparr>irPrompt = ''input required (watchdog)'', irSecret = False\<rparr> now m
         else m)"
  have q1: "queueInv env m1" and i1: "bgInv env m1"
    using inv q by (auto simp: m1_def intro!: enterAwaitingInput_queue enterAwaitingInput_inv split: option.split)
  have "queueInv env (putTask (t\<lparr>tkStatus := T_blocked\<rparr>) m1)"
    if "taskOf m1 k = Some t" "tkStatus t = T_awaiting_input" for t
    by (rule put_queueInv [OF i1 q1, of _ t]) (use that bgInv_task(1) [OF i1 that(1)] in \<open>simp_all add: runningForeground_def\<close>)
  then show ?thesis using q1 by (simp add: watchdog_def Let_def m1_def [symmetric] split: option.split)
qed

lemma onOutput_queue:
  assumes inv: "bgInv env m" and q: "queueInv env m" and rel: "reliable env" and t0: "taskOf m k = Some t"
  shows "queueInv env (snd (onOutput env t chunk m))"
proof (cases "isTerminalStatus (tkStatus t)")
  case True
  then show ?thesis using q by (simp add: onOutput_def)
next
  case False
  note e = bgInv_task [OF inv t0]
  define t2 where "t2 = counted chunk t"
  have ok2: "taskOk t2" unfolding t2_def using e(2) by (rule counted_ok)
  have s: "tkId t2 = k" "tkStatus t2 = tkStatus t" "tkStartedAt t2 = tkStartedAt t" "runningForeground t2 = runningForeground t"
    "tkPlacement t2 = tkPlacement t"
    using e(1) by (simp_all add: t2_def runningForeground_def)
  have q1: "queueInv env (putTask t2 m)" by (rule put_queueInv [OF inv q]) (use s t0 in auto)
  have i1: "bgInv env (putTask t2 m)" by (rule bgInv_put [OF inv]) (use s ok2 t0 in auto)
  have n: "queueInv env (notify env (tkId t) N_status msg (putTask t2 m))" "bgInv env (notify env (tkId t) N_status msg (putTask t2 m))" for msg
    using q1 i1 by simp_all
  have stop: "queueInv env (snd (settle env t2 T_failed x m2))"
    "queueInv env (snd (settle env t2 T_failed x (callRunner (RunnerCancel j) m2)))"
    if "bgInv env m2" "queueInv env m2" "taskOf m2 k = Some t2" for x m2 j
    by (rule settle_queue [of env _ k t2]; use that rel s ok2 False in simp)+
  show ?thesis using False q1 i1 n stop s(1)
    unfolding onOutput_counted [OF False] Let_def t2_def [symmetric] by auto
qed


lemma subseq_snoc: "subseq (xs @ ys) zs \<Longrightarrow> subseq (xs @ ys @ [z]) (zs @ [z])"
  using list_emb_append_mono [of "(=)" "xs @ ys" zs "[z]" "[z]"] by simp

lemma start_queue:
  assumes inv: "bgInv env m" and q: "queueInv env m" and rel: "reliable env" and ids: "inj (beIds env ''bgt'')"
  shows "queueInv env (snd (startBackground env input m))"
proof -
  obtain m4 t where i4: "bgInv env m4" and f4: "mgTasks m4 = mgTasks m @ [(tkId t, t)]" "taskOf m (tkId t) = None" "tkStatus t = T_queued"
      "mgQueue m4 = mgQueue m" "mgCalls m4 = mgCalls m"
    and r: "reliable env \<Longrightarrow> snd (startBackground env input m) = (if tkPlacement t = Background \<or> int (foregroundRunning m4) < beLimit env
           then launch env t m4 else m4\<lparr>mgQueue := mgQueue m4 @ [tkId t]\<rparr>)"
    using start_parts [OF inv ids, of input] by metis
  let ?k = "tkId t"
  have t4: "taskOf m4 j = (if j = ?k then Some t else taskOf m j)" for j
    using f4(1,2) by (simp add: taskOf_def map_add_def split: option.split)
  have fr: "foregroundRunning m4 = foregroundRunning m" by (simp add: foregroundRunning_def f4(1,3) runningForeground_def)
  have s4: "startedIds m4 = startedIds m" using f4(5) by (rule startedIds_calls)
  have "entryOk m ?k" using inv by (simp add: bgInv_def)
  then have "startsOf m ?k = 0" using f4(2) by (simp add: entryOk_def)
  then have new: "?k \<notin> set (startedIds m)"
    by (auto simp: startsOf_def startedIds_def countIf_def filter_empty_conv split: runnerCall.splits)
  have fg: "isForeground m4 j = (if j = ?k then tkPlacement t = Foreground else isForeground m j)" for j
    by (simp add: isForeground_def t4)
  have fs: "foregroundStarts m4 = foregroundStarts m" unfolding foregroundStarts_def s4
    by (rule filter_cong [OF refl]) (use new in \<open>auto simp: fg\<close>)
  have order: "subseq (foregroundStarts m4 @ mgQueue m) (map fst (mgTasks m))" using q by (simp add: queueInv_def inOrder_def fs)
  have notin: "?k \<notin> set (mgQueue m)" using q f4(2) by (auto simp: queueInv_def allWait_def isForeground_def)
  have wait: "allWait (mgQueue m @ [?k]) m4" if "tkPlacement t = Foreground"
    using q that by (auto simp: queueInv_def allWait_def t4 fg)
  show ?thesis
  proof (cases "tkPlacement t = Background")
    case bg: True
    have l: "mgTasks (launch env t m4) = AList.update ?k (t\<lparr>tkStatus := T_running, tkStartedAt := Some (nowOf env (callRunner (RunnerStart ?k) m4)), tkControl := True\<rparr>) (mgTasks m4)"
      "startedIds (launch env t m4) = startedIds m4 @ [?k]" "mgQueue (launch env t m4) = mgQueue m"
      using f4(4) by (simp_all add: launch_def Let_def)
    have tl: "taskOf (launch env t m4) j = (if j = ?k then Some (t\<lparr>tkStatus := T_running, tkStartedAt := Some (nowOf env (callRunner (RunnerStart ?k) m4)), tkControl := True\<rparr>) else taskOf m j)" for j
      by (simp add: taskOf_def l(1) update_conv' t4 [unfolded taskOf_def])
    have fgl: "isForeground (launch env t m4) = isForeground m4" by (rule isForeground_same) (simp add: tl t4)
    have "foregroundStarts (launch env t m4) = foregroundStarts m4" using bg by (simp add: foregroundStarts_def fgl l(2) fg)
    moreover have "map fst (mgTasks (launch env t m4)) = map fst (mgTasks m) @ [?k]"
      using launch_frame(2) [of m4 t t env] t4 [of ?k] by (simp add: taskOf_def f4(1))
    ultimately have "inOrder (mgQueue m) (launch env t m4)" 
      using list_emb_append_mono [OF order, of "[]" "[?k]"] by (simp add: inOrder_def)
    moreover have "allWait (mgQueue m) (launch env t m4)" using q bg notin by (auto simp: queueInv_def allWait_def tl fgl fg)
    moreover have "foregroundRunning (launch env t m4) = foregroundRunning m4"
      using running_update [OF bgInv_distinct [OF i4], of "t\<lparr>tkStatus := T_running, tkStartedAt := Some (nowOf env (callRunner (RunnerStart ?k) m4)), tkControl := True\<rparr>" t] bg t4 [of ?k]
      by (simp add: launch_def Let_def runningForeground_def foregroundRunning_def)
    ultimately show ?thesis using r [OF rel] bg q fr by (simp add: queueInv_def noIdle_def l(3))
  next
    case False
    then have place: "tkPlacement t = Foreground" by (cases "tkPlacement t") simp_all
    have order': "inOrder (mgQueue m @ [?k]) m4" using subseq_snoc [OF order] by (simp add: inOrder_def f4(1))
    show ?thesis
    proof (cases "int (foregroundRunning m4) < beLimit env")
      case True
      then have empty: "mgQueue m = []" using q fr by (simp add: queueInv_def noIdle_def)
      then show ?thesis
        using r [OF rel] True f4(4) launch_queue [of m4 ?k t "[]" env, OF _ refl place] t4 [of ?k] order' wait [OF place]
        by (simp add: queueInv_def noIdle_def launch_frame(1))
    next
      case False
      then show ?thesis using r [OF rel] place order' wait [OF place] f4(4) fr by (simp add: queueInv_def noIdle_def)
    qed
  qed
qed

lemma bgStep_queue:
  assumes inv: "bgInv env m" and q: "queueInv env m" and rel: "reliable env" and ids: "inj (beIds env ''bgt'')"
  shows "queueInv env (bgStep env e m)"
proof (cases e)
  case (EStart input)
  then show ?thesis using start_queue [OF inv q rel ids] by simp
next
  case (EProvide k v)
  have "queueInv env (putTask (t\<lparr>tkStatus := T_running, tkAwaitingSince := None, tkDetectedWaitSince := None, tkLastInputRequest := None\<rparr>) m)"
    if "taskOf m k = Some t" "tkStatus t = T_awaiting_input \<or> tkStatus t = T_blocked" for t
    by (rule put_queueInv [OF inv q, of _ t]) (use that bgInv_task(1) [OF inv that(1)] in \<open>auto simp: runningForeground_def\<close>)
  then show ?thesis using q EProvide by (auto simp: provideInput_def Let_def split: option.split)
next
  case (EStop k)
  have "queueInv env (snd (settle env t T_cancelled x m))" "queueInv env (snd (settle env t T_cancelled x (callRunner (RunnerCancel k) m)))"
    if "taskOf m k = Some t" "\<not> isTerminalStatus (tkStatus t)" for t x
    by (rule settle_live_queue [of env _ k]; use inv q rel that in simp)+
  then show ?thesis using q EStop by (simp add: stopTask_def split: option.split)
next
  case (EAwait w k)
  have "queueInv env (putTask (t\<lparr>tkWaiters := tkWaiters t @ [w]\<rparr>) m)" if "taskOf m k = Some t" for t
    by (rule put_queueInv [OF inv q, of _ t]) (use that bgInv_task(1) [OF inv that] in \<open>auto simp: runningForeground_def\<close>)
  then show ?thesis using q EAwait by (simp add: awaitTask_def split: option.split)
next
  case (EWatch now)
  have "bgInv env m \<Longrightarrow> queueInv env m \<Longrightarrow> queueInv env (fold (watchdog env now) ks m)" for ks m
    by (induction ks arbitrary: m) (simp_all add: watchdog_inv watchdog_queue)
  then show ?thesis using inv q EWatch by (simp add: checkWatchdogs_def)
next
  case (EOutput k c)
  then show ?thesis using q onOutput_queue [OF inv q rel] by (simp add: onLaunched_def split: option.split)
next
  case (EInputRequest k r)
  have "queueInv env (enterAwaitingInput env t r (nowOf env m) (tick m))" if "taskOf m k = Some t" "tkStartedAt t \<noteq> None" for t
    by (rule enterAwaitingInput_queue [of env _ k]) (use inv q that bgInv_task(2) [OF inv that(1)] in \<open>auto simp: taskOk_def\<close>)
  then show ?thesis using q EInputRequest by (simp add: onLaunched_def split: option.split)
next
  case (EWaitDetected k)
  have "queueInv env (putTask (t\<lparr>tkDetectedWaitSince := Some (nowOf env m)\<rparr>) m)" if "taskOf m k = Some t" for t
    by (rule put_queueInv [OF inv q, of _ t]) (use that bgInv_task(1) [OF inv that] in \<open>auto simp: runningForeground_def\<close>)
  then show ?thesis using q EWaitDetected by (simp add: onLaunched_def onInputWaitDetected_def split: option.split)
next
  case (EExit k x)
  then show ?thesis using q settle_live_queue [OF inv q rel] by (simp add: onLaunched_def onExit_def split: option.split)
qed (use q in simp)

lemma bgRun_queue:
  "bgInv env m \<Longrightarrow> queueInv env m \<Longrightarrow> reliable env \<Longrightarrow> inj (beIds env ''bgt'') \<Longrightarrow> queueInv env (bgRun env es m)"
  by (induction es arbitrary: m) (simp_all add: bgRun_def bgStep_queue bgStep_inv)

lemma queueInv_new [simp]: "queueInv env newManager"
  by (simp add: queueInv_def newManager_def inOrder_def allWait_def noIdle_def foregroundStarts_def startedIds_def taskOf_def)


subsection \<open>A task that ended\<close>

lemma launch_other: "tkId t \<noteq> k \<Longrightarrow> taskOf (launch env t m) k = taskOf m k"
  by (simp add: launch_def Let_def)

lemma admitGo_keeps:
  assumes "taskOf m k = Some t" "tkStatus t \<noteq> T_queued" "bgInv env m"
  shows "taskOf (admitGo env ks m) k = Some t"
  using assms
proof (induction env ks m rule: admitGo.induct)
  case (2 env j ks m)
  let ?m = "case taskOf m j of None \<Rightarrow> m | Some t \<Rightarrow> if tkStatus t = T_queued then launch env t m else m"
  show ?case
  proof (cases "int (foregroundRunning m) < beLimit env")
    case True
    have "taskOf ?m k = Some t \<and> bgInv env ?m"
    proof (cases "\<exists>t'. taskOf m j = Some t' \<and> tkStatus t' = T_queued")
      case queued: True
      then obtain t' where t': "taskOf m j = Some t'" "tkStatus t' = T_queued" by metis
      have "tkId t' \<noteq> k" using t' "2.prems"(1,2) bgInv_task(1) [OF "2.prems"(3) t'(1)] by auto
      then show ?thesis using t' "2.prems" launch_inv [OF "2.prems"(3) t'] True by (simp add: launch_other)
    next
      case False
      then have "?m = m" by (auto split: option.split)
      then show ?thesis using "2.prems" by simp
    qed
    then show ?thesis using True "2.IH" "2.prems"(2) by simp
  qed (use "2.prems" in simp)
qed simp

lemma settle_keeps:
  assumes inv: "bgInv env m" and t0: "taskOf m j = Some t0" "tkId u = j" "taskOk u" "\<not> isTerminalStatus (tkStatus u)" "isTerminalStatus st"
    "tkStartedAt u = tkStartedAt t0" "isTerminalStatus (tkStatus t0) = isTerminalStatus (tkStatus u)"
    and k: "taskOf m k = Some t" "isTerminalStatus (tkStatus t)"
  shows "taskOf (snd (settle env u st exit m)) k = Some t"
proof -
  obtain m5 t' where m5: "bgInv env m5" "mgTasks m5 = AList.update j t' (mgTasks m)"
    and r: "settle env u st exit m = (Inl SinkRefused, m5) \<and> beSink env \<noteq> None
       \<or> settle env u st exit m = (Inr (), if tkPlacement u = Foreground then admitNext env m5 else m5)"
    using settle_parts [OF inv t0, of exit] by metis
  have "k \<noteq> j" using t0(1,4,7) k by auto
  then have k5: "taskOf m5 k = Some t" using m5(2) k(1) by (simp add: taskOf_def update_conv')
  have "tkStatus t \<noteq> T_queued" using k(2) by auto
  then have "taskOf (admitNext env m5) k = Some t" using admitGo_keeps [OF k5 _ m5(1)] by (simp add: admitNext_def)
  with r k5 show ?thesis by auto
qed

lemma settle_live_keeps:
  assumes "bgInv env m" "taskOf m j = Some u" "\<not> isTerminalStatus (tkStatus u)" "isTerminalStatus st" "taskOf m k = Some t" "isTerminalStatus (tkStatus t)"
  shows "taskOf (snd (settle env u st exit m)) k = Some t"
  by (rule settle_keeps [OF assms(1,2) bgInv_task(1,2) [OF assms(1,2)] assms(3,4) refl refl assms(5,6)])

lemma live_other:
  assumes "bgInv env m" "taskOf m k = Some t" "isTerminalStatus (tkStatus t)" "taskOf m j = Some u" "\<not> isTerminalStatus (tkStatus u)"
  shows "k \<noteq> tkId u"
  using assms bgInv_task(1) [OF assms(1,4)] by auto

lemma enterAwaitingInput_keeps:
  assumes "bgInv env m" "taskOf m k = Some t" "isTerminalStatus (tkStatus t)" "taskOf m j = Some u"
  shows "taskOf (enterAwaitingInput env u r now m) k = Some t" "taskOf (enterAwaitingInput env u r now (tick m)) k = Some t"
  using assms(2) live_other [OF assms] by (simp_all add: enterAwaitingInput_def)

lemma watchdog_keeps:
  assumes inv: "bgInv env m" and k: "taskOf m k = Some t" "isTerminalStatus (tkStatus t)"
  shows "taskOf (watchdog env now j m) k = Some t"
proof -
  define m1 where "m1 = (case taskOf m j of
       None \<Rightarrow> m
     | Some t \<Rightarrow>
         if tkStatus t = T_running \<and> elapsed (tkDetectedWaitSince t) now INPUT_WATCHDOG_MS
         then enterAwaitingInput env t \<lparr>irPrompt = ''input required (watchdog)'', irSecret = False\<rparr> now m
         else m)"
  have i1: "bgInv env m1"
    using inv by (auto simp: m1_def intro!: enterAwaitingInput_inv split: option.split)
  have k1: "taskOf m1 k = Some t" using k enterAwaitingInput_keeps(1) [OF inv k] by (simp add: m1_def split: option.split)
  have "k \<noteq> tkId u" if "taskOf m1 j = Some u" "tkStatus u = T_awaiting_input" for u
    by (rule live_other [OF i1 k1 k(2) that(1)]) (simp add: that(2))
  then show ?thesis using k1 bgInv_task(1) [OF i1] by (simp add: watchdog_def Let_def m1_def [symmetric] split: option.split)
qed

lemma bgStep_keeps:
  assumes inv: "bgInv env m" and ids: "inj (beIds env ''bgt'')" and k: "taskOf m k = Some t" "isTerminalStatus (tkStatus t)"
  shows "taskOf (bgStep env e m) k = Some t"
proof (cases e)
  case (EStart input)
  obtain m4 u where u: "bgInv env m4" "mgTasks m4 = mgTasks m @ [(tkId u, u)]" "taskOf m (tkId u) = None"
    and r: "startBackground env input m = (Inl SinkRefused, m4) \<and> beSink env \<noteq> None
      \<or> snd (startBackground env input m) = (if tkPlacement u = Background \<or> int (foregroundRunning m4) < beLimit env
           then launch env u m4 else m4\<lparr>mgQueue := mgQueue m4 @ [tkId u]\<rparr>)"
    using start_parts [OF inv ids, of input] by metis
  have "tkId u \<noteq> k" using u(3) k(1) by auto
  moreover from this have "taskOf m4 k = Some t" using u(2) k(1) by (simp add: taskOf_def map_add_def)
  ultimately show ?thesis using r EStart by (auto simp: launch_other)
next
  case (EProvide j v)
  have "k \<noteq> tkId u" if "taskOf m j = Some u" "tkStatus u = T_awaiting_input \<or> tkStatus u = T_blocked" for u
    by (rule live_other [OF inv k that(1)]) (use that(2) in auto)
  then show ?thesis using k(1) EProvide by (auto simp: provideInput_def Let_def split: option.split)
next
  case (EStop j)
  have "taskOf (snd (settle env u T_cancelled x m)) k = Some t" "taskOf (snd (settle env u T_cancelled x (callRunner (RunnerCancel j) m))) k = Some t"
    if "taskOf m j = Some u" "\<not> isTerminalStatus (tkStatus u)" for u x
    by (rule settle_live_keeps [of env _ j]; use inv k that in simp)+
  then show ?thesis using k EStop by (simp add: stopTask_def split: option.split)
next
  case (EAwait w j)
  then show ?thesis using k live_other [OF inv k] by (simp add: awaitTask_def split: option.split)
next
  case (EWatch now)
  have "bgInv env m \<Longrightarrow> taskOf m k = Some t \<Longrightarrow> taskOf (fold (watchdog env now) ks m) k = Some t" for ks m
    by (induction ks arbitrary: m) (simp_all add: watchdog_inv watchdog_keeps k(2))
  then show ?thesis using inv k(1) EWatch by (simp add: checkWatchdogs_def)
next
  case (EOutput j c)
  have "taskOf (snd (onOutput env u c m)) k = Some t" if u: "taskOf m j = Some u" for u
  proof (cases "isTerminalStatus (tkStatus u)")
    case False
    note e = bgInv_task [OF inv u]
    have ok: "taskOk (counted c u)" using e(2) by (rule counted_ok)
    have i1: "bgInv env (putTask (counted c u) m)" by (rule bgInv_put [OF inv]) (use ok u e in \<open>auto simp: runningForeground_def\<close>)
    then have n: "bgInv env (notify env (tkId u) N_status msg (putTask (counted c u) m))" for msg by simp
    have ids: "k \<noteq> tkId u" "tkId u = j" using live_other [OF inv k u False] e(1) by simp_all
    have stop: "taskOf (snd (settle env (counted c u) T_failed x m2)) k = Some t"
      "taskOf (snd (settle env (counted c u) T_failed x (callRunner (RunnerCancel i) m2))) k = Some t"
      if "bgInv env m2" "taskOf m2 k = Some t" "taskOf m2 j = Some (counted c u)" for x m2 i
      by (rule settle_keeps [of env _ j "counted c u"]; use that k ok ids False in simp)+
    show ?thesis using i1 n stop k(1) ids unfolding onOutput_counted [OF False] Let_def by auto
  qed (use k in \<open>simp add: onOutput_def\<close>)
  then show ?thesis using k EOutput by (simp add: onLaunched_def split: option.split)
next
  case (EInputRequest j r)
  then show ?thesis using k enterAwaitingInput_keeps(2) [OF inv k] by (simp add: onLaunched_def split: option.split)
next
  case (EWaitDetected j)
  have "k \<noteq> tkId u" if "taskOf m j = Some u" "tkStatus u = T_running" for u
    by (rule live_other [OF inv k that(1)]) (simp add: that(2))
  then show ?thesis using k(1) EWaitDetected by (simp add: onLaunched_def onInputWaitDetected_def split: option.split)
next
  case (EExit j x)
  then show ?thesis using k settle_live_keeps [OF inv] by (simp add: onLaunched_def onExit_def split: option.split)
qed (use k in simp)

lemma bgRun_keeps:
  "bgInv env m \<Longrightarrow> inj (beIds env ''bgt'') \<Longrightarrow> taskOf m k = Some t \<Longrightarrow> isTerminalStatus (tkStatus t) \<Longrightarrow> taskOf (bgRun env es m) k = Some t"
  by (induction es arbitrary: m) (simp_all add: bgRun_def bgStep_keeps bgStep_inv)


subsection \<open>Guarantees\<close>

text \<open>
  However the manager is used, a task that has ended keeps its record for good: its runner was started at
  most once, its end was announced exactly once, and it holds no control any more.
\<close>

theorem task_ends_once:
  assumes "inj (beIds env ''bgt'')" "taskOf (bgRun env es newManager) k = Some t" "isTerminalStatus (tkStatus t)"
  shows "taskOf (bgRun env (es @ es') newManager) k = Some t \<and> endsOf (bgRun env (es @ es') newManager) k = 1 \<and>
    startsOf (bgRun env (es @ es') newManager) k \<le> 1 \<and> \<not> tkControl t"
proof -
  have inv: "bgInv env (bgRun env es newManager)" for es using assms(1) by (simp add: bgRun_inv)
  have "bgRun env (es @ es') newManager = bgRun env es' (bgRun env es newManager)" by (simp add: bgRun_def)
  then have k: "taskOf (bgRun env (es @ es') newManager) k = Some t"
    using bgRun_keeps [OF inv assms(1-3)] by simp
  then show ?thesis using bgInv_task [OF inv k] assms(3) by (simp add: taskOk_def)
qed

text \<open>
  With a sink that takes every record, foreground work never uses more slots than the limit, no slot is
  idle while a task is queued, and slots are given in the order in which the tasks were created.
\<close>

theorem foreground_slots:
  assumes "inj (beIds env ''bgt'')" "reliable env" and m: "m = bgRun env es newManager"
  shows "int (foregroundRunning m) \<le> max 0 (beLimit env) \<and>
    (taskOf m k = Some t \<longrightarrow> tkStatus t = T_queued \<longrightarrow> beLimit env \<le> int (foregroundRunning m)) \<and>
    subseq (foregroundStarts m @ mgQueue m) (map fst (mgTasks m))"
proof -
  have "bgInv env m" using assms by (simp add: bgRun_inv)
  moreover have "queueInv env m" using assms by (simp add: bgRun_queue)
  ultimately show ?thesis by (auto simp: bgInv_def queueInv_def noIdle_def allWait_def inOrder_def)
qed

subsection \<open>Sample histories\<close>

definition sampleEnv :: "(sinkRecord list \<Rightarrow> sinkRecord \<Rightarrow> bool) option \<Rightarrow> bgEnv" where
  "sampleEnv sink = \<lparr>beClock = int, beIds = (\<lambda>p n. p @ replicate n CHR ''i''), beLimit = 1, beHardStop = 100, beSink = sink\<rparr>"

lemma sampleEnv_inj: "inj (beIds (sampleEnv sink) ''bgt'')"
  by (rule injI) (simp add: sampleEnv_def)

definition noSink :: bgEnv where
  "noSink = sampleEnv None"

definition plainAuthority :: authority where
  "plainAuthority = \<lparr>auProfile = P_auto_accept_edits, auIsolation = I_workspace_write, auNetworkAllowed = False, auWorkspaceRoots = [''/w''],
     auRules = [], auGrants = [], auMaxChildDepth = 1\<rparr>"

definition shellTask :: startInput where
  "shellTask = \<lparr>siCategory = LocalShell, siOwner = \<lparr>actorKind = A_user, actorId = ''u'', actorLabel = None\<rparr>, siPlacement = None,
     siHint = None, siToolCallId = None, siPermissionContext = plainAuthority, siPayload = JsNull, siApprovalChannel = False\<rparr>"

definition exitOk :: runnerExit where
  "exitOk = \<lparr>reOk = True, reCode = Some 0, reReason = None\<rparr>"

lemmas bg_run_defs = bgRun_def sampleEnv_def noSink_def shellTask_def plainAuthority_def exitOk_def newManager_def

lemma task_ends_once_witness:
  "taskOf (bgRun noSink ([EStart shellTask, EStart shellTask, EExit ''bgt'' exitOk] @ [EStop ''bgt'', EExit ''bgt'' exitOk]) newManager) ''bgt''
      = taskOf (bgRun noSink [EStart shellTask, EStart shellTask, EExit ''bgt'' exitOk] newManager) ''bgt'' \<and>
   endsOf (bgRun noSink ([EStart shellTask, EStart shellTask, EExit ''bgt'' exitOk] @ [EStop ''bgt'', EExit ''bgt'' exitOk]) newManager) ''bgt'' = 1"
proof -
  let ?m = "bgRun noSink [EStart shellTask, EStart shellTask, EExit ''bgt'' exitOk] newManager"
  have "map_option tkStatus (taskOf ?m ''bgt'') = Some T_succeeded" by code_simp
  then obtain t where t: "taskOf ?m ''bgt'' = Some t" "isTerminalStatus (tkStatus t)" by (cases "taskOf ?m ''bgt''") auto
  have "inj (beIds noSink ''bgt'')" by (simp add: noSink_def sampleEnv_inj)
  from task_ends_once [OF this t, of "[EStop ''bgt'', EExit ''bgt'' exitOk]"] t(1) show ?thesis by simp
qed

lemma foreground_slots_witness:
  "let m = bgRun noSink [EStart shellTask, EStart shellTask] newManager in
     int (foregroundRunning m) \<le> 1 \<and> mgQueue m = [''bgtiii''] \<and> int (foregroundRunning m) \<ge> 1 \<and> foregroundStarts m = [''bgt'']"
proof -
  let ?m = "bgRun noSink [EStart shellTask, EStart shellTask] newManager"
  have q: "mgQueue ?m = [''bgtiii'']" "foregroundStarts ?m = [''bgt'']" by code_simp+
  have "map_option tkStatus (taskOf ?m ''bgtiii'') = Some T_queued" by code_simp
  then obtain t where t: "taskOf ?m ''bgtiii'' = Some t" "tkStatus t = T_queued" by (cases "taskOf ?m ''bgtiii''") auto
  have "inj (beIds noSink ''bgt'')" "reliable noSink" by (simp_all add: noSink_def sampleEnv_inj reliable_def) (simp add: sampleEnv_def)
  from foreground_slots [OF this refl, of "[EStart shellTask, EStart shellTask]" "''bgtiii''" t] t q show ?thesis
    by (simp add: noSink_def sampleEnv_def Let_def)
qed

subsection \<open>A record the sink refuses\<close>

text \<open>
  When the sink refuses the record of an exit, the task is over, but whoever waits for it is never told
  and no queued task gets the slot that it held.
\<close>

theorem refused_record_strands:
  assumes "\<not> isTerminalStatus (tkStatus t)" "tkId t = k" "fst (onExit env t x m) = Inl SinkRefused"
  shows "(\<exists>t'. taskOf (snd (onExit env t x m)) k = Some t' \<and> isTerminalStatus (tkStatus t') \<and> tkWaiters t' = tkWaiters t) \<and>
    mgQueue (snd (onExit env t x m)) = mgQueue m \<and> mgResolved (snd (onExit env t x m)) = mgResolved m \<and>
    mgCalls (snd (onExit env t x m)) = mgCalls m"
proof -
  let ?st = "if reOk x then T_succeeded else T_failed"
  let ?t = "settledTask env ?st x t m"
  define m2 where "m2 = notify env k (if ?st = T_succeeded then N_background_completion else N_task_failure)
    (''task '' @ k @ '' '' @ statusText ?st) (tick (putTask ?t m))"
  obtain r m3 where r: "recordSink env (SinkCompletion (viewOf ?t) (?st = T_succeeded)) m2 = (r, m3)"
    by (cases "recordSink env (SinkCompletion (viewOf ?t) (?st = T_succeeded)) m2")
  have e: "onExit env t x m = settle env t ?st x m" using assms(1) by (simp add: onExit_def)
  have "settle env t ?st x m = (case (r, m3) of (Inl e, m3) \<Rightarrow> (Inl e, m3)
     | (Inr _, m3) \<Rightarrow>
         let m4 = putTask (?t\<lparr>tkWaiters := []\<rparr>) m3;
             m5 = m4\<lparr>mgResolved := mgResolved m4 @ map (\<lambda>w. (w, viewOf ?t)) (tkWaiters ?t)\<rparr>
         in (Inr (), if tkPlacement t = Foreground then admitNext env m5 else m5))"
    unfolding settle_def Let_def assms(2) m2_def [symmetric] r using assms(1) by simp
  then have s: "settle env t ?st x m = (Inl SinkRefused, m3)" "r = Inl SinkRefused" using assms(3) e by (cases r; simp add: Let_def)+
  then have "m3 = m2" using r by (auto simp: recordSink_def split: option.splits if_splits)
  moreover have "mgResolved m2 = mgResolved m" by (simp add: m2_def notify_def Let_def tick_def putTask_def)
  ultimately show ?thesis using e assms(2) s(1) by (simp add: m2_def settledTask_def)
qed

definition refusing :: bgEnv where
  "refusing = sampleEnv (Some (\<lambda>_ r. case r of SinkStart _ \<Rightarrow> True | SinkCompletion _ _ \<Rightarrow> False))"

text \<open>A third task then overtakes the one that waits.\<close>

lemma refused_record_strands_witness:
  "let m = bgRun refusing [EStart shellTask, EStart shellTask, EAwait 7 ''bgt''] newManager;
       m1 = bgStep refusing (EExit ''bgt'' exitOk) m
   in foregroundRunning m1 = 0 \<and> mgQueue m1 = [''bgtiii''] \<and> mgResolved m1 = [] \<and>
      startedIds (bgStep refusing (EStart shellTask) m1) = [''bgt'', ''bgtiiiiiiii''] \<and>
      mgQueue (bgStep refusing (EStart shellTask) m1) = [''bgtiii'']"
proof -
  let ?m = "bgRun refusing [EStart shellTask, EStart shellTask, EAwait 7 ''bgt''] newManager"
  have before: "mgQueue ?m = [''bgtiii'']" "mgResolved ?m = []" by code_simp+
  have "map_option (\<lambda>t. (tkId t, tkStatus t, tkStartedAt t = None, fst (onExit refusing t exitOk ?m))) (taskOf ?m ''bgt'')
      = Some (''bgt'', T_running, False, Inl SinkRefused)" by code_simp
  then obtain t where t: "taskOf ?m ''bgt'' = Some t" "tkId t = ''bgt''" "tkStatus t = T_running" "tkStartedAt t \<noteq> None"
      "fst (onExit refusing t exitOk ?m) = Inl SinkRefused"
    by (cases "taskOf ?m ''bgt''") auto
  have step: "bgStep refusing (EExit ''bgt'' exitOk) ?m = snd (onExit refusing t exitOk ?m)" using t(1,4) by (simp add: onLaunched_def) auto
  have "\<not> isTerminalStatus (tkStatus t)" using t(3) by simp
  from refused_record_strands [OF this t(2,5)] before
  have "mgQueue (bgStep refusing (EExit ''bgt'' exitOk) ?m) = [''bgtiii'']" "mgResolved (bgStep refusing (EExit ''bgt'' exitOk) ?m) = []"
    unfolding step by auto
  moreover have "foregroundRunning (bgStep refusing (EExit ''bgt'' exitOk) ?m) = 0" by code_simp
  moreover have "startedIds (bgStep refusing (EStart shellTask) (bgStep refusing (EExit ''bgt'' exitOk) ?m)) = [''bgt'', ''bgtiiiiiiii'']"
    "mgQueue (bgStep refusing (EStart shellTask) (bgStep refusing (EExit ''bgt'' exitOk) ?m)) = [''bgtiii'']" by code_simp+
  ultimately show ?thesis by (simp add: Let_def)
qed

end
