(* ===== verification/Agent_Supervisor.thy ===== *)
theory Agent_Supervisor
  imports Policy_Authority Turn_Effects
begin

text \<open>
  Delegation: the supervisor of \<^verbatim>\<open>packages/agents/src/subagent.ts\<close> and the production runner and delegate port
  of \<^verbatim>\<open>apps/cli/src/subagent-tool.ts\<close> that build the tree of agents of one turn. A child runs
  concurrently with its parent, so its end is an event of its own; the number of a child is its position in
  the list of all agents, which is also what its id is made from.
\<close>

subsection \<open>The supervisor\<close>

datatype childContext = FreshContext | ForkedContext

datatype childTiming = ForegroundChild | BackgroundChild

record subagentMode =
  smContext :: childContext
  smTiming :: childTiming

record subagentSpec =
  ssLabel :: string
  ssPrompt :: string
  ssMode :: subagentMode
  ssRequestedAuthority :: authority
  ssModel :: string
  ssMaxModelCalls :: int
  ssMaxWallMs :: int
  ssForkedContext :: "inputItem list option"

record subagentLimits =
  slMaxActiveChildren :: int
  slMaxTotalChildren :: int
  slMaxDepth :: int

definition DEFAULT_SUBAGENT_LIMITS :: subagentLimits where
  "DEFAULT_SUBAGENT_LIMITS = \<lparr>slMaxActiveChildren = 4, slMaxTotalChildren = 16, slMaxDepth = 2\<rparr>"

datatype subagentError =
    DepthExceeded int int
  | CountExceeded int int
  | ActiveExceeded int int
  | AuthorityWidened
  | CancelledBeforeStart
  | WrongTiming

record subagentConclusion =
  scAgentId :: string
  scLabel :: string
  scOk :: bool
  scSummary :: string
  scModelCalls :: int

record runnerInput =
  riAgentId :: string
  riPrompt :: string
  riAuthority :: authority
  riModel :: string
  riMaxModelCalls :: int
  riMaxWallMs :: int
  riForkedContext :: "inputItem list option"

record runnerResult =
  rrOk :: bool
  rrSummary :: string
  rrModelCalls :: int

record supervisor =
  svAuthority :: authority
  svManaged :: managedPolicy
  svDepth :: int
  svLimits :: subagentLimits
  svTotalSpawned :: int
  svActive :: int
  svBackground :: "nat list"

definition newSupervisor :: "authority \<Rightarrow> managedPolicy \<Rightarrow> int \<Rightarrow> subagentLimits option \<Rightarrow> supervisor" where
  "newSupervisor a m depth limits = \<lparr>svAuthority = a, svManaged = m, svDepth = depth,
     svLimits = (case limits of None \<Rightarrow> DEFAULT_SUBAGENT_LIMITS | Some l \<Rightarrow> l),
     svTotalSpawned = 0, svActive = 0, svBackground = []\<rparr>"

definition childAuthority :: "supervisor \<Rightarrow> authority \<Rightarrow> subagentError + authority" where
  "childAuthority sv requested =
     (let result = intersect requested (svAuthority sv) (svManaged sv) in
      if \<not> isAtMost result (svAuthority sv) then Inl AuthorityWidened else Inr result)"

definition admit :: "supervisor \<Rightarrow> subagentSpec \<Rightarrow> bool \<Rightarrow> subagentError + authority" where
  "admit sv spec aborted =
     (let limits = svLimits sv in
      if svDepth sv \<ge> slMaxDepth limits then Inl (DepthExceeded (svDepth sv) (slMaxDepth limits))
      else if svTotalSpawned sv \<ge> slMaxTotalChildren limits
        then Inl (CountExceeded (svTotalSpawned sv) (slMaxTotalChildren limits))
      else if svActive sv \<ge> slMaxActiveChildren limits
        then Inl (ActiveExceeded (svActive sv) (slMaxActiveChildren limits))
      else if aborted then Inl CancelledBeforeStart
      else childAuthority sv (ssRequestedAuthority spec))"

definition runInput :: "subagentSpec \<Rightarrow> string \<Rightarrow> authority \<Rightarrow> runnerInput" where
  "runInput spec agentId a = \<lparr>riAgentId = agentId, riPrompt = ssPrompt spec, riAuthority = a, riModel = ssModel spec,
     riMaxModelCalls = ssMaxModelCalls spec, riMaxWallMs = ssMaxWallMs spec,
     riForkedContext = (if smContext (ssMode spec) = ForkedContext then ssForkedContext spec else None)\<rparr>"

definition conclusion :: "string \<Rightarrow> string \<Rightarrow> runnerResult \<Rightarrow> subagentConclusion" where
  "conclusion agentId label result = \<lparr>scAgentId = agentId, scLabel = label, scOk = rrOk result,
     scSummary = take 8000 (rrSummary result), scModelCalls = rrModelCalls result\<rparr>"

text \<open>
  Both entry points up to the moment the runner has been called: the guards, then the counters, and for a
  background child its number in the list that \<^verbatim>\<open>joinAll\<close> waits for. The child is number \<^verbatim>\<open>n\<close>.
\<close>

definition spawnChild ::
  "childTiming \<Rightarrow> nat \<Rightarrow> string \<Rightarrow> subagentSpec \<Rightarrow> bool \<Rightarrow> supervisor \<Rightarrow> (subagentError + runnerInput) \<times> supervisor" where
  "spawnChild entry n agentId spec aborted sv =
     (if smTiming (ssMode spec) \<noteq> entry then (Inl WrongTiming, sv)
      else (case admit sv spec aborted of
         Inl e \<Rightarrow> (Inl e, sv)
       | Inr a \<Rightarrow> (Inr (runInput spec agentId a),
           sv\<lparr>svTotalSpawned := svTotalSpawned sv + 1, svActive := svActive sv + 1,
              svBackground := svBackground sv @ (if entry = BackgroundChild then [n] else [])\<rparr>)))"

definition settleChild :: "supervisor \<Rightarrow> supervisor" where
  "settleChild sv = sv\<lparr>svActive := svActive sv - 1\<rparr>"

definition childSupervisor :: "supervisor \<Rightarrow> authority \<Rightarrow> supervisor" where
  "childSupervisor sv a = newSupervisor a (svManaged sv) (svDepth sv + 1) (Some (svLimits sv))"

subsection \<open>The production runner and the delegate port\<close>

record 'c runAuthority =
  raManagedPolicy :: managedPolicy
  raRules :: "policyRule list"
  raProfile :: permissionProfile
  raIsolation :: isolationMode
  raNetworkAllowed :: bool
  raConfig :: 'c

definition runAuthorityToAuthority :: "'c runAuthority \<Rightarrow> string \<Rightarrow> authority" where
  "runAuthorityToAuthority ra workspaceRoot = \<lparr>auProfile = raProfile ra, auIsolation = raIsolation ra,
     auNetworkAllowed = raNetworkAllowed ra, auWorkspaceRoots = [workspaceRoot], auRules = raRules ra, auGrants = [],
     auMaxChildDepth = mpMaxChildDepth (raManagedPolicy ra)\<rparr>"

definition childRunAuthority :: "'c runAuthority \<Rightarrow> authority \<Rightarrow> 'c runAuthority" where
  "childRunAuthority parent intersected = \<lparr>raManagedPolicy = raManagedPolicy parent, raRules = auRules intersected,
     raProfile = auProfile intersected, raIsolation = auIsolation intersected,
     raNetworkAllowed = auNetworkAllowed intersected, raConfig = raConfig parent\<rparr>"

definition MIN_CHILD_MODEL_CALLS :: int where
  "MIN_CHILD_MODEL_CALLS = 4"

text \<open>Half of the parent's allowance, \<^verbatim>\<open>CHILD_BUDGET_FRACTION\<close>, rounded down.\<close>

definition childModelCalls :: "int \<Rightarrow> int" where
  "childModelCalls parent = max MIN_CHILD_MODEL_CALLS (parent div 2)"

definition childWallMs :: "int \<Rightarrow> int" where
  "childWallMs parent = max 1 (parent div 2)"

record delegateArgs =
  daLabel :: string
  daPrompt :: string
  daContext :: childContext
  daTiming :: childTiming

text \<open>
  An agent of the tree: what it runs under, the supervisor of its own children, whether it has the
  delegate tool, its allowance, the agent that spawned it, and how it ended. An agent refused by the second
  check of its authority is in the tree, but runs nothing.
\<close>

datatype agentEnd = AgentReturned runnerResult | AgentRejected string

record 'c agent =
  agParent :: "nat option"
  agInput :: "runnerInput option"
  agRun :: "'c runAuthority"
  agSupervisor :: supervisor
  agDelegates :: bool
  agModelCalls :: int
  agWallMs :: int
  agModel :: string
  agLabel :: string
  agRefused :: bool
  agEnd :: "agentEnd option"

definition buildSpec :: "'c agent \<Rightarrow> string \<Rightarrow> inputItem list \<Rightarrow> delegateArgs \<Rightarrow> subagentSpec" where
  "buildSpec ag workspaceRoot history args =
     (let forked = (if daContext args = ForkedContext then Some history else None) in
      \<lparr>ssLabel = daLabel args, ssPrompt = daPrompt args,
       ssMode = \<lparr>smContext = daContext args, smTiming = daTiming args\<rparr>,
       ssRequestedAuthority = runAuthorityToAuthority (agRun ag) workspaceRoot, ssModel = agModel ag,
       ssMaxModelCalls = childModelCalls (agModelCalls ag), ssMaxWallMs = childWallMs (agWallMs ag),
       ssForkedContext = (case forked of None \<Rightarrow> None | Some h \<Rightarrow> if h = [] then None else Some h)\<rparr>)"

text \<open>
  \<^verbatim>\<open>createSubagentRunner\<close>: what the runner builds for a child of the agent \<^verbatim>\<open>ag\<close> with the supervisor
  \<^verbatim>\<open>sv\<close>, before the child's turn begins.
\<close>

definition runChild :: "nat \<Rightarrow> 'c agent \<Rightarrow> supervisor \<Rightarrow> string \<Rightarrow> string \<Rightarrow> runnerInput \<Rightarrow> 'c agent" where
  "runChild parent ag sv workspaceRoot label input =
     (let refused = \<not> isAtMost (riAuthority input) (runAuthorityToAuthority (agRun ag) workspaceRoot);
          childRun = childRunAuthority (agRun ag) (riAuthority input);
          childSv = childSupervisor sv (riAuthority input)
      in \<lparr>agParent = Some parent, agInput = Some input, agRun = childRun, agSupervisor = childSv,
          agDelegates = (\<not> refused \<and> svDepth sv + 1 < slMaxDepth (svLimits sv)),
          agModelCalls = riMaxModelCalls input, agWallMs = riMaxWallMs input, agModel = riModel input, agLabel = label,
          agRefused = refused, agEnd = None\<rparr>)"

subsection \<open>The tree of agents of one turn\<close>

record 'c agentTree =
  atAgents :: "'c agent list"
  atEnded :: "nat list"

text \<open>\<^verbatim>\<open>createDelegateSurface\<close>: the agent of the turn itself.\<close>

definition rootAgent :: "'c runAuthority \<Rightarrow> string \<Rightarrow> string \<Rightarrow> int \<Rightarrow> int \<Rightarrow> subagentLimits option \<Rightarrow> 'c agent" where
  "rootAgent ra workspaceRoot model calls wallMs limits =
     \<lparr>agParent = None, agInput = None, agRun = ra,
      agSupervisor = newSupervisor (runAuthorityToAuthority ra workspaceRoot) (raManagedPolicy ra) 0 limits,
      agDelegates = True, agModelCalls = calls, agWallMs = wallMs, agModel = model, agLabel = [], agRefused = False, agEnd = None\<rparr>"

definition newTree :: "'c runAuthority \<Rightarrow> string \<Rightarrow> string \<Rightarrow> int \<Rightarrow> int \<Rightarrow> subagentLimits option \<Rightarrow> 'c agentTree" where
  "newTree ra workspaceRoot model calls wallMs limits =
     \<lparr>atAgents = [rootAgent ra workspaceRoot model calls wallMs limits], atEnded = []\<rparr>"

definition agentIdOf :: "nat \<Rightarrow> string" where
  "agentIdOf n = ''agt_'' @ natStr n"

text \<open>One call of the delegate tool by the agent with the number \<^verbatim>\<open>p\<close>.\<close>

definition delegateCall ::
  "string \<Rightarrow> nat \<Rightarrow> inputItem list \<Rightarrow> delegateArgs \<Rightarrow> bool \<Rightarrow> 'c agentTree \<Rightarrow> (subagentError + nat) option \<times> 'c agentTree" where
  "delegateCall workspaceRoot p history args aborted t =
     (if p < length (atAgents t) \<and> agDelegates (atAgents t ! p) then
        let ag = atAgents t ! p; n = length (atAgents t); spec = buildSpec ag workspaceRoot history args in
        (case spawnChild (daTiming args) n (agentIdOf n) spec aborted (agSupervisor ag) of
           (Inl e, sv) \<Rightarrow> (Some (Inl e), t)
         | (Inr input, sv) \<Rightarrow> (Some (Inr n),
             t\<lparr>atAgents := (atAgents t)[p := ag\<lparr>agSupervisor := sv\<rparr>] @ [runChild p ag sv workspaceRoot (daLabel args) input]\<rparr>))
      else (None, t))"

text \<open>The end of a child: its parent's slot is free again. An agent that was refused reports just that.\<close>

definition refusal :: runnerResult where
  "refusal = \<lparr>rrOk = False, rrSummary = ''refused: computed child authority exceeds the parent ceiling'', rrModelCalls = 0\<rparr>"

definition endChild :: "nat \<Rightarrow> agentEnd \<Rightarrow> 'c agentTree \<Rightarrow> 'c agentTree" where
  "endChild n e t =
     (if n < length (atAgents t) then
        let ag = atAgents t ! n in
        (case agParent ag of
           None \<Rightarrow> t
         | Some p \<Rightarrow>
             if agEnd ag \<noteq> None then t
             else
               let e' = (if agRefused ag then AgentReturned refusal else e);
                   agents = (atAgents t)[n := ag\<lparr>agEnd := Some e'\<rparr>]
               in t\<lparr>atAgents := agents[p := (agents ! p)\<lparr>agSupervisor := settleChild (agSupervisor (agents ! p))\<rparr>],
                    atEnded := atEnded t @ [n]\<rparr>)
      else t)"

definition conclusionOf :: "'c agentTree \<Rightarrow> nat \<Rightarrow> (string + subagentConclusion) option" where
  "conclusionOf t n =
     (case agEnd (atAgents t ! n) of
        None \<Rightarrow> None
      | Some (AgentRejected err) \<Rightarrow> Some (Inl err)
      | Some (AgentReturned r) \<Rightarrow> Some (Inr (conclusion (agentIdOf n) (agLabel (atAgents t ! n)) r)))"

text \<open>
  \<^verbatim>\<open>joinAll\<close> has a value once all background children have ended, or as soon as one of them was rejected:
  the first rejection in time.
\<close>

definition joinAll :: "'c agentTree \<Rightarrow> nat \<Rightarrow> (string + subagentConclusion list) option" where
  "joinAll t p =
     (let kids = svBackground (agSupervisor (atAgents t ! p));
          rejected = (\<lambda>n. case conclusionOf t n of Some (Inl _) \<Rightarrow> True | _ \<Rightarrow> False)
      in case find (\<lambda>n. n \<in> set kids \<and> rejected n) (atEnded t) of
           Some n \<Rightarrow> (case conclusionOf t n of Some (Inl err) \<Rightarrow> Some (Inl err) | _ \<Rightarrow> None)
         | None \<Rightarrow>
             if list_all (\<lambda>n. conclusionOf t n \<noteq> None) kids
             then Some (Inr (concat (map (\<lambda>n. case conclusionOf t n of Some (Inr c) \<Rightarrow> [c] | _ \<Rightarrow> []) kids)))
             else None)"

text \<open>Histories: calls of the delegate tool by any agent and ends of children, in any order.\<close>

datatype agentEvent =
    ADelegate nat "inputItem list" delegateArgs bool
  | AEnd nat agentEnd

fun agentStep :: "string \<Rightarrow> agentEvent \<Rightarrow> 'c agentTree \<Rightarrow> 'c agentTree" where
  "agentStep ws (ADelegate p h args aborted) t = snd (delegateCall ws p h args aborted t)"
| "agentStep ws (AEnd n e) t = endChild n e t"

definition agentRun :: "string \<Rightarrow> agentEvent list \<Rightarrow> 'c agentTree \<Rightarrow> 'c agentTree" where
  "agentRun ws events t = fold (agentStep ws) events t"

end
