(* ===== verification/Agent_Theorems.thy ===== *)
theory Agent_Theorems
  imports Agent_Supervisor
begin

text \<open>
  What delegation guarantees over every history of a turn: the tree of agents stays within its bounds, the
  supervisors count exactly, and no agent ever runs under more than its parent.
\<close>

subsection \<open>The two ways a tree changes\<close>

abbreviation agentAt :: "'c agentTree \<Rightarrow> nat \<Rightarrow> 'c agent" where
  "agentAt t i \<equiv> atAgents t ! i"

abbreviation supAt :: "'c agentTree \<Rightarrow> nat \<Rightarrow> supervisor" where
  "supAt t i \<equiv> agSupervisor (agentAt t i)"

abbreviation agentCount :: "'c agentTree \<Rightarrow> nat" where
  "agentCount t \<equiv> length (atAgents t)"

lemma delegateCall_cases:
  assumes "delegateCall ws p h args aborted t = (r, t')"
  obtains "t' = t"
  | a bg where "p < agentCount t" "agDelegates (agentAt t p)"
      "admit (supAt t p) (buildSpec (agentAt t p) ws h args) aborted = Inr a"
      "atAgents t' = (atAgents t)[p := (agentAt t p)\<lparr>agSupervisor := (supAt t p)
          \<lparr>svTotalSpawned := svTotalSpawned (supAt t p) + 1, svActive := svActive (supAt t p) + 1, svBackground := bg\<rparr>\<rparr>]
        @ [runChild p (agentAt t p) ((supAt t p)
          \<lparr>svTotalSpawned := svTotalSpawned (supAt t p) + 1, svActive := svActive (supAt t p) + 1, svBackground := bg\<rparr>)
          ws (daLabel args) (runInput (buildSpec (agentAt t p) ws h args) (agentIdOf (agentCount t)) a)]"
      "atEnded t' = atEnded t" "r = Some (Inr (agentCount t))"
      "bg = svBackground (supAt t p) @ (if daTiming args = BackgroundChild then [agentCount t] else [])"
proof (cases "p < agentCount t \<and> agDelegates (agentAt t p)")
  case True
  have timing: "smTiming (ssMode (buildSpec (agentAt t p) ws h args)) = daTiming args" by (simp add: buildSpec_def Let_def)
  show ?thesis
  proof (cases "admit (supAt t p) (buildSpec (agentAt t p) ws h args) aborted")
    case (Inl e)
    then show ?thesis using assms True timing that(1) by (simp add: delegateCall_def spawnChild_def Let_def)
  next
    case (Inr a)
    then show ?thesis using assms True timing
      by (intro that(2) [of a "svBackground (supAt t p) @ (if daTiming args = BackgroundChild then [agentCount t] else [])"])
        (auto simp: delegateCall_def spawnChild_def Let_def)
  qed
next
  case False
  then show ?thesis using assms that(1) by (auto simp: delegateCall_def)
qed

lemma endChild_cases:
  obtains "endChild n e t = t"
  | p e' where "n < agentCount t" "agParent (agentAt t n) = Some p" "agEnd (agentAt t n) = None"
      "atAgents (endChild n e t) = (atAgents t)[n := (agentAt t n)\<lparr>agEnd := Some e'\<rparr>,
          p := ((atAgents t)[n := (agentAt t n)\<lparr>agEnd := Some e'\<rparr>] ! p)
            \<lparr>agSupervisor := settleChild (agSupervisor ((atAgents t)[n := (agentAt t n)\<lparr>agEnd := Some e'\<rparr>] ! p))\<rparr>]"
      "atEnded (endChild n e t) = atEnded t @ [n]"
proof (cases "n < agentCount t \<and> agParent (agentAt t n) \<noteq> None \<and> agEnd (agentAt t n) = None")
  case True
  then obtain p where "agParent (agentAt t n) = Some p" by auto
  then show ?thesis using True
    by (intro that(2) [of p "if agRefused (agentAt t n) then AgentReturned refusal else e"]) (simp_all add: endChild_def Let_def)
next
  case False
  then show ?thesis by (intro that(1)) (auto simp: endChild_def Let_def split: option.split)
qed

subsection \<open>Counting children\<close>

definition kids :: "'c agentTree \<Rightarrow> nat \<Rightarrow> nat set" where
  "kids t i = {j. j < agentCount t \<and> agParent (agentAt t j) = Some i}"

definition liveKids :: "'c agentTree \<Rightarrow> nat \<Rightarrow> nat set" where
  "liveKids t i = {j \<in> kids t i. agEnd (agentAt t j) = None}"

lemma kids_finite [simp]: "finite (kids t i)" "finite (liveKids t i)"
  by (simp_all add: kids_def liveKids_def)

text \<open>The parts of the invariant that speak of one agent.\<close>

definition sharedOk :: "string \<Rightarrow> managedPolicy \<Rightarrow> subagentLimits \<Rightarrow> 'c agent \<Rightarrow> bool" where
  "sharedOk ws M L ag \<longleftrightarrow>
     (let sv = agSupervisor ag; a = svAuthority sv; ra = agRun ag in
      svManaged sv = M \<and> svLimits sv = L \<and> 0 \<le> svDepth sv \<and>
      raManagedPolicy ra = M \<and> raProfile ra = auProfile a \<and> raIsolation ra = auIsolation a \<and>
      raNetworkAllowed ra = auNetworkAllowed a \<and> raRules ra = auRules a \<and> auGrants a = [] \<and> auWorkspaceRoots a = [ws] \<and>
      0 \<le> auMaxChildDepth a \<and> auMaxChildDepth a \<le> mpMaxChildDepth M \<and> \<not> agRefused ag)"

definition countOk :: "'c agentTree \<Rightarrow> nat \<Rightarrow> bool" where
  "countOk t i \<longleftrightarrow>
     (let sv = supAt t i; L = svLimits sv in
      svTotalSpawned sv = int (card (kids t i)) \<and> svActive sv = int (card (liveKids t i)) \<and>
      svTotalSpawned sv \<le> max 0 (slMaxTotalChildren L) \<and> svActive sv \<le> max 0 (slMaxActiveChildren L) \<and>
      (slMaxDepth L \<le> svDepth sv \<longrightarrow> kids t i = {}))"

definition linkOk :: "'c agentTree \<Rightarrow> nat \<Rightarrow> bool" where
  "linkOk t i \<longleftrightarrow>
     (case agParent (agentAt t i) of
        None \<Rightarrow> i = 0 \<and> svDepth (supAt t i) = 0
      | Some p \<Rightarrow> p < i \<and> svDepth (supAt t i) = svDepth (supAt t p) + 1 \<and>
          isAtMost (svAuthority (supAt t i)) (svAuthority (supAt t p)) \<and>
          agModelCalls (agentAt t i) = childModelCalls (agModelCalls (agentAt t p)) \<and>
          agWallMs (agentAt t i) = childWallMs (agWallMs (agentAt t p)))"

definition treeInv :: "string \<Rightarrow> managedPolicy \<Rightarrow> subagentLimits \<Rightarrow> 'c agentTree \<Rightarrow> bool" where
  "treeInv ws M L t \<longleftrightarrow> 0 < agentCount t \<and> agParent (agentAt t 0) = None \<and>
     (\<forall>i < agentCount t. sharedOk ws M L (agentAt t i) \<and> countOk t i \<and> linkOk t i)"

lemma treeInv_new:
  assumes "0 \<le> mpMaxChildDepth (raManagedPolicy ra)"
  shows "treeInv ws (raManagedPolicy ra) (case limits of None \<Rightarrow> DEFAULT_SUBAGENT_LIMITS | Some l \<Rightarrow> l) (newTree ra ws model calls wall limits)"
proof -
  have "kids (newTree ra ws model calls wall limits) 0 = {}" by (auto simp: kids_def newTree_def rootAgent_def)
  then show ?thesis using assms
    by (simp add: treeInv_def sharedOk_def countOk_def linkOk_def newTree_def rootAgent_def newSupervisor_def
        runAuthorityToAuthority_def liveKids_def Let_def)
qed

subsection \<open>A call of the delegate tool\<close>

text \<open>What admission decided: the limits left room, and the child's authority is at most the parent's.\<close>

lemma admit_Inr:
  assumes "admit sv spec aborted = Inr a"
  shows "svDepth sv < slMaxDepth (svLimits sv)" "svTotalSpawned sv < slMaxTotalChildren (svLimits sv)"
    "svActive sv < slMaxActiveChildren (svLimits sv)" "a = intersect (ssRequestedAuthority spec) (svAuthority sv) (svManaged sv)"
    "isAtMost a (svAuthority sv)"
  using assms by (auto simp: admit_def childAuthority_def Let_def split: if_splits)

lemma runChild_fields [simp]:
  "agParent (runChild p ag sv ws label input) = Some p"
  "agSupervisor (runChild p ag sv ws label input) = childSupervisor sv (riAuthority input)"
  "agRun (runChild p ag sv ws label input) = childRunAuthority (agRun ag) (riAuthority input)"
  "agEnd (runChild p ag sv ws label input) = None"
  "agRefused (runChild p ag sv ws label input) = (\<not> isAtMost (riAuthority input) (runAuthorityToAuthority (agRun ag) ws))"
  "agModelCalls (runChild p ag sv ws label input) = riMaxModelCalls input"
  "agWallMs (runChild p ag sv ws label input) = riMaxWallMs input"
  by (simp_all add: runChild_def Let_def)

lemma buildSpec_fields [simp]:
  "ssMaxModelCalls (buildSpec ag ws h args) = childModelCalls (agModelCalls ag)"
  "ssMaxWallMs (buildSpec ag ws h args) = childWallMs (agWallMs ag)"
  by (simp_all add: buildSpec_def Let_def)

lemma childSupervisor_fields [simp]:
  "svAuthority (childSupervisor sv a) = a" "svManaged (childSupervisor sv a) = svManaged sv" "svLimits (childSupervisor sv a) = svLimits sv"
  "svDepth (childSupervisor sv a) = svDepth sv + 1" "svTotalSpawned (childSupervisor sv a) = 0" "svActive (childSupervisor sv a) = 0"
  by (simp_all add: childSupervisor_def newSupervisor_def)

text \<open>The second check, against the authority the parent really runs under, never refuses.\<close>

lemma child_sharedOk:
  assumes ok: "sharedOk ws M L ag" and a: "admit (agSupervisor ag) (buildSpec ag ws h args) aborted = Inr a"
    and sv: "svManaged sv = M" "svLimits sv = L" "svDepth sv = svDepth (agSupervisor ag)"
  shows "sharedOk ws M L (runChild p ag sv ws label (runInput spec k a))"
proof -
  let ?A = "svAuthority (agSupervisor ag)" and ?R = "runAuthorityToAuthority (agRun ag) ws"
  note adm = admit_Inr [OF a]
  have ok': "svManaged (agSupervisor ag) = M" "0 \<le> svDepth (agSupervisor ag)" "raManagedPolicy (agRun ag) = M"
    "auProfile ?R = auProfile ?A" "auIsolation ?R = auIsolation ?A" "auNetworkAllowed ?R = auNetworkAllowed ?A"
    "auRules ?R = auRules ?A" "auGrants ?A = []" "auWorkspaceRoots ?A = [ws]" "0 \<le> auMaxChildDepth ?A" "auMaxChildDepth ?A \<le> mpMaxChildDepth M"
    "auGrants ?R = []" "auWorkspaceRoots ?R = [ws]" "auMaxChildDepth ?R = mpMaxChildDepth M"
    using ok by (simp_all add: sharedOk_def runAuthorityToAuthority_def Let_def)
  have a': "a = intersect ?R ?A M" using adm(4) ok'(1) by (simp add: buildSpec_def Let_def)
  have f: "auGrants a = []" "auWorkspaceRoots a = [ws]" "0 \<le> auMaxChildDepth a" "auMaxChildDepth a \<le> mpMaxChildDepth M"
    using ok' by (auto simp: a' intersect_def Let_def)
  have "isAtMost ?A ?R" using ok' by (auto simp: isAtMost_iff allowIds_def)
  with adm(5) have "isAtMost a ?R" by (rule isAtMost_trans)
  then show ?thesis using ok'(2,3) sv f
    by (simp add: sharedOk_def Let_def childRunAuthority_def runInput_def)
qed

lemma delegate_inv:
  assumes inv: "treeInv ws M L t" and d: "delegateCall ws p h args aborted t = (r, t')"
  shows "treeInv ws M L t'"
  using d
proof (cases rule: delegateCall_cases)
  case 1
  then show ?thesis using inv by simp
next
  case (2 a bg)
  let ?n = "agentCount t" and ?ag = "agentAt t p"
  let ?sv = "(supAt t p)\<lparr>svTotalSpawned := svTotalSpawned (supAt t p) + 1, svActive := svActive (supAt t p) + 1, svBackground := bg\<rparr>"
  let ?new = "runChild p ?ag ?sv ws (daLabel args) (runInput (buildSpec ?ag ws h args) (agentIdOf ?n) a)"
  note adm = admit_Inr [OF 2(3)]
  have len: "agentCount t' = Suc ?n" by (simp add: 2(4))
  have at: "agentAt t' j = (if j = ?n then ?new else if j = p then ?ag\<lparr>agSupervisor := ?sv\<rparr> else agentAt t j)" if "j \<le> ?n" for j
    using that 2(1) by (auto simp: 2(4) nth_append nth_list_update)
  have okp: "sharedOk ws M L ?ag" "countOk t p" "linkOk t p" using inv 2(1) by (simp_all add: treeInv_def)
  have par: "agParent (agentAt t' j) = (if j = ?n then Some p else agParent (agentAt t j))" if "j \<le> ?n" for j
    using that by (simp add: at)
  have kids': "kids t' i = kids t i \<union> (if i = p then {?n} else {})" for i
    by (auto simp: kids_def len par less_Suc_eq_le le_less)
  have live': "liveKids t' i = liveKids t i \<union> (if i = p then {?n} else {})" for i
    by (auto simp: liveKids_def kids' at) (auto simp: kids_def at split: if_splits)
  have fresh: "?n \<notin> kids t i" "?n \<notin> liveKids t i" for i by (simp_all add: kids_def liveKids_def)
  have old: "\<forall>j<?n. agParent (agentAt t j) = Some i \<longrightarrow> i < ?n" for i
    using inv by (fastforce simp: treeInv_def linkOk_def split: option.splits)
  then have nokids: "kids t ?n = {}" by (auto simp: kids_def)
  have "sharedOk ws M L (agentAt t' i) \<and> countOk t' i \<and> linkOk t' i" if "i < agentCount t'" for i
  proof (cases "i = ?n")
    case True
    have "sharedOk ws M L ?new"
      by (rule child_sharedOk [OF okp(1) 2(3)]) (use okp(1) in \<open>simp_all add: sharedOk_def Let_def\<close>)
    moreover have "p \<noteq> ?n" using 2(1) by simp
    ultimately show ?thesis using True 2(1) adm nokids
      by (simp add: at countOk_def linkOk_def kids' live' liveKids_def runInput_def Let_def)
  next
    case False
    with that len have i: "i < ?n" by simp
    have oki: "sharedOk ws M L (agentAt t i)" "countOk t i" "linkOk t i" using inv i by (simp_all add: treeInv_def)
    have "sharedOk ws M L (agentAt t' i)" using oki(1) i by (cases "i = p") (simp_all add: at sharedOk_def Let_def)
    moreover have "countOk t' i"
    proof (cases "i = p")
      case True
      then show ?thesis using okp(2) i fresh adm(1-3) by (simp add: at countOk_def kids' live' Let_def)
    next
      case False
      then show ?thesis using oki(2) i by (simp add: at countOk_def kids' live' Let_def)
    qed
    moreover have "linkOk t' i"
    proof -
      have sup: "svDepth (supAt t' j) = svDepth (supAt t j)" "svAuthority (supAt t' j) = svAuthority (supAt t j)"
        "agModelCalls (agentAt t' j) = agModelCalls (agentAt t j)" "agWallMs (agentAt t' j) = agWallMs (agentAt t j)" if "j < ?n" for j
        using that by (simp_all add: at)
      show ?thesis using oki(3) i by (auto simp: linkOk_def par sup split: option.splits)
    qed
    ultimately show ?thesis by simp
  qed
  moreover have "agParent (agentAt t' 0) = None" using inv by (simp add: treeInv_def par)
  ultimately show ?thesis by (simp add: treeInv_def len)
qed

subsection \<open>The end of a child\<close>

lemma end_inv:
  assumes inv: "treeInv ws M L t"
  shows "treeInv ws M L (endChild n e t)"
proof (cases rule: endChild_cases [of n e t])
  case 1
  then show ?thesis using inv by simp
next
  case (2 p e')
  let ?t = "endChild n e t"
  have "linkOk t n" using inv 2(1) by (simp add: treeInv_def)
  then have p: "p < n" using 2(2) by (simp add: linkOk_def)
  have len: "agentCount ?t = agentCount t" by (simp add: 2(4))
  have at: "agentAt ?t j = (if j = n then (agentAt t n)\<lparr>agEnd := Some e'\<rparr>
      else if j = p then (agentAt t p)\<lparr>agSupervisor := settleChild (supAt t p)\<rparr> else agentAt t j)" if "j < agentCount t" for j
    using that 2(1) p by (auto simp: 2(4) nth_list_update)
  have par: "agParent (agentAt ?t j) = agParent (agentAt t j)" if "j < agentCount t" for j using that by (simp add: at)
  have kids': "kids ?t i = kids t i" for i by (auto simp: kids_def len par)
  have live': "liveKids ?t i = liveKids t i - (if i = p then {n} else {})" for i
  proof -
    have "agEnd (agentAt ?t j) = None \<longleftrightarrow> agEnd (agentAt t j) = None \<and> j \<noteq> n" if "j < agentCount t" for j
      using that by (simp add: at)
    then show ?thesis using 2(2) by (auto simp: liveKids_def kids') (auto simp: kids_def)
  qed
  have n: "n \<in> liveKids t p" using 2(1-3) by (simp add: liveKids_def kids_def)
  have sup: "supAt ?t j = (if j = p then settleChild (supAt t p) else supAt t j)"
    "agModelCalls (agentAt ?t j) = agModelCalls (agentAt t j)" "agWallMs (agentAt ?t j) = agWallMs (agentAt t j)" if "j < agentCount t" for j
    using that p by (auto simp: at)
  have "sharedOk ws M L (agentAt ?t i) \<and> countOk ?t i \<and> linkOk ?t i" if i: "i < agentCount t" for i
  proof -
    have oki: "sharedOk ws M L (agentAt t i)" "countOk t i" "linkOk t i" using inv i by (simp_all add: treeInv_def)
    have "sharedOk ws M L (agentAt ?t i)" using oki(1) i
      by (cases "i = n"; cases "i = p") (simp_all add: at sharedOk_def settleChild_def Let_def)
    moreover have "countOk ?t i"
    proof (cases "i = p")
      case True
      have "card (liveKids t p - {n}) = card (liveKids t p) - 1" "0 < card (liveKids t p)"
        using n by (auto simp: card_gt_0_iff)
      then show ?thesis using oki(2) i True by (simp add: countOk_def sup kids' live' settleChild_def Let_def)
    next
      case False
      then show ?thesis using oki(2) i by (simp add: countOk_def sup kids' live' Let_def)
    qed
    moreover have "linkOk ?t i"
      using oki(3) i by (auto simp: linkOk_def par sup settleChild_def split: option.splits)
    ultimately show ?thesis by simp
  qed
  then show ?thesis using inv by (simp add: treeInv_def len par)
qed

lemma agentStep_inv: "treeInv ws M L t \<Longrightarrow> treeInv ws M L (agentStep ws e t)"
proof (cases e)
  case (ADelegate p h args aborted)
  assume "treeInv ws M L t"
  then show ?thesis using ADelegate delegate_inv by (cases "delegateCall ws p h args aborted t") fastforce
qed (simp add: end_inv)

lemma agentRun_inv: "treeInv ws M L t \<Longrightarrow> treeInv ws M L (agentRun ws es t)"
  by (induction es arbitrary: t) (simp_all add: agentRun_def agentStep_inv)

subsection \<open>How large a tree can be\<close>

definition atDepth :: "'c agentTree \<Rightarrow> nat \<Rightarrow> nat set" where
  "atDepth t d = {i. i < agentCount t \<and> svDepth (supAt t i) = int d}"

lemma atDepth_0: "treeInv ws M L t \<Longrightarrow> atDepth t 0 \<subseteq> {0}"
proof
  fix i assume inv: "treeInv ws M L t" and "i \<in> atDepth t 0"
  then have i: "i < agentCount t" "svDepth (supAt t i) = 0" by (simp_all add: atDepth_def)
  have "linkOk t i" using inv i(1) by (simp add: treeInv_def)
  moreover have "0 \<le> svDepth (supAt t p)" if "p < i" for p using inv i(1) that by (simp add: treeInv_def sharedOk_def Let_def)
  ultimately show "i \<in> {0}" using i(2) by (force simp: linkOk_def split: option.splits)
qed

lemma atDepth_Suc:
  assumes "treeInv ws M L t"
  shows "atDepth t (Suc d) \<subseteq> (\<Union>p \<in> atDepth t d. kids t p)"
proof
  fix i assume "i \<in> atDepth t (Suc d)"
  then have i: "i < agentCount t" "svDepth (supAt t i) = int d + 1" by (simp_all add: atDepth_def)
  have "linkOk t i" using assms i(1) by (simp add: treeInv_def)
  then obtain p where "agParent (agentAt t i) = Some p" "p < i" "svDepth (supAt t p) = int d"
    using i(2) by (auto simp: linkOk_def split: option.splits)
  then show "i \<in> (\<Union>p \<in> atDepth t d. kids t p)" using i(1) by (auto simp: atDepth_def kids_def)
qed

lemma card_kids: "treeInv ws M L t \<Longrightarrow> p < agentCount t \<Longrightarrow> card (kids t p) \<le> nat (slMaxTotalChildren L)"
  by (auto simp: treeInv_def countOk_def sharedOk_def Let_def)

lemma card_atDepth:
  assumes "treeInv ws M L t"
  shows "card (atDepth t d) \<le> nat (slMaxTotalChildren L) ^ d"
proof (induction d)
  case 0
  have "card (atDepth t 0) \<le> card {0::nat}" by (rule card_mono) (use atDepth_0 [OF assms] in auto)
  then show ?case by simp
next
  case (Suc d)
  have fin: "finite (atDepth t d)" by (simp add: atDepth_def)
  have "card (atDepth t (Suc d)) \<le> card (\<Union>p \<in> atDepth t d. kids t p)"
    by (rule card_mono) (use fin atDepth_Suc [OF assms] in auto)
  also have "\<dots> \<le> (\<Sum>p \<in> atDepth t d. card (kids t p))" using fin by (rule card_UN_le)
  also have "\<dots> \<le> card (atDepth t d) * nat (slMaxTotalChildren L)"
    using sum_bounded_above [of "atDepth t d" "\<lambda>p. card (kids t p)" "nat (slMaxTotalChildren L)"] card_kids [OF assms]
    by (simp add: atDepth_def)
  also have "\<dots> \<le> nat (slMaxTotalChildren L) ^ d * nat (slMaxTotalChildren L)" using Suc by (rule mult_le_mono1)
  finally show ?case by (simp add: mult.commute)
qed

lemma depth_bound:
  assumes inv: "treeInv ws M L t" and i: "i < agentCount t"
  shows "svDepth (supAt t i) \<le> max 0 (slMaxDepth L)"
proof (cases "agParent (agentAt t i)")
  case None
  have "linkOk t i" using inv i by (simp add: treeInv_def)
  then show ?thesis using None by (auto simp: linkOk_def)
next
  case (Some p)
  have link: "linkOk t i" using inv i by (simp add: treeInv_def)
  then have p: "p < agentCount t" "svDepth (supAt t i) = svDepth (supAt t p) + 1" using Some i by (auto simp: linkOk_def)
  have "i \<in> kids t p" using Some i by (simp add: kids_def)
  moreover have "countOk t p" "svLimits (supAt t p) = L" using inv p(1) by (simp_all add: treeInv_def sharedOk_def Let_def)
  ultimately show ?thesis using p(2) by (auto simp: countOk_def Let_def)
qed

lemma tree_size:
  assumes inv: "treeInv ws M L t"
  shows "agentCount t \<le> (\<Sum>d \<le> nat (slMaxDepth L). nat (slMaxTotalChildren L) ^ d)"
proof -
  have "{..<agentCount t} \<subseteq> (\<Union>d \<in> {..nat (slMaxDepth L)}. atDepth t d)"
  proof
    fix i assume "i \<in> {..<agentCount t}"
    then have i: "i < agentCount t" by simp
    have "0 \<le> svDepth (supAt t i)" using inv i by (simp add: treeInv_def sharedOk_def Let_def)
    then have "i \<in> atDepth t (nat (svDepth (supAt t i)))" using i by (simp add: atDepth_def)
    moreover have "nat (svDepth (supAt t i)) \<le> nat (slMaxDepth L)" using depth_bound [OF inv i] by simp
    ultimately show "i \<in> (\<Union>d \<in> {..nat (slMaxDepth L)}. atDepth t d)" by blast
  qed
  then have "card {..<agentCount t} \<le> card (\<Union>d \<in> {..nat (slMaxDepth L)}. atDepth t d)"
    by (intro card_mono) (auto simp: atDepth_def)
  also have "\<dots> \<le> (\<Sum>d \<in> {..nat (slMaxDepth L)}. card (atDepth t d))" by (rule card_UN_le) simp
  also have "\<dots> \<le> (\<Sum>d \<le> nat (slMaxDepth L). nat (slMaxTotalChildren L) ^ d)"
    by (rule sum_mono) (rule card_atDepth [OF inv])
  finally show ?thesis by simp
qed


subsection \<open>What an agent keeps for good\<close>

definition sameIdentity :: "'c agentTree \<Rightarrow> 'c agentTree \<Rightarrow> bool" where
  "sameIdentity t t' \<longleftrightarrow> agentCount t \<le> agentCount t' \<and>
     (\<forall>i < agentCount t. agRun (agentAt t' i) = agRun (agentAt t i) \<and> svAuthority (supAt t' i) = svAuthority (supAt t i) \<and>
        agModelCalls (agentAt t' i) = agModelCalls (agentAt t i))"

lemma sameIdentity_refl: "sameIdentity t t"
  by (simp add: sameIdentity_def)

lemma sameIdentity_trans: "sameIdentity t t' \<Longrightarrow> sameIdentity t' t'' \<Longrightarrow> sameIdentity t t''"
  by (auto simp: sameIdentity_def)

lemma agentStep_identity: "sameIdentity t (agentStep ws e t)"
proof (cases e)
  case (ADelegate p h args aborted)
  obtain r t' where d: "delegateCall ws p h args aborted t = (r, t')" by (cases "delegateCall ws p h args aborted t")
  from d have "sameIdentity t t'"
  proof (cases rule: delegateCall_cases)
    case (2 a bg)
    then show ?thesis by (auto simp: sameIdentity_def nth_append nth_list_update)
  qed (simp add: sameIdentity_refl)
  then show ?thesis using ADelegate d by simp
next
  case (AEnd n e)
  have "sameIdentity t (endChild n e t)"
  proof (cases rule: endChild_cases [of n e t])
    case (2 p e')
    then show ?thesis by (cases "n = p"; cases "p < agentCount t") (auto simp: sameIdentity_def nth_list_update settleChild_def list_update_beyond)
  qed (simp add: sameIdentity_refl)
  then show ?thesis using AEnd by simp
qed

lemma agentRun_identity: "sameIdentity t (agentRun ws es t)"
proof (induction es arbitrary: t)
  case (Cons e es)
  then show ?case using sameIdentity_trans [OF agentStep_identity [of t ws e] Cons.IH [of "agentStep ws e t"]]
    by (simp add: agentRun_def)
qed (simp add: agentRun_def sameIdentity_refl)

lemma authority_below_root:
  assumes inv: "treeInv ws M L t"
  shows "i < agentCount t \<Longrightarrow> isAtMost (svAuthority (supAt t i)) (svAuthority (supAt t 0))"
proof (induction i rule: less_induct)
  case (less i)
  have link: "linkOk t i" using inv less.prems by (simp add: treeInv_def)
  show ?case
  proof (cases "agParent (agentAt t i)")
    case None
    then show ?thesis using link by (simp add: linkOk_def isAtMost_refl)
  next
    case (Some p)
    then have p: "p < i" "isAtMost (svAuthority (supAt t i)) (svAuthority (supAt t p))" using link by (simp_all add: linkOk_def)
    show ?thesis by (rule isAtMost_trans [OF p(2) less.IH [OF p(1)]]) (use p(1) less.prems in simp)
  qed
qed

subsection \<open>Guarantees\<close>

text \<open>
  C37: In every history of a turn each supervisor counts its children and its running children exactly and
  within its limits, no agent is deeper than the limit, and the whole tree has at most as many agents
  as a full tree of that width and depth (with the default limits 1 + 16 + 256).
\<close>

theorem agents_bounded:
  assumes "0 \<le> mpMaxChildDepth (raManagedPolicy ra)"
    and t: "t = agentRun ws es (newTree ra ws model calls wallMs (Some L))" and i: "i < agentCount t"
  shows "svTotalSpawned (supAt t i) = int (card (kids t i)) \<and> svTotalSpawned (supAt t i) \<le> max 0 (slMaxTotalChildren L) \<and>
    svActive (supAt t i) = int (card (liveKids t i)) \<and> svActive (supAt t i) \<le> max 0 (slMaxActiveChildren L) \<and>
    svDepth (supAt t i) \<le> max 0 (slMaxDepth L) \<and>
    agentCount t \<le> (\<Sum>d \<le> nat (slMaxDepth L). nat (slMaxTotalChildren L) ^ d)"
proof -
  have inv: "treeInv ws (raManagedPolicy ra) L t"
    using agentRun_inv [OF treeInv_new [OF assms(1), of ws "Some L" model calls wallMs], of es] by (simp add: t)
  then have "countOk t i" "svLimits (supAt t i) = L" using i by (simp_all add: treeInv_def sharedOk_def Let_def)
  then show ?thesis using depth_bound [OF inv i] tree_size [OF inv] by (simp add: countOk_def Let_def)
qed

text \<open>
  C36: Whatever the agents of a turn delegate, no agent runs under a more permissive profile, weaker isolation,
  network access or an allow rule that the turn itself does not have; the managed policy is the turn's, and the
  second check of a child's authority never refuses one.
\<close>

theorem child_never_exceeds:
  assumes "0 \<le> mpMaxChildDepth (raManagedPolicy ra)"
    and t: "t = agentRun ws es (newTree ra ws model calls wallMs limits)" and i: "i < agentCount t"
  shows "raProfile (agRun (agentAt t i)) \<le> raProfile ra \<and> raIsolation (agRun (agentAt t i)) \<le> raIsolation ra \<and>
    (raNetworkAllowed (agRun (agentAt t i)) \<longrightarrow> raNetworkAllowed ra) \<and>
    set (allowIds (raRules (agRun (agentAt t i)))) \<subseteq> set (allowIds (raRules ra)) \<and>
    raManagedPolicy (agRun (agentAt t i)) = raManagedPolicy ra \<and> \<not> agRefused (agentAt t i)"
proof -
  let ?t0 = "newTree ra ws model calls wallMs limits" and ?R = "runAuthorityToAuthority ra ws"
  have inv: "treeInv ws (raManagedPolicy ra) (case limits of None \<Rightarrow> DEFAULT_SUBAGENT_LIMITS | Some l \<Rightarrow> l) t"
    using agentRun_inv [OF treeInv_new [OF assms(1)]] by (simp add: t)
  have "svAuthority (supAt t 0) = svAuthority (supAt ?t0 0)"
    using agentRun_identity [of ?t0 ws es] unfolding t by (simp add: sameIdentity_def newTree_def)
  then have root: "svAuthority (supAt t 0) = ?R" by (simp add: newTree_def rootAgent_def newSupervisor_def)
  have shared: "sharedOk ws (raManagedPolicy ra) (case limits of None \<Rightarrow> DEFAULT_SUBAGENT_LIMITS | Some l \<Rightarrow> l) (agentAt t i)"
    using inv i by (simp add: treeInv_def)
  have below: "isAtMost (svAuthority (supAt t i)) ?R" using authority_below_root [OF inv i] root by simp
  have "set (allowIds (auRules (svAuthority (supAt t i)))) \<subseteq> set (allowIds (auRules ?R))"
    using below by (auto simp: isAtMost_iff allowIds_def)
  with below show ?thesis using shared
    by (simp add: isAtMost_iff sharedOk_def runAuthorityToAuthority_def Let_def)
qed

text \<open>
  A child's allowance of model calls is half of its parent's, but never below four; it is a part of the
  parent's allowance exactly when the parent itself has four calls.
\<close>

theorem child_budget_share:
  assumes "0 \<le> mpMaxChildDepth (raManagedPolicy ra)"
    and t: "t = agentRun ws es (newTree ra ws model calls wallMs limits)" and i: "i < agentCount t" "agParent (agentAt t i) = Some p"
  shows "agModelCalls (agentAt t i) = max 4 (agModelCalls (agentAt t p) div 2) \<and>
    (agModelCalls (agentAt t i) \<le> agModelCalls (agentAt t p) \<longleftrightarrow> 4 \<le> agModelCalls (agentAt t p))"
proof -
  have "treeInv ws (raManagedPolicy ra) (case limits of None \<Rightarrow> DEFAULT_SUBAGENT_LIMITS | Some l \<Rightarrow> l) t"
    using agentRun_inv [OF treeInv_new [OF assms(1)]] by (simp add: t)
  then have "linkOk t i" using i(1) by (simp add: treeInv_def)
  then have "agModelCalls (agentAt t i) = childModelCalls (agModelCalls (agentAt t p))" using i(2) by (simp add: linkOk_def)
  then show ?thesis by (auto simp: childModelCalls_def MIN_CHILD_MODEL_CALLS_def)
qed

subsection \<open>Sample turns\<close>

definition sampleRun :: "int \<Rightarrow> unit runAuthority" where
  "sampleRun depth = \<lparr>raManagedPolicy = NO_MANAGED_RESTRICTIONS\<lparr>mpMaxChildDepth := depth\<rparr>, raRules = [], raProfile = P_ask,
     raIsolation = I_workspace_write, raNetworkAllowed = False, raConfig = ()\<rparr>"

definition sampleTree :: "int \<Rightarrow> int \<Rightarrow> unit agentTree" where
  "sampleTree depth calls = newTree (sampleRun depth) ''/w'' ''m'' calls 1000 (Some DEFAULT_SUBAGENT_LIMITS)"

definition childArgs :: delegateArgs where
  "childArgs = \<lparr>daLabel = ''c'', daPrompt = ''p'', daContext = FreshContext, daTiming = BackgroundChild\<rparr>"

definition twoLevels :: "agentEvent list" where
  "twoLevels = [ADelegate 0 [] childArgs False, ADelegate 1 [] childArgs False, ADelegate 2 [] childArgs False]"

lemma agents_bounded_witness:
  "agentCount (agentRun ''/w'' twoLevels (sampleTree 2 20)) = 3 \<and>
   agentCount (agentRun ''/w'' twoLevels (sampleTree 2 20)) \<le> (\<Sum>d \<le> 2. 16 ^ d)"
proof -
  have n: "agentCount (agentRun ''/w'' twoLevels (sampleTree 2 20)) = 3" by code_simp
  have "0 \<le> mpMaxChildDepth (raManagedPolicy (sampleRun 2))" by (simp add: sampleRun_def)
  note bounded = agents_bounded [OF this refl, of 0 "''/w''" twoLevels "''m''" 20 1000 DEFAULT_SUBAGENT_LIMITS, folded sampleTree_def]
  have "0 < agentCount (agentRun ''/w'' twoLevels (sampleTree 2 20))" using n by simp
  from bounded [OF this] have "agentCount (agentRun ''/w'' twoLevels (sampleTree 2 20))
      \<le> (\<Sum>d \<le> nat (slMaxDepth DEFAULT_SUBAGENT_LIMITS). nat (slMaxTotalChildren DEFAULT_SUBAGENT_LIMITS) ^ d)"
    by (elim conjE)
  then show ?thesis using n by (simp add: DEFAULT_SUBAGENT_LIMITS_def)
qed

lemma child_never_exceeds_witness:
  "\<not> agRefused (agentAt (agentRun ''/w'' twoLevels (sampleTree 2 20)) 2)"
proof -
  have n: "agentCount (agentRun ''/w'' twoLevels (sampleTree 2 20)) = 3" by code_simp
  have "0 \<le> mpMaxChildDepth (raManagedPolicy (sampleRun 2))" by (simp add: sampleRun_def)
  from child_never_exceeds [OF this refl, of 2 "''/w''" twoLevels "''m''" 20 1000 "Some DEFAULT_SUBAGENT_LIMITS"] n
  show ?thesis by (simp add: sampleTree_def)
qed

text \<open>A turn that has one model call left for itself gives its child four.\<close>

lemma child_budget_share_witness:
  "agModelCalls (agentAt (agentRun ''/w'' twoLevels (sampleTree 2 1)) 0) = 1 \<and>
   agModelCalls (agentAt (agentRun ''/w'' twoLevels (sampleTree 2 1)) 1) = 4"
proof -
  have n: "agentCount (agentRun ''/w'' twoLevels (sampleTree 2 1)) = 3"
    "agParent (agentAt (agentRun ''/w'' twoLevels (sampleTree 2 1)) 1) = Some 0"
    "agModelCalls (agentAt (agentRun ''/w'' twoLevels (sampleTree 2 1)) 0) = 1" by code_simp+
  have "0 \<le> mpMaxChildDepth (raManagedPolicy (sampleRun 2))" by (simp add: sampleRun_def)
  from child_budget_share [OF this refl, of 1 "''/w''" twoLevels "''m''" 1 1000 "Some DEFAULT_SUBAGENT_LIMITS" 0] n
  show ?thesis by (simp add: sampleTree_def)
qed

text \<open>
  A managed policy that allows no child depth at all does not stop delegation: admission asks only for the
  supervisor's own depth limit, so children and grandchildren are spawned all the same.
\<close>

theorem managed_depth_ignored:
  "mpMaxChildDepth (raManagedPolicy (sampleRun 0)) = 0 \<and>
   map (\<lambda>ag. svDepth (agSupervisor ag)) (atAgents (agentRun ''/w'' twoLevels (sampleTree 0 20))) = [0, 1, 2]"
  by code_simp

end
