(* ===== verification/Hook_Registry.thy ===== *)
theory Hook_Registry
  imports Policy_Rules "HOL-Library.Product_Lexorder"
begin

text \<open>
  \<^verbatim>\<open>packages/hooks/src/events.ts\<close>, \<^verbatim>\<open>outcome.ts\<close> and \<^verbatim>\<open>registry.ts\<close>: the events, what a hook may answer
  and how the answer is read from untrusted JSON, and which registered hooks run for an invocation and in
  what order.
\<close>

subsection \<open>Events\<close>

datatype hookEvent =
    E_PreToolUse | E_PostToolUse | E_PostToolUseFailure | E_SessionStart | E_SessionEnd | E_Stop | E_StopFailure | E_Setup
  | E_UserPromptSubmit | E_Notification | E_PermissionRequest | E_PermissionDenied | E_SubagentStart | E_SubagentStop
  | E_PreCompact | E_PostCompact | E_TeammateIdle | E_TaskCreated | E_TaskCompleted | E_Elicitation | E_ElicitationResult
  | E_ConfigChange | E_WorktreeCreate | E_WorktreeRemove | E_InstructionsLoaded | E_CwdChanged | E_FileChanged
  | E_UserPromptExpansion | E_MessageDisplay | E_PostToolBatch

definition HOOK_EVENTS :: "(string \<times> hookEvent) list" where
  "HOOK_EVENTS =
     [(''PreToolUse'', E_PreToolUse), (''PostToolUse'', E_PostToolUse), (''PostToolUseFailure'', E_PostToolUseFailure),
      (''SessionStart'', E_SessionStart), (''SessionEnd'', E_SessionEnd), (''Stop'', E_Stop), (''StopFailure'', E_StopFailure),
      (''Setup'', E_Setup), (''UserPromptSubmit'', E_UserPromptSubmit), (''Notification'', E_Notification),
      (''PermissionRequest'', E_PermissionRequest), (''PermissionDenied'', E_PermissionDenied),
      (''SubagentStart'', E_SubagentStart), (''SubagentStop'', E_SubagentStop), (''PreCompact'', E_PreCompact),
      (''PostCompact'', E_PostCompact), (''TeammateIdle'', E_TeammateIdle), (''TaskCreated'', E_TaskCreated),
      (''TaskCompleted'', E_TaskCompleted), (''Elicitation'', E_Elicitation), (''ElicitationResult'', E_ElicitationResult),
      (''ConfigChange'', E_ConfigChange), (''WorktreeCreate'', E_WorktreeCreate), (''WorktreeRemove'', E_WorktreeRemove),
      (''InstructionsLoaded'', E_InstructionsLoaded), (''CwdChanged'', E_CwdChanged), (''FileChanged'', E_FileChanged),
      (''UserPromptExpansion'', E_UserPromptExpansion), (''MessageDisplay'', E_MessageDisplay), (''PostToolBatch'', E_PostToolBatch)]"

text \<open>A name that is no event is a programming error of its caller.\<close>

definition isHookEvent :: "string \<Rightarrow> hookEvent option" where
  "isHookEvent name = map_of HOOK_EVENTS name"

definition POST_TOOL_EVENTS :: "hookEvent list" where
  "POST_TOOL_EVENTS = [E_PostToolUse, E_PostToolUseFailure, E_PostToolBatch]"

definition isPostToolEvent :: "hookEvent \<Rightarrow> bool" where
  "isPostToolEvent event \<longleftrightarrow> event \<in> set POST_TOOL_EVENTS"

subsection \<open>Outcomes\<close>

record hookReason =
  hrCode :: string
  hrMessage :: string

datatype hookAnswer =
    O_continue
  | O_block hookReason
  | O_context string
  | O_modify jsValue
  | O_allow hookReason
  | O_passthrough hookReason
  | O_deny hookReason
  | O_ask hookReason
  | O_stop hookReason
  | O_annotate "(string \<times> string) list"

fun outcomeType :: "hookAnswer \<Rightarrow> string" where
  "outcomeType O_continue = ''continue''"
| "outcomeType (O_block r) = ''block''"
| "outcomeType (O_context t) = ''context''"
| "outcomeType (O_modify v) = ''modify''"
| "outcomeType (O_allow r) = ''allow''"
| "outcomeType (O_passthrough r) = ''passthrough''"
| "outcomeType (O_deny r) = ''deny''"
| "outcomeType (O_ask r) = ''ask''"
| "outcomeType (O_stop r) = ''stop''"
| "outcomeType (O_annotate a) = ''annotate''"

definition DEFAULT_REASON :: hookReason where
  "DEFAULT_REASON = \<lparr>hrCode = ''hook'', hrMessage = []\<rparr>"

text \<open>A property of an object; a missing one reads as undefined.\<close>

fun fieldValue :: "jsValue \<Rightarrow> string \<Rightarrow> jsValue" where
  "fieldValue (JsObj entries) key = (case map_of entries key of None \<Rightarrow> JsUndefined | Some v \<Rightarrow> v)"
| "fieldValue _ key = JsUndefined"

fun boundedStr :: "nat \<Rightarrow> nat \<Rightarrow> jsValue \<Rightarrow> string option" where
  "boundedStr lo hi (JsStr s) = (if lo \<le> length s \<and> length s \<le> hi then Some s else None)"
| "boundedStr lo hi _ = None"

text \<open>\<^verbatim>\<open>HookReasonSchema\<close> with its default: a string, or an object with a code and a message.\<close>

fun parseReason :: "jsValue \<Rightarrow> hookReason option" where
  "parseReason JsUndefined = Some DEFAULT_REASON"
| "parseReason (JsStr s) = (if length s \<le> 4000 then Some \<lparr>hrCode = ''hook'', hrMessage = s\<rparr> else None)"
| "parseReason (JsObj entries) =
     (case (boundedStr 1 120 (fieldValue (JsObj entries) ''code''), boundedStr 0 4000 (fieldValue (JsObj entries) ''message'')) of
        (Some c, Some msg) \<Rightarrow> Some \<lparr>hrCode = c, hrMessage = msg\<rparr>
      | _ \<Rightarrow> None)"
| "parseReason _ = None"

fun parseAnnotation :: "jsValue \<Rightarrow> (string \<times> string) option" where
  "parseAnnotation (JsObj entries) =
     (case (boundedStr 1 200 (fieldValue (JsObj entries) ''key''), boundedStr 0 4000 (fieldValue (JsObj entries) ''value'')) of
        (Some k, Some v) \<Rightarrow> Some (k, v)
      | _ \<Rightarrow> None)"
| "parseAnnotation _ = None"

fun parseAnnotations :: "jsValue list \<Rightarrow> (string \<times> string) list option" where
  "parseAnnotations [] = Some []"
| "parseAnnotations (v # vs) =
     (case (parseAnnotation v, parseAnnotations vs) of (Some a, Some as) \<Rightarrow> Some (a # as) | _ \<Rightarrow> None)"

text \<open>\<^verbatim>\<open>HookOutcomeSchema\<close>: anything that is not one of the ten shapes is refused.\<close>

definition parseHookOutcome :: "jsValue \<Rightarrow> hookAnswer option" where
  "parseHookOutcome raw =
     (let reason = parseReason (fieldValue raw ''reason'') in
      case fieldValue raw ''type'' of
        JsStr t \<Rightarrow>
          if t = ''continue'' then Some O_continue
          else if t = ''block'' then map_option O_block reason
          else if t = ''context'' then map_option O_context (boundedStr 0 100000 (fieldValue raw ''text''))
          else if t = ''modify'' then (case fieldValue raw ''toolInput'' of JsObj e \<Rightarrow> Some (O_modify (JsObj e)) | _ \<Rightarrow> None)
          else if t = ''allow'' then map_option O_allow reason
          else if t = ''passthrough'' then map_option O_passthrough reason
          else if t = ''deny'' then map_option O_deny reason
          else if t = ''ask'' then map_option O_ask reason
          else if t = ''stop'' then map_option O_stop reason
          else if t = ''annotate''
            then (case fieldValue raw ''annotations'' of
                    JsArr vs \<Rightarrow> if length vs \<le> 100 then map_option O_annotate (parseAnnotations vs) else None
                  | _ \<Rightarrow> None)
          else None
      | _ \<Rightarrow> None)"

subsection \<open>Invocations and registrations\<close>

record hookInvocation =
  hiEvent :: hookEvent
  hiToolName :: "string option"
  hiToolInput :: "jsValue option"
  hiPaths :: "string list option"
  hiCurrentDecision :: "outcome option"
  hiCorrelationId :: "string option"
  hiData :: jsValue

datatype hookHandler =
    FunctionHandler "hookInvocation \<Rightarrow> string + hookAnswer"
  | CommandHandler string "string list" "string option" "(string \<times> string) list" "int option"
  | HttpHandler string "string option" "(string \<times> string) list" "int option"
  | PromptHandler string "int option"
  | AgentHandler string jsValue "int option"

fun handlerKind :: "hookHandler \<Rightarrow> string" where
  "handlerKind (FunctionHandler f) = ''function''"
| "handlerKind (CommandHandler c a d e t) = ''command''"
| "handlerKind (HttpHandler u m h t) = ''http''"
| "handlerKind (PromptHandler p t) = ''prompt''"
| "handlerKind (AgentHandler a i t) = ''agent''"

record hookMatcher =
  hmToolName :: "string option"
  hmPathGlob :: "string option"
  hmCondition :: "(hookInvocation \<Rightarrow> bool) option"

record hookRegistration =
  hgId :: string
  hgEvent :: string
  hgHandler :: hookHandler
  hgMatcher :: "hookMatcher option"
  hgPriority :: "int option"

record storedHook =
  shRegistration :: hookRegistration
  shSeq :: nat

subsection \<open>Globs\<close>

text \<open>The glob of the hooks package; after \<^verbatim>\<open>**\<close> a slash is swallowed.\<close>

fun hookGlob :: "string \<Rightarrow> rx list" where
  "hookGlob [] = []"
| "hookGlob (c # r) =
     (if c = CHR ''*'' then
        (case r of
           d # r2 \<Rightarrow>
             if d = CHR ''*'' then
               (case r2 of
                  e # r3 \<Rightarrow> if e = SLASH then DotStar # hookGlob r3 else DotStar # hookGlob r2
                | [] \<Rightarrow> [DotStar])
             else NotSlashStar # hookGlob r
         | [] \<Rightarrow> [NotSlashStar])
      else if c = CHR ''?'' then NotSlash # hookGlob r
      else Lit c # hookGlob r)"

definition globTest :: "string \<Rightarrow> string \<Rightarrow> bool" where
  "globTest glob s = rxMatch (hookGlob glob) s"

definition matcherApplies :: "hookMatcher option \<Rightarrow> hookInvocation \<Rightarrow> bool" where
  "matcherApplies matcher iv =
     (case matcher of
        None \<Rightarrow> True
      | Some mt \<Rightarrow>
          (case hmToolName mt of
             None \<Rightarrow> True
           | Some g \<Rightarrow> (case hiToolName iv of None \<Rightarrow> False | Some name \<Rightarrow> globTest g name)) \<and>
          (case hmPathGlob mt of
             None \<Rightarrow> True
           | Some g \<Rightarrow> list_ex (globTest g) (case hiPaths iv of None \<Rightarrow> [] | Some ps \<Rightarrow> ps)) \<and>
          (case hmCondition mt of None \<Rightarrow> True | Some cond \<Rightarrow> cond iv))"

subsection \<open>The registry\<close>

record hookRegistry =
  rgByEvent :: "hookEvent \<Rightarrow> storedHook list"
  rgIds :: "string list"
  rgSeq :: nat

datatype registryError = UnknownEvent string | DuplicateHook string

definition emptyRegistry :: hookRegistry where
  "emptyRegistry = \<lparr>rgByEvent = (\<lambda>_. []), rgIds = [], rgSeq = 0\<rparr>"

definition registerHook :: "hookRegistration \<Rightarrow> hookRegistry \<Rightarrow> registryError + hookRegistry" where
  "registerHook r rg =
     (case isHookEvent (hgEvent r) of
        None \<Rightarrow> Inl (UnknownEvent (hgEvent r))
      | Some event \<Rightarrow>
          if hgId r \<in> set (rgIds rg) then Inl (DuplicateHook (hgId r))
          else Inr (rg\<lparr>rgIds := rgIds rg @ [hgId r],
                 rgByEvent := (rgByEvent rg)(event := rgByEvent rg event @ [\<lparr>shRegistration = r, shSeq = rgSeq rg\<rparr>]),
                 rgSeq := Suc (rgSeq rg)\<rparr>))"

definition unregisterHook :: "string \<Rightarrow> hookRegistry \<Rightarrow> bool \<times> hookRegistry" where
  "unregisterHook hid rg =
     (if hid \<notin> set (rgIds rg) then (False, rg)
      else (True, rg\<lparr>rgIds := filter (\<lambda>i. i \<noteq> hid) (rgIds rg),
              rgByEvent := (\<lambda>event. filter (\<lambda>s. hgId (shRegistration s) \<noteq> hid) (rgByEvent rg event))\<rparr>))"

definition priorityOf :: "storedHook \<Rightarrow> int" where
  "priorityOf s = (case hgPriority (shRegistration s) of None \<Rightarrow> 0 | Some p \<Rightarrow> p)"

text \<open>\<^verbatim>\<open>#ordered\<close>: a stable sort by priority, then by the order of registration.\<close>

definition orderedHooks :: "storedHook list \<Rightarrow> hookRegistration list" where
  "orderedHooks stored = map shRegistration (sort_key (\<lambda>s. (priorityOf s, shSeq s)) stored)"

definition forEvent :: "hookEvent \<Rightarrow> hookRegistry \<Rightarrow> hookRegistration list" where
  "forEvent event rg = orderedHooks (rgByEvent rg event)"

definition matchingHooks :: "hookInvocation \<Rightarrow> hookRegistry \<Rightarrow> hookRegistration list" where
  "matchingHooks iv rg =
     orderedHooks (filter (\<lambda>s. matcherApplies (hgMatcher (shRegistration s)) iv) (rgByEvent rg (hiEvent iv)))"

end
