(* ===== verification/Hook_Engine.thy ===== *)
theory Hook_Engine
  imports Hook_Registry
begin

text \<open>
  \<^verbatim>\<open>packages/hooks/src/engine.ts\<close> and \<^verbatim>\<open>result.ts\<close>: one handler under its deadline, the fold of the outcomes
  into one attributed result, the guard against a re-entrant Stop; and the adapter of \<^verbatim>\<open>apps/cli/src/hooks.ts\<close>
  that the turn engine calls. What a process, a server, a model or a subagent answers, and which of
  handler, deadline and cancellation is first, are parameters. The terminal sanitizer is one too.
\<close>

subsection \<open>Results\<close>

datatype hookFailureKind =
    F_timeout | F_cancelled | F_nonzero_exit | F_spawn_error | F_transport | F_malformed_output | F_exception | F_misconfigured

fun failureName :: "hookFailureKind \<Rightarrow> string" where
  "failureName F_timeout = ''timeout''"
| "failureName F_cancelled = ''cancelled''"
| "failureName F_nonzero_exit = ''nonzero-exit''"
| "failureName F_spawn_error = ''spawn-error''"
| "failureName F_transport = ''transport''"
| "failureName F_malformed_output = ''malformed-output''"
| "failureName F_exception = ''exception''"
| "failureName F_misconfigured = ''misconfigured''"

record hookFailure =
  hfKind :: hookFailureKind
  hfMessage :: string
  hfDetail :: "string option"

record ignoredElevation =
  ieHookId :: string
  ieRequested :: string
  ieReason :: hookReason

record hookInvocationRecord =
  arHookId :: string
  arForm :: string
  arOutcome :: string
  arNote :: string

record foldedHookResult =
  frEvent :: hookEvent
  frRanHandlers :: nat
  frBlocked :: bool
  frBlockReason :: "(string \<times> hookReason) option"
  frDecision :: outcome
  frDecisionChanged :: bool
  frModifications :: "(string \<times> jsValue) list"
  frModifiedInput :: "(string \<times> jsValue) option"
  frInjectedContext :: "(string \<times> string \<times> bool) list"
  frStopped :: bool
  frStopReason :: "(string \<times> hookReason) option"
  frResultDurable :: bool
  frAnnotations :: "(string \<times> (string \<times> string) list) list"
  frIgnoredElevations :: "ignoredElevation list"
  frFailures :: "(string \<times> hookFailure) list"
  frStopReentryRefused :: bool
  frAudit :: "hookInvocationRecord list"

fun hookRestrictiveness :: "outcome \<Rightarrow> nat" where
  "hookRestrictiveness Passthrough = 0"
| "hookRestrictiveness (Eff Allow) = 0"
| "hookRestrictiveness (Eff Ask) = 1"
| "hookRestrictiveness (Eff Deny) = 2"

definition mostRestrictive :: "outcome \<Rightarrow> outcome \<Rightarrow> outcome" where
  "mostRestrictive current candidate =
     (if hookRestrictiveness candidate > hookRestrictiveness current then candidate else current)"

subsection \<open>One handler\<close>

record commandResult =
  crExitCode :: "int option"
  crTermSignal :: "string option"
  crStdout :: string
  crStderr :: string
  crSpawnError :: "string option"
  crAborted :: bool

datatype deadline = Settled | TimedOut | Cancelled

datatype handlerResult = HandlerOutcome hookAnswer "string option" | HandlerFailure hookFailure

record hookEnv =
  heExecutor :: "(hookHandler \<Rightarrow> hookInvocation \<Rightarrow> commandResult) option"
  heNetwork :: "(hookHandler \<Rightarrow> hookInvocation \<Rightarrow> string + int \<times> string) option"
  hePrompt :: "(hookHandler \<Rightarrow> hookInvocation \<Rightarrow> string + hookAnswer) option"
  heAgent :: "(hookHandler \<Rightarrow> hookInvocation \<Rightarrow> string + hookAnswer) option"
  heParseJson :: "string \<Rightarrow> string + jsValue"
  heZodError :: "jsValue \<Rightarrow> string"
  heSanitize :: "string \<Rightarrow> string \<times> bool"
  heRace :: "string \<Rightarrow> deadline"
  heDefaultTimeoutMs :: "int option"

definition DEFAULT_TIMEOUT_MS :: int where
  "DEFAULT_TIMEOUT_MS = 30000"

fun ownTimeout :: "hookHandler \<Rightarrow> int option" where
  "ownTimeout (FunctionHandler f) = None"
| "ownTimeout (CommandHandler c a d e t) = t"
| "ownTimeout (HttpHandler u m h t) = t"
| "ownTimeout (PromptHandler p t) = t"
| "ownTimeout (AgentHandler a i t) = t"

definition handlerTimeout :: "hookHandler \<Rightarrow> int option \<Rightarrow> int" where
  "handlerTimeout h fallback =
     (case ownTimeout h of Some t \<Rightarrow> t | None \<Rightarrow> (case fallback of Some t \<Rightarrow> t | None \<Rightarrow> DEFAULT_TIMEOUT_MS))"

definition failed :: "hookFailureKind \<Rightarrow> string \<Rightarrow> string option \<Rightarrow> handlerResult" where
  "failed kind msg detail = HandlerFailure \<lparr>hfKind = kind, hfMessage = msg, hfDetail = detail\<rparr>"

definition orUndefined :: "string \<Rightarrow> string option" where
  "orUndefined s = (if s = [] then None else Some s)"

definition parseJsonOutcome :: "hookEnv \<Rightarrow> string \<Rightarrow> string option \<Rightarrow> handlerResult" where
  "parseJsonOutcome env text note =
     (case heParseJson env text of
        Inl err \<Rightarrow> failed F_malformed_output (''hook output was not valid JSON: '' @ err) None
      | Inr raw \<Rightarrow>
          (case parseHookOutcome raw of
             None \<Rightarrow> failed F_malformed_output (''hook output was not a valid outcome: '' @ heZodError env raw) None
           | Some oc \<Rightarrow> HandlerOutcome oc note))"

definition interpretStdout :: "hookEnv \<Rightarrow> string \<Rightarrow> string \<Rightarrow> handlerResult" where
  "interpretStdout env out err =
     (let trimmed = trim out; note = (if err = [] then None else Some ''stderr present'') in
      if trimmed = [] then HandlerOutcome O_continue note else parseJsonOutcome env trimmed note)"

definition interpretBody :: "hookEnv \<Rightarrow> string \<Rightarrow> handlerResult" where
  "interpretBody env body =
     (let trimmed = trim body in
      if trimmed = [] then HandlerOutcome O_continue None else parseJsonOutcome env trimmed None)"

definition commandOutcome :: "hookEnv \<Rightarrow> commandResult \<Rightarrow> handlerResult" where
  "commandOutcome env r =
     (case crSpawnError r of
        Some err \<Rightarrow> failed F_spawn_error err (orUndefined (crStderr r))
      | None \<Rightarrow>
          if crAborted r then failed F_cancelled ''command hook was cancelled'' (orUndefined (crStderr r))
          else if crExitCode r \<noteq> Some 0
          then failed F_nonzero_exit
                 (''command hook exited with code '' @ (case crExitCode r of None \<Rightarrow> ''null'' | Some c \<Rightarrow> intStr c) @
                  (case crTermSignal r of None \<Rightarrow> [] | Some s \<Rightarrow> '' (signal '' @ s @ '')''))
                 (orUndefined (crStderr r))
          else interpretStdout env (crStdout r) (crStderr r))"

text \<open>\<^verbatim>\<open>#dispatch\<close>; an exception of a handler is its left value.\<close>

definition dispatch :: "hookEnv \<Rightarrow> hookHandler \<Rightarrow> hookInvocation \<Rightarrow> string + handlerResult" where
  "dispatch env h iv =
     (case h of
        FunctionHandler f \<Rightarrow> map_sum id (\<lambda>oc. HandlerOutcome oc None) (f iv)
      | CommandHandler c a d e t \<Rightarrow>
          (case heExecutor env of
             None \<Rightarrow> Inr (failed F_misconfigured ''command hook registered but no command executor injected'' None)
           | Some run \<Rightarrow> Inr (commandOutcome env (run h iv)))
      | HttpHandler u mt hs t \<Rightarrow>
          (case heNetwork env of
             None \<Rightarrow> Inr (failed F_misconfigured ''http hook registered but no network broker injected'' None)
           | Some fetch \<Rightarrow>
               (case fetch h iv of
                  Inl err \<Rightarrow> Inl err
                | Inr (status, body) \<Rightarrow>
                    Inr (if status < 200 \<or> status \<ge> 300
                         then failed F_transport (''http hook returned status '' @ intStr status) (Some body)
                         else interpretBody env body)))
      | PromptHandler p t \<Rightarrow>
          (case hePrompt env of
             None \<Rightarrow> Inr (failed F_misconfigured ''prompt hook registered but no prompt runner injected'' None)
           | Some run \<Rightarrow> map_sum id (\<lambda>oc. HandlerOutcome oc None) (run h iv))
      | AgentHandler a i t \<Rightarrow>
          (case heAgent env of
             None \<Rightarrow> Inr (failed F_misconfigured ''agent hook registered but no agent runner injected'' None)
           | Some run \<Rightarrow> map_sum id (\<lambda>oc. HandlerOutcome oc None) (run h iv)))"

definition invokeHook :: "hookEnv \<Rightarrow> hookRegistration \<Rightarrow> hookInvocation \<Rightarrow> handlerResult" where
  "invokeHook env r iv =
     (case heRace env (hgId r) of
        TimedOut \<Rightarrow> failed F_timeout (''hook exceeded its '' @ intStr (handlerTimeout (hgHandler r) (heDefaultTimeoutMs env)) @
                      ''ms deadline and was cancelled'') None
      | Cancelled \<Rightarrow> failed F_cancelled ''hook run was cancelled'' None
      | Settled \<Rightarrow> (case dispatch env (hgHandler r) iv of Inl err \<Rightarrow> failed F_exception err None | Inr res \<Rightarrow> res))"

subsection \<open>The fold\<close>

text \<open>The accumulators of \<^verbatim>\<open>#runInner\<close> are the fields of the result.\<close>

definition startResult :: "hookEvent \<Rightarrow> outcome \<Rightarrow> foldedHookResult" where
  "startResult event base = \<lparr>frEvent = event, frRanHandlers = 0, frBlocked = False, frBlockReason = None, frDecision = base,
     frDecisionChanged = False, frModifications = [], frModifiedInput = None, frInjectedContext = [], frStopped = False,
     frStopReason = None, frResultDurable = isPostToolEvent event, frAnnotations = [], frIgnoredElevations = [],
     frFailures = [], frStopReentryRefused = False, frAudit = []\<rparr>"

definition record_stop :: "string \<Rightarrow> hookReason \<Rightarrow> foldedHookResult \<Rightarrow> foldedHookResult" where
  "record_stop hid reason s = s\<lparr>frStopped := True,
     frStopReason := (case frStopReason s of None \<Rightarrow> Some (hid, reason) | Some r \<Rightarrow> Some r)\<rparr>"

definition applyOutcome :: "hookEnv \<Rightarrow> hookEvent \<Rightarrow> string \<Rightarrow> hookAnswer \<Rightarrow> foldedHookResult \<Rightarrow> foldedHookResult" where
  "applyOutcome env event hid oc s =
     (case oc of
        O_continue \<Rightarrow> s
      | O_block reason \<Rightarrow>
          if isPostToolEvent event then record_stop hid reason s
          else s\<lparr>frBlocked := True, frBlockReason := Some (hid, reason), frDecision := mostRestrictive (frDecision s) (Eff Deny)\<rparr>
      | O_context text \<Rightarrow> s\<lparr>frInjectedContext := frInjectedContext s @ [(hid, heSanitize env text)]\<rparr>
      | O_modify v \<Rightarrow> s\<lparr>frModifications := frModifications s @ [(hid, v)]\<rparr>
      | O_allow reason \<Rightarrow> s\<lparr>frIgnoredElevations := frIgnoredElevations s @ [\<lparr>ieHookId = hid, ieRequested = ''allow'', ieReason = reason\<rparr>]\<rparr>
      | O_passthrough reason \<Rightarrow> s\<lparr>frIgnoredElevations := frIgnoredElevations s @ [\<lparr>ieHookId = hid, ieRequested = ''passthrough'', ieReason = reason\<rparr>]\<rparr>
      | O_deny reason \<Rightarrow> s\<lparr>frDecision := mostRestrictive (frDecision s) (Eff Deny)\<rparr>
      | O_ask reason \<Rightarrow> s\<lparr>frDecision := mostRestrictive (frDecision s) (Eff Ask)\<rparr>
      | O_stop reason \<Rightarrow> if event = E_Stop then s\<lparr>frStopReentryRefused := True\<rparr> else record_stop hid reason s
      | O_annotate a \<Rightarrow> s\<lparr>frAnnotations := frAnnotations s @ [(hid, a)]\<rparr>)"

definition auditLine :: "hookRegistration \<Rightarrow> string \<Rightarrow> string \<Rightarrow> hookInvocationRecord" where
  "auditLine r oc note = \<lparr>arHookId = hgId r, arForm = handlerKind (hgHandler r), arOutcome = oc, arNote = note\<rparr>"

definition foldHook :: "hookEnv \<Rightarrow> hookInvocation \<Rightarrow> hookRegistration \<Rightarrow> foldedHookResult \<Rightarrow> foldedHookResult" where
  "foldHook env iv r s =
     (if frBlocked s
      then s\<lparr>frAudit := frAudit s @ [auditLine r ''skipped'' ''skipped: a prior hook blocked the action'']\<rparr>
      else
        let s1 = s\<lparr>frRanHandlers := Suc (frRanHandlers s)\<rparr> in
        case invokeHook env r iv of
          HandlerFailure f \<Rightarrow>
            s1\<lparr>frFailures := frFailures s1 @ [(hgId r, f)],
               frAudit := frAudit s1 @ [auditLine r ''failure'' (failureName (hfKind f) @ '': '' @ hfMessage f)]\<rparr>
        | HandlerOutcome oc note \<Rightarrow>
            applyOutcome env (hiEvent iv) (hgId r) oc
              (s1\<lparr>frAudit := frAudit s1 @ [auditLine r (outcomeType oc)
                 (outcomeType oc @ (case note of None \<Rightarrow> [] | Some n \<Rightarrow> '' ('' @ n @ '')''))]\<rparr>))"

definition lastOf :: "'a list \<Rightarrow> 'a option" where
  "lastOf xs = (if xs = [] then None else Some (last xs))"

definition runInner :: "hookEnv \<Rightarrow> hookRegistry \<Rightarrow> hookInvocation \<Rightarrow> outcome \<Rightarrow> foldedHookResult" where
  "runInner env rg iv base =
     (let s = fold (foldHook env iv) (matchingHooks iv rg) (startResult (hiEvent iv) base)
      in s\<lparr>frDecisionChanged := (frDecision s \<noteq> base), frModifiedInput := lastOf (frModifications s)\<rparr>)"

definition refusedStopResult :: "hookEvent \<Rightarrow> outcome \<Rightarrow> foldedHookResult" where
  "refusedStopResult event base = (startResult event base)\<lparr>frResultDurable := False, frStopReentryRefused := True,
     frAudit := [\<lparr>arHookId = ''<engine>'', arForm = ''engine'', arOutcome = ''skipped'',
        arNote = ''Stop is already in progress; re-entrant Stop refused (HK-05)''\<rparr>]\<rparr>"

text \<open>\<^verbatim>\<open>run\<close> with the flag it finds; while it runs the flag is set when the event is Stop.\<close>

definition runHooks :: "hookEnv \<Rightarrow> hookRegistry \<Rightarrow> bool \<Rightarrow> hookInvocation \<Rightarrow> foldedHookResult" where
  "runHooks env rg stopInProgress iv =
     (let base = (case hiCurrentDecision iv of None \<Rightarrow> Eff Allow | Some d \<Rightarrow> d) in
      if hiEvent iv = E_Stop \<and> stopInProgress then refusedStopResult (hiEvent iv) base
      else runInner env rg iv base)"

subsection \<open>The adapter for turns\<close>

definition foldOutcome :: "string \<Rightarrow> string" where
  "foldOutcome oc =
     (if oc \<in> {''block'', ''deny''} then ''block''
      else if oc \<in> {''context'', ''modify'', ''stop''} then oc
      else ''continue'')"

text \<open>The events \<^verbatim>\<open>onFired\<close> gets: one per handler that ran.\<close>

definition firedRecords :: "foldedHookResult \<Rightarrow> (string \<times> string) list" where
  "firedRecords s =
     map (\<lambda>a. (arHookId a, foldOutcome (arOutcome a))) (filter (\<lambda>a. arOutcome a \<noteq> ''skipped'') (frAudit s))"

definition toolInvocation :: "string \<Rightarrow> hookEvent \<Rightarrow> string \<Rightarrow> jsValue option \<Rightarrow> jsValue \<Rightarrow> hookInvocation" where
  "toolInvocation correlation event toolName toolInput dat = \<lparr>hiEvent = event, hiToolName = Some toolName, hiToolInput = toolInput,
     hiPaths = None, hiCurrentDecision = None, hiCorrelationId = Some correlation, hiData = dat\<rparr>"

definition preToolUse :: "hookEnv \<Rightarrow> hookRegistry \<Rightarrow> string \<Rightarrow> string \<Rightarrow> jsValue \<Rightarrow> (bool \<times> string option) \<times> foldedHookResult" where
  "preToolUse env rg correlation toolName arguments =
     (let result = runHooks env rg False (toolInvocation correlation E_PreToolUse toolName (Some arguments) (JsObj []))
      in ((frBlocked result, map_option (hrMessage \<circ> snd) (frBlockReason result)), result))"

definition FILE_MUTATING_TOOLS :: "string list" where
  "FILE_MUTATING_TOOLS = [''write_file'', ''edit_file'', ''apply_patch'']"

definition postToolUse :: "hookEnv \<Rightarrow> hookRegistry \<Rightarrow> string \<Rightarrow> string \<Rightarrow> bool \<Rightarrow> bool \<times> foldedHookResult list" where
  "postToolUse env rg correlation toolName ok =
     (let result = runHooks env rg False (toolInvocation correlation (if ok then E_PostToolUse else E_PostToolUseFailure)
             toolName None (JsObj [(''ok'', JsBool ok)]));
          changed = (if ok \<and> toolName \<in> set FILE_MUTATING_TOOLS
             then [runHooks env rg False (toolInvocation correlation E_FileChanged toolName None (JsObj [(''tool'', JsStr toolName)]))]
             else [])
      in (frStopped result, result # changed))"

end
