(* ===== verification/Hook_Theorems.thy ===== *)
theory Hook_Theorems
  imports Hook_Engine "HOL-Library.Multiset"
begin

text \<open>
  What the hooks guarantee: the order in which they run, the exact effect of the fold, what a failing hook
  and a hook after the fact can do; and where the adapter for turns leaves out what a hook asked for.
\<close>

subsection \<open>The order of hooks\<close>

datatype registryOp = Register hookRegistration | Unregister string

fun registryStep :: "registryOp \<Rightarrow> hookRegistry \<Rightarrow> hookRegistry" where
  "registryStep (Register r) rg = (case registerHook r rg of Inl e \<Rightarrow> rg | Inr rg' \<Rightarrow> rg')"
| "registryStep (Unregister i) rg = snd (unregisterHook i rg)"

definition registryOf :: "registryOp list \<Rightarrow> hookRegistry" where
  "registryOf ops = fold registryStep ops emptyRegistry"

definition registryOk :: "hookRegistry \<Rightarrow> bool" where
  "registryOk rg \<longleftrightarrow> (\<forall>event. sorted_wrt (<) (map shSeq (rgByEvent rg event)) \<and> (\<forall>s \<in> set (rgByEvent rg event). shSeq s < rgSeq rg))"

lemma registryStep_ok:
  assumes "registryOk rg"
  shows "registryOk (registryStep op rg)"
proof (cases op)
  case (Register r)
  show ?thesis
  proof (cases "registerHook r rg")
    case (Inr rg')
    have "sorted_wrt (<) (map shSeq (rgByEvent rg' event)) \<and> (\<forall>s \<in> set (rgByEvent rg' event). shSeq s < rgSeq rg')" for event
      using assms Inr by (auto simp: registryOk_def registerHook_def sorted_wrt_append less_Suc_eq split: option.splits if_splits)
    then show ?thesis using Register Inr by (simp add: registryOk_def)
  qed (use Register assms in simp)
next
  case (Unregister i)
  then show ?thesis using assms
    by (auto simp: registryOk_def unregisterHook_def sorted_wrt_map intro: sorted_wrt_filter)
qed

lemma registryOf_ok: "registryOk (registryOf ops)"
proof -
  have "registryOk rg \<Longrightarrow> registryOk (fold registryStep ops rg)" for rg
    by (induction ops arbitrary: rg) (simp_all add: registryStep_ok)
  moreover have "registryOk emptyRegistry" by (simp add: registryOk_def emptyRegistry_def)
  ultimately show ?thesis by (simp add: registryOf_def)
qed

lemma orderedHooks_stable:
  assumes "sorted_wrt (<) (map shSeq xs)"
  shows "orderedHooks xs = map shRegistration (sort_key priorityOf xs)"
proof -
  let ?f = "\<lambda>s. (priorityOf s, shSeq s)"
  have "sort_key priorityOf xs = sort_key ?f xs"
  proof (rule properties_for_sort_key)
    show "mset (sort_key ?f xs) = mset xs" by simp
    show "sorted (map priorityOf (sort_key ?f xs))"
    proof -
      have "sorted (map ?f (sort_key ?f xs))" by (rule sorted_sort_key)
      then have "sorted_wrt (\<lambda>a b. ?f a \<le> ?f b) (sort_key ?f xs)" by (simp only: sorted_wrt_map)
      then have "sorted_wrt (\<lambda>a b. priorityOf a \<le> priorityOf b) (sort_key ?f xs)"
        by (rule sorted_wrt_mono_rel [rotated]) (auto simp: less_eq_prod_def)
      then show ?thesis by (simp only: sorted_wrt_map)
    qed
    fix k
    assume "k \<in> set (sort_key ?f xs)"
    let ?zs = "filter (\<lambda>x. priorityOf k = priorityOf x) xs"
    have "sorted_wrt (\<lambda>a b. shSeq a < shSeq b) ?zs" using assms by (simp add: sorted_wrt_map sorted_wrt_filter)
    then have "sorted_wrt (\<lambda>a b. ?f a \<le> ?f b) ?zs"
      by (rule sorted_wrt_mono_rel [rotated]) (auto simp: less_eq_prod_def)
    then have "sorted (map ?f ?zs)" by (simp only: sorted_wrt_map)
    then have "sort_key ?f ?zs = ?zs" by (rule sort_key_id_if_sorted)
    then show "filter (\<lambda>x. priorityOf k = priorityOf x) (sort_key ?f xs) = ?zs" by (simp add: filter_sort)
  qed
  then show ?thesis by (simp add: orderedHooks_def)
qed

text \<open>
  In every registry the hooks of an invocation run in ascending order of priority, hooks of the same priority
  in the order in which they were registered.
\<close>

theorem lower_priority_first:
  "matchingHooks iv (registryOf ops) =
     map shRegistration (sort_key priorityOf
       (filter (\<lambda>s. matcherApplies (hgMatcher (shRegistration s)) iv) (rgByEvent (registryOf ops) (hiEvent iv))))"
proof -
  have "sorted_wrt (<) (map shSeq (rgByEvent (registryOf ops) (hiEvent iv)))" using registryOf_ok by (simp add: registryOk_def)
  then have "sorted_wrt (<) (map shSeq (filter (\<lambda>s. matcherApplies (hgMatcher (shRegistration s)) iv) (rgByEvent (registryOf ops) (hiEvent iv))))"
    by (simp add: sorted_wrt_map sorted_wrt_filter)
  then show ?thesis by (simp add: matchingHooks_def orderedHooks_stable)
qed

subsection \<open>The fold\<close>

definition hookEffect :: "outcome \<Rightarrow> effect" where
  "hookEffect oc = (case oc of Eff e \<Rightarrow> e | Passthrough \<Rightarrow> Allow)"

lemma hookEffect_simps [simp]: "hookEffect (Eff e) = e" "hookEffect Passthrough = Allow"
  by (simp_all add: hookEffect_def)

text \<open>What one handler's answer demands of the decision, and whether it stops the action.\<close>

definition blocksAction :: "hookEvent \<Rightarrow> handlerResult \<Rightarrow> bool" where
  "blocksAction event res \<longleftrightarrow> \<not> isPostToolEvent event \<and> (case res of HandlerOutcome (O_block r) n \<Rightarrow> True | _ \<Rightarrow> False)"

definition demand :: "hookEvent \<Rightarrow> handlerResult \<Rightarrow> effect" where
  "demand event res =
     (if blocksAction event res then Deny
      else (case res of HandlerOutcome (O_deny r) n \<Rightarrow> Deny | HandlerOutcome (O_ask r) n \<Rightarrow> Ask | _ \<Rightarrow> Allow))"

definition stopsTurn :: "hookEvent \<Rightarrow> handlerResult \<Rightarrow> bool" where
  "stopsTurn event res \<longleftrightarrow>
     (case res of
        HandlerOutcome (O_stop r) n \<Rightarrow> event \<noteq> E_Stop
      | HandlerOutcome (O_block r) n \<Rightarrow> isPostToolEvent event
      | _ \<Rightarrow> False)"

text \<open>The handlers that run: up to the first one that stops the action.\<close>

fun uptoFirst :: "('a \<Rightarrow> bool) \<Rightarrow> 'a list \<Rightarrow> 'a list" where
  "uptoFirst P [] = []"
| "uptoFirst P (x # xs) = (if P x then [x] else x # uptoFirst P xs)"

definition ranHooks :: "hookEnv \<Rightarrow> hookInvocation \<Rightarrow> hookRegistration list \<Rightarrow> hookRegistration list" where
  "ranHooks env iv regs = uptoFirst (\<lambda>r. blocksAction (hiEvent iv) (invokeHook env r iv)) regs"

lemma mostRestrictive_effect: "hookEffect (mostRestrictive a b) = max (hookEffect a) (hookEffect b)"
  by (cases a rule: hookRestrictiveness.cases; cases b rule: hookRestrictiveness.cases)
    (simp_all add: mostRestrictive_def hookEffect_def max_def)

lemma record_stop_fields [simp]:
  "frBlocked (record_stop i r s) = frBlocked s" "frDecision (record_stop i r s) = frDecision s"
  "frRanHandlers (record_stop i r s) = frRanHandlers s" "frStopped (record_stop i r s) = True" "frFailures (record_stop i r s) = frFailures s"
  "frResultDurable (record_stop i r s) = frResultDurable s"
  by (simp_all add: record_stop_def)

lemma foldHook_one:
  assumes "\<not> frBlocked s"
  shows "frBlocked (foldHook env iv r s) = blocksAction (hiEvent iv) (invokeHook env r iv)"
    "hookEffect (frDecision (foldHook env iv r s)) = max (hookEffect (frDecision s)) (demand (hiEvent iv) (invokeHook env r iv))"
    "frRanHandlers (foldHook env iv r s) = Suc (frRanHandlers s)"
    "frStopped (foldHook env iv r s) = (frStopped s \<or> stopsTurn (hiEvent iv) (invokeHook env r iv))"
    "frFailures (foldHook env iv r s) = frFailures s @ (case invokeHook env r iv of HandlerFailure f \<Rightarrow> [(hgId r, f)] | _ \<Rightarrow> [])"
  using assms
  by (auto simp: foldHook_def Let_def applyOutcome_def blocksAction_def demand_def stopsTurn_def mostRestrictive_effect
      split: handlerResult.split hookAnswer.split)

lemma foldHook_blocked:
  assumes "frBlocked s"
  shows "frBlocked (fold (foldHook env iv) regs s)" "frDecision (fold (foldHook env iv) regs s) = frDecision s"
    "frRanHandlers (fold (foldHook env iv) regs s) = frRanHandlers s" "frStopped (fold (foldHook env iv) regs s) = frStopped s"
    "frFailures (fold (foldHook env iv) regs s) = frFailures s"
  using assms by (induction regs arbitrary: s) (simp_all add: foldHook_def)

definition failuresOf :: "hookEnv \<Rightarrow> hookInvocation \<Rightarrow> hookRegistration list \<Rightarrow> (string \<times> hookFailure) list" where
  "failuresOf env iv regs =
     concat (map (\<lambda>r. case invokeHook env r iv of HandlerFailure f \<Rightarrow> [(hgId r, f)] | _ \<Rightarrow> []) regs)"

lemma fold_exact:
  assumes "\<not> frBlocked s"
  shows "frBlocked (fold (foldHook env iv) regs s) = (\<exists>r \<in> set regs. blocksAction (hiEvent iv) (invokeHook env r iv)) \<and>
    hookEffect (frDecision (fold (foldHook env iv) regs s)) =
      fold max (map (\<lambda>r. demand (hiEvent iv) (invokeHook env r iv)) (ranHooks env iv regs)) (hookEffect (frDecision s)) \<and>
    frRanHandlers (fold (foldHook env iv) regs s) = frRanHandlers s + length (ranHooks env iv regs) \<and>
    frStopped (fold (foldHook env iv) regs s) = (frStopped s \<or> (\<exists>r \<in> set (ranHooks env iv regs). stopsTurn (hiEvent iv) (invokeHook env r iv))) \<and>
    frFailures (fold (foldHook env iv) regs s) = frFailures s @ failuresOf env iv (ranHooks env iv regs)"
  using assms
proof (induction regs arbitrary: s)
  case Nil
  then show ?case by (simp add: ranHooks_def failuresOf_def)
next
  case (Cons r regs)
  note one = foldHook_one [OF Cons.prems, of env iv r]
  show ?case
  proof (cases "blocksAction (hiEvent iv) (invokeHook env r iv)")
    case True
    then have b: "frBlocked (foldHook env iv r s)" using one(1) by simp
    show ?thesis using True foldHook_blocked [OF b, of env iv regs] one
      by (simp add: ranHooks_def failuresOf_def max.commute)
  next
    case False
    then have "\<not> frBlocked (foldHook env iv r s)" using one(1) by simp
    from Cons.IH [OF this] show ?thesis using False one(2-5)
      by (simp add: ranHooks_def failuresOf_def max.commute)
  qed
qed

text \<open>
  C38: The folded decision is the most restrictive of the decision the hooks were given and what each hook that ran
  demands: an allow, a failure or a timeout counts as nothing, a block or a deny as deny. The action is blocked
  exactly when a matching hook answers block before a tool has run; no hook after it runs; and every failure is
  reported under the id of its hook.
\<close>

theorem hook_fold_exact:
  "let regs = matchingHooks iv rg; ran = ranHooks env iv regs; res = runInner env rg iv base in
     hookEffect (frDecision res) = fold max (map (\<lambda>r. demand (hiEvent iv) (invokeHook env r iv)) ran) (hookEffect base) \<and>
     frBlocked res = (\<exists>r \<in> set regs. blocksAction (hiEvent iv) (invokeHook env r iv)) \<and>
     frRanHandlers res = length ran \<and> frFailures res = failuresOf env iv ran \<and>
     frStopped res = (\<exists>r \<in> set ran. stopsTurn (hiEvent iv) (invokeHook env r iv))"
proof -
  have "\<not> frBlocked (startResult (hiEvent iv) base)" by (simp add: startResult_def)
  from fold_exact [OF this, of env iv "matchingHooks iv rg"] show ?thesis
    by (simp add: runInner_def Let_def startResult_def)
qed

subsection \<open>What the adapter leaves out\<close>

text \<open>
  A hook before a tool that answers deny does not stop the tool: the adapter reads only whether the action
  was blocked. The record it writes says block all the same.
\<close>

theorem deny_hook_not_enforced:
  assumes "matchingHooks (toolInvocation c E_PreToolUse tool (Some args) (JsObj [])) rg = [r]"
    and "invokeHook env r (toolInvocation c E_PreToolUse tool (Some args) (JsObj [])) = HandlerOutcome (O_deny reason) note"
  shows "fst (preToolUse env rg c tool args) = (False, None) \<and>
    frDecision (snd (preToolUse env rg c tool args)) = Eff Deny \<and>
    firedRecords (snd (preToolUse env rg c tool args)) = [(hgId r, ''block'')]"
  using assms
  by (simp add: preToolUse_def runHooks_def runInner_def Let_def toolInvocation_def foldHook_def startResult_def applyOutcome_def
      mostRestrictive_def firedRecords_def auditLine_def foldOutcome_def)

text \<open>
  A hook with a path glob never runs for a tool call of a turn, before it or after it, because the adapter
  passes no paths.
\<close>

theorem path_hook_never_runs:
  assumes "hgMatcher r = Some mt" "hmPathGlob mt = Some g"
  shows "r \<notin> set (matchingHooks (toolInvocation c event tool input dat) rg)"
  using assms by (auto simp: matchingHooks_def orderedHooks_def matcherApplies_def toolInvocation_def)

subsection \<open>Sample hooks\<close>

definition denyHook :: hookRegistration where
  "denyHook = \<lparr>hgId = ''project:deny'', hgEvent = ''PreToolUse'',
     hgHandler = FunctionHandler (\<lambda>_. Inr (O_deny \<lparr>hrCode = ''p'', hrMessage = ''no''\<rparr>)),
     hgMatcher = Some \<lparr>hmToolName = Some ''run_*'', hmPathGlob = None, hmCondition = None\<rparr>, hgPriority = None\<rparr>"

definition pathHook :: hookRegistration where
  "pathHook = denyHook\<lparr>hgId := ''project:path'', hgMatcher := Some \<lparr>hmToolName = None, hmPathGlob = Some ''**'', hmCondition = None\<rparr>\<rparr>"

definition quietEnv :: hookEnv where
  "quietEnv = \<lparr>heExecutor = None, heNetwork = None, hePrompt = None, heAgent = None, heParseJson = (\<lambda>_. Inl []), heZodError = (\<lambda>_. []),
     heSanitize = (\<lambda>s. (s, False)), heRace = (\<lambda>_. Settled), heDefaultTimeoutMs = None\<rparr>"

lemma deny_hook_not_enforced_witness:
  "fst (preToolUse quietEnv (registryOf [Register denyHook]) ''c'' ''run_shell'' JsNull) = (False, None) \<and>
   firedRecords (snd (preToolUse quietEnv (registryOf [Register denyHook]) ''c'' ''run_shell'' JsNull)) = [(''project:deny'', ''block'')]"
proof -
  let ?iv = "toolInvocation ''c'' E_PreToolUse ''run_shell'' (Some JsNull) (JsObj [])"
  have m: "matchingHooks ?iv (registryOf [Register denyHook]) = [denyHook]"
    by (simp add: registryOf_def registerHook_def isHookEvent_def HOOK_EVENTS_def denyHook_def emptyRegistry_def matchingHooks_def
        orderedHooks_def matcherApplies_def toolInvocation_def globTest_def SLASH_def)
  have i: "invokeHook quietEnv denyHook ?iv = HandlerOutcome (O_deny \<lparr>hrCode = ''p'', hrMessage = ''no''\<rparr>) None"
    by (simp add: invokeHook_def quietEnv_def dispatch_def denyHook_def)
  from deny_hook_not_enforced [OF m i] show ?thesis by (simp add: denyHook_def)
qed

lemma path_hook_never_runs_witness:
  "pathHook \<notin> set (matchingHooks (toolInvocation ''c'' E_PreToolUse ''write_file'' None JsNull) (registryOf [Register pathHook]))"
  by (rule path_hook_never_runs [of pathHook "\<lparr>hmToolName = None, hmPathGlob = Some ''**'', hmCondition = None\<rparr>" "''**''"]) (simp_all add: pathHook_def)

end
