(* ===== verification/Protocol_Sanitize.thy ===== *)
theory Protocol_Sanitize
  imports Prelude
begin

text \<open>
  \<^verbatim>\<open>packages/protocol/src/sanitize.ts\<close>: the sanitizer that every untrusted text crosses before it
  reaches a terminal, a log or an export. A text is the list of its UTF-16 code units, since the sanitizer
  looks at code units above U+00FF. The regular expressions are written out as scanners: their classes are
  disjoint where the expression repeats them, so no backtracking is left.
\<close>

type_synonym ustring = "nat list"

definition PLACEHOLDER :: nat where "PLACEHOLDER = 0xFFFD"

abbreviation ESC :: nat where "ESC \<equiv> 0x1B"

definition ascii :: "string \<Rightarrow> ustring" where
  "ascii s = map of_char s"

subsection \<open>Escape sequences\<close>

text \<open>What follows a CSI; None when the sequence is malformed.\<close>

definition csiRest :: "ustring \<Rightarrow> ustring option" where
  "csiRest s =
     (let s1 = dropWhile (\<lambda>c. 0x30 \<le> c \<and> c \<le> 0x3F) s; s2 = dropWhile (\<lambda>c. 0x20 \<le> c \<and> c \<le> 0x2F) s1 in
      (case s2 of [] \<Rightarrow> None | c # rest \<Rightarrow> if 0x40 \<le> c \<and> c \<le> 0x7E then Some rest else None))"

text \<open>What follows a control string: up to its terminator or, without one, nothing. An OSC also ends at BEL.\<close>

fun stringRest :: "bool \<Rightarrow> ustring \<Rightarrow> ustring" where
  "stringRest bel [] = []"
| "stringRest bel (c # cs) =
     (if bel \<and> c = 0x07 then cs
      else if c = ESC \<and> (case cs of [] \<Rightarrow> False | d # _ \<Rightarrow> d = 0x5C) then tl cs
      else stringRest bel cs)"

definition ansiRest :: "ustring \<Rightarrow> ustring option" where
  "ansiRest s =
     (case s of
        e # k # rest \<Rightarrow>
          (if e \<noteq> ESC then None
           else if k = 0x5B then csiRest rest
           else if k = 0x5D then Some (stringRest True rest)
           else if k \<in> {0x50, 0x5E, 0x5F, 0x58} then Some (stringRest False rest)
           else if (0x40 \<le> k \<and> k \<le> 0x5A) \<or> (0x5C \<le> k \<and> k \<le> 0x5F) then Some rest
           else None)
      | _ \<Rightarrow> None)"

lemma csiRest_length: "csiRest s = Some r \<Longrightarrow> length r < length s"
proof -
  assume r: "csiRest s = Some r"
  let ?s2 = "dropWhile (\<lambda>c. 0x20 \<le> c \<and> c \<le> 0x2F) (dropWhile (\<lambda>c. 0x30 \<le> c \<and> c \<le> 0x3F) s)"
  have "length ?s2 \<le> length s" by (meson length_dropWhile_le order.trans)
  moreover have "length r < length ?s2" using r by (auto simp: csiRest_def Let_def split: list.splits if_splits)
  ultimately show ?thesis by simp
qed

lemma stringRest_length: "length (stringRest bel s) \<le> length s"
proof (induction bel s rule: stringRest.induct)
  case (2 bel c cs)
  show ?case
  proof (cases "bel \<and> c = 0x07 \<or> c = ESC \<and> (case cs of [] \<Rightarrow> False | d # _ \<Rightarrow> d = 0x5C)")
    case True
    then have "stringRest bel (c # cs) \<in> {cs, tl cs}" by auto
    then show ?thesis by auto
  next
    case False
    then have "stringRest bel (c # cs) = stringRest bel cs" by auto
    with "2.IH" False show ?thesis by simp
  qed
qed simp

lemma ansiRest_length: "ansiRest s = Some r \<Longrightarrow> length r < length s"
proof -
  assume r: "ansiRest s = Some r"
  then obtain e k rest where s: "s = e # k # rest" by (auto simp: ansiRest_def split: list.splits)
  have "csiRest rest = Some r \<or> r \<in> {stringRest True rest, stringRest False rest, rest}"
    using r unfolding s ansiRest_def list.case by (auto simp del: stringRest.simps split: if_splits)
  then show ?thesis
    using csiRest_length[of rest r] stringRest_length[of True rest] stringRest_length[of False rest] by (auto simp: s)
qed

text \<open>Replacing the sequences, and counting them.\<close>

function stripAnsi :: "ustring \<Rightarrow> ustring \<times> nat" where
  "stripAnsi [] = ([], 0)"
| "stripAnsi (c # cs) =
     (case ansiRest (c # cs) of
        Some rest \<Rightarrow> (let (out, n) = stripAnsi rest in (PLACEHOLDER # out, n + 1))
      | None \<Rightarrow> (let (out, n) = stripAnsi cs in (c # out, n)))"
  by pat_completeness auto
termination
  by (relation "measure length") (auto dest: ansiRest_length)

subsection \<open>Characters\<close>

fun crlf :: "ustring \<Rightarrow> ustring" where
  "crlf [] = []"
| "crlf (c # cs) =
     (if c = 0x0D \<and> (case cs of [] \<Rightarrow> False | d # _ \<Rightarrow> d = 0x0A) then crlf cs else c # crlf cs)"

definition replaceIf :: "(nat \<Rightarrow> bool) \<Rightarrow> ustring \<Rightarrow> ustring \<times> nat" where
  "replaceIf P s = (map (\<lambda>c. if P c then PLACEHOLDER else c) s, length (filter P s))"

definition isLoneCr :: "nat \<Rightarrow> bool" where
  "isLoneCr c \<longleftrightarrow> c = 0x0D"

definition isControlChar :: "nat \<Rightarrow> bool" where
  "isControlChar c \<longleftrightarrow> c \<le> 0x08 \<or> (0x0B \<le> c \<and> c \<le> 0x1F) \<or> (0x7F \<le> c \<and> c \<le> 0x9F)"

definition isDeceptive :: "nat \<Rightarrow> bool" where
  "isDeceptive c \<longleftrightarrow> (0x200B \<le> c \<and> c \<le> 0x200F) \<or> (0x202A \<le> c \<and> c \<le> 0x202E) \<or> (0x2060 \<le> c \<and> c \<le> 0x2064)
     \<or> (0x2066 \<le> c \<and> c \<le> 0x2069) \<or> c = 0x00AD \<or> c = 0x2028 \<or> c = 0x2029 \<or> c = 0xFEFF"

datatype textOrigin =
    From_model | From_repository | From_tool | From_hook | From_mcp | From_web | From_provider | From_user
  | From_markdown_link

record sanitizeOptions =
  soOrigin :: textOrigin
  soMaxLength :: "nat option"
  soMultiline :: "bool option"

record sanitizeResult =
  srText :: ustring
  srModified :: bool
  srStripped :: nat
  srTruncated :: bool
  srOrigin :: textOrigin

definition truncationMarker :: "nat \<Rightarrow> ustring" where
  "truncationMarker n = 0x2026 # ascii ('' [truncated '' @ natStr n @ '' chars]'')"

text \<open>The text before the cap, and how often a placeholder was put in.\<close>

definition cleaned :: "ustring \<Rightarrow> ustring \<times> nat" where
  "cleaned input =
     (let (out1, n1) = stripAnsi input;
          (out2, n2) = replaceIf isLoneCr (crlf out1);
          (out3, n3) = replaceIf isControlChar out2;
          (out4, n4) = replaceIf isDeceptive out3
      in (out4, n1 + n2 + n3 + n4))"

definition sanitize :: "ustring \<Rightarrow> sanitizeOptions \<Rightarrow> sanitizeResult" where
  "sanitize input opts =
     (let (clean, stripped) = cleaned input;
          out = (if soMultiline opts = Some False then map (\<lambda>c. if c = 0x0A then 0x20 else c) clean else clean);
          truncated = (case soMaxLength opts of None \<Rightarrow> False | Some m \<Rightarrow> m < length out);
          text = (case soMaxLength opts of
                    None \<Rightarrow> out
                  | Some m \<Rightarrow> if m < length out then take m out @ truncationMarker (length out - m) else out)
      in \<lparr>srText = text, srModified = (0 < stripped \<or> truncated), srStripped = stripped,
          srTruncated = truncated, srOrigin = soOrigin opts\<rparr>)"

definition sanitizeText :: "ustring \<Rightarrow> textOrigin \<Rightarrow> ustring" where
  "sanitizeText input origin = srText (sanitize input \<lparr>soOrigin = origin, soMaxLength = None, soMultiline = None\<rparr>)"

text \<open>\<^verbatim>\<open>parse\<close> stands for the platform's URL parser and gives the protocol of an absolute URL.\<close>

definition SAFE_SCHEMES :: "string list" where
  "SAFE_SCHEMES = [''http:'', ''https:'', ''mailto:'']"

definition isSafeLinkTarget :: "(string \<Rightarrow> string option) \<Rightarrow> string \<Rightarrow> bool" where
  "isSafeLinkTarget parse url = (case parse url of None \<Rightarrow> False | Some protocol \<Rightarrow> protocol \<in> set SAFE_SCHEMES)"

subsection \<open>What a sanitized text holds\<close>

definition isSafe :: "nat \<Rightarrow> bool" where
  "isSafe c \<longleftrightarrow> c = 0x09 \<or> c = 0x0A \<or> (0x20 \<le> c \<and> c \<le> 0x7E) \<or>
     (0xA0 \<le> c \<and> c \<notin> {0xAD, 0x2028, 0x2029, 0xFEFF} \<and> c \<notin> {0x200B..0x200F} \<and> c \<notin> {0x202A..0x202E} \<and>
      c \<notin> {0x2060..0x2064} \<and> c \<notin> {0x2066..0x2069})"

lemma isSafe_iff: "isSafe c \<longleftrightarrow> \<not> isControlChar c \<and> \<not> isDeceptive c"
  unfolding isSafe_def isControlChar_def isDeceptive_def atLeastAtMost_iff insert_iff empty_iff by presburger

lemma placeholder_safe [simp]: "isSafe PLACEHOLDER"
  by (simp add: isSafe_iff isControlChar_def isDeceptive_def PLACEHOLDER_def)

lemma safe_not_cr: "isSafe c \<Longrightarrow> \<not> isLoneCr c" "isSafe c \<Longrightarrow> c \<noteq> ESC" "isSafe c \<Longrightarrow> c \<noteq> 0x0D"
  by (auto simp: isSafe_iff isControlChar_def isLoneCr_def)

lemma replaceIf_keep: "list_all (\<lambda>c. \<not> P c) s \<Longrightarrow> replaceIf P s = (s, 0)"
  by (induction s) (auto simp: replaceIf_def)

lemma cleaned_safe: "list_all isSafe (fst (cleaned s))"
proof -
  have d: "\<not> isDeceptive PLACEHOLDER" using placeholder_safe by (simp add: isSafe_iff)
  have c: "\<not> isControlChar PLACEHOLDER" using placeholder_safe by (simp add: isSafe_iff)
  have "list_all isSafe (fst (replaceIf isDeceptive (fst (replaceIf isControlChar t))))" for t
    using c d by (auto simp: replaceIf_def list_all_iff isSafe_iff)
  then show ?thesis by (auto simp: cleaned_def Let_def split: prod.splits) (metis fst_conv)
qed

lemma stripAnsi_keep: "list_all (\<lambda>c. c \<noteq> ESC) s \<Longrightarrow> stripAnsi s = (s, 0)"
proof (induction s)
  case (Cons c cs)
  then have "ansiRest (c # cs) = None" by (auto simp: ansiRest_def split: list.splits)
  with Cons show ?case by simp
qed simp

lemma crlf_keep: "list_all (\<lambda>c. c \<noteq> 0x0D) s \<Longrightarrow> crlf s = s"
  by (induction s) auto

lemma cleaned_keep: "list_all isSafe s \<Longrightarrow> cleaned s = (s, 0)"
proof -
  assume s: "list_all isSafe s"
  have "stripAnsi s = (s, 0)" using s by (intro stripAnsi_keep) (auto simp: list_all_iff dest: safe_not_cr)
  moreover have "crlf s = s" using s by (intro crlf_keep) (auto simp: list_all_iff dest: safe_not_cr)
  moreover have "replaceIf isLoneCr s = (s, 0)" using s by (intro replaceIf_keep) (auto simp: list_all_iff dest: safe_not_cr)
  moreover have "replaceIf isControlChar s = (s, 0)" "replaceIf isDeceptive s = (s, 0)"
    using s by (auto intro!: replaceIf_keep simp: list_all_iff isSafe_iff)
  ultimately show ?thesis by (simp add: cleaned_def)
qed

lemma digit_safe: "isDigit c \<Longrightarrow> isSafe (of_char c)"
  by (auto simp: isDigit_def isSafe_iff isControlChar_def isDeceptive_def)

lemma marker_safe: "list_all isSafe (truncationMarker n)" "0x0A \<notin> set (truncationMarker n)"
proof -
  have "list_all isSafe (ascii (natStr n)) \<and> 0x0A \<notin> set (ascii (natStr n))"
    using natStr_digits[of _ n] by (fastforce simp: ascii_def list_all_iff digit_safe isDigit_def)
  then show "list_all isSafe (truncationMarker n)" "0x0A \<notin> set (truncationMarker n)"
    by (auto simp: truncationMarker_def ascii_def isSafe_iff isControlChar_def isDeceptive_def)
qed

text \<open>
  C30: Whatever the input, the sanitizer lets through no control character except tab and newline, none of
  the deceptive characters, and on a single line no newline either, the truncation marker included. Sanitizing
  a second time strips nothing; it changes nothing and reports nothing when the first pass did not
  truncate, in particular without a cap, and otherwise it only announces the truncation anew, behind
  the same characters.
\<close>
theorem sanitized_is_inert:
  "(\<forall>c \<in> set (srText (sanitize input opts)). isSafe c \<and> (soMultiline opts = Some False \<longrightarrow> c \<noteq> 0x0A)) \<and>
   srStripped (sanitize (srText (sanitize input opts)) opts) = 0 \<and>
   (if srTruncated (sanitize input opts)
    then \<exists>m. soMaxLength opts = Some m \<and>
      take m (srText (sanitize (srText (sanitize input opts)) opts)) = take m (srText (sanitize input opts))
    else srText (sanitize (srText (sanitize input opts)) opts) = srText (sanitize input opts) \<and>
      \<not> srModified (sanitize (srText (sanitize input opts)) opts))"
proof -
  let ?line = "\<lambda>s. if soMultiline opts = Some False then map (\<lambda>c. if c = 0x0A then 0x20 else c) s else s"
  let ?out = "?line (fst (cleaned input))"
  let ?text = "srText (sanitize input opts)"
  have space: "isSafe 0x20" by (simp add: isSafe_iff isControlChar_def isDeceptive_def)
  have out: "list_all isSafe ?out" "soMultiline opts = Some False \<Longrightarrow> 0x0A \<notin> set ?out"
    using cleaned_safe[of input] space by (auto simp: list_all_iff)
  have shape: "srText (sanitize s opts) = (case soMaxLength opts of None \<Rightarrow> ?line (fst (cleaned s))
      | Some m \<Rightarrow> if m < length (?line (fst (cleaned s)))
          then take m (?line (fst (cleaned s))) @ truncationMarker (length (?line (fst (cleaned s))) - m) else ?line (fst (cleaned s)))"
    and counts: "srStripped (sanitize s opts) = snd (cleaned s)"
      "srTruncated (sanitize s opts) = (case soMaxLength opts of None \<Rightarrow> False | Some m \<Rightarrow> m < length (?line (fst (cleaned s))))"
      "srModified (sanitize s opts) = (0 < srStripped (sanitize s opts) \<or> srTruncated (sanitize s opts))" for s
    by (cases "cleaned s"; cases "soMaxLength opts"; simp add: sanitize_def Let_def)+
  have safe: "\<forall>c \<in> set ?text. isSafe c \<and> (soMultiline opts = Some False \<longrightarrow> c \<noteq> 0x0A)"
    unfolding shape using out marker_safe[of "length ?out - the (soMaxLength opts)"]
    by (auto simp: list_all_iff split: option.splits dest: in_set_takeD simp del: set_map)
  have again: "cleaned ?text = (?text, 0)" using safe by (intro cleaned_keep) (simp add: list_all_iff)
  have line: "?line ?text = ?text" using safe by (auto intro!: map_idI)
  have stripped: "srStripped (sanitize ?text opts) = 0" by (simp add: counts again)
  have rest: "if srTruncated (sanitize input opts)
    then \<exists>m. soMaxLength opts = Some m \<and> take m (srText (sanitize ?text opts)) = take m ?text
    else srText (sanitize ?text opts) = ?text \<and> \<not> srModified (sanitize ?text opts)"
  proof (cases "soMaxLength opts")
    case None
    then have "srText (sanitize ?text opts) = ?text" using line by (simp only: shape[of ?text] option.case again fst_conv)
    with None stripped show ?thesis by (simp only: counts(2,3) option.case) simp
  next
    case (Some m)
    show ?thesis
    proof (cases "m < length ?out")
      case True
      then have cut: "?text = take m ?out @ truncationMarker (length ?out - m)" by (simp add: shape Some)
      have "m < length ?text" unfolding cut using True by (simp add: truncationMarker_def)
      then have "take m (srText (sanitize ?text opts)) = take m ?text"
        using line by (simp only: shape[of ?text] Some option.case again fst_conv) simp
      with True Some show ?thesis by (simp add: counts(2))
    next
      case False
      then have "?text = ?out" by (simp add: shape Some)
      with False have "\<not> m < length (?line ?text)" using line by simp
      with False line stripped show ?thesis
        by (simp only: shape[of ?text] Some option.case again fst_conv counts(2)) (simp add: counts Some again)
    qed
  qed
  from safe stripped rest show ?thesis by blast
qed

lemma sanitized_is_inert_witness:
  "let text = srText (sanitize (ascii ''a'' @ [ESC, 0x5D, 0x30, 0x3B, 0x07, 0x0D, 0x202E] @ ascii ''b'')
     \<lparr>soOrigin = From_web, soMaxLength = None, soMultiline = Some False\<rparr>) in
   0x0A \<notin> set text \<and> srModified (sanitize text \<lparr>soOrigin = From_web, soMaxLength = None, soMultiline = Some False\<rparr>) = False"
proof -
  let ?opts = "\<lparr>soOrigin = From_web, soMaxLength = None, soMultiline = Some False\<rparr>"
  have "\<not> srTruncated (sanitize s ?opts)" for s by (cases "cleaned s") (simp add: sanitize_def Let_def)
  then show ?thesis
    using sanitized_is_inert[of "ascii ''a'' @ [ESC, 0x5D, 0x30, 0x3B, 0x07, 0x0D, 0x202E] @ ascii ''b''" ?opts]
    by (auto simp: Let_def)
qed

lemma stripAnsi_none: "snd (stripAnsi s) = 0 \<Longrightarrow> fst (stripAnsi s) = s"
proof (induction s)
  case (Cons c cs)
  then show ?case by (cases "ansiRest (c # cs)"; cases "stripAnsi cs") (auto split: prod.splits)
qed simp

lemma replaceIf_none: "snd (replaceIf P s) = 0 \<Longrightarrow> fst (replaceIf P s) = s"
  by (auto simp: replaceIf_def filter_empty_conv intro!: map_idI)

text \<open>
  The sanitizer swallows nothing silently. When it does not report a modification, the text is the input
  itself, up to Windows line ends and, on a single line, newlines that became spaces.
\<close>
theorem unmodified_is_unchanged:
  assumes "\<not> srModified (sanitize input opts)"
  shows "srText (sanitize input opts) =
    map (\<lambda>c. if soMultiline opts = Some False \<and> c = 0x0A then 0x20 else c) (crlf input)"
proof -
  obtain out n where c: "cleaned input = (out, n)" by fastforce
  obtain o1 n1 where 1: "stripAnsi input = (o1, n1)" by fastforce
  obtain o2 n2 where 2: "replaceIf isLoneCr (crlf o1) = (o2, n2)" by fastforce
  obtain o3 n3 where 3: "replaceIf isControlChar o2 = (o3, n3)" by fastforce
  obtain o4 n4 where 4: "replaceIf isDeceptive o3 = (o4, n4)" by fastforce
  have sum: "n = n1 + n2 + n3 + n4" "out = o4" using c by (simp_all add: cleaned_def 1 2 3 4)
  have "n = 0" using assms by (simp add: sanitize_def c Let_def)
  then have n: "n1 = 0" "n2 = 0" "n3 = 0" "n4 = 0" using sum by simp_all
  have "o1 = input" using stripAnsi_none[of input] 1 n by simp
  moreover have "o2 = crlf o1" using replaceIf_none[of isLoneCr "crlf o1"] 2 n by simp
  moreover have "o3 = o2" using replaceIf_none[of isControlChar o2] 3 n by simp
  moreover have "o4 = o3" using replaceIf_none[of isDeceptive o3] 4 n by simp
  ultimately have "out = crlf input" using sum by simp
  then show ?thesis using assms
    by (cases "soMaxLength opts") (auto simp: sanitize_def c Let_def)
qed

lemma unmodified_is_unchanged_witness:
  "srText (sanitize (ascii ''ab'' @ [0x0D, 0x0A]) \<lparr>soOrigin = From_tool, soMaxLength = None, soMultiline = None\<rparr>) =
     ascii ''ab'' @ [0x0A]"
proof -
  have "cleaned (ascii ''ab'' @ [0x0D, 0x0A]) = (ascii ''ab'' @ [0x0A], 0)"
    by (simp add: cleaned_def ascii_def ansiRest_def replaceIf_def isLoneCr_def isControlChar_def isDeceptive_def)
  then show ?thesis
    using unmodified_is_unchanged[of "ascii ''ab'' @ [0x0D, 0x0A]"
        "\<lparr>soOrigin = From_tool, soMaxLength = None, soMultiline = None\<rparr>"]
    by (simp add: sanitize_def ascii_def)
qed

end
