(* ===== verification/Network_Broker.thy ===== *)
theory Network_Broker
  imports Protocol_Sanitize
begin

text \<open>
  \<^verbatim>\<open>packages/network/src/broker.ts\<close>: the one place from which requests leave. The URL parser of the
  platform, the decoder of bytes and the injected fetch are parameters; a fetch acts on a world
  \<^typ>\<open>'w\<close> and may throw. The ghost list of the state records every request that was made, in order.
\<close>

subsection \<open>Policy\<close>

record networkPolicy =
  npAllowHosts :: "string list"
  npDenyHosts :: "string list"
  npBlockPrivate :: bool
  npMaxRedirects :: nat
  npMaxDownloadBytes :: nat
  npAllowedContentTypes :: "string list"

definition DEFAULT_NETWORK_POLICY :: networkPolicy where
  "DEFAULT_NETWORK_POLICY = \<lparr>npAllowHosts = [], npDenyHosts = [], npBlockPrivate = True, npMaxRedirects = 5,
     npMaxDownloadBytes = 5 * 1024 * 1024,
     npAllowedContentTypes = [''text/'', ''application/json'', ''application/xml'', ''application/xhtml+xml'']\<rparr>"

datatype networkCode =
    N_scheme_denied | N_host_denied | N_private_address | N_too_many_redirects | N_too_large
  | N_content_type_denied | N_request_failed

datatype networkExn = NetworkError networkCode string | FetchError string | UrlTypeError

text \<open>\<^verbatim>\<open>PRIVATE_HOST\<close>, on a host in lower case: an alternation of prefixes.\<close>

definition PRIVATE_PREFIXES :: "string list" where
  "PRIVATE_PREFIXES = [''localhost'', ''127.'', ''0.0.0.0'', ''10.'', ''192.168.'', ''169.254.'', ''::1'', ''fc00:'', ''fe80:'']"

definition isPrivateHost :: "string \<Rightarrow> bool" where
  "isPrivateHost host = list_ex (startsWith host) PRIVATE_PREFIXES"

definition isPrivate172 :: "string \<Rightarrow> bool" where
  "isPrivate172 host =
     (startsWith host ''172.'' \<and>
      (case drop 4 host of
         a # b # c # _ \<Rightarrow>
           c = CHR ''.'' \<and> ((a = CHR ''1'' \<and> b \<in> set ''6789'') \<or> (a = CHR ''2'' \<and> isDigit b) \<or> (a = CHR ''3'' \<and> b \<in> set ''01''))
       | _ \<Rightarrow> False))"

definition EGRESS_METADATA_HOSTS :: "string list" where
  "EGRESS_METADATA_HOSTS = [''169.254.169.254'', ''100.100.100.100'', ''metadata.google.internal'']"

definition hostMatches :: "string \<Rightarrow> string \<Rightarrow> bool" where
  "hostMatches lower entry \<longleftrightarrow> lower = entry \<or> endsWith lower (CHR ''.'' # entry)"

definition checkHost :: "string \<Rightarrow> networkPolicy \<Rightarrow> (networkCode \<times> string) option" where
  "checkHost host policy =
     (let lower = toLowerCase host in
      if lower \<in> set EGRESS_METADATA_HOSTS
      then Some (N_private_address, ''refusing to reach the cloud metadata endpoint '' @ host)
      else if npBlockPrivate policy \<and> (isPrivateHost lower \<or> isPrivate172 lower)
      then Some (N_private_address, ''refusing to reach a private/loopback address: '' @ host)
      else if list_ex (hostMatches lower) (npDenyHosts policy)
      then Some (N_host_denied, ''host '' @ host @ '' is denied by policy'')
      else if npAllowHosts policy \<noteq> [] \<and> \<not> list_ex (hostMatches lower) (npAllowHosts policy)
      then Some (N_host_denied, ''host '' @ host @ '' is not on the allowlist'')
      else None)"

record parsedUrl =
  puProtocol :: string
  puHostname :: string
  puHref :: string

record 'w networkEnv =
  neParse :: "string \<Rightarrow> parsedUrl option"
  neResolve :: "string \<Rightarrow> parsedUrl \<Rightarrow> string option"
  neUtf8 :: "nat list \<Rightarrow> ustring"
  neByteLength :: "ustring \<Rightarrow> nat"
  nePolicy :: networkPolicy

definition checkUrl :: "'w networkEnv \<Rightarrow> string \<Rightarrow> networkExn + parsedUrl" where
  "checkUrl env url =
     (case neParse env url of
        None \<Rightarrow> Inl (NetworkError N_request_failed (''invalid URL: '' @ url))
      | Some parsed \<Rightarrow>
          if puProtocol parsed \<noteq> ''http:'' \<and> puProtocol parsed \<noteq> ''https:''
          then Inl (NetworkError N_scheme_denied (''scheme '' @ puProtocol parsed @ '' is not allowed (http/https only)''))
          else (case checkHost (puHostname parsed) (nePolicy env) of
                  Some (code, msg) \<Rightarrow> Inl (NetworkError code msg)
                | None \<Rightarrow> Inr parsed))"

subsection \<open>Requests and responses\<close>

datatype httpMethod = GET | POST | DELETE

record outboundRequest =
  orMethod :: httpMethod
  orUrl :: string
  orHeaders :: "(string \<times> string) list option"
  orBody :: "string option"

text \<open>What is handed to the injected fetch; \<^verbatim>\<open>redirect\<close> is always manual.\<close>

record fetchCall =
  fcUrl :: string
  fcMethod :: "httpMethod option"
  fcHeaders :: "(string \<times> string) list option"
  fcBody :: "string option"

text \<open>A body stream yields its chunks and then ends or fails.\<close>

record bodyStream =
  bsChunks :: "nat list list"
  bsFailure :: "string option"

record fetchResponse =
  frStatus :: nat
  frGet :: "string \<Rightarrow> string option"
  frBody :: "bodyStream option"
  frText :: ustring
  frEntries :: "(string \<times> string) list option"

type_synonym 'w fetchImpl = "fetchCall \<Rightarrow> 'w \<Rightarrow> (string + fetchResponse) \<times> 'w"

record fetchResult =
  ftUrl :: string
  ftStatus :: nat
  ftContentType :: "string option"
  ftContent :: ustring
  ftTruncated :: bool
  ftRedirectChain :: "string list"

record rawEgressResponse =
  reStatus :: nat
  reHeaders :: "(string \<times> string) list"
  reText :: "networkExn + ustring"
  reStream :: "bodyStream option"

type_synonym 'w netState = "'w \<times> fetchCall list"

definition doFetch :: "'w fetchImpl \<Rightarrow> fetchCall \<Rightarrow> 'w netState \<Rightarrow> (networkExn + fetchResponse) \<times> 'w netState" where
  "doFetch impl call s =
     (case impl call (fst s) of
        (Inl e, w) \<Rightarrow> (Inl (FetchError e), (w, snd s @ [call]))
      | (Inr r, w) \<Rightarrow> (Inr r, (w, snd s @ [call])))"

subsection \<open>Reading a body\<close>

fun readChunks :: "nat \<Rightarrow> nat \<Rightarrow> nat list list \<Rightarrow> string option \<Rightarrow> networkExn + (nat list \<times> bool)" where
  "readChunks cap got [] failure = (case failure of None \<Rightarrow> Inr ([], False) | Some e \<Rightarrow> Inl (FetchError e))"
| "readChunks cap got (c # cs) failure =
     (if cap < got + length c then Inr (take (cap - got) c, True)
      else (case readChunks cap (got + length c) cs failure of
              Inl e \<Rightarrow> Inl e
            | Inr (rest, truncated) \<Rightarrow> Inr (c @ rest, truncated)))"

definition readBounded :: "'w networkEnv \<Rightarrow> fetchResponse \<Rightarrow> networkExn + (ustring \<times> bool)" where
  "readBounded env r =
     (case frBody r of
        None \<Rightarrow> Inr (frText r, False)
      | Some b \<Rightarrow>
          (case readChunks (npMaxDownloadBytes (nePolicy env)) 0 (bsChunks b) (bsFailure b) of
             Inl e \<Rightarrow> Inl e
           | Inr (bytes, truncated) \<Rightarrow> Inr (neUtf8 env bytes, truncated)))"

definition tooLarge :: "nat \<Rightarrow> networkExn" where
  "tooLarge cap = NetworkError N_too_large (''response exceeds '' @ natStr cap @ '' bytes'')"

fun readStrict :: "nat \<Rightarrow> nat \<Rightarrow> nat list list \<Rightarrow> string option \<Rightarrow> networkExn + nat list" where
  "readStrict cap got [] failure = (case failure of None \<Rightarrow> Inr [] | Some e \<Rightarrow> Inl (FetchError e))"
| "readStrict cap got (c # cs) failure =
     (if cap < got + length c then Inl (tooLarge cap)
      else (case readStrict cap (got + length c) cs failure of Inl e \<Rightarrow> Inl e | Inr rest \<Rightarrow> Inr (c @ rest)))"

definition readBoundedStrict :: "'w networkEnv \<Rightarrow> fetchResponse \<Rightarrow> networkExn + ustring" where
  "readBoundedStrict env r =
     (let cap = npMaxDownloadBytes (nePolicy env) in
      case frBody r of
        None \<Rightarrow> if cap < neByteLength env (frText r) then Inl (tooLarge cap) else Inr (frText r)
      | Some b \<Rightarrow> (case readStrict cap 0 (bsChunks b) (bsFailure b) of Inl e \<Rightarrow> Inl e | Inr bytes \<Rightarrow> Inr (neUtf8 env bytes)))"

subsection \<open>Following redirects\<close>

definition isRedirect :: "fetchResponse \<Rightarrow> bool" where
  "isRedirect r \<longleftrightarrow> 300 \<le> frStatus r \<and> frStatus r < 400"

definition nextUrl :: "'w networkEnv \<Rightarrow> fetchResponse \<Rightarrow> parsedUrl \<Rightarrow> networkExn + string" where
  "nextUrl env r parsed =
     (case frGet r ''location'' of
        None \<Rightarrow> Inl (NetworkError N_request_failed (''redirect '' @ natStr (frStatus r) @ '' with no Location header''))
      | Some location \<Rightarrow> (case neResolve env location parsed of None \<Rightarrow> Inl UrlTypeError | Some u \<Rightarrow> Inr u))"

text \<open>
  The loop that both forms of egress share: \<^verbatim>\<open>call\<close> makes the request of a hop, \<^verbatim>\<open>finish\<close> handles a
  terminal response. The first argument counts the hops that are left.
\<close>

fun followRedirects ::
  "nat \<Rightarrow> 'w networkEnv \<Rightarrow> 'w fetchImpl \<Rightarrow> (string \<Rightarrow> fetchCall) \<Rightarrow>
   (string list \<Rightarrow> parsedUrl \<Rightarrow> fetchResponse \<Rightarrow> networkExn + 'r) \<Rightarrow> string list \<Rightarrow> string \<Rightarrow> 'w netState \<Rightarrow>
   (networkExn + 'r) \<times> 'w netState" where
  "followRedirects 0 env impl call finish chain url s =
     (Inl (NetworkError N_too_many_redirects (''exceeded '' @ natStr (npMaxRedirects (nePolicy env)) @ '' redirects'')), s)"
| "followRedirects (Suc n) env impl call finish chain url s =
     (case checkUrl env url of
        Inl e \<Rightarrow> (Inl e, s)
      | Inr parsed \<Rightarrow>
          (case doFetch impl (call url) s of
             (Inl e, s1) \<Rightarrow> (Inl e, s1)
           | (Inr r, s1) \<Rightarrow>
               (if isRedirect r
                then (case nextUrl env r parsed of
                        Inl e \<Rightarrow> (Inl e, s1)
                      | Inr u \<Rightarrow> followRedirects n env impl call finish (chain @ [puHref parsed]) u s1)
                else (finish (chain @ [puHref parsed]) parsed r, s1))))"

definition contentTypeOk :: "networkPolicy \<Rightarrow> string option \<Rightarrow> bool" where
  "contentTypeOk policy contentType =
     (case contentType of
        None \<Rightarrow> True
      | Some ct \<Rightarrow> npAllowedContentTypes policy = [] \<or> list_ex (startsWith ct) (npAllowedContentTypes policy))"

definition finishFetch :: "'w networkEnv \<Rightarrow> string list \<Rightarrow> parsedUrl \<Rightarrow> fetchResponse \<Rightarrow> networkExn + fetchResult" where
  "finishFetch env chain parsed r =
     (let contentType = frGet r ''content-type''; cap = npMaxDownloadBytes (nePolicy env) in
      if \<not> contentTypeOk (nePolicy env) contentType
      then Inl (NetworkError N_content_type_denied (''content-type '' @ the contentType @ '' is not allowed''))
      else (case readBounded env r of
              Inl e \<Rightarrow> Inl e
            | Inr (body, truncated) \<Rightarrow>
                (let clean = sanitize body \<lparr>soOrigin = From_web, soMaxLength = Some cap, soMultiline = None\<rparr> in
                 Inr \<lparr>ftUrl = puHref parsed, ftStatus = frStatus r, ftContentType = contentType,
                   ftContent = srText clean, ftTruncated = (truncated \<or> srTruncated clean), ftRedirectChain = chain\<rparr>)))"

definition getCall :: "string \<Rightarrow> fetchCall" where
  "getCall url = \<lparr>fcUrl = url, fcMethod = None, fcHeaders = None, fcBody = None\<rparr>"

definition fetchUrl :: "'w networkEnv \<Rightarrow> 'w fetchImpl \<Rightarrow> string \<Rightarrow> 'w netState \<Rightarrow> (networkExn + fetchResult) \<times> 'w netState" where
  "fetchUrl env impl url s =
     followRedirects (npMaxRedirects (nePolicy env) + 1) env impl getCall (finishFetch env) [] url s"

definition sendCall :: "outboundRequest \<Rightarrow> string \<Rightarrow> fetchCall" where
  "sendCall req url = \<lparr>fcUrl = url, fcMethod = Some (orMethod req), fcHeaders = orHeaders req, fcBody = orBody req\<rparr>"

fun setHeader :: "string \<Rightarrow> string \<Rightarrow> (string \<times> string) list \<Rightarrow> (string \<times> string) list" where
  "setHeader k v [] = [(k, v)]"
| "setHeader k v ((k', v') # hs) = (if k = k' then (k, v) # hs else (k', v') # setHeader k v hs)"

definition rawHeaders :: "(string \<times> string) list option \<Rightarrow> (string \<times> string) list" where
  "rawHeaders entries =
     foldl (\<lambda>hs h. setHeader (toLowerCase (fst h)) (snd h) hs) [] (case entries of None \<Rightarrow> [] | Some es \<Rightarrow> es)"

definition finishSend :: "'w networkEnv \<Rightarrow> string list \<Rightarrow> parsedUrl \<Rightarrow> fetchResponse \<Rightarrow> networkExn + rawEgressResponse" where
  "finishSend env chain parsed r =
     Inr \<lparr>reStatus = frStatus r, reHeaders = rawHeaders (frEntries r), reText = readBoundedStrict env r, reStream = frBody r\<rparr>"

definition send ::
  "'w networkEnv \<Rightarrow> 'w fetchImpl \<Rightarrow> outboundRequest \<Rightarrow> 'w netState \<Rightarrow> (networkExn + rawEgressResponse) \<times> 'w netState" where
  "send env impl req s =
     followRedirects (npMaxRedirects (nePolicy env) + 1) env impl (sendCall req) (finishSend env) [] (orUrl req) s"

end
