(* ===== verification/Network_Theorems.thy ===== *)
theory Network_Theorems
  imports Network_Broker
begin

text \<open>
  What the broker guarantees: every request it makes was checked, at most one more than the redirects
  allowed, and a streamed body never exceeds its cap; and where its guard fails: hosts it does not recognise,
  and credentials that follow a redirect to another host.
\<close>

subsection \<open>Every hop\<close>

definition urlAllowed :: "'w networkEnv \<Rightarrow> string \<Rightarrow> bool" where
  "urlAllowed env url \<longleftrightarrow> (\<exists>parsed. neParse env url = Some parsed \<and> puProtocol parsed \<in> {''http:'', ''https:''} \<and>
     (let host = toLowerCase (puHostname parsed); policy = nePolicy env in
      host \<notin> set EGRESS_METADATA_HOSTS \<and>
      (npBlockPrivate policy \<longrightarrow> \<not> isPrivateHost host \<and> \<not> isPrivate172 host) \<and>
      (\<forall>d \<in> set (npDenyHosts policy). \<not> hostMatches host d) \<and>
      (npAllowHosts policy = [] \<or> (\<exists>a \<in> set (npAllowHosts policy). hostMatches host a))))"

lemma checkUrl_allowed: "checkUrl env url = Inr parsed \<Longrightarrow> urlAllowed env url"
  by (auto simp: checkUrl_def checkHost_def urlAllowed_def Let_def list_ex_iff split: option.splits if_splits)

lemma followRedirects_trace:
  assumes "\<And>u. fcUrl (call u) = u"
  shows "\<exists>new. snd (snd (followRedirects n env impl call finish chain url s)) = snd s @ new \<and> length new \<le> n \<and>
    (\<forall>c \<in> set new. c = call (fcUrl c) \<and> urlAllowed env (fcUrl c))"
proof (induction n arbitrary: chain url s)
  case (Suc n)
  show ?case
  proof (cases "checkUrl env url")
    case (Inl e) then show ?thesis by simp
  next
    case (Inr parsed)
    obtain r w where f: "impl (call url) (fst s) = (r, w)" by fastforce
    define s1 where "s1 = (w, snd s @ [call url])"
    have one: "\<exists>new. snd s1 = snd s @ new \<and> length new \<le> Suc n \<and> (\<forall>c \<in> set new. c = call (fcUrl c) \<and> urlAllowed env (fcUrl c))"
      by (intro exI[of _ "[call url]"]) (simp add: s1_def assms checkUrl_allowed[OF Inr])
    have more: "\<exists>new. snd (snd (followRedirects n env impl call finish chain' u s1)) = snd s @ new \<and> length new \<le> Suc n \<and>
        (\<forall>c \<in> set new. c = call (fcUrl c) \<and> urlAllowed env (fcUrl c))" for chain' u
    proof -
      from Suc.IH[of chain' u s1] obtain new where "snd (snd (followRedirects n env impl call finish chain' u s1)) = snd s1 @ new"
        "length new \<le> n" "\<forall>c \<in> set new. c = call (fcUrl c) \<and> urlAllowed env (fcUrl c)" by blast
      then show ?thesis
        by (intro exI[of _ "call url # new"]) (simp add: s1_def assms checkUrl_allowed[OF Inr])
    qed
    show ?thesis
    proof (cases r)
      case Inl' : (Inl e)
      then show ?thesis using one by (simp add: Inr doFetch_def f s1_def)
    next
      case Inr' : (Inr resp)
      then show ?thesis using one more
        by (cases "nextUrl env resp parsed") (simp_all add: Inr doFetch_def f s1_def)
    qed
  qed
qed simp

text \<open>
  C28: Every request that either form of egress makes goes to a URL that was checked: http or https, no
  metadata host, no address the guard takes for private, no denied host, and on the allowlist if there is
  one; this holds at every redirect, and there are at most one more requests than redirects allowed. A raw
  request carries its method, headers and body unchanged to every hop, to other hosts as well.
\<close>
theorem every_hop_checked:
  "(\<exists>new. snd (snd (fetchUrl env impl url s)) = snd s @ new \<and> length new \<le> npMaxRedirects (nePolicy env) + 1 \<and>
     list_all (\<lambda>c. c = getCall (fcUrl c) \<and> urlAllowed env (fcUrl c)) new) \<and>
   (\<exists>new. snd (snd (send env impl req s)) = snd s @ new \<and> length new \<le> npMaxRedirects (nePolicy env) + 1 \<and>
     list_all (\<lambda>c. c = sendCall req (fcUrl c) \<and> urlAllowed env (fcUrl c)) new)"
  using followRedirects_trace[of getCall "npMaxRedirects (nePolicy env) + 1" env impl "finishFetch env" "[]" url s]
    followRedirects_trace[of "sendCall req" "npMaxRedirects (nePolicy env) + 1" env impl "finishSend env" "[]" "orUrl req" s]
  by (simp add: fetchUrl_def send_def list_all_iff getCall_def sendCall_def)

subsection \<open>Bodies\<close>

lemma readChunks_exact:
  "got \<le> cap \<Longrightarrow> readChunks cap got cs None = Inr (take (cap - got) (concat cs), cap < got + length (concat cs))"
  by (induction cap got cs "None :: string option" rule: readChunks.induct) auto

lemma readStrict_exact:
  "got \<le> cap \<Longrightarrow> readStrict cap got cs None =
     (if got + length (concat cs) \<le> cap then Inr (concat cs) else Inl (tooLarge cap))"
  by (induction cap got cs "None :: string option" rule: readStrict.induct) auto

text \<open>
  The cap on a download is exact. A page is cut to the first cap bytes of its stream and marked truncated
  exactly when there were more; a raw response is returned whole when it fits and refused otherwise, never cut.
\<close>
theorem downloads_capped:
  fixes env :: "'w networkEnv"
  assumes "frBody r = Some b" "bsFailure b = None"
  shows "readBounded env r = Inr (neUtf8 env (take (npMaxDownloadBytes (nePolicy env)) (concat (bsChunks b))),
      npMaxDownloadBytes (nePolicy env) < length (concat (bsChunks b))) \<and>
    readBoundedStrict env r =
      (if length (concat (bsChunks b)) \<le> npMaxDownloadBytes (nePolicy env) then Inr (neUtf8 env (concat (bsChunks b)))
       else Inl (tooLarge (npMaxDownloadBytes (nePolicy env))))"
  using assms by (simp_all add: readBounded_def readBoundedStrict_def readChunks_exact readStrict_exact Let_def)

subsection \<open>What the guard lets through\<close>

lemma lowerChar_bracket: "lowerChar (CHR ''['') = CHR ''[''"
  by (simp add: lowerChar_def)

text \<open>
  C29: With the default policy, which blocks private addresses, every IPv6 address passes the guard, since a
  URL's hostname keeps the brackets and the patterns for ::1, fc00: and fe80: have none; and the metadata host
  passes with a trailing dot, which names the same host.
\<close>
theorem guard_misses_ipv6:
  "checkHost (CHR ''['' # rest) DEFAULT_NETWORK_POLICY = None \<and>
   checkHost ''metadata.google.internal.'' DEFAULT_NETWORK_POLICY = None"
proof
  show "checkHost (CHR ''['' # rest) DEFAULT_NETWORK_POLICY = None"
    by (simp add: checkHost_def DEFAULT_NETWORK_POLICY_def Let_def toLowerCase_def lowerChar_bracket
        EGRESS_METADATA_HOSTS_def isPrivateHost_def PRIVATE_PREFIXES_def isPrivate172_def startsWith_def)
  show "checkHost ''metadata.google.internal.'' DEFAULT_NETWORK_POLICY = None"
    by (simp add: checkHost_def DEFAULT_NETWORK_POLICY_def Let_def toLowerCase_def lowerChar_def
        EGRESS_METADATA_HOSTS_def isPrivateHost_def PRIVATE_PREFIXES_def isPrivate172_def startsWith_def)
qed

text \<open>
  A request with credentials that is redirected to another host is repeated there with the same headers
  and body: whatever the first host answers as location, if the policy allows it, receives them.
\<close>
theorem send_forwards_credentials:
  assumes "checkUrl env (orUrl req) = Inr first" "impl (sendCall req (orUrl req)) w = (Inr r, w1)"
    and "isRedirect r" "nextUrl env r first = Inr target" "checkUrl env target = Inr second"
    and "1 \<le> npMaxRedirects (nePolicy env)"
  shows "\<exists>c \<in> set (snd (snd (send env impl req (w, [])))). fcUrl c = target \<and> fcHeaders c = orHeaders req \<and> fcBody c = orBody req"
proof -
  obtain n where n: "npMaxRedirects (nePolicy env) = Suc n" using assms(6) by (cases "npMaxRedirects (nePolicy env)") auto
  obtain x w2 where f: "impl (sendCall req target) w1 = (x, w2)" by fastforce
  let ?s = "(w2, [sendCall req (orUrl req), sendCall req target])"
  have kept: "sendCall req target \<in> set (snd (snd (followRedirects n env impl (sendCall req) (finishSend env) chain u ?s)))" for chain u
    using followRedirects_trace[of "sendCall req" n env impl "finishSend env" chain u ?s] by (auto simp: sendCall_def)
  have "sendCall req target \<in> set (snd (snd (send env impl req (w, []))))"
  proof (cases x)
    case (Inl e) then show ?thesis using assms by (simp add: send_def n doFetch_def f)
  next
    case (Inr resp) then show ?thesis using assms kept
      by (cases "nextUrl env resp second") (auto simp: send_def n doFetch_def f)
  qed
  then show ?thesis by (rule bexI[rotated]) (simp add: sendCall_def)
qed

subsection \<open>A concrete network\<close>

definition sampleParse :: "string \<Rightarrow> parsedUrl option" where
  "sampleParse url = (if startsWith url ''https://'' then Some \<lparr>puProtocol = ''https:'', puHostname = drop 8 url, puHref = url\<rparr> else None)"

definition sampleNet :: "nat networkEnv" where
  "sampleNet = \<lparr>neParse = sampleParse, neResolve = (\<lambda>location _. Some location), neUtf8 = (\<lambda>b. b), neByteLength = length,
     nePolicy = DEFAULT_NETWORK_POLICY\<rparr>"

definition redirectTo :: "string \<Rightarrow> fetchResponse" where
  "redirectTo u = \<lparr>frStatus = 302, frGet = (\<lambda>h. if h = ''location'' then Some u else None), frBody = None, frText = [], frEntries = None\<rparr>"

definition okResponse :: fetchResponse where
  "okResponse = \<lparr>frStatus = 200, frGet = (\<lambda>_. None), frBody = Some \<lparr>bsChunks = [[1, 2], [3]], bsFailure = None\<rparr>,
     frText = [], frEntries = None\<rparr>"

definition sampleImpl :: "nat fetchImpl" where
  "sampleImpl call n = (Inr (if n = 0 then redirectTo ''https://b.example'' else okResponse), n + 1)"

definition tokenRequest :: outboundRequest where
  "tokenRequest = \<lparr>orMethod = POST, orUrl = ''https://a.example'', orHeaders = Some [(''authorization'', ''Bearer t'')], orBody = Some ''{}''\<rparr>"

lemma every_hop_checked_witness:
  "list_all (\<lambda>c. urlAllowed sampleNet (fcUrl c)) (snd (snd (send sampleNet sampleImpl tokenRequest (0, []))))"
  using every_hop_checked[of sampleNet sampleImpl "[]" "(0, [])" tokenRequest] by (auto simp: list_all_iff)

lemma downloads_capped_witness:
  "readBounded sampleNet okResponse = Inr ([1, 2, 3], False) \<and> readBoundedStrict sampleNet okResponse = Inr [1, 2, 3]"
  using downloads_capped[of okResponse "\<lparr>bsChunks = [[1, 2], [3]], bsFailure = None\<rparr>" sampleNet]
  by (simp add: okResponse_def sampleNet_def DEFAULT_NETWORK_POLICY_def)

lemma send_forwards_credentials_witness:
  "\<exists>c \<in> set (snd (snd (send sampleNet sampleImpl tokenRequest (0, [])))).
     fcUrl c = ''https://b.example'' \<and> fcHeaders c = Some [(''authorization'', ''Bearer t'')]"
proof -
  have url: "checkUrl sampleNet ''https://a.example'' = Inr \<lparr>puProtocol = ''https:'', puHostname = ''a.example'', puHref = ''https://a.example''\<rparr>"
    "checkUrl sampleNet ''https://b.example'' = Inr \<lparr>puProtocol = ''https:'', puHostname = ''b.example'', puHref = ''https://b.example''\<rparr>"
    by (simp_all add: checkUrl_def sampleNet_def sampleParse_def checkHost_def DEFAULT_NETWORK_POLICY_def Let_def
        toLowerCase_def lowerChar_def EGRESS_METADATA_HOSTS_def isPrivateHost_def PRIVATE_PREFIXES_def isPrivate172_def startsWith_def)
  show ?thesis
    using send_forwards_credentials[of sampleNet tokenRequest _ sampleImpl 0 "redirectTo ''https://b.example''" 1
        "''https://b.example''", OF _ _ _ _ url(2)] url(1)
    by (auto simp: tokenRequest_def sampleImpl_def isRedirect_def redirectTo_def nextUrl_def sampleNet_def DEFAULT_NETWORK_POLICY_def)
qed

end
