(* ===== verification/Session_Model.thy ===== *)
theory Session_Model
  imports Event_Store Turn_Effects
begin

text \<open>
  \<^verbatim>\<open>apps/cli/src/sessions.ts\<close> and \<^verbatim>\<open>packages/storage/src/export.ts\<close>: what a session is rebuilt from.
  The conversation of a thread, the approval it waits for, its fork and its export are all reads of the
  durable log. Ids and the clock of the store come from a world \<^typ>\<open>'w\<close>; the JSON functions of the platform
  and the lenient event schema are parameters.
\<close>

subsection \<open>Reading a thread\<close>

record sessionSummary =
  ssThreadId :: string
  ssName :: "string option"
  ssUpdatedAt :: int
  ssTurns :: nat
  ssForkedFrom :: "string option"

definition isTurnStart :: "harnessEvent \<Rightarrow> bool" where
  "isTurnStart e = (case evPayload e of TurnStarted t \<Rightarrow> True | _ \<Rightarrow> False)"

definition listSessions :: "eventStore \<Rightarrow> sessionSummary list" where
  "listSessions s = map (\<lambda>r. \<lparr>ssThreadId = thId r, ssName = thName r, ssUpdatedAt = thUpdatedAt r,
     ssTurns = length (filter isTurnStart (readThread (thId r) 0 s)),
     ssForkedFrom = map_option fst (thForkedFrom r)\<rparr>) (listThreads False s)"

definition bodyHistory :: "itemBody \<Rightarrow> inputItem list" where
  "bodyHistory b =
     (case b of
        AssistantMessage t final \<Rightarrow> if t \<noteq> [] then [MessageItem False t] else []
      | ToolCallItem callId name argsJson args \<Rightarrow> [FunctionCall callId name argsJson]
      | ToolResult callId name ok preview ref truncated ms cat \<Rightarrow> [FunctionOutput callId name preview]
      | _ \<Rightarrow> [])"

definition payloadHistory :: "eventPayload \<Rightarrow> inputItem list" where
  "payloadHistory p =
     (case p of
        TurnStarted userText \<Rightarrow> [MessageItem True userText]
      | ItemAppended i \<Rightarrow> bodyHistory (itBody i)
      | _ \<Rightarrow> [])"

definition reconstructHistory :: "eventStore \<Rightarrow> string \<Rightarrow> inputItem list" where
  "reconstructHistory s t = concat (map (\<lambda>e. payloadHistory (evPayload e)) (readThread t 0 s))"

definition lastAssistantText :: "harnessEvent list \<Rightarrow> string option" where
  "lastAssistantText events =
     (case List.map_filter (\<lambda>e. case evPayload e of
            ItemAppended i \<Rightarrow> (case itBody i of AssistantMessage t final \<Rightarrow> Some t | _ \<Rightarrow> None) | _ \<Rightarrow> None) (rev events) of
        [] \<Rightarrow> None | t # _ \<Rightarrow> Some t)"

subsection \<open>The approval a turn waits for\<close>

record pendingApprovalRecord =
  paThreadId :: string
  paTurnId :: string
  paCorrelationId :: string
  paPermissionProfile :: permissionProfile
  paCallId :: string
  paNormalizedAction :: string
  paRisk :: riskLevel
  paPendingCalls :: "toolCall list"

definition lastElem :: "'a list \<Rightarrow> 'a option" where
  "lastElem xs = (if xs = [] then None else Some (last xs))"

definition liveTurn :: "harnessEvent list \<Rightarrow> string option" where
  "liveTurn events = lastElem (List.map_filter (\<lambda>e. if isTurnStart e then evTurnId e else None) events)"

definition requestedApprovals :: "harnessEvent list \<Rightarrow> (string option \<times> string \<times> riskLevel) list" where
  "requestedApprovals events = List.map_filter (\<lambda>e. case evPayload e of
     ApprovalRequested c action risk \<Rightarrow> Some (c, action, risk) | _ \<Rightarrow> None) events"

definition resolvedIds :: "harnessEvent list \<Rightarrow> string option list" where
  "resolvedIds events = List.map_filter (\<lambda>e. case evPayload e of ApprovalResolved c ok scope \<Rightarrow> Some c | _ \<Rightarrow> None) events"

definition settledIds :: "harnessEvent list \<Rightarrow> string list" where
  "settledIds events = List.map_filter (\<lambda>e. case evPayload e of
     ItemAppended i \<Rightarrow> (case itBody i of ToolResult c name ok preview ref tr ms cat \<Rightarrow> Some c | _ \<Rightarrow> None) | _ \<Rightarrow> None) events"

definition unsettledCalls :: "harnessEvent list \<Rightarrow> toolCall list" where
  "unsettledCalls events = List.map_filter (\<lambda>e. case evPayload e of
     ItemAppended i \<Rightarrow>
       (case itBody i of
          ToolCallItem c name argsJson args \<Rightarrow>
            if c \<in> set (settledIds events) then None
            else Some \<lparr>tcItemId = itId i, tcCallId = c, tcToolName = name, tcArgumentsJson = argsJson,
                   tcArguments = (case args of None \<Rightarrow> [] | Some a \<Rightarrow> a)\<rparr>
        | _ \<Rightarrow> None)
   | _ \<Rightarrow> None) events"

definition isTurnEnd :: "harnessEvent \<Rightarrow> bool" where
  "isTurnEnd e = (case evPayload e of TurnEnded s r \<Rightarrow> True | _ \<Rightarrow> False)"

definition findPendingApproval :: "eventStore \<Rightarrow> string \<Rightarrow> pendingApprovalRecord option" where
  "findPendingApproval s t =
     (let events = readThread t 0 s in
      case liveTurn events of
        None \<Rightarrow> None
      | Some turnId \<Rightarrow>
          (let inTurn = filter (\<lambda>e. evTurnId e = Some turnId) events in
           if list_ex isTurnEnd inTurn then None
           else case lastElem (filter (\<lambda>p. fst p \<notin> set (resolvedIds inTurn)) (requestedApprovals inTurn)) of
             None \<Rightarrow> None
           | Some (None, action, risk) \<Rightarrow> None
           | Some (Some callId, action, risk) \<Rightarrow>
               (case (unsettledCalls inTurn, inTurn) of
                  ([], _) \<Rightarrow> None
                | (_, []) \<Rightarrow> None
                | (calls, envel # _) \<Rightarrow>
                    Some \<lparr>paThreadId = t, paTurnId = turnId, paCorrelationId = evCorrelationId envel,
                      paPermissionProfile = evPermissionProfile envel, paCallId = callId,
                      paNormalizedAction = action, paRisk = risk, paPendingCalls = calls\<rparr>)))"

subsection \<open>Forking\<close>

record 'w sessionDeps =
  sdStore :: storeOptions
  sdNextId :: "string \<Rightarrow> 'w \<Rightarrow> string \<times> 'w"
  sdNow :: "'w \<Rightarrow> int \<times> 'w"

datatype sessionExn = NoSuchSession string | SessionStore storeFailure

type_synonym ('w, 'a) sess = "eventStore \<times> 'w \<Rightarrow> (sessionExn + 'a) \<times> (eventStore \<times> 'w)"

definition bindS :: "('w, 'a) sess \<Rightarrow> ('a \<Rightarrow> ('w, 'b) sess) \<Rightarrow> ('w, 'b) sess" where
  "bindS m f s = (case m s of (Inl e, s') \<Rightarrow> (Inl e, s') | (Inr x, s') \<Rightarrow> f x s')"

definition takeIdS :: "'w sessionDeps \<Rightarrow> string \<Rightarrow> ('w, string) sess" where
  "takeIdS d kind s = (let (i, w) = sdNextId d kind (snd s) in (Inr i, (fst s, w)))"

definition appendS :: "'w sessionDeps \<Rightarrow> appendInput \<Rightarrow> ('w, unit) sess" where
  "appendS d input s =
     (let (eid, w1) = sdNextId d ''evt'' (snd s); (now, w2) = sdNow d w1 in
      case appendEvent (sdStore d) now eid input (fst s) of
        (Inl e, st) \<Rightarrow> (Inl (SessionStore e), (st, w2))
      | (Inr ev, st) \<Rightarrow> (Inr (), (st, w2)))"

text \<open>\<^verbatim>\<open>remap\<close>: one fresh id for each old id.\<close>

definition remapId :: "'w sessionDeps \<Rightarrow> string \<Rightarrow> string \<Rightarrow> (string \<Rightarrow> string option) \<Rightarrow> ('w, string \<times> (string \<Rightarrow> string option)) sess" where
  "remapId d kind old ids =
     (case ids old of
        Some i \<Rightarrow> (\<lambda>s. (Inr (i, ids), s))
      | None \<Rightarrow> bindS (takeIdS d kind) (\<lambda>i s. (Inr (i, ids(old \<mapsto> i)), s)))"

definition forkBase :: "string \<Rightarrow> string \<Rightarrow> permissionProfile \<Rightarrow> string \<Rightarrow> string option \<Rightarrow> string option \<Rightarrow> eventPayload \<Rightarrow> appendInput" where
  "forkBase newThread cor profile who turn item payload =
     \<lparr>aiThreadId = newThread, aiTurnId = turn, aiItemId = item,
      aiActor = \<lparr>actorKind = A_system, actorId = who, actorLabel = None\<rparr>, aiCorrelationId = cor,
      aiPermissionProfile = profile, aiPayload = payload\<rparr>"

fun forkEvents ::
  "'w sessionDeps \<Rightarrow> (string option \<Rightarrow> string option \<Rightarrow> eventPayload \<Rightarrow> appendInput) \<Rightarrow> string \<Rightarrow>
   harnessEvent list \<Rightarrow> (string \<Rightarrow> string option) \<Rightarrow> ('w, nat) sess" where
  "forkEvents d base newThread [] ids s = (Inr 0, s)"
| "forkEvents d base newThread (e # es) ids s =
     (case evPayload e of
        TurnStarted userText \<Rightarrow>
          bindS (case evTurnId e of
                   Some t \<Rightarrow> if t \<noteq> [] then remapId d ''trn'' t ids
                             else bindS (takeIdS d ''trn'') (\<lambda>i s. (Inr (i, ids), s))
                 | None \<Rightarrow> bindS (takeIdS d ''trn'') (\<lambda>i s. (Inr (i, ids), s))) (\<lambda>(turn, ids1).
          bindS (appendS d (base (Some turn) None (TurnStarted userText))) (\<lambda>_.
          bindS (forkEvents d base newThread es ids1) (\<lambda>n s. (Inr (n + 1), s)))) s
      | ItemAppended i \<Rightarrow>
          bindS (remapId d ''trn'' (itTurnId i) ids) (\<lambda>(turn, ids1).
          bindS (remapId d ''itm'' (itId i) ids1) (\<lambda>(item, ids2).
          bindS (appendS d (base (Some turn) (Some item)
             (ItemAppended (i\<lparr>itId := item, itTurnId := turn, itThreadId := newThread\<rparr>)))) (\<lambda>_.
          bindS (forkEvents d base newThread es ids2) (\<lambda>n s. (Inr (n + 1), s))))) s
      | _ \<Rightarrow> forkEvents d base newThread es ids s)"

definition forkCutoff :: "nat option \<Rightarrow> harnessEvent list \<Rightarrow> nat" where
  "forkCutoff atSeq events =
     (case atSeq of Some n \<Rightarrow> n | None \<Rightarrow> (case lastElem events of None \<Rightarrow> 0 | Some e \<Rightarrow> evSeq e))"

definition forkSession ::
  "'w sessionDeps \<Rightarrow> string \<Rightarrow> string \<Rightarrow> nat option \<Rightarrow> string \<Rightarrow> ('w, string \<times> string \<times> nat) sess" where
  "forkSession d from newThread atSeq actor s =
     (case getThread from (fst s) of
        None \<Rightarrow> (Inl (NoSuchSession from), s)
      | Some source \<Rightarrow>
          (let events = readThread from 0 (fst s); cutoff = forkCutoff atSeq events in
           bindS (takeIdS d ''cor'') (\<lambda>cor.
             let base = forkBase newThread cor (thProfile source) actor in
             bindS (appendS d (base None None (ThreadCreated (thCwd source) (thCanonicalRepo source)
               (case thName source of None \<Rightarrow> None | Some n \<Rightarrow> if n = [] then None else Some (n @ '' (fork)''))))) (\<lambda>_.
             bindS (appendS d (base None None (ThreadForked from cutoff))) (\<lambda>_.
             bindS (forkEvents d base newThread (takeWhile (\<lambda>e. evSeq e \<le> cutoff) events) (\<lambda>_. None)) (\<lambda>n s.
               (Inr (newThread, from, n), s))))) s))"

subsection \<open>Export and import\<close>

definition EXPORT_FORMAT_VERSION :: nat where
  "EXPORT_FORMAT_VERSION = 1"

record exportHeader =
  ehFormat :: string
  ehFormatVersion :: nat
  ehExportedAt :: int
  ehThreadId :: "string option"
  ehEventCount :: nat

text \<open>\<^verbatim>\<open>JSON.stringify\<close> and \<^verbatim>\<open>JSON.parse\<close> at the two types of a line; the second with the lenient schema.\<close>

record jsonl =
  jlPrintHeader :: "exportHeader \<Rightarrow> string"
  jlPrintEvent :: "harnessEvent \<Rightarrow> string"
  jlParseHeader :: "string \<Rightarrow> exportHeader option"
  jlParseEvent :: "string \<Rightarrow> harnessEvent option"

definition headerOf :: "string option \<Rightarrow> int \<Rightarrow> harnessEvent list \<Rightarrow> exportHeader" where
  "headerOf thread exportedAt events =
     \<lparr>ehFormat = ''qwen-harness/jsonl'', ehFormatVersion = EXPORT_FORMAT_VERSION, ehExportedAt = exportedAt,
       ehThreadId = thread, ehEventCount = length events\<rparr>"

definition exportedEvents :: "eventStore \<Rightarrow> string option \<Rightarrow> harnessEvent list" where
  "exportedEvents s thread =
     (case thread of Some t \<Rightarrow> if t \<noteq> [] then readThread t 0 s else readAll s | None \<Rightarrow> readAll s)"

definition exportJsonl :: "jsonl \<Rightarrow> eventStore \<Rightarrow> string option \<Rightarrow> int \<Rightarrow> string" where
  "exportJsonl j s thread exportedAt =
     (let events = exportedEvents s thread in
      joinWith [CHR 0x0A] (jlPrintHeader j (headerOf thread exportedAt events) # map (jlPrintEvent j) events) @ [CHR 0x0A])"

datatype importError =
    Im_empty | Im_json | Im_format string | Im_version nat | Im_count nat nat

record importResult =
  imHeader :: exportHeader
  imEvents :: "harnessEvent list"
  imUnknownCount :: nat

definition isUnknown :: "harnessEvent \<Rightarrow> bool" where
  "isUnknown e = (case evPayload e of UnknownPayload t v \<Rightarrow> True | _ \<Rightarrow> False)"

definition parseEvents :: "jsonl \<Rightarrow> string list \<Rightarrow> harnessEvent list option" where
  "parseEvents j ls = those (map (jlParseEvent j) ls)"

definition importJsonl :: "jsonl \<Rightarrow> string \<Rightarrow> importError + importResult" where
  "importJsonl j doc =
     (case filter (\<lambda>l. trim l \<noteq> []) (splitChar (CHR 0x0A) doc) of
        [] \<Rightarrow> Inl Im_empty
      | first # rest \<Rightarrow>
          (case jlParseHeader j first of
             None \<Rightarrow> Inl Im_json
           | Some header \<Rightarrow>
               if ehFormat header \<noteq> ''qwen-harness/jsonl'' then Inl (Im_format (ehFormat header))
               else if EXPORT_FORMAT_VERSION < ehFormatVersion header then Inl (Im_version (ehFormatVersion header))
               else case parseEvents j rest of
                 None \<Rightarrow> Inl Im_json
               | Some events \<Rightarrow>
                   if length events \<noteq> ehEventCount header then Inl (Im_count (ehEventCount header) (length events))
                   else Inr \<lparr>imHeader = header, imEvents = events, imUnknownCount = length (filter isUnknown events)\<rparr>))"

text \<open>Inserting the events as they are, in one transaction, and rebuilding the projections.\<close>

fun insertAll :: "(harnessEvent \<Rightarrow> bool) \<Rightarrow> harnessEvent list \<Rightarrow> eventStore \<Rightarrow> eventStore option" where
  "insertAll valid [] s = Some s"
| "insertAll valid (e # es) s =
     (if \<not> isUnknown e \<and> \<not> valid e then None
      else case insertEvent e s of None \<Rightarrow> None | Some s' \<Rightarrow> insertAll valid es s')"

definition replayInto :: "(harnessEvent \<Rightarrow> bool) \<Rightarrow> harnessEvent list \<Rightarrow> eventStore \<Rightarrow> (storeFailure + nat) \<times> eventStore" where
  "replayInto valid events s =
     (case insertAll valid events s of None \<Rightarrow> (Inl Sf_constraint, s) | Some s' \<Rightarrow> rebuildProjections s')"

definition exportSession :: "jsonl \<Rightarrow> eventStore \<Rightarrow> string \<Rightarrow> int \<Rightarrow> sessionExn + string" where
  "exportSession j s t now =
     (case getThread t s of None \<Rightarrow> Inl (NoSuchSession t) | Some r \<Rightarrow> Inr (exportJsonl j s (Some t) now))"

end
