(* ===== verification/Session_Theorems.thy ===== *)
theory Session_Theorems
  imports Session_Model Event_Store_Theorems
begin

text \<open>
  Sessions keep what they promise: a fork has the history of its original up to the cut and leaves every
  other thread alone, and an export that is imported and replayed gives the log and the projections back.
\<close>

subsection \<open>Threads in a gapless log\<close>

lemma thread_sorted:
  assumes "gapless es"
  shows "sort_key evSeq (filter (\<lambda>e. evThreadId e = t) es) = filter (\<lambda>e. evThreadId e = t) es"
proof -
  have "map evSeq (filter (\<lambda>e. evThreadId e = t) es) = [0..<length (threadSeqs t es)]"
    using assms unfolding gapless_def threadSeqs_def by simp
  then have "sorted (map evSeq (filter (\<lambda>e. evThreadId e = t) es))" by simp
  then show ?thesis by (rule sort_key_id_if_sorted)
qed

lemma readThread_gapless:
  "gapless (storeLog s) \<Longrightarrow> readThread t 0 s = map rowToEvent (filter (\<lambda>e. evThreadId e = t) (storeLog s))"
  by (simp add: readThread_def thread_sorted)

lemma rowToEvent_simps [simp]:
  "evPayload (rowToEvent e) = evPayload e" "evSeq (rowToEvent e) = evSeq e" "evThreadId (rowToEvent e) = evThreadId e"
  by (simp_all add: rowToEvent_def)

definition logHistory :: "string \<Rightarrow> harnessEvent list \<Rightarrow> inputItem list" where
  "logHistory t es = concat (map (\<lambda>e. payloadHistory (evPayload e)) (filter (\<lambda>e. evThreadId e = t) es))"

lemma reconstruct_log: "gapless (storeLog s) \<Longrightarrow> reconstructHistory s t = logHistory t (storeLog s)"
  by (simp add: reconstructHistory_def readThread_gapless logHistory_def comp_def)

subsection \<open>Forks\<close>

lemma bindS_Inr: "bindS m f s = (Inr y, s') \<longleftrightarrow> (\<exists>x s1. m s = (Inr x, s1) \<and> f x s1 = (Inr y, s'))"
  by (auto simp: bindS_def split: prod.splits sum.splits)

text \<open>What appending to one thread adds to the log.\<close>

definition addsTo :: "string \<Rightarrow> inputItem list \<Rightarrow> eventStore \<times> 'w \<Rightarrow> eventStore \<times> 'w \<Rightarrow> bool" where
  "addsTo t h s s' \<longleftrightarrow> (\<exists>new. storeLog (fst s') = storeLog (fst s) @ new \<and> (\<forall>e \<in> set new. evThreadId e = t) \<and>
     concat (map (\<lambda>e. payloadHistory (evPayload e)) new) = h \<and> gapless (storeLog (fst s')))"

lemma addsTo_trans: "addsTo t h s s1 \<Longrightarrow> addsTo t h' s1 s2 \<Longrightarrow> addsTo t (h @ h') s s2"
proof -
  assume "addsTo t h s s1" "addsTo t h' s1 s2"
  then obtain new new' where "storeLog (fst s1) = storeLog (fst s) @ new" "\<forall>e \<in> set new. evThreadId e = t"
    "concat (map (\<lambda>e. payloadHistory (evPayload e)) new) = h" "storeLog (fst s2) = storeLog (fst s1) @ new'"
    "\<forall>e \<in> set new'. evThreadId e = t" "concat (map (\<lambda>e. payloadHistory (evPayload e)) new') = h'"
    "gapless (storeLog (fst s2))" unfolding addsTo_def by blast
  then show ?thesis unfolding addsTo_def by (intro exI[of _ "new @ new'"]) auto
qed

lemma addsTo_same: "storeLog (fst s') = storeLog (fst s) \<Longrightarrow> gapless (storeLog (fst s)) \<Longrightarrow> addsTo t [] s s'"
  by (simp add: addsTo_def)

lemma addsTo_gapless: "addsTo t h s s' \<Longrightarrow> gapless (storeLog (fst s'))"
  unfolding addsTo_def by blast

lemma appendS_adds:
  assumes "appendS d input s = (Inr u, s')" "gapless (storeLog (fst s))"
  shows "addsTo (aiThreadId input) (payloadHistory (soRedact (sdStore d) (aiPayload input))) s s'"
proof -
  obtain eid now w where s': "(case appendEvent (sdStore d) now eid input (fst s) of
      (Inl e, st) \<Rightarrow> (Inl (SessionStore e), (st, w)) | (Inr ev, st) \<Rightarrow> (Inr (), (st, w))) = (Inr u, s')"
    using assms(1) by (auto simp: appendS_def split: prod.splits)
  have g: "gapless (storeLog (snd (appendEvent (sdStore d) now eid input (fst s))))" by (rule gapless_append[OF assms(2)])
  show ?thesis
    by (cases rule: appendEvent_cases[of "sdStore d" now eid input "fst s"])
      (use s' g in \<open>auto simp: addsTo_def envelope_def\<close>)
qed

lemma takeIdS_log: "takeIdS d kind s = (r, s') \<Longrightarrow> fst s' = fst s"
  by (auto simp: takeIdS_def split: prod.splits)

lemma remapId_log: "remapId d kind i ids s = (r, s') \<Longrightarrow> fst s' = fst s"
  by (auto simp: remapId_def bindS_def takeIdS_def split: option.splits prod.splits sum.splits)

lemma forkBase_simps [simp]:
  "aiThreadId (forkBase t cor p a turn item payload) = t" "aiPayload (forkBase t cor p a turn item payload) = payload"
  by (simp_all add: forkBase_def)

text \<open>The redactor leaves the conversation of what it has already redacted.\<close>

definition redactsOnce :: "storeOptions \<Rightarrow> harnessEvent list \<Rightarrow> bool" where
  "redactsOnce opts es \<longleftrightarrow> (\<forall>p. payloadHistory p = [] \<or> payloadHistory p \<in> (\<lambda>e. payloadHistory (evPayload e)) ` set es \<longrightarrow>
     payloadHistory (soRedact opts p) = payloadHistory p)"

lemma redactsOnce_mono: "redactsOnce opts es \<Longrightarrow> set es' \<subseteq> set es \<Longrightarrow> redactsOnce opts es'"
  unfolding redactsOnce_def by blast

lemma forkEvents_adds:
  assumes "forkEvents d (forkBase t cor p a) t es ids s = (Inr n, s')" "gapless (storeLog (fst s))" "redactsOnce (sdStore d) es"
  shows "addsTo t (concat (map (\<lambda>e. payloadHistory (evPayload e)) es)) s s'"
  using assms
proof (induction es arbitrary: ids s n)
  case Nil then show ?case by (simp add: addsTo_def)
next
  case (Cons e es)
  have rest: "redactsOnce (sdStore d) es" using Cons.prems(3) by (rule redactsOnce_mono) auto
  have one: "payloadHistory (soRedact (sdStore d) q) = payloadHistory (evPayload e)"
    if "payloadHistory q = payloadHistory (evPayload e)" for q
    using Cons.prems(3) that unfolding redactsOnce_def by auto
  have step: "addsTo t (payloadHistory (evPayload e) @ concat (map (\<lambda>e. payloadHistory (evPayload e)) es)) s s'"
    if "fst s1 = fst s" "appendS d (forkBase t cor p a turn item q) s1 = (Inr (), s2)"
      "payloadHistory q = payloadHistory (evPayload e)" "forkEvents d (forkBase t cor p a) t es ids' s2 = (Inr m, s')"
    for s1 s2 turn item q ids' m
  proof -
    have g1: "gapless (storeLog (fst s1))" using that(1) Cons.prems(2) by simp
    from appendS_adds[OF that(2) g1] one[OF that(3)] have a: "addsTo t (payloadHistory (evPayload e)) s1 s2" by simp
    then have g2: "gapless (storeLog (fst s2))" by (rule addsTo_gapless)
    have "addsTo t [] s s1" using that(1) Cons.prems(2) by (simp add: addsTo_same)
    from addsTo_trans[OF addsTo_trans[OF this a] Cons.IH[OF that(4) g2 rest]] show ?thesis by simp
  qed
  show ?case
  proof (cases "\<exists>u. evPayload e = TurnStarted u")
    case True
    then obtain u where u: "evPayload e = TurnStarted u" by blast
    show ?thesis using Cons.prems(1) step unfolding u forkEvents.simps
      by (auto simp: u bindS_Inr split: option.splits if_splits dest!: takeIdS_log remapId_log)
  next
    case no: False
    show ?thesis
    proof (cases "\<exists>i. evPayload e = ItemAppended i")
      case True
      then obtain i where i: "evPayload e = ItemAppended i" by blast
      show ?thesis using Cons.prems(1) step unfolding i forkEvents.simps
        by (fastforce simp: i bindS_Inr payloadHistory_def dest!: remapId_log)
    next
      case False
      with no have "payloadHistory (evPayload e) = []" "forkEvents d (forkBase t cor p a) t (e # es) ids s = forkEvents d (forkBase t cor p a) t es ids s"
        by (auto simp: payloadHistory_def split: eventPayload.splits)
      then show ?thesis using Cons.IH[of ids s n] Cons.prems(1,2) rest by simp
    qed
  qed
qed

lemma addsTo_history:
  assumes "addsTo t h s s'"
  shows "logHistory t (storeLog (fst s')) = logHistory t (storeLog (fst s)) @ h"
    "t' \<noteq> t \<Longrightarrow> logHistory t' (storeLog (fst s')) = logHistory t' (storeLog (fst s))"
proof -
  from assms obtain new where new: "storeLog (fst s') = storeLog (fst s) @ new" "\<forall>e \<in> set new. evThreadId e = t"
    "concat (map (\<lambda>e. payloadHistory (evPayload e)) new) = h" unfolding addsTo_def by blast
  have "filter (\<lambda>e. evThreadId e = t) new = new" using new(2) by simp
  then show "logHistory t (storeLog (fst s')) = logHistory t (storeLog (fst s)) @ h" using new by (simp add: logHistory_def)
  assume "t' \<noteq> t"
  then have "filter (\<lambda>e. evThreadId e = t') new = []" using new(2) by (simp add: filter_empty_conv)
  then show "logHistory t' (storeLog (fst s')) = logHistory t' (storeLog (fst s))" using new by (simp add: logHistory_def)
qed

lemma forkSession_adds:
  assumes "forkSession d from new atSeq who s = (Inr r, s')" "gapless (storeLog (fst s))"
    and "redactsOnce (sdStore d) (readThread from 0 (fst s))"
  shows "addsTo new (concat (map (\<lambda>e. payloadHistory (evPayload e))
     (takeWhile (\<lambda>e. evSeq e \<le> forkCutoff atSeq (readThread from 0 (fst s))) (readThread from 0 (fst s))))) s s'"
proof -
  let ?events = "readThread from 0 (fst s)"
  let ?copied = "takeWhile (\<lambda>e. evSeq e \<le> forkCutoff atSeq ?events) ?events"
  obtain source where "getThread from (fst s) = Some source" using assms(1) by (auto simp: forkSession_def split: option.splits)
  then obtain cor s1 s2 s3 n name where
    steps: "takeIdS d ''cor'' s = (Inr cor, s1)"
      "appendS d (forkBase new cor (thProfile source) who None None (ThreadCreated (thCwd source) (thCanonicalRepo source) name)) s1 = (Inr (), s2)"
      "appendS d (forkBase new cor (thProfile source) who None None (ThreadForked from (forkCutoff atSeq ?events))) s2 = (Inr (), s3)"
      "forkEvents d (forkBase new cor (thProfile source) who) new ?copied (\<lambda>_. None) s3 = (Inr n, s')"
    using assms(1) by (auto simp: forkSession_def Let_def bindS_Inr)
  have silent: "payloadHistory (soRedact (sdStore d) p) = []" if "payloadHistory p = []" for p
    using assms(3) that by (simp add: redactsOnce_def)
  have s1: "addsTo new [] s s1" using takeIdS_log[OF steps(1)] assms(2) by (simp add: addsTo_same)
  have "payloadHistory (ThreadCreated (thCwd source) (thCanonicalRepo source) name) = []"
    "payloadHistory (ThreadForked from (forkCutoff atSeq ?events)) = []" by (simp_all add: payloadHistory_def)
  note quiet = this[THEN silent]
  have s2: "addsTo new [] s1 s2" using appendS_adds[OF steps(2) addsTo_gapless[OF s1]] quiet by simp
  have s3: "addsTo new [] s2 s3" using appendS_adds[OF steps(3) addsTo_gapless[OF s2]] quiet by simp
  have "redactsOnce (sdStore d) ?copied" using assms(3) by (rule redactsOnce_mono) (auto dest: set_takeWhileD)
  from forkEvents_adds[OF steps(4) addsTo_gapless[OF s3] this]
  show ?thesis using addsTo_trans[OF s1 addsTo_trans[OF s2 s3]] addsTo_trans by fastforce
qed

lemma takeWhile_last_seq:
  assumes "gapless (storeLog s)"
  shows "takeWhile (\<lambda>e. evSeq e \<le> forkCutoff None (readThread t 0 s)) (readThread t 0 s) = readThread t 0 s"
proof -
  let ?es = "filter (\<lambda>e. evThreadId e = t) (storeLog s)"
  have seqs: "map evSeq (readThread t 0 s) = [0..<length ?es]"
    using assms unfolding readThread_gapless[OF assms] gapless_def threadSeqs_def by (simp add: comp_def)
  show ?thesis
  proof (cases "readThread t 0 s = []")
    case False
    have "evSeq (last (readThread t 0 s)) = last (map evSeq (readThread t 0 s))" using False by (simp add: last_map)
    also have "\<dots> = length ?es - 1" using False unfolding seqs by (cases "length ?es") (auto simp: readThread_gapless[OF assms])
    finally have last: "evSeq (last (readThread t 0 s)) = length ?es - 1" .
    have "evSeq e \<le> length ?es - 1" if "e \<in> set (readThread t 0 s)" for e
    proof -
      have "evSeq e \<in> set (map evSeq (readThread t 0 s))" using that by simp
      then show ?thesis unfolding seqs by auto
    qed
    then show ?thesis using False by (simp add: forkCutoff_def lastElem_def last)
  qed simp
qed

text \<open>
  C31: A fork of a thread has, for the model, exactly the history of the original up to the cut, all of it when
  no cut is given; and no other thread changes, the original included.
\<close>
theorem fork_preserves_history:
  assumes "store_reach (fst s)" "\<forall>e \<in> set (storeLog (fst s)). evThreadId e \<noteq> new"
    and "redactsOnce (sdStore d) (readThread from 0 (fst s))"
    and "forkSession d from new atSeq who s = (Inr r, s')"
  shows "reconstructHistory (fst s') new = concat (map (\<lambda>e. payloadHistory (evPayload e))
      (takeWhile (\<lambda>e. evSeq e \<le> forkCutoff atSeq (readThread from 0 (fst s))) (readThread from 0 (fst s)))) \<and>
    (atSeq = None \<longrightarrow> reconstructHistory (fst s') new = reconstructHistory (fst s) from) \<and>
    (\<forall>t. t \<noteq> new \<longrightarrow> reconstructHistory (fst s') t = reconstructHistory (fst s) t)"
proof -
  have g: "gapless (storeLog (fst s))" using assms(1) by (rule reach_gapless)
  note adds = forkSession_adds[OF assms(4) g assms(3)]
  have g': "gapless (storeLog (fst s'))" using adds by (rule addsTo_gapless)
  have fresh: "logHistory new (storeLog (fst s)) = []"
    using assms(2) by (auto simp: logHistory_def)
  have new: "reconstructHistory (fst s') new = concat (map (\<lambda>e. payloadHistory (evPayload e))
      (takeWhile (\<lambda>e. evSeq e \<le> forkCutoff atSeq (readThread from 0 (fst s))) (readThread from 0 (fst s))))"
    using addsTo_history(1)[OF adds] by (simp add: reconstruct_log[OF g'] fresh)
  moreover have "reconstructHistory (fst s') new = reconstructHistory (fst s) from" if "atSeq = None"
    using new unfolding that takeWhile_last_seq[OF g] by (simp add: reconstructHistory_def)
  moreover have "reconstructHistory (fst s') t = reconstructHistory (fst s) t" if "t \<noteq> new" for t
    using addsTo_history(2)[OF adds that] by (simp add: reconstruct_log[OF g'] reconstruct_log[OF g])
  ultimately show ?thesis by blast
qed

subsection \<open>Export and import\<close>

lemma splitChar_lines:
  assumes "ls \<noteq> []" "\<And>l. l \<in> set ls \<Longrightarrow> c \<notin> set l"
  shows "splitChar c (joinWith [c] ls @ [c]) = ls @ [[]]"
  using assms
proof (induction ls rule: list_nonempty_induct)
  case (single x) then show ?case using splitChar_first[of c x "[]"] by simp
next
  case (cons x xs) then show ?case by (simp add: joinWith_Cons splitChar_first)
qed

text \<open>
  What \<^verbatim>\<open>JSON.stringify\<close> and \<^verbatim>\<open>JSON.parse\<close> promise of what is exported: a line has no newline and is not
  blank, and parsing it gives back what was printed.
\<close>

definition jsonlLaws :: "jsonl \<Rightarrow> exportHeader \<Rightarrow> harnessEvent list \<Rightarrow> bool" where
  "jsonlLaws j h es \<longleftrightarrow>
     jlParseHeader j (jlPrintHeader j h) = Some h \<and> CHR 0x0A \<notin> set (jlPrintHeader j h) \<and> trim (jlPrintHeader j h) \<noteq> [] \<and>
     (\<forall>e \<in> set es. jlParseEvent j (jlPrintEvent j e) = Some e \<and> CHR 0x0A \<notin> set (jlPrintEvent j e) \<and> trim (jlPrintEvent j e) \<noteq> [])"

lemma parseEvents_print: "(\<forall>e \<in> set es. jlParseEvent j (jlPrintEvent j e) = Some e) \<Longrightarrow> parseEvents j (map (jlPrintEvent j) es) = Some es"
  by (induction es) (auto simp: parseEvents_def)

lemma import_export:
  assumes "jsonlLaws j (headerOf thread now (exportedEvents s thread)) (exportedEvents s thread)"
  shows "importJsonl j (exportJsonl j s thread now) =
    Inr \<lparr>imHeader = headerOf thread now (exportedEvents s thread), imEvents = exportedEvents s thread,
      imUnknownCount = length (filter isUnknown (exportedEvents s thread))\<rparr>"
proof -
  define events where "events = exportedEvents s thread"
  define header where "header = headerOf thread now events"
  note laws = assms[folded events_def, folded header_def, unfolded jsonlLaws_def]
  let ?es = "map (jlPrintEvent j) events"
  have doc: "exportJsonl j s thread now = joinWith [CHR 0x0A] (jlPrintHeader j header # ?es) @ [CHR 0x0A]"
    by (simp add: exportJsonl_def Let_def header_def events_def)
  have split: "splitChar (CHR 0x0A) (exportJsonl j s thread now) = jlPrintHeader j header # ?es @ [[]]"
    unfolding doc using laws splitChar_lines[of "jlPrintHeader j header # ?es" "CHR 0x0A"] by auto
  have "filter (\<lambda>l. trim l \<noteq> []) ?es = ?es" using laws by (intro filter_True) auto
  then have lines: "filter (\<lambda>l. trim l \<noteq> []) (splitChar (CHR 0x0A) (exportJsonl j s thread now)) = jlPrintHeader j header # ?es"
    unfolding split using laws by (simp add: trim_def[of "[]"])
  have "parseEvents j ?es = Some events" using laws by (intro parseEvents_print) auto
  moreover have "jlParseHeader j (jlPrintHeader j header) = Some header" using laws by simp
  ultimately show ?thesis unfolding importJsonl_def lines
    by (simp add: events_def[symmetric] header_def[symmetric]) (simp add: header_def headerOf_def)
qed

lemma insertAll_fresh:
  assumes "\<forall>e \<in> set es. isUnknown e \<or> valid e" "gapless (storeLog s @ es)"
  shows "insertAll valid es s = Some (s\<lparr>storeLog := storeLog s @ es\<rparr>)"
  using assms
proof (induction es arbitrary: s)
  case (Cons e es)
  have "\<not> list_ex (\<lambda>x. evId x = evId e \<or> (evThreadId x = evThreadId e \<and> evSeq x = evSeq e)) (storeLog s)"
  proof (rule notI)
    assume "list_ex (\<lambda>x. evId x = evId e \<or> (evThreadId x = evThreadId e \<and> evSeq x = evSeq e)) (storeLog s)"
    then obtain x where x: "x \<in> set (storeLog s)" "evId x = evId e \<or> (evThreadId x = evThreadId e \<and> evSeq x = evSeq e)"
      by (auto simp: list_ex_iff)
    have ids: "evId x \<noteq> evId e" using imageI[OF x(1), of evId] Cons.prems(2) by (auto simp: gapless_def)
    have "distinct (threadSeqs (evThreadId e) (storeLog s @ e # es))"
      using Cons.prems(2) by (metis gapless_def distinct_upt)
    moreover have "evThreadId x = evThreadId e \<Longrightarrow> evSeq x \<in> set (threadSeqs (evThreadId e) (storeLog s))"
      using x(1) by (auto simp: threadSeqs_def)
    ultimately have "evThreadId x = evThreadId e \<Longrightarrow> evSeq x \<noteq> evSeq e" by (auto simp: threadSeqs_def)
    then show False using x(2) ids by blast
  qed
  then have "insertEvent e s = Some (s\<lparr>storeLog := storeLog s @ [e]\<rparr>)" by (simp add: insertEvent_def)
  then show ?case using Cons.IH[of "s\<lparr>storeLog := storeLog s @ [e]\<rparr>"] Cons.prems by auto
qed simp

lemma gapless_rows: "gapless es \<Longrightarrow> gapless (map rowToEvent es)"
proof -
  have "threadSeqs t (map rowToEvent es) = threadSeqs t es" for t by (simp add: threadSeqs_def filter_map comp_def)
  moreover have "evId \<circ> rowToEvent = evId" by (rule ext) (simp add: rowToEvent_def)
  ultimately show "gapless es \<Longrightarrow> gapless (map rowToEvent es)" by (simp add: gapless_def)
qed

text \<open>
  A store that was exported, imported and replayed into an empty one comes back: the same events with the
  same sequence numbers, and, unless threads were pruned, the same threads, turns and items; the ledger of side
  effects is the one recovery leaves, with what was running made indeterminate.
\<close>
theorem export_import_roundtrip:
  assumes "unpruned_reach s" "\<forall>e \<in> set (readAll s). isUnknown e \<or> valid e"
    and "jsonlLaws j (headerOf None now (readAll s)) (readAll s)"
  shows "\<exists>r p. importJsonl j (exportJsonl j s None now) = Inr r \<and>
    replayInto valid (imEvents r) freshStore =
      (Inr (length (storeLog s)), \<lparr>storeLog = readAll s, storeProj = p, storeBlobs = []\<rparr>) \<and>
    promoteAll p = promoteAll (storeProj s)"
proof -
  from reach_recoverable[OF assms(1)] obtain p where p: "replay projectStore (storeLog s) noRows = Some p"
    "promoteAll p = promoteAll (storeProj s)" by (auto simp: recoverable_def)
  have reach: "store_reach s" using assms(1)
    by (induction rule: unpruned_reach.induct) (auto intro: store_reach.intros)
  have "insertAll valid (readAll s) freshStore = Some (freshStore\<lparr>storeLog := readAll s\<rparr>)"
    using insertAll_fresh[of "readAll s" valid freshStore] assms(2) gapless_rows[OF reach_gapless[OF reach]]
    by (simp add: freshStore_def readAll_def)
  moreover have "rebuildProjections (freshStore\<lparr>storeLog := readAll s\<rparr>) =
     (Inr (length (storeLog s)), freshStore\<lparr>storeLog := readAll s, storeProj := p\<rparr>)"
    using rebuild_replays[of "freshStore\<lparr>storeLog := readAll s\<rparr>" p] p(1) by (simp add: readAll_def replay_rows)
  ultimately have "replayInto valid (readAll s) freshStore =
      (Inr (length (storeLog s)), \<lparr>storeLog = readAll s, storeProj = p, storeBlobs = []\<rparr>)"
    by (simp add: replayInto_def freshStore_def)
  then show ?thesis using import_export[of j None now s] assms(3) p(2) by (auto simp: exportedEvents_def)
qed


subsection \<open>A concrete session\<close>

definition sessionLog :: eventStore where
  "sessionLog = sampleAppend 3 ''e3'' (ItemAppended \<lparr>itId = ''itm'', itTurnId = ''trn'', itThreadId = ''thr'', itSeq = 0,
       itCreatedAt = 3, itBody = AssistantMessage ''hello'' True\<rparr>)
     (sampleAppend 2 ''e2'' (TurnStarted ''hi'')
       (sampleAppend 1 ''e1'' (ThreadCreated ''/w'' None (Some ''s'')) freshStore))"

definition sampleSession :: "nat sessionDeps" where
  "sampleSession = \<lparr>sdStore = sampleOptions, sdNextId = (\<lambda>kind n. (kind @ replicate n (CHR ''x''), n + 1)), sdNow = (\<lambda>n. (int n, n + 1))\<rparr>"

definition sampleJsonl :: jsonl where
  "sampleJsonl = \<lparr>jlPrintHeader = (\<lambda>h. ''H''), jlPrintEvent = (\<lambda>e. replicate (Suc (evSeq e)) (CHR ''x'')),
     jlParseHeader = (\<lambda>l. Some (headerOf None 9 (readAll sessionLog))),
     jlParseEvent = (\<lambda>l. find (\<lambda>e. Suc (evSeq e) = length l) (readAll sessionLog))\<rparr>"

lemma sessionLog_reach: "unpruned_reach sessionLog" "store_reach sessionLog"
  unfolding sessionLog_def sampleAppend_def
  by (intro unpruned_reach.intros(2) [OF _ append] unpruned_reach.intros(1) store_reach.step [OF _ append] store_reach.start)+

lemma fork_preserves_history_witness:
  "\<exists>r s'. forkSession sampleSession ''thr'' ''fork'' None ''u'' (sessionLog, 0) = (Inr r, s') \<and>
     reconstructHistory (fst s') ''fork'' = [MessageItem True ''hi'', MessageItem False ''hello'']"
proof -
  have "case forkSession sampleSession ''thr'' ''fork'' None ''u'' (sessionLog, 0) of (Inr r, s') \<Rightarrow> True | _ \<Rightarrow> False" by code_simp
  then obtain r s' where r: "forkSession sampleSession ''thr'' ''fork'' None ''u'' (sessionLog, 0) = (Inr r, s')"
    by (auto split: prod.splits sum.splits)
  have fresh: "\<forall>e \<in> set (storeLog (fst (sessionLog, 0::nat))). evThreadId e \<noteq> ''fork''" by code_simp
  have once: "redactsOnce (sdStore sampleSession) (readThread ''thr'' 0 (fst (sessionLog, 0::nat)))"
    by (simp add: redactsOnce_def sampleSession_def sampleOptions_def)
  have "reconstructHistory sessionLog ''thr'' = [MessageItem True ''hi'', MessageItem False ''hello'']" by code_simp
  moreover have "reconstructHistory (fst s') ''fork'' = reconstructHistory sessionLog ''thr''"
  proof -
    have "store_reach (fst (sessionLog, 0::nat))" using sessionLog_reach(2) by simp
    from fork_preserves_history[OF this fresh once r] show ?thesis unfolding fst_conv by blast
  qed
  ultimately show ?thesis using r by (intro exI[of _ r] exI[of _ s']) simp
qed

lemma export_import_roundtrip_witness:
  "\<exists>r p. importJsonl sampleJsonl (exportJsonl sampleJsonl sessionLog None 9) = Inr r \<and>
     replayInto (\<lambda>_. True) (imEvents r) freshStore = (Inr 3, \<lparr>storeLog = readAll sessionLog, storeProj = p, storeBlobs = []\<rparr>)"
proof -
  have events: "list_all (\<lambda>e. find (\<lambda>x. evSeq x = evSeq e) (readAll sessionLog) = Some e) (readAll sessionLog)" by code_simp
  have "jsonlLaws sampleJsonl (headerOf None 9 (readAll sessionLog)) (readAll sessionLog)"
    using events by (simp add: jsonlLaws_def sampleJsonl_def list_all_iff trim_def isSpace_def)
  from export_import_roundtrip[OF sessionLog_reach(1) _ this, of "\<lambda>_. True"]
  have "\<exists>r p. importJsonl sampleJsonl (exportJsonl sampleJsonl sessionLog None 9) = Inr r \<and>
     replayInto (\<lambda>_. True) (imEvents r) freshStore = (Inr (length (storeLog sessionLog)), \<lparr>storeLog = readAll sessionLog, storeProj = p, storeBlobs = []\<rparr>)"
    by auto
  moreover have "length (storeLog sessionLog) = 3" by code_simp
  ultimately show ?thesis by simp
qed


end
