(* ===== verification/Config_Model.thy ===== *)
theory Config_Model
  imports Policy_Authority "HOL-Library.AList" "HOL-Library.Monad_Syntax"
begin

text \<open>
  \<^verbatim>\<open>packages/config/src\<close> (\<^verbatim>\<open>schema.ts\<close>, \<^verbatim>\<open>sources.ts\<close>, \<^verbatim>\<open>resolve.ts\<close>): the configuration document
  and its validation, the layered sources, and their resolution with the provenance of every value. The URL
  test of the schema is a parameter; numbers of a document are integers.
\<close>

subsection \<open>The document\<close>

datatype reasoningEffort = Effort_none | Effort_low | Effort_medium | Effort_high
datatype transport = Transport_responses | Transport_chat
datatype telemetryLevel = Level_debug | Level_info | Level_warn | Level_error

record budgetsDoc =
  bdTurnsPerGoal :: "int option"
  bdModelCallsPerTurn :: "int option"
  bdToolCallsPerTurn :: "int option"
  bdWallTimeMsPerTurn :: "int option"
  bdActiveChildAgents :: "int option"
  bdChildDepth :: "int option"
  bdSafeReadConcurrency :: "int option"
  bdRetryAttempts :: "int option"

record toolOutputDoc =
  tdModelPreviewBytes :: "int option"
  tdTuiInlineBytes :: "int option"
  tdBackgroundWarnBytes :: "int option"
  tdBackgroundHardStopBytes :: "int option"
  tdMcpInlineTokens :: "int option"
  tdMcpDurableChars :: "int option"

record telemetryDoc =
  teEnabled :: bool
  teLevel :: "telemetryLevel option"
  teRetentionDays :: "int option"

record configDoc =
  cdVersion :: "int option"
  cdModel :: "string option"
  cdBaseUrl :: "string option"
  cdApiKeyEnv :: "string option"
  cdReasoningEffort :: "reasoningEffort option"
  cdTransport :: "transport option"
  cdBudgets :: "budgetsDoc option"
  cdToolOutput :: "toolOutputDoc option"
  cdTelemetry :: "telemetryDoc option"
  cdPermissionProfile :: "permissionProfile option"
  cdIsolation :: "isolationMode option"
  cdNetwork :: "bool option"
  cdMaxProfile :: "permissionProfile option"
  cdMaxIsolation :: "isolationMode option"
  cdNetworkAllowed :: "bool option"
  cdDeny :: "string list option"

subsection \<open>Validation\<close>

definition CONFIG_SCHEMA_VERSION :: int where
  "CONFIG_SCHEMA_VERSION = 1"

definition isUpperChar :: "char \<Rightarrow> bool" where
  "isUpperChar c \<longleftrightarrow> c \<in> set ''ABCDEFGHIJKLMNOPQRSTUVWXYZ''"

definition isEnvVarName :: "string \<Rightarrow> bool" where
  "isEnvVarName s =
     (case s of [] \<Rightarrow> False | c # cs \<Rightarrow> isUpperChar c \<and> list_all (\<lambda>d. isUpperChar d \<or> isDigit d \<or> d = CHR ''_'') cs)"

text \<open>\<^verbatim>\<open>/^(sk|pk|api|key|token|bearer|ghp|xox)[-_]/i\<close>\<close>

definition looksLikeSecret :: "string \<Rightarrow> bool" where
  "looksLikeSecret s =
     list_ex (\<lambda>p. startsWith (toLowerCase s) (p @ ''-'') \<or> startsWith (toLowerCase s) (p @ ''_''))
       [''sk'', ''pk'', ''api'', ''key'', ''token'', ''bearer'', ''ghp'', ''xox'']"

definition parseString :: "nat \<Rightarrow> jsValue \<Rightarrow> string option" where
  "parseString longest v = (case v of JsStr s \<Rightarrow> if 1 \<le> length s \<and> length s \<le> longest then Some s else None | _ \<Rightarrow> None)"

definition parseApiKeyEnv :: "jsValue \<Rightarrow> string option" where
  "parseApiKeyEnv v = do { s \<leftarrow> parseString 128 v; if isEnvVarName s \<and> \<not> looksLikeSecret s then Some s else None }"

definition parseUrl :: "(string \<Rightarrow> bool) \<Rightarrow> jsValue \<Rightarrow> string option" where
  "parseUrl urlOk v = (case v of JsStr s \<Rightarrow> if urlOk s then Some s else None | _ \<Rightarrow> None)"

definition parseBool :: "jsValue \<Rightarrow> bool option" where
  "parseBool v = (case v of JsBool b \<Rightarrow> Some b | _ \<Rightarrow> None)"

text \<open>\<^verbatim>\<open>z.int()\<close> takes the safe integers only.\<close>

definition parsePositive :: "jsValue \<Rightarrow> int option" where
  "parsePositive v = (case v of JsNum n \<Rightarrow> if 0 < n \<and> n \<le> 2 ^ 53 - 1 then Some n else None | _ \<Rightarrow> None)"

definition parseEnum :: "(string \<times> 'a) list \<Rightarrow> jsValue \<Rightarrow> 'a option" where
  "parseEnum table v = (case v of JsStr s \<Rightarrow> map_of table s | _ \<Rightarrow> None)"

definition parseProfile :: "jsValue \<Rightarrow> permissionProfile option" where
  "parseProfile v =
     (case v of
        JsStr s \<Rightarrow> (case resolveProfile s of Some (Own p) \<Rightarrow> Some p | _ \<Rightarrow> None)
      | _ \<Rightarrow> None)"

definition parseIsolation :: "jsValue \<Rightarrow> isolationMode option" where
  "parseIsolation = parseEnum [(''read-only'', I_read_only), (''workspace-write'', I_workspace_write), (''disabled'', I_disabled)]"

definition parseEffort :: "jsValue \<Rightarrow> reasoningEffort option" where
  "parseEffort = parseEnum [(''none'', Effort_none), (''low'', Effort_low), (''medium'', Effort_medium), (''high'', Effort_high)]"

definition parseTransport :: "jsValue \<Rightarrow> transport option" where
  "parseTransport = parseEnum [(''responses'', Transport_responses), (''chat'', Transport_chat)]"

definition parseLevel :: "jsValue \<Rightarrow> telemetryLevel option" where
  "parseLevel = parseEnum [(''debug'', Level_debug), (''info'', Level_info), (''warn'', Level_warn), (''error'', Level_error)]"

text \<open>\<^verbatim>\<open>.optional()\<close>: an absent or undefined field is fine; the outer option is the validation.\<close>

definition optField :: "(string \<times> jsValue) list \<Rightarrow> string \<Rightarrow> (jsValue \<Rightarrow> 'a option) \<Rightarrow> 'a option option" where
  "optField fs k parse =
     (case map_of fs k of None \<Rightarrow> Some None | Some JsUndefined \<Rightarrow> Some None | Some v \<Rightarrow> map_option Some (parse v))"

definition strictFields :: "string list \<Rightarrow> jsValue \<Rightarrow> (string \<times> jsValue) list option" where
  "strictFields shape v = (case v of JsObj fs \<Rightarrow> if list_all (\<lambda>f. fst f \<in> set shape) fs then Some fs else None | _ \<Rightarrow> None)"

definition parseBudgets :: "jsValue \<Rightarrow> budgetsDoc option" where
  "parseBudgets v = do {
     fs \<leftarrow> strictFields [''turnsPerGoal'', ''modelCallsPerTurn'', ''toolCallsPerTurn'', ''wallTimeMsPerTurn'',
       ''activeChildAgents'', ''childDepth'', ''safeReadConcurrency'', ''retryAttempts''] v;
     a \<leftarrow> optField fs ''turnsPerGoal'' parsePositive;
     b \<leftarrow> optField fs ''modelCallsPerTurn'' parsePositive;
     c \<leftarrow> optField fs ''toolCallsPerTurn'' parsePositive;
     d \<leftarrow> optField fs ''wallTimeMsPerTurn'' parsePositive;
     e \<leftarrow> optField fs ''activeChildAgents'' parsePositive;
     f \<leftarrow> optField fs ''childDepth'' parsePositive;
     g \<leftarrow> optField fs ''safeReadConcurrency'' parsePositive;
     h \<leftarrow> optField fs ''retryAttempts'' parsePositive;
     Some \<lparr>bdTurnsPerGoal = a, bdModelCallsPerTurn = b, bdToolCallsPerTurn = c, bdWallTimeMsPerTurn = d,
       bdActiveChildAgents = e, bdChildDepth = f, bdSafeReadConcurrency = g, bdRetryAttempts = h\<rparr> }"

definition parseToolOutput :: "jsValue \<Rightarrow> toolOutputDoc option" where
  "parseToolOutput v = do {
     fs \<leftarrow> strictFields [''modelPreviewBytes'', ''tuiInlineBytes'', ''backgroundWarnBytes'', ''backgroundHardStopBytes'',
       ''mcpInlineTokens'', ''mcpDurableChars''] v;
     a \<leftarrow> optField fs ''modelPreviewBytes'' parsePositive;
     b \<leftarrow> optField fs ''tuiInlineBytes'' parsePositive;
     c \<leftarrow> optField fs ''backgroundWarnBytes'' parsePositive;
     d \<leftarrow> optField fs ''backgroundHardStopBytes'' parsePositive;
     e \<leftarrow> optField fs ''mcpInlineTokens'' parsePositive;
     f \<leftarrow> optField fs ''mcpDurableChars'' parsePositive;
     Some \<lparr>tdModelPreviewBytes = a, tdTuiInlineBytes = b, tdBackgroundWarnBytes = c,
       tdBackgroundHardStopBytes = d, tdMcpInlineTokens = e, tdMcpDurableChars = f\<rparr> }"

definition parseTelemetry :: "jsValue \<Rightarrow> telemetryDoc option" where
  "parseTelemetry v = do {
     fs \<leftarrow> strictFields [''enabled'', ''level'', ''retentionDays''] v;
     enabled \<leftarrow> Option.bind (map_of fs ''enabled'') parseBool;
     level \<leftarrow> optField fs ''level'' parseLevel;
     days \<leftarrow> optField fs ''retentionDays'' parsePositive;
     Some \<lparr>teEnabled = enabled, teLevel = level, teRetentionDays = days\<rparr> }"

definition parseDeny :: "jsValue \<Rightarrow> string list option" where
  "parseDeny v = (case v of JsArr vs \<Rightarrow> those (map (parseString 1024) vs) | _ \<Rightarrow> None)"

definition parseVersion :: "jsValue \<Rightarrow> int option" where
  "parseVersion v = (if v = JsNum CONFIG_SCHEMA_VERSION then Some CONFIG_SCHEMA_VERSION else None)"

definition CONFIG_FIELDS :: "string list" where
  "CONFIG_FIELDS = [''version'', ''model'', ''baseUrl'', ''apiKeyEnv'', ''reasoningEffort'', ''transport'', ''budgets'',
     ''toolOutput'', ''telemetry'', ''permissionProfile'', ''isolation'', ''network'', ''maxProfile'',
     ''maxIsolation'', ''networkAllowed'', ''deny'']"

definition parseConfigDoc :: "(string \<Rightarrow> bool) \<Rightarrow> jsValue \<Rightarrow> configDoc option" where
  "parseConfigDoc urlOk v = do {
     fs \<leftarrow> strictFields CONFIG_FIELDS v;
     version \<leftarrow> optField fs ''version'' parseVersion;
     model \<leftarrow> optField fs ''model'' (parseString 200);
     baseUrl \<leftarrow> optField fs ''baseUrl'' (parseUrl urlOk);
     apiKeyEnv \<leftarrow> optField fs ''apiKeyEnv'' parseApiKeyEnv;
     effort \<leftarrow> optField fs ''reasoningEffort'' parseEffort;
     transport \<leftarrow> optField fs ''transport'' parseTransport;
     budgets \<leftarrow> optField fs ''budgets'' parseBudgets;
     toolOutput \<leftarrow> optField fs ''toolOutput'' parseToolOutput;
     telemetry \<leftarrow> optField fs ''telemetry'' parseTelemetry;
     profile \<leftarrow> optField fs ''permissionProfile'' parseProfile;
     isolation \<leftarrow> optField fs ''isolation'' parseIsolation;
     network \<leftarrow> optField fs ''network'' parseBool;
     maxProfile \<leftarrow> optField fs ''maxProfile'' parseProfile;
     maxIsolation \<leftarrow> optField fs ''maxIsolation'' parseIsolation;
     networkAllowed \<leftarrow> optField fs ''networkAllowed'' parseBool;
     deny \<leftarrow> optField fs ''deny'' parseDeny;
     Some \<lparr>cdVersion = version, cdModel = model, cdBaseUrl = baseUrl, cdApiKeyEnv = apiKeyEnv,
       cdReasoningEffort = effort, cdTransport = transport, cdBudgets = budgets, cdToolOutput = toolOutput,
       cdTelemetry = telemetry, cdPermissionProfile = profile, cdIsolation = isolation, cdNetwork = network,
       cdMaxProfile = maxProfile, cdMaxIsolation = maxIsolation, cdNetworkAllowed = networkAllowed, cdDeny = deny\<rparr> }"

subsection \<open>Sources\<close>

datatype configScope =
    Scope_managed | Scope_builtin | Scope_user | Scope_shared_project | Scope_local_project | Scope_env | Scope_cli

text \<open>\<^verbatim>\<open>OVERRIDE_RANK\<close> has no entry for the managed scope.\<close>

fun OVERRIDE_RANK :: "configScope \<Rightarrow> nat option" where
  "OVERRIDE_RANK Scope_managed = None"
| "OVERRIDE_RANK Scope_builtin = Some 0"
| "OVERRIDE_RANK Scope_user = Some 1"
| "OVERRIDE_RANK Scope_shared_project = Some 2"
| "OVERRIDE_RANK Scope_local_project = Some 3"
| "OVERRIDE_RANK Scope_env = Some 4"
| "OVERRIDE_RANK Scope_cli = Some 5"

datatype configOrigin = Origin_file string | Origin_env | Origin_cli | Origin_builtin

fun describeOrigin :: "configOrigin \<Rightarrow> string" where
  "describeOrigin (Origin_file path) = path"
| "describeOrigin Origin_env = ''<env>''"
| "describeOrigin Origin_cli = ''<cli>''"
| "describeOrigin Origin_builtin = ''<builtin>''"

record configSource =
  csId :: string
  csScope :: configScope
  csConfig :: configDoc
  csOrigin :: configOrigin

record configSourceRef =
  crId :: string
  crScope :: configScope
  crOrigin :: configOrigin

definition sourceRef :: "configSource \<Rightarrow> configSourceRef" where
  "sourceRef s = \<lparr>crId = csId s, crScope = csScope s, crOrigin = csOrigin s\<rparr>"

definition DEFAULT_API_KEY_ENV :: string where
  "DEFAULT_API_KEY_ENV = joinWith ''_'' [''DASHSCOPE'', ''API'', ''KEY'']"

definition BUILTIN_DEFAULTS :: configDoc where
  "BUILTIN_DEFAULTS = \<lparr>cdVersion = Some 1, cdModel = Some ''qwen3.7-max'',
     cdBaseUrl = Some ''https://dashscope.aliyuncs.com/compatible-mode/v1'', cdApiKeyEnv = Some DEFAULT_API_KEY_ENV,
     cdReasoningEffort = Some Effort_medium, cdTransport = Some Transport_responses,
     cdBudgets = Some \<lparr>bdTurnsPerGoal = Some 200, bdModelCallsPerTurn = Some 100, bdToolCallsPerTurn = Some 1000,
       bdWallTimeMsPerTurn = Some (8 * 60 * 60 * 1000), bdActiveChildAgents = Some 4, bdChildDepth = Some 2,
       bdSafeReadConcurrency = Some 8, bdRetryAttempts = Some 10\<rparr>,
     cdToolOutput = Some \<lparr>tdModelPreviewBytes = Some (64 * 1024), tdTuiInlineBytes = Some (1 * 1024 * 1024),
       tdBackgroundWarnBytes = Some (10 * 1024 * 1024), tdBackgroundHardStopBytes = Some (5 * 1024 * 1024 * 1024),
       tdMcpInlineTokens = Some 25000, tdMcpDurableChars = Some 500000\<rparr>,
     cdTelemetry = Some \<lparr>teEnabled = False, teLevel = Some Level_info, teRetentionDays = Some 7\<rparr>,
     cdPermissionProfile = Some P_ask, cdIsolation = Some I_workspace_write, cdNetwork = Some False,
     cdMaxProfile = Some P_yolo, cdMaxIsolation = Some I_disabled, cdNetworkAllowed = Some True, cdDeny = Some []\<rparr>"

definition BUILTIN_SOURCE :: configSource where
  "BUILTIN_SOURCE = \<lparr>csId = ''builtin'', csScope = Scope_builtin, csConfig = BUILTIN_DEFAULTS, csOrigin = Origin_builtin\<rparr>"

subsection \<open>The strategies of resolution\<close>

fun CONFIG_PROFILE_RANK :: "permissionProfile \<Rightarrow> nat" where
  "CONFIG_PROFILE_RANK P_plan = 0"
| "CONFIG_PROFILE_RANK P_ask = 1"
| "CONFIG_PROFILE_RANK P_auto_accept_edits = 2"
| "CONFIG_PROFILE_RANK P_yolo = 3"

fun CONFIG_ISOLATION_RANK :: "isolationMode \<Rightarrow> nat" where
  "CONFIG_ISOLATION_RANK I_read_only = 0"
| "CONFIG_ISOLATION_RANK I_workspace_write = 1"
| "CONFIG_ISOLATION_RANK I_disabled = 2"

definition boolTightness :: "bool \<Rightarrow> nat" where
  "boolTightness b = (if b then 1 else 0)"

record 'a resolved =
  rsValue :: 'a
  rsSource :: configSourceRef

datatype configResolutionError = No_value string | No_ceiling string | No_key string | Not_a_value string

definition overrideStep ::
  "(configDoc \<Rightarrow> 'a option) \<Rightarrow> configSource \<Rightarrow> ('a \<times> configSource \<times> nat) option \<Rightarrow> ('a \<times> configSource \<times> nat) option" where
  "overrideStep select source best =
     (if csScope source = Scope_managed then best
      else case select (csConfig source) of
        None \<Rightarrow> best
      | Some v \<Rightarrow>
          (let r = the (OVERRIDE_RANK (csScope source)) in
           case best of None \<Rightarrow> Some (v, source, r)
           | Some (v', s', r') \<Rightarrow> if r' \<le> r then Some (v, source, r) else best))"

definition resolveOverride ::
  "configSource list \<Rightarrow> string \<Rightarrow> (configDoc \<Rightarrow> 'a option) \<Rightarrow> configResolutionError + 'a resolved" where
  "resolveOverride sources key select =
     (case fold (overrideStep select) sources None of
        None \<Rightarrow> Inl (No_value key)
      | Some (v, s, r) \<Rightarrow> Inr \<lparr>rsValue = v, rsSource = sourceRef s\<rparr>)"

definition ceilingStep ::
  "(configDoc \<Rightarrow> 'a option) \<Rightarrow> ('a \<Rightarrow> nat) \<Rightarrow> configSource \<Rightarrow> ('a \<times> configSource \<times> nat) option \<Rightarrow> ('a \<times> configSource \<times> nat) option" where
  "ceilingStep select tightnessOf source best =
     (case select (csConfig source) of
        None \<Rightarrow> best
      | Some v \<Rightarrow>
          (case best of None \<Rightarrow> Some (v, source, tightnessOf v)
           | Some (v', s', t') \<Rightarrow> if tightnessOf v < t' then Some (v, source, tightnessOf v) else best))"

definition resolveCeiling ::
  "configSource list \<Rightarrow> string \<Rightarrow> (configDoc \<Rightarrow> 'a option) \<Rightarrow> ('a \<Rightarrow> nat) \<Rightarrow> configResolutionError + 'a resolved" where
  "resolveCeiling sources key select tightnessOf =
     (case fold (ceilingStep select tightnessOf) sources None of
        None \<Rightarrow> Inl (No_ceiling key)
      | Some (v, s, t) \<Rightarrow> Inr \<lparr>rsValue = v, rsSource = sourceRef s\<rparr>)"

record denyContribution =
  dcValue :: string
  dcSource :: configSourceRef

record resolvedDeny =
  rdValue :: "string list"
  rdContributions :: "denyContribution list"

definition denyEntry :: "configSource \<Rightarrow> string \<Rightarrow> resolvedDeny \<Rightarrow> resolvedDeny" where
  "denyEntry source entry acc =
     \<lparr>rdValue = (if entry \<in> set (rdValue acc) then rdValue acc else rdValue acc @ [entry]),
      rdContributions = rdContributions acc @ [\<lparr>dcValue = entry, dcSource = sourceRef source\<rparr>]\<rparr>"

definition resolveDeny :: "configSource list \<Rightarrow> resolvedDeny" where
  "resolveDeny sources =
     fold (\<lambda>source. fold (denyEntry source) (case cdDeny (csConfig source) of None \<Rightarrow> [] | Some ds \<Rightarrow> ds)) sources
       \<lparr>rdValue = [], rdContributions = []\<rparr>"

definition clamp :: "'a resolved \<Rightarrow> 'a resolved \<Rightarrow> ('a \<Rightarrow> nat) \<Rightarrow> 'a resolved" where
  "clamp desired ceiling tightnessOf =
     (if tightnessOf (rsValue ceiling) < tightnessOf (rsValue desired) then ceiling else desired)"

end
