(* ===== verification/Config_Resolve.thy ===== *)
theory Config_Resolve
  imports Config_Model
begin

text \<open>
  \<^verbatim>\<open>resolve.ts\<close>, the resolver and the lookup of provenance, and \<^verbatim>\<open>migrations.ts\<close>.
\<close>

subsection \<open>The resolver\<close>

record resolvedBudgets =
  rbTurnsPerGoal :: "int resolved"
  rbModelCallsPerTurn :: "int resolved"
  rbToolCallsPerTurn :: "int resolved"
  rbWallTimeMsPerTurn :: "int resolved"
  rbActiveChildAgents :: "int resolved"
  rbChildDepth :: "int resolved"
  rbSafeReadConcurrency :: "int resolved"
  rbRetryAttempts :: "int resolved"

record resolvedToolOutput =
  rtModelPreviewBytes :: "int resolved"
  rtTuiInlineBytes :: "int resolved"
  rtBackgroundWarnBytes :: "int resolved"
  rtBackgroundHardStopBytes :: "int resolved"
  rtMcpInlineTokens :: "int resolved"
  rtMcpDurableChars :: "int resolved"

record resolvedConfig =
  rcModel :: "string resolved"
  rcBaseUrl :: "string resolved"
  rcApiKeyEnv :: "string resolved"
  rcReasoningEffort :: "reasoningEffort resolved"
  rcTransport :: "transport resolved"
  rcTelemetry :: "bool resolved"
  rcTelemetryLevel :: "telemetryLevel resolved"
  rcTelemetryRetentionDays :: "int resolved"
  rcBudgets :: resolvedBudgets
  rcToolOutput :: resolvedToolOutput
  rcPermissionProfile :: "permissionProfile resolved"
  rcIsolation :: "isolationMode resolved"
  rcNetwork :: "bool resolved"
  rcMaxProfile :: "permissionProfile resolved"
  rcMaxIsolation :: "isolationMode resolved"
  rcNetworkAllowed :: "bool resolved"
  rcDeny :: resolvedDeny

definition bindR :: "'e + 'a \<Rightarrow> ('a \<Rightarrow> 'e + 'b) \<Rightarrow> 'e + 'b" where
  "bindR m f = (case m of Inl e \<Rightarrow> Inl e | Inr x \<Rightarrow> f x)"

lemma bindR_simps [simp]: "bindR (Inl e) f = Inl e" "bindR (Inr x) f = f x"
  by (simp_all add: bindR_def)

lemma bindR_Inr: "bindR m f = Inr y \<longleftrightarrow> (\<exists>x. m = Inr x \<and> f x = Inr y)"
  by (cases m) auto

definition ofBudgets :: "(budgetsDoc \<Rightarrow> int option) \<Rightarrow> configDoc \<Rightarrow> int option" where
  "ofBudgets f d = Option.bind (cdBudgets d) f"

definition ofToolOutput :: "(toolOutputDoc \<Rightarrow> int option) \<Rightarrow> configDoc \<Rightarrow> int option" where
  "ofToolOutput f d = Option.bind (cdToolOutput d) f"

definition ofTelemetry :: "(telemetryDoc \<Rightarrow> 'a option) \<Rightarrow> configDoc \<Rightarrow> 'a option" where
  "ofTelemetry f d = Option.bind (cdTelemetry d) f"

definition resolveBudgets :: "configSource list \<Rightarrow> configResolutionError + resolvedBudgets" where
  "resolveBudgets srcs =
     bindR (resolveOverride srcs ''budgets.turnsPerGoal'' (ofBudgets bdTurnsPerGoal)) (\<lambda>a.
     bindR (resolveOverride srcs ''budgets.modelCallsPerTurn'' (ofBudgets bdModelCallsPerTurn)) (\<lambda>b.
     bindR (resolveOverride srcs ''budgets.toolCallsPerTurn'' (ofBudgets bdToolCallsPerTurn)) (\<lambda>c.
     bindR (resolveOverride srcs ''budgets.wallTimeMsPerTurn'' (ofBudgets bdWallTimeMsPerTurn)) (\<lambda>d.
     bindR (resolveOverride srcs ''budgets.activeChildAgents'' (ofBudgets bdActiveChildAgents)) (\<lambda>e.
     bindR (resolveOverride srcs ''budgets.childDepth'' (ofBudgets bdChildDepth)) (\<lambda>f.
     bindR (resolveOverride srcs ''budgets.safeReadConcurrency'' (ofBudgets bdSafeReadConcurrency)) (\<lambda>g.
     bindR (resolveOverride srcs ''budgets.retryAttempts'' (ofBudgets bdRetryAttempts)) (\<lambda>h.
     Inr \<lparr>rbTurnsPerGoal = a, rbModelCallsPerTurn = b, rbToolCallsPerTurn = c, rbWallTimeMsPerTurn = d,
       rbActiveChildAgents = e, rbChildDepth = f, rbSafeReadConcurrency = g, rbRetryAttempts = h\<rparr>))))))))"

definition resolveToolOutput :: "configSource list \<Rightarrow> configResolutionError + resolvedToolOutput" where
  "resolveToolOutput srcs =
     bindR (resolveOverride srcs ''toolOutput.modelPreviewBytes'' (ofToolOutput tdModelPreviewBytes)) (\<lambda>a.
     bindR (resolveOverride srcs ''toolOutput.tuiInlineBytes'' (ofToolOutput tdTuiInlineBytes)) (\<lambda>b.
     bindR (resolveOverride srcs ''toolOutput.backgroundWarnBytes'' (ofToolOutput tdBackgroundWarnBytes)) (\<lambda>c.
     bindR (resolveOverride srcs ''toolOutput.backgroundHardStopBytes'' (ofToolOutput tdBackgroundHardStopBytes)) (\<lambda>d.
     bindR (resolveOverride srcs ''toolOutput.mcpInlineTokens'' (ofToolOutput tdMcpInlineTokens)) (\<lambda>e.
     bindR (resolveOverride srcs ''toolOutput.mcpDurableChars'' (ofToolOutput tdMcpDurableChars)) (\<lambda>f.
     Inr \<lparr>rtModelPreviewBytes = a, rtTuiInlineBytes = b, rtBackgroundWarnBytes = c,
       rtBackgroundHardStopBytes = d, rtMcpInlineTokens = e, rtMcpDurableChars = f\<rparr>))))))"

text \<open>The network is an AND; the ceiling can only switch it off.\<close>

definition resolveNetwork :: "bool resolved \<Rightarrow> bool resolved \<Rightarrow> bool resolved" where
  "resolveNetwork desired allowed =
     (if rsValue desired \<and> \<not> rsValue allowed then \<lparr>rsValue = False, rsSource = rsSource allowed\<rparr>
      else \<lparr>rsValue = rsValue desired \<and> rsValue allowed, rsSource = rsSource desired\<rparr>)"

definition resolveConfig :: "configSource list \<Rightarrow> configResolutionError + resolvedConfig" where
  "resolveConfig sources =
     (let srcs = BUILTIN_SOURCE # sources in
      bindR (resolveCeiling srcs ''maxProfile'' cdMaxProfile CONFIG_PROFILE_RANK) (\<lambda>maxProfile.
      bindR (resolveCeiling srcs ''maxIsolation'' cdMaxIsolation CONFIG_ISOLATION_RANK) (\<lambda>maxIsolation.
      bindR (resolveCeiling srcs ''networkAllowed'' cdNetworkAllowed boolTightness) (\<lambda>networkAllowed.
      bindR (resolveOverride srcs ''permissionProfile'' cdPermissionProfile) (\<lambda>desiredProfile.
      bindR (resolveOverride srcs ''isolation'' cdIsolation) (\<lambda>desiredIsolation.
      bindR (resolveOverride srcs ''network'' cdNetwork) (\<lambda>desiredNetwork.
      bindR (resolveOverride srcs ''model'' cdModel) (\<lambda>model.
      bindR (resolveOverride srcs ''baseUrl'' cdBaseUrl) (\<lambda>baseUrl.
      bindR (resolveOverride srcs ''apiKeyEnv'' cdApiKeyEnv) (\<lambda>apiKeyEnv.
      bindR (resolveOverride srcs ''reasoningEffort'' cdReasoningEffort) (\<lambda>effort.
      bindR (resolveOverride srcs ''transport'' cdTransport) (\<lambda>transport.
      bindR (resolveOverride srcs ''telemetry'' (ofTelemetry (\<lambda>t. Some (teEnabled t)))) (\<lambda>telemetry.
      bindR (resolveOverride srcs ''telemetryLevel'' (ofTelemetry teLevel)) (\<lambda>level.
      bindR (resolveOverride srcs ''telemetryRetentionDays'' (ofTelemetry teRetentionDays)) (\<lambda>days.
      bindR (resolveBudgets srcs) (\<lambda>budgets.
      bindR (resolveToolOutput srcs) (\<lambda>toolOutput.
      Inr \<lparr>rcModel = model, rcBaseUrl = baseUrl, rcApiKeyEnv = apiKeyEnv, rcReasoningEffort = effort,
        rcTransport = transport, rcTelemetry = telemetry, rcTelemetryLevel = level, rcTelemetryRetentionDays = days,
        rcBudgets = budgets, rcToolOutput = toolOutput,
        rcPermissionProfile = clamp desiredProfile maxProfile CONFIG_PROFILE_RANK,
        rcIsolation = clamp desiredIsolation maxIsolation CONFIG_ISOLATION_RANK,
        rcNetwork = resolveNetwork desiredNetwork networkAllowed,
        rcMaxProfile = maxProfile, rcMaxIsolation = maxIsolation, rcNetworkAllowed = networkAllowed,
        rcDeny = resolveDeny srcs\<rparr>)))))))))))))))))"

subsection \<open>Provenance\<close>

datatype configValue =
    Cv_string string | Cv_int int | Cv_bool bool | Cv_profile permissionProfile | Cv_isolation isolationMode
  | Cv_effort reasoningEffort | Cv_transport transport | Cv_level telemetryLevel

text \<open>
  The resolved object as the lookup walks it. The keys below a value or below the deny list are no
  configuration keys, and the walk gives up there.
\<close>

datatype configNode =
    Node_value configValue configSourceRef
  | Node_deny resolvedDeny
  | Node_object "(string \<times> configNode) list"

definition leaf :: "('a \<Rightarrow> configValue) \<Rightarrow> 'a resolved \<Rightarrow> configNode" where
  "leaf f r = Node_value (f (rsValue r)) (rsSource r)"

definition configTree :: "resolvedConfig \<Rightarrow> configNode" where
  "configTree r = Node_object
     [(''model'', leaf Cv_string (rcModel r)), (''baseUrl'', leaf Cv_string (rcBaseUrl r)),
      (''apiKeyEnv'', leaf Cv_string (rcApiKeyEnv r)), (''reasoningEffort'', leaf Cv_effort (rcReasoningEffort r)),
      (''transport'', leaf Cv_transport (rcTransport r)), (''telemetry'', leaf Cv_bool (rcTelemetry r)),
      (''telemetryLevel'', leaf Cv_level (rcTelemetryLevel r)),
      (''telemetryRetentionDays'', leaf Cv_int (rcTelemetryRetentionDays r)),
      (''budgets'', Node_object
        [(''turnsPerGoal'', leaf Cv_int (rbTurnsPerGoal (rcBudgets r))),
         (''modelCallsPerTurn'', leaf Cv_int (rbModelCallsPerTurn (rcBudgets r))),
         (''toolCallsPerTurn'', leaf Cv_int (rbToolCallsPerTurn (rcBudgets r))),
         (''wallTimeMsPerTurn'', leaf Cv_int (rbWallTimeMsPerTurn (rcBudgets r))),
         (''activeChildAgents'', leaf Cv_int (rbActiveChildAgents (rcBudgets r))),
         (''childDepth'', leaf Cv_int (rbChildDepth (rcBudgets r))),
         (''safeReadConcurrency'', leaf Cv_int (rbSafeReadConcurrency (rcBudgets r))),
         (''retryAttempts'', leaf Cv_int (rbRetryAttempts (rcBudgets r)))]),
      (''toolOutput'', Node_object
        [(''modelPreviewBytes'', leaf Cv_int (rtModelPreviewBytes (rcToolOutput r))),
         (''tuiInlineBytes'', leaf Cv_int (rtTuiInlineBytes (rcToolOutput r))),
         (''backgroundWarnBytes'', leaf Cv_int (rtBackgroundWarnBytes (rcToolOutput r))),
         (''backgroundHardStopBytes'', leaf Cv_int (rtBackgroundHardStopBytes (rcToolOutput r))),
         (''mcpInlineTokens'', leaf Cv_int (rtMcpInlineTokens (rcToolOutput r))),
         (''mcpDurableChars'', leaf Cv_int (rtMcpDurableChars (rcToolOutput r)))]),
      (''permissionProfile'', leaf Cv_profile (rcPermissionProfile r)), (''isolation'', leaf Cv_isolation (rcIsolation r)),
      (''network'', leaf Cv_bool (rcNetwork r)), (''maxProfile'', leaf Cv_profile (rcMaxProfile r)),
      (''maxIsolation'', leaf Cv_isolation (rcMaxIsolation r)), (''networkAllowed'', leaf Cv_bool (rcNetworkAllowed r)),
      (''deny'', Node_deny (rcDeny r))]"

fun walkNode :: "configNode option \<Rightarrow> string list \<Rightarrow> configNode option option" where
  "walkNode node [] = Some node"
| "walkNode (Some (Node_object fs)) (part # parts) = walkNode (map_of fs part) parts"
| "walkNode _ (part # parts) = None"

datatype provenance =
    Prov_value configValue configSourceRef
  | Prov_merged "string list" "denyContribution list"

definition provenanceOf :: "resolvedConfig \<Rightarrow> string \<Rightarrow> configResolutionError + provenance" where
  "provenanceOf resolved key =
     (case walkNode (Some (configTree resolved)) (splitChar (CHR ''.'') key) of
        None \<Rightarrow> Inl (No_key key)
      | Some (Some (Node_deny d)) \<Rightarrow> Inr (Prov_merged (rdValue d) (rdContributions d))
      | Some (Some (Node_value v source)) \<Rightarrow> Inr (Prov_value v source)
      | Some _ \<Rightarrow> Inl (Not_a_value key))"

definition CONFIG_KEYS :: "string list" where
  "CONFIG_KEYS =
     [''model'', ''baseUrl'', ''apiKeyEnv'', ''reasoningEffort'', ''transport'', ''telemetry'', ''telemetryLevel'',
      ''telemetryRetentionDays'', ''permissionProfile'', ''isolation'', ''network'', ''maxProfile'', ''maxIsolation'',
      ''networkAllowed'', ''deny'', ''budgets.turnsPerGoal'', ''budgets.modelCallsPerTurn'',
      ''budgets.toolCallsPerTurn'', ''budgets.wallTimeMsPerTurn'', ''budgets.activeChildAgents'',
      ''budgets.childDepth'', ''budgets.safeReadConcurrency'', ''budgets.retryAttempts'',
      ''toolOutput.modelPreviewBytes'', ''toolOutput.tuiInlineBytes'', ''toolOutput.backgroundWarnBytes'',
      ''toolOutput.backgroundHardStopBytes'', ''toolOutput.mcpInlineTokens'', ''toolOutput.mcpDurableChars'']"

subsection \<open>Migrations\<close>

type_synonym rawDoc = "(string \<times> jsValue) list"

datatype migrationError =
    Not_an_object | Bad_version jsValue | Unknown_version int int | No_migration int

record migration =
  mgFrom :: int
  mgTo :: int
  mgName :: string
  mgUp :: "rawDoc \<Rightarrow> string list \<Rightarrow> rawDoc \<times> string list"

definition hasKey :: "rawDoc \<Rightarrow> string \<Rightarrow> bool" where
  "hasKey doc k \<longleftrightarrow> map_of doc k \<noteq> None"

definition renameField :: "string \<Rightarrow> string \<Rightarrow> rawDoc \<times> string list \<Rightarrow> rawDoc \<times> string list" where
  "renameField old new dn =
     (case dn of (doc, notes) \<Rightarrow>
        (case map_of doc old of
           Some v \<Rightarrow>
             if \<not> hasKey doc new
             then (AList.delete old (AList.update new v doc),
                   notes @ [''renamed '' @ [CHR 0x27] @ old @ [CHR 0x27] @ '' to '' @ [CHR 0x27] @ new @ [CHR 0x27]])
             else (AList.delete old doc, notes)
         | None \<Rightarrow> (AList.delete old doc, notes)))"

definition upV1 :: "rawDoc \<Rightarrow> string list \<Rightarrow> rawDoc \<times> string list" where
  "upV1 doc notes =
     (let dn = renameField ''reasoning'' ''reasoningEffort'' (renameField ''profile'' ''permissionProfile''
            (renameField ''keyEnv'' ''apiKeyEnv'' (renameField ''endpoint'' ''baseUrl'' (doc, notes))));
          dn2 = (if hasKey (fst dn) ''apiKey''
                 then (AList.delete ''apiKey'' (fst dn), snd dn @
                   [''dropped legacy raw `apiKey` (a secret value); set `apiKeyEnv` to a variable NAME''])
                 else dn)
      in (AList.update ''version'' (JsNum 1) (fst dn2), snd dn2))"

definition CONFIG_MIGRATIONS :: "migration list" where
  "CONFIG_MIGRATIONS = [\<lparr>mgFrom = 0, mgTo = 1, mgName = ''v0-unversioned-to-v1'', mgUp = upV1\<rparr>]"

definition MAX_KNOWN_VERSION :: int where
  "MAX_KNOWN_VERSION = fold (\<lambda>m k. max k (mgTo m)) CONFIG_MIGRATIONS CONFIG_SCHEMA_VERSION"

definition readConfigVersion :: "jsValue \<Rightarrow> migrationError + int" where
  "readConfigVersion raw =
     (case raw of
        JsObj fs \<Rightarrow>
          (case map_of fs ''version'' of
             None \<Rightarrow> Inr 0
           | Some JsUndefined \<Rightarrow> Inr 0
           | Some (JsNum n) \<Rightarrow> if n < 0 then Inl (Bad_version (JsNum n)) else Inr n
           | Some v \<Rightarrow> Inl (Bad_version v))
      | _ \<Rightarrow> Inl Not_an_object)"

record migrationResult =
  mrConfig :: rawDoc
  mrFromVersion :: int
  mrApplied :: "string list"
  mrNotes :: "string list"

text \<open>The loop; every migration that it finds advances the version.\<close>

lemma migration_advances: "find (\<lambda>m. mgFrom m = current) CONFIG_MIGRATIONS = Some m \<Longrightarrow> current < mgTo m"
  by (auto simp: CONFIG_MIGRATIONS_def split: if_splits)

function migrateLoop :: "int \<Rightarrow> rawDoc \<Rightarrow> string list \<Rightarrow> string list \<Rightarrow> migrationError + rawDoc \<times> string list \<times> string list" where
  "migrateLoop current doc applied notes =
     (if current < CONFIG_SCHEMA_VERSION
      then (case find (\<lambda>m. mgFrom m = current) CONFIG_MIGRATIONS of
              None \<Rightarrow> Inl (No_migration current)
            | Some m \<Rightarrow> (case mgUp m doc notes of (doc', notes') \<Rightarrow> migrateLoop (mgTo m) doc' (applied @ [mgName m]) notes'))
      else Inr (doc, applied, notes))"
  by pat_completeness auto
termination
  by (relation "measure (\<lambda>(current, doc, applied, notes). nat (CONFIG_SCHEMA_VERSION - current))")
    (auto dest: migration_advances)

declare migrateLoop.simps [simp del]

definition migrateConfig :: "jsValue \<Rightarrow> migrationError + migrationResult" where
  "migrateConfig raw =
     bindR (readConfigVersion raw) (\<lambda>fromVersion.
       if MAX_KNOWN_VERSION < fromVersion then Inl (Unknown_version fromVersion MAX_KNOWN_VERSION)
       else bindR (migrateLoop fromVersion (case raw of JsObj fs \<Rightarrow> fs | _ \<Rightarrow> []) [] []) (\<lambda>(doc, applied, notes).
         Inr \<lparr>mrConfig = doc, mrFromVersion = fromVersion, mrApplied = applied, mrNotes = notes\<rparr>))"

section \<open>Loading\<close>

text \<open>
  \<^verbatim>\<open>load.ts\<close> and \<^verbatim>\<open>apps/cli/src/policy-from-config.ts\<close>: the sources of a run, lowest precedence first, and
  the authority that the resolved configuration gives it. The file system, JSON, the URL test and the variables
  of the process are the parameters in \<^verbatim>\<open>configIo\<close>; the four paths are computed by the platform.
\<close>

subsection \<open>Files\<close>

datatype configFileFailure = Fail_read | Fail_parse | Fail_migration migrationError | Fail_schema

datatype configError =
    ConfigFileError string configFileFailure
  | ConfigEnvError string
  | InvalidOverride
  | Resolution configResolutionError

datatype readOutcome = Read_text string | Read_enoent | Read_failed

record configIo =
  ioRead :: "string \<Rightarrow> readOutcome"
  ioParseJson :: "string \<Rightarrow> jsValue option"
  ioUrlOk :: "string \<Rightarrow> bool"
  ioEnv :: "string \<Rightarrow> string option"

definition readIfPresent :: "configIo \<Rightarrow> string \<Rightarrow> configError + string option" where
  "readIfPresent io path =
     (case ioRead io path of
        Read_text t \<Rightarrow> Inr (Some t) | Read_enoent \<Rightarrow> Inr None | Read_failed \<Rightarrow> Inl (ConfigFileError path Fail_read))"

definition loadConfigFile :: "configIo \<Rightarrow> string \<Rightarrow> configScope \<Rightarrow> string \<Rightarrow> configError + configSource option" where
  "loadConfigFile io path scope sid =
     bindR (readIfPresent io path) (\<lambda>text.
       case text of
         None \<Rightarrow> Inr None
       | Some t \<Rightarrow>
           (case ioParseJson io t of
              None \<Rightarrow> Inl (ConfigFileError path Fail_parse)
            | Some parsed \<Rightarrow>
                (case migrateConfig parsed of
                   Inl e \<Rightarrow> Inl (ConfigFileError path (Fail_migration e))
                 | Inr migrated \<Rightarrow>
                     (case parseConfigDoc (ioUrlOk io) (JsObj (mrConfig migrated)) of
                        None \<Rightarrow> Inl (ConfigFileError path Fail_schema)
                      | Some config \<Rightarrow>
                          Inr (Some \<lparr>csId = sid, csScope = scope, csConfig = config, csOrigin = Origin_file path\<rparr>)))))"

subsection \<open>The environment\<close>

definition parseEnvBool :: "string \<Rightarrow> string \<Rightarrow> configError + bool" where
  "parseEnvBool variable value =
     (let v = toLowerCase (trim value) in
      if v \<in> {''1'', ''true'', ''yes'', ''on''} then Inr True
      else if v \<in> {''0'', ''false'', ''no'', ''off''} then Inr False
      else Inl (ConfigEnvError variable))"

record envBinding =
  ebVariable :: string
  ebKey :: string
  ebApply :: "rawDoc \<Rightarrow> string \<Rightarrow> configError + rawDoc"

definition setString :: "string \<Rightarrow> rawDoc \<Rightarrow> string \<Rightarrow> configError + rawDoc" where
  "setString k d v = Inr (AList.update k (JsStr v) d)"

definition ENV_ALLOWLIST :: "envBinding list" where
  "ENV_ALLOWLIST =
     [\<lparr>ebVariable = ''QWEN_HARNESS_MODEL'', ebKey = ''model'', ebApply = setString ''model''\<rparr>,
      \<lparr>ebVariable = ''QWEN_HARNESS_BASE_URL'', ebKey = ''baseUrl'', ebApply = setString ''baseUrl''\<rparr>,
      \<lparr>ebVariable = ''QWEN_HARNESS_API_KEY_ENV'', ebKey = ''apiKeyEnv'', ebApply = setString ''apiKeyEnv''\<rparr>,
      \<lparr>ebVariable = ''QWEN_HARNESS_REASONING_EFFORT'', ebKey = ''reasoningEffort'', ebApply = setString ''reasoningEffort''\<rparr>,
      \<lparr>ebVariable = ''QWEN_HARNESS_TRANSPORT'', ebKey = ''transport'', ebApply = setString ''transport''\<rparr>,
      \<lparr>ebVariable = ''QWEN_HARNESS_PROFILE'', ebKey = ''permissionProfile'', ebApply = setString ''permissionProfile''\<rparr>,
      \<lparr>ebVariable = ''QWEN_HARNESS_TELEMETRY'', ebKey = ''telemetry.enabled'',
        ebApply = (\<lambda>d v. bindR (parseEnvBool ''QWEN_HARNESS_TELEMETRY'' v)
          (\<lambda>b. Inr (AList.update ''telemetry'' (JsObj [(''enabled'', JsBool b)]) d)))\<rparr>]"

fun applyBindings :: "(string \<Rightarrow> string option) \<Rightarrow> envBinding list \<Rightarrow> rawDoc \<Rightarrow> configError + rawDoc" where
  "applyBindings env [] raw = Inr raw"
| "applyBindings env (b # bs) raw =
     (case env (ebVariable b) of
        None \<Rightarrow> applyBindings env bs raw
      | Some v \<Rightarrow> bindR (ebApply b raw v) (applyBindings env bs))"

definition involvedVariables :: "(string \<Rightarrow> string option) \<Rightarrow> string list" where
  "involvedVariables env = map ebVariable (filter (\<lambda>b. env (ebVariable b) \<noteq> None) ENV_ALLOWLIST)"

definition loadEnvSource :: "configIo \<Rightarrow> configError + configSource option" where
  "loadEnvSource io =
     bindR (applyBindings (ioEnv io) ENV_ALLOWLIST []) (\<lambda>raw.
       if involvedVariables (ioEnv io) = [] then Inr None
       else (case parseConfigDoc (ioUrlOk io) (JsObj raw) of
               None \<Rightarrow> Inl (ConfigEnvError (joinWith '', '' (involvedVariables (ioEnv io))))
             | Some config \<Rightarrow> Inr (Some \<lparr>csId = ''env'', csScope = Scope_env, csConfig = config, csOrigin = Origin_env\<rparr>)))"

subsection \<open>All sources\<close>

definition loadCliSource :: "configIo \<Rightarrow> jsValue \<Rightarrow> configError + configSource" where
  "loadCliSource io overrides =
     (case parseConfigDoc (ioUrlOk io) overrides of
        None \<Rightarrow> Inl InvalidOverride
      | Some config \<Rightarrow> Inr \<lparr>csId = ''cli'', csScope = Scope_cli, csConfig = config, csOrigin = Origin_cli\<rparr>)"

record configPaths =
  cpManaged :: string
  cpUser :: string
  cpSharedProject :: string
  cpLocalProject :: string

definition pushSource :: "configSource option \<Rightarrow> configSource list \<Rightarrow> configSource list" where
  "pushSource s sources = (case s of None \<Rightarrow> sources | Some x \<Rightarrow> sources @ [x])"

definition loadConfigSources :: "configIo \<Rightarrow> configPaths \<Rightarrow> jsValue option \<Rightarrow> configError + configSource list" where
  "loadConfigSources io paths cli =
     bindR (loadConfigFile io (cpManaged paths) Scope_managed ''managed'') (\<lambda>m.
     bindR (loadConfigFile io (cpUser paths) Scope_user ''user'') (\<lambda>u.
     bindR (loadConfigFile io (cpSharedProject paths) Scope_shared_project ''shared-project'') (\<lambda>sp.
     bindR (loadConfigFile io (cpLocalProject paths) Scope_local_project ''local-project'') (\<lambda>lp.
     bindR (loadEnvSource io) (\<lambda>e.
     bindR (case cli of None \<Rightarrow> Inr None | Some c \<Rightarrow> bindR (loadCliSource io c) (\<lambda>s. Inr (Some s))) (\<lambda>c.
       Inr (fold pushSource [m, u, sp, lp, e, c] [])))))))"

definition loadResolvedConfig :: "configIo \<Rightarrow> configPaths \<Rightarrow> jsValue option \<Rightarrow> configError + resolvedConfig" where
  "loadResolvedConfig io paths cli =
     bindR (loadConfigSources io paths cli) (\<lambda>sources.
       case resolveConfig sources of Inl e \<Rightarrow> Inl (Resolution e) | Inr r \<Rightarrow> Inr r)"

subsection \<open>The authority of a run\<close>

record configAuthority =
  raManagedPolicy :: managedPolicy
  raRules :: "policyRule list"
  raProfile :: permissionProfile
  raIsolation :: isolationMode
  raNetworkAllowed :: bool
  raConfig :: resolvedConfig

definition authorityFromConfig :: "resolvedConfig \<Rightarrow> configAuthority" where
  "authorityFromConfig r =
     (let denies = rdValue (rcDeny r);
          managedRules = (if denies = [] then []
            else [\<lparr>mrId = ''config.deny'', mrEffect = M_deny, mrMatch = emptyMatcher\<lparr>amPaths := Some denies\<rparr>,
              mrReason = ''denied by configuration; a deny is the union of every scope and can never be '' @
                ''removed by a higher scope, a grant, or an approval''\<rparr>])
      in \<lparr>raManagedPolicy = \<lparr>mpVersion = 1, mpRules = managedRules, mpMaxProfile = rsValue (rcMaxProfile r),
            mpMaxIsolation = rsValue (rcMaxIsolation r), mpNetworkAllowed = rsValue (rcNetworkAllowed r),
            mpMaxChildDepth = mpMaxChildDepth NO_MANAGED_RESTRICTIONS\<rparr>,
          raRules = [], raProfile = rsValue (rcPermissionProfile r), raIsolation = rsValue (rcIsolation r),
          raNetworkAllowed = rsValue (rcNetwork r), raConfig = r\<rparr>)"

definition loadRunAuthority :: "configIo \<Rightarrow> configPaths \<Rightarrow> jsValue option \<Rightarrow> configError + configAuthority" where
  "loadRunAuthority io paths cli = bindR (loadResolvedConfig io paths cli) (\<lambda>r. Inr (authorityFromConfig r))"

definition authorityForProfile :: "configIo \<Rightarrow> permissionProfile \<Rightarrow> configError + configAuthority" where
  "authorityForProfile io profile =
     bindR (loadCliSource io (JsObj [(''permissionProfile'', JsStr (profileName profile))])) (\<lambda>s.
       case resolveConfig [s] of Inl e \<Rightarrow> Inl (Resolution e) | Inr r \<Rightarrow> Inr (authorityFromConfig r))"

end
