(* ===== verification/Config_Theorems.thy ===== *)
theory Config_Theorems
  imports Config_Resolve Policy_Theorems
begin

text \<open>
  Configuration: resolution agrees with its specification by precedence, never exceeds the ceiling of any
  source, keeps every deny, and the engine enforces what was resolved; what is resolved is well-formed, and
  every value has a source.
\<close>

subsection \<open>Override\<close>

definition contributes :: "(configDoc \<Rightarrow> 'a option) \<Rightarrow> configSource \<Rightarrow> bool" where
  "contributes select s \<longleftrightarrow> csScope s \<noteq> Scope_managed \<and> select (csConfig s) \<noteq> None"

definition rankOf :: "configSource \<Rightarrow> nat" where
  "rankOf s = the (OVERRIDE_RANK (csScope s))"

text \<open>The last source, of those with the highest rank, that sets the value.\<close>

definition winner :: "(configDoc \<Rightarrow> 'a option) \<Rightarrow> configSource list \<Rightarrow> configSource" where
  "winner select sources =
     (let cs = filter (contributes select) sources in last (filter (\<lambda>s. rankOf s = Max (rankOf ` set cs)) cs))"

lemma winner_in:
  assumes "filter (contributes select) sources \<noteq> []"
  shows "winner select sources \<in> set sources" "contributes select (winner select sources)"
    "rankOf (winner select sources) = Max (rankOf ` set (filter (contributes select) sources))"
proof -
  let ?cs = "filter (contributes select) sources"
  have "Max (rankOf ` set ?cs) \<in> rankOf ` set ?cs" using assms by (intro Max_in) (simp_all del: set_filter)
  then have "filter (\<lambda>s. rankOf s = Max (rankOf ` set ?cs)) ?cs \<noteq> []" by (auto simp: filter_empty_conv)
  from last_in_set[OF this] show "winner select sources \<in> set sources" "contributes select (winner select sources)"
    "rankOf (winner select sources) = Max (rankOf ` set ?cs)"
    unfolding winner_def Let_def by auto
qed

lemma last_max_snoc:
  fixes f :: "'a \<Rightarrow> nat"
  assumes "cs \<noteq> []"
  shows "last (filter (\<lambda>s. f s = Max (f ` set (cs @ [x]))) (cs @ [x])) =
    (if Max (f ` set cs) \<le> f x then x else last (filter (\<lambda>s. f s = Max (f ` set cs)) cs))"
proof -
  have "Max (f ` set (cs @ [x])) = max (f x) (Max (f ` set cs))" using assms by simp
  then show ?thesis by (cases "Max (f ` set cs) \<le> f x") (simp_all add: max_def)
qed

lemma override_fold:
  "fold (overrideStep select) sources None =
     (if filter (contributes select) sources = [] then None
      else Some (the (select (csConfig (winner select sources))), winner select sources, rankOf (winner select sources)))"
proof (induction sources rule: rev_induct)
  case (snoc x xs)
  let ?cs = "filter (contributes select) xs"
  show ?case
  proof (cases "contributes select x")
    case False
    then have "overrideStep select x b = b" for b
      by (cases "select (csConfig x)") (auto simp: contributes_def overrideStep_def)
    moreover have "winner select (xs @ [x]) = winner select xs" using False by (simp add: winner_def)
    ultimately show ?thesis using snoc False by simp
  next
    case True
    then obtain v where v: "select (csConfig x) = Some v" "csScope x \<noteq> Scope_managed" by (auto simp: contributes_def)
    show ?thesis
    proof (cases "?cs = []")
      case True
      then have "winner select (xs @ [x]) = x" using \<open>contributes select x\<close> by (simp add: winner_def)
      then show ?thesis using snoc True v \<open>contributes select x\<close> by (simp add: overrideStep_def rankOf_def)
    next
      case False
      have w: "winner select (xs @ [x]) = (if rankOf (winner select xs) \<le> rankOf x then x else winner select xs)"
        using \<open>contributes select x\<close> last_max_snoc[OF False, of rankOf x] winner_in(3)[OF False]
        by (simp add: winner_def Let_def)
      show ?thesis using snoc False v \<open>contributes select x\<close> by (simp add: w overrideStep_def rankOf_def)
    qed
  qed
qed simp

text \<open>
  C23: The fold that resolves an ordinary value is the precedence that the product documents: the value of the
  last source among those of the highest scope that set it, managed sources apart, with that source as its
  provenance; and an error exactly when no source sets it.
\<close>
theorem override_is_precedence:
  "resolveOverride sources key select =
     (if filter (contributes select) sources = [] then Inl (No_value key)
      else Inr \<lparr>rsValue = the (select (csConfig (winner select sources))), rsSource = sourceRef (winner select sources)\<rparr>)"
  by (simp add: resolveOverride_def override_fold)

lemma override_cases:
  assumes "resolveOverride sources key select = Inr r"
  obtains s where "s \<in> set sources" "csScope s \<noteq> Scope_managed" "select (csConfig s) = Some (rsValue r)" "rsSource r = sourceRef s"
proof -
  have "filter (contributes select) sources \<noteq> []" using assms by (auto simp: resolveOverride_def override_fold split: if_splits)
  from winner_in(1,2)[OF this] that[of "winner select sources"] assms this show ?thesis
    by (auto simp: resolveOverride_def override_fold contributes_def split: if_splits)
qed

lemma override_builtin:
  assumes "select BUILTIN_DEFAULTS = Some v"
  shows "\<exists>r. resolveOverride (BUILTIN_SOURCE # sources) key select = Inr r"
proof -
  have "filter (contributes select) (BUILTIN_SOURCE # sources) \<noteq> []" using assms by (simp add: contributes_def BUILTIN_SOURCE_def)
  then show ?thesis unfolding resolveOverride_def override_fold by (simp del: filter.simps)
qed

subsection \<open>Ceilings\<close>

lemma ceiling_fold:
  "case fold (ceilingStep select tight) sources best of
     None \<Rightarrow> best = None \<and> (\<forall>s \<in> set sources. select (csConfig s) = None)
   | Some (v, s, t) \<Rightarrow> t = tight v \<and> (best = Some (v, s, t) \<or> s \<in> set sources \<and> select (csConfig s) = Some v) \<and>
       (\<forall>v' s' t'. best = Some (v', s', t') \<longrightarrow> t \<le> t') \<and>
       (\<forall>x \<in> set sources. \<forall>v'. select (csConfig x) = Some v' \<longrightarrow> tight v \<le> tight v')"
  if "\<forall>v s t. best = Some (v, s, t) \<longrightarrow> t = tight v"
  using that
proof (induction sources arbitrary: best)
  case (Cons x xs)
  let ?b = "ceilingStep select tight x best"
  have "\<forall>v s t. ?b = Some (v, s, t) \<longrightarrow> t = tight v"
    using Cons.prems by (auto simp: ceilingStep_def split: option.splits prod.splits if_splits)
  from Cons.IH[OF this] show ?case using Cons.prems
    by (cases "select (csConfig x)"; cases best) (fastforce simp: ceilingStep_def split: option.splits prod.splits if_splits)+
qed (auto split: option.splits prod.splits)

lemma ceiling_cases:
  assumes "resolveCeiling sources key select tight = Inr r"
  obtains s where "s \<in> set sources" "select (csConfig s) = Some (rsValue r)" "rsSource r = sourceRef s"
    "\<And>x v. x \<in> set sources \<Longrightarrow> select (csConfig x) = Some v \<Longrightarrow> tight (rsValue r) \<le> tight v"
  using assms ceiling_fold[of None tight sources select] that
  by (auto simp: resolveCeiling_def split: option.splits prod.splits)

lemma ceiling_builtin:
  assumes "select BUILTIN_DEFAULTS = Some v"
  shows "\<exists>r. resolveCeiling (BUILTIN_SOURCE # sources) key select tight = Inr r"
proof -
  obtain w s t where "fold (ceilingStep select tight) (BUILTIN_SOURCE # sources) None = Some (w, s, t)"
    using ceiling_fold[of None tight "BUILTIN_SOURCE # sources" select] assms
    by (auto simp: BUILTIN_SOURCE_def split: option.splits prod.splits)
  then show ?thesis by (simp only: resolveCeiling_def) simp
qed

subsection \<open>The whole configuration\<close>

lemma resolveConfig_cases:
  assumes "resolveConfig sources = Inr r"
  obtains p i n where
    "resolveCeiling (BUILTIN_SOURCE # sources) ''maxProfile'' cdMaxProfile CONFIG_PROFILE_RANK = Inr (rcMaxProfile r)"
    "resolveCeiling (BUILTIN_SOURCE # sources) ''maxIsolation'' cdMaxIsolation CONFIG_ISOLATION_RANK = Inr (rcMaxIsolation r)"
    "resolveCeiling (BUILTIN_SOURCE # sources) ''networkAllowed'' cdNetworkAllowed boolTightness = Inr (rcNetworkAllowed r)"
    "resolveOverride (BUILTIN_SOURCE # sources) ''permissionProfile'' cdPermissionProfile = Inr p"
    "resolveOverride (BUILTIN_SOURCE # sources) ''isolation'' cdIsolation = Inr i"
    "resolveOverride (BUILTIN_SOURCE # sources) ''network'' cdNetwork = Inr n"
    "rcPermissionProfile r = clamp p (rcMaxProfile r) CONFIG_PROFILE_RANK"
    "rcIsolation r = clamp i (rcMaxIsolation r) CONFIG_ISOLATION_RANK"
    "rcNetwork r = resolveNetwork n (rcNetworkAllowed r)" "rcDeny r = resolveDeny (BUILTIN_SOURCE # sources)"
    "resolveOverride (BUILTIN_SOURCE # sources) ''model'' cdModel = Inr (rcModel r)"
    "resolveOverride (BUILTIN_SOURCE # sources) ''baseUrl'' cdBaseUrl = Inr (rcBaseUrl r)"
    "resolveOverride (BUILTIN_SOURCE # sources) ''apiKeyEnv'' cdApiKeyEnv = Inr (rcApiKeyEnv r)"
    "resolveOverride (BUILTIN_SOURCE # sources) ''telemetryRetentionDays'' (ofTelemetry teRetentionDays) = Inr (rcTelemetryRetentionDays r)"
    "resolveBudgets (BUILTIN_SOURCE # sources) = Inr (rcBudgets r)"
    "resolveToolOutput (BUILTIN_SOURCE # sources) = Inr (rcToolOutput r)"
    "resolveOverride (BUILTIN_SOURCE # sources) ''reasoningEffort'' cdReasoningEffort = Inr (rcReasoningEffort r)"
    "resolveOverride (BUILTIN_SOURCE # sources) ''transport'' cdTransport = Inr (rcTransport r)"
    "resolveOverride (BUILTIN_SOURCE # sources) ''telemetry'' (ofTelemetry (\<lambda>t. Some (teEnabled t))) = Inr (rcTelemetry r)"
    "resolveOverride (BUILTIN_SOURCE # sources) ''telemetryLevel'' (ofTelemetry teLevel) = Inr (rcTelemetryLevel r)"
  using assms that unfolding resolveConfig_def Let_def bindR_Inr by (elim exE conjE) auto

lemma clamp_le: "t (rsValue (clamp d c t)) \<le> t (rsValue c)" "t (rsValue (clamp d c t)) \<le> t (rsValue d)"
  by (auto simp: clamp_def)

lemma ceiling_off:
  assumes "resolveCeiling sources key select boolTightness = Inr r" "s \<in> set sources" "select (csConfig s) = Some False"
  shows "\<not> rsValue r"
proof -
  have "boolTightness (rsValue r) \<le> boolTightness False" by (rule ceiling_cases[OF assms(1)]) (use assms(2,3) in blast)
  then show ?thesis by (simp add: boolTightness_def split: if_splits)
qed

lemma network_and: "rsValue (resolveNetwork d a) \<longleftrightarrow> rsValue d \<and> rsValue a"
  by (auto simp: resolveNetwork_def)

text \<open>
  C10: The ceiling only tightens: whatever sources there are, the profile, the isolation and the network of the
  resolved configuration are within the ceiling that every single source declares, managed or not; and they
  never give more than the ordinary value of the winning source asked for.
\<close>
theorem config_within_every_ceiling:
  assumes "resolveConfig sources = Inr r" "s \<in> set sources"
  shows "(\<forall>m. cdMaxProfile (csConfig s) = Some m \<longrightarrow> CONFIG_PROFILE_RANK (rsValue (rcPermissionProfile r)) \<le> CONFIG_PROFILE_RANK m) \<and>
    (\<forall>m. cdMaxIsolation (csConfig s) = Some m \<longrightarrow> CONFIG_ISOLATION_RANK (rsValue (rcIsolation r)) \<le> CONFIG_ISOLATION_RANK m) \<and>
    (cdNetworkAllowed (csConfig s) = Some False \<longrightarrow> \<not> rsValue (rcNetwork r)) \<and>
    CONFIG_PROFILE_RANK (rsValue (rcPermissionProfile r)) \<le>
      CONFIG_PROFILE_RANK (the (cdPermissionProfile (csConfig (winner cdPermissionProfile (BUILTIN_SOURCE # sources)))))"
proof -
  let ?srcs = "BUILTIN_SOURCE # sources"
  have s: "s \<in> set ?srcs" using assms(2) by simp
  obtain p i n where ceil:
    "resolveCeiling ?srcs ''maxProfile'' cdMaxProfile CONFIG_PROFILE_RANK = Inr (rcMaxProfile r)"
    "resolveCeiling ?srcs ''maxIsolation'' cdMaxIsolation CONFIG_ISOLATION_RANK = Inr (rcMaxIsolation r)"
    "resolveCeiling ?srcs ''networkAllowed'' cdNetworkAllowed boolTightness = Inr (rcNetworkAllowed r)"
    and p: "resolveOverride ?srcs ''permissionProfile'' cdPermissionProfile = Inr p"
    and r: "rcPermissionProfile r = clamp p (rcMaxProfile r) CONFIG_PROFILE_RANK"
      "rcIsolation r = clamp i (rcMaxIsolation r) CONFIG_ISOLATION_RANK" "rcNetwork r = resolveNetwork n (rcNetworkAllowed r)"
    using assms(1) by (rule resolveConfig_cases)
  have "CONFIG_PROFILE_RANK (rsValue (rcMaxProfile r)) \<le> CONFIG_PROFILE_RANK m" if "cdMaxProfile (csConfig s) = Some m" for m
    by (rule ceiling_cases[OF ceil(1)]) (use s that in blast)
  moreover have "CONFIG_ISOLATION_RANK (rsValue (rcMaxIsolation r)) \<le> CONFIG_ISOLATION_RANK m" if "cdMaxIsolation (csConfig s) = Some m" for m
    by (rule ceiling_cases[OF ceil(2)]) (use s that in blast)
  moreover have "\<not> rsValue (rcNetworkAllowed r)" if "cdNetworkAllowed (csConfig s) = Some False"
    by (rule ceiling_off[OF ceil(3) s that])
  moreover have "rsValue p = the (cdPermissionProfile (csConfig (winner cdPermissionProfile ?srcs)))"
    using p unfolding resolveOverride_def override_fold by (auto simp del: filter.simps split: if_splits)
  ultimately show ?thesis unfolding r network_and
    using clamp_le[of CONFIG_PROFILE_RANK p "rcMaxProfile r"] clamp_le[of CONFIG_ISOLATION_RANK i "rcMaxIsolation r"] by (metis order.trans)
qed

subsection \<open>Denies\<close>

lemma denyEntries_set: "set (rdValue (fold (denyEntry s) ds acc)) = set (rdValue acc) \<union> set ds"
  by (induction ds arbitrary: acc) (auto simp: denyEntry_def)

definition denyOf :: "configSource \<Rightarrow> string list" where
  "denyOf s = (case cdDeny (csConfig s) of None \<Rightarrow> [] | Some ds \<Rightarrow> ds)"

lemma deny_fold: "set (rdValue (fold (\<lambda>s. fold (denyEntry s) (denyOf s)) sources acc)) = set (rdValue acc) \<union> (\<Union>s \<in> set sources. set (denyOf s))"
  by (induction sources arbitrary: acc) (auto simp: denyEntries_set)

lemma deny_union: "set (rdValue (resolveDeny sources)) = (\<Union>s \<in> set sources. set (denyOf s))"
  using deny_fold[of sources "\<lparr>rdValue = [], rdContributions = []\<rparr>"] by (simp add: resolveDeny_def denyOf_def)

lemma resolveConfig_deny: "resolveConfig sources = Inr r \<Longrightarrow> set (rdValue (rcDeny r)) = (\<Union>s \<in> set sources. set (denyOf s))"
  by (erule resolveConfig_cases) (simp add: deny_union, simp add: denyOf_def BUILTIN_SOURCE_def BUILTIN_DEFAULTS_def)

lemma authority_rules:
  "mpRules (raManagedPolicy (authorityFromConfig r)) =
     (if rdValue (rcDeny r) = [] then []
      else [\<lparr>mrId = ''config.deny'', mrEffect = M_deny, mrMatch = emptyMatcher\<lparr>amPaths := Some (rdValue (rcDeny r))\<rparr>,
        mrReason = ''denied by configuration; a deny is the union of every scope and can never be '' @
          ''removed by a higher scope, a grant, or an approval''\<rparr>])"
  by (simp add: authorityFromConfig_def Let_def)

lemma matches_paths_only:
  "matchesAction (emptyMatcher\<lparr>amPaths := Some ps\<rparr>) a home digest \<longleftrightarrow>
     (\<exists>p \<in> set ps. \<exists>v \<in> set (actionPaths a). matchGlob (expandHome p home) v)"
  by (auto simp: matchesAction_def emptyMatcher_def isEmptyMatcher_def present_def anyPathGlob_def list_ex_iff Let_def)

text \<open>
  C11: A deny in any configuration source is enforced by the engine, and the ceiling on the network too: with
  the managed policy of the resolved configuration, an action on a path that a deny entry of any source matches
  is denied, and so is a network action when any source disallows the network, whatever the profile, the rules,
  the grants, the hooks and the actor are.
\<close>
theorem config_deny_enforced:
  assumes "resolveConfig sources = Inr r" "s \<in> set sources"
    and "cxManagedPolicy ctx = raManagedPolicy (authorityFromConfig r)"
    and "(\<exists>d \<in> set (denyOf s). \<exists>p \<in> set (actionPaths a). matchGlob (expandHome d (cxHomeDir ctx)) p) \<or>
      (actKind a = K_network \<and> cdNetworkAllowed (csConfig s) = Some False)"
  shows "pdOutcome (evaluate pf a ctx) = Eff Deny"
proof -
  have denies: "set (denyOf s) \<subseteq> set (rdValue (rcDeny r))" using resolveConfig_deny[OF assms(1)] assms(2) by auto
  have "managedFloor a ctx (actionDigest pf a) = Deny"
  proof (cases "\<exists>d \<in> set (denyOf s). \<exists>p \<in> set (actionPaths a). matchGlob (expandHome d (cxHomeDir ctx)) p")
    case True
    then have "rdValue (rcDeny r) \<noteq> []" using denies by auto
    moreover have "matchesAction (emptyMatcher\<lparr>amPaths := Some (rdValue (rcDeny r))\<rparr>) a (cxHomeDir ctx) (actionDigest pf a)"
      unfolding matches_paths_only using True denies by blast
    ultimately show ?thesis by (simp add: managedFloor_def Let_def list_ex_iff assms(3) authority_rules)
  next
    case False
    then have off: "actKind a = K_network" "cdNetworkAllowed (csConfig s) = Some False" using assms(4) by auto
    have "resolveCeiling (BUILTIN_SOURCE # sources) ''networkAllowed'' cdNetworkAllowed boolTightness = Inr (rcNetworkAllowed r)"
      using assms(1) by (rule resolveConfig_cases)
    then have "\<not> rsValue (rcNetworkAllowed r)" by (rule ceiling_off[where s = s]) (use assms(2) off(2) in simp_all)
    then have "networkOff a ctx" using off(1) by (simp add: networkOff_def assms(3) authorityFromConfig_def Let_def)
    then show ?thesis by (simp add: managedFloor_def Let_def)
  qed
  then show ?thesis by (simp add: evaluate_deny_iff specEffect_def)
qed

lemma managed_unmatched:
  "list_all (\<lambda>rule. \<not> matchesAction (mrMatch rule) a home digest) rules \<Longrightarrow>
     managedLoop rules a home digest v b t = (v, b, t)"
  by (induction rules) auto

lemma other_fields:
  "cxProfile (ctx\<lparr>cxManagedPolicy := m\<rparr>) = cxProfile ctx" "cxRules (ctx\<lparr>cxManagedPolicy := m\<rparr>) = cxRules ctx"
  "cxGrants (ctx\<lparr>cxManagedPolicy := m\<rparr>) = cxGrants ctx" "cxWorkspaceRoot (ctx\<lparr>cxManagedPolicy := m\<rparr>) = cxWorkspaceRoot ctx"
  "cxHomeDir (ctx\<lparr>cxManagedPolicy := m\<rparr>) = cxHomeDir ctx" "cxNow (ctx\<lparr>cxManagedPolicy := m\<rparr>) = cxNow ctx"
  "cxActor (ctx\<lparr>cxManagedPolicy := m\<rparr>) = cxActor ctx" "cxHookOutcome (ctx\<lparr>cxManagedPolicy := m\<rparr>) = cxHookOutcome ctx"
  by simp_all

lemma stages_before_managed:
  "profileStage a (ctx\<lparr>cxManagedPolicy := m\<rparr>) = profileStage a ctx" "stage2 a (ctx\<lparr>cxManagedPolicy := m\<rparr>) v = stage2 a ctx v"
  "stage3 a (ctx\<lparr>cxManagedPolicy := m\<rparr>) digest v = stage3 a ctx digest v"
  "stage4 a (ctx\<lparr>cxManagedPolicy := m\<rparr>) digest v = stage4 a ctx digest v" "stage5 (ctx\<lparr>cxManagedPolicy := m\<rparr>) v = stage5 ctx v"
  "protectedMatches a (ctx\<lparr>cxManagedPolicy := m\<rparr>) = protectedMatches a ctx"
  unfolding policy_defs other_fields by (rule refl)+

text \<open>Two managed policies without a matching rule that agree on the network decide alike.\<close>

lemma evaluate_unmatched:
  assumes "list_all (\<lambda>rule. \<not> matchesAction (mrMatch rule) a (cxHomeDir ctx) (actionDigest pf a)) (mpRules (cxManagedPolicy ctx))"
    and "list_all (\<lambda>rule. \<not> matchesAction (mrMatch rule) a (cxHomeDir ctx) (actionDigest pf a)) (mpRules m)"
    and "mpNetworkAllowed m = mpNetworkAllowed (cxManagedPolicy ctx)"
  shows "evaluate pf a ctx = evaluate pf a (ctx\<lparr>cxManagedPolicy := m\<rparr>)"
proof -
  have "stage6 a (ctx\<lparr>cxManagedPolicy := m\<rparr>) (actionDigest pf a) v = stage6 a ctx (actionDigest pf a) v" for v
    using assms by (simp add: stage6_def networkOff_def Let_def managed_unmatched)
  then have "runStages pf a (ctx\<lparr>cxManagedPolicy := m\<rparr>) = runStages pf a ctx"
    by (simp add: runStages_def Let_def stages_before_managed)
  then show ?thesis by (cases "runStages pf a ctx") (simp add: evaluate_def Let_def stages_before_managed)
qed

definition withoutDenies :: "resolvedConfig \<Rightarrow> resolvedConfig" where
  "withoutDenies r = r\<lparr>rcDeny := \<lparr>rdValue = [], rdContributions = []\<rparr>\<rparr>"

text \<open>
  C34: The deny list of the configuration acts through the paths of an action and through nothing else: where
  no entry matches a path of the action, the engine decides it, with the same reason and the same
  trace, as if the list were empty. So an entry that names a host or a tool, as the schema
  invites, denies nothing: whatever the list says, it has no part in the decision on a network request.
\<close>
theorem deny_entries_are_paths_only:
  assumes "cxManagedPolicy ctx = raManagedPolicy (authorityFromConfig r)"
    and "\<not> (\<exists>d \<in> set (rdValue (rcDeny r)). \<exists>p \<in> set (actionPaths a). matchGlob (expandHome d (cxHomeDir ctx)) p)"
  shows "evaluate pf a ctx = evaluate pf a (ctx\<lparr>cxManagedPolicy := raManagedPolicy (authorityFromConfig (withoutDenies r))\<rparr>) \<and>
    evaluate pf (Network verb scheme host port url) ctx =
      evaluate pf (Network verb scheme host port url)
        (ctx\<lparr>cxManagedPolicy := raManagedPolicy (authorityFromConfig (withoutDenies r))\<rparr>)"
proof -
  have same: "evaluate pf b ctx = evaluate pf b (ctx\<lparr>cxManagedPolicy := raManagedPolicy (authorityFromConfig (withoutDenies r))\<rparr>)"
    if "\<not> (\<exists>d \<in> set (rdValue (rcDeny r)). \<exists>p \<in> set (actionPaths b). matchGlob (expandHome d (cxHomeDir ctx)) p)" for b
  proof (rule evaluate_unmatched)
    show "list_all (\<lambda>rule. \<not> matchesAction (mrMatch rule) b (cxHomeDir ctx) (actionDigest pf b)) (mpRules (cxManagedPolicy ctx))"
      using that by (simp add: assms(1) authority_rules matches_paths_only)
    show "list_all (\<lambda>rule. \<not> matchesAction (mrMatch rule) b (cxHomeDir ctx) (actionDigest pf b))
        (mpRules (raManagedPolicy (authorityFromConfig (withoutDenies r))))"
      by (simp add: authority_rules withoutDenies_def)
    show "mpNetworkAllowed (raManagedPolicy (authorityFromConfig (withoutDenies r))) = mpNetworkAllowed (cxManagedPolicy ctx)"
      by (simp add: assms(1) authorityFromConfig_def withoutDenies_def Let_def)
  qed
  show ?thesis using same[OF assms(2)] same[of "Network verb scheme host port url"] by simp
qed

end
