(* ===== verification/Config_Guarantees.thy ===== *)
theory Config_Guarantees
  imports Config_Theorems
begin

text \<open>
  What comes out of validation and loading: documents and resolved values are well-formed, the environment
  cannot touch the ceiling, every value has a source, and migration is idempotent and leaves no secret behind.
\<close>

subsection \<open>Well-formed documents\<close>

definition positiveOk :: "int \<Rightarrow> bool" where
  "positiveOk n \<longleftrightarrow> 0 < n \<and> n \<le> 2 ^ 53 - 1"

definition apiKeyEnvOk :: "string \<Rightarrow> bool" where
  "apiKeyEnvOk s \<longleftrightarrow> isEnvVarName s \<and> \<not> looksLikeSecret s"

definition budgetsOk :: "budgetsDoc \<Rightarrow> bool" where
  "budgetsOk b \<longleftrightarrow> (\<forall>f \<in> {bdTurnsPerGoal, bdModelCallsPerTurn, bdToolCallsPerTurn, bdWallTimeMsPerTurn,
     bdActiveChildAgents, bdChildDepth, bdSafeReadConcurrency, bdRetryAttempts}. pred_option positiveOk (f b))"

definition toolOutputOk :: "toolOutputDoc \<Rightarrow> bool" where
  "toolOutputOk t \<longleftrightarrow> (\<forall>f \<in> {tdModelPreviewBytes, tdTuiInlineBytes, tdBackgroundWarnBytes,
     tdBackgroundHardStopBytes, tdMcpInlineTokens, tdMcpDurableChars}. pred_option positiveOk (f t))"

definition docOk :: "configDoc \<Rightarrow> bool" where
  "docOk d \<longleftrightarrow> pred_option (\<lambda>s. 1 \<le> length s \<and> length s \<le> 200) (cdModel d) \<and> pred_option apiKeyEnvOk (cdApiKeyEnv d) \<and>
     pred_option budgetsOk (cdBudgets d) \<and> pred_option toolOutputOk (cdToolOutput d) \<and>
     pred_option (\<lambda>t. pred_option positiveOk (teRetentionDays t)) (cdTelemetry d)"

lemma optField_ok: "optField fs k parse = Some x \<Longrightarrow> (\<And>v y. parse v = Some y \<Longrightarrow> P y) \<Longrightarrow> pred_option P x"
  by (auto simp: optField_def split: option.splits jsValue.splits)

lemma parsePositive_ok: "parsePositive v = Some n \<Longrightarrow> positiveOk n"
  by (auto simp: parsePositive_def positiveOk_def split: jsValue.splits if_splits)

lemma parseString_ok: "parseString k v = Some s \<Longrightarrow> 1 \<le> length s \<and> length s \<le> k"
  by (auto simp: parseString_def split: jsValue.splits if_splits)

lemma parseApiKeyEnv_ok: "parseApiKeyEnv v = Some s \<Longrightarrow> apiKeyEnvOk s"
  by (auto simp: parseApiKeyEnv_def apiKeyEnvOk_def split: bind_splits if_splits)

lemmas optPositive_ok = optField_ok[OF _ parsePositive_ok]

lemma parseBudgets_ok: "parseBudgets v = Some b \<Longrightarrow> budgetsOk b"
proof -
  assume "parseBudgets v = Some b"
  then obtain fs where "optField fs ''turnsPerGoal'' parsePositive = Some (bdTurnsPerGoal b)" "optField fs ''modelCallsPerTurn'' parsePositive = Some (bdModelCallsPerTurn b)" "optField fs ''toolCallsPerTurn'' parsePositive = Some (bdToolCallsPerTurn b)" "optField fs ''wallTimeMsPerTurn'' parsePositive = Some (bdWallTimeMsPerTurn b)" "optField fs ''activeChildAgents'' parsePositive = Some (bdActiveChildAgents b)" "optField fs ''childDepth'' parsePositive = Some (bdChildDepth b)" "optField fs ''safeReadConcurrency'' parsePositive = Some (bdSafeReadConcurrency b)" "optField fs ''retryAttempts'' parsePositive = Some (bdRetryAttempts b)"
    unfolding parseBudgets_def bind_eq_Some_conv by (elim exE conjE) auto
  note this[THEN optPositive_ok]
  then show "budgetsOk b" by (simp add: budgetsOk_def)
qed

lemma parseToolOutput_ok: "parseToolOutput v = Some b \<Longrightarrow> toolOutputOk b"
proof -
  assume "parseToolOutput v = Some b"
  then obtain fs where "optField fs ''modelPreviewBytes'' parsePositive = Some (tdModelPreviewBytes b)" "optField fs ''tuiInlineBytes'' parsePositive = Some (tdTuiInlineBytes b)" "optField fs ''backgroundWarnBytes'' parsePositive = Some (tdBackgroundWarnBytes b)" "optField fs ''backgroundHardStopBytes'' parsePositive = Some (tdBackgroundHardStopBytes b)" "optField fs ''mcpInlineTokens'' parsePositive = Some (tdMcpInlineTokens b)" "optField fs ''mcpDurableChars'' parsePositive = Some (tdMcpDurableChars b)"
    unfolding parseToolOutput_def bind_eq_Some_conv by (elim exE conjE) auto
  note this[THEN optPositive_ok]
  then show "toolOutputOk b" by (simp add: toolOutputOk_def)
qed

lemma parseTelemetry_ok: "parseTelemetry v = Some t \<Longrightarrow> pred_option positiveOk (teRetentionDays t)"
  unfolding parseTelemetry_def bind_eq_Some_conv by (elim exE conjE) (auto dest!: optPositive_ok)

lemma parseConfigDoc_fields:
  assumes "parseConfigDoc urlOk v = Some d"
  obtains fs where "strictFields CONFIG_FIELDS v = Some fs"
    "optField fs ''model'' (parseString 200) = Some (cdModel d)"
    "optField fs ''apiKeyEnv'' parseApiKeyEnv = Some (cdApiKeyEnv d)" "optField fs ''budgets'' parseBudgets = Some (cdBudgets d)"
    "optField fs ''toolOutput'' parseToolOutput = Some (cdToolOutput d)" "optField fs ''telemetry'' parseTelemetry = Some (cdTelemetry d)"
    "optField fs ''isolation'' parseIsolation = Some (cdIsolation d)" "optField fs ''network'' parseBool = Some (cdNetwork d)"
    "optField fs ''maxProfile'' parseProfile = Some (cdMaxProfile d)"
    "optField fs ''maxIsolation'' parseIsolation = Some (cdMaxIsolation d)"
    "optField fs ''networkAllowed'' parseBool = Some (cdNetworkAllowed d)" "optField fs ''deny'' parseDeny = Some (cdDeny d)"
  using assms unfolding parseConfigDoc_def bind_eq_Some_conv by (elim exE conjE) auto

lemma parseConfigDoc_ok: "parseConfigDoc urlOk v = Some d \<Longrightarrow> docOk d"
proof (erule parseConfigDoc_fields, goal_cases)
  case (1 fs)
  note 1(2-6)[THEN optField_ok]
  from this(1)[OF parseString_ok] this(2)[OF parseApiKeyEnv_ok] this(3)[OF parseBudgets_ok] this(4)[OF parseToolOutput_ok]
    this(5)[OF parseTelemetry_ok] show "docOk d" by (simp add: docOk_def)
qed

lemma lower_dash: "lowerChar (CHR ''D'') = CHR ''d''" "lowerChar (CHR ''A'') = CHR ''a''" "lowerChar (CHR ''S'') = CHR ''s''"
  by code_simp+

lemma default_key_ok: "apiKeyEnvOk DEFAULT_API_KEY_ENV"
  by (simp add: apiKeyEnvOk_def DEFAULT_API_KEY_ENV_def isEnvVarName_def isUpperChar_def isDigit_def looksLikeSecret_def
      toLowerCase_def lower_dash startsWith_def)

lemma builtin_ok: "docOk (csConfig BUILTIN_SOURCE)"
  by (simp add: docOk_def BUILTIN_SOURCE_def BUILTIN_DEFAULTS_def budgetsOk_def toolOutputOk_def positiveOk_def default_key_ok)

subsection \<open>Well-formed values\<close>

definition resolvedBudgetsOk :: "resolvedBudgets \<Rightarrow> bool" where
  "resolvedBudgetsOk b \<longleftrightarrow> (\<forall>f \<in> {rbTurnsPerGoal, rbModelCallsPerTurn, rbToolCallsPerTurn, rbWallTimeMsPerTurn,
     rbActiveChildAgents, rbChildDepth, rbSafeReadConcurrency, rbRetryAttempts}. positiveOk (rsValue (f b)))"

definition resolvedToolOutputOk :: "resolvedToolOutput \<Rightarrow> bool" where
  "resolvedToolOutputOk t \<longleftrightarrow> (\<forall>f \<in> {rtModelPreviewBytes, rtTuiInlineBytes, rtBackgroundWarnBytes,
     rtBackgroundHardStopBytes, rtMcpInlineTokens, rtMcpDurableChars}. positiveOk (rsValue (f t)))"

definition resolvedOk :: "resolvedConfig \<Rightarrow> bool" where
  "resolvedOk r \<longleftrightarrow> 1 \<le> length (rsValue (rcModel r)) \<and> length (rsValue (rcModel r)) \<le> 200 \<and>
     apiKeyEnvOk (rsValue (rcApiKeyEnv r)) \<and> positiveOk (rsValue (rcTelemetryRetentionDays r)) \<and>
     resolvedBudgetsOk (rcBudgets r) \<and> resolvedToolOutputOk (rcToolOutput r)"

lemma override_ok:
  assumes "\<forall>s \<in> set srcs. docOk (csConfig s)" "\<And>d v. docOk d \<Longrightarrow> select d = Some v \<Longrightarrow> P v"
    and "resolveOverride srcs key select = Inr r"
  shows "P (rsValue r)"
  by (rule override_cases[OF assms(3)]) (use assms(1,2) in blast)

lemma budget_ok:
  assumes "f \<in> {bdTurnsPerGoal, bdModelCallsPerTurn, bdToolCallsPerTurn, bdWallTimeMsPerTurn,
     bdActiveChildAgents, bdChildDepth, bdSafeReadConcurrency, bdRetryAttempts}" "docOk d" "ofBudgets f d = Some n"
  shows "positiveOk n"
proof -
  obtain b where b: "cdBudgets d = Some b" "f b = Some n" using assms(3) by (auto simp: ofBudgets_def bind_eq_Some_conv)
  then have "budgetsOk b" using assms(2) by (simp add: docOk_def)
  then have "pred_option positiveOk (f b)" using assms(1) unfolding budgetsOk_def by (rule bspec)
  then show ?thesis using b(2) by simp
qed

lemma toolOutput_ok:
  assumes "f \<in> {tdModelPreviewBytes, tdTuiInlineBytes, tdBackgroundWarnBytes,
     tdBackgroundHardStopBytes, tdMcpInlineTokens, tdMcpDurableChars}" "docOk d" "ofToolOutput f d = Some n"
  shows "positiveOk n"
proof -
  obtain b where b: "cdToolOutput d = Some b" "f b = Some n" using assms(3) by (auto simp: ofToolOutput_def bind_eq_Some_conv)
  then have "toolOutputOk b" using assms(2) by (simp add: docOk_def)
  then have "pred_option positiveOk (f b)" using assms(1) unfolding toolOutputOk_def by (rule bspec)
  then show ?thesis using b(2) by simp
qed

lemma resolveBudgets_ok:
  assumes "\<forall>s \<in> set srcs. docOk (csConfig s)" "resolveBudgets srcs = Inr b"
  shows "resolvedBudgetsOk b"
proof -
  note o = override_ok[OF assms(1), where P = positiveOk, OF budget_ok]
  from assms(2) show ?thesis unfolding resolveBudgets_def bindR_Inr by (elim exE conjE) (auto simp: resolvedBudgetsOk_def intro: o)
qed

lemma resolveToolOutput_ok:
  assumes "\<forall>s \<in> set srcs. docOk (csConfig s)" "resolveToolOutput srcs = Inr b"
  shows "resolvedToolOutputOk b"
proof -
  note o = override_ok[OF assms(1), where P = positiveOk, OF toolOutput_ok]
  from assms(2) show ?thesis unfolding resolveToolOutput_def bindR_Inr by (elim exE conjE) (auto simp: resolvedToolOutputOk_def intro: o)
qed

lemma resolveConfig_ok:
  assumes "\<forall>s \<in> set sources. docOk (csConfig s)" "resolveConfig sources = Inr r"
  shows "resolvedOk r"
proof (rule resolveConfig_cases[OF assms(2)], goal_cases)
  case (1 p i n)
  have all: "\<forall>s \<in> set (BUILTIN_SOURCE # sources). docOk (csConfig s)" using assms(1) builtin_ok by simp
  have "1 \<le> length (rsValue (rcModel r)) \<and> length (rsValue (rcModel r)) \<le> 200"
    by (rule override_ok[OF all _ 1(11)]) (auto simp: docOk_def)
  moreover have "apiKeyEnvOk (rsValue (rcApiKeyEnv r))" by (rule override_ok[OF all _ 1(13)]) (auto simp: docOk_def)
  moreover have "positiveOk (rsValue (rcTelemetryRetentionDays r))"
    by (rule override_ok[OF all _ 1(14)]) (auto simp: docOk_def ofTelemetry_def bind_eq_Some_conv)
  ultimately show ?case using resolveBudgets_ok[OF all 1(15)] resolveToolOutput_ok[OF all 1(16)] by (simp add: resolvedOk_def)
qed

lemma loadConfigFile_ok: "loadConfigFile io path scope sid = Inr (Some s) \<Longrightarrow> docOk (csConfig s)"
  unfolding loadConfigFile_def bindR_Inr
  by (elim exE conjE) (auto dest!: parseConfigDoc_ok split: option.split_asm sum.split_asm)

lemma loadEnvSource_ok: "loadEnvSource io = Inr (Some s) \<Longrightarrow> docOk (csConfig s)"
  unfolding loadEnvSource_def bindR_Inr
  by (elim exE conjE) (auto dest!: parseConfigDoc_ok split: option.split_asm if_split_asm)

lemma loadCliSource_ok: "loadCliSource io c = Inr s \<Longrightarrow> docOk (csConfig s)"
  by (auto simp: loadCliSource_def dest: parseConfigDoc_ok split: option.splits)

lemma pushSource_all: "list_all P (pushSource x xs) \<longleftrightarrow> list_all P xs \<and> pred_option P x"
  by (cases x) (auto simp: pushSource_def)

lemma loadConfigSources_ok:
  assumes "loadConfigSources io paths cli = Inr sources"
  shows "\<forall>s \<in> set sources. docOk (csConfig s)"
proof -
  obtain m u sp lp e c where l: "loadConfigFile io (cpManaged paths) Scope_managed ''managed'' = Inr m"
    "loadConfigFile io (cpUser paths) Scope_user ''user'' = Inr u"
    "loadConfigFile io (cpSharedProject paths) Scope_shared_project ''shared-project'' = Inr sp"
    "loadConfigFile io (cpLocalProject paths) Scope_local_project ''local-project'' = Inr lp" "loadEnvSource io = Inr e"
    "(case cli of None \<Rightarrow> Inr None | Some c \<Rightarrow> bindR (loadCliSource io c) (\<lambda>s. Inr (Some s))) = Inr c"
    "sources = fold pushSource [m, u, sp, lp, e, c] []"
    using assms unfolding loadConfigSources_def bindR_Inr by auto
  have "pred_option (\<lambda>s. docOk (csConfig s)) c" using l(6) loadCliSource_ok by (auto simp: bindR_Inr split: option.splits)
  moreover have "pred_option (\<lambda>s. docOk (csConfig s)) x" if "loadConfigFile io p sc i = Inr x" for x p sc i
    using that loadConfigFile_ok by (cases x) auto
  note this[OF l(1)] this[OF l(2)] this[OF l(3)] this[OF l(4)]
  moreover have "pred_option (\<lambda>s. docOk (csConfig s)) e" using l(5) loadEnvSource_ok by (cases e) auto
  ultimately have "list_all (\<lambda>s. docOk (csConfig s)) sources" unfolding l(7) by (simp add: pushSource_all)
  then show ?thesis by (simp add: list_all_iff)
qed

text \<open>
  C24: Whatever is on disk, in the environment and on the command line, a configuration that loads is well-formed:
  a model name of 1 to 200 characters, budgets and limits that are positive safe integers, and for the API key
  the name of an environment variable, never something that looks like a key.
\<close>
theorem loaded_config_wellformed:
  assumes "loadResolvedConfig io paths cli = Inr r"
  shows "resolvedOk r"
proof -
  obtain sources where s: "loadConfigSources io paths cli = Inr sources" "resolveConfig sources = Inr r"
    using assms unfolding loadResolvedConfig_def bindR_Inr by (elim exE conjE) (auto split: sum.split_asm)
  from resolveConfig_ok[OF loadConfigSources_ok[OF s(1)] s(2)] show ?thesis .
qed

subsection \<open>The environment\<close>

lemma allowlist_keys:
  "b \<in> set ENV_ALLOWLIST \<Longrightarrow> ebApply b d v = Inr d' \<Longrightarrow>
   k \<in> {''deny'', ''maxProfile'', ''maxIsolation'', ''networkAllowed'', ''network'', ''isolation''} \<Longrightarrow> map_of d' k = map_of d k"
  by (auto simp: ENV_ALLOWLIST_def setString_def update_conv' bindR_Inr)

lemma applyBindings_keys:
  assumes "set bs \<subseteq> set ENV_ALLOWLIST" "applyBindings env bs d = Inr d'"
    and "k \<in> {''deny'', ''maxProfile'', ''maxIsolation'', ''networkAllowed'', ''network'', ''isolation''}"
  shows "map_of d' k = map_of d k"
  using assms(1,2)
proof (induction bs arbitrary: d)
  case (Cons b bs)
  show ?case
  proof (cases "env (ebVariable b)")
    case (Some v)
    then obtain d1 where "ebApply b d v = Inr d1" "applyBindings env bs d1 = Inr d'" using Cons.prems by (auto simp: bindR_Inr)
    with Cons allowlist_keys[of b d v d1 k] assms(3) show ?thesis by simp
  qed (use Cons in simp)
qed simp

text \<open>
  No environment variable touches the ceiling, the deny list, the isolation or the network: the source that
  is made of the environment leaves all of them unset, whatever the variables hold.
\<close>
theorem env_sets_no_ceiling:
  assumes "loadEnvSource io = Inr (Some s)"
  shows "cdDeny (csConfig s) = None \<and> cdMaxProfile (csConfig s) = None \<and> cdMaxIsolation (csConfig s) = None \<and>
    cdNetworkAllowed (csConfig s) = None \<and> cdNetwork (csConfig s) = None \<and> cdIsolation (csConfig s) = None"
proof -
  obtain raw where raw: "applyBindings (ioEnv io) ENV_ALLOWLIST [] = Inr raw" "parseConfigDoc (ioUrlOk io) (JsObj raw) = Some (csConfig s)"
    using assms by (auto simp: loadEnvSource_def bindR_Inr split: option.splits if_splits)
  have none: "map_of raw k = None" if "k \<in> {''deny'', ''maxProfile'', ''maxIsolation'', ''networkAllowed'', ''network'', ''isolation''}" for k
    using applyBindings_keys[OF order.refl raw(1) that] by simp
  have "optField raw k parse = Some None" if "k \<in> {''deny'', ''maxProfile'', ''maxIsolation'', ''networkAllowed'', ''network'', ''isolation''}"
    for k and parse :: "jsValue \<Rightarrow> 'b option" using none[OF that] by (simp add: optField_def)
  note gone = this
  show ?thesis
  proof (rule parseConfigDoc_fields[OF raw(2)], goal_cases)
    case (1 fs)
    then have "fs = raw" by (simp add: strictFields_def split: if_splits)
    with 1 show ?case by (simp add: gone)
  qed
qed

subsection \<open>Migration\<close>

lemma migrateLoop_now: "\<not> current < CONFIG_SCHEMA_VERSION \<Longrightarrow> migrateLoop current doc a n = Inr (doc, a, n)"
  by (simp add: migrateLoop.simps)

lemma migrateLoop_0:
  "migrateLoop 0 doc a n = (case upV1 doc n of (doc', n') \<Rightarrow> Inr (doc', a @ [''v0-unversioned-to-v1''], n'))"
  by (subst migrateLoop.simps)
    (simp add: CONFIG_MIGRATIONS_def CONFIG_SCHEMA_VERSION_def migrateLoop_now split: prod.split)

lemma renameField_get:
  assumes "old \<noteq> new"
  shows "map_of (fst (renameField old new (doc, n))) k =
    (if k = old then None else if k = new \<and> \<not> hasKey doc new then map_of doc old else map_of doc k)"
  using assms by (auto simp: renameField_def hasKey_def delete_conv' update_conv' split: option.splits)

lemma max_known: "MAX_KNOWN_VERSION = 1"
  by (simp add: MAX_KNOWN_VERSION_def CONFIG_MIGRATIONS_def CONFIG_SCHEMA_VERSION_def)

definition movedTo :: "rawDoc \<Rightarrow> string \<Rightarrow> string \<Rightarrow> jsValue option" where
  "movedTo fs old new = (if hasKey fs new then map_of fs new else map_of fs old)"

lemma upV1_get:
  "map_of (fst (upV1 fs n)) ''version'' = Some (JsNum 1)"
  "k \<in> {''endpoint'', ''keyEnv'', ''profile'', ''reasoning'', ''apiKey''} \<Longrightarrow> map_of (fst (upV1 fs n)) k = None"
  "map_of (fst (upV1 fs n)) ''baseUrl'' = movedTo fs ''endpoint'' ''baseUrl''"
  "map_of (fst (upV1 fs n)) ''apiKeyEnv'' = movedTo fs ''keyEnv'' ''apiKeyEnv''"
  "map_of (fst (upV1 fs n)) ''permissionProfile'' = movedTo fs ''profile'' ''permissionProfile''"
  "map_of (fst (upV1 fs n)) ''reasoningEffort'' = movedTo fs ''reasoning'' ''reasoningEffort''"
proof -
  obtain d1 n1 where 1: "renameField ''endpoint'' ''baseUrl'' (fs, n) = (d1, n1)" by fastforce
  obtain d2 n2 where 2: "renameField ''keyEnv'' ''apiKeyEnv'' (d1, n1) = (d2, n2)" by fastforce
  obtain d3 n3 where 3: "renameField ''profile'' ''permissionProfile'' (d2, n2) = (d3, n3)" by fastforce
  obtain d4 n4 where 4: "renameField ''reasoning'' ''reasoningEffort'' (d3, n3) = (d4, n4)" by fastforce
  note g = renameField_get[of "''endpoint''" "''baseUrl''" fs n, unfolded 1] renameField_get[of "''keyEnv''" "''apiKeyEnv''" d1 n1, unfolded 2]
    renameField_get[of "''profile''" "''permissionProfile''" d2 n2, unfolded 3] renameField_get[of "''reasoning''" "''reasoningEffort''" d3 n3, unfolded 4]
  have up: "map_of (fst (upV1 fs n)) k = (if k = ''version'' then Some (JsNum 1) else if k = ''apiKey'' then None else map_of d4 k)" for k
    by (simp add: upV1_def Let_def 1 2 3 4 update_conv' delete_conv' hasKey_def)
  show "map_of (fst (upV1 fs n)) ''version'' = Some (JsNum 1)" by (simp add: up)
  show "k \<in> {''endpoint'', ''keyEnv'', ''profile'', ''reasoning'', ''apiKey''} \<Longrightarrow> map_of (fst (upV1 fs n)) k = None"
    using g by (auto simp: up)
  show "map_of (fst (upV1 fs n)) ''baseUrl'' = movedTo fs ''endpoint'' ''baseUrl''"
    "map_of (fst (upV1 fs n)) ''apiKeyEnv'' = movedTo fs ''keyEnv'' ''apiKeyEnv''"
    "map_of (fst (upV1 fs n)) ''permissionProfile'' = movedTo fs ''profile'' ''permissionProfile''"
    "map_of (fst (upV1 fs n)) ''reasoningEffort'' = movedTo fs ''reasoning'' ''reasoningEffort''"
    using g by (simp_all add: up movedTo_def hasKey_def)
qed

text \<open>
  Migration brings a document to the current version once and for all: migrating the result changes nothing
  and applies nothing. From an unversioned document it moves each renamed field to its new name, unless that was
  already set, and leaves neither an old name nor a raw API key.
\<close>
theorem migration_idempotent:
  assumes "migrateConfig (JsObj fs) = Inr m"
  shows "migrateConfig (JsObj (mrConfig m)) = Inr \<lparr>mrConfig = mrConfig m, mrFromVersion = 1, mrApplied = [], mrNotes = []\<rparr> \<and>
    (mrFromVersion m = 1 \<longrightarrow> mrConfig m = fs) \<and>
    (mrFromVersion m \<noteq> 1 \<longrightarrow>
      list_all (\<lambda>k. map_of (mrConfig m) k = None) [''endpoint'', ''keyEnv'', ''profile'', ''reasoning'', ''apiKey''] \<and>
      map_of (mrConfig m) ''baseUrl'' = movedTo fs ''endpoint'' ''baseUrl'' \<and>
      map_of (mrConfig m) ''apiKeyEnv'' = movedTo fs ''keyEnv'' ''apiKeyEnv'' \<and>
      map_of (mrConfig m) ''permissionProfile'' = movedTo fs ''profile'' ''permissionProfile'' \<and>
      map_of (mrConfig m) ''reasoningEffort'' = movedTo fs ''reasoning'' ''reasoningEffort'')"
proof -
  obtain v0 where v: "readConfigVersion (JsObj fs) = Inr v0" "v0 \<le> 1"
    using assms by (auto simp: migrateConfig_def bindR_Inr max_known split: if_splits)
  then have f: "v0 = 0 \<or> v0 = 1 \<and> map_of fs ''version'' = Some (JsNum 1)"
    by (auto simp: readConfigVersion_def split: option.splits jsValue.splits if_splits)
  have again: "migrateConfig (JsObj doc) = Inr \<lparr>mrConfig = doc, mrFromVersion = 1, mrApplied = [], mrNotes = []\<rparr>"
    if "map_of doc ''version'' = Some (JsNum 1)" for doc
    using that by (simp add: migrateConfig_def readConfigVersion_def max_known migrateLoop_now CONFIG_SCHEMA_VERSION_def)
  from f show ?thesis
  proof
    assume "v0 = 0"
    then have m: "mrConfig m = fst (upV1 fs [])" "mrFromVersion m = 0" using assms v
      by (auto simp: migrateConfig_def max_known migrateLoop_0 split: prod.splits)
    show ?thesis unfolding m(1) using again[OF upV1_get(1)[of fs "[]"]] upV1_get(2-6)[where fs = fs and n = "[]"] m(2) by simp
  next
    assume *: "v0 = 1 \<and> map_of fs ''version'' = Some (JsNum 1)"
    with again[of fs] assms show ?thesis by auto
  qed
qed

subsection \<open>Provenance\<close>

fun leavesOk :: "configSourceRef set \<Rightarrow> configNode \<Rightarrow> bool" where
  "leavesOk refs (Node_value v s) = (s \<in> refs)"
| "leavesOk refs (Node_deny d) = (dcSource ` set (rdContributions d) \<subseteq> refs)"
| "leavesOk refs (Node_object fs) = list_all (\<lambda>f. leavesOk refs (snd f)) fs"

lemma walkNode_ok: "walkNode n path = Some (Some n') \<Longrightarrow> pred_option (leavesOk refs) n \<Longrightarrow> leavesOk refs n'"
proof (induction n path rule: walkNode.induct)
  case (2 fs part parts)
  have "pred_option (leavesOk refs) (map_of fs part)"
    using 2(3) by (cases "map_of fs part") (force simp: list_all_iff dest: map_of_SomeD)+
  with 2 show ?case by simp
qed simp_all

definition sourcedIn :: "configSource list \<Rightarrow> 'a resolved \<Rightarrow> bool" where
  "sourcedIn srcs r \<longleftrightarrow> rsSource r \<in> sourceRef ` set srcs"

lemma override_source: "resolveOverride srcs key select = Inr r \<Longrightarrow> sourcedIn srcs r"
  unfolding sourcedIn_def by (erule override_cases) blast

lemma ceiling_source: "resolveCeiling srcs key select t = Inr r \<Longrightarrow> sourcedIn srcs r"
  unfolding sourcedIn_def by (erule ceiling_cases) blast

lemma clamp_source: "sourcedIn srcs d \<Longrightarrow> sourcedIn srcs c \<Longrightarrow> sourcedIn srcs (clamp d c t)"
  by (simp add: clamp_def)

lemma network_source: "sourcedIn srcs d \<Longrightarrow> sourcedIn srcs a \<Longrightarrow> sourcedIn srcs (resolveNetwork d a)"
  by (simp add: sourcedIn_def resolveNetwork_def)

lemma deny_sources: "dcSource ` set (rdContributions (resolveDeny srcs)) \<subseteq> sourceRef ` set srcs"
proof -
  have entries: "rdContributions (fold (denyEntry s) ds acc) = rdContributions acc @ map (\<lambda>d. \<lparr>dcValue = d, dcSource = sourceRef s\<rparr>) ds"
    for s ds acc by (induction ds arbitrary: acc) (simp_all add: denyEntry_def)
  have "rdContributions (fold (\<lambda>s. fold (denyEntry s) (denyOf s)) ss acc) =
    rdContributions acc @ concat (map (\<lambda>s. map (\<lambda>d. \<lparr>dcValue = d, dcSource = sourceRef s\<rparr>) (denyOf s)) ss)" for ss acc
    by (induction ss arbitrary: acc) (simp_all add: entries)
  from this[of srcs "\<lparr>rdValue = [], rdContributions = []\<rparr>"]
  have "rdContributions (resolveDeny srcs) = concat (map (\<lambda>s. map (\<lambda>d. \<lparr>dcValue = d, dcSource = sourceRef s\<rparr>) (denyOf s)) srcs)"
    by (simp add: resolveDeny_def denyOf_def)
  then show ?thesis by auto
qed

lemma leaf_ok: "leavesOk (sourceRef ` set srcs) (leaf f r) = sourcedIn srcs r"
  by (simp add: leaf_def sourcedIn_def)

lemma resolveBudgets_fields:
  assumes "resolveBudgets srcs = Inr b"
  shows "resolveOverride srcs ''budgets.turnsPerGoal'' (ofBudgets bdTurnsPerGoal) = Inr (rbTurnsPerGoal b)" "resolveOverride srcs ''budgets.modelCallsPerTurn'' (ofBudgets bdModelCallsPerTurn) = Inr (rbModelCallsPerTurn b)"
    "resolveOverride srcs ''budgets.toolCallsPerTurn'' (ofBudgets bdToolCallsPerTurn) = Inr (rbToolCallsPerTurn b)" "resolveOverride srcs ''budgets.wallTimeMsPerTurn'' (ofBudgets bdWallTimeMsPerTurn) = Inr (rbWallTimeMsPerTurn b)"
    "resolveOverride srcs ''budgets.activeChildAgents'' (ofBudgets bdActiveChildAgents) = Inr (rbActiveChildAgents b)" "resolveOverride srcs ''budgets.childDepth'' (ofBudgets bdChildDepth) = Inr (rbChildDepth b)"
    "resolveOverride srcs ''budgets.safeReadConcurrency'' (ofBudgets bdSafeReadConcurrency) = Inr (rbSafeReadConcurrency b)" "resolveOverride srcs ''budgets.retryAttempts'' (ofBudgets bdRetryAttempts) = Inr (rbRetryAttempts b)"
   
  using assms unfolding resolveBudgets_def bindR_Inr by auto

lemma budget_sources:
  "resolveBudgets srcs = Inr b \<Longrightarrow> \<forall>f \<in> {rbTurnsPerGoal, rbModelCallsPerTurn, rbToolCallsPerTurn, rbWallTimeMsPerTurn, rbActiveChildAgents, rbChildDepth, rbSafeReadConcurrency, rbRetryAttempts}. sourcedIn srcs (f b)"
  by (simp add: resolveBudgets_fields[THEN override_source])

lemma resolveToolOutput_fields:
  assumes "resolveToolOutput srcs = Inr b"
  shows "resolveOverride srcs ''toolOutput.modelPreviewBytes'' (ofToolOutput tdModelPreviewBytes) = Inr (rtModelPreviewBytes b)" "resolveOverride srcs ''toolOutput.tuiInlineBytes'' (ofToolOutput tdTuiInlineBytes) = Inr (rtTuiInlineBytes b)"
    "resolveOverride srcs ''toolOutput.backgroundWarnBytes'' (ofToolOutput tdBackgroundWarnBytes) = Inr (rtBackgroundWarnBytes b)" "resolveOverride srcs ''toolOutput.backgroundHardStopBytes'' (ofToolOutput tdBackgroundHardStopBytes) = Inr (rtBackgroundHardStopBytes b)"
    "resolveOverride srcs ''toolOutput.mcpInlineTokens'' (ofToolOutput tdMcpInlineTokens) = Inr (rtMcpInlineTokens b)" "resolveOverride srcs ''toolOutput.mcpDurableChars'' (ofToolOutput tdMcpDurableChars) = Inr (rtMcpDurableChars b)"
   
  using assms unfolding resolveToolOutput_def bindR_Inr by auto

lemma toolOutput_sources:
  "resolveToolOutput srcs = Inr b \<Longrightarrow> \<forall>f \<in> {rtModelPreviewBytes, rtTuiInlineBytes, rtBackgroundWarnBytes, rtBackgroundHardStopBytes, rtMcpInlineTokens, rtMcpDurableChars}. sourcedIn srcs (f b)"
  by (simp add: resolveToolOutput_fields[THEN override_source])

lemma ok_bind: "\<not> isl m \<Longrightarrow> (\<And>x. \<not> isl (f x)) \<Longrightarrow> \<not> isl (bindR m f)"
  by (cases m) auto

lemma ok_override: "select BUILTIN_DEFAULTS \<noteq> None \<Longrightarrow> \<not> isl (resolveOverride (BUILTIN_SOURCE # sources) key select)"
  using override_builtin[of select _ sources key] by auto

lemma ok_ceiling: "select BUILTIN_DEFAULTS \<noteq> None \<Longrightarrow> \<not> isl (resolveCeiling (BUILTIN_SOURCE # sources) key select t)"
  using ceiling_builtin[of select _ sources key t] by auto

lemma resolve_total: "\<not> isl (resolveConfig sources)"
  unfolding resolveConfig_def Let_def resolveBudgets_def resolveToolOutput_def
  by (intro ok_bind ok_override ok_ceiling, unfold ofBudgets_def ofToolOutput_def ofTelemetry_def)
    (simp_all add: BUILTIN_DEFAULTS_def)

lemma keys_found: "list_all (\<lambda>key. \<not> isl (provenanceOf r key)) CONFIG_KEYS"
  by (simp add: CONFIG_KEYS_def provenanceOf_def configTree_def leaf_def)

lemma config_sources:
  assumes "resolveConfig sources = Inr r"
  shows "leavesOk (sourceRef ` set (BUILTIN_SOURCE # sources)) (configTree r)"
proof (rule resolveConfig_cases[OF assms], goal_cases)
  case (1 p i n)
  note ceil = 1(1-3)[THEN ceiling_source]
  note wish = 1(4-6)[THEN override_source]
  note plain = 1(11-14)[THEN override_source] 1(17-20)[THEN override_source]
  note bounded = clamp_source[OF wish(1) ceil(1)] clamp_source[OF wish(2) ceil(2)] network_source[OF wish(3) ceil(3)]
  show ?case using ceil plain budget_sources[OF 1(15)] toolOutput_sources[OF 1(16)] bounded deny_sources[of "BUILTIN_SOURCE # sources"]
    unfolding 1(7-10) configTree_def leavesOk.simps list.pred_inject snd_conv leaf_ok by simp
qed

text \<open>
  Resolution never fails, and every configuration key can be explained: its provenance is a value with the
  one source it came from, or for the deny list every entry with its source, and these are sources that were
  given, or the built-in defaults.
\<close>
theorem every_key_has_a_source:
  "case resolveConfig sources of
     Inl e \<Rightarrow> False
   | Inr r \<Rightarrow> list_all (\<lambda>key. case provenanceOf r key of
       Inl e \<Rightarrow> False
     | Inr (Prov_value v s) \<Rightarrow> s \<in> sourceRef ` set (BUILTIN_SOURCE # sources)
     | Inr (Prov_merged ds cs) \<Rightarrow> dcSource ` set cs \<subseteq> sourceRef ` set (BUILTIN_SOURCE # sources)) CONFIG_KEYS"
proof -
  obtain r where r: "resolveConfig sources = Inr r" using resolve_total[of sources] by (cases "resolveConfig sources") auto
  define refs where "refs = sourceRef ` set (BUILTIN_SOURCE # sources)"
  note ok = config_sources[OF r, folded refs_def]
  have one: "case provenanceOf r key of Inl e \<Rightarrow> False
     | Inr (Prov_value v s) \<Rightarrow> s \<in> refs | Inr (Prov_merged ds cs) \<Rightarrow> dcSource ` set cs \<subseteq> refs"
    if "\<not> isl (provenanceOf r key)" for key
    using walkNode_ok[of "Some (configTree r)" "splitChar (CHR ''.'') key" _ refs] ok that
    by (auto simp: provenanceOf_def split: option.splits configNode.splits)
  have "list_all (\<lambda>key. \<not> isl (provenanceOf r key)) CONFIG_KEYS" by (rule keys_found)
  then show ?thesis unfolding r sum.case refs_def[symmetric] list_all_iff using one by blast
qed

subsection \<open>A concrete configuration\<close>

definition emptyDoc :: configDoc where
  "emptyDoc = \<lparr>cdVersion = None, cdModel = None, cdBaseUrl = None, cdApiKeyEnv = None, cdReasoningEffort = None,
     cdTransport = None, cdBudgets = None, cdToolOutput = None, cdTelemetry = None, cdPermissionProfile = None,
     cdIsolation = None, cdNetwork = None, cdMaxProfile = None, cdMaxIsolation = None, cdNetworkAllowed = None, cdDeny = None\<rparr>"

definition sampleManagedSource :: configSource where
  "sampleManagedSource = \<lparr>csId = ''managed'', csScope = Scope_managed,
     csConfig = emptyDoc\<lparr>cdMaxProfile := Some P_ask, cdNetworkAllowed := Some False, cdDeny := Some [''/s'']\<rparr>,
     csOrigin = Origin_file ''/etc/qwen-harness/managed.json''\<rparr>"

definition sampleCliSource :: configSource where
  "sampleCliSource = \<lparr>csId = ''cli'', csScope = Scope_cli,
     csConfig = emptyDoc\<lparr>cdPermissionProfile := Some P_yolo, cdNetwork := Some True\<rparr>, csOrigin = Origin_cli\<rparr>"

definition sampleIo :: configIo where
  "sampleIo = \<lparr>ioRead = (\<lambda>_. Read_enoent), ioParseJson = (\<lambda>_. None), ioUrlOk = (\<lambda>_. True),
     ioEnv = (\<lambda>v. if v = ''QWEN_HARNESS_MODEL'' then Some ''qwen'' else None)\<rparr>"

definition samplePaths :: configPaths where
  "samplePaths = \<lparr>cpManaged = ''/m'', cpUser = ''/u'', cpSharedProject = ''/p'', cpLocalProject = ''/l''\<rparr>"

lemma resolved_exists: "\<exists>r. resolveConfig sources = Inr r"
  using resolve_total[of sources] by (cases "resolveConfig sources") auto

lemma config_within_every_ceiling_witness:
  "\<exists>r. resolveConfig [sampleManagedSource, sampleCliSource] = Inr r \<and>
     CONFIG_PROFILE_RANK (rsValue (rcPermissionProfile r)) \<le> 1 \<and> \<not> rsValue (rcNetwork r)"
proof -
  obtain r where r: "resolveConfig [sampleManagedSource, sampleCliSource] = Inr r" using resolved_exists by blast
  from config_within_every_ceiling[OF r, of sampleManagedSource] r show ?thesis
    by (simp add: sampleManagedSource_def emptyDoc_def)
qed

lemma config_deny_enforced_witness:
  "\<exists>r. resolveConfig [sampleManagedSource] = Inr r \<and>
     pdOutcome (evaluate samplePlatform (Network ''GET'' ''https'' ''h'' 443 ''https://h/'')
       (sampleContext\<lparr>cxProfile := P_yolo, cxManagedPolicy := raManagedPolicy (authorityFromConfig r)\<rparr>)) = Eff Deny"
proof -
  obtain r where r: "resolveConfig [sampleManagedSource] = Inr r" using resolved_exists by blast
  from config_deny_enforced[OF r, of sampleManagedSource] r show ?thesis
    by (simp add: sampleManagedSource_def emptyDoc_def)
qed

text \<open>An administrator denies the host \<^verbatim>\<open>h\<close>; a request to it is decided as without the entry.\<close>

definition hostDenySource :: configSource where
  "hostDenySource = \<lparr>csId = ''managed'', csScope = Scope_managed, csConfig = emptyDoc\<lparr>cdDeny := Some [''h'']\<rparr>,
     csOrigin = Origin_file ''/etc/qwen-harness/managed.json''\<rparr>"

lemma deny_entries_are_paths_only_witness:
  "\<exists>r. resolveConfig [hostDenySource] = Inr r \<and> ''h'' \<in> set (rdValue (rcDeny r)) \<and>
     evaluate samplePlatform (Network ''GET'' ''https'' ''h'' 443 ''https://h/'')
       (sampleContext\<lparr>cxProfile := P_yolo, cxManagedPolicy := raManagedPolicy (authorityFromConfig r)\<rparr>) =
     evaluate samplePlatform (Network ''GET'' ''https'' ''h'' 443 ''https://h/'')
       (sampleContext\<lparr>cxProfile := P_yolo, cxManagedPolicy := raManagedPolicy (authorityFromConfig (withoutDenies r))\<rparr>)"
proof -
  obtain r where r: "resolveConfig [hostDenySource] = Inr r" using resolved_exists by blast
  have "''h'' \<in> set (rdValue (rcDeny r))"
    unfolding resolveConfig_deny[OF r] by (simp add: denyOf_def hostDenySource_def emptyDoc_def)
  moreover have "cxManagedPolicy (sampleContext\<lparr>cxProfile := P_yolo, cxManagedPolicy := raManagedPolicy (authorityFromConfig r)\<rparr>) =
      raManagedPolicy (authorityFromConfig r)" by simp
  moreover have "actionPaths (Network ''GET'' ''https'' ''h'' 443 ''https://h/'') = []" by simp
  ultimately show ?thesis
    using deny_entries_are_paths_only[of "sampleContext\<lparr>cxProfile := P_yolo, cxManagedPolicy := raManagedPolicy (authorityFromConfig r)\<rparr>" r
        "Network ''GET'' ''https'' ''h'' 443 ''https://h/''" samplePlatform] r by auto
qed

lemma sampleIo_env: "\<exists>s. loadEnvSource sampleIo = Inr (Some s) \<and> cdModel (csConfig s) = Some ''qwen''"
  by (simp add: loadEnvSource_def sampleIo_def ENV_ALLOWLIST_def setString_def involvedVariables_def parseConfigDoc_def
      strictFields_def CONFIG_FIELDS_def optField_def parseString_def)

lemma loaded_config_wellformed_witness:
  "\<exists>r. loadResolvedConfig sampleIo samplePaths None = Inr r \<and> resolvedOk r"
proof -
  have "\<exists>sources. loadConfigSources sampleIo samplePaths None = Inr sources"
    using sampleIo_env by (auto simp: loadConfigSources_def loadConfigFile_def readIfPresent_def) (simp add: sampleIo_def)
  then obtain sources where s: "loadConfigSources sampleIo samplePaths None = Inr sources" by blast
  obtain r where "resolveConfig sources = Inr r" using resolved_exists by blast
  with s have "loadResolvedConfig sampleIo samplePaths None = Inr r" by (simp add: loadResolvedConfig_def)
  with loaded_config_wellformed[OF this] show ?thesis by blast
qed

lemma env_sets_no_ceiling_witness:
  "\<exists>s. loadEnvSource sampleIo = Inr (Some s) \<and> cdModel (csConfig s) = Some ''qwen'' \<and> cdDeny (csConfig s) = None"
  using sampleIo_env env_sets_no_ceiling[of sampleIo] by blast

lemma migration_idempotent_witness:
  "\<exists>m. migrateConfig (JsObj [(''profile'', JsStr ''plan''), (''apiKey'', JsStr ''sk-1'')]) = Inr m \<and>
     map_of (mrConfig m) ''permissionProfile'' = Some (JsStr ''plan'') \<and> map_of (mrConfig m) ''apiKey'' = None"
proof -
  let ?fs = "[(''profile'', JsStr ''plan''), (''apiKey'', JsStr ''sk-1'')]"
  obtain m where m: "migrateConfig (JsObj ?fs) = Inr m" "mrFromVersion m = 0"
    by (cases "upV1 ?fs []") (simp add: migrateConfig_def readConfigVersion_def max_known migrateLoop_0)
  with migration_idempotent[OF m(1)] show ?thesis by (auto simp: movedTo_def hasKey_def)
qed


end
