(* ===== verification/Memory_Lock.thy ===== *)
theory Memory_Lock
  imports Prelude
begin

text \<open>
  \<^verbatim>\<open>packages/memory/src/lock.ts\<close>: the lease-based lock file and the atomic write. Several writers, in one
  process or in many, are numbered; the code of each is cut at its awaits, so that a step performs one
  operation of the file system and the code up to the next one. A directory entry names an inode: a writer that
  has the file open goes on writing to its inode when another one has removed the entry.
\<close>

subsection \<open>The lock file\<close>

record lockRecord =
  lrHolder :: string
  lrAcquiredAt :: int
  lrLeaseExpiresAt :: int

text \<open>The text of a lock file: empty when it was just created, something else that is no JSON, or a record.\<close>

datatype lockText = Lk_empty | Lk_garbage | Lk_record lockRecord

record acquireOptions =
  aoHolder :: string
  aoLeaseMs :: int
  aoTimeoutMs :: int
  aoRetryMs :: int

text \<open>Where a writer is: in \<^verbatim>\<open>acquire\<close>, with the lock, in \<^verbatim>\<open>renew\<close> or in \<^verbatim>\<open>release\<close>.\<close>

datatype lockPc =
    Pc_idle
  | Pc_mkdir
  | Pc_open lockRecord
  | Pc_write nat lockRecord
  | Pc_close nat lockRecord
  | Pc_check int
  | Pc_remove
  | Pc_sleep int
  | Pc_held int
  | Pc_timed_out
  | Pc_renew_read int
  | Pc_renew_open int lockRecord
  | Pc_renew_write nat lockRecord
  | Pc_lost
  | Pc_release_read
  | Pc_release_remove
  | Pc_released

record lockWorld =
  lwEntry :: "nat option"
  lwInode :: "nat \<Rightarrow> lockText"
  lwNext :: nat
  lwNow :: int
  lwPc :: "nat \<Rightarrow> lockPc"
  lwDeadline :: "nat \<Rightarrow> int"
  lwSteals :: nat

definition goto :: "nat \<Rightarrow> lockPc \<Rightarrow> lockWorld \<Rightarrow> lockWorld" where
  "goto p pc w = w\<lparr>lwPc := (lwPc w)(p := pc)\<rparr>"

text \<open>The text behind the entry, if there is one.\<close>

definition lockFile :: "lockWorld \<Rightarrow> lockText option" where
  "lockFile w = map_option (lwInode w) (lwEntry w)"

definition createFile :: "lockWorld \<Rightarrow> lockWorld" where
  "createFile w = w\<lparr>lwEntry := Some (lwNext w), lwInode := (lwInode w)(lwNext w := Lk_empty), lwNext := lwNext w + 1\<rparr>"

definition freshRecord :: "acquireOptions \<Rightarrow> lockWorld \<Rightarrow> lockRecord" where
  "freshRecord opts w = \<lparr>lrHolder = aoHolder opts, lrAcquiredAt = lwNow w, lrLeaseExpiresAt = lwNow w + aoLeaseMs opts\<rparr>"

definition isStaleFile :: "lockText option \<Rightarrow> int \<Rightarrow> bool" where
  "isStaleFile f now = (case f of Some (Lk_record r) \<Rightarrow> lrLeaseExpiresAt r \<le> now | _ \<Rightarrow> True)"

subsection \<open>One step of a writer\<close>

definition stepOpen :: "nat \<Rightarrow> lockRecord \<Rightarrow> lockWorld \<Rightarrow> lockWorld" where
  "stepOpen p r w =
     (case lwEntry w of
        Some i \<Rightarrow> goto p (Pc_check (lwNow w)) w
      | None \<Rightarrow> goto p (Pc_write (lwNext w) r) (createFile w))"

definition stepCheck :: "acquireOptions \<Rightarrow> nat \<Rightarrow> int \<Rightarrow> lockWorld \<Rightarrow> lockWorld" where
  "stepCheck opts p now w =
     (if isStaleFile (lockFile w) now then goto p Pc_remove w
      else if lwDeadline w p \<le> lwNow w then goto p Pc_timed_out w
      else goto p (Pc_sleep (lwNow w + aoRetryMs opts)) w)"

definition stepRenewRead :: "acquireOptions \<Rightarrow> nat \<Rightarrow> int \<Rightarrow> lockWorld \<Rightarrow> lockWorld" where
  "stepRenewRead opts p lease w =
     (case lockFile w of
        Some (Lk_record r) \<Rightarrow> if lrHolder r \<noteq> aoHolder opts then goto p Pc_lost w
        else goto p (Pc_renew_open lease ((freshRecord opts w)\<lparr>lrAcquiredAt := lrAcquiredAt r\<rparr>)) w
      | _ \<Rightarrow> goto p Pc_lost w)"

text \<open>Opening for a plain overwrite truncates the file, or creates it when it is gone.\<close>

definition stepRenewOpen :: "nat \<Rightarrow> lockRecord \<Rightarrow> lockWorld \<Rightarrow> lockWorld" where
  "stepRenewOpen p r w =
     (case lwEntry w of
        Some i \<Rightarrow> goto p (Pc_renew_write i r) (w\<lparr>lwInode := (lwInode w)(i := Lk_empty)\<rparr>)
      | None \<Rightarrow> goto p (Pc_renew_write (lwNext w) r) (createFile w))"

definition stepReleaseRead :: "acquireOptions \<Rightarrow> nat \<Rightarrow> lockWorld \<Rightarrow> lockWorld" where
  "stepReleaseRead opts p w =
     (case lockFile w of
        Some (Lk_record r) \<Rightarrow> if lrHolder r = aoHolder opts then goto p Pc_release_remove w else goto p Pc_released w
      | _ \<Rightarrow> goto p Pc_released w)"

definition lockStep :: "(nat \<Rightarrow> acquireOptions) \<Rightarrow> nat \<Rightarrow> lockWorld \<Rightarrow> lockWorld" where
  "lockStep cfg p w =
     (case lwPc w p of
        Pc_mkdir \<Rightarrow> goto p (Pc_open (freshRecord (cfg p) w)) w
      | Pc_open r \<Rightarrow> stepOpen p r w
      | Pc_write i r \<Rightarrow> goto p (Pc_close i r) (w\<lparr>lwInode := (lwInode w)(i := Lk_record r)\<rparr>)
      | Pc_close i r \<Rightarrow> goto p (Pc_held (lrLeaseExpiresAt r)) w
      | Pc_check now \<Rightarrow> stepCheck (cfg p) p now w
      | Pc_remove \<Rightarrow>
          goto p (Pc_open (freshRecord (cfg p) w))
            (w\<lparr>lwEntry := None, lwSteals := lwSteals w + (if lwEntry w = None then 0 else 1)\<rparr>)
      | Pc_sleep until \<Rightarrow> if until \<le> lwNow w then goto p (Pc_open (freshRecord (cfg p) w)) w else w
      | Pc_renew_read lease \<Rightarrow> stepRenewRead (cfg p) p lease w
      | Pc_renew_open lease r \<Rightarrow> stepRenewOpen p r w
      | Pc_renew_write i r \<Rightarrow>
          goto p (Pc_held (lrLeaseExpiresAt r)) (w\<lparr>lwInode := (lwInode w)(i := Lk_record r)\<rparr>)
      | Pc_release_read \<Rightarrow> stepReleaseRead (cfg p) p w
      | Pc_release_remove \<Rightarrow> goto p Pc_released (w\<lparr>lwEntry := None\<rparr>)
      | _ \<Rightarrow> w)"

text \<open>A call is possible where the code allows it; a new lock object starts idle.\<close>

datatype lockEvent = Ev_tick nat | Ev_step nat | Ev_acquire nat | Ev_renew nat | Ev_release nat

definition callAcquire :: "(nat \<Rightarrow> acquireOptions) \<Rightarrow> nat \<Rightarrow> lockWorld \<Rightarrow> lockWorld" where
  "callAcquire cfg p w =
     (if lwPc w p = Pc_idle
      then goto p Pc_mkdir (w\<lparr>lwDeadline := (lwDeadline w)(p := lwNow w + aoTimeoutMs (cfg p))\<rparr>) else w)"

definition callRenew :: "nat \<Rightarrow> lockWorld \<Rightarrow> lockWorld" where
  "callRenew p w = (case lwPc w p of Pc_held lease \<Rightarrow> goto p (Pc_renew_read lease) w | _ \<Rightarrow> w)"

definition callRelease :: "nat \<Rightarrow> lockWorld \<Rightarrow> lockWorld" where
  "callRelease p w = (case lwPc w p of Pc_held lease \<Rightarrow> goto p Pc_release_read w | Pc_lost \<Rightarrow> goto p Pc_release_read w | _ \<Rightarrow> w)"

fun lockEventStep :: "(nat \<Rightarrow> acquireOptions) \<Rightarrow> lockEvent \<Rightarrow> lockWorld \<Rightarrow> lockWorld" where
  "lockEventStep cfg (Ev_tick n) w = w\<lparr>lwNow := lwNow w + int n\<rparr>"
| "lockEventStep cfg (Ev_step p) w = lockStep cfg p w"
| "lockEventStep cfg (Ev_acquire p) w = callAcquire cfg p w"
| "lockEventStep cfg (Ev_renew p) w = callRenew p w"
| "lockEventStep cfg (Ev_release p) w = callRelease p w"

definition runLock :: "(nat \<Rightarrow> acquireOptions) \<Rightarrow> lockEvent list \<Rightarrow> lockWorld \<Rightarrow> lockWorld" where
  "runLock cfg evs w = fold (lockEventStep cfg) evs w"

definition freshLockWorld :: "int \<Rightarrow> lockWorld" where
  "freshLockWorld now = \<lparr>lwEntry = None, lwInode = (\<lambda>_. Lk_empty), lwNext = 0, lwNow = now, lwPc = (\<lambda>_. Pc_idle),
     lwDeadline = (\<lambda>_. 0), lwSteals = 0\<rparr>"

text \<open>The code between a successful \<^verbatim>\<open>acquire\<close> and \<^verbatim>\<open>release\<close>, renewals included.\<close>

fun holding :: "lockPc \<Rightarrow> bool" where
  "holding (Pc_held l) = True"
| "holding (Pc_renew_read l) = True"
| "holding (Pc_renew_open l a) = True"
| "holding (Pc_renew_write i r) = True"
| "holding _ = False"

subsection \<open>The atomic write\<close>

text \<open>
  The states of the disk that a crash can leave are those between two operations; the hook may throw, and then
  the temporary file is removed.
\<close>

type_synonym disk = "string \<Rightarrow> string option"

definition atomicWriteStates :: "string \<Rightarrow> string \<Rightarrow> string \<Rightarrow> bool \<Rightarrow> disk \<Rightarrow> disk list \<times> bool" where
  "atomicWriteStates path tmp data hookThrows d0 =
     (let d1 = d0(tmp \<mapsto> ''''); d2 = d1(tmp \<mapsto> data) in
      if hookThrows then ([d0, d1, d2, d2(tmp := None)], False)
      else ([d0, d1, d2, (d2(tmp := None))(path \<mapsto> data)], True))"

section \<open>What the lock guarantees\<close>

text \<open>
  What the lock guarantees and what it does not. As long as no writer removes a lock that it takes for stale,
  at most one holds it. But a lock file is empty between its creation and its first write, and an empty file is
  taken for stale: two writers that start together can both get the lock, with no lease expired. And a writer
  whose lock was taken over by one of the same name does not notice.
\<close>

subsection \<open>Exclusion without take-over\<close>

fun owner :: "lockPc \<Rightarrow> bool" where
  "owner (Pc_write i r) = True"
| "owner (Pc_close i r) = True"
| "owner (Pc_held l) = True"
| "owner (Pc_renew_read l) = True"
| "owner (Pc_renew_open l a) = True"
| "owner (Pc_renew_write i r) = True"
| "owner Pc_release_read = True"
| "owner Pc_release_remove = True"
| "owner _ = False"

lemma holding_owner: "holding pc \<Longrightarrow> owner pc"
  by (cases pc) auto

fun ownsFile :: "string \<Rightarrow> nat \<Rightarrow> lockText \<Rightarrow> lockPc \<Rightarrow> bool" where
  "ownsFile h i t (Pc_write j r) = (j = i \<and> lrHolder r = h \<and> t = Lk_empty)"
| "ownsFile h i t (Pc_renew_open l r) = (lrHolder r = h \<and> (case t of Lk_record r' \<Rightarrow> lrHolder r' = h | _ \<Rightarrow> False))"
| "ownsFile h i t (Pc_renew_write j r) = (j = i \<and> lrHolder r = h)"
| "ownsFile h i t _ = (case t of Lk_record r \<Rightarrow> lrHolder r = h | _ \<Rightarrow> False)"

definition ownedBy :: "(nat \<Rightarrow> acquireOptions) \<Rightarrow> lockWorld \<Rightarrow> nat \<Rightarrow> bool" where
  "ownedBy cfg w p \<longleftrightarrow> (\<exists>i. lwEntry w = Some i \<and> ownsFile (aoHolder (cfg p)) i (lwInode w i) (lwPc w p))"

definition lockInv :: "(nat \<Rightarrow> acquireOptions) \<Rightarrow> lockWorld \<Rightarrow> bool" where
  "lockInv cfg w \<longleftrightarrow>
     (\<forall>p. owner (lwPc w p) \<longrightarrow> ownedBy cfg w p \<and> (\<forall>q. owner (lwPc w q) \<longrightarrow> q = p)) \<and>
     (\<forall>p. lwPc w p \<noteq> Pc_lost) \<and> (\<forall>p r. lwPc w p = Pc_open r \<longrightarrow> lrHolder r = aoHolder (cfg p))"

lemma inv_owned: "lockInv cfg w \<Longrightarrow> owner (lwPc w p) \<Longrightarrow> ownedBy cfg w p"
  by (simp add: lockInv_def)

lemma goto_simps [simp]:
  "lwPc (goto p pc w) = (lwPc w)(p := pc)" "lwEntry (goto p pc w) = lwEntry w" "lwInode (goto p pc w) = lwInode w"
  "lwSteals (goto p pc w) = lwSteals w" "lwNow (goto p pc w) = lwNow w" "lwNext (goto p pc w) = lwNext w"
  "lwDeadline (goto p pc w) = lwDeadline w" "lockFile (goto p pc w) = lockFile w"
  by (simp_all add: goto_def lockFile_def)

lemma freshRecord_holder [simp]: "lrHolder (freshRecord opts w) = aoHolder opts"
  by (simp add: freshRecord_def)

text \<open>A step of a writer without the lock that leaves the file alone, and one of the writer with the lock.\<close>

lemma inv_bystander:
  assumes "lockInv cfg w" "\<not> owner pc" "pc \<noteq> Pc_lost" "\<And>r. pc = Pc_open r \<Longrightarrow> lrHolder r = aoHolder (cfg p)"
    and "\<not> owner (lwPc w p)" "lwEntry w' = lwEntry w" "lwInode w' = lwInode w" "lwPc w' = (lwPc w)(p := pc)"
  shows "lockInv cfg w'"
proof -
  have "ownedBy cfg w' q" if "q \<noteq> p" "ownedBy cfg w q" for q using that assms(6-8) by (simp add: ownedBy_def)
  then show ?thesis using assms unfolding lockInv_def by (auto split: if_splits)
qed

lemma inv_owner:
  assumes "lockInv cfg w" "owner (lwPc w p) \<or> lwEntry w = None" "lwPc w' = (lwPc w)(p := pc)"
    and "owner pc \<Longrightarrow> ownedBy cfg w' p" "pc \<noteq> Pc_lost" "\<And>r. pc = Pc_open r \<Longrightarrow> lrHolder r = aoHolder (cfg p)"
  shows "lockInv cfg w'"
proof -
  have others: "\<not> owner (lwPc w q)" if "q \<noteq> p" for q
    using assms(1,2) that unfolding lockInv_def ownedBy_def by (metis option.distinct(1))
  show ?thesis using assms(1,4-6) others unfolding lockInv_def by (auto simp: assms(3))
qed

lemma step_steals: "lwSteals w \<le> lwSteals (lockEventStep cfg e w)"
  by (cases e) (auto simp: lockStep_def stepOpen_def stepCheck_def stepRenewRead_def stepRenewOpen_def stepReleaseRead_def
      createFile_def callAcquire_def callRenew_def callRelease_def split: lockPc.split option.split lockText.split)

lemma owned_record:
  "lockInv cfg w \<Longrightarrow> lwPc w p \<in> {Pc_held l, Pc_renew_read l, Pc_renew_open l a, Pc_release_read, Pc_release_remove, Pc_close i r} \<Longrightarrow>
   \<exists>j r'. lwEntry w = Some j \<and> lwInode w j = Lk_record r' \<and> lrHolder r' = aoHolder (cfg p)"
  unfolding lockInv_def ownedBy_def by (elim conjE, drule spec[of _ p]) (auto split: lockText.splits)

lemma lockStep_inv:
  assumes "lockInv cfg w" "lwSteals (lockStep cfg p w) = lwSteals w"
  shows "lockInv cfg (lockStep cfg p w)"
proof (cases "lwPc w p")
  case Pc_mkdir
  then show ?thesis by (intro inv_bystander[OF assms(1), of _ p]) (auto simp: lockStep_def)
next
  case (Pc_open r)
  show ?thesis
  proof (cases "lwEntry w")
    case None
    have "lrHolder r = aoHolder (cfg p)" using assms(1) Pc_open by (auto simp: lockInv_def)
    with None show ?thesis using Pc_open
      by (intro inv_owner[OF assms(1), of p _ "Pc_write (lwNext w) r"]) (auto simp: lockStep_def stepOpen_def createFile_def ownedBy_def)
  next
    case (Some i)
    with Pc_open show ?thesis
      by (intro inv_bystander[OF assms(1), of "Pc_check (lwNow w)" p]) (auto simp: lockStep_def stepOpen_def)
  qed
next
  case (Pc_write i r)
  have "lwEntry w = Some i" "lrHolder r = aoHolder (cfg p)" using inv_owned[OF assms(1), of p] Pc_write by (auto simp: ownedBy_def)
  with Pc_write show ?thesis
    by (intro inv_owner[OF assms(1), of p _ "Pc_close i r"]) (auto simp: lockStep_def ownedBy_def)
next
  case (Pc_close i r)
  with owned_record[OF assms(1), of p] show ?thesis
    by (intro inv_owner[OF assms(1), of p _ "Pc_held (lrLeaseExpiresAt r)"]) (auto simp: lockStep_def ownedBy_def)
next
  case (Pc_check now)
  show ?thesis
  proof (cases "isStaleFile (lockFile w) now")
    case True
    with Pc_check show ?thesis by (intro inv_bystander[OF assms(1), of Pc_remove p]) (auto simp: lockStep_def stepCheck_def)
  next
    case False
    with Pc_check show ?thesis
      by (intro inv_bystander[OF assms(1), of "if lwDeadline w p \<le> lwNow w then Pc_timed_out else Pc_sleep (lwNow w + aoRetryMs (cfg p))" p])
        (auto simp: lockStep_def stepCheck_def split: if_splits)
  qed
next
  case Pc_remove
  with assms(2) have "lwEntry w = None" by (auto simp: lockStep_def split: if_splits)
  with Pc_remove show ?thesis
    by (intro inv_bystander[OF assms(1), of "Pc_open (freshRecord (cfg p) w)" p]) (auto simp: lockStep_def)
next
  case (Pc_sleep t)
  show ?thesis
  proof (cases "t \<le> lwNow w")
    case True
    with Pc_sleep show ?thesis
      by (intro inv_bystander[OF assms(1), of "Pc_open (freshRecord (cfg p) w)" p]) (auto simp: lockStep_def)
  qed (use assms(1) Pc_sleep in \<open>simp add: lockStep_def\<close>)
next
  case (Pc_renew_read l)
  with owned_record[OF assms(1), of p l] obtain j r where "lwEntry w = Some j" "lwInode w j = Lk_record r" "lrHolder r = aoHolder (cfg p)"
    by auto
  with Pc_renew_read show ?thesis
    by (intro inv_owner[OF assms(1), of p _ "Pc_renew_open l ((freshRecord (cfg p) w)\<lparr>lrAcquiredAt := lrAcquiredAt r\<rparr>)"])
      (auto simp: lockStep_def stepRenewRead_def lockFile_def ownedBy_def)
next
  case (Pc_renew_open l r)
  with inv_owned[OF assms(1), of p] obtain j where "lwEntry w = Some j" "lrHolder r = aoHolder (cfg p)"
    by (auto simp: ownedBy_def)
  with Pc_renew_open show ?thesis
    by (intro inv_owner[OF assms(1), of p _ "Pc_renew_write j r"]) (auto simp: lockStep_def stepRenewOpen_def ownedBy_def)
next
  case (Pc_renew_write i r)
  have "lwEntry w = Some i" "lrHolder r = aoHolder (cfg p)" using inv_owned[OF assms(1), of p] Pc_renew_write by (auto simp: ownedBy_def)
  with Pc_renew_write show ?thesis
    by (intro inv_owner[OF assms(1), of p _ "Pc_held (lrLeaseExpiresAt r)"]) (auto simp: lockStep_def ownedBy_def)
next
  case Pc_release_read
  with owned_record[OF assms(1), of p] obtain j r where "lwEntry w = Some j" "lwInode w j = Lk_record r" "lrHolder r = aoHolder (cfg p)"
    by auto
  with Pc_release_read show ?thesis
    by (intro inv_owner[OF assms(1), of p _ Pc_release_remove]) (auto simp: lockStep_def stepReleaseRead_def lockFile_def ownedBy_def)
next
  case Pc_release_remove
  then show ?thesis by (intro inv_owner[OF assms(1), of p _ Pc_released]) (auto simp: lockStep_def)
qed (use assms(1) in \<open>simp_all add: lockStep_def\<close>)

lemma event_inv:
  assumes "lockInv cfg w" "lwSteals (lockEventStep cfg e w) = lwSteals w"
  shows "lockInv cfg (lockEventStep cfg e w)"
proof (cases e)
  case (Ev_tick n)
  have "ownedBy cfg (w\<lparr>lwNow := lwNow w + int n\<rparr>) p = ownedBy cfg w p" for p by (simp add: ownedBy_def)
  then show ?thesis using assms(1) Ev_tick by (simp add: lockInv_def)
next
  case (Ev_step p) with lockStep_inv assms show ?thesis by simp
next
  case (Ev_acquire p)
  show ?thesis
  proof (cases "lwPc w p = Pc_idle")
    case True
    with Ev_acquire show ?thesis by (intro inv_bystander[OF assms(1), of Pc_mkdir p]) (auto simp: callAcquire_def)
  qed (use assms(1) Ev_acquire in \<open>simp add: callAcquire_def\<close>)
next
  case (Ev_renew p)
  show ?thesis
  proof (cases "\<exists>l. lwPc w p = Pc_held l")
    case True
    then obtain l where l: "lwPc w p = Pc_held l" by blast
    with owned_record[OF assms(1), of p l] Ev_renew show ?thesis
      by (intro inv_owner[OF assms(1), of p _ "Pc_renew_read l"]) (auto simp: callRenew_def ownedBy_def)
  qed (use assms(1) Ev_renew in \<open>simp add: callRenew_def split: lockPc.split\<close>)
next
  case (Ev_release p)
  show ?thesis
  proof (cases "\<exists>l. lwPc w p = Pc_held l")
    case True
    then obtain l where l: "lwPc w p = Pc_held l" by blast
    with owned_record[OF assms(1), of p l] Ev_release show ?thesis
      by (intro inv_owner[OF assms(1), of p _ Pc_release_read]) (auto simp: callRelease_def ownedBy_def)
  next
    case False
    moreover have "lwPc w p \<noteq> Pc_lost" using assms(1) by (simp add: lockInv_def)
    ultimately have "callRelease p w = w" by (cases "lwPc w p") (auto simp: callRelease_def)
    then show ?thesis using assms(1) Ev_release by simp
  qed
qed

lemma run_steals: "lwSteals w \<le> lwSteals (runLock cfg evs w)"
  by (induction evs arbitrary: w) (auto simp: runLock_def intro: order.trans[OF step_steals])

lemma run_inv: "lockInv cfg w \<Longrightarrow> lwSteals (runLock cfg evs w) = lwSteals w \<Longrightarrow> lockInv cfg (runLock cfg evs w)"
proof (induction evs arbitrary: w)
  case (Cons e evs)
  let ?w = "lockEventStep cfg e w"
  have run: "runLock cfg (e # evs) w = runLock cfg evs ?w" by (simp add: runLock_def)
  have "lwSteals ?w = lwSteals w" "lwSteals (runLock cfg evs ?w) = lwSteals ?w"
    using step_steals[of w cfg e] run_steals[of ?w cfg evs] Cons.prems(2) unfolding run by linarith+
  then show ?case using Cons.IH[of ?w] event_inv[OF Cons.prems(1)] unfolding run by blast
qed (simp add: runLock_def)

lemma fresh_inv: "lockInv cfg (freshLockWorld now)"
  by (simp add: lockInv_def freshLockWorld_def)

lemma fresh_steals: "lwSteals (freshLockWorld now) = 0"
  by (simp add: freshLockWorld_def)

text \<open>
  C12: Whatever writers do and however their steps interleave, renewals and releases included, at most one holds
  the lock, unless a writer has removed a lock file that it took for stale.
\<close>
theorem lock_exclusive_unless_stolen:
  assumes "lwSteals (runLock cfg evs (freshLockWorld now)) = 0"
    and "holding (lwPc (runLock cfg evs (freshLockWorld now)) p)" "holding (lwPc (runLock cfg evs (freshLockWorld now)) q)"
  shows "p = q"
proof -
  have "lockInv cfg (runLock cfg evs (freshLockWorld now))" using fresh_inv run_inv assms(1) by (metis fresh_steals)
  then show ?thesis using assms(2,3)[THEN holding_owner] unfolding lockInv_def by blast
qed

subsection \<open>Where exclusion fails\<close>

text \<open>The second writer takes over an expired lock; then the first one renews and releases.\<close>

definition takeOver :: "int \<Rightarrow> lockEvent list" where
  "takeOver lease = [Ev_acquire 0, Ev_step 0, Ev_step 0, Ev_step 0, Ev_step 0, Ev_tick (nat lease),
     Ev_acquire 1, Ev_step 1, Ev_step 1, Ev_step 1, Ev_step 1, Ev_step 1, Ev_step 1, Ev_step 1]"

definition renewAndRelease :: "lockEvent list" where
  "renewAndRelease = [Ev_renew 0, Ev_step 0, Ev_step 0, Ev_step 0, Ev_release 0, Ev_step 0, Ev_step 0]"

lemma first_acquire:
  "runLock cfg [Ev_acquire 0, Ev_step 0, Ev_step 0, Ev_step 0, Ev_step 0] (freshLockWorld now) =
   \<lparr>lwEntry = Some 0, lwInode = (\<lambda>_. Lk_empty)(0 := Lk_record (freshRecord (cfg 0) (freshLockWorld now))), lwNext = 1, lwNow = now,
     lwPc = (\<lambda>_. Pc_idle)(0 := Pc_held (now + aoLeaseMs (cfg 0))), lwDeadline = (\<lambda>_. 0)(0 := now + aoTimeoutMs (cfg 0)), lwSteals = 0\<rparr>"
  by (simp add: runLock_def freshLockWorld_def callAcquire_def lockStep_def stepOpen_def createFile_def goto_def freshRecord_def)

lemma lockStep_at:
  "lwPc w p = Pc_mkdir \<Longrightarrow> lockStep cfg p w = goto p (Pc_open (freshRecord (cfg p) w)) w"
  "lwPc w p = Pc_open r \<Longrightarrow> lwEntry w = None \<Longrightarrow> lockStep cfg p w = goto p (Pc_write (lwNext w) r) (createFile w)"
  "lwPc w p = Pc_open r \<Longrightarrow> lwEntry w = Some i \<Longrightarrow> lockStep cfg p w = goto p (Pc_check (lwNow w)) w"
  "lwPc w p = Pc_check n \<Longrightarrow> isStaleFile (lockFile w) n \<Longrightarrow> lockStep cfg p w = goto p Pc_remove w"
  "lwPc w p = Pc_remove \<Longrightarrow> lockStep cfg p w = goto p (Pc_open (freshRecord (cfg p) w))
    (w\<lparr>lwEntry := None, lwSteals := lwSteals w + (if lwEntry w = None then 0 else 1)\<rparr>)"
  "lwPc w p = Pc_write i r \<Longrightarrow> lockStep cfg p w = goto p (Pc_close i r) (w\<lparr>lwInode := (lwInode w)(i := Lk_record r)\<rparr>)"
  "lwPc w p = Pc_close i r \<Longrightarrow> lockStep cfg p w = goto p (Pc_held (lrLeaseExpiresAt r)) w"
  "lwPc w p = Pc_renew_read l \<Longrightarrow> lockFile w = Some (Lk_record r) \<Longrightarrow> lrHolder r = aoHolder (cfg p) \<Longrightarrow>
    lockStep cfg p w = goto p (Pc_renew_open l ((freshRecord (cfg p) w)\<lparr>lrAcquiredAt := lrAcquiredAt r\<rparr>)) w"
  "lwPc w p = Pc_renew_open l r \<Longrightarrow> lwEntry w = Some i \<Longrightarrow>
    lockStep cfg p w = goto p (Pc_renew_write i r) (w\<lparr>lwInode := (lwInode w)(i := Lk_empty)\<rparr>)"
  "lwPc w p = Pc_renew_write i r \<Longrightarrow>
    lockStep cfg p w = goto p (Pc_held (lrLeaseExpiresAt r)) (w\<lparr>lwInode := (lwInode w)(i := Lk_record r)\<rparr>)"
  "lwPc w p = Pc_release_read \<Longrightarrow> lockFile w = Some (Lk_record r) \<Longrightarrow> lrHolder r = aoHolder (cfg p) \<Longrightarrow>
    lockStep cfg p w = goto p Pc_release_remove w"
  "lwPc w p = Pc_release_remove \<Longrightarrow> lockStep cfg p w = goto p Pc_released (w\<lparr>lwEntry := None\<rparr>)"
  by (simp_all add: lockStep_def stepOpen_def stepCheck_def stepRenewRead_def stepRenewOpen_def stepReleaseRead_def)

text \<open>
  One writer p has created the lock file and not yet written it, and another one, q, starts: it looks at the
  file, p goes on, and q removes the file and creates its own.
\<close>

definition emptyFileRace :: "nat \<Rightarrow> nat \<Rightarrow> lockEvent list" where
  "emptyFileRace p q = [Ev_acquire q, Ev_step q, Ev_step q, Ev_step q, Ev_step p, Ev_step p,
     Ev_step q, Ev_step q, Ev_step q, Ev_step q]"

lemma runLock_steps:
  "runLock cfg [] w = w" "runLock cfg (e # evs) w = runLock cfg evs (lockEventStep cfg e w)"
  by (simp_all add: runLock_def)

lemma race_schedule:
  assumes "lwEntry w = Some i" "lwInode w i = Lk_empty" "lwPc w p = Pc_write i r" "lwPc w q = Pc_idle" "p \<noteq> q"
    and w': "w' = runLock cfg (emptyFileRace p q) w"
  shows "lwPc w' p = Pc_held (lrLeaseExpiresAt r) \<and> lwPc w' q = Pc_held (lwNow w + aoLeaseMs (cfg q)) \<and> lwNow w' = lwNow w"
  using assms(1-5) assms(5) [symmetric] unfolding w'
  by (simp add: emptyFileRace_def runLock_steps callAcquire_def lockStep_at createFile_def lockFile_def isStaleFile_def freshRecord_def)

text \<open>
  C27: Whatever happened before, as long as no lock file was taken for stale: at every moment at which one
  writer has created the lock file and not yet written it, any other writer that starts can come to hold
  the lock together with it. The clock need not move and no lease need expire: the second one finds
  the file still empty, takes it for stale, removes it and creates its own.
\<close>
theorem empty_lock_file_race:
  assumes "w = runLock cfg evs (freshLockWorld now)" "lwSteals w = 0" "lwPc w p = Pc_write i r" "lwPc w q = Pc_idle"
    and "w' = runLock cfg (emptyFileRace p q) w"
  shows "p \<noteq> q \<and> lwPc w' p = Pc_held (lrLeaseExpiresAt r) \<and> lwPc w' q = Pc_held (lwNow w + aoLeaseMs (cfg q)) \<and>
    lwNow w' = lwNow w"
proof -
  have "lockInv cfg w" using fresh_inv run_inv assms(1,2) by (metis fresh_steals)
  from inv_owned[OF this, of p] assms(3) have "lwEntry w = Some i" "lwInode w i = Lk_empty" by (auto simp: ownedBy_def)
  moreover have "p \<noteq> q" using assms(3,4) by auto
  ultimately show ?thesis using race_schedule[OF _ _ assms(3,4) _ assms(5)] by blast
qed

lemma second_acquire:
  assumes "lwEntry w = Some i" "lwInode w i = Lk_record r" "lrLeaseExpiresAt r \<le> lwNow w" "lwPc w 1 = Pc_idle"
    and "w' = runLock cfg [Ev_acquire 1, Ev_step 1, Ev_step 1, Ev_step 1, Ev_step 1, Ev_step 1, Ev_step 1, Ev_step 1] w"
  shows "lwPc w' 0 = lwPc w 0 \<and> lwPc w' 1 = Pc_held (lwNow w + aoLeaseMs (cfg 1)) \<and>
    lockFile w' = Some (Lk_record (freshRecord (cfg 1) w))"
  using assms(1-4) unfolding assms(5)
  by (simp add: runLock_def callAcquire_def lockStep_at createFile_def lockFile_def isStaleFile_def freshRecord_def)

lemma takeOver_state:
  assumes "aoHolder (cfg 0) = aoHolder (cfg 1)" "0 \<le> aoLeaseMs (cfg 0)"
    and "w = runLock cfg (takeOver (aoLeaseMs (cfg 0))) (freshLockWorld now)"
  shows "lwPc w 0 = Pc_held (now + aoLeaseMs (cfg 0))" "\<exists>l. lwPc w 1 = Pc_held l"
    and "\<exists>r. lockFile w = Some (Lk_record r) \<and> lrHolder r = aoHolder (cfg 0)"
proof -
  let ?w1 = "lockEventStep cfg (Ev_tick (nat (aoLeaseMs (cfg 0))))
    (runLock cfg [Ev_acquire 0, Ev_step 0, Ev_step 0, Ev_step 0, Ev_step 0] (freshLockWorld now))"
  have w: "w = runLock cfg [Ev_acquire 1, Ev_step 1, Ev_step 1, Ev_step 1, Ev_step 1, Ev_step 1, Ev_step 1, Ev_step 1] ?w1"
    unfolding assms(3) takeOver_def runLock_def by simp
  have fields: "lwEntry ?w1 = Some 0" "lwInode ?w1 0 = Lk_record (freshRecord (cfg 0) (freshLockWorld now))"
    "lwNow ?w1 = now + aoLeaseMs (cfg 0)" "lwPc ?w1 1 = Pc_idle" "lwPc ?w1 0 = Pc_held (now + aoLeaseMs (cfg 0))"
    unfolding first_acquire using assms(2) by simp_all
  have "lrLeaseExpiresAt (freshRecord (cfg 0) (freshLockWorld now)) \<le> lwNow ?w1"
    unfolding fields(3) by (simp add: freshRecord_def freshLockWorld_def)
  from second_acquire[OF fields(1,2) this fields(4) w]
  show "lwPc w 0 = Pc_held (now + aoLeaseMs (cfg 0))" "\<exists>l. lwPc w 1 = Pc_held l"
    "\<exists>r. lockFile w = Some (Lk_record r) \<and> lrHolder r = aoHolder (cfg 0)"
    using fields(5) assms(1) by simp_all
qed

lemma renewAndRelease_effect:
  assumes "lwPc w 0 = Pc_held l" "lwPc w 1 = Pc_held l'" "lockFile w = Some (Lk_record r)" "lrHolder r = aoHolder (cfg 0)"
  shows "holding (lwPc (runLock cfg (take 4 renewAndRelease) w) 0)" "holding (lwPc (runLock cfg (take 4 renewAndRelease) w) 1)"
    and "holding (lwPc (runLock cfg renewAndRelease w) 1)" "lockFile (runLock cfg renewAndRelease w) = None"
proof -
  from assms(3) obtain i where entry: "lwEntry w = Some i" "lwInode w i = Lk_record r" by (auto simp: lockFile_def)
  note steps = renewAndRelease_def runLock_def callRenew_def callRelease_def lockStep_at lockFile_def freshRecord_def
  show "holding (lwPc (runLock cfg (take 4 renewAndRelease) w) 0)" using assms entry by (simp add: steps)
  show "holding (lwPc (runLock cfg (take 4 renewAndRelease) w) 1)" using assms entry by (simp add: steps)
  show "holding (lwPc (runLock cfg renewAndRelease w) 1)" using assms entry by (simp add: steps)
  show "lockFile (runLock cfg renewAndRelease w) = None" using assms entry by (simp add: steps)
qed

text \<open>
  A writer whose expired lock was taken over by another one of the same name renews it as if nothing had
  happened, both hold it, and its release removes the lock of the other: the holder is the only thing that
  \<^verbatim>\<open>renew\<close> and \<^verbatim>\<open>release\<close> compare, and the store and the dream pass always use the same names.
\<close>
theorem same_name_take_over_unnoticed:
  assumes "aoHolder (cfg 0) = aoHolder (cfg 1)" "0 \<le> aoLeaseMs (cfg 0)"
  shows "let w = runLock cfg (takeOver (aoLeaseMs (cfg 0))) (freshLockWorld now);
      w1 = runLock cfg (take 4 renewAndRelease) w; w2 = runLock cfg renewAndRelease w in
    holding (lwPc w1 0) \<and> holding (lwPc w1 1) \<and> holding (lwPc w2 1) \<and> lockFile w2 = None"
  using takeOver_state[OF assms refl] renewAndRelease_effect unfolding Let_def by metis

subsection \<open>The atomic write\<close>

text \<open>
  At every moment of an atomic write, and after a crash at any of them, the file is the old one or the whole
  new one; when it returns normally it is the new one, when the hook throws the old one, and no temporary file
  is left in either case.
\<close>
theorem atomic_write_all_or_nothing:
  assumes "tmp \<noteq> path" "d tmp = None"
  shows "list_all (\<lambda>d'. d' path \<in> {d path, Some data}) (fst (atomicWriteStates path tmp data throws d)) \<and>
    last (fst (atomicWriteStates path tmp data throws d)) = (if throws then d else d(path \<mapsto> data)) \<and>
    snd (atomicWriteStates path tmp data throws d) = (\<not> throws)"
  using assms by (auto simp: atomicWriteStates_def Let_def fun_eq_iff)

subsection \<open>Concrete writers\<close>

definition sampleLock :: "nat \<Rightarrow> acquireOptions" where
  "sampleLock p = \<lparr>aoHolder = ''memory-store'', aoLeaseMs = 300000, aoTimeoutMs = 30000, aoRetryMs = 25\<rparr>"

lemma lock_exclusive_unless_stolen_witness:
  "let w = runLock sampleLock [Ev_acquire 7, Ev_step 7, Ev_step 7, Ev_step 7, Ev_step 7] (freshLockWorld 0) in
   holding (lwPc w 7) \<and> \<not> holding (lwPc w 8)"
proof -
  let ?evs = "[Ev_acquire 7, Ev_step 7, Ev_step 7, Ev_step 7, Ev_step 7]"
  have "lwSteals (runLock sampleLock ?evs (freshLockWorld 0)) = 0" "holding (lwPc (runLock sampleLock ?evs (freshLockWorld 0)) 7)"
    by (simp_all add: runLock_def freshLockWorld_def callAcquire_def lockStep_def stepOpen_def createFile_def goto_def)
  with lock_exclusive_unless_stolen[OF this, of 8] show ?thesis by (auto simp: Let_def)
qed

lemma empty_lock_file_race_witness:
  "let w = runLock sampleLock [Ev_acquire 0, Ev_step 0, Ev_step 0] (freshLockWorld 0) in
   lwPc (runLock sampleLock (emptyFileRace 0 1) w) 0 = Pc_held 300000 \<and>
   lwPc (runLock sampleLock (emptyFileRace 0 1) w) 1 = Pc_held 300000"
proof -
  let ?w = "runLock sampleLock [Ev_acquire 0, Ev_step 0, Ev_step 0] (freshLockWorld 0)"
  have "lwSteals ?w = 0" "lwPc ?w 0 = Pc_write 0 (freshRecord (sampleLock 0) (freshLockWorld 0))" "lwPc ?w 1 = Pc_idle" "lwNow ?w = 0"
    by (simp_all add: runLock_def freshLockWorld_def callAcquire_def lockStep_at createFile_def goto_def freshRecord_def)
  from empty_lock_file_race[OF refl this(1-3) refl] this(4) show ?thesis
    by (simp add: Let_def sampleLock_def freshRecord_def freshLockWorld_def)
qed

lemma same_name_take_over_unnoticed_witness:
  "lockFile (runLock sampleLock renewAndRelease (runLock sampleLock (takeOver 300000) (freshLockWorld 0))) = None"
  using same_name_take_over_unnoticed[of sampleLock 0] by (simp add: sampleLock_def Let_def)

lemma atomic_write_all_or_nothing_witness:
  "last (fst (atomicWriteStates ''a'' ''a.tmp'' ''new'' True [''a'' \<mapsto> ''old''])) = [''a'' \<mapsto> ''old'']"
  using atomic_write_all_or_nothing[of "''a.tmp''" "''a''" "[''a'' \<mapsto> ''old'']" "''new''" True] by simp

end
