(* ===== verification/Memory_Format.thy ===== *)
theory Memory_Format
  imports Policy_Action
begin

text \<open>
  \<^verbatim>\<open>packages/memory/src/frontmatter.ts\<close>, \<^verbatim>\<open>dedup.ts\<close> and \<^verbatim>\<open>index-file.ts\<close>: the document format of a memory, its
  parser and printer, the key that makes two memories the same, and the capped load of the index. The texts of
  the messages that zod writes are left out; an error keeps the file, the line and the fields at fault.
\<close>

definition NL :: char where "NL = CHR 0x0A"

subsection \<open>Memories\<close>

datatype memoryType = T_user | T_feedback | T_project | T_reference

definition MEMORY_TYPES :: "(string \<times> memoryType) list" where
  "MEMORY_TYPES = [(''user'', T_user), (''feedback'', T_feedback), (''project'', T_project), (''reference'', T_reference)]"

fun memoryTypeName :: "memoryType \<Rightarrow> string" where
  "memoryTypeName T_user = ''user''"
| "memoryTypeName T_feedback = ''feedback''"
| "memoryTypeName T_project = ''project''"
| "memoryTypeName T_reference = ''reference''"

record frontmatter =
  mmName :: string
  mmDescription :: string
  mmType :: memoryType

record memory = frontmatter +
  mmBody :: string

definition isSlugChar :: "char \<Rightarrow> bool" where
  "isSlugChar c \<longleftrightarrow> isDigit c \<or> (97 \<le> (of_char c :: nat) \<and> (of_char c :: nat) \<le> 122)"

text \<open>\<^verbatim>\<open>/^[a-z0-9]+(?:-[a-z0-9]+)*$/\<close>: runs of letters and digits with single hyphens between them.\<close>

definition isMemoryName :: "string \<Rightarrow> bool" where
  "isMemoryName n \<longleftrightarrow>
     n \<noteq> [] \<and> length n \<le> 128 \<and> list_all (\<lambda>w. w \<noteq> [] \<and> list_all isSlugChar w) (splitChar (CHR ''-'') n)"

definition isDescription :: "string \<Rightarrow> bool" where
  "isDescription d \<longleftrightarrow> d \<noteq> [] \<and> length d \<le> 500 \<and> NL \<notin> set d \<and> CHR 0x0D \<notin> set d"

text \<open>\<^verbatim>\<open>MemoryFrontmatterSchema.safeParse\<close>: the frontmatter, or the fields at fault.\<close>

definition fieldIssue :: "(string \<times> string) list \<Rightarrow> (string \<Rightarrow> bool) \<Rightarrow> string \<Rightarrow> string list" where
  "fieldIssue raw ok k = (case map_of raw k of Some v \<Rightarrow> if ok v then [] else [k] | None \<Rightarrow> [k])"

definition frontmatterIssues :: "(string \<times> string) list \<Rightarrow> string list" where
  "frontmatterIssues raw =
     fieldIssue raw isMemoryName ''name'' @ fieldIssue raw isDescription ''description'' @
     fieldIssue raw (\<lambda>t. map_of MEMORY_TYPES t \<noteq> None) ''type'' @
     (if list_all (\<lambda>(k, v). k \<in> {''name'', ''description'', ''type''}) raw then [] else [''(root)''])"

definition parseFrontmatter :: "(string \<times> string) list \<Rightarrow> string list + frontmatter" where
  "parseFrontmatter raw =
     (if frontmatterIssues raw \<noteq> [] then Inl (frontmatterIssues raw)
      else Inr \<lparr>mmName = the (map_of raw ''name''), mmDescription = the (map_of raw ''description''),
        mmType = the (map_of MEMORY_TYPES (the (map_of raw ''type'')))\<rparr>)"

datatype formatDetail =
    Fd_missing_fence nat
  | Fd_unterminated nat
  | Fd_not_a_pair string nat
  | Fd_invalid_key string nat
  | Fd_duplicate_key string nat
  | Fd_fields "string list"

record formatError =
  feFile :: string
  feDetail :: formatDetail

subsection \<open>Reading a document\<close>

text \<open>The lines before the closing fence and those after it.\<close>

fun takeFence :: "string list \<Rightarrow> (string list \<times> string list) option" where
  "takeFence [] = None"
| "takeFence (l # ls) =
     (if trim l = ''---'' then Some ([], ls) else map_option (\<lambda>(y, b). (l # y, b)) (takeFence ls))"

definition splitDocument :: "string \<Rightarrow> formatDetail + string \<times> string" where
  "splitDocument t =
     (let lines = splitChar NL t; rest = dropWhile (\<lambda>l. trim l = []) lines; i = length lines - length rest in
      case rest of
        [] \<Rightarrow> Inl (Fd_missing_fence (i + 1))
      | l # ls \<Rightarrow>
          if trim l \<noteq> ''---'' then Inl (Fd_missing_fence (i + 1))
          else (case takeFence ls of
                  None \<Rightarrow> Inl (Fd_unterminated (i + 1))
                | Some (y, b) \<Rightarrow> Inr (joinWith [NL] y, joinWith [NL] b)))"

definition BACKSLASH :: char where "BACKSLASH = CHR 0x5C"

fun unescapeDouble :: "string \<Rightarrow> string" where
  "unescapeDouble (b # c # cs) =
     (if b = BACKSLASH \<and> (c = DQUOTE \<or> c = BACKSLASH) then c # unescapeDouble cs else b # unescapeDouble (c # cs))"
| "unescapeDouble cs = cs"

fun unescapeSingle :: "string \<Rightarrow> string" where
  "unescapeSingle (a # b # cs) =
     (if a = CHR 0x27 \<and> b = CHR 0x27 then a # unescapeSingle cs else a # unescapeSingle (b # cs))"
| "unescapeSingle cs = cs"

definition unquote :: "string \<Rightarrow> string" where
  "unquote raw =
     (let v = trim raw in
      if 2 \<le> length v \<and> hd v = DQUOTE \<and> last v = DQUOTE then unescapeDouble (butlast (tl v))
      else if 2 \<le> length v \<and> hd v = CHR 0x27 \<and> last v = CHR 0x27 then unescapeSingle (butlast (tl v))
      else v)"

definition isLetter :: "char \<Rightarrow> bool" where
  "isLetter c \<longleftrightarrow> (let n = of_char c :: nat in (65 \<le> n \<and> n \<le> 90) \<or> (97 \<le> n \<and> n \<le> 122))"

definition isYamlKey :: "string \<Rightarrow> bool" where
  "isYamlKey k = (case k of [] \<Rightarrow> False | c # cs \<Rightarrow> isLetter c \<and> list_all (\<lambda>x. isLetter x \<or> isDigit x \<or> x = CHR ''_'' \<or> x = CHR ''-'') cs)"

text \<open>\<^verbatim>\<open>rest.slice(0, rest.indexOf(' #'))\<close>, or all of it.\<close>

fun cutComment :: "string \<Rightarrow> string" where
  "cutComment (a # b # cs) = (if a = CHR '' '' \<and> b = CHR ''#'' then [] else a # cutComment (b # cs))"
| "cutComment cs = cs"

definition yamlValue :: "string \<Rightarrow> string" where
  "yamlValue rest =
     (if startsWith (trim rest) [DQUOTE] \<or> startsWith (trim rest) [CHR 0x27] then unquote rest else unquote (cutComment rest))"

text \<open>The body of the loop over the lines; line numbers start at 1.\<close>

definition yamlLine :: "nat \<Rightarrow> string \<Rightarrow> (string \<times> string) list \<Rightarrow> formatDetail + (string \<times> string) list" where
  "yamlLine n raw out =
     (let line = trim raw; key = trim (takeWhile (\<lambda>c. c \<noteq> CHR '':'') raw) in
      if line = [] \<or> startsWith line ''#'' then Inr out
      else if CHR '':'' \<notin> set raw then Inl (Fd_not_a_pair line n)
      else if \<not> isYamlKey key then Inl (Fd_invalid_key key n)
      else if map_of out key \<noteq> None then Inl (Fd_duplicate_key key n)
      else Inr (out @ [(key, yamlValue (tl (dropWhile (\<lambda>c. c \<noteq> CHR '':'') raw)))]))"

fun yamlLines :: "nat \<Rightarrow> string list \<Rightarrow> (string \<times> string) list \<Rightarrow> formatDetail + (string \<times> string) list" where
  "yamlLines n [] out = Inr out"
| "yamlLines n (l # ls) out = (case yamlLine n l out of Inl e \<Rightarrow> Inl e | Inr out' \<Rightarrow> yamlLines (n + 1) ls out')"

definition parseFrontmatterYaml :: "string \<Rightarrow> formatDetail + (string \<times> string) list" where
  "parseFrontmatterYaml yaml = yamlLines 1 (splitChar NL yaml) []"

definition stripNewlines :: "string \<Rightarrow> string" where
  "stripNewlines s = rev (dropWhile (\<lambda>c. c = NL) (rev s))"

definition parseMemory :: "string \<Rightarrow> string \<Rightarrow> formatError + memory" where
  "parseMemory t file =
     (case splitDocument t of
        Inl e \<Rightarrow> Inl \<lparr>feFile = file, feDetail = e\<rparr>
      | Inr (yaml, body) \<Rightarrow>
          (case parseFrontmatterYaml yaml of
             Inl e \<Rightarrow> Inl \<lparr>feFile = file, feDetail = e\<rparr>
           | Inr raw \<Rightarrow>
               (case parseFrontmatter raw of
                  Inl issues \<Rightarrow> Inl \<lparr>feFile = file, feDetail = Fd_fields issues\<rparr>
                | Inr f \<Rightarrow> Inr (frontmatter.extend f (memory.fields (stripNewlines body))))))"

subsection \<open>Writing a document\<close>

definition needsQuoting :: "string \<Rightarrow> bool" where
  "needsQuoting v \<longleftrightarrow>
     v = [] \<or> v \<noteq> trim v \<or> list_ex (\<lambda>c. c \<in> {CHR '':'', CHR ''#'', CHR 0x27, DQUOTE}) v \<or>
     startsWith v ''- '' \<or> startsWith v ''['' \<or> startsWith v ''{''"

definition doubleChar :: "char \<Rightarrow> string \<Rightarrow> string" where
  "doubleChar x v = concat (map (\<lambda>c. if c = x then [BACKSLASH, c] else [c]) v)"

definition quote :: "string \<Rightarrow> string" where
  "quote v = (if \<not> needsQuoting v then v else DQUOTE # doubleChar DQUOTE (doubleChar BACKSLASH v) @ [DQUOTE])"

definition frontmatterFields :: "('a frontmatter_scheme) \<Rightarrow> (string \<times> string) list" where
  "frontmatterFields m = [(''name'', mmName m), (''description'', mmDescription m), (''type'', memoryTypeName (mmType m))]"

definition serializeMemory :: "memory \<Rightarrow> string list + string" where
  "serializeMemory m =
     (case parseFrontmatter (frontmatterFields m) of
        Inl issues \<Rightarrow> Inl issues
      | Inr f \<Rightarrow>
          let body = stripNewlines (mmBody m) in
          Inr (joinWith [NL] [''---'', ''name: '' @ quote (mmName f), ''description: '' @ quote (mmDescription f),
                 ''type: '' @ memoryTypeName (mmType f), ''---'', []] @ body @ (if body = [] then [] else [NL])))"

subsection \<open>The key of a memory\<close>

fun crlfToLf :: "string \<Rightarrow> string" where
  "crlfToLf (a # b # cs) = (if a = CHR 0x0D \<and> b = NL then NL # crlfToLf cs else a # crlfToLf (b # cs))"
| "crlfToLf cs = cs"

definition trimEnd :: "string \<Rightarrow> string" where
  "trimEnd s = rev (dropWhile isSpace (rev s))"

text \<open>\<^verbatim>\<open>.replace(/\n{3,}/g, '\n\n')\<close>, with the number of newlines just seen.\<close>

fun atMostTwo :: "nat \<Rightarrow> string \<Rightarrow> string" where
  "atMostTwo k [] = []"
| "atMostTwo k (c # cs) =
     (if c = NL then (if k < 2 then NL # atMostTwo (k + 1) cs else atMostTwo k cs) else c # atMostTwo 0 cs)"

definition normalizeBody :: "string \<Rightarrow> string" where
  "normalizeBody b = trim (atMostTwo 0 (joinWith [NL] (map trimEnd (splitChar NL (crlfToLf b)))))"

definition dedupKey :: "memory \<Rightarrow> string" where
  "dedupKey m = mmName m @ [CHR 0x00] @ normalizeBody (mmBody m)"

subsection \<open>The index\<close>

definition utf8Length :: "string \<Rightarrow> nat" where
  "utf8Length s = sum_list (map (\<lambda>c. if (of_char c :: nat) < 128 then 1 else 2) s)"

definition MEMORY_INDEX_MAX_LINES :: nat where "MEMORY_INDEX_MAX_LINES = 200"
definition MEMORY_INDEX_MAX_BYTES :: nat where "MEMORY_INDEX_MAX_BYTES = 25 * 1024"

datatype indexStop = Stopped_lines | Stopped_bytes

record loadedIndex =
  liContent :: string
  liTruncated :: bool
  liLines :: nat
  liBytes :: nat
  liStoppedBy :: "indexStop option"

fun indexLines :: "nat \<Rightarrow> nat \<Rightarrow> string list \<Rightarrow> nat \<Rightarrow> string list \<Rightarrow> string list \<times> indexStop option" where
  "indexLines maxLines maxBytes kept bytes [] = (kept, None)"
| "indexLines maxLines maxBytes kept bytes (l # ls) =
     (let addition = utf8Length l + (if 0 < length kept then 1 else 0) in
      if maxLines \<le> length kept then (kept, Some Stopped_lines)
      else if maxBytes < bytes + addition then (kept, Some Stopped_bytes)
      else indexLines maxLines maxBytes (kept @ [l]) (bytes + addition) ls)"

definition loadMemoryIndex :: "nat \<Rightarrow> nat \<Rightarrow> string \<Rightarrow> loadedIndex" where
  "loadMemoryIndex maxLines maxBytes t =
     (let (kept, stop) = indexLines maxLines maxBytes [] 0 (splitChar NL t); content = joinWith [NL] kept in
      \<lparr>liContent = content, liTruncated = (stop \<noteq> None), liLines = length kept, liBytes = utf8Length content,
       liStoppedBy = stop\<rparr>)"

section \<open>What the format guarantees\<close>

text \<open>
  The document format of a memory reads back what it writes; equal keys mean equal memories up to white space; the
  load of the index stays within both caps and cuts nothing that fits.
\<close>

subsection \<open>Quoting\<close>

lemma trim_Cons: "\<not> isSpace c \<Longrightarrow> trim (c # s) = c # rev (dropWhile isSpace (rev s))"
  by (simp add: trim_def dropWhile_append2 dropWhile_append)

lemma trim_space [simp]: "trim (CHR '' '' # s) = trim s"
  by (simp add: trim_def isSpace_def)

lemma unescape_double: "unescapeDouble (doubleChar DQUOTE (doubleChar BACKSLASH v)) = v"
proof (induction v)
  case (Cons c v)
  have rest: "unescapeDouble (x # doubleChar DQUOTE (doubleChar BACKSLASH v)) = x # v" if "x \<noteq> BACKSLASH" for x
    using Cons that by (cases "doubleChar DQUOTE (doubleChar BACKSLASH v)") auto
  show ?case using Cons rest
    by (auto simp: doubleChar_def BACKSLASH_def DQUOTE_def)
qed (simp add: doubleChar_def)

lemma cutComment_id: "CHR ''#'' \<notin> set s \<Longrightarrow> cutComment s = s"
  by (induction s rule: cutComment.induct) auto

lemma unquote_plain: "trim v = v \<Longrightarrow> DQUOTE \<notin> set v \<Longrightarrow> CHR 0x27 \<notin> set v \<Longrightarrow> unquote v = v"
  by (cases v) (auto simp: unquote_def Let_def)

lemma unquote_quoted: "unquote (DQUOTE # doubleChar DQUOTE (doubleChar BACKSLASH v) @ [DQUOTE]) = v"
  by (subst unquote_def) (simp add: trim_id isSpace_def DQUOTE_def Let_def unescape_double[unfolded DQUOTE_def])

lemma unquote_space [simp]: "unquote (CHR '' '' # s) = unquote s"
  by (simp add: unquote_def)

lemma yamlValue_quote: "yamlValue (CHR '' '' # quote v) = v"
proof (cases "needsQuoting v")
  case True
  have "trim (quote v) = quote v" using True by (simp add: quote_def trim_id isSpace_def DQUOTE_def)
  with True show ?thesis by (simp add: yamlValue_def quote_def unquote_quoted startsWith_def)
next
  case False
  then have v: "trim v = v" "DQUOTE \<notin> set v" "CHR 0x27 \<notin> set v" "CHR ''#'' \<notin> set v"
    by (auto simp: needsQuoting_def list_ex_iff)
  moreover from v have "cutComment (CHR '' '' # v) = CHR '' '' # v" by (intro cutComment_id) auto
  ultimately show ?thesis using False by (simp add: yamlValue_def quote_def unquote_plain)
qed

lemma quote_no_NL: "NL \<notin> set v \<Longrightarrow> NL \<notin> set (quote v)"
  by (auto simp: quote_def doubleChar_def DQUOTE_def NL_def BACKSLASH_def split: if_splits)

subsection \<open>One line of the frontmatter\<close>

lemma yamlLine_field:
  assumes "isYamlKey k" "CHR '':'' \<notin> set k" "trim k = k" "hd k \<noteq> CHR ''#''" "map_of out k = None"
  shows "yamlLine n (k @ '': '' @ v) out = Inr (out @ [(k, yamlValue (CHR '' '' # v))])"
proof -
  obtain c cs where k: "k = c # cs" "\<not> isSpace c"
    using assms(1) by (cases k) (auto simp: isYamlKey_def isLetter_def isSpace_def Let_def)
  have "trim (k @ '': '' @ v) \<noteq> []" "\<not> startsWith (trim (k @ '': '' @ v)) ''#''"
    using k assms(4) by (auto simp: trim_Cons startsWith_def)
  moreover have "takeWhile (\<lambda>c. c \<noteq> CHR '':'') (k @ '': '' @ v) = k" "tl (dropWhile (\<lambda>c. c \<noteq> CHR '':'') (k @ '': '' @ v)) = CHR '' '' # v"
    using assms(2) by (auto simp: takeWhile_append dropWhile_append intro: takeWhile_eq_all_conv[THEN iffD2])
  ultimately show ?thesis using assms(1,3,5) by (simp add: yamlLine_def)
qed

lemma field_keys:
  "isYamlKey ''name''" "isYamlKey ''description''" "isYamlKey ''type''"
  "trim ''name'' = ''name''" "trim ''description'' = ''description''" "trim ''type'' = ''type''"
  by (simp_all add: isYamlKey_def isLetter_def trim_def isSpace_def)

lemma type_value: "yamlValue (CHR '' '' # memoryTypeName t) = memoryTypeName t"
  by (cases t) (simp_all add: yamlValue_def trim_def isSpace_def startsWith_def unquote_def DQUOTE_def)

lemma yaml_of_fields:
  assumes "NL \<notin> set (mmName m)" "NL \<notin> set (mmDescription m)"
  shows "parseFrontmatterYaml (joinWith [NL] [''name: '' @ quote (mmName m), ''description: '' @ quote (mmDescription m),
      ''type: '' @ memoryTypeName (mmType m)]) = Inr (frontmatterFields m)"
proof -
  have "NL \<notin> set (memoryTypeName (mmType m))" by (cases "mmType m") (simp_all add: NL_def)
  then have split: "splitChar NL (joinWith [NL] [''name: '' @ quote (mmName m), ''description: '' @ quote (mmDescription m),
      ''type: '' @ memoryTypeName (mmType m)]) = [''name'' @ '': '' @ quote (mmName m), ''description'' @ '': '' @ quote (mmDescription m),
      ''type'' @ '': '' @ memoryTypeName (mmType m)]"
    using assms[THEN quote_no_NL] by (subst splitChar_join) (auto simp: NL_def)
  have lines: "yamlLine 1 (''name'' @ '': '' @ quote (mmName m)) [] = Inr [(''name'', mmName m)]"
    "yamlLine (1 + 1) (''description'' @ '': '' @ quote (mmDescription m)) [(''name'', mmName m)] =
      Inr [(''name'', mmName m), (''description'', mmDescription m)]"
    "yamlLine (1 + 1 + 1) (''type'' @ '': '' @ memoryTypeName (mmType m)) [(''name'', mmName m), (''description'', mmDescription m)] =
      Inr (frontmatterFields m)"
    by (subst yamlLine_field; simp add: field_keys yamlValue_quote type_value frontmatterFields_def)+
  show ?thesis unfolding parseFrontmatterYaml_def split yamlLines.simps lines sum.case by simp
qed

subsection \<open>The round trip\<close>

definition validMemory :: "memory \<Rightarrow> bool" where
  "validMemory m \<longleftrightarrow> isMemoryName (mmName m) \<and> isDescription (mmDescription m)"

lemma splitChar_chars: "x \<in> set s \<Longrightarrow> x = c \<or> (\<exists>w\<in>set (splitChar c s). x \<in> set w)"
proof (induction s)
  case (Cons y s) then show ?case by (cases "splitChar c s") (auto split: if_splits)
qed simp

lemma name_chars: "isMemoryName n \<Longrightarrow> x \<in> set n \<Longrightarrow> x = CHR ''-'' \<or> isSlugChar x"
  using splitChar_chars[of x n "CHR ''-''"] by (auto simp: isMemoryName_def list_all_iff)

lemma name_no_NL: "isMemoryName n \<Longrightarrow> NL \<notin> set n"
  using name_chars[of n NL] by (auto simp: isSlugChar_def isDigit_def NL_def)

lemma name_no_NUL: "isMemoryName n \<Longrightarrow> CHR 0x00 \<notin> set n"
  using name_chars[of n "CHR 0x00"] by (auto simp: isSlugChar_def isDigit_def)

lemma parseFrontmatter_fields:
  assumes "validMemory m"
  shows "parseFrontmatter (frontmatterFields m) = Inr \<lparr>mmName = mmName m, mmDescription = mmDescription m, mmType = mmType m\<rparr>"
  using assms by (cases "mmType m")
    (simp_all add: parseFrontmatter_def frontmatterIssues_def fieldIssue_def frontmatterFields_def validMemory_def MEMORY_TYPES_def)

lemma dropWhile_first: "\<not> P x \<Longrightarrow> dropWhile P (x # xs) = x # xs"
  by simp

lemma split_serialized:
  assumes "NL \<notin> set l1" "NL \<notin> set l2" "NL \<notin> set l3" "trim l1 \<noteq> ''---''" "trim l2 \<noteq> ''---''" "trim l3 \<noteq> ''---''"
  shows "splitDocument (joinWith [NL] [''---'', l1, l2, l3, ''---'', []] @ b) = Inr (joinWith [NL] [l1, l2, l3], b)"
proof -
  have fence: "NL \<notin> set ''---''" "trim ''---'' = ''---''" by (simp_all add: NL_def trim_def isSpace_def)
  have "splitChar NL (joinWith [NL] [''---'', l1, l2, l3, ''---'', []] @ b) = ''---'' # l1 # l2 # l3 # ''---'' # splitChar NL b"
    using assms(1-3) fence(1) splitChar_first[of NL "''---''"] by (simp add: splitChar_first)
  with assms(4-6) fence(2) show ?thesis by (simp add: splitDocument_def Let_def join_splitChar)
qed

lemma stripNewlines_idem: "stripNewlines (stripNewlines s @ (if stripNewlines s = [] then [] else [NL])) = stripNewlines s"
proof -
  have "dropWhile (\<lambda>c. c = NL) (dropWhile (\<lambda>c. c = NL) (rev s)) = dropWhile (\<lambda>c. c = NL) (rev s)"
    by (rule dropWhile_idem)
  then show ?thesis by (simp add: stripNewlines_def)
qed

lemma label_not_fence: "\<not> isSpace c \<Longrightarrow> c \<noteq> CHR ''-'' \<Longrightarrow> trim (c # s) \<noteq> ''---''"
  by (simp add: trim_Cons)

text \<open>
  C20: Every valid memory can be written, and reading what was written gives it back, with the newlines at the end
  of its body removed, whatever its description contains: quotes, backslashes, colons and comment signs.
\<close>
theorem memory_roundtrip:
  assumes "validMemory m"
  shows "\<exists>t. serializeMemory m = Inr t \<and> parseMemory t file = Inr (m\<lparr>mmBody := stripNewlines (mmBody m)\<rparr>)"
proof -
  let ?b = "stripNewlines (mmBody m)"
  let ?l1 = "''name: '' @ quote (mmName m)" and ?l2 = "''description: '' @ quote (mmDescription m)" and ?l3 = "''type: '' @ memoryTypeName (mmType m)"
  have names: "NL \<notin> set (mmName m)" "NL \<notin> set (mmDescription m)"
    using assms name_no_NL by (auto simp: validMemory_def isDescription_def)
  have "NL \<notin> set (memoryTypeName (mmType m))" by (cases "mmType m") (simp_all add: NL_def)
  then have lines: "NL \<notin> set ?l1" "NL \<notin> set ?l2" "NL \<notin> set ?l3" using names[THEN quote_no_NL] by (auto simp: NL_def)
  have labels: "trim ?l1 \<noteq> ''---''" "trim ?l2 \<noteq> ''---''" "trim ?l3 \<noteq> ''---''"
    by (simp_all add: label_not_fence isSpace_def)
  have printed: "serializeMemory m = Inr (joinWith [NL] [''---'', ?l1, ?l2, ?l3, ''---'', []] @ ?b @ (if ?b = [] then [] else [NL]))"
    unfolding serializeMemory_def parseFrontmatter_fields[OF assms] sum.case Let_def frontmatter.simps by simp
  have "parseMemory (joinWith [NL] [''---'', ?l1, ?l2, ?l3, ''---'', []] @ ?b @ (if ?b = [] then [] else [NL])) file =
      Inr (m\<lparr>mmBody := ?b\<rparr>)"
    unfolding parseMemory_def split_serialized[OF lines labels] sum.case prod.case yaml_of_fields[OF names]
      parseFrontmatter_fields[OF assms] stripNewlines_idem
    by (simp add: frontmatter.defs memory.defs)
  with printed show ?thesis by blast
qed

lemma memory_roundtrip_witness:
  "\<exists>t. serializeMemory \<lparr>mmName = ''a-1'', mmDescription = [CHR ''x'', CHR '':'', DQUOTE, BACKSLASH], mmType = T_user, mmBody = ''b''\<rparr> = Inr t \<and>
     map_sum id mmDescription (parseMemory t ''f'') = Inr [CHR ''x'', CHR '':'', DQUOTE, BACKSLASH]"
proof -
  have "validMemory \<lparr>mmName = ''a-1'', mmDescription = [CHR ''x'', CHR '':'', DQUOTE, BACKSLASH], mmType = T_user, mmBody = ''b''\<rparr>"
    by (simp add: validMemory_def isMemoryName_def isDescription_def isSlugChar_def isDigit_def NL_def DQUOTE_def BACKSLASH_def)
  from memory_roundtrip[OF this, of "''f''"] show ?thesis by auto
qed

subsection \<open>Keys\<close>

text \<open>
  Two memories with valid names have the same key exactly if they have the same name and the same normalized
  body: neither can be chosen to look like another memory.
\<close>
theorem dedup_key_exact:
  assumes "isMemoryName (mmName m)" "isMemoryName (mmName m')"
  shows "dedupKey m = dedupKey m' \<longleftrightarrow> mmName m = mmName m' \<and> normalizeBody (mmBody m) = normalizeBody (mmBody m')"
proof -
  have split: "a @ CHR 0x00 # x = b @ CHR 0x00 # y \<longleftrightarrow> a = b \<and> x = y" if "CHR 0x00 \<notin> set a" "CHR 0x00 \<notin> set b" for a b x y
    using that by (metis splitChar_first append_same_eq list.inject append_Cons same_append_eq)
  show ?thesis using split[OF assms[THEN name_no_NUL]] by (simp add: dedupKey_def)
qed

lemma dedup_key_exact_witness:
  "dedupKey \<lparr>mmName = ''a'', mmDescription = ''x'', mmType = T_user, mmBody = ''b  ''\<rparr> =
   dedupKey \<lparr>mmName = ''a'', mmDescription = ''y'', mmType = T_feedback, mmBody = '' b''\<rparr>"
  by (subst dedup_key_exact)
    (simp_all add: isMemoryName_def isSlugChar_def isDigit_def normalizeBody_def trimEnd_def trim_def isSpace_def NL_def)

subsection \<open>The index\<close>

lemma utf8Length_append [simp]: "utf8Length (a @ b) = utf8Length a + utf8Length b"
  by (simp add: utf8Length_def)

lemma utf8Length_NL [simp]: "utf8Length [] = 0" "utf8Length (NL # s) = Suc (utf8Length s)"
  by (simp_all add: utf8Length_def NL_def)

lemma joinWith_snoc: "joinWith sep (xs @ [x]) = (if xs = [] then x else joinWith sep xs @ sep @ x)"
  by (induction xs) (auto simp: joinWith_Cons)

lemma indexLines_bounds:
  assumes "indexLines maxLines maxBytes kept bytes ls = (kept', stop)"
    and "bytes = utf8Length (joinWith [NL] kept)" "length kept \<le> maxLines" "bytes \<le> maxBytes"
  shows "length kept' \<le> maxLines \<and> utf8Length (joinWith [NL] kept') \<le> maxBytes \<and>
    (\<exists>rest. kept @ ls = kept' @ rest \<and> (stop = None \<longleftrightarrow> rest = []) \<and>
      (rest \<noteq> [] \<longrightarrow> length kept' = maxLines \<or> maxBytes < utf8Length (joinWith [NL] (kept' @ [hd rest]))))"
  using assms
proof (induction maxLines maxBytes kept bytes ls rule: indexLines.induct)
  case (2 maxLines maxBytes kept bytes l ls)
  have step: "bytes + (utf8Length l + (if 0 < length kept then 1 else 0)) = utf8Length (joinWith [NL] (kept @ [l]))"
    using 2(3) by (simp add: joinWith_snoc)
  show ?case
  proof (cases "maxLines \<le> length kept \<or> maxBytes < utf8Length (joinWith [NL] (kept @ [l]))")
    case True
    have "utf8Length (joinWith [NL] kept) \<le> maxBytes" using 2(3,5) by simp
    with True show ?thesis using 2(2,4,5) step
      by (auto simp: Let_def split: if_splits)
  next
    case False
    then have "indexLines maxLines maxBytes (kept @ [l]) (utf8Length (joinWith [NL] (kept @ [l]))) ls = (kept', stop)"
      using 2(2) step by (simp add: Let_def)
    with 2(1)[OF refl] False step show ?thesis by fastforce
  qed
qed auto

text \<open>
  What is loaded of an index is at most the given lines and bytes, it is the beginning of the file, all of
  it if it fits, and otherwise as many whole lines as fit: one more line would break a cap.
\<close>
theorem index_load_capped:
  assumes "r = loadMemoryIndex maxLines maxBytes t"
  shows "liLines r \<le> maxLines \<and> liBytes r = utf8Length (liContent r) \<and> liBytes r \<le> maxBytes \<and>
    (\<not> liTruncated r \<longrightarrow> liContent r = t) \<and>
    (liTruncated r \<longrightarrow> liContent r = joinWith [NL] (take (liLines r) (splitChar NL t)) \<and> liLines r < length (splitChar NL t) \<and>
      (liLines r = maxLines \<or> maxBytes < utf8Length (joinWith [NL] (take (Suc (liLines r)) (splitChar NL t)))))"
proof -
  obtain kept stop where run: "indexLines maxLines maxBytes [] 0 (splitChar NL t) = (kept, stop)" by fastforce
  from indexLines_bounds[OF this] obtain rest where
    "length kept \<le> maxLines" "utf8Length (joinWith [NL] kept) \<le> maxBytes" "splitChar NL t = kept @ rest" "stop = None \<longleftrightarrow> rest = []"
    "rest \<noteq> [] \<longrightarrow> length kept = maxLines \<or> maxBytes < utf8Length (joinWith [NL] (kept @ [hd rest]))"
    by (auto simp: utf8Length_def)
  moreover have "take (Suc (length kept)) (kept @ rest) = kept @ [hd rest]" if "rest \<noteq> []" using that by (cases rest) auto
  moreover have "t = joinWith [NL] kept" if "splitChar NL t = kept" using that join_splitChar[of NL t] by simp
  ultimately show ?thesis using run assms by (auto simp: loadMemoryIndex_def Let_def)
qed

lemma index_load_capped_witness: "liLines (loadMemoryIndex 1 10 [CHR ''a'', NL, CHR ''b'']) \<le> 1"
  using index_load_capped[OF refl, of 1 10 "[CHR ''a'', NL, CHR ''b'']"] by blast

end
