(* ===== verification/Memory_Recall.thy ===== *)
theory Memory_Recall
  imports Memory_Format "HOL-Library.Product_Lexorder" "HOL-Library.Multiset" "HOL-Library.Sublist"
begin

text \<open>
  \<^verbatim>\<open>packages/memory/src/retrieval.ts\<close> and \<^verbatim>\<open>scopes.ts\<close>: which memories are pulled into a turn, and where those
  of a scope live. The body of a candidate is what reading it gives, or nothing when reading throws.
\<close>

subsection \<open>Scopes\<close>

datatype memoryScope = Sc_project | Sc_team | Sc_user | Sc_auto | Sc_session

record memoryProvenance =
  mpScope :: memoryScope
  mpPath :: string

definition PERSISTENT_SCOPES :: "memoryScope list" where
  "PERSISTENT_SCOPES = [Sc_project, Sc_team, Sc_user, Sc_auto]"

definition isPersistentScope :: "memoryScope \<Rightarrow> bool" where
  "isPersistentScope s \<longleftrightarrow> s \<in> set PERSISTENT_SCOPES"

record memoryLocation =
  mlProjectRoot :: "string option"
  mlCanonicalRepoRoot :: "string option"
  mlHomeDir :: "string option"
  mlEnv :: "string \<Rightarrow> string option"

text \<open>Node's \<^verbatim>\<open>join\<close> and the hash are given.\<close>

record memoryPlatform =
  mtJoin :: "string list \<Rightarrow> string"
  mtHash :: "string \<Rightarrow> string"

definition xdgDir :: "memoryPlatform \<Rightarrow> (string \<Rightarrow> string option) \<Rightarrow> string \<Rightarrow> string \<Rightarrow> string list \<Rightarrow> string" where
  "xdgDir pf env var home dflt =
     (case env var of
        Some x \<Rightarrow> if 0 < length x \<and> startsWith x ''/'' then x else mtJoin pf (home # dflt)
      | None \<Rightarrow> mtJoin pf (home # dflt))"

definition xdgDataHome :: "memoryPlatform \<Rightarrow> (string \<Rightarrow> string option) \<Rightarrow> string \<Rightarrow> string" where
  "xdgDataHome pf env home = xdgDir pf env ''XDG_DATA_HOME'' home [''.local'', ''share'']"

definition xdgStateHome :: "memoryPlatform \<Rightarrow> (string \<Rightarrow> string option) \<Rightarrow> string \<Rightarrow> string" where
  "xdgStateHome pf env home = xdgDir pf env ''XDG_STATE_HOME'' home [''.local'', ''state'']"

definition canonicalRepoKey :: "memoryPlatform \<Rightarrow> string \<Rightarrow> string" where
  "canonicalRepoKey pf repo = take 16 (mtHash pf repo)"

text \<open>\<^verbatim>\<open>!x\<close> holds for a missing string and for the empty one.\<close>

definition given :: "string option \<Rightarrow> string option" where
  "given x = (case x of Some s \<Rightarrow> if s = [] then None else Some s | None \<Rightarrow> None)"

datatype scopeError = Se_project_root memoryScope | Se_home_dir memoryScope | Se_canonical_root memoryScope

fun resolveMemoryDir :: "memoryPlatform \<Rightarrow> memoryScope \<Rightarrow> memoryLocation \<Rightarrow> scopeError + string option" where
  "resolveMemoryDir pf Sc_session loc = Inr None"
| "resolveMemoryDir pf Sc_project loc =
     (case given (mlProjectRoot loc) of
        None \<Rightarrow> Inl (Se_project_root Sc_project)
      | Some r \<Rightarrow> Inr (Some (mtJoin pf [r, ''.qwen-harness'', ''memory''])))"
| "resolveMemoryDir pf Sc_team loc =
     (case given (mlProjectRoot loc) of
        None \<Rightarrow> Inl (Se_project_root Sc_team)
      | Some r \<Rightarrow> Inr (Some (mtJoin pf [r, ''.qwen-harness'', ''team-memory''])))"
| "resolveMemoryDir pf Sc_user loc =
     (case given (mlHomeDir loc) of
        None \<Rightarrow> Inl (Se_home_dir Sc_user)
      | Some h \<Rightarrow> Inr (Some (mtJoin pf [xdgDataHome pf (mlEnv loc) h, ''qwen-harness'', ''memory''])))"
| "resolveMemoryDir pf Sc_auto loc =
     (case given (mlHomeDir loc) of
        None \<Rightarrow> Inl (Se_home_dir Sc_auto)
      | Some h \<Rightarrow>
          (case given (case mlCanonicalRepoRoot loc of Some r \<Rightarrow> Some r | None \<Rightarrow> mlProjectRoot loc) of
             None \<Rightarrow> Inl (Se_canonical_root Sc_auto)
           | Some r \<Rightarrow> Inr (Some (mtJoin pf [xdgStateHome pf (mlEnv loc) h, ''qwen-harness'', ''auto'', canonicalRepoKey pf r]))))"

subsection \<open>Candidates and results\<close>

definition RETRIEVAL_MAX_FILES :: nat where "RETRIEVAL_MAX_FILES = 5"
definition RETRIEVAL_MAX_BYTES :: nat where "RETRIEVAL_MAX_BYTES = 50 * 1024"

record memoryCandidate =
  cdName :: string
  cdDescription :: string
  cdType :: memoryType
  cdScope :: memoryScope
  cdPath :: string
  cdBody :: "string option"

datatype matchedBy = Side_selection | Keyword_fallback

datatype retrievalSkip = Skip_files | Skip_bytes | Skip_unreadable

record retrievedMemory =
  rmName :: string
  rmDescription :: string
  rmType :: memoryType
  rmBody :: string
  rmSizeBytes :: nat
  rmProvenance :: memoryProvenance
  rmMatchedBy :: matchedBy
  rmScore :: nat

record retrievalResult =
  rrMemories :: "retrievedMemory list"
  rrSkipped :: "(string \<times> retrievalSkip) list"
  rrUsedFiles :: nat
  rrUsedBytes :: nat
  rrUsedFallback :: bool

subsection \<open>Scores\<close>

text \<open>\<^verbatim>\<open>text.toLowerCase().match(/[a-z0-9]+/g)\<close>, with the run being read.\<close>

fun termRuns :: "string \<Rightarrow> string \<Rightarrow> string list" where
  "termRuns run [] = (if run = [] then [] else [run])"
| "termRuns run (c # cs) =
     (if isSlugChar c then termRuns (run @ [c]) cs
      else if run = [] then termRuns [] cs else run # termRuns [] cs)"

definition tokenize :: "string \<Rightarrow> string list" where
  "tokenize t = termRuns [] (toLowerCase t)"

definition overlap :: "string list \<Rightarrow> string list \<Rightarrow> nat" where
  "overlap queryTerms haystackTerms = length (filter (\<lambda>t. t \<in> set haystackTerms) queryTerms)"

type_synonym ranked = "memoryCandidate \<times> nat"

text \<open>\<^verbatim>\<open>byRank\<close>: score descending, then name, then path; the sort is stable.\<close>

definition rankKey :: "ranked \<Rightarrow> int \<times> string \<times> string" where
  "rankKey r = (- int (snd r), cdName (fst r), cdPath (fst r))"

definition queryTerms :: "string \<Rightarrow> string list" where
  "queryTerms q = uniq (tokenize q)"

definition metadataScore :: "string list \<Rightarrow> memoryCandidate \<Rightarrow> nat" where
  "metadataScore terms c = overlap terms (tokenize (cdName c @ '' '' @ cdDescription c))"

definition sideSelected :: "string list \<Rightarrow> memoryCandidate list \<Rightarrow> ranked list" where
  "sideSelected terms cs = filter (\<lambda>r. 0 < snd r) (map (\<lambda>c. (c, metadataScore terms c)) cs)"

subsection \<open>Selection\<close>

text \<open>The scan of the bodies: the candidates with a match, the bodies by path, and what was skipped.\<close>

definition fallbackStep ::
  "string list \<Rightarrow> memoryCandidate \<Rightarrow> ranked list \<times> (string \<rightharpoonup> string) \<times> (string \<times> retrievalSkip) list
    \<Rightarrow> ranked list \<times> (string \<rightharpoonup> string) \<times> (string \<times> retrievalSkip) list" where
  "fallbackStep terms c st =
     (case st of (scored, bodies, skipped) \<Rightarrow>
        case cdBody c of
          None \<Rightarrow> (scored, bodies, skipped @ [(cdPath c, Skip_unreadable)])
        | Some body \<Rightarrow>
            let score = overlap terms (tokenize body) in
            (if 0 < score then scored @ [(c, score)] else scored, bodies(cdPath c \<mapsto> body), skipped))"

definition fallbackScan ::
  "string list \<Rightarrow> memoryCandidate list \<Rightarrow> ranked list \<times> (string \<rightharpoonup> string) \<times> (string \<times> retrievalSkip) list" where
  "fallbackScan terms cs = fold (fallbackStep terms) cs ([], Map.empty, [])"

type_synonym inclusion = "retrievedMemory list \<times> (string \<times> retrievalSkip) list \<times> nat"

definition bodyOf :: "(string \<rightharpoonup> string) \<Rightarrow> memoryCandidate \<Rightarrow> string option" where
  "bodyOf bodies c = (case bodies (cdPath c) of Some b \<Rightarrow> Some b | None \<Rightarrow> cdBody c)"

definition includeStep ::
  "nat \<Rightarrow> nat \<Rightarrow> (string \<rightharpoonup> string) \<Rightarrow> matchedBy \<Rightarrow> ranked \<Rightarrow> inclusion \<Rightarrow> inclusion" where
  "includeStep maxFiles maxBytes bodies how r st =
     (case (r, st) of ((c, score), (memories, skipped, used)) \<Rightarrow>
        if maxFiles \<le> length memories then (memories, skipped @ [(cdPath c, Skip_files)], used)
        else (case bodyOf bodies c of
            None \<Rightarrow> (memories, skipped @ [(cdPath c, Skip_unreadable)], used)
          | Some body \<Rightarrow>
              let sizeBytes = utf8Length body in
              if maxBytes < used + sizeBytes then (memories, skipped @ [(cdPath c, Skip_bytes)], used)
              else (memories @ [\<lparr>rmName = cdName c, rmDescription = cdDescription c, rmType = cdType c, rmBody = body,
                      rmSizeBytes = sizeBytes, rmProvenance = \<lparr>mpScope = cdScope c, mpPath = cdPath c\<rparr>,
                      rmMatchedBy = how, rmScore = score\<rparr>],
                    skipped, used + sizeBytes)))"

definition retrieve :: "string \<Rightarrow> memoryCandidate list \<Rightarrow> nat \<Rightarrow> nat \<Rightarrow> retrievalResult" where
  "retrieve q cs maxFiles maxBytes =
     (let terms = queryTerms q; side = sideSelected terms cs; usedFallback = (side = [] \<and> 0 < length terms);
          (rnk, bodies, skipped) = (if usedFallback then fallbackScan terms cs else (side, Map.empty, []));
          how = (if usedFallback then Keyword_fallback else Side_selection);
          (memories, skipped', used) = fold (includeStep maxFiles maxBytes bodies how) (sort_key rankKey rnk) ([], skipped, 0) in
      \<lparr>rrMemories = memories, rrSkipped = skipped', rrUsedFiles = length memories, rrUsedBytes = used, rrUsedFallback = usedFallback\<rparr>)"

text \<open>\<^verbatim>\<open>memorySectionState\<close> of \<^verbatim>\<open>apps/cli/src/memory.ts\<close>: what of them the prompt shows.\<close>

definition memorySectionState :: "retrievalResult \<Rightarrow> (string \<times> nat) option" where
  "memorySectionState r =
     (if rrMemories r = [] then None
      else Some (joinWith [NL] (map (\<lambda>m. rmName m @ '': '' @ rmDescription m) (rrMemories r)), length (rrMemories r)))"

section \<open>What retrieval guarantees\<close>

text \<open>
  Retrieval stays within its budgets, keeps the order of the ranks, and accounts for every candidate that
  matches: it is retrieved or reported as skipped, and nothing else is.
\<close>

text \<open>The paths of what was retrieved and of what was skipped.\<close>

definition accounted :: "retrievedMemory list \<Rightarrow> (string \<times> retrievalSkip) list \<Rightarrow> string multiset" where
  "accounted ms sk = mset (map (mpPath \<circ> rmProvenance) ms) + mset (map fst sk)"

definition entryOf :: "retrievedMemory \<Rightarrow> int \<times> string \<times> string" where
  "entryOf m = (- int (rmScore m), rmName m, mpPath (rmProvenance m))"

definition sizesOk :: "retrievedMemory list \<Rightarrow> nat \<Rightarrow> bool" where
  "sizesOk ms used \<longleftrightarrow> used = sum_list (map rmSizeBytes ms) \<and> list_all (\<lambda>m. rmSizeBytes m = utf8Length (rmBody m)) ms"

lemma includeStep_inv:
  assumes "includeStep maxFiles maxBytes bodies how r (ms, sk, used) = (ms', sk', used')"
    and "length ms \<le> maxFiles" "used \<le> maxBytes" "sizesOk ms used"
  shows "length ms' \<le> maxFiles" "used' \<le> maxBytes" "sizesOk ms' used'"
    and "accounted ms' sk' = accounted ms sk + {#cdPath (fst r)#}"
    and "map entryOf ms' = map entryOf ms \<or> map entryOf ms' = map entryOf ms @ [rankKey r]"
    and "list_all (\<lambda>m. rmMatchedBy m = how) ms \<Longrightarrow> list_all (\<lambda>m. rmMatchedBy m = how) ms'"
  using assms
  by (auto simp: includeStep_def accounted_def entryOf_def rankKey_def sizesOk_def Let_def split: prod.splits if_splits option.splits)

lemma include_all:
  assumes "fold (includeStep maxFiles maxBytes bodies how) rs (ms, sk, used) = (ms', sk', used')"
    and "length ms \<le> maxFiles" "used \<le> maxBytes" "sizesOk ms used"
  shows "length ms' \<le> maxFiles \<and> used' \<le> maxBytes \<and> sizesOk ms' used' \<and>
    accounted ms' sk' = accounted ms sk + mset (map (cdPath \<circ> fst) rs) \<and>
    (\<exists>ks. map entryOf ms' = map entryOf ms @ ks \<and> subseq ks (map rankKey rs)) \<and>
    (list_all (\<lambda>m. rmMatchedBy m = how) ms \<longrightarrow> list_all (\<lambda>m. rmMatchedBy m = how) ms')"
  using assms
proof (induction rs arbitrary: ms sk used)
  case (Cons r rs)
  obtain ms1 sk1 used1 where one: "includeStep maxFiles maxBytes bodies how r (ms, sk, used) = (ms1, sk1, used1)"
    using prod_cases3 by blast
  note step = includeStep_inv[OF one Cons.prems(2-4)]
  have rest: "fold (includeStep maxFiles maxBytes bodies how) rs (ms1, sk1, used1) = (ms', sk', used')"
    using Cons.prems(1) one by simp
  note all = Cons.IH[OF rest step(1-3)]
  then obtain ks where ks: "map entryOf ms' = map entryOf ms1 @ ks" "subseq ks (map rankKey rs)" by blast
  have "\<exists>ks. map entryOf ms' = map entryOf ms @ ks \<and> subseq ks (map rankKey (r # rs))"
    using step(5) ks by (elim disjE) (simp, blast, simp)
  with all step(4,6) show ?case by (simp add: add.assoc)
qed simp

lemma sorted_subseq: "subseq xs ys \<Longrightarrow> sorted ys \<Longrightarrow> sorted xs \<and> set xs \<subseteq> set ys"
  by (induction rule: list_emb.induct) auto

lemma fallback_all:
  "fold (fallbackStep terms) cs (scored, bodies, skipped) = (scored', bodies', skipped') \<Longrightarrow>
     mset (map (cdPath \<circ> fst) scored') + mset (map fst skipped') =
     mset (map (cdPath \<circ> fst) scored) + mset (map fst skipped) +
     mset (map cdPath (filter (\<lambda>c. case cdBody c of None \<Rightarrow> True | Some b \<Rightarrow> 0 < overlap terms (tokenize b)) cs))"
proof (induction cs arbitrary: scored bodies skipped)
  case (Cons c cs)
  then show ?case by (cases "cdBody c") (auto simp: fallbackStep_def Let_def split: if_splits)
qed simp

text \<open>The candidates that count: those that match on metadata or, if none does, those whose body matches or cannot be read.\<close>

definition relevant :: "string \<Rightarrow> memoryCandidate list \<Rightarrow> memoryCandidate list" where
  "relevant q cs =
     (let terms = queryTerms q; side = filter (\<lambda>c. 0 < metadataScore terms c) cs in
      if side \<noteq> [] then side
      else if terms = [] then []
      else filter (\<lambda>c. case cdBody c of None \<Rightarrow> True | Some b \<Rightarrow> 0 < overlap terms (tokenize b)) cs)"

lemma side_paths: "map (cdPath \<circ> fst) (sideSelected terms cs) = map cdPath (filter (\<lambda>c. 0 < metadataScore terms c) cs)"
  by (induction cs) (auto simp: sideSelected_def)

lemma side_Nil: "sideSelected terms cs = [] \<longleftrightarrow> filter (\<lambda>c. 0 < metadataScore terms c) cs = []"
  using side_paths[of terms cs] by (metis map_is_Nil_conv)

lemma retrieve_run:
  assumes "r = retrieve q cs maxFiles maxBytes"
  obtains rnk bodies sk0 how where
    "fold (includeStep maxFiles maxBytes bodies how) (sort_key rankKey rnk) ([], sk0, 0) = (rrMemories r, rrSkipped r, rrUsedBytes r)"
    "mset (map (cdPath \<circ> fst) rnk) + mset (map fst sk0) = mset (map cdPath (relevant q cs))"
    "how = (if rrUsedFallback r then Keyword_fallback else Side_selection)" "rrUsedFiles r = length (rrMemories r)"
proof -
  let ?terms = "queryTerms q" let ?side = "sideSelected ?terms cs"
  let ?fb = "?side = [] \<and> 0 < length ?terms" let ?how = "if ?fb then Keyword_fallback else Side_selection"
  obtain rnk bodies sk0 where src: "(if ?fb then fallbackScan ?terms cs else (?side, Map.empty, [])) = (rnk, bodies, sk0)"
    using prod_cases3 by blast
  obtain ms sk used where run: "fold (includeStep maxFiles maxBytes bodies ?how) (sort_key rankKey rnk) ([], sk0, 0) = (ms, sk, used)"
    using prod_cases3 by blast
  have r: "r = \<lparr>rrMemories = ms, rrSkipped = sk, rrUsedFiles = length ms, rrUsedBytes = used, rrUsedFallback = ?fb\<rparr>"
    unfolding assms retrieve_def Let_def src prod.case run by (rule refl)
  have "mset (map (cdPath \<circ> fst) rnk) + mset (map fst sk0) = mset (map cdPath (relevant q cs))"
  proof (cases ?fb)
    case True
    then have "fold (fallbackStep ?terms) cs ([], Map.empty, []) = (rnk, bodies, sk0)" using src by (simp add: fallbackScan_def)
    from fallback_all[OF this] True side_Nil[of ?terms cs] show ?thesis by (simp add: relevant_def Let_def)
  next
    case False
    then have "rnk = ?side" "sk0 = []" using src by auto
    with False side_Nil[of ?terms cs] show ?thesis using side_paths[of ?terms cs] by (auto simp: relevant_def Let_def metadataScore_def overlap_def)
  qed
  then show thesis using run by (intro that[of bodies ?how rnk sk0]) (simp_all add: r)
qed

text \<open>
  A retrieval is within its budgets, its memories come in the order of their ranks, and it accounts for what
  matches: every such candidate is retrieved or reported as skipped, exactly once, and nothing else is.
\<close>
theorem retrieval_budgeted:
  assumes "r = retrieve q cs maxFiles maxBytes"
  shows "length (rrMemories r) \<le> maxFiles \<and> rrUsedBytes r \<le> maxBytes \<and>
    rrUsedBytes r = sum_list (map (utf8Length \<circ> rmBody) (rrMemories r)) \<and>
    sorted (map entryOf (rrMemories r)) \<and>
    accounted (rrMemories r) (rrSkipped r) = mset (map cdPath (relevant q cs))"
proof -
  obtain rnk bodies sk0 how where
    run: "fold (includeStep maxFiles maxBytes bodies how) (sort_key rankKey rnk) ([], sk0, 0) = (rrMemories r, rrSkipped r, rrUsedBytes r)"
    and src: "mset (map (cdPath \<circ> fst) rnk) + mset (map fst sk0) = mset (map cdPath (relevant q cs))"
    using retrieve_run[OF assms] by metis
  have *: "length (rrMemories r) \<le> maxFiles \<and> rrUsedBytes r \<le> maxBytes \<and> sizesOk (rrMemories r) (rrUsedBytes r) \<and>
    accounted (rrMemories r) (rrSkipped r) = accounted [] sk0 + mset (map (cdPath \<circ> fst) (sort_key rankKey rnk)) \<and>
    (\<exists>ks. map entryOf (rrMemories r) = map entryOf [] @ ks \<and> subseq ks (map rankKey (sort_key rankKey rnk)))"
    using include_all[OF run] by (simp add: sizesOk_def)
  then have "sorted (map entryOf (rrMemories r))" using sorted_subseq[OF _ sorted_sort_key] by fastforce
  moreover have "accounted (rrMemories r) (rrSkipped r) = mset (map cdPath (relevant q cs))"
    using * src by (simp add: accounted_def add.commute)
  moreover have "sum_list (map (utf8Length \<circ> rmBody) (rrMemories r)) = sum_list (map rmSizeBytes (rrMemories r))"
    using * by (intro arg_cong[where f = sum_list]) (simp add: sizesOk_def list_all_iff)
  ultimately show ?thesis using * by (simp add: sizesOk_def)
qed

lemma retrieval_budgeted_witness:
  "length (rrMemories (retrieve ''pnpm'' [\<lparr>cdName = ''a'', cdDescription = ''pnpm'', cdType = T_user, cdScope = Sc_user, cdPath = ''/a'', cdBody = Some ''x''\<rparr>] 5 100)) \<le> 5"
  using retrieval_budgeted[OF refl] by blast

end
