(* ===== verification/Memory_Consolidation.thy ===== *)
theory Memory_Consolidation
  imports Memory_Recall
begin

text \<open>
  \<^verbatim>\<open>packages/memory/src/consolidation.ts\<close>, \<^verbatim>\<open>extraction.ts\<close> and \<^verbatim>\<open>store.ts\<close>, and the surface that the command line
  puts on them, \<^verbatim>\<open>apps/cli/src/memory.ts\<close>: who wins when memories conflict, what may become a memory, and what
  is listed, written and removed. The redactor, the proposals, what reading a file gives and what comes of its
  lock are parameters.
\<close>

subsection \<open>Who wins\<close>

definition DREAM_MIN_SESSIONS :: int where "DREAM_MIN_SESSIONS = 5"
definition DREAM_MAX_AGE_MS :: int where "DREAM_MAX_AGE_MS = 7 * 24 * 60 * 60 * 1000"
definition DREAM_MIN_CANDIDATES :: nat where "DREAM_MIN_CANDIDATES = 10"
definition DREAM_MIN_BYTES :: nat where "DREAM_MIN_BYTES = 32 * 1024"
definition DREAM_MIN_INTERVAL_MS :: int where "DREAM_MIN_INTERVAL_MS = 24 * 60 * 60 * 1000"

record dreamState =
  dsSessions :: int
  dsLastConsolidationAt :: "int option"

datatype dreamIneligible = Within_24h | Not_enough_sessions_or_age | Not_enough_candidates

text \<open>No reason means eligible.\<close>

definition isDreamEligible :: "dreamState \<Rightarrow> nat \<Rightarrow> nat \<Rightarrow> int \<Rightarrow> dreamIneligible option" where
  "isDreamEligible st candidates bytes now =
     (let sinceLast = map_option (\<lambda>t. now - t) (dsLastConsolidationAt st);
          sessionTrigger = (DREAM_MIN_SESSIONS \<le> dsSessions st);
          ageTrigger = (case sinceLast of None \<Rightarrow> True | Some d \<Rightarrow> DREAM_MAX_AGE_MS \<le> d);
          volumeTrigger = (DREAM_MIN_CANDIDATES \<le> candidates \<or> DREAM_MIN_BYTES \<le> bytes) in
      if (case sinceLast of None \<Rightarrow> False | Some d \<Rightarrow> d < DREAM_MIN_INTERVAL_MS) then Some Within_24h
      else if \<not> sessionTrigger \<and> \<not> ageTrigger then Some Not_enough_sessions_or_age
      else if \<not> volumeTrigger then Some Not_enough_candidates
      else None)"

record memoryRecord =
  mrMemory :: memory
  mrProvenance :: memoryProvenance
  mrUpdatedAt :: int

datatype resolvedBy = By_newer | By_more_specific

record memoryConflict =
  mcName :: string
  mcWinner :: memoryProvenance
  mcLosers :: "memoryProvenance list"
  mcResolvedBy :: resolvedBy

record retiredMemory =
  rdName :: string
  rdProvenance :: memoryProvenance
  rdUpdatedAt :: int

record consolidationPlan =
  cpKept :: "memoryRecord list"
  cpConflicts :: "memoryConflict list"
  cpRetired :: "retiredMemory list"

definition nameOf :: "memoryRecord \<Rightarrow> string" where
  "nameOf r = mmName (mrMemory r)"

definition pathOf :: "memoryRecord \<Rightarrow> string" where
  "pathOf r = mpPath (mrProvenance r)"

text \<open>The winner, the loser and why.\<close>

definition chooseWinner :: "memoryRecord \<Rightarrow> memoryRecord \<Rightarrow> memoryRecord \<times> memoryRecord \<times> resolvedBy" where
  "chooseWinner a b =
     (let aLen = length (normalizeBody (mmBody (mrMemory a))); bLen = length (normalizeBody (mmBody (mrMemory b))) in
      if mrUpdatedAt a \<noteq> mrUpdatedAt b then (if mrUpdatedAt b < mrUpdatedAt a then (a, b, By_newer) else (b, a, By_newer))
      else if aLen \<noteq> bLen then (if bLen < aLen then (a, b, By_more_specific) else (b, a, By_more_specific))
      else if pathOf a \<le> pathOf b then (a, b, By_more_specific) else (b, a, By_more_specific))"

text \<open>The map from keys to records; setting a key that is there keeps its place.\<close>

definition distinctStep :: "memoryRecord \<Rightarrow> (string \<times> memoryRecord) list \<Rightarrow> (string \<times> memoryRecord) list" where
  "distinctStep r m =
     (let key = dedupKey (mrMemory r) in
      case map_of m key of
        None \<Rightarrow> m @ [(key, r)]
      | Some e \<Rightarrow> if mrUpdatedAt e < mrUpdatedAt r then map (\<lambda>(k, x). if k = key then (k, r) else (k, x)) m else m)"

definition variantsOf :: "memoryRecord list \<Rightarrow> memoryRecord list" where
  "variantsOf grp = map snd (fold distinctStep grp [])"

definition winnerStep :: "memoryRecord \<Rightarrow> memoryRecord \<times> memoryProvenance list \<times> resolvedBy \<Rightarrow> memoryRecord \<times> memoryProvenance list \<times> resolvedBy" where
  "winnerStep v st =
     (case st of (w, losers, by) \<Rightarrow> case chooseWinner w v of (w', l, by') \<Rightarrow> (w', losers @ [mrProvenance l], by'))"

definition resolveGroup :: "memoryRecord list \<Rightarrow> memoryRecord \<times> memoryProvenance list \<times> resolvedBy" where
  "resolveGroup grp = (let vs = variantsOf grp in fold winnerStep (tl vs) (hd vs, [], By_newer))"

definition groupsOf :: "memoryRecord list \<Rightarrow> (string \<times> memoryRecord list) list" where
  "groupsOf records = map (\<lambda>n. (n, filter (\<lambda>r. nameOf r = n) records)) (uniq (map nameOf records))"

definition isStaleRecord :: "int option \<Rightarrow> memoryRecord \<Rightarrow> bool" where
  "isStaleRecord staleBefore w = (case staleBefore of None \<Rightarrow> False | Some t \<Rightarrow> mrUpdatedAt w < t)"

definition planStep :: "int option \<Rightarrow> string \<times> memoryRecord list \<Rightarrow> consolidationPlan \<Rightarrow> consolidationPlan" where
  "planStep staleBefore g p =
     (case g of (n, grp) \<Rightarrow> case resolveGroup grp of (w, losers, by) \<Rightarrow>
        let p1 = (if losers \<noteq> [] then p\<lparr>cpConflicts := cpConflicts p @ [\<lparr>mcName = n, mcWinner = mrProvenance w, mcLosers = losers, mcResolvedBy = by\<rparr>]\<rparr> else p) in
        if isStaleRecord staleBefore w
        then p1\<lparr>cpRetired := cpRetired p1 @ [\<lparr>rdName = n, rdProvenance = mrProvenance w, rdUpdatedAt = mrUpdatedAt w\<rparr>]\<rparr>
        else p1\<lparr>cpKept := cpKept p1 @ [w]\<rparr>)"

definition consolidateMemories :: "memoryRecord list \<Rightarrow> int option \<Rightarrow> consolidationPlan" where
  "consolidateMemories records staleBefore =
     (let p = fold (planStep staleBefore) (groupsOf records) \<lparr>cpKept = [], cpConflicts = [], cpRetired = []\<rparr> in
      \<lparr>cpKept = sort_key nameOf (cpKept p), cpConflicts = sort_key mcName (cpConflicts p), cpRetired = sort_key rdName (cpRetired p)\<rparr>)"

definition buildIndex :: "memoryRecord list \<Rightarrow> string option \<Rightarrow> string \<Rightarrow> string" where
  "buildIndex kept summary title =
     joinWith [NL]
       ([''# '' @ title, []] @
        (case summary of Some s \<Rightarrow> if trim s \<noteq> [] then [trim s, []] else [] | None \<Rightarrow> []) @
        (if kept = [] then [''_No memories yet._'', []]
         else map (\<lambda>r. ''- **'' @ nameOf r @ ''** ('' @ memoryTypeName (mmType (mrMemory r)) @ ''): '' @ mmDescription (mrMemory r)) kept @ [[]]))"

subsection \<open>What may become a memory\<close>

record memoryProposal =
  ppName :: string
  ppDescription :: string
  ppType :: string
  ppBody :: string

datatype extractionRejection = Rj_secret string | Rj_invalid string | Rj_duplicate string

datatype extractionSkip = Turn_not_eligible | Empty_proposal

record extractionResult =
  erExtracted :: "memory list"
  erRejected :: "extractionRejection list"
  erSkipped :: "extractionSkip option"

definition containsSecret :: "(string \<Rightarrow> string) \<Rightarrow> string \<Rightarrow> bool" where
  "containsSecret redact t \<longleftrightarrow> redact t \<noteq> t"

definition proposalText :: "memoryProposal \<Rightarrow> string" where
  "proposalText p = ppName p @ NL # ppDescription p @ NL # ppBody p"

definition proposalFields :: "memoryProposal \<Rightarrow> (string \<times> string) list" where
  "proposalFields p = [(''name'', ppName p), (''description'', ppDescription p), (''type'', ppType p)]"

definition memoryWith :: "frontmatter \<Rightarrow> string \<Rightarrow> memory" where
  "memoryWith f body = frontmatter.extend f (memory.fields (stripNewlines body))"

text \<open>One proposal: the keys seen, what was extracted, what was rejected.\<close>

definition extractStep ::
  "(string \<Rightarrow> string) \<Rightarrow> memoryProposal \<Rightarrow> string set \<times> memory list \<times> extractionRejection list
    \<Rightarrow> string set \<times> memory list \<times> extractionRejection list" where
  "extractStep redact p st =
     (case st of (seen, extracted, rejected) \<Rightarrow>
        case parseFrontmatter (proposalFields p) of
          Inl _ \<Rightarrow> (seen, extracted, rejected @ [Rj_invalid (ppName p)])
        | Inr f \<Rightarrow>
            if containsSecret redact (proposalText p) then (seen, extracted, rejected @ [Rj_secret (ppName p)])
            else let m = memoryWith f (ppBody p); key = dedupKey m in
              if key \<in> seen then (seen, extracted, rejected @ [Rj_duplicate (mmName m)])
              else (insert key seen, extracted @ [m], rejected))"

definition maybeExtract ::
  "bool \<Rightarrow> bool \<Rightarrow> (bool \<Rightarrow> bool \<Rightarrow> memoryProposal list) \<Rightarrow> (string \<Rightarrow> string) \<Rightarrow> string list \<Rightarrow> extractionResult" where
  "maybeExtract completed cancelled propose redact existing =
     (if \<not> completed \<or> cancelled then \<lparr>erExtracted = [], erRejected = [], erSkipped = Some Turn_not_eligible\<rparr>
      else let ps = propose completed cancelled in
        if ps = [] then \<lparr>erExtracted = [], erRejected = [], erSkipped = Some Empty_proposal\<rparr>
        else case fold (extractStep redact) ps (set existing, [], []) of
          (seen, extracted, rejected) \<Rightarrow> \<lparr>erExtracted = extracted, erRejected = rejected, erSkipped = None\<rparr>)"

subsection \<open>The store\<close>

text \<open>What a file gives: its text and its time, unless reading it fails.\<close>

datatype listError = Le_io string | Le_format formatError

record listResult =
  lsRecords :: "memoryRecord list"
  lsErrors :: "(string \<times> listError) list"

definition readMemory :: "(string \<Rightarrow> string + string \<times> int) \<Rightarrow> string \<Rightarrow> memoryScope \<Rightarrow> listError + memoryRecord" where
  "readMemory readFile path scope =
     (case readFile path of
        Inl e \<Rightarrow> Inl (Le_io e)
      | Inr (t, mtime) \<Rightarrow>
          (case parseMemory t path of
             Inl e \<Rightarrow> Inl (Le_format e)
           | Inr m \<Rightarrow> Inr \<lparr>mrMemory = m, mrProvenance = \<lparr>mpScope = scope, mpPath = path\<rparr>, mrUpdatedAt = mtime\<rparr>))"

definition MEMORY_INDEX_FILENAME :: string where "MEMORY_INDEX_FILENAME = ''MEMORY.md''"

definition listStep ::
  "memoryPlatform \<Rightarrow> (string \<Rightarrow> string + string \<times> int) \<Rightarrow> string \<Rightarrow> memoryScope \<Rightarrow> string \<Rightarrow> listResult \<Rightarrow> listResult" where
  "listStep pf readFile dir scope entry l =
     (if \<not> endsWith entry ''.md'' \<or> entry = MEMORY_INDEX_FILENAME then l
      else let path = mtJoin pf [dir, entry] in
        case readMemory readFile path scope of
          Inl e \<Rightarrow> l\<lparr>lsErrors := lsErrors l @ [(path, e)]\<rparr>
        | Inr r \<Rightarrow> l\<lparr>lsRecords := lsRecords l @ [r]\<rparr>)"

text \<open>The directory may be missing, which lists nothing; another failure is thrown.\<close>

datatype dirEntries = De_missing | De_failed string | De_entries "string list"

definition listMemories ::
  "memoryPlatform \<Rightarrow> (string \<Rightarrow> dirEntries) \<Rightarrow> (string \<Rightarrow> string + string \<times> int) \<Rightarrow> string \<Rightarrow> memoryScope \<Rightarrow> string + listResult" where
  "listMemories pf readdir readFile dir scope =
     (case readdir dir of
        De_missing \<Rightarrow> Inr \<lparr>lsRecords = [], lsErrors = []\<rparr>
      | De_failed e \<Rightarrow> Inl e
      | De_entries es \<Rightarrow> Inr (fold (listStep pf readFile dir scope) (sort es) \<lparr>lsRecords = [], lsErrors = []\<rparr>))"

text \<open>The file a memory goes to and the text written there.\<close>

definition memoryFile :: "memoryPlatform \<Rightarrow> string \<Rightarrow> memory \<Rightarrow> string" where
  "memoryFile pf dir m = mtJoin pf [dir, mmName m @ ''.md'']"

type_synonym memoryDisk = "string \<Rightarrow> string option"

text \<open>What acquiring the lock of a file comes to, and why a write fails.\<close>

datatype lockOutcome = Lo_ok | Lo_refused | Lo_threw string

datatype writeError = We_invalid "string list" | We_lock | We_threw string

definition writeMemory ::
  "memoryPlatform \<Rightarrow> (string \<Rightarrow> string) \<Rightarrow> (string \<Rightarrow> lockOutcome) \<Rightarrow> string \<Rightarrow> memory \<Rightarrow> memoryDisk \<Rightarrow> writeError + memoryDisk" where
  "writeMemory pf redact lock dir m d =
     (let path = memoryFile pf dir m in
      case serializeMemory m of
        Inl e \<Rightarrow> Inl (We_invalid e)
      | Inr t \<Rightarrow>
          (case lock path of
             Lo_refused \<Rightarrow> Inl We_lock
           | Lo_threw e \<Rightarrow> Inl (We_threw e)
           | Lo_ok \<Rightarrow> Inr (d(path \<mapsto> redact t))))"

definition removeMemory :: "string \<Rightarrow> memoryDisk \<Rightarrow> memoryDisk" where
  "removeMemory path d = d(path := None)"

definition recordsToCandidates :: "memoryRecord list \<Rightarrow> memoryCandidate list" where
  "recordsToCandidates rs =
     map (\<lambda>r. \<lparr>cdName = nameOf r, cdDescription = mmDescription (mrMemory r), cdType = mmType (mrMemory r),
        cdScope = mpScope (mrProvenance r), cdPath = pathOf r, cdBody = Some (mmBody (mrMemory r))\<rparr>) rs"

subsection \<open>The surface of the command line\<close>

definition CLI_SCOPES :: "memoryScope list" where
  "CLI_SCOPES = [Sc_project, Sc_user, Sc_auto]"

definition removeSuperseded :: "string set \<Rightarrow> memoryRecord \<Rightarrow> memoryDisk \<times> string list \<Rightarrow> memoryDisk \<times> string list" where
  "removeSuperseded keptPaths r st =
     (case st of (d, removed) \<Rightarrow>
        if pathOf r \<notin> keptPaths then (removeMemory (pathOf r) d, removed @ [pathOf r]) else (d, removed))"

text \<open>\<^verbatim>\<open>consolidate\<close> on the records of all the scopes of the command line.\<close>

definition surfaceConsolidate :: "memoryRecord list \<Rightarrow> memoryDisk \<Rightarrow> consolidationPlan \<times> memoryDisk \<times> string list" where
  "surfaceConsolidate records d =
     (let plan = consolidateMemories records None in
      (plan, fold (removeSuperseded (set (map pathOf (cpKept plan)))) records (d, [])))"

datatype addOutcome = Ad_stored string memory | Ad_rejected extractionRejection | Ad_no_memory "extractionSkip option" | Ad_threw writeError

text \<open>\<^verbatim>\<open>add\<close> for a scope whose directory is known.\<close>

definition surfaceAdd ::
  "memoryPlatform \<Rightarrow> (string \<Rightarrow> string) \<Rightarrow> (string \<Rightarrow> lockOutcome) \<Rightarrow> memoryRecord list \<Rightarrow> string \<Rightarrow> memoryProposal \<Rightarrow> memoryDisk
    \<Rightarrow> addOutcome \<times> memoryDisk" where
  "surfaceAdd pf redact lock records dir p d =
     (let r = maybeExtract True False (\<lambda>_ _. [p]) redact (map (dedupKey \<circ> mrMemory) records) in
      case erRejected r of
        j # _ \<Rightarrow> (Ad_rejected j, d)
      | [] \<Rightarrow>
          (case erExtracted r of
             [] \<Rightarrow> (Ad_no_memory (erSkipped r), d)
           | m # _ \<Rightarrow>
               (case writeMemory pf redact lock dir m d of
                  Inl e \<Rightarrow> (Ad_threw e, d)
                | Inr d' \<Rightarrow> (Ad_stored (memoryFile pf dir m) m, d'))))"

section \<open>What consolidation and extraction guarantee\<close>

text \<open>
  Consolidation keeps the newest memory of every name and is idempotent; extraction stores nothing with a secret
  in it and nothing twice; and the command line's pass, which takes all scopes together, removes files across
  scopes.
\<close>

subsection \<open>The winner of a group\<close>

lemma chooseWinner_newest:
  "chooseWinner a b = (w, l, by) \<Longrightarrow> w \<in> {a, b} \<and> mrUpdatedAt a \<le> mrUpdatedAt w \<and> mrUpdatedAt b \<le> mrUpdatedAt w"
  by (auto simp: chooseWinner_def Let_def split: if_splits)

lemma winnerStep_newest:
  "fold winnerStep vs (w0, ls0, by0) = (w, ls, by) \<Longrightarrow>
     w \<in> insert w0 (set vs) \<and> (\<forall>v\<in>insert w0 (set vs). mrUpdatedAt v \<le> mrUpdatedAt w)"
proof (induction vs arbitrary: w0 ls0 by0)
  case (Cons v vs)
  obtain w1 l by1 where one: "chooseWinner w0 v = (w1, l, by1)" using prod_cases3 by blast
  then have "winnerStep v (w0, ls0, by0) = (w1, ls0 @ [mrProvenance l], by1)" by (simp add: winnerStep_def)
  with Cons.prems have "fold winnerStep vs (w1, ls0 @ [mrProvenance l], by1) = (w, ls, by)" by simp
  from Cons.IH[OF this] chooseWinner_newest[OF one] show ?case by fastforce
qed simp

text \<open>Every record of the group is represented by a variant with its key that is no older.\<close>

definition represented :: "memoryRecord list \<Rightarrow> (string \<times> memoryRecord) list \<Rightarrow> bool" where
  "represented grp m \<longleftrightarrow> set (map snd m) \<subseteq> set grp \<and> distinct (map fst m) \<and>
     (\<forall>r\<in>set grp. \<exists>e. map_of m (dedupKey (mrMemory r)) = Some e \<and> mrUpdatedAt r \<le> mrUpdatedAt e)"

lemma representedI:
  "set (map snd m) \<subseteq> set grp \<Longrightarrow> distinct (map fst m) \<Longrightarrow>
   (\<And>r. r \<in> set grp \<Longrightarrow> \<exists>e. map_of m (dedupKey (mrMemory r)) = Some e \<and> mrUpdatedAt r \<le> mrUpdatedAt e) \<Longrightarrow> represented grp m"
  unfolding represented_def by blast

lemma map_of_update: "map_of (map (\<lambda>(k, x). if k = key then (k, r) else (k, x)) m) k' =
    (if k' = key then map_option (\<lambda>_. r) (map_of m k') else map_of m k')"
  by (induction m) auto

lemma distinctStep_represented:
  assumes "represented grp m"
  shows "represented (grp @ [r]) (distinctStep r m)"
proof (cases "map_of m (dedupKey (mrMemory r))")
  case None
  then have step: "distinctStep r m = m @ [(dedupKey (mrMemory r), r)]" by (simp add: distinctStep_def Let_def)
  have "\<exists>e. map_of (m @ [(dedupKey (mrMemory r), r)]) (dedupKey (mrMemory x)) = Some e \<and> mrUpdatedAt x \<le> mrUpdatedAt e"
    if "x \<in> set (grp @ [r])" for x
    using that assms None by (cases "x \<in> set grp") (auto simp: represented_def map_add_def)
  moreover have "dedupKey (mrMemory r) \<notin> fst ` set m" using None by (simp add: map_of_eq_None_iff)
  ultimately show ?thesis using assms unfolding step represented_def by auto
next
  case (Some e)
  show ?thesis
  proof (cases "mrUpdatedAt e < mrUpdatedAt r")
    case True
    define m' where "m' = map (\<lambda>(k, x). if k = dedupKey (mrMemory r) then (k, r) else (k, x)) m"
    have "map fst m' = map fst m" unfolding m'_def by (induction m) auto
    moreover have "set (map snd m') \<subseteq> insert r (set (map snd m))" unfolding m'_def by (induction m) auto
    moreover have "\<exists>e'. map_of m' (dedupKey (mrMemory x)) = Some e' \<and> mrUpdatedAt x \<le> mrUpdatedAt e'" if "x \<in> set (grp @ [r])" for x
      unfolding m'_def map_of_update using that assms Some True by (auto simp: represented_def)
    moreover have "set (map snd m) \<subseteq> set grp" "distinct (map fst m)" using assms by (simp_all add: represented_def)
    moreover have "distinctStep r m = m'" using Some True by (simp add: distinctStep_def Let_def m'_def)
    ultimately show ?thesis by (intro representedI) (simp_all add: subset_iff image_iff, metis)
  next
    case False
    then show ?thesis using assms Some by (auto simp: represented_def distinctStep_def Let_def)
  qed
qed

lemma represented_Nil: "represented [] []"
  by (simp add: represented_def)

lemma fold_distinct_represented: "represented grp m \<Longrightarrow> represented (grp @ rs) (fold distinctStep rs m)"
proof (induction rs arbitrary: grp m)
  case (Cons r rs)
  from Cons.IH[OF distinctStep_represented[OF Cons.prems, of r]] show ?case by simp
qed simp

lemma variants_represent:
  "set (variantsOf grp) \<subseteq> set grp" "r \<in> set grp \<Longrightarrow> \<exists>v\<in>set (variantsOf grp). mrUpdatedAt r \<le> mrUpdatedAt v"
proof -
  have rep: "represented grp (fold distinctStep grp [])"
    using fold_distinct_represented[OF represented_Nil, of grp] by simp
  then show "set (variantsOf grp) \<subseteq> set grp" unfolding represented_def variantsOf_def by blast
  assume "r \<in> set grp"
  with rep obtain e where "map_of (fold distinctStep grp []) (dedupKey (mrMemory r)) = Some e" "mrUpdatedAt r \<le> mrUpdatedAt e"
    unfolding represented_def by blast
  then show "\<exists>v\<in>set (variantsOf grp). mrUpdatedAt r \<le> mrUpdatedAt v" by (force simp: variantsOf_def dest: map_of_SomeD)
qed

lemma resolveGroup_newest:
  assumes "resolveGroup grp = (w, losers, by)" "grp \<noteq> []"
  shows "w \<in> set grp \<and> (\<forall>r\<in>set grp. mrUpdatedAt r \<le> mrUpdatedAt w)"
proof -
  obtain r where "r \<in> set grp" using assms(2) by (cases grp) auto
  then obtain v vs where vs: "variantsOf grp = v # vs" using variants_represent(2)[of r grp] by (cases "variantsOf grp") auto
  with assms(1) have "fold winnerStep vs (v, [], By_newer) = (w, losers, by)" by (simp add: resolveGroup_def)
  from winnerStep_newest[OF this] have w: "w \<in> set (variantsOf grp)" "\<And>x. x \<in> set (variantsOf grp) \<Longrightarrow> mrUpdatedAt x \<le> mrUpdatedAt w"
    by (auto simp: vs)
  then show ?thesis using variants_represent[where grp = grp] by (meson order_trans subsetD)
qed

lemma resolveGroup_single: "resolveGroup [r] = (r, [], By_newer)"
  by (simp add: resolveGroup_def variantsOf_def distinctStep_def Let_def)

subsection \<open>The plan\<close>

definition winnerOf :: "memoryRecord list \<Rightarrow> string \<Rightarrow> memoryRecord" where
  "winnerOf records n = fst (resolveGroup (filter (\<lambda>r. nameOf r = n) records))"

lemma winnerOf_newest:
  assumes "n \<in> set (map nameOf records)"
  shows "winnerOf records n \<in> set records" "nameOf (winnerOf records n) = n"
    and "r \<in> set records \<Longrightarrow> nameOf r = n \<Longrightarrow> mrUpdatedAt r \<le> mrUpdatedAt (winnerOf records n)"
proof -
  let ?g = "filter (\<lambda>r. nameOf r = n) records"
  have "?g \<noteq> []" using assms by (auto simp: filter_empty_conv)
  obtain w ls how where "resolveGroup ?g = (w, ls, how)" using prod_cases3 by blast
  with \<open>?g \<noteq> []\<close> have "w \<in> set ?g \<and> (\<forall>r\<in>set ?g. mrUpdatedAt r \<le> mrUpdatedAt w)" "winnerOf records n = w"
    using resolveGroup_newest[of ?g] unfolding winnerOf_def by (blast, simp)
  then show "winnerOf records n \<in> set records" "nameOf (winnerOf records n) = n"
    "r \<in> set records \<Longrightarrow> nameOf r = n \<Longrightarrow> mrUpdatedAt r \<le> mrUpdatedAt (winnerOf records n)" by auto
qed

lemma fold_plan:
  "cpKept (fold (planStep st) (map (\<lambda>n. (n, f n)) ns) p) =
     cpKept p @ filter (\<lambda>w. \<not> isStaleRecord st w) (map (\<lambda>n. fst (resolveGroup (f n))) ns)"
  "map rdName (cpRetired (fold (planStep st) (map (\<lambda>n. (n, f n)) ns) p)) =
     map rdName (cpRetired p) @ filter (\<lambda>n. isStaleRecord st (fst (resolveGroup (f n)))) ns"
  by (induction ns arbitrary: p) (auto simp: planStep_def Let_def split: prod.splits)

definition retiredOf :: "memoryRecord \<Rightarrow> retiredMemory" where
  "retiredOf w = \<lparr>rdName = nameOf w, rdProvenance = mrProvenance w, rdUpdatedAt = mrUpdatedAt w\<rparr>"

lemma fold_retired:
  "cpRetired (fold (planStep st) (map (\<lambda>n. (n, f n)) ns) p) =
     cpRetired p @ map (\<lambda>n. (retiredOf (fst (resolveGroup (f n))))\<lparr>rdName := n\<rparr>) (filter (\<lambda>n. isStaleRecord st (fst (resolveGroup (f n)))) ns)"
  by (induction ns arbitrary: p) (auto simp: planStep_def retiredOf_def Let_def split: prod.splits)

lemma retired_of: "cpRetired (consolidateMemories records st) =
    sort_key rdName (map (\<lambda>n. retiredOf (winnerOf records n)) (filter (\<lambda>n. isStaleRecord st (winnerOf records n)) (uniq (map nameOf records))))"
proof -
  have "(retiredOf (winnerOf records n))\<lparr>rdName := n\<rparr> = retiredOf (winnerOf records n)" if "n \<in> set (map nameOf records)" for n
    using winnerOf_newest(2)[OF that] by (simp add: retiredOf_def)
  then have eq: "map (\<lambda>n. (retiredOf (winnerOf records n))\<lparr>rdName := n\<rparr>) (filter P (uniq (map nameOf records))) =
      map (\<lambda>n. retiredOf (winnerOf records n)) (filter P (uniq (map nameOf records)))" for P
    by (intro map_cong) auto
  show ?thesis
    by (simp add: consolidateMemories_def Let_def groupsOf_def fold_retired winnerOf_def[symmetric] eq)
qed

lemma kept_of: "cpKept (consolidateMemories records st) =
    sort_key nameOf (filter (\<lambda>w. \<not> isStaleRecord st w) (map (winnerOf records) (uniq (map nameOf records))))"
  by (simp add: consolidateMemories_def Let_def groupsOf_def fold_plan winnerOf_def[abs_def])

lemma winners_names: "map nameOf (map (winnerOf records) (uniq (map nameOf records))) = uniq (map nameOf records)"
  unfolding map_map by (rule map_idI) (simp add: winnerOf_newest(2))

lemma kept_names:
  "sorted (map nameOf (cpKept (consolidateMemories records st)))" "distinct (map nameOf (cpKept (consolidateMemories records st)))"
proof -
  have "distinct (map nameOf (map (winnerOf records) (uniq (map nameOf records))))" unfolding winners_names by simp
  from distinct_map_filter[OF this] show "distinct (map nameOf (cpKept (consolidateMemories records st)))"
    unfolding kept_of distinct_map by simp
qed (simp add: kept_of)

lemma uniqAcc_id: "distinct xs \<Longrightarrow> set xs \<inter> set seen = {} \<Longrightarrow> uniqAcc seen xs = xs"
  by (induction seen xs rule: uniqAcc.induct) auto

lemma uniq_id: "distinct xs \<Longrightarrow> uniq xs = xs"
  by (simp add: uniq_def uniqAcc_id)

lemma filter_name: "distinct (map nameOf rs) \<Longrightarrow> r \<in> set rs \<Longrightarrow> filter (\<lambda>x. nameOf x = nameOf r) rs = [r]"
proof (induction rs)
  case (Cons x rs)
  then have "\<forall>y\<in>set rs. nameOf y \<noteq> nameOf x" by (metis distinct.simps(2) imageI list.set_map list.simps(9))
  with Cons show ?case by (cases "r = x") (auto simp: filter_empty_conv)
qed simp

lemma groups_distinct: "distinct (map nameOf rs) \<Longrightarrow> groupsOf rs = map (\<lambda>r. (nameOf r, [r])) rs"
  by (simp add: groupsOf_def uniq_id filter_name)

text \<open>
  C22: For every name there is a newest memory among the records of that name. If it is stale, no memory of
  the name is kept and the plan retires it, with its name, place and date; otherwise it is kept and nothing of the
  name is retired. The kept ones are records, the retired ones stand for records, each list has a name at
  most once and is sorted by name: nothing is invented and no name is lost.
\<close>
theorem consolidation_keeps_newest:
  assumes "plan = consolidateMemories records staleBefore"
  shows "sorted (map nameOf (cpKept plan)) \<and> distinct (map nameOf (cpKept plan)) \<and> set (cpKept plan) \<subseteq> set records \<and>
    sorted (map rdName (cpRetired plan)) \<and> distinct (map rdName (cpRetired plan)) \<and> set (cpRetired plan) \<subseteq> retiredOf ` set records \<and>
    (\<forall>n\<in>set (map nameOf records). \<exists>w\<in>set records. nameOf w = n \<and>
      (\<forall>r\<in>set records. nameOf r = n \<longrightarrow> mrUpdatedAt r \<le> mrUpdatedAt w) \<and>
      (if isStaleRecord staleBefore w then n \<notin> set (map nameOf (cpKept plan)) \<and> retiredOf w \<in> set (cpRetired plan)
       else w \<in> set (cpKept plan) \<and> n \<notin> set (map rdName (cpRetired plan))))"
proof -
  let ?ns = "uniq (map nameOf records)"
  let ?w = "winnerOf records"
  note kept = kept_of[of records staleBefore, folded assms] and retired = retired_of[of records staleBefore, folded assms]
  have name: "nameOf (?w n) = n" "?w n \<in> set records" if "n \<in> set (map nameOf records)" for n
    using winnerOf_newest(1,2)[OF that] by simp_all
  have rd: "rdName (retiredOf w) = nameOf w" for w by (simp add: retiredOf_def)
  have K: "set (cpKept plan) = {?w n | n. n \<in> set (map nameOf records) \<and> \<not> isStaleRecord staleBefore (?w n)}"
    unfolding kept by auto
  have R: "set (cpRetired plan) = {retiredOf (?w n) | n. n \<in> set (map nameOf records) \<and> isStaleRecord staleBefore (?w n)}"
    unfolding retired by auto
  have "distinct (map rdName (map (\<lambda>n. retiredOf (?w n)) (filter (\<lambda>n. isStaleRecord staleBefore (?w n)) ?ns)))"
    using name by (simp add: comp_def rd distinct_map inj_on_def)
  moreover have "distinct (map rdName (sort_key rdName xs)) = distinct (map rdName xs)" for xs by (simp add: distinct_map)
  ultimately have "distinct (map rdName (cpRetired plan))" unfolding retired by blast
  moreover have "sorted (map rdName (cpRetired plan))" unfolding retired by simp
  moreover have "sorted (map nameOf (cpKept plan))" "distinct (map nameOf (cpKept plan))" unfolding assms by (rule kept_names)+
  moreover have "set (cpKept plan) \<subseteq> set records" "set (cpRetired plan) \<subseteq> retiredOf ` set records"
    unfolding K R using name(2) by blast+
  moreover have "\<exists>w\<in>set records. nameOf w = n \<and> (\<forall>r\<in>set records. nameOf r = n \<longrightarrow> mrUpdatedAt r \<le> mrUpdatedAt w) \<and>
      (if isStaleRecord staleBefore w then n \<notin> set (map nameOf (cpKept plan)) \<and> retiredOf w \<in> set (cpRetired plan)
       else w \<in> set (cpKept plan) \<and> n \<notin> set (map rdName (cpRetired plan)))" if n: "n \<in> set (map nameOf records)" for n
  proof (intro bexI[of _ "?w n"] conjI)
    show "if isStaleRecord staleBefore (?w n) then n \<notin> set (map nameOf (cpKept plan)) \<and> retiredOf (?w n) \<in> set (cpRetired plan)
       else ?w n \<in> set (cpKept plan) \<and> n \<notin> set (map rdName (cpRetired plan))"
    proof (cases "isStaleRecord staleBefore (?w n)")
      case True
      then have "n \<notin> set (map nameOf (cpKept plan))" unfolding list.set_map K using name(1) by force
      with True n show ?thesis unfolding R by auto
    next
      case False
      then have "n \<notin> set (map rdName (cpRetired plan))" unfolding list.set_map R using name(1) rd by force
      with False n show ?thesis unfolding K by auto
    qed
  qed (use name[OF n] winnerOf_newest(3)[OF n] in auto)
  ultimately show ?thesis by blast
qed

text \<open>
  Consolidating the survivors again changes nothing: there is no conflict left, nothing is retired, and the
  same memories survive.
\<close>
theorem consolidation_idempotent:
  assumes "kept = cpKept (consolidateMemories records staleBefore)"
  shows "consolidateMemories kept staleBefore = \<lparr>cpKept = kept, cpConflicts = [], cpRetired = []\<rparr>"
proof -
  have fresh: "list_all (\<lambda>w. \<not> isStaleRecord staleBefore w) kept" unfolding assms kept_of by (auto simp: list_all_iff)
  have d: "sorted (map nameOf kept)" "distinct (map nameOf kept)" unfolding assms by (rule kept_names)+
  have "fold (planStep staleBefore) (map (\<lambda>r. (nameOf r, [r])) ks) p = p\<lparr>cpKept := cpKept p @ ks\<rparr>"
    if "list_all (\<lambda>w. \<not> isStaleRecord staleBefore w) ks" for ks p
    using that by (induction ks arbitrary: p) (auto simp: planStep_def resolveGroup_single)
  then show ?thesis using fresh d unfolding consolidateMemories_def groups_distinct[OF d(2)] Let_def by (simp add: sort_key_id_if_sorted)
qed

subsection \<open>Extraction\<close>

definition acceptable :: "(string \<Rightarrow> string) \<Rightarrow> memoryProposal list \<Rightarrow> memory \<Rightarrow> bool" where
  "acceptable redact ps m \<longleftrightarrow>
     (\<exists>p f. p \<in> set ps \<and> parseFrontmatter (proposalFields p) = Inr f \<and> redact (proposalText p) = proposalText p \<and> m = memoryWith f (ppBody p))"

definition extractInv :: "(string \<Rightarrow> string) \<Rightarrow> memoryProposal list \<Rightarrow> string set \<Rightarrow> string set \<times> memory list \<times> extractionRejection list \<Rightarrow> bool" where
  "extractInv redact ps old st =
     (case st of (seen, extracted, rejected) \<Rightarrow>
        seen = old \<union> set (map dedupKey extracted) \<and> distinct (map dedupKey extracted) \<and>
        set (map dedupKey extracted) \<inter> old = {} \<and> list_all (acceptable redact ps) extracted \<and>
        length extracted + length rejected = length ps)"

lemma acceptable_mono: "acceptable redact ps m \<Longrightarrow> acceptable redact (ps @ qs) m"
  by (auto simp: acceptable_def)

lemma extractStep_inv:
  assumes "extractInv redact ps old st"
  shows "extractInv redact (ps @ [p]) old (extractStep redact p st)"
proof -
  obtain seen extracted rejected where st: "st = (seen, extracted, rejected)" using prod_cases3 by blast
  have old: "list_all (acceptable redact (ps @ [p])) extracted"
    using assms acceptable_mono by (auto simp: st extractInv_def list_all_iff)
  show ?thesis
  proof (cases "parseFrontmatter (proposalFields p)")
    case (Inl e)
    then show ?thesis using assms old by (simp add: st extractInv_def extractStep_def)
  next
    case (Inr f)
    show ?thesis
    proof (cases "containsSecret redact (proposalText p) \<or> dedupKey (memoryWith f (ppBody p)) \<in> seen")
      case True
      with Inr assms old show ?thesis by (auto simp: st extractInv_def extractStep_def Let_def)
    next
      case False
      then have "acceptable redact (ps @ [p]) (memoryWith f (ppBody p))"
        using Inr by (auto simp: acceptable_def containsSecret_def)
      with False Inr assms old show ?thesis by (auto simp: st extractInv_def extractStep_def Let_def)
    qed
  qed
qed

lemma extract_all: "extractInv redact ps old st \<Longrightarrow> extractInv redact (ps @ qs) old (fold (extractStep redact) qs st)"
proof (induction qs arbitrary: ps st)
  case (Cons q qs)
  from Cons.IH[OF extractStep_inv[OF Cons.prems, of q]] show ?case by simp
qed simp

text \<open>
  C21: Only a completed turn that was not cancelled leaves memories. Each is a valid proposal that the redactor
  does not touch, so it contains no secret; none has the key of a stored memory or of another one; and every
  proposal is either extracted or rejected.
\<close>
theorem extraction_safe:
  assumes "r = maybeExtract completed cancelled propose redact existing"
  shows "(erExtracted r \<noteq> [] \<longrightarrow> completed \<and> \<not> cancelled) \<and>
    list_all (acceptable redact (propose completed cancelled)) (erExtracted r) \<and>
    distinct (map dedupKey (erExtracted r)) \<and> set (map dedupKey (erExtracted r)) \<inter> set existing = {} \<and>
    (completed \<and> \<not> cancelled \<longrightarrow> length (erExtracted r) + length (erRejected r) = length (propose completed cancelled))"
proof (cases "\<not> completed \<or> cancelled \<or> propose completed cancelled = []")
  case True
  then show ?thesis by (auto simp: assms maybeExtract_def Let_def)
next
  case False
  have "extractInv redact [] (set existing) (set existing, [], [])" by (simp add: extractInv_def)
  from extract_all[OF this, of "propose completed cancelled"] False show ?thesis
    by (auto simp: assms maybeExtract_def Let_def extractInv_def split: prod.splits)
qed

lemma extraction_safe_witness:
  "erExtracted (maybeExtract True True (\<lambda>_ _. [\<lparr>ppName = ''a'', ppDescription = ''d'', ppType = ''user'', ppBody = ''b''\<rparr>]) id []) = []"
  using extraction_safe[OF refl, of True True] by blast

subsection \<open>All scopes together\<close>

lemma removed_paths:
  "snd (fold (removeSuperseded kept) rs (d, removed)) = removed @ filter (\<lambda>p. p \<notin> kept) (map pathOf rs)"
  by (induction rs arbitrary: d removed) (auto simp: removeSuperseded_def)

lemma removed_files: "fst (fold (removeSuperseded kept) rs (d, removed)) p = (if p \<in> set (map pathOf rs) - kept then None else d p)"
  by (induction rs arbitrary: d removed) (auto simp: removeSuperseded_def removeMemory_def)

text \<open>
  The pass of the command line puts the records of all its scopes into one consolidation: the file of a memory
  is deleted as soon as any scope has a newer memory of the same name, the user's by a project's or the other
  way round.
\<close>
theorem consolidation_deletes_across_scopes:
  assumes "r \<in> set records" "r' \<in> set records" "nameOf r = nameOf r'" "mrUpdatedAt r < mrUpdatedAt r'" "distinct (map pathOf records)"
    and "surfaceConsolidate records d = (plan, d', removed)"
  shows "pathOf r \<in> set removed \<and> d' (pathOf r) = None"
proof -
  have plan: "plan = consolidateMemories records None"
    and run: "fold (removeSuperseded (set (map pathOf (cpKept plan)))) records (d, []) = (d', removed)"
    using assms(6) by (auto simp: surfaceConsolidate_def Let_def)
  have "pathOf w \<noteq> pathOf r" if w: "w \<in> set (cpKept plan)" for w
  proof
    assume same: "pathOf w = pathOf r"
    from w obtain n where n: "n \<in> set (map nameOf records)" "w = winnerOf records n" by (auto simp: plan kept_of)
    with same assms(1,5) winnerOf_newest(1)[of n records] have "w = r" by (auto simp: distinct_map inj_on_def)
    moreover have "nameOf w = n" using n winnerOf_newest(2) by simp
    ultimately show False using winnerOf_newest(3)[OF n(1) assms(2)] n(2) assms(3,4) by simp
  qed
  then have "pathOf r \<in> set (map pathOf records) - set (map pathOf (cpKept plan))" using assms(1) by force
  then show ?thesis using removed_paths[of "set (map pathOf (cpKept plan))" records d "[]", unfolded run]
      removed_files[of "set (map pathOf (cpKept plan))" records d "[]" "pathOf r", unfolded run] by auto
qed

subsection \<open>Concrete memories\<close>

definition sampleRecord :: "memoryScope \<Rightarrow> string \<Rightarrow> int \<Rightarrow> memoryRecord" where
  "sampleRecord scope path t =
     \<lparr>mrMemory = \<lparr>mmName = ''style'', mmDescription = ''d'', mmType = T_user, mmBody = ''b''\<rparr>,
      mrProvenance = \<lparr>mpScope = scope, mpPath = path\<rparr>, mrUpdatedAt = t\<rparr>"

lemma sample_fields [simp]:
  "nameOf (sampleRecord scope path t) = ''style''" "pathOf (sampleRecord scope path t) = path" "mrUpdatedAt (sampleRecord scope path t) = t"
  by (simp_all add: sampleRecord_def nameOf_def pathOf_def)

lemma consolidation_deletes_across_scopes_witness:
  "fst (snd (surfaceConsolidate [sampleRecord Sc_project ''p'' 2, sampleRecord Sc_user ''u'' 1] Map.empty)) ''u'' = None"
proof -
  obtain plan d' removed where "surfaceConsolidate [sampleRecord Sc_project ''p'' 2, sampleRecord Sc_user ''u'' 1] Map.empty = (plan, d', removed)"
    using prod_cases3 by blast
  with consolidation_deletes_across_scopes[OF _ _ _ _ _ this, of "sampleRecord Sc_user ''u'' 1" "sampleRecord Sc_project ''p'' 2"]
  show ?thesis by simp
qed

lemma consolidation_keeps_newest_witness:
  "let plan = consolidateMemories [sampleRecord Sc_project ''p'' 2, sampleRecord Sc_user ''u'' 1] None in
   set (cpKept plan) \<subseteq> {sampleRecord Sc_project ''p'' 2, sampleRecord Sc_user ''u'' 1} \<and> distinct (map rdName (cpRetired plan))"
  using consolidation_keeps_newest[OF refl, of "[sampleRecord Sc_project ''p'' 2, sampleRecord Sc_user ''u'' 1]" None]
  by (simp add: Let_def)

lemma consolidation_idempotent_witness:
  "cpConflicts (consolidateMemories (cpKept (consolidateMemories [sampleRecord Sc_project ''p'' 2, sampleRecord Sc_user ''u'' 1] None)) None) = []"
  by (simp add: consolidation_idempotent[OF refl])

end
