(* ===== verification/Memory_Dream.thy ===== *)
theory Memory_Dream
  imports Memory_Consolidation Memory_Format "HOL-Library.Sublist"
begin

text \<open>
  \<^verbatim>\<open>packages/memory/src/dream.ts\<close>: one run of the consolidation with its gates, its single model call and its
  commit. The outcomes of the locks, the readings of the clock, the summarizer and the hook are the environment of
  a run; the lock itself is in \<^verbatim>\<open>Memory_Lock\<close>. A run that throws says so and leaves the disk as far as it got.
\<close>

subsection \<open>The input of the model\<close>

definition DREAM_WALL_MS :: int where "DREAM_WALL_MS = 10 * 60 * 1000"
definition DREAM_MAX_INPUT_TOKENS :: nat where "DREAM_MAX_INPUT_TOKENS = 64000"
definition DREAM_MAX_OUTPUT_TOKENS :: nat where "DREAM_MAX_OUTPUT_TOKENS = 8000"

definition estimateTokens :: "string \<Rightarrow> nat" where
  "estimateTokens t = (utf8Length t + 3) div 4"

text \<open>\<^verbatim>\<open>JSON.stringify\<close> of an object and an array, their parts already printed.\<close>

definition jsonObject :: "(string \<times> string) list \<Rightarrow> string" where
  "jsonObject fs = ''{'' @ joinWith '','' (map (\<lambda>(k, t). jsonStr k @ '':'' @ t) fs) @ ''}''"

definition jsonArray :: "string list \<Rightarrow> string" where
  "jsonArray ts = ''['' @ joinWith '','' ts @ '']''"

fun memoryScopeName :: "memoryScope \<Rightarrow> string" where
  "memoryScopeName Sc_project = ''project''"
| "memoryScopeName Sc_team = ''team''"
| "memoryScopeName Sc_user = ''user''"
| "memoryScopeName Sc_auto = ''auto''"
| "memoryScopeName Sc_session = ''session''"

fun resolvedByName :: "resolvedBy \<Rightarrow> string" where
  "resolvedByName By_newer = ''newer''"
| "resolvedByName By_more_specific = ''more-specific''"

definition printMemory :: "memory \<Rightarrow> string" where
  "printMemory m = jsonObject [(''name'', jsonStr (mmName m)), (''description'', jsonStr (mmDescription m)),
     (''type'', jsonStr (memoryTypeName (mmType m))), (''body'', jsonStr (mmBody m))]"

definition printProvenance :: "memoryProvenance \<Rightarrow> string" where
  "printProvenance p = jsonObject [(''scope'', jsonStr (memoryScopeName (mpScope p))), (''path'', jsonStr (mpPath p))]"

definition printConflict :: "memoryConflict \<Rightarrow> string" where
  "printConflict c = jsonObject [(''name'', jsonStr (mcName c)), (''winner'', printProvenance (mcWinner c)),
     (''losers'', jsonArray (map printProvenance (mcLosers c))), (''resolvedBy'', jsonStr (resolvedByName (mcResolvedBy c)))]"

definition serializeInput :: "memory list \<Rightarrow> memoryConflict list \<Rightarrow> string" where
  "serializeInput ms cs =
     jsonObject [(''memories'', jsonArray (map printMemory ms)), (''conflicts'', jsonArray (map printConflict cs))]"

function trimInput :: "memoryConflict list \<Rightarrow> memory list \<Rightarrow> memory list" where
  "trimInput cs ms =
     (if ms \<noteq> [] \<and> DREAM_MAX_INPUT_TOKENS < estimateTokens (serializeInput ms cs) then trimInput cs (butlast ms) else ms)"
  by pat_completeness auto
termination by (relation "measure (\<lambda>(cs, ms). length ms)") auto

declare trimInput.simps [simp del]

record dreamInput =
  diMemories :: "memory list"
  diConflicts :: "memoryConflict list"
  diMaxOutputTokens :: nat

record dreamModelResult =
  dmSummary :: string
  dmMemories :: "memoryProposal list option"

definition buildModelInput :: "memoryRecord list \<Rightarrow> memoryConflict list \<Rightarrow> dreamInput \<times> nat" where
  "buildModelInput kept cs =
     (let trimmed = trimInput cs (map mrMemory kept) in
      (\<lparr>diMemories = trimmed, diConflicts = cs, diMaxOutputTokens = DREAM_MAX_OUTPUT_TOKENS\<rparr>,
       estimateTokens (serializeInput trimmed cs)))"

text \<open>
  \<^verbatim>\<open>subarray(0, maxBytes).toString('utf8')\<close>: the characters that fit; what a split one decodes to is given.
\<close>

fun utf8Cut :: "string \<Rightarrow> nat \<Rightarrow> string \<Rightarrow> string" where
  "utf8Cut partial n [] = []"
| "utf8Cut partial n (c # cs) =
     (let k = utf8Length [c] in
      if k \<le> n then c # utf8Cut partial (n - k) cs else if n = 0 then [] else partial)"

definition capTokens :: "string \<Rightarrow> string \<Rightarrow> nat \<Rightarrow> string" where
  "capTokens partial t maxTokens = (if estimateTokens t \<le> maxTokens then t else utf8Cut partial (maxTokens * 4) t)"

subsection \<open>A run\<close>

record dreamEnv =
  deNow :: "nat \<Rightarrow> int"
  deAcquire :: lockOutcome
  deRenewBefore :: lockOutcome
  deRenewAfter :: lockOutcome
  deSummarize :: "dreamInput \<Rightarrow> string + dreamModelResult"
  deWriteLock :: "string \<Rightarrow> lockOutcome"
  deHookThrows :: "string option"
  dePartialChar :: string

datatype dreamReason =
  Dr_ineligible dreamIneligible | Dr_ok | Dr_schema_check_failed | Dr_wall_time_exceeded | Dr_lease_lost | Dr_lock_unavailable

record dreamRunResult =
  drRan :: bool
  drWritten :: bool
  drReason :: dreamReason
  drPlan :: "consolidationPlan option"
  drIndexPath :: "string option"
  drModelCalls :: nat
  drInputTokens :: nat
  drOutputTokens :: nat

datatype dreamExn = Dx_lock | Dx_summarize string | Dx_write writeError | Dx_other string

type_synonym dreamOutcome = "(dreamExn + dreamRunResult) \<times> memoryDisk"

record dreamOptions =
  doPlatform :: memoryPlatform
  doRedact :: "string \<Rightarrow> string"
  doDir :: string
  doScope :: memoryScope
  doState :: dreamState
  doStaleBefore :: "int option"

definition notWritten :: "bool \<Rightarrow> dreamReason \<Rightarrow> consolidationPlan option \<Rightarrow> nat \<Rightarrow> nat \<Rightarrow> nat \<Rightarrow> dreamRunResult" where
  "notWritten hasRun reason plan calls inTokens outTokens =
     \<lparr>drRan = hasRun, drWritten = False, drReason = reason, drPlan = plan, drIndexPath = None, drModelCalls = calls,
      drInputTokens = inTokens, drOutputTokens = outTokens\<rparr>"

text \<open>A proposal of the model as a memory; the first invalid one ends the run.\<close>

fun validateProposals :: "memoryProposal list \<Rightarrow> memory list option" where
  "validateProposals [] = Some []"
| "validateProposals (p # ps) =
     (case parseFrontmatter (proposalFields p) of
        Inl _ \<Rightarrow> None
      | Inr f \<Rightarrow> map_option ((#) (memoryWith f (ppBody p))) (validateProposals ps))"

definition finalMemories :: "memoryRecord list \<Rightarrow> dreamModelResult \<Rightarrow> memory list option" where
  "finalMemories kept r = (case dmMemories r of Some ps \<Rightarrow> validateProposals ps | None \<Rightarrow> Some (map mrMemory kept))"

text \<open>The survivors, each under the lock of its file.\<close>

fun writeSurvivors :: "dreamOptions \<Rightarrow> dreamEnv \<Rightarrow> memory list \<Rightarrow> memoryDisk \<Rightarrow> dreamExn option \<times> memoryDisk" where
  "writeSurvivors opts env [] d = (None, d)"
| "writeSurvivors opts env (m # ms) d =
     (case writeMemory (doPlatform opts) (doRedact opts) (deWriteLock env) (doDir opts) m d of
        Inl e \<Rightarrow> (Some (Dx_write e), d)
      | Inr d' \<Rightarrow> writeSurvivors opts env ms d')"

definition indexPathOf :: "dreamOptions \<Rightarrow> string" where
  "indexPathOf opts = mtJoin (doPlatform opts) [doDir opts, MEMORY_INDEX_FILENAME]"

definition finalRecord :: "dreamOptions \<Rightarrow> int \<Rightarrow> memory \<Rightarrow> memoryRecord" where
  "finalRecord opts now m =
     \<lparr>mrMemory = m, mrProvenance = \<lparr>mpScope = doScope opts, mpPath = memoryFile (doPlatform opts) (doDir opts) m\<rparr>, mrUpdatedAt = now\<rparr>"

definition removeOthers :: "string set \<Rightarrow> memoryRecord list \<Rightarrow> memoryDisk \<Rightarrow> memoryDisk" where
  "removeOthers survivors rs d = fold (\<lambda>r d. if pathOf r \<notin> survivors then removeMemory (pathOf r) d else d) rs d"

definition dreamCommit ::
  "dreamOptions \<Rightarrow> dreamEnv \<Rightarrow> memoryRecord list \<Rightarrow> memory list \<Rightarrow> string \<Rightarrow> memoryDisk \<Rightarrow> dreamExn option \<times> memoryDisk" where
  "dreamCommit opts env records ms summary d =
     (let survivors = set (map (memoryFile (doPlatform opts) (doDir opts)) ms) in
      case writeSurvivors opts env ms (removeOthers survivors records d) of
        (Some e, d2) \<Rightarrow> (Some e, d2)
      | (None, d2) \<Rightarrow>
          let content = buildIndex (map (finalRecord opts (deNow env 4)) ms) (Some summary) ''Memory index'' in
          (case deHookThrows env of
             Some e \<Rightarrow> (Some (Dx_other e), d2)
           | None \<Rightarrow> (None, d2(indexPathOf opts \<mapsto> doRedact opts content))))"

text \<open>From the answer of the model to the end.\<close>

definition dreamAnswered ::
  "dreamOptions \<Rightarrow> dreamEnv \<Rightarrow> memoryRecord list \<Rightarrow> consolidationPlan \<Rightarrow> nat \<Rightarrow> int \<Rightarrow> dreamModelResult \<Rightarrow> memoryDisk \<Rightarrow> dreamOutcome" where
  "dreamAnswered opts env records plan inTokens deadline answer d =
     (let summary = capTokens (dePartialChar env) (dmSummary answer) DREAM_MAX_OUTPUT_TOKENS; outTokens = estimateTokens summary in
      case finalMemories (cpKept plan) answer of
        None \<Rightarrow> (Inr (notWritten True Dr_schema_check_failed (Some plan) 1 inTokens outTokens), d)
      | Some ms \<Rightarrow>
          if deadline < deNow env 3 then (Inr (notWritten True Dr_wall_time_exceeded (Some plan) 1 inTokens outTokens), d)
          else (case deRenewAfter env of
              Lo_refused \<Rightarrow> (Inr (notWritten True Dr_lease_lost (Some plan) 1 inTokens outTokens), d)
            | Lo_threw e \<Rightarrow> (Inl (Dx_other e), d)
            | Lo_ok \<Rightarrow>
                (case dreamCommit opts env records ms summary d of
                   (Some e, d') \<Rightarrow> (Inl e, d')
                 | (None, d') \<Rightarrow>
                     (Inr \<lparr>drRan = True, drWritten = True, drReason = Dr_ok, drPlan = Some plan,
                        drIndexPath = Some (indexPathOf opts), drModelCalls = 1, drInputTokens = inTokens, drOutputTokens = outTokens\<rparr>,
                      d'))))"

text \<open>With the lock.\<close>

definition dreamLocked :: "dreamOptions \<Rightarrow> dreamEnv \<Rightarrow> memoryRecord list \<Rightarrow> int \<Rightarrow> memoryDisk \<Rightarrow> dreamOutcome" where
  "dreamLocked opts env records deadline d =
     (let plan = consolidateMemories records (doStaleBefore opts); (inp, inTokens) = buildModelInput (cpKept plan) (cpConflicts plan) in
      case deRenewBefore env of
        Lo_refused \<Rightarrow> (Inl Dx_lock, d)
      | Lo_threw e \<Rightarrow> (Inl (Dx_other e), d)
      | Lo_ok \<Rightarrow>
          if deadline < deNow env 2 then (Inr (notWritten True Dr_wall_time_exceeded (Some plan) 0 inTokens 0), d)
          else (case deSummarize env inp of
              Inl e \<Rightarrow> (Inl (Dx_summarize e), d)
            | Inr answer \<Rightarrow> dreamAnswered opts env records plan inTokens deadline answer d))"

definition runDream :: "dreamOptions \<Rightarrow> dreamEnv \<Rightarrow> memoryRecord list \<Rightarrow> memoryDisk \<Rightarrow> dreamOutcome" where
  "runDream opts env records d =
     (case isDreamEligible (doState opts) (length records) (sum_list (map (utf8Length \<circ> mmBody \<circ> mrMemory) records)) (deNow env 0) of
        Some why \<Rightarrow> (Inr (notWritten False (Dr_ineligible why) None 0 0 0), d)
      | None \<Rightarrow>
          let deadline = deNow env 1 + DREAM_WALL_MS in
          (case deAcquire env of
             Lo_refused \<Rightarrow> (Inr (notWritten False Dr_lock_unavailable None 0 0 0), d)
           | Lo_threw e \<Rightarrow> (Inl (Dx_other e), d)
           | Lo_ok \<Rightarrow> dreamLocked opts env records deadline d))"

section \<open>What a run guarantees\<close>

text \<open>
  A run of the consolidation writes only when every gate let it, and leaves the index whole whatever happens; but
  what the model is not shown it can delete.
\<close>

subsection \<open>The input\<close>

lemma trimInput_prefix: "prefix (trimInput cs ms) ms"
proof (induction cs ms rule: trimInput.induct)
  case (1 cs ms)
  show ?case
  proof (cases "ms \<noteq> [] \<and> DREAM_MAX_INPUT_TOKENS < estimateTokens (serializeInput ms cs)")
    case True
    then have "trimInput cs ms = trimInput cs (butlast ms)" by (subst trimInput.simps) simp
    with 1[OF True] show ?thesis using prefixeq_butlast[of ms] by (metis prefix_order.trans)
  next
    case False
    then have "trimInput cs ms = ms" by (subst trimInput.simps) auto
    then show ?thesis by simp
  qed
qed



subsection \<open>The commit\<close>

text \<open>The paths of a run: the index is none of the files of memories, and two names have two files.\<close>

definition distinctPaths :: "dreamOptions \<Rightarrow> memoryRecord list \<Rightarrow> bool" where
  "distinctPaths opts records \<longleftrightarrow>
     (\<forall>a b. mtJoin (doPlatform opts) [doDir opts, a] = mtJoin (doPlatform opts) [doDir opts, b] \<longrightarrow> a = b) \<and>
     indexPathOf opts \<notin> set (map pathOf records)"

lemma serialized_name: "serializeMemory m = Inr t \<Longrightarrow> isMemoryName (mmName m)"
  by (auto simp: serializeMemory_def parseFrontmatter_def frontmatterIssues_def fieldIssue_def frontmatterFields_def
      split: sum.splits if_splits option.splits)

lemma memoryFile_index:
  assumes "distinctPaths opts rs" "isMemoryName (mmName m)"
  shows "memoryFile (doPlatform opts) (doDir opts) m \<noteq> indexPathOf opts"
proof
  assume "memoryFile (doPlatform opts) (doDir opts) m = indexPathOf opts"
  with assms(1) have "mmName m @ ''.md'' = ''MEMORY'' @ ''.md''"
    unfolding distinctPaths_def memoryFile_def indexPathOf_def MEMORY_INDEX_FILENAME_def by simp
  then have "mmName m = ''MEMORY''" by (simp only: append_same_eq)
  with name_chars[OF assms(2), of "CHR ''M''"] show False by (simp add: isSlugChar_def isDigit_def)
qed

lemma removeOthers_at: "removeOthers survivors rs d p = (if p \<in> set (map pathOf rs) - survivors then None else d p)"
  unfolding removeOthers_def by (induction rs arbitrary: d) (auto simp: removeMemory_def)

lemma writeMemory_at:
  assumes "writeMemory pf redact lock dir m d = Inr d'"
  shows "isMemoryName (mmName m)" "p \<noteq> memoryFile pf dir m \<Longrightarrow> d' p = d p"
  using assms by (auto simp: writeMemory_def Let_def split: sum.splits lockOutcome.splits dest: serialized_name)

lemma writeSurvivors_at:
  "writeSurvivors opts env ms d = (e, d') \<Longrightarrow> p \<notin> set (map (memoryFile (doPlatform opts) (doDir opts)) ms) \<Longrightarrow> d' p = d p"
  by (induction opts env ms d rule: writeSurvivors.induct) (auto simp: writeMemory_at(2) split: sum.splits)

lemma writeSurvivors_index:
  "writeSurvivors opts env ms d = (e, d') \<Longrightarrow> distinctPaths opts rs \<Longrightarrow> d' (indexPathOf opts) = d (indexPathOf opts)"
proof (induction opts env ms d rule: writeSurvivors.induct)
  case (2 opts env m ms d)
  show ?case
  proof (cases "writeMemory (doPlatform opts) (doRedact opts) (deWriteLock env) (doDir opts) m d")
    case (Inr d1)
    have "indexPathOf opts \<noteq> memoryFile (doPlatform opts) (doDir opts) m"
      using memoryFile_index[OF 2(3) writeMemory_at(1)[OF Inr]] by simp
    from writeMemory_at(2)[OF Inr this] 2 Inr show ?thesis by simp
  qed (use 2 in simp)
qed simp

lemma commit_fails_index:
  assumes "dreamCommit opts env records ms summary d = (Some e, d')" "distinctPaths opts records"
  shows "d' (indexPathOf opts) = d (indexPathOf opts)"
proof -
  let ?d1 = "removeOthers (set (map (memoryFile (doPlatform opts) (doDir opts)) ms)) records d"
  obtain e' d2 where w: "writeSurvivors opts env ms ?d1 = (e', d2)" by fastforce
  have "d' = d2" using assms(1) w by (auto simp: dreamCommit_def Let_def split: option.splits)
  moreover have "?d1 (indexPathOf opts) = d (indexPathOf opts)" using assms(2) by (simp add: removeOthers_at distinctPaths_def)
  ultimately show ?thesis using writeSurvivors_index[OF w assms(2)] by simp
qed

lemma commit_removes:
  assumes "dreamCommit opts env records ms summary d = (None, d')" "p \<in> set (map pathOf records)" "p \<noteq> indexPathOf opts"
    and "p \<notin> set (map (memoryFile (doPlatform opts) (doDir opts)) ms)"
  shows "d' p = None"
proof -
  let ?d1 = "removeOthers (set (map (memoryFile (doPlatform opts) (doDir opts)) ms)) records d"
  obtain e' d2 where w: "writeSurvivors opts env ms ?d1 = (e', d2)" by fastforce
  have "d' p = d2 p" using assms(1,3) w by (auto simp: dreamCommit_def Let_def split: option.splits)
  also have "d2 p = None" using writeSurvivors_at[OF w assms(4)] assms(2,4) by (simp add: removeOthers_at)
  finally show ?thesis .
qed

subsection \<open>The gates\<close>

lemma notWritten_fields [simp]: "\<not> drWritten (notWritten h r p c i n)"
  by (simp add: notWritten_def)

text \<open>A run that reached the commit, and what it had passed before.\<close>

lemma runDream_cases:
  assumes "runDream opts env records d = (res, d')"
  obtains (unchanged) "d' = d" "\<And>r. res = Inr r \<Longrightarrow> \<not> drWritten r"
  | (commit) answer ms e inp where
      "isDreamEligible (doState opts) (length records) (sum_list (map (utf8Length \<circ> mmBody \<circ> mrMemory) records)) (deNow env 0) = None"
      "deAcquire env = Lo_ok" "deRenewBefore env = Lo_ok" "deRenewAfter env = Lo_ok" "deNow env 3 \<le> deNow env 1 + DREAM_WALL_MS"
      "deNow env 2 \<le> deNow env 1 + DREAM_WALL_MS"
      "inp = fst (buildModelInput (cpKept (consolidateMemories records (doStaleBefore opts))) (cpConflicts (consolidateMemories records (doStaleBefore opts))))"
      "deSummarize env inp = Inr answer" "finalMemories (cpKept (consolidateMemories records (doStaleBefore opts))) answer = Some ms"
      "dreamCommit opts env records ms (capTokens (dePartialChar env) (dmSummary answer) DREAM_MAX_OUTPUT_TOKENS) d = (e, d')"
      "\<And>r. res = Inr r \<Longrightarrow> drWritten r \<Longrightarrow> e = None \<and> drReason r = Dr_ok \<and> drModelCalls r = 1 \<and>
         drInputTokens r = estimateTokens (serializeInput (diMemories inp) (diConflicts inp))"
      "\<And>r. res = Inr r \<Longrightarrow> drWritten r" "e = None \<longleftrightarrow> (\<exists>r. res = Inr r)"
proof -
  let ?plan = "consolidateMemories records (doStaleBefore opts)"
  let ?inp = "fst (buildModelInput (cpKept ?plan) (cpConflicts ?plan))"
  show thesis
  proof (cases "deSummarize env ?inp")
    case (Inl x)
    then show thesis using assms
      by (intro unchanged) (auto simp: runDream_def dreamLocked_def Let_def split: option.splits lockOutcome.splits if_splits prod.splits)
  next
    case (Inr answer)
    show thesis
    proof (cases "finalMemories (cpKept ?plan) answer")
      case None
      then show thesis using assms Inr
        by (intro unchanged)
          (auto simp: runDream_def dreamLocked_def dreamAnswered_def Let_def split: option.splits lockOutcome.splits if_splits prod.splits)
    next
      case (Some ms)
      obtain e d1 where c: "dreamCommit opts env records ms (capTokens (dePartialChar env) (dmSummary answer) DREAM_MAX_OUTPUT_TOKENS) d = (e, d1)"
        by fastforce
      show thesis
      proof (cases "isDreamEligible (doState opts) (length records) (sum_list (map (utf8Length \<circ> mmBody \<circ> mrMemory) records)) (deNow env 0) = None
          \<and> deAcquire env = Lo_ok \<and> deRenewBefore env = Lo_ok \<and> deRenewAfter env = Lo_ok \<and> deNow env 2 \<le> deNow env 1 + DREAM_WALL_MS
          \<and> deNow env 3 \<le> deNow env 1 + DREAM_WALL_MS")
        case True
        with assms Inr Some c show thesis
          by (intro commit[of ?inp answer ms e])
            (auto simp: runDream_def dreamLocked_def dreamAnswered_def Let_def buildModelInput_def split: option.splits if_splits)
      next
        case False
        with assms Inr Some show thesis
          by (intro unchanged)
            (auto simp: runDream_def dreamLocked_def dreamAnswered_def Let_def split: option.splits lockOutcome.splits if_splits prod.splits)
      qed
    qed
  qed
qed

lemma validated_names: "validateProposals ps = Some ms \<Longrightarrow> map mmName ms = map ppName ps"
proof (induction ps arbitrary: ms)
  case (Cons p ps)
  then obtain f ms' where f: "parseFrontmatter (proposalFields p) = Inr f" "validateProposals ps = Some ms'" "ms = memoryWith f (ppBody p) # ms'"
    by (auto split: sum.splits)
  then have "mmName f = ppName p" by (auto simp: parseFrontmatter_def proposalFields_def split: if_splits)
  with f Cons.IH[OF f(2)] show ?case by (simp add: memoryWith_def frontmatter.defs memory.defs)
qed simp










text \<open>
  The index is replaced as a whole or not at all: a run that does not commit leaves it as it was, even one
  that throws after it has removed or rewritten memories.
\<close>
theorem dream_index_whole:
  assumes "runDream opts env records d = (res, d')" "distinctPaths opts records"
    and "\<And>r. res = Inr r \<Longrightarrow> \<not> drWritten r"
  shows "d' (indexPathOf opts) = d (indexPathOf opts)"
  using assms(1)
proof (cases rule: runDream_cases)
  case (commit answer ms e inp)
  have "e \<noteq> None" using commit(12,13) assms(3) by blast
  with commit(10) commit_fails_index[OF _ assms(2)] show ?thesis by (cases e) auto
qed simp

text \<open>
  C14: A survivor that was left out of the input of the model for its size is deleted when the model answers with a
  set of its own, even if that set has nothing but memories that the model was shown.
\<close>
theorem dream_deletes_unseen:
  assumes "runDream opts env records d = (Inr res, d')" "drWritten res" "distinctPaths opts records"
    and "inp = fst (buildModelInput (cpKept (consolidateMemories records (doStaleBefore opts)))
      (cpConflicts (consolidateMemories records (doStaleBefore opts))))"
    and "deSummarize env inp = Inr answer" "dmMemories answer = Some ps" "set (map ppName ps) \<subseteq> set (map mmName (diMemories inp))"
    and "r \<in> set (cpKept (consolidateMemories records (doStaleBefore opts)))" "mrMemory r \<notin> set (diMemories inp)"
    and "pathOf r = memoryFile (doPlatform opts) (doDir opts) (mrMemory r)"
  shows "d' (pathOf r) = None"
  using assms(1)
proof (cases rule: runDream_cases)
  case (commit answer' ms e inp')
  let ?kept = "cpKept (consolidateMemories records (doStaleBefore opts))"
  have same: "inp' = inp" "answer' = answer" using commit(7,8) assms(4,5) by auto
  have "validateProposals ps = Some ms" using commit(9) assms(6) by (simp add: same finalMemories_def)
  then have names: "set (map mmName ms) \<subseteq> set (map mmName (diMemories inp))"
    using validated_names assms(7) by fastforce
  have pre: "prefix (diMemories inp) (map mrMemory ?kept)" unfolding assms(4) buildModelInput_def Let_def using trimInput_prefix by simp
  have unseen: "nameOf r \<notin> set (map mmName (diMemories inp))"
  proof
    assume "nameOf r \<in> set (map mmName (diMemories inp))"
    then obtain m where m: "m \<in> set (diMemories inp)" "mmName m = nameOf r" by auto
    with pre obtain r' where "r' \<in> set ?kept" "mrMemory r' = m" using set_mono_prefix by fastforce
    with m assms(8,9) kept_names(2) show False by (fastforce simp: nameOf_def distinct_map inj_on_def)
  qed
  have "pathOf r \<notin> set (map (memoryFile (doPlatform opts) (doDir opts)) ms)"
  proof
    assume "pathOf r \<in> set (map (memoryFile (doPlatform opts) (doDir opts)) ms)"
    then obtain m where "m \<in> set ms" "mtJoin (doPlatform opts) [doDir opts, nameOf r @ ''.md''] = mtJoin (doPlatform opts) [doDir opts, mmName m @ ''.md'']"
      using assms(10) by (auto simp: memoryFile_def nameOf_def)
    with assms(3) have "nameOf r = mmName m" unfolding distinctPaths_def by (metis append_same_eq)
    with \<open>m \<in> set ms\<close> names unseen show False by auto
  qed
  moreover have "r \<in> set records" using assms(8) winnerOf_newest(1) by (auto simp: kept_of)
  moreover from this have "pathOf r \<noteq> indexPathOf opts" using assms(3) unfolding distinctPaths_def by (metis image_eqI list.set_map)
  moreover have "e = None" using commit(13) by blast
  ultimately show ?thesis using commit_removes[of opts env records ms _ d d' "pathOf r"] commit(10) by auto
qed (use assms(2) in blast)

subsection \<open>A concrete run\<close>

text \<open>One memory of 300000 characters, which does not fit, and a model that answers with an empty set.\<close>

definition bigMemory :: memory where
  "bigMemory = \<lparr>mmName = ''log'', mmDescription = ''d'', mmType = T_project, mmBody = replicate 300000 (CHR ''a'')\<rparr>"

definition bigRecord :: memoryRecord where
  "bigRecord = \<lparr>mrMemory = bigMemory, mrProvenance = \<lparr>mpScope = Sc_auto, mpPath = ''/m/log.md''\<rparr>, mrUpdatedAt = 0\<rparr>"

definition sampleDream :: dreamOptions where
  "sampleDream = \<lparr>doPlatform = \<lparr>mtJoin = joinWith ''/'', mtHash = id\<rparr>, doRedact = id, doDir = ''/m'', doScope = Sc_auto,
     doState = \<lparr>dsSessions = 5, dsLastConsolidationAt = None\<rparr>, doStaleBefore = None\<rparr>"

definition sampleNight :: dreamEnv where
  "sampleNight = \<lparr>deNow = (\<lambda>_. 0), deAcquire = Lo_ok, deRenewBefore = Lo_ok, deRenewAfter = Lo_ok,
     deSummarize = (\<lambda>_. Inr \<lparr>dmSummary = [], dmMemories = Some []\<rparr>), deWriteLock = (\<lambda>_. Lo_ok), deHookThrows = None, dePartialChar = []\<rparr>"

lemma length_utf8: "length s \<le> utf8Length s"
  by (induction s) (auto simp: utf8Length_def)

lemma jsonStr_length: "length s \<le> length (jsonStr s)"
proof (induction s)
  case (Cons c s)
  moreover have "1 \<le> length (jsonChar c)" by (simp add: jsonChar_def Let_def)
  ultimately show ?case by (simp add: jsonStr_def)
qed simp

lemma big_trimmed: "trimInput cs [bigMemory] = []"
proof -
  have "300000 \<le> length (jsonStr (mmBody bigMemory))" using jsonStr_length[of "mmBody bigMemory"] by (simp add: bigMemory_def)
  then have "300000 \<le> length (serializeInput [bigMemory] cs)"
    by (simp add: serializeInput_def jsonObject_def jsonArray_def printMemory_def)
  then have "DREAM_MAX_INPUT_TOKENS < estimateTokens (serializeInput [bigMemory] cs)"
    using length_utf8[of "serializeInput [bigMemory] cs"] by (simp add: estimateTokens_def DREAM_MAX_INPUT_TOKENS_def)
  then have "trimInput cs [bigMemory] = trimInput cs []" by (subst trimInput.simps) simp
  then show ?thesis by (subst (asm) trimInput.simps) (simp add: trimInput.simps)
qed

lemma big_plan: "consolidateMemories [bigRecord] None = \<lparr>cpKept = [bigRecord], cpConflicts = [], cpRetired = []\<rparr>"
  by (simp add: consolidateMemories_def groups_distinct planStep_def resolveGroup_single isStaleRecord_def Let_def)

lemma sample_night [simp]:
  "deNow sampleNight n = 0" "deAcquire sampleNight = Lo_ok" "deRenewBefore sampleNight = Lo_ok" "deRenewAfter sampleNight = Lo_ok"
  "deSummarize sampleNight inp = Inr \<lparr>dmSummary = [], dmMemories = Some []\<rparr>"
  by (simp_all add: sampleNight_def)

lemma sample_commit: "\<exists>d'. dreamCommit sampleDream sampleNight rs [] s d = (None, d')"
  by (simp add: dreamCommit_def Let_def sampleNight_def)

lemma big_run:
  obtains r d' where "runDream sampleDream sampleNight [bigRecord] d = (Inr r, d')" "drWritten r"
proof -
  have "isDreamEligible (doState sampleDream) (length [bigRecord]) (sum_list (map (utf8Length \<circ> mmBody \<circ> mrMemory) [bigRecord])) 0 = None"
    using length_utf8[of "mmBody bigMemory"]
    by (simp add: isDreamEligible_def sampleDream_def bigRecord_def bigMemory_def DREAM_MIN_BYTES_def DREAM_MIN_SESSIONS_def)
  then have run: "runDream sampleDream sampleNight [bigRecord] d = dreamLocked sampleDream sampleNight [bigRecord] DREAM_WALL_MS d"
    unfolding runDream_def sample_night by (simp only: option.case lockOutcome.case Let_def add_0)
  obtain inp inTokens where inp: "buildModelInput (cpKept (consolidateMemories [bigRecord] (doStaleBefore sampleDream)))
      (cpConflicts (consolidateMemories [bigRecord] (doStaleBefore sampleDream))) = (inp, inTokens)" by fastforce
  obtain d' where "dreamCommit sampleDream sampleNight [bigRecord] [] (capTokens (dePartialChar sampleNight) [] DREAM_MAX_OUTPUT_TOKENS) d = (None, d')"
    using sample_commit by blast
  then show thesis using that unfolding run dreamLocked_def Let_def inp
    by (simp add: dreamAnswered_def finalMemories_def Let_def DREAM_WALL_MS_def)
qed

lemma sample_paths: "distinctPaths sampleDream [bigRecord]"
  by (simp add: distinctPaths_def sampleDream_def bigRecord_def indexPathOf_def MEMORY_INDEX_FILENAME_def pathOf_def)

lemma dream_deletes_unseen_witness: "snd (runDream sampleDream sampleNight [bigRecord] Map.empty) ''/m/log.md'' = None"
proof -
  obtain r d' where run: "runDream sampleDream sampleNight [bigRecord] Map.empty = (Inr r, d')" "drWritten r" by (rule big_run)
  have inp: "diMemories (fst (buildModelInput [bigRecord] [])) = []"
    using big_trimmed[of "[]"] by (simp add: buildModelInput_def bigRecord_def Let_def)
  have "d' (pathOf bigRecord) = None"
    by (rule dream_deletes_unseen[OF run sample_paths refl, where answer = "\<lparr>dmSummary = [], dmMemories = Some []\<rparr>" and ps = "[]"])
      (simp_all add: sampleDream_def sampleNight_def big_plan inp, simp add: bigRecord_def pathOf_def memoryFile_def bigMemory_def)
  then show ?thesis unfolding run by (simp add: pathOf_def bigRecord_def)
qed


lemma dream_index_whole_witness:
  "snd (runDream sampleDream (sampleNight\<lparr>deAcquire := Lo_refused\<rparr>) [] Map.empty) (indexPathOf sampleDream) = None"
proof -
  obtain res d' where run: "runDream sampleDream (sampleNight\<lparr>deAcquire := Lo_refused\<rparr>) [] Map.empty = (res, d')" by fastforce
  moreover have "\<not> drWritten r" if "res = Inr r" for r
    using run that by (auto simp: runDream_def sampleNight_def Let_def split: option.splits)
  moreover have "distinctPaths sampleDream []" using sample_paths by (simp add: distinctPaths_def)
  ultimately show ?thesis using dream_index_whole[OF run] by simp
qed

end
