(* ===== verification/Spec2Isabelle.thy ===== *)
theory Spec2Isabelle
  imports Policy_Exactness Task_Theorems Task_Todo Turn_Samples Event_Store_Theorems Cron_Polls Background_Theorems Agent_Theorems Hook_Theorems Context_Theorems Network_Theorems Session_Theorems Config_Guarantees Memory_Lock Memory_Format Memory_Recall Memory_Dream
begin

text \<open>
  qwen-harness is a headless harness for coding agents, a monorepo of TypeScript packages (\<^verbatim>\<open>src/packages\<close>) with
  applications on top of them (\<^verbatim>\<open>src/apps\<close>). This development models the packages that decide: what the agent
  may do, what is durable, how a turn runs, what it is shown, and what goes on beside it. The definitions
  are translated from the sources; the theorems say what they guarantee, and where they do not.

  How the parts interact. A turn (\<^verbatim>\<open>packages/runtime\<close>) asks a provider for a response, normalizes its stream and
  runs the tool calls of each round. Every call passes the hooks (\<^verbatim>\<open>packages/hooks\<close>) and the permission engine
  (\<^verbatim>\<open>packages/policy\<close>), whose managed ceiling comes from the configuration (\<^verbatim>\<open>packages/config\<close>); an ask goes to an
  approval channel. What happens is appended to the event store (\<^verbatim>\<open>packages/storage\<close>) before and after it
  happens, and projections, recovery, sessions, forks and exports are computed from that log. The context manager
  (\<^verbatim>\<open>packages/context\<close>, \<^verbatim>\<open>apps/cli/src/context.ts\<close>) prepares the conversation of each request. Subagents
  (\<^verbatim>\<open>packages/agents\<close>), background tasks (\<^verbatim>\<open>packages/background\<close>), scheduled jobs (\<^verbatim>\<open>packages/scheduler\<close>) and the task
  graph (\<^verbatim>\<open>packages/tasks\<close>) run beside the turn under the intersection of authorities. Requests leave through
  the broker (\<^verbatim>\<open>packages/network\<close>), and what comes back is sanitized (\<^verbatim>\<open>packages/protocol\<close>).

  Conventions. A struct is a record, a union a datatype, a thrown error a value of a sum type (\<^verbatim>\<open>Inl\<close>), a missing
  value an option. Stateful code is explicit state passing: the task graph and the stores in a transaction monad,
  the turn engine in a state and exception monad over a world type, which is whatever the injected ports act on
  (provider, tool executor, policy, hooks, approvals, clock, ids). Strings are lists of 8-bit code units, so
  lengths and slices agree with the code on Latin-1 text; the sanitizer, which looks at code units above U+00FF,
  works on lists of numbers instead. Integers of the sources are int or nat; the two FNV hashes (stableHash of
  the context, the jitter of the scheduler) are 32-bit words with their wrap-around. Fractions and the
  jitter of retries are exact rationals or reals where the code has doubles. Asynchronous code is modelled at its
  awaits: a port is a function on the world, a callback is a step.

  Foundations. \<^verbatim>\<open>Prelude\<close>: the operations of JavaScript strings, arrays and objects that the sources use, and
  the shared collections of hints. \<^verbatim>\<open>Protocol_Domain\<close>, \<^verbatim>\<open>Protocol_Events\<close>: \<^verbatim>\<open>domain.ts\<close>,
  \<^verbatim>\<open>errors.ts\<close> and \<^verbatim>\<open>events.ts\<close> of \<^verbatim>\<open>packages/protocol\<close>. \<^verbatim>\<open>Protocol_Sanitize\<close>: \<^verbatim>\<open>sanitize.ts\<close>; every output is free of
  control and deceptive characters, and sanitizing is idempotent. \<^verbatim>\<open>Event_Log\<close>: the locale event_store, an
  append-only log with a projection, whose consequences (the projection is the replay of the log, rebuilding
  changes nothing) are proved once and interpreted for the event store and for the task store.

  Policy. \<^verbatim>\<open>Policy_Action\<close> (\<^verbatim>\<open>action.ts\<close>: normalized actions, canonical JSON, digest), \<^verbatim>\<open>Policy_Paths\<close> and \<^verbatim>\<open>Policy_Glob\<close>
  (\<^verbatim>\<open>paths.ts\<close>: protected paths, and the compiled glob against the language it denotes), \<^verbatim>\<open>Policy_Rules\<close>
  (\<^verbatim>\<open>matcher.ts\<close>, \<^verbatim>\<open>rules.ts\<close>, \<^verbatim>\<open>grants.ts\<close>), \<^verbatim>\<open>Policy_Authority\<close> (\<^verbatim>\<open>managed.ts\<close>, \<^verbatim>\<open>authority.ts\<close>; locale authority_ceiling),
  \<^verbatim>\<open>Policy_Engine\<close> (\<^verbatim>\<open>engine.ts\<close>, one definition per stage). \<^verbatim>\<open>Policy_Guarantees\<close> states the abstract specification
  specEffect, a maximum of floors, which evaluate refines; \<^verbatim>\<open>Policy_Digest\<close>, \<^verbatim>\<open>Policy_Theorems\<close> and
  \<^verbatim>\<open>Policy_Exactness\<close> hold the injectivity of digests and the properties.

  Configuration. \<^verbatim>\<open>Config_Model\<close> (\<^verbatim>\<open>schema.ts\<close>, \<^verbatim>\<open>sources.ts\<close>, the strategies of \<^verbatim>\<open>resolve.ts\<close>), \<^verbatim>\<open>Config_Resolve\<close> (the resolver,
  provenance, \<^verbatim>\<open>migrations.ts\<close>, \<^verbatim>\<open>load.ts\<close>, and \<^verbatim>\<open>apps/cli/src/policy-from-config.ts\<close>). \<^verbatim>\<open>Config_Theorems\<close>: the
  resolver equals the documented precedence, stays within every ceiling, and its denies are enforced by the
  permission engine; \<^verbatim>\<open>Config_Guarantees\<close>: what loads is well-formed, every key has a source, migration is idempotent.

  Turns. \<^verbatim>\<open>Turn_Machine\<close>, \<^verbatim>\<open>Turn_Normalizer\<close>, \<^verbatim>\<open>Turn_Retry\<close> (\<^verbatim>\<open>turn-machine.ts\<close>, \<^verbatim>\<open>budget.ts\<close>, the stream events and
  usage of \<^verbatim>\<open>packages/provider-core\<close>, \<^verbatim>\<open>retry.ts\<close>), \<^verbatim>\<open>Turn_Effects\<close>, \<^verbatim>\<open>Turn_Tools\<close> and \<^verbatim>\<open>Turn_Engine\<close> (\<^verbatim>\<open>turn-engine.ts\<close>: the
  ports, the tool phase, the loop, run and resume). The trace of a turn is a ghost list of what it did. The locale
  engine_relation carries a relation over the engine's operations; its interpretations (steady, plainly, mute) give
  \<^verbatim>\<open>Turn_Runs\<close> to \<^verbatim>\<open>Turn_Pairing\<close>: the discipline of the trace, how a turn ends, its bounds, and the pairing of calls
  and results. \<^verbatim>\<open>Tool_Scheduler\<close>: \<^verbatim>\<open>packages/tools-core\<close> and the wired batches (locale call_planner).
  \<^verbatim>\<open>Turn_Samples\<close>: concrete turns.

  Storage and sessions. \<^verbatim>\<open>Event_Store\<close> and \<^verbatim>\<open>Event_Store_Theorems\<close> (\<^verbatim>\<open>packages/storage/src/event-store.ts\<close>): atomic appends, gapless
  threads, rebuilding, the recovery guard. \<^verbatim>\<open>Session_Model\<close> and \<^verbatim>\<open>Session_Theorems\<close> (\<^verbatim>\<open>apps/cli/src/sessions.ts\<close>,
  \<^verbatim>\<open>packages/storage/src/export.ts\<close>): a fork has the history of its original, an export comes back.

  Tasks. \<^verbatim>\<open>Task_Deps\<close>, \<^verbatim>\<open>Task_Store\<close>, \<^verbatim>\<open>Task_Graph\<close>, \<^verbatim>\<open>Task_Todo\<close> (\<^verbatim>\<open>packages/tasks\<close>, \<^verbatim>\<open>packages/storage/src/task-store.ts\<close>).
  \<^verbatim>\<open>Task_Abstract\<close> is the abstract graph with its step relation; \<^verbatim>\<open>Task_Refinement\<close> simulates every operation in it.

  Scheduler. \<^verbatim>\<open>Cron_Expr\<close>, \<^verbatim>\<open>Cron_Theorems\<close>, \<^verbatim>\<open>Cron_Search\<close> (\<^verbatim>\<open>cron.ts\<close>; locale steady_zone, interpreted on fixed offsets), \<^verbatim>\<open>Cron_Job\<close>,
  \<^verbatim>\<open>Cron_Scheduler\<close> (\<^verbatim>\<open>job.ts\<close>, \<^verbatim>\<open>store.ts\<close>, \<^verbatim>\<open>scheduler.ts\<close>), \<^verbatim>\<open>Cron_Runs\<close> (histories and the machine of a single job that they
  refine), \<^verbatim>\<open>Cron_Guarantees\<close>, \<^verbatim>\<open>Cron_Restart\<close>, \<^verbatim>\<open>Cron_Polls\<close>.

  Beside the turn. \<^verbatim>\<open>Background_Queue\<close>, \<^verbatim>\<open>Background_Manager\<close>, \<^verbatim>\<open>Background_Runs\<close>, \<^verbatim>\<open>Background_Theorems\<close> (\<^verbatim>\<open>packages/background\<close>);
  \<^verbatim>\<open>Agent_Supervisor\<close>, \<^verbatim>\<open>Agent_Theorems\<close> (\<^verbatim>\<open>packages/agents\<close> and the delegate port of \<^verbatim>\<open>apps/cli\<close>); \<^verbatim>\<open>Hook_Registry\<close>, \<^verbatim>\<open>Hook_Engine\<close>,
  \<^verbatim>\<open>Hook_Theorems\<close> (\<^verbatim>\<open>packages/hooks\<close> and the adapter for turns); \<^verbatim>\<open>Context_Budget\<close>, \<^verbatim>\<open>Context_Compaction\<close>, \<^verbatim>\<open>Context_Manager\<close>,
  \<^verbatim>\<open>Context_Pairing\<close>, \<^verbatim>\<open>Context_Theorems\<close> (\<^verbatim>\<open>packages/context\<close> and the manager of \<^verbatim>\<open>apps/cli\<close>); \<^verbatim>\<open>Network_Broker\<close>, \<^verbatim>\<open>Network_Theorems\<close>
  (\<^verbatim>\<open>packages/network/src/broker.ts\<close>).

  Memory. \<^verbatim>\<open>Memory_Format\<close> (\<^verbatim>\<open>frontmatter.ts\<close>, \<^verbatim>\<open>dedup.ts\<close>, \<^verbatim>\<open>index-file.ts\<close> of \<^verbatim>\<open>packages/memory\<close>: a memory that is written reads back,
  the load of the index is capped), \<^verbatim>\<open>Memory_Recall\<close> (\<^verbatim>\<open>scopes.ts\<close>, \<^verbatim>\<open>retrieval.ts\<close>: budgets, ranks, and every match accounted for),
  \<^verbatim>\<open>Memory_Consolidation\<close> (\<^verbatim>\<open>consolidation.ts\<close>, \<^verbatim>\<open>extraction.ts\<close>, \<^verbatim>\<open>store.ts\<close> and \<^verbatim>\<open>apps/cli/src/memory.ts\<close>: the newest of every name is
  kept, nothing with a secret is stored), \<^verbatim>\<open>Memory_Dream\<close> (\<^verbatim>\<open>dream.ts\<close>: a run commits behind its gates, the index is
  replaced as a whole) and \<^verbatim>\<open>Memory_Lock\<close> (\<^verbatim>\<open>lock.ts\<close>: any number of writers that interleave at their awaits exclude each other
  unless a lock is taken for stale; the empty file of a fresh lock is).

  Loops, fuel and bounds. The loop of a turn runs with fuel driveFuel, one more than the model calls of its budget;
  turn_terminates shows that it never runs out, because each iteration takes a call from the budget. The minute
  search of a cron expression is bounded in the code itself (MAX_SEARCH_MINUTES, five leap years of minutes). The two
  loops of the scheduler that skip to an instant are partial functions into option, so that not returning is the
  value None: polls_return shows that they return in a zone without transitions, and another theorem exhibits a poll
  that does not when daylight saving time ends. The broker's redirects count down from maxRedirects + 1, as in the code. All
  other recursion is structural or has a measure.

  Parameters. SHA-256, Unicode normalization, the time zone, the URL parser, JSON.parse at untyped data, UTF-8, the
  provider, executors, runners, durable sinks and summarizers are arguments. What is assumed of one of them stands
  as a premise of the theorem that needs it (injectivity of the hash on the digests compared, a parser that reads
  what was printed, a sink that stores what it is given) and is discharged for a concrete function in its witness.

  Where the code fails its intent, the theorem says so: results separated from their calls by a compaction, the
  pruned prompt of a resumed thread, memories deleted that the model was never shown, two writers that hold one
  lock, a fresh intent that hides an earlier effect from the recovery guard, IPv6 hosts and
  the SSRF guard, deny entries that name hosts, the poll that never returns.

  Not modelled: the bodies of the built-in tools and of the tool worker, the sandbox, git worktrees, the secret store, the MCP
  and DashScope transports, telemetry files, the terminal interface, the daemon and the command line's own
  glue. They run processes, sockets, files or a terminal, and their decisions are taken by the parts above. Of the
  modelled files, log lines and texts for people are kept only where a caller reads them.
\<close>

end
